(* ===== verification/RustStr.thy ===== *)
theory RustStr
  imports Prelude
begin

text \<open>
  The string functions of the Rust standard library that look inside a string: UTF-8
  decoding (\<open>from_utf8\<close>, \<open>chars\<close>), the Unicode classes \<open>is_control\<close> and
  \<open>is_whitespace\<close>, \<open>trim\<close>, \<open>split_whitespace\<close>, \<open>split_inclusive\<close>, \<open>lines\<close>,
  \<open>split\<close>, \<open>parse::<usize>\<close>. A string is its list of bytes. The lemmas show that cutting
  a valid string at a character start gives two valid strings, which is why no slice taken
  by the edit engine panics.
\<close>

section \<open>UTF-8\<close>

abbreviation byte :: "char \<Rightarrow> nat" where
  "byte c \<equiv> of_char c"

abbreviation LF :: char where "LF \<equiv> CHR 0x0A"
abbreviation CR :: char where "CR \<equiv> CHR 0x0D"

definition cont :: "char \<Rightarrow> bool" where
  "cont c \<longleftrightarrow> 128 \<le> byte c \<and> byte c \<le> 191"

definition ok3 :: "nat \<Rightarrow> nat \<Rightarrow> bool" where
  "ok3 x y \<longleftrightarrow> (if x = 224 then 160 \<le> y \<and> y \<le> 191
             else if x = 237 then 128 \<le> y \<and> y \<le> 159 else 128 \<le> y \<and> y \<le> 191)"

definition ok4 :: "nat \<Rightarrow> nat \<Rightarrow> bool" where
  "ok4 x y \<longleftrightarrow> (if x = 240 then 144 \<le> y \<and> y \<le> 191
             else if x = 244 then 128 \<le> y \<and> y \<le> 143 else 128 \<le> y \<and> y \<le> 191)"

text \<open>The first character of a string: its code point, its bytes, and the rest.\<close>

definition utf8_step :: "string \<Rightarrow> ((nat \<times> string) \<times> string) option" where
  "utf8_step s = (case s of
     [] \<Rightarrow> None
   | a # s0 \<Rightarrow>
     if byte a < 128 then Some ((byte a, [a]), s0)
     else (case s0 of [] \<Rightarrow> None | b # s1 \<Rightarrow>
       if 194 \<le> byte a \<and> byte a \<le> 223 then
         (if cont b then Some (((byte a - 192) * 64 + (byte b - 128), [a, b]), s1) else None)
       else (case s1 of [] \<Rightarrow> None | c # s2 \<Rightarrow>
         if 224 \<le> byte a \<and> byte a \<le> 239 then
           (if ok3 (byte a) (byte b) \<and> cont c then
              Some (((byte a - 224) * 4096 + (byte b - 128) * 64 + (byte c - 128), [a, b, c]), s2)
            else None)
         else (case s2 of [] \<Rightarrow> None | d # s3 \<Rightarrow>
           if 240 \<le> byte a \<and> byte a \<le> 244 \<and> ok4 (byte a) (byte b) \<and> cont c \<and> cont d then
             Some (((byte a - 240) * 262144 + (byte b - 128) * 4096
                 + (byte c - 128) * 64 + (byte d - 128), [a, b, c, d]), s3)
           else None))))"

lemma ok34_cont: "ok3 x (byte b) \<Longrightarrow> cont b" "ok4 x (byte b) \<Longrightarrow> cont b"
  by (auto simp: ok3_def ok4_def cont_def split: if_splits)

lemma utf8_step_Some:
  "utf8_step s = Some (ch, r) \<Longrightarrow> s = snd ch @ r \<and> snd ch \<noteq> []"
  by (auto simp: utf8_step_def split: if_splits list.splits)

lemma utf8_step_append:
  "utf8_step s = Some (ch, r) \<Longrightarrow> utf8_step (s @ t) = Some (ch, r @ t)"
  by (auto simp: utf8_step_def split: if_splits list.splits)

text \<open>All the characters of a string with their bytes; \<open>None\<close> is invalid UTF-8.\<close>

function utf8 :: "string \<Rightarrow> (nat \<times> string) list option" where
  "utf8 [] = Some []"
| "utf8 (a # s) = (case utf8_step (a # s) of None \<Rightarrow> None
     | Some (ch, r) \<Rightarrow> map_option ((#) ch) (utf8 r))"
  by pat_completeness auto
termination
proof (relation "measure length")
  fix a :: char and s r :: string and x :: "(nat \<times> string) \<times> string" and ch
  assume "utf8_step (a # s) = Some x" "(ch, r) = x"
  then have "a # s = snd ch @ r" "snd ch \<noteq> []" using utf8_step_Some by blast+
  then have "length (a # s) = length (snd ch) + length r" "0 < length (snd ch)" by simp_all
  then show "(r, a # s) \<in> measure length" by simp
qed simp

lemma utf8_ascii [simp]: "byte a < 128 \<Longrightarrow> utf8 (a # s) = map_option ((#) (byte a, [a])) (utf8 s)"
  by (simp add: utf8_step_def)

lemmas utf8_Cons = utf8.simps(2)
declare utf8.simps(2) [simp del]

definition valid_utf8 :: "string \<Rightarrow> bool" where
  "valid_utf8 s \<longleftrightarrow> utf8 s \<noteq> None"

text \<open>\<open>from_utf8\<close>; a value of type \<open>str\<close> is always valid.\<close>

definition from_utf8 :: "string \<Rightarrow> string option" where
  "from_utf8 s = (if valid_utf8 s then Some s else None)"

definition chars :: "string \<Rightarrow> (nat \<times> string) list" where
  "chars s = (case utf8 s of Some cs \<Rightarrow> cs | None \<Rightarrow> [])"

lemma valid_Nil [simp]: "valid_utf8 []"
  by (simp add: valid_utf8_def)

lemma valid_ascii_Cons [simp]: "byte a < 128 \<Longrightarrow> valid_utf8 (a # s) \<longleftrightarrow> valid_utf8 s"
  by (simp add: valid_utf8_def)

lemma valid_LF [simp]: "valid_utf8 (LF # s) \<longleftrightarrow> valid_utf8 s"
  and valid_CR [simp]: "valid_utf8 (CR # s) \<longleftrightarrow> valid_utf8 s"
  by simp_all

lemma from_utf8_Some [simp]: "from_utf8 s = Some t \<longleftrightarrow> valid_utf8 s \<and> t = s"
  by (auto simp: from_utf8_def)

lemma from_utf8_None [simp]: "from_utf8 s = None \<longleftrightarrow> \<not> valid_utf8 s"
  by (auto simp: from_utf8_def)

lemma utf8_concat: "utf8 s = Some cs \<Longrightarrow> concat (map snd cs) = s"
proof (induction s arbitrary: cs rule: utf8.induct)
  case (2 a s)
  then show ?case
    by (auto simp: utf8_Cons split: option.splits prod.splits dest: utf8_step_Some)
qed simp

lemma chars_concat: "valid_utf8 s \<Longrightarrow> concat (map snd (chars s)) = s"
  by (auto simp: valid_utf8_def chars_def utf8_concat)

lemma valid_step:
  "valid_utf8 s \<longleftrightarrow> s = [] \<or> (\<exists>ch r. utf8_step s = Some (ch, r) \<and> valid_utf8 r)"
  by (cases s) (auto simp: valid_utf8_def utf8_Cons split: option.splits)

lemma valid_induct [consumes 1, case_names Nil Char]:
  assumes "valid_utf8 s" and "P []"
    and "\<And>s ch r. utf8_step s = Some (ch, r) \<Longrightarrow> valid_utf8 r \<Longrightarrow> P r \<Longrightarrow> P s"
  shows "P s"
  using assms(1)
proof (induction s rule: length_induct)
  case (1 s)
  show ?case
  proof (cases s)
    case Nil
    then show ?thesis using assms(2) by simp
  next
    case (Cons a t)
    with 1(2) obtain ch r where st: "utf8_step s = Some (ch, r)" "valid_utf8 r"
      using valid_step by blast
    then have "s = snd ch @ r" "snd ch \<noteq> []" using utf8_step_Some by blast+
    then have "length r < length s" by simp
    with 1(1) st show ?thesis using assms(3) by blast
  qed
qed

text \<open>A character start: the end of the string or a byte that is not a continuation byte.\<close>

definition char_start :: "string \<Rightarrow> bool" where
  "char_start s \<longleftrightarrow> (case s of [] \<Rightarrow> True | c # _ \<Rightarrow> \<not> cont c)"

lemma char_start_simps [simp]: "char_start []" "char_start (c # s) \<longleftrightarrow> \<not> cont c"
  by (simp_all add: char_start_def)

lemma utf8_step_start: "utf8_step s = Some (ch, r) \<Longrightarrow> char_start s"
  by (auto simp: utf8_step_def cont_def split: if_splits list.splits)

lemma valid_char_start: "valid_utf8 s \<Longrightarrow> char_start s"
  using valid_step [of s] by (auto intro: utf8_step_start)

lemma char_start_append [simp]: "s \<noteq> [] \<Longrightarrow> char_start (s @ t) = char_start s"
  by (cases s) simp_all

text \<open>A character read from \<open>s @ t\<close> lies within \<open>s\<close> when \<open>t\<close> begins a character.\<close>

lemma utf8_step_within:
  assumes "utf8_step (s @ t) = Some (ch, r)" and "char_start t" and "s \<noteq> []"
  shows "\<exists>r'. utf8_step s = Some (ch, r') \<and> r = r' @ t"
proof -
  obtain a s0 where s: "s = a # s0" using assms(3) by (cases s) auto
  show ?thesis
  proof (cases s0)
    case Nil
    with s assms show ?thesis
      by (cases t) (auto simp: utf8_step_def dest: ok34_cont split: if_splits list.splits)
  next
    case c1: (Cons b s1)
    show ?thesis
    proof (cases s1)
      case Nil
      with s c1 assms show ?thesis
        by (cases t) (auto simp: utf8_step_def split: if_splits list.splits)
    next
      case c2: (Cons c s2)
      with s c1 assms show ?thesis
        by (cases s2; cases t) (auto simp: utf8_step_def split: if_splits)
    qed
  qed
qed

lemma valid_append: "valid_utf8 a \<Longrightarrow> valid_utf8 (a @ b) \<longleftrightarrow> valid_utf8 b"
proof (induction a rule: valid_induct)
  case (Char s ch r)
  then have "utf8_step (s @ b) = Some (ch, r @ b)" "s \<noteq> []"
    using utf8_step_append utf8_step_Some by fastforce+
  with Char show ?case by (subst valid_step) auto
qed simp

lemma valid_split: "valid_utf8 (a @ b) \<Longrightarrow> char_start b \<Longrightarrow> valid_utf8 a"
proof (induction a rule: length_induct)
  case (1 a)
  show ?case
  proof (cases "a = []")
    case False
    with 1(2) obtain ch r where st: "utf8_step (a @ b) = Some (ch, r)" "valid_utf8 r"
      by (auto simp: valid_step [of "a @ b"])
    with False 1(3) obtain r' where r': "utf8_step a = Some (ch, r')" "r = r' @ b"
      using utf8_step_within by blast
    then have "a = snd ch @ r'" "snd ch \<noteq> []" using utf8_step_Some by blast+
    then have "length r' < length a" by simp
    with 1(1,3) st(2) r'(2) have "valid_utf8 r'" by blast
    with r'(1) show ?thesis by (subst valid_step) blast
  qed simp
qed

lemma valid_split_both:
  "valid_utf8 (a @ b) \<Longrightarrow> char_start b \<Longrightarrow> valid_utf8 a \<and> valid_utf8 b"
  using valid_split valid_append by blast

text \<open>A valid needle cuts a valid string into three valid parts.\<close>

lemma valid_match_parts:
  assumes "valid_utf8 (a @ n @ b)" and "valid_utf8 n" and "n \<noteq> []"
  shows "valid_utf8 a \<and> valid_utf8 b"
proof -
  from assms(2,3) have "char_start (n @ b)"
    by (cases n) (auto dest: valid_char_start)
  with assms(1) have "valid_utf8 a" and "valid_utf8 (n @ b)"
    using valid_split_both by blast+
  with assms(2) show ?thesis by (simp add: valid_append)
qed

lemma valid_LF_parts: "valid_utf8 (a @ LF # b) \<longleftrightarrow> valid_utf8 a \<and> valid_utf8 b"
proof -
  have "char_start (LF # b)" by (simp add: cont_def)
  then show ?thesis using valid_split_both [of a "LF # b"] by (auto simp: valid_append)
qed

section \<open>Character classes, trimming, words\<close>

definition is_control :: "nat \<Rightarrow> bool" where
  "is_control k \<longleftrightarrow> k < 32 \<or> (127 \<le> k \<and> k \<le> 159)"

definition is_whitespace :: "nat \<Rightarrow> bool" where
  "is_whitespace k \<longleftrightarrow> (9 \<le> k \<and> k \<le> 13) \<or> k = 32 \<or> k = 133 \<or> k = 160 \<or> k = 5760
     \<or> (8192 \<le> k \<and> k \<le> 8202) \<or> k = 8232 \<or> k = 8233 \<or> k = 8239 \<or> k = 8287 \<or> k = 12288"

definition has_control :: "string \<Rightarrow> bool" where
  "has_control s \<longleftrightarrow> list_ex (\<lambda>(k, _). is_control k) (chars s)"

definition trim :: "string \<Rightarrow> string" where
  "trim s = (let ws = (\<lambda>(k, _). is_whitespace k)
             in concat (map snd (rev (dropWhile ws (rev (dropWhile ws (chars s)))))))"

fun words_of :: "(nat \<times> string) list \<Rightarrow> string \<Rightarrow> string list" where
  "words_of [] w = (if w = [] then [] else [w])"
| "words_of ((k, b) # cs) w =
     (if is_whitespace k then (if w = [] then words_of cs [] else w # words_of cs [])
      else words_of cs (w @ b))"

definition split_whitespace :: "string \<Rightarrow> string list" where
  "split_whitespace s = words_of (chars s) []"

section \<open>Lines\<close>

fun split_inclusive :: "string \<Rightarrow> string list" where
  "split_inclusive [] = []"
| "split_inclusive (c # cs) =
     (if c = LF then [c] # split_inclusive cs
      else (case split_inclusive cs of [] \<Rightarrow> [[c]] | l # ls \<Rightarrow> (c # l) # ls))"

definition chomp :: "string \<Rightarrow> string" where
  "chomp l = (case strip_suffix [LF] l of None \<Rightarrow> l
              | Some t \<Rightarrow> (case strip_suffix [CR] t of None \<Rightarrow> t | Some u \<Rightarrow> u))"

definition str_lines :: "string \<Rightarrow> string list" where
  "str_lines s = map chomp (split_inclusive s)"

lemma split_inclusive_concat [simp]: "concat (split_inclusive s) = s"
  by (induction s) (auto split: list.splits)

lemma split_inclusive_nonempty: "l \<in> set (split_inclusive s) \<Longrightarrow> l \<noteq> []"
  by (induction s arbitrary: l) (auto split: list.splits if_splits)

lemma split_inclusive_Nil_iff [simp]: "split_inclusive s = [] \<longleftrightarrow> s = []"
  by (cases s) (auto split: list.splits)

lemma split_inclusive_LF: "split_inclusive (a @ LF # b) =
    split_inclusive (a @ [LF]) @ split_inclusive b"
proof (induction a)
  case (Cons x a)
  have "split_inclusive (a @ [LF]) \<noteq> []" by simp
  then obtain l ls where "split_inclusive (a @ [LF]) = l # ls" by (cases "split_inclusive (a @ [LF])") auto
  with Cons show ?case by simp
qed simp

lemma split_inclusive_no_LF: "LF \<notin> set s \<Longrightarrow> s \<noteq> [] \<Longrightarrow> split_inclusive s = [s]"
proof (induction s)
  case (Cons c s)
  then show ?case by (cases s) auto
qed simp

lemma split_inclusive_line: "LF \<notin> set a \<Longrightarrow> split_inclusive (a @ [LF]) = [a @ [LF]]"
  by (induction a) auto

lemma split_inclusive_append_line:
  "LF \<notin> set a \<Longrightarrow> split_inclusive (a @ LF # b) = (a @ [LF]) # split_inclusive b"
  by (subst split_inclusive_LF) (simp add: split_inclusive_line)

section \<open>Splitting and parsing\<close>

function split_str :: "string \<Rightarrow> string \<Rightarrow> string list" where
  "split_str n s =
     (if n = [] then [s] else
      (case find_sub n s of None \<Rightarrow> [s]
       | Some i \<Rightarrow> take i s # split_str n (drop (i + length n) s)))"
  by pat_completeness auto
termination
proof (relation "measure (\<lambda>(n, s). length s)")
  fix n s :: string and i
  assume "n \<noteq> []" "find_sub n s = Some i"
  moreover from this have "i + length n \<le> length s" by (simp add: find_sub_Some)
  ultimately show "((n, drop (i + length n) s), n, s) \<in> measure (\<lambda>(n, s). length s)"
    by (cases n) auto
qed simp

declare split_str.simps [simp del]

fun split_char :: "char \<Rightarrow> string \<Rightarrow> string list" where
  "split_char d [] = [[]]"
| "split_char d (c # cs) =
     (if c = d then [] # split_char d cs
      else (case split_char d cs of [] \<Rightarrow> [[c]] | l # ls \<Rightarrow> (c # l) # ls))"

fun split_once :: "char \<Rightarrow> string \<Rightarrow> (string \<times> string) option" where
  "split_once d [] = None"
| "split_once d (c # cs) =
     (if c = d then Some ([], cs) else map_option (\<lambda>(a, b). (c # a, b)) (split_once d cs))"

text \<open>\<open>trim_end_matches\<close> with a character.\<close>

definition trim_end_char :: "char \<Rightarrow> string \<Rightarrow> string" where
  "trim_end_char c s = rev (dropWhile (\<lambda>x. x = c) (rev s))"

definition usize_max :: nat where
  "usize_max = 18446744073709551615"

definition is_digit :: "char \<Rightarrow> bool" where
  "is_digit c \<longleftrightarrow> 48 \<le> byte c \<and> byte c \<le> 57"

definition digits_value :: "string \<Rightarrow> nat" where
  "digits_value s = foldl (\<lambda>v c. 10 * v + (byte c - 48)) 0 s"

text \<open>\<open>parse::<usize>\<close>: an optional plus sign, at least one digit, no overflow.\<close>

definition parse_usize :: "string \<Rightarrow> nat option" where
  "parse_usize s =
     (let ds = (case s of c # cs \<Rightarrow> if c = CHR ''+'' then cs else s | [] \<Rightarrow> s)
      in if ds \<noteq> [] \<and> list_all is_digit ds \<and> digits_value ds \<le> usize_max
         then Some (digits_value ds) else None)"

text \<open>Decimal rendering of an unsigned integer, and its zero-padded form \<open>{:06}\<close>.\<close>

definition digit_char :: "nat \<Rightarrow> char" where
  "digit_char n = char_of (48 + n mod 10)"

fun dec :: "nat \<Rightarrow> string" where
  "dec n = (if n < 10 then [digit_char n] else dec (n div 10) @ [digit_char n])"

declare dec.simps [simp del]

definition dec_pad :: "nat \<Rightarrow> nat \<Rightarrow> string" where
  "dec_pad w n = replicate (w - length (dec n)) (CHR ''0'') @ dec n"

lemma byte_digit_char [simp]: "byte (digit_char n) = 48 + n mod 10"
proof -
  have "n mod 10 < 10" by simp
  then have "48 + n mod 10 < 256" by linarith
  then show ?thesis by (simp add: digit_char_def)
qed

lemma dec_digits: "list_all is_digit (dec n)"
proof (induction n rule: dec.induct)
  case (1 n)
  have "n mod 10 \<le> 9" by (simp add: less_Suc_eq_le [symmetric])
  then have "is_digit (digit_char n)" by (simp add: is_digit_def)
  with 1 show ?case by (simp add: dec.simps [of n])
qed

lemma dec_nonempty [simp]: "dec n \<noteq> []"
  by (simp add: dec.simps [of n])

lemma digits_value_dec [simp]: "digits_value (dec n) = n"
proof (induction n rule: dec.induct)
  case (1 n)
  show ?case
  proof (cases "n < 10")
    case False
    with 1 have "digits_value (dec n) = 10 * (n div 10) + n mod 10"
      by (simp add: dec.simps [of n] digits_value_def)
    then show ?thesis by simp
  qed (simp add: dec.simps [of n] digits_value_def)
qed

lemma parse_usize_dec: "n \<le> usize_max \<Longrightarrow> parse_usize (dec n) = Some n"
proof -
  assume n: "n \<le> usize_max"
  have "hd (dec n) \<noteq> CHR ''+''"
  proof
    assume "hd (dec n) = CHR ''+''"
    moreover have "is_digit (hd (dec n))"
      using dec_digits [of n] dec_nonempty [of n] by (simp add: list_all_iff)
    ultimately show False by (simp add: is_digit_def)
  qed
  then have "(case dec n of c # cs \<Rightarrow> if c = CHR ''+'' then cs else dec n | [] \<Rightarrow> dec n) = dec n"
    by (cases "dec n") auto
  with n show ?thesis by (simp add: parse_usize_def Let_def dec_digits)
qed

lemma dec_length_bound: "n < 10 ^ k \<Longrightarrow> 0 < k \<Longrightarrow> length (dec n) \<le> k"
proof (induction n arbitrary: k rule: dec.induct)
  case (1 n)
  show ?case
  proof (cases "n < 10")
    case False
    then have "k \<noteq> 1" using 1(2) by auto
    with 1(3) obtain j where k: "k = Suc j" "0 < j" by (cases k) auto
    with 1(2) have "n div 10 < 10 ^ j" by (simp add: less_mult_imp_div_less mult.commute)
    with 1(1) False k have "length (dec (n div 10)) \<le> j" by simp
    with k False show ?thesis by (simp add: dec.simps [of n])
  qed (use 1 in \<open>simp add: dec.simps [of n] Suc_le_eq\<close>)
qed

lemma dec_inj: "dec m = dec n \<Longrightarrow> m = n"
  by (metis digits_value_dec)

lemma parse_usize_bound: "parse_usize s = Some n \<Longrightarrow> n \<le> usize_max"
  by (auto simp: parse_usize_def Let_def split: if_splits)

lemma split_char_nonempty [simp]: "split_char d s \<noteq> []"
  by (induction s) (auto split: list.splits)

end
