(* ===== verification/Stores.thy ===== *)
theory Stores
  imports RustStr "HOL-Library.Char_ord" "HOL-Library.List_Lexorder"
begin

text \<open>
  What the workspace-local stores share: messages, \<open>anyhow\<close> errors, the state of a JSON
  file, and paths as the list of their components.

  A formatted message is kept as its format string with its arguments (\<open>Fmt\<close>), so no
  information is lost and no rendering has to be modelled. A file that holds a JSON value is
  absent, unreadable (it cannot be read or does not parse), or holds the value; the JSON
  library itself is not modelled beyond \<^emph>\<open>what was written is what is read\<close>.
\<close>

datatype msg = Txt string | Num nat | Fmt string "msg list"

datatype io_kind = NotFound | OtherIo

text \<open>An \<open>anyhow::Error\<close>: a message, with the \<open>io::Error\<close> kind of its chain if it has one.\<close>

datatype anyhow = Plain msg | WithIo msg io_kind

fun anyhow_msg :: "anyhow \<Rightarrow> msg" where
  "anyhow_msg (Plain m) = m"
| "anyhow_msg (WithIo m k) = m"

datatype 'a stored = Absent | Corrupt | Stored 'a

text \<open>
  A directory with one JSON file per record: the file stems with their states, in the
  order the directory lists them.
\<close>

type_synonym 'a dir = "(string \<times> 'a stored) list"

definition dir_get :: "'a dir \<Rightarrow> string \<Rightarrow> 'a stored" where
  "dir_get d k = (case map_of d k of None \<Rightarrow> Absent | Some s \<Rightarrow> s)"

fun dir_put :: "string \<Rightarrow> 'a \<Rightarrow> 'a dir \<Rightarrow> 'a dir" where
  "dir_put k v [] = [(k, Stored v)]"
| "dir_put k v ((j, s) # d) = (if j = k then (k, Stored v) # d else (j, s) # dir_put k v d)"

definition dir_remove :: "string \<Rightarrow> 'a dir \<Rightarrow> 'a dir" where
  "dir_remove k d = filter (\<lambda>(j, _). j \<noteq> k) d"

lemma dir_get_put [simp]: "dir_get (dir_put k v d) j = (if j = k then Stored v else dir_get d j)"
  by (induction k v d rule: dir_put.induct) (auto simp: dir_get_def)

lemma dir_get_remove [simp]: "dir_get (dir_remove k d) j = (if j = k then Absent else dir_get d j)"
  by (induction d) (auto simp: dir_get_def dir_remove_def)

lemma dir_get_Nil [simp]: "dir_get [] k = Absent"
  by (simp add: dir_get_def)

text \<open>What the environment lets one store operation do: take its lock, publish its file.\<close>

record store_env =
  lock_ok :: bool
  write_ok :: bool

section \<open>Path components\<close>

text \<open>
  \<open>Path::components\<close> on a relative or absolute Unix path: empty components and \<open>.\<close>
  name nothing. (A leading \<open>.\<close> is reported by Rust as \<open>CurDir\<close>; no check in the code
  looks for it.)
\<close>

definition path_components :: "string \<Rightarrow> string list" where
  "path_components p = filter (\<lambda>c. c \<noteq> [] \<and> c \<noteq> ''.'') (split_char (CHR ''/'') p)"

definition is_absolute :: "string \<Rightarrow> bool" where
  "is_absolute p \<longleftrightarrow> starts_with p ''/''"

definition has_parent_component :: "string \<Rightarrow> bool" where
  "has_parent_component p \<longleftrightarrow> list_ex (\<lambda>c. c = ''..'') (split_char (CHR ''/'') p)"

definition file_name :: "string \<Rightarrow> string option" where
  "file_name p = (case rev (path_components p) of
      [] \<Rightarrow> None | c # _ \<Rightarrow> if c = ''..'' then None else Some c)"

text \<open>The file-name rule of the policy and grant stores; the agent store adds two limits.\<close>

definition is_safe_name :: "string \<Rightarrow> bool" where
  "is_safe_name i \<longleftrightarrow> i \<noteq> [] \<and> i \<noteq> ''.'' \<and> i \<noteq> ''..'' \<and> \<not> contains i ''/''
     \<and> \<not> contains i [CHR 0x5C] \<and> file_name i = Some i"

lemma split_char_no_sep: "d \<notin> set s \<Longrightarrow> split_char d s = [s]"
  by (induction s) auto

lemma split_char_member: "c \<in> set (split_char d s) \<Longrightarrow> d \<notin> set c"
proof (induction s arbitrary: c)
  case (Cons x xs)
  then show ?case
    by (cases "split_char d xs") (auto split: if_splits)
qed simp

lemma split_char_append:
  "split_char d (s @ d # t) = split_char d s @ split_char d t"
proof (induction s)
  case (Cons x xs)
  have "split_char d xs \<noteq> []" by simp
  then obtain l ls where "split_char d xs = l # ls" by (cases "split_char d xs") auto
  with Cons show ?case by simp
qed simp

lemma contains_char: "contains s [c] \<longleftrightarrow> c \<in> set s"
  unfolding contains_iff by (metis append_Cons append_Nil in_set_conv_decomp)

lemma is_safe_name_component:
  "is_safe_name i \<Longrightarrow> path_components i = [i] \<and> \<not> has_parent_component i"
  by (auto simp: is_safe_name_def contains_char path_components_def has_parent_component_def
      split_char_no_sep)

end
