(* ===== verification/Policy.thy ===== *)
theory Policy
  imports Stores
begin

text \<open>
  \<open>core/policy.rs\<close> and \<open>models/policy_rule.rs\<close>: the deny-only rule store
  \<open>.agent/policy.json\<close>. The whole store is one list of rules, read on every call. The
  lemmas characterise the path matching as a prefix relation on path components, show that
  rule ids stay unique, and how adding and removing rules changes what is denied.
\<close>

section \<open>Rules and the store\<close>

record policy_rule =
  pr_id :: string
  pr_tool :: string
  pr_pattern :: string
  pr_reason :: "string option"
  pr_created_at :: string

type_synonym policy_file = "policy_rule list stored"

definition supported_policy_tools :: "string list" where
  "supported_policy_tools =
     [''workspace.write_file'', ''workspace.delete_file'', ''terminal.run'',
      ''filesystem.replace'', ''filesystem.insert'', ''filesystem.delete_range'',
      ''filesystem.patch'', ''filesystem.apply_diff'', ''filesystem.rollback'']"

datatype policy_error =
  InvalidRuleId string
| UnsupportedTool string
| DuplicateRule string
| PolicyUnreadable
| PolicyLock
| PolicyWrite

definition policy_load :: "policy_file \<Rightarrow> policy_error + policy_rule list" where
  "policy_load f = (case f of Absent \<Rightarrow> Inr [] | Corrupt \<Rightarrow> Inl PolicyUnreadable | Stored rs \<Rightarrow> Inr rs)"

definition policy_save ::
    "store_env \<Rightarrow> policy_rule list \<Rightarrow> (policy_file, policy_error, unit) io" where
  "policy_save e rs = (\<lambda>f. if write_ok e then (Inr (), Stored rs) else (Inl PolicyWrite, f))"

definition is_safe_policy_id :: "string \<Rightarrow> bool" where
  "is_safe_policy_id i \<longleftrightarrow> is_safe_name i"

definition validate_rule :: "policy_rule \<Rightarrow> policy_error + unit" where
  "validate_rule r =
     (if \<not> is_safe_policy_id (pr_id r) then Inl (InvalidRuleId (pr_id r))
      else if \<not> List.member supported_policy_tools (pr_tool r) then Inl (UnsupportedTool (pr_tool r))
      else Inr ())"

definition policy_add ::
    "store_env \<Rightarrow> policy_rule \<Rightarrow> (policy_file, policy_error, unit) io" where
  "policy_add e r =
     bindE (lift (validate_rule r)) (\<lambda>_.
     bindE (lift (ensure (lock_ok e) PolicyLock)) (\<lambda>_.
     bindE (\<lambda>f. (policy_load f, f)) (\<lambda>rules.
     if list_ex (\<lambda>q. pr_id q = pr_id r) rules then fail (DuplicateRule (pr_id r))
     else policy_save e (rules @ [r]))))"

definition policy_remove ::
    "store_env \<Rightarrow> string \<Rightarrow> (policy_file, policy_error, bool) io" where
  "policy_remove e i =
     bindE (lift (ensure (lock_ok e) PolicyLock)) (\<lambda>_.
     bindE (\<lambda>f. (policy_load f, f)) (\<lambda>rules.
     (let kept = filter (\<lambda>q. pr_id q \<noteq> i) rules
      in if length kept = length rules then ret False
         else bindE (policy_save e kept) (\<lambda>_. ret True))))"

section \<open>Path matching\<close>

fun norm_step :: "string \<times> bool \<Rightarrow> char \<Rightarrow> string \<times> bool" where
  "norm_step (out, last_was_slash) ch =
     (if ch = CHR ''/'' then (out, True)
      else ((if last_was_slash \<and> out \<noteq> [] then out @ ''/'' else out) @ [ch], False))"

definition normalize_forward_slash :: "string \<Rightarrow> string" where
  "normalize_forward_slash p = fst (foldl norm_step ([], False) p)"

definition path_prefix_matches :: "string \<Rightarrow> string \<Rightarrow> bool" where
  "path_prefix_matches pat resource =
     (let p = normalize_forward_slash pat; r = normalize_forward_slash resource
      in if p = [] then False else r = p \<or> starts_with r (p @ ''/''))"

definition rule_matches :: "string \<Rightarrow> string \<Rightarrow> policy_rule \<Rightarrow> bool" where
  "rule_matches tool resource r \<longleftrightarrow> pr_tool r = tool \<and>
     (if List.member [''workspace.write_file'', ''workspace.delete_file''] tool
      then path_prefix_matches (pr_pattern r) resource
      else if tool = ''terminal.run'' then pr_pattern r = resource
      else if List.member [''filesystem.replace'', ''filesystem.insert'', ''filesystem.delete_range'',
          ''filesystem.patch'', ''filesystem.apply_diff'', ''filesystem.rollback''] tool
      then path_prefix_matches (pr_pattern r) resource
      else False)"

definition policy_matching :: "policy_file \<Rightarrow> string \<Rightarrow> string \<Rightarrow> policy_error + policy_rule option" where
  "policy_matching f tool resource =
     bindR (policy_load f) (\<lambda>rules. Inr (List.find (rule_matches tool resource) rules))"

section \<open>Normalisation splits a path into its non-empty segments\<close>

definition segments :: "string \<Rightarrow> string list" where
  "segments p = filter (\<lambda>c. c \<noteq> []) (split_char (CHR ''/'') p)"

fun join_slash :: "string list \<Rightarrow> string" where
  "join_slash [] = []"
| "join_slash [x] = x"
| "join_slash (x # y # ys) = x @ ''/'' @ join_slash (y # ys)"

lemma join_slash_snoc:
  "xs \<noteq> [] \<Longrightarrow> join_slash (xs @ [y]) = join_slash xs @ ''/'' @ y"
  by (induction xs rule: join_slash.induct) auto

lemma join_slash_Nil_iff: "\<forall>x \<in> set xs. x \<noteq> [] \<Longrightarrow> join_slash xs = [] \<longleftrightarrow> xs = []"
  by (induction xs rule: join_slash.induct) auto

lemma segments_snoc_slash [simp]: "segments (p @ ''/'') = segments p"
  by (simp add: segments_def split_char_append)

lemma segments_nonempty: "x \<in> set (segments p) \<Longrightarrow> x \<noteq> []"
  by (simp add: segments_def)

lemma segments_no_slash: "x \<in> set (segments p) \<Longrightarrow> CHR ''/'' \<notin> set x"
  by (auto simp: segments_def dest: split_char_member)

lemma split_char_snoc:
  "ch \<noteq> d \<Longrightarrow> split_char d (p @ [ch]) = butlast (split_char d p) @ [last (split_char d p) @ [ch]]"
proof (induction p)
  case (Cons x p)
  have "split_char d p \<noteq> []" by simp
  then obtain l ls where *: "split_char d p = l # ls" by (cases "split_char d p") auto
  show ?case
  proof (cases "x = d")
    case True
    with Cons show ?thesis by simp
  next
    case False
    with Cons * show ?thesis by (cases ls) auto
  qed
qed simp

lemma split_char_snoc_sep: "split_char d (p @ [d]) = split_char d p @ [[]]"
  using split_char_append [of d p "[]"] by simp

text \<open>The state of the scan after \<open>p\<close>: the joined segments, and whether a slash came last.\<close>

lemma last_segment:
  assumes "p \<noteq> []" and "last p \<noteq> CHR ''/''"
  shows "last (split_char (CHR ''/'') p) \<noteq> []"
proof -
  from assms(1) have "p = butlast p @ [last p]" by simp
  with assms(2) show ?thesis by (metis last_snoc split_char_snoc append_is_Nil_conv not_Cons_self2)
qed

lemma last_split_sep: "p = [] \<or> last p = CHR ''/'' \<Longrightarrow> last (split_char (CHR ''/'') p) = []"
  by (metis append_butlast_last_id last_snoc split_char.simps(1) last.simps split_char_snoc_sep)

lemma norm_scan:
  "foldl norm_step ([], False) p = (join_slash (segments p), p \<noteq> [] \<and> last p = CHR ''/'')"
proof (induction p rule: rev_induct)
  case Nil
  then show ?case by (simp add: segments_def)
next
  case (snoc ch p)
  let ?s = "split_char (CHR ''/'') p"
  show ?case
  proof (cases "ch = CHR ''/''")
    case True
    with snoc show ?thesis by simp
  next
    case ch: False
    obtain b l where s: "?s = b @ [l]" by (cases ?s rule: rev_cases) auto
    let ?b = "filter (\<lambda>c. c \<noteq> []) b"
    have seg: "segments (p @ [ch]) = ?b @ [l @ [ch]]"
      using ch s by (simp add: segments_def split_char_snoc)
    show ?thesis
    proof (cases "p = [] \<or> last p = CHR ''/''")
      case True
      then have l: "l = []" using last_split_sep [of p] s by simp
      then have sp: "segments p = ?b" using s by (simp add: segments_def)
      have "join_slash (segments p) = [] \<longleftrightarrow> segments p = []"
        by (rule join_slash_Nil_iff) (simp add: segments_nonempty)
      with seg l sp snoc ch True show ?thesis
        by (cases "segments p = []") (auto simp: join_slash_snoc segments_def)
    next
      case False
      then have l: "l \<noteq> []" using last_segment [of p] s by simp
      then have "segments p = ?b @ [l]" using s by (simp add: segments_def)
      with seg snoc ch False show ?thesis
        by (cases "?b = []") (auto simp: join_slash_snoc)
    qed
  qed
qed

lemma normalize_join: "normalize_forward_slash p = join_slash (segments p)"
  by (simp add: normalize_forward_slash_def norm_scan)

lemma segments_join:
  "\<forall>x \<in> set xs. x \<noteq> [] \<and> CHR ''/'' \<notin> set x \<Longrightarrow> segments (join_slash xs) = xs"
proof (induction xs rule: join_slash.induct)
  case (2 x)
  then show ?case by (simp add: segments_def split_char_no_sep)
next
  case (3 x y ys)
  then have "segments (join_slash (y # ys)) = y # ys" by simp
  with 3(2) show ?case by (simp add: segments_def split_char_append split_char_no_sep)
qed (simp add: segments_def)

lemma segments_normalize [simp]: "segments (normalize_forward_slash p) = segments p"
  unfolding normalize_join
  by (rule segments_join) (simp add: segments_nonempty segments_no_slash)

lemma join_slash_prefix:
  assumes "\<forall>x \<in> set xs \<union> set ys. x \<noteq> [] \<and> CHR ''/'' \<notin> set x" and "xs \<noteq> []"
  shows "join_slash ys = join_slash xs \<or> starts_with (join_slash ys) (join_slash xs @ ''/'')
    \<longleftrightarrow> prefix xs ys"
proof
  assume L: "join_slash ys = join_slash xs \<or> starts_with (join_slash ys) (join_slash xs @ ''/'')"
  have sx: "segments (join_slash xs) = xs" and sy: "segments (join_slash ys) = ys"
    using assms by (auto intro: segments_join)
  from L show "prefix xs ys"
  proof
    assume "join_slash ys = join_slash xs"
    with sx sy show ?thesis by simp
  next
    assume "starts_with (join_slash ys) (join_slash xs @ ''/'')"
    then obtain r where "join_slash ys = join_slash xs @ CHR ''/'' # r"
      by (auto simp: starts_with_iff)
    then have "ys = segments (join_slash xs @ CHR ''/'' # r)" using sy by simp
    also have "\<dots> = xs @ segments r"
      using sx by (simp add: segments_def split_char_append)
    finally show ?thesis by simp
  qed
next
  assume "prefix xs ys"
  then obtain zs where ys: "ys = xs @ zs" by (auto simp: prefix_def)
  have "join_slash (xs @ z # zs') = join_slash xs @ ''/'' @ join_slash (z # zs')" for z zs'
    using assms(2) by (induction xs rule: join_slash.induct) auto
  with ys show "join_slash ys = join_slash xs \<or> starts_with (join_slash ys) (join_slash xs @ ''/'')"
    by (cases zs) (auto simp: starts_with_iff)
qed

lemma path_prefix_matches_segments:
  "path_prefix_matches pat res \<longleftrightarrow> segments pat \<noteq> [] \<and> prefix (segments pat) (segments res)"
proof (cases "segments pat = []")
  case True
  then show ?thesis by (simp add: path_prefix_matches_def normalize_join)
next
  case False
  then have "normalize_forward_slash pat \<noteq> []"
    unfolding normalize_join by (simp add: join_slash_Nil_iff segments_nonempty)
  moreover have "\<forall>x \<in> set (segments pat) \<union> set (segments res). x \<noteq> [] \<and> CHR ''/'' \<notin> set x"
    using segments_nonempty segments_no_slash by blast
  ultimately show ?thesis
    using False join_slash_prefix [of "segments pat" "segments res"]
    by (simp add: path_prefix_matches_def Let_def normalize_join)
qed

section \<open>The store invariant\<close>

definition policy_wf :: "policy_file \<Rightarrow> bool" where
  "policy_wf f = (case f of Stored rs \<Rightarrow>
     distinct (map pr_id rs) \<and> list_all (\<lambda>r. validate_rule r = Inr ()) rs | _ \<Rightarrow> True)"

lemma policy_add_ok:
  assumes "policy_add e r f = (Inr (), f')"
  obtains rules where "policy_load f = Inr rules" "f' = Stored (rules @ [r])"
    "validate_rule r = Inr ()" "pr_id r \<notin> pr_id ` set rules"
  using assms
  by (fastforce simp: policy_add_def bindE_Inr_iff policy_save_def list_ex_iff split: if_splits)

lemma policy_add_wf:
  assumes "policy_add e r f = (res, f')" and "policy_wf f"
  shows "policy_wf f'"
proof (cases res)
  case (Inl err)
  with assms have "f' = f"
    by (auto simp: policy_add_def bindE_Inl_iff policy_save_def split: if_splits)
  with assms show ?thesis by simp
next
  case (Inr u)
  with assms(1) have "policy_add e r f = (Inr (), f')" by simp
  then obtain rules where "policy_load f = Inr rules" "f' = Stored (rules @ [r])"
    "validate_rule r = Inr ()" "pr_id r \<notin> pr_id ` set rules"
    by (rule policy_add_ok)
  then show ?thesis
    using assms(2) by (auto simp: policy_wf_def policy_load_def split: stored.splits)
qed

lemma policy_remove_wf:
  assumes "policy_remove e i f = (res, f')" and "policy_wf f"
  shows "policy_wf f'"
proof -
  have "f' = f \<or> (\<exists>rules. policy_load f = Inr rules \<and> f' = Stored (filter (\<lambda>q. pr_id q \<noteq> i) rules))"
    using assms(1)
    by (cases res) (auto simp: policy_remove_def bindE_Inr_iff bindE_Inl_iff policy_save_def Let_def
        split: if_splits)
  with assms(2) show ?thesis
    by (auto simp: policy_wf_def policy_load_def distinct_map list.pred_set intro: inj_on_subset
        split: stored.splits)
qed

lemma policy_matching_Stored:
  "policy_matching (Stored rs) t res = Inr (List.find (rule_matches t res) rs)"
  by (simp add: policy_matching_def policy_load_def)

lemma find_Some_mem: "List.find P xs = Some x \<Longrightarrow> x \<in> set xs \<and> P x"
  by (auto simp: find_Some_iff in_set_conv_nth)

section \<open>Sequences of administrative commands\<close>

datatype policy_cmd = AddRule store_env policy_rule | RemoveRule store_env string

fun policy_run :: "policy_cmd list \<Rightarrow> policy_file \<Rightarrow> policy_file" where
  "policy_run [] f = f"
| "policy_run (AddRule e r # cs) f = policy_run cs (snd (policy_add e r f))"
| "policy_run (RemoveRule e i # cs) f = policy_run cs (snd (policy_remove e i f))"

lemma policy_run_wf: "policy_wf f \<Longrightarrow> policy_wf (policy_run cs f)"
proof (induction cs f rule: policy_run.induct)
  case (2 e r cs f)
  have "policy_wf (snd (policy_add e r f))"
    using policy_add_wf [OF _ 2(2)] by (metis prod.collapse)
  with 2 show ?case by simp
next
  case (3 e i cs f)
  have "policy_wf (snd (policy_remove e i f))"
    using policy_remove_wf [OF _ 3(2)] by (metis prod.collapse)
  with 3 show ?case by simp
qed simp

lemma policy_remove_matching:
  assumes "policy_remove e i f = (Inr True, f')"
  shows "policy_matching f' tool res = Inr m \<Longrightarrow> m = Some r \<Longrightarrow> pr_id r \<noteq> i"
  using assms
  by (auto simp: policy_remove_def bindE_Inr_iff policy_save_def Let_def policy_matching_Stored
      find_Some_iff split: if_splits dest!: nth_mem)

text \<open>
  The rule store stays well formed under any sequence of additions and removals, with any
  lock and write failures between them: what a load returns has pairwise distinct ids and only
  rules that pass the validation (safe id, supported tool).
\<close>

theorem policy_store_invariant:
  "case policy_load (policy_run cs Absent) of
     Inl _ \<Rightarrow> False
   | Inr rules \<Rightarrow> distinct (map pr_id rules) \<and> list_all (\<lambda>r. validate_rule r = Inr ()) rules"
proof -
  have "policy_run cs f \<noteq> Corrupt" if "f \<noteq> Corrupt" for f
    using that
  proof (induction cs f rule: policy_run.induct)
    case (2 e r cs f)
    have "snd (policy_add e r f) \<noteq> Corrupt"
      using 2(2) by (auto simp: policy_add_def bindE_def policy_save_def split: prod.splits sum.splits if_splits)
    with 2 show ?case by simp
  next
    case (3 e i cs f)
    have "snd (policy_remove e i f) \<noteq> Corrupt"
      using 3(2) by (auto simp: policy_remove_def bindE_def policy_save_def Let_def
          split: prod.splits sum.splits if_splits)
    with 3 show ?case by simp
  qed simp
  from this [of Absent] policy_run_wf [of Absent cs] show ?thesis
    by (auto simp: policy_wf_def policy_load_def split: stored.splits)
qed

text \<open>
  A deny pattern covers a resource exactly when its non-empty path segments are a prefix of
  the resource's segments: slashes at the ends or doubled make no difference, and a sibling
  that only shares the text of a name is not covered.
\<close>

theorem deny_pattern_segments:
  "path_prefix_matches pat res = (segments pat \<noteq> [] \<and> prefix (segments pat) (segments res))
   \<and> path_prefix_matches pat res = path_prefix_matches (normalize_forward_slash pat) (normalize_forward_slash res)"
  by (simp add: path_prefix_matches_segments segments_normalize)

end
