(* ===== verification/AuditLog.thy ===== *)
theory AuditLog
  imports Stores
begin

text \<open>
  The part of \<open>services/audit.rs\<close> the edit engine writes to: outcome events with their
  correlation, in the order they are recorded, and the redaction of token-like text. The
  durable store behind it is the theory \<open>AuditStore\<close>.
\<close>

record audit_correlation =
  ac_workspace_id :: "string option"
  ac_agent_id :: "string option"
  ac_session_id :: "string option"
  ac_edit_id :: "string option"
  ac_snapshot_id :: "string option"
  ac_reason :: "string option"

definition no_correlation :: audit_correlation where
  "no_correlation = \<lparr>ac_workspace_id = None, ac_agent_id = None, ac_session_id = None,
     ac_edit_id = None, ac_snapshot_id = None, ac_reason = None\<rparr>"

definition for_edit :: "string \<Rightarrow> audit_correlation" where
  "for_edit i = no_correlation\<lparr>ac_edit_id := Some i\<rparr>"

record audit_event =
  ev_kind :: string
  ev_action :: string
  ev_subject :: string
  ev_detail :: msg
  ev_correlation :: audit_correlation

definition record_outcome ::
    "string \<Rightarrow> string \<Rightarrow> string \<Rightarrow> msg \<Rightarrow> audit_correlation \<Rightarrow> audit_event list \<Rightarrow> audit_event list" where
  "record_outcome k a s d c log =
     log @ [\<lparr>ev_kind = k, ev_action = a, ev_subject = s, ev_detail = d, ev_correlation = c\<rparr>]"

section \<open>Redaction\<close>

definition is_token_char :: "char \<Rightarrow> bool" where
  "is_token_char c \<longleftrightarrow> (48 \<le> byte c \<and> byte c \<le> 57) \<or> (65 \<le> byte c \<and> byte c \<le> 90)
     \<or> (97 \<le> byte c \<and> byte c \<le> 122) \<or> c = CHR ''_'' \<or> c = CHR ''-''"

definition flush_token :: "string \<Rightarrow> string" where
  "flush_token seg = (if 16 \<le> length seg then ''[redacted]'' else seg)"

fun redact_go :: "string \<Rightarrow> string \<Rightarrow> string" where
  "redact_go [] seg = flush_token seg"
| "redact_go (c # cs) seg =
     (if is_token_char c then redact_go cs (seg @ [c])
      else flush_token seg @ c # redact_go cs [])"

definition redact_token_like :: "string \<Rightarrow> string" where
  "redact_token_like text = redact_go text []"

text \<open>The longest run of token characters a text starts with, and the longest anywhere.\<close>

definition lead_run :: "string \<Rightarrow> nat" where
  "lead_run s = length (takeWhile is_token_char s)"

fun max_run :: "string \<Rightarrow> nat" where
  "max_run [] = 0"
| "max_run (c # cs) = max (lead_run (c # cs)) (max_run cs)"

lemma lead_run_append_sep:
  "list_all is_token_char a \<Longrightarrow> \<not> is_token_char c \<Longrightarrow> lead_run (a @ c # b) = length a"
  by (induction a) (auto simp: lead_run_def)

lemma lead_run_all: "list_all is_token_char a \<Longrightarrow> lead_run a = length a"
  by (induction a) (auto simp: lead_run_def)

lemma max_run_tokens: "list_all is_token_char a \<Longrightarrow> max_run a = length a"
proof (induction a)
  case (Cons x a)
  then have "lead_run (x # a) = Suc (length a)" using lead_run_all [of "x # a"] by simp
  with Cons show ?case by simp
qed simp

lemma max_run_append_sep:
  assumes "list_all is_token_char a" and "\<not> is_token_char c"
  shows "max_run (a @ c # b) = max (length a) (max_run b)"
  using assms(1)
proof (induction a)
  case Nil
  with assms(2) show ?case by (simp add: lead_run_def)
next
  case (Cons x a)
  then have "lead_run ((x # a) @ c # b) = length (x # a)"
    using assms(2) by (intro lead_run_append_sep) auto
  with Cons show ?case by simp
qed

lemma max_run_append_after_sep:
  "\<not> is_token_char c \<Longrightarrow> max_run (a @ c # b) = max (max_run (a @ [c])) (max_run b)"
proof (induction a)
  case Nil
  then show ?case by (simp add: lead_run_def)
next
  case (Cons x a)
  have "lead_run ((x # a) @ c # b) = lead_run ((x # a) @ [c])"
    using Cons.prems by (simp add: lead_run_def takeWhile_tail)
  with Cons show ?case by simp
qed

lemma max_run_mark: "max_run ''[redacted]'' = 8"
  by code_simp

lemma max_run_mark_sep:
  assumes "\<not> is_token_char c"
  shows "max_run (''[redacted]'' @ [c]) = 8"
proof -
  have "max_run (''[redacted'' @ CHR '']'' # [c])
      = max (max_run (''[redacted'' @ [CHR '']''])) (max_run [c])"
    by (rule max_run_append_after_sep) code_simp
  moreover have "max_run (''[redacted'' @ [CHR '']'']) = 8" by code_simp
  moreover have "max_run [c] = 0" using assms by (simp add: lead_run_def)
  ultimately show ?thesis by (simp only: append.simps max_0R)
qed

lemma redact_go_run:
  assumes "list_all is_token_char seg"
  shows "max_run (redact_go t seg) < 16"
  using assms
proof (induction t seg rule: redact_go.induct)
  case (1 seg)
  with max_run_mark show ?case by (simp del: max_run.simps add: flush_token_def max_run_tokens)
next
  case (2 c cs seg)
  show ?case
  proof (cases "is_token_char c")
    case True
    with 2 show ?thesis by simp
  next
    case False
    with 2 have IH: "max_run (redact_go cs []) < 16" by simp
    have "max_run (flush_token seg @ [c]) < 16"
    proof (cases "16 \<le> length seg")
      case True
      from False have "max_run (''[redacted]'' @ [c]) < 16"
        by (subst max_run_mark_sep) simp_all
      with True show ?thesis by (simp only: flush_token_def if_True)
    next
      case short: False
      with False 2 show ?thesis
        by (simp add: flush_token_def max_run_append_sep)
    qed
    with False IH show ?thesis
      using max_run_append_after_sep [OF False, of "flush_token seg" "redact_go cs []"] by simp
  qed
qed

lemma lead_run_append: "list_all is_token_char a \<Longrightarrow> lead_run (a @ b) = length a + lead_run b"
  by (induction a) (auto simp: lead_run_def)

lemma lead_run_le: "lead_run t \<le> max_run t"
  by (cases t) (simp_all add: lead_run_def)

lemma max_run_append_left: "max_run b \<le> max_run (a @ b)"
  by (induction a) auto

text \<open>Text without a long run passes unchanged.\<close>

lemma redact_go_short:
  assumes "list_all is_token_char seg" and "max_run (seg @ t) < 16"
  shows "redact_go t seg = seg @ t"
  using assms
proof (induction t seg rule: redact_go.induct)
  case (1 seg)
  then show ?case by (simp add: flush_token_def max_run_tokens)
next
  case (2 c cs seg)
  show ?case
  proof (cases "is_token_char c")
    case True
    with 2 show ?thesis by simp
  next
    case False
    with 2(3,4) have "max (length seg) (max_run cs) < 16" by (simp add: max_run_append_sep)
    with 2(2) False show ?thesis by (simp add: flush_token_def)
  qed
qed

text \<open>
  C10. Redaction leaves no run of 16 or more token characters, whatever the text; it changes
  nothing when there is none, so it is idempotent.
\<close>

theorem redaction_removes_tokens:
  "max_run (redact_token_like t) < 16
   \<and> redact_token_like (redact_token_like t) = redact_token_like t
   \<and> (redact_token_like t = t) = (max_run t < 16)"
proof -
  have short: "max_run u < 16 \<Longrightarrow> redact_token_like u = u" for u
    using redact_go_short [of "[]" u] by (simp add: redact_token_like_def)
  moreover have run: "max_run (redact_token_like t) < 16"
    unfolding redact_token_like_def by (rule redact_go_run) simp
  ultimately show ?thesis by metis
qed

end
