(* ===== verification/Authorization.thy ===== *)
theory Authorization
  imports Policy AuditLog
begin

text \<open>
  The authorization boundary of every edit and rollback: \<open>services/authorization.rs\<close> with
  the stores it consults, \<open>core/capability_grants.rs\<close>, \<open>core/agents.rs\<close> (lookup) and
  the policy store. The RFC 3339 parser of \<open>chrono\<close> is a parameter \<open>rfc\<close> (a timestamp as
  an integer instant, \<open>None\<close> for a malformed text) and the clock is a field of the
  environment.
\<close>

section \<open>Grants and agents\<close>

datatype permission = Network | Filesystem | Environment | Process | Secrets

record capability_grant =
  cg_id :: string
  cg_agent_id :: string
  cg_permission :: permission
  cg_scope :: "string option"
  cg_granted_at :: string
  cg_expires_at :: "string option"

datatype agent_status = Created | Active | Paused | Stopped | Failed

record agent =
  ag_id :: string
  ag_name :: string
  ag_role :: string
  ag_status :: agent_status
  ag_enabled :: bool
  ag_created_at :: string

datatype grant_error = InvalidGrantId string | GrantUnreadable | GrantWrite

definition is_safe_grant_id :: "string \<Rightarrow> bool" where
  "is_safe_grant_id i \<longleftrightarrow> is_safe_name i"

definition grant_create ::
    "store_env \<Rightarrow> capability_grant \<Rightarrow> (capability_grant dir, grant_error, unit) io" where
  "grant_create e g =
     (if \<not> is_safe_grant_id (cg_id g) then fail (InvalidGrantId (cg_id g))
      else if \<not> write_ok e then fail GrantWrite
      else modify (dir_put (cg_id g) g))"

definition grant_get :: "capability_grant dir \<Rightarrow> string \<Rightarrow> grant_error + capability_grant option" where
  "grant_get d i = (case dir_get d i of Absent \<Rightarrow> Inr None | Corrupt \<Rightarrow> Inl GrantUnreadable
      | Stored g \<Rightarrow> Inr (Some g))"

fun collect_grants :: "string \<Rightarrow> capability_grant dir \<Rightarrow> grant_error + capability_grant list" where
  "collect_grants a [] = Inr []"
| "collect_grants a ((k, s) # d) = (case s of
      Stored g \<Rightarrow> bindR (collect_grants a d)
        (\<lambda>gs. Inr (if cg_agent_id g = a then g # gs else gs))
    | Absent \<Rightarrow> Inl GrantUnreadable
    | Corrupt \<Rightarrow> Inl GrantUnreadable)"

definition list_for_agent :: "capability_grant dir \<Rightarrow> string \<Rightarrow> grant_error + capability_grant list" where
  "list_for_agent d a = bindR (collect_grants a d) (\<lambda>gs. Inr (sort_key cg_id gs))"

definition grant_revoke :: "store_env \<Rightarrow> string \<Rightarrow> (capability_grant dir, grant_error, bool) io" where
  "grant_revoke e i = bindE (gets (\<lambda>d. dir_get d i)) (\<lambda>s.
     if s = Absent then ret False
     else if \<not> write_ok e then fail GrantWrite
     else bindE (modify (dir_remove i)) (\<lambda>_. ret True))"

definition max_agent_id_len :: nat where
  "max_agent_id_len = 64"

definition is_safe_agent_id :: "string \<Rightarrow> bool" where
  "is_safe_agent_id i \<longleftrightarrow> i \<noteq> [] \<and> length i \<le> max_agent_id_len \<and> i \<noteq> ''.'' \<and> i \<noteq> ''..''
     \<and> \<not> contains i ''/'' \<and> \<not> contains i [CHR 0x5C] \<and> \<not> has_control i \<and> file_name i = Some i"

definition agent_get :: "agent dir \<Rightarrow> string \<Rightarrow> unit + agent option" where
  "agent_get d i =
     (if \<not> is_safe_agent_id i then Inr None
      else (case dir_get d i of Absent \<Rightarrow> Inr None | Corrupt \<Rightarrow> Inl () | Stored a \<Rightarrow> Inr (Some a)))"

section \<open>Requests and decisions\<close>

datatype edit_action =
  ActReplace | ActInsert | ActDeleteRange | ActPatch | ActApplyDiff | ActRollback

fun tool_name :: "edit_action \<Rightarrow> string" where
  "tool_name ActReplace = ''filesystem.replace''"
| "tool_name ActInsert = ''filesystem.insert''"
| "tool_name ActDeleteRange = ''filesystem.delete_range''"
| "tool_name ActPatch = ''filesystem.patch''"
| "tool_name ActApplyDiff = ''filesystem.apply_diff''"
| "tool_name ActRollback = ''filesystem.rollback''"

datatype principal_kind = Operator | AgentKind

record principal =
  pl_kind :: principal_kind
  pl_agent_id :: "string option"
  pl_session_id :: "string option"
  pl_workspace_id :: string

definition operator_principal :: "string \<Rightarrow> principal" where
  "operator_principal ws = \<lparr>pl_kind = Operator, pl_agent_id = None, pl_session_id = None,
     pl_workspace_id = ws\<rparr>"

definition agent_principal :: "string \<Rightarrow> string \<Rightarrow> string \<Rightarrow> principal" where
  "agent_principal a s ws = \<lparr>pl_kind = AgentKind, pl_agent_id = Some a, pl_session_id = Some s,
     pl_workspace_id = ws\<rparr>"

record authz_request =
  rq_action :: edit_action
  rq_principal :: principal
  rq_resource :: string
  rq_transaction_id :: "string option"

datatype denial_reason =
  MissingAgentIdentity | UnknownAgent | MissingCapability | ExpiredGrant | OutOfScope
| PolicyDenied | InfrastructureUnavailable | UnsupportedOperation

fun to_audit_code :: "denial_reason \<Rightarrow> string" where
  "to_audit_code MissingAgentIdentity = ''missing_agent_identity''"
| "to_audit_code UnknownAgent = ''unknown_agent''"
| "to_audit_code MissingCapability = ''missing_capability''"
| "to_audit_code ExpiredGrant = ''expired_grant''"
| "to_audit_code OutOfScope = ''out_of_scope''"
| "to_audit_code PolicyDenied = ''policy_denied''"
| "to_audit_code InfrastructureUnavailable = ''infrastructure_unavailable''"
| "to_audit_code UnsupportedOperation = ''unsupported_operation''"

datatype decision = Allow | Deny denial_reason msg

definition is_allowed :: "decision \<Rightarrow> bool" where
  "is_allowed d \<longleftrightarrow> d = Allow"

text \<open>The state the authorizer reads: manifest, clock and stores of the workspace.\<close>

record authz_env =
  az_manifest :: "anyhow + string"
  az_policy :: policy_file
  az_agents :: "agent dir"
  az_grants :: "capability_grant dir"
  az_now :: int

section \<open>Resource syntax, scope, expiry\<close>

definition is_authorizable_resource :: "string \<Rightarrow> bool" where
  "is_authorizable_resource r \<longleftrightarrow>
     (if r = [] \<or> has_control r then False
      else if is_absolute r \<or> contains r [CHR 0x5C] then False
      else \<not> has_parent_component r)"

definition scope_covers :: "string \<Rightarrow> string \<Rightarrow> bool" where
  "scope_covers scope resource =
     (if has_parent_component scope \<or> has_parent_component resource then False
      else (let s = normalize_forward_slash scope; r = normalize_forward_slash resource
            in if s = [] then False else r = s \<or> starts_with r (s @ ''/'')))"

definition grant_is_expired :: "(string \<Rightarrow> int option) \<Rightarrow> int \<Rightarrow> capability_grant \<Rightarrow> bool" where
  "grant_is_expired rfc now g = (case cg_expires_at g of
      None \<Rightarrow> False
    | Some t \<Rightarrow> (case rfc t of None \<Rightarrow> True | Some expiry \<Rightarrow> expiry \<le> now))"

definition grant_matches :: "string \<Rightarrow> capability_grant \<Rightarrow> bool" where
  "grant_matches resource g \<longleftrightarrow> cg_permission g = Filesystem
     \<and> (case cg_scope g of None \<Rightarrow> True | Some sc \<Rightarrow> scope_covers sc resource)"

section \<open>The decision\<close>

definition agent_exists :: "authz_env \<Rightarrow> string \<Rightarrow> bool" where
  "agent_exists z a \<longleftrightarrow> is_safe_agent_id a
     \<and> (case agent_get (az_agents z) a of Inr (Some _) \<Rightarrow> True | _ \<Rightarrow> False)"

definition caller_context :: "principal \<Rightarrow> decision option" where
  "caller_context p = (case pl_kind p of
      Operator \<Rightarrow> None
    | AgentKind \<Rightarrow> (case pl_agent_id p of
        None \<Rightarrow> Some (Deny MissingAgentIdentity (Txt ''agent-scoped request carries no agent identity''))
      | Some a \<Rightarrow>
          if (case pl_session_id p of None \<Rightarrow> True | Some s \<Rightarrow> s = [])
          then Some (Deny MissingAgentIdentity (Fmt ''agent {} has no runtime session identity'' [Txt a]))
          else None))"

definition capability_decision ::
    "(string \<Rightarrow> int option) \<Rightarrow> authz_env \<Rightarrow> string \<Rightarrow> string \<Rightarrow> decision" where
  "capability_decision rfc z a resource =
     (if \<not> agent_exists z a then
        Deny UnknownAgent (Fmt ''agent {} is unknown to this workspace'' [Txt a])
      else (case list_for_agent (az_grants z) a of
        Inl _ \<Rightarrow> Deny InfrastructureUnavailable (Txt ''capability store unreadable'')
      | Inr grants \<Rightarrow>
          if grants = [] then
            Deny MissingCapability (Fmt ''agent {} has no capability grants'' [Txt a])
          else (let matching = filter (grant_matches resource) grants in
            if matching = [] then
              Deny MissingCapability
                (Fmt ''agent {} has no capability grant for Filesystem covering {}'' [Txt a, Txt resource])
            else (let live = filter (\<lambda>g. \<not> grant_is_expired rfc (az_now z) g) matching in
              if live = [] then
                Deny ExpiredGrant (Fmt ''all grants for agent {} are expired'' [Txt a])
              else Allow))))"

definition authorize_inner ::
    "(string \<Rightarrow> int option) \<Rightarrow> authz_env \<Rightarrow> authz_request \<Rightarrow> decision" where
  "authorize_inner rfc z rq = (case caller_context (rq_principal rq) of
      Some d \<Rightarrow> d
    | None \<Rightarrow> (case az_manifest z of
        Inl err \<Rightarrow> Deny InfrastructureUnavailable (Fmt ''workspace identity unavailable: {}'' [anyhow_msg err])
      | Inr ws \<Rightarrow>
          if pl_workspace_id (rq_principal rq) \<noteq> ws then
            Deny OutOfScope (Txt ''caller is not bound to this workspace'')
          else if \<not> is_authorizable_resource (rq_resource rq) then
            Deny UnsupportedOperation
              (Fmt ''resource {:?} is not a safe workspace-relative path'' [Txt (rq_resource rq)])
          else (case policy_matching (az_policy z) (tool_name (rq_action rq)) (rq_resource rq) of
            Inr (Some rule) \<Rightarrow>
              Deny PolicyDenied (Fmt ''policy rule {} denies this action'' [Txt (pr_id rule)])
          | Inl _ \<Rightarrow>
              Deny InfrastructureUnavailable
                (Fmt ''policy store is unreadable for tool {}'' [Txt (tool_name (rq_action rq))])
          | Inr None \<Rightarrow>
              if pl_kind (rq_principal rq) = Operator then Allow
              else capability_decision rfc z (the (pl_agent_id (rq_principal rq))) (rq_resource rq))))"

text \<open>\<open>authorize\<close> also records every denial, and only denials, in the audit log.\<close>

definition denial_correlation :: "authz_request \<Rightarrow> denial_reason \<Rightarrow> audit_correlation" where
  "denial_correlation rq reason =
     \<lparr>ac_workspace_id = Some (pl_workspace_id (rq_principal rq)),
      ac_agent_id = pl_agent_id (rq_principal rq),
      ac_session_id = pl_session_id (rq_principal rq),
      ac_edit_id = rq_transaction_id rq,
      ac_snapshot_id = None,
      ac_reason = Some (to_audit_code reason)\<rparr>"

definition authorize ::
    "(string \<Rightarrow> int option) \<Rightarrow> authz_env \<Rightarrow> authz_request \<Rightarrow> audit_event list
       \<Rightarrow> decision \<times> audit_event list" where
  "authorize rfc z rq log = (case authorize_inner rfc z rq of
      Allow \<Rightarrow> (Allow, log)
    | Deny reason detail \<Rightarrow> (Deny reason detail,
        record_outcome ''deny'' (''authorization.'' @ tool_name (rq_action rq))
          (case pl_agent_id (rq_principal rq) of None \<Rightarrow> ''unattributed'' | Some a \<Rightarrow> a)
          detail (denial_correlation rq reason) log))"

section \<open>Lemmas\<close>

lemma scope_covers_segments:
  "scope_covers scope res \<longleftrightarrow> \<not> has_parent_component scope \<and> \<not> has_parent_component res
     \<and> segments scope \<noteq> [] \<and> prefix (segments scope) (segments res)"
  using path_prefix_matches_segments [of scope res]
  by (auto simp: scope_covers_def path_prefix_matches_def Let_def)

lemma collect_grants_Inr:
  "collect_grants a d = Inr gs \<Longrightarrow>
     set gs = {g. (\<exists>k. (k, Stored g) \<in> set d) \<and> cg_agent_id g = a}"
  by (induction a d arbitrary: gs rule: collect_grants.induct)
     (auto simp: bindR_Inr_iff split: stored.splits if_splits)

lemma list_for_agent_Inr:
  "list_for_agent d a = Inr gs \<Longrightarrow>
     set gs = {g. (\<exists>k. (k, Stored g) \<in> set d) \<and> cg_agent_id g = a}"
  using collect_grants_Inr [of a d] by (auto simp: list_for_agent_def bindR_Inr_iff)

lemma collect_grants_readable:
  "(\<exists>gs. collect_grants a d = Inr gs) \<longleftrightarrow> (\<forall>(k, s) \<in> set d. \<exists>g. s = Stored g)"
  by (induction a d rule: collect_grants.induct)
     (auto simp: bindR_Inr_iff split: stored.splits)

lemma list_for_agent_readable:
  "(\<exists>gs. list_for_agent d a = Inr gs) \<longleftrightarrow> (\<forall>(k, s) \<in> set d. \<exists>g. s = Stored g)"
  using collect_grants_readable [of a d] by (auto simp: list_for_agent_def bindR_Inr_iff)

definition grants_readable :: "authz_env \<Rightarrow> bool" where
  "grants_readable z \<longleftrightarrow> list_all (\<lambda>(k, s). s \<noteq> Absent \<and> s \<noteq> Corrupt) (az_grants z)"

definition live_grant ::
    "(string \<Rightarrow> int option) \<Rightarrow> authz_env \<Rightarrow> string \<Rightarrow> string \<Rightarrow> capability_grant \<Rightarrow> bool" where
  "live_grant rfc z a resource g \<longleftrightarrow> (\<exists>k. (k, Stored g) \<in> set (az_grants z)) \<and> cg_agent_id g = a
     \<and> grant_matches resource g \<and> \<not> grant_is_expired rfc (az_now z) g"

lemma grants_readable_iff:
  "grants_readable z \<longleftrightarrow> (\<forall>(k, s) \<in> set (az_grants z). \<exists>g. s = Stored g)"
  unfolding grants_readable_def list_all_iff
  by (auto split: prod.splits) (metis stored.exhaust)+

lemma capability_Allow:
  "capability_decision rfc z a res = Allow \<longleftrightarrow>
     agent_exists z a \<and> grants_readable z \<and> (\<exists>g. live_grant rfc z a res g)"
proof (cases "list_for_agent (az_grants z) a")
  case (Inl e)
  then have "\<not> grants_readable z"
    using list_for_agent_readable [of "az_grants z" a] by (auto simp: grants_readable_iff)
  with Inl show ?thesis by (simp add: capability_decision_def)
next
  case (Inr gs)
  then have r: "grants_readable z"
    using list_for_agent_readable [of "az_grants z" a] by (auto simp: grants_readable_iff)
  have s: "set gs = {g. (\<exists>k. (k, Stored g) \<in> set (az_grants z)) \<and> cg_agent_id g = a}"
    using Inr by (rule list_for_agent_Inr)
  have "capability_decision rfc z a res = Allow \<longleftrightarrow> agent_exists z a
      \<and> (\<exists>g \<in> set gs. grant_matches res g \<and> \<not> grant_is_expired rfc (az_now z) g)"
    using Inr by (auto simp: capability_decision_def Let_def filter_empty_conv)
  with r s show ?thesis by (auto simp: live_grant_def)
qed

lemma caller_context_None:
  "caller_context p = None \<longleftrightarrow> pl_kind p = Operator \<or>
     (\<exists>a s. pl_agent_id p = Some a \<and> pl_session_id p = Some s \<and> s \<noteq> [])"
  by (auto simp: caller_context_def split: principal_kind.splits option.splits)

lemma caller_context_not_Allow: "caller_context p \<noteq> Some Allow"
  by (auto simp: caller_context_def split: principal_kind.splits option.splits)

lemma capability_Allow_imp:
  "capability_decision rfc z a res = Allow \<Longrightarrow> agent_exists z a \<and> (\<exists>g. live_grant rfc z a res g)"
  by (simp add: capability_Allow)

lemma policy_matching_None:
  "policy_matching f tool res = Inr None \<longleftrightarrow>
     (\<exists>rs. policy_load f = Inr rs \<and> \<not> list_ex (rule_matches tool res) rs)"
  by (auto simp: policy_matching_def bindR_Inr_iff find_None_iff list_ex_iff)

lemma authorize_inner_Allow:
  "authorize_inner rfc z rq = Allow \<longleftrightarrow>
     caller_context (rq_principal rq) = None
     \<and> az_manifest z = Inr (pl_workspace_id (rq_principal rq))
     \<and> is_authorizable_resource (rq_resource rq)
     \<and> policy_matching (az_policy z) (tool_name (rq_action rq)) (rq_resource rq) = Inr None
     \<and> (pl_kind (rq_principal rq) = Operator
        \<or> capability_decision rfc z (the (pl_agent_id (rq_principal rq))) (rq_resource rq) = Allow)"
  using caller_context_not_Allow [of "rq_principal rq"]
  by (auto simp: authorize_inner_def split: option.splits sum.splits)

text \<open>
  C9. The authorization decision, completely: an edit is allowed exactly when the principal is
  the operator or an agent with a session, is bound to this workspace, names a safe relative
  resource, no deny rule of the readable policy store matches, and, for an agent, the agent is
  known, its grants are all readable and some Filesystem grant of its own covers the resource
  and has not expired. Everything else is a denial: no error path allows.
\<close>

theorem authorize_allow_iff:
  "(authorize_inner rfc z rq = Allow) =
     ((pl_kind (rq_principal rq) = Operator
        \<or> (\<exists>a s. pl_agent_id (rq_principal rq) = Some a \<and> pl_session_id (rq_principal rq) = Some s \<and> s \<noteq> []
             \<and> agent_exists z a \<and> grants_readable z \<and> (\<exists>g. live_grant rfc z a (rq_resource rq) g)))
      \<and> az_manifest z = Inr (pl_workspace_id (rq_principal rq))
      \<and> is_authorizable_resource (rq_resource rq)
      \<and> (\<exists>rs. policy_load (az_policy z) = Inr rs
           \<and> \<not> list_ex (rule_matches (tool_name (rq_action rq)) (rq_resource rq)) rs))"
  unfolding authorize_inner_Allow capability_Allow caller_context_None policy_matching_None
  by (cases "pl_kind (rq_principal rq)") auto

text \<open>
  Deny rules override grants and only ever narrow: after a rule was added, every request it
  matches is denied to the operator and to agents alike, and no request that was denied before
  is allowed. An addition that fails changes no decision.
\<close>

theorem added_rule_only_denies:
  assumes "policy_add e r (az_policy z) = (res, f')"
  shows "(authorize_inner rfc (z\<lparr>az_policy := f'\<rparr>) rq = Allow) =
    (authorize_inner rfc z rq = Allow
       \<and> \<not> (res = Inr () \<and> rule_matches (tool_name (rq_action rq)) (rq_resource rq) r))"
proof (cases res)
  case (Inl err)
  with assms have "f' = az_policy z"
    by (auto simp: policy_add_def bindE_Inl_iff policy_save_def split: if_splits)
  with Inl show ?thesis by simp
next
  case (Inr u)
  with assms have "policy_add e r (az_policy z) = (Inr (), f')" by simp
  then obtain rules where l: "policy_load (az_policy z) = Inr rules" and f: "f' = Stored (rules @ [r])"
    by (rule policy_add_ok)
  have m: "policy_matching f' t x = Inr None \<longleftrightarrow> policy_matching (az_policy z) t x = Inr None
      \<and> \<not> rule_matches t x r" for t x
    unfolding policy_matching_None l f by (auto simp: policy_load_def)
  have c: "capability_decision rfc (z\<lparr>az_policy := f'\<rparr>) a x = capability_decision rfc z a x" for a x
    by (auto simp: capability_decision_def agent_exists_def Let_def split: sum.split)
  show ?thesis unfolding authorize_inner_Allow using Inr by (auto simp: m c)
qed

definition sample_rule :: policy_rule where
  "sample_rule = \<lparr>pr_id = ''r1'', pr_tool = ''filesystem.replace'', pr_pattern = ''src'',
     pr_reason = None, pr_created_at = ''now''\<rparr>"

definition sample_grant :: capability_grant where
  "sample_grant = \<lparr>cg_id = ''g1'', cg_agent_id = ''bot'', cg_permission = Filesystem,
     cg_scope = Some ''src'', cg_granted_at = ''now'', cg_expires_at = Some ''later''\<rparr>"

definition sample_env :: authz_env where
  "sample_env = \<lparr>az_manifest = Inr ''ws'', az_policy = Absent,
     az_agents = [(''bot'', Stored \<lparr>ag_id = ''bot'', ag_name = ''bot'', ag_role = ''dev'',
        ag_status = Active, ag_enabled = True, ag_created_at = ''now''\<rparr>)],
     az_grants = [(''g1'', Stored sample_grant)], az_now = 10\<rparr>"

definition sample_rfc :: "string \<Rightarrow> int option" where
  "sample_rfc s = (if s = ''later'' then Some 20 else None)"

definition sample_request :: authz_request where
  "sample_request = \<lparr>rq_action = ActReplace, rq_principal = agent_principal ''bot'' ''s1'' ''ws'',
     rq_resource = ''src/main.rs'', rq_transaction_id = Some ''e1''\<rparr>"

theorem added_rule_only_denies_witness:
  "authorize_inner sample_rfc sample_env sample_request = Allow
   \<and> authorize_inner sample_rfc (sample_env\<lparr>az_policy := Stored [sample_rule]\<rparr>) sample_request \<noteq> Allow"
proof -
  have a: "policy_add \<lparr>lock_ok = True, write_ok = True\<rparr> sample_rule (az_policy sample_env)
      = (Inr (), Stored [sample_rule])" by code_simp
  have "rule_matches (tool_name (rq_action sample_request)) (rq_resource sample_request) sample_rule"
    by code_simp
  then have "authorize_inner sample_rfc (sample_env\<lparr>az_policy := Stored [sample_rule]\<rparr>) sample_request \<noteq> Allow"
    using added_rule_only_denies [OF a, of sample_rfc sample_request] by simp
  moreover have "authorize_inner sample_rfc sample_env sample_request = Allow" by code_simp
  ultimately show ?thesis by simp
qed

lemma grant_revoke_Inr:
  "grant_revoke e i d = (Inr True, d') \<Longrightarrow> d' = dir_remove i d"
  by (auto simp: grant_revoke_def bindE_Inr_iff split: if_splits)

text \<open>
  Revocation takes effect at once: when every live grant that backs an agent's request is
  the revoked one, the request is denied afterwards.
\<close>

theorem revoked_grant_denied:
  assumes "grant_revoke e i (az_grants z) = (Inr True, d')"
    and "pl_kind (rq_principal rq) = AgentKind"
    and "\<And>k g. (k, Stored g) \<in> set (az_grants z) \<Longrightarrow>
      live_grant rfc z (the (pl_agent_id (rq_principal rq))) (rq_resource rq) g \<Longrightarrow> k = i"
  shows "authorize_inner rfc (z\<lparr>az_grants := d'\<rparr>) rq \<noteq> Allow"
proof
  let ?a = "the (pl_agent_id (rq_principal rq))"
  assume "authorize_inner rfc (z\<lparr>az_grants := d'\<rparr>) rq = Allow"
  then have "capability_decision rfc (z\<lparr>az_grants := d'\<rparr>) ?a (rq_resource rq) = Allow"
    using assms(2) by (simp add: authorize_inner_Allow)
  then obtain g where g: "live_grant rfc (z\<lparr>az_grants := d'\<rparr>) ?a (rq_resource rq) g"
    using capability_Allow_imp by blast
  then obtain k where k: "(k, Stored g) \<in> set (az_grants z)" "k \<noteq> i"
    unfolding live_grant_def using grant_revoke_Inr [OF assms(1)] by (auto simp: dir_remove_def)
  moreover have "live_grant rfc z ?a (rq_resource rq) g" using g k by (auto simp: live_grant_def)
  ultimately show False using assms(3) by blast
qed

theorem revoked_grant_denied_witness:
  "authorize_inner sample_rfc sample_env sample_request = Allow
   \<and> authorize_inner sample_rfc (sample_env\<lparr>az_grants := []\<rparr>) sample_request \<noteq> Allow"
proof -
  have r: "grant_revoke \<lparr>lock_ok = True, write_ok = True\<rparr> ''g1'' (az_grants sample_env) = (Inr True, [])"
    by code_simp
  have "authorize_inner sample_rfc (sample_env\<lparr>az_grants := []\<rparr>) sample_request \<noteq> Allow"
    by (rule revoked_grant_denied [OF r])
      (simp_all add: sample_env_def sample_request_def agent_principal_def)
  moreover have "authorize_inner sample_rfc sample_env sample_request = Allow" by code_simp
  ultimately show ?thesis by simp
qed

end
