(* ===== verification/EditModel.thy ===== *)
theory EditModel
  imports Authorization
begin

text \<open>
  The transport-independent edit transaction model, first part of \<open>services/edit.rs\<close>:
  operations, expected and observed file states, the lifecycle of a transaction, shape
  validation and the error taxonomy. SHA-256 is the parameter \<open>sha\<close>, from bytes to the list
  of digest bytes; \<open>sha256_hex\<close> is the code's hexadecimal rendering of it.
\<close>

section \<open>Operations, states, transactions\<close>

datatype edit_operation =
  Replace (rep_path: string) (rep_old: string) (rep_new: string) (rep_occurrence: "nat option")
| Insert string nat string
| DeleteRange string nat nat
| Patch string string string
| ApplyDiff string

fun op_paths :: "edit_operation \<Rightarrow> string list" where
  "op_paths (Replace p _ _ _) = [p]"
| "op_paths (Insert p _ _) = [p]"
| "op_paths (DeleteRange p _ _) = [p]"
| "op_paths (Patch p _ _) = [p]"
| "op_paths (ApplyDiff _) = []"

fun operation_label :: "edit_operation \<Rightarrow> string" where
  "operation_label (Replace _ _ _ _) = ''Replace''"
| "operation_label (Insert _ _ _) = ''Insert''"
| "operation_label (DeleteRange _ _ _) = ''DeleteRange''"
| "operation_label (Patch _ _ _) = ''Patch''"
| "operation_label (ApplyDiff _) = ''ApplyDiff''"

record expected_state =
  ex_hash :: "string option"
  ex_context :: "string option"
  ex_size :: "nat option"
  ex_line_count :: "nat option"

definition no_expectation :: expected_state where
  "no_expectation = \<lparr>ex_hash = None, ex_context = None, ex_size = None, ex_line_count = None\<rparr>"

record file_state =
  st_path :: string
  st_hash :: string
  st_size :: nat
  st_line_count :: nat

datatype expected_component = CHash | CSize | CLineCount

datatype malformed_state = MalformedHash | MalformedContext

datatype state_match =
  Matched | Conflicted expected_component | ContextPending | Malformed malformed_state msg

record edit_identity =
  id_agent_id :: "string option"
  id_session_id :: "string option"
  id_workspace_id :: "string option"

record edit_refs =
  rf_snapshot_id :: "string option"
  rf_provenance_id :: "string option"
  rf_audit_event_id :: "string option"
  rf_policy_decision_id :: "string option"

datatype edit_status =
  Requested | Authorized | Located | Validated | Snapshotted | Applied | Verified
| Committed | Rejected | Conflict | ValidationFailed | ApplyFailed | VerificationFailedS | RolledBack

fun is_terminal :: "edit_status \<Rightarrow> bool" where
  "is_terminal Committed = True"
| "is_terminal Rejected = True"
| "is_terminal Conflict = True"
| "is_terminal ValidationFailed = True"
| "is_terminal ApplyFailed = True"
| "is_terminal VerificationFailedS = True"
| "is_terminal RolledBack = True"
| "is_terminal _ = False"

definition can_transition_to :: "edit_status \<Rightarrow> edit_status \<Rightarrow> bool" where
  "can_transition_to s next =
     (if is_terminal s then False
      else (case s of
        Requested \<Rightarrow> next = Authorized \<or> next = Rejected
      | Authorized \<Rightarrow> next = Located \<or> next = Rejected
      | Located \<Rightarrow> next = Validated \<or> next = Rejected
      | Validated \<Rightarrow> next = Snapshotted \<or> next = Applied \<or> next = Conflict
          \<or> next = ValidationFailed \<or> next = Rejected
      | Snapshotted \<Rightarrow> next = Applied \<or> next = RolledBack
      | Applied \<Rightarrow> next = Verified \<or> next = ApplyFailed \<or> next = RolledBack
      | Verified \<Rightarrow> next = Committed \<or> next = VerificationFailedS \<or> next = RolledBack
      | _ \<Rightarrow> False))"

record edit_transaction =
  tx_id :: string
  tx_operations :: "edit_operation list"
  tx_expected :: "expected_state list"
  tx_before :: "file_state list"
  tx_after :: "file_state list"
  tx_status :: edit_status
  tx_identity :: edit_identity
  tx_refs :: edit_refs

text \<open>\<open>EditTransaction::new\<close>; the fresh id of \<open>EditId::new\<close> is an argument.\<close>

definition new_transaction :: "string \<Rightarrow> edit_operation list \<Rightarrow> edit_transaction" where
  "new_transaction i ops = \<lparr>tx_id = i, tx_operations = ops, tx_expected = [], tx_before = [],
     tx_after = [], tx_status = Requested,
     tx_identity = \<lparr>id_agent_id = None, id_session_id = None, id_workspace_id = None\<rparr>,
     tx_refs = \<lparr>rf_snapshot_id = None, rf_provenance_id = None, rf_audit_event_id = None,
       rf_policy_decision_id = None\<rparr>\<rparr>"

section \<open>Errors\<close>

record match_location =
  ml_byte_offset :: nat
  ml_line :: nat
  ml_column :: nat

record expected_summary =
  es_hash :: "string option"
  es_size :: "nat option"
  es_line_count :: "nat option"

definition summary_of :: "expected_state \<Rightarrow> expected_summary" where
  "summary_of e = \<lparr>es_hash = ex_hash e, es_size = ex_size e, es_line_count = ex_line_count e\<rparr>"

datatype context_reason = CtxMissing | CtxAmbiguous nat | CtxNotAnchored

datatype edit_error =
  EmptyTransaction
| ExpectedStateCount nat nat
| InvalidPath string
| EmptyMatch
| InvalidLineRange nat nat
| EmptyDiff
| InvalidDiff msg
| BinaryPatch msg
| HunkContextMismatch string nat
| EmptyInsertContent
| InvalidHash string
| EmptyContext
| InvalidOccurrence
| EmptyReference string
| UnsafeReference string
| UnsupportedTransaction nat
| PatchValidationFailure string "string option" msg
| PatchPreparationFailure string "string option" msg
| PatchCommitFailure string "string list" string msg
| FileNotFound string
| ReadFailure string msg
| InvalidUtf8 string
| MatchNotFound string
| AmbiguousMatch string nat "match_location list"
| OccurrenceOutOfRange string nat nat
| InsertBoundaryOutOfRange string nat nat
| LineOutOfRange string nat nat nat
| EmptyFileDeletion string
| ExpectedStateConflict string expected_component expected_summary file_state
| ContextConflict string context_reason
| WriteFailure string msg
| VerificationFailed string file_state file_state
| SemanticVerificationFailure string msg "nat option" string msg file_state
| AuthorizationDenied string msg denial_reason

fun component_msg :: "expected_component \<Rightarrow> msg" where
  "component_msg CHash = Txt ''hash''"
| "component_msg CSize = Txt ''size''"
| "component_msg CLineCount = Txt ''line_count''"

fun context_reason_msg :: "context_reason \<Rightarrow> msg" where
  "context_reason_msg CtxMissing = Txt ''context does not occur in the current content''"
| "context_reason_msg (CtxAmbiguous n) = Fmt ''context occurs {} times in the current content'' [Num n]"
| "context_reason_msg CtxNotAnchored = Txt ''context does not contain the selected match''"

fun edit_error_msg :: "edit_error \<Rightarrow> msg" where
  "edit_error_msg EmptyTransaction = Txt ''edit transaction must contain at least one operation''"
| "edit_error_msg (ExpectedStateCount ops ex) =
     Fmt ''expected state count ({}) does not match operation count ({})'' [Num ex, Num ops]"
| "edit_error_msg (InvalidPath p) = Fmt ''edit target path is invalid: {}'' [Txt p]"
| "edit_error_msg EmptyMatch = Txt ''edit match text must not be empty''"
| "edit_error_msg (InvalidLineRange s e) = Fmt ''line range is invalid: {}..={}'' [Num s, Num e]"
| "edit_error_msg EmptyDiff = Txt ''unified diff must not be empty''"
| "edit_error_msg (InvalidDiff m) = Fmt ''invalid unified diff format: {}'' [m]"
| "edit_error_msg (BinaryPatch m) = Fmt ''unsupported binary patch: {}'' [m]"
| "edit_error_msg (HunkContextMismatch p h) = Fmt ''hunk context mismatch in {} at hunk {}'' [Txt p, Num h]"
| "edit_error_msg EmptyInsertContent = Txt ''insert content must not be empty''"
| "edit_error_msg (InvalidHash h) =
     Fmt ''expected-state hash must be 64 lowercase hex characters: {}'' [Txt h]"
| "edit_error_msg EmptyContext = Txt ''expected-state context must not be empty when supplied''"
| "edit_error_msg InvalidOccurrence = Txt ''replace occurrence must be at least 1 when supplied''"
| "edit_error_msg (EmptyReference f) = Fmt ''{} must not be empty when supplied'' [Txt f]"
| "edit_error_msg (UnsafeReference f) = Fmt ''{} must not contain control characters'' [Txt f]"
| "edit_error_msg (UnsupportedTransaction n) =
     Fmt ''this executor performs exactly one replace operation; got {} operation(s) of unsupported shape'' [Num n]"
| "edit_error_msg (PatchValidationFailure t _ r) =
     Fmt ''patch validation failed for transaction {}: {}'' [Txt t, r]"
| "edit_error_msg (PatchPreparationFailure t _ r) =
     Fmt ''patch preparation failed for transaction {}: {}'' [Txt t, r]"
| "edit_error_msg (PatchCommitFailure t _ _ r) =
     Fmt ''patch commit failed for transaction {}: {}'' [Txt t, r]"
| "edit_error_msg (FileNotFound p) = Fmt ''target file not found in workspace: {}'' [Txt p]"
| "edit_error_msg (ReadFailure p m) = Fmt ''could not read target file {}: {}'' [Txt p, m]"
| "edit_error_msg (InvalidUtf8 p) = Fmt ''target file is not valid UTF-8 text: {}'' [Txt p]"
| "edit_error_msg (MatchNotFound p) = Fmt ''match text not found in {}'' [Txt p]"
| "edit_error_msg (AmbiguousMatch p n _) =
     Fmt ''match text occurs {} times in {}; select an occurrence or make the match unique'' [Num n, Txt p]"
| "edit_error_msg (OccurrenceOutOfRange p n c) =
     Fmt ''occurrence {} is out of range: {} match(es) found in {}'' [Num n, Num c, Txt p]"
| "edit_error_msg (InsertBoundaryOutOfRange _ l n) =
     Fmt ''insert boundary {} is out of range: file has {} line(s)'' [Num l, Num n]"
| "edit_error_msg (LineOutOfRange _ s e n) =
     Fmt ''line range {}..={} is out of range: file has {} line(s)'' [Num s, Num e, Num n]"
| "edit_error_msg (EmptyFileDeletion p) = Fmt ''cannot delete lines from a file with no lines: {}'' [Txt p]"
| "edit_error_msg (ExpectedStateConflict p c _ _) =
     Fmt ''expected-state conflict on {}: {} mismatch'' [Txt p, component_msg c]"
| "edit_error_msg (ContextConflict p r) =
     Fmt ''expected-state context conflict on {}: {}'' [Txt p, context_reason_msg r]"
| "edit_error_msg (WriteFailure p m) = Fmt ''could not write target file {}: {}'' [Txt p, m]"
| "edit_error_msg (VerificationFailed p _ _) =
     Fmt ''verification failed for {}: observed content differs from prepared content'' [Txt p]"
| "edit_error_msg (SemanticVerificationFailure p r _ _ _ _) =
     Fmt ''semantic verification failed for {}: {}'' [Txt p, r]"
| "edit_error_msg (AuthorizationDenied a r _) =
     Fmt ''authorization denied for operation {}: {}'' [Txt a, r]"

section \<open>Hashes and observed states\<close>

type_synonym sha = "string \<Rightarrow> nat list"

definition hex_digit :: "nat \<Rightarrow> char" where
  "hex_digit n = (if n < 10 then char_of (48 + n) else char_of (87 + n))"

definition sha256_hex :: "sha \<Rightarrow> string \<Rightarrow> string" where
  "sha256_hex sha b = concat (map (\<lambda>d. [hex_digit (d div 16), hex_digit (d mod 16)]) (sha b))"

definition is_valid_hash :: "string \<Rightarrow> bool" where
  "is_valid_hash h \<longleftrightarrow> length h = 64 \<and>
     list_all (\<lambda>c. (48 \<le> byte c \<and> byte c \<le> 57) \<or> (97 \<le> byte c \<and> byte c \<le> 102)) h"

definition line_count :: "string \<Rightarrow> nat" where
  "line_count content = (if content = [] then 0 else length (str_lines content))"

definition state_of :: "sha \<Rightarrow> string \<Rightarrow> string \<Rightarrow> file_state" where
  "state_of sha path content = \<lparr>st_path = path, st_hash = sha256_hex sha content,
     st_size = length content, st_line_count = line_count content\<rparr>"

definition check_state :: "file_state \<Rightarrow> expected_state \<Rightarrow> state_match" where
  "check_state s e =
     (let rest =
        (if ex_size e \<noteq> None \<and> ex_size e \<noteq> Some (st_size s) then Conflicted CSize
         else if ex_line_count e \<noteq> None \<and> ex_line_count e \<noteq> Some (st_line_count s) then Conflicted CLineCount
         else if ex_context e \<noteq> None then ContextPending else Matched)
      in case ex_hash e of
           None \<Rightarrow> rest
         | Some h \<Rightarrow>
             if \<not> is_valid_hash h then Malformed MalformedHash (edit_error_msg (InvalidHash h))
             else if h \<noteq> st_hash s then Conflicted CHash
             else rest)"

section \<open>Shape validation\<close>

definition validate_path :: "string \<Rightarrow> edit_error + unit" where
  "validate_path p =
     (if p = [] \<or> is_absolute p \<or> has_control p then Inl (InvalidPath p)
      else if has_parent_component p then Inl (InvalidPath p)
      else Inr ())"

definition validate_optional_reference :: "string \<Rightarrow> string option \<Rightarrow> edit_error + unit" where
  "validate_optional_reference field v = (case v of
      None \<Rightarrow> Inr ()
    | Some x \<Rightarrow> if x = [] then Inl (EmptyReference field)
                else if has_control x then Inl (UnsafeReference field) else Inr ())"

definition validate_expected :: "expected_state \<Rightarrow> edit_error + unit" where
  "validate_expected e =
     bindR (case ex_hash e of None \<Rightarrow> Inr () | Some h \<Rightarrow> ensure (is_valid_hash h) (InvalidHash h))
       (\<lambda>_. ensure (ex_context e \<noteq> Some []) EmptyContext)"

fun validate_operation :: "edit_operation \<Rightarrow> edit_error + unit" where
  "validate_operation (Replace path old _ occ) =
     bindR (validate_path path) (\<lambda>_.
       if old = [] then Inl EmptyMatch
       else if occ = Some 0 then Inl InvalidOccurrence else Inr ())"
| "validate_operation (Insert path _ content) =
     bindR (validate_path path) (\<lambda>_. if content = [] then Inl EmptyInsertContent else Inr ())"
| "validate_operation (DeleteRange path s e) =
     bindR (validate_path path) (\<lambda>_.
       if s = 0 \<or> e = 0 \<or> e < s then Inl (InvalidLineRange s e) else Inr ())"
| "validate_operation (Patch path old _) =
     bindR (validate_path path) (\<lambda>_. if old = [] then Inl EmptyMatch else Inr ())"
| "validate_operation (ApplyDiff diff) = (if trim diff = [] then Inl EmptyDiff else Inr ())"

definition validate_references :: "edit_transaction \<Rightarrow> edit_error + unit" where
  "validate_references t =
     (let i = tx_identity t; r = tx_refs t in
      bindR (validate_optional_reference ''agent_id'' (id_agent_id i)) (\<lambda>_.
      bindR (validate_optional_reference ''session_id'' (id_session_id i)) (\<lambda>_.
      bindR (validate_optional_reference ''workspace_id'' (id_workspace_id i)) (\<lambda>_.
      bindR (validate_optional_reference ''snapshot_id'' (rf_snapshot_id r)) (\<lambda>_.
      bindR (validate_optional_reference ''provenance_id'' (rf_provenance_id r)) (\<lambda>_.
      bindR (validate_optional_reference ''audit_event_id'' (rf_audit_event_id r)) (\<lambda>_.
      validate_optional_reference ''policy_decision_id'' (rf_policy_decision_id r))))))))"

definition validate_shape :: "edit_transaction \<Rightarrow> edit_error + unit" where
  "validate_shape t =
     (if tx_operations t = [] then Inl EmptyTransaction
      else if tx_expected t \<noteq> [] \<and> length (tx_expected t) \<noteq> length (tx_operations t) then
        Inl (ExpectedStateCount (length (tx_operations t)) (length (tx_expected t)))
      else bindR (each validate_expected (tx_expected t)) (\<lambda>_.
           bindR (validate_references t) (\<lambda>_.
           each validate_operation (tx_operations t))))"

section \<open>Lemmas\<close>

text \<open>The documented shape of a SHA-256 digest: 32 bytes.\<close>

definition digest_shape :: "sha \<Rightarrow> bool" where
  "digest_shape sha \<longleftrightarrow> (\<forall>b. length (sha b) = 32 \<and> (\<forall>d \<in> set (sha b). d < 256))"

lemma byte_hex_digit: "n < 16 \<Longrightarrow> byte (hex_digit n) = (if n < 10 then 48 + n else 87 + n)"
  by (simp add: hex_digit_def)

lemma hex_digit_range:
  "n < 16 \<Longrightarrow> (48 \<le> byte (hex_digit n) \<and> byte (hex_digit n) \<le> 57)
     \<or> (97 \<le> byte (hex_digit n) \<and> byte (hex_digit n) \<le> 102)"
  by (cases "n < 10") (auto simp: byte_hex_digit)

lemma div_less_16: "x < 256 \<Longrightarrow> x div 16 < (16::nat)"
  by (simp add: less_mult_imp_div_less)

lemma length_concat_pairs: "length (concat (map (\<lambda>d. [f d, g d]) ds)) = 2 * length ds"
  by (induction ds) auto

lemma sha256_hex_valid: "digest_shape sha \<Longrightarrow> is_valid_hash (sha256_hex sha b)"
proof -
  assume d: "digest_shape sha"
  have dig: "x < 256 \<Longrightarrow> y \<in> {hex_digit (x div 16), hex_digit (x mod 16)} \<Longrightarrow>
      (48 \<le> byte y \<and> byte y \<le> 57) \<or> (97 \<le> byte y \<and> byte y \<le> 102)" for x and y :: char
    using div_less_16 [of x] hex_digit_range [of "x div 16"] hex_digit_range [of "x mod 16"] by auto
  from d have "length (sha256_hex sha b) = 64"
    by (simp add: sha256_hex_def digest_shape_def length_concat_pairs)
  moreover have "\<forall>y \<in> set (sha256_hex sha b).
      (48 \<le> byte y \<and> byte y \<le> 57) \<or> (97 \<le> byte y \<and> byte y \<le> 102)"
    unfolding sha256_hex_def using d dig by (fastforce simp: digest_shape_def)
  ultimately show ?thesis by (simp add: is_valid_hash_def list_all_iff)
qed

lemma check_Matched:
  "check_state s e = Matched \<longleftrightarrow>
     (\<forall>h. ex_hash e = Some h \<longrightarrow> is_valid_hash h \<and> h = st_hash s) \<and>
     (\<forall>n. ex_size e = Some n \<longrightarrow> n = st_size s) \<and>
     (\<forall>n. ex_line_count e = Some n \<longrightarrow> n = st_line_count s) \<and> ex_context e = None"
  by (auto simp: check_state_def Let_def split: option.splits)

lemma check_ContextPending:
  "check_state s e = ContextPending \<longleftrightarrow>
     (\<forall>h. ex_hash e = Some h \<longrightarrow> is_valid_hash h \<and> h = st_hash s) \<and>
     (\<forall>n. ex_size e = Some n \<longrightarrow> n = st_size s) \<and>
     (\<forall>n. ex_line_count e = Some n \<longrightarrow> n = st_line_count s) \<and> ex_context e \<noteq> None"
  by (auto simp: check_state_def Let_def split: option.splits)

lemma validate_path_Inr:
  "validate_path p = Inr u \<longleftrightarrow>
     p \<noteq> [] \<and> \<not> is_absolute p \<and> \<not> has_control p \<and> \<not> has_parent_component p"
  by (auto simp: validate_path_def)

lemma validate_shape_Inr:
  "validate_shape t = Inr u \<longleftrightarrow> tx_operations t \<noteq> []
     \<and> (tx_expected t = [] \<or> length (tx_expected t) = length (tx_operations t))
     \<and> (\<forall>e \<in> set (tx_expected t). validate_expected e = Inr ())
     \<and> validate_references t = Inr ()
     \<and> (\<forall>op \<in> set (tx_operations t). validate_operation op = Inr ())"
  by (auto simp: validate_shape_def bindR_unit_Inr_iff each_Inr_iff)

lemma new_transaction_simps [simp]:
  "tx_id (new_transaction i ops) = i" "tx_operations (new_transaction i ops) = ops"
  "tx_expected (new_transaction i ops) = []" "validate_references (new_transaction i ops) = Inr ()"
  by (simp_all add: new_transaction_def validate_references_def validate_optional_reference_def)

section \<open>The status machine\<close>

inductive status_run :: "edit_status \<Rightarrow> edit_status list \<Rightarrow> bool" where
  stay: "status_run s []"
| move: "can_transition_to s next \<Longrightarrow> status_run next rest \<Longrightarrow> status_run s (next # rest)"

inductive_cases status_run_ConsE: "status_run s (next # rest)"

text \<open>The stages a run still has to pass before it commits, and how many steps it can take.\<close>

fun stages_left :: "edit_status \<Rightarrow> edit_status list" where
  "stages_left Requested = [Authorized, Located, Validated, Applied, Verified, Committed]"
| "stages_left Authorized = [Located, Validated, Applied, Verified, Committed]"
| "stages_left Located = [Validated, Applied, Verified, Committed]"
| "stages_left Validated = [Applied, Verified, Committed]"
| "stages_left Snapshotted = [Applied, Verified, Committed]"
| "stages_left Applied = [Verified, Committed]"
| "stages_left Verified = [Committed]"
| "stages_left _ = []"

fun steps_left :: "edit_status \<Rightarrow> nat" where
  "steps_left Requested = 7"
| "steps_left Authorized = 6"
| "steps_left Located = 5"
| "steps_left Validated = 4"
| "steps_left Snapshotted = 3"
| "steps_left Applied = 2"
| "steps_left Verified = 1"
| "steps_left _ = 0"

lemma steps_left_less: "can_transition_to s next \<Longrightarrow> steps_left next < steps_left s"
  by (cases s; cases "next") (simp_all add: can_transition_to_def)

lemma steps_left_terminal: "(steps_left s = 0) = is_terminal s"
  by (cases s) simp_all

lemma stages_left_step:
  "can_transition_to s next \<Longrightarrow> next \<noteq> Committed \<Longrightarrow> \<not> is_terminal next \<Longrightarrow>
     stages_left s = stages_left next \<or> stages_left s = next # stages_left next"
  by (cases s; cases "next") (simp_all add: can_transition_to_def)

lemma status_run_bound: "status_run s ss \<Longrightarrow> length ss \<le> steps_left s"
  by (induction rule: status_run.induct) (use steps_left_less in fastforce)+

lemma status_run_stages: "status_run s ss \<Longrightarrow> Committed \<in> set ss \<Longrightarrow> subseq (stages_left s) ss"
proof (induction rule: status_run.induct)
  case (move s nxt rest)
  show ?case
  proof (cases "nxt = Committed")
    case True
    with move(1) show ?thesis by (cases s) (simp_all add: can_transition_to_def)
  next
    case False
    with move have r: "Committed \<in> set rest" "subseq (stages_left nxt) rest" by auto
    then have "\<not> is_terminal nxt"
      using status_run_bound [OF move(2)] by (cases rest) (auto simp: steps_left_terminal [symmetric])
    with stages_left_step [OF move(1) False] r(2) show ?thesis by auto
  qed
qed simp

text \<open>
  C13. The lifecycle of a transaction: every run from the initial status has at most seven steps,
  a status no step leaves is exactly a terminal one, and a run that commits went through
  authorized, located, validated, applied and verified, in this order.
\<close>

theorem lifecycle_reaches_commit_in_order:
  assumes "status_run Requested ss"
  shows "length ss \<le> 7
    \<and> (Committed \<in> set ss \<longrightarrow> subseq [Authorized, Located, Validated, Applied, Verified, Committed] ss)
    \<and> (is_terminal s \<longleftrightarrow> \<not> (\<exists>next. can_transition_to s next))"
proof -
  have "\<exists>next. can_transition_to s next" if "\<not> is_terminal s"
    using that by (cases s) (auto simp: can_transition_to_def)
  then have "is_terminal s \<longleftrightarrow> \<not> (\<exists>next. can_transition_to s next)"
    by (auto simp: can_transition_to_def)
  with status_run_bound [OF assms] status_run_stages [OF assms] show ?thesis by simp
qed

theorem lifecycle_reaches_commit_in_order_witness:
  "subseq [Authorized, Located, Validated, Applied, Verified, Committed]
     [Authorized, Located, Validated, Snapshotted, Applied, Verified, Committed]"
proof -
  have "status_run Requested [Authorized, Located, Validated, Snapshotted, Applied, Verified, Committed]"
    by (intro status_run.intros) (simp_all add: can_transition_to_def)
  from lifecycle_reaches_commit_in_order [OF this, of Requested] show ?thesis by simp
qed

section \<open>Shape and state checks, decided\<close>

definition operation_shape :: "edit_operation \<Rightarrow> bool" where
  "operation_shape op = (case op of
     Replace p old _ occ \<Rightarrow> validate_path p = Inr () \<and> old \<noteq> [] \<and> occ \<noteq> Some 0
   | Insert p _ content \<Rightarrow> validate_path p = Inr () \<and> content \<noteq> []
   | DeleteRange p s e \<Rightarrow> validate_path p = Inr () \<and> 0 < s \<and> s \<le> e
   | Patch p old _ \<Rightarrow> validate_path p = Inr () \<and> old \<noteq> []
   | ApplyDiff d \<Rightarrow> trim d \<noteq> [])"

lemma validate_operation_Inr: "validate_operation op = Inr u \<longleftrightarrow> operation_shape op"
  by (cases op) (auto simp: operation_shape_def bindR_unit_Inr_iff split: if_splits)

text \<open>
  The expected-state check, completely: an observed state of some content matches an
  expectation exactly when every component it names is the content's (the digest, the size in
  bytes, the number of lines); the digests are those SHA-256 gives, of which only the documented
  shape (32 bytes) is used.
\<close>

theorem expected_state_check:
  assumes "digest_shape sha"
  shows "(check_state (state_of sha p c) e = Matched) =
      ((ex_hash e = None \<or> ex_hash e = Some (sha256_hex sha c))
       \<and> (ex_size e = None \<or> ex_size e = Some (length c))
       \<and> (ex_line_count e = None \<or> ex_line_count e = Some (line_count c))
       \<and> ex_context e = None)"
  unfolding check_Matched using sha256_hex_valid [OF assms]
  by (cases "ex_hash e"; cases "ex_size e"; cases "ex_line_count e") (auto simp: state_of_def)

theorem expected_state_check_witness:
  "check_state (state_of (\<lambda>_. replicate 32 7) ''f'' ''ab'')
     \<lparr>ex_hash = Some (sha256_hex (\<lambda>_. replicate 32 7) ''ab''), ex_context = None, ex_size = Some 2,
      ex_line_count = None\<rparr> = Matched"
proof -
  have "digest_shape (\<lambda>_. replicate 32 7)" by (simp add: digest_shape_def)
  then show ?thesis by (simp add: expected_state_check)
qed

text \<open>
  Shape validation accepts exactly the well-shaped transactions: at least one operation,
  either no expected states or one per operation, each with a valid digest and no empty
  context, references without control characters, and every operation with a safe relative
  path, a non-empty match or content, a selected occurrence of at least one, and an ordered
  line range that starts at line one or later.
\<close>

theorem shape_accepts_exactly:
  "(validate_shape t = Inr ()) =
     (tx_operations t \<noteq> []
      \<and> (tx_expected t = [] \<or> length (tx_expected t) = length (tx_operations t))
      \<and> list_all (\<lambda>e. (case ex_hash e of None \<Rightarrow> True | Some h \<Rightarrow> is_valid_hash h) \<and> ex_context e \<noteq> Some [])
          (tx_expected t)
      \<and> list_all (\<lambda>r. case r of None \<Rightarrow> True | Some x \<Rightarrow> x \<noteq> [] \<and> \<not> has_control x)
          [id_agent_id (tx_identity t), id_session_id (tx_identity t), id_workspace_id (tx_identity t),
           rf_snapshot_id (tx_refs t), rf_provenance_id (tx_refs t), rf_audit_event_id (tx_refs t),
           rf_policy_decision_id (tx_refs t)]
      \<and> list_all operation_shape (tx_operations t))"
proof -
  have ref: "validate_optional_reference f v = Inr ()
      \<longleftrightarrow> (case v of None \<Rightarrow> True | Some x \<Rightarrow> x \<noteq> [] \<and> \<not> has_control x)" for f v
    by (auto simp: validate_optional_reference_def split: option.splits)
  have ex: "validate_expected e = Inr ()
      \<longleftrightarrow> (case ex_hash e of None \<Rightarrow> True | Some h \<Rightarrow> is_valid_hash h) \<and> ex_context e \<noteq> Some []" for e
    by (auto simp: validate_expected_def bindR_unit_Inr_iff split: option.splits)
  show ?thesis
    unfolding validate_shape_Inr validate_references_def Let_def bindR_unit_Inr_iff ref ex
      validate_operation_Inr list_all_iff by auto
qed

end
