(* ===== verification/LineMap.thy ===== *)
theory LineMap
  imports EditModel
begin

text \<open>
  Locating text: \<open>find_matches\<close>, \<open>locate\<close>, \<open>check_context\<close> and the \<open>LineMap\<close> of
  \<open>services/edit.rs\<close>, the one model of line boundaries. The lemmas tie both to simple
  references: matches are the left-to-right non-overlapping occurrences, and the line map is
  the list of offsets of \<open>split_inclusive\<close>, so inserting and deleting by line number are
  \<open>take\<close> and \<open>drop\<close> on the list of lines.
\<close>

section \<open>Matches and their coordinates\<close>

record located_match =
  lo_byte_offset :: nat
  lo_length :: nat
  lo_location :: match_location

definition rfind_char :: "char \<Rightarrow> string \<Rightarrow> nat option" where
  "rfind_char c s = (if c \<in> set s then Some (length s - 1 - length (takeWhile (\<lambda>x. x \<noteq> c) (rev s)))
     else None)"

definition locate :: "string \<Rightarrow> nat \<Rightarrow> match_location" where
  "locate content off =
     (let before = take off content;
          line = count_list before LF + 1;
          line_start = (case rfind_char LF before of None \<Rightarrow> 0 | Some i \<Rightarrow> i + 1);
          column = length (chars (drop line_start (take off content))) + 1
      in \<lparr>ml_byte_offset = off, ml_line = line, ml_column = column\<rparr>)"

function find_from :: "string \<Rightarrow> string \<Rightarrow> nat \<Rightarrow> located_match list" where
  "find_from h n pos =
     (if n = [] then [] else
      (case find_sub n (drop pos h) of
         None \<Rightarrow> []
       | Some rel \<Rightarrow>
           \<lparr>lo_byte_offset = pos + rel, lo_length = length n, lo_location = locate h (pos + rel)\<rparr>
             # find_from h n (pos + rel + length n)))"
  by pat_completeness auto
termination
proof (relation "measure (\<lambda>(h, n, pos). length h - pos)")
  fix h n :: string and pos rel
  assume "n \<noteq> []" and f: "find_sub n (drop pos h) = Some rel"
  then obtain c n' where n: "n = c # n'" by (cases n) auto
  from f have "rel + length n \<le> length h - pos" using find_sub_Some by fastforce
  with n show "((h, n, pos + rel + length n), h, n, pos) \<in> measure (\<lambda>(h, n, pos). length h - pos)"
    by simp
qed simp

declare find_from.simps [simp del]

lemma find_from_stop [simp]: "n = [] \<or> find_sub n (drop pos h) = None \<Longrightarrow> find_from h n pos = []"
  by (auto simp: find_from.simps [of h n pos])

lemma find_from_step:
  "n \<noteq> [] \<Longrightarrow> find_sub n (drop pos h) = Some rel \<Longrightarrow> find_from h n pos =
     \<lparr>lo_byte_offset = pos + rel, lo_length = length n, lo_location = locate h (pos + rel)\<rparr>
       # find_from h n (pos + rel + length n)"
  by (simp add: find_from.simps [of h n pos])

definition find_matches :: "string \<Rightarrow> string \<Rightarrow> located_match list" where
  "find_matches h n = find_from h n 0"

section \<open>The context precondition\<close>

record preflight =
  pf_content :: string
  pf_before :: file_state

definition check_context ::
    "preflight \<Rightarrow> expected_state option \<Rightarrow> nat \<Rightarrow> nat \<Rightarrow> edit_error + unit" where
  "check_context cur expected span_start span_end = (case expected of
      None \<Rightarrow> Inr ()
    | Some e \<Rightarrow> (case ex_context e of
        None \<Rightarrow> Inr ()
      | Some ctx \<Rightarrow>
          (let path = st_path (pf_before cur) in
           case find_matches (pf_content cur) ctx of
             [] \<Rightarrow> Inl (ContextConflict path CtxMissing)
           | [m] \<Rightarrow>
               if lo_byte_offset m \<le> span_start \<and> span_end \<le> lo_byte_offset m + lo_length m
               then Inr () else Inl (ContextConflict path CtxNotAnchored)
           | ms \<Rightarrow> Inl (ContextConflict path (CtxAmbiguous (length ms))))))"

section \<open>The line map\<close>

record line_map =
  lm_starts :: "nat list"
  lm_ends :: "nat list"
  lm_terminators :: "nat list"
  lm_content_len :: nat

text \<open>
  The scan of \<open>LineMap::parse\<close>: the bytes left, the index of the next byte, the byte
  before it, and the start of the current line. Each line found gives its start, its end and
  the length of its terminator.
\<close>

fun lm_scan :: "string \<Rightarrow> nat \<Rightarrow> char option \<Rightarrow> nat \<Rightarrow> (nat \<times> nat \<times> nat) list" where
  "lm_scan [] i prev line_start = (if line_start < i then [(line_start, i, 0)] else [])"
| "lm_scan (c # cs) i prev line_start =
     (if c = LF then
        (line_start, i + 1, if prev = Some CR then 2 else 1) # lm_scan cs (i + 1) (Some c) (i + 1)
      else lm_scan cs (i + 1) (Some c) line_start)"

definition parse_lines :: "string \<Rightarrow> line_map" where
  "parse_lines content =
     (let ls = lm_scan content 0 None 0
      in \<lparr>lm_starts = map fst ls, lm_ends = map (fst \<circ> snd) ls, lm_terminators = map (snd \<circ> snd) ls,
          lm_content_len = length content\<rparr>)"

definition lm_len :: "line_map \<Rightarrow> nat" where
  "lm_len m = length (lm_starts m)"

definition lm_is_empty :: "line_map \<Rightarrow> bool" where
  "lm_is_empty m \<longleftrightarrow> lm_starts m = []"

definition insert_offset :: "line_map \<Rightarrow> nat \<Rightarrow> nat" where
  "insert_offset m boundary =
     (if boundary = 0 then 0
      else if boundary \<le> lm_len m then lm_starts m ! (boundary - 1)
      else lm_content_len m)"

definition line_span :: "line_map \<Rightarrow> nat \<Rightarrow> nat \<Rightarrow> (nat \<times> nat) option" where
  "line_span m s e =
     (if s = 0 \<or> e = 0 \<or> e < s \<or> lm_len m < e then None
      else Some (lm_starts m ! (s - 1), lm_ends m ! (e - 1)))"

definition terminator_str :: "line_map \<Rightarrow> string" where
  "terminator_str m = (case lm_terminators m of [] \<Rightarrow> [LF] | t # _ \<Rightarrow> if t = 2 then [CR, LF] else [LF])"

definition lacks_trailing_newline :: "line_map \<Rightarrow> bool" where
  "lacks_trailing_newline m \<longleftrightarrow> \<not> lm_is_empty m \<and> lm_terminators m ! (lm_len m - 1) = 0"

definition insert_at :: "line_map \<Rightarrow> string \<Rightarrow> nat \<Rightarrow> string \<Rightarrow> string" where
  "insert_at m file boundary inserted =
     (let terminator = terminator_str m;
          txt = (if \<not> ends_with inserted [LF] then inserted @ terminator else inserted)
      in if boundary = lm_len m + 1 \<and> lacks_trailing_newline m then file @ terminator @ txt
         else (let off = insert_offset m boundary in take off file @ txt @ drop off file))"

section \<open>Matches are the left-to-right non-overlapping occurrences\<close>

lemma find_from_match:
  "m \<in> set (find_from h n pos) \<Longrightarrow>
     pos \<le> lo_byte_offset m \<and> lo_length m = length n \<and> lo_byte_offset m + length n \<le> length h
     \<and> take (length n) (drop (lo_byte_offset m) h) = n \<and> n \<noteq> []
     \<and> lo_location m = locate h (lo_byte_offset m)"
proof (induction h n pos rule: find_from.induct)
  case (1 h n pos)
  show ?case
  proof (cases "n = [] \<or> find_sub n (drop pos h) = None")
    case True
    with 1(2) show ?thesis by simp
  next
    case False
    then obtain rel where rel: "find_sub n (drop pos h) = Some rel" and n: "n \<noteq> []" by auto
    from n obtain c n' where "n = c # n'" by (cases n) auto
    with find_sub_Some [OF rel] have b: "pos + rel + length n \<le> length h"
      "take (length n) (drop (pos + rel) h) = n"
      by (simp_all add: add.commute, arith)
    from 1(2) rel n have "m = \<lparr>lo_byte_offset = pos + rel, lo_length = length n,
        lo_location = locate h (pos + rel)\<rparr> \<or> m \<in> set (find_from h n (pos + rel + length n))"
      by (simp add: find_from_step)
    then show ?thesis
    proof
      assume "m \<in> set (find_from h n (pos + rel + length n))"
      from 1(1) [OF n rel this] show ?thesis by simp
    qed (use b n in simp)
  qed
qed

lemma find_from_nonoverlapping:
  "sorted_wrt (\<lambda>a b. lo_byte_offset a + length n \<le> lo_byte_offset b) (find_from h n pos)"
proof (induction h n pos rule: find_from.induct)
  case (1 h n pos)
  show ?case
  proof (cases "n = [] \<or> find_sub n (drop pos h) = None")
    case True
    then show ?thesis by simp
  next
    case False
    then obtain rel where rel: "find_sub n (drop pos h) = Some rel" and n: "n \<noteq> []" by auto
    have "\<forall>m \<in> set (find_from h n (pos + rel + length n)). pos + rel + length n \<le> lo_byte_offset m"
      using find_from_match by blast
    with rel n 1 show ?thesis by (simp add: find_from_step)
  qed
qed

lemma find_matches_Nil: "find_matches h n = [] \<longleftrightarrow> n = [] \<or> \<not> contains h n"
  unfolding find_matches_def contains_def
  by (subst find_from.simps) (auto split: option.splits)

text \<open>Between one match and the next no occurrence begins, so no occurrence is skipped.\<close>

lemma find_from_complete:
  assumes "n \<noteq> []" and "pos \<le> i" and "take (length n) (drop i h) = n"
  shows "\<exists>m \<in> set (find_from h n pos). lo_byte_offset m \<le> i \<and> i < lo_byte_offset m + length n"
  using assms
proof (induction h n pos rule: find_from.induct)
  case (1 h n pos)
  have at: "take (length n) (drop (i - pos) (drop pos h)) = n" using 1(3,4) by simp
  then obtain rel where rel: "find_sub n (drop pos h) = Some rel"
    by (cases "find_sub n (drop pos h)") (auto simp: find_sub_None)
  have "rel \<le> i - pos" using find_sub_first [OF rel] at by (meson linorder_not_le)
  with 1(3) have le: "pos + rel \<le> i" by simp
  show ?case
  proof (cases "i < pos + rel + length n")
    case True
    with le rel 1(2) show ?thesis by (simp add: find_from_step)
  next
    case False
    with 1(1) [OF 1(2) rel 1(2) _ 1(4)] rel 1(2) show ?thesis
      by (simp add: find_from_step)
  qed
qed

lemma match_split:
  assumes "m \<in> set (find_matches h n)"
  shows "h = take (lo_byte_offset m) h @ n @ drop (lo_byte_offset m + lo_length m) h"
proof -
  from assms have "take (length n) (drop (lo_byte_offset m) h) = n" "lo_length m = length n"
    using find_from_match unfolding find_matches_def by blast+
  then show ?thesis by (metis add.commute append_take_drop_id drop_drop)
qed

lemma check_context_Inr:
  "check_context cur ex a b = Inr u \<longleftrightarrow>
     (\<forall>e ctx. ex = Some e \<longrightarrow> ex_context e = Some ctx \<longrightarrow>
       (\<exists>m. find_matches (pf_content cur) ctx = [m] \<and> lo_byte_offset m \<le> a
          \<and> b \<le> lo_byte_offset m + lo_length m))"
  by (auto simp: check_context_def Let_def split: option.splits list.splits)

section \<open>The line map is the list of line offsets\<close>

definition term_len :: "string \<Rightarrow> nat" where
  "term_len l = (if ends_with l [CR, LF] then 2 else if ends_with l [LF] then 1 else 0)"

fun spans :: "nat \<Rightarrow> string list \<Rightarrow> (nat \<times> nat \<times> nat) list" where
  "spans off [] = []"
| "spans off (l # ls) = (off, off + length l, term_len l) # spans (off + length l) ls"

lemma term_len_LF: "term_len (p @ [LF]) = (if p \<noteq> [] \<and> last p = CR then 2 else 1)"
  by (cases p rule: rev_cases) (auto simp: term_len_def ends_with_def starts_with_def)

lemma term_len_no_LF: "LF \<notin> set p \<Longrightarrow> term_len p = 0"
  by (auto simp: term_len_def ends_with_iff)

lemma lm_scan_spans:
  assumes "LF \<notin> set p" and "prev = Some CR \<longleftrightarrow> p \<noteq> [] \<and> last p = CR"
  shows "lm_scan rest (off + length p) prev off = spans off (split_inclusive (p @ rest))"
  using assms
proof (induction rest arbitrary: p prev off)
  case Nil
  then show ?case
    by (cases "p = []") (simp_all add: split_inclusive_no_LF term_len_no_LF)
next
  case (Cons c cs)
  show ?case
  proof (cases "c = LF")
    case True
    have "lm_scan cs (off + length p + 1) (Some c) (off + length p + 1)
        = spans (off + length p + 1) (split_inclusive cs)"
      using Cons.IH [of "[]" "Some c" "off + length p + 1"] True by simp
    with True Cons.prems show ?thesis
      by (simp add: split_inclusive_append_line term_len_LF)
  next
    case False
    have "lm_scan cs (off + length (p @ [c])) (Some c) off = spans off (split_inclusive ((p @ [c]) @ cs))"
      using Cons.prems False by (intro Cons.IH) auto
    with False show ?thesis by simp
  qed
qed

lemma lm_scan_lines: "lm_scan s 0 None 0 = spans 0 (split_inclusive s)"
  using lm_scan_spans [of "[]" None s 0] by simp

lemma spans_length [simp]: "length (spans off ls) = length ls"
  by (induction ls arbitrary: off) auto

lemma spans_nth:
  "k < length ls \<Longrightarrow> spans off ls ! k = (off + length (concat (take k ls)),
     off + length (concat (take (Suc k) ls)), term_len (ls ! k))"
proof (induction ls arbitrary: k off)
  case (Cons l ls)
  then show ?case by (cases k) (auto simp: add.assoc)
qed simp

lemma lm_len_lines [simp]: "lm_len (parse_lines s) = length (split_inclusive s)"
  by (simp add: lm_len_def parse_lines_def Let_def lm_scan_lines)

lemma lm_len_line_count: "lm_len (parse_lines s) = line_count s"
  by (simp add: line_count_def str_lines_def)

lemma lm_is_empty_iff [simp]: "lm_is_empty (parse_lines s) \<longleftrightarrow> s = []"
proof -
  have "lm_is_empty (parse_lines s) \<longleftrightarrow> lm_len (parse_lines s) = 0"
    by (simp add: lm_is_empty_def lm_len_def)
  then show ?thesis by simp
qed

lemma lm_starts_nth:
  "k < length (split_inclusive s) \<Longrightarrow>
     lm_starts (parse_lines s) ! k = length (concat (take k (split_inclusive s)))"
  by (simp add: parse_lines_def Let_def lm_scan_lines spans_nth)

lemma lm_ends_nth:
  "k < length (split_inclusive s) \<Longrightarrow>
     lm_ends (parse_lines s) ! k = length (concat (take (Suc k) (split_inclusive s)))"
  by (simp add: parse_lines_def Let_def lm_scan_lines spans_nth)

lemma lm_terminators_nth:
  "k < length (split_inclusive s) \<Longrightarrow>
     lm_terminators (parse_lines s) ! k = term_len (split_inclusive s ! k)"
  by (simp add: parse_lines_def Let_def lm_scan_lines spans_nth)

lemma concat_take_length: "take (length (concat (take k ls))) (concat ls) = concat (take k ls)"
  and concat_drop_length: "drop (length (concat (take k ls))) (concat ls) = concat (drop k ls)"
  by (metis append_eq_conv_conj append_take_drop_id concat_append)+

lemma take_lines: "take (length (concat (take k (split_inclusive s)))) s = concat (take k (split_inclusive s))"
  using concat_take_length [of k "split_inclusive s"] by simp

lemma drop_lines: "drop (length (concat (take k (split_inclusive s)))) s = concat (drop k (split_inclusive s))"
  using concat_drop_length [of k "split_inclusive s"] by simp

lemma insert_offset_lines:
  assumes "b \<le> length (split_inclusive s) + 1"
  shows "insert_offset (parse_lines s) b = length (concat (take (b - 1) (split_inclusive s)))"
proof (cases "b = length (split_inclusive s) + 1")
  case True
  have "lm_content_len (parse_lines s) = length s" by (simp add: parse_lines_def Let_def)
  with True show ?thesis by (simp add: insert_offset_def)
next
  case False
  with assms show ?thesis by (auto simp: insert_offset_def lm_starts_nth)
qed

lemma line_span_lines:
  assumes "0 < a" and "a \<le> b" and "b \<le> length (split_inclusive s)"
  shows "line_span (parse_lines s) a b =
    Some (length (concat (take (a - 1) (split_inclusive s))), length (concat (take b (split_inclusive s))))"
  using assms by (simp add: line_span_def lm_starts_nth lm_ends_nth)

lemma line_span_delete:
  assumes "0 < a" and "a \<le> b" and "b \<le> length (split_inclusive s)"
    and "line_span (parse_lines s) a b = Some (x, y)"
  shows "take x s @ drop y s = concat (take (a - 1) (split_inclusive s) @ drop b (split_inclusive s))"
proof -
  from assms line_span_lines [OF assms(1-3)]
  have "x = length (concat (take (a - 1) (split_inclusive s)))"
    "y = length (concat (take b (split_inclusive s)))" by simp_all
  then show ?thesis by (simp only: take_lines drop_lines concat_append)
qed

text \<open>Every line but the last ends with a line feed and has no other.\<close>

definition full_line :: "string \<Rightarrow> bool" where
  "full_line l \<longleftrightarrow> (\<exists>p. l = p @ [LF] \<and> LF \<notin> set p)"

definition lines_ok :: "string list \<Rightarrow> bool" where
  "lines_ok ls \<longleftrightarrow> (\<forall>l \<in> set (butlast ls). full_line l)
     \<and> (ls = [] \<or> full_line (last ls) \<or> (last ls \<noteq> [] \<and> LF \<notin> set (last ls)))"

lemma lines_ok_Cons:
  "lines_ok (l # ls) \<longleftrightarrow> (if ls = [] then full_line l \<or> (l \<noteq> [] \<and> LF \<notin> set l)
     else full_line l \<and> lines_ok ls)"
  by (auto simp: lines_ok_def)

lemma split_inclusive_concat_ok: "lines_ok ls \<Longrightarrow> split_inclusive (concat ls) = ls"
proof (induction ls)
  case (Cons l ls)
  show ?case
  proof (cases "full_line l")
    case True
    then obtain p where p: "l = p @ [LF]" "LF \<notin> set p" by (auto simp: full_line_def)
    have "split_inclusive (concat ls) = ls"
      using Cons by (cases "ls = []") (auto simp: lines_ok_Cons)
    with p show ?thesis by (simp add: split_inclusive_append_line)
  next
    case False
    with Cons.prems have "ls = []" "l \<noteq> []" "LF \<notin> set l"
      by (auto simp: lines_ok_Cons split: if_splits)
    then show ?thesis by (simp add: split_inclusive_no_LF)
  qed
qed simp

lemma full_line_Cons: "c \<noteq> LF \<Longrightarrow> full_line (c # l) \<longleftrightarrow> full_line l"
  unfolding full_line_def
  by (auto simp: Cons_eq_append_conv)

lemma lines_ok_split: "lines_ok (split_inclusive s)"
proof (induction s)
  case (Cons c s)
  show ?case
  proof (cases "c = LF")
    case True
    with Cons show ?thesis by (auto simp: lines_ok_Cons full_line_def)
  next
    case False
    show ?thesis
    proof (cases "split_inclusive s")
      case Nil
      with False show ?thesis by (simp add: lines_ok_Cons)
    next
      case (Cons l ls)
      with Cons.IH False show ?thesis
        by (auto simp: lines_ok_Cons full_line_Cons split: if_splits)
    qed
  qed
qed (simp add: lines_ok_def)

lemma lines_ok_Nil [simp]: "lines_ok []"
  by (simp add: lines_ok_def)

lemma lines_ok_drop: "lines_ok ls \<Longrightarrow> lines_ok (drop k ls)"
proof (induction ls arbitrary: k)
  case (Cons l ls)
  have "lines_ok ls" using Cons.prems by (cases "ls = []") (simp_all add: lines_ok_Cons)
  with Cons show ?case by (cases k) auto
qed (simp add: lines_ok_def)

lemma lines_ok_take_drop:
  "lines_ok ls \<Longrightarrow> a \<le> b \<Longrightarrow> lines_ok (take a ls @ drop b ls)"
proof (induction ls arbitrary: a b)
  case (Cons l ls)
  show ?case
  proof (cases a)
    case 0
    from Cons.prems(1) 0 show ?thesis by (simp add: lines_ok_drop)
  next
    case (Suc a')
    with Cons.prems(2) obtain b' where b: "b = Suc b'" "a' \<le> b'" by (cases b) auto
    show ?thesis
    proof (cases "ls = []")
      case True
      with Cons.prems(1) Suc b show ?thesis by simp
    next
      case False
      with Cons.prems(1) have "full_line l" "lines_ok ls" by (simp_all add: lines_ok_Cons)
      with Cons.IH [of a' b'] Suc b show ?thesis by (simp add: lines_ok_Cons)
    qed
  qed
qed (simp add: lines_ok_def)

section \<open>Insertion and deletion on the list of lines\<close>

lemma ends_with_LF_iff: "ends_with t [LF] \<longleftrightarrow> (\<exists>p. t = p @ [LF])"
  by (simp add: ends_with_iff)

lemma split_inclusive_append: "ends_with a [LF] \<or> a = [] \<Longrightarrow>
    split_inclusive (a @ b) = split_inclusive a @ split_inclusive b"
  by (auto simp: ends_with_LF_iff split_inclusive_LF [of _ b])

lemma lines_ok_full_take:
  "lines_ok ls \<Longrightarrow> k < length ls \<Longrightarrow> \<forall>l \<in> set (take k ls). full_line l"
proof (induction ls arbitrary: k)
  case (Cons l ls)
  show ?case
  proof (cases k)
    case (Suc k')
    with Cons.prems have "ls \<noteq> []" by auto
    with Cons.prems(1) have "full_line l" "lines_ok ls" by (simp_all add: lines_ok_Cons)
    with Cons.IH [of k'] Cons.prems(2) Suc show ?thesis by simp
  qed simp
qed simp

lemma lines_ok_full_prefix:
  assumes "lines_ok ls" and "k < length ls"
  shows "concat (take k ls) = [] \<or> ends_with (concat (take k ls)) [LF]"
  using lines_ok_full_take [OF assms]
  by (cases "take k ls" rule: rev_cases) (auto simp: full_line_def ends_with_LF_iff)

definition closed_text :: "string \<Rightarrow> string \<Rightarrow> string" where
  "closed_text term txt = (if ends_with txt [LF] then txt else txt @ term)"

lemma terminator_ends: "ends_with (terminator_str m) [LF]"
  by (auto simp: terminator_str_def ends_with_LF_iff split: list.splits)

lemma closed_text_ends: "ends_with (closed_text (terminator_str m) t) [LF]"
  using terminator_ends [of m] by (auto simp: closed_text_def ends_with_LF_iff)

lemma lacks_trailing_newline_iff:
  "lacks_trailing_newline (parse_lines s) \<longleftrightarrow> s \<noteq> [] \<and> \<not> ends_with s [LF]"
proof (cases "s = []")
  case False
  then have ne: "split_inclusive s \<noteq> []" by simp
  then have l: "lm_terminators (parse_lines s) ! (lm_len (parse_lines s) - 1)
      = term_len (last (split_inclusive s))" by (simp add: lm_terminators_nth last_conv_nth)
  obtain ys y where y: "split_inclusive s = ys @ [y]" using ne by (metis rev_exhaust)
  then have "s = concat ys @ y" "y \<noteq> []"
    using split_inclusive_concat [of s] split_inclusive_nonempty [of y s] by simp_all
  with y have "ends_with s [LF] \<longleftrightarrow> ends_with (last (split_inclusive s)) [LF]"
    by (simp add: ends_with_single)
  moreover have "ends_with x [CR, LF] \<Longrightarrow> ends_with x [LF]" for x
    by (auto simp: ends_with_iff)
  ultimately show ?thesis using l False by (auto simp: lacks_trailing_newline_def term_len_def)
qed (simp add: lacks_trailing_newline_def)

lemma insert_at_text:
  assumes "0 < b" and "b \<le> length (split_inclusive s) + 1"
  shows "insert_at (parse_lines s) s b t =
    (let ls = split_inclusive s; m = parse_lines s; body = closed_text (terminator_str m) t in
     if b = length ls + 1 \<and> s \<noteq> [] \<and> \<not> ends_with s [LF] then s @ terminator_str m @ body
     else concat (take (b - 1) ls) @ body @ concat (drop (b - 1) ls))"
  unfolding insert_at_def Let_def closed_text_def lacks_trailing_newline_iff lm_len_lines
    insert_offset_lines [OF assms(2)] take_lines drop_lines
  by simp

lemma split_inclusive_lines_append:
  assumes "lines_ok ls" and "k \<le> length ls" and "k = length ls \<longrightarrow> concat ls = [] \<or> ends_with (concat ls) [LF]"
    and "ends_with t [LF]"
  shows "split_inclusive (concat (take k ls) @ t @ concat (drop k ls)) = take k ls @ split_inclusive t @ drop k ls"
proof -
  have tk: "concat (take k ls) = [] \<or> ends_with (concat (take k ls)) [LF]"
    using lines_ok_full_prefix [OF assms(1), of k] assms(2,3) by (cases "k = length ls") auto
  have "lines_ok (take k ls)" using lines_ok_take_drop [OF assms(1), of k "length ls"] assms(2) by simp
  then have "split_inclusive (concat (take k ls)) = take k ls" by (rule split_inclusive_concat_ok)
  moreover have "split_inclusive (concat (drop k ls)) = drop k ls"
    using lines_ok_drop [OF assms(1)] by (rule split_inclusive_concat_ok)
  moreover have "split_inclusive (concat (take k ls) @ t @ concat (drop k ls)) =
      split_inclusive (concat (take k ls)) @ split_inclusive (t @ concat (drop k ls))"
    using tk by (intro split_inclusive_append) auto
  ultimately show ?thesis using assms(4) by (simp add: split_inclusive_append)
qed

lemma append_terminator_lines:
  assumes "s \<noteq> []" and "\<not> ends_with s [LF]"
  shows "split_inclusive (s @ terminator_str m) = butlast (split_inclusive s) @ [last (split_inclusive s) @ terminator_str m]"
proof -
  from assms(1) obtain ys y where y: "split_inclusive s = ys @ [y]" by (metis rev_exhaust split_inclusive_Nil_iff)
  then have s: "s = concat ys @ y" using split_inclusive_concat [of s] by simp
  have ok: "lines_ok (ys @ [y])" using lines_ok_split [of s] y by simp
  have "y \<noteq> []" using split_inclusive_nonempty [of y s] y by simp
  with s assms(2) have "\<not> full_line y" by (auto simp: full_line_def ends_with_single)
  with ok have "LF \<notin> set y" by (simp add: lines_ok_def)
  have "terminator_str m = [LF] \<or> terminator_str m = [CR, LF]"
    by (auto simp: terminator_str_def split: list.splits)
  then obtain p where p: "terminator_str m = p @ [LF]" "LF \<notin> set p" by fastforce
  with \<open>LF \<notin> set y\<close> have "full_line (y @ terminator_str m)" by (auto simp: full_line_def)
  with ok have "lines_ok (ys @ [y @ terminator_str m])" by (simp add: lines_ok_def)
  then have "split_inclusive (concat (ys @ [y @ terminator_str m])) = ys @ [y @ terminator_str m]"
    by (rule split_inclusive_concat_ok)
  with s y show ?thesis by simp
qed

text \<open>
  Inserting before line \<open>b\<close> of a text puts the lines of the inserted text between the
  first \<open>b - 1\<close> lines and the others, for every boundary \<open>1..=lines+1\<close>; a final line with no
  terminator receives one (in the style of the file) only when the text goes after it, and the
  inserted text is terminated in the same style when it is not.
\<close>

theorem insert_at_lines:
  assumes "0 < b" and "b \<le> line_count s + 1"
  shows "split_inclusive (insert_at (parse_lines s) s b t) =
    (let m = parse_lines s;
         old = (if b = line_count s + 1 \<and> s \<noteq> [] \<and> \<not> ends_with s [LF]
                then split_inclusive (s @ terminator_str m) else split_inclusive s)
     in take (b - 1) old @ split_inclusive (closed_text (terminator_str m) t) @ drop (b - 1) old)"
proof -
  let ?ls = "split_inclusive s" and ?m = "parse_lines s"
  let ?body = "closed_text (terminator_str ?m) t"
  have n: "line_count s = length ?ls" by (simp add: line_count_def str_lines_def)
  have e: "ends_with ?body [LF]" by (rule closed_text_ends)
  note tx = insert_at_text [OF assms(1) assms(2) [unfolded n], of t, unfolded Let_def]
  show ?thesis
  proof (cases "b = length ?ls + 1 \<and> s \<noteq> [] \<and> \<not> ends_with s [LF]")
    case True
    have open_last: "split_inclusive (s @ terminator_str ?m) = butlast ?ls @ [last ?ls @ terminator_str ?m]"
      using append_terminator_lines True by blast
    then have "length (split_inclusive (s @ terminator_str ?m)) = length ?ls" using True by simp
    moreover have "split_inclusive (s @ terminator_str ?m @ ?body)
        = split_inclusive (s @ terminator_str ?m) @ split_inclusive ?body"
      using split_inclusive_append [of "s @ terminator_str ?m" ?body] terminator_ends [of ?m]
      by (auto simp: ends_with_LF_iff)
    ultimately show ?thesis unfolding Let_def n tx if_P [OF True] using True by simp
  next
    case False
    have "split_inclusive (concat (take (b - 1) ?ls) @ ?body @ concat (drop (b - 1) ?ls))
        = take (b - 1) ?ls @ split_inclusive ?body @ drop (b - 1) ?ls"
      using False assms n e by (intro split_inclusive_lines_append lines_ok_split) auto
    then show ?thesis unfolding Let_def n tx if_not_P [OF False] .
  qed
qed

theorem insert_at_lines_witness:
  "split_inclusive (insert_at (parse_lines [CHR ''a'', CR, LF, CHR ''b'']) [CHR ''a'', CR, LF, CHR ''b''] 3 ''c'')
     = [[CHR ''a'', CR, LF], [CHR ''b'', CR, LF], [CHR ''c'', CR, LF]]"
proof -
  let ?s = "[CHR ''a'', CR, LF, CHR ''b'']"
  have "line_count ?s = 2" by code_simp
  then have "split_inclusive (insert_at (parse_lines ?s) ?s 3 ''c'') = take 2 (split_inclusive
      (?s @ terminator_str (parse_lines ?s))) @ split_inclusive (closed_text (terminator_str (parse_lines ?s)) ''c'')
      @ drop 2 (split_inclusive (?s @ terminator_str (parse_lines ?s)))"
    using insert_at_lines [of 3 ?s "''c''"] by (simp add: Let_def ends_with_single)
  also have "\<dots> = [[CHR ''a'', CR, LF], [CHR ''b'', CR, LF], [CHR ''c'', CR, LF]]" by code_simp
  finally show ?thesis .
qed

lemma delete_span_split:
  assumes "line_span (parse_lines s) a b = Some (x, y)"
  shows "split_inclusive (take x s @ drop y s) = take (a - 1) (split_inclusive s) @ drop b (split_inclusive s)
    \<and> line_count (take x s @ drop y s) + (b - a + 1) = line_count s \<and> x < y \<and> y \<le> length s"
proof -
  let ?ls = "split_inclusive s"
  from assms have ab: "0 < a" "a \<le> b" "b \<le> length ?ls" by (auto simp: line_span_def split: if_splits)
  have t: "take x s @ drop y s = concat (take (a - 1) ?ls @ drop b ?ls)"
    using line_span_delete [OF ab assms] .
  have l: "split_inclusive (take x s @ drop y s) = take (a - 1) ?ls @ drop b ?ls"
    unfolding t using ab by (intro split_inclusive_concat_ok lines_ok_take_drop lines_ok_split) simp
  have n: "line_count z = length (split_inclusive z)" for z by (simp add: line_count_def str_lines_def)
  have cnt: "line_count (take x s @ drop y s) + (b - a + 1) = line_count s"
    unfolding n l using ab by simp
  have xy: "x = length (concat (take (a - 1) ?ls))" "y = length (concat (take b ?ls))"
    using assms line_span_lines [OF ab] by simp_all
  let ?rest = "drop (a - 1) ?ls"
  have b: "take b ?ls = take (a - 1) ?ls @ take (b - a + 1) ?rest"
    using ab take_add [of "a - 1" "b - a + 1" ?ls] by simp
  obtain r rs where r: "?rest = r # rs" using ab by (cases ?rest) auto
  then have "r \<in> set ?ls" by (metis in_set_dropD list.set_intros(1))
  then have "r \<noteq> []" by (rule split_inclusive_nonempty)
  with b r xy have less: "x < y" by simp
  have "take b ?ls @ drop b ?ls = ?ls" by simp
  then have "s = concat (take b ?ls) @ concat (drop b ?ls)"
    by (metis concat_append split_inclusive_concat)
  then have "y \<le> length s" unfolding xy(2) by (metis length_append le_add1)
  with cnt less l show ?thesis by simp
qed

text \<open>
  Deleting lines \<open>a..=b\<close> removes exactly those lines: the bytes of the deleted span come out
  whole, and the lines of what is left are the first \<open>a - 1\<close> and those after \<open>b\<close>.
\<close>

theorem delete_span_lines:
  assumes "line_span (parse_lines s) a b = Some (x, y)"
  shows "split_inclusive (take x s @ drop y s) = take (a - 1) (split_inclusive s) @ drop b (split_inclusive s)
    \<and> line_count (take x s @ drop y s) + (b - a + 1) = line_count s \<and> x < y \<and> y \<le> length s"
  using assms by (rule delete_span_split)

theorem delete_span_lines_witness:
  "split_inclusive (take 2 [CHR ''a'', LF, CHR ''b'', LF, CHR ''c''] @ drop 4 [CHR ''a'', LF, CHR ''b'', LF, CHR ''c''])
     = [[CHR ''a'', LF], ''c'']"
proof -
  let ?s = "[CHR ''a'', LF, CHR ''b'', LF, CHR ''c'']"
  have "line_span (parse_lines ?s) 2 2 = Some (2, 4)" by code_simp
  moreover have "take 1 (split_inclusive ?s) @ drop 2 (split_inclusive ?s) = [[CHR ''a'', LF], ''c'']"
    by code_simp
  ultimately show ?thesis using delete_span_lines [of ?s 2 2 2 4] by simp
qed

section \<open>The matches found\<close>

text \<open>
  C14. The match search is sound, complete and greedy from the left: every reported position is
  an occurrence with its line and column, matches are in order and do not overlap, and every
  occurrence of the text begins inside a reported match.
\<close>

theorem find_matches_exact:
  "list_all (\<lambda>m. take (length n) (drop (lo_byte_offset m) h) = n \<and> lo_length m = length n
       \<and> lo_location m = locate h (lo_byte_offset m)) (find_matches h n)
   \<and> sorted_wrt (\<lambda>a b. lo_byte_offset a + length n \<le> lo_byte_offset b) (find_matches h n)
   \<and> {i. n \<noteq> [] \<and> take (length n) (drop i h) = n} \<subseteq>
       (\<Union>m \<in> set (find_matches h n). {lo_byte_offset m ..< lo_byte_offset m + length n})"
  unfolding find_matches_def
  using find_from_match [of _ h n 0] find_from_nonoverlapping [of n h 0] find_from_complete [of n 0 _ h]
  by (fastforce simp: list_all_iff)

text \<open>
  The context precondition holds exactly when the context text occurs once in the content
  and contains the span of the edit; without a context it holds.
\<close>

theorem context_check_exact:
  "(check_context cur ex a b = Inr ()) =
     (case ex of None \<Rightarrow> True | Some e \<Rightarrow> (case ex_context e of None \<Rightarrow> True
       | Some ctx \<Rightarrow> (\<exists>m. find_matches (pf_content cur) ctx = [m] \<and> lo_byte_offset m \<le> a
            \<and> b \<le> lo_byte_offset m + lo_length m)))"
  unfolding check_context_Inr by (auto split: option.splits)

end
