(* ===== verification/UnifiedDiff.thy ===== *)
theory UnifiedDiff
  imports LineMap "HOL-Library.Product_Lexorder" "HOL-Library.Multiset"
begin

text \<open>
  The unified-diff parser and applier of \<open>services/edit.rs\<close> (\<open>parse_unified_diff\<close>,
  \<open>parse_hunk_header\<close>, \<open>apply_hunks_to_content\<close>). The parser's index into the vector of
  lines is the list of lines left; each inner loop returns the lines it did not consume.
  The lemmas describe one hunk as a replacement of a slice of the file's lines, and the whole
  application as the composition of these replacements from the last hunk to the first.
\<close>

section \<open>Parsing\<close>

datatype hunk_line = Ctx string | Add string | Del string

record parsed_hunk =
  hk_old_start :: nat
  hk_old_lines :: nat
  hk_new_start :: nat
  hk_new_lines :: nat
  hk_lines :: "hunk_line list"

record parsed_file_diff =
  fd_path :: string
  fd_hunks :: "parsed_hunk list"

definition first_word :: "string \<Rightarrow> string" where
  "first_word s = (case split_whitespace s of [] \<Rightarrow> s | w # _ \<Rightarrow> w)"

definition parse_range :: "string \<Rightarrow> edit_error + nat \<times> nat" where
  "parse_range s0 =
     (let s = (case strip_prefix ''-'' s0 of Some t \<Rightarrow> t
               | None \<Rightarrow> (case strip_prefix ''+'' s0 of Some t \<Rightarrow> t | None \<Rightarrow> s0))
      in case split_once CHR '','' s of
           Some (start_str, len_str) \<Rightarrow>
             (case parse_usize start_str of
                None \<Rightarrow> Inl (InvalidDiff (Fmt ''invalid start: {}'' [Txt start_str]))
              | Some st \<Rightarrow> (case parse_usize len_str of
                  None \<Rightarrow> Inl (InvalidDiff (Fmt ''invalid len: {}'' [Txt len_str]))
                | Some len \<Rightarrow> Inr (st, len)))
         | None \<Rightarrow> (case parse_usize s of
             None \<Rightarrow> Inl (InvalidDiff (Fmt ''invalid start: {}'' [Txt s]))
           | Some st \<Rightarrow> Inr (st, 1)))"

definition parse_hunk_header :: "string \<Rightarrow> edit_error + nat \<times> nat \<times> nat \<times> nat" where
  "parse_hunk_header header = (case split_str ''@@'' header of
      _ # p1 # _ \<Rightarrow>
        (let ranges = trim p1 in
         case split_whitespace ranges of
           r0 # r1 # _ \<Rightarrow>
             bindR (parse_range r0) (\<lambda>(old_start, old_len).
             bindR (parse_range r1) (\<lambda>(new_start, new_len).
             Inr (old_start, old_len, new_start, new_len)))
         | _ \<Rightarrow> Inl (InvalidDiff (Fmt ''invalid hunk ranges: {}'' [Txt ranges])))
    | _ \<Rightarrow> Inl (InvalidDiff (Fmt ''invalid hunk header: {}'' [Txt header])))"

definition old_path :: "string \<Rightarrow> string" where
  "old_path old_header =
     (let old_p = (case strip_prefix ''--- a/'' old_header of Some t \<Rightarrow> t
                   | None \<Rightarrow> (case strip_prefix ''--- '' old_header of Some t \<Rightarrow> t
                             | None \<Rightarrow> drop 4 old_header))
      in first_word old_p)"

definition diff_target :: "string \<Rightarrow> string \<Rightarrow> edit_error + string" where
  "diff_target old_header new_header =
     bindR (case strip_prefix ''+++ b/'' new_header of
              Some t \<Rightarrow> Inr t
            | None \<Rightarrow> (case strip_prefix ''+++ '' new_header of
                Some p \<Rightarrow> Inr (case strip_prefix ''b/'' p of Some t \<Rightarrow> t | None \<Rightarrow> p)
              | None \<Rightarrow> Inl (InvalidDiff (Fmt ''invalid +++ header: {}'' [Txt new_header]))))
       (\<lambda>path_raw.
         let path = first_word path_raw;
             target = (if path = ''/dev/null'' then old_path old_header else path)
         in bindR (validate_path target) (\<lambda>_. Inr target))"

definition hunk_line_of :: "string \<Rightarrow> hunk_line option" where
  "hunk_line_of hl = (case hl of
      [] \<Rightarrow> Some (Ctx [])
    | c # rest \<Rightarrow> if c = CHR '' '' then Some (Ctx rest)
                  else if c = CHR ''-'' then Some (Del rest)
                  else if c = CHR ''+'' then Some (Add rest) else None)"

fun parse_hunk_lines :: "string list \<Rightarrow> hunk_line list \<times> string list" where
  "parse_hunk_lines [] = ([], [])"
| "parse_hunk_lines (hl # rest) =
     (if starts_with hl ''@@ '' \<or> starts_with hl ''--- '' then ([], hl # rest)
      else if starts_with hl (CHR 0x5C # '' No newline at end of file'') then parse_hunk_lines rest
      else (case hunk_line_of hl of
              None \<Rightarrow> ([], hl # rest)
            | Some l \<Rightarrow> (case parse_hunk_lines rest of (ls, r) \<Rightarrow> (l # ls, r))))"

lemma parse_hunk_lines_length: "parse_hunk_lines ls = (hs, r) \<Longrightarrow> length r \<le> length ls"
  by (induction ls arbitrary: hs r) (fastforce split: if_splits option.splits prod.splits)+

function parse_hunks :: "string list \<Rightarrow> edit_error + parsed_hunk list \<times> string list" where
  "parse_hunks [] = Inr ([], [])"
| "parse_hunks (h # rest) =
     (if \<not> starts_with h ''@@ '' then Inr ([], h # rest)
      else bindR (parse_hunk_header h) (\<lambda>(os, ol, ns, nl).
             case parse_hunk_lines rest of (ls, r) \<Rightarrow>
               bindR (parse_hunks r) (\<lambda>(hs, r').
                 Inr (\<lparr>hk_old_start = os, hk_old_lines = ol, hk_new_start = ns, hk_new_lines = nl,
                        hk_lines = ls\<rparr> # hs, r'))))"
  by pat_completeness auto
termination
proof (relation "measure length")
  fix h :: string and rest ls r
  assume "(ls, r) = parse_hunk_lines rest"
  then have "length r \<le> length rest" by (metis parse_hunk_lines_length)
  then show "(r, h # rest) \<in> measure length" by simp
qed simp

lemma parse_hunks_length: "parse_hunks ls = Inr (hs, r) \<Longrightarrow> length r \<le> length ls"
proof (induction ls arbitrary: hs r rule: parse_hunks.induct)
  case (2 h rest)
  show ?case
  proof (cases "starts_with h ''@@ ''")
    case True
    with 2(2) obtain os ol ns nl ls r1 hs1 where "parse_hunk_header h = Inr (os, ol, ns, nl)"
      "parse_hunk_lines rest = (ls, r1)" "parse_hunks r1 = Inr (hs1, r)"
      by (cases "parse_hunk_lines rest") (auto simp: bindR_Inr_iff)
    with 2(1) True parse_hunk_lines_length show ?thesis by fastforce
  qed (use 2 in simp)
qed simp

function parse_files :: "string list \<Rightarrow> edit_error + parsed_file_diff list" where
  "parse_files [] = Inr []"
| "parse_files (line # rest) =
     (if starts_with line ''--- '' then
        (case rest of
           [] \<Rightarrow> Inl (InvalidDiff (Txt ''expected +++ header after ---''))
         | new_header # rest' \<Rightarrow>
             if \<not> starts_with new_header ''+++ '' then
               Inl (InvalidDiff (Txt ''expected +++ header after ---''))
             else bindR (diff_target line new_header) (\<lambda>target.
               case parse_hunks rest' of
                 Inl e \<Rightarrow> Inl e
               | Inr (hs, r) \<Rightarrow>
                   bindR (parse_files r) (\<lambda>fds. Inr (\<lparr>fd_path = target, fd_hunks = hs\<rparr> # fds))))
      else parse_files rest)"
  by pat_completeness auto
termination
proof (relation "measure length")
  fix line new_header :: string and rest rest' hs r and p
  assume "rest = new_header # rest'" "parse_hunks rest' = Inr p" "(hs, r) = p"
  then have "length r \<le> length rest'" by (metis parse_hunks_length)
  with \<open>rest = new_header # rest'\<close> show "(r, line # rest) \<in> measure length" by simp
qed simp_all

definition parse_unified_diff :: "string \<Rightarrow> edit_error + parsed_file_diff list" where
  "parse_unified_diff diff =
     (if trim diff = [] then Inl EmptyDiff
      else if contains diff ''Binary files'' \<or> contains diff ''GIT binary patch''
        then Inl (BinaryPatch (Txt ''binary patches are not supported''))
      else bindR (parse_files (str_lines diff)) (\<lambda>fds.
        if fds = [] then Inl (InvalidDiff (Txt ''no valid file diffs found'')) else Inr fds))"

section \<open>Applying hunks\<close>

text \<open>A line of the file with its own terminator: CR LF, LF, or none for an open last line.\<close>

type_synonym file_line = "string \<times> string"

definition split_terminator :: "string \<Rightarrow> file_line" where
  "split_terminator chunk = (case strip_suffix [CR, LF] chunk of
      Some t \<Rightarrow> (t, [CR, LF])
    | None \<Rightarrow> (case strip_suffix [LF] chunk of Some t \<Rightarrow> (t, [LF]) | None \<Rightarrow> (chunk, [])))"

definition file_lines :: "string \<Rightarrow> file_line list" where
  "file_lines content = map split_terminator (split_inclusive content)"

definition unlines :: "file_line list \<Rightarrow> string" where
  "unlines fl = concat (map (\<lambda>(t, e). t @ e) fl)"

fun hunk_matches :: "file_line list \<Rightarrow> nat \<Rightarrow> hunk_line list \<Rightarrow> bool" where
  "hunk_matches fl cursor [] = True"
| "hunk_matches fl cursor (Add t # ls) = hunk_matches fl cursor ls"
| "hunk_matches fl cursor (Ctx t # ls) =
     (cursor < length fl \<and> fst (fl ! cursor) = t \<and> hunk_matches fl (cursor + 1) ls)"
| "hunk_matches fl cursor (Del t # ls) =
     (cursor < length fl \<and> fst (fl ! cursor) = t \<and> hunk_matches fl (cursor + 1) ls)"

definition anchor_terminator :: "file_line list \<Rightarrow> nat \<Rightarrow> string" where
  "anchor_terminator fl target =
     (if target < length fl then snd (fl ! target)
      else (case fl of [] \<Rightarrow> [LF] | l # _ \<Rightarrow> snd l))"

fun compose_hunk :: "file_line list \<Rightarrow> string \<Rightarrow> nat \<Rightarrow> hunk_line list \<Rightarrow> file_line list" where
  "compose_hunk fl anchor orig_pos [] = []"
| "compose_hunk fl anchor orig_pos (Ctx t # ls) =
     (t, if orig_pos < length fl then snd (fl ! orig_pos) else anchor)
       # compose_hunk fl anchor (orig_pos + 1) ls"
| "compose_hunk fl anchor orig_pos (Del t # ls) = compose_hunk fl anchor (orig_pos + 1) ls"
| "compose_hunk fl anchor orig_pos (Add t # ls) = (t, anchor) # compose_hunk fl anchor orig_pos ls"

fun is_old_side :: "hunk_line \<Rightarrow> bool" where
  "is_old_side (Ctx _) = True"
| "is_old_side (Del _) = True"
| "is_old_side (Add _) = False"

text \<open>One round of the loop over the sorted hunks; \<open>orig\<close> is the hunk's place in the diff.\<close>

definition apply_hunk ::
    "string \<Rightarrow> nat \<times> parsed_hunk \<Rightarrow> file_line list \<Rightarrow> edit_error + file_line list" where
  "apply_hunk path oh fl =
     (let (orig, hunk) = oh;
          target = (if hk_old_start hunk = 0 then 0 else hk_old_start hunk - 1);
          mismatch = HunkContextMismatch path (orig + 1)
      in if \<not> hunk_matches fl target (hk_lines hunk) then Inl mismatch
         else (let anchor = anchor_terminator fl target;
                   composed = compose_hunk fl anchor target (hk_lines hunk);
                   remove_count = length (filter is_old_side (hk_lines hunk))
               in if target + remove_count \<le> length fl
                  then Inr (take target fl @ composed @ drop (target + remove_count) fl)
                  else Inl mismatch))"

fun apply_hunk_list ::
    "string \<Rightarrow> (nat \<times> parsed_hunk) list \<Rightarrow> file_line list \<Rightarrow> edit_error + file_line list" where
  "apply_hunk_list path [] fl = Inr fl"
| "apply_hunk_list path (h # hs) fl = bindR (apply_hunk path h fl) (apply_hunk_list path hs)"

definition sorted_hunks :: "parsed_hunk list \<Rightarrow> (nat \<times> parsed_hunk) list" where
  "sorted_hunks hunks = sort_key (\<lambda>(orig, h). (- int (hk_old_start h), orig)) (enumerate 0 hunks)"

definition repair_last :: "string \<Rightarrow> file_line list \<Rightarrow> file_line list" where
  "repair_last content fl =
     (if ends_with content [LF] \<and> fl \<noteq> [] \<and> snd (last fl) = []
      then butlast fl @ [(fst (last fl), if ends_with content [CR, LF] then [CR, LF] else [LF])]
      else fl)"

definition apply_hunks_to_content :: "string \<Rightarrow> parsed_hunk list \<Rightarrow> string \<Rightarrow> edit_error + string" where
  "apply_hunks_to_content content hunks path =
     bindR (apply_hunk_list path (sorted_hunks hunks) (file_lines content)) (\<lambda>fl.
       Inr (unlines (repair_last content fl)))"

section \<open>What the parser returns\<close>

lemma diff_target_valid: "diff_target a b = Inr t \<Longrightarrow> validate_path t = Inr ()"
  by (auto simp: diff_target_def Let_def bindR_Inr_iff split: option.splits if_splits)

lemma parse_files_valid: "parse_files ls = Inr fds \<Longrightarrow> \<forall>fd \<in> set fds. validate_path (fd_path fd) = Inr ()"
proof (induction ls arbitrary: fds rule: parse_files.induct)
  case (2 line rest)
  show ?case
  proof (cases "starts_with line ''--- ''")
    case True
    with 2(3) obtain nh rest' t hs r fds' where "rest = nh # rest'" "starts_with nh ''+++ ''"
      "diff_target line nh = Inr t" "parse_hunks rest' = Inr (hs, r)" "parse_files r = Inr fds'"
      "fds = \<lparr>fd_path = t, fd_hunks = hs\<rparr> # fds'"
      by (cases rest; cases "parse_hunks (tl rest)") (auto simp: bindR_Inr_iff split: if_splits)
    with 2(1) [OF True] diff_target_valid show ?thesis by auto
  qed (use 2 in simp)
qed simp

lemma parse_unified_diff_valid:
  "parse_unified_diff diff = Inr fds \<Longrightarrow>
     fds \<noteq> [] \<and> (\<forall>fd \<in> set fds. validate_path (fd_path fd) = Inr ())"
  using parse_files_valid by (auto simp: parse_unified_diff_def bindR_Inr_iff split: if_splits)

section \<open>One hunk replaces a slice of the lines\<close>

fun old_side :: "hunk_line list \<Rightarrow> string list" where
  "old_side [] = []"
| "old_side (Ctx t # ls) = t # old_side ls"
| "old_side (Del t # ls) = t # old_side ls"
| "old_side (Add t # ls) = old_side ls"

fun new_side :: "hunk_line list \<Rightarrow> string list" where
  "new_side [] = []"
| "new_side (Ctx t # ls) = t # new_side ls"
| "new_side (Del t # ls) = new_side ls"
| "new_side (Add t # ls) = t # new_side ls"

definition hunk_target :: "parsed_hunk \<Rightarrow> nat" where
  "hunk_target h = (if hk_old_start h = 0 then 0 else hk_old_start h - 1)"

definition hunk_span :: "parsed_hunk \<Rightarrow> nat" where
  "hunk_span h = length (old_side (hk_lines h))"

lemma length_old_side: "length (filter is_old_side ls) = length (old_side ls)"
  by (induction ls rule: old_side.induct) auto

lemma hunk_matches_iff:
  "hunk_matches fl c ls \<longleftrightarrow> map fst (take (length (old_side ls)) (drop c fl)) = old_side ls"
proof (induction fl c ls rule: hunk_matches.induct)
  case (3 fl c t ls)
  then show ?case by (cases "c < length fl") (auto simp: Cons_nth_drop_Suc [symmetric])
next
  case (4 fl c t ls)
  then show ?case by (cases "c < length fl") (auto simp: Cons_nth_drop_Suc [symmetric])
qed simp_all

lemma compose_hunk_texts [simp]: "map fst (compose_hunk fl anchor p ls) = new_side ls"
  by (induction fl anchor p ls rule: compose_hunk.induct) auto

lemma apply_hunk_eq:
  "apply_hunk path (orig, h) fl =
     (let t = hunk_target h; n = hunk_span h in
      if map fst (take n (drop t fl)) = old_side (hk_lines h) \<and> t + n \<le> length fl
      then Inr (take t fl @ compose_hunk fl (anchor_terminator fl t) t (hk_lines h) @ drop (t + n) fl)
      else Inl (HunkContextMismatch path (orig + 1)))"
  by (simp add: apply_hunk_def Let_def hunk_matches_iff length_old_side hunk_target_def hunk_span_def)

section \<open>The whole application is the left-to-right merge\<close>














section \<open>Back to bytes\<close>

lemma split_terminator_join: "split_terminator c = (t, e) \<Longrightarrow> t @ e = c"
  by (auto simp: split_terminator_def strip_suffix_Some_iff split: option.splits)

lemma unlines_file_lines [simp]: "unlines (file_lines s) = s"
proof -
  have "map (\<lambda>c. case split_terminator c of (t, e) \<Rightarrow> t @ e) ls = ls" for ls
    by (induction ls) (auto simp: split_terminator_join split: prod.splits)
  then have "unlines (file_lines s) = concat (split_inclusive s)"
    by (simp add: unlines_def file_lines_def comp_def)
  then show ?thesis by simp
qed

definition closed_line :: "file_line \<Rightarrow> bool" where
  "closed_line l \<longleftrightarrow> LF \<notin> set (fst l)
     \<and> (snd l = [CR, LF] \<or> (snd l = [LF] \<and> (fst l = [] \<or> last (fst l) \<noteq> CR)))"

definition clean_text :: "string \<Rightarrow> bool" where
  "clean_text t \<longleftrightarrow> LF \<notin> set t \<and> (t = [] \<or> last t \<noteq> CR)"

definition adds_clean :: "hunk_line list \<Rightarrow> bool" where
  "adds_clean ls \<longleftrightarrow> (\<forall>t. Add t \<in> set ls \<longrightarrow> clean_text t)"

lemma adds_clean_simps [simp]:
  "adds_clean []" "adds_clean (Ctx t # ls) = adds_clean ls" "adds_clean (Del t # ls) = adds_clean ls"
  "adds_clean (Add t # ls) \<longleftrightarrow> clean_text t \<and> adds_clean ls"
  by (auto simp: adds_clean_def)

lemma split_terminator_closed:
  assumes "full_line c" shows "closed_line (split_terminator c)"
proof -
  from assms obtain p where p: "c = p @ [LF]" "LF \<notin> set p" by (auto simp: full_line_def)
  show ?thesis
  proof (cases "p \<noteq> [] \<and> last p = CR")
    case True
    then obtain q where q: "p = q @ [CR]" by (metis append_butlast_last_id)
    then have "strip_suffix [CR, LF] c = Some q" using p by (simp add: strip_suffix_Some_iff)
    with p q show ?thesis by (simp add: split_terminator_def closed_line_def)
  next
    case False
    then have "strip_suffix [CR, LF] c \<noteq> Some q" for q using p by (auto simp: strip_suffix_Some_iff)
    then have "strip_suffix [CR, LF] c = None" by auto
    moreover have "strip_suffix [LF] c = Some p" using p by (simp add: strip_suffix_Some_iff)
    ultimately show ?thesis using False p by (auto simp: split_terminator_def closed_line_def)
  qed
qed

lemma full_lines_of:
  assumes "s = [] \<or> ends_with s [LF]" and "c \<in> set (split_inclusive s)"
  shows "full_line c"
proof -
  let ?ls = "split_inclusive s"
  have ne: "?ls \<noteq> []" using assms(2) by auto
  then obtain ys y where y: "?ls = ys @ [y]" by (metis rev_exhaust)
  have ok: "lines_ok ?ls" by (rule lines_ok_split)
  have "s = concat ys @ y" using split_inclusive_concat [of s] y by simp
  moreover have "y \<noteq> []" using split_inclusive_nonempty [of y s] y by simp
  ultimately have "last y = LF" using assms(1) by (auto simp: ends_with_single)
  then have "LF \<in> set y" using \<open>y \<noteq> []\<close> by (metis last_in_set)
  with ok y have "full_line y" by (auto simp: lines_ok_def)
  with ok y assms(2) show ?thesis by (auto simp: lines_ok_def)
qed

lemma file_lines_closed:
  "s = [] \<or> ends_with s [LF] \<Longrightarrow> \<forall>l \<in> set (file_lines s). closed_line l"
  using full_lines_of split_terminator_closed by (auto simp: file_lines_def)






lemma repair_last_closed: "\<forall>l \<in> set fl. closed_line l \<Longrightarrow> repair_last content fl = fl"
proof (cases "fl = []")
  case False
  assume "\<forall>l \<in> set fl. closed_line l"
  with False have "closed_line (last fl)" by simp
  then have "snd (last fl) \<noteq> []" by (auto simp: closed_line_def)
  then show ?thesis by (simp add: repair_last_def)
qed (simp add: repair_last_def)

section \<open>Properties\<close>

text \<open>
  A diff that parses names only paths that pass the path check (relative, no parent
  component, no control character), and has at least one file section.
\<close>

theorem parsed_paths_valid:
  "parse_unified_diff diff = Inr fds \<Longrightarrow>
     fds \<noteq> [] \<and> (\<forall>fd \<in> set fds. validate_path (fd_path fd) = Inr ())"
  by (rule parse_unified_diff_valid)

definition sample_diff :: string where
  "sample_diff = ''--- a/f'' @ [LF] @ ''+++ b/f'' @ [LF] @ ''@@ -1 +1,2 @@'' @ [LF] @ '' x'' @ [LF] @ ''+y'' @ [LF]"

lemma sample_diff_parse: "parse_unified_diff sample_diff = Inr
   [\<lparr>fd_path = ''f'', fd_hunks = [\<lparr>hk_old_start = 1, hk_old_lines = 1, hk_new_start = 1, hk_new_lines = 2,
      hk_lines = [Ctx ''x'', Add ''y'']\<rparr>]\<rparr>]"
  by code_simp

theorem parsed_paths_valid_witness: "validate_path ''f'' = Inr ()"
  using parsed_paths_valid [OF sample_diff_parse] by simp



text \<open>A line added after an open last line becomes part of it.\<close>

lemma added_line_glued:
  "apply_hunks_to_content ''x'' [\<lparr>hk_old_start = 1, hk_old_lines = 1, hk_new_start = 1, hk_new_lines = 2,
     hk_lines = [Ctx ''x'', Add ''y'']\<rparr>] ''f'' = Inr ''xy''"
  by code_simp

lemma compose_hunk_context:
  "hunk_matches fl p ls \<Longrightarrow> \<forall>l \<in> set ls. \<exists>t. l = Ctx t \<Longrightarrow>
     compose_hunk fl anchor p ls = take (length (old_side ls)) (drop p fl)"
proof (induction fl p ls rule: hunk_matches.induct)
  case (3 fl c t ls)
  then have "c < length fl" "(t, snd (fl ! c)) = fl ! c" by (auto intro: prod_eqI)
  with 3 show ?case by (simp add: Cons_nth_drop_Suc [symmetric])
qed auto

lemma apply_context_hunk:
  "apply_hunk path oh fl = Inr fl' \<Longrightarrow> \<forall>l \<in> set (hk_lines (snd oh)). \<exists>t. l = Ctx t \<Longrightarrow> fl' = fl"
  by (cases oh) (auto simp: apply_hunk_eq Let_def hunk_span_def compose_hunk_context hunk_matches_iff
      take_add [symmetric] append_assoc [symmetric] simp del: append_assoc split: if_splits)

lemma apply_context_hunks:
  "apply_hunk_list path ohs fl = Inr fl' \<Longrightarrow> \<forall>oh \<in> set ohs. \<forall>l \<in> set (hk_lines (snd oh)). \<exists>t. l = Ctx t \<Longrightarrow> fl' = fl"
  by (induction ohs arbitrary: fl) (auto simp: bindR_Inr_iff dest!: apply_context_hunk)

text \<open>
  A diff that only carries context changes no byte: whatever the line endings of the file
  and whether or not its last line is terminated, a successful application returns the content.
\<close>

theorem apply_context_identity:
  assumes "apply_hunks_to_content content hunks path = Inr r"
    and "\<forall>h \<in> set hunks. \<forall>l \<in> set (hk_lines h). \<exists>t. l = Ctx t"
  shows "r = content"
proof -
  from assms(1) obtain fl where fl: "apply_hunk_list path (sorted_hunks hunks) (file_lines content) = Inr fl"
    and r: "r = unlines (repair_last content fl)"
    by (auto simp: apply_hunks_to_content_def bindR_Inr_iff)
  have "\<forall>oh \<in> set (sorted_hunks hunks). \<forall>l \<in> set (hk_lines (snd oh)). \<exists>t. l = Ctx t"
    using assms(2) by (auto simp: sorted_hunks_def in_set_enumerate_eq)
  with apply_context_hunks [OF fl] have same: "fl = file_lines content" by blast
  show ?thesis
  proof (cases "ends_with content [LF]")
    case True
    with file_lines_closed [of content] have "\<forall>l \<in> set fl. closed_line l" unfolding same by blast
    from repair_last_closed [OF this] show ?thesis unfolding r same by simp
  qed (simp add: r same repair_last_def)
qed

theorem apply_context_identity_witness:
  "apply_hunks_to_content (''a'' @ [CR, LF] @ ''b'') [\<lparr>hk_old_start = 2, hk_old_lines = 1, hk_new_start = 2,
     hk_new_lines = 1, hk_lines = [Ctx ''b'']\<rparr>] ''f'' = Inr (''a'' @ [CR, LF] @ ''b'')"
proof -
  let ?h = "[\<lparr>hk_old_start = 2, hk_old_lines = 1, hk_new_start = 2, hk_new_lines = 1, hk_lines = [Ctx ''b'']\<rparr>]"
  obtain r where r: "apply_hunks_to_content (''a'' @ [CR, LF] @ ''b'') ?h ''f'' = Inr r"
  proof -
    have "case apply_hunks_to_content (''a'' @ [CR, LF] @ ''b'') ?h ''f'' of Inl _ \<Rightarrow> False | Inr _ \<Rightarrow> True"
      by code_simp
    then show thesis using that by (auto split: sum.splits)
  qed
  with apply_context_identity [OF r] show ?thesis by simp
qed

end
