(* ===== verification/EditOps.thy ===== *)
theory EditOps
  imports UnifiedDiff
begin

text \<open>
  What one edit operation makes of a text, without touching a file: the selection of a match,
  the three preparations shared by the single-operation executors and the patch executor, and
  \<open>validate_patch_operation\<close> and \<open>apply_normalized_operation\<close> of \<open>services/edit.rs\<close>.
\<close>

section \<open>Preparing one operation\<close>

text \<open>
  \<open>occurrence\<close> counts from 1. The index \<open>n - 1\<close> is unsigned: zero wraps to the largest
  \<open>usize\<close> and is out of range (the shape check refuses it before).
\<close>

definition select_match :: "string \<Rightarrow> nat option \<Rightarrow> located_match list \<Rightarrow> edit_error + nat" where
  "select_match path occurrence ms =
     (if ms = [] then Inl (MatchNotFound path)
      else (case occurrence of
        None \<Rightarrow> if length ms > 1 then Inl (AmbiguousMatch path (length ms) (map lo_location ms)) else Inr 0
      | Some n \<Rightarrow>
          (let index = (if n = 0 then usize_max else n - 1) in
           if index \<ge> length ms then Inl (OccurrenceOutOfRange path n (length ms)) else Inr index)))"

definition splice :: "string \<Rightarrow> nat \<Rightarrow> nat \<Rightarrow> string \<Rightarrow> string" where
  "splice content s e txt = take s content @ txt @ drop e content"

record replacement =
  rp_match_count :: nat
  rp_index :: nat
  rp_location :: match_location
  rp_prepared :: string

definition prepare_replace ::
    "preflight \<Rightarrow> expected_state option \<Rightarrow> string \<Rightarrow> string \<Rightarrow> string \<Rightarrow> nat option \<Rightarrow> edit_error + replacement" where
  "prepare_replace cur expected path old new occurrence =
     (let ms = find_matches (pf_content cur) old in
      bindR (select_match path occurrence ms) (\<lambda>i.
      let m = ms ! i; s = lo_byte_offset m; e = s + lo_length m in
      bindR (check_context cur expected s e) (\<lambda>_.
      Inr \<lparr>rp_match_count = length ms, rp_index = i, rp_location = lo_location m,
           rp_prepared = splice (pf_content cur) s e new\<rparr>)))"

definition prepare_insert ::
    "preflight \<Rightarrow> expected_state option \<Rightarrow> string \<Rightarrow> nat \<Rightarrow> string \<Rightarrow> edit_error + string" where
  "prepare_insert cur expected path line txt =
     (let m = parse_lines (pf_content cur) in
      if line > lm_len m + 1 then Inl (InsertBoundaryOutOfRange path line (lm_len m))
      else (let off = insert_offset m line in
        bindR (check_context cur expected off off) (\<lambda>_. Inr (insert_at m (pf_content cur) line txt))))"

definition prepare_delete ::
    "preflight \<Rightarrow> expected_state option \<Rightarrow> string \<Rightarrow> nat \<Rightarrow> nat \<Rightarrow> edit_error + string" where
  "prepare_delete cur expected path start_line end_line =
     (let m = parse_lines (pf_content cur) in
      if lm_is_empty m then Inl (EmptyFileDeletion path)
      else if end_line > lm_len m then Inl (LineOutOfRange path start_line end_line (lm_len m))
      else (let (s, e) = the (line_span m start_line end_line) in
        bindR (check_context cur expected s e) (\<lambda>_. Inr (splice (pf_content cur) s e []))))"

section \<open>The patch executor's operations\<close>

fun validate_patch_operation :: "edit_operation \<Rightarrow> msg + unit" where
  "validate_patch_operation (Replace _ old _ _) =
     ensure (old \<noteq> []) (Txt ''replace match text ('old') must not be empty'')"
| "validate_patch_operation (Insert _ _ content) =
     ensure (content \<noteq> []) (Txt ''insert content must not be empty'')"
| "validate_patch_operation (DeleteRange _ s e) =
     ensure (\<not> (s = 0 \<or> e = 0 \<or> e < s)) (Fmt ''invalid line range: {}..={}'' [Num s, Num e])"
| "validate_patch_operation (Patch _ old _) =
     ensure (old \<noteq> []) (Txt ''patch old text must not be empty'')"
| "validate_patch_operation (ApplyDiff _) =
     Inl (Txt ''ApplyDiff operations are not supported by the core patch executor'')"

definition looks_like_diff :: "string \<Rightarrow> bool" where
  "looks_like_diff old \<longleftrightarrow> starts_with old ''--- '' \<or> contains old (LF # ''--- '')"

definition apply_patch_text :: "string \<Rightarrow> string \<Rightarrow> string \<Rightarrow> string \<Rightarrow> edit_error + string" where
  "apply_patch_text path old new content =
     (if looks_like_diff old then
        bindR (parse_unified_diff old) (\<lambda>fds.
          case find (\<lambda>fd. fd_path fd = path) fds of
            None \<Rightarrow> Inl (InvalidDiff (Fmt ''diff has no section for {}'' [Txt path]))
          | Some fd \<Rightarrow> apply_hunks_to_content content (fd_hunks fd) path)
      else (case find_matches content old of
          [] \<Rightarrow> Inl (MatchNotFound path)
        | m # _ \<Rightarrow> Inr (splice content (lo_byte_offset m) (lo_byte_offset m + lo_length m) new)))"

fun apply_normalized_operation ::
    "sha \<Rightarrow> string \<Rightarrow> edit_operation \<Rightarrow> string \<Rightarrow> expected_state option \<Rightarrow> edit_error + string" where
  "apply_normalized_operation sha path (Replace _ old new occurrence) content expected =
     bindR (prepare_replace \<lparr>pf_content = content, pf_before = state_of sha path content\<rparr>
              expected path old new occurrence) (\<lambda>r. Inr (rp_prepared r))"
| "apply_normalized_operation sha path (Insert _ line txt) content expected =
     prepare_insert \<lparr>pf_content = content, pf_before = state_of sha path content\<rparr> expected path line txt"
| "apply_normalized_operation sha path (DeleteRange _ s e) content expected =
     prepare_delete \<lparr>pf_content = content, pf_before = state_of sha path content\<rparr> expected path s e"
| "apply_normalized_operation sha path (Patch _ old new) content expected =
     apply_patch_text path old new content"
| "apply_normalized_operation sha path (ApplyDiff _) content expected = Inl (UnsupportedTransaction 1)"

section \<open>Lemmas\<close>

lemma select_match_Inr:
  "select_match path occ ms = Inr i \<longleftrightarrow> (case occ of
      None \<Rightarrow> length ms = 1 \<and> i = 0
    | Some n \<Rightarrow> n \<noteq> 0 \<and> i = n - 1 \<and> n \<le> length ms \<or> (n = 0 \<and> i = usize_max \<and> usize_max < length ms))"
  by (cases ms) (auto simp: select_match_def Let_def split: option.splits)

lemma prepare_replace_Inr:
  "prepare_replace cur ex path old new occ = Inr r \<longleftrightarrow>
     (\<exists>i. select_match path occ (find_matches (pf_content cur) old) = Inr i
       \<and> (let m = find_matches (pf_content cur) old ! i; s = lo_byte_offset m; e = s + lo_length m in
          check_context cur ex s e = Inr ()
          \<and> r = \<lparr>rp_match_count = length (find_matches (pf_content cur) old), rp_index = i,
              rp_location = lo_location m, rp_prepared = splice (pf_content cur) s e new\<rparr>))"
  by (auto simp: prepare_replace_def Let_def bindR_Inr_iff)

lemma select_match_bound: "select_match path occ ms = Inr i \<Longrightarrow> i < length ms"
  by (auto simp: select_match_Inr split: option.splits)

text \<open>A replacement exchanges one occurrence of the old text for the new text.\<close>

lemma prepare_replace_splits:
  assumes "prepare_replace cur ex path old new occ = Inr r"
  shows "\<exists>a b. pf_content cur = a @ old @ b \<and> rp_prepared r = a @ new @ b
    \<and> length a = lo_byte_offset (find_matches (pf_content cur) old ! rp_index r)
    \<and> rp_index r < length (find_matches (pf_content cur) old)"
proof -
  let ?c = "pf_content cur" let ?ms = "find_matches ?c old"
  from assms obtain i where i: "select_match path occ ?ms = Inr i" and ri: "rp_index r = i"
    and r: "rp_prepared r = splice ?c (lo_byte_offset (?ms ! i)) (lo_byte_offset (?ms ! i) + lo_length (?ms ! i)) new"
    by (auto simp: prepare_replace_Inr Let_def)
  have m: "?ms ! i \<in> set ?ms" using select_match_bound [OF i] by simp
  have "lo_byte_offset (?ms ! i) + length old \<le> length ?c"
    using m find_from_match unfolding find_matches_def by blast
  then have "length (take (lo_byte_offset (?ms ! i)) ?c) = lo_byte_offset (?ms ! i)" by simp
  with match_split [OF m] r ri select_match_bound [OF i] show ?thesis unfolding splice_def by blast
qed

lemma prepare_delete_Inr:
  assumes "prepare_delete cur ex path a b = Inr t" and "0 < a" and "a \<le> b"
  shows "\<exists>x y. line_span (parse_lines (pf_content cur)) a b = Some (x, y) \<and> t = splice (pf_content cur) x y []
    \<and> check_context cur ex x y = Inr ()"
  using assms
  by (auto simp: prepare_delete_def Let_def bindR_Inr_iff line_span_def split: if_splits prod.splits)

lemma prepare_insert_Inr:
  "prepare_insert cur ex path line txt = Inr t \<longleftrightarrow> line \<le> line_count (pf_content cur) + 1
     \<and> check_context cur ex (insert_offset (parse_lines (pf_content cur)) line)
         (insert_offset (parse_lines (pf_content cur)) line) = Inr ()
     \<and> t = insert_at (parse_lines (pf_content cur)) (pf_content cur) line txt"
  by (auto simp: prepare_insert_def Let_def bindR_unit_Inr_iff lm_len_line_count [symmetric] simp del: lm_len_lines)

text \<open>The check against an expected range in \<open>line_span\<close> cannot fail after validation.\<close>

lemma delete_span_exists:
  "0 < a \<Longrightarrow> a \<le> b \<Longrightarrow> \<not> lm_is_empty m \<Longrightarrow> b \<le> lm_len m \<Longrightarrow> line_span m a b \<noteq> None"
  by (simp add: line_span_def)

lemma prepare_replace_parts:
  assumes "prepare_replace cur ex path old new occ = Inr r"
    and "valid_utf8 (pf_content cur)" and "valid_utf8 old" and "valid_utf8 new" and "old \<noteq> []"
  shows "\<exists>a b. pf_content cur = a @ old @ b \<and> rp_prepared r = a @ new @ b \<and> valid_utf8 (rp_prepared r)"
proof -
  from prepare_replace_splits [OF assms(1)] obtain a b where
    ab: "pf_content cur = a @ old @ b" "rp_prepared r = a @ new @ b" by blast
  have "valid_utf8 a \<and> valid_utf8 b" using valid_match_parts assms(2,3,5) ab(1) by metis
  with ab assms(4) show ?thesis by (auto simp: valid_append)
qed

text \<open>
  Replacing a match is safe for text: with valid UTF-8 content, match and replacement, the
  prepared content is valid UTF-8, and it is the old content with exactly one occurrence of the
  match exchanged, every other byte in place.
\<close>

theorem replace_prepares_valid_text:
  assumes "prepare_replace cur ex path old new occ = Inr r"
    and "valid_utf8 (pf_content cur)" and "valid_utf8 old" and "valid_utf8 new" and "old \<noteq> []"
  shows "\<exists>a b. pf_content cur = a @ old @ b \<and> rp_prepared r = a @ new @ b \<and> valid_utf8 (rp_prepared r)"
  using assms by (rule prepare_replace_parts)

theorem replace_prepares_valid_text_witness:
  "\<exists>r. prepare_replace \<lparr>pf_content = ''one two one'', pf_before = state_of (\<lambda>_. []) ''f'' ''one two one''\<rparr> None ''f''
       ''one'' ''1'' (Some 2) = Inr r \<and> rp_prepared r = ''one two 1'' \<and> valid_utf8 (rp_prepared r)"
proof -
  let ?cur = "\<lparr>pf_content = ''one two one'', pf_before = state_of (\<lambda>_. []) ''f'' ''one two one''\<rparr>"
  have "case prepare_replace ?cur None ''f'' ''one'' ''1'' (Some 2) of Inl _ \<Rightarrow> False
    | Inr r \<Rightarrow> rp_prepared r = ''one two 1''" by code_simp
  then obtain r where r: "prepare_replace ?cur None ''f'' ''one'' ''1'' (Some 2) = Inr r" "rp_prepared r = ''one two 1''"
    by (auto split: sum.splits)
  have "\<exists>a b. pf_content ?cur = a @ ''one'' @ b \<and> rp_prepared r = a @ ''1'' @ b \<and> valid_utf8 (rp_prepared r)"
    by (rule replace_prepares_valid_text [OF r(1)]) code_simp+
  with r show ?thesis by blast
qed

end
