(* ===== verification/FileTree.thy ===== *)
theory FileTree
  imports EditModel
begin

text \<open>
  The file system the files service works on: a map from the components of an absolute path to
  a node, and the path resolution the system calls perform. A path handed to a call is the list
  of its raw components (the split at slashes, with the empty and dot components a caller may
  have left in); \<open>walk\<close> resolves it from the root, follows symbolic links with the kernel's
  limit of 40, and asks for a directory before every step, as \<open>ENOTDIR\<close> does. Permissions,
  quotas and name limits are not part of the tree: they are failures the environment injects.
\<close>

section \<open>Nodes and path resolution\<close>

datatype node = File string | Dir | Link string

type_synonym tree = "string list \<rightharpoonup> node"

definition node_at :: "tree \<Rightarrow> string list \<Rightarrow> node option" where
  "node_at t p = (if p = [] then Some Dir else t p)"

definition target_components :: "string \<Rightarrow> string list" where
  "target_components s = split_char CHR ''/'' s"

function walk :: "tree \<Rightarrow> nat \<Rightarrow> string list \<Rightarrow> string list \<Rightarrow> io_kind + string list" where
  "walk t fuel cur [] = Inr cur"
| "walk t fuel cur (c # cs) =
     (if node_at t cur \<noteq> Some Dir then Inl OtherIo
      else if c = [] \<or> c = ''.'' then walk t fuel cur cs
      else if c = ''..'' then walk t fuel (butlast cur) cs
      else (case t (cur @ [c]) of
              None \<Rightarrow> Inl NotFound
            | Some n \<Rightarrow> (case n of
                Link target \<Rightarrow>
                  if fuel = 0 then Inl OtherIo
                  else walk t (fuel - 1) (if is_absolute target then [] else cur) (target_components target @ cs)
              | _ \<Rightarrow> walk t fuel (cur @ [c]) cs)))"
  by pat_completeness auto
termination
  by (relation "measures [\<lambda>(t, fuel, cur, cs). fuel, \<lambda>(t, fuel, cur, cs). length cs]") auto

declare walk.simps(2) [simp del]

definition canonicalize :: "tree \<Rightarrow> string list \<Rightarrow> io_kind + string list" where
  "canonicalize t p = walk t 40 [] p"

definition stat :: "tree \<Rightarrow> string list \<Rightarrow> io_kind + node" where
  "stat t p = (case canonicalize t p of
      Inl k \<Rightarrow> Inl k
    | Inr l \<Rightarrow> (case node_at t l of None \<Rightarrow> Inl NotFound | Some n \<Rightarrow> Inr n))"

definition path_exists :: "tree \<Rightarrow> string list \<Rightarrow> bool" where
  "path_exists t p = (case stat t p of Inl _ \<Rightarrow> False | Inr _ \<Rightarrow> True)"

definition path_is_dir :: "tree \<Rightarrow> string list \<Rightarrow> bool" where
  "path_is_dir t p = (case stat t p of Inl _ \<Rightarrow> False | Inr n \<Rightarrow> n = Dir)"

definition is_special :: "string \<Rightarrow> bool" where
  "is_special c \<longleftrightarrow> c = [] \<or> c = ''.'' \<or> c = ''..''"

text \<open>
  The directory entry a call that does not follow a final link works on: the resolved parent
  with the last component. A path that ends in a slash or a dot is followed.
\<close>

definition entry_of :: "tree \<Rightarrow> string list \<Rightarrow> io_kind + string list" where
  "entry_of t p =
     (if p = [] \<or> is_special (last p) then canonicalize t p
      else bindR (canonicalize t (butlast p)) (\<lambda>d.
        if node_at t d \<noteq> Some Dir then Inl OtherIo else Inr (d @ [last p])))"

definition symlink_metadata :: "tree \<Rightarrow> string list \<Rightarrow> io_kind + node" where
  "symlink_metadata t p = bindR (entry_of t p) (\<lambda>l.
     case node_at t l of None \<Rightarrow> Inl NotFound | Some n \<Rightarrow> Inr n)"

definition read_link :: "tree \<Rightarrow> string list \<Rightarrow> string option" where
  "read_link t p = (case symlink_metadata t p of Inr (Link target) \<Rightarrow> Some target | _ \<Rightarrow> None)"

section \<open>Path operations of the standard library\<close>

definition is_redundant :: "string \<Rightarrow> bool" where
  "is_redundant c \<longleftrightarrow> c = [] \<or> c = ''.''"

definition trim_path :: "string list \<Rightarrow> string list" where
  "trim_path p = rev (dropWhile is_redundant (rev p))"

definition path_parent :: "string list \<Rightarrow> string list option" where
  "path_parent p = (if trim_path p = [] then None else Some (trim_path (butlast (trim_path p))))"

lemma trim_path_length: "length (trim_path p) \<le> length p"
  unfolding trim_path_def using length_dropWhile_le [of is_redundant "rev p"] by simp

lemma path_parent_shorter: "path_parent p = Some q \<Longrightarrow> length q < length p"
proof -
  assume "path_parent p = Some q"
  then have "trim_path p \<noteq> []" and q: "q = trim_path (butlast (trim_path p))"
    by (auto simp: path_parent_def split: if_splits)
  then have "length (butlast (trim_path p)) < length (trim_path p)" by simp
  with trim_path_length [of p] trim_path_length [of "butlast (trim_path p)"] q show ?thesis by simp
qed

text \<open>\<open>Path::join\<close> on a relative path, and the path of a link's target.\<close>

definition join :: "string list \<Rightarrow> string \<Rightarrow> string list" where
  "join p rel = p @ target_components rel"

definition follow_target :: "string list \<Rightarrow> string \<Rightarrow> string list option" where
  "follow_target link target =
     (if is_absolute target then Some (target_components target)
      else map_option (\<lambda>q. join q target) (path_parent link))"

section \<open>Changing the tree\<close>

definition mkdir :: "tree \<Rightarrow> string list \<Rightarrow> io_kind + tree" where
  "mkdir t p0 =
     (let p = rev (dropWhile (\<lambda>c. c = []) (rev p0)) in
      if p = [] then Inl OtherIo
      else bindR (canonicalize t (butlast p)) (\<lambda>d.
        if node_at t d \<noteq> Some Dir \<or> is_special (last p) then Inl OtherIo
        else if t (d @ [last p]) \<noteq> None then Inl OtherIo
        else Inr (t(d @ [last p] \<mapsto> Dir))))"

function create_dir_all :: "tree \<Rightarrow> string list \<Rightarrow> io_kind + tree" where
  "create_dir_all t p = (case mkdir t p of
      Inr t' \<Rightarrow> Inr t'
    | Inl NotFound \<Rightarrow> (case path_parent p of
        None \<Rightarrow> Inl OtherIo
      | Some q \<Rightarrow> (case create_dir_all t q of
          Inl k \<Rightarrow> Inl k
        | Inr t1 \<Rightarrow> (case mkdir t1 p of
            Inr t2 \<Rightarrow> Inr t2
          | Inl k \<Rightarrow> if path_is_dir t1 p then Inr t1 else Inl k)))
    | Inl OtherIo \<Rightarrow> if path_is_dir t p then Inr t else Inl OtherIo)"
  by pat_completeness auto
termination
  by (relation "measure (\<lambda>(t, p). length p)") (auto simp: path_parent_shorter)

declare create_dir_all.simps [simp del]

text \<open>
  \<open>rename\<close> of a staged regular file over \<open>p\<close>: the entry is replaced, a link included; a
  directory, or a path that can only name one, is refused.
\<close>

definition rename_over :: "tree \<Rightarrow> string list \<Rightarrow> string \<Rightarrow> io_kind + tree" where
  "rename_over t p content =
     (if p = [] \<or> is_special (last p) then Inl OtherIo
      else bindR (entry_of t p) (\<lambda>l.
        if node_at t l = Some Dir then Inl OtherIo else Inr (t(l \<mapsto> File content))))"

text \<open>\<open>fs::write\<close>: the file is opened, following a final link, and truncated.\<close>

fun write_through :: "nat \<Rightarrow> tree \<Rightarrow> string list \<Rightarrow> string \<Rightarrow> io_kind + tree" where
  "write_through 0 t p content = Inl OtherIo"
| "write_through (Suc n) t p content =
     bindR (entry_of t p) (\<lambda>l. case node_at t l of
        Some Dir \<Rightarrow> Inl OtherIo
      | Some (Link target) \<Rightarrow>
          (case follow_target l target of None \<Rightarrow> Inl OtherIo | Some q \<Rightarrow> write_through n t q content)
      | _ \<Rightarrow> if p = [] \<or> is_special (last p) then Inl OtherIo else Inr (t(l \<mapsto> File content)))"

definition remove_tree :: "tree \<Rightarrow> string list \<Rightarrow> tree" where
  "remove_tree t l = (\<lambda>p. if take (length l) p = l then None else t p)"

definition remove_entry :: "tree \<Rightarrow> string list \<Rightarrow> tree" where
  "remove_entry t l = t(l := None)"

section \<open>Paths with no links\<close>

definition normal_name :: "string \<Rightarrow> bool" where
  "normal_name c \<longleftrightarrow> \<not> is_special c \<and> CHR ''/'' \<notin> set c"

text \<open>Every prefix of the path is a directory.\<close>

definition dir_path :: "tree \<Rightarrow> string list \<Rightarrow> bool" where
  "dir_path t p \<longleftrightarrow> (\<forall>c \<in> set p. normal_name c) \<and> (\<forall>k \<le> length p. node_at t (take k p) = Some Dir)"

text \<open>
  The path of a regular file, or of a file that may be created, under directories only.
\<close>

definition plain_file :: "tree \<Rightarrow> string list \<Rightarrow> bool" where
  "plain_file t p \<longleftrightarrow> p \<noteq> [] \<and> dir_path t (butlast p) \<and> normal_name (last p)
     \<and> (t p = None \<or> (\<exists>b. t p = Some (File b)))"

lemma dir_path_Nil [simp]: "dir_path t []"
  by (simp add: dir_path_def node_at_def)

lemma dir_path_snoc: "dir_path t (p @ [c]) \<longleftrightarrow> dir_path t p \<and> normal_name c \<and> t (p @ [c]) = Some Dir"
proof -
  have "(\<forall>k \<le> length (p @ [c]). node_at t (take k (p @ [c])) = Some Dir)
      \<longleftrightarrow> (\<forall>k \<le> length p. node_at t (take k p) = Some Dir) \<and> node_at t (p @ [c]) = Some Dir"
    by (auto simp: le_Suc_eq)
  then show ?thesis by (auto simp: dir_path_def node_at_def)
qed

lemma dir_path_dir: "dir_path t p \<Longrightarrow> node_at t p = Some Dir"
  unfolding dir_path_def by (metis order_refl take_all)

lemma dir_path_append: "dir_path t (p @ q) \<Longrightarrow> dir_path t p"
  by (induction q rule: rev_induct) (auto simp: append_assoc [symmetric] dir_path_snoc simp del: append_assoc)

lemma walk_dirs: "dir_path t (cur @ cs) \<Longrightarrow> walk t fuel cur (cs @ rest) = walk t fuel (cur @ cs) rest"
proof (induction cs arbitrary: cur)
  case (Cons c cs)
  have d: "dir_path t ((cur @ [c]) @ cs)" using Cons.prems by simp
  then have "dir_path t (cur @ [c])" by (rule dir_path_append)
  then have "dir_path t cur" "normal_name c" "t (cur @ [c]) = Some Dir" by (simp_all add: dir_path_snoc)
  with Cons.IH [OF d] show ?case
    by (simp add: walk.simps(2) dir_path_dir normal_name_def is_special_def)
qed simp

lemma canonicalize_dirs: "dir_path t p \<Longrightarrow> canonicalize t p = Inr p"
  using walk_dirs [of t "[]" p 40 "[]"] by (simp add: canonicalize_def)

lemma canonicalize_child:
  assumes "dir_path t d" and "normal_name c"
  shows "canonicalize t (d @ [c]) = (case t (d @ [c]) of
      None \<Rightarrow> Inl NotFound
    | Some (Link target) \<Rightarrow> walk t 39 (if is_absolute target then [] else d) (target_components target)
    | Some _ \<Rightarrow> Inr (d @ [c]))"
  using walk_dirs [of t "[]" d 40 "[c]"] assms dir_path_dir [OF assms(1)]
  by (auto simp: canonicalize_def walk.simps(2) normal_name_def is_special_def split: option.splits node.splits)

lemma plain_snoc:
  "plain_file t (d @ [c]) \<longleftrightarrow> dir_path t d \<and> normal_name c
     \<and> (t (d @ [c]) = None \<or> (\<exists>b. t (d @ [c]) = Some (File b)))"
  by (simp add: plain_file_def)

lemma plain_cases:
  assumes "plain_file t p"
  obtains d c where "p = d @ [c]" "dir_path t d" "normal_name c"
    "t p = None \<or> (\<exists>b. t p = Some (File b))"
  using assms that [of "butlast p" "last p"] by (auto simp: plain_file_def)

lemma entry_plain: "plain_file t p \<Longrightarrow> entry_of t p = Inr p"
  by (erule plain_cases) (simp add: entry_of_def normal_name_def canonicalize_dirs dir_path_dir)

lemma canonicalize_plain:
  "plain_file t p \<Longrightarrow> canonicalize t p = (if t p = None then Inl NotFound else Inr p)"
  by (erule plain_cases) (auto simp: canonicalize_child)

lemma stat_plain:
  "plain_file t p \<Longrightarrow> stat t p = (case t p of None \<Rightarrow> Inl NotFound | Some n \<Rightarrow> Inr n)"
  by (auto simp: stat_def canonicalize_plain node_at_def plain_file_def)

lemma symlink_metadata_plain: "plain_file t p \<Longrightarrow> symlink_metadata t p = stat t p"
  by (auto simp: symlink_metadata_def entry_plain stat_plain node_at_def plain_file_def)

lemma rename_over_plain: "plain_file t p \<Longrightarrow> rename_over t p content = Inr (t(p \<mapsto> File content))"
  by (auto simp: rename_over_def entry_plain node_at_def plain_file_def normal_name_def)

lemma trim_normal: "p = [] \<or> normal_name (last p) \<Longrightarrow> trim_path p = p"
  by (cases p rule: rev_cases) (auto simp: trim_path_def normal_name_def is_special_def is_redundant_def)

lemma dir_path_last: "dir_path t d \<Longrightarrow> d = [] \<or> normal_name (last d)"
  by (cases d rule: rev_cases) (auto simp: dir_path_snoc)

lemma parent_plain: "plain_file t p \<Longrightarrow> path_parent p = Some (butlast p)"
  by (erule plain_cases) (simp add: path_parent_def trim_normal dir_path_last)

lemma create_dir_all_dirs: "dir_path t d \<Longrightarrow> create_dir_all t d = Inr t"
proof (cases d rule: rev_cases)
  case Nil
  then show ?thesis
    by (simp add: create_dir_all.simps [of t "[]"] mkdir_def path_is_dir_def stat_def canonicalize_def node_at_def)
next
  case (snoc e c)
  assume d: "dir_path t d"
  then have e: "dir_path t e" "normal_name c" "t (e @ [c]) = Some Dir" using snoc by (simp_all add: dir_path_snoc)
  then have "mkdir t d = Inl OtherIo"
    using snoc by (simp add: mkdir_def normal_name_def is_special_def canonicalize_dirs dir_path_dir)
  moreover have "path_is_dir t d"
    using d by (simp add: path_is_dir_def stat_def canonicalize_dirs dir_path_dir)
  ultimately show ?thesis by (simp add: create_dir_all.simps [of t d])
qed

lemma dir_path_upd:
  assumes "dir_path t d" and "t p \<noteq> Some Dir" shows "dir_path (t(p \<mapsto> n)) d"
proof -
  have "take k d \<noteq> p \<or> take k d = []" if "k \<le> length d" for k
    using assms that unfolding dir_path_def node_at_def by metis
  then have "node_at (t(p \<mapsto> n)) (take k d) = node_at t (take k d)" if "k \<le> length d" for k
    using that by (auto simp: node_at_def)
  with assms(1) show ?thesis by (simp add: dir_path_def)
qed

lemma plain_file_upd:
  "plain_file t p \<Longrightarrow> t q \<noteq> Some Dir \<Longrightarrow> plain_file (t(q \<mapsto> File b)) p"
  by (auto simp: plain_file_def dir_path_upd)

section \<open>Resolution ends at a path with no links\<close>

definition canonical :: "tree \<Rightarrow> string list \<Rightarrow> bool" where
  "canonical t p \<longleftrightarrow> dir_path t p \<or> (plain_file t p \<and> t p \<noteq> None)"

lemma canonical_dir: "canonical t p \<Longrightarrow> node_at t p = Some Dir \<Longrightarrow> dir_path t p"
  by (auto simp: canonical_def plain_file_def node_at_def)

lemma dir_path_butlast: "dir_path t p \<Longrightarrow> dir_path t (butlast p)"
  by (cases p rule: rev_cases) (auto simp: dir_path_snoc)

definition slash_free :: "string list \<Rightarrow> bool" where
  "slash_free cs \<longleftrightarrow> (\<forall>c \<in> set cs. CHR ''/'' \<notin> set c)"

lemma slash_free_simps [simp]:
  "slash_free []" "slash_free (c # cs) \<longleftrightarrow> CHR ''/'' \<notin> set c \<and> slash_free cs"
  "slash_free (a @ b) \<longleftrightarrow> slash_free a \<and> slash_free b" "slash_free (target_components s)"
  by (auto simp: slash_free_def target_components_def dest: split_char_member)

lemma dir_path_slash_free: "dir_path t p \<Longrightarrow> slash_free p"
  by (auto simp: dir_path_def slash_free_def normal_name_def)

lemma walk_canonical:
  "walk t fuel cur cs = Inr l \<Longrightarrow> canonical t cur \<Longrightarrow> slash_free cs \<Longrightarrow> canonical t l"
proof (induction t fuel cur cs rule: walk.induct)
  case (2 t fuel cur c cs)
  from 2(6) have d: "node_at t cur = Some Dir" by (simp add: walk.simps(2) split: if_splits)
  with 2(7) have dp: "dir_path t cur" by (rule canonical_dir)
  consider "c = [] \<or> c = ''.''" | "c = ''..''" | n where "\<not> is_special c" "t (cur @ [c]) = Some n"
    using 2(6) d by (auto simp: walk.simps(2) is_special_def split: if_splits option.splits)
  then show ?case
  proof cases
    case 1
    with 2 d show ?thesis by (auto simp: walk.simps(2))
  next
    case 2
    have "canonical t (butlast cur)" using dp by (simp add: canonical_def dir_path_butlast)
    with 2 d "2.prems" "2.IH"(2) show ?thesis by (simp add: walk.simps(2))
  next
    case 3
    then have ns: "c \<noteq> []" "c \<noteq> ''.''" "c \<noteq> ''..''" by (auto simp: is_special_def)
    have nn: "normal_name c" using 3(1) "2.prems"(3) by (simp add: normal_name_def)
    show ?thesis
    proof (cases n)
      case (File b)
      have "canonical t (cur @ [c])" using dp nn 3(2) File by (simp add: canonical_def plain_snoc)
      with File 3 ns d "2.prems" "2.IH"(3) [of n b] show ?thesis by (simp add: walk.simps(2))
    next
      case Dir
      have "canonical t (cur @ [c])" using dp nn 3(2) Dir by (simp add: canonical_def dir_path_snoc)
      with Dir 3 ns d "2.prems" "2.IH"(4) [of n] show ?thesis by (simp add: walk.simps(2))
    next
      case (Link target)
      have "canonical t (if is_absolute target then [] else cur)" using dp by (simp add: canonical_def)
      with Link 3 ns d "2.prems" "2.IH"(5) [of n target] show ?thesis
        by (simp add: walk.simps(2) split: if_splits)
    qed
  qed
qed simp

lemma canonicalize_canonical: "canonicalize t p = Inr l \<Longrightarrow> slash_free p \<Longrightarrow> canonical t l"
  unfolding canonicalize_def by (erule walk_canonical) (simp_all add: canonical_def)

lemma canonicalize_id: "canonical t l \<Longrightarrow> canonicalize t l = Inr l"
  by (auto simp: canonical_def canonicalize_dirs canonicalize_plain)

lemma canonical_exists: "canonical t l \<Longrightarrow> path_exists t l"
proof -
  assume c: "canonical t l"
  then have "node_at t l \<noteq> None"
    using dir_path_dir [of t l] by (auto simp: canonical_def plain_file_def node_at_def)
  then show ?thesis using canonicalize_id [OF c] by (auto simp: path_exists_def stat_def)
qed

section \<open>What creating directories can change\<close>

definition adds_dirs :: "tree \<Rightarrow> tree \<Rightarrow> bool" where
  "adds_dirs t t' \<longleftrightarrow> (\<forall>p. t' p = t p \<or> (t p = None \<and> t' p = Some Dir))"

lemma adds_dirs_refl [simp]: "adds_dirs t t"
  by (simp add: adds_dirs_def)

lemma adds_dirs_trans: "adds_dirs a b \<Longrightarrow> adds_dirs b c \<Longrightarrow> adds_dirs a c"
  unfolding adds_dirs_def by (metis option.distinct(1))

lemma mkdir_adds: "mkdir t p = Inr t' \<Longrightarrow> adds_dirs t t'"
  by (auto simp: mkdir_def Let_def bindR_Inr_iff adds_dirs_def split: if_splits)

lemma create_dir_all_adds: "create_dir_all t p = Inr t' \<Longrightarrow> adds_dirs t t'"
proof (induction t p arbitrary: t' rule: create_dir_all.induct)
  case (1 t p)
  from 1(2) consider "mkdir t p = Inr t'" | "t' = t"
    | q t1 where "mkdir t p = Inl NotFound" "path_parent p = Some q" "create_dir_all t q = Inr t1"
        "mkdir t1 p = Inr t' \<or> t' = t1"
    by (auto simp: create_dir_all.simps [of t p] split: sum.splits io_kind.splits option.splits if_splits)
  then show ?case
  proof cases
    case (3 q t1)
    with 1(1) have "adds_dirs t t1" by blast
    with 3(4) show ?thesis using mkdir_adds adds_dirs_trans by blast
  qed (use mkdir_adds in auto)
qed

end
