(* ===== verification/Files.thy ===== *)
theory Files
  imports FileTree
begin

text \<open>
  \<open>services/files.rs\<close>: containment checks and the file operations of one workspace root.
  The state is the tree, the canonical root, and the script of the environment: before each
  operation the environment may change the tree (another process writes), and it may make the
  operation's system call fail. An operation is otherwise atomic. The operations that acquire
  coordination themselves are in the theory of the coordination plane.
\<close>

section \<open>State\<close>

datatype fs_event = Quiet | Tamper "(string list \<times> node option) list" | Fault string io_kind

record files_world =
  fw_root :: "string list"
  fw_tree :: tree
  fw_env :: "fs_event list"

type_synonym ('z, 'a) files_op = "('z files_world_scheme, anyhow, 'a) io"

definition apply_tamper :: "(string list \<times> node option) list \<Rightarrow> tree \<Rightarrow> tree" where
  "apply_tamper us t = foldl (\<lambda>t (p, n). t(p := n)) t us"

text \<open>Take the next event of the script; a failure is handed to the operation.\<close>

definition next_event :: "'z files_world_scheme \<Rightarrow> (string \<times> io_kind) option \<times> 'z files_world_scheme" where
  "next_event w = (case fw_env w of
      [] \<Rightarrow> (None, w)
    | Quiet # es \<Rightarrow> (None, w\<lparr>fw_env := es\<rparr>)
    | Tamper us # es \<Rightarrow> (None, w\<lparr>fw_env := es, fw_tree := apply_tamper us (fw_tree w)\<rparr>)
    | Fault m k # es \<Rightarrow> (Some (m, k), w\<lparr>fw_env := es\<rparr>))"

definition max_file_bytes :: nat where
  "max_file_bytes = 8 * 1024 * 1024"

definition max_list_entries :: nat where
  "max_list_entries = 1000"

definition symlink_follow_limit :: nat where
  "symlink_follow_limit = 8"

section \<open>Containment\<close>

definition escape_error :: anyhow where
  "escape_error = Plain (Txt ''resolved path escapes the project root'')"

definition io_error :: "io_kind \<Rightarrow> anyhow" where
  "io_error k = WithIo (Txt ''io'') k"

definition io_context :: "msg \<Rightarrow> io_kind + 'a \<Rightarrow> anyhow + 'a" where
  "io_context m r = (case r of Inl k \<Rightarrow> Inl (WithIo m k) | Inr x \<Rightarrow> Inr x)"

definition starts_with_path :: "string list \<Rightarrow> string list \<Rightarrow> bool" where
  "starts_with_path p q \<longleftrightarrow> take (length q) p = q"

function deepest_existing :: "tree \<Rightarrow> string list \<Rightarrow> string list option" where
  "deepest_existing t p =
     (if path_exists t p then Some p
      else (case path_parent p of None \<Rightarrow> None | Some q \<Rightarrow> deepest_existing t q))"
  by pat_completeness auto
termination by (relation "measure (\<lambda>(t, p). length p)") (auto simp: path_parent_shorter)

text \<open>The walk for a dangling link stops before the file-system root.\<close>

function dangling_ancestor :: "tree \<Rightarrow> string list \<Rightarrow> string list option" where
  "dangling_ancestor t p = (case path_parent p of
      None \<Rightarrow> None
    | Some q \<Rightarrow> if path_exists t p then Some p else dangling_ancestor t q)"
  by pat_completeness auto
termination by (relation "measure (\<lambda>(t, p). length p)") (auto simp: path_parent_shorter)

declare deepest_existing.simps [simp del] dangling_ancestor.simps [simp del]

definition resolve_candidate :: "tree \<Rightarrow> string list \<Rightarrow> anyhow + string list" where
  "resolve_candidate t candidate = (case canonicalize t candidate of
      Inr r \<Rightarrow> Inr r
    | Inl _ \<Rightarrow> (case dangling_ancestor t candidate of
        None \<Rightarrow> Inl (Plain (Txt ''symlink target has no existing ancestor''))
      | Some a \<Rightarrow> io_context (Txt ''io'') (canonicalize t a)))"

fun follow_links :: "tree \<Rightarrow> string list \<Rightarrow> nat \<Rightarrow> string list \<Rightarrow> anyhow + unit" where
  "follow_links t root_canonical 0 link = Inr ()"
| "follow_links t root_canonical (Suc n) link = (case read_link t link of
      None \<Rightarrow> Inr ()
    | Some target \<Rightarrow> (case follow_target link target of
        None \<Rightarrow> Inl (Plain (Txt ''symlink has no parent directory''))
      | Some candidate \<Rightarrow> bindR (resolve_candidate t candidate) (\<lambda>resolved.
          if \<not> starts_with_path resolved root_canonical then Inl escape_error
          else (case symlink_metadata t resolved of
                  Inr (Link _) \<Rightarrow> follow_links t root_canonical n resolved
                | _ \<Rightarrow> Inr ()))))"

definition resolve_checked :: "tree \<Rightarrow> string list \<Rightarrow> string \<Rightarrow> anyhow + string list" where
  "resolve_checked t root relative =
     (if is_absolute relative then Inl (Plain (Txt ''absolute paths are not allowed''))
      else if has_parent_component relative then Inl (Plain (Txt ''path traversal is not allowed''))
      else if relative = [] then Inr root
      else (let joined = join root relative in
        bindR (io_context (Txt ''project root must exist'') (canonicalize t root)) (\<lambda>root_canonical.
        let target = (case canonicalize t joined of Inr p \<Rightarrow> p | Inl _ \<Rightarrow> joined) in
        case deepest_existing t target of
          None \<Rightarrow> Inl (Plain (Txt ''path has no existing ancestor''))
        | Some ancestor \<Rightarrow>
            bindR (io_context (Txt ''io'') (canonicalize t ancestor)) (\<lambda>resolved.
            if \<not> starts_with_path resolved root_canonical then Inl escape_error
            else bindR (case symlink_metadata t joined of
                          Inr (Link _) \<Rightarrow> follow_links t root_canonical symlink_follow_limit joined
                        | _ \<Rightarrow> Inr ())
                   (\<lambda>_. Inr joined)))))"

section \<open>Operations\<close>

definition show_path :: "string list \<Rightarrow> msg" where
  "show_path p = Txt (concat (map (\<lambda>c. CHR ''/'' # c) p))"

definition ctx_msg :: "string \<Rightarrow> string list \<Rightarrow> msg" where
  "ctx_msg verb p = Fmt verb [show_path p]"

definition check_fault :: "(string \<times> io_kind) option \<Rightarrow> anyhow + unit" where
  "check_fault f = (case f of None \<Rightarrow> Inr () | Some (m, k) \<Rightarrow> Inl (WithIo (Txt m) k))"

text \<open>What a read of the resolved path gives: the size cap is checked on the metadata.\<close>

definition read_node :: "tree \<Rightarrow> string list \<Rightarrow> anyhow + string" where
  "read_node t path = bindR (io_context (ctx_msg ''stat {}'' path) (stat t path)) (\<lambda>n. case n of
      File b \<Rightarrow>
        if length b > max_file_bytes
        then Inl (Plain (Fmt ''file exceeds the {} byte limit'' [Num max_file_bytes]))
        else Inr b
    | _ \<Rightarrow> Inl (WithIo (ctx_msg ''read {}'' path) OtherIo))"

definition read_bytes :: "string \<Rightarrow> ('z, string) files_op" where
  "read_bytes relative w0 = (let (fault, w) = next_event w0 in
     (bindR (resolve_checked (fw_tree w) (fw_root w) relative) (\<lambda>path.
      bindR (check_fault fault) (\<lambda>_. read_node (fw_tree w) path)), w))"

definition read_text :: "string \<Rightarrow> ('z, string) files_op" where
  "read_text relative w0 = (let (fault, w) = next_event w0 in
     (bindR (resolve_checked (fw_tree w) (fw_root w) relative) (\<lambda>path.
      bindR (check_fault fault) (\<lambda>_.
      bindR (read_node (fw_tree w) path) (\<lambda>b.
        case from_utf8 b of Some s \<Rightarrow> Inr s
        | None \<Rightarrow> Inl (WithIo (ctx_msg ''read {}'' path) OtherIo)))), w))"

definition content_limit :: "string \<Rightarrow> anyhow + unit" where
  "content_limit content = ensure (length content \<le> max_file_bytes)
     (Plain (Fmt ''content exceeds the {} byte limit'' [Num max_file_bytes]))"

text \<open>
  An operation that changes the tree runs as a function of the tree: the error it ends in, if
  any, and the tree it leaves. A write creates the missing parents first, and they stay when a
  later call of the operation fails.
\<close>

definition on_tree ::
    "((string \<times> io_kind) option \<Rightarrow> tree \<Rightarrow> string list \<Rightarrow> (anyhow + 'a) \<times> tree) \<Rightarrow> ('z, 'a) files_op" where
  "on_tree f w0 = (let (fault, w) = next_event w0; (r, t) = f fault (fw_tree w) (fw_root w)
     in (r, w\<lparr>fw_tree := t\<rparr>))"

definition commit_step :: "tree \<Rightarrow> anyhow + tree \<Rightarrow> (anyhow + unit) \<times> tree" where
  "commit_step t r = (case r of Inl e \<Rightarrow> (Inl e, t) | Inr t' \<Rightarrow> (Inr (), t'))"

definition with_parents ::
    "tree \<Rightarrow> msg \<Rightarrow> string list option \<Rightarrow> (tree \<Rightarrow> (anyhow + unit) \<times> tree) \<Rightarrow> (anyhow + unit) \<times> tree" where
  "with_parents t m parent k = (case parent of
      None \<Rightarrow> k t
    | Some p \<Rightarrow> (case create_dir_all t p of
        Inl e \<Rightarrow> (Inl (WithIo m e), t)
      | Inr t1 \<Rightarrow> k t1))"

definition write_locked :: "string \<Rightarrow> string \<Rightarrow> ('z, unit) files_op" where
  "write_locked relative content = on_tree (\<lambda>fault t root.
     case bindR (content_limit content) (\<lambda>_. resolve_checked t root relative) of
       Inl e \<Rightarrow> (Inl e, t)
     | Inr path \<Rightarrow> with_parents t (ctx_msg ''create parent of {}'' path) (path_parent path) (\<lambda>t1.
         commit_step t1 (bindR (check_fault fault) (\<lambda>_.
           io_context (ctx_msg ''write {}'' path) (write_through 40 t1 path content)))))"

definition write_atomic_locked :: "string \<Rightarrow> string \<Rightarrow> ('z, unit) files_op" where
  "write_atomic_locked relative content = on_tree (\<lambda>fault t root.
     case bindR (content_limit content) (\<lambda>_. resolve_checked t root relative) of
       Inl e \<Rightarrow> (Inl e, t)
     | Inr path \<Rightarrow> (case path_parent path of
         None \<Rightarrow> (Inl (Plain (Txt ''target has no parent directory'')), t)
       | Some parent \<Rightarrow>
           with_parents t (Fmt ''create parent directory of {}'' [Txt relative]) (Some parent) (\<lambda>t1.
             commit_step t1 (bindR (check_fault fault) (\<lambda>_.
               io_context (Fmt ''commit {} (target left unchanged)'' [Txt relative])
                 (rename_over t1 path content))))))"

definition is_root_path :: "string list \<Rightarrow> string list \<Rightarrow> bool" where
  "is_root_path root path \<longleftrightarrow> filter (\<lambda>c. \<not> is_redundant c) path = filter (\<lambda>c. \<not> is_redundant c) root"

definition remove_path :: "tree \<Rightarrow> string list \<Rightarrow> anyhow + tree" where
  "remove_path t path =
     (if path_is_dir t path then
        io_context (ctx_msg ''delete dir {}'' path) (bindR (entry_of t path) (\<lambda>l.
          if node_at t l = Some Dir then Inr (remove_tree t l) else Inr (remove_entry t l)))
      else io_context (ctx_msg ''delete {}'' path) (bindR (entry_of t path) (\<lambda>l.
          if node_at t l = None then Inl NotFound else Inr (remove_entry t l))))"

definition delete_locked :: "string \<Rightarrow> ('z, unit) files_op" where
  "delete_locked relative = on_tree (\<lambda>fault t root.
     commit_step t (bindR (resolve_checked t root relative) (\<lambda>path.
       if is_root_path root path then Inl (Plain (Txt ''refusing to delete the project root''))
       else bindR (check_fault fault) (\<lambda>_. remove_path t path))))"

definition delete_if_exists_locked :: "string \<Rightarrow> ('z, bool) files_op" where
  "delete_if_exists_locked relative = on_tree (\<lambda>fault t root.
     case resolve_checked t root relative of
       Inl e \<Rightarrow> (Inl e, t)
     | Inr path \<Rightarrow>
         if is_root_path root path then (Inl (Plain (Txt ''refusing to delete the project root'')), t)
         else if \<not> path_exists t path then (Inr False, t)
         else (case bindR (check_fault fault) (\<lambda>_. remove_path t path) of
                 Inl e \<Rightarrow> (Inl e, t) | Inr t' \<Rightarrow> (Inr True, t')))"

text \<open>\<open>rename\<close> of an existing entry; a directory moves with everything below it.\<close>

definition move_tree :: "tree \<Rightarrow> string list \<Rightarrow> string list \<Rightarrow> tree" where
  "move_tree t a b = (\<lambda>p. if take (length b) p = b then t (a @ drop (length b) p)
     else if take (length a) p = a then None else t p)"

definition rename_locked :: "string \<Rightarrow> string \<Rightarrow> ('z, unit) files_op" where
  "rename_locked src_rel dst_rel = on_tree (\<lambda>fault t root.
     case bindR (resolve_checked t root src_rel) (\<lambda>src.
          bindR (resolve_checked t root dst_rel) (\<lambda>dst. Inr (src, dst))) of
       Inl e \<Rightarrow> (Inl e, t)
     | Inr (src, dst) \<Rightarrow>
         if \<not> starts_with_path src root \<or> \<not> starts_with_path dst root
         then (Inl (Plain (Txt ''rename source or destination escapes the root'')), t)
         else if path_exists t dst then (Inl (Plain (Fmt ''destination already exists: {}'' [Txt dst_rel])), t)
         else with_parents t (Txt ''io'') (path_parent dst) (\<lambda>t1.
           commit_step t1 (bindR (check_fault fault) (\<lambda>_.
             io_context (Fmt ''rename {} -> {}'' [Txt src_rel, Txt dst_rel])
               (bindR (entry_of t1 src) (\<lambda>a. bindR (entry_of t1 dst) (\<lambda>b.
                  if node_at t1 a = None then Inl NotFound
                  else if starts_with_path b a \<or> (node_at t1 a = Some Dir \<and> node_at t1 b \<noteq> None)
                  then Inl OtherIo
                  else Inr (move_tree t1 a b))))))))"

definition create_dir_locked :: "string \<Rightarrow> ('z, unit) files_op" where
  "create_dir_locked relative = on_tree (\<lambda>fault t root.
     commit_step t (bindR (resolve_checked t root relative) (\<lambda>path.
       if is_root_path root path then Inl (Plain (Txt ''refusing to create the project root''))
       else bindR (check_fault fault) (\<lambda>_.
         io_context (ctx_msg ''mkdir {}'' path) (create_dir_all t path)))))"

definition is_probably_binary :: "string \<Rightarrow> bool" where
  "is_probably_binary b = (let head = take 8192 b in \<not> valid_utf8 head \<or> CHR 0x00 \<in> set head)"

datatype path_kind = Directory | TextFile | BinaryFile

definition file_meta :: "string \<Rightarrow> ('z, path_kind \<times> nat option) files_op" where
  "file_meta relative w0 = (let (fault, w) = next_event w0; t = fw_tree w in
     (bindR (resolve_checked t (fw_root w) relative) (\<lambda>path.
      bindR (check_fault fault) (\<lambda>_.
      bindR (io_context (ctx_msg ''stat {}'' path) (stat t path)) (\<lambda>n. case n of
        Dir \<Rightarrow> Inr (Directory, None)
      | File b \<Rightarrow> Inr (if is_probably_binary b then BinaryFile else TextFile, Some (length b))
      | Link _ \<Rightarrow> Inl (io_error OtherIo)))), w))"

definition sanitize_io_message :: "string \<Rightarrow> string" where
  "sanitize_io_message m = (case find_sub '' at path '' m of Some i \<Rightarrow> take i m | None \<Rightarrow> m)"

definition is_not_found :: "anyhow \<Rightarrow> bool" where
  "is_not_found e = (case e of WithIo _ NotFound \<Rightarrow> True | _ \<Rightarrow> False)"

section \<open>Lemmas\<close>

lemma next_event_root [simp]: "next_event w = (f, w') \<Longrightarrow> fw_root w' = fw_root w"
  by (auto simp: next_event_def split: list.splits fs_event.splits)

lemma read_state: "snd (read_bytes rel w) = snd (next_event w)" "snd (read_text rel w) = snd (next_event w)"
  by (simp_all add: read_bytes_def read_text_def split: prod.splits)

lemma io_context_Inr [simp]: "io_context m r = Inr x \<longleftrightarrow> r = Inr x"
  by (auto simp: io_context_def split: sum.splits)

lemma io_context_of_Inr [simp]: "io_context m (Inr x) = Inr x"
  by (simp add: io_context_def)

lemma check_fault_Inr [simp]: "check_fault f = Inr u \<longleftrightarrow> f = None"
  by (auto simp: check_fault_def split: option.splits)

lemma read_node_Inr:
  "read_node t p = Inr b \<longleftrightarrow> (\<exists>l. canonicalize t p = Inr l \<and> node_at t l = Some (File b)) \<and> length b \<le> max_file_bytes"
  by (auto simp: read_node_def bindR_Inr_iff stat_def split: sum.splits option.splits node.splits if_splits)

lemma read_bytes_Inr:
  "read_bytes rel w = (Inr b, w') \<longleftrightarrow> (\<exists>path. next_event w = (None, w')
     \<and> resolve_checked (fw_tree w') (fw_root w') rel = Inr path \<and> read_node (fw_tree w') path = Inr b)"
  by (auto simp: read_bytes_def bindR_Inr_iff split: prod.splits)

lemma read_text_Inr:
  "read_text rel w = (Inr b, w') \<longleftrightarrow> read_bytes rel w = (Inr b, w') \<and> valid_utf8 b"
  by (auto simp: read_text_def read_bytes_def bindR_Inr_iff split: prod.splits option.splits)

text \<open>A successful containment check on an existing target: the target is under the root.\<close>

lemma resolve_checked_inside:
  assumes "resolve_checked t root rel = Inr path" and "slash_free root"
    and "canonicalize t path = Inr l"
  shows "\<exists>rc. canonicalize t root = Inr rc \<and> starts_with_path l rc"
proof (cases "rel = []")
  case True
  with assms have "path = root" by (auto simp: resolve_checked_def split: if_splits)
  with assms(3) show ?thesis by (auto simp: starts_with_path_def)
next
  case False
  let ?target = "case canonicalize t (join root rel) of Inr p \<Rightarrow> p | Inl _ \<Rightarrow> join root rel"
  from assms(1) False obtain rc a r where path: "path = join root rel"
    and rc: "canonicalize t root = Inr rc" and a: "deepest_existing t ?target = Some a"
    and r: "canonicalize t a = Inr r" "starts_with_path r rc"
    by (auto simp: resolve_checked_def Let_def bindR_Inr_iff split: if_splits option.splits)
  have "slash_free path" using assms(2) by (simp add: path join_def)
  then have c: "canonical t l" using assms(3) canonicalize_canonical by blast
  have "?target = l" using assms(3) path by simp
  with a have "a = l" using canonical_exists [OF c] by (simp add: deepest_existing.simps [of t l])
  with r rc canonicalize_id [OF c] show ?thesis by auto
qed

subsection \<open>Paths under directories only\<close>

text \<open>\<open>rel\<close> names, in normal form, a regular file or an absent entry under real directories.\<close>

definition plain_target :: "tree \<Rightarrow> string list \<Rightarrow> string \<Rightarrow> bool" where
  "plain_target t root rel \<longleftrightarrow> rel \<noteq> [] \<and> dir_path t root \<and> plain_file t (join root rel)"

lemma join_parts: "rel \<noteq> [] \<Longrightarrow> join root rel = root @ target_components rel \<and> target_components rel \<noteq> []"
  by (simp add: join_def target_components_def)

lemma plain_target_shape:
  assumes "plain_target t root rel"
  shows "\<not> is_absolute rel" and "\<not> has_parent_component rel" and "join root rel \<noteq> []"
    and "starts_with_path (join root rel) root" and "starts_with_path (butlast (join root rel)) root"
proof -
  let ?cs = "target_components rel"
  have ne: "?cs \<noteq> []" by (simp add: target_components_def)
  have nn: "normal_name c" if "c \<in> set ?cs" for c
  proof -
    have b: "butlast (root @ ?cs) = root @ butlast ?cs" "last (root @ ?cs) = last ?cs"
      using ne by (simp_all add: butlast_append)
    from ne obtain ds d where cs: "?cs = ds @ [d]" by (metis rev_exhaust)
    from assms b have "\<forall>x \<in> set (root @ butlast ?cs). normal_name x" "normal_name (last ?cs)"
      by (auto simp: plain_target_def join_def plain_file_def dir_path_def)
    with that cs show ?thesis by auto
  qed
  show "\<not> is_absolute rel"
  proof
    assume "is_absolute rel"
    then obtain r where "rel = CHR ''/'' # r" by (auto simp: is_absolute_def starts_with_iff)
    then have "[] \<in> set ?cs" by (simp add: target_components_def)
    then show False using nn [of "[]"] by (simp add: normal_name_def is_special_def)
  qed
  show "\<not> has_parent_component rel"
    using nn by (auto simp: has_parent_component_def target_components_def list_ex_iff normal_name_def is_special_def)
  show "join root rel \<noteq> []" using ne by (simp add: join_def)
  show "starts_with_path (join root rel) root" "starts_with_path (butlast (join root rel)) root"
    using ne by (simp_all add: starts_with_path_def join_def butlast_append)
qed

lemma resolve_plain:
  assumes "plain_target t root rel" shows "resolve_checked t root rel = Inr (join root rel)"
proof -
  let ?p = "join root rel"
  note sh = plain_target_shape [OF assms]
  from assms have rel: "rel \<noteq> []" and root: "dir_path t root" and pl: "plain_file t ?p"
    by (auto simp: plain_target_def)
  have root_c: "canonicalize t root = Inr root" using root by (rule canonicalize_dirs)
  have nolink: "symlink_metadata t ?p \<noteq> Inr (Link x)" for x
    using pl by (auto simp: symlink_metadata_plain stat_plain plain_file_def)
  then have links: "(case symlink_metadata t ?p of Inr (Link _) \<Rightarrow>
      follow_links t root symlink_follow_limit ?p | _ \<Rightarrow> Inr ()) = Inr ()"
    by (auto split: sum.splits node.splits)
  show ?thesis
  proof (cases "t ?p = None")
    case True
    let ?d = "butlast ?p"
    have d: "dir_path t ?d" using pl by (simp add: plain_file_def)
    have "\<not> path_exists t ?p" using True by (simp add: path_exists_def stat_plain [OF pl])
    moreover have "path_exists t ?d" using d by (simp add: canonical_exists canonical_def)
    ultimately have "deepest_existing t ?p = Some ?d"
      by (simp add: deepest_existing.simps [of t ?p] parent_plain [OF pl] deepest_existing.simps [of t ?d])
    with True sh rel root_c links canonicalize_dirs [OF d] show ?thesis
      by (simp add: resolve_checked_def Let_def canonicalize_plain [OF pl])
  next
    case False
    then have c: "canonical t ?p" using pl by (simp add: canonical_def)
    then have "deepest_existing t ?p = Some ?p"
      by (simp add: deepest_existing.simps [of t ?p] canonical_exists)
    with c sh rel root_c links show ?thesis
      by (simp add: resolve_checked_def Let_def canonicalize_id)
  qed
qed

lemma read_node_plain:
  "plain_file t p \<Longrightarrow> t p = Some (File b) \<Longrightarrow> length b \<le> max_file_bytes \<Longrightarrow> read_node t p = Inr b"
  by (auto simp: read_node_Inr canonicalize_plain node_at_def plain_file_def)

lemma read_bytes_plain:
  assumes "fw_env w = []" and "plain_target (fw_tree w) (fw_root w) rel"
    and "fw_tree w (join (fw_root w) rel) = Some (File b)" and "length b \<le> max_file_bytes"
  shows "read_bytes rel w = (Inr b, w)"
  using assms resolve_plain [OF assms(2)]
  by (auto simp: read_bytes_Inr next_event_def plain_target_def intro!: read_node_plain)

lemma write_atomic_plain:
  assumes "fw_env w = []" and "plain_target (fw_tree w) (fw_root w) rel" and "length c \<le> max_file_bytes"
  shows "write_atomic_locked rel c w = (Inr (), w\<lparr>fw_tree := (fw_tree w)(join (fw_root w) rel \<mapsto> File c)\<rparr>)"
proof -
  let ?p = "join (fw_root w) rel"
  have pl: "plain_file (fw_tree w) ?p" using assms(2) by (simp add: plain_target_def)
  then have "create_dir_all (fw_tree w) (butlast ?p) = Inr (fw_tree w)"
    by (simp add: plain_file_def create_dir_all_dirs)
  with assms resolve_plain [OF assms(2)] show ?thesis
    by (simp add: write_atomic_locked_def on_tree_def next_event_def content_limit_def ensure_def
        parent_plain [OF pl] with_parents_def rename_over_plain [OF pl] commit_step_def check_fault_def
        io_context_def)
qed

lemma plain_target_upd:
  "plain_target t root rel \<Longrightarrow> t q \<noteq> Some Dir \<Longrightarrow> plain_target (t(q \<mapsto> File b)) root rel"
  by (simp add: plain_target_def plain_file_upd dir_path_upd)

subsection \<open>What a write can change\<close>

lemma with_parents_failed:
  "with_parents t m parent k = (Inl e, t') \<Longrightarrow> (\<And>t1. k t1 = (Inl e, t') \<Longrightarrow> t' = t1) \<Longrightarrow> adds_dirs t t'"
  using create_dir_all_adds by (fastforce simp: with_parents_def split: option.splits sum.splits)

lemma commit_step_Inl: "commit_step t r = (Inl e, t') \<longleftrightarrow> r = Inl e \<and> t' = t"
  by (auto simp: commit_step_def split: sum.splits)

lemma commit_step_Inr: "commit_step t r = (Inr u, t') \<longleftrightarrow> r = Inr t'"
  by (auto simp: commit_step_def split: sum.splits)

lemma write_atomic_failed:
  assumes "write_atomic_locked rel c w = (Inl e, w')" and "next_event w = (f, w1)"
  shows "\<exists>t'. adds_dirs (fw_tree w1) t' \<and> w' = w1\<lparr>fw_tree := t'\<rparr>"
proof -
  from assms obtain t' where w': "w' = w1\<lparr>fw_tree := t'\<rparr>"
    and "(case bindR (content_limit c) (\<lambda>_. resolve_checked (fw_tree w1) (fw_root w1) rel) of
       Inl e \<Rightarrow> (Inl e, fw_tree w1)
     | Inr path \<Rightarrow> (case path_parent path of
         None \<Rightarrow> (Inl (Plain (Txt ''target has no parent directory'')), fw_tree w1)
       | Some parent \<Rightarrow>
           with_parents (fw_tree w1) (Fmt ''create parent directory of {}'' [Txt rel]) (Some parent) (\<lambda>t1.
             commit_step t1 (bindR (check_fault f) (\<lambda>_.
               io_context (Fmt ''commit {} (target left unchanged)'' [Txt rel])
                 (rename_over t1 path c)))))) = (Inl e, t')"
    by (auto simp: write_atomic_locked_def on_tree_def split: prod.splits)
  then have "adds_dirs (fw_tree w1) t'"
    by (auto split: sum.splits option.splits dest!: with_parents_failed simp: commit_step_Inl)
  with w' show ?thesis by blast
qed

lemma write_atomic_done:
  assumes "write_atomic_locked rel c w = (Inr (), w')"
  shows "\<exists>w1 t1 l. next_event w = (None, w1) \<and> adds_dirs (fw_tree w1) t1
    \<and> t1 l \<noteq> Some Dir \<and> w' = w1\<lparr>fw_tree := t1(l \<mapsto> File c)\<rparr> \<and> length c \<le> max_file_bytes"
proof -
  obtain f w1 where ev: "next_event w = (f, w1)" by fastforce
  with assms obtain path parent t1 t' where f: "f = None" "length c \<le> max_file_bytes"
    and "create_dir_all (fw_tree w1) parent = Inr t1" and r: "rename_over t1 path c = Inr t'"
    and w': "w' = w1\<lparr>fw_tree := t'\<rparr>"
    by (auto simp: write_atomic_locked_def on_tree_def bindR_Inr_iff with_parents_def commit_step_Inr
        content_limit_def split: prod.splits sum.splits option.splits)
  then have "adds_dirs (fw_tree w1) t1" using create_dir_all_adds by blast
  moreover from r obtain l where "l \<noteq> []" "t' = t1(l \<mapsto> File c)" "t1 l \<noteq> Some Dir"
    by (auto simp: rename_over_def entry_of_def node_at_def bindR_Inr_iff split: if_splits)
  ultimately show ?thesis using ev f w' by blast
qed

section \<open>What the environment does on its own\<close>

fun event_tree :: "tree \<Rightarrow> fs_event \<Rightarrow> tree" where
  "event_tree t (Tamper us) = apply_tamper us t"
| "event_tree t _ = t"

definition env_steps :: "'z files_world_scheme \<Rightarrow> 'z files_world_scheme \<Rightarrow> bool" where
  "env_steps w w' \<longleftrightarrow> fw_root w' = fw_root w
     \<and> (\<exists>es. fw_env w = es @ fw_env w' \<and> fw_tree w' = foldl event_tree (fw_tree w) es)"

lemma env_steps_refl [simp]: "env_steps w w"
  by (simp add: env_steps_def)

lemma env_steps_trans [trans]: "env_steps a b \<Longrightarrow> env_steps b c \<Longrightarrow> env_steps a c"
  unfolding env_steps_def by (metis append.assoc foldl_append)

lemma env_steps_event: "next_event w = (f, w') \<Longrightarrow> env_steps w w'"
  unfolding env_steps_def next_event_def
  by (cases "fw_env w") (auto split: fs_event.splits)

lemma env_steps_read: "read_bytes rel w = (r, w') \<Longrightarrow> env_steps w w'"
  "read_text rel w = (r, w') \<Longrightarrow> env_steps w w'"
  by (metis env_steps_event prod.collapse read_state snd_conv)+

lemma env_steps_quiet: "env_steps w w' \<Longrightarrow> fw_env w = [] \<Longrightarrow> fw_tree w' = fw_tree w \<and> fw_env w' = []"
  by (auto simp: env_steps_def)

section \<open>The contract of a calm store\<close>

text \<open>
  What the edit engine relies on when nothing interferes: a read returns what the key holds, and
  a write changes what that key holds and nothing else.
\<close>

locale calm_store =
  fixes fetch :: "'k \<Rightarrow> ('w, 'e, string) io"
    and put :: "'k \<Rightarrow> string \<Rightarrow> ('w, 'e, unit) io"
    and calm :: "'k \<Rightarrow> 'w \<Rightarrow> bool"
    and holds :: "'w \<Rightarrow> 'k \<Rightarrow> string option"
    and fits :: "string \<Rightarrow> bool"
    and apart :: "'w \<Rightarrow> 'k \<Rightarrow> 'k \<Rightarrow> bool"
  assumes read_calm: "calm k w \<Longrightarrow> holds w k = Some b \<Longrightarrow> fits b \<Longrightarrow> fetch k w = (Inr b, w)"
    and write_calm: "calm k w \<Longrightarrow> fits c \<Longrightarrow> \<exists>w'. put k c w = (Inr (), w') \<and> calm k w' \<and> holds w' k = Some c
      \<and> (\<forall>j. apart w k j \<longrightarrow> holds w' j = holds w j \<and> (calm j w \<longrightarrow> calm j w'))"
begin

lemma write_read: "calm k w \<Longrightarrow> fits c \<Longrightarrow> \<exists>w'. bindE (put k c) (\<lambda>_. fetch k) w = (Inr c, w')"
  using write_calm read_calm unfolding bindE_Inr_iff by blast

lemma write_twice: "calm k w \<Longrightarrow> fits a \<Longrightarrow> fits b \<Longrightarrow>
    \<exists>w'. bindE (put k a) (\<lambda>_. bindE (put k b) (\<lambda>_. fetch k)) w = (Inr b, w')"
  using write_calm [of k w a] write_read unfolding bindE_Inr_iff by metis

text \<open>Writing a key back to what it held restores the observation at that key.\<close>

lemma write_restore:
  assumes "calm k w" and "holds w k = Some old" and "fits new" and "fits old"
  shows "\<exists>w'. bindE (put k new) (\<lambda>_. put k old) w = (Inr (), w') \<and> holds w' k = holds w k"
  using write_calm [OF assms(1,3)] write_calm [of k _ old] assms(2,4) unfolding bindE_Inr_iff by metis

lemma write_keeps_others:
  assumes "calm k w" and "fits c" and "apart w k j" and "calm j w" and "holds w j = Some b" and "fits b"
  shows "\<exists>w'. bindE (put k c) (\<lambda>_. fetch j) w = (Inr b, w')"
  using write_calm [OF assms(1,2)] read_calm [of j _ b] assms(3-6) unfolding bindE_Inr_iff by metis

end

definition calm_file :: "string \<Rightarrow> 'z files_world_scheme \<Rightarrow> bool" where
  "calm_file rel w \<longleftrightarrow> fw_env w = [] \<and> plain_target (fw_tree w) (fw_root w) rel"

definition file_holds :: "'z files_world_scheme \<Rightarrow> string \<Rightarrow> string option" where
  "file_holds w rel = (case fw_tree w (join (fw_root w) rel) of Some (File b) \<Rightarrow> Some b | _ \<Rightarrow> None)"

definition file_fits :: "string \<Rightarrow> bool" where
  "file_fits b \<longleftrightarrow> length b \<le> max_file_bytes"

definition files_apart :: "'z files_world_scheme \<Rightarrow> string \<Rightarrow> string \<Rightarrow> bool" where
  "files_apart w a b \<longleftrightarrow> join (fw_root w) a \<noteq> join (fw_root w) b"

lemma calm_target_not_dir: "calm_file rel w \<Longrightarrow> fw_tree w (join (fw_root w) rel) \<noteq> Some Dir"
  by (auto simp: calm_file_def plain_target_def plain_file_def)

interpretation calm_files: calm_store read_bytes write_atomic_locked calm_file file_holds file_fits files_apart
proof (unfold_locales, goal_cases)
  case (1 k w b)
  then show ?case
    by (intro read_bytes_plain) (auto simp: calm_file_def file_holds_def file_fits_def split: option.splits node.splits)
next
  case (2 k w c)
  let ?w' = "w\<lparr>fw_tree := (fw_tree w)(join (fw_root w) k \<mapsto> File c)\<rparr>"
  have "write_atomic_locked k c w = (Inr (), ?w')"
    using 2 by (intro write_atomic_plain) (simp_all add: calm_file_def file_fits_def)
  moreover have "calm_file j ?w'" if "calm_file j w" for j
    using that calm_target_not_dir [OF 2(1)] by (simp add: calm_file_def plain_target_upd)
  ultimately show ?case using 2(1)
    by (intro exI [of _ ?w']) (auto simp: file_holds_def files_apart_def)
qed

lemma read_text_calm:
  "calm_file rel w \<Longrightarrow> file_holds w rel = Some b \<Longrightarrow> file_fits b \<Longrightarrow> valid_utf8 b \<Longrightarrow> read_text rel w = (Inr b, w)"
  by (simp add: read_text_Inr calm_files.read_calm)

text \<open>
  C8. Containment of reads: whatever links the workspace holds, a successful read returns the
  bytes of a regular file whose canonical location lies under the canonical root.
\<close>

theorem read_bytes_contained:
  assumes "read_bytes rel w = (Inr b, w')" and "slash_free (fw_root w)"
  shows "\<exists>rc l. canonicalize (fw_tree w') (fw_root w) = Inr rc \<and> node_at (fw_tree w') l = Some (File b)
    \<and> starts_with_path l rc \<and> length b \<le> max_file_bytes"
proof -
  from assms(1) obtain path where ev: "next_event w = (None, w')"
    and res: "resolve_checked (fw_tree w') (fw_root w') rel = Inr path"
    and rd: "read_node (fw_tree w') path = Inr b" by (auto simp: read_bytes_Inr)
  from rd obtain l where l: "canonicalize (fw_tree w') path = Inr l" "node_at (fw_tree w') l = Some (File b)"
    "length b \<le> max_file_bytes" by (auto simp: read_node_Inr)
  have root: "fw_root w' = fw_root w" using ev by simp
  from resolve_checked_inside [OF res _ l(1)] assms(2) root l show ?thesis by auto
qed

definition sample_tree :: tree where
  "sample_tree = [[''ws''] \<mapsto> Dir, [''ws'', ''a''] \<mapsto> File ''hello'', [''ws'', ''l''] \<mapsto> Link ''a'',
     [''etc''] \<mapsto> File ''secret'', [''ws'', ''out''] \<mapsto> Link ''/etc'']"

definition sample_files :: files_world where
  "sample_files = \<lparr>fw_root = [''ws''], fw_tree = sample_tree, fw_env = []\<rparr>"

theorem read_bytes_contained_witness:
  "(\<exists>rc l. canonicalize sample_tree [''ws''] = Inr rc \<and> node_at sample_tree l = Some (File ''hello'')
      \<and> starts_with_path l rc) \<and> (\<exists>e. fst (read_bytes ''out'' sample_files) = Inl e)"
proof -
  have r: "read_bytes ''l'' sample_files = (Inr ''hello'', sample_files)"
  proof -
    have "fst (read_bytes ''l'' sample_files) = Inr ''hello''" by code_simp
    moreover have "snd (read_bytes ''l'' sample_files) = sample_files"
      by (simp add: read_state next_event_def sample_files_def)
    ultimately show ?thesis by (metis prod.collapse)
  qed
  have "case fst (read_bytes ''out'' sample_files) of Inl e \<Rightarrow> True | Inr _ \<Rightarrow> False" by code_simp
  then have out: "\<exists>e. fst (read_bytes ''out'' sample_files) = Inl e" by (auto split: sum.splits)
  have "slash_free (fw_root sample_files)" by (simp add: sample_files_def)
  from read_bytes_contained [OF r this] out show ?thesis by (auto simp: sample_files_def)
qed

end
