(* ===== verification/Coordination.thy ===== *)
theory Coordination
  imports Files
begin

text \<open>
  \<open>core/fs_coordination.rs\<close>: resource keys and the acquisition of a set of advisory locks.

  The lock plane is the table of lock files (a key with the time the file was created), the
  in-process registry, the clock in milliseconds, and two scripts of the environment: what a
  poll of an in-process mutex finds, and what happens between two polls of a lock file (another
  actor creates or removes a file, time passes, the open call fails). Both loops run until their
  deadline; a round sleeps 25 ms, so they are total functions.
\<close>

datatype coordination_error =
  InvalidResource msg
| TimedOut string
| RegistrySaturated
| Infrastructure msg

fun coordination_error_msg :: "coordination_error \<Rightarrow> msg" where
  "coordination_error_msg (InvalidResource m) = Fmt ''invalid coordination resource: {}'' [m]"
| "coordination_error_msg (TimedOut r) =
     Fmt ''timed out acquiring coordination for {} (held by another actor)'' [Txt r]"
| "coordination_error_msg RegistrySaturated =
     Txt ''coordination registry is saturated (4096 live resources); refusing uncoordinated mutation''"
| "coordination_error_msg (Infrastructure m) = Fmt ''coordination lock infrastructure failed: {}'' [m]"

section \<open>Resource keys\<close>

definition normalize_relative :: "string \<Rightarrow> string" where
  "normalize_relative relative =
     (let comps = filter (\<lambda>c. c \<noteq> [] \<and> c \<noteq> ''.'')
        (split_char CHR ''/'' (map (\<lambda>c. if c = CHR 0x5C then CHR ''/'' else c) relative))
      in case comps of [] \<Rightarrow> [] | c # cs \<Rightarrow> c @ concat (map (\<lambda>d. CHR ''/'' # d) cs))"

definition resource_key :: "sha \<Rightarrow> tree \<Rightarrow> string list \<Rightarrow> string \<Rightarrow> coordination_error + string" where
  "resource_key sha t root relative =
     (if trim relative = [] then
        Inl (InvalidResource (Txt ''coordination requires a non-empty workspace-relative path''))
      else (case canonicalize t root of
        Inl _ \<Rightarrow> Inl (InvalidResource (Fmt ''workspace root {} cannot be canonicalized'' [show_path root]))
      | Inr canonical_root \<Rightarrow>
          (let normalized = normalize_relative relative in
           if normalized = [] then
             Inl (InvalidResource (Txt ''coordination requires a non-empty workspace-relative path''))
           else Inr (sha256_hex sha
             (concat (map (\<lambda>c. CHR ''/'' # c) canonical_root) @ CHR 0x00 # normalized)))))"

section \<open>The lock plane\<close>

datatype mutex_poll = MFree | MBusy | MPoisoned

datatype lock_event =
  LQuiet
| LTaken string
| LFreed string
| LAdvance nat
| LDenied
| LFailed string

record lock_plane =
  lp_files :: "string \<rightharpoonup> nat"
  lp_registry :: "string list"
  lp_now :: nat
  lp_mutex :: "mutex_poll list"
  lp_env :: "lock_event list"
  lp_dir_ok :: bool

definition max_registry_keys :: nat where "max_registry_keys = 4096"
definition max_locks_per_set :: nat where "max_locks_per_set = 256"
definition acquire_timeout :: nat where "acquire_timeout = 10000"
definition stale_lock_age :: nat where "stale_lock_age = 30000"
definition retry_interval :: nat where "retry_interval = 25"

definition registry_entry :: "string \<Rightarrow> (lock_plane, msg, unit) io" where
  "registry_entry key p =
     (if key \<in> set (lp_registry p) then (Inr (), p)
      else if length (lp_registry p) \<ge> max_registry_keys
        then (Inl (Fmt ''registry saturated at {} resources'' [Num max_registry_keys]), p)
      else (Inr (), p\<lparr>lp_registry := key # lp_registry p\<rparr>))"

text \<open>The poll of the in-process mutex; the guard it gives is dropped at once.\<close>

function poll_mutex :: "string \<Rightarrow> nat \<Rightarrow> (lock_plane, coordination_error, unit) io" where
  "poll_mutex key deadline p = (case lp_mutex p of
      [] \<Rightarrow> (Inr (), p)
    | MFree # ms \<Rightarrow> (Inr (), p\<lparr>lp_mutex := ms\<rparr>)
    | MPoisoned # ms \<Rightarrow>
        (Inl (Infrastructure (Txt ''in-process coordination mutex poisoned by a panicked sibling'')),
         p\<lparr>lp_mutex := ms\<rparr>)
    | MBusy # ms \<Rightarrow>
        if deadline \<le> lp_now p then (Inl (TimedOut key), p\<lparr>lp_mutex := ms\<rparr>)
        else poll_mutex key deadline (p\<lparr>lp_mutex := ms, lp_now := lp_now p + retry_interval\<rparr>))"
  by pat_completeness auto
termination by (relation "measure (\<lambda>(k, d, p). length (lp_mutex p))") auto

definition between_polls :: "lock_plane \<Rightarrow> lock_event \<times> lock_plane" where
  "between_polls p = (case lp_env p of
      [] \<Rightarrow> (LQuiet, p)
    | e # es \<Rightarrow> (let q = p\<lparr>lp_env := es\<rparr> in (e, case e of
        LTaken k \<Rightarrow> if lp_files q k = None then q\<lparr>lp_files := (lp_files q)(k \<mapsto> lp_now q)\<rparr> else q
      | LFreed k \<Rightarrow> q\<lparr>lp_files := (lp_files q)(k := None)\<rparr>
      | LAdvance d \<Rightarrow> q\<lparr>lp_now := lp_now q + d\<rparr>
      | _ \<Rightarrow> q)))"

definition reclaim_if_stale :: "string \<Rightarrow> (lock_plane, msg, unit) io" where
  "reclaim_if_stale key p = (case lp_files p key of
      None \<Rightarrow> (Inr (), p)
    | Some mtime \<Rightarrow>
        if lp_now p < mtime then (Inl (Txt ''lock file mtime is in the future''), p)
        else if lp_now p - mtime > stale_lock_age
          then (Inr (), p\<lparr>lp_files := (lp_files p)(key := None)\<rparr>)
        else (Inr (), p))"

lemma between_polls_now: "between_polls p = (e, q) \<Longrightarrow> lp_now p \<le> lp_now q"
  by (auto simp: between_polls_def Let_def split: list.splits lock_event.splits if_splits)

lemma reclaim_now: "reclaim_if_stale key p = (r, q) \<Longrightarrow> lp_now q = lp_now p"
  by (auto simp: reclaim_if_stale_def split: option.splits if_splits)

text \<open>One attempt to create the lock file, with the reclaim of a stale one.\<close>

datatype lock_attempt = Acquired | Contended | Unusable msg

definition try_lock_file :: "string \<Rightarrow> lock_plane \<Rightarrow> lock_attempt \<times> lock_plane" where
  "try_lock_file key p0 = (case between_polls p0 of (e, p) \<Rightarrow>
     (case e of
        LFailed m \<Rightarrow> (Unusable (Fmt ''cannot open coordination lock file: {}'' [Txt m]), p)
      | LDenied \<Rightarrow> (Contended, p)
      | _ \<Rightarrow>
          if lp_files p key = None
          then (Acquired, p\<lparr>lp_files := (lp_files p)(key \<mapsto> lp_now p)\<rparr>)
          else (case reclaim_if_stale key p of
              (Inl m, q) \<Rightarrow> (Unusable (Fmt ''coordination lock file unusable: {}'' [m]), q)
            | (Inr _, q) \<Rightarrow> (Contended, q))))"

lemma try_lock_file_now: "try_lock_file key p = (a, q) \<Longrightarrow> lp_now p \<le> lp_now q"
  by (auto simp: try_lock_file_def split: prod.splits lock_event.splits if_splits sum.splits
      dest!: between_polls_now reclaim_now)

function poll_lock_file :: "string \<Rightarrow> nat \<Rightarrow> (lock_plane, coordination_error, unit) io" where
  "poll_lock_file key deadline p0 = (case try_lock_file key p0 of
      (Acquired, p) \<Rightarrow> (Inr (), p)
    | (Unusable m, p) \<Rightarrow> (Inl (Infrastructure m), p)
    | (Contended, p) \<Rightarrow>
        if deadline \<le> lp_now p then (Inl (TimedOut key), p)
        else poll_lock_file key deadline (p\<lparr>lp_now := lp_now p + retry_interval\<rparr>))"
  by pat_completeness auto
termination
proof (relation "measure (\<lambda>(k, d, p). d - lp_now p)")
  fix key deadline p0 p a
  assume "(a, p) = try_lock_file key p0" and "\<not> deadline \<le> lp_now p"
  moreover from this have "lp_now p0 \<le> lp_now p" by (metis try_lock_file_now)
  ultimately show "((key, deadline, p\<lparr>lp_now := lp_now p + retry_interval\<rparr>), key, deadline, p0)
      \<in> measure (\<lambda>(k, d, p). d - lp_now p)" by (simp add: retry_interval_def)
qed simp

declare poll_mutex.simps [simp del] poll_lock_file.simps [simp del]

definition acquire_one :: "string \<Rightarrow> (lock_plane, coordination_error, unit) io" where
  "acquire_one key =
     bindE (map_err (\<lambda>m. Infrastructure (Fmt ''registry: {}'' [m])) (registry_entry key)) (\<lambda>_.
     bindE (gets lp_now) (\<lambda>t0.
     bindE (poll_mutex key (t0 + acquire_timeout)) (\<lambda>_.
     bindE (gets lp_now) (\<lambda>t1.
     poll_lock_file key (t1 + acquire_timeout)))))"

text \<open>Dropping a guard removes its lock file, whoever's file it is by then.\<close>

definition release_keys :: "string list \<Rightarrow> lock_plane \<Rightarrow> lock_plane" where
  "release_keys keys p = p\<lparr>lp_files := foldl (\<lambda>f k. f(k := None)) (lp_files p) (rev keys)\<rparr>"

fun acquire_keys :: "string list \<Rightarrow> string list \<Rightarrow> (lock_plane, coordination_error, string list) io" where
  "acquire_keys held [] p = (Inr held, p)"
| "acquire_keys held (k # ks) p = (case acquire_one k p of
      (Inl e, q) \<Rightarrow> (Inl e, release_keys held q)
    | (Inr _, q) \<Rightarrow> acquire_keys (held @ [k]) ks q)"

fun all_keys :: "sha \<Rightarrow> tree \<Rightarrow> string list \<Rightarrow> string list \<Rightarrow> coordination_error + string list" where
  "all_keys sha t root [] = Inr []"
| "all_keys sha t root (r # rs) =
     bindR (resource_key sha t root r) (\<lambda>k. bindR (all_keys sha t root rs) (\<lambda>ks. Inr (k # ks)))"

definition acquire :: "sha \<Rightarrow> tree \<Rightarrow> string list \<Rightarrow> string list
    \<Rightarrow> (lock_plane, coordination_error, string list) io" where
  "acquire sha t root relative_paths p =
     (if relative_paths = [] then (Inr [], p)
      else if length relative_paths > max_locks_per_set then
        (Inl (InvalidResource (Fmt ''coordinated mutation covers {} resources (max 256)''
           [Num (length relative_paths)])), p)
      else (case all_keys sha t root relative_paths of
        Inl e \<Rightarrow> (Inl e, p)
      | Inr keys \<Rightarrow>
          if \<not> lp_dir_ok p then
            (Inl (Infrastructure (Txt ''cannot create coordination lock directory'')), p)
          else acquire_keys [] (remdups_adj (sort keys)) p))"

section \<open>Lemmas\<close>

lemma poll_mutex_files: "poll_mutex key d p = (r, q) \<Longrightarrow> lp_files q = lp_files p \<and> lp_env q = lp_env p"
proof (induction key d p rule: poll_mutex.induct)
  case (1 key d p)
  then show ?case
    by (auto simp: poll_mutex.simps [of key d p] split: list.splits mutex_poll.splits if_splits)
qed

text \<open>A loop that timed out did so at its deadline, and it has slept at most one round past it.\<close>

lemma poll_lock_file_held: "poll_lock_file key d p = (Inr u, q) \<Longrightarrow> lp_files q key = Some (lp_now q)"
proof (induction key d p rule: poll_lock_file.induct)
  case (1 key d p)
  show ?case
  proof (cases "try_lock_file key p")
    case (Pair a p1)
    show ?thesis
    proof (cases a)
      case Acquired
      with Pair 1(2) have "q = p1" by (simp add: poll_lock_file.simps [of key d p])
      with Pair Acquired show ?thesis
        by (auto simp: try_lock_file_def split: prod.splits lock_event.splits if_splits sum.splits)
    next
      case Contended
      with Pair 1 show ?thesis by (auto simp: poll_lock_file.simps [of key d p] split: if_splits)
    next
      case (Unusable m)
      with Pair 1(2) show ?thesis by (simp add: poll_lock_file.simps [of key d p])
    qed
  qed
qed

lemma acquire_one_held: "acquire_one key p = (Inr u, q) \<Longrightarrow> lp_files q key = Some (lp_now q)"
  by (auto simp: acquire_one_def bindE_Inr_iff dest: poll_lock_file_held)

lemma acquire_keys_all: "acquire_keys held ks p = (Inr hs, q) \<Longrightarrow> hs = held @ ks"
  by (induction held ks p rule: acquire_keys.induct) (auto split: prod.splits sum.splits)

lemma release_keys_free: "k \<in> set keys \<Longrightarrow> lp_files (release_keys keys p) k = None"
proof -
  have "foldl (\<lambda>f k. f(k := None)) f ks k = (if k \<in> set ks then None else f k)" for f :: "string \<rightharpoonup> nat" and ks
    by (induction ks arbitrary: f) auto
  then show "k \<in> set keys \<Longrightarrow> ?thesis" by (simp add: release_keys_def)
qed

lemma distinct_remdups_adj_sorted: "sorted xs \<Longrightarrow> distinct (remdups_adj xs)" for xs :: "string list"
proof (induction xs rule: remdups_adj.induct)
  case (3 x y xs)
  show ?case
  proof (cases "x = y")
    case False
    with 3(3) have "\<forall>z \<in> set (y # xs). x < z" by auto
    then have "x \<notin> set (remdups_adj (y # xs))" using less_irrefl by (metis remdups_adj_set)
    with 3 False show ?thesis by simp
  qed (use 3 in simp)
qed simp_all

lemma acquire_result_keys:
  assumes "acquire sha t root rels p = (Inr hs, q)" and "rels \<noteq> []"
  shows "sorted hs \<and> distinct hs \<and> (\<exists>ks. all_keys sha t root rels = Inr ks \<and> set hs = set ks)"
proof -
  from assms obtain ks where "all_keys sha t root rels = Inr ks"
    and "acquire_keys [] (remdups_adj (sort ks)) p = (Inr hs, q)"
    by (auto simp: acquire_def split: if_splits sum.splits)
  with acquire_keys_all have "hs = remdups_adj (sort ks)" "all_keys sha t root rels = Inr ks" by force+
  then show ?thesis by (simp add: sorted_remdups_adj distinct_remdups_adj_sorted)
qed

lemma poll_mutex_now:
  "poll_mutex key d p = (r, q) \<Longrightarrow> lp_now p \<le> lp_now q \<and> lp_now q \<le> max (lp_now p) (d + retry_interval)"
proof (induction key d p rule: poll_mutex.induct)
  case (1 key d p)
  show ?case
  proof (cases "lp_mutex p")
    case Nil
    with 1(2) show ?thesis by (simp add: poll_mutex.simps [of key d p])
  next
    case (Cons m ms)
    show ?thesis
    proof (cases m)
      case MBusy
      with Cons 1 show ?thesis
        by (fastforce simp: poll_mutex.simps [of key d p] retry_interval_def split: if_splits)
    qed (use Cons 1(2) in \<open>auto simp: poll_mutex.simps [of key d p]\<close>)
  qed
qed

text \<open>A poll that times out does so at its deadline or later, never before.\<close>

lemma poll_lock_file_timeout: "poll_lock_file key d p = (Inl (TimedOut k), q) \<Longrightarrow> d \<le> lp_now q \<and> k = key"
proof (induction key d p rule: poll_lock_file.induct)
  case (1 key d p)
  show ?case
  proof (cases "try_lock_file key p")
    case (Pair a p1)
    with 1 show ?thesis
      by (cases a) (auto simp: poll_lock_file.simps [of key d p] split: if_splits)
  qed
qed

section \<open>Bounded waiting\<close>

definition slow_by :: "nat \<Rightarrow> lock_plane \<Rightarrow> bool" where
  "slow_by D p \<longleftrightarrow> list_all (\<lambda>e. case e of LAdvance d \<Rightarrow> d \<le> D | _ \<Rightarrow> True) (lp_env p)"

lemma between_polls_slow:
  "between_polls p = (e, q) \<Longrightarrow> slow_by D p \<Longrightarrow> lp_now q \<le> lp_now p + D \<and> slow_by D q"
  by (auto simp: between_polls_def slow_by_def Let_def split: list.splits lock_event.splits if_splits)

lemma try_lock_file_slow:
  assumes "try_lock_file key p = (a, q)" and "slow_by D p"
  shows "lp_now q \<le> lp_now p + D \<and> slow_by D q"
proof -
  obtain e p1 where b: "between_polls p = (e, p1)" by fastforce
  have "lp_now q = lp_now p1 \<and> lp_env q = lp_env p1"
    using assms(1) b by (auto simp: try_lock_file_def reclaim_if_stale_def
        split: lock_event.splits if_splits sum.splits option.splits)
  with between_polls_slow [OF b assms(2)] show ?thesis by (simp add: slow_by_def)
qed

lemma poll_lock_file_bounded:
  "poll_lock_file key d p = (r, q) \<Longrightarrow> slow_by D p \<Longrightarrow>
     lp_now q \<le> max (lp_now p) (d + retry_interval) + D \<and> slow_by D q"
proof (induction key d p rule: poll_lock_file.induct)
  case (1 key d p)
  obtain a p1 where t: "try_lock_file key p = (a, p1)" by fastforce
  note s = try_lock_file_slow [OF t 1(3)]
  show ?case
  proof (cases "a = Contended \<and> \<not> d \<le> lp_now p1")
    case True
    let ?p2 = "p1\<lparr>lp_now := lp_now p1 + retry_interval\<rparr>"
    have "poll_lock_file key d ?p2 = (r, q)"
      using 1(2) t True by (simp add: poll_lock_file.simps [of key d p])
    moreover have "slow_by D ?p2" using s by (simp add: slow_by_def)
    ultimately have "lp_now q \<le> max (lp_now ?p2) (d + retry_interval) + D \<and> slow_by D q"
      using 1(1) [OF t [symmetric]] True by blast
    with True show ?thesis by (auto simp: max_def)
  next
    case False
    with 1(2) t have "q = p1"
      by (cases a) (auto simp: poll_lock_file.simps [of key d p] split: if_splits)
    with s show ?thesis by (auto simp: max_def)
  qed
qed

definition round_wait :: nat where
  "round_wait = 2 * (acquire_timeout + retry_interval)"

lemma acquire_one_bounded:
  assumes "acquire_one key p = (r, q)" and "slow_by D p"
  shows "lp_now q \<le> lp_now p + round_wait + D \<and> slow_by D q"
proof -
  obtain r1 p1 where g: "registry_entry key p = (r1, p1)" by fastforce
  then have p1: "lp_now p1 = lp_now p" "lp_env p1 = lp_env p"
    by (auto simp: registry_entry_def split: if_splits)
  obtain r2 p2 where m: "poll_mutex key (lp_now p1 + acquire_timeout) p1 = (r2, p2)" by fastforce
  have p2: "lp_now p2 \<le> lp_now p + acquire_timeout + retry_interval" "slow_by D p2"
    using poll_mutex_now [OF m] poll_mutex_files [OF m] p1 assms(2) by (simp_all add: slow_by_def)
  show ?thesis
  proof (cases "isl r1 \<or> isl r2")
    case True
    with assms(1) g m have "q = p1 \<or> q = p2"
      by (cases r1; cases r2) (auto simp: acquire_one_def bindE_def map_err_def gets_def)
    with p1 p2 assms(2) show ?thesis by (auto simp: slow_by_def round_wait_def)
  next
    case False
    with assms(1) g m have "poll_lock_file key (lp_now p2 + acquire_timeout) p2 = (r, q)"
      by (cases r1; cases r2) (auto simp: acquire_one_def bindE_def map_err_def gets_def)
    from poll_lock_file_bounded [OF this p2(2)] p2(1) show ?thesis by (auto simp: round_wait_def)
  qed
qed

lemma acquire_keys_bounded:
  "acquire_keys held ks p = (r, q) \<Longrightarrow> slow_by D p \<Longrightarrow> lp_now q \<le> lp_now p + length ks * (round_wait + D)"
proof (induction held ks p rule: acquire_keys.induct)
  case (2 held k ks p)
  obtain r1 p1 where a: "acquire_one k p = (r1, p1)" by fastforce
  note b = acquire_one_bounded [OF a 2(3)]
  show ?case
  proof (cases r1)
    case (Inl e)
    with 2(2) a have "q = release_keys held p1" by simp
    with b show ?thesis by (simp add: release_keys_def)
  next
    case (Inr u)
    with 2 a b have "lp_now q \<le> lp_now p1 + length ks * (round_wait + D)" by auto
    with b show ?thesis by simp
  qed
qed simp

lemma all_keys_length: "all_keys sha t root rels = Inr ks \<Longrightarrow> length ks = length rels"
  by (induction sha t root rels arbitrary: ks rule: all_keys.induct) (auto simp: bindR_Inr_iff)

text \<open>
  C16. An acquisition never waits without bound: whatever other holders do, when the environment
  delays a poll by at most \<open>D\<close> milliseconds, the call has returned, with the locks or with an
  error, after at most 20 050 + \<open>D\<close> milliseconds for each of at most 256 resources.
\<close>

theorem acquire_bounded_wait:
  assumes "acquire sha t root rels p = (r, q)" and "slow_by D p"
  shows "lp_now q \<le> lp_now p + min max_locks_per_set (length rels) * (20050 + D)"
proof -
  have rw: "round_wait = 20050" by (simp add: round_wait_def acquire_timeout_def retry_interval_def)
  show ?thesis
  proof (cases "q = p")
    case False
    with assms(1) obtain ks where ks: "all_keys sha t root rels = Inr ks"
      and l: "length rels \<le> max_locks_per_set"
      and a: "acquire_keys [] (remdups_adj (sort ks)) p = (r, q)"
      by (auto simp: acquire_def split: if_splits sum.splits)
    have "length (remdups_adj (sort ks)) \<le> length rels"
      using remdups_adj_length [of "sort ks"] all_keys_length [OF ks] by simp
    then have "length (remdups_adj (sort ks)) * (20050 + D) \<le> length rels * (20050 + D)"
      by (rule mult_le_mono1)
    moreover have "lp_now q \<le> lp_now p + length (remdups_adj (sort ks)) * (20050 + D)"
      using acquire_keys_bounded [OF a assms(2)] by (simp only: rw)
    moreover have "min max_locks_per_set (length rels) = length rels" using l by simp
    ultimately show ?thesis by (metis add_le_cancel_left order_trans)
  qed simp
qed

section \<open>All the keys or none\<close>

definition keeps :: "string \<Rightarrow> lock_plane \<Rightarrow> bool" where
  "keeps k p \<longleftrightarrow> LFreed k \<notin> set (lp_env p)"

lemma between_polls_keeps:
  "between_polls p = (e, q) \<Longrightarrow> keeps k p \<Longrightarrow> lp_files p k \<noteq> None \<Longrightarrow>
     keeps k q \<and> lp_files q k = lp_files p k"
  by (auto simp: between_polls_def keeps_def Let_def split: list.splits lock_event.splits if_splits)

lemma try_lock_file_keeps:
  assumes "try_lock_file key p = (a, q)" and "keeps k p" and "k \<noteq> key \<and> lp_files p k \<noteq> None"
  shows "keeps k q \<and> lp_files q k = lp_files p k"
proof -
  obtain e p1 where b: "between_polls p = (e, p1)" by fastforce
  have "lp_files q k = lp_files p1 k \<and> lp_env q = lp_env p1"
    using assms(1,3) b by (auto simp: try_lock_file_def reclaim_if_stale_def
        split: lock_event.splits if_splits sum.splits option.splits)
  with between_polls_keeps [OF b] assms show ?thesis by (simp add: keeps_def)
qed

lemma poll_lock_file_keeps:
  "poll_lock_file key d p = (r, q) \<Longrightarrow> keeps k p \<Longrightarrow> k \<noteq> key \<and> lp_files p k \<noteq> None \<Longrightarrow>
     keeps k q \<and> lp_files q k = lp_files p k"
proof (induction key d p rule: poll_lock_file.induct)
  case (1 key d p)
  obtain a p1 where t: "try_lock_file key p = (a, p1)" by fastforce
  note s = try_lock_file_keeps [OF t 1(3,4)]
  show ?case
  proof (cases "a = Contended \<and> \<not> d \<le> lp_now p1")
    case True
    let ?p2 = "p1\<lparr>lp_now := lp_now p1 + retry_interval\<rparr>"
    have "poll_lock_file key d ?p2 = (r, q)"
      using 1(2) t True by (simp add: poll_lock_file.simps [of key d p])
    moreover have "keeps k ?p2" "k \<noteq> key \<and> lp_files ?p2 k \<noteq> None"
      using s 1(4) by (auto simp: keeps_def)
    ultimately have "keeps k q \<and> lp_files q k = lp_files ?p2 k"
      using 1(1) [OF t [symmetric]] True by blast
    with s show ?thesis by simp
  next
    case False
    with 1(2) t have "q = p1"
      by (cases a) (auto simp: poll_lock_file.simps [of key d p] split: if_splits)
    with s show ?thesis by simp
  qed
qed

lemma try_lock_file_env: "try_lock_file key p = (a, q) \<Longrightarrow> set (lp_env q) \<subseteq> set (lp_env p)"
  by (auto simp: try_lock_file_def between_polls_def reclaim_if_stale_def Let_def
      split: prod.splits list.splits lock_event.splits if_splits sum.splits option.splits)

lemma poll_lock_file_env: "poll_lock_file key d p = (r, q) \<Longrightarrow> set (lp_env q) \<subseteq> set (lp_env p)"
proof (induction key d p rule: poll_lock_file.induct)
  case (1 key d p)
  obtain a p1 where t: "try_lock_file key p = (a, p1)" by fastforce
  note s = try_lock_file_env [OF t]
  show ?case
  proof (cases "a = Contended \<and> \<not> d \<le> lp_now p1")
    case True
    then have "poll_lock_file key d (p1\<lparr>lp_now := lp_now p1 + retry_interval\<rparr>) = (r, q)"
      using 1(2) t by (simp add: poll_lock_file.simps [of key d p])
    with 1(1) [OF t [symmetric]] True s show ?thesis by fastforce
  next
    case False
    with 1(2) t have "q = p1"
      by (cases a) (auto simp: poll_lock_file.simps [of key d p] split: if_splits)
    with s show ?thesis by simp
  qed
qed

lemma acquire_one_stages:
  assumes "acquire_one key p = (Inr u, q)"
  obtains p1 d where "lp_files p1 = lp_files p" "lp_env p1 = lp_env p"
    "poll_lock_file key d p1 = (Inr u, q)"
proof -
  from assms obtain v p1 w p2 where g: "registry_entry key p = (Inr v, p1)"
    and m: "poll_mutex key (lp_now p1 + acquire_timeout) p1 = (Inr w, p2)"
    and l: "poll_lock_file key (lp_now p2 + acquire_timeout) p2 = (Inr u, q)"
    by (auto simp: acquire_one_def bindE_Inr_iff map_err_Inr_iff)
  from g have "lp_files p1 = lp_files p" "lp_env p1 = lp_env p"
    by (auto simp: registry_entry_def split: if_splits)
  with poll_mutex_files [OF m] that [OF _ _ l] show ?thesis by simp
qed

lemma acquire_one_keeps:
  assumes "acquire_one key p = (Inr u, q)" and "keeps k p"
  shows "keeps k q \<and> (k \<noteq> key \<and> lp_files p k \<noteq> None \<longrightarrow> lp_files q k = lp_files p k)"
proof -
  from acquire_one_stages [OF assms(1)] obtain p1 d where
    p1: "lp_files p1 = lp_files p" "lp_env p1 = lp_env p" and l: "poll_lock_file key d p1 = (Inr u, q)" .
  have "keeps k p1" using assms(2) p1 by (simp add: keeps_def)
  with poll_lock_file_env [OF l] poll_lock_file_keeps [OF l] p1 show ?thesis
    by (auto simp: keeps_def)
qed

lemma acquire_keys_backed:
  "acquire_keys held ks p = (Inr hs, q) \<Longrightarrow> distinct (held @ ks) \<Longrightarrow> k \<in> set hs \<Longrightarrow> keeps k p \<Longrightarrow>
     (k \<in> set held \<Longrightarrow> lp_files p k \<noteq> None) \<Longrightarrow> lp_files q k \<noteq> None"
proof (induction held ks p rule: acquire_keys.induct)
  case (2 held k' ks p)
  from 2(2) obtain u p1 where a: "acquire_one k' p = (Inr u, p1)"
    and r: "acquire_keys (held @ [k']) ks p1 = (Inr hs, q)"
    by (auto split: prod.splits sum.splits)
  note kp = acquire_one_keeps [OF a 2(5)]
  have "k \<in> set (held @ [k']) \<Longrightarrow> lp_files p1 k \<noteq> None"
    using kp acquire_one_held [OF a] 2(6) by (cases "k = k'") auto
  moreover have "distinct ((held @ [k']) @ ks)" using 2(3) by simp
  ultimately show ?case using 2(1) [OF a [symmetric] refl r _ 2(4)] kp by blast
qed simp

lemma acquire_keys_failed:
  "acquire_keys held ks p = (Inl e, q) \<Longrightarrow>
     \<exists>taken k rest p1 q1. ks = taken @ k # rest \<and> acquire_keys held taken p = (Inr (held @ taken), p1)
       \<and> acquire_one k p1 = (Inl e, q1) \<and> q = release_keys (held @ taken) q1"
proof (induction held ks p rule: acquire_keys.induct)
  case (2 held k ks p)
  obtain r1 p1 where a: "acquire_one k p = (r1, p1)" by fastforce
  show ?case
  proof (cases r1)
    case (Inl e')
    with 2(2) a have "acquire_one k p = (Inl e, p1)" "q = release_keys held p1" by simp_all
    then have "k # ks = [] @ k # ks \<and> acquire_keys held [] p = (Inr (held @ []), p)
       \<and> acquire_one k p = (Inl e, p1) \<and> q = release_keys (held @ []) p1" by simp
    then show ?thesis by blast
  next
    case (Inr u)
    with 2(2) a have "acquire_keys (held @ [k]) ks p1 = (Inl e, q)" by simp
    from 2(1) [OF a [symmetric] Inr this] obtain taken k' rest p2 q1 where
      "ks = taken @ k' # rest" "acquire_keys (held @ [k]) taken p1 = (Inr (held @ k # taken), p2)"
      "acquire_one k' p2 = (Inl e, q1)" "q = release_keys (held @ k # taken) q1" by auto
    then have "k # ks = (k # taken) @ k' # rest
       \<and> acquire_keys held (k # taken) p = (Inr (held @ k # taken), p2)
       \<and> acquire_one k' p2 = (Inl e, q1) \<and> q = release_keys (held @ k # taken) q1"
      using a Inr by simp
    then show ?thesis by blast
  qed
qed simp

text \<open>
  C15. An acquisition takes its keys in one global order, each once, and all of them or none: a
  success holds exactly the keys of the named resources, sorted and distinct, each backed by a
  lock file unless another actor removed it meanwhile; a failure at some key leaves no lock file
  of the keys before it, and none was taken after it.
\<close>

theorem acquire_all_or_none:
  assumes "acquire sha t root rels p = (res, q)" and "rels \<noteq> []"
  shows "case res of
      Inr hs \<Rightarrow> sorted hs \<and> distinct hs \<and> (\<exists>ks. all_keys sha t root rels = Inr ks \<and> set hs = set ks)
        \<and> {k \<in> set hs. keeps k p} \<subseteq> dom (lp_files q)
    | Inl e \<Rightarrow> q = p \<or> (\<exists>taken k p1 q1. acquire_keys [] taken p = (Inr taken, p1)
        \<and> acquire_one k p1 = (Inl e, q1) \<and> q = release_keys taken q1
        \<and> dom (lp_files q) \<inter> set taken = {})"
proof (cases res)
  case (Inr hs)
  with assms(1) have a: "acquire sha t root rels p = (Inr hs, q)" by simp
  note ks = acquire_result_keys [OF a assms(2)]
  from a assms(2) obtain ks' where k: "acquire_keys [] ks' p = (Inr hs, q)"
    by (auto simp: acquire_def split: if_splits sum.splits)
  then have "ks' = hs" using acquire_keys_all by force
  with acquire_keys_backed [OF k] ks have "{k \<in> set hs. keeps k p} \<subseteq> dom (lp_files q)"
    by auto
  with ks Inr show ?thesis by simp
next
  case (Inl e)
  show ?thesis
  proof (cases "q = p")
    case False
    with assms(1) Inl obtain ks where "acquire_keys [] ks p = (Inl e, q)"
      by (auto simp: acquire_def split: if_splits sum.splits)
    from acquire_keys_failed [OF this] obtain taken k p1 q1 where
      "acquire_keys [] taken p = (Inr taken, p1)" "acquire_one k p1 = (Inl e, q1)"
      "q = release_keys taken q1" by auto
    with release_keys_free Inl show ?thesis by (fastforce simp: disjoint_iff)
  qed (use Inl in simp)
qed

definition sample_plane :: lock_plane where
  "sample_plane = \<lparr>lp_files = Map.empty, lp_registry = [], lp_now = 0, lp_mutex = [], lp_env = [],
     lp_dir_ok = True\<rparr>"

definition sample_digest :: sha where
  "sample_digest b = (case rev b of [] \<Rightarrow> [] | c # _ \<Rightarrow> [byte c])"

theorem acquire_all_or_none_witness:
  "\<exists>hs q. acquire sample_digest (\<lambda>p. if p = [] \<or> p = [''ws''] then Some Dir else None) [''ws'']
       [''b'', ''./a'', ''b''] sample_plane = (Inr hs, q) \<and> length hs = 2 \<and> set hs \<subseteq> dom (lp_files q)"
proof -
  let ?t = "\<lambda>p. if p = [] \<or> p = [''ws''] then Some Dir else None"
  have "case acquire sample_digest ?t [''ws''] [''b'', ''./a'', ''b''] sample_plane of
     (Inr hs, q) \<Rightarrow> length hs = 2 | _ \<Rightarrow> False" by code_simp
  then obtain hs q where a: "acquire sample_digest ?t [''ws''] [''b'', ''./a'', ''b''] sample_plane = (Inr hs, q)"
    and l: "length hs = 2" by (auto split: prod.splits sum.splits)
  from acquire_all_or_none [OF a] have "{k \<in> set hs. keeps k sample_plane} \<subseteq> dom (lp_files q)" by simp
  then have "set hs \<subseteq> dom (lp_files q)" by (simp add: keeps_def sample_plane_def)
  with a l show ?thesis by blast
qed

theorem acquire_bounded_wait_witness:
  "\<exists>r q. acquire sample_digest (\<lambda>p. if p = [] \<or> p = [''ws''] then Some Dir else None) [''ws''] [''a'']
       (sample_plane\<lparr>lp_files := [''61'' \<mapsto> 0], lp_env := [LAdvance 9990]\<rparr>) = (r, q)
     \<and> isl r \<and> lp_now q \<le> 30040"
proof -
  let ?t = "\<lambda>p. if p = [] \<or> p = [''ws''] then Some Dir else None"
  let ?p = "sample_plane\<lparr>lp_files := [''61'' \<mapsto> 0], lp_env := [LAdvance 9990]\<rparr>"
  have "isl (fst (acquire sample_digest ?t [''ws''] [''a''] ?p))" by code_simp
  moreover obtain r q where a: "acquire sample_digest ?t [''ws''] [''a''] ?p = (r, q)" by fastforce
  moreover have "slow_by 9990 ?p" by (simp add: slow_by_def sample_plane_def)
  from acquire_bounded_wait [OF a this] have "lp_now q \<le> 30040"
    by (simp add: max_locks_per_set_def sample_plane_def)
  ultimately show ?thesis by auto
qed

end
