(* ===== verification/Snapshot.thy ===== *)
theory Snapshot
  imports LineMap
begin

text \<open>
  \<open>services/snapshot.rs\<close>: the durable store of pre-edit bytes and provenance.

  The store holds the manifests and the provenance records, each a directory of JSON files, and
  the content blobs by snapshot and entry. What the environment decides is part of the state:
  the fresh identifiers, the clock, the length of an encoded provenance record (the JSON library
  is not under src/), and a script of storage events, one per write, which can make a write or
  its read-back fail or leave other bytes in a blob.
\<close>

section \<open>Records\<close>

datatype snapshot_error =
  SnInvalidId msg
| SnNotFound msg
| SnCorruption msg
| SnLimitExceeded msg
| SnUnsupportedSchema nat nat
| SnMissingContent string
| SnStorage msg

datatype snapshot_file = ExistingFile string string | MissingFile string

fun snapshot_file_path :: "snapshot_file \<Rightarrow> string" where
  "snapshot_file_path (ExistingFile p b) = p"
| "snapshot_file_path (MissingFile p) = p"

record file_snapshot_entry =
  fe_entry_id :: string
  fe_path :: string
  fe_existed_before :: bool
  fe_hash_before :: string
  fe_size_before :: nat
  fe_line_count_before :: "nat option"
  fe_content_len :: nat
  fe_captured_at :: string

record file_snapshot =
  sp_id :: string
  sp_edit_id :: string
  sp_schema_version :: nat
  sp_entries :: "file_snapshot_entry list"
  sp_reason :: "string option"
  sp_created_at :: string

datatype provenance_outcome = PCommitted | PRolledBack "string option" | PFailed string

record provenance_record =
  pv_edit_id :: string
  pv_snapshot_id :: string
  pv_operations :: "string list"
  pv_paths :: "string list"
  pv_agent_id :: "string option"
  pv_session_id :: "string option"
  pv_workspace_id :: "string option"
  pv_hash_edges :: "(string \<times> string) list"
  pv_outcome :: provenance_outcome
  pv_created_at :: string

datatype storage_event = WriteOk | WriteFails string | ReadBackFails string | Torn string

record snapshot_store =
  sn_manifests :: "file_snapshot dir"
  sn_blobs :: "string \<times> string \<Rightarrow> string stored"
  sn_provenance :: "provenance_record dir"
  sn_fresh :: "nat \<Rightarrow> string"
  sn_seq :: nat
  sn_now :: string
  sn_json_len :: "provenance_record \<Rightarrow> nat"
  sn_dirs_ok :: bool
  sn_env :: "storage_event list"

type_synonym 'a snapshot_op = "(snapshot_store, snapshot_error, 'a) io"

definition snapshot_schema_version :: nat where "snapshot_schema_version = 1"
definition max_snapshot_content_bytes :: nat where "max_snapshot_content_bytes = 8 * 1024 * 1024"
definition max_snapshot_files :: nat where "max_snapshot_files = 256"
definition max_snapshot_id_len :: nat where "max_snapshot_id_len = 128"
definition max_provenance_bytes :: nat where "max_provenance_bytes = 512 * 1024"

section \<open>Identifiers\<close>

definition is_ascii_control :: "char \<Rightarrow> bool" where
  "is_ascii_control c \<longleftrightarrow> byte c < 32 \<or> byte c = 127"

definition snapshot_id_validate :: "string \<Rightarrow> snapshot_error + unit" where
  "snapshot_id_validate i =
     (if i = [] then Inl (SnInvalidId (Txt ''snapshot id is empty''))
      else if length i > max_snapshot_id_len then Inl (SnInvalidId (Txt ''snapshot id is too long''))
      else if contains i ''/'' \<or> contains i [CHR 0x5C] \<or> contains i ''..'' then
        Inl (SnInvalidId (Txt ''snapshot id must not contain path separators or traversal''))
      else if list_ex is_ascii_control i then
        Inl (SnInvalidId (Txt ''snapshot id must not contain control characters''))
      else Inr ())"

definition snapshot_entry_id :: "nat \<Rightarrow> string" where
  "snapshot_entry_id trace = ''entry-'' @ dec_pad 6 trace"

definition entry_id_validate :: "string \<Rightarrow> snapshot_error + unit" where
  "entry_id_validate i =
     (if i = [] \<or> length i > max_snapshot_id_len then Inl (SnInvalidId (Txt ''invalid entry id length''))
      else if contains i ''/'' \<or> contains i [CHR 0x5C] \<or> contains i ''..'' then
        Inl (SnInvalidId (Txt ''entry id must not contain path separators or traversal''))
      else if list_ex is_ascii_control i then
        Inl (SnInvalidId (Txt ''entry id must not contain control characters''))
      else Inr ())"

definition validate_id_component :: "string \<Rightarrow> snapshot_error + unit" where
  "validate_id_component i =
     (if i = [] \<or> contains i ''/'' \<or> contains i [CHR 0x5C] \<or> contains i ''..''
         \<or> length i > max_snapshot_id_len
      then Inl (SnInvalidId (Fmt ''invalid id: {}'' [Txt i])) else Inr ())"

section \<open>Creating a snapshot\<close>

definition next_storage_event :: "snapshot_store \<Rightarrow> storage_event \<times> snapshot_store" where
  "next_storage_event s = (case sn_env s of [] \<Rightarrow> (WriteOk, s) | e # es \<Rightarrow> (e, s\<lparr>sn_env := es\<rparr>))"

text \<open>\<open>ensure_dirs\<close> and the store lock: both are a storage failure when refused.\<close>

definition ensure_dirs :: "unit snapshot_op" where
  "ensure_dirs s = (if sn_dirs_ok s then (Inr (), s)
     else (Inl (SnStorage (Txt ''create snapshot state dir'')), s))"

definition store_lock :: "unit snapshot_op" where
  "store_lock s0 = (case next_storage_event s0 of
      (WriteFails m, s) \<Rightarrow> (Inl (SnStorage (Fmt ''snapshot lock: {}'' [Txt m])), s)
    | (_, s) \<Rightarrow> (Inr (), s))"

fun check_snapshot_paths :: "string list \<Rightarrow> snapshot_file list \<Rightarrow> snapshot_error + unit" where
  "check_snapshot_paths seen [] = Inr ()"
| "check_snapshot_paths seen (f # fs) =
     (let p = snapshot_file_path f in
      case validate_path p of
        Inl e \<Rightarrow> Inl (SnInvalidId (Fmt ''snapshot path {}: {}'' [Txt p, edit_error_msg e]))
      | Inr _ \<Rightarrow>
          if p \<in> set seen then
            Inl (SnInvalidId (Fmt ''duplicate snapshot path {}: a snapshot may reference a path once'' [Txt p]))
          else check_snapshot_paths (p # seen) fs)"

fun snapshot_file_bytes :: "snapshot_file \<Rightarrow> string" where
  "snapshot_file_bytes (ExistingFile p b) = b"
| "snapshot_file_bytes (MissingFile p) = []"

definition check_snapshot_sizes :: "snapshot_file list \<Rightarrow> snapshot_error + unit" where
  "check_snapshot_sizes files =
     (let total = sum_list (map (length \<circ> snapshot_file_bytes) files) in
      bindR (each (\<lambda>f. ensure (length (snapshot_file_bytes f) \<le> max_snapshot_content_bytes)
               (SnLimitExceeded (Fmt ''snapshot content for {} exceeds the {}-byte limit''
                  [Txt (snapshot_file_path f), Num max_snapshot_content_bytes]))) files) (\<lambda>_.
      ensure (total \<le> max_snapshot_content_bytes * max_snapshot_files)
        (SnLimitExceeded (Fmt ''snapshot total size {} exceeds cap'' [Num total]))))"

text \<open>The write of one blob, its read-back, and the check against length and hash.\<close>

definition write_verified_blob :: "sha \<Rightarrow> string \<times> string \<Rightarrow> string \<Rightarrow> unit snapshot_op" where
  "write_verified_blob sha k bytes s0 = (case next_storage_event s0 of
      (WriteFails m, s) \<Rightarrow> (Inl (SnStorage (Fmt ''write content blob: {}'' [Txt m])), s)
    | (ReadBackFails m, s) \<Rightarrow>
        (Inl (SnStorage (Fmt ''verify content blob: {}'' [Txt m])), s\<lparr>sn_blobs := (sn_blobs s)(k := Stored bytes)\<rparr>)
    | (e, s) \<Rightarrow>
        (let data = (case e of Torn d \<Rightarrow> d | _ \<Rightarrow> bytes);
             s1 = s\<lparr>sn_blobs := (sn_blobs s)(k := Stored data)\<rparr>
         in if length data \<noteq> length bytes \<or> sha256_hex sha data \<noteq> sha256_hex sha bytes
            then (Inl (SnStorage (Txt ''content blob failed read-back verification'')), s1)
            else (Inr (), s1)))"

definition existing_entry :: "sha \<Rightarrow> string \<Rightarrow> string \<Rightarrow> string \<Rightarrow> string \<Rightarrow> file_snapshot_entry" where
  "existing_entry sha now eid path bytes =
     \<lparr>fe_entry_id = eid, fe_path = path, fe_existed_before = True,
      fe_hash_before = sha256_hex sha bytes, fe_size_before = length bytes,
      fe_line_count_before = (if bytes = [] then Some 0
        else case from_utf8 bytes of Some t \<Rightarrow> Some (st_line_count (state_of sha path t)) | None \<Rightarrow> None),
      fe_content_len = length bytes, fe_captured_at = now\<rparr>"

definition missing_entry :: "string \<Rightarrow> string \<Rightarrow> string \<Rightarrow> file_snapshot_entry" where
  "missing_entry now eid path =
     \<lparr>fe_entry_id = eid, fe_path = path, fe_existed_before = False, fe_hash_before = [],
      fe_size_before = 0, fe_line_count_before = None, fe_content_len = 0, fe_captured_at = now\<rparr>"

fun write_entries :: "sha \<Rightarrow> string \<Rightarrow> nat \<Rightarrow> snapshot_file list \<Rightarrow> file_snapshot_entry list snapshot_op" where
  "write_entries sha sid idx [] s = (Inr [], s)"
| "write_entries sha sid idx (f # fs) s =
     (let eid = snapshot_entry_id idx in
      bindE (lift (entry_id_validate eid)) (\<lambda>_.
      bindE (case f of
               ExistingFile path bytes \<Rightarrow>
                 bindE (write_verified_blob sha (sid, eid) bytes) (\<lambda>_.
                 gets (\<lambda>s. existing_entry sha (sn_now s) eid path bytes))
             | MissingFile path \<Rightarrow> gets (\<lambda>s. missing_entry (sn_now s) eid path)) (\<lambda>e.
      bindE (write_entries sha sid (idx + 1) fs) (\<lambda>es. ret (e # es)))) s)"

definition commit_manifest :: "file_snapshot \<Rightarrow> unit snapshot_op" where
  "commit_manifest m s0 = (case next_storage_event s0 of
      (WriteFails e, s) \<Rightarrow> (Inl (SnStorage (Fmt ''commit manifest: {}'' [Txt e])), s)
    | (_, s) \<Rightarrow> (Inr (), s\<lparr>sn_manifests := dir_put (sp_id m) m (sn_manifests s)\<rparr>))"

definition fresh_snapshot_id :: "string snapshot_op" where
  "fresh_snapshot_id s = (Inr (sn_fresh s (sn_seq s)), s\<lparr>sn_seq := sn_seq s + 1\<rparr>)"

definition create_snapshot ::
    "sha \<Rightarrow> string \<Rightarrow> snapshot_file list \<Rightarrow> string option \<Rightarrow> file_snapshot snapshot_op" where
  "create_snapshot sha edit_id files reason =
     bindE (lift (validate_id_component edit_id)) (\<lambda>_.
     bindE (lift (ensure (length files \<le> max_snapshot_files)
       (SnLimitExceeded (Fmt ''snapshot covers {} files (max 256)'' [Num (length files)])))) (\<lambda>_.
     bindE (lift (check_snapshot_paths [] files)) (\<lambda>_.
     bindE (lift (check_snapshot_sizes files)) (\<lambda>_.
     bindE ensure_dirs (\<lambda>_.
     bindE fresh_snapshot_id (\<lambda>sid.
     bindE (lift (snapshot_id_validate sid)) (\<lambda>_.
     bindE store_lock (\<lambda>_.
     bindE (write_entries sha sid 0 (sort_key snapshot_file_path files)) (\<lambda>entries.
     bindE (gets sn_now) (\<lambda>now.
     let manifest = \<lparr>sp_id = sid, sp_edit_id = edit_id, sp_schema_version = snapshot_schema_version,
           sp_entries = entries, sp_reason = reason, sp_created_at = now\<rparr>
     in bindE (commit_manifest manifest) (\<lambda>_. ret manifest)))))))))))"

text \<open>\<open>SnapshotStore::create\<close>: every file existed.\<close>

definition snapshot_create ::
    "sha \<Rightarrow> string \<Rightarrow> (string \<times> string) list \<Rightarrow> string option \<Rightarrow> file_snapshot snapshot_op" where
  "snapshot_create sha edit_id files reason =
     create_snapshot sha edit_id (map (\<lambda>(p, b). ExistingFile p b) files) reason"

section \<open>Reading\<close>

definition check_entry :: "sha \<Rightarrow> snapshot_store \<Rightarrow> string \<Rightarrow> file_snapshot_entry \<Rightarrow> snapshot_error + unit" where
  "check_entry sha s sid e =
     bindR (entry_id_validate (fe_entry_id e)) (\<lambda>_.
       if \<not> fe_existed_before e then
         (if fe_hash_before e \<noteq> [] \<or> fe_content_len e \<noteq> 0 then
            Inl (SnCorruption (Fmt ''missing-file entry {} carries content metadata'' [Txt (fe_entry_id e)]))
          else Inr ())
       else (case sn_blobs s (sid, fe_entry_id e) of
           Absent \<Rightarrow> Inl (SnCorruption (Fmt ''missing content blob for entry {}'' [Txt (fe_entry_id e)]))
         | Corrupt \<Rightarrow> Inl (SnCorruption (Fmt ''unreadable blob {}'' [Txt (fe_entry_id e)]))
         | Stored data \<Rightarrow>
             if length data \<noteq> fe_content_len e then
               Inl (SnCorruption (Fmt ''blob length mismatch for {} ({} != {})''
                 [Txt (fe_entry_id e), Num (length data), Num (fe_content_len e)]))
             else if sha256_hex sha data \<noteq> fe_hash_before e then
               Inl (SnCorruption (Fmt ''integrity mismatch for {}'' [Txt (fe_entry_id e)]))
             else Inr ()))"

definition snapshot_load :: "sha \<Rightarrow> string \<Rightarrow> snapshot_store \<Rightarrow> snapshot_error + file_snapshot" where
  "snapshot_load sha sid s =
     bindR (snapshot_id_validate sid) (\<lambda>_.
     case dir_get (sn_manifests s) sid of
       Absent \<Rightarrow> Inl (SnNotFound (Txt sid))
     | Corrupt \<Rightarrow> Inl (SnCorruption (Fmt ''unreadable manifest {}'' [Txt sid]))
     | Stored m \<Rightarrow>
         if sp_schema_version m \<noteq> snapshot_schema_version
         then Inl (SnUnsupportedSchema snapshot_schema_version (sp_schema_version m))
         else if sp_id m \<noteq> sid
         then Inl (SnCorruption (Fmt ''manifest id mismatch: declared {} vs requested {}'' [Txt (sp_id m), Txt sid]))
         else bindR (each (check_entry sha s sid) (sp_entries m)) (\<lambda>_. Inr m))"

definition entry_bytes :: "sha \<Rightarrow> file_snapshot \<Rightarrow> string \<Rightarrow> snapshot_store \<Rightarrow> snapshot_error + string" where
  "entry_bytes sha m eid s =
     bindR (entry_id_validate eid) (\<lambda>_.
     case find (\<lambda>e. fe_entry_id e = eid) (sp_entries m) of
       None \<Rightarrow> Inl (SnNotFound (Fmt ''entry {} is not part of snapshot {}'' [Txt eid, Txt (sp_id m)]))
     | Some e \<Rightarrow>
         if \<not> fe_existed_before e then Inl (SnMissingContent eid)
         else (case sn_blobs s (sp_id m, eid) of
             Stored data \<Rightarrow>
               if length data \<noteq> fe_content_len e then Inl (SnCorruption (Txt ''entry size mismatch''))
               else if sha256_hex sha data \<noteq> fe_hash_before e
               then Inl (SnCorruption (Txt ''entry hash mismatch''))
               else Inr data
           | _ \<Rightarrow> Inl (SnCorruption (Fmt ''entry {} unreadable'' [Txt eid]))))"

section \<open>Provenance\<close>

definition record_provenance :: "provenance_record \<Rightarrow> unit snapshot_op" where
  "record_provenance r =
     bindE (lift (validate_id_component (pv_edit_id r))) (\<lambda>_.
     bindE ensure_dirs (\<lambda>_.
     bindE (map_err (\<lambda>e. SnStorage (Txt ''snapshot id in provenance''))
             (lift (snapshot_id_validate (pv_snapshot_id r)))) (\<lambda>_.
     bindE (gets (\<lambda>s. sn_json_len s r)) (\<lambda>len.
     bindE (lift (ensure (len \<le> max_provenance_bytes)
       (SnLimitExceeded (Fmt ''provenance record for {} exceeds {} bytes''
          [Txt (pv_edit_id r), Num max_provenance_bytes])))) (\<lambda>_.
     (\<lambda>s0. case next_storage_event s0 of
        (WriteFails m, s) \<Rightarrow> (Inl (SnStorage (Fmt ''commit provenance: {}'' [Txt m])), s)
      | (_, s) \<Rightarrow> (Inr (), s\<lparr>sn_provenance := dir_put (pv_edit_id r) r (sn_provenance s)\<rparr>)))))))"

definition read_provenance :: "string \<Rightarrow> snapshot_store \<Rightarrow> snapshot_error + provenance_record" where
  "read_provenance edit_id s =
     bindR (validate_id_component edit_id) (\<lambda>_.
     case dir_get (sn_provenance s) edit_id of
       Absent \<Rightarrow> Inl (SnNotFound (Fmt ''provenance missing for {}'' [Txt edit_id]))
     | Corrupt \<Rightarrow> Inl (SnCorruption (Fmt ''provenance read {}'' [Txt edit_id]))
     | Stored r \<Rightarrow> Inr r)"

fun collectR :: "('a \<Rightarrow> 'e + 'b) \<Rightarrow> 'a list \<Rightarrow> 'e + 'b list" where
  "collectR f [] = Inr []"
| "collectR f (x # xs) = bindR (f x) (\<lambda>y. bindR (collectR f xs) (\<lambda>ys. Inr (y # ys)))"

definition list_provenance :: "nat \<Rightarrow> provenance_record list snapshot_op" where
  "list_provenance limit s =
     (if limit = 0 then (Inr [], s)
      else bindE ensure_dirs (\<lambda>_. lift (
        let ids = map fst (sn_provenance s) in
        bindR (each validate_id_component ids) (\<lambda>_.
        collectR (\<lambda>i. read_provenance i s) (take limit (rev (sort ids)))))) s)"

definition snapshot_list :: "string list snapshot_op" where
  "snapshot_list s = bindE ensure_dirs (\<lambda>_. lift (
     let ids = map fst (sn_manifests s) in
     bindR (each snapshot_id_validate ids) (\<lambda>_. Inr (sort ids)))) s"

type_synonym recovery_view = "(string \<times> string option) list"

definition entry_view :: "sha \<Rightarrow> file_snapshot \<Rightarrow> snapshot_store \<Rightarrow> file_snapshot_entry
    \<Rightarrow> snapshot_error + string \<times> string option" where
  "entry_view sha m s e =
     (if fe_existed_before e
      then bindR (entry_bytes sha m (fe_entry_id e) s) (\<lambda>b. Inr (fe_path e, Some b))
      else Inr (fe_path e, None))"

definition recovery_view :: "sha \<Rightarrow> string \<Rightarrow> snapshot_store \<Rightarrow> snapshot_error + recovery_view" where
  "recovery_view sha edit_id s =
     bindR (validate_id_component edit_id) (\<lambda>_.
     bindR (read_provenance edit_id s) (\<lambda>prov.
     bindR (snapshot_load sha (pv_snapshot_id prov) s) (\<lambda>m.
       if sp_edit_id m \<noteq> edit_id then
         Inl (SnCorruption (Fmt ''snapshot {} belongs to edit {}, not {}''
           [Txt (sp_id m), Txt (sp_edit_id m), Txt edit_id]))
       else collectR (entry_view sha m s) (sp_entries m))))"

section \<open>Entry identifiers\<close>

lemma digits_value_zeros [simp]: "digits_value (replicate k (CHR ''0'') @ ds) = digits_value ds"
  by (induction k) (simp_all add: digits_value_def)

lemma snapshot_entry_id_inj [simp]: "snapshot_entry_id i = snapshot_entry_id j \<longleftrightarrow> i = j"
proof
  assume "snapshot_entry_id i = snapshot_entry_id j"
  then have "digits_value (dec_pad 6 i) = digits_value (dec_pad 6 j)" by (simp add: snapshot_entry_id_def)
  then show "i = j" by (simp add: dec_pad_def)
qed simp

section \<open>What a successful creation stores\<close>

fun file_view :: "snapshot_file \<Rightarrow> string \<times> string option" where
  "file_view (ExistingFile p b) = (p, Some b)"
| "file_view (MissingFile p) = (p, None)"

fun entry_for :: "sha \<Rightarrow> string \<Rightarrow> nat \<Rightarrow> snapshot_file \<Rightarrow> file_snapshot_entry" where
  "entry_for sha now i (ExistingFile p b) = existing_entry sha now (snapshot_entry_id i) p b"
| "entry_for sha now i (MissingFile p) = missing_entry now (snapshot_entry_id i) p"

lemma entry_for_id [simp]: "fe_entry_id (entry_for sha now i f) = snapshot_entry_id i"
  "fe_path (entry_for sha now i f) = snapshot_file_path f"
  by (cases f; simp add: existing_entry_def missing_entry_def)+

text \<open>No torn write of the script collides with the bytes it replaces.\<close>

definition collision_free :: "sha \<Rightarrow> storage_event list \<Rightarrow> snapshot_file list \<Rightarrow> bool" where
  "collision_free sha env files \<longleftrightarrow> (\<forall>d f. Torn d \<in> set env \<longrightarrow> f \<in> set files \<longrightarrow>
     sha256_hex sha d = sha256_hex sha (snapshot_file_bytes f) \<longrightarrow> d = snapshot_file_bytes f)"

lemma next_storage_event_frame:
  "next_storage_event s = (e, s') \<Longrightarrow> sn_manifests s' = sn_manifests s \<and> sn_blobs s' = sn_blobs s
     \<and> sn_now s' = sn_now s \<and> sn_provenance s' = sn_provenance s \<and> set (sn_env s') \<subseteq> set (sn_env s)
     \<and> (e = WriteOk \<or> e \<in> set (sn_env s)) \<and> sn_seq s' = sn_seq s \<and> sn_fresh s' = sn_fresh s"
  by (auto simp: next_storage_event_def split: list.splits)

lemma write_verified_blob_frame:
  "write_verified_blob sha k b s = (r, s') \<Longrightarrow> sn_manifests s' = sn_manifests s \<and> sn_now s' = sn_now s
     \<and> sn_provenance s' = sn_provenance s \<and> set (sn_env s') \<subseteq> set (sn_env s)
     \<and> (\<forall>j. j \<noteq> k \<longrightarrow> sn_blobs s' j = sn_blobs s j)"
  by (auto simp: write_verified_blob_def Let_def split: prod.splits storage_event.splits if_splits
      dest!: next_storage_event_frame)

lemma write_verified_blob_ok:
  assumes "write_verified_blob sha k b s = (Inr u, s')"
    and "\<And>d. Torn d \<in> set (sn_env s) \<Longrightarrow> sha256_hex sha d = sha256_hex sha b \<Longrightarrow> d = b"
  shows "sn_blobs s' k = Stored b"
  using assms
  by (auto simp: write_verified_blob_def Let_def split: prod.splits storage_event.splits if_splits
      dest!: next_storage_event_frame)

lemma collision_free_mono:
  "collision_free sha env fs \<Longrightarrow> set env' \<subseteq> set env \<Longrightarrow> set fs' \<subseteq> set fs \<Longrightarrow> collision_free sha env' fs'"
  unfolding collision_free_def by blast

definition blob_ok :: "snapshot_store \<Rightarrow> string \<Rightarrow> nat \<Rightarrow> snapshot_file \<Rightarrow> bool" where
  "blob_ok s sid i f = (case f of
      ExistingFile p b \<Rightarrow> sn_blobs s (sid, snapshot_entry_id i) = Stored b | MissingFile p \<Rightarrow> True)"

lemma write_entry_step:
  assumes "write_entries sha sid idx (f # fs) s = (Inr es, s')"
  obtains s1 es1 where "es = entry_for sha (sn_now s) idx f # es1"
    "write_entries sha sid (idx + 1) fs s1 = (Inr es1, s')"
    "sn_manifests s1 = sn_manifests s" "sn_now s1 = sn_now s" "sn_provenance s1 = sn_provenance s"
    "set (sn_env s1) \<subseteq> set (sn_env s)"
    "\<forall>j. j \<noteq> (sid, snapshot_entry_id idx) \<longrightarrow> sn_blobs s1 j = sn_blobs s j"
    "collision_free sha (sn_env s) [f] \<longrightarrow> blob_ok s1 sid idx f"
proof (cases f)
  case (ExistingFile p b)
  with assms obtain s1 es1 where
    w: "write_verified_blob sha (sid, snapshot_entry_id idx) b s = (Inr (), s1)"
    and r: "write_entries sha sid (idx + 1) fs s1 = (Inr es1, s')"
    and es: "es = existing_entry sha (sn_now s1) (snapshot_entry_id idx) p b # es1"
    by (auto simp: Let_def bindE_Inr_iff)
  note fr = write_verified_blob_frame [OF w]
  have "collision_free sha (sn_env s) [f] \<longrightarrow> blob_ok s1 sid idx f"
    using write_verified_blob_ok [OF w] ExistingFile by (auto simp: collision_free_def blob_ok_def)
  with that [of es1 s1] es r fr ExistingFile show thesis by simp
next
  case (MissingFile p)
  with assms obtain es1 where "write_entries sha sid (idx + 1) fs s = (Inr es1, s')"
    "es = missing_entry (sn_now s) (snapshot_entry_id idx) p # es1"
    by (auto simp: Let_def bindE_Inr_iff)
  with that [of es1 s] MissingFile show thesis by (simp add: blob_ok_def)
qed

lemma write_entries_ok:
  "write_entries sha sid idx fs s = (Inr es, s') \<Longrightarrow>
     es = map2 (entry_for sha (sn_now s)) [idx..<idx + length fs] fs
     \<and> sn_manifests s' = sn_manifests s \<and> sn_now s' = sn_now s \<and> sn_provenance s' = sn_provenance s
     \<and> (\<forall>k. fst k \<noteq> sid \<longrightarrow> sn_blobs s' k = sn_blobs s k)
     \<and> (\<forall>j < idx. sn_blobs s' (sid, snapshot_entry_id j) = sn_blobs s (sid, snapshot_entry_id j))
     \<and> (collision_free sha (sn_env s) fs \<longrightarrow> (\<forall>i < length fs. blob_ok s' sid (idx + i) (fs ! i)))"
proof (induction fs arbitrary: idx s es)
  case (Cons f fs)
  from Cons.prems obtain s1 es1 where es: "es = entry_for sha (sn_now s) idx f # es1"
    and r: "write_entries sha sid (idx + 1) fs s1 = (Inr es1, s')"
    and fr: "sn_manifests s1 = sn_manifests s" "sn_now s1 = sn_now s" "sn_provenance s1 = sn_provenance s"
      "set (sn_env s1) \<subseteq> set (sn_env s)"
    and bl: "\<forall>j. j \<noteq> (sid, snapshot_entry_id idx) \<longrightarrow> sn_blobs s1 j = sn_blobs s j"
    and ok: "collision_free sha (sn_env s) [f] \<longrightarrow> blob_ok s1 sid idx f"
    by (rule write_entry_step)
  note ih = Cons.IH [OF r]
  have up: "[idx..<idx + length (f # fs)] = idx # [idx + 1..<idx + 1 + length fs]"
    by (simp add: upt_conv_Cons del: upt_Suc)
  have blobs: "\<forall>i < length (f # fs). blob_ok s' sid (idx + i) ((f # fs) ! i)"
    if cf: "collision_free sha (sn_env s) (f # fs)"
  proof (intro allI impI)
    fix i assume i: "i < length (f # fs)"
    show "blob_ok s' sid (idx + i) ((f # fs) ! i)"
    proof (cases i)
      case 0
      have "collision_free sha (sn_env s) [f]" using cf by (rule collision_free_mono) auto
      with ok have "blob_ok s1 sid idx f" by blast
      with ih 0 show ?thesis by (auto simp: blob_ok_def split: snapshot_file.splits)
    next
      case (Suc k)
      have "collision_free sha (sn_env s1) fs" using cf fr(4) by (rule collision_free_mono) auto
      with ih i Suc have "blob_ok s' sid (idx + 1 + k) (fs ! k)" by auto
      with Suc show ?thesis by simp
    qed
  qed
  from es ih fr up have "es = map2 (entry_for sha (sn_now s)) [idx..<idx + length (f # fs)] (f # fs)"
    by (simp del: upt_Suc)
  moreover have "\<forall>k. fst k \<noteq> sid \<longrightarrow> sn_blobs s' k = sn_blobs s k" using ih bl by auto
  moreover have "\<forall>j < idx. sn_blobs s' (sid, snapshot_entry_id j) = sn_blobs s (sid, snapshot_entry_id j)"
    using ih bl by auto
  moreover have "sn_manifests s' = sn_manifests s" "sn_now s' = sn_now s" "sn_provenance s' = sn_provenance s"
    using ih fr by auto
  ultimately show ?case using blobs by (intro conjI impI) assumption+
qed simp

lemma create_snapshot_ok:
  assumes "create_snapshot sha eid files reason s = (Inr m, s')"
  shows "sp_edit_id m = eid \<and> sp_schema_version m = snapshot_schema_version
    \<and> sp_id m = sn_fresh s (sn_seq s) \<and> snapshot_id_validate (sp_id m) = Inr ()
    \<and> validate_id_component eid = Inr ()
    \<and> sp_entries m = map2 (entry_for sha (sn_now s)) [0..<length files] (sort_key snapshot_file_path files)
    \<and> sn_manifests s' = dir_put (sp_id m) m (sn_manifests s) \<and> sn_provenance s' = sn_provenance s
    \<and> (\<forall>k. fst k \<noteq> sp_id m \<longrightarrow> sn_blobs s' k = sn_blobs s k)
    \<and> (collision_free sha (sn_env s) files \<longrightarrow>
         (\<forall>i < length files. blob_ok s' (sp_id m) i (sort_key snapshot_file_path files ! i)))"
proof -
  let ?fs = "sort_key snapshot_file_path files" and ?sid = "sn_fresh s (sn_seq s)"
  from assms obtain s1 s2 s3 es where
    lock: "store_lock (s\<lparr>sn_seq := sn_seq s + 1\<rparr>) = (Inr (), s1)"
    and we: "write_entries sha ?sid 0 ?fs s1 = (Inr es, s2)"
    and m: "m = \<lparr>sp_id = ?sid, sp_edit_id = eid, sp_schema_version = snapshot_schema_version,
        sp_entries = es, sp_reason = reason, sp_created_at = sn_now s2\<rparr>"
    and cm: "commit_manifest m s2 = (Inr (), s')"
    and v: "snapshot_id_validate ?sid = Inr ()" "validate_id_component eid = Inr ()"
    by (auto simp: create_snapshot_def bindE_Inr_iff Let_def ensure_dirs_def fresh_snapshot_id_def
        split: if_splits)
  have s1: "sn_manifests s1 = sn_manifests s" "sn_now s1 = sn_now s" "sn_provenance s1 = sn_provenance s"
    "sn_blobs s1 = sn_blobs s" "set (sn_env s1) \<subseteq> set (sn_env s)"
    using lock by (auto simp: store_lock_def split: prod.splits storage_event.splits dest!: next_storage_event_frame)
  have s': "sn_manifests s' = dir_put (sp_id m) m (sn_manifests s2)" "sn_provenance s' = sn_provenance s2"
    "sn_blobs s' = sn_blobs s2"
    using cm by (auto simp: commit_manifest_def split: prod.splits storage_event.splits dest!: next_storage_event_frame)
  have "collision_free sha (sn_env s) files \<Longrightarrow> collision_free sha (sn_env s1) ?fs"
    by (erule collision_free_mono) (use s1(5) in auto)
  moreover have "blob_ok s' i k f = blob_ok s2 i k f" for i k f
    using s'(3) by (simp add: blob_ok_def split: snapshot_file.split)
  ultimately show ?thesis using write_entries_ok [OF we] s1 s' m v by simp
qed

lemma store_lock_frame:
  "store_lock s = (r, s') \<Longrightarrow> sn_manifests s' = sn_manifests s \<and> sn_provenance s' = sn_provenance s"
  by (auto simp: store_lock_def split: prod.splits storage_event.splits dest!: next_storage_event_frame)

lemma commit_manifest_Inl:
  "commit_manifest m s = (Inl e, s') \<Longrightarrow> sn_manifests s' = sn_manifests s \<and> sn_provenance s' = sn_provenance s"
  by (auto simp: commit_manifest_def split: prod.splits storage_event.splits dest!: next_storage_event_frame)

text \<open>A creation that fails publishes no manifest and touches no provenance record.\<close>

lemma write_entries_frame:
  "write_entries sha sid idx fs s = (r, s') \<Longrightarrow> sn_manifests s' = sn_manifests s \<and> sn_provenance s' = sn_provenance s"
proof (induction fs arbitrary: idx s r)
  case (Cons f fs)
  show ?case
  proof (cases f)
    case (ExistingFile p b)
    with Cons.prems show ?thesis
      by (auto simp: Let_def bindE_def split: prod.splits sum.splits
          dest!: write_verified_blob_frame Cons.IH)
  next
    case (MissingFile p)
    with Cons.prems show ?thesis
      by (auto simp: Let_def bindE_def split: prod.splits sum.splits dest!: Cons.IH)
  qed
qed simp

lemma create_snapshot_failed:
  assumes "create_snapshot sha eid files reason s = (Inl e, s')"
  shows "sn_manifests s' = sn_manifests s \<and> sn_provenance s' = sn_provenance s"
  using assms
  by (auto simp: create_snapshot_def bindE_Inl_iff Let_def ensure_dirs_def fresh_snapshot_id_def
      split: if_splits dest!: store_lock_frame commit_manifest_Inl write_entries_frame)

section \<open>Recovery\<close>

lemma collectR_map: "(\<And>x. x \<in> set xs \<Longrightarrow> f x = Inr (g x)) \<Longrightarrow> collectR f xs = Inr (map g xs)"
  by (induction xs) auto

lemma collectR_Inr: "collectR f xs = Inr ys \<Longrightarrow> list_all2 (\<lambda>x y. f x = Inr y) xs ys"
  by (induction xs arbitrary: ys) (auto simp: bindR_Inr_iff)

lemma find_distinct_nth:
  "distinct (map k xs) \<Longrightarrow> i < length xs \<Longrightarrow> find (\<lambda>x. k x = k (xs ! i)) xs = Some (xs ! i)"
proof (induction xs arbitrary: i)
  case (Cons x xs)
  show ?case
  proof (cases i)
    case (Suc j)
    with Cons.prems have "k (xs ! j) \<in> k ` set xs" by (simp add: nth_mem)
    with Cons.prems have "k x \<noteq> k (xs ! j)" by (metis distinct.simps(2) list.set_map list.simps(9))
    with Cons Suc show ?thesis by simp
  qed simp
qed simp

text \<open>An entry id of the store is short, and has no separator and no control character.\<close>

lemma entry_id_chars: "c \<in> set (snapshot_entry_id i) \<Longrightarrow> is_digit c \<or> c \<in> set ''entry-''"
proof -
  assume "c \<in> set (snapshot_entry_id i)"
  then consider "c \<in> set ''entry-''" | "c = CHR ''0''" | "c \<in> set (dec i)"
    unfolding snapshot_entry_id_def dec_pad_def set_append by (auto simp del: list.set)
  then show ?thesis
  proof cases
    case 2 then show ?thesis by (simp add: is_digit_def)
  next
    case 3 then show ?thesis using dec_digits [of i] by (simp add: list_all_iff)
  qed blast
qed

lemma entry_id_valid:
  assumes "i < 10 ^ 6" shows "entry_id_validate (snapshot_entry_id i) = Inr ()"
proof -
  let ?e = "snapshot_entry_id i"
  have "length (dec i) \<le> 6" using dec_length_bound [OF assms] by simp
  then have "length ?e = 12" by (simp add: snapshot_entry_id_def dec_pad_def)
  moreover have no: "c \<notin> set ?e" if "c \<in> {CHR ''/'', CHR 0x5C, CHR ''.''} \<or> is_ascii_control c" for c
    using that entry_id_chars [of c i] by (auto simp: is_digit_def is_ascii_control_def)
  then have "\<not> contains ?e ''/''" "\<not> contains ?e [CHR 0x5C]" "\<not> list_ex is_ascii_control ?e"
    by (auto simp: contains_char list_ex_iff)
  moreover have "\<not> contains ?e ''..''"
    using no [of "CHR ''.''"] unfolding contains_iff by (metis append_Cons in_set_conv_decomp insertCI)
  ultimately show ?thesis by (auto simp: entry_id_validate_def max_snapshot_id_len_def)
qed

lemma entry_checks:
  assumes "f = ExistingFile p b" and "blob_ok s sid i f" and "i < 10 ^ 6"
    and "sp_id m = sid" and "find (\<lambda>e. fe_entry_id e = snapshot_entry_id i) (sp_entries m) = Some (entry_for sha now i f)"
  shows "check_entry sha s sid (entry_for sha now i f) = Inr ()"
    and "entry_view sha m s (entry_for sha now i f) = Inr (file_view f)"
  using assms entry_id_valid [OF assms(3)]
  by (simp_all add: check_entry_def entry_view_def entry_bytes_def blob_ok_def existing_entry_def)

lemma entry_checks_missing:
  assumes "f = MissingFile p" and "i < 10 ^ 6"
  shows "check_entry sha s sid (entry_for sha now i f) = Inr ()"
    and "entry_view sha m s (entry_for sha now i f) = Inr (file_view f)"
  using assms entry_id_valid [OF assms(2)]
  by (simp_all add: check_entry_def entry_view_def missing_entry_def)

lemma create_snapshot_limit:
  "create_snapshot sha eid files reason s = (Inr m, s') \<Longrightarrow> length files \<le> max_snapshot_files"
  by (auto simp: create_snapshot_def bindE_Inr_iff)

text \<open>Every entry of a snapshot just made checks and gives back its file.\<close>

lemma created_entries:
  assumes "create_snapshot sha eid files reason s = (Inr m, s')"
    and "collision_free sha (sn_env s) files"
    and "\<And>i. sn_blobs s2 (sp_id m, i) = sn_blobs s' (sp_id m, i)"
  shows "each (check_entry sha s2 (sp_id m)) (sp_entries m) = Inr ()"
    and "collectR (entry_view sha m s2) (sp_entries m) = Inr (map file_view (sort_key snapshot_file_path files))"
proof -
  let ?fs = "sort_key snapshot_file_path files"
  note ok = create_snapshot_ok [OF assms(1)]
  let ?es = "map2 (entry_for sha (sn_now s)) [0..<length files] ?fs"
  have es: "sp_entries m = ?es" using ok by blast
  have dist: "distinct (map fe_entry_id ?es)"
    by (auto simp: distinct_conv_nth)
  have at: "check_entry sha s2 (sp_id m) (?es ! i) = Inr () \<and> entry_view sha m s2 (?es ! i) = Inr (file_view (?fs ! i))"
    if i: "i < length files" for i
  proof -
    have e: "?es ! i = entry_for sha (sn_now s) i (?fs ! i)" using i by simp
    have lim: "i < 10 ^ 6"
      using i create_snapshot_limit [OF assms(1)] by (simp add: max_snapshot_files_def)
    have b: "blob_ok s2 (sp_id m) i (?fs ! i)"
      using ok assms(2,3) i by (auto simp: blob_ok_def split: snapshot_file.splits)
    have f: "find (\<lambda>e. fe_entry_id e = snapshot_entry_id i) (sp_entries m) = Some (entry_for sha (sn_now s) i (?fs ! i))"
      using find_distinct_nth [OF dist, of i] i e es by simp
    show ?thesis unfolding e
      using entry_checks [OF _ b lim refl f] entry_checks_missing [OF _ lim]
      by (cases "?fs ! i") blast+
  qed
  show "each (check_entry sha s2 (sp_id m)) (sp_entries m) = Inr ()"
    unfolding each_Inr_iff es
  proof
    fix x assume "x \<in> set ?es"
    then obtain i where "i < length ?es" "x = ?es ! i" by (metis in_set_conv_nth)
    with at show "check_entry sha s2 (sp_id m) x = Inr ()" by simp
  qed
  have "list_all2 (\<lambda>x y. entry_view sha m s2 x = Inr y) ?es (map file_view ?fs)"
    using at by (simp add: list_all2_conv_all_nth)
  then have "collectR (entry_view sha m s2) ?es = Inr (map file_view ?fs)"
    by (induction rule: list_all2_induct) auto
  then show "collectR (entry_view sha m s2) (sp_entries m) = Inr (map file_view ?fs)" using es by simp
qed

lemma record_provenance_ok:
  assumes "record_provenance r s = (Inr (), s')"
  shows "sn_provenance s' = dir_put (pv_edit_id r) r (sn_provenance s) \<and> sn_blobs s' = sn_blobs s
    \<and> sn_manifests s' = sn_manifests s"
  using assms by (auto simp: record_provenance_def bindE_Inr_iff map_err_Inr_iff ensure_dirs_def
      split: if_splits prod.splits storage_event.splits dest!: next_storage_event_frame)

lemma recovery_view_created:
  assumes "create_snapshot sha eid files reason s = (Inr m, s1)"
    and "collision_free sha (sn_env s) files"
    and "record_provenance r s1 = (Inr (), s2)"
    and "pv_edit_id r = eid" and "pv_snapshot_id r = sp_id m"
  shows "recovery_view sha eid s2 = Inr (map file_view (sort_key snapshot_file_path files))"
proof -
  note ok = create_snapshot_ok [OF assms(1)] and pr = record_provenance_ok [OF assms(3)]
  have "read_provenance eid s2 = Inr r" using pr ok assms(4) by (simp add: read_provenance_def)
  moreover have "snapshot_load sha (sp_id m) s2 = Inr m"
  proof -
    have "dir_get (sn_manifests s2) (sp_id m) = Stored m" using pr ok by simp
    moreover have "snapshot_id_validate (sp_id m) = Inr ()" "sp_schema_version m = snapshot_schema_version"
      using ok by blast+
    moreover have "each (check_entry sha s2 (sp_id m)) (sp_entries m) = Inr ()"
      using created_entries(1) [OF assms(1,2), of s2] pr by simp
    ultimately show ?thesis by (simp only: snapshot_load_def bindR_simps stored.case) simp
  qed
  moreover have "collectR (entry_view sha m s2) (sp_entries m) = Inr (map file_view (sort_key snapshot_file_path files))"
    using pr created_entries(2) [OF assms(1,2), of s2] by simp
  ultimately show ?thesis using ok assms(5) by (simp add: recovery_view_def)
qed

text \<open>
  C6. Recovery round trip: after a snapshot of the files of an edit was created and its
  provenance recorded, the recovery view of that edit is, in path order, every file with its
  exact bytes, and \<open>None\<close> for a file that did not exist. No storage event of the script is
  excluded: a torn write is caught by the read-back unless its bytes collide under SHA-256.
\<close>

theorem recovery_roundtrip:
  assumes "create_snapshot sha eid files reason s = (Inr m, s1)"
    and "collision_free sha (sn_env s) files"
    and "record_provenance r s1 = (Inr (), s2)"
    and "pv_edit_id r = eid" and "pv_snapshot_id r = sp_id m"
  shows "recovery_view sha eid s2 = Inr (map file_view (sort_key snapshot_file_path files))"
  using assms by (rule recovery_view_created)

definition sample_store :: snapshot_store where
  "sample_store = \<lparr>sn_manifests = [], sn_blobs = (\<lambda>_. Absent), sn_provenance = [],
     sn_fresh = (\<lambda>n. ''snap-'' @ dec n), sn_seq = 1, sn_now = ''now'', sn_json_len = (\<lambda>_. 0),
     sn_dirs_ok = True, sn_env = []\<rparr>"

definition sample_sha :: sha where
  "sample_sha b = (if b = [] then replicate 32 0 else byte (hd b) # replicate 31 0)"

definition sample_provenance :: provenance_record where
  "sample_provenance = \<lparr>pv_edit_id = ''e1'', pv_snapshot_id = ''snap-1'', pv_operations = [''Replace''],
     pv_paths = [''a''], pv_agent_id = None, pv_session_id = None, pv_workspace_id = None,
     pv_hash_edges = [(''a'', ''h'')], pv_outcome = PCommitted, pv_created_at = ''now''\<rparr>"

theorem recovery_roundtrip_witness:
  "\<exists>m s1 s2. create_snapshot sample_sha ''e1'' [ExistingFile ''b'' ''x'', MissingFile ''a''] None sample_store
       = (Inr m, s1) \<and> record_provenance sample_provenance s1 = (Inr (), s2)
     \<and> recovery_view sample_sha ''e1'' s2 = Inr [(''a'', None), (''b'', Some ''x'')]"
proof -
  let ?fs = "[ExistingFile ''b'' ''x'', MissingFile ''a'']"
  have "case create_snapshot sample_sha ''e1'' ?fs None sample_store of
      (Inl _, _) \<Rightarrow> False
    | (Inr m, s1) \<Rightarrow> sp_id m = ''snap-1'' \<and>
        (case record_provenance sample_provenance s1 of (Inl _, _) \<Rightarrow> False | _ \<Rightarrow> True)"
    by code_simp
  then obtain m s1 s2 where c: "create_snapshot sample_sha ''e1'' ?fs None sample_store = (Inr m, s1)"
    and m: "sp_id m = ''snap-1''" and p: "record_provenance sample_provenance s1 = (Inr (), s2)"
    by (auto split: prod.splits sum.splits)
  have v: "recovery_view sample_sha ''e1'' s2 = Inr (map file_view (sort_key snapshot_file_path ?fs))"
    by (rule recovery_roundtrip [OF c _ p])
      (simp_all add: m sample_provenance_def collision_free_def sample_store_def)
  have "map file_view (sort_key snapshot_file_path ?fs) = [(''a'', None), (''b'', Some ''x'')]" by code_simp
  with c p v show ?thesis by auto
qed

lemma write_entries_other:
  "write_entries sha sid idx fs s = (r, s') \<Longrightarrow> fst k \<noteq> sid \<Longrightarrow> sn_blobs s' k = sn_blobs s k"
proof (induction fs arbitrary: idx s r s')
  case (Cons f fs)
  from Cons.prems(2) have k: "k \<noteq> (sid, i)" for i by auto
  have blob: "write_verified_blob sha (sid, i) b s = (r1, s1) \<Longrightarrow> sn_blobs s1 k = sn_blobs s k" for i b r1 s1
    using k write_verified_blob_frame by blast
  have rest: "write_entries sha sid i fs s1 = (r1, s2) \<Longrightarrow> sn_blobs s2 k = sn_blobs s1 k" for i r1 s1 s2
    using Cons.IH Cons.prems(2) by blast
  show ?case
  proof (cases f)
    case (ExistingFile p b)
    with Cons.prems(1) show ?thesis
      by (auto simp: Let_def bindE_def split: prod.splits sum.splits dest!: blob rest)
  next
    case (MissingFile p)
    with Cons.prems(1) show ?thesis
      by (auto simp: Let_def bindE_def split: prod.splits sum.splits dest!: rest)
  qed
qed simp

lemma create_snapshot_other:
  assumes "create_snapshot sha eid files reason s = (r, s')" and "sid \<noteq> sn_fresh s (sn_seq s)"
  shows "dir_get (sn_manifests s') sid = dir_get (sn_manifests s) sid
    \<and> sn_provenance s' = sn_provenance s \<and> (\<forall>i. sn_blobs s' (sid, i) = sn_blobs s (sid, i))"
proof (cases r)
  case (Inr m)
  with assms show ?thesis using create_snapshot_ok [of sha eid files reason s m s'] by auto
next
  case (Inl e)
  have lk: "store_lock q = (x, q') \<Longrightarrow> sn_blobs q' = sn_blobs q" for q q' x
    by (auto simp: store_lock_def split: prod.splits storage_event.splits dest!: next_storage_event_frame)
  have cm: "commit_manifest n q = (Inl x, q') \<Longrightarrow> sn_blobs q' = sn_blobs q" for n q q' x
    by (auto simp: commit_manifest_def split: prod.splits storage_event.splits dest!: next_storage_event_frame)
  have we: "write_entries sha (sn_fresh s (sn_seq s)) j fs q = (x, q') \<Longrightarrow> sn_blobs q' (sid, i) = sn_blobs q (sid, i)"
    for j fs q x q' i using write_entries_other assms(2) by fastforce
  have "\<forall>i. sn_blobs s' (sid, i) = sn_blobs s (sid, i)"
    using assms(1) unfolding Inl
    by (auto simp: create_snapshot_def bindE_Inl_iff Let_def ensure_dirs_def fresh_snapshot_id_def
        split: if_splits dest!: lk cm we)
  with create_snapshot_failed [OF assms(1) [unfolded Inl]] show ?thesis by simp
qed

lemma check_entry_cong:
  "(\<And>i. sn_blobs s' (sid, i) = sn_blobs s (sid, i)) \<Longrightarrow> check_entry sha s' sid = check_entry sha s sid"
  by (intro ext) (simp add: check_entry_def)

lemma entry_view_cong:
  "(\<And>i. sn_blobs s' (sp_id m, i) = sn_blobs s (sp_id m, i)) \<Longrightarrow> entry_view sha m s' = entry_view sha m s"
proof -
  assume a: "\<And>i. sn_blobs s' (sp_id m, i) = sn_blobs s (sp_id m, i)"
  show ?thesis unfolding entry_view_def entry_bytes_def a ..
qed

lemma snapshot_load_id: "snapshot_load sha sid s = Inr m \<Longrightarrow> sp_id m = sid"
  by (auto simp: snapshot_load_def bindR_Inr_iff split: stored.splits if_splits)

text \<open>
  Snapshots never clobber each other: creating another snapshot under a fresh identifier
  leaves the recovery view of every earlier edit unchanged, whether the creation succeeds or fails.
\<close>

theorem recovery_view_stable:
  assumes "create_snapshot sha eid2 files reason s = (r, s')"
    and "read_provenance eid s = Inr prov" and "pv_snapshot_id prov \<noteq> sn_fresh s (sn_seq s)"
  shows "recovery_view sha eid s' = recovery_view sha eid s"
proof -
  let ?sid = "pv_snapshot_id prov"
  note fr = create_snapshot_other [OF assms(1,3)]
  then have blobs: "\<And>i. sn_blobs s' (?sid, i) = sn_blobs s (?sid, i)" by blast
  have prov: "read_provenance eid s' = Inr prov" using assms(2) fr by (simp add: read_provenance_def)
  have load: "snapshot_load sha ?sid s' = snapshot_load sha ?sid s"
  proof -
    have d: "dir_get (sn_manifests s') ?sid = dir_get (sn_manifests s) ?sid" using fr by blast
    show ?thesis unfolding snapshot_load_def d check_entry_cong [OF blobs] ..
  qed
  have "entry_view sha m s' = entry_view sha m s" if "snapshot_load sha ?sid s = Inr m" for m
    by (rule entry_view_cong) (simp add: blobs snapshot_load_id [OF that])
  then show ?thesis unfolding recovery_view_def prov assms(2) load bindR_simps
    by (cases "snapshot_load sha ?sid s") auto
qed

theorem recovery_view_stable_witness:
  "\<exists>m s1 s2 r s3. create_snapshot sample_sha ''e1'' [ExistingFile ''a'' ''x''] None sample_store = (Inr m, s1)
     \<and> record_provenance sample_provenance s1 = (Inr (), s2)
     \<and> create_snapshot sample_sha ''e2'' [ExistingFile ''a'' ''y''] None s2 = (r, s3)
     \<and> recovery_view sample_sha ''e1'' s3 = Inr [(''a'', Some ''x'')]"
proof -
  have "case create_snapshot sample_sha ''e1'' [ExistingFile ''a'' ''x''] None sample_store of
      (Inl _, _) \<Rightarrow> False
    | (Inr m, s1) \<Rightarrow> (case record_provenance sample_provenance s1 of (Inl _, _) \<Rightarrow> False
       | (Inr _, s2) \<Rightarrow> recovery_view sample_sha ''e1'' s2 = Inr [(''a'', Some ''x'')]
           \<and> read_provenance ''e1'' s2 = Inr sample_provenance \<and> sn_fresh s2 (sn_seq s2) = ''snap-2'')"
    by code_simp
  then obtain m s1 s2 where c: "create_snapshot sample_sha ''e1'' [ExistingFile ''a'' ''x''] None sample_store = (Inr m, s1)"
    and p: "record_provenance sample_provenance s1 = (Inr (), s2)"
    and v: "recovery_view sample_sha ''e1'' s2 = Inr [(''a'', Some ''x'')]"
    and rp: "read_provenance ''e1'' s2 = Inr sample_provenance" and fr: "sn_fresh s2 (sn_seq s2) = ''snap-2''"
    by (auto split: prod.splits sum.splits)
  obtain r s3 where c2: "create_snapshot sample_sha ''e2'' [ExistingFile ''a'' ''y''] None s2 = (r, s3)"
    by fastforce
  have "pv_snapshot_id sample_provenance \<noteq> sn_fresh s2 (sn_seq s2)"
    unfolding fr by (simp add: sample_provenance_def)
  with recovery_view_stable [OF c2 rp] v have "recovery_view sample_sha ''e1'' s3 = Inr [(''a'', Some ''x'')]"
    by simp
  with c p c2 show ?thesis by blast
qed

end
