(* ===== verification/EditService.thy ===== *)
theory EditService
  imports EditOps Coordination Snapshot
begin

text \<open>
  The single-operation executors of \<open>services/edit.rs\<close>: authorization, preflight, preparation,
  durable capture of the pre-edit bytes, coordinated commit with the stale-state guard and the
  verified re-read, semantic verification, provenance, and the audit outcome.

  The state joins the file tree, the lock plane, the snapshot store, the audit log and what the
  authorizer reads. SHA-256 and the RFC 3339 parser are parameters.
\<close>

section \<open>State\<close>

record edit_world = files_world +
  ew_locks :: lock_plane
  ew_snap :: snapshot_store
  ew_log :: "audit_event list"
  ew_authz :: authz_env

type_synonym 'a edit_op = "(edit_world, edit_error, 'a) io"

definition on_snap :: "'a snapshot_op \<Rightarrow> (edit_world, snapshot_error, 'a) io" where
  "on_snap m w = (case m (ew_snap w) of (r, s) \<Rightarrow> (r, w\<lparr>ew_snap := s\<rparr>))"

definition log_outcome :: "string \<Rightarrow> string \<Rightarrow> string \<Rightarrow> msg \<Rightarrow> audit_correlation \<Rightarrow> edit_world \<Rightarrow> edit_world" where
  "log_outcome k a s d c w = w\<lparr>ew_log := record_outcome k a s d c (ew_log w)\<rparr>"

section \<open>Coordination\<close>

fun coordination_reason :: "coordination_error \<Rightarrow> string" where
  "coordination_reason (TimedOut _) = ''coordination_acquire_timeout''"
| "coordination_reason RegistrySaturated = ''coordination_registry_saturated''"
| "coordination_reason (InvalidResource _) = ''coordination_invalid_resource''"
| "coordination_reason (Infrastructure _) = ''coordination_infrastructure_failure''"

definition edit_coordination_error :: "coordination_error \<Rightarrow> edit_world \<Rightarrow> edit_error \<times> edit_world" where
  "edit_coordination_error e w =
     (WriteFailure [] (Fmt ''filesystem coordination unavailable: {}'' [coordination_error_msg e]),
      log_outcome ''failure'' ''filesystem.coordination'' ''edit''
        (Fmt ''mutation refused: {}'' [coordination_error_msg e])
        (no_correlation\<lparr>ac_reason := Some (coordination_reason e)\<rparr>) w)"

definition coordinate :: "sha \<Rightarrow> string list \<Rightarrow> string list edit_op" where
  "coordinate sha paths w = (case acquire sha (fw_tree w) (fw_root w) paths (ew_locks w) of
      (Inr ks, p) \<Rightarrow> (Inr ks, w\<lparr>ew_locks := p\<rparr>)
    | (Inl e, p) \<Rightarrow> (case edit_coordination_error e (w\<lparr>ew_locks := p\<rparr>) of (e', w') \<Rightarrow> (Inl e', w')))"

text \<open>The held set lives for the span of \<open>body\<close> and is released on every exit.\<close>

definition holding :: "string list \<Rightarrow> 'a edit_op \<Rightarrow> 'a edit_op" where
  "holding ks body w = (case body w of (r, w') \<Rightarrow> (r, w'\<lparr>ew_locks := release_keys ks (ew_locks w')\<rparr>))"

section \<open>Reading and the stale-state guard\<close>

definition read_error :: "string \<Rightarrow> anyhow \<Rightarrow> edit_error" where
  "read_error path e = (if is_not_found e then FileNotFound path else ReadFailure path (anyhow_msg e))"

definition check_expected :: "string \<Rightarrow> file_state \<Rightarrow> expected_state option \<Rightarrow> edit_error + unit" where
  "check_expected path before expected = (case expected of
      None \<Rightarrow> Inr ()
    | Some e \<Rightarrow> (case check_state before e of
        Matched \<Rightarrow> Inr ()
      | Conflicted c \<Rightarrow> Inl (ExpectedStateConflict path c (summary_of e) before)
      | Malformed _ _ \<Rightarrow> Inl (InvalidHash (case ex_hash e of None \<Rightarrow> [] | Some h \<Rightarrow> h))
      | ContextPending \<Rightarrow> Inr ()))"

definition preflight_read :: "sha \<Rightarrow> string \<Rightarrow> expected_state option \<Rightarrow> preflight edit_op" where
  "preflight_read sha path expected =
     bindE (lift (validate_path path)) (\<lambda>_.
     bindE (map_err (read_error path) (read_bytes path)) (\<lambda>bytes.
     case from_utf8 bytes of
       None \<Rightarrow> fail (InvalidUtf8 path)
     | Some content \<Rightarrow>
         let before = state_of sha path content in
         bindE (lift (check_expected path before expected)) (\<lambda>_.
         ret \<lparr>pf_content = content, pf_before = before\<rparr>)))"

definition full_summary :: "file_state \<Rightarrow> expected_summary" where
  "full_summary s = \<lparr>es_hash = Some (st_hash s), es_size = Some (st_size s),
     es_line_count = Some (st_line_count s)\<rparr>"

definition absent_state :: "string \<Rightarrow> file_state" where
  "absent_state path = \<lparr>st_path = path, st_hash = [], st_size = 0, st_line_count = 0\<rparr>"

definition observed_state :: "sha \<Rightarrow> string \<Rightarrow> string \<Rightarrow> file_state" where
  "observed_state sha path bytes = \<lparr>st_path = path, st_hash = sha256_hex sha bytes,
     st_size = length bytes,
     st_line_count = (case from_utf8 bytes of None \<Rightarrow> 0
       | Some t \<Rightarrow> if t = [] then 0 else length (str_lines t))\<rparr>"

definition verify_live_unchanged :: "sha \<Rightarrow> string \<Rightarrow> file_state \<Rightarrow> unit edit_op" where
  "verify_live_unchanged sha path before =
     bindE (map_err (\<lambda>e. if is_not_found e
              then ExpectedStateConflict path CHash (full_summary before) (absent_state path)
              else ReadFailure path (anyhow_msg e)) (read_bytes path)) (\<lambda>bytes.
     lift (if sha256_hex sha bytes \<noteq> st_hash before \<or> length bytes \<noteq> st_size before
           then Inl (ExpectedStateConflict path CHash (full_summary before) (observed_state sha path bytes))
           else Inr ()))"

section \<open>Commit\<close>

definition commit_verified_locked :: "sha \<Rightarrow> string \<Rightarrow> string \<Rightarrow> file_state \<Rightarrow> file_state edit_op" where
  "commit_verified_locked sha path prepared before =
     bindE (verify_live_unchanged sha path before) (\<lambda>_.
     let predicted = state_of sha path prepared in
     bindE (map_err (\<lambda>e. WriteFailure path (anyhow_msg e)) (write_atomic_locked path prepared)) (\<lambda>_.
     bindE (map_err (\<lambda>e. if is_not_found e then VerificationFailed path predicted (absent_state path)
              else ReadFailure path (anyhow_msg e)) (read_text path)) (\<lambda>observed.
     let after = state_of sha path observed in
     if after \<noteq> predicted then fail (VerificationFailed path predicted after) else ret after)))"

definition commit_verified :: "sha \<Rightarrow> string \<Rightarrow> string \<Rightarrow> file_state \<Rightarrow> file_state edit_op" where
  "commit_verified sha path prepared before =
     bindE (coordinate sha [path]) (\<lambda>held. holding held (commit_verified_locked sha path prepared before))"

section \<open>Semantic verification\<close>

definition read_back :: "string \<Rightarrow> string edit_op" where
  "read_back path = map_err (\<lambda>e. ReadFailure path (anyhow_msg e)) (read_text path)"

definition verify_replace_semantics ::
    "sha \<Rightarrow> string \<Rightarrow> string \<Rightarrow> string \<Rightarrow> nat option \<Rightarrow> unit edit_op" where
  "verify_replace_semantics sha path old new occurrence =
     bindE (read_back path) (\<lambda>observed.
     let old_matches = find_matches observed old; new_matches = find_matches observed new in
     if occurrence = None \<and> old_matches \<noteq> [] \<and> new_matches = [] then
       fail (SemanticVerificationFailure path
         (Fmt ''Old text {} still present ({} times), new text {} not found''
            [Txt old, Num (length old_matches), Txt new]) None ''Replace''
         (Fmt ''Exactly one occurrence of {} replaced with {}'' [Txt old, Txt new])
         (state_of sha path observed))
     else if new_matches = [] then
       fail (SemanticVerificationFailure path
         (Fmt ''New text {} not found after replacement'' [Txt new]) None ''Replace''
         (Fmt ''New text {} present after replacement'' [Txt new]) (state_of sha path observed))
     else ret ())"

definition verify_insert_semantics :: "sha \<Rightarrow> string \<Rightarrow> nat \<Rightarrow> string \<Rightarrow> unit edit_op" where
  "verify_insert_semantics sha path boundary content =
     bindE (read_back path) (\<lambda>observed.
     if \<not> contains observed content then
       fail (SemanticVerificationFailure path
         (Fmt ''Inserted content {} not found after insertion'' [Txt content]) None ''Insert''
         (Fmt ''Content {} inserted at boundary {}'' [Txt content, Num boundary])
         (state_of sha path observed))
     else ret ())"

definition verify_delete_range_semantics ::
    "sha \<Rightarrow> string \<Rightarrow> nat \<Rightarrow> nat \<Rightarrow> file_state \<Rightarrow> unit edit_op" where
  "verify_delete_range_semantics sha path start_line end_line after =
     bindE (read_back path) (\<lambda>observed.
     let n = lm_len (parse_lines observed) in
     if n \<noteq> st_line_count after then
       fail (SemanticVerificationFailure path
         (Fmt ''Expected {} lines after deletion, found {}'' [Num (st_line_count after), Num n])
         None ''DeleteRange''
         (Fmt ''Lines {}..={} deleted, resulting in {} lines''
            [Num start_line, Num end_line, Num (st_line_count after)])
         (state_of sha path observed))
     else ret ())"

section \<open>Durable recovery\<close>

fun snapshot_error_to_edit_error :: "string \<Rightarrow> snapshot_error \<Rightarrow> edit_error" where
  "snapshot_error_to_edit_error i (SnInvalidId d) =
     PatchValidationFailure i None (Fmt ''recovery material rejected: {}'' [d])"
| "snapshot_error_to_edit_error i (SnNotFound d) =
     PatchPreparationFailure i None (Fmt ''recovery material missing: {}'' [d])"
| "snapshot_error_to_edit_error i (SnCorruption d) =
     PatchPreparationFailure i None (Fmt ''recovery material corrupt: {}'' [d])"
| "snapshot_error_to_edit_error i (SnLimitExceeded d) =
     PatchValidationFailure i None (Fmt ''recovery material exceeds limits: {}'' [d])"
| "snapshot_error_to_edit_error i (SnUnsupportedSchema ex got) =
     PatchPreparationFailure i None
       (Fmt ''recovery material schema {} unsupported (expected {})'' [Num got, Num ex])"
| "snapshot_error_to_edit_error i (SnMissingContent d) =
     PatchPreparationFailure i None (Fmt ''recovery material incomplete: {}'' [Txt d])"
| "snapshot_error_to_edit_error i (SnStorage d) = WriteFailure ''recovery snapshot'' d"

definition capture_durable_recovery :: "sha \<Rightarrow> string \<Rightarrow> (string \<times> string) list \<Rightarrow> file_snapshot edit_op" where
  "capture_durable_recovery sha edit_id existing =
     map_err (snapshot_error_to_edit_error edit_id) (on_snap (snapshot_create sha edit_id existing None))"

definition make_provenance ::
    "string \<Rightarrow> file_snapshot \<Rightarrow> (string \<times> string) list \<Rightarrow> string list \<Rightarrow> string list
       \<Rightarrow> principal option \<Rightarrow> string \<Rightarrow> provenance_record" where
  "make_provenance edit_id manifest after_hashes operations paths identity now =
     \<lparr>pv_edit_id = edit_id, pv_snapshot_id = sp_id manifest, pv_operations = operations,
      pv_paths = paths, pv_agent_id = Option.bind identity pl_agent_id,
      pv_session_id = Option.bind identity pl_session_id,
      pv_workspace_id = map_option pl_workspace_id identity, pv_hash_edges = after_hashes,
      pv_outcome = PCommitted, pv_created_at = now\<rparr>"

definition record_edit_provenance ::
    "string \<Rightarrow> file_snapshot \<Rightarrow> (string \<times> string) list \<Rightarrow> string list \<Rightarrow> string list
       \<Rightarrow> principal option \<Rightarrow> unit edit_op" where
  "record_edit_provenance edit_id manifest after_hashes operations paths identity =
     bindE (gets (sn_now \<circ> ew_snap)) (\<lambda>now.
     map_err (snapshot_error_to_edit_error edit_id) (on_snap (record_provenance
       (make_provenance edit_id manifest after_hashes operations paths identity now))))"

section \<open>The executors\<close>

record edit_result =
  er_id :: string
  er_path :: string
  er_status :: edit_status
  er_before :: file_state
  er_after :: file_state
  er_match_count :: nat
  er_selected_occurrence :: nat
  er_location :: match_location

datatype line_edit_kind = InsertKind nat | DeleteRangeKind nat nat

record line_edit_result =
  le_id :: string
  le_path :: string
  le_status :: edit_status
  le_before :: file_state
  le_after :: file_state
  le_kind :: line_edit_kind

text \<open>\<open>transaction.expected.first()\<close>\<close>

definition first_expected :: "edit_transaction \<Rightarrow> expected_state option" where
  "first_expected t = (case tx_expected t of [] \<Rightarrow> None | e # _ \<Rightarrow> Some e)"

text \<open>What the three executors do once the new content is prepared.\<close>

definition commit_prepared ::
    "sha \<Rightarrow> string \<Rightarrow> string \<Rightarrow> preflight \<Rightarrow> string \<Rightarrow> (file_state \<Rightarrow> unit edit_op) \<Rightarrow> string
       \<Rightarrow> principal option \<Rightarrow> file_state edit_op" where
  "commit_prepared sha edit_id path cur prepared verify label identity =
     bindE (capture_durable_recovery sha edit_id [(path, pf_content cur)]) (\<lambda>snapshot.
     bindE (commit_verified sha path prepared (pf_before cur)) (\<lambda>after.
     bindE (verify after) (\<lambda>_.
     bindE (attempt (record_edit_provenance edit_id snapshot [(path, st_hash after)] [label] [path] identity))
       (\<lambda>_. ret after))))"

definition replace_internal :: "sha \<Rightarrow> principal option \<Rightarrow> edit_transaction \<Rightarrow> edit_result edit_op" where
  "replace_internal sha identity t =
     bindE (lift (validate_shape t)) (\<lambda>_.
     case tx_operations t of
       [Replace path old new occurrence] \<Rightarrow>
         bindE (preflight_read sha path (first_expected t)) (\<lambda>cur.
         bindE (lift (prepare_replace cur (first_expected t) path old new occurrence)) (\<lambda>r.
         bindE (commit_prepared sha (tx_id t) path cur (rp_prepared r)
                  (\<lambda>_. verify_replace_semantics sha path old new occurrence) ''Replace'' identity) (\<lambda>after.
         ret \<lparr>er_id = tx_id t, er_path = path, er_status = Committed, er_before = pf_before cur,
              er_after = after, er_match_count = rp_match_count r,
              er_selected_occurrence = rp_index r + 1, er_location = rp_location r\<rparr>)))
     | ops \<Rightarrow> fail (UnsupportedTransaction (length ops)))"

definition insert_internal :: "sha \<Rightarrow> principal option \<Rightarrow> edit_transaction \<Rightarrow> line_edit_result edit_op" where
  "insert_internal sha identity t =
     bindE (lift (validate_shape t)) (\<lambda>_.
     case tx_operations t of
       [Insert path line content] \<Rightarrow>
         bindE (preflight_read sha path (first_expected t)) (\<lambda>cur.
         bindE (lift (prepare_insert cur (first_expected t) path line content)) (\<lambda>prepared.
         bindE (commit_prepared sha (tx_id t) path cur prepared
                  (\<lambda>_. verify_insert_semantics sha path line content) ''Insert'' identity) (\<lambda>after.
         ret \<lparr>le_id = tx_id t, le_path = path, le_status = Committed, le_before = pf_before cur,
              le_after = after, le_kind = InsertKind line\<rparr>)))
     | ops \<Rightarrow> fail (UnsupportedTransaction (length ops)))"

definition delete_range_internal :: "sha \<Rightarrow> principal option \<Rightarrow> edit_transaction \<Rightarrow> line_edit_result edit_op" where
  "delete_range_internal sha identity t =
     bindE (lift (validate_shape t)) (\<lambda>_.
     case tx_operations t of
       [DeleteRange path start_line end_line] \<Rightarrow>
         bindE (preflight_read sha path (first_expected t)) (\<lambda>cur.
         bindE (lift (prepare_delete cur (first_expected t) path start_line end_line)) (\<lambda>prepared.
         bindE (commit_prepared sha (tx_id t) path cur prepared
                  (verify_delete_range_semantics sha path start_line end_line) ''DeleteRange'' identity) (\<lambda>after.
         ret \<lparr>le_id = tx_id t, le_path = path, le_status = Committed, le_before = pf_before cur,
              le_after = after, le_kind = DeleteRangeKind start_line end_line\<rparr>)))
     | ops \<Rightarrow> fail (UnsupportedTransaction (length ops)))"

section \<open>The audited and the authorized entry points\<close>

fun edit_outcome :: "edit_error \<Rightarrow> string \<times> string" where
  "edit_outcome (ExpectedStateConflict _ _ _ _) = (''conflict'', ''expected_state_conflict'')"
| "edit_outcome (ContextConflict _ _) = (''conflict'', ''context_conflict'')"
| "edit_outcome (HunkContextMismatch _ _) = (''conflict'', ''hunk_context_mismatch'')"
| "edit_outcome (MatchNotFound _) = (''failure'', ''match_not_found'')"
| "edit_outcome (AmbiguousMatch _ _ _) = (''failure'', ''ambiguous_match'')"
| "edit_outcome (OccurrenceOutOfRange _ _ _) = (''failure'', ''occurrence_out_of_range'')"
| "edit_outcome (InsertBoundaryOutOfRange _ _ _) = (''failure'', ''insert_boundary_out_of_range'')"
| "edit_outcome (LineOutOfRange _ _ _ _) = (''failure'', ''line_range_out_of_range'')"
| "edit_outcome (EmptyFileDeletion _) = (''failure'', ''empty_file_deletion'')"
| "edit_outcome (FileNotFound _) = (''failure'', ''target_not_found'')"
| "edit_outcome (InvalidUtf8 _) = (''failure'', ''target_not_utf8'')"
| "edit_outcome (AuthorizationDenied _ _ _) = (''failure'', ''authorization_denied'')"
| "edit_outcome (ReadFailure _ _) = (''failure'', ''io_failure'')"
| "edit_outcome (WriteFailure _ _) = (''failure'', ''io_failure'')"
| "edit_outcome (UnsupportedTransaction _) = (''failure'', ''unsupported_transaction'')"
| "edit_outcome (VerificationFailed _ _ _) = (''failure'', ''verification_failed'')"
| "edit_outcome (SemanticVerificationFailure _ _ _ _ _ _) = (''failure'', ''verification_failed'')"
| "edit_outcome (PatchValidationFailure _ _ _) = (''failure'', ''patch_preparation_failed'')"
| "edit_outcome (PatchPreparationFailure _ _ _) = (''failure'', ''patch_preparation_failed'')"
| "edit_outcome (PatchCommitFailure _ _ _ _) = (''failure'', ''patch_preparation_failed'')"
| "edit_outcome _ = (''failure'', ''edit_failed'')"

definition identity_correlation :: "string \<Rightarrow> string option \<Rightarrow> principal option \<Rightarrow> audit_correlation" where
  "identity_correlation edit_id reason identity =
     (let c = (for_edit edit_id)\<lparr>ac_reason := reason\<rparr> in
      case identity of None \<Rightarrow> c
      | Some p \<Rightarrow> c\<lparr>ac_agent_id := pl_agent_id p, ac_session_id := pl_session_id p\<rparr>)"

definition audit_edit_outcome ::
    "string \<Rightarrow> string \<Rightarrow> string \<Rightarrow> principal option \<Rightarrow> edit_error option \<Rightarrow> edit_world \<Rightarrow> edit_world" where
  "audit_edit_outcome action subject edit_id identity err w = (case err of
      None \<Rightarrow> log_outcome ''allow'' action subject (Txt ''operation succeeded'')
                (identity_correlation edit_id None identity) w
    | Some e \<Rightarrow> (case edit_outcome e of (kind, reason) \<Rightarrow>
        log_outcome kind action subject (edit_error_msg e)
          (identity_correlation edit_id (Some reason) identity) w))"

definition transaction_paths :: "edit_transaction \<Rightarrow> string" where
  "transaction_paths t =
     (let paths = rev (remdups (rev (concat (map op_paths (tx_operations t)))))
      in case paths of [] \<Rightarrow> [] | p # ps \<Rightarrow> p @ concat (map (\<lambda>q. ''; '' @ q) ps))"

definition err_of :: "'e + 'a \<Rightarrow> 'e option" where
  "err_of r = (case r of Inl e \<Rightarrow> Some e | Inr _ \<Rightarrow> None)"

definition audited :: "string \<Rightarrow> principal option \<Rightarrow> edit_transaction \<Rightarrow> 'a edit_op \<Rightarrow> 'a edit_op" where
  "audited action identity t body w = (case body w of (r, w') \<Rightarrow>
     (r, audit_edit_outcome action (transaction_paths t) (tx_id t) identity (err_of r) w'))"

definition replace_with_identity :: "sha \<Rightarrow> principal option \<Rightarrow> edit_transaction \<Rightarrow> edit_result edit_op" where
  "replace_with_identity sha identity t =
     audited ''filesystem.replace'' identity t (replace_internal sha identity t)"

definition insert_with_identity :: "sha \<Rightarrow> principal option \<Rightarrow> edit_transaction \<Rightarrow> line_edit_result edit_op" where
  "insert_with_identity sha identity t =
     audited ''filesystem.insert'' identity t (insert_internal sha identity t)"

definition delete_range_with_identity :: "sha \<Rightarrow> principal option \<Rightarrow> edit_transaction \<Rightarrow> line_edit_result edit_op" where
  "delete_range_with_identity sha identity t =
     audited ''filesystem.delete_range'' identity t (delete_range_internal sha identity t)"

definition edit_replace :: "sha \<Rightarrow> edit_transaction \<Rightarrow> edit_result edit_op" where
  "edit_replace sha t = replace_with_identity sha None t"

definition edit_insert :: "sha \<Rightarrow> edit_transaction \<Rightarrow> line_edit_result edit_op" where
  "edit_insert sha t = insert_with_identity sha None t"

definition edit_delete_range :: "sha \<Rightarrow> edit_transaction \<Rightarrow> line_edit_result edit_op" where
  "edit_delete_range sha t = delete_range_with_identity sha None t"

type_synonym rfc = "string \<Rightarrow> int option"

fun authorize_each :: "rfc \<Rightarrow> principal \<Rightarrow> edit_action \<Rightarrow> string option \<Rightarrow> string list \<Rightarrow> unit edit_op" where
  "authorize_each rfc p act tid [] w = (Inr (), w)"
| "authorize_each rfc p act tid (res # rest) w =
     (let rq = \<lparr>rq_action = act, rq_principal = p, rq_resource = res, rq_transaction_id = tid\<rparr>
      in case authorize rfc (ew_authz w) rq (ew_log w) of
           (Allow, log) \<Rightarrow> authorize_each rfc p act tid rest (w\<lparr>ew_log := log\<rparr>)
         | (Deny reason detail, log) \<Rightarrow>
             (Inl (AuthorizationDenied (tool_name act) (Fmt ''{} (resource {})'' [detail, Txt res]) reason),
              w\<lparr>ew_log := log\<rparr>))"

definition authorize_operation :: "rfc \<Rightarrow> principal \<Rightarrow> edit_action \<Rightarrow> string list \<Rightarrow> string option \<Rightarrow> unit edit_op" where
  "authorize_operation rfc p act resources tid =
     (let unique = remdups_adj (sort resources) in
      if unique = [] then
        fail (AuthorizationDenied (tool_name act)
          (Txt ''operation names no concrete workspace resource'') UnsupportedOperation)
      else authorize_each rfc p act tid unique)"

definition transaction_resources :: "edit_transaction \<Rightarrow> string list" where
  "transaction_resources t = concat (map op_paths (tx_operations t))"

definition replace_as :: "sha \<Rightarrow> rfc \<Rightarrow> principal \<Rightarrow> edit_transaction \<Rightarrow> edit_result edit_op" where
  "replace_as sha rfc p t =
     bindE (authorize_operation rfc p ActReplace (transaction_resources t) (Some (tx_id t))) (\<lambda>_.
     replace_with_identity sha (Some p) t)"

definition insert_as :: "sha \<Rightarrow> rfc \<Rightarrow> principal \<Rightarrow> edit_transaction \<Rightarrow> line_edit_result edit_op" where
  "insert_as sha rfc p t =
     bindE (authorize_operation rfc p ActInsert (transaction_resources t) (Some (tx_id t))) (\<lambda>_.
     insert_with_identity sha (Some p) t)"

definition delete_range_as :: "sha \<Rightarrow> rfc \<Rightarrow> principal \<Rightarrow> edit_transaction \<Rightarrow> line_edit_result edit_op" where
  "delete_range_as sha rfc p t =
     bindE (authorize_operation rfc p ActDeleteRange (transaction_resources t) (Some (tx_id t))) (\<lambda>_.
     delete_range_with_identity sha (Some p) t)"

section \<open>What each step leaves alone\<close>

text \<open>
  \<open>same_files\<close>: the file part of the state is untouched. \<open>settled\<close>: the tree is what
  the environment made of it, but for directories a refused write created on its way.
\<close>

definition same_files :: "edit_world \<Rightarrow> edit_world \<Rightarrow> bool" where
  "same_files w w' \<longleftrightarrow> fw_root w' = fw_root w \<and> fw_tree w' = fw_tree w \<and> fw_env w' = fw_env w"

definition settled :: "edit_world \<Rightarrow> edit_world \<Rightarrow> bool" where
  "settled w w' \<longleftrightarrow> (\<exists>w1. env_steps w w1 \<and> fw_env w' = fw_env w1 \<and> fw_root w' = fw_root w1
     \<and> adds_dirs (fw_tree w1) (fw_tree w'))"

lemma same_files_env: "same_files w w' \<Longrightarrow> env_steps w w'"
  by (auto simp: same_files_def env_steps_def)

lemma same_files_refl [simp]: "same_files w w"
  by (simp add: same_files_def)

lemma env_settled: "env_steps w w' \<Longrightarrow> settled w w'"
  unfolding settled_def by (metis adds_dirs_refl)

lemma settled_before: "env_steps w w1 \<Longrightarrow> settled w1 w2 \<Longrightarrow> settled w w2"
  unfolding settled_def by (metis env_steps_trans)

lemma settled_same: "settled w w1 \<Longrightarrow> same_files w1 w2 \<Longrightarrow> settled w w2"
  unfolding settled_def same_files_def by metis

lemma on_snap_same: "on_snap m w = (r, w') \<Longrightarrow> same_files w w' \<and> ew_log w' = ew_log w \<and> ew_authz w' = ew_authz w"
  by (auto simp: on_snap_def same_files_def split: prod.splits)

lemma map_err_state: "map_err f m w = (r, w') \<longleftrightarrow> (\<exists>r0. m w = (r0, w') \<and> r = (case r0 of Inl e \<Rightarrow> Inl (f e) | Inr x \<Rightarrow> Inr x))"
  by (auto simp: map_err_def split: prod.splits sum.splits)

lemma capture_same: "capture_durable_recovery sha i fs w = (r, w') \<Longrightarrow> same_files w w'"
  by (auto simp: capture_durable_recovery_def map_err_state dest: on_snap_same)

lemma record_edit_provenance_same:
  "record_edit_provenance i m ah ops ps idn w = (r, w') \<Longrightarrow> same_files w w'"
  by (auto simp: record_edit_provenance_def bindE_run map_err_state dest: on_snap_same)

lemma coordinate_same: "coordinate sha ps w = (r, w') \<Longrightarrow> same_files w w' \<and> ew_snap w' = ew_snap w"
  by (auto simp: coordinate_def edit_coordination_error_def log_outcome_def same_files_def
      split: prod.splits sum.splits)

lemma holding_state: "holding ks body w = (r, w') \<Longrightarrow> \<exists>w1. body w = (r, w1) \<and> same_files w1 w' \<and> ew_snap w' = ew_snap w1"
  by (auto simp: holding_def same_files_def split: prod.splits)

lemma event_same_snap: "next_event w = (f, w') \<Longrightarrow> ew_snap w' = ew_snap w" for w w' :: edit_world
  unfolding next_event_def by (cases "fw_env w") (auto split: fs_event.splits)

lemma read_bytes_same_snap: "read_bytes rel w = (r, w') \<Longrightarrow> ew_snap w' = ew_snap w" for w w' :: edit_world
  by (metis event_same_snap prod.collapse read_state(1) snd_conv)

lemma read_back_env: "read_back path w = (r, w') \<Longrightarrow> env_steps w w'"
  by (auto simp: read_back_def map_err_state dest: env_steps_read)

lemma preflight_env: "preflight_read sha path ex w = (r, w') \<Longrightarrow> env_steps w w'"
  by (auto simp: preflight_read_def bindE_run map_err_run Let_def
      split: prod.splits sum.splits option.splits dest: env_steps_read)

lemma preflight_Inr:
  "preflight_read sha path ex w = (Inr cur, w') \<longleftrightarrow> validate_path path = Inr ()
     \<and> read_bytes path w = (Inr (pf_content cur), w') \<and> valid_utf8 (pf_content cur)
     \<and> pf_before cur = state_of sha path (pf_content cur)
     \<and> check_expected path (pf_before cur) ex = Inr ()"
  by (cases cur) (auto simp: preflight_read_def bindE_Inr_iff map_err_Inr_iff Let_def split: option.splits)

lemma verify_live_Inr:
  "verify_live_unchanged sha path before w = (Inr u, w') \<longleftrightarrow> (\<exists>b. read_bytes path w = (Inr b, w')
     \<and> sha256_hex sha b = st_hash before \<and> length b = st_size before)"
  by (auto simp: verify_live_unchanged_def bindE_Inr_iff map_err_Inr_iff)

lemma verify_live_env: "verify_live_unchanged sha path before w = (r, w') \<Longrightarrow> env_steps w w'"
  by (auto simp: verify_live_unchanged_def bindE_run map_err_run split: prod.splits sum.splits
      dest: env_steps_read)

lemma bindE_pure_state:
  assumes "bindE m f w = (r, w')" and "\<And>x v. snd (f x v) = v"
  shows "\<exists>r0. m w = (r0, w')"
proof (cases "m w")
  case (Pair r1 w1)
  show ?thesis
  proof (cases r1)
    case (Inr x)
    with assms(1) Pair have "f x w1 = (r, w')" by (simp add: bindE_run)
    with assms(2) [of x w1] have "w' = w1" by simp
    with Pair show ?thesis by blast
  qed (use assms(1) Pair in \<open>simp add: bindE_run\<close>)
qed

lemma verify_replace_env: "verify_replace_semantics sha path old new occ w = (r, w') \<Longrightarrow> env_steps w w'"
  unfolding verify_replace_semantics_def by (drule bindE_pure_state) (auto simp: Let_def dest: read_back_env)

lemma verify_insert_env: "verify_insert_semantics sha path line c w = (r, w') \<Longrightarrow> env_steps w w'"
  unfolding verify_insert_semantics_def by (drule bindE_pure_state) (auto dest: read_back_env)

lemma verify_delete_env: "verify_delete_range_semantics sha path a b after w = (r, w') \<Longrightarrow> env_steps w w'"
  unfolding verify_delete_range_semantics_def
  by (drule bindE_pure_state) (auto simp: Let_def dest: read_back_env)

section \<open>The commit mutates at most once, and only behind the guard\<close>

definition guarded_commit :: "sha \<Rightarrow> string \<Rightarrow> string \<Rightarrow> file_state \<Rightarrow> edit_world \<Rightarrow> edit_world \<Rightarrow> bool" where
  "guarded_commit sha path prepared before w w' \<longleftrightarrow> (\<exists>b w1 w2. read_bytes path w = (Inr b, w1)
     \<and> sha256_hex sha b = st_hash before \<and> length b = st_size before
     \<and> write_atomic_locked path prepared w1 = (Inr (), w2) \<and> env_steps w2 w')"

lemma write_failed_settled:
  assumes "write_atomic_locked path prepared w = (Inl e, w')" shows "settled w w'"
proof -
  obtain f w1 where ev: "next_event w = (f, w1)" by fastforce
  from write_atomic_failed [OF assms ev] obtain t' where "adds_dirs (fw_tree w1) t'" "w' = w1\<lparr>fw_tree := t'\<rparr>"
    by blast
  with env_steps_event [OF ev] show ?thesis by (auto simp: settled_def)
qed

lemma commit_locked_cases:
  assumes "commit_verified_locked sha path prepared before w = (r, w')"
  shows "(settled w w' \<and> (\<exists>e. r = Inl e)) \<or> guarded_commit sha path prepared before w w'"
proof -
  obtain r1 w1 where g: "verify_live_unchanged sha path before w = (r1, w1)" by fastforce
  show ?thesis
  proof (cases r1)
    case (Inl e)
    with assms g have "r = Inl e" "w' = w1" by (simp_all add: commit_verified_locked_def bindE_run)
    with verify_live_env [OF g] env_settled show ?thesis by blast
  next
    case (Inr u)
    then obtain b where b: "read_bytes path w = (Inr b, w1)" "sha256_hex sha b = st_hash before"
      "length b = st_size before" using g by (auto simp: verify_live_Inr)
    obtain r2 w2 where wr: "write_atomic_locked path prepared w1 = (r2, w2)" by fastforce
    show ?thesis
    proof (cases r2)
      case (Inl e)
      with assms g Inr wr have "(\<exists>e. r = Inl e)" "w' = w2"
        by (auto simp: commit_verified_locked_def bindE_run map_err_run Let_def)
      with write_failed_settled [OF wr [unfolded Inl]] settled_before env_steps_read(1) [OF b(1)]
      show ?thesis by blast
    next
      case (Inr u2)
      obtain r3 w3 where rd: "read_text path w2 = (r3, w3)" by fastforce
      have "w' = w3" using rd assms g \<open>r1 = Inr u\<close> wr Inr
        by (auto simp: commit_verified_locked_def bindE_run map_err_run Let_def split: sum.splits if_splits)
      moreover have "write_atomic_locked path prepared w1 = (Inr (), w2)" using wr Inr by simp
    ultimately show ?thesis using env_steps_read(2) [OF rd] b unfolding guarded_commit_def by blast
    qed
  qed
qed

lemma commit_locked_Inr:
  assumes "commit_verified_locked sha path prepared before w = (Inr after, w')"
  shows "after = state_of sha path prepared
    \<and> (\<exists>w2 observed. read_text path w2 = (Inr observed, w') \<and> state_of sha path observed = after)"
  using assms by (auto simp: commit_verified_locked_def bindE_Inr_iff map_err_Inr_iff Let_def split: if_splits)

lemma guarded_after: "guarded_commit sha path prepared before w w1 \<Longrightarrow> env_steps w1 w2 \<Longrightarrow>
    guarded_commit sha path prepared before w w2"
  unfolding guarded_commit_def using env_steps_trans by blast

lemma commit_verified_cases:
  assumes "commit_verified sha path prepared before w = (r, w')"
  shows "(settled w w' \<and> (\<exists>e. r = Inl e))
    \<or> (\<exists>w0. same_files w w0 \<and> ew_snap w0 = ew_snap w \<and> guarded_commit sha path prepared before w0 w')"
proof -
  obtain r0 w0 where c: "coordinate sha [path] w = (r0, w0)" by fastforce
  note same = coordinate_same [OF c]
  show ?thesis
  proof (cases r0)
    case (Inl e)
    with assms c have "r = Inl e" "w' = w0" by (simp_all add: commit_verified_def bindE_run)
    with same same_files_env env_settled show ?thesis by blast
  next
    case (Inr ks)
    with assms c have "holding ks (commit_verified_locked sha path prepared before) w0 = (r, w')"
      by (simp add: commit_verified_def bindE_run)
    then obtain w1 where "commit_verified_locked sha path prepared before w0 = (r, w1)" "same_files w1 w'"
      using holding_state by blast
    with commit_locked_cases [of sha path prepared before w0 r w1] same show ?thesis
      using settled_same settled_before same_files_env guarded_after by blast
  qed
qed

lemma commit_verified_Inr:
  assumes "commit_verified sha path prepared before w = (Inr after, w')"
  shows "after = state_of sha path prepared"
  using assms by (auto simp: commit_verified_def bindE_Inr_iff dest!: holding_state commit_locked_Inr)

text \<open>The snapshot of the pre-edit bytes is in the store when the write happens.\<close>

definition captured :: "sha \<Rightarrow> string \<Rightarrow> string \<Rightarrow> string \<Rightarrow> snapshot_store \<Rightarrow> snapshot_store \<Rightarrow> bool" where
  "captured sha edit_id path content s s' \<longleftrightarrow>
     (\<exists>m. snapshot_create sha edit_id [(path, content)] None s = (Inr m, s'))"

lemma commit_prepared_cases:
  assumes "commit_prepared sha i path cur prepared verify label idn w = (r, w')"
    and "\<And>after u r2 u2. verify after u = (r2, u2) \<Longrightarrow> env_steps u u2"
  shows "settled w w' \<and> (\<exists>e. r = Inl e) \<or>
    (\<exists>w0. same_files w w0 \<and> captured sha i path (pf_content cur) (ew_snap w) (ew_snap w0)
       \<and> guarded_commit sha path prepared (pf_before cur) w0 w')"
proof -
  obtain r1 w1 where cap: "capture_durable_recovery sha i [(path, pf_content cur)] w = (r1, w1)" by fastforce
  note s1 = capture_same [OF cap]
  show ?thesis
  proof (cases r1)
    case (Inl e)
    with assms(1) cap have "r = Inl e" "w' = w1" by (simp_all add: commit_prepared_def bindE_run)
    with s1 same_files_env env_settled show ?thesis by blast
  next
    case (Inr m)
    then have capd: "captured sha i path (pf_content cur) (ew_snap w) (ew_snap w1)"
      using cap by (auto simp: captured_def capture_durable_recovery_def map_err_Inr_iff on_snap_def split: prod.splits)
    obtain r2 w2 where com: "commit_verified sha path prepared (pf_before cur) w1 = (r2, w2)" by fastforce
    have rest: "env_steps w2 w' \<and> (\<forall>e. r2 = Inl e \<longrightarrow> r = Inl e)"
    proof (cases r2)
      case (Inl e)
      with assms(1) cap com \<open>r1 = Inr m\<close> show ?thesis by (auto simp: commit_prepared_def bindE_run)
    next
      case (Inr after)
      obtain r3 w3 where v: "verify after w2 = (r3, w3)" by fastforce
      have "env_steps w3 w'"
        using assms(1) cap com v Inr \<open>r1 = Inr m\<close>
        by (auto simp: commit_prepared_def bindE_run attempt_run split: sum.splits prod.splits
            dest: record_edit_provenance_same same_files_env)
      with assms(2) [OF v] Inr show ?thesis using env_steps_trans by blast
    qed
    from commit_verified_cases [OF com] show ?thesis
    proof
      assume a: "settled w1 w2 \<and> (\<exists>e. r2 = Inl e)"
      then obtain e where e: "r2 = Inl e" by blast
      with assms(1) cap com \<open>r1 = Inr m\<close> have "w' = w2" "r = Inl e"
        by (auto simp: commit_prepared_def bindE_run)
      with a settled_before [OF same_files_env [OF s1]] show ?thesis by blast
    next
      assume "\<exists>w0. same_files w1 w0 \<and> ew_snap w0 = ew_snap w1 \<and> guarded_commit sha path prepared (pf_before cur) w0 w2"
      then obtain w0 where w0: "same_files w1 w0" "ew_snap w0 = ew_snap w1"
        "guarded_commit sha path prepared (pf_before cur) w0 w2" by blast
      have "same_files w w0" using s1 w0(1) by (simp add: same_files_def)
      moreover have "captured sha i path (pf_content cur) (ew_snap w) (ew_snap w0)" using capd w0(2) by simp
      moreover have "guarded_commit sha path prepared (pf_before cur) w0 w'"
        using guarded_after [OF w0(3)] rest by blast
      ultimately show ?thesis by blast
    qed
  qed
qed

section \<open>What a success and a late failure of the commit mean\<close>

text \<open>A commit behind the guard whose file, read again after the write, has the digest, size and lines predicted.\<close>

definition verified_commit :: "sha \<Rightarrow> string \<Rightarrow> string \<Rightarrow> file_state \<Rightarrow> edit_world \<Rightarrow> edit_world \<Rightarrow> bool" where
  "verified_commit sha path prepared before w w' \<longleftrightarrow> (\<exists>b w1 w2 w3 observed. read_bytes path w = (Inr b, w1)
     \<and> sha256_hex sha b = st_hash before \<and> length b = st_size before
     \<and> write_atomic_locked path prepared w1 = (Inr (), w2) \<and> read_text path w2 = (Inr observed, w3)
     \<and> state_of sha path observed = state_of sha path prepared \<and> env_steps w3 w')"

text \<open>The errors that can come after the write.\<close>

definition late_error :: "edit_error \<Rightarrow> bool" where
  "late_error e \<longleftrightarrow> (case e of VerificationFailed _ _ _ \<Rightarrow> True | ReadFailure _ _ \<Rightarrow> True
     | SemanticVerificationFailure _ _ _ _ _ _ \<Rightarrow> True | _ \<Rightarrow> False)"

lemma commit_locked_run:
  "commit_verified_locked sha path prepared before w = (Inr after, w') \<Longrightarrow>
     after = state_of sha path prepared \<and> verified_commit sha path prepared before w w'"
  by (auto simp: commit_verified_locked_def verified_commit_def bindE_Inr_iff map_err_Inr_iff verify_live_Inr Let_def
      split: if_splits intro!: env_steps_refl)

lemma commit_locked_early:
  assumes "commit_verified_locked sha path prepared before w = (Inl e, w')" and "\<not> late_error e"
  shows "settled w w'"
proof -
  obtain r1 w1 where g: "verify_live_unchanged sha path before w = (r1, w1)" by fastforce
  note env = verify_live_env [OF g]
  show ?thesis
  proof (cases r1)
    case (Inl e')
    with assms(1) g env env_settled show ?thesis by (simp add: commit_verified_locked_def bindE_run)
  next
    case (Inr u)
    obtain r2 w2 where wr: "write_atomic_locked path prepared w1 = (r2, w2)" by fastforce
    show ?thesis
    proof (cases r2)
      case (Inl e')
      with assms(1) g Inr wr have "w' = w2" by (simp add: commit_verified_locked_def bindE_run map_err_run Let_def)
      with write_failed_settled [OF wr [unfolded Inl]] settled_before env show ?thesis by blast
    next
      case r2: (Inr u2)
      have "late_error e" using assms(1) g Inr wr r2
        by (auto simp: commit_verified_locked_def bindE_run map_err_run Let_def late_error_def split: sum.splits if_splits prod.splits)
      with assms(2) show ?thesis by simp
    qed
  qed
qed

lemma verified_after: "verified_commit sha path prepared before w w1 \<Longrightarrow> env_steps w1 w2 \<Longrightarrow>
    verified_commit sha path prepared before w w2"
  unfolding verified_commit_def using env_steps_trans by blast

lemma commit_verified_run:
  assumes "commit_verified sha path prepared before w = (Inr after, w')"
  shows "after = state_of sha path prepared
    \<and> (\<exists>w0. same_files w w0 \<and> ew_snap w0 = ew_snap w \<and> verified_commit sha path prepared before w0 w')"
proof -
  from assms obtain ks w0 where c: "coordinate sha [path] w = (Inr ks, w0)"
    and h: "holding ks (commit_verified_locked sha path prepared before) w0 = (Inr after, w')"
    by (auto simp: commit_verified_def bindE_Inr_iff)
  from holding_state [OF h] obtain w1 where "commit_verified_locked sha path prepared before w0 = (Inr after, w1)" "same_files w1 w'"
    by blast
  with commit_locked_run coordinate_same [OF c] verified_after same_files_env show ?thesis by blast
qed

lemma commit_verified_early:
  assumes "commit_verified sha path prepared before w = (Inl e, w')" and "\<not> late_error e"
  shows "settled w w'"
proof -
  obtain r0 w0 where c: "coordinate sha [path] w = (r0, w0)" by fastforce
  note same = coordinate_same [OF c]
  show ?thesis
  proof (cases r0)
    case (Inl e')
    with assms(1) c have "w' = w0" by (simp add: commit_verified_def bindE_run)
    with same same_files_env env_settled show ?thesis by blast
  next
    case (Inr ks)
    with assms(1) c have "holding ks (commit_verified_locked sha path prepared before) w0 = (Inl e, w')"
      by (simp add: commit_verified_def bindE_run)
    from holding_state [OF this] obtain w1 where "commit_verified_locked sha path prepared before w0 = (Inl e, w1)" "same_files w1 w'"
      by blast
    with commit_locked_early assms(2) same settled_same settled_before same_files_env show ?thesis by blast
  qed
qed

lemma commit_prepared_run:
  assumes "commit_prepared sha i path cur prepared verify label idn w = (Inr after, w')"
    and "\<And>after u r2 u2. verify after u = (r2, u2) \<Longrightarrow> env_steps u u2"
  shows "after = state_of sha path prepared \<and> (\<exists>w0. same_files w w0
    \<and> captured sha i path (pf_content cur) (ew_snap w) (ew_snap w0) \<and> verified_commit sha path prepared (pf_before cur) w0 w')"
proof -
  obtain m w1 where cap: "capture_durable_recovery sha i [(path, pf_content cur)] w = (Inr m, w1)"
    and r1: "bindE (commit_verified sha path prepared (pf_before cur)) (\<lambda>after. bindE (verify after) (\<lambda>_.
      bindE (attempt (record_edit_provenance i m [(path, st_hash after)] [label] [path] idn)) (\<lambda>_. ret after))) w1
      = (Inr after, w')"
    using bindE_Inr_iff [THEN iffD1, OF assms(1) [unfolded commit_prepared_def]] by (elim exE conjE) (rule that)
  obtain after' w2 where com': "commit_verified sha path prepared (pf_before cur) w1 = (Inr after', w2)"
    and r2: "bindE (verify after') (\<lambda>_.
      bindE (attempt (record_edit_provenance i m [(path, st_hash after')] [label] [path] idn)) (\<lambda>_. ret after')) w2
      = (Inr after, w')"
    using bindE_Inr_iff [THEN iffD1, OF r1] by (elim exE conjE) (rule that)
  obtain u w3 where v': "verify after' w2 = (Inr u, w3)"
    and r3: "bindE (attempt (record_edit_provenance i m [(path, st_hash after')] [label] [path] idn)) (\<lambda>_. ret after') w3
      = (Inr after :: edit_error + file_state, w')"
    using bindE_Inr_iff [THEN iffD1, OF r2] by (elim exE conjE) (rule that)
  obtain rp wp where pr: "record_edit_provenance i m [(path, st_hash after')] [label] [path] idn w3 = (rp, wp)" by fastforce
  from r3 pr have "after' = after" "w' = wp" by (auto simp: bindE_run attempt_run)
  with com' v' pr have com: "commit_verified sha path prepared (pf_before cur) w1 = (Inr after, w2)"
    and v: "verify after w2 = (Inr u, w3)" and rest: "env_steps w3 w'"
    using record_edit_provenance_same [OF pr] same_files_env by auto
  from commit_verified_run [OF com] obtain w0 where w0: "after = state_of sha path prepared" "same_files w1 w0"
    "ew_snap w0 = ew_snap w1" "verified_commit sha path prepared (pf_before cur) w0 w2" by blast
  have "captured sha i path (pf_content cur) (ew_snap w) (ew_snap w1)"
    using cap by (auto simp: captured_def capture_durable_recovery_def map_err_Inr_iff on_snap_def split: prod.splits)
  moreover have "same_files w w0" using capture_same [OF cap] w0(2) by (simp add: same_files_def)
  moreover have "verified_commit sha path prepared (pf_before cur) w0 w'"
    using verified_after [OF w0(4)] assms(2) [OF v] rest env_steps_trans by blast
  ultimately show ?thesis using w0 by auto
qed

lemma commit_prepared_early:
  assumes "commit_prepared sha i path cur prepared verify label idn w = (Inl e, w')" and "\<not> late_error e"
    and "\<And>after u e2 u2. verify after u = (Inl e2, u2) \<Longrightarrow> late_error e2"
  shows "settled w w'"
proof -
  obtain r1 w1 where cap: "capture_durable_recovery sha i [(path, pf_content cur)] w = (r1, w1)" by fastforce
  note s1 = capture_same [OF cap]
  show ?thesis
  proof (cases r1)
    case (Inl e')
    with assms(1) cap have "w' = w1" by (simp add: commit_prepared_def bindE_run)
    with s1 same_files_env env_settled show ?thesis by blast
  next
    case (Inr m)
    obtain r2 w2 where com: "commit_verified sha path prepared (pf_before cur) w1 = (r2, w2)" by fastforce
    show ?thesis
    proof (cases r2)
      case (Inl e')
      with assms(1) cap com \<open>r1 = Inr m\<close> have "w' = w2" "e' = e" by (auto simp: commit_prepared_def bindE_run)
      with commit_verified_early [OF com [unfolded Inl]] assms(2) settled_before [OF same_files_env [OF s1]] show ?thesis by simp
    next
      case r2: (Inr after)
      have "\<exists>u2. verify after w2 = (Inl e, u2)" using assms(1) cap com Inr r2
        by (auto simp: commit_prepared_def bindE_run attempt_run split: sum.splits prod.splits)
      with assms(2,3) show ?thesis by blast
    qed
  qed
qed

lemma verify_late:
  "verify_replace_semantics sha path old new occ w = (Inl e, w') \<Longrightarrow> late_error e"
  "verify_insert_semantics sha path line c w = (Inl e, w') \<Longrightarrow> late_error e"
  "verify_delete_range_semantics sha path a b after w = (Inl e, w') \<Longrightarrow> late_error e"
  by (auto simp: verify_replace_semantics_def verify_insert_semantics_def verify_delete_range_semantics_def read_back_def
      bindE_run map_err_run Let_def late_error_def split: sum.splits prod.splits if_splits)

end
