(* ===== verification/EditSafety.thy ===== *)
theory EditSafety
  imports EditService
begin

text \<open>
  Safety of the single-operation executors under any interference: what an executor can do to
  the files when it fails or succeeds, what its result reports, and what a denial does. Then their functional behaviour
  when nothing interferes.
\<close>

section \<open>What one operation makes of a preflight\<close>

fun operation_prepares ::
    "edit_operation \<Rightarrow> preflight \<Rightarrow> expected_state option \<Rightarrow> string \<Rightarrow> string \<Rightarrow> bool" where
  "operation_prepares (Replace p old new occ) cur ex path prepared \<longleftrightarrow> path = p
     \<and> (\<exists>r. prepare_replace cur ex p old new occ = Inr r \<and> rp_prepared r = prepared)"
| "operation_prepares (Insert p line c) cur ex path prepared \<longleftrightarrow> path = p
     \<and> prepare_insert cur ex p line c = Inr prepared"
| "operation_prepares (DeleteRange p a b) cur ex path prepared \<longleftrightarrow> path = p
     \<and> prepare_delete cur ex p a b = Inr prepared"
| "operation_prepares _ cur ex path prepared \<longleftrightarrow> False"

text \<open>
  The one way an executor changes a file: the content was read from the path and met the
  expected state, the operation was prepared on it, its bytes were captured in the snapshot
  store, and then, behind the stale-state guard, one atomic write of the prepared text happened.
\<close>

definition guarded_edit :: "sha \<Rightarrow> edit_transaction \<Rightarrow> edit_world \<Rightarrow> edit_world \<Rightarrow> bool" where
  "guarded_edit sha t w w' \<longleftrightarrow> validate_shape t = Inr ()
     \<and> (\<exists>op path content prepared w1 w0. tx_operations t = [op]
         \<and> read_bytes path w = (Inr content, w1) \<and> valid_utf8 content
         \<and> check_expected path (state_of sha path content) (first_expected t) = Inr ()
         \<and> operation_prepares op \<lparr>pf_content = content, pf_before = state_of sha path content\<rparr>
             (first_expected t) path prepared
         \<and> same_files w1 w0 \<and> captured sha (tx_id t) path content (ew_snap w1) (ew_snap w0)
         \<and> guarded_commit sha path prepared (state_of sha path content) w0 w')"

text \<open>
  A success: the same, and the file, read again after the write, was what the operation predicts.
  The result reports the state before and the state read again, the path, and what the matching
  of the operation on the content found.
\<close>

definition committed_edit ::
    "sha \<Rightarrow> edit_transaction \<Rightarrow> string \<Rightarrow> string \<Rightarrow> string \<Rightarrow> edit_world \<Rightarrow> edit_world \<Rightarrow> bool" where
  "committed_edit sha t path content prepared w w' \<longleftrightarrow> validate_shape t = Inr ()
     \<and> (\<exists>w1 w0. read_bytes path w = (Inr content, w1) \<and> valid_utf8 content
         \<and> check_expected path (state_of sha path content) (first_expected t) = Inr ()
         \<and> same_files w1 w0 \<and> captured sha (tx_id t) path content (ew_snap w1) (ew_snap w0)
         \<and> verified_commit sha path prepared (state_of sha path content) w0 w')"

definition replaced :: "sha \<Rightarrow> edit_transaction \<Rightarrow> edit_result \<Rightarrow> edit_world \<Rightarrow> edit_world \<Rightarrow> bool" where
  "replaced sha t res w w' \<longleftrightarrow> (\<exists>path old new occ content x a b. tx_operations t = [Replace path old new occ]
     \<and> prepare_replace \<lparr>pf_content = content, pf_before = state_of sha path content\<rparr>
         (first_expected t) path old new occ = Inr x
     \<and> content = a @ old @ b \<and> rp_prepared x = a @ new @ b
     \<and> length a = lo_byte_offset (find_matches content old ! rp_index x)
     \<and> committed_edit sha t path content (a @ new @ b) w w'
     \<and> res = \<lparr>er_id = tx_id t, er_path = path, er_status = Committed,
         er_before = state_of sha path content, er_after = state_of sha path (a @ new @ b),
         er_match_count = rp_match_count x, er_selected_occurrence = rp_index x + 1, er_location = rp_location x\<rparr>)"

definition inserted :: "sha \<Rightarrow> edit_transaction \<Rightarrow> line_edit_result \<Rightarrow> edit_world \<Rightarrow> edit_world \<Rightarrow> bool" where
  "inserted sha t res w w' \<longleftrightarrow> (\<exists>path line body content prepared. tx_operations t = [Insert path line body]
     \<and> prepare_insert \<lparr>pf_content = content, pf_before = state_of sha path content\<rparr>
         (first_expected t) path line body = Inr prepared
     \<and> committed_edit sha t path content prepared w w'
     \<and> res = \<lparr>le_id = tx_id t, le_path = path, le_status = Committed,
         le_before = state_of sha path content, le_after = state_of sha path prepared, le_kind = InsertKind line\<rparr>)"

definition deleted_range :: "sha \<Rightarrow> edit_transaction \<Rightarrow> line_edit_result \<Rightarrow> edit_world \<Rightarrow> edit_world \<Rightarrow> bool" where
  "deleted_range sha t res w w' \<longleftrightarrow> (\<exists>path a b content prepared. tx_operations t = [DeleteRange path a b]
     \<and> prepare_delete \<lparr>pf_content = content, pf_before = state_of sha path content\<rparr>
         (first_expected t) path a b = Inr prepared
     \<and> committed_edit sha t path content prepared w w'
     \<and> res = \<lparr>le_id = tx_id t, le_path = path, le_status = Committed,
         le_before = state_of sha path content, le_after = state_of sha path prepared, le_kind = DeleteRangeKind a b\<rparr>)"

lemma executor_cases:
  assumes "bindE (preflight_read sha path ex) (\<lambda>cur. bindE (lift (prep cur)) (\<lambda>x.
      bindE (commit_prepared sha i path cur (txt x) verify label idn) (\<lambda>after. ret (res cur x after)))) w = (r, w')"
    and "\<And>after u r2 u2. verify after u = (r2, u2) \<Longrightarrow> env_steps u u2"
  shows "(settled w w' \<and> (\<exists>e. r = Inl e)) \<or> (\<exists>cur x w1 w0. preflight_read sha path ex w = (Inr cur, w1)
     \<and> prep cur = Inr x \<and> same_files w1 w0 \<and> captured sha i path (pf_content cur) (ew_snap w1) (ew_snap w0)
     \<and> guarded_commit sha path (txt x) (pf_before cur) w0 w')"
proof -
  obtain r1 w1 where p: "preflight_read sha path ex w = (r1, w1)" by fastforce
  note env = preflight_env [OF p]
  show ?thesis
  proof (cases r1)
    case (Inl e)
    with assms(1) p have "r = Inl e" "w' = w1" by (simp_all add: bindE_run)
    with env env_settled show ?thesis by blast
  next
    case (Inr cur)
    show ?thesis
    proof (cases "prep cur")
      case (Inl e)
      with assms(1) p Inr have "r = Inl e" "w' = w1" by (simp_all add: bindE_run)
      with env env_settled show ?thesis by blast
    next
      case prep: (Inr x)
      obtain r2 w2 where c: "commit_prepared sha i path cur (txt x) verify label idn w1 = (r2, w2)" by fastforce
      with assms(1) p Inr prep have w': "w' = w2" and re: "\<forall>e. r2 = Inl e \<longrightarrow> r = Inl e"
        by (auto simp: bindE_run split: sum.splits)
      from commit_prepared_cases [OF c assms(2)] show ?thesis
      proof
        assume a: "settled w1 w2 \<and> (\<exists>e. r2 = Inl e)"
        with re have "\<exists>e. r = Inl e" by blast
        with a w' settled_before [OF env] show ?thesis by blast
      next
        assume "\<exists>w0. same_files w1 w0 \<and> captured sha i path (pf_content cur) (ew_snap w1) (ew_snap w0)
          \<and> guarded_commit sha path (txt x) (pf_before cur) w0 w2"
        with p Inr prep w' show ?thesis by blast
      qed
    qed
  qed
qed

lemma executor_Inr:
  assumes "bindE (preflight_read sha path ex) (\<lambda>cur. bindE (lift (prep cur)) (\<lambda>x.
      bindE (commit_prepared sha i path cur (txt x) verify label idn) (\<lambda>after. ret (res cur x after)))) w = (Inr out, w')"
    and "\<And>after u r2 u2. verify after u = (r2, u2) \<Longrightarrow> env_steps u u2"
  shows "\<exists>cur x w1 w0. preflight_read sha path ex w = (Inr cur, w1) \<and> prep cur = Inr x
     \<and> out = res cur x (state_of sha path (txt x)) \<and> same_files w1 w0
     \<and> captured sha i path (pf_content cur) (ew_snap w1) (ew_snap w0)
     \<and> verified_commit sha path (txt x) (pf_before cur) w0 w'"
proof -
  obtain r1 w1 where p: "preflight_read sha path ex w = (r1, w1)" by fastforce
  then obtain cur where cur: "r1 = Inr cur" using assms(1) by (cases r1) (auto simp: bindE_run)
  obtain x where x: "prep cur = Inr x" using assms(1) p cur by (cases "prep cur") (auto simp: bindE_run)
  obtain r2 w2 where c: "commit_prepared sha i path cur (txt x) verify label idn w1 = (r2, w2)" by fastforce
  then obtain after where after: "r2 = Inr after" using assms(1) p cur x by (cases r2) (auto simp: bindE_run)
  with assms(1) p cur x c have "w' = w2" "out = res cur x after" by (auto simp: bindE_run)
  moreover have "after = state_of sha path (txt x) \<and> (\<exists>w0. same_files w1 w0
      \<and> captured sha i path (pf_content cur) (ew_snap w1) (ew_snap w0)
      \<and> verified_commit sha path (txt x) (pf_before cur) w0 w2)"
    by (rule commit_prepared_run [OF c [unfolded after]]) (rule assms(2))
  ultimately show ?thesis using p cur x by blast
qed

lemma executor_early:
  assumes "bindE (preflight_read sha path ex) (\<lambda>cur. bindE (lift (prep cur)) (\<lambda>x.
      bindE (commit_prepared sha i path cur (txt x) verify label idn) (\<lambda>after. ret (res cur x after)))) w = (Inl e, w')"
    and "\<not> late_error e" and "\<And>after u e2 u2. verify after u = (Inl e2, u2) \<Longrightarrow> late_error e2"
  shows "settled w w'"
proof -
  obtain r1 w1 where p: "preflight_read sha path ex w = (r1, w1)" by fastforce
  note env = preflight_env [OF p]
  show ?thesis
  proof (cases "\<exists>cur x. r1 = Inr cur \<and> prep cur = Inr x")
    case False
    with assms(1) p have "w' = w1" by (cases r1) (auto simp: bindE_run split: sum.splits)
    with env env_settled show ?thesis by blast
  next
    case True
    then obtain cur x where cx: "r1 = Inr cur" "prep cur = Inr x" by blast
    obtain r2 w2 where c: "commit_prepared sha i path cur (txt x) verify label idn w1 = (r2, w2)" by fastforce
    with assms(1) p cx have r2: "r2 = Inl e" and w': "w' = w2" by (auto simp: bindE_run split: sum.splits)
    have "settled w1 w2" by (rule commit_prepared_early [OF c [unfolded r2] assms(2)]) (rule assms(3))
    with settled_before [OF env] w' show ?thesis by blast
  qed
qed

lemma guarded_editI:
  assumes "validate_shape t = Inr ()" and "tx_operations t = [op]"
    and "preflight_read sha path (first_expected t) w = (Inr cur, w1)"
    and "operation_prepares op cur (first_expected t) path prepared"
    and "same_files w1 w0" and "captured sha (tx_id t) path (pf_content cur) (ew_snap w1) (ew_snap w0)"
    and "guarded_commit sha path prepared (pf_before cur) w0 w'"
  shows "guarded_edit sha t w w'"
proof -
  from assms(3) have cur: "cur = \<lparr>pf_content = pf_content cur, pf_before = state_of sha path (pf_content cur)\<rparr>"
    by (simp add: preflight_Inr)
  show ?thesis
    using assms unfolding guarded_edit_def preflight_Inr by (metis cur)
qed

lemma bindE_lift: "bindE (lift q) f w = (case q of Inl e \<Rightarrow> (Inl e, w) | Inr x \<Rightarrow> f x w)"
  by (cases q) (simp_all add: bindE_run)

lemma replace_internal_cases:
  assumes "replace_internal sha idn t w = (r, w')"
  shows "(settled w w' \<and> isl r) \<or> guarded_edit sha t w w'"
proof (cases "\<exists>path old new occ. validate_shape t = Inr () \<and> tx_operations t = [Replace path old new occ]")
  case False
  then have "w' = w \<and> isl r" using assms unfolding replace_internal_def bindE_lift
    by (auto split: sum.splits list.splits edit_operation.splits)
  then show ?thesis by (simp add: env_settled)
next
  case True
  then obtain path old new occ where v: "validate_shape t = Inr ()"
    and ops: "tx_operations t = [Replace path old new occ]" by blast
  from assms v ops have "bindE (preflight_read sha path (first_expected t)) (\<lambda>cur.
         bindE (lift (prepare_replace cur (first_expected t) path old new occ)) (\<lambda>x.
         bindE (commit_prepared sha (tx_id t) path cur (rp_prepared x)
                  (\<lambda>_. verify_replace_semantics sha path old new occ) ''Replace'' idn) (\<lambda>after.
         ret \<lparr>er_id = tx_id t, er_path = path, er_status = Committed, er_before = pf_before cur,
              er_after = after, er_match_count = rp_match_count x,
              er_selected_occurrence = rp_index x + 1, er_location = rp_location x\<rparr>))) w = (r, w')"
    by (simp add: replace_internal_def bindE_lift)
  from executor_cases [OF this verify_replace_env] guarded_editI [OF v ops] show ?thesis by fastforce
qed

lemma insert_internal_cases:
  assumes "insert_internal sha idn t w = (r, w')"
  shows "(settled w w' \<and> isl r) \<or> guarded_edit sha t w w'"
proof (cases "\<exists>path line c. validate_shape t = Inr () \<and> tx_operations t = [Insert path line c]")
  case False
  then have "w' = w \<and> isl r" using assms unfolding insert_internal_def bindE_lift
    by (auto split: sum.splits list.splits edit_operation.splits)
  then show ?thesis by (simp add: env_settled)
next
  case True
  then obtain path line c where v: "validate_shape t = Inr ()"
    and ops: "tx_operations t = [Insert path line c]" by blast
  from assms v ops have "bindE (preflight_read sha path (first_expected t)) (\<lambda>cur.
         bindE (lift (prepare_insert cur (first_expected t) path line c)) (\<lambda>x.
         bindE (commit_prepared sha (tx_id t) path cur (id x)
                  (\<lambda>_. verify_insert_semantics sha path line c) ''Insert'' idn) (\<lambda>after.
         ret \<lparr>le_id = tx_id t, le_path = path, le_status = Committed, le_before = pf_before cur,
              le_after = after, le_kind = InsertKind line\<rparr>))) w = (r, w')"
    by (simp add: insert_internal_def bindE_lift)
  from executor_cases [OF this verify_insert_env] guarded_editI [OF v ops] show ?thesis by fastforce
qed

lemma delete_range_internal_cases:
  assumes "delete_range_internal sha idn t w = (r, w')"
  shows "(settled w w' \<and> isl r) \<or> guarded_edit sha t w w'"
proof (cases "\<exists>path a b. validate_shape t = Inr () \<and> tx_operations t = [DeleteRange path a b]")
  case False
  then have "w' = w \<and> isl r" using assms unfolding delete_range_internal_def bindE_lift
    by (auto split: sum.splits list.splits edit_operation.splits)
  then show ?thesis by (simp add: env_settled)
next
  case True
  then obtain path a b where v: "validate_shape t = Inr ()"
    and ops: "tx_operations t = [DeleteRange path a b]" by blast
  from assms v ops have "bindE (preflight_read sha path (first_expected t)) (\<lambda>cur.
         bindE (lift (prepare_delete cur (first_expected t) path a b)) (\<lambda>x.
         bindE (commit_prepared sha (tx_id t) path cur (id x)
                  (verify_delete_range_semantics sha path a b) ''DeleteRange'' idn) (\<lambda>after.
         ret \<lparr>le_id = tx_id t, le_path = path, le_status = Committed, le_before = pf_before cur,
              le_after = after, le_kind = DeleteRangeKind a b\<rparr>))) w = (r, w')"
    by (simp add: delete_range_internal_def bindE_lift)
  from executor_cases [OF this verify_delete_env] guarded_editI [OF v ops] show ?thesis by fastforce
qed

section \<open>What a success and an early failure mean\<close>

lemma committed_editI:
  assumes "validate_shape t = Inr ()" and "preflight_read sha path (first_expected t) w = (Inr cur, w1)"
    and "same_files w1 w0" and "captured sha (tx_id t) path (pf_content cur) (ew_snap w1) (ew_snap w0)"
    and "verified_commit sha path prepared (pf_before cur) w0 w'"
  shows "cur = \<lparr>pf_content = pf_content cur, pf_before = state_of sha path (pf_content cur)\<rparr>
    \<and> committed_edit sha t path (pf_content cur) prepared w w'"
  using assms unfolding committed_edit_def preflight_Inr by auto

lemma replace_internal_Inr:
  assumes "replace_internal sha idn t w = (Inr res, w')" shows "replaced sha t res w w'"
proof -
  obtain path old new occ where v: "validate_shape t = Inr ()"
    and ops: "tx_operations t = [Replace path old new occ]"
    using assms unfolding replace_internal_def bindE_lift
    by (auto split: sum.splits list.splits edit_operation.splits)
  from assms v ops have "bindE (preflight_read sha path (first_expected t)) (\<lambda>cur.
         bindE (lift (prepare_replace cur (first_expected t) path old new occ)) (\<lambda>x.
         bindE (commit_prepared sha (tx_id t) path cur (rp_prepared x)
                  (\<lambda>_. verify_replace_semantics sha path old new occ) ''Replace'' idn) (\<lambda>after.
         ret \<lparr>er_id = tx_id t, er_path = path, er_status = Committed, er_before = pf_before cur,
              er_after = after, er_match_count = rp_match_count x,
              er_selected_occurrence = rp_index x + 1, er_location = rp_location x\<rparr>))) w = (Inr res, w')"
    by (simp add: replace_internal_def bindE_lift)
  then have "\<exists>cur x w1 w0. preflight_read sha path (first_expected t) w = (Inr cur, w1)
     \<and> prepare_replace cur (first_expected t) path old new occ = Inr x \<and> res = \<lparr>er_id = tx_id t, er_path = path, er_status = Committed, er_before = pf_before cur,
              er_after = state_of sha path (rp_prepared x), er_match_count = rp_match_count x,
              er_selected_occurrence = rp_index x + 1, er_location = rp_location x\<rparr>
     \<and> same_files w1 w0 \<and> captured sha (tx_id t) path (pf_content cur) (ew_snap w1) (ew_snap w0)
     \<and> verified_commit sha path (rp_prepared x) (pf_before cur) w0 w'"
    by (rule executor_Inr) (rule verify_replace_env)
  then obtain cur x w1 w0 where
    p: "preflight_read sha path (first_expected t) w = (Inr cur, w1)"
    and x: "prepare_replace cur (first_expected t) path old new occ = Inr x"
    and res: "res = \<lparr>er_id = tx_id t, er_path = path, er_status = Committed, er_before = pf_before cur,
              er_after = state_of sha path (rp_prepared x), er_match_count = rp_match_count x,
              er_selected_occurrence = rp_index x + 1, er_location = rp_location x\<rparr>"
    and c: "same_files w1 w0" "captured sha (tx_id t) path (pf_content cur) (ew_snap w1) (ew_snap w0)"
      "verified_commit sha path (rp_prepared x) (pf_before cur) w0 w'" by blast
  from committed_editI [OF v p c] have cur: "cur = \<lparr>pf_content = pf_content cur, pf_before = state_of sha path (pf_content cur)\<rparr>"
    and e: "committed_edit sha t path (pf_content cur) (rp_prepared x) w w'" by blast+
  from cur have b: "pf_before cur = state_of sha path (pf_content cur)" by (metis preflight.select_convs(2))
  from prepare_replace_splits [OF x] obtain a d where "pf_content cur = a @ old @ d" "rp_prepared x = a @ new @ d"
    "length a = lo_byte_offset (find_matches (pf_content cur) old ! rp_index x)" by blast
  with ops x e res b cur show ?thesis unfolding replaced_def by metis
qed

lemma insert_internal_Inr:
  assumes "insert_internal sha idn t w = (Inr res, w')" shows "inserted sha t res w w'"
proof -
  obtain path line c where v: "validate_shape t = Inr ()" and ops: "tx_operations t = [Insert path line c]"
    using assms unfolding insert_internal_def bindE_lift
    by (auto split: sum.splits list.splits edit_operation.splits)
  from assms v ops have "bindE (preflight_read sha path (first_expected t)) (\<lambda>cur.
         bindE (lift (prepare_insert cur (first_expected t) path line c)) (\<lambda>x.
         bindE (commit_prepared sha (tx_id t) path cur (id x)
                  (\<lambda>_. verify_insert_semantics sha path line c) ''Insert'' idn) (\<lambda>after.
         ret \<lparr>le_id = tx_id t, le_path = path, le_status = Committed, le_before = pf_before cur,
              le_after = after, le_kind = InsertKind line\<rparr>))) w = (Inr res, w')"
    by (simp add: insert_internal_def bindE_lift)
  then have "\<exists>cur x w1 w0. preflight_read sha path (first_expected t) w = (Inr cur, w1)
     \<and> prepare_insert cur (first_expected t) path line c = Inr x \<and> res = \<lparr>le_id = tx_id t, le_path = path, le_status = Committed, le_before = pf_before cur,
              le_after = state_of sha path (id x), le_kind = InsertKind line\<rparr>
     \<and> same_files w1 w0 \<and> captured sha (tx_id t) path (pf_content cur) (ew_snap w1) (ew_snap w0)
     \<and> verified_commit sha path (id x) (pf_before cur) w0 w'"
    by (rule executor_Inr) (rule verify_insert_env)
  then obtain cur x w1 w0 where
    p: "preflight_read sha path (first_expected t) w = (Inr cur, w1)"
    and x: "prepare_insert cur (first_expected t) path line c = Inr x"
    and res: "res = \<lparr>le_id = tx_id t, le_path = path, le_status = Committed, le_before = pf_before cur,
              le_after = state_of sha path x, le_kind = InsertKind line\<rparr>"
    and c: "same_files w1 w0" "captured sha (tx_id t) path (pf_content cur) (ew_snap w1) (ew_snap w0)"
      "verified_commit sha path x (pf_before cur) w0 w'" unfolding id_def by blast
  from committed_editI [OF v p c] have cur: "cur = \<lparr>pf_content = pf_content cur, pf_before = state_of sha path (pf_content cur)\<rparr>"
    and e: "committed_edit sha t path (pf_content cur) x w w'" by blast+
  from cur have b: "pf_before cur = state_of sha path (pf_content cur)" by (metis preflight.select_convs(2))
  with ops x e res cur show ?thesis unfolding inserted_def by metis
qed

lemma delete_range_internal_Inr:
  assumes "delete_range_internal sha idn t w = (Inr res, w')" shows "deleted_range sha t res w w'"
proof -
  obtain path a b where v: "validate_shape t = Inr ()" and ops: "tx_operations t = [DeleteRange path a b]"
    using assms unfolding delete_range_internal_def bindE_lift
    by (auto split: sum.splits list.splits edit_operation.splits)
  from assms v ops have "bindE (preflight_read sha path (first_expected t)) (\<lambda>cur.
         bindE (lift (prepare_delete cur (first_expected t) path a b)) (\<lambda>x.
         bindE (commit_prepared sha (tx_id t) path cur (id x)
                  (verify_delete_range_semantics sha path a b) ''DeleteRange'' idn) (\<lambda>after.
         ret \<lparr>le_id = tx_id t, le_path = path, le_status = Committed, le_before = pf_before cur,
              le_after = after, le_kind = DeleteRangeKind a b\<rparr>))) w = (Inr res, w')"
    by (simp add: delete_range_internal_def bindE_lift)
  then have "\<exists>cur x w1 w0. preflight_read sha path (first_expected t) w = (Inr cur, w1)
     \<and> prepare_delete cur (first_expected t) path a b = Inr x \<and> res = \<lparr>le_id = tx_id t, le_path = path, le_status = Committed, le_before = pf_before cur,
              le_after = state_of sha path (id x), le_kind = DeleteRangeKind a b\<rparr>
     \<and> same_files w1 w0 \<and> captured sha (tx_id t) path (pf_content cur) (ew_snap w1) (ew_snap w0)
     \<and> verified_commit sha path (id x) (pf_before cur) w0 w'"
    by (rule executor_Inr) (rule verify_delete_env)
  then obtain cur x w1 w0 where
    p: "preflight_read sha path (first_expected t) w = (Inr cur, w1)"
    and x: "prepare_delete cur (first_expected t) path a b = Inr x"
    and res: "res = \<lparr>le_id = tx_id t, le_path = path, le_status = Committed, le_before = pf_before cur,
              le_after = state_of sha path x, le_kind = DeleteRangeKind a b\<rparr>"
    and c: "same_files w1 w0" "captured sha (tx_id t) path (pf_content cur) (ew_snap w1) (ew_snap w0)"
      "verified_commit sha path x (pf_before cur) w0 w'" unfolding id_def by blast
  from committed_editI [OF v p c] have cur: "cur = \<lparr>pf_content = pf_content cur, pf_before = state_of sha path (pf_content cur)\<rparr>"
    and e: "committed_edit sha t path (pf_content cur) x w w'" by blast+
  from cur have d: "pf_before cur = state_of sha path (pf_content cur)" by (metis preflight.select_convs(2))
  with ops x e res cur show ?thesis unfolding deleted_range_def by metis
qed

lemma replace_internal_early:
  assumes "replace_internal sha idn t w = (Inl e, w')" and "\<not> late_error e" shows "settled w w'"
proof (cases "\<exists>path old new occ. validate_shape t = Inr () \<and> tx_operations t = [Replace path old new occ]")
  case False
  then have "w' = w" using assms unfolding replace_internal_def bindE_lift
    by (auto split: sum.splits list.splits edit_operation.splits)
  then show ?thesis by (simp add: env_settled)
next
  case True
  then obtain path old new occ where "validate_shape t = Inr ()" "tx_operations t = [Replace path old new occ]" by blast
  with assms(1) have "bindE (preflight_read sha path (first_expected t)) (\<lambda>cur.
         bindE (lift (prepare_replace cur (first_expected t) path old new occ)) (\<lambda>x.
         bindE (commit_prepared sha (tx_id t) path cur (rp_prepared x)
                  (\<lambda>_. verify_replace_semantics sha path old new occ) ''Replace'' idn) (\<lambda>after.
         ret \<lparr>er_id = tx_id t, er_path = path, er_status = Committed, er_before = pf_before cur,
              er_after = after, er_match_count = rp_match_count x,
              er_selected_occurrence = rp_index x + 1, er_location = rp_location x\<rparr>))) w = (Inl e, w')"
    by (simp add: replace_internal_def bindE_lift)
  then show ?thesis by (rule executor_early [OF _ assms(2)]) (rule verify_late(1))
qed

lemma insert_internal_early:
  assumes "insert_internal sha idn t w = (Inl e, w')" and "\<not> late_error e" shows "settled w w'"
proof (cases "\<exists>path line c. validate_shape t = Inr () \<and> tx_operations t = [Insert path line c]")
  case False
  then have "w' = w" using assms unfolding insert_internal_def bindE_lift
    by (auto split: sum.splits list.splits edit_operation.splits)
  then show ?thesis by (simp add: env_settled)
next
  case True
  then obtain path line c where "validate_shape t = Inr ()" "tx_operations t = [Insert path line c]" by blast
  with assms(1) have "bindE (preflight_read sha path (first_expected t)) (\<lambda>cur.
         bindE (lift (prepare_insert cur (first_expected t) path line c)) (\<lambda>x.
         bindE (commit_prepared sha (tx_id t) path cur (id x)
                  (\<lambda>_. verify_insert_semantics sha path line c) ''Insert'' idn) (\<lambda>after.
         ret \<lparr>le_id = tx_id t, le_path = path, le_status = Committed, le_before = pf_before cur,
              le_after = after, le_kind = InsertKind line\<rparr>))) w = (Inl e, w')"
    by (simp add: insert_internal_def bindE_lift)
  then show ?thesis by (rule executor_early [OF _ assms(2)]) (rule verify_late(2))
qed

lemma delete_range_internal_early:
  assumes "delete_range_internal sha idn t w = (Inl e, w')" and "\<not> late_error e" shows "settled w w'"
proof (cases "\<exists>path a b. validate_shape t = Inr () \<and> tx_operations t = [DeleteRange path a b]")
  case False
  then have "w' = w" using assms unfolding delete_range_internal_def bindE_lift
    by (auto split: sum.splits list.splits edit_operation.splits)
  then show ?thesis by (simp add: env_settled)
next
  case True
  then obtain path a b where "validate_shape t = Inr ()" "tx_operations t = [DeleteRange path a b]" by blast
  with assms(1) have "bindE (preflight_read sha path (first_expected t)) (\<lambda>cur.
         bindE (lift (prepare_delete cur (first_expected t) path a b)) (\<lambda>x.
         bindE (commit_prepared sha (tx_id t) path cur (id x)
                  (verify_delete_range_semantics sha path a b) ''DeleteRange'' idn) (\<lambda>after.
         ret \<lparr>le_id = tx_id t, le_path = path, le_status = Committed, le_before = pf_before cur,
              le_after = after, le_kind = DeleteRangeKind a b\<rparr>))) w = (Inl e, w')"
    by (simp add: delete_range_internal_def bindE_lift)
  then show ?thesis by (rule executor_early [OF _ assms(2)]) (rule verify_late(3))
qed

section \<open>Authorization comes first\<close>

definition allowed :: "rfc \<Rightarrow> authz_env \<Rightarrow> principal \<Rightarrow> edit_action \<Rightarrow> string option \<Rightarrow> string \<Rightarrow> bool" where
  "allowed rfc z p act tid res \<longleftrightarrow> authorize_inner rfc z
     \<lparr>rq_action = act, rq_principal = p, rq_resource = res, rq_transaction_id = tid\<rparr> = Allow"

lemma authorize_each_Inr:
  "authorize_each rfc p act tid rs w = (Inr u, w') \<longleftrightarrow> (\<forall>res \<in> set rs. allowed rfc (ew_authz w) p act tid res) \<and> w' = w"
proof (induction rs arbitrary: w)
  case (Cons x rs)
  have "w\<lparr>ew_log := ew_log w\<rparr> = w" by simp
  with Cons show ?case
    by (auto simp: authorize_def allowed_def Let_def split: decision.splits prod.splits)
qed auto

lemma authorize_each_Inl:
  "authorize_each rfc p act tid rs w = (Inl e, w') \<Longrightarrow>
     \<exists>m d ev. e = AuthorizationDenied (tool_name act) m d \<and> w' = w\<lparr>ew_log := ew_log w @ [ev]\<rparr>
       \<and> ev_kind ev = ''deny'' \<and> ac_edit_id (ev_correlation ev) = tid"
proof (induction rs arbitrary: w)
  case (Cons x rs)
  show ?case
  proof (cases "authorize_inner rfc (ew_authz w)
     \<lparr>rq_action = act, rq_principal = p, rq_resource = x, rq_transaction_id = tid\<rparr>")
    case Allow
    then have "authorize_each rfc p act tid rs w = (Inl e, w')"
      using Cons.prems by (simp add: authorize_def Let_def)
    then show ?thesis by (rule Cons.IH)
  next
    case (Deny d m)
    with Cons.prems show ?thesis
      by (auto simp: authorize_def Let_def record_outcome_def denial_correlation_def)
  qed
qed simp

lemma set_unique_resources [simp]: "set (remdups_adj (sort xs)) = set xs" for xs :: "string list"
  by simp

lemma authorize_operation_Inr:
  "authorize_operation rfc p act rs tid w = (Inr u, w') \<longleftrightarrow>
     rs \<noteq> [] \<and> (\<forall>res \<in> set rs. allowed rfc (ew_authz w) p act tid res) \<and> w' = w"
proof -
  have "remdups_adj (sort rs) = [] \<longleftrightarrow> rs = []" by (metis remdups_adj_Nil_iff set_empty set_sort)
  then show ?thesis by (auto simp: authorize_operation_def Let_def authorize_each_Inr)
qed

lemma authorize_operation_Inl:
  assumes "authorize_operation rfc p act rs tid w = (Inl e, w')"
  shows "\<exists>m d. e = AuthorizationDenied (tool_name act) m d"
    and "\<exists>evs. w' = w\<lparr>ew_log := ew_log w @ evs\<rparr> \<and> (rs \<noteq> [] \<longrightarrow> (\<exists>ev. evs = [ev] \<and> ev_kind ev = ''deny''
      \<and> ac_edit_id (ev_correlation ev) = tid))"
proof -
  have ne: "remdups_adj (sort rs) = [] \<longleftrightarrow> rs = []" by (metis remdups_adj_Nil_iff set_empty set_sort)
  show "\<exists>m d. e = AuthorizationDenied (tool_name act) m d"
    using assms ne by (auto simp: authorize_operation_def Let_def split: if_splits dest: authorize_each_Inl)
  show "\<exists>evs. w' = w\<lparr>ew_log := ew_log w @ evs\<rparr> \<and> (rs \<noteq> [] \<longrightarrow> (\<exists>ev. evs = [ev] \<and> ev_kind ev = ''deny''
      \<and> ac_edit_id (ev_correlation ev) = tid))"
  proof (cases "rs = []")
    case True
    with assms have "w' = w\<lparr>ew_log := ew_log w @ []\<rparr>" by (simp add: authorize_operation_def Let_def)
    with True show ?thesis by blast
  next
    case False
    with assms ne authorize_each_Inl show ?thesis
      by (fastforce simp: authorize_operation_def Let_def split: if_splits)
  qed
qed

text \<open>The authorized entry points share one shape.\<close>

lemma as_cases:
  assumes "bindE (authorize_operation rfc p act rs tid) (\<lambda>_. body) w = (r, w')"
  shows "(body w = (r, w') \<and> rs \<noteq> [] \<and> (\<forall>res \<in> set rs. allowed rfc (ew_authz w) p act tid res))
    \<or> ((\<exists>m d. r = Inl (AuthorizationDenied (tool_name act) m d)) \<and> (\<exists>evs. w' = w\<lparr>ew_log := ew_log w @ evs\<rparr>))"
proof -
  obtain r0 w0 where a: "authorize_operation rfc p act rs tid w = (r0, w0)" by fastforce
  show ?thesis
  proof (cases r0)
    case (Inl e)
    with assms a have "r = Inl e" "w' = w0" by (simp_all add: bindE_run)
    with authorize_operation_Inl [OF a [unfolded Inl]] show ?thesis by blast
  next
    case (Inr u)
    with a have "w0 = w" "rs \<noteq> []" "\<forall>res \<in> set rs. allowed rfc (ew_authz w) p act tid res"
      by (simp_all add: authorize_operation_Inr)
    with assms a Inr show ?thesis by (simp add: bindE_run)
  qed
qed

lemma audited_state:
  "audited act idn t body w = (r, w') \<Longrightarrow> \<exists>w1. body w = (r, w1) \<and> same_files w1 w'"
  by (auto simp: audited_def audit_edit_outcome_def log_outcome_def same_files_def
      split: prod.splits option.splits)

lemma guarded_edit_after: "guarded_edit sha t w w1 \<Longrightarrow> same_files w1 w' \<Longrightarrow> guarded_edit sha t w w'"
  unfolding guarded_edit_def using guarded_after same_files_env by blast

lemma committed_edit_after:
  "committed_edit sha t path content prepared w w1 \<Longrightarrow> same_files w1 w' \<Longrightarrow> committed_edit sha t path content prepared w w'"
  unfolding committed_edit_def using verified_after same_files_env by blast

lemma result_after:
  "replaced sha t res w w1 \<Longrightarrow> same_files w1 w2 \<Longrightarrow> replaced sha t res w w2"
  "inserted sha t res' w w1 \<Longrightarrow> same_files w1 w2 \<Longrightarrow> inserted sha t res' w w2"
  "deleted_range sha t res' w w1 \<Longrightarrow> same_files w1 w2 \<Longrightarrow> deleted_range sha t res' w w2"
  unfolding replaced_def inserted_def deleted_range_def by (blast intro: committed_edit_after)+

text \<open>The shape the three authorized entry points share.\<close>

lemma safe_entry:
  assumes cases: "\<And>r1 w1. body w = (r1, w1) \<Longrightarrow> (settled w w1 \<and> isl r1) \<or> guarded_edit sha t w w1"
    and early: "\<And>e w1. body w = (Inl e, w1) \<Longrightarrow> \<not> late_error e \<Longrightarrow> settled w w1"
    and success: "\<And>x w1. body w = (Inr x, w1) \<Longrightarrow> Q x w1"
    and after: "\<And>x w1 w2. Q x w1 \<Longrightarrow> same_files w1 w2 \<Longrightarrow> Q x w2"
    and run: "bindE (authorize_operation rfc p act (transaction_resources t) (Some (tx_id t)))
      (\<lambda>_. audited tool idn t body) w = (r, w')"
  shows "case r of
      Inl e \<Rightarrow> settled w w' \<or> (late_error e \<and> guarded_edit sha t w w'
        \<and> list_all (allowed rfc (ew_authz w) p act (Some (tx_id t))) (transaction_resources t))
    | Inr x \<Rightarrow> Q x w' \<and> list_all (allowed rfc (ew_authz w) p act (Some (tx_id t))) (transaction_resources t)"
  using as_cases [OF run]
proof (elim disjE conjE)
  assume b: "audited tool idn t body w = (r, w')"
    and "\<forall>res \<in> set (transaction_resources t). allowed rfc (ew_authz w) p act (Some (tx_id t)) res"
  then have al: "list_all (allowed rfc (ew_authz w) p act (Some (tx_id t))) (transaction_resources t)"
    by (simp add: list_all_iff)
  from audited_state [OF b] obtain w1 where w1: "body w = (r, w1)" "same_files w1 w'" by blast
  show ?thesis
  proof (cases r)
    case (Inl e)
    show ?thesis
    proof (cases "late_error e")
      case True
      with cases [OF w1(1)] al Inl show ?thesis using settled_same guarded_edit_after w1(2) by auto
    next
      case False
      with early w1 Inl settled_same show ?thesis by fastforce
    qed
  next
    case (Inr x)
    with success after w1 al show ?thesis by fastforce
  qed
next
  assume "\<exists>evs. w' = w\<lparr>ew_log := ew_log w @ evs\<rparr>" "\<exists>m d. r = Inl (AuthorizationDenied (tool_name act) m d)"
  then have "same_files w w'" "isl r" by (auto simp: same_files_def)
  then show ?thesis using env_settled same_files_env by (cases r) auto
qed

lemma replace_as_safe:
  "replace_as sha rfc p t w = (r, w') \<Longrightarrow> case r of
      Inl e \<Rightarrow> settled w w' \<or> (late_error e \<and> guarded_edit sha t w w'
        \<and> list_all (allowed rfc (ew_authz w) p ActReplace (Some (tx_id t))) (transaction_resources t))
    | Inr x \<Rightarrow> replaced sha t x w w'
        \<and> list_all (allowed rfc (ew_authz w) p ActReplace (Some (tx_id t))) (transaction_resources t)"
  unfolding replace_as_def replace_with_identity_def
  by (rule safe_entry [OF replace_internal_cases replace_internal_early replace_internal_Inr])
    (auto dest: result_after)

lemma insert_as_safe:
  "insert_as sha rfc p t w = (r, w') \<Longrightarrow> case r of
      Inl e \<Rightarrow> settled w w' \<or> (late_error e \<and> guarded_edit sha t w w'
        \<and> list_all (allowed rfc (ew_authz w) p ActInsert (Some (tx_id t))) (transaction_resources t))
    | Inr x \<Rightarrow> inserted sha t x w w'
        \<and> list_all (allowed rfc (ew_authz w) p ActInsert (Some (tx_id t))) (transaction_resources t)"
  unfolding insert_as_def insert_with_identity_def
  by (rule safe_entry [OF insert_internal_cases insert_internal_early insert_internal_Inr])
    (auto dest: result_after)

lemma delete_range_as_safe:
  "delete_range_as sha rfc p t w = (r, w') \<Longrightarrow> case r of
      Inl e \<Rightarrow> settled w w' \<or> (late_error e \<and> guarded_edit sha t w w'
        \<and> list_all (allowed rfc (ew_authz w) p ActDeleteRange (Some (tx_id t))) (transaction_resources t))
    | Inr x \<Rightarrow> deleted_range sha t x w w'
        \<and> list_all (allowed rfc (ew_authz w) p ActDeleteRange (Some (tx_id t))) (transaction_resources t)"
  unfolding delete_range_as_def delete_range_with_identity_def
  by (rule safe_entry [OF delete_range_internal_cases delete_range_internal_early delete_range_internal_Inr])
    (auto dest: result_after)

text \<open>
  C1. Under any interference, an authorized replace, insert or range deletion ends in one of
  three ways. (1) It fails and changed no file: the tree is what other actors made of it, plus
  at most new directories. (2) It fails after its one write, and then only with an error of the
  verification that follows the write (the file could not be read again, or was not what was
  predicted): the file keeps the written text. (3) It succeeds: the result names the path, the
  state of the content read before, the state of the prepared text, which is the state the file
  had when it was read again after the write, and for a replace the number of matches, the
  occurrence and its location. In (2) and (3) every resource was allowed, the transaction is
  well shaped, the content read met the expected state, its bytes were captured in the snapshot
  store first, and exactly one atomic write of the prepared text happened, behind a re-read
  whose hash and size are those of the content.
\<close>

theorem single_edits_safe:
  "(case replace_as sha rfc p t w of
      (Inl e, w') \<Rightarrow> settled w w' \<or> (late_error e \<and> guarded_edit sha t w w'
        \<and> list_all (allowed rfc (ew_authz w) p ActReplace (Some (tx_id t))) (transaction_resources t))
    | (Inr res, w') \<Rightarrow> replaced sha t res w w'
        \<and> list_all (allowed rfc (ew_authz w) p ActReplace (Some (tx_id t))) (transaction_resources t))
   \<and> (case insert_as sha rfc p t w of
      (Inl e, w') \<Rightarrow> settled w w' \<or> (late_error e \<and> guarded_edit sha t w w'
        \<and> list_all (allowed rfc (ew_authz w) p ActInsert (Some (tx_id t))) (transaction_resources t))
    | (Inr res, w') \<Rightarrow> inserted sha t res w w'
        \<and> list_all (allowed rfc (ew_authz w) p ActInsert (Some (tx_id t))) (transaction_resources t))
   \<and> (case delete_range_as sha rfc p t w of
      (Inl e, w') \<Rightarrow> settled w w' \<or> (late_error e \<and> guarded_edit sha t w w'
        \<and> list_all (allowed rfc (ew_authz w) p ActDeleteRange (Some (tx_id t))) (transaction_resources t))
    | (Inr res, w') \<Rightarrow> deleted_range sha t res w w'
        \<and> list_all (allowed rfc (ew_authz w) p ActDeleteRange (Some (tx_id t))) (transaction_resources t))"
proof (intro conjI)
  show "case replace_as sha rfc p t w of
      (Inl e, w') \<Rightarrow> settled w w' \<or> (late_error e \<and> guarded_edit sha t w w'
        \<and> list_all (allowed rfc (ew_authz w) p ActReplace (Some (tx_id t))) (transaction_resources t))
    | (Inr res, w') \<Rightarrow> replaced sha t res w w'
        \<and> list_all (allowed rfc (ew_authz w) p ActReplace (Some (tx_id t))) (transaction_resources t)"
    using replace_as_safe [of sha rfc p t w] by (auto split: prod.split sum.split)
  show "case insert_as sha rfc p t w of
      (Inl e, w') \<Rightarrow> settled w w' \<or> (late_error e \<and> guarded_edit sha t w w'
        \<and> list_all (allowed rfc (ew_authz w) p ActInsert (Some (tx_id t))) (transaction_resources t))
    | (Inr res, w') \<Rightarrow> inserted sha t res w w'
        \<and> list_all (allowed rfc (ew_authz w) p ActInsert (Some (tx_id t))) (transaction_resources t)"
    using insert_as_safe [of sha rfc p t w] by (auto split: prod.split sum.split)
  show "case delete_range_as sha rfc p t w of
      (Inl e, w') \<Rightarrow> settled w w' \<or> (late_error e \<and> guarded_edit sha t w w'
        \<and> list_all (allowed rfc (ew_authz w) p ActDeleteRange (Some (tx_id t))) (transaction_resources t))
    | (Inr res, w') \<Rightarrow> deleted_range sha t res w w'
        \<and> list_all (allowed rfc (ew_authz w) p ActDeleteRange (Some (tx_id t))) (transaction_resources t)"
    using delete_range_as_safe [of sha rfc p t w] by (auto split: prod.split sum.split)
qed

lemma denied_entry:
  assumes "\<not> list_all (allowed rfc (ew_authz w) p act tid) rs"
  shows "\<exists>m d ev. bindE (authorize_operation rfc p act rs tid) body w
      = (Inl (AuthorizationDenied (tool_name act) m d), w\<lparr>ew_log := ew_log w @ [ev]\<rparr>)
    \<and> ev_kind ev = ''deny'' \<and> ac_edit_id (ev_correlation ev) = tid"
proof -
  obtain r0 w0 where a: "authorize_operation rfc p act rs tid w = (r0, w0)" by fastforce
  have ne: "rs \<noteq> []" using assms by auto
  obtain e where e: "r0 = Inl e"
    using a assms by (cases r0) (auto simp: authorize_operation_Inr list_all_iff)
  from authorize_operation_Inl [OF a [unfolded e]] ne obtain m d ev where
    "e = AuthorizationDenied (tool_name act) m d" "w0 = w\<lparr>ew_log := ew_log w @ [ev]\<rparr>"
    "ev_kind ev = ''deny''" "ac_edit_id (ev_correlation ev) = tid" by blast
  with a e show ?thesis by (auto simp: bindE_run)
qed

text \<open>
  A denial costs no file work: when one of the resources of the transaction is not allowed,
  the replace, insert and delete entry points return the structured denial and the state differs
  from the one before only in the audit log, which gains one deny event for this edit.
\<close>

theorem denied_changes_nothing:
  assumes "\<not> list_all (allowed rfc (ew_authz w) p ActReplace (Some (tx_id t))) (transaction_resources t)"
  shows "\<exists>m d ev. replace_as sha rfc p t w
      = (Inl (AuthorizationDenied ''filesystem.replace'' m d), w\<lparr>ew_log := ew_log w @ [ev]\<rparr>)
    \<and> ev_kind ev = ''deny'' \<and> ac_edit_id (ev_correlation ev) = Some (tx_id t)"
  using denied_entry [OF assms] by (simp add: replace_as_def)

definition free_locks :: lock_plane where
  "free_locks = \<lparr>lp_files = (\<lambda>_. None), lp_registry = [], lp_now = 0, lp_mutex = [], lp_env = [], lp_dir_ok = True\<rparr>"

definition sample_authz :: "(anyhow + string) \<Rightarrow> authz_env" where
  "sample_authz m = \<lparr>az_manifest = m, az_policy = Absent, az_agents = [], az_grants = [], az_now = 0\<rparr>"

definition sample_world :: "(anyhow + string) \<Rightarrow> edit_world" where
  "sample_world m = \<lparr>fw_root = [''ws''], fw_tree = [[''ws''] \<mapsto> Dir, [''ws'', ''a''] \<mapsto> File ''hello''], fw_env = [],
     ew_locks = free_locks, ew_snap = sample_store, ew_log = [], ew_authz = sample_authz m\<rparr>"

definition sample_replace :: edit_transaction where
  "sample_replace = new_transaction ''e1'' [Replace ''a'' ''hello'' ''bye'' None]"

theorem denied_changes_nothing_witness:
  "\<exists>m d ev. replace_as sample_sha (\<lambda>_. None) (operator_principal ''w'') sample_replace (sample_world (Inl (Plain (Txt ''gone''))))
     = (Inl (AuthorizationDenied ''filesystem.replace'' m d),
        (sample_world (Inl (Plain (Txt ''gone''))))\<lparr>ew_log := [ev]\<rparr>) \<and> ev_kind ev = ''deny''"
proof -
  let ?w = "sample_world (Inl (Plain (Txt ''gone'')))"
  have "\<not> list_all (allowed (\<lambda>_. None) (ew_authz ?w) (operator_principal ''w'') ActReplace (Some (tx_id sample_replace)))
      (transaction_resources sample_replace)"
    by (simp add: allowed_def authorize_inner_def caller_context_def operator_principal_def
        sample_world_def sample_authz_def transaction_resources_def sample_replace_def)
  from denied_changes_nothing [OF this, of sample_sha] show ?thesis
    by (auto simp: sample_world_def)
qed

section \<open>When nothing interferes\<close>

definition calm_lock :: "sha \<Rightarrow> string \<Rightarrow> edit_world \<Rightarrow> bool" where
  "calm_lock sha path w \<longleftrightarrow> (\<exists>key. resource_key sha (fw_tree w) (fw_root w) path = Inr key
     \<and> lp_files (ew_locks w) key = None) \<and> lp_mutex (ew_locks w) = [] \<and> lp_env (ew_locks w) = []
     \<and> lp_dir_ok (ew_locks w) \<and> length (lp_registry (ew_locks w)) < max_registry_keys"

definition calm_snapshots :: "string \<Rightarrow> edit_world \<Rightarrow> bool" where
  "calm_snapshots i w \<longleftrightarrow> sn_env (ew_snap w) = [] \<and> sn_dirs_ok (ew_snap w)
     \<and> snapshot_id_validate (sn_fresh (ew_snap w) (sn_seq (ew_snap w))) = Inr ()
     \<and> validate_id_component i = Inr () \<and> (\<forall>r. sn_json_len (ew_snap w) r \<le> max_provenance_bytes)"

lemma acquire_calm:
  assumes "resource_key sha t root path = Inr key" and "lp_files p key = None" and "lp_mutex p = []"
    and "lp_env p = []" and "lp_dir_ok p" and "length (lp_registry p) < max_registry_keys"
  shows "\<exists>q. acquire sha t root [path] p = (Inr [key], q)"
proof -
  have "\<exists>q. acquire_one key p = (Inr (), q)"
    using assms
    by (auto simp: acquire_one_def bindE_run map_err_run registry_entry_def poll_mutex.simps [of key]
        poll_lock_file.simps [of key] try_lock_file_def between_polls_def)
  then show ?thesis using assms by (auto simp: acquire_def max_locks_per_set_def)
qed

lemma coordinate_calm:
  assumes "calm_lock sha path w"
  shows "\<exists>ks q. coordinate sha [path] w = (Inr ks, w\<lparr>ew_locks := q\<rparr>)"
proof -
  from assms obtain key where "resource_key sha (fw_tree w) (fw_root w) path = Inr key"
    "lp_files (ew_locks w) key = None" "lp_mutex (ew_locks w) = []" "lp_env (ew_locks w) = []"
    "lp_dir_ok (ew_locks w)" "length (lp_registry (ew_locks w)) < max_registry_keys"
    by (auto simp: calm_lock_def)
  from acquire_calm [OF this] show ?thesis by (auto simp: coordinate_def)
qed

lemma next_storage_calm [simp]: "sn_env s = [] \<Longrightarrow> next_storage_event s = (WriteOk, s)"
  by (simp add: next_storage_event_def)

lemma snapshot_create_calm:
  assumes "sn_env s = []" and "sn_dirs_ok s" and "snapshot_id_validate (sn_fresh s (sn_seq s)) = Inr ()"
    and "validate_id_component i = Inr ()" and "validate_path path = Inr ()" and "length b \<le> max_file_bytes"
  shows "\<exists>m s'. snapshot_create sha i [(path, b)] None s = (Inr m, s') \<and> sn_env s' = [] \<and> sn_dirs_ok s'
    \<and> sn_json_len s' = sn_json_len s"
proof -
  have len: "length b \<le> max_snapshot_content_bytes"
    using assms(6) by (simp add: max_file_bytes_def max_snapshot_content_bytes_def)
  then have "length b \<le> max_snapshot_content_bytes * max_snapshot_files"
    by (simp add: max_snapshot_files_def)
  moreover have "entry_id_validate (snapshot_entry_id 0) = Inr ()" by (rule entry_id_valid) simp
  ultimately show ?thesis using assms len
    by (simp add: snapshot_create_def create_snapshot_def bindE_run ensure_def max_snapshot_files_def
        check_snapshot_sizes_def ensure_dirs_def fresh_snapshot_id_def store_lock_def
        write_verified_blob_def Let_def commit_manifest_def)
qed

lemma record_provenance_calm:
  assumes "sn_env s = []" and "sn_dirs_ok s" and "snapshot_id_validate (pv_snapshot_id r) = Inr ()"
    and "validate_id_component (pv_edit_id r) = Inr ()" and "sn_json_len s r \<le> max_provenance_bytes"
  shows "\<exists>s'. record_provenance r s = (Inr (), s')"
  using assms by (simp add: record_provenance_def bindE_run map_err_run ensure_dirs_def ensure_def)

lemma verify_live_calm:
  assumes "calm_file path w" and "file_holds w path = Some b" and "file_fits b"
  shows "verify_live_unchanged sha path (state_of sha path b) w = (Inr (), w)"
  using calm_files.read_calm [OF assms] by (simp add: verify_live_Inr state_of_def)

lemma write_calm_files:
  assumes "calm_file path w" and "file_fits c"
  shows "write_atomic_locked path c w = (Inr (), w\<lparr>fw_tree := (fw_tree w)(join (fw_root w) path \<mapsto> File c)\<rparr>)"
  using assms by (intro write_atomic_plain) (simp_all add: calm_file_def file_fits_def)

lemma calm_file_written:
  assumes "calm_file path w"
  shows "calm_file path (w\<lparr>fw_tree := (fw_tree w)(join (fw_root w) path \<mapsto> File c)\<rparr>)"
    and "file_holds (w\<lparr>fw_tree := (fw_tree w)(join (fw_root w) path \<mapsto> File c)\<rparr>) path = Some c"
  using assms calm_target_not_dir [OF assms] by (simp_all add: calm_file_def plain_target_upd file_holds_def)

lemma commit_locked_calm:
  assumes "calm_file path w" and "file_holds w path = Some b" and "file_fits b" and "file_fits c" and "valid_utf8 c"
  shows "commit_verified_locked sha path c (state_of sha path b) w
    = (Inr (state_of sha path c), w\<lparr>fw_tree := (fw_tree w)(join (fw_root w) path \<mapsto> File c)\<rparr>)"
  using verify_live_calm [OF assms(1-3)] write_calm_files [OF assms(1,4)]
    read_text_calm [OF calm_file_written [OF assms(1)] assms(4,5)]
  by (simp add: commit_verified_locked_def bindE_run map_err_run Let_def)

lemma calm_file_cong:
  "fw_env w' = fw_env w \<Longrightarrow> fw_tree w' = fw_tree w \<Longrightarrow> fw_root w' = fw_root w \<Longrightarrow>
     calm_file path w' = calm_file path w \<and> file_holds w' path = file_holds w path"
  by (simp add: calm_file_def file_holds_def)

text \<open>
  The commit of a prepared text with nothing interfering: the file holds the text, the recovery
  view of the edit holds the content before, and no other path changed.
\<close>

lemma commit_prepared_calm:
  assumes calm: "calm_file path w" "file_holds w path = Some (pf_content cur)"
    and fits: "file_fits (pf_content cur)" "file_fits c" and c: "valid_utf8 c"
    and before: "pf_before cur = state_of sha path (pf_content cur)"
    and locks: "calm_lock sha path w" and sn: "calm_snapshots i w" and vp: "validate_path path = Inr ()"
    and verify: "\<And>u :: edit_world. calm_file path u \<Longrightarrow> file_holds u path = Some c \<Longrightarrow>
      verify (state_of sha path c) u = (Inr (), u)"
  shows "\<exists>w'. commit_prepared sha i path cur c verify label idn w = (Inr (state_of sha path c), w')
    \<and> fw_tree w' = (fw_tree w)(join (fw_root w) path \<mapsto> File c)
    \<and> recovery_view sha i (ew_snap w') = Inr [(path, Some (pf_content cur))] \<and> ew_log w' = ew_log w"
proof -
  let ?b = "pf_content cur"
  from sn fits(1) vp obtain m s1 where cr: "snapshot_create sha i [(path, ?b)] None (ew_snap w) = (Inr m, s1)"
    and s1: "sn_env s1 = []" "sn_dirs_ok s1" "sn_json_len s1 = sn_json_len (ew_snap w)"
    using snapshot_create_calm [of "ew_snap w" i path ?b sha] by (auto simp: calm_snapshots_def file_fits_def)
  let ?w1 = "w\<lparr>ew_snap := s1\<rparr>"
  have cap: "capture_durable_recovery sha i [(path, ?b)] w = (Inr m, ?w1)"
    using cr by (simp add: capture_durable_recovery_def map_err_run on_snap_def)
  have "calm_lock sha path ?w1" using locks by (simp add: calm_lock_def)
  then obtain ks q where co: "coordinate sha [path] ?w1 = (Inr ks, ?w1\<lparr>ew_locks := q\<rparr>)"
    using coordinate_calm by blast
  let ?w2 = "?w1\<lparr>ew_locks := q\<rparr>"
  have "calm_file path ?w2" "file_holds ?w2 path = Some ?b"
    using calm calm_file_cong [of ?w2 w path] by simp_all
  note lk = commit_locked_calm [OF this fits c, of sha]
  let ?w3 = "?w2\<lparr>fw_tree := (fw_tree w)(join (fw_root w) path \<mapsto> File c), ew_locks := release_keys ks q\<rparr>"
  have cv: "commit_verified sha path c (pf_before cur) ?w1 = (Inr (state_of sha path c), ?w3)"
    using co lk by (simp add: commit_verified_def bindE_run holding_def before)
  have calm3: "calm_file path ?w3" "file_holds ?w3 path = Some c"
    using calm_file_written [OF calm(1), of c] by (simp_all add: calm_file_def file_holds_def)
  let ?r = "make_provenance i m [(path, st_hash (state_of sha path c))] [label] [path] idn (sn_now s1)"
  note ok = create_snapshot_ok [OF cr [unfolded snapshot_create_def]]
  have "snapshot_id_validate (sp_id m) = Inr ()" "validate_id_component i = Inr ()" using ok by blast+
  then have "snapshot_id_validate (pv_snapshot_id ?r) = Inr ()" "validate_id_component (pv_edit_id ?r) = Inr ()"
    by (simp_all add: make_provenance_def)
  with s1 sn obtain s2 where rp: "record_provenance ?r s1 = (Inr (), s2)"
    using record_provenance_calm [of s1 ?r] by (auto simp: calm_snapshots_def)
  have "record_edit_provenance i m [(path, st_hash (state_of sha path c))] [label] [path] idn ?w3
      = (Inr (), ?w3\<lparr>ew_snap := s2\<rparr>)"
    using rp by (simp add: record_edit_provenance_def bindE_run map_err_run on_snap_def)
  then have run: "commit_prepared sha i path cur c verify label idn w = (Inr (state_of sha path c), ?w3\<lparr>ew_snap := s2\<rparr>)"
    using cap cv verify [OF calm3] by (simp add: commit_prepared_def bindE_run attempt_run)
  have "recovery_view sha i s2 = Inr (map file_view (sort_key snapshot_file_path [ExistingFile path ?b]))"
    using sn cr by (intro recovery_view_created [OF _ _ rp])
      (auto simp: snapshot_create_def make_provenance_def collision_free_def calm_snapshots_def)
  with run show ?thesis by simp
qed

definition calm_edit :: "sha \<Rightarrow> edit_transaction \<Rightarrow> string \<Rightarrow> string \<Rightarrow> edit_world \<Rightarrow> bool" where
  "calm_edit sha t path content w \<longleftrightarrow> calm_file path w \<and> file_holds w path = Some content \<and> file_fits content
     \<and> valid_utf8 content \<and> calm_lock sha path w \<and> calm_snapshots (tx_id t) w \<and> validate_shape t = Inr ()
     \<and> check_expected path (state_of sha path content) (first_expected t) = Inr ()"

lemma preflight_calm:
  assumes "calm_edit sha t path content w" and "validate_path path = Inr ()"
  shows "preflight_read sha path (first_expected t) w
    = (Inr \<lparr>pf_content = content, pf_before = state_of sha path content\<rparr>, w)"
  using assms calm_files.read_calm [of path w content] by (simp add: preflight_Inr calm_edit_def)

lemma shape_path:
  assumes "validate_shape t = Inr ()" and "tx_operations t = [op]" and "op_paths op = [path]"
  shows "validate_path path = Inr ()"
  using assms by (cases op) (auto simp: validate_shape_Inr bindR_unit_Inr_iff)

lemma find_matches_mem: "new \<noteq> [] \<Longrightarrow> find_matches (a @ new @ b) new \<noteq> []"
  by (simp add: find_matches_Nil contains_iff) blast

lemma verify_replace_calm:
  assumes "calm_file path u" and "file_holds u path = Some (a @ new @ b)" and "file_fits (a @ new @ b)"
    and "valid_utf8 (a @ new @ b)" and "new \<noteq> []"
  shows "verify_replace_semantics sha path old new occ u = (Inr (), u)"
  using read_text_calm [OF assms(1-4)] find_matches_mem [OF assms(5), of a b]
  by (simp add: verify_replace_semantics_def read_back_def bindE_run map_err_run Let_def)

lemma sample_calm_parts:
  "calm_file ''a'' (sample_world m)" "file_holds (sample_world m) ''a'' = Some ''hello''"
  "calm_lock sample_sha ''a'' (sample_world m)" "calm_snapshots ''e1'' (sample_world m)"
proof -
  have d: "dir_path (fw_tree (sample_world m)) [''ws'']"
    using dir_path_snoc [of "fw_tree (sample_world m)" "[]" "''ws''"]
    by (simp add: sample_world_def normal_name_def is_special_def)
  have j: "join [''ws''] ''a'' = [''ws''] @ [''a'']" by (simp add: join_def target_components_def)
  have "plain_file (fw_tree (sample_world m)) ([''ws''] @ [''a''])"
    unfolding plain_snoc using d by (simp add: sample_world_def normal_name_def is_special_def)
  with d show "calm_file ''a'' (sample_world m)"
    using j by (simp add: calm_file_def plain_target_def) (simp add: sample_world_def)
  show "file_holds (sample_world m) ''a'' = Some ''hello''"
    using j by (simp add: file_holds_def sample_world_def)
  have "case resource_key sample_sha [[''ws''] \<mapsto> Dir, [''ws'', ''a''] \<mapsto> File ''hello''] [''ws''] ''a'' of
      Inl _ \<Rightarrow> False | Inr _ \<Rightarrow> True" by code_simp
  then obtain key where "resource_key sample_sha [[''ws''] \<mapsto> Dir, [''ws'', ''a''] \<mapsto> File ''hello''] [''ws''] ''a'' = Inr key"
    by (auto split: sum.splits)
  then show "calm_lock sample_sha ''a'' (sample_world m)"
    by (simp add: calm_lock_def sample_world_def free_locks_def max_registry_keys_def)
  have "snapshot_id_validate (''snap-'' @ dec 1) = Inr ()" "validate_id_component ''e1'' = Inr ()"
    by code_simp+
  then show "calm_snapshots ''e1'' (sample_world m)"
    by (simp add: calm_snapshots_def sample_world_def sample_store_def)
qed

lemma sample_calm_edit:
  assumes "tx_id t = ''e1''" and "tx_expected t = []" and "validate_shape t = Inr ()"
  shows "calm_edit sample_sha t ''a'' ''hello'' (sample_world m)"
proof -
  have "valid_utf8 ''hello''" by code_simp
  then show ?thesis using sample_calm_parts assms
    by (simp add: calm_edit_def file_fits_def max_file_bytes_def check_expected_def first_expected_def)
qed

lemma replace_runs:
  assumes calm: "calm_edit sha t path content w" and ops: "tx_operations t = [Replace path old new occ]"
    and prep: "prepare_replace \<lparr>pf_content = content, pf_before = state_of sha path content\<rparr>
      (first_expected t) path old new occ = Inr rp"
    and new: "new \<noteq> []" "valid_utf8 old" "valid_utf8 new" and fits: "file_fits (rp_prepared rp)"
  shows "\<exists>res w'. edit_replace sha t w = (Inr res, w') \<and> er_status res = Committed
    \<and> er_after res = state_of sha path (rp_prepared rp) \<and> er_before res = state_of sha path content
    \<and> fw_tree w' = (fw_tree w)(join (fw_root w) path \<mapsto> File (rp_prepared rp))
    \<and> recovery_view sha (tx_id t) (ew_snap w') = Inr [(path, Some content)]"
proof -
  let ?cur = "\<lparr>pf_content = content, pf_before = state_of sha path content\<rparr>"
  have shape: "validate_shape t = Inr ()" using calm by (simp add: calm_edit_def)
  have vp: "validate_path path = Inr ()" using shape_path [OF shape ops] by simp
  have old: "old \<noteq> []" using shape ops by (auto simp: validate_shape_Inr bindR_unit_Inr_iff split: if_splits)
  have cu: "valid_utf8 content" using calm by (simp add: calm_edit_def)
  from prepare_replace_parts [OF prep _ new(2,3) old] cu obtain a b
    where ab: "rp_prepared rp = a @ new @ b" and v: "valid_utf8 (rp_prepared rp)" by auto
  have "\<exists>w'. commit_prepared sha (tx_id t) path ?cur (rp_prepared rp)
      (\<lambda>_. verify_replace_semantics sha path old new occ) ''Replace'' None w = (Inr (state_of sha path (rp_prepared rp)), w')
    \<and> fw_tree w' = (fw_tree w)(join (fw_root w) path \<mapsto> File (rp_prepared rp))
    \<and> recovery_view sha (tx_id t) (ew_snap w') = Inr [(path, Some (pf_content ?cur))] \<and> ew_log w' = ew_log w"
    using calm fits v vp verify_replace_calm [of path _ a new b] new(1)
    by (intro commit_prepared_calm) (simp_all add: calm_edit_def ab)
  then obtain w' where run: "commit_prepared sha (tx_id t) path ?cur (rp_prepared rp)
      (\<lambda>_. verify_replace_semantics sha path old new occ) ''Replace'' None w = (Inr (state_of sha path (rp_prepared rp)), w')"
    and w': "fw_tree w' = (fw_tree w)(join (fw_root w) path \<mapsto> File (rp_prepared rp))"
      "recovery_view sha (tx_id t) (ew_snap w') = Inr [(path, Some content)]" by auto
  have "\<exists>res. replace_internal sha None t w = (Inr res, w') \<and> er_status res = Committed
      \<and> er_after res = state_of sha path (rp_prepared rp) \<and> er_before res = state_of sha path content"
    using shape ops preflight_calm [OF calm vp] prep run by (simp add: replace_internal_def bindE_run)
  then show ?thesis using w'
    by (auto simp: edit_replace_def replace_with_identity_def audited_def err_of_def
        audit_edit_outcome_def log_outcome_def)
qed

text \<open>
  A well-formed replace succeeds when nothing interferes: if the match is selected, its
  context holds and the replacement text is not empty, the result is committed, the file holds
  the prepared text, no other path changed, and the recovery view holds the content before.
\<close>

theorem replace_succeeds:
  assumes calm: "calm_edit sha t path content w" and ops: "tx_operations t = [Replace path old new occ]"
    and prep: "prepare_replace \<lparr>pf_content = content, pf_before = state_of sha path content\<rparr>
      (first_expected t) path old new occ = Inr rp"
    and new: "new \<noteq> []" "valid_utf8 old" "valid_utf8 new" and fits: "file_fits (rp_prepared rp)"
  shows "\<exists>res w'. edit_replace sha t w = (Inr res, w') \<and> er_status res = Committed
    \<and> er_after res = state_of sha path (rp_prepared rp) \<and> er_before res = state_of sha path content
    \<and> fw_tree w' = (fw_tree w)(join (fw_root w) path \<mapsto> File (rp_prepared rp))
    \<and> recovery_view sha (tx_id t) (ew_snap w') = Inr [(path, Some content)]"
  by (rule replace_runs [OF assms])

theorem replace_succeeds_witness:
  "\<exists>res w'. edit_replace sample_sha sample_replace (sample_world (Inr ''w'')) = (Inr res, w')
     \<and> er_status res = Committed \<and> fw_tree w' [''ws'', ''a''] = Some (File ''bye'')
     \<and> recovery_view sample_sha ''e1'' (ew_snap w') = Inr [(''a'', Some ''hello'')]"
proof -
  let ?cur = "\<lparr>pf_content = ''hello'', pf_before = state_of sample_sha ''a'' ''hello''\<rparr>"
  have sh: "validate_shape sample_replace = Inr ()" by code_simp
  have ex: "first_expected sample_replace = None" by (simp add: first_expected_def sample_replace_def)
  have "case prepare_replace ?cur None ''a'' ''hello'' ''bye'' None of Inl _ \<Rightarrow> False
    | Inr rp \<Rightarrow> rp_prepared rp = ''bye''" by code_simp
  then obtain rp where rp: "prepare_replace ?cur None ''a'' ''hello'' ''bye'' None = Inr rp" "rp_prepared rp = ''bye''"
    by (auto split: sum.splits)
  have v: "valid_utf8 ''hello''" "valid_utf8 ''bye''" by code_simp+
  have c: "calm_edit sample_sha sample_replace ''a'' ''hello'' (sample_world (Inr ''w''))"
    using sh by (intro sample_calm_edit) (simp_all add: sample_replace_def)
  have o: "tx_operations sample_replace = [Replace ''a'' ''hello'' ''bye'' None]" by (simp add: sample_replace_def)
  have "join (fw_root (sample_world (Inr ''w''))) ''a'' = [''ws'', ''a'']"
    by (simp add: join_def target_components_def sample_world_def)
  with replace_succeeds [OF c o] rp v ex show ?thesis
    by (auto simp: file_fits_def max_file_bytes_def sample_replace_def)
qed

lemma verify_delete_calm:
  assumes "calm_file path u" and "file_holds u path = Some c" and "file_fits c" and "valid_utf8 c"
  shows "verify_delete_range_semantics sha path a b (state_of sha path c) u = (Inr (), u)"
  using read_text_calm [OF assms]
  by (simp add: verify_delete_range_semantics_def read_back_def bindE_run map_err_run Let_def
      state_of_def lm_len_line_count del: lm_len_lines)

lemma insert_at_contains: "contains (insert_at m content line body) body"
proof -
  obtain a b where "insert_at m content line body = a @ body @ b"
  proof (cases "line = lm_len m + 1 \<and> lacks_trailing_newline m")
    case True
    then show thesis
      using that [of "content @ terminator_str m" "if ends_with body [LF] then [] else terminator_str m"]
      by (simp add: insert_at_def Let_def)
  next
    case False
    let ?o = "insert_offset m line"
    from False show thesis
      using that [of "take ?o content" "(if ends_with body [LF] then [] else terminator_str m) @ drop ?o content"]
      by (auto simp: insert_at_def Let_def)
  qed
  then show ?thesis by (auto simp: contains_iff)
qed

lemma verify_insert_calm:
  assumes "calm_file path u" and "file_holds u path = Some (insert_at m content line body)"
    and "file_fits (insert_at m content line body)" and "valid_utf8 (insert_at m content line body)"
  shows "verify_insert_semantics sha path line body u = (Inr (), u)"
  using read_text_calm [OF assms] insert_at_contains [of m content line body]
  by (simp add: verify_insert_semantics_def read_back_def bindE_run map_err_run)

text \<open>
  Inserting at a boundary within \<open>0..=lines+1\<close> succeeds when nothing interferes: the file
  holds the inserted text at that boundary, and the recovery view the content before.
\<close>

theorem insert_succeeds:
  assumes calm: "calm_edit sha t path content w" and ops: "tx_operations t = [Insert path line body]"
    and prep: "prepare_insert \<lparr>pf_content = content, pf_before = state_of sha path content\<rparr>
      (first_expected t) path line body = Inr c" and v: "valid_utf8 c" and fits: "file_fits c"
  shows "\<exists>res w'. edit_insert sha t w = (Inr res, w') \<and> le_status res = Committed
    \<and> le_after res = state_of sha path c
    \<and> fw_tree w' = (fw_tree w)(join (fw_root w) path \<mapsto> File (insert_at (parse_lines content) content line body))
    \<and> recovery_view sha (tx_id t) (ew_snap w') = Inr [(path, Some content)]"
proof -
  let ?cur = "\<lparr>pf_content = content, pf_before = state_of sha path content\<rparr>"
  have shape: "validate_shape t = Inr ()" using calm by (simp add: calm_edit_def)
  have vp: "validate_path path = Inr ()" using shape_path [OF shape ops] by simp
  have c: "c = insert_at (parse_lines content) content line body" using prep by (simp add: prepare_insert_Inr)
  have "\<exists>w'. commit_prepared sha (tx_id t) path ?cur c
      (\<lambda>_. verify_insert_semantics sha path line body) ''Insert'' None w = (Inr (state_of sha path c), w')
    \<and> fw_tree w' = (fw_tree w)(join (fw_root w) path \<mapsto> File c)
    \<and> recovery_view sha (tx_id t) (ew_snap w') = Inr [(path, Some (pf_content ?cur))] \<and> ew_log w' = ew_log w"
    using calm fits v vp verify_insert_calm [of path _ "parse_lines content" content line body, folded c]
    by (intro commit_prepared_calm) (simp_all add: calm_edit_def)
  then obtain w' where run: "commit_prepared sha (tx_id t) path ?cur c
      (\<lambda>_. verify_insert_semantics sha path line body) ''Insert'' None w = (Inr (state_of sha path c), w')"
    and w': "fw_tree w' = (fw_tree w)(join (fw_root w) path \<mapsto> File c)"
      "recovery_view sha (tx_id t) (ew_snap w') = Inr [(path, Some content)]" by auto
  have "\<exists>res. insert_internal sha None t w = (Inr res, w') \<and> le_status res = Committed
      \<and> le_after res = state_of sha path c"
    using shape ops preflight_calm [OF calm vp] prep run by (simp add: insert_internal_def bindE_run)
  then show ?thesis using w' unfolding c
    by (auto simp: edit_insert_def insert_with_identity_def audited_def err_of_def
        audit_edit_outcome_def log_outcome_def)
qed

definition sample_insert :: edit_transaction where
  "sample_insert = new_transaction ''e1'' [Insert ''a'' 1 ''top'']"

theorem insert_succeeds_witness:
  "\<exists>res w'. edit_insert sample_sha sample_insert (sample_world (Inr ''w'')) = (Inr res, w')
     \<and> fw_tree w' [''ws'', ''a''] = Some (File (''top'' @ LF # ''hello''))"
proof -
  let ?cur = "\<lparr>pf_content = ''hello'', pf_before = state_of sample_sha ''a'' ''hello''\<rparr>"
  have sh: "validate_shape sample_insert = Inr ()" by code_simp
  have ex: "first_expected sample_insert = None" by (simp add: first_expected_def sample_insert_def)
  have p: "prepare_insert ?cur None ''a'' 1 ''top'' = Inr (''top'' @ LF # ''hello'')" by code_simp
  then have i: "insert_at (parse_lines ''hello'') ''hello'' 1 ''top'' = ''top'' @ LF # ''hello''"
    by (simp add: prepare_insert_Inr)
  have v: "valid_utf8 (''top'' @ LF # ''hello'')" by code_simp
  have c: "calm_edit sample_sha sample_insert ''a'' ''hello'' (sample_world (Inr ''w''))"
    using sh by (intro sample_calm_edit) (simp_all add: sample_insert_def)
  have o: "tx_operations sample_insert = [Insert ''a'' 1 ''top'']" by (simp add: sample_insert_def)
  have j: "join (fw_root (sample_world (Inr ''w''))) ''a'' = [''ws'', ''a'']"
    by (simp add: join_def target_components_def sample_world_def)
  have fits: "file_fits (''top'' @ LF # ''hello'')" by (simp add: file_fits_def max_file_bytes_def)
  from insert_succeeds [OF c o _ v fits] p ex show ?thesis unfolding j i by fastforce
qed

text \<open>
  Deleting a line range succeeds when nothing interferes, and the lines of the file become
  those before the range and those after it.
\<close>

theorem delete_range_succeeds:
  assumes calm: "calm_edit sha t path content w" and ops: "tx_operations t = [DeleteRange path a b]"
    and prep: "prepare_delete \<lparr>pf_content = content, pf_before = state_of sha path content\<rparr>
      (first_expected t) path a b = Inr c" and v: "valid_utf8 c"
  shows "\<exists>res w'. edit_delete_range sha t w = (Inr res, w') \<and> le_status res = Committed
    \<and> fw_tree w' = (fw_tree w)(join (fw_root w) path \<mapsto> File c)
    \<and> split_inclusive c = take (a - 1) (split_inclusive content) @ drop b (split_inclusive content)
    \<and> st_line_count (le_after res) + (b - a + 1) = st_line_count (le_before res)
    \<and> recovery_view sha (tx_id t) (ew_snap w') = Inr [(path, Some content)]"
proof -
  let ?cur = "\<lparr>pf_content = content, pf_before = state_of sha path content\<rparr>"
  have shape: "validate_shape t = Inr ()" using calm by (simp add: calm_edit_def)
  have vp: "validate_path path = Inr ()" using shape_path [OF shape ops] by simp
  have ab: "0 < a" "a \<le> b" using shape ops by (auto simp: validate_shape_Inr bindR_unit_Inr_iff split: if_splits)
  from prepare_delete_Inr [OF prep ab] obtain x y where xy: "line_span (parse_lines content) a b = Some (x, y)"
    and c: "c = take x content @ drop y content" by (auto simp: splice_def)
  note ls = delete_span_split [OF xy, folded c]
  have fits: "file_fits c" using calm ls unfolding c by (auto simp: calm_edit_def file_fits_def)
  have "\<exists>w'. commit_prepared sha (tx_id t) path ?cur c
      (verify_delete_range_semantics sha path a b) ''DeleteRange'' None w = (Inr (state_of sha path c), w')
    \<and> fw_tree w' = (fw_tree w)(join (fw_root w) path \<mapsto> File c)
    \<and> recovery_view sha (tx_id t) (ew_snap w') = Inr [(path, Some (pf_content ?cur))] \<and> ew_log w' = ew_log w"
    using calm fits v vp verify_delete_calm [of path _ c]
    by (intro commit_prepared_calm) (simp_all add: calm_edit_def)
  then obtain w' where run: "commit_prepared sha (tx_id t) path ?cur c
      (verify_delete_range_semantics sha path a b) ''DeleteRange'' None w = (Inr (state_of sha path c), w')"
    and w': "fw_tree w' = (fw_tree w)(join (fw_root w) path \<mapsto> File c)"
      "recovery_view sha (tx_id t) (ew_snap w') = Inr [(path, Some content)]" by auto
  have "\<exists>res. delete_range_internal sha None t w = (Inr res, w') \<and> le_status res = Committed
      \<and> le_after res = state_of sha path c \<and> le_before res = state_of sha path content"
    using shape ops preflight_calm [OF calm vp] prep run by (simp add: delete_range_internal_def bindE_run)
  then show ?thesis using w' ls
    by (auto simp: edit_delete_range_def delete_range_with_identity_def audited_def err_of_def
        audit_edit_outcome_def log_outcome_def state_of_def)
qed

definition sample_delete :: edit_transaction where
  "sample_delete = new_transaction ''e1'' [DeleteRange ''a'' 1 1]"

theorem delete_range_succeeds_witness:
  "\<exists>res w'. edit_delete_range sample_sha sample_delete (sample_world (Inr ''w'')) = (Inr res, w')
     \<and> fw_tree w' [''ws'', ''a''] = Some (File [])"
proof -
  let ?cur = "\<lparr>pf_content = ''hello'', pf_before = state_of sample_sha ''a'' ''hello''\<rparr>"
  have sh: "validate_shape sample_delete = Inr ()" by code_simp
  have ex: "first_expected sample_delete = None" by (simp add: first_expected_def sample_delete_def)
  have p: "prepare_delete ?cur None ''a'' 1 1 = Inr []" by code_simp
  have c: "calm_edit sample_sha sample_delete ''a'' ''hello'' (sample_world (Inr ''w''))"
    using sh by (intro sample_calm_edit) (simp_all add: sample_delete_def)
  have o: "tx_operations sample_delete = [DeleteRange ''a'' 1 1]" by (simp add: sample_delete_def)
  have j: "join (fw_root (sample_world (Inr ''w''))) ''a'' = [''ws'', ''a'']"
    by (simp add: join_def target_components_def sample_world_def)
  from delete_range_succeeds [OF c o _ valid_Nil] p ex show ?thesis unfolding j by fastforce
qed

section \<open>An empty replacement\<close>

text \<open>
  The code comments that an empty replacement is allowed (a deletion of the match). The semantic
  verification then looks for the empty text, finds no match, and reports a failure after the
  file was written; the provenance of the edit is not recorded.
\<close>

theorem empty_replacement_written_but_failed:
  "case edit_replace sample_sha (new_transaction ''e1'' [Replace ''a'' ''hello'' [] None]) (sample_world (Inr ''w'')) of
     (r, w') \<Rightarrow> (case r of Inl (SemanticVerificationFailure _ _ _ _ _ _) \<Rightarrow> True | _ \<Rightarrow> False)
       \<and> fw_tree w' [''ws'', ''a''] = Some (File []) \<and> sn_provenance (ew_snap w') = []"
  by code_simp

end
