(* ===== verification/Json.thy ===== *)
theory Json
  imports Stores "HOL-Library.Word" "HOL-Library.Log_Nat" Complex_Main
begin

text \<open>
  JSON values (\<open>serde_json::Value\<close>) and the part of \<open>f64\<close> the code computes with.

  An object is the list of its entries in the order of its map, which is that of the keys; a number
  is an unsigned or a negative 64-bit integer or a finite float. A finite float is the rational it
  denotes, so the two zeros are one; \<open>fl\<close> and \<open>fl32\<close> round a rational to the nearest \<open>f64\<close> and
  \<open>f32\<close>, to even on a tie, and are \<open>None\<close> where the result is infinite.
\<close>

section \<open>Floats\<close>

definition pow2 :: "int \<Rightarrow> rat" where
  "pow2 e = (if 0 \<le> e then 2 ^ nat e else 1 / 2 ^ nat (- e))"

text \<open>The exponent of a positive rational: \<open>2^e \<le> x < 2^(e+1)\<close>.\<close>

definition exponent :: "rat \<Rightarrow> int" where
  "exponent x = (case quotient_of x of (p, q) \<Rightarrow>
     let e = int (floorlog 2 (nat p)) - int (floorlog 2 (nat q)) in if pow2 e \<le> x then e else e - 1)"

definition round_half_even :: "rat \<Rightarrow> int" where
  "round_half_even x = (let f = \<lfloor>x\<rfloor>; d = x - of_int f in
     if d < 1 / 2 \<or> d = 1 / 2 \<and> even f then f else f + 1)"

definition round_float :: "int \<Rightarrow> int \<Rightarrow> nat \<Rightarrow> rat \<Rightarrow> rat option" where
  "round_float precision lowest overflow x = (if x = 0 then Some 0 else
     let e = max (exponent \<bar>x\<bar> - (precision - 1)) lowest; r = of_int (round_half_even (\<bar>x\<bar> / pow2 e)) * pow2 e
     in if 2 ^ overflow \<le> r then None else Some (if x < 0 then - r else r))"

definition fl :: "rat \<Rightarrow> rat option" where "fl = round_float 53 (- 1074) 1024"
definition fl32 :: "rat \<Rightarrow> rat option" where "fl32 = round_float 24 (- 149) 128"

text \<open>An integer of at most 64 bits as a float; the conversion cannot overflow.\<close>

definition float_of_int :: "int \<Rightarrow> rat" where
  "float_of_int n = (case fl (of_int n) of Some r \<Rightarrow> r | None \<Rightarrow> 0)"

text \<open>\<open>as i64\<close> truncates and saturates; \<open>round\<close> takes a half away from zero.\<close>

definition truncate :: "rat \<Rightarrow> int" where
  "truncate x = (if 0 \<le> x then \<lfloor>x\<rfloor> else \<lceil>x\<rceil>)"

definition as_i64_cast :: "rat \<Rightarrow> int" where
  "as_i64_cast x = max (- (2 ^ 63)) (min (2 ^ 63 - 1) (truncate x))"

definition round_away :: "rat \<Rightarrow> int" where
  "round_away x = (if 0 \<le> x then \<lfloor>x + 1 / 2\<rfloor> else \<lceil>x - 1 / 2\<rceil>)"

definition is_integral :: "rat \<Rightarrow> bool" where
  "is_integral x \<longleftrightarrow> of_int \<lfloor>x\<rfloor> = x"

section \<open>Values\<close>

datatype number = PosInt "64 word" | NegInt "64 word" | Float rat

datatype json =
  JNull | JBool bool | JNum number | JStr string | JArr "json list"
| JObj "(string \<times> json) list"

fun json_get :: "json \<Rightarrow> string \<Rightarrow> json option" where
  "json_get (JObj kvs) k = map_of kvs k"
| "json_get _ k = None"

fun as_str :: "json \<Rightarrow> string option" where
  "as_str (JStr s) = Some s"
| "as_str _ = None"

fun as_bool :: "json \<Rightarrow> bool option" where
  "as_bool (JBool b) = Some b"
| "as_bool _ = None"

fun as_u64 :: "json \<Rightarrow> nat option" where
  "as_u64 (JNum (PosInt n)) = Some (unat n)"
| "as_u64 _ = None"

fun as_array :: "json \<Rightarrow> json list option" where
  "as_array (JArr xs) = Some xs"
| "as_array _ = None"

fun as_object :: "json \<Rightarrow> (string \<times> json) list option" where
  "as_object (JObj kvs) = Some kvs"
| "as_object _ = None"

fun num_f64 :: "number \<Rightarrow> rat" where
  "num_f64 (PosInt n) = float_of_int (uint n)"
| "num_f64 (NegInt n) = float_of_int (sint n)"
| "num_f64 (Float x) = x"

fun as_f64 :: "json \<Rightarrow> rat option" where
  "as_f64 (JNum n) = Some (num_f64 n)"
| "as_f64 _ = None"

definition is_object :: "json \<Rightarrow> bool" where "is_object v \<longleftrightarrow> as_object v \<noteq> None"
definition is_array :: "json \<Rightarrow> bool" where "is_array v \<longleftrightarrow> as_array v \<noteq> None"
definition is_string :: "json \<Rightarrow> bool" where "is_string v \<longleftrightarrow> as_str v \<noteq> None"
definition is_number :: "json \<Rightarrow> bool" where "is_number v \<longleftrightarrow> as_f64 v \<noteq> None"
definition is_boolean :: "json \<Rightarrow> bool" where "is_boolean v \<longleftrightarrow> as_bool v \<noteq> None"
definition is_u64 :: "json \<Rightarrow> bool" where "is_u64 v \<longleftrightarrow> as_u64 v \<noteq> None"

definition get_str :: "json \<Rightarrow> string \<Rightarrow> string option" where
  "get_str v k = Option.bind (json_get v k) as_str"

definition get_u64 :: "json \<Rightarrow> string \<Rightarrow> nat option" where
  "get_u64 v k = Option.bind (json_get v k) as_u64"

definition strings :: "json list \<Rightarrow> string list" where
  "strings vs = List.map_filter as_str vs"

lemma shape_simps [simp]:
  "is_object (JObj kvs)" "\<not> is_object (JArr xs)" "\<not> is_object (JStr t)" "\<not> is_object (JNum n)"
  "\<not> is_object (JBool b)" "\<not> is_object JNull"
  by (simp_all add: is_object_def)

lemma shape_iff:
  "is_object v \<longleftrightarrow> (\<exists>kvs. v = JObj kvs)" "is_array v \<longleftrightarrow> (\<exists>xs. v = JArr xs)"
  "is_string v \<longleftrightarrow> (\<exists>t. v = JStr t)" "is_number v \<longleftrightarrow> (\<exists>n. v = JNum n)"
  "is_boolean v \<longleftrightarrow> (\<exists>b. v = JBool b)" "is_u64 v \<longleftrightarrow> (\<exists>n. v = JNum (PosInt n))"
  unfolding is_object_def is_array_def is_string_def is_number_def is_boolean_def is_u64_def
  by (cases v rule: as_u64.cases; simp)+

end
