(* ===== verification/Pattern.thy ===== *)
theory Pattern
  imports Stores
begin

text \<open>
  The regular expressions of the \<open>pattern\<close> keyword (\<open>mod regex\<close> of \<open>mcp/schema.rs\<close>): the
  recursive-descent parser, the construction of the instruction list with its patch lists, and the
  search that runs all threads at once. A text is its list of bytes; a pattern is read as its list
  of characters, each a code point with its bytes. The theory \<open>PatternSearch\<close> proves the search
  equal to the relational meaning of the parsed pattern.
\<close>

definition max_pattern_input_bytes :: nat where "max_pattern_input_bytes = 65536"
definition max_pattern_length :: nat where "max_pattern_length = 512"
definition max_states :: nat where "max_states = 4096"
definition max_group_depth :: nat where "max_group_depth = 24"
definition max_quantifier_bound :: nat where "max_quantifier_bound = 512"

section \<open>Syntax trees\<close>

datatype ast =
  Byte "char \<Rightarrow> bool"
| Start
| End
| Seq "ast list"
| Alt "ast list"
| Quantified ast nat "nat option"

section \<open>The parser\<close>

record pat =
  pt_rest :: "(nat \<times> string) list"
  pt_pos :: nat
  pt_depth :: nat
  pt_source :: string

type_synonym 'a pat_result = "msg + 'a \<times> pat"

definition peek :: "pat \<Rightarrow> nat option" where
  "peek p = (case pt_rest p of [] \<Rightarrow> None | c # _ \<Rightarrow> Some (fst c))"

definition advance :: "pat \<Rightarrow> pat" where
  "advance p = (case pt_rest p of [] \<Rightarrow> p | _ # cs \<Rightarrow> p\<lparr>pt_rest := cs, pt_pos := pt_pos p + 1\<rparr>)"

definition pat_err :: "pat \<Rightarrow> msg \<Rightarrow> msg" where
  "pat_err p m = Fmt ''pattern regex error at position {}: {} (pattern: {})'' [Num (pt_pos p), m, Txt (pt_source p)]"

definition pat_fail :: "pat \<Rightarrow> string \<Rightarrow> msg + 'a" where
  "pat_fail p m = Inl (pat_err p (Txt m))"

definition at :: "pat \<Rightarrow> char \<Rightarrow> bool" where
  "at p c \<longleftrightarrow> peek p = Some (byte c)"

definition digit_test :: "char \<Rightarrow> bool" where "digit_test b \<longleftrightarrow> 48 \<le> byte b \<and> byte b \<le> 57"

definition word_test :: "char \<Rightarrow> bool" where
  "word_test b \<longleftrightarrow> digit_test b \<or> (65 \<le> byte b \<and> byte b \<le> 90) \<or> (97 \<le> byte b \<and> byte b \<le> 122) \<or> byte b = 95"

definition space_test :: "char \<Rightarrow> bool" where
  "space_test b \<longleftrightarrow> byte b \<in> {32, 9, 10, 13, 11, 12}"

definition ascii_alnum :: "nat \<Rightarrow> bool" where
  "ascii_alnum c \<longleftrightarrow> (48 \<le> c \<and> c \<le> 57) \<or> (65 \<le> c \<and> c \<le> 90) \<or> (97 \<le> c \<and> c \<le> 122)"

definition hex_digit :: "nat \<Rightarrow> nat option" where
  "hex_digit c = (if 48 \<le> c \<and> c \<le> 57 then Some (c - 48)
     else if 65 \<le> c \<and> c \<le> 70 then Some (c - 55)
     else if 97 \<le> c \<and> c \<le> 102 then Some (c - 87) else None)"

text \<open>\<open>u8::from_str_radix\<close> on two characters: the first may be a plus sign.\<close>

definition hex_pair :: "nat \<Rightarrow> nat \<Rightarrow> nat option" where
  "hex_pair a b = (case (hex_digit a, hex_digit b) of
      (Some x, Some y) \<Rightarrow> Some (16 * x + y)
    | (None, Some y) \<Rightarrow> if a = byte (CHR ''+'') then Some y else None
    | _ \<Rightarrow> None)"

definition literal_bytes :: "string \<Rightarrow> ast list" where
  "literal_bytes bs = map (\<lambda>b. Byte (\<lambda>x. x = b)) bs"

definition parse_escape :: "bool \<Rightarrow> pat \<Rightarrow> ast pat_result" where
  "parse_escape in_class p0 = (case pt_rest p0 of
      [] \<Rightarrow> pat_fail p0 ''trailing backslash''
    | (c, bs) # _ \<Rightarrow>
        let p = advance p0; is = (\<lambda>x. c = byte x); test = (\<lambda>f. Inr (Byte f, p)) in
        if is (CHR ''d'') then test digit_test
        else if is (CHR ''D'') then test (\<lambda>b. \<not> digit_test b)
        else if is (CHR ''w'') then test word_test
        else if is (CHR ''W'') then test (\<lambda>b. \<not> word_test b)
        else if is (CHR ''s'') then test space_test
        else if is (CHR ''S'') then test (\<lambda>b. \<not> space_test b)
        else if is (CHR ''t'') then test (\<lambda>b. byte b = 9)
        else if is (CHR ''n'') then test (\<lambda>b. byte b = 10)
        else if is (CHR ''r'') then test (\<lambda>b. byte b = 13)
        else if is (CHR ''f'') then test (\<lambda>b. byte b = 12)
        else if is (CHR ''v'') then test (\<lambda>b. byte b = 11)
        else if is (CHR ''0'') then test (\<lambda>b. byte b = 0)
        else if is (CHR ''b'') \<and> in_class then test (\<lambda>b. byte b = 8)
        else if is (CHR ''b'') \<or> is (CHR ''B'') then
          pat_fail p ''word boundaries are not supported in pattern validation''
        else if is (CHR ''p'') \<or> is (CHR ''P'') then pat_fail p ''Unicode property classes are not supported''
        else if is (CHR ''u'') \<or> is (CHR ''U'') then
          pat_fail p ([CHR 0x5C] @ ''u escapes are not supported; use '' @ [CHR 0x5C] @ ''xHH'')
        else if is (CHR ''x'') then
          (case pt_rest p of
             (a, _) # (b, _) # _ \<Rightarrow> (case hex_pair a b of
                 Some v \<Rightarrow> Inr (Byte (\<lambda>x. byte x = v), advance (advance p))
               | None \<Rightarrow> pat_fail p ([CHR 0x5C] @ ''x requires two hex digits''))
           | _ \<Rightarrow> pat_fail p ([CHR 0x5C] @ ''x requires two hex digits''))
        else if ascii_alnum c \<and> \<not> in_class then
          pat_fail p (''unsupported escape '' @ [CHR 0x27, CHR 0x5C] @ bs @ [CHR 0x27])
        else (case bs of
            [v] \<Rightarrow> test (\<lambda>b. b = v)
          | _ \<Rightarrow> Inr (Seq (literal_bytes bs), p)))"

text \<open>The loop of a class; each round takes at least one character off the rest.\<close>

primrec class_loop :: "nat \<Rightarrow> bool \<Rightarrow> (char \<Rightarrow> bool) list \<Rightarrow> pat \<Rightarrow> (char \<Rightarrow> bool) list pat_result" where
  "class_loop 0 first tests p = pat_fail p ''unterminated character class''"
| "class_loop (Suc n) first tests p = (case pt_rest p of
      [] \<Rightarrow> pat_fail p ''unterminated character class''
    | (low, bs) # _ \<Rightarrow>
        if at p (CHR '']'') \<and> \<not> first then Inr (tests, advance p)
        else if at p (CHR 0x5C) then
          bindR (parse_escape True (advance p)) (\<lambda>(a, p1). case a of
              Byte f \<Rightarrow> class_loop n False (tests @ [f]) p1
            | _ \<Rightarrow> pat_fail p1 ''class escape must be a single byte test'')
        else
          let p1 = advance p in
          (case pt_rest p1 of
             (dash, _) # (high, _) # _ \<Rightarrow>
               if dash = byte (CHR ''-'') \<and> high \<noteq> byte (CHR '']'') then
                 let p2 = advance (advance p1) in
                 if high = 92 then pat_fail p2 ''escaped range bound is not supported in classes''
                 else if high < low then pat_fail p2 ''invalid character range''
                 else if 1024 < high - low then pat_fail p2 ''character range too wide''
                 else class_loop n False (tests @ [\<lambda>b. low \<le> byte b \<and> byte b \<le> high]) p2
               else class_loop n False (tests @ map (\<lambda>x b. b = x) bs) p1
           | _ \<Rightarrow> class_loop n False (tests @ map (\<lambda>x b. b = x) bs) p1))"

definition parse_class :: "pat \<Rightarrow> ast pat_result" where
  "parse_class p = (let negated = at p (CHR ''^''); p1 = (if negated then advance p else p) in
     bindR (class_loop (Suc (length (pt_rest p1))) True [] p1) (\<lambda>(tests, p2).
       Inr (Byte (\<lambda>b. list_ex (\<lambda>f. f b) tests \<noteq> negated), p2)))"

definition parse_count :: "pat \<Rightarrow> nat option \<times> pat" where
  "parse_count p = (let ds = takeWhile (\<lambda>c. 48 \<le> fst c \<and> fst c \<le> 57) (pt_rest p);
       p1 = p\<lparr>pt_rest := drop (length ds) (pt_rest p), pt_pos := pt_pos p + length ds\<rparr>
     in (if ds = [] then None else parse_usize (concat (map snd ds)), p1))"

text \<open>What follows an atom, when it is a quantifier; \<open>None\<close> leaves the parser where it was.\<close>

definition quantifier :: "pat \<Rightarrow> ((nat \<times> nat option) \<times> pat) option" where
  "quantifier p =
     (if at p (CHR ''*'') then Some ((0, None), advance p)
      else if at p (CHR ''+'') then Some ((1, None), advance p)
      else if at p (CHR ''?'') then Some ((0, Some 1), advance p)
      else if at p (CHR ''{'') then
        (case parse_count (advance p) of
           (None, _) \<Rightarrow> None
         | (Some m, p2) \<Rightarrow>
             if at p2 (CHR ''}'') then Some ((m, Some m), advance p2)
             else if at p2 (CHR '','') then
               let p3 = advance p2 in
               if at p3 (CHR ''}'') then Some ((m, None), advance p3)
               else (case parse_count p3 of
                   (None, _) \<Rightarrow> None
                 | (Some x, p4) \<Rightarrow> if at p4 (CHR ''}'') then Some ((m, Some x), advance p4) else None)
             else None)
      else None)"

definition parse_quantified :: "(pat \<Rightarrow> ast pat_result) \<Rightarrow> pat \<Rightarrow> ast pat_result" where
  "parse_quantified atom p = bindR (atom p) (\<lambda>(a, p1). case quantifier p1 of
      None \<Rightarrow> Inr (a, p1)
    | Some ((m, bound), p2) \<Rightarrow>
        let p3 = (if at p2 (CHR ''?'') \<or> at p2 (CHR ''+'') then advance p2 else p2) in
        if (case bound of Some x \<Rightarrow> x < m | None \<Rightarrow> False) then
          pat_fail p3 ''invalid quantifier: min greater than max''
        else if (case bound of Some x \<Rightarrow> max_quantifier_bound < x | None \<Rightarrow> False) \<or> max_quantifier_bound < m then
          pat_fail p3 ''quantifier bound exceeds 512''
        else Inr (Quantified a m bound, p3))"

primrec seq_loop :: "(pat \<Rightarrow> ast pat_result) \<Rightarrow> nat \<Rightarrow> pat \<Rightarrow> ast list pat_result" where
  "seq_loop item 0 p = Inr ([], p)"
| "seq_loop item (Suc n) p =
     (if peek p = None \<or> at p (CHR ''|'') \<or> at p (CHR '')'') then Inr ([], p)
      else bindR (item p) (\<lambda>(a, p1). bindR (seq_loop item n p1) (\<lambda>(as, p2). Inr (a # as, p2))))"

definition parse_seq :: "(pat \<Rightarrow> ast pat_result) \<Rightarrow> pat \<Rightarrow> ast pat_result" where
  "parse_seq item p = bindR (seq_loop item (length (pt_rest p)) p) (\<lambda>(parts, p1).
     Inr (case parts of [a] \<Rightarrow> a | _ \<Rightarrow> Seq parts, p1))"

primrec alt_loop :: "(pat \<Rightarrow> ast pat_result) \<Rightarrow> nat \<Rightarrow> pat \<Rightarrow> ast list pat_result" where
  "alt_loop seq 0 p = Inr ([], p)"
| "alt_loop seq (Suc n) p =
     (if at p (CHR ''|'') then bindR (seq (advance p)) (\<lambda>(a, p1). bindR (alt_loop seq n p1) (\<lambda>(as, p2). Inr (a # as, p2)))
      else Inr ([], p))"

definition parse_branches :: "(pat \<Rightarrow> ast pat_result) \<Rightarrow> pat \<Rightarrow> ast pat_result" where
  "parse_branches seq p = bindR (seq p) (\<lambda>(a, p1). bindR (alt_loop seq (length (pt_rest p1)) p1) (\<lambda>(as, p2).
     Inr (if as = [] then a else Alt (a # as), p2)))"

definition parse_group :: "(pat \<Rightarrow> ast pat_result) \<Rightarrow> pat \<Rightarrow> ast pat_result" where
  "parse_group inner p0 = (let p = p0\<lparr>pt_depth := pt_depth p0 + 1\<rparr> in
     if max_group_depth < pt_depth p then pat_fail p ''group nesting exceeds the supported depth''
     else bindR
       (if \<not> at p (CHR ''?'') then Inr p
        else let q = advance p in
          if at q (CHR '':'') then Inr (advance q)
          else if at q (CHR ''='') \<or> at q (CHR ''!'') then pat_fail q ''lookahead is not supported in pattern validation''
          else if at q (CHR ''<'') \<or> at q (CHR ''P'') then pat_fail q ''named groups are not supported in pattern validation''
          else pat_fail p ''unsupported group construct'')
       (\<lambda>p1. bindR (inner p1) (\<lambda>(a, p2).
          if at p2 (CHR '')'') then Inr (a, (advance p2)\<lparr>pt_depth := pt_depth p2 - 1\<rparr>)
          else pat_fail (advance p2) ''unbalanced group'')))"

definition parse_atom :: "(pat \<Rightarrow> ast pat_result) \<Rightarrow> pat \<Rightarrow> ast pat_result" where
  "parse_atom inner p0 = (case pt_rest p0 of
      [] \<Rightarrow> pat_fail p0 ''unexpected end of pattern''
    | (c, bs) # _ \<Rightarrow>
        let p = advance p0; is = (\<lambda>x. c = byte x) in
        if is (CHR ''.'') then Inr (Byte (\<lambda>_. True), p)
        else if is (CHR ''^'') then Inr (Start, p)
        else if is (CHR ''$'') then Inr (End, p)
        else if is (CHR ''('') then parse_group inner p
        else if is (CHR '')'') then pat_fail p (''unbalanced '' @ [CHR 0x27, CHR '')'', CHR 0x27])
        else if is (CHR ''['') then parse_class p
        else if is (CHR 0x5C) then parse_escape False p
        else if is (CHR ''|'') then pat_fail p (''unexpected '' @ [CHR 0x27, CHR ''|'', CHR 0x27])
        else if is (CHR ''*'') \<or> is (CHR ''+'') \<or> is (CHR ''?'') then pat_fail p ''quantifier with nothing to repeat''
        else (case literal_bytes bs of [a] \<Rightarrow> Inr (a, p) | as \<Rightarrow> Inr (Seq as, p)))"

text \<open>
  One level of \<open>parse_alt\<close> per open group. An atom opens at most \<^const>\<open>max_group_depth\<close> groups, so
  from depth 0 with that many levels the bottom is never called.
\<close>

primrec parse_alt :: "nat \<Rightarrow> pat \<Rightarrow> ast pat_result" where
  "parse_alt 0 p = parse_branches (parse_seq (parse_quantified (parse_atom (\<lambda>q. pat_fail q ''group nesting exceeds the supported depth'')))) p"
| "parse_alt (Suc n) p = parse_branches (parse_seq (parse_quantified (parse_atom (parse_alt n)))) p"

definition parse_pattern :: "string \<Rightarrow> msg + ast" where
  "parse_pattern pattern =
     (if max_pattern_length < length (chars pattern) then Inl (Txt ''pattern exceeds the 512-character limit'')
      else bindR (parse_alt max_group_depth \<lparr>pt_rest = chars pattern, pt_pos = 0, pt_depth = 0, pt_source = pattern\<rparr>)
        (\<lambda>(a, p). case pt_rest p of
            [] \<Rightarrow> Inr a
          | c # _ \<Rightarrow> pat_fail p (''unexpected '' @ [CHR 0x27] @ snd c @ [CHR 0x27])))"

section \<open>The instruction list\<close>

datatype inst = IByte "char \<Rightarrow> bool" | ISplit nat nat | IAnchor bool | IMatch

type_synonym hole = "nat \<times> nat"

record fragment =
  fr_start :: nat
  fr_pending :: "hole list"

definition set_arm :: "inst list \<Rightarrow> hole \<Rightarrow> nat \<Rightarrow> inst list" where
  "set_arm Q h k = (case Q ! fst h of
      ISplit a b \<Rightarrow> Q[fst h := (if snd h = 0 then ISplit k b else ISplit a k)]
    | _ \<Rightarrow> Q)"

definition patch :: "inst list \<Rightarrow> hole list \<Rightarrow> nat \<Rightarrow> inst list" where
  "patch Q hs k = fold (\<lambda>h Q. set_arm Q h k) hs Q"

text \<open>Every fragment's exits lead to the start of the next.\<close>

fun link :: "fragment list \<Rightarrow> inst list \<Rightarrow> inst list" where
  "link (f # g # fs) Q = link (g # fs) (patch Q (fr_pending f) (fr_start g))"
| "link fs Q = Q"

text \<open>A list of linked fragments as one; without any, a split both of whose arms are open.\<close>

definition linked :: "fragment list \<times> inst list \<Rightarrow> fragment \<times> inst list" where
  "linked fQ = (case fQ of (fs, Q) \<Rightarrow>
     if fs = [] then (\<lparr>fr_start = length Q, fr_pending = [(length Q, 0), (length Q, 1)]\<rparr>, Q @ [ISplit 0 0])
     else (\<lparr>fr_start = fr_start (hd fs), fr_pending = fr_pending (last fs)\<rparr>, link fs Q))"

text \<open>The chain of splits of an alternation: each leads to its branch or on to the next split.\<close>

fun alt_splits :: "nat \<Rightarrow> fragment list \<Rightarrow> inst list" where
  "alt_splits k [f, g] = [ISplit (fr_start f) (fr_start g)]"
| "alt_splits k (f # g # h # fs) = ISplit (fr_start f) (k + 1) # alt_splits (k + 1) (g # h # fs)"
| "alt_splits k fs = []"

definition single :: "inst \<Rightarrow> inst list \<Rightarrow> fragment \<times> inst list" where
  "single i Q = (\<lparr>fr_start = length Q, fr_pending = [(length Q + 1, 0)]\<rparr>, Q @ [i, ISplit 0 0])"

type_synonym emitter = "inst list \<Rightarrow> msg + fragment \<times> inst list"

primrec emit_times :: "nat \<Rightarrow> emitter \<Rightarrow> inst list \<Rightarrow> msg + fragment list \<times> inst list" where
  "emit_times 0 e Q = Inr ([], Q)"
| "emit_times (Suc n) e Q = bindR (e Q) (\<lambda>(f, Q1). bindR (emit_times n e Q1) (\<lambda>(fs, Q2). Inr (f # fs, Q2)))"

text \<open>A split into the body or past it, and a split into the body that the body comes back to.\<close>

definition optional :: "emitter \<Rightarrow> emitter" where
  "optional e Q = bindR (e (Q @ [ISplit 0 0])) (\<lambda>(f, Q1).
     Inr (\<lparr>fr_start = length Q, fr_pending = fr_pending f @ [(length Q, 1)]\<rparr>, set_arm Q1 (length Q, 0) (fr_start f)))"

definition repeated :: "emitter \<Rightarrow> emitter" where
  "repeated e Q = bindR (e (Q @ [ISplit 0 0])) (\<lambda>(f, Q1).
     Inr (\<lparr>fr_start = length Q, fr_pending = [(length Q, 1)]\<rparr>,
       patch (set_arm Q1 (length Q, 0) (fr_start f)) (fr_pending f) (length Q)))"

definition too_many_states :: msg where "too_many_states = Txt ''pattern compiles to too many states''"

definition emit_alt :: "fragment list \<times> inst list \<Rightarrow> msg + fragment \<times> inst list" where
  "emit_alt fQ = (case fQ of (fs, Q) \<Rightarrow> (case fs of
      [] \<Rightarrow> Inl (Txt ''panic: an alternation without branches'')
    | [f] \<Rightarrow> Inr (f, Q)
    | _ \<Rightarrow> Inr (\<lparr>fr_start = length Q, fr_pending = concat (map fr_pending fs)\<rparr>, Q @ alt_splits (length Q) fs)))"

definition emit_tail :: "nat \<Rightarrow> nat option \<Rightarrow> emitter \<Rightarrow> inst list \<Rightarrow> msg + fragment list \<times> inst list" where
  "emit_tail m bound e Q = (case bound of
      None \<Rightarrow> bindR (repeated e Q) (\<lambda>(f, Q1). Inr ([f], Q1))
    | Some x \<Rightarrow> bindR (emit_times (x - m) (optional e) Q) (\<lambda>(fs, Q1).
        if fs = [] then Inr ([], Q1) else (case linked (fs, Q1) of (f, Q2) \<Rightarrow> Inr ([f], Q2))))"

definition limited :: "emitter \<Rightarrow> emitter" where
  "limited e Q = (if max_states < length Q then Inl too_many_states else e Q)"

primrec emit :: "ast \<Rightarrow> emitter"
  and emit_all :: "ast list \<Rightarrow> inst list \<Rightarrow> msg + fragment list \<times> inst list" where
  "emit (Byte f) = limited (\<lambda>Q. Inr (single (IByte f) Q))"
| "emit Start = limited (\<lambda>Q. Inr (single (IAnchor True) Q))"
| "emit End = limited (\<lambda>Q. Inr (single (IAnchor False) Q))"
| "emit (Seq parts) = limited (\<lambda>Q. bindR (emit_all parts Q) (\<lambda>fQ. Inr (linked fQ)))"
| "emit (Alt branches) = limited (\<lambda>Q. bindR (emit_all branches Q) emit_alt)"
| "emit (Quantified body m bound) = limited (\<lambda>Q.
     bindR (emit_times m (emit body) Q) (\<lambda>(req, Q1).
     bindR (emit_tail m bound (emit body) Q1) (\<lambda>(tl, Q2). Inr (linked (req @ tl, Q2)))))"
| "emit_all [] = (\<lambda>Q. Inr ([], Q))"
| "emit_all (a # as) = (\<lambda>Q. bindR (emit a Q) (\<lambda>(f, Q1). bindR (emit_all as Q1) (\<lambda>(fs, Q2). Inr (f # fs, Q2))))"

definition assemble :: "ast \<Rightarrow> msg + inst list \<times> nat" where
  "assemble a = bindR (emit a []) (\<lambda>(f, Q).
     let P = patch (Q @ [IMatch]) (fr_pending f) (length Q) in
     if max_states < length P then Inl too_many_states else Inr (P, fr_start f))"

definition compile :: "string \<Rightarrow> msg + inst list \<times> nat" where
  "compile pattern = bindR (parse_pattern pattern) assemble"

section \<open>The search\<close>

text \<open>A thread set is the set of its live instructions.\<close>

definition anchor_holds :: "bool \<Rightarrow> nat \<Rightarrow> nat \<Rightarrow> bool" where
  "anchor_holds start n pos \<longleftrightarrow> (if start then pos = 0 else pos = n)"

definition unmarked :: "inst list \<Rightarrow> nat set \<Rightarrow> nat" where
  "unmarked P S = card ({..<length P} - S)"

lemma unmarked_decreases: "pc < length P \<Longrightarrow> pc \<notin> S \<Longrightarrow> unmarked P (insert pc S) < unmarked P S"
proof -
  assume "pc < length P" "pc \<notin> S"
  then have "pc \<in> {..<length P} - S" by blast
  then have "card ({..<length P} - S - {pc}) < card ({..<length P} - S)" by (intro card_Diff1_less finite_Diff finite_lessThan)
  moreover have "{..<length P} - insert pc S = {..<length P} - S - {pc}" by blast
  ultimately show ?thesis unfolding unmarked_def by metis
qed

function add_threads :: "inst list \<Rightarrow> nat \<Rightarrow> nat \<Rightarrow> nat set \<Rightarrow> nat list \<Rightarrow> nat set" where
  "add_threads P n pos S [] = S"
| "add_threads P n pos S (pc # stack) =
     (if length P \<le> pc \<or> pc \<in> S then add_threads P n pos S stack
      else (case P ! pc of
          ISplit a b \<Rightarrow> add_threads P n pos (insert pc S) (b # a # stack)
        | IMatch \<Rightarrow> add_threads P n pos (insert pc S) stack
        | IAnchor s \<Rightarrow> if anchor_holds s n pos then add_threads P n pos (insert pc S) ((pc + 1) # stack)
            else add_threads P n pos S stack
        | IByte f \<Rightarrow> add_threads P n pos (insert pc S) stack))"
  by pat_completeness auto
termination
  by (relation "measures [\<lambda>(P, n, pos, S, stack). unmarked P S, \<lambda>(P, n, pos, S, stack). length stack]")
    (simp_all add: unmarked_decreases not_le)

text \<open>One byte consumed by every thread that accepts it.\<close>

definition advance_threads :: "inst list \<Rightarrow> string \<Rightarrow> nat \<Rightarrow> nat set \<Rightarrow> nat set" where
  "advance_threads P t pos current = fold (\<lambda>pc S. if pc \<in> current
      then (case P ! pc of
          IByte f \<Rightarrow> if f (t ! pos) then add_threads P (length t) (pos + 1) S [pc + 1] else S
        | _ \<Rightarrow> S)
      else S) [0..<length P] {}"

definition has_match :: "inst list \<Rightarrow> nat set \<Rightarrow> bool" where
  "has_match P S \<longleftrightarrow> list_ex (\<lambda>pc. pc \<in> S \<and> P ! pc = IMatch) [0..<length P]"

text \<open>The loop over the positions, from the number of bytes that are left.\<close>

primrec search_loop :: "inst list \<Rightarrow> nat \<Rightarrow> string \<Rightarrow> nat \<Rightarrow> nat set \<Rightarrow> bool" where
  "search_loop P entry t 0 current =
     has_match P (current \<union> add_threads P (length t) (length t) {} [entry])"
| "search_loop P entry t (Suc k) current =
     (let pos = length t - Suc k; live = current \<union> add_threads P (length t) pos {} [entry]
      in if has_match P live then True else search_loop P entry t k (advance_threads P t pos live))"

definition search :: "inst list \<Rightarrow> nat \<Rightarrow> string \<Rightarrow> bool" where
  "search P entry t = (if P = [] then True else search_loop P entry t (length t) {})"

definition matches :: "string \<Rightarrow> string \<Rightarrow> msg + bool" where
  "matches pattern t = bindR (compile pattern) (\<lambda>(P, entry).
     if max_pattern_input_bytes < length t then Inl (Txt ''pattern input exceeds the 65536-byte budget'')
     else Inr (search P entry t))"

end
