(* ===== verification/Schema.thy ===== *)
theory Schema
  imports Json Pattern
begin

text \<open>
  Validation of tool arguments (\<open>mcp/schema.rs\<close>): the check of a schema document
  (\<open>validate_schema_syntax\<close>), the validation of a value (\<open>validate_schema\<close>) keyword by keyword in
  the order of the code, and its use on the arguments of a tool call. The recursion counts the
  nesting levels that are left; the code counts upwards, to the same bound.
\<close>

definition max_schema_depth :: nat where "max_schema_depth = 32"

datatype schema_keyword =
  KType | KEnum | KConst | KRequired | KProperties | KAdditionalProperties | KPatternProperties | KPropertyNames
| KMinProperties | KMaxProperties | KDependentRequired | KItems | KPrefixItems | KMinItems | KMaxItems
| KUniqueItems | KContains | KMinContains | KMaxContains | KMinLength | KMaxLength | KPattern | KMinimum
| KMaximum | KExclusiveMinimum | KExclusiveMaximum | KMultipleOf | KAllOf | KAnyOf | KOneOf | KNot | KIf
| KMalformedSchema | KUnsupportedKeyword | KResourceLimit

fun keyword_name :: "schema_keyword \<Rightarrow> string" where
  "keyword_name KType = ''type''"
| "keyword_name KEnum = ''enum''"
| "keyword_name KConst = ''const''"
| "keyword_name KRequired = ''required''"
| "keyword_name KProperties = ''properties''"
| "keyword_name KAdditionalProperties = ''additionalProperties''"
| "keyword_name KPatternProperties = ''patternProperties''"
| "keyword_name KPropertyNames = ''propertyNames''"
| "keyword_name KMinProperties = ''minProperties''"
| "keyword_name KMaxProperties = ''maxProperties''"
| "keyword_name KDependentRequired = ''dependentRequired''"
| "keyword_name KItems = ''items''"
| "keyword_name KPrefixItems = ''prefixItems''"
| "keyword_name KMinItems = ''minItems''"
| "keyword_name KMaxItems = ''maxItems''"
| "keyword_name KUniqueItems = ''uniqueItems''"
| "keyword_name KContains = ''contains''"
| "keyword_name KMinContains = ''minContains''"
| "keyword_name KMaxContains = ''maxContains''"
| "keyword_name KMinLength = ''minLength''"
| "keyword_name KMaxLength = ''maxLength''"
| "keyword_name KPattern = ''pattern''"
| "keyword_name KMinimum = ''minimum''"
| "keyword_name KMaximum = ''maximum''"
| "keyword_name KExclusiveMinimum = ''exclusiveMinimum''"
| "keyword_name KExclusiveMaximum = ''exclusiveMaximum''"
| "keyword_name KMultipleOf = ''multipleOf''"
| "keyword_name KAllOf = ''allOf''"
| "keyword_name KAnyOf = ''anyOf''"
| "keyword_name KOneOf = ''oneOf''"
| "keyword_name KNot = ''not''"
| "keyword_name KIf = ''if''"
| "keyword_name KMalformedSchema = ''malformedSchema''"
| "keyword_name KUnsupportedKeyword = ''unsupportedKeyword''"
| "keyword_name KResourceLimit = ''resourceLimit''"

definition unsupported_schema_keywords :: "string list" where
  "unsupported_schema_keywords = [''$ref'', ''$defs'', ''$dynamicRef'', ''$dynamicAnchor'', ''format'',
     ''unevaluatedProperties'', ''unevaluatedItems'', ''contentEncoding'', ''contentMediaType'', ''dependentSchemas'']"

record schema_error =
  se_keyword :: schema_keyword
  se_instance :: string
  se_schema :: string
  se_message :: msg

definition serr :: "schema_keyword \<Rightarrow> string \<Rightarrow> string \<Rightarrow> msg \<Rightarrow> schema_error" where
  "serr k ip sp m = \<lparr>se_keyword = k, se_instance = ip, se_schema = sp, se_message = m\<rparr>"

definition schema_error_msg :: "schema_error \<Rightarrow> msg" where
  "schema_error_msg e = Fmt ''MCP argument validation failed at {}: {} (keyword: {}, schema: {})''
     [Txt (se_instance e), se_message e, Txt (keyword_name (se_keyword e)), Txt (se_schema e)]"

type_synonym object = "(string \<times> json) list"
type_synonym verdict = "schema_error + unit"
type_synonym validator = "json \<Rightarrow> json \<Rightarrow> string \<Rightarrow> string \<Rightarrow> verdict"

definition under :: "string \<Rightarrow> string \<Rightarrow> string" where "under sp k = sp @ ''/'' @ k"

section \<open>The schema document\<close>

definition unsupported_check :: "object \<Rightarrow> string \<Rightarrow> string \<Rightarrow> verdict" where
  "unsupported_check o1 ip sp = each (\<lambda>k. ensure (map_of o1 k = None) (serr KUnsupportedKeyword ip (under sp k)
     (Fmt ''schema keyword '{}' is not supported by this validator'' [Txt k]))) unsupported_schema_keywords"

definition syntax_malformed :: "string \<Rightarrow> string \<Rightarrow> verdict" where
  "syntax_malformed child m = Inl (serr KMalformedSchema ''schema'' child (Txt m))"

definition names_array :: "json \<Rightarrow> bool" where
  "names_array v \<longleftrightarrow> (case as_array v of None \<Rightarrow> False | Some xs \<Rightarrow> list_all is_string xs)"

definition enumerated :: "(nat \<Rightarrow> 'a \<Rightarrow> verdict) \<Rightarrow> 'a list \<Rightarrow> verdict" where
  "enumerated f xs = each (\<lambda>(i, x). f i x) (enumerate 0 xs)"

definition keyword_syntax :: "(json \<Rightarrow> string \<Rightarrow> verdict) \<Rightarrow> string \<Rightarrow> string \<times> json \<Rightarrow> verdict" where
  "keyword_syntax rec sp kv = (case kv of (k, v) \<Rightarrow>
     let child = under sp k; malformed = syntax_malformed child in
     if k \<in> {''properties'', ''patternProperties''} then
       (case as_object v of
          None \<Rightarrow> malformed ''must be an object mapping keys to schemas''
        | Some subs \<Rightarrow> each (\<lambda>(key, sub). rec sub (under child key)) subs)
     else if k \<in> {''additionalProperties'', ''propertyNames'', ''items'', ''not'', ''if'', ''then'', ''else''} then
       (if is_boolean v \<and> k = ''additionalProperties'' then Inr () else rec v child)
     else if k \<in> {''prefixItems'', ''allOf'', ''anyOf'', ''oneOf''} then
       (case as_array v of
          None \<Rightarrow> malformed ''must be an array of schemas''
        | Some subs \<Rightarrow> enumerated (\<lambda>i sub. rec sub (under child (dec i))) subs)
     else if k = ''type'' then
       (if is_string v \<or> (names_array v \<and> as_array v \<noteq> Some []) then Inr ()
        else malformed ''must be a string or a non-empty array of strings'')
     else if k = ''enum'' then (if is_array v then Inr () else malformed ''must be an array'')
     else if k = ''required'' then (if names_array v then Inr () else malformed ''must be an array of property names'')
     else if k = ''dependentRequired'' then
       (if (case as_object v of None \<Rightarrow> False | Some m \<Rightarrow> list_all (\<lambda>(_, x). names_array x) m) then Inr ()
        else malformed ''must map property names to arrays of names'')
     else if k = ''pattern'' then
       (case as_str v of
          None \<Rightarrow> malformed ''must be a string''
        | Some p \<Rightarrow> (case matches p [] of
            Inl m \<Rightarrow> Inl (serr KMalformedSchema ''schema'' child (Fmt ''pattern does not compile: {}'' [m]))
          | Inr _ \<Rightarrow> Inr ()))
     else if k \<in> {''minItems'', ''maxItems'', ''minContains'', ''maxContains'', ''minLength'', ''maxLength'',
         ''minProperties'', ''maxProperties''} then
       (if is_u64 v then Inr () else malformed ''must be a non-negative integer'')
     else if k \<in> {''minimum'', ''maximum'', ''exclusiveMinimum'', ''exclusiveMaximum'', ''multipleOf''} then
       (if is_number v \<and> \<not> (k = ''multipleOf'' \<and> as_f64 v = Some 0) then Inr ()
        else malformed ''must be a number (multipleOf > 0)'')
     else if k \<in> {''uniqueItems'', ''deprecated''} then (if is_boolean v then Inr () else malformed ''must be a boolean'')
     else Inr ())"

primrec syntax_levels :: "nat \<Rightarrow> json \<Rightarrow> string \<Rightarrow> verdict" where
  "syntax_levels 0 s sp = Inl (serr KResourceLimit ''schema'' sp (Txt ''schema exceeded the 32-level nesting limit''))"
| "syntax_levels (Suc n) s sp = (case as_object s of
      None \<Rightarrow> Inl (serr KMalformedSchema ''schema'' sp (Txt ''schema must be a JSON object''))
    | Some o1 \<Rightarrow> bindR (unsupported_check o1 ''schema'' sp) (\<lambda>_. each (keyword_syntax (syntax_levels n) sp) o1))"

definition validate_schema_syntax :: "json \<Rightarrow> string \<Rightarrow> verdict" where
  "validate_schema_syntax s sp = syntax_levels max_schema_depth s sp"

section \<open>Keywords on any value\<close>

definition violation :: "bool \<Rightarrow> schema_keyword \<Rightarrow> string \<Rightarrow> string \<Rightarrow> string \<Rightarrow> msg \<Rightarrow> verdict" where
  "violation bad k ip sp key m = ensure (\<not> bad) (serr k ip (under sp key) m)"

definition malformed_as :: "string \<Rightarrow> string \<Rightarrow> string \<Rightarrow> string \<Rightarrow> schema_error + 'a" where
  "malformed_as ip sp key m = Inl (serr KMalformedSchema ip (under sp key) (Txt m))"

definition about :: "string \<Rightarrow> string \<Rightarrow> string" where
  "about key m = ''schema '' @ [CHR 0x27] @ key @ [CHR 0x27] @ m"

definition malformed :: "string \<Rightarrow> string \<Rightarrow> string \<Rightarrow> string \<Rightarrow> schema_error + 'a" where
  "malformed ip sp key m = malformed_as ip sp key (about key m)"

definition type_matches :: "string \<Rightarrow> json \<Rightarrow> bool" where
  "type_matches kind v =
     (if kind = ''object'' then is_object v
      else if kind = ''array'' then is_array v
      else if kind = ''string'' then is_string v
      else if kind = ''number'' then is_number v
      else if kind = ''integer'' then (case v of JNum (Float x) \<Rightarrow> is_integral x | JNum _ \<Rightarrow> True | _ \<Rightarrow> False)
      else if kind = ''boolean'' then is_boolean v
      else if kind = ''null'' then v = JNull
      else True)"

definition validate_type :: "object \<Rightarrow> json \<Rightarrow> string \<Rightarrow> string \<Rightarrow> verdict" where
  "validate_type o1 v ip sp = (case map_of o1 ''type'' of
      None \<Rightarrow> Inr ()
    | Some (JStr kind) \<Rightarrow> violation (\<not> type_matches kind v) KType ip sp ''type'' (Txt ''expected schema type'')
    | Some (JArr kinds) \<Rightarrow> violation (\<not> list_ex (\<lambda>kind. type_matches kind v) (strings kinds)) KType ip sp ''type''
        (Txt ''expected schema type'')
    | Some _ \<Rightarrow> malformed ip sp ''type'' '' must be a string or array of strings'')"

definition validate_const_and_enum :: "object \<Rightarrow> json \<Rightarrow> string \<Rightarrow> string \<Rightarrow> verdict" where
  "validate_const_and_enum o1 v ip sp =
     bindR (case map_of o1 ''const'' of
        None \<Rightarrow> Inr ()
      | Some c \<Rightarrow> violation (c \<noteq> v) KConst ip sp ''const'' (Txt ''value does not match the required constant'')) (\<lambda>_.
     case Option.bind (map_of o1 ''enum'') as_array of
        None \<Rightarrow> Inr ()
      | Some vs \<Rightarrow> violation (\<not> List.member vs v) KEnum ip sp ''enum'' (Txt ''value is not allowed''))"

definition number_keyword :: "object \<Rightarrow> string \<Rightarrow> string \<Rightarrow> string \<Rightarrow> schema_error + rat option" where
  "number_keyword o1 key ip sp = (case map_of o1 key of
      None \<Rightarrow> Inr None
    | Some JNull \<Rightarrow> Inr None
    | Some (JNum n) \<Rightarrow> Inr (Some (num_f64 n))
    | Some _ \<Rightarrow> malformed ip sp key '' must be a number'')"

definition usize_keyword :: "object \<Rightarrow> string \<Rightarrow> string \<Rightarrow> string \<Rightarrow> schema_error + nat option" where
  "usize_keyword o1 key ip sp = (case map_of o1 key of
      None \<Rightarrow> Inr None
    | Some JNull \<Rightarrow> Inr None
    | Some (JNum (PosInt n)) \<Rightarrow> Inr (Some (unat n))
    | Some _ \<Rightarrow> malformed ip sp key '' must be a non-negative integer'')"

text \<open>
  \<open>is_multiple_of\<close>: the exact test on the casts where both sides are integral and survive them,
  a quotient within a few rounding errors of an integer otherwise.
\<close>

definition is_multiple_of :: "rat \<Rightarrow> rat \<Rightarrow> bool" where
  "is_multiple_of v factor =
     (if factor \<le> 0 then False
      else let a = as_i64_cast v; b = as_i64_cast factor in
        if is_integral v \<and> is_integral factor \<and> v = float_of_int a \<and> factor = float_of_int b \<and> b \<noteq> 0
        then a mod b = 0
        else (case fl (v / factor) of
            None \<Rightarrow> False
          | Some q \<Rightarrow> \<bar>q - of_int (round_away q)\<bar> \<le> max \<bar>q\<bar> 1 * 8 / 2 ^ 52))"

definition bound_check ::
    "object \<Rightarrow> string \<Rightarrow> (rat \<Rightarrow> bool) \<Rightarrow> schema_keyword \<Rightarrow> string \<Rightarrow> string \<Rightarrow> string \<Rightarrow> verdict" where
  "bound_check o1 key bad k m ip sp = bindR (number_keyword o1 key ip sp) (\<lambda>b. case b of
      None \<Rightarrow> Inr ()
    | Some x \<Rightarrow> violation (bad x) k ip sp key (Txt m))"

definition validate_numbers :: "object \<Rightarrow> json \<Rightarrow> string \<Rightarrow> string \<Rightarrow> verdict" where
  "validate_numbers o1 v ip sp = (case as_f64 v of
      None \<Rightarrow> Inr ()
    | Some x \<Rightarrow>
        bindR (bound_check o1 ''multipleOf'' (\<lambda>f. \<not> is_multiple_of x f) KMultipleOf
          ''value is not a multiple of the required factor'' ip sp) (\<lambda>_.
        bindR (bound_check o1 ''minimum'' (\<lambda>b. x < b) KMinimum ''value is below the required minimum'' ip sp) (\<lambda>_.
        bindR (bound_check o1 ''maximum'' (\<lambda>b. b < x) KMaximum ''value is above the required maximum'' ip sp) (\<lambda>_.
        bindR (bound_check o1 ''exclusiveMinimum'' (\<lambda>b. x \<le> b) KExclusiveMinimum
          ''value is not above the exclusive minimum'' ip sp) (\<lambda>_.
        bound_check o1 ''exclusiveMaximum'' (\<lambda>b. b \<le> x) KExclusiveMaximum
          ''value is not below the exclusive maximum'' ip sp)))))"

definition count_check ::
    "object \<Rightarrow> string \<Rightarrow> (nat \<Rightarrow> bool) \<Rightarrow> schema_keyword \<Rightarrow> string \<Rightarrow> string \<Rightarrow> string \<Rightarrow> verdict" where
  "count_check o1 key bad k m ip sp = bindR (usize_keyword o1 key ip sp) (\<lambda>b. case b of
      None \<Rightarrow> Inr ()
    | Some n \<Rightarrow> violation (bad n) k ip sp key (Txt m))"

definition pattern_check :: "object \<Rightarrow> string \<Rightarrow> string \<Rightarrow> string \<Rightarrow> verdict" where
  "pattern_check o1 t ip sp = (case map_of o1 ''pattern'' of
      None \<Rightarrow> Inr ()
    | Some (JStr p) \<Rightarrow> (case matches p t of
        Inr True \<Rightarrow> Inr ()
      | Inr False \<Rightarrow> Inl (serr KPattern ip (under sp ''pattern'') (Txt ''string does not match the required pattern''))
      | Inl m \<Rightarrow> Inl (serr KResourceLimit ip (under sp ''pattern'') m))
    | Some _ \<Rightarrow> malformed ip sp ''pattern'' '' must be a string'')"

definition validate_strings :: "object \<Rightarrow> json \<Rightarrow> string \<Rightarrow> string \<Rightarrow> verdict" where
  "validate_strings o1 v ip sp = (case as_str v of
      None \<Rightarrow> Inr ()
    | Some t \<Rightarrow>
        bindR (count_check o1 ''minLength'' (\<lambda>n. length (chars t) < n) KMinLength ''string is shorter than required'' ip sp) (\<lambda>_.
        bindR (count_check o1 ''maxLength'' (\<lambda>n. n < length (chars t)) KMaxLength ''string is longer than allowed'' ip sp) (\<lambda>_.
        pattern_check o1 t ip sp)))"

section \<open>Keywords on objects\<close>

definition required_check :: "object \<Rightarrow> object \<Rightarrow> string \<Rightarrow> string \<Rightarrow> verdict" where
  "required_check o1 m ip sp = (case map_of o1 ''required'' of
      None \<Rightarrow> Inr ()
    | Some r \<Rightarrow> if \<not> names_array r then malformed ip sp ''required'' '' must be an array of strings''
        else each (\<lambda>f. violation (map_of m f = None) KRequired ip sp ''required'' (Fmt (''missing required field '' @ [CHR 0x27] @ ''{}'' @ [CHR 0x27]) [Txt f]))
          (strings (case as_array r of Some xs \<Rightarrow> xs | None \<Rightarrow> [])))"

definition field_path :: "string \<Rightarrow> string \<Rightarrow> string" where "field_path ip f = ip @ ''.'' @ f"
definition item_path :: "string \<Rightarrow> nat \<Rightarrow> string" where "item_path ip i = ip @ ''['' @ dec i @ '']''"

definition properties_check :: "validator \<Rightarrow> object \<Rightarrow> object \<Rightarrow> string \<Rightarrow> string \<Rightarrow> verdict" where
  "properties_check rec o1 m ip sp = (case map_of o1 ''properties'' of
      None \<Rightarrow> Inr ()
    | Some p \<Rightarrow> (case as_object p of
        None \<Rightarrow> malformed ip sp ''properties'' '' must be an object''
      | Some props \<Rightarrow> each (\<lambda>(f, s). case map_of m f of
          None \<Rightarrow> Inr ()
        | Some x \<Rightarrow> rec s x (field_path ip f) (under (under sp ''properties'') f)) props))"

definition key_matches_declaration :: "object \<Rightarrow> string \<Rightarrow> bool" where
  "key_matches_declaration o1 f \<longleftrightarrow>
     (case Option.bind (map_of o1 ''properties'') as_object of None \<Rightarrow> False | Some props \<Rightarrow> map_of props f \<noteq> None)
     \<or> (case Option.bind (map_of o1 ''patternProperties'') as_object of None \<Rightarrow> False
        | Some pats \<Rightarrow> list_ex (\<lambda>(p, _). matches p f = Inr True) pats)"

definition additional_check :: "validator \<Rightarrow> object \<Rightarrow> object \<Rightarrow> string \<Rightarrow> string \<Rightarrow> verdict" where
  "additional_check rec o1 m ip sp = (case map_of o1 ''additionalProperties'' of
      None \<Rightarrow> Inr ()
    | Some (JBool False) \<Rightarrow> each (\<lambda>(f, _). violation (\<not> key_matches_declaration o1 f) KAdditionalProperties ip sp
        ''additionalProperties'' (Fmt (''unknown field '' @ [CHR 0x27] @ ''{}'' @ [CHR 0x27]) [Txt f])) m
    | Some (JBool True) \<Rightarrow> Inr ()
    | Some (JObj kvs) \<Rightarrow> each (\<lambda>(f, x). if key_matches_declaration o1 f then Inr ()
        else rec (JObj kvs) x (field_path ip f) (under sp ''additionalProperties'')) m
    | Some _ \<Rightarrow> malformed ip sp ''additionalProperties'' '' must be a boolean or object'')"

definition pattern_properties_check :: "validator \<Rightarrow> object \<Rightarrow> object \<Rightarrow> string \<Rightarrow> string \<Rightarrow> verdict" where
  "pattern_properties_check rec o1 m ip sp =
     (case Option.bind (map_of o1 ''patternProperties'') as_object of
        None \<Rightarrow> Inr ()
      | Some pats \<Rightarrow> each (\<lambda>(p, s). each (\<lambda>(f, x). case matches p f of
            Inr True \<Rightarrow> rec s x (field_path ip f) (under (under sp ''patternProperties'') p)
          | Inr False \<Rightarrow> Inr ()
          | Inl e \<Rightarrow> Inl (serr KResourceLimit ip (under sp ''patternProperties'') e)) m) pats)"

definition property_names_check :: "validator \<Rightarrow> object \<Rightarrow> object \<Rightarrow> string \<Rightarrow> string \<Rightarrow> verdict" where
  "property_names_check rec o1 m ip sp = (case map_of o1 ''propertyNames'' of
      None \<Rightarrow> Inr ()
    | Some s \<Rightarrow> each (\<lambda>(f, _). rec s (JStr f) ip (under sp ''propertyNames'')) m)"

definition dependent_check :: "object \<Rightarrow> object \<Rightarrow> string \<Rightarrow> string \<Rightarrow> verdict" where
  "dependent_check o1 m ip sp = (case Option.bind (map_of o1 ''dependentRequired'') as_object of
      None \<Rightarrow> Inr ()
    | Some deps \<Rightarrow> each (\<lambda>(f, r). if map_of m f = None then Inr ()
        else (case as_array r of
          None \<Rightarrow> malformed ip sp ''dependentRequired'' '' values must be arrays of strings''
        | Some ds \<Rightarrow> each (\<lambda>d. violation (map_of m d = None) KDependentRequired ip sp ''dependentRequired''
            (Fmt ''field '{}' requires field '{}' to be present'' [Txt f, Txt d])) (strings ds))) deps)"

definition validate_object_keywords :: "validator \<Rightarrow> object \<Rightarrow> object \<Rightarrow> string \<Rightarrow> string \<Rightarrow> verdict" where
  "validate_object_keywords rec o1 m ip sp =
     bindR (required_check o1 m ip sp) (\<lambda>_.
     bindR (properties_check rec o1 m ip sp) (\<lambda>_.
     bindR (additional_check rec o1 m ip sp) (\<lambda>_.
     bindR (pattern_properties_check rec o1 m ip sp) (\<lambda>_.
     bindR (property_names_check rec o1 m ip sp) (\<lambda>_.
     bindR (count_check o1 ''minProperties'' (\<lambda>n. length m < n) KMinProperties
       ''object has fewer properties than required'' ip sp) (\<lambda>_.
     bindR (count_check o1 ''maxProperties'' (\<lambda>n. n < length m) KMaxProperties
       ''object has more properties than allowed'' ip sp) (\<lambda>_.
     dependent_check o1 m ip sp)))))))"

section \<open>Keywords on arrays\<close>

definition isOk :: "'e + 'a \<Rightarrow> bool" where "isOk r \<longleftrightarrow> (\<exists>x. r = Inr x)"

lemma isOk_code [code, simp]: "isOk (Inl e) = False" "isOk (Inr x) = True"
  by (simp_all add: isOk_def)

definition prefix_items :: "object \<Rightarrow> string \<Rightarrow> string \<Rightarrow> schema_error + json list option" where
  "prefix_items o1 ip sp = (case map_of o1 ''prefixItems'' of
      None \<Rightarrow> Inr None
    | Some (JArr xs) \<Rightarrow> Inr (Some xs)
    | Some _ \<Rightarrow> malformed ip sp ''prefixItems'' '' must be an array of schemas'')"

definition positional :: "object \<Rightarrow> json list option \<Rightarrow> json list" where
  "positional o1 pre = (case pre of Some xs \<Rightarrow> xs
     | None \<Rightarrow> (case map_of o1 ''items'' of Some (JArr xs) \<Rightarrow> xs | _ \<Rightarrow> []))"

definition positional_check :: "validator \<Rightarrow> json list \<Rightarrow> json list \<Rightarrow> string \<Rightarrow> string \<Rightarrow> verdict" where
  "positional_check rec ps arr ip sp = enumerated (\<lambda>i s. if i < length arr
     then rec s (arr ! i) (item_path ip i) (under (under sp ''prefixItems'') (dec i)) else Inr ()) ps"

definition items_check :: "validator \<Rightarrow> object \<Rightarrow> nat \<Rightarrow> json list \<Rightarrow> string \<Rightarrow> string \<Rightarrow> verdict" where
  "items_check rec o1 skip arr ip sp = (case map_of o1 ''items'' of
      None \<Rightarrow> Inr ()
    | Some (JObj kvs) \<Rightarrow> each (\<lambda>(i, x). rec (JObj kvs) x (item_path ip i) (under sp ''items'')) (drop skip (enumerate 0 arr))
    | Some (JArr xs) \<Rightarrow> Inr ()
    | Some (JBool b) \<Rightarrow> malformed_as ip sp ''items'' ''boolean schemas are not supported (use an object schema)''
    | Some _ \<Rightarrow> malformed ip sp ''items'' '' must be an object or array of schemas'')"

definition unique_check :: "object \<Rightarrow> json list \<Rightarrow> string \<Rightarrow> string \<Rightarrow> verdict" where
  "unique_check o1 arr ip sp = (if Option.bind (map_of o1 ''uniqueItems'') as_bool = Some True
     then violation (list_ex (\<lambda>i. List.member (take i arr) (arr ! i)) [0..<length arr]) KUniqueItems ip sp ''uniqueItems''
       (Txt ''array items must be unique'')
     else Inr ())"

definition contains_check :: "validator \<Rightarrow> object \<Rightarrow> json list \<Rightarrow> string \<Rightarrow> string \<Rightarrow> verdict" where
  "contains_check rec o1 arr ip sp = (case map_of o1 ''contains'' of
      None \<Rightarrow> Inr ()
    | Some c \<Rightarrow>
        if \<not> is_object c then malformed ip sp ''contains'' '' must be an object schema''
        else let hits = length (filter (\<lambda>x. isOk (rec c x ip (under sp ''contains''))) arr) in
          bindR (usize_keyword o1 ''minContains'' ip sp) (\<lambda>lo. let least = (case lo of None \<Rightarrow> 1 | Some n \<Rightarrow> n) in
          bindR (violation (hits < least) KContains ip sp ''contains''
            (Fmt ''array must contain at least {} matching item(s)'' [Num least])) (\<lambda>_.
          bindR (usize_keyword o1 ''maxContains'' ip sp) (\<lambda>hi. case hi of
              None \<Rightarrow> Inr ()
            | Some most \<Rightarrow> violation (most < hits) KMaxContains ip sp ''maxContains''
                (Fmt ''array contains more than {} matching item(s)'' [Num most])))))"

definition validate_array_keywords :: "validator \<Rightarrow> object \<Rightarrow> json list \<Rightarrow> string \<Rightarrow> string \<Rightarrow> verdict" where
  "validate_array_keywords rec o1 arr ip sp =
     bindR (prefix_items o1 ip sp) (\<lambda>pre. let ps = positional o1 pre in
     bindR (positional_check rec ps arr ip sp) (\<lambda>_.
     bindR (items_check rec o1 (length ps) arr ip sp) (\<lambda>_.
     bindR (count_check o1 ''minItems'' (\<lambda>n. length arr < n) KMinItems ''array has fewer items than required'' ip sp) (\<lambda>_.
     bindR (count_check o1 ''maxItems'' (\<lambda>n. n < length arr) KMaxItems ''array has more items than allowed'' ip sp) (\<lambda>_.
     bindR (unique_check o1 arr ip sp) (\<lambda>_.
     contains_check rec o1 arr ip sp))))))"

section \<open>Combinators\<close>

definition subschema_array :: "object \<Rightarrow> string \<Rightarrow> string \<Rightarrow> string \<Rightarrow> schema_error + json list option" where
  "subschema_array o1 key ip sp = (case map_of o1 key of
      None \<Rightarrow> Inr None
    | Some (JArr xs) \<Rightarrow> Inr (Some xs)
    | Some _ \<Rightarrow> malformed ip sp key '' must be an array of schemas'')"

definition all_of_check :: "validator \<Rightarrow> object \<Rightarrow> json \<Rightarrow> string \<Rightarrow> string \<Rightarrow> verdict" where
  "all_of_check rec o1 v ip sp = bindR (subschema_array o1 ''allOf'' ip sp) (\<lambda>subs. case subs of
      None \<Rightarrow> Inr ()
    | Some ss \<Rightarrow> enumerated (\<lambda>i s. rec s v ip (under (under sp ''allOf'') (dec i))) ss)"

text \<open>The first error is kept for the message when no alternative matches.\<close>

fun first_match :: "(nat \<Rightarrow> json \<Rightarrow> verdict) \<Rightarrow> nat \<Rightarrow> json list \<Rightarrow> msg option \<Rightarrow> msg + unit" where
  "first_match try i [] err = Inl (case err of Some m \<Rightarrow> m | None \<Rightarrow> Txt ''no alternatives were provided'')"
| "first_match try i (s # ss) err = (case try i s of
      Inr _ \<Rightarrow> Inr ()
    | Inl e \<Rightarrow> first_match try (i + 1) ss (case err of Some m \<Rightarrow> Some m | None \<Rightarrow> Some (se_message e)))"

definition any_of_check :: "validator \<Rightarrow> object \<Rightarrow> json \<Rightarrow> string \<Rightarrow> string \<Rightarrow> verdict" where
  "any_of_check rec o1 v ip sp = bindR (subschema_array o1 ''anyOf'' ip sp) (\<lambda>subs. case subs of
      None \<Rightarrow> Inr ()
    | Some ss \<Rightarrow> (case first_match (\<lambda>i s. rec s v ip (under (under sp ''anyOf'') (dec i))) 0 ss None of
        Inr _ \<Rightarrow> Inr ()
      | Inl m \<Rightarrow> Inl (serr KAnyOf ip (under sp ''anyOf'') (Fmt ''value matched none of the allowed alternatives ({})'' [m]))))"

definition one_of_check :: "validator \<Rightarrow> object \<Rightarrow> json \<Rightarrow> string \<Rightarrow> string \<Rightarrow> verdict" where
  "one_of_check rec o1 v ip sp = bindR (subschema_array o1 ''oneOf'' ip sp) (\<lambda>subs. case subs of
      None \<Rightarrow> Inr ()
    | Some ss \<Rightarrow> let hits = length (filter (\<lambda>s. isOk (rec s v ip (under sp ''oneOf''))) ss) in
        violation (hits \<noteq> 1) KOneOf ip sp ''oneOf'' (Fmt ''value must match exactly one alternative but matched {}'' [Num hits]))"

definition not_check :: "validator \<Rightarrow> object \<Rightarrow> json \<Rightarrow> string \<Rightarrow> string \<Rightarrow> verdict" where
  "not_check rec o1 v ip sp = (case map_of o1 ''not'' of
      None \<Rightarrow> Inr ()
    | Some s \<Rightarrow>
        if \<not> is_object s then malformed ip sp ''not'' '' must be an object schema''
        else violation (isOk (rec s v ip (under sp ''not''))) KNot ip sp ''not'' (Txt ''value must not match the excluded schema''))"

definition if_check :: "validator \<Rightarrow> object \<Rightarrow> json \<Rightarrow> string \<Rightarrow> string \<Rightarrow> verdict" where
  "if_check rec o1 v ip sp = (case map_of o1 ''if'' of
      None \<Rightarrow> Inr ()
    | Some c \<Rightarrow>
        if \<not> is_object c then malformed ip sp ''if'' '' must be an object schema''
        else let branch = (if isOk (rec c v ip (under sp ''if'')) then ''then'' else ''else'') in
          (case map_of o1 branch of None \<Rightarrow> Inr () | Some s \<Rightarrow> rec s v ip (under sp branch)))"

definition validate_combinators :: "validator \<Rightarrow> object \<Rightarrow> json \<Rightarrow> string \<Rightarrow> string \<Rightarrow> verdict" where
  "validate_combinators rec o1 v ip sp =
     bindR (all_of_check rec o1 v ip sp) (\<lambda>_.
     bindR (any_of_check rec o1 v ip sp) (\<lambda>_.
     bindR (one_of_check rec o1 v ip sp) (\<lambda>_.
     bindR (not_check rec o1 v ip sp) (\<lambda>_.
     if_check rec o1 v ip sp))))"

section \<open>Validation\<close>

definition depth_error :: schema_error where
  "depth_error = serr KResourceLimit ''arguments'' ''#'' (Txt ''schema validation exceeded maximum nesting depth (32)'')"

definition validate_body :: "validator \<Rightarrow> validator" where
  "validate_body rec s v ip sp = (case as_object s of
      None \<Rightarrow> Inl (serr KMalformedSchema ip sp (Txt ''schema must be a JSON object''))
    | Some o1 \<Rightarrow>
        bindR (unsupported_check o1 ip sp) (\<lambda>_.
        bindR (validate_type o1 v ip sp) (\<lambda>_.
        bindR (validate_const_and_enum o1 v ip sp) (\<lambda>_.
        bindR (validate_numbers o1 v ip sp) (\<lambda>_.
        bindR (validate_strings o1 v ip sp) (\<lambda>_.
        bindR (case as_object v of None \<Rightarrow> Inr () | Some m \<Rightarrow> validate_object_keywords rec o1 m ip sp) (\<lambda>_.
        bindR (case as_array v of None \<Rightarrow> Inr () | Some xs \<Rightarrow> validate_array_keywords rec o1 xs ip sp) (\<lambda>_.
        validate_combinators rec o1 v ip sp))))))))"

primrec validate_levels :: "nat \<Rightarrow> validator" where
  "validate_levels 0 = (\<lambda>s v ip sp. Inl depth_error)"
| "validate_levels (Suc n) = validate_body (validate_levels n)"

definition validate_schema :: validator where
  "validate_schema = validate_levels max_schema_depth"

datatype argument_error = Lookup msg | Invalid schema_error

fun argument_error_msg :: "argument_error \<Rightarrow> msg" where
  "argument_error_msg (Lookup m) = m"
| "argument_error_msg (Invalid e) = schema_error_msg e"

definition validate_tool_arguments :: "json \<Rightarrow> string \<Rightarrow> json \<Rightarrow> argument_error + unit" where
  "validate_tool_arguments response tool arguments =
     (case Option.bind (json_get response ''tools'') as_array of
        None \<Rightarrow> Inl (Lookup (Txt ''MCP tools/list response has no tools array''))
      | Some tools \<Rightarrow> (case find (\<lambda>t. get_str t ''name'' = Some tool) tools of
          None \<Rightarrow> Inl (Lookup (Fmt ''MCP tool not found: {}'' [Txt tool]))
        | Some t \<Rightarrow>
            let schema = (case json_get t ''inputSchema'' of Some s \<Rightarrow> s | None \<Rightarrow> JObj [(''type'', JStr ''object'')]) in
            (case validate_schema schema arguments ''arguments'' ''#'' of Inl e \<Rightarrow> Inl (Invalid e) | Inr _ \<Rightarrow> Inr ())))"

end
