(* ===== verification/SchemaSafety.thy ===== *)
theory SchemaSafety
  imports Schema
begin

text \<open>
  A schema that passes the check at exposure time never goes wrong at validation time, and the
  validator decides the reference meaning of the supported keywords, \<open>conforms\<close>, which knows no
  paths, messages, order of checks or nesting limit.
\<close>

section \<open>Schemas that pass the check\<close>

text \<open>The errors a checked schema may still raise.\<close>

definition tolerable :: "schema_error \<Rightarrow> bool" where
  "tolerable e \<longleftrightarrow> se_keyword e \<noteq> KUnsupportedKeyword
     \<and> (se_keyword e = KMalformedSchema \<longrightarrow> se_message e = Txt (about ''contains'' '' must be an object schema''))
     \<and> (se_keyword e = KResourceLimit \<longrightarrow> (\<exists>q t. matches q t = Inl (se_message e)))"

definition sound :: "schema_error + 'a \<Rightarrow> bool" where
  "sound r \<longleftrightarrow> (case r of Inl e \<Rightarrow> tolerable e | Inr _ \<Rightarrow> True)"

lemma sound_simps [simp]: "sound (Inr x)" "sound (Inl e) = tolerable e"
  by (simp_all add: sound_def)

lemma sound_bind: "sound r \<Longrightarrow> (\<And>x. r = Inr x \<Longrightarrow> sound (f x)) \<Longrightarrow> sound (bindR r f)"
  by (cases r) auto

lemma sound_each: "(\<And>x. x \<in> set xs \<Longrightarrow> sound (f x)) \<Longrightarrow> sound (each f xs)"
  by (induction xs) (auto intro: sound_bind)

lemma sound_violation:
  "k \<notin> {KUnsupportedKeyword, KMalformedSchema, KResourceLimit} \<Longrightarrow> sound (violation bad k ip sp key m)"
  by (auto simp: violation_def ensure_def serr_def tolerable_def)

lemmas sound_intros = sound_bind sound_each sound_violation

text \<open>What the check of one keyword says, for the keywords validation relies on.\<close>

abbreviation passes :: "nat \<Rightarrow> json \<Rightarrow> bool" where
  "passes n s \<equiv> \<exists>p. syntax_levels n s p = Inr ()"

definition gated :: "nat \<Rightarrow> string \<Rightarrow> json \<Rightarrow> bool" where
  "gated n key v \<longleftrightarrow> (\<exists>p. keyword_syntax (syntax_levels n) p (key, v) = Inr ())"

lemma isR_case: "(case r of None \<Rightarrow> Inl e | Some x \<Rightarrow> f x) = Inr () \<longleftrightarrow> (\<exists>x. r = Some x \<and> f x = Inr ())"
  by (cases r) auto

lemma isR_if: "(if b then Inr () else Inl e) = Inr () \<longleftrightarrow> b" "(if b then Inr () else r) = Inr () \<longleftrightarrow> b \<or> r = Inr ()"
  by simp_all

lemma enumerated_Inr: "enumerated f xs = Inr () \<longleftrightarrow> (\<forall>i < length xs. f i (xs ! i) = Inr ())"
proof -
  have "set (enumerate 0 xs) = {(i, xs ! i) |i. i < length xs}" by (auto simp: in_set_enumerate_eq)
  then show ?thesis by (auto simp: enumerated_def each_Inr_iff)
qed

lemma as_shape: "as_object v = Some m \<longleftrightarrow> v = JObj m" "as_array v = Some xs \<longleftrightarrow> v = JArr xs" "as_str v = Some t \<longleftrightarrow> v = JStr t"
  by (cases v; auto)+

lemmas gate_simps = gated_def keyword_syntax_def syntax_malformed_def Let_def isR_case isR_if enumerated_Inr as_shape
  each_Inr_iff

lemma gated_objects:
  assumes "gated n k v" and "k = ''properties'' \<or> k = ''patternProperties''"
  shows "\<exists>m. v = JObj m \<and> (\<forall>f s. (f, s) \<in> set m \<longrightarrow> passes n s)"
  using assms by (auto simp: gate_simps split: option.splits) force+

lemma gated_arrays:
  assumes "gated n k v" and "k = ''prefixItems'' \<or> k = ''allOf'' \<or> k = ''anyOf'' \<or> k = ''oneOf''"
  shows "\<exists>xs. v = JArr xs \<and> (\<forall>s \<in> set xs. passes n s)"
proof -
  from assms obtain p xs where "v = JArr xs" "\<forall>i < length xs. syntax_levels n (xs ! i) (under (under p k) (dec i)) = Inr ()"
    by (auto simp: gate_simps split: option.splits)
  then show ?thesis by (metis in_set_conv_nth)
qed

lemma gated_schema:
  assumes "gated n k v" and "k = ''propertyNames'' \<or> k = ''items'' \<or> k = ''not'' \<or> k = ''if'' \<or> k = ''then'' \<or> k = ''else''"
  shows "passes n v"
  using assms by (auto simp: gate_simps)

lemma gated_additional: "gated n ''additionalProperties'' v \<Longrightarrow> is_boolean v \<or> passes n v"
  by (auto simp: gate_simps)

lemma gated_values:
  "gated n ''type'' v \<Longrightarrow> is_string v \<or> names_array v"
  "gated n ''enum'' v \<Longrightarrow> is_array v"
  "gated n ''required'' v \<Longrightarrow> names_array v"
  "gated n ''dependentRequired'' v \<Longrightarrow> \<exists>m. v = JObj m \<and> (\<forall>f r. (f, r) \<in> set m \<longrightarrow> names_array r)"
  "gated n ''pattern'' v \<Longrightarrow> is_string v"
  by (auto simp: gate_simps is_string_def list_all_iff split: sum.splits option.splits if_splits)

lemma gated_counts:
  assumes "gated n k v" and "k \<in> {''minItems'', ''maxItems'', ''minContains'', ''maxContains'', ''minLength'', ''maxLength'',
    ''minProperties'', ''maxProperties''}"
  shows "is_u64 v"
  using assms by (auto simp: gate_simps)

lemma gated_numbers:
  assumes "gated n k v" and "k \<in> {''minimum'', ''maximum'', ''exclusiveMinimum'', ''exclusiveMaximum'', ''multipleOf''}"
  shows "is_number v"
  using assms by (auto simp: gate_simps)

section \<open>Checked schemas do not go wrong\<close>

definition ready :: "nat \<Rightarrow> validator \<Rightarrow> object \<Rightarrow> bool" where
  "ready n rec o1 \<longleftrightarrow> (\<forall>k v. map_of o1 k = Some v \<longrightarrow> gated n k v) \<and> (\<forall>s v ip sp. passes n s \<longrightarrow> sound (rec s v ip sp))"

lemma ready_gated: "ready n rec o1 \<Longrightarrow> map_of o1 k = Some v \<Longrightarrow> gated n k v"
  by (simp add: ready_def)

lemma ready_rec: "ready n rec o1 \<Longrightarrow> passes n s \<Longrightarrow> sound (rec s v ip sp)"
  by (auto simp: ready_def)

lemma sound_count:
  assumes "ready n rec o1" and "key \<in> {''minItems'', ''maxItems'', ''minContains'', ''maxContains'', ''minLength'', ''maxLength'',
    ''minProperties'', ''maxProperties''}"
  shows "sound (usize_keyword o1 key ip sp)"
    and "k \<notin> {KUnsupportedKeyword, KMalformedSchema, KResourceLimit} \<Longrightarrow> sound (count_check o1 key bad k m ip sp)"
proof -
  show *: "sound (usize_keyword o1 key ip sp)"
    using gated_counts [OF ready_gated [OF assms(1)] assms(2)]
    by (auto simp: usize_keyword_def shape_iff split: option.split)
  show "sound (count_check o1 key bad k m ip sp)" if "k \<notin> {KUnsupportedKeyword, KMalformedSchema, KResourceLimit}"
    unfolding count_check_def using that by (intro sound_bind *) (auto split: option.split intro!: sound_violation)
qed

lemma sound_number:
  assumes "ready n rec o1" and "key \<in> {''minimum'', ''maximum'', ''exclusiveMinimum'', ''exclusiveMaximum'', ''multipleOf''}"
    and "k \<notin> {KUnsupportedKeyword, KMalformedSchema, KResourceLimit}"
  shows "sound (bound_check o1 key bad k m ip sp)"
proof -
  have "sound (number_keyword o1 key ip sp)"
    using gated_numbers [OF ready_gated [OF assms(1)] assms(2)]
    by (auto simp: number_keyword_def shape_iff split: option.split)
  then show ?thesis
    unfolding bound_check_def using assms(3) by (intro sound_bind) (auto split: option.split intro!: sound_violation)
qed

lemma sound_type: "ready n rec o1 \<Longrightarrow> sound (validate_type o1 v ip sp)"
proof (cases "map_of o1 ''type''")
  case (Some c)
  assume "ready n rec o1"
  from gated_values(1) [OF ready_gated [OF this Some]] Some show ?thesis
    by (auto simp: validate_type_def shape_iff names_array_def as_shape split: option.splits intro!: sound_violation)
qed (simp add: validate_type_def)

lemma sound_const_enum: "sound (validate_const_and_enum o1 v ip sp)"
  unfolding validate_const_and_enum_def
  by (intro sound_bind) (auto split: option.split intro!: sound_violation)

lemma sound_numbers: "ready n rec o1 \<Longrightarrow> sound (validate_numbers o1 v ip sp)"
  unfolding validate_numbers_def
  by (auto split: option.split intro!: sound_bind sound_number [of n rec])

lemma refused_pattern: "matches q t = Inl m \<Longrightarrow> tolerable (serr KResourceLimit ip sp m)"
  by (auto simp: tolerable_def serr_def)

lemma sound_pattern: "ready n rec o1 \<Longrightarrow> sound (pattern_check o1 t ip sp)"
proof (cases "map_of o1 ''pattern''")
  case (Some c)
  assume "ready n rec o1"
  from gated_values(5) [OF ready_gated [OF this Some]] obtain p where "c = JStr p" by (auto simp: shape_iff)
  with Some show ?thesis
    by (auto simp: pattern_check_def refused_pattern serr_def tolerable_def split: sum.split bool.split)
qed (simp add: pattern_check_def)

lemma sound_strings: "ready n rec o1 \<Longrightarrow> sound (validate_strings o1 v ip sp)"
  unfolding validate_strings_def
  by (auto split: option.split intro!: sound_bind sound_count(2) [of n rec] sound_pattern)

lemma sound_required: "ready n rec o1 \<Longrightarrow> sound (required_check o1 m ip sp)"
proof (cases "map_of o1 ''required''")
  case (Some c)
  assume "ready n rec o1"
  from gated_values(3) [OF ready_gated [OF this Some]] Some show ?thesis
    by (auto simp: required_check_def intro!: sound_each sound_violation)
qed (simp add: required_check_def)

lemma sound_properties: "ready n rec o1 \<Longrightarrow> sound (properties_check rec o1 m ip sp)"
proof (cases "map_of o1 ''properties''")
  case (Some c)
  assume r: "ready n rec o1"
  from gated_objects [OF ready_gated [OF r Some]] obtain ps where
    "c = JObj ps" "\<And>f s. (f, s) \<in> set ps \<Longrightarrow> passes n s" by auto
  with Some show ?thesis
    by (auto simp: properties_check_def intro!: sound_each ready_rec [OF r] split: option.split)
qed (simp add: properties_check_def)

lemma sound_additional: "ready n rec o1 \<Longrightarrow> sound (additional_check rec o1 m ip sp)"
proof (cases "map_of o1 ''additionalProperties''")
  case (Some c)
  assume r: "ready n rec o1"
  have object: "passes n c \<Longrightarrow> \<exists>kvs. c = JObj kvs" by (cases n) (auto simp: as_shape split: option.splits)
  from gated_additional [OF ready_gated [OF r Some]] consider b where "c = JBool b" | kvs where "c = JObj kvs" "passes n (JObj kvs)"
    using object by (auto simp: shape_iff)
  then show ?thesis
  proof cases
    case 1
    with Some show ?thesis by (auto simp: additional_check_def intro!: sound_each sound_violation split: bool.split)
  next
    case 2
    with Some show ?thesis by (auto simp: additional_check_def intro!: sound_each ready_rec [OF r])
  qed
qed (simp add: additional_check_def)

lemma sound_pattern_properties: "ready n rec o1 \<Longrightarrow> sound (pattern_properties_check rec o1 m ip sp)"
proof (cases "map_of o1 ''patternProperties''")
  case (Some c)
  assume r: "ready n rec o1"
  from gated_objects [OF ready_gated [OF r Some]] obtain ps where
    "c = JObj ps" "\<And>f s. (f, s) \<in> set ps \<Longrightarrow> passes n s" by auto
  with Some show ?thesis
    by (auto simp: pattern_properties_check_def refused_pattern intro!: sound_each ready_rec [OF r] split: sum.split bool.split)
qed (simp add: pattern_properties_check_def)

lemma sound_property_names: "ready n rec o1 \<Longrightarrow> sound (property_names_check rec o1 m ip sp)"
proof (cases "map_of o1 ''propertyNames''")
  case (Some c)
  assume r: "ready n rec o1"
  have "passes n c" using gated_schema [OF ready_gated [OF r Some]] by blast
  with Some show ?thesis by (auto simp: property_names_check_def intro!: sound_each ready_rec [OF r])
qed (simp add: property_names_check_def)

lemma sound_dependent: "ready n rec o1 \<Longrightarrow> sound (dependent_check o1 m ip sp)"
proof (cases "map_of o1 ''dependentRequired''")
  case (Some c)
  assume r: "ready n rec o1"
  from gated_values(4) [OF ready_gated [OF r Some]] obtain ds where
    "c = JObj ds" "\<And>f x. (f, x) \<in> set ds \<Longrightarrow> as_array x \<noteq> None" by (force simp: names_array_def split: option.splits)
  with Some show ?thesis
    by (fastforce simp: dependent_check_def intro!: sound_each sound_violation split: option.split)
qed (simp add: dependent_check_def)

lemma sound_object: "ready n rec o1 \<Longrightarrow> sound (validate_object_keywords rec o1 m ip sp)"
  unfolding validate_object_keywords_def
  by (intro sound_bind sound_required sound_properties sound_additional sound_pattern_properties sound_property_names
      sound_count(2) [of n rec] sound_dependent) simp_all

lemma sound_enumerated: "(\<And>i. i < length xs \<Longrightarrow> sound (f i (xs ! i))) \<Longrightarrow> sound (enumerated f xs)"
  unfolding enumerated_def by (rule sound_each) (auto simp: in_set_enumerate_eq)

lemma prefix_items_gated:
  assumes "ready n rec o1"
  shows "sound (prefix_items o1 ip sp)" "prefix_items o1 ip sp = Inr pre \<Longrightarrow> s \<in> set (positional o1 pre) \<Longrightarrow> passes n s"
proof -
  note g = gated_arrays [OF ready_gated [OF assms, of "''prefixItems''"]]
  have object: "passes n c \<Longrightarrow> \<exists>kvs. c = JObj kvs" for c by (cases n) (auto simp: as_shape split: option.splits)
  have items: "map_of o1 ''items'' \<noteq> Some (JArr xs)" for xs
    using gated_schema [OF ready_gated [OF assms, of "''items''"]] object by blast
  show "sound (prefix_items o1 ip sp)" using g by (auto simp: prefix_items_def split: option.split)
  show "passes n s" if p: "prefix_items o1 ip sp = Inr pre" "s \<in> set (positional o1 pre)"
  proof (cases "map_of o1 ''prefixItems''")
    case None
    then have "positional o1 pre = []"
      using p(1) items by (auto simp: prefix_items_def positional_def split: option.split json.split)
    then show ?thesis using p(2) by simp
  next
    case (Some c)
    with g obtain xs where "c = JArr xs" "\<forall>s \<in> set xs. passes n s" by blast
    with p Some show ?thesis by (auto simp: prefix_items_def positional_def)
  qed
qed

lemma sound_positional:
  "ready n rec o1 \<Longrightarrow> (\<And>s. s \<in> set ps \<Longrightarrow> passes n s) \<Longrightarrow> sound (positional_check rec ps arr ip sp)"
  unfolding positional_check_def by (rule sound_enumerated) (auto intro: ready_rec)

lemma sound_items: "ready n rec o1 \<Longrightarrow> sound (items_check rec o1 k arr ip sp)"
proof (cases "map_of o1 ''items''")
  case (Some c)
  assume r: "ready n rec o1"
  have c: "passes n c" using gated_schema [OF ready_gated [OF r Some]] by blast
  then obtain kvs where "c = JObj kvs" by (cases n) (auto simp: as_shape split: option.splits)
  with Some c show ?thesis by (auto simp: items_check_def intro!: sound_each ready_rec [OF r])
qed (simp add: items_check_def)

lemma sound_contains: "ready n rec o1 \<Longrightarrow> sound (contains_check rec o1 arr ip sp)"
  unfolding contains_check_def
  by (auto simp: Let_def malformed_def malformed_as_def serr_def tolerable_def split: option.split
      intro!: sound_bind sound_count(1) [of n rec] sound_violation)

lemma sound_array: "ready n rec o1 \<Longrightarrow> sound (validate_array_keywords rec o1 arr ip sp)"
  unfolding validate_array_keywords_def Let_def
  by (intro sound_bind sound_positional [of n] prefix_items_gated(1) sound_items sound_count(2) [of n rec] sound_contains)
    (auto simp: unique_check_def intro: prefix_items_gated(2) sound_violation)

lemma subschema_array_gated:
  assumes "ready n rec o1" and "key = ''allOf'' \<or> key = ''anyOf'' \<or> key = ''oneOf''"
  shows "sound (subschema_array o1 key ip sp)" "subschema_array o1 key ip sp = Inr (Some ss) \<Longrightarrow> s \<in> set ss \<Longrightarrow> passes n s"
proof -
  have g: "map_of o1 key = Some v \<Longrightarrow> \<exists>xs. v = JArr xs \<and> (\<forall>s \<in> set xs. passes n s)" for v
    using gated_arrays [OF ready_gated [OF assms(1)]] assms(2) by blast
  show "sound (subschema_array o1 key ip sp)" using g by (auto simp: subschema_array_def split: option.split)
  show "passes n s" if "subschema_array o1 key ip sp = Inr (Some ss)" "s \<in> set ss"
    using that g by (auto simp: subschema_array_def malformed_def malformed_as_def split: option.splits json.splits)
qed

lemma sound_combinators: "ready n rec o1 \<Longrightarrow> sound (validate_combinators rec o1 v ip sp)"
proof -
  assume r: "ready n rec o1"
  note sub = subschema_array_gated [OF r]
  have object: "passes n c \<Longrightarrow> \<exists>kvs. c = JObj kvs" for c by (cases n) (auto simp: as_shape split: option.splits)
  have all: "sound (all_of_check rec o1 v ip sp)"
    unfolding all_of_check_def
    by (intro sound_bind sub(1)) (auto split: option.split intro!: sound_enumerated ready_rec [OF r]
        intro: subschema_array_gated(2) [OF r, of "''allOf''"])
  have any: "sound (any_of_check rec o1 v ip sp)"
    unfolding any_of_check_def
    by (intro sound_bind sub(1)) (auto simp: serr_def tolerable_def split: option.split sum.split)
  have one: "sound (one_of_check rec o1 v ip sp)"
    unfolding one_of_check_def Let_def
    by (intro sound_bind sub(1)) (auto split: option.split intro!: sound_violation)
  have schema: "\<forall>c. map_of o1 k = Some c \<longrightarrow> is_object c \<and> passes n c"
    if "k = ''not'' \<or> k = ''if'' \<or> k = ''then'' \<or> k = ''else''" for k
  proof (intro allI impI)
    fix c assume "map_of o1 k = Some c"
    from ready_gated [OF r this] have "passes n c" by (rule gated_schema) (use that in simp)
    with object [OF this] show "is_object c \<and> passes n c" by (simp add: shape_iff)
  qed
  have nt: "sound (not_check rec o1 v ip sp)"
    using schema [of "''not''"] by (auto simp: not_check_def split: option.split intro!: sound_violation)
  have branch: "sound (case map_of o1 k of None \<Rightarrow> Inr () | Some s \<Rightarrow> rec s v ip (under sp k))"
    if "k = ''then'' \<or> k = ''else''" for k
    using schema [of k] that by (auto split: option.split intro: ready_rec [OF r])
  have cond: "sound (if_check rec o1 v ip sp)"
    using schema [of "''if''"] branch [of "''then''"] branch [of "''else''"]
    by (simp add: if_check_def Let_def del: shape_simps split: option.split)
  show ?thesis
    unfolding validate_combinators_def by (intro sound_bind all any one nt cond)
qed

lemma passes_Suc: "passes (Suc n) s \<Longrightarrow> \<exists>o1. s = JObj o1 \<and> (\<forall>k. k \<in> set unsupported_schema_keywords \<longrightarrow> map_of o1 k = None)
    \<and> (\<forall>k v. (k, v) \<in> set o1 \<longrightarrow> gated n k v)"
  by (auto simp: as_shape unsupported_check_def bindR_unit_Inr_iff each_Inr_iff gated_def split: option.splits) blast

lemma checked_sound: "passes n s \<Longrightarrow> sound (validate_levels n s v ip sp)"
proof (induction n arbitrary: s v ip sp)
  case (Suc n)
  obtain o1 where o1: "s = JObj o1" "\<And>k. k \<in> set unsupported_schema_keywords \<Longrightarrow> map_of o1 k = None"
    "\<And>k v. (k, v) \<in> set o1 \<Longrightarrow> gated n k v" using passes_Suc [OF Suc.prems] by blast
  then have r: "ready n (validate_levels n) o1" using Suc.IH map_of_SomeD by (fastforce simp: ready_def)
  have "sound (unsupported_check o1 ip sp)"
    using o1(2) by (auto simp: unsupported_check_def ensure_def intro!: sound_each)
  moreover have "sound (case as_object v of None \<Rightarrow> Inr () | Some m \<Rightarrow> validate_object_keywords (validate_levels n) o1 m ip sp)"
    "sound (case as_array v of None \<Rightarrow> Inr () | Some xs \<Rightarrow> validate_array_keywords (validate_levels n) o1 xs ip sp)"
    using sound_object [OF r] sound_array [OF r] by (simp_all split: option.split)
  ultimately show ?case
    using o1(1) sound_const_enum
    by (auto simp: validate_body_def intro!: sound_bind sound_type [OF r] sound_numbers [OF r] sound_strings [OF r]
        sound_combinators [OF r])
qed simp

text \<open>
  C19. A schema that passed the check at exposure time does not go wrong when arguments are
  validated. Whatever the value, validation never reports an unsupported keyword, never runs out of
  nesting levels, and reports a malformed schema only for a \<open>contains\<close> that is not an object,
  the one keyword whose value the check does not look at. The only other failure that is not a
  violated constraint is the pattern engine refusing a pattern or a text.
\<close>

theorem checked_schema_never_wrong:
  assumes "validate_schema_syntax s p = Inr ()" and "validate_schema s v ip sp = Inl e"
  shows "se_keyword e \<noteq> KUnsupportedKeyword
    \<and> (se_keyword e = KMalformedSchema \<longrightarrow> se_message e = Txt (about ''contains'' '' must be an object schema''))
    \<and> (se_keyword e = KResourceLimit \<longrightarrow> (\<exists>q t. matches q t = Inl (se_message e)))"
proof -
  have "sound (validate_levels max_schema_depth s v ip sp)"
    using assms(1) by (intro checked_sound) (auto simp: validate_schema_syntax_def)
  with assms(2) show ?thesis by (simp add: validate_schema_def tolerable_def)
qed

lemma checked_schema_never_wrong_witness:
  "\<exists>e. validate_schema (JObj [(''contains'', JBool True)]) (JArr []) ''arguments'' ''#'' = Inl e
     \<and> se_message e = Txt (about ''contains'' '' must be an object schema'')"
proof -
  have gate: "validate_schema_syntax (JObj [(''contains'', JBool True)]) ''#'' = Inr ()" by code_simp
  have "case validate_schema (JObj [(''contains'', JBool True)]) (JArr []) ''arguments'' ''#'' of
      Inl e \<Rightarrow> se_keyword e = KMalformedSchema | Inr _ \<Rightarrow> False" by code_simp
  then obtain e where "validate_schema (JObj [(''contains'', JBool True)]) (JArr []) ''arguments'' ''#'' = Inl e"
    "se_keyword e = KMalformedSchema" by (auto split: sum.splits)
  with checked_schema_never_wrong [OF gate, of "JArr []" "''arguments''" "''#''" e] show ?thesis by simp
qed

end
