(* ===== verification/ToolGate.thy ===== *)
theory ToolGate
  imports Authorization
begin

text \<open>
  Who may run which built-in tool: the permission sets and trust records of
  \<open>mcp/permissions.rs\<close> and \<open>mcp/trust.rs\<close>, the tool registry (\<open>mcp/tool_registry.rs\<close>), the
  execution gate (\<open>mcp/execution_gate.rs\<close>) and the checks of the dispatcher that every tool call
  passes (\<open>authorize_caller_capability\<close>, \<open>authorize_builtin\<close>, \<open>authorize_policy\<close>, \<open>authorize_tool\<close>
  in \<open>mcp/dispatcher.rs\<close>). Every check records its audit events.
\<close>

section \<open>Permission sets\<close>

record mcp_permissions =
  mp_network :: bool
  mp_filesystem :: "string list"
  mp_environment :: "string list"
  mp_process :: bool
  mp_secrets :: "string list"

definition no_permissions :: mcp_permissions where
  "no_permissions = \<lparr>mp_network = False, mp_filesystem = [], mp_environment = [], mp_process = False, mp_secrets = []\<rparr>"

fun permission_label :: "permission \<Rightarrow> string" where
  "permission_label Network = ''network''"
| "permission_label Filesystem = ''filesystem''"
| "permission_label Environment = ''environment''"
| "permission_label Process = ''process''"
| "permission_label Secrets = ''secrets''"

definition blocked_environment :: "string list" where
  "blocked_environment = [''PATH'', ''LD_PRELOAD'', ''LD_LIBRARY_PATH'', ''DYLD_INSERT_LIBRARIES'', ''DYLD_LIBRARY_PATH'',
     ''DYLD_FRAMEWORK_PATH'', ''DYLD_FALLBACK_LIBRARY_PATH'', ''PYTHONPATH'', ''PYTHONHOME'', ''RUBYLIB'', ''PERL5LIB'']"

definition is_alpha :: "char \<Rightarrow> bool" where
  "is_alpha c \<longleftrightarrow> (65 \<le> byte c \<and> byte c \<le> 90) \<or> (97 \<le> byte c \<and> byte c \<le> 122)"

definition is_valid_env_name :: "string \<Rightarrow> bool" where
  "is_valid_env_name name = (case name of [] \<Rightarrow> False
     | c # cs \<Rightarrow> (c = CHR ''_'' \<or> is_alpha c) \<and> list_all (\<lambda>d. d = CHR ''_'' \<or> is_alpha d \<or> is_digit d) cs)"

definition upper :: "string \<Rightarrow> string" where
  "upper s = map (\<lambda>c. if 97 \<le> byte c \<and> byte c \<le> 122 then char_of (byte c - 32) else c) s"

definition is_blocked_environment :: "string \<Rightarrow> bool" where
  "is_blocked_environment name \<longleftrightarrow> list_ex (\<lambda>b. upper b = upper name) blocked_environment"

definition permissions_validate :: "mcp_permissions \<Rightarrow> msg + unit" where
  "permissions_validate p =
     bindR (ensure (\<not> list_ex (\<lambda>d. trim d = []) (mp_filesystem p)) (Txt ''filesystem permission path cannot be empty'')) (\<lambda>_.
     bindR (each (\<lambda>n. bindR (ensure (is_valid_env_name n) (Fmt ''invalid environment variable name: {:?}'' [Txt n])) (\<lambda>_.
        ensure (\<not> is_blocked_environment n) (Fmt ''dangerous environment variable is blocked: {}'' [Txt n]))) (mp_environment p)) (\<lambda>_.
     bindR (each (\<lambda>n. bindR (ensure (is_valid_env_name n) (Fmt ''invalid secret environment variable name: {:?}'' [Txt n])) (\<lambda>_.
        ensure (\<not> is_blocked_environment n) (Fmt ''dangerous secret environment variable is blocked: {}'' [Txt n]))) (mp_secrets p)) (\<lambda>_.
     ensure (list_all (List.member (mp_environment p)) (mp_secrets p))
       (Txt ''secret permission must also be present in environment permissions''))))"

fun allows :: "mcp_permissions \<Rightarrow> permission \<Rightarrow> bool" where
  "allows p Network = mp_network p"
| "allows p Filesystem = (mp_filesystem p \<noteq> [])"
| "allows p Environment = (mp_environment p \<noteq> [])"
| "allows p Process = mp_process p"
| "allows p Secrets = (mp_secrets p \<noteq> [])"

definition allowed_environment :: "mcp_permissions \<Rightarrow> string list \<Rightarrow> string list" where
  "allowed_environment p requested = filter (List.member (mp_environment p)) requested"

definition allows_secret :: "mcp_permissions \<Rightarrow> string \<Rightarrow> bool" where
  "allows_secret p name \<longleftrightarrow> List.member (mp_secrets p) name"

definition require_permission :: "mcp_permissions \<Rightarrow> permission \<Rightarrow> msg + unit" where
  "require_permission p c = ensure (allows p c) (Fmt ''MCP permission denied: {:?}'' [Txt (permission_label c)])"

section \<open>Trust records\<close>

datatype trust_level = Trusted | Reviewed | Unknown | Blocked

record mcp_approval =
  ap_id :: string
  ap_level :: trust_level
  ap_permissions :: mcp_permissions
  ap_version :: string

type_synonym trust_store = "mcp_approval list"

definition trust_get :: "trust_store \<Rightarrow> string \<Rightarrow> mcp_approval option" where
  "trust_get ts i = find (\<lambda>a. ap_id a = i) ts"

definition trust_approve :: "string \<Rightarrow> trust_level \<Rightarrow> mcp_permissions \<Rightarrow> string \<Rightarrow> (trust_store, msg, unit) io" where
  "trust_approve i level p version =
     bindE (lift (ensure (trim i \<noteq> []) (Txt ''MCP id is required''))) (\<lambda>_.
     bindE (lift (permissions_validate p)) (\<lambda>_.
     modify (\<lambda>ts. filter (\<lambda>a. ap_id a \<noteq> i) ts
       @ [\<lparr>ap_id = i, ap_level = level, ap_permissions = p, ap_version = version\<rparr>])))"

definition trust_revoke :: "string \<Rightarrow> trust_store \<Rightarrow> bool \<times> trust_store" where
  "trust_revoke i ts = (let kept = filter (\<lambda>a. ap_id a \<noteq> i) ts in (length ts \<noteq> length kept, kept))"

definition can_enable :: "mcp_approval option \<Rightarrow> mcp_permissions \<Rightarrow> string \<Rightarrow> bool" where
  "can_enable approval requested version = (case approval of None \<Rightarrow> False
     | Some a \<Rightarrow> \<not> (ap_level a = Blocked \<or> ap_level a = Unknown)
         \<and> \<not> (ap_version a \<noteq> [] \<and> ap_version a \<noteq> version)
         \<and> mp_network requested \<le> mp_network (ap_permissions a)
         \<and> mp_process requested \<le> mp_process (ap_permissions a)
         \<and> list_all (List.member (mp_filesystem (ap_permissions a))) (mp_filesystem requested)
         \<and> list_all (List.member (mp_environment (ap_permissions a))) (mp_environment requested)
         \<and> list_all (List.member (mp_secrets (ap_permissions a))) (mp_secrets requested))"

section \<open>The tool registry\<close>

datatype tool_risk = Low | Medium | High

record tool_definition =
  td_name :: string
  td_description :: string
  td_category :: string
  td_risk :: tool_risk
  td_permissions :: "permission list"

definition awh_tool :: "string \<Rightarrow> string \<Rightarrow> string \<Rightarrow> tool_risk \<Rightarrow> permission list \<Rightarrow> tool_definition" where
  "awh_tool name description category risk permissions = \<lparr>td_name = name, td_description = description,
     td_category = category, td_risk = risk, td_permissions = permissions\<rparr>"

definition registry_part1 :: "tool_definition list" where
  "registry_part1 =
  [awh_tool ''connector.composio_accounts'' ''List connected Composio accounts'' ''connector'' Low [Network],
   awh_tool ''connector.composio_link'' ''Create a Composio OAuth link'' ''connector'' Medium [Network],
   awh_tool ''connector.composio_register'' ''Register a Composio API key'' ''connector'' Medium [Network],
   awh_tool ''connector.composio_remove'' ''Remove the registered Composio provider'' ''connector'' Medium [],
   awh_tool ''connector.invoke'' ''Invoke a tool exposed by a provider'' ''connector'' High [Network],
   awh_tool ''connector.providers'' ''List registered providers'' ''connector'' Low [],
   awh_tool ''connector.tools'' ''List tools exposed by a provider'' ''connector'' Low [],
   awh_tool ''connectors.add'' ''Register connector metadata'' ''connector'' Medium [],
   awh_tool ''connectors.disable'' ''Disable a connector'' ''connector'' Medium [],
   awh_tool ''connectors.enable'' ''Enable a connector'' ''connector'' Medium [],
   awh_tool ''connectors.get'' ''Get connector metadata by id'' ''connector'' Low [],
   awh_tool ''connectors.list'' ''List connector metadata'' ''connector'' Low [],
   awh_tool ''connectors.remove'' ''Remove connector metadata'' ''connector'' Medium [],
   awh_tool ''context.assemble'' ''Assemble the context window'' ''context'' Low [],
   awh_tool ''context.get'' ''Get a context item'' ''context'' Low [],
   awh_tool ''context.insert'' ''Insert a context item'' ''context'' Medium [],
   awh_tool ''context.offload'' ''Offload a context item'' ''context'' Medium [],
   awh_tool ''context.optimize'' ''Optimize the context window'' ''context'' Medium [],
   awh_tool ''context.protect'' ''Protect a context item'' ''context'' Medium [],
   awh_tool ''context.remove'' ''Remove a context item'' ''context'' Medium [],
   awh_tool ''context.restore'' ''Restore an offloaded context item'' ''context'' Medium [],
   awh_tool ''context.search'' ''Search context items'' ''context'' Low [],
   awh_tool ''context.status'' ''Context engine status'' ''context'' Low [],
   awh_tool ''context.unprotect'' ''Unprotect a context item'' ''context'' Medium [],
   awh_tool ''filesystem.apply_diff'' ''Apply a unified diff to workspace files'' ''filesystem'' Medium [Filesystem]]"

definition registry_part2 :: "tool_definition list" where
  "registry_part2 =
  [awh_tool ''filesystem.delete_range'' ''Delete an inclusive range of lines from a workspace file'' ''filesystem'' Medium [Filesystem],
   awh_tool ''filesystem.insert'' ''Insert text at a line boundary in a workspace file'' ''filesystem'' Medium [Filesystem],
   awh_tool ''filesystem.patch'' ''Apply a multi-operation patch transaction to workspace files'' ''filesystem'' Medium [Filesystem],
   awh_tool ''filesystem.replace'' ''Replace an exact text match in a workspace file'' ''filesystem'' Medium [Filesystem],
   awh_tool ''filesystem.rollback'' ''Roll back one completed edit transaction by its exact id'' ''filesystem'' Medium [Filesystem],
   awh_tool ''git.branch'' ''Show the current git branch name'' ''git'' Medium [Filesystem],
   awh_tool ''git.commit'' ''Commit staged changes'' ''git'' Medium [Filesystem],
   awh_tool ''git.diff'' ''Show working-tree or staged changes'' ''git'' Low [Filesystem],
   awh_tool ''git.log'' ''Show commit history'' ''git'' Low [Filesystem],
   awh_tool ''git.stage'' ''Stage files'' ''git'' Medium [Filesystem],
   awh_tool ''git.status'' ''Show repository status'' ''git'' Low [Filesystem],
   awh_tool ''git.unstage'' ''Unstage files'' ''git'' Medium [Filesystem],
   awh_tool ''github.checks_status'' ''CI/check status for a ref'' ''github'' Low [Network],
   awh_tool ''github.issue_comment'' ''Comment on an issue or PR'' ''github'' High [Network],
   awh_tool ''github.issue_create'' ''Create an issue'' ''github'' High [Network],
   awh_tool ''github.issue_get'' ''Get an issue or PR'' ''github'' Low [Network],
   awh_tool ''github.issue_list'' ''List issues'' ''github'' Low [Network],
   awh_tool ''github.pr_create'' ''Create a pull request'' ''github'' High [Network],
   awh_tool ''github.pr_get'' ''Get a pull request'' ''github'' Low [Network],
   awh_tool ''github.pr_list'' ''List pull requests'' ''github'' Low [Network],
   awh_tool ''github.pr_merge'' ''Merge a pull request'' ''github'' High [Network],
   awh_tool ''github.pr_review'' ''Submit a pull request review'' ''github'' High [Network],
   awh_tool ''github.release_create'' ''Create a release'' ''github'' High [Network],
   awh_tool ''github.workflow_dispatch'' ''Trigger a workflow run'' ''github'' High [Network]]"

definition registry_part3 :: "tool_definition list" where
  "registry_part3 =
  [awh_tool ''mcp.status'' ''Server status'' ''system'' Low [],
   awh_tool ''memory.delete'' ''Delete a memory entry'' ''memory'' Medium [],
   awh_tool ''memory.get'' ''Get a memory entry'' ''memory'' Low [],
   awh_tool ''memory.search'' ''Search memory'' ''memory'' Low [],
   awh_tool ''memory.store'' ''Store a memory entry'' ''memory'' Medium [],
   awh_tool ''memory.update'' ''Update a memory entry'' ''memory'' Medium [],
   awh_tool ''skills.add'' ''Reference an installed skill'' ''skills'' Medium [],
   awh_tool ''skills.disable'' ''Disable a skill reference'' ''skills'' Medium [],
   awh_tool ''skills.enable'' ''Enable a skill reference'' ''skills'' Medium [],
   awh_tool ''skills.list'' ''List project skills'' ''skills'' Low [],
   awh_tool ''skills.read'' ''Read a skill'' ''skills'' Low [],
   awh_tool ''skills.remove'' ''Remove a skill reference'' ''skills'' Medium [],
   awh_tool ''skills.search'' ''Search installed skills'' ''skills'' Low [],
   awh_tool ''tasks.create'' ''Create a task'' ''tasks'' Medium [],
   awh_tool ''tasks.delete'' ''Delete a task'' ''tasks'' Medium [],
   awh_tool ''tasks.get'' ''Get a task'' ''tasks'' Low [],
   awh_tool ''tasks.list'' ''List tasks'' ''tasks'' Low [],
   awh_tool ''tasks.update'' ''Update a task'' ''tasks'' Medium [],
   awh_tool ''terminal.run'' ''Run a shell command'' ''terminal'' High [Process],
   awh_tool ''workspace.context'' ''Read project agent instructions'' ''workspace'' Low [Filesystem],
   awh_tool ''workspace.delete_file'' ''Delete a workspace file'' ''workspace'' Medium [Filesystem],
   awh_tool ''workspace.list_files'' ''List workspace files'' ''workspace'' Low [Filesystem],
   awh_tool ''workspace.read_file'' ''Read a workspace file'' ''workspace'' Low [Filesystem],
   awh_tool ''workspace.write_file'' ''Write a workspace file'' ''workspace'' Medium [Filesystem]]"

definition registry :: "tool_definition list" where
  "registry = registry_part1 @ registry_part2 @ registry_part3"

lemmas registry_entries = registry_def registry_part1_def registry_part2_def registry_part3_def

text \<open>
  \<open>binary_search_by\<close> on names: \<open>base\<close> is the last index whose name is not above the wanted one,
  among the \<open>n\<close> candidates from it on.
\<close>

function search_from :: "(nat \<Rightarrow> string) \<Rightarrow> string \<Rightarrow> nat \<Rightarrow> nat \<Rightarrow> nat" where
  "search_from f x base n = (if n \<le> 1 then base
     else (let half = n div 2; mid = base + half
           in search_from f x (if x < f mid then base else mid) (n - half)))"
  by pat_completeness auto
termination by (relation "measure (\<lambda>(f, x, base, n). n)") auto

declare search_from.simps [simp del]

definition registry_lookup :: "string \<Rightarrow> tool_definition option" where
  "registry_lookup name = (if registry = [] then None
     else let i = search_from (\<lambda>i. td_name (registry ! i)) name 0 (length registry)
          in if td_name (registry ! i) = name then Some (registry ! i) else None)"

section \<open>The execution gate\<close>

type_synonym 'e check = "(audit_event list, 'e, unit) io"

definition audit_deny :: "string \<Rightarrow> string \<Rightarrow> string \<Rightarrow> audit_event list \<Rightarrow> audit_event list" where
  "audit_deny action reason subject = record_outcome ''deny'' action subject (Txt reason) no_correlation"

definition audit_allow :: "string \<Rightarrow> string \<Rightarrow> string \<Rightarrow> audit_event list \<Rightarrow> audit_event list" where
  "audit_allow action subject detail = record_outcome ''allow'' action subject (Txt detail) no_correlation"

definition audit_deny_as :: "string \<Rightarrow> string \<Rightarrow> string \<Rightarrow> audit_correlation \<Rightarrow> audit_event list \<Rightarrow> audit_event list" where
  "audit_deny_as action reason subject c = record_outcome ''deny'' action subject (Txt reason) c"

definition audit_allow_as :: "string \<Rightarrow> string \<Rightarrow> string \<Rightarrow> audit_correlation \<Rightarrow> audit_event list \<Rightarrow> audit_event list" where
  "audit_allow_as action subject detail c = record_outcome ''allow'' action subject (Txt detail) c"

definition deny_check :: "(audit_event list \<Rightarrow> audit_event list) \<Rightarrow> 'e \<Rightarrow> 'e check" where
  "deny_check ev e = bindE (modify ev) (\<lambda>_. fail e)"

datatype mcp_authorization_error = MissingId | NoApproval string | Mismatch string

datatype builtin_error =
  Unregistered string
| StoreUnavailable string
| AuthorizationRequired string string
| PermissionDenied string permission string
| TrustLevelDenied string string

definition mcp_authorize :: "string \<Rightarrow> string \<Rightarrow> mcp_permissions \<Rightarrow> trust_store \<Rightarrow> mcp_authorization_error check" where
  "mcp_authorize i version requested ts =
     (if trim i = [] then fail MissingId
      else (let approval = trust_get ts i in
        if approval = None then deny_check (audit_deny ''authorize_mcp_execution'' ''no_approval'' i) (NoApproval i)
        else if \<not> can_enable approval requested version
        then deny_check (audit_deny ''authorize_mcp_execution'' ''trust_mismatch'' i) (Mismatch i)
        else ret ()))"

definition builtin_trust_id :: string where "builtin_trust_id = ''awh.builtin''"
definition builtin_trust_version :: string where "builtin_trust_version = ''local''"

fun add_permission :: "mcp_permissions \<Rightarrow> permission \<Rightarrow> mcp_permissions" where
  "add_permission r Network = r\<lparr>mp_network := True\<rparr>"
| "add_permission r Process = r\<lparr>mp_process := True\<rparr>"
| "add_permission r Filesystem = r\<lparr>mp_filesystem := [builtin_trust_id]\<rparr>"
| "add_permission r Environment = r\<lparr>mp_environment := [builtin_trust_id]\<rparr>"
| "add_permission r Secrets = r\<lparr>mp_secrets := [builtin_trust_id]\<rparr>"

definition requested_permissions :: "permission list \<Rightarrow> mcp_permissions" where
  "requested_permissions required = foldl add_permission no_permissions required"

definition authorize_builtin_tool :: "string \<Rightarrow> trust_store option \<Rightarrow> builtin_error check" where
  "authorize_builtin_tool tool trust = (case registry_lookup tool of
      None \<Rightarrow> deny_check (audit_deny ''builtin_tool_denied'' ''unregistered_tool'' tool) (Unregistered tool)
    | Some def \<Rightarrow> if td_risk def = Low then ret ()
        else (case trust of
          None \<Rightarrow> deny_check (audit_deny ''builtin_tool_denied'' ''trust_store_unavailable'' tool) (StoreUnavailable tool)
        | Some store \<Rightarrow> (case trust_get store builtin_trust_id of
            None \<Rightarrow> if td_risk def = High
              then deny_check (audit_deny ''builtin_tool_denied'' ''authorization_required'' tool)
                (AuthorizationRequired tool builtin_trust_id)
              else ret ()
          | Some approval \<Rightarrow>
              bindE (attempt (mcp_authorize builtin_trust_id builtin_trust_version
                (requested_permissions (td_permissions def)) store)) (\<lambda>r. case r of
                  Inr _ \<Rightarrow> ret ()
                | Inl (Mismatch _) \<Rightarrow> (case find (\<lambda>p. \<not> allows (ap_permissions approval) p) (td_permissions def) of
                    Some p \<Rightarrow> deny_check (audit_deny ''builtin_tool_denied'' ''permission_not_granted'' tool)
                      (PermissionDenied tool p builtin_trust_id)
                  | None \<Rightarrow> deny_check (audit_deny ''builtin_tool_denied'' ''trust_level_or_version'' tool)
                      (TrustLevelDenied tool builtin_trust_id))
                | Inl _ \<Rightarrow> deny_check (audit_deny ''builtin_tool_denied'' ''no_approval'' tool)
                    (TrustLevelDenied tool builtin_trust_id)))))"

section \<open>The lookup finds the entry of the name\<close>

lemma search_from_finds:
  fixes f :: "nat \<Rightarrow> string"
  assumes "\<And>i j. i < j \<Longrightarrow> j < len \<Longrightarrow> f i < f j" and "base + n \<le> len" and "base \<le> k" and "k < base + n"
  shows "search_from f (f k) base n = k"
  using assms(2-4)
proof (induction n arbitrary: base rule: less_induct)
  case (less n)
  show ?case
  proof (cases "n \<le> 1")
    case True
    with less.prems show ?thesis by (simp add: search_from.simps)
  next
    case False
    let ?mid = "base + n div 2"
    have "f k < f ?mid \<longleftrightarrow> k < ?mid"
    proof
      assume "f k < f ?mid"
      then show "k < ?mid" using assms(1) [of ?mid k] less.prems by (metis add_le_cancel_left less_asym' linorder_less_linear order_less_le_trans)
    next
      assume "k < ?mid"
      with less.prems False show "f k < f ?mid" by (intro assms(1)) auto
    qed
    with less.IH [of "n - n div 2" base] less.IH [of "n - n div 2" ?mid] less.prems False
    show ?thesis by (subst search_from.simps) (auto simp: Let_def)
  qed
qed

lemma registry_sorted: "sorted_wrt (<) (map td_name registry)"
  by code_simp

lemma search_from_range: "0 < n \<Longrightarrow> search_from f x base n < base + n"
proof (induction n arbitrary: base rule: less_induct)
  case (less n)
  show ?case
  proof (cases "n \<le> 1")
    case False
    with less.IH [of "n - n div 2" base] less.IH [of "n - n div 2" "base + n div 2"] show ?thesis
      by (subst search_from.simps) (auto simp: Let_def)
  qed (use less.prems in \<open>simp add: search_from.simps\<close>)
qed

lemma registry_lookup_find: "registry_lookup name = find (\<lambda>d. td_name d = name) registry"
proof -
  have mono: "td_name (registry ! i) < td_name (registry ! j)" if "i < j" "j < length registry" for i j
    using registry_sorted that by (simp add: sorted_wrt_map sorted_wrt_iff_nth_less)
  have ne: "registry \<noteq> []" by (simp add: registry_entries)
  let ?i = "search_from (\<lambda>i. td_name (registry ! i)) name 0 (length registry)"
  have r: "?i < length registry" 
    using search_from_range [of "length registry" "\<lambda>i. td_name (registry ! i)" name 0] ne by simp
  show ?thesis
  proof (cases "\<exists>k < length registry. td_name (registry ! k) = name")
    case True
    then obtain k where k: "k < length registry" "td_name (registry ! k) = name" by blast
    have "?i = k" using search_from_finds [where f = "\<lambda>i. td_name (registry ! i)" and len = "length registry" and k = k
        and base = 0 and n = "length registry", OF mono] k by simp
    moreover have "\<forall>j < k. td_name (registry ! j) \<noteq> name" using mono k by (metis less_irrefl)
    then have "find (\<lambda>d. td_name d = name) registry = Some (registry ! k)"
      using k unfolding find_Some_iff by blast
    ultimately show ?thesis using k ne by (simp add: registry_lookup_def)
  next
    case False
    then have "find (\<lambda>d. td_name d = name) registry = None" by (auto simp: find_None_iff in_set_conv_nth)
    with False r ne show ?thesis by (auto simp: registry_lookup_def Let_def)
  qed
qed

section \<open>What the gate lets through\<close>

text \<open>A record grants a permission as the gate asks for it: lists must contain the reserved label.\<close>

fun granted :: "mcp_permissions \<Rightarrow> permission \<Rightarrow> bool" where
  "granted p Network = mp_network p"
| "granted p Process = mp_process p"
| "granted p Filesystem = List.member (mp_filesystem p) builtin_trust_id"
| "granted p Environment = List.member (mp_environment p) builtin_trust_id"
| "granted p Secrets = List.member (mp_secrets p) builtin_trust_id"

lemma add_permissions:
  "mp_network (foldl add_permission r ps) = (mp_network r \<or> Network \<in> set ps)"
  "mp_process (foldl add_permission r ps) = (mp_process r \<or> Process \<in> set ps)"
  "mp_filesystem (foldl add_permission r ps) = (if Filesystem \<in> set ps then [builtin_trust_id] else mp_filesystem r)"
  "mp_environment (foldl add_permission r ps) = (if Environment \<in> set ps then [builtin_trust_id] else mp_environment r)"
  "mp_secrets (foldl add_permission r ps) = (if Secrets \<in> set ps then [builtin_trust_id] else mp_secrets r)"
proof -
  have "mp_network (foldl add_permission r ps) = (mp_network r \<or> Network \<in> set ps)
    \<and> mp_process (foldl add_permission r ps) = (mp_process r \<or> Process \<in> set ps)
    \<and> mp_filesystem (foldl add_permission r ps) = (if Filesystem \<in> set ps then [builtin_trust_id] else mp_filesystem r)
    \<and> mp_environment (foldl add_permission r ps) = (if Environment \<in> set ps then [builtin_trust_id] else mp_environment r)
    \<and> mp_secrets (foldl add_permission r ps) = (if Secrets \<in> set ps then [builtin_trust_id] else mp_secrets r)"
  proof (induction ps arbitrary: r)
    case (Cons p ps)
    then show ?case by (cases p) auto
  qed simp
  then show "mp_network (foldl add_permission r ps) = (mp_network r \<or> Network \<in> set ps)"
    "mp_process (foldl add_permission r ps) = (mp_process r \<or> Process \<in> set ps)"
    "mp_filesystem (foldl add_permission r ps) = (if Filesystem \<in> set ps then [builtin_trust_id] else mp_filesystem r)"
    "mp_environment (foldl add_permission r ps) = (if Environment \<in> set ps then [builtin_trust_id] else mp_environment r)"
    "mp_secrets (foldl add_permission r ps) = (if Secrets \<in> set ps then [builtin_trust_id] else mp_secrets r)"
    by blast+
qed

lemma all_granted:
  "list_all (granted p) ps \<longleftrightarrow> (Network \<in> set ps \<longrightarrow> granted p Network) \<and> (Process \<in> set ps \<longrightarrow> granted p Process)
     \<and> (Filesystem \<in> set ps \<longrightarrow> granted p Filesystem) \<and> (Environment \<in> set ps \<longrightarrow> granted p Environment)
     \<and> (Secrets \<in> set ps \<longrightarrow> granted p Secrets)"
proof (induction ps)
  case (Cons q ps)
  then show ?case by (cases q) auto
qed simp

lemma can_enable_requested:
  "can_enable (Some a) (requested_permissions ps) v \<longleftrightarrow> ap_level a \<in> {Trusted, Reviewed}
     \<and> (ap_version a = [] \<or> ap_version a = v) \<and> list_all (granted (ap_permissions a)) ps"
proof -
  have "ap_level a \<in> {Trusted, Reviewed} \<longleftrightarrow> \<not> (ap_level a = Blocked \<or> ap_level a = Unknown)"
    by (cases "ap_level a") simp_all
  then show ?thesis
    unfolding can_enable_def requested_permissions_def add_permissions all_granted
    by (auto simp: no_permissions_def)
qed

lemma builtin_gate:
  "case authorize_builtin_tool tool trust log of (r, log') \<Rightarrow>
     (r = Inr ()) = (case find (\<lambda>d. td_name d = tool) registry of
        None \<Rightarrow> False
      | Some d \<Rightarrow> td_risk d = Low \<or> (case trust of
          None \<Rightarrow> False
        | Some ts \<Rightarrow> (case trust_get ts builtin_trust_id of
            None \<Rightarrow> td_risk d = Medium
          | Some a \<Rightarrow> ap_level a \<in> {Trusted, Reviewed} \<and> (ap_version a = [] \<or> ap_version a = builtin_trust_version)
              \<and> list_all (granted (ap_permissions a)) (td_permissions d))))
     \<and> (\<exists>evs. log' = log @ evs \<and> list_all (\<lambda>e. ev_kind e = ''deny'') evs \<and> (evs = []) = (r = Inr ()))"
proof (cases "registry_lookup tool")
  case None
  then show ?thesis
    by (simp add: authorize_builtin_tool_def registry_lookup_find deny_check_def bindE_run audit_deny_def record_outcome_def)
next
  case (Some d)
  show ?thesis
  proof (cases "td_risk d = Low")
    case True
    with Some show ?thesis by (simp add: authorize_builtin_tool_def registry_lookup_find)
  next
    case risk: False
    then have m: "td_risk d = Medium \<longleftrightarrow> td_risk d \<noteq> High" by (cases "td_risk d") simp_all
    show ?thesis
    proof (cases trust)
      case None
      with Some risk show ?thesis
        by (simp add: authorize_builtin_tool_def registry_lookup_find deny_check_def bindE_run audit_deny_def record_outcome_def)
    next
      case ts: (Some ts)
      show ?thesis
      proof (cases "trust_get ts builtin_trust_id")
        case None
        with Some risk ts m show ?thesis
          by (simp add: authorize_builtin_tool_def registry_lookup_find deny_check_def bindE_run audit_deny_def record_outcome_def)
      next
        case a: (Some a)
        have "trim builtin_trust_id \<noteq> []" by code_simp
        then have auth: "mcp_authorize builtin_trust_id builtin_trust_version (requested_permissions (td_permissions d)) ts log
          = (if can_enable (Some a) (requested_permissions (td_permissions d)) builtin_trust_version then (Inr (), log)
             else (Inl (Mismatch builtin_trust_id), audit_deny ''authorize_mcp_execution'' ''trust_mismatch'' builtin_trust_id log))"
          using a by (simp add: mcp_authorize_def deny_check_def bindE_run)
        show ?thesis
          using Some risk ts a auth
          by (simp add: authorize_builtin_tool_def registry_lookup_find bindE_run attempt_run can_enable_requested
              deny_check_def audit_deny_def record_outcome_def split: option.split)
      qed
    qed
  qed
qed

text \<open>
  The gate for built-in tools allows exactly: a registered Low-risk tool; a registered
  Medium-risk tool when the trust store is readable and has no record for the built-in identity;
  and otherwise a registered tool whose record has a permitting level, a matching version and
  every permission the registry declares for the tool. In particular no High-risk tool runs
  without a record. An allowed call records no denial, and a refused one records at least one.
\<close>

theorem builtin_gate_exact:
  "case authorize_builtin_tool tool trust log of (r, log') \<Rightarrow>
     (r = Inr ()) = (case find (\<lambda>d. td_name d = tool) registry of
        None \<Rightarrow> False
      | Some d \<Rightarrow> td_risk d = Low \<or> (case trust of
          None \<Rightarrow> False
        | Some ts \<Rightarrow> (case trust_get ts builtin_trust_id of
            None \<Rightarrow> td_risk d = Medium
          | Some a \<Rightarrow> ap_level a \<in> {Trusted, Reviewed} \<and> (ap_version a = [] \<or> ap_version a = builtin_trust_version)
              \<and> list_all (granted (ap_permissions a)) (td_permissions d))))
     \<and> (\<exists>evs. log' = log @ evs \<and> list_all (\<lambda>e. ev_kind e = ''deny'') evs \<and> (evs = []) = (r = Inr ()))"
  by (rule builtin_gate)

text \<open>
  A record that lists paths for the filesystem permission without the label \<open>awh.builtin\<close> is
  refused with the error of a wrong trust level or version, although level, version and
  permission kind all fit.
\<close>

lemma missing_label_reported_as_level:
  "fst (authorize_builtin_tool ''filesystem.replace'' (Some
     [\<lparr>ap_id = builtin_trust_id, ap_level = Trusted,
       ap_permissions = no_permissions\<lparr>mp_filesystem := [''/data'']\<rparr>, ap_version = builtin_trust_version\<rparr>]) [])
   = Inl (TrustLevelDenied ''filesystem.replace'' builtin_trust_id)"
  by code_simp

end
