(* ===== verification/Catalog.thy ===== *)
theory Catalog
  imports SchemaSafety ToolGate
begin

text \<open>
  The static tool catalog of the dispatcher (\<open>tools_list_static\<close> and \<open>github_tool_schemas\<close> of
  \<open>mcp/dispatcher.rs\<close>): each tool with its description and the schema of its arguments, entries of
  objects in the order of their keys, and what a validated call may rely on.
\<close>

section \<open>The catalog\<close>

definition of_type :: "string \<Rightarrow> json" where "of_type t = JObj [(''type'', JStr t)]"

abbreviation "a_string \<equiv> of_type ''string''"
abbreviation "a_number \<equiv> of_type ''number''"
abbreviation "a_boolean \<equiv> of_type ''boolean''"

definition string_array :: json where
  "string_array = JObj [(''items'', a_string), (''type'', JStr ''array'')]"

definition one_of :: "string list \<Rightarrow> json" where
  "one_of vs = JObj [(''enum'', JArr (map JStr vs)), (''type'', JStr ''string'')]"

definition arguments_schema :: "(string \<times> json) list \<Rightarrow> string list \<Rightarrow> json" where
  "arguments_schema ps ks = JObj ((''properties'', JObj ps) #
     (if ks = [] then [] else [(''required'', JArr (map JStr ks))]) @ [(''type'', JStr ''object'')])"

definition tool_entry :: "string \<Rightarrow> string \<Rightarrow> (string \<times> json) list \<Rightarrow> string list \<Rightarrow> json" where
  "tool_entry name description ps ks = JObj [(''description'', JStr description),
     (''inputSchema'', arguments_schema ps ks), (''name'', JStr name)]"

definition core_tools :: "json list" where
  "core_tools =
  [tool_entry ''skills.list'' ''List project-referenced skills''
     [] [],
   tool_entry ''skills.read'' ''Read a project-referenced skill''
     [(''name'', a_string)] [''name''],
   tool_entry ''skills.add'' ''Add an installed global skill''
     [(''name'', a_string)] [''name''],
   tool_entry ''skills.remove'' ''Remove a project skill reference''
     [(''name'', a_string)] [''name''],
   tool_entry ''skills.enable'' ''Enable a referenced skill for runtime exposure''
     [(''name'', a_string)] [''name''],
   tool_entry ''skills.disable'' ''Disable a referenced skill without dropping the reference''
     [(''name'', a_string)] [''name''],
   tool_entry ''skills.search'' ''Search globally installed skills''
     [(''query'', a_string)] [''query''],
   tool_entry ''workspace.context'' ''Read project agent instructions''
     [] [],
   tool_entry ''workspace.list_files'' ''List workspace files''
     [(''path'', a_string)] [''path''],
   tool_entry ''workspace.read_file'' ''Read a workspace file''
     [(''path'', a_string)] [''path''],
   tool_entry ''memory.store'' ''Store project memory''
     [(''content'', a_string), (''id'', a_string), (''scope'', one_of [''Session'', ''Project'', ''Global'']), (''tags'',
       string_array)] [''id'', ''content'', ''scope''],
   tool_entry ''memory.search'' ''Search memory''
     [(''query'', a_string), (''scope'', one_of [''Session'', ''Project'', ''Global''])] [''query''],
   tool_entry ''memory.get'' ''Get memory by id''
     [(''id'', a_string)] [''id''],
   tool_entry ''memory.delete'' ''Delete memory''
     [(''id'', a_string)] [''id''],
   tool_entry ''memory.update'' (''Update an existing memory entry'' @ [CHR 0x27] @ ''s content and tags'')
     [(''content'', a_string), (''id'', a_string), (''scope'', one_of [''Session'', ''Project'', ''Global'']), (''tags'',
       string_array)] [''id'', ''content''],
   tool_entry ''tasks.create'' ''Create a task''
     [(''description'', a_string), (''id'', a_string), (''priority'', one_of [''Low'', ''Normal'', ''High'',
       ''Critical'']), (''tags'', string_array), (''title'', a_string)] [''id'', ''title'', ''description''],
   tool_entry ''tasks.list'' ''List tasks''
     [(''status'', one_of [''Todo'', ''InProgress'', ''Blocked'', ''Done'', ''Cancelled''])] [],
   tool_entry ''tasks.update'' ''Update a task''
     [(''assignee'', JObj [(''type'', JArr [JStr ''string'', JStr ''null''])]), (''id'', a_string), (''priority'',
       one_of [''Low'', ''Normal'', ''High'', ''Critical'']), (''status'', one_of [''Todo'', ''InProgress'',
       ''Blocked'', ''Done'', ''Cancelled''])] [''id''],
   tool_entry ''tasks.delete'' ''Delete a task''
     [(''id'', a_string)] [''id''],
   tool_entry ''connectors.list'' ''List connector metadata for this project''
     [] [],
   tool_entry ''connectors.add'' ''Register connector metadata; never stores secrets''
     [(''auth'', one_of [''OAuth'', ''ApiKey'', ''None'']), (''enabled'', a_boolean), (''id'', a_string), (''name'',
       a_string), (''provider'', a_string), (''scopes'', string_array)] [''id'', ''name'', ''provider'', ''auth''],
   tool_entry ''connectors.enable'' ''Enable a connector''
     [(''id'', a_string)] [''id''],
   tool_entry ''connectors.disable'' ''Disable a connector''
     [(''id'', a_string)] [''id''],
   tool_entry ''connectors.remove'' ''Remove connector metadata''
     [(''id'', a_string)] [''id'']]"

definition extended_tools :: "json list" where
  "extended_tools =
  [tool_entry ''connector.composio_link'' ''Start a Composio OAuth link for a new connected account; open the returned redirect_url to finish authorizing, then register the resulting connected_account_id with connector.composio_register''
     [(''alias'', a_string), (''auth_config_id'', a_string), (''callback_url'', a_string), (''user_id'', a_string)]
       [''auth_config_id'', ''user_id''],
   tool_entry ''connector.composio_accounts'' ''List Composio connected accounts visible to this API key, optionally filtered by user or toolkit''
     [(''toolkit'', a_string), (''user_id'', a_string)] [],
   tool_entry ''connector.composio_register'' (''Register a Composio connected account globally under a label, so every project and agent on this machine can use it via connector.invoke as '' @ [CHR 0x27] @ ''composio:<label>'' @ [CHR 0x27] @ '' without reconnecting'')
     [(''connected_account_id'', a_string), (''label'', a_string), (''toolkit'', a_string)] [''label'',
       ''connected_account_id''],
   tool_entry ''connector.composio_remove'' ''Remove a globally registered Composio connected account by label''
     [(''label'', a_string)] [''label''],
   tool_entry ''git.status'' ''Git working-tree status (porcelain)''
     [] [],
   tool_entry ''git.branch'' ''Current Git branch''
     [] [],
   tool_entry ''git.log'' ''Recent Git commit log''
     [(''limit'', a_number)] [],
   tool_entry ''git.diff'' ''Git unified diff (working tree or staged)''
     [(''path'', a_string), (''staged'', a_boolean)] [],
   tool_entry ''git.stage'' ''Stage a file or all changes''
     [(''path'', a_string)] [''path''],
   tool_entry ''git.unstage'' ''Unstage a file, leaving the working tree untouched''
     [(''path'', a_string)] [''path''],
   tool_entry ''git.commit'' ''Commit staged changes with a message''
     [(''message'', a_string)] [''message''],
   tool_entry ''terminal.run'' ''Run a bounded command in the project workspace (argv form, no shell)''
     [(''args'', string_array), (''program'', a_string)] [''program''],
   tool_entry ''workspace.write_file'' ''Write (create or overwrite) a workspace file''
     [(''content'', a_string), (''path'', a_string)] [''path'', ''content''],
   tool_entry ''workspace.delete_file'' ''Delete a workspace file; reports whether it existed''
     [(''path'', a_string)] [''path''],
   tool_entry ''tasks.get'' ''Get a task by id''
     [(''id'', a_string)] [''id''],
   tool_entry ''connectors.get'' ''Get connector metadata by id''
     [(''id'', a_string)] [''id''],
   tool_entry ''mcp.status'' ''Read-only MCP server health and status: protocol versions, tool/provider counts, tool-call metrics, uptime. Exposes no secrets.''
     [] []]"

definition editing_tools :: "json list" where
  "editing_tools =
  [tool_entry ''filesystem.apply_diff'' ''Apply a unified diff to workspace files; paths in diff headers stay workspace-relative and malformed diffs are rejected before any mutation''
     [(''diff'', a_string)] [''diff''],
   tool_entry ''filesystem.delete_range'' ''Delete an inclusive one-based range of lines from a workspace file''
     [(''end_line'', a_number), (''path'', a_string), (''start_line'', a_number)] [''path'', ''start_line'', ''end_line''],
   tool_entry ''filesystem.insert'' ''Insert text at a line boundary in a workspace file; line 0 inserts at the beginning, N inserts before logical line N''
     [(''content'', a_string), (''line'', a_number), (''path'', a_string)] [''path'', ''line'', ''content''],
   tool_entry ''filesystem.patch'' ''Apply a multi-operation patch transaction; every operation prepares before any file is mutated''
     [(''operations'', JObj [(''items'', arguments_schema [(''content'', a_string), (''end_line'', a_number), (''line'',
       a_number), (''new'', a_string), (''occurrence'', a_number), (''old'', a_string), (''path'', a_string),
       (''start_line'', a_number)] [''path'']), (''type'', JStr ''array'')])] [''operations''],
   tool_entry ''filesystem.replace'' ''Replace an exact text match in a workspace file; without an occurrence the match must be unique''
     [(''new'', a_string), (''occurrence'', a_number), (''old'', a_string), (''path'', a_string)] [''path'', ''old'',
       ''new''],
   tool_entry ''filesystem.rollback'' ''Roll back one completed edit transaction by its exact edit id; refuses to overwrite any external change made after the edit''
     [(''edit_id'', a_string)] [''edit_id'']]"

definition runtime_tools :: "json list" where
  "runtime_tools =
  [tool_entry ''connector.providers'' ''List registered connector and custom MCP providers''
     [] [],
   tool_entry ''connector.tools'' ''List tools exposed by a provider''
     [(''provider'', a_string)] [''provider''],
   tool_entry ''connector.invoke'' ''Invoke a tool exposed by a provider''
     [(''arguments'', JObj [(''type'', JStr ''object'')]), (''provider'', a_string), (''tool'', a_string)] [''provider'',
       ''tool''],
   tool_entry ''context.status'' ''Context engine status: items, tokens, budget, offloads, memories''
     [] [],
   tool_entry ''context.insert'' ''Insert a context item into the engine''
     [(''content'', a_string), (''id'', a_string), (''priority'', a_number), (''relevance'', a_number), (''scope'',
       one_of [''Session'', ''Project'', ''Global'']), (''source'', one_of [''System'', ''User'', ''Assistant'',
       ''Tool'', ''Skill'', ''File'', ''Memory'', ''Workspace'', ''Search'', ''Summary'', ''Other''])] [''id'',
       ''content''],
   tool_entry ''context.get'' ''Get a context item by id''
     [(''id'', a_string)] [''id''],
   tool_entry ''context.remove'' ''Remove a context item by id''
     [(''id'', a_string)] [''id''],
   tool_entry ''context.search'' ''Search active and offloaded context items''
     [(''limit'', a_number), (''query'', a_string)] [''query''],
   tool_entry ''context.optimize'' ''Run a planning pass: keep, compress, archive, or offload items by score''
     [(''task'', a_string)] [''task''],
   tool_entry ''context.assemble'' ''Assemble budget-constrained context for a task''
     [(''query'', a_string), (''task'', a_string), (''token_budget'', a_number)] [''task''],
   tool_entry ''context.protect'' ''Protect a context item from offloading''
     [(''id'', a_string)] [''id''],
   tool_entry ''context.unprotect'' ''Clear protection for a context item''
     [(''id'', a_string)] [''id''],
   tool_entry ''context.offload'' ''Soft-offload a context item (fully recoverable)''
     [(''id'', a_string), (''reason'', a_string)] [''id''],
   tool_entry ''context.restore'' ''Restore a soft-offloaded context item to active''
     [(''id'', a_string)] [''id'']]"

definition github_tool_schemas :: "json list" where
  "github_tool_schemas =
  [tool_entry ''github.pr_list'' ''List pull requests (state defaults to open; owner/repo default to the origin remote or GITHUB_DEFAULT_OWNER/GITHUB_DEFAULT_REPO)''
     [(''base'', a_string), (''owner'', a_string), (''repo'', a_string), (''state'', one_of [''open'', ''closed'',
       ''all''])] [],
   tool_entry ''github.pr_get'' ''Get a single pull request''
     [(''number'', a_number), (''owner'', a_string), (''repo'', a_string)] [''number''],
   tool_entry ''github.pr_create'' ''Create a pull request''
     [(''base'', a_string), (''body'', a_string), (''draft'', a_boolean), (''head'', a_string), (''owner'', a_string),
       (''repo'', a_string), (''title'', a_string)] [''title'', ''head'', ''base''],
   tool_entry ''github.pr_merge'' ''Merge a pull request''
     [(''merge_method'', one_of [''merge'', ''squash'', ''rebase'']), (''number'', a_number), (''owner'', a_string),
       (''repo'', a_string)] [''number''],
   tool_entry ''github.pr_review'' ''Submit a pull request review''
     [(''body'', a_string), (''event'', one_of [''APPROVE'', ''REQUEST_CHANGES'', ''COMMENT'']), (''number'', a_number),
       (''owner'', a_string), (''repo'', a_string)] [''number'', ''event''],
   tool_entry ''github.issue_list'' ''List issues (pull requests are filtered out)''
     [(''labels'', a_string), (''owner'', a_string), (''repo'', a_string), (''state'', one_of [''open'', ''closed'',
       ''all''])] [],
   tool_entry ''github.issue_get'' ''Get a single issue or pull request''
     [(''number'', a_number), (''owner'', a_string), (''repo'', a_string)] [''number''],
   tool_entry ''github.issue_create'' ''Create an issue''
     [(''body'', a_string), (''labels'', string_array), (''owner'', a_string), (''repo'', a_string), (''title'', a_string)]
       [''title''],
   tool_entry ''github.issue_comment'' ''Comment on an issue or pull request''
     [(''body'', a_string), (''number'', a_number), (''owner'', a_string), (''repo'', a_string)] [''number'', ''body''],
   tool_entry ''github.checks_status'' ''Get combined CI/check status (legacy statuses plus check runs) for a commit or branch''
     [(''owner'', a_string), (''ref'', a_string), (''repo'', a_string)] [''ref''],
   tool_entry ''github.workflow_dispatch'' ''Manually trigger a workflow_dispatch run on a branch''
     [(''owner'', a_string), (''ref'', a_string), (''repo'', a_string), (''workflow_file'', a_string)] [''workflow_file'',
       ''ref''],
   tool_entry ''github.release_create'' ''Create a release''
     [(''body'', a_string), (''draft'', a_boolean), (''name'', a_string), (''owner'', a_string), (''prerelease'',
       a_boolean), (''repo'', a_string), (''tag_name'', a_string)] [''tag_name'']]"

text \<open>The github tools are listed when the provider is configured.\<close>

definition static_tools :: "bool \<Rightarrow> json list" where
  "static_tools github = core_tools @ extended_tools @ editing_tools @ runtime_tools
     @ (if github then github_tool_schemas else [])"

definition tools_list_static :: "bool \<Rightarrow> json" where
  "tools_list_static github = JObj [(''tools'', JArr (static_tools github))]"

definition static_tool_schema :: "bool \<Rightarrow> string \<Rightarrow> json option" where
  "static_tool_schema github name = (let catalog = tools_list_static github in
     case Option.bind (json_get catalog ''tools'') as_array of
       None \<Rightarrow> None
     | Some tools \<Rightarrow> if list_ex (\<lambda>t. get_str t ''name'' = Some name) tools then Some catalog else None)"

section \<open>The catalog and the registry\<close>

definition tool_name_of :: "json \<Rightarrow> string" where
  "tool_name_of t = (case get_str t ''name'' of None \<Rightarrow> [] | Some n \<Rightarrow> n)"

definition well_formed_tool :: "json \<Rightarrow> bool" where
  "well_formed_tool t = (case json_get t ''inputSchema'' of None \<Rightarrow> False | Some s \<Rightarrow>
     isOk (validate_schema_syntax s ''#'') \<and> get_str s ''type'' = Some ''object'')"

lemma tools_well_formed: "list_all well_formed_tool (static_tools True)"
  by code_simp

lemma names_in_registry_order:
  "(let ns = map tool_name_of (static_tools True) in map (\<lambda>i. ns ! i)
      [25, 24, 26, 27, 49, 47, 48, 20, 22, 21, 39, 19, 23, 56, 52, 51, 59, 55, 57, 53, 60, 54, 50, 58, 41, 42, 43,
       44, 45, 46, 29, 34, 31, 30, 32, 28, 33, 70, 69, 68, 67, 66, 63, 62, 61, 64, 65, 72, 71, 40, 13, 12, 11, 10,
       14, 2, 5, 4, 0, 1, 3, 6, 15, 18, 38, 16, 17, 35, 7, 37, 8, 9, 36]) = map td_name registry"
  by code_simp

lemma tool_counts: "length (static_tools True) = 73" "length registry = 73"
  by code_simp+

lemma registry_named: "list_all (\<lambda>d. td_name d \<noteq> []) registry"
  by code_simp

lemma catalog_names: "set (map tool_name_of (static_tools True)) = set (map td_name registry)"
proof -
  let ?ns = "map tool_name_of (static_tools True)" and ?rs = "map td_name registry"
  have "set ?rs \<subseteq> set ?ns"
    unfolding names_in_registry_order [symmetric, unfolded Let_def] by (auto simp: tool_counts intro!: nth_mem)
  moreover have "card (set ?ns) \<le> card (set ?rs)"
  proof -
    have "distinct ?rs" using registry_sorted by (simp add: strict_sorted_iff)
    then have "card (set ?rs) = 73" by (simp only: distinct_card length_map tool_counts)
    then show ?thesis using card_length [of ?ns] tool_counts by simp
  qed
  ultimately show ?thesis by (metis List.finite_set card_seteq)
qed

lemma static_tools_subset: "set (static_tools g) \<subseteq> set (static_tools True)"
  by (auto simp: static_tools_def split: if_splits)

text \<open>
  C20. The advertised catalog is consistent. Whether the github provider is configured or not, every
  tool it lists is registered, with the permissions and the risk the execution gate reads, and
  carries an object schema that passes the schema check; and with the provider configured every
  registered tool is listed.
\<close>

theorem catalog_consistent:
  "list_all (\<lambda>t. well_formed_tool t \<and> registry_lookup (tool_name_of t) \<noteq> None) (static_tools github)
     \<and> list_all (\<lambda>d. static_tool_schema True (td_name d) \<noteq> None) registry"
proof
  have "registry_lookup (tool_name_of t) \<noteq> None" if "t \<in> set (static_tools True)" for t
  proof -
    from that have "tool_name_of t \<in> set (map tool_name_of (static_tools True))" by simp
    then have "tool_name_of t \<in> set (map td_name registry)" unfolding catalog_names .
    then obtain d where "d \<in> set registry" "td_name d = tool_name_of t" by auto
    then show ?thesis by (auto simp: registry_lookup_find find_None_iff)
  qed
  with tools_well_formed static_tools_subset
  show "list_all (\<lambda>t. well_formed_tool t \<and> registry_lookup (tool_name_of t) \<noteq> None) (static_tools github)"
    unfolding list_all_iff by blast
  show "list_all (\<lambda>d. static_tool_schema True (td_name d) \<noteq> None) registry"
    unfolding list_all_iff
  proof
    fix d assume "d \<in> set registry"
    then have "td_name d \<in> set (map td_name registry)" by simp
    then have "td_name d \<in> set (map tool_name_of (static_tools True))" unfolding catalog_names .
    then obtain t where t: "t \<in> set (static_tools True)" "tool_name_of t = td_name d" by auto
    have "td_name d \<noteq> []" using registry_named \<open>d \<in> set registry\<close> by (simp add: list_all_iff)
    with t have "get_str t ''name'' = Some (td_name d)" by (auto simp: tool_name_of_def split: option.splits)
    with t(1) show "static_tool_schema True (td_name d) \<noteq> None"
      by (auto simp: static_tool_schema_def tools_list_static_def Let_def list_ex_iff)
  qed
qed

end
