(* ===== verification/PatchService.thy ===== *)
theory PatchService
  imports EditSafety
begin

text \<open>
  Patch transactions over several files (\<open>patch_as\<close>, \<open>patch_internal\<close> and
  \<open>attempt_rollback\<close> of \<open>services/edit.rs\<close>): grouping of the operations by file,
  preparation of every file in memory, one durable snapshot, the commit of every file under one
  coordination set, and the conflict-aware rollback of the committed files when a later commit
  fails.
\<close>

section \<open>Results\<close>

datatype patch_step_status = StepCommitted | StepRolledBack | StepUnsupported msg

datatype normalized_operation =
  NReplace "string list" "string list"
| NInsertLine nat string
| NDeleteRange nat nat

record patch_operation =
  po_path :: string
  po_operation_index :: nat
  po_operation :: normalized_operation

record patch_step_result =
  ps_transaction_id :: string
  ps_path :: string
  ps_operation_index :: nat
  ps_status :: patch_step_status
  ps_before :: file_state
  ps_after :: file_state
  ps_operation :: patch_operation

datatype patch_failure_phase = PhaseValidation | PhasePreparation | PhaseCommit

record patch_failure =
  pe_phase :: patch_failure_phase
  pe_reason :: msg
  pe_path :: "string option"
  pe_transaction_id :: string
  pe_committed_paths :: "string list"

datatype rollback_outcome =
  RbRestored | RbDeleted | RbUnchanged | RbConflict msg | RbFailed msg

record rollback_result =
  rb_transaction_id :: string
  rb_outcomes :: "(string \<times> rollback_outcome) list"
  rb_fully_restored :: bool
  rb_conflict_free :: bool
  rb_summary :: msg

datatype patch_status =
  PatchCommitted
| PatchPrepared "string list"
| PatchPartiallyCommitted
| PatchVerificationFailed
| PatchCommitFailed bool

record patch_result =
  pt_transaction_id :: string
  pt_status :: patch_status
  pt_steps :: "patch_step_result list"
  pt_committed_paths :: "string list"
  pt_failure :: "patch_failure option"
  pt_rollback :: "rollback_result option"

text \<open>\<open>PrepareFile\<close>: one file of the plan.\<close>

record prepare_file =
  pp_path :: string
  pp_before :: file_state
  pp_original :: string
  pp_existed :: bool
  pp_prepared :: string
  pp_first_index :: "nat option"

section \<open>Grouping by file\<close>

type_synonym groups = "(string \<times> (nat \<times> edit_operation) list) list"

fun add_to_group :: "string \<Rightarrow> nat \<times> edit_operation \<Rightarrow> groups \<Rightarrow> groups" where
  "add_to_group path x [] = [(path, [x])]"
| "add_to_group path x ((p, xs) # gs) =
     (if p = path then (p, xs @ [x]) # gs else (p, xs) # add_to_group path x gs)"

definition add_diff_files :: "nat \<Rightarrow> string \<Rightarrow> parsed_file_diff list \<Rightarrow> groups \<Rightarrow> groups" where
  "add_diff_files idx diff fds gs =
     foldl (\<lambda>acc fd. add_to_group (fd_path fd) (idx, Patch (fd_path fd) diff []) acc) gs fds"

fun group_operations :: "nat \<Rightarrow> edit_operation list \<Rightarrow> groups \<Rightarrow> edit_error + groups" where
  "group_operations idx [] gs = Inr gs"
| "group_operations idx (op # ops) gs = (case op of
      ApplyDiff diff \<Rightarrow> bindR (parse_unified_diff diff) (\<lambda>fds.
        group_operations (idx + 1) ops (add_diff_files idx diff fds gs))
    | _ \<Rightarrow> (let path = (case op_paths op of [] \<Rightarrow> [] | p # _ \<Rightarrow> p)
            in group_operations (idx + 1) ops (add_to_group path (idx, op) gs)))"

definition expected_for_op :: "edit_transaction \<Rightarrow> nat \<Rightarrow> expected_state option" where
  "expected_for_op t idx = (if tx_expected t = [] then None
     else if idx < length (tx_expected t) then Some (tx_expected t ! idx) else None)"

definition validate_groups :: "string \<Rightarrow> groups \<Rightarrow> edit_error + unit" where
  "validate_groups tx gs = each (\<lambda>(path, ops). each (\<lambda>(idx, op).
     case validate_patch_operation op of
       Inr _ \<Rightarrow> Inr ()
     | Inl reason \<Rightarrow> Inl (PatchValidationFailure tx (Some path)
         (Fmt ''operation {}: {}'' [Num idx, reason]))) ops) gs"

section \<open>Preparation\<close>

definition check_patch_expected ::
    "string \<Rightarrow> string \<Rightarrow> file_state \<Rightarrow> expected_state option \<Rightarrow> edit_error + unit" where
  "check_patch_expected tx path before expected = (case expected of
      None \<Rightarrow> Inr ()
    | Some e \<Rightarrow>
        if ex_hash e = None \<and> ex_context e = None \<and> ex_size e = None \<and> ex_line_count e = None then Inr ()
        else (case check_state before e of
            Matched \<Rightarrow> Inr ()
          | Conflicted c \<Rightarrow> Inl (PatchPreparationFailure tx (Some path)
              (Fmt ''expected-state conflict on {}: {} mismatch'' [Txt path, component_msg c]))
          | Malformed _ _ \<Rightarrow> Inl (InvalidHash (case ex_hash e of None \<Rightarrow> [] | Some h \<Rightarrow> h))
          | ContextPending \<Rightarrow> Inr ()))"

fun apply_operations ::
    "sha \<Rightarrow> edit_transaction \<Rightarrow> string \<Rightarrow> (nat \<times> edit_operation) list \<Rightarrow> string \<Rightarrow> edit_error + string" where
  "apply_operations sha t path [] current = Inr current"
| "apply_operations sha t path ((idx, op) # ops) current =
     bindR (apply_normalized_operation sha path op current (expected_for_op t idx))
       (\<lambda>next. apply_operations sha t path ops next)"

definition prepare_content ::
    "sha \<Rightarrow> edit_transaction \<Rightarrow> string \<Rightarrow> (nat \<times> edit_operation) list \<Rightarrow> string \<Rightarrow> edit_error + prepare_file" where
  "prepare_content sha t path ops bytes = (case from_utf8 bytes of
      None \<Rightarrow> Inl (InvalidUtf8 path)
    | Some content \<Rightarrow> (let before = state_of sha path content in
        bindR (each (\<lambda>(idx, _). check_patch_expected (tx_id t) path before (expected_for_op t idx)) ops) (\<lambda>_.
        bindR (apply_operations sha t path ops content) (\<lambda>prepared.
        Inr \<lparr>pp_path = path, pp_before = before, pp_original = bytes, pp_existed = True,
             pp_prepared = prepared,
             pp_first_index = (case ops of [] \<Rightarrow> None | (idx, _) # _ \<Rightarrow> Some idx)\<rparr>))))"

fun prepare_files :: "sha \<Rightarrow> edit_transaction \<Rightarrow> groups \<Rightarrow> prepare_file list edit_op" where
  "prepare_files sha t [] = ret []"
| "prepare_files sha t ((path, ops) # gs) =
     bindE (map_err (read_error path) (read_bytes path)) (\<lambda>bytes.
     bindE (lift (prepare_content sha t path ops bytes)) (\<lambda>file.
     bindE (prepare_files sha t gs) (\<lambda>files. ret (file # files))))"

section \<open>Rollback of a failed commit\<close>

definition restore_file :: "sha \<Rightarrow> prepare_file \<Rightarrow> edit_world \<Rightarrow> rollback_outcome \<times> edit_world" where
  "restore_file sha file w = (case read_bytes (pp_path file) w of
      (Inl _, w1) \<Rightarrow> (RbConflict (Txt ''file disappeared externally''), w1)
    | (Inr current, w1) \<Rightarrow>
        (let expected_hash = st_hash (state_of sha (pp_path file) (pp_prepared file));
             current_hash = sha256_hex sha current in
         if current_hash \<noteq> expected_hash then
           (RbConflict (Fmt ''current hash {} differs from transaction-produced hash {}''
              [Txt current_hash, Txt expected_hash]), w1)
         else if \<not> pp_existed file then (case delete_locked (pp_path file) w1 of
             (Inr _, w2) \<Rightarrow> (case read_bytes (pp_path file) w2 of
                 (Inr _, w3) \<Rightarrow> (RbFailed (Txt ''delete succeeded but the target still exists''), w3)
               | (Inl _, w3) \<Rightarrow> (RbDeleted, w3))
           | (Inl e, w2) \<Rightarrow> (RbFailed (Fmt ''delete failed: {}'' [anyhow_msg e]), w2))
         else (case from_utf8 (pp_original file) of
             None \<Rightarrow> (RbFailed (Txt ''cannot restore: original bytes are not valid UTF-8 and the atomic-write boundary is text-only''), w1)
           | Some text_of \<Rightarrow> (case write_atomic_locked (pp_path file) text_of w1 of
               (Inl _, w2) \<Rightarrow> (RbFailed (Txt ''restore failed: atomic write did not succeed''), w2)
             | (Inr _, w2) \<Rightarrow> (case read_bytes (pp_path file) w2 of (r, w3) \<Rightarrow>
                 if (case r of Inr b \<Rightarrow> b = pp_original file | Inl _ \<Rightarrow> False) then (RbRestored, w3)
                 else (RbFailed (Txt ''restore verification failed: re-read bytes differ from the original''), w3))))))"

fun restore_files :: "sha \<Rightarrow> prepare_file list \<Rightarrow> edit_world \<Rightarrow> (string \<times> rollback_outcome) list \<times> edit_world" where
  "restore_files sha [] w = ([], w)"
| "restore_files sha (f # fs) w = (case restore_file sha f w of (out, w1) \<Rightarrow>
     (case restore_files sha fs w1 of (outs, w2) \<Rightarrow> ((pp_path f, out) # outs, w2)))"

fun clean_outcome :: "rollback_outcome \<Rightarrow> bool" where
  "clean_outcome (RbConflict _) = False"
| "clean_outcome (RbFailed _) = False"
| "clean_outcome _ = True"

definition attempt_rollback ::
    "sha \<Rightarrow> prepare_file list \<Rightarrow> string list \<Rightarrow> string \<Rightarrow> edit_world \<Rightarrow> rollback_result \<times> edit_world" where
  "attempt_rollback sha plan committed tx w =
     (let targets = rev (filter (\<lambda>f. List.member committed (pp_path f)) plan) in
      case restore_files sha targets w of (outs, w') \<Rightarrow>
        (let clean = list_all (\<lambda>(_, out). clean_outcome out) outs in
         (\<lparr>rb_transaction_id = tx, rb_outcomes = outs, rb_fully_restored = clean, rb_conflict_free = clean,
           rb_summary = (if clean
             then Fmt ''rolled back {} file(s) to original state'' [Num (length outs)]
             else Fmt ''rolled back {} file(s) with {} conflict(s) or failure(s)''
               [Num (length outs), Num (length (filter (\<lambda>(_, out). \<not> clean_outcome out) outs))])\<rparr>, w')))"

section \<open>Commit\<close>

definition step_of :: "string \<Rightarrow> prepare_file \<Rightarrow> file_state \<Rightarrow> patch_step_result" where
  "step_of tx f after = (let idx = (case pp_first_index f of None \<Rightarrow> 0 | Some i \<Rightarrow> i) in
     \<lparr>ps_transaction_id = tx, ps_path = pp_path f, ps_operation_index = idx, ps_status = StepCommitted,
      ps_before = pp_before f, ps_after = after,
      ps_operation = \<lparr>po_path = pp_path f, po_operation_index = idx, po_operation = NInsertLine 0 []\<rparr>\<rparr>)"

text \<open>The loop over the plan stops at the first failure; the steps made so far are kept.\<close>

fun commit_files ::
    "sha \<Rightarrow> string \<Rightarrow> prepare_file list \<Rightarrow> edit_world
       \<Rightarrow> (edit_error option \<times> patch_step_result list) \<times> edit_world" where
  "commit_files sha tx [] w = ((None, []), w)"
| "commit_files sha tx (f # fs) w =
     (case commit_verified_locked sha (pp_path f) (pp_prepared f) (pp_before f) w of
        (Inl e, w1) \<Rightarrow> ((Some e, []), w1)
      | (Inr after, w1) \<Rightarrow> (case commit_files sha tx fs w1 of ((e, steps), w2) \<Rightarrow>
          ((e, step_of tx f after # steps), w2)))"

definition commit_plan ::
    "sha \<Rightarrow> principal option \<Rightarrow> edit_transaction \<Rightarrow> file_snapshot \<Rightarrow> prepare_file list \<Rightarrow> patch_result edit_op" where
  "commit_plan sha identity t snapshot plan w =
     (case commit_files sha (tx_id t) plan w of ((err, steps), w1) \<Rightarrow>
       (let committed = map ps_path steps in
        case err of
          Some e \<Rightarrow> (case attempt_rollback sha plan committed (tx_id t) w1 of (rollback, w2) \<Rightarrow>
            (Inr \<lparr>pt_transaction_id = tx_id t,
               pt_status = PatchCommitFailed (rb_fully_restored rollback),
               pt_steps = steps, pt_committed_paths = committed,
               pt_failure = Some \<lparr>pe_phase = PhaseCommit, pe_reason = edit_error_msg e, pe_path = None,
                 pe_transaction_id = tx_id t, pe_committed_paths = committed\<rparr>,
               pt_rollback = Some rollback\<rparr>, w2))
        | None \<Rightarrow> (let after_hashes = map (\<lambda>s. (ps_path s, st_hash (ps_after s))) steps in
            bindE (attempt (record_edit_provenance (tx_id t) snapshot after_hashes
                (map operation_label (tx_operations t)) (map fst after_hashes) identity)) (\<lambda>_.
              ret \<lparr>pt_transaction_id = tx_id t, pt_status = PatchCommitted, pt_steps = steps,
                pt_committed_paths = committed, pt_failure = None, pt_rollback = None\<rparr>) w1)))"

definition patch_internal :: "sha \<Rightarrow> principal option \<Rightarrow> edit_transaction \<Rightarrow> patch_result edit_op" where
  "patch_internal sha identity t =
     bindE (lift (validate_shape t)) (\<lambda>_.
     if tx_operations t = [] then fail EmptyTransaction
     else bindE (lift (group_operations 0 (tx_operations t) [])) (\<lambda>gs.
     let affected = sort_key fst gs in
     bindE (lift (validate_groups (tx_id t) affected)) (\<lambda>_.
     bindE (prepare_files sha t affected) (\<lambda>plan.
     bindE (capture_durable_recovery sha (tx_id t) (map (\<lambda>f. (pp_path f, pp_original f)) plan)) (\<lambda>snapshot.
     bindE (map_err (\<lambda>e. PatchPreparationFailure (tx_id t) None (Fmt ''mutation refused: {}'' [edit_error_msg e]))
              (coordinate sha (map pp_path plan))) (\<lambda>held.
     holding held (commit_plan sha identity t snapshot plan)))))))"

section \<open>Entry points\<close>

definition patch_with_identity :: "sha \<Rightarrow> principal option \<Rightarrow> edit_transaction \<Rightarrow> patch_result edit_op" where
  "patch_with_identity sha identity t = audited ''filesystem.patch'' identity t (patch_internal sha identity t)"

definition edit_patch :: "sha \<Rightarrow> edit_transaction \<Rightarrow> patch_result edit_op" where
  "edit_patch sha t = patch_with_identity sha None t"

fun patch_resources :: "edit_operation list \<Rightarrow> edit_error + string list" where
  "patch_resources [] = Inr []"
| "patch_resources (op # ops) = (case op of
      ApplyDiff diff \<Rightarrow> bindR (parse_unified_diff diff) (\<lambda>fds.
        bindR (patch_resources ops) (\<lambda>rs. Inr (map fd_path fds @ rs)))
    | _ \<Rightarrow> bindR (patch_resources ops) (\<lambda>rs. Inr (op_paths op @ rs)))"

definition patch_as :: "sha \<Rightarrow> rfc \<Rightarrow> principal \<Rightarrow> edit_transaction \<Rightarrow> patch_result edit_op" where
  "patch_as sha rfc p t =
     bindE (lift (patch_resources (tx_operations t))) (\<lambda>resources.
     bindE (authorize_operation rfc p ActPatch resources (Some (tx_id t))) (\<lambda>_.
     patch_with_identity sha (Some p) t))"

end
