(* ===== verification/PatchSafety.thy ===== *)
theory PatchSafety
  imports PatchService
begin

text \<open>
  Safety of patch transactions. Under any interference: an error means that no file was changed,
  and a run is its writes, each behind a re-read of what it replaces and after the capture of all
  the original bytes, the undoing of a failed commit included. Where no other actor changes the tree (system calls may still fail at any
  point): a transaction is all or nothing, up to the file whose own commit failed.
\<close>

section \<open>Grouping\<close>

lemma add_to_group_set: "set (map fst (add_to_group p x gs)) = insert p (set (map fst gs))"
  by (induction p x gs rule: add_to_group.induct) auto

lemma add_to_group_distinct: "distinct (map fst gs) \<Longrightarrow> distinct (map fst (add_to_group p x gs))"
proof (induction p x gs rule: add_to_group.induct)
  case (2 path x p xs gs)
  then show ?case using add_to_group_set [of path x gs] by (cases "p = path") (simp_all del: set_map)
qed simp

lemmas add_to_group_paths = add_to_group_set add_to_group_distinct

lemma add_diff_files_paths:
  "set (map fst (add_diff_files idx d fds gs)) = set (map fd_path fds) \<union> set (map fst gs)"
  "distinct (map fst gs) \<Longrightarrow> distinct (map fst (add_diff_files idx d fds gs))"
  unfolding add_diff_files_def
  by (induction fds arbitrary: gs) (auto simp: add_to_group_paths simp del: set_map)

lemma group_operations_paths:
  assumes "group_operations idx ops gs = Inr gs'"
  shows "\<exists>rs. patch_resources ops = Inr rs \<and> set (map fst gs') = set rs \<union> set (map fst gs)"
    and "distinct (map fst gs) \<Longrightarrow> distinct (map fst gs')"
  using assms
proof (induction ops arbitrary: idx gs)
  case (Cons op ops)
  { case 1
    then show ?case
    proof (cases op)
      case (ApplyDiff d)
      with 1 obtain fds where "parse_unified_diff d = Inr fds"
        "group_operations (idx + 1) ops (add_diff_files idx d fds gs) = Inr gs'"
        by (auto simp: bindR_Inr_iff)
      with Cons.IH(1) [OF this(2)] ApplyDiff show ?thesis
        by (auto simp: add_diff_files_paths simp del: set_map)
    qed (auto simp: add_to_group_paths Let_def simp del: set_map dest!: Cons.IH(1))
  next
    case 2
    then show ?case
    proof (cases op)
      case (ApplyDiff d)
      with 2 obtain fds where "group_operations (idx + 1) ops (add_diff_files idx d fds gs) = Inr gs'"
        by (auto simp: bindR_Inr_iff)
      with Cons.IH(2) [OF add_diff_files_paths(2) [OF 2(1)]] show ?thesis by simp
    qed (use 2 in \<open>auto simp: Let_def add_to_group_distinct dest: Cons.IH(2) [rotated]\<close>)
  }
qed simp_all

lemma prepare_files_plan:
  "prepare_files sha t gs w = (Inr plan, w') \<Longrightarrow> map pp_path plan = map fst gs \<and> list_all pp_existed plan"
proof (induction sha t gs arbitrary: w plan rule: prepare_files.induct)
  case (2 sha t path ops gs)
  then show ?case
    by (fastforce simp: bindE_Inr_iff prepare_content_def Let_def bindR_Inr_iff split: option.splits)
qed simp

lemma prepare_files_env: "prepare_files sha t gs w = (r, w') \<Longrightarrow> env_steps w w'"
proof (induction sha t gs arbitrary: w r w' rule: prepare_files.induct)
  case (2 sha t path ops gs)
  obtain r1 w1 where b: "read_bytes path w = (r1, w1)" by fastforce
  note e = env_steps_read(1) [OF b]
  show ?case
  proof (cases r1)
    case (Inl err)
    with 2(2) b e show ?thesis by (simp add: bindE_run map_err_run)
  next
    case (Inr bytes)
    show ?thesis
    proof (cases "prepare_content sha t path ops bytes")
      case (Inl err)
      with 2(2) b e Inr show ?thesis by (simp add: bindE_run map_err_run)
    next
      case c: (Inr f)
      obtain r2 w2 where p: "prepare_files sha t gs w1 = (r2, w2)" by fastforce
      with 2(2) b Inr c have "w' = w2" by (auto simp: bindE_run map_err_run split: sum.splits)
      with 2(1) [OF p] e show ?thesis using env_steps_trans by blast
    qed
  qed
qed simp

section \<open>Under any interference\<close>

text \<open>Each file of the plan was written behind the guard, one after the other.\<close>

fun guarded_run :: "sha \<Rightarrow> prepare_file list \<Rightarrow> edit_world \<Rightarrow> edit_world \<Rightarrow> bool" where
  "guarded_run sha [] w w' \<longleftrightarrow> env_steps w w'"
| "guarded_run sha (f # fs) w w' \<longleftrightarrow> (\<exists>w1.
     guarded_commit sha (pp_path f) (pp_prepared f) (pp_before f) w w1 \<and> guarded_run sha fs w1 w')"

definition step_done :: "sha \<Rightarrow> string \<Rightarrow> prepare_file \<Rightarrow> patch_step_result" where
  "step_done sha tx f = step_of tx f (state_of sha (pp_path f) (pp_prepared f))"

lemma step_done_simps [simp]:
  "ps_path (step_done sha tx f) = pp_path f"
  "ps_after (step_done sha tx f) = state_of sha (pp_path f) (pp_prepared f)"
  by (simp_all add: step_done_def step_of_def Let_def)

lemma commit_files_run:
  "commit_files sha tx plan w = ((err, steps), w') \<Longrightarrow> \<exists>taken rest w1. plan = taken @ rest
     \<and> steps = map (step_done sha tx) taken \<and> guarded_run sha taken w w1
     \<and> (case err of None \<Rightarrow> rest = [] \<and> w1 = w'
        | Some e \<Rightarrow> \<exists>f fs. rest = f # fs
           \<and> commit_verified_locked sha (pp_path f) (pp_prepared f) (pp_before f) w1 = (Inl e, w'))"
proof (induction plan arbitrary: w err steps w')
  case Nil
  then show ?case by auto
next
  case (Cons f fs)
  obtain r w1 where c: "commit_verified_locked sha (pp_path f) (pp_prepared f) (pp_before f) w = (r, w1)"
    by fastforce
  show ?case
  proof (cases r)
    case (Inl e)
    with Cons.prems c have "err = Some e" "steps = []" "w' = w1" by simp_all
    with c Inl show ?thesis
      by (intro exI [of _ "[]"] exI [of _ "f # fs"] exI [of _ w]) simp
  next
    case (Inr after)
    obtain e2 steps2 w2 where r: "commit_files sha tx fs w1 = ((e2, steps2), w2)" by (metis surj_pair)
    with Cons.prems c Inr have eq: "err = e2" "steps = step_of tx f after # steps2" "w' = w2" by simp_all
    from Cons.IH [OF r] obtain taken rest w3 where ih: "fs = taken @ rest"
      "steps2 = map (step_done sha tx) taken" "guarded_run sha taken w1 w3"
      "case e2 of None \<Rightarrow> rest = [] \<and> w3 = w2 | Some e \<Rightarrow> \<exists>f fs. rest = f # fs
         \<and> commit_verified_locked sha (pp_path f) (pp_prepared f) (pp_before f) w3 = (Inl e, w2)" by blast
    have g: "guarded_commit sha (pp_path f) (pp_prepared f) (pp_before f) w w1"
      using commit_locked_cases [OF c] Inr by auto
    have "after = state_of sha (pp_path f) (pp_prepared f)"
      using commit_locked_Inr [OF c [unfolded Inr]] by blast
    with ih g eq show ?thesis
      by (intro exI [of _ "f # taken"] exI [of _ rest] exI [of _ w3]) (auto simp: step_done_def)
  qed
qed

text \<open>
  The rollback of one committed file: either nothing is written, or the original text is written
  once, behind a re-read whose hash is that of the text the transaction had written. A file
  reported as restored was read again and held the original bytes.
\<close>

definition undone :: "sha \<Rightarrow> prepare_file \<Rightarrow> rollback_outcome \<Rightarrow> edit_world \<Rightarrow> edit_world \<Rightarrow> bool" where
  "undone sha f out w w' \<longleftrightarrow> (settled w w' \<and> \<not> clean_outcome out)
     \<or> (\<exists>b w1 w2. read_bytes (pp_path f) w = (Inr b, w1)
         \<and> sha256_hex sha b = st_hash (state_of sha (pp_path f) (pp_prepared f))
         \<and> write_atomic_locked (pp_path f) (pp_original f) w1 = (Inr (), w2) \<and> env_steps w2 w'
         \<and> (clean_outcome out \<longrightarrow> out = RbRestored \<and> read_bytes (pp_path f) w2 = (Inr (pp_original f), w')))"

fun undo_run :: "sha \<Rightarrow> prepare_file list \<Rightarrow> (string \<times> rollback_outcome) list \<Rightarrow> edit_world \<Rightarrow> edit_world \<Rightarrow> bool" where
  "undo_run sha [] outs w w' \<longleftrightarrow> outs = [] \<and> w' = w"
| "undo_run sha (f # fs) outs w w' \<longleftrightarrow> (\<exists>out rest w1. outs = (pp_path f, out) # rest
     \<and> undone sha f out w w1 \<and> undo_run sha fs rest w1 w')"

lemma restore_file_undone:
  assumes "restore_file sha f w = (out, w')" and "pp_existed f" shows "undone sha f out w w'"
proof -
  obtain r1 w1 where r: "read_bytes (pp_path f) w = (r1, w1)" by fastforce
  note e1 = env_steps_read(1) [OF r]
  show ?thesis
  proof (cases "\<exists>b. r1 = Inr b \<and> sha256_hex sha b = st_hash (state_of sha (pp_path f) (pp_prepared f))
      \<and> valid_utf8 (pp_original f)")
    case False
    with assms r have "w' = w1" "\<not> clean_outcome out"
      by (auto simp: restore_file_def Let_def split: sum.splits if_splits option.splits)
    with e1 env_settled show ?thesis by (auto simp: undone_def)
  next
    case True
    then obtain b where b: "r1 = Inr b" "sha256_hex sha b = st_hash (state_of sha (pp_path f) (pp_prepared f))"
      and v: "valid_utf8 (pp_original f)" by blast
    obtain r2 w2 where wr: "write_atomic_locked (pp_path f) (pp_original f) w1 = (r2, w2)" by fastforce
    obtain r3 w3 where rd: "read_bytes (pp_path f) w2 = (r3, w3)" by fastforce
    show ?thesis
    proof (cases r2)
      case (Inl e)
      with assms r b v wr have "w' = w2" "\<not> clean_outcome out" by (auto simp: restore_file_def Let_def from_utf8_def)
      with settled_before [OF e1 write_failed_settled [OF wr [unfolded Inl]]] show ?thesis by (simp add: undone_def)
    next
      case (Inr u)
      with assms r b v wr rd have "w' = w3" "clean_outcome out \<longrightarrow> out = RbRestored \<and> r3 = Inr (pp_original f)"
        by (auto simp: restore_file_def Let_def from_utf8_def split: if_splits sum.splits)
      with r b wr rd Inr env_steps_read(1) [OF rd] show ?thesis by (auto simp: undone_def)
    qed
  qed
qed

lemma restore_files_undo:
  "restore_files sha fs w = (outs, w') \<Longrightarrow> list_all pp_existed fs \<Longrightarrow> undo_run sha fs outs w w'"
proof (induction fs arbitrary: w outs w')
  case (Cons f fs)
  obtain out w1 where r: "restore_file sha f w = (out, w1)" by fastforce
  obtain outs2 w2 where rs: "restore_files sha fs w1 = (outs2, w2)" by fastforce
  from Cons.prems r rs Cons.IH [OF rs] restore_file_undone [OF r] show ?case by auto
qed simp

lemma undo_run_paths: "undo_run sha fs outs w w' \<Longrightarrow> map fst outs = map pp_path fs"
  by (induction sha fs outs w w' rule: undo_run.induct) auto

text \<open>The files to restore are those committed, last first.\<close>

lemma rollback_targets:
  assumes "distinct (map pp_path (taken @ rest))"
  shows "filter (\<lambda>g. List.member (map pp_path taken) (pp_path g)) (taken @ rest) = taken"
proof -
  have "pp_path g \<notin> pp_path ` set taken" if "g \<in> set rest" for g using assms that by auto
  then show ?thesis by (auto simp: filter_empty_conv intro!: filter_True)
qed

lemma attempt_rollback_run:
  assumes "attempt_rollback sha (taken @ rest) (map pp_path taken) tx w = (rb, w')"
    and "distinct (map pp_path (taken @ rest))"
  shows "restore_files sha (rev taken) w = (rb_outcomes rb, w')
    \<and> rb_fully_restored rb = list_all (\<lambda>(_, out). clean_outcome out) (rb_outcomes rb)"
  using assms(1) unfolding attempt_rollback_def rollback_targets [OF assms(2)]
  by (auto simp: Let_def split: prod.splits)

text \<open>
  How a commit ends after the files \<open>taken\<close>: with nothing left, no more writes happen; otherwise
  the commit of the next file failed, before or after its own guarded write, and the files taken
  are undone, last first.
\<close>

definition failed_step :: "sha \<Rightarrow> prepare_file \<Rightarrow> edit_world \<Rightarrow> edit_world \<Rightarrow> bool" where
  "failed_step sha f w w' \<longleftrightarrow> settled w w' \<or> guarded_commit sha (pp_path f) (pp_prepared f) (pp_before f) w w'"

fun commit_end :: "sha \<Rightarrow> patch_result \<Rightarrow> prepare_file list \<Rightarrow> prepare_file list \<Rightarrow> edit_world \<Rightarrow> edit_world \<Rightarrow> bool" where
  "commit_end sha res taken [] w w' \<longleftrightarrow> pt_status res = PatchCommitted \<and> pt_rollback res = None \<and> same_files w w'"
| "commit_end sha res taken (f # fs) w w' \<longleftrightarrow> (\<exists>rb w1 w2. pt_rollback res = Some rb
     \<and> pt_status res = PatchCommitFailed (rb_fully_restored rb)
     \<and> rb_fully_restored rb = list_all (\<lambda>(_, out). clean_outcome out) (rb_outcomes rb)
     \<and> failed_step sha f w w1 \<and> undo_run sha (rev taken) (rb_outcomes rb) w1 w2 \<and> same_files w2 w')"

lemma commit_end_after: "commit_end sha res taken rest w w1 \<Longrightarrow> same_files w1 w' \<Longrightarrow> commit_end sha res taken rest w w'"
  by (cases rest) (auto simp: same_files_def)

lemma commit_plan_run:
  assumes "commit_plan sha idn t m plan w = (r, w')" and "distinct (map pp_path plan)" and "list_all pp_existed plan"
  shows "\<exists>res taken rest w1. r = Inr res \<and> plan = taken @ rest \<and> pt_steps res = map (step_done sha (tx_id t)) taken
    \<and> pt_committed_paths res = map pp_path taken \<and> guarded_run sha taken w w1 \<and> commit_end sha res taken rest w1 w'"
proof -
  obtain err steps w1 where c: "commit_files sha (tx_id t) plan w = ((err, steps), w1)" by (metis surj_pair)
  from commit_files_run [OF c] obtain taken rest w2 where plan: "plan = taken @ rest"
    and st: "steps = map (step_done sha (tx_id t)) taken" and run: "guarded_run sha taken w w2"
    and err: "case err of None \<Rightarrow> rest = [] \<and> w2 = w1 | Some e \<Rightarrow> \<exists>f fs. rest = f # fs
       \<and> commit_verified_locked sha (pp_path f) (pp_prepared f) (pp_before f) w2 = (Inl e, w1)" by blast
  have paths: "map ps_path steps = map pp_path taken" by (simp add: st)
  show ?thesis
  proof (cases err)
    case None
    with err assms(1) c have "rest = []" "same_files w2 w'"
      "r = Inr \<lparr>pt_transaction_id = tx_id t, pt_status = PatchCommitted, pt_steps = steps,
         pt_committed_paths = map ps_path steps, pt_failure = None, pt_rollback = None\<rparr>"
      by (auto simp: commit_plan_def Let_def bindE_run attempt_run split: prod.splits
          dest: record_edit_provenance_same)
    with plan st paths run show ?thesis
      by (intro exI [of _ "projr r"] exI [of _ taken] exI [of _ "[]"] exI [of _ w2]) simp
  next
    case (Some e)
    with err obtain f fs where rest: "rest = f # fs"
      and cf: "commit_verified_locked sha (pp_path f) (pp_prepared f) (pp_before f) w2 = (Inl e, w1)" by auto
    obtain rb w3 where ar: "attempt_rollback sha plan (map ps_path steps) (tx_id t) w1 = (rb, w3)" by fastforce
    have "r = Inr \<lparr>pt_transaction_id = tx_id t, pt_status = PatchCommitFailed (rb_fully_restored rb),
         pt_steps = steps, pt_committed_paths = map ps_path steps,
         pt_failure = Some \<lparr>pe_phase = PhaseCommit, pe_reason = edit_error_msg e, pe_path = None,
           pe_transaction_id = tx_id t, pe_committed_paths = map ps_path steps\<rparr>,
         pt_rollback = Some rb\<rparr>" "w' = w3"
      using assms(1) c Some ar by (simp_all add: commit_plan_def Let_def)
    moreover from attempt_rollback_run [OF ar [unfolded plan paths]] assms(2) plan
    have rs: "restore_files sha (rev taken) w1 = (rb_outcomes rb, w3)"
      and full: "rb_fully_restored rb = list_all (\<lambda>(_, out). clean_outcome out) (rb_outcomes rb)" by simp_all
    moreover have "undo_run sha (rev taken) (rb_outcomes rb) w1 w3"
      using restore_files_undo [OF rs] assms(3) plan by (simp add: list_all_iff)
    moreover have "failed_step sha f w2 w1" using commit_locked_cases [OF cf] by (auto simp: failed_step_def)
    ultimately have "commit_end sha (projr r) taken rest w2 w'" unfolding rest commit_end.simps
      by (intro exI [of _ rb] exI [of _ w1] exI [of _ w3]) simp
    with plan st paths run \<open>r = _\<close> show ?thesis
      by (intro exI [of _ "projr r"] exI [of _ taken] exI [of _ rest] exI [of _ w2]) simp
  qed
qed

section \<open>Where no other actor changes the tree\<close>

text \<open>The script may still make any system call fail.\<close>

definition steady :: "'z files_world_scheme \<Rightarrow> bool" where
  "steady w \<longleftrightarrow> list_all (\<lambda>e. case e of Tamper _ \<Rightarrow> False | _ \<Rightarrow> True) (fw_env w)"

text \<open>\<open>stays w w'\<close>: same root and tree, and the script goes on.\<close>

definition stays :: "'z files_world_scheme \<Rightarrow> 'z files_world_scheme \<Rightarrow> tree \<Rightarrow> bool" where
  "stays w w' t \<longleftrightarrow> steady w' \<and> fw_root w' = fw_root w \<and> fw_tree w' = t"

lemma stays_trans: "stays w w1 t1 \<Longrightarrow> stays w1 w2 t2 \<Longrightarrow> stays w w2 t2"
  by (simp add: stays_def)

lemma event_tree_fold:
  "list_all (\<lambda>e. case e of Tamper _ \<Rightarrow> False | _ \<Rightarrow> True) es \<Longrightarrow> foldl event_tree t es = t"
  by (induction es) (auto split: fs_event.splits)

lemma env_stays: "env_steps w w' \<Longrightarrow> steady w \<Longrightarrow> stays w w' (fw_tree w)"
  by (auto simp: env_steps_def steady_def stays_def event_tree_fold)

lemma event_stays: "next_event w = (f, w') \<Longrightarrow> steady w \<Longrightarrow> stays w w' (fw_tree w)"
  using env_steps_event env_stays by blast

lemma same_files_stays: "same_files w w' \<Longrightarrow> steady w \<Longrightarrow> stays w w' (fw_tree w)"
  by (simp add: same_files_def stays_def steady_def)

lemma read_node_plain_Inr:
  assumes "plain_file t p" and "read_node t p = Inr b" shows "t p = Some (File b)"
proof -
  from assms obtain l where "canonicalize t p = Inr l" "node_at t l = Some (File b)"
    by (auto simp: read_node_Inr)
  moreover from assms(1) have "p \<noteq> []" by (simp add: plain_file_def)
  ultimately show ?thesis using canonicalize_plain [OF assms(1)]
    by (auto simp: node_at_def split: if_splits)
qed

lemma read_plain_holds:
  assumes "read_bytes rel w = (Inr b, w')" and "steady w" and "plain_target (fw_tree w) (fw_root w) rel"
  shows "fw_tree w (join (fw_root w) rel) = Some (File b)"
proof -
  from assms(1) obtain path where ev: "next_event w = (None, w')"
    and p: "resolve_checked (fw_tree w') (fw_root w') rel = Inr path" "read_node (fw_tree w') path = Inr b"
    by (auto simp: read_bytes_Inr)
  have "stays w w' (fw_tree w)" using event_stays [OF ev assms(2)] .
  with p resolve_plain [OF assms(3)] read_node_plain_Inr [of "fw_tree w" path b] assms(3) show ?thesis
    by (simp add: stays_def plain_target_def)
qed

lemma write_stays:
  assumes "write_atomic_locked rel c w = (r, w')" and "steady w" and "plain_target (fw_tree w) (fw_root w) rel"
  shows "stays w w' (case r of Inl _ \<Rightarrow> fw_tree w | Inr _ \<Rightarrow> (fw_tree w)(join (fw_root w) rel \<mapsto> File c))"
proof -
  let ?p = "join (fw_root w) rel"
  have pl: "plain_file (fw_tree w) ?p" using assms(3) by (simp add: plain_target_def)
  then have dirs: "create_dir_all (fw_tree w) (butlast ?p) = Inr (fw_tree w)"
    by (simp add: plain_file_def create_dir_all_dirs)
  obtain f w1 where ev: "next_event w = (f, w1)" by fastforce
  have s: "stays w w1 (fw_tree w)" using event_stays [OF ev assms(2)] .
  then have "resolve_checked (fw_tree w1) (fw_root w1) rel = Inr ?p"
    using resolve_plain [OF assms(3)] by (simp add: stays_def)
  moreover obtain q where q: "content_limit c = q" by blast
  ultimately show ?thesis
    using assms(1) s dirs ev
    by (cases q; cases f)
      (auto simp: q write_atomic_locked_def on_tree_def stays_def steady_def parent_plain [OF pl]
        with_parents_def rename_over_plain [OF pl] commit_step_def check_fault_def)
qed

lemma plain_target_stays:
  assumes "plain_target (fw_tree w) (fw_root w) q" and "steady w" and "plain_target (fw_tree w) (fw_root w) rel"
    and "stays w w' t" and "t = fw_tree w \<or> t = (fw_tree w)(join (fw_root w) rel \<mapsto> File c)"
  shows "plain_target (fw_tree w') (fw_root w') q"
proof -
  have "fw_tree w (join (fw_root w) rel) \<noteq> Some Dir"
    using assms(3) by (auto simp: plain_target_def plain_file_def)
  with assms plain_target_upd show ?thesis by (auto simp: stays_def)
qed

lemma commit_locked_stays:
  assumes "commit_verified_locked sha p c before w = (r, w')" and "steady w"
    and "plain_target (fw_tree w) (fw_root w) p"
  shows "stays w w' (fw_tree w) \<and> isl r \<or> stays w w' ((fw_tree w)(join (fw_root w) p \<mapsto> File c))"
  using commit_locked_cases [OF assms(1)]
proof (elim disjE conjE exE)
  fix e assume "settled w w'" "r = Inl e"
  obtain r1 w1 where g: "verify_live_unchanged sha p before w = (r1, w1)" by fastforce
  have s1: "stays w w1 (fw_tree w)" using env_stays [OF verify_live_env [OF g] assms(2)] .
  show ?thesis
  proof (cases r1)
    case (Inl e')
    with assms(1) g have "w' = w1" by (simp add: commit_verified_locked_def bindE_run)
    with s1 \<open>r = Inl e\<close> show ?thesis by simp
  next
    case (Inr u)
    obtain r2 w2 where wr: "write_atomic_locked p c w1 = (r2, w2)" by fastforce
    have s2: "stays w1 w2 (case r2 of Inl _ \<Rightarrow> fw_tree w1 | Inr _ \<Rightarrow> (fw_tree w1)(join (fw_root w1) p \<mapsto> File c))"
      using write_stays [OF wr] s1 assms(3) by (simp add: stays_def)
    show ?thesis
    proof (cases r2)
      case (Inl e')
      with assms(1) g Inr wr have "w' = w2"
        by (simp add: commit_verified_locked_def bindE_run map_err_run Let_def)
      with s1 s2 Inl \<open>r = Inl e\<close> show ?thesis by (simp add: stays_def)
    next
      case r2: (Inr u2)
      obtain r3 w3 where rd: "read_text p w2 = (r3, w3)" by fastforce
      have "w' = w3" using rd assms(1) g Inr wr r2
        by (auto simp: commit_verified_locked_def bindE_run map_err_run Let_def split: sum.splits if_splits)
      with env_stays [OF env_steps_read(2) [OF rd]] s1 s2 r2 show ?thesis by (simp add: stays_def)
    qed
  qed
next
  assume "guarded_commit sha p c before w w'"
  then obtain b w1 w2 where g: "read_bytes p w = (Inr b, w1)" "write_atomic_locked p c w1 = (Inr (), w2)"
    "env_steps w2 w'" by (auto simp: guarded_commit_def)
  have s1: "stays w w1 (fw_tree w)" using env_stays [OF env_steps_read(1) [OF g(1)] assms(2)] .
  have s2: "stays w1 w2 ((fw_tree w1)(join (fw_root w1) p \<mapsto> File c))"
    using write_stays [OF g(2)] s1 assms(3) by (simp add: stays_def)
  with env_stays [OF g(3)] s1 show ?thesis by (simp add: stays_def)
qed

section \<open>The files of a plan\<close>

definition put_files :: "string list \<Rightarrow> (string \<times> string) list \<Rightarrow> tree \<Rightarrow> tree" where
  "put_files root xs t = foldl (\<lambda>t (p, c). t(join root p \<mapsto> File c)) t xs"

definition prepared_of :: "prepare_file list \<Rightarrow> (string \<times> string) list" where
  "prepared_of plan = map (\<lambda>f. (pp_path f, pp_prepared f)) plan"

definition originals_of :: "prepare_file list \<Rightarrow> (string \<times> string) list" where
  "originals_of plan = map (\<lambda>f. (pp_path f, pp_original f)) plan"

lemma put_files_simps [simp]:
  "put_files root [] t = t"
  "put_files root ((p, c) # xs) t = put_files root xs (t(join root p \<mapsto> File c))"
  by (simp_all add: put_files_def)

lemma put_files_append: "put_files root (xs @ ys) t = put_files root ys (put_files root xs t)"
  by (simp add: put_files_def)

lemma prepared_of_simps [simp]:
  "prepared_of [] = []" "prepared_of (f # fs) = (pp_path f, pp_prepared f) # prepared_of fs"
  "prepared_of (fs @ gs) = prepared_of fs @ prepared_of gs"
  by (simp_all add: prepared_of_def)

lemma originals_of_simps [simp]:
  "originals_of [] = []" "originals_of (f # fs) = (pp_path f, pp_original f) # originals_of fs"
  by (simp_all add: originals_of_def)

lemma put_files_other: "k \<notin> (\<lambda>(p, c). join root p) ` set xs \<Longrightarrow> put_files root xs t k = t k"
  by (induction xs arbitrary: t) auto

lemma put_files_at:
  "distinct (map (\<lambda>(p, c). join root p) xs) \<Longrightarrow> (p, c) \<in> set xs \<Longrightarrow>
     put_files root xs t (join root p) = Some (File c)"
proof (induction xs arbitrary: t)
  case (Cons x xs)
  obtain q d where x: "x = (q, d)" by fastforce
  show ?case
  proof (cases "(p, c) \<in> set xs")
    case True
    with Cons x show ?thesis by simp
  next
    case False
    with Cons.prems x have pq: "p = q" "c = d" by auto
    have "join root q \<notin> (\<lambda>(p, c). join root p) ` set xs" using Cons.prems(1) x by simp
    with x pq show ?thesis by (simp add: put_files_other)
  qed
qed simp

lemma split_char_inj: "split_char d s = split_char d u \<Longrightarrow> s = u"
proof (induction s arbitrary: u)
  case Nil
  show ?case
  proof (cases u)
    case (Cons x v)
    with Nil show ?thesis
      by (cases "split_char d v") (auto split: if_splits)
  qed simp
next
  case (Cons x s)
  have ne: "split_char d v \<noteq> []" for v by simp
  show ?case
  proof (cases u)
    case Nil
    with Cons.prems show ?thesis by (cases "split_char d s") (auto split: if_splits)
  next
    case u: (Cons y v)
    obtain l ls where l: "split_char d s = l # ls" using ne by (cases "split_char d s") auto
    obtain k ks where k: "split_char d v = k # ks" using ne by (cases "split_char d v") auto
    from Cons.prems u l k Cons.IH [of v] show ?thesis by (auto split: if_splits)
  qed
qed

lemma join_inj: "join root p = join root q \<Longrightarrow> p = q"
  by (auto simp: join_def target_components_def dest: split_char_inj)

lemma distinct_joins: "distinct ps \<Longrightarrow> distinct (map (join root) ps)"
  by (auto simp: distinct_map inj_on_def dest: join_inj)

lemma guarded_run_stays:
  "guarded_run sha fs w w' \<Longrightarrow> steady w \<Longrightarrow> list_all (\<lambda>f. plain_target (fw_tree w) (fw_root w) (pp_path f)) (fs @ gs) \<Longrightarrow>
     stays w w' (put_files (fw_root w) (prepared_of fs) (fw_tree w))
     \<and> list_all (\<lambda>f. plain_target (fw_tree w') (fw_root w') (pp_path f)) (fs @ gs)"
proof (induction fs arbitrary: w gs)
  case Nil
  then show ?case using env_stays [of w w'] by (simp add: stays_def)
next
  case (Cons f fs)
  then obtain w1 where g: "guarded_commit sha (pp_path f) (pp_prepared f) (pp_before f) w w1"
    and r: "guarded_run sha fs w1 w'" by auto
  from g obtain b w2 w3 where c: "read_bytes (pp_path f) w = (Inr b, w2)"
    "write_atomic_locked (pp_path f) (pp_prepared f) w2 = (Inr (), w3)" "env_steps w3 w1"
    by (auto simp: guarded_commit_def)
  have pf: "plain_target (fw_tree w) (fw_root w) (pp_path f)" using Cons.prems by simp
  have s2: "stays w w2 (fw_tree w)" using env_stays [OF env_steps_read(1) [OF c(1)]] Cons.prems by simp
  then have s3: "stays w2 w3 ((fw_tree w2)(join (fw_root w2) (pp_path f) \<mapsto> File (pp_prepared f)))"
    using write_stays [OF c(2)] pf by (simp add: stays_def)
  with s2 env_stays [OF c(3)] have s1: "stays w w1 ((fw_tree w)(join (fw_root w) (pp_path f) \<mapsto> File (pp_prepared f)))"
    by (simp add: stays_def)
  have "list_all (\<lambda>g. plain_target (fw_tree w1) (fw_root w1) (pp_path g)) (fs @ f # gs)"
    using Cons.prems(2,3) plain_target_stays [OF _ _ pf s1] by (auto simp: list_all_iff)
  with Cons.IH [OF r, of "f # gs"] s1 show ?case by (auto simp: stays_def)
qed

lemma restore_file_stays:
  assumes "restore_file sha f w = (out, w')" and "clean_outcome out" and "pp_existed f" and "steady w"
    and "plain_target (fw_tree w) (fw_root w) (pp_path f)"
  shows "stays w w' ((fw_tree w)(join (fw_root w) (pp_path f) \<mapsto> File (pp_original f)))"
proof -
  obtain r1 w1 where r: "read_bytes (pp_path f) w = (r1, w1)" by fastforce
  have s1: "stays w w1 (fw_tree w)" using env_stays [OF env_steps_read(1) [OF r] assms(4)] .
  obtain r2 w2 where wr: "write_atomic_locked (pp_path f) (pp_original f) w1 = (r2, w2)" by fastforce
  obtain r3 w3 where rd: "read_bytes (pp_path f) w2 = (r3, w3)" by fastforce
  have "w' = w3 \<and> (\<exists>u. r2 = Inr u)"
    using assms(1-3) r wr rd
    by (auto simp: restore_file_def Let_def from_utf8_Some split: sum.splits if_splits option.splits)
  moreover have "stays w1 w2 (case r2 of Inl _ \<Rightarrow> fw_tree w1
      | Inr _ \<Rightarrow> (fw_tree w1)(join (fw_root w1) (pp_path f) \<mapsto> File (pp_original f)))"
    using write_stays [OF wr] s1 assms(5) by (simp add: stays_def)
  ultimately show ?thesis using s1 env_stays [OF env_steps_read(1) [OF rd]] by (auto simp: stays_def)
qed

lemma restore_files_stays:
  "restore_files sha fs w = (outs, w') \<Longrightarrow> list_all (\<lambda>(_, out). clean_outcome out) outs \<Longrightarrow> list_all pp_existed fs \<Longrightarrow>
     steady w \<Longrightarrow> list_all (\<lambda>f. plain_target (fw_tree w) (fw_root w) (pp_path f)) fs \<Longrightarrow>
     stays w w' (put_files (fw_root w) (originals_of fs) (fw_tree w))"
proof (induction fs arbitrary: w outs w')
  case Nil
  then show ?case by (simp add: stays_def)
next
  case (Cons f fs)
  obtain out w1 where r: "restore_file sha f w = (out, w1)" by fastforce
  obtain outs2 w2 where rs: "restore_files sha fs w1 = (outs2, w2)" by fastforce
  from Cons.prems r rs have eq: "outs = (pp_path f, out) # outs2" "w' = w2" by simp_all
  have pf: "plain_target (fw_tree w) (fw_root w) (pp_path f)" using Cons.prems by simp
  have s1: "stays w w1 ((fw_tree w)(join (fw_root w) (pp_path f) \<mapsto> File (pp_original f)))"
    using restore_file_stays [OF r] Cons.prems eq by simp
  then have "list_all (\<lambda>g. plain_target (fw_tree w1) (fw_root w1) (pp_path g)) fs"
    using Cons.prems(4,5) plain_target_stays [OF _ _ pf s1] by (auto simp: list_all_iff)
  with Cons.IH [OF rs] Cons.prems eq s1 show ?case by (simp add: stays_def)
qed

text \<open>Writing the originals back over the prepared texts gives the tree before.\<close>

lemma put_originals_back:
  assumes "distinct (map pp_path fs)"
    and "list_all (\<lambda>f. t (join root (pp_path f)) = Some (File (pp_original f))) fs"
  shows "put_files root (originals_of (rev fs)) (put_files root (prepared_of fs) t) = t"
proof
  fix k
  let ?t1 = "put_files root (prepared_of fs) t"
  have d: "distinct (map (\<lambda>(p, c). join root p) (originals_of (rev fs)))"
    using distinct_joins [of "map pp_path (rev fs)" root] assms(1)
    by (simp add: originals_of_def comp_def rev_map [symmetric])
  show "put_files root (originals_of (rev fs)) ?t1 k = t k"
  proof (cases "\<exists>f \<in> set fs. k = join root (pp_path f)")
    case True
    then obtain f where f: "f \<in> set fs" "k = join root (pp_path f)" by blast
    then have "(pp_path f, pp_original f) \<in> set (originals_of (rev fs))" by (auto simp: originals_of_def)
    from put_files_at [OF d this] f assms(2) show ?thesis by (auto simp: list_all_iff)
  next
    case False
    then have "k \<notin> (\<lambda>(p, c). join root p) ` set (originals_of (rev fs))"
      "k \<notin> (\<lambda>(p, c). join root p) ` set (prepared_of fs)"
      by (auto simp: originals_of_def prepared_of_def)
    then show ?thesis by (simp add: put_files_other)
  qed
qed

lemma put_files_upd_other:
  "k \<notin> (\<lambda>(p, c). join root p) ` set xs \<Longrightarrow> put_files root xs (t(k \<mapsto> n)) = (put_files root xs t)(k \<mapsto> n)"
proof (induction xs arbitrary: t)
  case (Cons x xs)
  obtain p c where x: "x = (p, c)" by fastforce
  with Cons.prems have "t(k \<mapsto> n, join root p \<mapsto> File c) = t(join root p \<mapsto> File c, k \<mapsto> n)"
    by (intro fun_upd_twist) auto
  then have "put_files root (x # xs) (t(k \<mapsto> n)) = put_files root xs (t(join root p \<mapsto> File c, k \<mapsto> n))"
    by (simp only: x put_files_simps)
  also have "\<dots> = (put_files root xs (t(join root p \<mapsto> File c)))(k \<mapsto> n)"
    by (rule Cons.IH) (use Cons.prems in auto)
  finally show ?case by (simp only: x put_files_simps)
qed simp

lemma prepare_files_originals:
  "prepare_files sha t gs w = (Inr plan, w') \<Longrightarrow> steady w \<Longrightarrow>
     list_all (plain_target (fw_tree w) (fw_root w)) (map fst gs) \<Longrightarrow>
     list_all (\<lambda>f. fw_tree w (join (fw_root w) (pp_path f)) = Some (File (pp_original f))) plan"
proof (induction sha t gs arbitrary: w plan w' rule: prepare_files.induct)
  case (2 sha t path ops gs)
  then obtain b w1 f fs where b: "read_bytes path w = (Inr b, w1)"
    and c: "prepare_content sha t path ops b = Inr f"
    and fs: "prepare_files sha t gs w1 = (Inr fs, w')" and plan: "plan = f # fs"
    by (auto simp: bindE_Inr_iff map_err_Inr_iff)
  have s: "stays w w1 (fw_tree w)" using env_stays [OF env_steps_read(1) [OF b] 2(3)] .
  have "pp_path f = path \<and> pp_original f = b"
    using c by (auto simp: prepare_content_def Let_def bindR_Inr_iff split: option.splits)
  with read_plain_holds [OF b 2(3)] 2(4) 2(1) [OF fs] s plan show ?case by (simp add: stays_def)
qed simp

lemma prepare_files_planned:
  "prepare_files sha t gs w = (Inr plan, w') \<Longrightarrow> list_all2 (\<lambda>(path, ops) f. prepare_content sha t path ops (pp_original f) = Inr f
     \<and> pp_path f = path) gs plan"
proof (induction sha t gs arbitrary: w plan w' rule: prepare_files.induct)
  case (2 sha t path ops gs)
  then obtain b w1 f fs where c: "prepare_content sha t path ops b = Inr f"
    and fs: "prepare_files sha t gs w1 = (Inr fs, w')" and plan: "plan = f # fs"
    by (auto simp: bindE_Inr_iff map_err_Inr_iff)
  have "pp_path f = path \<and> pp_original f = b"
    using c by (auto simp: prepare_content_def Let_def bindR_Inr_iff split: option.splits)
  with c 2(1) [OF fs] plan show ?case by simp
qed simp

text \<open>A rollback, whatever it reports, leaves at every path what was there or the original text.\<close>

lemma restore_file_tree:
  assumes "restore_file sha f w = (out, w')" and "pp_existed f" and "steady w"
    and "plain_target (fw_tree w) (fw_root w) (pp_path f)"
  shows "stays w w' (fw_tree w) \<or> stays w w' ((fw_tree w)(join (fw_root w) (pp_path f) \<mapsto> File (pp_original f)))"
proof -
  obtain r1 w1 where r: "read_bytes (pp_path f) w = (r1, w1)" by fastforce
  have s1: "stays w w1 (fw_tree w)" using env_stays [OF env_steps_read(1) [OF r] assms(3)] .
  obtain r2 w2 where wr: "write_atomic_locked (pp_path f) (pp_original f) w1 = (r2, w2)" by fastforce
  obtain r3 w3 where rd: "read_bytes (pp_path f) w2 = (r3, w3)" by fastforce
  have s2: "stays w1 w2 (case r2 of Inl _ \<Rightarrow> fw_tree w1
      | Inr _ \<Rightarrow> (fw_tree w1)(join (fw_root w1) (pp_path f) \<mapsto> File (pp_original f)))"
    using write_stays [OF wr] s1 assms(4) by (simp add: stays_def)
  then have "steady w2" by (simp add: stays_def)
  note s3 = env_stays [OF env_steps_read(1) [OF rd] this]
  have "w' = w1 \<or> w' = w2 \<or> w' = w3" using assms(1,2) r wr rd
    by (auto simp: restore_file_def Let_def from_utf8_def split: sum.splits if_splits option.splits)
  with s1 s2 s3 show ?thesis by (auto simp: stays_def split: sum.splits)
qed

lemma restore_files_tree:
  "restore_files sha fs w = (outs, w') \<Longrightarrow> list_all pp_existed fs \<Longrightarrow> steady w \<Longrightarrow>
     list_all (\<lambda>f. plain_target (fw_tree w) (fw_root w) (pp_path f)) fs \<Longrightarrow>
     (\<exists>t. stays w w' t \<and> (\<forall>k. t k = fw_tree w k
       \<or> (\<exists>f \<in> set fs. k = join (fw_root w) (pp_path f) \<and> t k = Some (File (pp_original f)))))"
proof (induction fs arbitrary: w outs w')
  case Nil
  then show ?case by (simp add: stays_def)
next
  case (Cons f fs)
  obtain out w1 where r: "restore_file sha f w = (out, w1)" by fastforce
  obtain outs2 w2 where rs: "restore_files sha fs w1 = (outs2, w2)" by fastforce
  from Cons.prems(1) r rs have eq: "w' = w2" by simp
  have pf: "plain_target (fw_tree w) (fw_root w) (pp_path f)" using Cons.prems by simp
  obtain t1 where s1: "stays w w1 t1"
    and t1: "t1 = fw_tree w \<or> t1 = (fw_tree w)(join (fw_root w) (pp_path f) \<mapsto> File (pp_original f))"
    using restore_file_tree [OF r _ _ pf] Cons.prems by auto
  have "list_all (\<lambda>g. plain_target (fw_tree w1) (fw_root w1) (pp_path g)) fs"
    using Cons.prems(3,4) plain_target_stays [OF _ _ pf s1 t1] by (auto simp: list_all_iff)
  with Cons.IH [OF rs] Cons.prems(2) s1 obtain t where t: "stays w1 w2 t"
    "\<forall>k. t k = t1 k \<or> (\<exists>f \<in> set fs. k = join (fw_root w) (pp_path f) \<and> t k = Some (File (pp_original f)))"
    by (auto simp: stays_def)
  have "stays w w' t" using stays_trans [OF s1 t(1)] eq by simp
  moreover have "t k = fw_tree w k \<or> (\<exists>g \<in> set (f # fs). k = join (fw_root w) (pp_path g) \<and> t k = Some (File (pp_original g)))" for k
    using t(2) [rule_format, of k] t1 by (auto split: if_splits)
  ultimately show ?case by blast
qed

section \<open>All or nothing\<close>

text \<open>
  The plan of a transaction on a tree: for every file named, in path order, the operations on it
  applied to the content it has.
\<close>

definition planned :: "sha \<Rightarrow> edit_transaction \<Rightarrow> tree \<Rightarrow> string list \<Rightarrow> groups \<Rightarrow> prepare_file list \<Rightarrow> bool" where
  "planned sha t tree root gs plan \<longleftrightarrow> list_all2 (\<lambda>(path, ops) f. \<exists>b. tree (join root path) = Some (File b)
     \<and> prepare_content sha t path ops b = Inr f \<and> pp_path f = path \<and> pp_original f = b) gs plan"

text \<open>
  What a failed commit can leave: after the files \<open>taken\<close> the commit of \<open>f\<close> failed, and every
  path holds what it held before, or the prepared text of one of these files; only that of
  \<open>f\<close> when the result says restored.
\<close>

definition half_done :: "string list \<Rightarrow> prepare_file list \<Rightarrow> prepare_file \<Rightarrow> bool \<Rightarrow> tree \<Rightarrow> tree \<Rightarrow> bool" where
  "half_done root taken f restored t t' \<longleftrightarrow> (\<forall>k. t' k = t k
     \<or> (\<exists>g \<in> set (taken @ [f]). k = join root (pp_path g) \<and> t' k = Some (File (pp_prepared g)) \<and> (restored \<longrightarrow> g = f)))"

text \<open>The commit of a file reached its own write.\<close>

definition wrote :: "sha \<Rightarrow> prepare_file \<Rightarrow> edit_world \<Rightarrow> bool" where
  "wrote sha f w \<longleftrightarrow> (case verify_live_unchanged sha (pp_path f) (pp_before f) w of
     (Inl _, _) \<Rightarrow> False
   | (Inr _, w1) \<Rightarrow> \<not> isl (fst (write_atomic_locked (pp_path f) (pp_prepared f) w1)))"

lemma wrote_stays:
  assumes "commit_verified_locked sha (pp_path f) (pp_prepared f) (pp_before f) w = (r, w')" and "wrote sha f w"
    and "steady w" and "plain_target (fw_tree w) (fw_root w) (pp_path f)"
  shows "stays w w' ((fw_tree w)(join (fw_root w) (pp_path f) \<mapsto> File (pp_prepared f)))"
proof -
  obtain r1 w1 where g1: "verify_live_unchanged sha (pp_path f) (pp_before f) w = (r1, w1)" by fastforce
  obtain r2 w2 where wr1: "write_atomic_locked (pp_path f) (pp_prepared f) w1 = (r2, w2)" by fastforce
  obtain u where r1: "r1 = Inr u" using assms(2) g1 by (cases r1) (simp_all add: wrote_def)
  obtain u2 where r2: "r2 = Inr u2" using assms(2) g1 wr1 r1 by (cases r2) (simp_all add: wrote_def)
  note g = g1 [unfolded r1] and wr = wr1 [unfolded r2]
  obtain r3 w3 where rd: "read_text (pp_path f) w2 = (r3, w3)" by fastforce
  have "w' = w3" using rd assms(1) g wr
    by (auto simp: commit_verified_locked_def bindE_run map_err_run Let_def split: sum.splits if_splits)
  moreover have s1: "stays w w1 (fw_tree w)" using env_stays [OF verify_live_env [OF g] assms(3)] .
  moreover have "stays w1 w2 ((fw_tree w1)(join (fw_root w1) (pp_path f) \<mapsto> File (pp_prepared f)))"
    using write_stays [OF wr] s1 assms(4) by (simp add: stays_def)
  ultimately show ?thesis using env_stays [OF env_steps_read(2) [OF rd]] by (simp add: stays_def)
qed

text \<open>
  A failed commit in a tree that no other actor changes: the files \<open>taken\<close> were written, the
  commit of the next one failed with the reported error, and the rollback covers the files taken
  and no other. So a text that the failed commit had itself written stays.
\<close>

definition failed_commit ::
    "sha \<Rightarrow> patch_result \<Rightarrow> prepare_file list \<Rightarrow> prepare_file list \<Rightarrow> edit_world \<Rightarrow> edit_world \<Rightarrow> bool" where
  "failed_commit sha res taken rest w w' \<longleftrightarrow> (\<exists>f fs e w1 w2 rb. rest = f # fs
     \<and> fw_tree w1 = put_files (fw_root w) (prepared_of taken) (fw_tree w)
     \<and> commit_verified_locked sha (pp_path f) (pp_prepared f) (pp_before f) w1 = (Inl e, w2)
     \<and> map_option pe_reason (pt_failure res) = Some (edit_error_msg e)
     \<and> pt_rollback res = Some rb \<and> map fst (rb_outcomes rb) = rev (pt_committed_paths res)
     \<and> pt_status res = PatchCommitFailed (list_all (\<lambda>(_, out). clean_outcome out) (rb_outcomes rb))
     \<and> (wrote sha f w1 \<longrightarrow> fw_tree w' (join (fw_root w) (pp_path f)) = Some (File (pp_prepared f)))
     \<and> half_done (fw_root w) taken f (list_all (\<lambda>(_, out). clean_outcome out) (rb_outcomes rb)) (fw_tree w) (fw_tree w'))"

lemma joins_distinct:
  assumes "distinct (map pp_path (taken @ f # fs))" and "g \<in> set taken"
  shows "join root (pp_path f) \<noteq> join root (pp_path g)"
  using assms by (auto dest: join_inj)

lemma put_prepared_cases:
  "put_files root (prepared_of fs) t k = t k
   \<or> (\<exists>g \<in> set fs. k = join root (pp_path g) \<and> put_files root (prepared_of fs) t k = Some (File (pp_prepared g)))"
proof (induction fs arbitrary: t)
  case (Cons f fs)
  define t1 where "t1 = t(join root (pp_path f) \<mapsto> File (pp_prepared f))"
  have "put_files root (prepared_of (f # fs)) t = put_files root (prepared_of fs) t1" by (simp add: t1_def)
  moreover have "t1 k = t k \<or> k = join root (pp_path f) \<and> t1 k = Some (File (pp_prepared f))" by (simp add: t1_def)
  ultimately show ?case using Cons.IH [of t1] by (metis list.set_intros)
qed simp

lemma rollback_half_done:
  assumes "restore_files sha (rev taken) w1 = (outs, w3)" and "steady w1" and "list_all pp_existed taken"
    and "list_all (\<lambda>g. plain_target (fw_tree w1) (fw_root w1) (pp_path g)) taken"
    and "distinct (map pp_path (taken @ f # fs))"
    and "list_all (\<lambda>g. t (join (fw_root w1) (pp_path g)) = Some (File (pp_original g))) taken"
    and "fw_tree w1 = t2 \<or> fw_tree w1 = t2(join (fw_root w1) (pp_path f) \<mapsto> File (pp_prepared f))"
    and t2: "t2 = put_files (fw_root w1) (prepared_of taken) t"
  shows "half_done (fw_root w1) taken f (list_all (\<lambda>(_, out). clean_outcome out) outs) t (fw_tree w3)
    \<and> fw_tree w3 (join (fw_root w1) (pp_path f)) = fw_tree w1 (join (fw_root w1) (pp_path f))"
proof -
  let ?r = "fw_root w1" and ?clean = "list_all (\<lambda>(_, out). clean_outcome out) outs"
  have ex: "list_all pp_existed (rev taken)"
    and pl: "list_all (\<lambda>g. plain_target (fw_tree w1) ?r (pp_path g)) (rev taken)"
    using assms(3,4) by (simp_all add: list_all_iff)
  from restore_files_tree [OF assms(1) ex assms(2) pl] have tree3: "\<And>k. fw_tree w3 k = fw_tree w1 k
      \<or> (\<exists>g \<in> set taken. k = join ?r (pp_path g) \<and> fw_tree w3 k = Some (File (pp_original g)))"
    by (auto simp: stays_def)
  have own: "fw_tree w3 (join ?r (pp_path f)) = fw_tree w1 (join ?r (pp_path f))"
    using tree3 [of "join ?r (pp_path f)"] joins_distinct [OF assms(5), of _ ?r] by blast
  have put: "fw_tree w1 k = t k \<or> (\<exists>g \<in> set (taken @ [f]). k = join ?r (pp_path g) \<and> fw_tree w1 k = Some (File (pp_prepared g)))" for k
  proof -
    have c: "fw_tree w1 k = t2 k \<or> k = join ?r (pp_path f) \<and> fw_tree w1 k = Some (File (pp_prepared f))"
      using assms(7) by (auto split: if_splits)
    have "t2 k = t k \<or> (\<exists>g \<in> set taken. k = join ?r (pp_path g) \<and> t2 k = Some (File (pp_prepared g)))"
      unfolding t2 by (rule put_prepared_cases)
    with c show ?thesis by (elim disjE bexE conjE) auto
  qed
  have orig: "\<And>g. g \<in> set taken \<Longrightarrow> t (join ?r (pp_path g)) = Some (File (pp_original g))"
    using assms(6) by (simp add: list_all_iff)
  have weak: "fw_tree w3 k = t k \<or> (\<exists>g \<in> set (taken @ [f]). k = join ?r (pp_path g) \<and> fw_tree w3 k = Some (File (pp_prepared g)))" for k
  proof -
    have "fw_tree w3 k = fw_tree w1 k \<or> fw_tree w3 k = t k" using tree3 [of k] orig by auto
    with put [of k] show ?thesis by metis
  qed
  have strong: "fw_tree w3 k = t k \<or> (k = join ?r (pp_path f) \<and> fw_tree w3 k = Some (File (pp_prepared f)))" if ?clean for k
  proof (cases "k = join ?r (pp_path f)")
    case True
    with own put [of k] joins_distinct [OF assms(5), of _ ?r] show ?thesis by auto
  next
    case False
    have "stays w1 w3 (put_files ?r (originals_of (rev taken)) (fw_tree w1))"
      by (rule restore_files_stays [OF assms(1) that ex assms(2) pl])
    then have w3: "fw_tree w3 = put_files ?r (originals_of (rev taken)) (fw_tree w1)" by (simp add: stays_def)
    have o: "put_files ?r (originals_of (rev taken)) t2 = t"
      using put_originals_back [of taken t ?r] assms(5,6) unfolding t2 by simp
    have "join ?r (pp_path f) \<notin> (\<lambda>(p, c). join ?r p) ` set (originals_of (rev taken))"
      using joins_distinct [OF assms(5), of _ ?r] by (auto simp: originals_of_def)
    with assms(7) o w3 False show ?thesis by (auto simp: put_files_upd_other)
  qed
  show ?thesis unfolding half_done_def using own weak strong by fastforce
qed

lemma commit_plan_tree:
  assumes "commit_plan sha idn t m plan w = (r, w')" and "steady w" and "distinct (map pp_path plan)"
    and "list_all pp_existed plan"
    and "list_all (\<lambda>f. plain_target (fw_tree w) (fw_root w) (pp_path f)) plan"
    and "list_all (\<lambda>f. fw_tree w (join (fw_root w) (pp_path f)) = Some (File (pp_original f))) plan"
  shows "\<exists>res taken rest. r = Inr res \<and> plan = taken @ rest \<and> pt_committed_paths res = map pp_path taken
    \<and> (if rest = [] then pt_status res = PatchCommitted
         \<and> fw_tree w' = put_files (fw_root w) (prepared_of plan) (fw_tree w)
       else failed_commit sha res taken rest w w')"
proof -
  obtain err steps w1 where c: "commit_files sha (tx_id t) plan w = ((err, steps), w1)" by (metis surj_pair)
  from commit_files_run [OF c] obtain taken rest w2 where plan: "plan = taken @ rest"
    and steps: "steps = map (step_done sha (tx_id t)) taken" and run: "guarded_run sha taken w w2"
    and err: "case err of None \<Rightarrow> rest = [] \<and> w2 = w1 | Some e \<Rightarrow> \<exists>f fs. rest = f # fs
       \<and> commit_verified_locked sha (pp_path f) (pp_prepared f) (pp_before f) w2 = (Inl e, w1)" by blast
  have paths: "map ps_path steps = map pp_path taken" by (simp add: steps)
  from guarded_run_stays [OF run assms(2), of rest] assms(5) plan
  have s2: "stays w w2 (put_files (fw_root w) (prepared_of taken) (fw_tree w))"
    and pl2: "list_all (\<lambda>f. plain_target (fw_tree w2) (fw_root w2) (pp_path f)) (taken @ rest)" by simp_all
  show ?thesis
  proof (cases err)
    case None
    with err have "rest = []" "w2 = w1" by simp_all
    moreover from None assms(1) c have
      "r = Inr \<lparr>pt_transaction_id = tx_id t, pt_status = PatchCommitted, pt_steps = steps,
         pt_committed_paths = map ps_path steps, pt_failure = None, pt_rollback = None\<rparr>"
      "same_files w1 w'"
      by (auto simp: commit_plan_def Let_def bindE_run attempt_run split: prod.splits
          dest: record_edit_provenance_same)
    ultimately show ?thesis using s2 plan paths
      by (intro exI [of _ "projr r"] exI [of _ taken] exI [of _ "[]"]) (simp add: stays_def same_files_def)
  next
    case (Some e)
    with err obtain f fs where rest: "rest = f # fs"
      and cf: "commit_verified_locked sha (pp_path f) (pp_prepared f) (pp_before f) w2 = (Inl e, w1)" by auto
    obtain rb w3 where ar: "attempt_rollback sha plan (map ps_path steps) (tx_id t) w1 = (rb, w3)" by fastforce
    have pf: "plain_target (fw_tree w2) (fw_root w2) (pp_path f)" using pl2 rest by simp
    have st2: "steady w2" using s2 by (simp add: stays_def)
    obtain t1 where s1: "stays w2 w1 t1"
      and t1: "t1 = fw_tree w2 \<or> t1 = (fw_tree w2)(join (fw_root w2) (pp_path f) \<mapsto> File (pp_prepared f))"
      using commit_locked_stays [OF cf st2 pf] by blast
    from attempt_rollback_run [OF ar [unfolded plan paths]] assms(3) plan
    have rs: "restore_files sha (rev taken) w1 = (rb_outcomes rb, w3)"
      and full: "rb_fully_restored rb = list_all (\<lambda>(_, out). clean_outcome out) (rb_outcomes rb)" by simp_all
    have eqs: "fw_root w1 = fw_root w" "fw_tree w2 = put_files (fw_root w) (prepared_of taken) (fw_tree w)"
      "fw_root w2 = fw_root w" "steady w1" "fw_tree w1 = t1" using s1 s2 by (simp_all add: stays_def)
    have ex: "list_all pp_existed taken" using assms(4) plan by simp
    have pl1: "list_all (\<lambda>g. plain_target (fw_tree w1) (fw_root w1) (pp_path g)) taken"
      using pl2 plain_target_stays [OF _ st2 pf s1 t1] by (auto simp: list_all_iff)
    have orig: "list_all (\<lambda>g. fw_tree w (join (fw_root w1) (pp_path g)) = Some (File (pp_original g))) taken"
      using assms(6) plan eqs(1) by simp
    have t2: "fw_tree w1 = fw_tree w2 \<or> fw_tree w1 = (fw_tree w2)(join (fw_root w1) (pp_path f) \<mapsto> File (pp_prepared f))"
      using t1 eqs by simp
    from rollback_half_done [OF rs eqs(4) ex pl1 assms(3) [unfolded plan rest] orig t2] eqs
    have h: "half_done (fw_root w) taken f (list_all (\<lambda>(_, out). clean_outcome out) (rb_outcomes rb)) (fw_tree w) (fw_tree w3)"
      and own: "fw_tree w3 (join (fw_root w) (pp_path f)) = fw_tree w1 (join (fw_root w) (pp_path f))" by simp_all
    have w: "wrote sha f w2 \<longrightarrow> fw_tree w3 (join (fw_root w) (pp_path f)) = Some (File (pp_prepared f))"
      using wrote_stays [OF cf _ st2 pf] own eqs(3) by (simp add: stays_def)
    have outs: "map fst (rb_outcomes rb) = rev (map pp_path taken)"
      using undo_run_paths [OF restore_files_undo [OF rs]] ex by (simp add: list_all_iff rev_map)
    have r: "r = Inr \<lparr>pt_transaction_id = tx_id t, pt_status = PatchCommitFailed (rb_fully_restored rb),
         pt_steps = steps, pt_committed_paths = map ps_path steps,
         pt_failure = Some \<lparr>pe_phase = PhaseCommit, pe_reason = edit_error_msg e, pe_path = None,
           pe_transaction_id = tx_id t, pe_committed_paths = map ps_path steps\<rparr>,
         pt_rollback = Some rb\<rparr>" and w': "w' = w3"
      using assms(1) c Some ar by (simp_all add: commit_plan_def Let_def)
    have "failed_commit sha (projr r) taken rest w w'"
      unfolding failed_commit_def rest r w'
      by (rule exI [of _ f], rule exI [of _ fs], rule exI [of _ e], rule exI [of _ w2], rule exI [of _ w1], rule exI [of _ rb])
        (use cf h w outs full paths eqs(2) in simp)
    with r plan paths rest show ?thesis
      by (intro exI [of _ "projr r"] exI [of _ taken] exI [of _ rest]) simp
  qed
qed

section \<open>The executor\<close>

lemma patch_internal_cases:
  assumes "patch_internal sha idn t w = (r, w')"
  shows "(isl r \<and> env_steps w w')
    \<or> (\<exists>gs plan m w1 w2 w3. validate_shape t = Inr () \<and> group_operations 0 (tx_operations t) [] = Inr gs
        \<and> prepare_files sha t (sort_key fst gs) w = (Inr plan, w1)
        \<and> snapshot_create sha (tx_id t) (originals_of plan) None (ew_snap w1) = (Inr m, ew_snap w2)
        \<and> same_files w1 w2 \<and> commit_plan sha idn t m plan w2 = (r, w3)
        \<and> same_files w3 w' \<and> ew_snap w' = ew_snap w3)"
proof (cases "validate_shape t = Inr () \<and> tx_operations t \<noteq> []
    \<and> (\<exists>gs. group_operations 0 (tx_operations t) [] = Inr gs \<and> validate_groups (tx_id t) (sort_key fst gs) = Inr ())")
  case False
  then have "isl r \<and> w' = w" using assms unfolding patch_internal_def bindE_lift Let_def
    by (auto split: sum.splits if_splits)
  then show ?thesis by simp
next
  case True
  then obtain gs where g: "validate_shape t = Inr ()" "group_operations 0 (tx_operations t) [] = Inr gs" by blast
  from assms True g have run: "bindE (prepare_files sha t (sort_key fst gs)) (\<lambda>plan.
     bindE (capture_durable_recovery sha (tx_id t) (map (\<lambda>f. (pp_path f, pp_original f)) plan)) (\<lambda>snapshot.
     bindE (map_err (\<lambda>e. PatchPreparationFailure (tx_id t) None (Fmt ''mutation refused: {}'' [edit_error_msg e]))
              (coordinate sha (map pp_path plan))) (\<lambda>held.
     holding held (commit_plan sha idn t snapshot plan)))) w = (r, w')"
    unfolding patch_internal_def by (simp add: bindE_lift Let_def)
  obtain r1 w1 where p: "prepare_files sha t (sort_key fst gs) w = (r1, w1)" by fastforce
  note env = prepare_files_env [OF p]
  show ?thesis
  proof (cases r1)
    case (Inl e)
    with run p have "r = Inl e" "w' = w1" by (simp_all add: bindE_run)
    with env show ?thesis by simp
  next
    case (Inr plan)
    obtain r2 w2 where c: "capture_durable_recovery sha (tx_id t) (originals_of plan) w1 = (r2, w2)" by fastforce
    note s2 = capture_same [OF c]
    show ?thesis
    proof (cases r2)
      case (Inl e)
      with run p \<open>r1 = Inr plan\<close> c have "r = Inl e" "w' = w2" by (simp_all add: bindE_run originals_of_def)
      with env env_steps_trans [OF _ same_files_env [OF s2]] show ?thesis by simp
    next
      case m: (Inr m)
      obtain r3 w3 where co: "coordinate sha (map pp_path plan) w2 = (r3, w3)" by fastforce
      note s3 = coordinate_same [OF co]
      have s23: "same_files w1 w3" "ew_snap w3 = ew_snap w2" using s2 s3 by (simp_all add: same_files_def)
      show ?thesis
      proof (cases r3)
        case (Inl e)
        with run p \<open>r1 = Inr plan\<close> c m co have "r = Inl (PatchPreparationFailure (tx_id t) None
            (Fmt ''mutation refused: {}'' [edit_error_msg e]))" "w' = w3"
          by (simp_all add: bindE_run map_err_run originals_of_def)
        with env env_steps_trans [OF _ same_files_env [OF s23(1)]] show ?thesis by simp
      next
        case (Inr ks)
        with run p \<open>r1 = Inr plan\<close> c m co have "holding ks (commit_plan sha idn t m plan) w3 = (r, w')"
          by (simp add: bindE_run map_err_run originals_of_def)
        then obtain w4 where "commit_plan sha idn t m plan w3 = (r, w4)" "same_files w4 w'" "ew_snap w' = ew_snap w4"
          using holding_state by blast
        moreover have "snapshot_create sha (tx_id t) (originals_of plan) None (ew_snap w1) = (Inr m, ew_snap w3)"
          using c m s23(2) by (auto simp: capture_durable_recovery_def map_err_Inr_iff on_snap_def split: prod.splits)
        ultimately show ?thesis using g p \<open>r1 = Inr plan\<close> s23(1) by blast
      qed
    qed
  qed
qed

text \<open>
  C2. A patch transaction under any interference. An error means that no file was changed at all.
  Otherwise every resource the transaction names, those in diff headers included, was allowed;
  every file was prepared before the first write; the original bytes of all of them were captured
  in one snapshot; and the run is exactly this. The committed files are a prefix of the plan in
  path order, each written once behind the guard that its bytes were still those it was prepared
  from, and reported with the states before and after. If the prefix is the whole plan, the
  status is committed and nothing is written after it. Otherwise the commit of the next file
  failed, before or after its own guarded write, and the committed files are undone, last first:
  each is left alone, and reported as a conflict or a failure, or its original bytes are written
  once behind a re-read that has the hash of the text the transaction wrote, and a file reported
  as restored was read again with its original bytes; nothing is written after that.
\<close>

theorem patch_safe:
  "case patch_as sha rfc p t w of
     (Inl e, w') \<Rightarrow> env_steps w w'
   | (Inr res, w') \<Rightarrow> (\<exists>rs gs plan m w1 w2 taken rest w3. patch_resources (tx_operations t) = Inr rs
       \<and> list_all (allowed rfc (ew_authz w) p ActPatch (Some (tx_id t))) rs \<and> validate_shape t = Inr ()
       \<and> group_operations 0 (tx_operations t) [] = Inr gs
       \<and> prepare_files sha t (sort_key fst gs) w = (Inr plan, w1) \<and> same_files w1 w2
       \<and> snapshot_create sha (tx_id t) (originals_of plan) None (ew_snap w1) = (Inr m, ew_snap w2)
       \<and> set (map pp_path plan) = set rs \<and> plan = taken @ rest \<and> pt_committed_paths res = map pp_path taken
       \<and> pt_steps res = map (step_done sha (tx_id t)) taken
       \<and> guarded_run sha taken w2 w3 \<and> commit_end sha res taken rest w3 w')"
proof -
  obtain r w' where run: "patch_as sha rfc p t w = (r, w')" by fastforce
  show ?thesis
  proof (cases "patch_resources (tx_operations t)")
    case (Inl e)
    with run have "r = Inl e" "w' = w" by (simp_all add: patch_as_def bindE_run)
    with run show ?thesis by simp
  next
    case (Inr rs)
    with run have "bindE (authorize_operation rfc p ActPatch rs (Some (tx_id t)))
        (\<lambda>_. patch_with_identity sha (Some p) t) w = (r, w')"
      by (simp add: patch_as_def bindE_lift)
    from as_cases [OF this] show ?thesis
    proof (elim disjE conjE)
      assume "\<exists>evs. w' = w\<lparr>ew_log := ew_log w @ evs\<rparr>" "\<exists>m d. r = Inl (AuthorizationDenied (tool_name ActPatch) m d)"
      then have "same_files w w'" "isl r" by (auto simp: same_files_def)
      with run show ?thesis by (cases r) (auto intro: same_files_env)
    next
      assume b: "patch_with_identity sha (Some p) t w = (r, w')"
        and al: "\<forall>res \<in> set rs. allowed rfc (ew_authz w) p ActPatch (Some (tx_id t)) res"
      from audited_state [OF b [unfolded patch_with_identity_def]] obtain w4 where
        w4: "patch_internal sha (Some p) t w = (r, w4)" "same_files w4 w'" by blast
      from patch_internal_cases [OF w4(1)] show ?thesis
      proof (elim disjE conjE exE)
        assume "isl r" "env_steps w w4"
        with w4(2) run show ?thesis using same_files_env env_steps_trans by (cases r) fastforce+
      next
        fix gs plan m w1 w2 w3
        assume cp: "commit_plan sha (Some p) t m plan w2 = (r, w3)" and s34: "same_files w3 w4"
          and h: "validate_shape t = Inr ()" "group_operations 0 (tx_operations t) [] = Inr gs"
            "prepare_files sha t (sort_key fst gs) w = (Inr plan, w1)"
            "snapshot_create sha (tx_id t) (originals_of plan) None (ew_snap w1) = (Inr m, ew_snap w2)" "same_files w1 w2"
        note plan = prepare_files_plan [OF h(3)] and groups = group_operations_paths [OF h(2)]
        have dist: "distinct (map pp_path plan)" using plan groups(2) by (simp add: distinct_map)
        from commit_plan_run [OF cp dist conjunct2 [OF plan]] obtain res taken rest w5 where c: "r = Inr res"
          "plan = taken @ rest" "pt_steps res = map (step_done sha (tx_id t)) taken"
          "pt_committed_paths res = map pp_path taken" "guarded_run sha taken w2 w5"
          "commit_end sha res taken rest w5 w3" by blast
        have "commit_end sha res taken rest w5 w'"
          using commit_end_after [OF c(6)] s34 w4(2) by (simp add: same_files_def)
        moreover have "list_all (allowed rfc (ew_authz w) p ActPatch (Some (tx_id t))) rs" using al by (simp add: list_all_iff)
        moreover have "set (map pp_path plan) = set rs"
        proof -
          have "set (map pp_path plan) = set (map fst gs)"
            by (simp only: conjunct1 [OF plan] set_map set_sort)
          with groups(1) Inr show ?thesis by simp
        qed
        ultimately show ?thesis using h c Inr run by (simp only: prod.case sum.case) blast
      qed
    qed
  qed
qed

lemma commit_plan_not_Inl: "commit_plan sha idn t m plan w = (Inl e, w') \<Longrightarrow> False"
  by (auto simp: commit_plan_def Let_def bindE_run attempt_run split: prod.splits option.splits)

text \<open>The plan of a transaction where no other actor changes the tree, and the commit of it.\<close>

lemma planned_files:
  assumes "prepare_files sha t gs w = (Inr plan, w')" and "steady w"
    and "list_all (plain_target (fw_tree w) (fw_root w)) (map fst gs)"
  shows "planned sha t (fw_tree w) (fw_root w) gs plan"
proof -
  have "list_all2 (\<lambda>g f. \<exists>b. fw_tree w (join (fw_root w) (fst g)) = Some (File b)
      \<and> prepare_content sha t (fst g) (snd g) b = Inr f \<and> pp_path f = fst g \<and> pp_original f = b) gs plan"
    using prepare_files_planned [OF assms(1)] prepare_files_originals [OF assms]
    unfolding list_all2_conv_all_nth list_all_length by (auto simp: case_prod_unfold)
  then show ?thesis by (simp add: planned_def case_prod_unfold)
qed

lemma failed_commit_same:
  assumes "fw_tree w2 = fw_tree w" and "fw_root w2 = fw_root w" and "fw_tree w' = fw_tree w3"
  shows "failed_commit sha res taken rest w2 w3 = failed_commit sha res taken rest w w'"
  unfolding failed_commit_def assms ..

lemma patch_internal_tree:
  assumes "patch_internal sha idn t w = (Inr res, w')" and "steady w" and "group_operations 0 (tx_operations t) [] = Inr gs"
    and "list_all (plain_target (fw_tree w) (fw_root w)) (map fst gs)"
  shows "\<exists>plan taken rest. planned sha t (fw_tree w) (fw_root w) (sort_key fst gs) plan \<and> set (map pp_path plan) = set (map fst gs)
    \<and> plan = taken @ rest \<and> pt_committed_paths res = map pp_path taken
    \<and> (if rest = [] then pt_status res = PatchCommitted
         \<and> fw_tree w' = put_files (fw_root w) (prepared_of plan) (fw_tree w)
       else failed_commit sha res taken rest w w')"
  using patch_internal_cases [OF assms(1)]
proof (elim disjE conjE exE)
  assume "isl (Inr res :: edit_error + patch_result)"
  then show ?thesis by simp
next
  fix gs' plan m w1 w2 w3
  assume cp: "commit_plan sha idn t m plan w2 = (Inr res, w3)" and s12: "same_files w1 w2" and s34: "same_files w3 w'"
    and g: "group_operations 0 (tx_operations t) [] = Inr gs'"
    and pr: "prepare_files sha t (sort_key fst gs') w = (Inr plan, w1)"
  from g assms(3) have gs: "gs' = gs" by simp
  have paths: "map pp_path plan = map fst (sort_key fst gs)" and ex: "list_all pp_existed plan"
    using prepare_files_plan [OF pr] gs by simp_all
  have dist: "distinct (map pp_path plan)"
    using group_operations_paths(2) [OF assms(3)] unfolding paths by (simp add: distinct_map)
  have rs: "set (map pp_path plan) = set (map fst gs)" unfolding paths by simp
  have s1: "stays w w1 (fw_tree w)" using env_stays [OF prepare_files_env [OF pr] assms(2)] .
  then have s2: "stays w w2 (fw_tree w)" using same_files_stays [OF s12] by (simp add: stays_def)
  then have eqs: "fw_root w2 = fw_root w" "fw_tree w2 = fw_tree w" "steady w2" by (simp_all add: stays_def)
  have pl: "list_all (\<lambda>f. plain_target (fw_tree w2) (fw_root w2) (pp_path f)) plan"
  proof -
    have "\<forall>q \<in> set (map pp_path plan). plain_target (fw_tree w) (fw_root w) q"
      unfolding rs using assms(4) by (simp only: list_all_iff)
    with eqs show ?thesis by (simp add: list_all_iff)
  qed
  have plg: "list_all (plain_target (fw_tree w) (fw_root w)) (map fst (sort_key fst gs))"
    using assms(4) by (simp add: list_all_iff)
  have orig: "list_all (\<lambda>f. fw_tree w2 (join (fw_root w2) (pp_path f)) = Some (File (pp_original f))) plan"
    using prepare_files_originals [OF pr assms(2)] plg eqs gs by simp
  from commit_plan_tree [OF cp eqs(3) dist ex pl orig] obtain taken rest where c: "plan = taken @ rest"
    "pt_committed_paths res = map pp_path taken"
    "if rest = [] then pt_status res = PatchCommitted
       \<and> fw_tree w3 = put_files (fw_root w2) (prepared_of plan) (fw_tree w2)
     else failed_commit sha res taken rest w2 w3" by auto
  have w3: "fw_tree w' = fw_tree w3" using s34 by (simp add: same_files_def)
  then have "if rest = [] then pt_status res = PatchCommitted
       \<and> fw_tree w' = put_files (fw_root w) (prepared_of plan) (fw_tree w)
     else failed_commit sha res taken rest w w'"
    using c(3) eqs failed_commit_same [OF eqs(2,1) w3] by (simp split: if_splits)
  with planned_files [OF pr assms(2)] plg gs rs c show ?thesis by blast
qed

text \<open>
  C3. A patch transaction is all or nothing where no other actor changes the tree, with system
  calls failing at any point, and where every path it names is plain: normal names below the
  root, directories that are no links, and a regular file or nothing at the end. An error leaves
  the tree as it was. Otherwise the plan is, for every file named, in path order, its operations
  applied to the content it has; a commit leaves exactly the prepared text in every file of the
  plan and nothing else changed; and a failed commit, restored or not, leaves at every path what
  was there, or the prepared text of a file that was committed or whose own commit failed. When
  it reports \<open>fully_restored\<close> the only such path is that of the file whose own commit failed,
  which the rollback does not look at.
\<close>

theorem patch_all_or_nothing:
  assumes "steady w" and "patch_resources (tx_operations t) = Inr rs"
    and "list_all (plain_target (fw_tree w) (fw_root w)) rs"
  shows "case patch_as sha rfc p t w of
     (Inl e, w') \<Rightarrow> fw_tree w' = fw_tree w
   | (Inr res, w') \<Rightarrow> (\<exists>gs plan taken rest. group_operations 0 (tx_operations t) [] = Inr gs
       \<and> planned sha t (fw_tree w) (fw_root w) (sort_key fst gs) plan \<and> set (map pp_path plan) = set rs
       \<and> plan = taken @ rest \<and> pt_committed_paths res = map pp_path taken
       \<and> (case rest of
           [] \<Rightarrow> pt_status res = PatchCommitted \<and> fw_tree w' = put_files (fw_root w) (prepared_of plan) (fw_tree w)
         | f # _ \<Rightarrow> (\<exists>restored. pt_status res = PatchCommitFailed restored
             \<and> half_done (fw_root w) taken f restored (fw_tree w) (fw_tree w'))))"
proof -
  obtain r w' where run: "patch_as sha rfc p t w = (r, w')" by fastforce
  from run assms(2) have "bindE (authorize_operation rfc p ActPatch rs (Some (tx_id t)))
      (\<lambda>_. patch_with_identity sha (Some p) t) w = (r, w')"
    by (simp add: patch_as_def bindE_lift)
  from as_cases [OF this] show ?thesis
  proof (elim disjE conjE)
    assume "\<exists>evs. w' = w\<lparr>ew_log := ew_log w @ evs\<rparr>" "\<exists>m d. r = Inl (AuthorizationDenied (tool_name ActPatch) m d)"
    with run show ?thesis by auto
  next
    assume b: "patch_with_identity sha (Some p) t w = (r, w')"
    from audited_state [OF b [unfolded patch_with_identity_def]] obtain w4 where
      w4: "patch_internal sha (Some p) t w = (r, w4)" and s: "same_files w4 w'" by blast
    then have tree: "fw_tree w' = fw_tree w4" by (simp add: same_files_def)
    show ?thesis
    proof (cases r)
      case (Inl e)
      with patch_internal_cases [OF w4] have e: "env_steps w w4" by (auto dest!: commit_plan_not_Inl)
      from env_stays [OF e assms(1)] run Inl tree show ?thesis by (simp add: stays_def)
    next
      case (Inr res)
      with patch_internal_cases [OF w4] obtain gs where g: "group_operations 0 (tx_operations t) [] = Inr gs" by auto
      have rs: "set (map fst gs) = set rs" using group_operations_paths(1) [OF g] assms(2) by simp
      then have "list_all (plain_target (fw_tree w) (fw_root w)) (map fst gs)" using assms(3) by (simp only: list_all_iff)
      from patch_internal_tree [OF w4 [unfolded Inr] assms(1) g this] obtain plan taken rest where p:
        "planned sha t (fw_tree w) (fw_root w) (sort_key fst gs) plan" "set (map pp_path plan) = set rs"
        "plan = taken @ rest" "pt_committed_paths res = map pp_path taken"
        "if rest = [] then pt_status res = PatchCommitted
           \<and> fw_tree w4 = put_files (fw_root w) (prepared_of plan) (fw_tree w)
         else failed_commit sha res taken rest w w4" unfolding rs by blast
      have "case rest of
           [] \<Rightarrow> pt_status res = PatchCommitted \<and> fw_tree w' = put_files (fw_root w) (prepared_of plan) (fw_tree w)
         | f # _ \<Rightarrow> (\<exists>restored. pt_status res = PatchCommitFailed restored
             \<and> half_done (fw_root w) taken f restored (fw_tree w) (fw_tree w'))"
        using p(5) tree by (auto simp: failed_commit_def split: list.splits)
      with g p show ?thesis unfolding run prod.case Inr sum.case by blast
    qed
  qed
qed

lemma run_success:
  "(case x of (Inl e, w) \<Rightarrow> False | (Inr r, w) \<Rightarrow> P r w) \<Longrightarrow> \<exists>r w. x = (Inr r, w) \<and> P r w"
  by (cases x) (auto split: sum.splits)

text \<open>A world with two files, and a transaction over both.\<close>

definition two_files :: "fs_event list \<Rightarrow> edit_world" where
  "two_files env = \<lparr>fw_root = [''ws''],
     fw_tree = [[''ws''] \<mapsto> Dir, [''ws'', ''a''] \<mapsto> File ''one'', [''ws'', ''b''] \<mapsto> File ''two''],
     fw_env = env, ew_locks = free_locks, ew_snap = sample_store, ew_log = [], ew_authz = sample_authz (Inr ''w'')\<rparr>"

definition two_replaces :: edit_transaction where
  "two_replaces = new_transaction ''e1'' [Replace ''b'' ''two'' ''2'' None, Replace ''a'' ''one'' ''1'' None]"

lemma two_files_plain:
  "plain_target (fw_tree (two_files env)) (fw_root (two_files env)) ''a''"
  "plain_target (fw_tree (two_files env)) (fw_root (two_files env)) ''b''"
proof -
  let ?t = "fw_tree (two_files env)"
  have d: "dir_path ?t [''ws'']"
    using dir_path_snoc [of ?t "[]" "''ws''"] by (simp add: two_files_def normal_name_def is_special_def)
  have j: "join [''ws''] ''a'' = [''ws''] @ [''a'']" "join [''ws''] ''b'' = [''ws''] @ [''b'']"
    by (simp_all add: join_def target_components_def)
  have "plain_file ?t ([''ws''] @ [''a''])" "plain_file ?t ([''ws''] @ [''b''])"
    unfolding plain_snoc using d by (simp_all add: two_files_def normal_name_def is_special_def)
  with d j show "plain_target ?t (fw_root (two_files env)) ''a''" "plain_target ?t (fw_root (two_files env)) ''b''"
    by (simp_all add: plain_target_def two_files_def)
qed

text \<open>The two files hold the new texts after a run without faults.\<close>

theorem patch_all_or_nothing_witness:
  "case patch_as sample_sha (\<lambda>_. None) (operator_principal ''w'') two_replaces (two_files []) of
     (Inl e, w') \<Rightarrow> False
   | (Inr res, w') \<Rightarrow> pt_status res = PatchCommitted \<and> pt_committed_paths res = [''a'', ''b'']
       \<and> (\<exists>plan. map pp_path plan = [''a'', ''b'']
         \<and> fw_tree w' = put_files [''ws''] (prepared_of plan) (fw_tree (two_files [])))"
proof -
  have "steady (two_files [])" by (simp add: steady_def two_files_def)
  moreover have "patch_resources (tx_operations two_replaces) = Inr [''b'', ''a'']"
    by (simp add: two_replaces_def new_transaction_def)
  moreover have "list_all (plain_target (fw_tree (two_files [])) (fw_root (two_files []))) [''b'', ''a'']"
    using two_files_plain by simp
  ultimately have p: "case patch_as sample_sha (\<lambda>_. None) (operator_principal ''w'') two_replaces (two_files []) of
     (Inl e, w') \<Rightarrow> fw_tree w' = fw_tree (two_files [])
   | (Inr res, w') \<Rightarrow> (\<exists>gs plan taken rest. group_operations 0 (tx_operations two_replaces) [] = Inr gs
       \<and> planned sample_sha two_replaces (fw_tree (two_files [])) (fw_root (two_files [])) (sort_key fst gs) plan
       \<and> set (map pp_path plan) = set [''b'', ''a'']
       \<and> plan = taken @ rest \<and> pt_committed_paths res = map pp_path taken
       \<and> (case rest of
           [] \<Rightarrow> pt_status res = PatchCommitted
             \<and> fw_tree w' = put_files (fw_root (two_files [])) (prepared_of plan) (fw_tree (two_files []))
         | f # _ \<Rightarrow> (\<exists>restored. pt_status res = PatchCommitFailed restored
             \<and> half_done (fw_root (two_files [])) taken f restored (fw_tree (two_files [])) (fw_tree w'))))"
    by (rule patch_all_or_nothing)
  have "case patch_as sample_sha (\<lambda>_. None) (operator_principal ''w'') two_replaces (two_files []) of
     (Inl e, w') \<Rightarrow> False
   | (Inr res, w') \<Rightarrow> (case pt_status res of PatchCommitted \<Rightarrow> True | _ \<Rightarrow> False)
       \<and> pt_committed_paths res = [''a'', ''b'']"
    by code_simp
  from run_success [OF this] obtain res w' where run: "patch_as sample_sha (\<lambda>_. None)
      (operator_principal ''w'') two_replaces (two_files []) = (Inr res, w')"
    and c: "case pt_status res of PatchCommitted \<Rightarrow> True | _ \<Rightarrow> False" and cp: "pt_committed_paths res = [''a'', ''b'']"
    by blast
  have st: "pt_status res = PatchCommitted" using c by (cases "pt_status res") simp_all
  have root: "fw_root (two_files []) = [''ws'']" by (simp add: two_files_def)
  from p [unfolded run prod.case sum.case root] show ?thesis
  proof (elim exE conjE)
    fix plan taken rest
    assume plan: "plan = taken @ rest" "pt_committed_paths res = map pp_path taken"
      and c: "case rest of [] \<Rightarrow> pt_status res = PatchCommitted
        \<and> fw_tree w' = put_files [''ws''] (prepared_of plan) (fw_tree (two_files []))
      | f # _ \<Rightarrow> (\<exists>restored. pt_status res = PatchCommitFailed restored
        \<and> half_done [''ws''] taken f restored (fw_tree (two_files [])) (fw_tree w'))"
    from c st have "rest = []" by (cases rest) simp_all
    with plan c st cp show ?thesis unfolding run prod.case sum.case by auto
  qed
qed

text \<open>
  A run in which the read after the write of the second file fails: the first file is restored,
  the second keeps the new text, the result says \<open>fully_restored\<close>, and the audit event says the
  operation succeeded.
\<close>

lemma failed_commit_run:
  "case edit_patch sample_sha two_replaces (two_files (replicate 7 Quiet @ [Fault ''eio'' OtherIo])) of
     (Inl e, w') \<Rightarrow> False
   | (Inr res, w') \<Rightarrow> pt_status res = PatchCommitFailed True \<and> pt_committed_paths res = [''a'']
       \<and> fw_tree w' [''ws'', ''a''] = Some (File ''one'') \<and> fw_tree w' [''ws'', ''b''] = Some (File ''2'')
       \<and> map ev_kind (ew_log w') = [''allow'']"
  by code_simp

text \<open>
  C5. Where no other actor changes the tree and the paths named are plain, every patch whose
  status is not committed failed in the commit of one file of the plan, with that error as its
  failure, and its rollback covers the files committed before and not that one. So a file that
  the failed commit had written keeps the new text, and the result still says
  \<open>fully_restored\<close> exactly when the files committed before were restored; and the last audit
  event is of kind allow, as for a success.
\<close>

theorem failed_commit_reported_restored:
  assumes "steady w" and "group_operations 0 (tx_operations t) [] = Inr gs"
    and "list_all (plain_target (fw_tree w) (fw_root w)) (map fst gs)"
    and "patch_with_identity sha idn t w = (Inr res, w')" and "pt_status res \<noteq> PatchCommitted"
  shows "\<exists>plan taken f rest e w1 w2 rb. planned sha t (fw_tree w) (fw_root w) (sort_key fst gs) plan
     \<and> plan = taken @ f # rest \<and> pt_committed_paths res = map pp_path taken
     \<and> fw_tree w1 = put_files (fw_root w) (prepared_of taken) (fw_tree w)
     \<and> commit_verified_locked sha (pp_path f) (pp_prepared f) (pp_before f) w1 = (Inl e, w2)
     \<and> map_option pe_reason (pt_failure res) = Some (edit_error_msg e)
     \<and> (wrote sha f w1 \<longrightarrow> fw_tree w' (join (fw_root w) (pp_path f)) = Some (File (pp_prepared f)))
     \<and> pt_rollback res = Some rb \<and> map fst (rb_outcomes rb) = rev (map pp_path taken)
     \<and> pt_status res = PatchCommitFailed (list_all (\<lambda>(_, out). clean_outcome out) (rb_outcomes rb))
     \<and> ev_kind (last (ew_log w')) = ''allow''"
proof -
  from audited_state [OF assms(4) [unfolded patch_with_identity_def]] obtain w4 where
    w4: "patch_internal sha idn t w = (Inr res, w4)" and s: "same_files w4 w'" by blast
  have log: "ev_kind (last (ew_log w')) = ''allow''"
    using assms(4) by (auto simp: patch_with_identity_def audited_def audit_edit_outcome_def err_of_def
        log_outcome_def record_outcome_def split: prod.splits)
  have tree: "fw_tree w' = fw_tree w4" using s by (simp add: same_files_def)
  from patch_internal_tree [OF w4 assms(1-3)] assms(5) obtain plan taken rest where
    "planned sha t (fw_tree w) (fw_root w) (sort_key fst gs) plan" "plan = taken @ rest"
    "pt_committed_paths res = map pp_path taken" "failed_commit sha res taken rest w w4"
    by (auto split: if_splits)
  with log tree show ?thesis unfolding failed_commit_def by fastforce
qed

theorem failed_commit_reported_restored_witness:
  "\<exists>res w' rb. edit_patch sample_sha two_replaces (two_files (replicate 7 Quiet @ [Fault ''eio'' OtherIo])) = (Inr res, w')
     \<and> pt_status res = PatchCommitFailed True \<and> pt_rollback res = Some rb \<and> map fst (rb_outcomes rb) = [''a'']
     \<and> fw_tree w' [''ws'', ''a''] = Some (File ''one'') \<and> fw_tree w' [''ws'', ''b''] = Some (File ''2'')"
proof -
  let ?w = "two_files (replicate 7 Quiet @ [Fault ''eio'' OtherIo])"
  from run_success [OF failed_commit_run] obtain res w' where run: "edit_patch sample_sha two_replaces ?w = (Inr res, w')"
    and st: "pt_status res = PatchCommitFailed True" "pt_committed_paths res = [''a'']"
    and tr: "fw_tree w' [''ws'', ''a''] = Some (File ''one'')" "fw_tree w' [''ws'', ''b''] = Some (File ''2'')" by blast
  have g: "group_operations 0 (tx_operations two_replaces) []
      = Inr [(''b'', [(0, Replace ''b'' ''two'' ''2'' None)]), (''a'', [(1, Replace ''a'' ''one'' ''1'' None)])]"
    by (simp add: two_replaces_def new_transaction_def Let_def)
  have p: "list_all (plain_target (fw_tree ?w) (fw_root ?w))
      (map fst [(''b'', [(0, Replace ''b'' ''two'' ''2'' None)]), (''a'', [(1, Replace ''a'' ''one'' ''1'' None)])])"
    using two_files_plain by simp
  have s: "steady ?w" by (simp add: steady_def two_files_def list_all_iff)
  have ne: "pt_status res \<noteq> PatchCommitted" using st(1) by simp
  from failed_commit_reported_restored [OF s g p run [unfolded edit_patch_def] ne] show ?thesis
  proof (elim exE conjE)
    fix taken rb
    assume "pt_committed_paths res = map pp_path taken" "pt_rollback res = Some rb"
      "map fst (rb_outcomes rb) = rev (map pp_path taken)"
    with run st tr show ?thesis by auto
  qed
qed

end
