(* ===== verification/Rollback.thy ===== *)
theory Rollback
  imports PatchSafety
begin

text \<open>
  Explicit rollback of a completed edit (\<open>rollback_edit\<close>, \<open>rollback_edits\<close> and their
  helpers in \<open>services/edit.rs\<close>): the recovery records are rebuilt from the provenance record
  and the verified snapshot, every target is authorized and compared with the state the edit
  produced, and only then are the original bytes written back. The lemmas show that nothing is
  written on any other path.
\<close>

section \<open>Records and outcomes\<close>

record rollback_record =
  rr_edit_id :: string
  rr_path :: string
  rr_existed_before :: bool
  rr_before_bytes :: string
  rr_after_hash :: string

datatype edit_rollback_status =
  ErRestored | ErAlreadyRolledBack | ErConflict msg | ErFailed msg

definition is_safe_edit_id :: "string \<Rightarrow> bool" where
  "is_safe_edit_id i \<longleftrightarrow> i \<noteq> [] \<and> length i \<le> 128 \<and> \<not> contains i ''/'' \<and> \<not> contains i [CHR 0x5C]
     \<and> \<not> contains i ''..'' \<and> list_all (\<lambda>c. \<not> (byte c < 32 \<or> byte c = 127)) i"

fun read_error_of :: "edit_error \<Rightarrow> edit_error" where
  "read_error_of (WriteFailure p m) = ReadFailure ''recovery material'' m"
| "read_error_of e = e"

definition snapshot_error_to_read_error :: "string \<Rightarrow> snapshot_error \<Rightarrow> edit_error" where
  "snapshot_error_to_read_error i e = read_error_of (snapshot_error_to_edit_error i e)"

definition map_inl :: "('e \<Rightarrow> 'f) \<Rightarrow> 'e + 'a \<Rightarrow> 'f + 'a" where
  "map_inl g r = (case r of Inl e \<Rightarrow> Inl (g e) | Inr x \<Rightarrow> Inr x)"

section \<open>Recovery material\<close>

definition prep_failure :: "string \<Rightarrow> string option \<Rightarrow> msg \<Rightarrow> edit_error" where
  "prep_failure i p m = PatchPreparationFailure i p m"

text \<open>The record of one path of the provenance.\<close>

definition recovery_record ::
    "sha \<Rightarrow> string \<Rightarrow> provenance_record \<Rightarrow> file_snapshot \<Rightarrow> snapshot_store \<Rightarrow> string \<Rightarrow> edit_error + rollback_record" where
  "recovery_record sha edit_id prov manifest s path =
     bindR (validate_path path) (\<lambda>_.
     case map_of (pv_hash_edges prov) path of
       None \<Rightarrow> Inl (prep_failure edit_id (Some path) (Txt ''no produced-state hash recorded for this path''))
     | Some after_hash \<Rightarrow>
         if after_hash = [] then
           Inl (prep_failure edit_id (Some path) (Txt ''recorded produced-state hash is empty; refusing restoration''))
         else (case find (\<lambda>e. fe_path e = path) (sp_entries manifest) of
             Some e \<Rightarrow> bindR (map_inl (snapshot_error_to_edit_error edit_id) (entry_bytes sha manifest (fe_entry_id e) s))
               (\<lambda>bytes. Inr \<lparr>rr_edit_id = edit_id, rr_path = path, rr_existed_before = True,
                  rr_before_bytes = bytes, rr_after_hash = after_hash\<rparr>)
           | None \<Rightarrow> Inr \<lparr>rr_edit_id = edit_id, rr_path = path, rr_existed_before = False,
                  rr_before_bytes = [], rr_after_hash = after_hash\<rparr>))"

definition resolve_recovery_records :: "sha \<Rightarrow> string \<Rightarrow> edit_world \<Rightarrow> edit_error + rollback_record list" where
  "resolve_recovery_records sha edit_id w = (let s = ew_snap w in
     if \<not> is_safe_edit_id edit_id then Inl (PatchValidationFailure edit_id None (Txt ''malformed edit id''))
     else bindR (map_inl (snapshot_error_to_read_error edit_id) (read_provenance edit_id s)) (\<lambda>prov.
     if pv_edit_id prov \<noteq> edit_id then
       Inl (prep_failure edit_id None (Txt ''provenance is bound to a different edit''))
     else bindR (case pv_workspace_id prov of
         None \<Rightarrow> Inr ()
       | Some recorded \<Rightarrow> (case az_manifest (ew_authz w) of
           Inl e \<Rightarrow> Inl (ReadFailure ''workspace manifest'' (anyhow_msg e))
         | Inr ws \<Rightarrow> if recorded \<noteq> ws
             then Inl (prep_failure edit_id None (Txt ''recovery material is bound to a different workspace''))
             else Inr ())) (\<lambda>_.
     bindR (map_inl (snapshot_error_to_read_error edit_id) (snapshot_load sha (pv_snapshot_id prov) s)) (\<lambda>manifest.
     if sp_edit_id manifest \<noteq> edit_id then
       Inl (prep_failure edit_id None (Fmt ''snapshot {} belongs to edit {}, not this one''
         [Txt (sp_id manifest), Txt (sp_edit_id manifest)]))
     else bindR (each (\<lambda>e. if \<not> List.member (pv_paths prov) (fe_path e)
           then Inl (prep_failure edit_id (Some (fe_path e))
             (Txt ''snapshot entry is not covered by the provenance path set'')) else Inr ())
         (sp_entries manifest)) (\<lambda>_.
     if pv_paths prov = [] then Inl (prep_failure edit_id None (Txt ''edit has no affected resources''))
     else collectR (recovery_record sha edit_id prov manifest s) (pv_paths prov))))))"

section \<open>Restoration of records\<close>

definition mismatch_msg :: "rollback_record \<Rightarrow> msg \<Rightarrow> msg" where
  "mismatch_msg r observed =
     Fmt ''rollback target '{}' no longer matches the edit's produced state (expected {}, observed {})''
       [Txt (rr_path r), Txt (rr_after_hash r), observed]"

fun check_targets :: "sha \<Rightarrow> rollback_record list \<Rightarrow> edit_world \<Rightarrow> edit_rollback_status option \<times> edit_world" where
  "check_targets sha [] w = (None, w)"
| "check_targets sha (r # rs) w = (case read_bytes (rr_path r) w of
      (Inl _, w1) \<Rightarrow>
        (Some (ErConflict (Fmt ''rollback target '{}' disappeared; refusing to roll back'' [Txt (rr_path r)])), w1)
    | (Inr bytes, w1) \<Rightarrow>
        if sha256_hex sha bytes \<noteq> rr_after_hash r
        then (Some (ErConflict (mismatch_msg r (Txt (sha256_hex sha bytes)))), w1)
        else check_targets sha rs w1)"

fun restore_targets :: "rollback_record list \<Rightarrow> edit_rollback_status edit_op" where
  "restore_targets [] = ret ErRestored"
| "restore_targets (r # rs) =
     (if \<not> rr_existed_before r then
        bindE (attempt (delete_locked (rr_path r))) (\<lambda>d. case d of
          Inl e \<Rightarrow> ret (ErFailed (Fmt ''failed to delete edit-created file '{}': {}'' [Txt (rr_path r), anyhow_msg e]))
        | Inr _ \<Rightarrow> bindE (attempt (read_bytes (rr_path r))) (\<lambda>b.
            if \<not> isl b then ret (ErFailed (Fmt ''rollback target '{}' still exists after deletion'' [Txt (rr_path r)]))
            else restore_targets rs))
      else (case from_utf8 (rr_before_bytes r) of
          None \<Rightarrow> fail (InvalidUtf8 (rr_path r))
        | Some before_text \<Rightarrow> bindE (attempt (write_atomic_locked (rr_path r) before_text)) (\<lambda>d. case d of
            Inl e \<Rightarrow> ret (ErFailed (Fmt ''failed to restore original bytes of '{}': {}'' [Txt (rr_path r), anyhow_msg e]))
          | Inr _ \<Rightarrow> bindE (map_err (\<lambda>e. ReadFailure (rr_path r) (anyhow_msg e)) (read_bytes (rr_path r))) (\<lambda>observed.
              if observed \<noteq> rr_before_bytes r
              then ret (ErFailed (Fmt ''restoration of '{}' did not verify: observed bytes differ from the recovery material''
                [Txt (rr_path r)]))
              else restore_targets rs))))"

definition restore_checked :: "sha \<Rightarrow> rollback_record list \<Rightarrow> edit_rollback_status edit_op" where
  "restore_checked sha records w = (case check_targets sha records w of
      (Some conflict, w1) \<Rightarrow> (Inr conflict, w1)
    | (None, w1) \<Rightarrow> restore_targets (rev records) w1)"

definition rollback_edits_inner :: "sha \<Rightarrow> rollback_record list \<Rightarrow> edit_rollback_status edit_op" where
  "rollback_edits_inner sha records =
     (if records = [] then ret ErRestored
      else bindE (coordinate sha (map rr_path records)) (\<lambda>held. holding held (restore_checked sha records)))"

section \<open>Audit and provenance of the outcome\<close>

text \<open>Kind, reason code and detail; the two entry points word a full restoration differently.\<close>

fun rollback_outcome_parts :: "msg \<Rightarrow> edit_rollback_status \<Rightarrow> string \<times> string option \<times> msg" where
  "rollback_outcome_parts done ErRestored = (''allow'', None, done)"
| "rollback_outcome_parts done ErAlreadyRolledBack =
     (''allow'', Some ''already_rolled_back'', Txt ''all targets already at pre-edit state'')"
| "rollback_outcome_parts done (ErConflict m) = (''conflict'', Some ''rollback_conflict'', m)"
| "rollback_outcome_parts done (ErFailed m) = (''failure'', Some ''rollback_failed'', m)"

definition joined_paths :: "string list \<Rightarrow> string" where
  "joined_paths ps = (case ps of [] \<Rightarrow> [] | p # qs \<Rightarrow> p @ concat (map (\<lambda>q. ''; '' @ q) qs))"

definition rollback_edits_with_identity ::
    "sha \<Rightarrow> rollback_record list \<Rightarrow> principal option \<Rightarrow> edit_rollback_status edit_op" where
  "rollback_edits_with_identity sha records identity w =
     (if records = [] then (Inr ErRestored, w)
      else (case rollback_edits_inner sha records w of (result, w') \<Rightarrow>
        (let (kind, reason, detail) = (case result of
               Inr st \<Rightarrow> rollback_outcome_parts (Txt ''rollback restored and verified'') st
             | Inl e \<Rightarrow> (case edit_outcome e of (k, code) \<Rightarrow> (k, Some code, edit_error_msg e)))
         in (result, log_outcome kind ''filesystem.rollback'' (joined_paths (map rr_path records)) detail
              (identity_correlation (rr_edit_id (hd records)) reason identity) w'))))"

definition rollback_edits :: "sha \<Rightarrow> rollback_record list \<Rightarrow> edit_rollback_status edit_op" where
  "rollback_edits sha records = rollback_edits_with_identity sha records None"

definition rollback_edits_as :: "sha \<Rightarrow> rfc \<Rightarrow> principal \<Rightarrow> rollback_record list \<Rightarrow> edit_rollback_status edit_op" where
  "rollback_edits_as sha rfc p records =
     bindE (authorize_operation rfc p ActRollback (map rr_path records)
       (case records of [] \<Rightarrow> None | r # _ \<Rightarrow> Some (rr_edit_id r))) (\<lambda>_.
     rollback_edits_with_identity sha records (Some p))"

fun outcome_label :: "edit_rollback_status \<Rightarrow> string" where
  "outcome_label ErRestored = ''restored''"
| "outcome_label ErAlreadyRolledBack = ''already-rolled-back''"
| "outcome_label (ErConflict _) = ''conflict''"
| "outcome_label (ErFailed _) = ''failed''"

definition correlate_rollback_outcome :: "string \<Rightarrow> edit_rollback_status \<Rightarrow> edit_world \<Rightarrow> edit_world" where
  "correlate_rollback_outcome edit_id st w = (case read_provenance edit_id (ew_snap w) of
      Inl _ \<Rightarrow> w
    | Inr prov \<Rightarrow> snd (on_snap (record_provenance
        (prov\<lparr>pv_outcome := PRolledBack (Some (outcome_label st))\<rparr>)) w))"

definition record_rollback_audit :: "string \<Rightarrow> edit_rollback_status \<Rightarrow> principal option \<Rightarrow> edit_world \<Rightarrow> edit_world" where
  "record_rollback_audit edit_id st identity w =
     (let (kind, reason, detail) = rollback_outcome_parts (Txt ''all pending targets restored and verified'') st
      in log_outcome kind ''filesystem.rollback'' edit_id detail (identity_correlation edit_id reason identity) w)"

definition settle_outcome ::
    "string \<Rightarrow> edit_rollback_status \<Rightarrow> principal \<Rightarrow> edit_world \<Rightarrow> (edit_error + edit_rollback_status) \<times> edit_world" where
  "settle_outcome edit_id st p w =
     (Inr st, record_rollback_audit edit_id st (Some p) (correlate_rollback_outcome edit_id st w))"

section \<open>Rollback by edit id\<close>

text \<open>
  The triage reads every target: still the produced state (pending), already at the pre-edit
  state (skipped), or anything else (conflict).
\<close>

fun triage :: "sha \<Rightarrow> rollback_record list \<Rightarrow> edit_world
    \<Rightarrow> (edit_rollback_status + rollback_record list) \<times> edit_world" where
  "triage sha [] w = (Inr [], w)"
| "triage sha (r # rs) w = (case read_bytes (rr_path r) w of (current, w1) \<Rightarrow>
     (let present = \<not> isl current;
          current_hash = (case current of Inr b \<Rightarrow> sha256_hex sha b | Inl _ \<Rightarrow> [])
      in if current_hash = rr_after_hash r then (case triage sha rs w1 of
             (Inr pending, w2) \<Rightarrow> (Inr (r # pending), w2)
           | (Inl c, w2) \<Rightarrow> (Inl c, w2))
         else if (if rr_existed_before r
                  then present \<and> current_hash = sha256_hex sha (rr_before_bytes r) else \<not> present)
         then triage sha rs w1
         else (Inl (ErConflict (mismatch_msg r (Txt (if present then current_hash else ''absent'')))), w1)))"

definition rollback_edit :: "sha \<Rightarrow> rfc \<Rightarrow> principal \<Rightarrow> string \<Rightarrow> edit_rollback_status edit_op" where
  "rollback_edit sha rfc p edit_id =
     bindE (\<lambda>w. (resolve_recovery_records sha edit_id w, w)) (\<lambda>records.
     bindE (authorize_operation rfc p ActRollback (map rr_path records) (Some edit_id)) (\<lambda>_ w.
     case triage sha records w of
       (Inl conflict, w1) \<Rightarrow> settle_outcome edit_id conflict p w1
     | (Inr pending, w1) \<Rightarrow>
         if pending = [] then settle_outcome edit_id ErAlreadyRolledBack p w1
         else bindE (rollback_edits_with_identity sha pending (Some p)) (\<lambda>outcome.
           settle_outcome edit_id outcome p) w1))"

section \<open>Capture of records by a caller\<close>

fun capture_rollback_records :: "string \<Rightarrow> string list \<Rightarrow> rollback_record list edit_op" where
  "capture_rollback_records edit_id [] = ret []"
| "capture_rollback_records edit_id (path # ps) =
     bindE (attempt (read_bytes path)) (\<lambda>probe.
     bindE (if isl probe then ret [] else map_err (\<lambda>e. ReadFailure path (anyhow_msg e)) (read_bytes path)) (\<lambda>bytes.
     bindE (capture_rollback_records edit_id ps) (\<lambda>rest.
     ret (\<lparr>rr_edit_id = edit_id, rr_path = path, rr_existed_before = \<not> isl probe, rr_before_bytes = bytes,
       rr_after_hash = []\<rparr> # rest))))"

end
