(* ===== verification/RollbackSafety.thy ===== *)
theory RollbackSafety
  imports Rollback
begin

text \<open>
  What a rollback can do to the files under any interference, and the round trip: a committed
  patch followed by its rollback gives the tree before the patch.
\<close>

section \<open>Under any interference\<close>

text \<open>Every target was read and had the digest the edit produced, one after the other.\<close>

fun targets_match :: "sha \<Rightarrow> rollback_record list \<Rightarrow> edit_world \<Rightarrow> edit_world \<Rightarrow> bool" where
  "targets_match sha [] w w' \<longleftrightarrow> w' = w"
| "targets_match sha (r # rs) w w' \<longleftrightarrow> (\<exists>b w1. read_bytes (rr_path r) w = (Inr b, w1)
     \<and> sha256_hex sha b = rr_after_hash r \<and> targets_match sha rs w1 w')"

lemma check_targets_env: "check_targets sha rs w = (r, w') \<Longrightarrow> env_steps w w'"
proof (induction rs arbitrary: w r w')
  case (Cons x rs)
  obtain r1 w1 where b: "read_bytes (rr_path x) w = (r1, w1)" by fastforce
  with Cons env_steps_read(1) [OF b] env_steps_trans [of w w1] show ?case
    by (cases r1) (auto split: if_splits)
qed simp

lemma check_targets_None: "check_targets sha rs w = (None, w') \<Longrightarrow> targets_match sha rs w w'"
  by (induction rs arbitrary: w) (auto split: prod.splits sum.splits if_splits)

lemma check_targets_conflict: "check_targets sha rs w = (Some st, w') \<Longrightarrow> \<exists>m. st = ErConflict m"
  by (induction rs arbitrary: w) (auto split: prod.splits sum.splits if_splits)

lemma restore_targets_status: "restore_targets rs w = (Inr st, w') \<Longrightarrow> st = ErRestored \<or> (\<exists>m. st = ErFailed m)"
proof (induction rs arbitrary: w)
  case (Cons x rs)
  then show ?case
    by (auto simp: bindE_run attempt_run map_err_run split: if_splits option.splits prod.splits sum.splits)
qed simp

lemma triage_env: "triage sha rs w = (r, w') \<Longrightarrow> env_steps w w'"
proof (induction rs arbitrary: w r w')
  case (Cons x rs)
  obtain r1 w1 where b: "read_bytes (rr_path x) w = (r1, w1)" by fastforce
  from Cons.prems b have "w' = w1 \<or> (\<exists>r2. triage sha rs w1 = (r2, w'))"
    by (auto simp: Let_def split: if_splits prod.splits sum.splits)
  with Cons.IH env_steps_read(1) [OF b] env_steps_trans [of w w1] show ?case by blast
qed simp

lemma triage_pending: "triage sha rs w = (Inr pending, w') \<Longrightarrow> subseq pending rs"
proof (induction rs arbitrary: w pending)
  case (Cons x rs)
  then show ?case by (auto simp: Let_def split: prod.splits if_splits sum.splits)
qed simp

lemma triage_conflict: "triage sha rs w = (Inl st, w') \<Longrightarrow> \<exists>m. st = ErConflict m"
  by (induction rs arbitrary: w) (auto simp: Let_def split: prod.splits if_splits sum.splits)

lemma correlate_same: "same_files w (correlate_rollback_outcome i st w)"
  unfolding correlate_rollback_outcome_def
  by (auto split: sum.splits) (metis on_snap_same prod.collapse)

lemma settle_outcome_run:
  assumes "settle_outcome i st p w = (r, w')" shows "r = Inr st \<and> same_files w w'"
proof -
  have "same_files u (record_rollback_audit i st idn u)" for u idn
    by (cases st) (auto simp: record_rollback_audit_def log_outcome_def same_files_def)
  with assms correlate_same [of w i st] show ?thesis
    unfolding settle_outcome_def same_files_def by auto
qed

lemma restore_checked_cases:
  assumes "restore_checked sha rs w = (r, w')"
  shows "(env_steps w w' \<and> (\<exists>m. r = Inr (ErConflict m)))
    \<or> (\<exists>w1. targets_match sha rs w w1 \<and> restore_targets (rev rs) w1 = (r, w'))"
proof (cases "check_targets sha rs w")
  case (Pair c w1)
  with assms check_targets_env [OF Pair] check_targets_None check_targets_conflict show ?thesis
    by (cases c) (auto simp: restore_checked_def)
qed

lemma rollback_edits_cases:
  assumes "rollback_edits_with_identity sha rs idn w = (r, w')" and "rs \<noteq> []"
  shows "(env_steps w w' \<and> ((\<exists>m. r = Inr (ErConflict m)) \<or> (\<exists>m. r = Inl (WriteFailure [] m))))
    \<or> (\<exists>w1 w2 w3. same_files w w1 \<and> targets_match sha rs w1 w2 \<and> restore_targets (rev rs) w2 = (r, w3)
        \<and> same_files w3 w')"
proof -
  obtain r0 w0 where i: "rollback_edits_inner sha rs w = (r0, w0)" by fastforce
  with assms have r: "r = r0" and w0: "same_files w0 w'"
    by (auto simp: rollback_edits_with_identity_def Let_def log_outcome_def same_files_def split: prod.splits)
  obtain rc wc where c: "coordinate sha (map rr_path rs) w = (rc, wc)" by fastforce
  note sc = conjunct1 [OF coordinate_same [OF c]]
  show ?thesis
  proof (cases rc)
    case (Inl e)
    with c obtain m where "e = WriteFailure [] m"
      by (auto simp: coordinate_def edit_coordination_error_def split: prod.splits sum.splits)
    moreover have "r0 = Inl e" "w0 = wc" using Inl i assms(2) c by (simp_all add: rollback_edits_inner_def bindE_run)
    ultimately show ?thesis using r sc w0 same_files_env env_steps_trans by metis
  next
    case (Inr held)
    with i assms(2) c have "holding held (restore_checked sha rs) wc = (r0, w0)"
      by (simp add: rollback_edits_inner_def bindE_run)
    then obtain w4 where rc4: "restore_checked sha rs wc = (r0, w4)" and s4: "same_files w4 w0"
      using holding_state by blast
    have s: "same_files w4 w'" using s4 w0 by (simp add: same_files_def)
    from restore_checked_cases [OF rc4] show ?thesis
    proof
      assume "env_steps wc w4 \<and> (\<exists>m. r0 = Inr (ErConflict m))"
      with r s sc same_files_env env_steps_trans show ?thesis by metis
    qed (use r s sc in blast)
  qed
qed

text \<open>
  C4. A rollback never overwrites what it does not recognise, under any interference. Either no
  file changed, or: the recovery records came out of verified snapshot and provenance data bound
  to this edit, every target of the edit was allowed to the caller under the rollback action, and
  the restoration began after every pending target was read and had the digest the edit produced.
  A conflict, an "already rolled back" and a denial change no file.
\<close>

theorem rollback_safe:
  "case rollback_edit sha rfc p i w of (r, w') \<Rightarrow>
     (env_steps w w' \<and> r \<noteq> Inr ErRestored) \<or>
     (\<exists>records pending w1 w2 w3. resolve_recovery_records sha i w = Inr records
        \<and> list_all (allowed rfc (ew_authz w) p ActRollback (Some i)) (map rr_path records)
        \<and> subseq pending records \<and> pending \<noteq> [] \<and> env_steps w w1 \<and> targets_match sha pending w1 w2
        \<and> restore_targets (rev pending) w2 = (r, w3) \<and> same_files w3 w'
        \<and> (\<forall>m. r \<noteq> Inr (ErConflict m)) \<and> r \<noteq> Inr ErAlreadyRolledBack)"
proof -
  obtain r w' where run: "rollback_edit sha rfc p i w = (r, w')" by fastforce
  have unchanged: ?thesis if "env_steps w u" "same_files u w'" "r \<noteq> Inr ErRestored" for u
    using env_steps_trans [OF that(1) same_files_env [OF that(2)]] that(3) run by simp
  show ?thesis
  proof (cases "resolve_recovery_records sha i w")
    case (Inl e)
    with run have "r = Inl e" "w' = w" by (simp_all add: rollback_edit_def bindE_run)
    with run show ?thesis by simp
  next
    case (Inr records)
    let ?body = "\<lambda>w. case triage sha records w of
       (Inl conflict, w1) \<Rightarrow> settle_outcome i conflict p w1
     | (Inr pending, w1) \<Rightarrow>
         if pending = [] then settle_outcome i ErAlreadyRolledBack p w1
         else bindE (rollback_edits_with_identity sha pending (Some p)) (\<lambda>outcome. settle_outcome i outcome p) w1"
    from run Inr have b: "bindE (authorize_operation rfc p ActRollback (map rr_path records) (Some i)) (\<lambda>_. ?body) w = (r, w')"
      by (simp add: rollback_edit_def bindE_run)
    from as_cases [OF b] show ?thesis
    proof (elim disjE conjE)
      assume "\<exists>evs. w' = w\<lparr>ew_log := ew_log w @ evs\<rparr>" and d: "\<exists>m d. r = Inl (AuthorizationDenied (tool_name ActRollback) m d)"
      then have "same_files w w'" by (auto simp: same_files_def)
      with run d show ?thesis by (auto intro: same_files_env)
    next
      assume bd: "?body w = (r, w')"
        and al: "\<forall>res \<in> set (map rr_path records). allowed rfc (ew_authz w) p ActRollback (Some i) res"
      obtain q w1 where t: "triage sha records w = (q, w1)" by fastforce
      note env = triage_env [OF t]
      show ?thesis
      proof (cases q)
        case (Inl c)
        with bd t have "settle_outcome i c p w1 = (r, w')" by simp
        with settle_outcome_run triage_conflict [OF t [unfolded Inl]] have "r \<noteq> Inr ErRestored" "same_files w1 w'"
          by blast+
        with env show ?thesis by (intro unchanged)
      next
        case q: (Inr pending)
        show ?thesis
        proof (cases "pending = []")
          case True
          with bd t q have "settle_outcome i ErAlreadyRolledBack p w1 = (r, w')" by simp
          with settle_outcome_run have "r \<noteq> Inr ErRestored" "same_files w1 w'" by blast+
          with env show ?thesis by (intro unchanged)
        next
          case ne: False
          obtain r2 w2 where e: "rollback_edits_with_identity sha pending (Some p) w1 = (r2, w2)" by fastforce
          have out: "r = r2 \<and> same_files w2 w'"
          proof (cases r2)
            case (Inl x)
            with bd t q ne e show ?thesis by (simp add: bindE_run)
          next
            case (Inr st)
            with bd t q ne e have "settle_outcome i st p w2 = (r, w')" by (simp add: bindE_run)
            with settle_outcome_run Inr show ?thesis by blast
          qed
          from rollback_edits_cases [OF e ne] show ?thesis
          proof (elim disjE conjE exE)
            fix m assume "env_steps w1 w2" "r2 = Inr (ErConflict m)"
            with env out show ?thesis by (intro unchanged [of w2]) (auto intro: env_steps_trans)
          next
            fix m assume "env_steps w1 w2" "r2 = Inl (WriteFailure [] m)"
            with env out show ?thesis by (intro unchanged [of w2]) (auto intro: env_steps_trans)
          next
            fix v1 v2 v3
            assume v: "same_files w1 v1" "targets_match sha pending v1 v2" "restore_targets (rev pending) v2 = (r2, v3)"
              "same_files v3 w2"
            have "env_steps w v1" using env v(1) same_files_env env_steps_trans by blast
            moreover have "same_files v3 w'" using v(4) out by (simp add: same_files_def)
            moreover have "list_all (allowed rfc (ew_authz w) p ActRollback (Some i)) (map rr_path records)"
              using al by (simp only: list_all_iff)
            moreover have "(\<forall>m. r2 \<noteq> Inr (ErConflict m)) \<and> r2 \<noteq> Inr ErAlreadyRolledBack"
              using restore_targets_status v(3) by fastforce
            ultimately show ?thesis
              using run out Inr v(2,3) triage_pending [OF t [unfolded q]] ne unfolding run prod.case by blast
          qed
        qed
      qed
    qed
  qed
qed

end
