(* ===== verification/FsTools.thy ===== *)
theory FsTools
  imports Catalog RollbackSafety
begin

text \<open>
  The filesystem tools of the MCP dispatcher (\<open>mcp/dispatcher.rs\<close>), from the call to the edit
  service: \<open>call_tool_for\<close> behind its schema check, the capability check of a session bound to an
  agent, the execution gate, the resource policy of \<open>mcp/tool_broker.rs\<close>, and the six
  \<open>filesystem.*\<close> arms with the extraction of their arguments. The identifiers of new
  transactions, the trust snapshot, whether the github provider is configured, SHA-256 and the
  RFC 3339 parser are parameters.
\<close>

section \<open>Errors\<close>

text \<open>A \<open>DispatchError\<close> with its JSON-RPC code, any other \<open>anyhow\<close> error, or an edit error.\<close>

datatype tool_error = Dispatch int msg | Other msg | EditFailed edit_error

definition builtin_tool_denied_code :: int where "builtin_tool_denied_code = - 32003"
definition policy_denied_code :: int where "policy_denied_code = - 32004"
definition capability_denied_code :: int where "capability_denied_code = - 32005"
definition internal_error_code :: int where "internal_error_code = - 32603"
definition invalid_params_code :: int where "invalid_params_code = - 32602"

definition internal_error :: "msg \<Rightarrow> tool_error" where
  "internal_error m = Dispatch internal_error_code m"

definition invalid_params :: "msg \<Rightarrow> tool_error" where
  "invalid_params m = Dispatch invalid_params_code m"

definition strval :: "json \<Rightarrow> string \<Rightarrow> tool_error + string" where
  "strval arguments key = (case get_str arguments key of
      Some v \<Rightarrow> Inr v
    | None \<Rightarrow> Inl (Other (Fmt ''missing or non-string '{}' argument'' [Txt key])))"

definition required_u64 :: "json \<Rightarrow> string \<Rightarrow> tool_error + nat" where
  "required_u64 arguments key = (case get_u64 arguments key of
      Some n \<Rightarrow> Inr n
    | None \<Rightarrow> Inl (Other (Fmt ''missing or non-integer '{}' argument'' [Txt key])))"

fun builtin_error_msg :: "builtin_error \<Rightarrow> msg" where
  "builtin_error_msg (Unregistered t) = Fmt ''built-in tool '{}' is not in the tool registry'' [Txt t]"
| "builtin_error_msg (StoreUnavailable t) =
     Fmt ''built-in tool '{}' denied: trust store unavailable (fail closed)'' [Txt t]"
| "builtin_error_msg (AuthorizationRequired t i) =
     Fmt ''built-in tool '{}' denied: High-risk tools require explicit authorization (no trust record for '{}'); grant it with: awh mcp trust {} --network --process --filesystem''
       [Txt t, Txt i, Txt i]"
| "builtin_error_msg (PermissionDenied t p i) =
     Fmt ''built-in tool '{}' denied: permission '{}' not granted to {}'' [Txt t, Txt (permission_label p), Txt i]"
| "builtin_error_msg (TrustLevelDenied t i) =
     Fmt ''built-in tool '{}' denied: trust level or approved version for '{}' does not permit built-in tool execution''
       [Txt t, Txt i]"

definition policy_denial_msg :: "string \<Rightarrow> policy_rule \<Rightarrow> msg" where
  "policy_denial_msg tool r = Fmt ([CHR 0x27] @ ''{}' denied by policy rule '{}' matching '{}'{}'')
     [Txt tool, Txt (pr_id r), Txt (pr_pattern r),
      (case pr_reason r of None \<Rightarrow> Txt [] | Some m \<Rightarrow> Fmt '': {}'' [Txt m])]"

section \<open>The checks of the dispatcher\<close>

record session_identity =
  si_session_id :: string
  si_agent_id :: string
  si_workspace_id :: string

definition caller_audit_correlation :: "session_identity option \<Rightarrow> audit_correlation" where
  "caller_audit_correlation caller = (case caller of
      None \<Rightarrow> no_correlation
    | Some c \<Rightarrow> no_correlation\<lparr>ac_workspace_id := Some (si_workspace_id c),
        ac_agent_id := Some (si_agent_id c), ac_session_id := Some (si_session_id c)\<rparr>)"

type_synonym 'a tool_op = "(edit_world, tool_error, 'a) io"

definition log_event :: "(audit_event list \<Rightarrow> audit_event list) \<Rightarrow> unit tool_op" where
  "log_event f = modify (\<lambda>w. w\<lparr>ew_log := f (ew_log w)\<rparr>)"

definition deny_call :: "(audit_event list \<Rightarrow> audit_event list) \<Rightarrow> tool_error \<Rightarrow> 'a tool_op" where
  "deny_call f e = bindE (log_event f) (\<lambda>_. fail e)"

text \<open>The arguments against the schema the catalog advertises for the tool.\<close>

definition check_arguments :: "bool \<Rightarrow> string \<Rightarrow> json \<Rightarrow> unit tool_op" where
  "check_arguments github name arguments = (case static_tool_schema github name of
      None \<Rightarrow> ret ()
    | Some schema \<Rightarrow> (case validate_tool_arguments schema name arguments of
        Inr _ \<Rightarrow> ret ()
      | Inl e \<Rightarrow> deny_call (audit_deny ''tool_validation'' ''schema_mismatch'' name)
          (invalid_params (Fmt (''invalid arguments for '' @ [CHR 0x27] @ ''{}'' @ [CHR 0x27] @ '': {}'')
            [Txt name, argument_error_msg e]))))"

definition authorize_builtin :: "trust_store option \<Rightarrow> string \<Rightarrow> unit tool_op" where
  "authorize_builtin trust name w = (case authorize_builtin_tool name trust (ew_log w) of
      (Inl e, lg) \<Rightarrow> (Inl (Dispatch builtin_tool_denied_code (builtin_error_msg e)), w\<lparr>ew_log := lg\<rparr>)
    | (Inr _, lg) \<Rightarrow>
        (Inr (), w\<lparr>ew_log := audit_allow ''builtin_tool_allowed'' name builtin_trust_id lg\<rparr>))"

definition authorize_policy :: "string \<Rightarrow> string \<Rightarrow> session_identity option \<Rightarrow> unit tool_op" where
  "authorize_policy tool resource caller =
     bindE (gets (\<lambda>w. policy_matching (az_policy (ew_authz w)) tool resource)) (\<lambda>found. case found of
       Inr (Some rule) \<Rightarrow> deny_call
         (audit_deny_as ''policy_denied'' resource (pr_id rule) (caller_audit_correlation caller))
         (Dispatch policy_denied_code (policy_denial_msg tool rule))
     | Inr None \<Rightarrow> log_event (audit_allow_as ''policy_allowed'' resource tool (caller_audit_correlation caller))
     | Inl _ \<Rightarrow> fail (internal_error (Txt ''failed to read policy store'')))"

definition resource_scoped_tools :: "(string \<times> string) list" where
  "resource_scoped_tools =
     [(''workspace.write_file'', ''path''), (''workspace.delete_file'', ''path''), (''terminal.run'', ''program'')]"

definition authorize_tool :: "trust_store option \<Rightarrow> string \<Rightarrow> json \<Rightarrow> session_identity option \<Rightarrow> unit tool_op" where
  "authorize_tool trust name arguments caller =
     bindE (authorize_builtin trust name) (\<lambda>_.
     case find (\<lambda>(tool, _). tool = name) resource_scoped_tools of
       None \<Rightarrow> ret ()
     | Some (_, arg_name) \<Rightarrow> bindE (lift (strval arguments arg_name)) (\<lambda>resource.
         authorize_policy name resource caller))"

definition call_resource :: "json \<Rightarrow> string" where
  "call_resource arguments = (case get_str arguments ''path'' of Some p \<Rightarrow> p
     | None \<Rightarrow> (case get_str arguments ''program'' of Some p \<Rightarrow> p | None \<Rightarrow> []))"

definition grant_covers :: "rfc \<Rightarrow> int \<Rightarrow> string \<Rightarrow> permission \<Rightarrow> capability_grant \<Rightarrow> bool" where
  "grant_covers rfc now resource p g \<longleftrightarrow> cg_permission g = p \<and> \<not> grant_is_expired rfc now g
     \<and> (case cg_scope g of None \<Rightarrow> True | Some s \<Rightarrow> if resource = [] then False else scope_covers s resource)"

text \<open>The loop over the permissions a tool declares: the first one no grant covers is refused.\<close>

fun require_covered ::
    "rfc \<Rightarrow> int \<Rightarrow> capability_grant list \<Rightarrow> session_identity \<Rightarrow> string \<Rightarrow> string \<Rightarrow> permission list \<Rightarrow> unit tool_op" where
  "require_covered rfc now grants c name resource [] = ret ()"
| "require_covered rfc now grants c name resource (p # ps) =
     (if \<not> list_ex (grant_covers rfc now resource p) grants then
        deny_call (audit_deny_as ''agent_capability_denied'' name (permission_label p) (caller_audit_correlation (Some c)))
          (Dispatch capability_denied_code (Fmt ''agent {} is not authorized for tool {}: missing capability {}''
             [Txt (si_agent_id c), Txt name, Txt (permission_label p)]))
      else require_covered rfc now grants c name resource ps)"

definition authorize_caller_capability :: "rfc \<Rightarrow> session_identity \<Rightarrow> string \<Rightarrow> json \<Rightarrow> unit tool_op" where
  "authorize_caller_capability rfc c name arguments = (case registry_lookup name of
      None \<Rightarrow> ret ()
    | Some d \<Rightarrow> if td_permissions d = [] then ret ()
        else bindE (gets (\<lambda>w. (list_for_agent (az_grants (ew_authz w)) (si_agent_id c), az_now (ew_authz w))))
          (\<lambda>(listed, now). case listed of
            Inl _ \<Rightarrow> deny_call (audit_deny_as ''agent_capability_check'' ''store_unreadable'' name
                (caller_audit_correlation (Some c)))
              (internal_error (Fmt ''capability store unreadable for agent {}'' [Txt (si_agent_id c)]))
          | Inr grants \<Rightarrow> require_covered rfc now grants c name (call_resource arguments) (td_permissions d)))"

section \<open>The tools\<close>

definition edit_principal :: "session_identity option \<Rightarrow> principal option" where
  "edit_principal caller = map_option
     (\<lambda>c. agent_principal (si_agent_id c) (si_session_id c) (si_workspace_id c)) caller"

datatype tool_result =
  ReplaceResult edit_result
| LineResult line_edit_result
| PatchResult patch_result
| RollbackResult edit_rollback_status

text \<open>
  The bound principal takes the \<open>*_as\<close> entry point, a global session the plain one; an edit error
  crosses \<open>?\<close> as it is.
\<close>

definition run_edit ::
    "principal option \<Rightarrow> (principal \<Rightarrow> 'a edit_op) \<Rightarrow> 'a edit_op \<Rightarrow> ('a \<Rightarrow> tool_result) \<Rightarrow> tool_result tool_op" where
  "run_edit prin with_principal without wrap =
     bindE (map_err EditFailed (case prin of Some p \<Rightarrow> with_principal p | None \<Rightarrow> without)) (\<lambda>x. ret (wrap x))"

definition single_edit :: "string \<Rightarrow> edit_operation \<Rightarrow> edit_transaction" where
  "single_edit i op = new_transaction i [op]"

definition replace_tool :: "sha \<Rightarrow> rfc \<Rightarrow> string \<Rightarrow> principal option \<Rightarrow> json \<Rightarrow> tool_result tool_op" where
  "replace_tool sha rfc i prin arguments =
     bindE (lift (strval arguments ''path'')) (\<lambda>path.
     bindE (lift (strval arguments ''old'')) (\<lambda>old.
     bindE (lift (strval arguments ''new'')) (\<lambda>new.
     bindE (log_event (audit_allow ''workspace_edit'' ''replace'' path)) (\<lambda>_.
     let t = single_edit i (Replace path old new (get_u64 arguments ''occurrence'')) in
     run_edit prin (\<lambda>p. replace_as sha rfc p t) (edit_replace sha t) ReplaceResult))))"

definition insert_tool :: "sha \<Rightarrow> rfc \<Rightarrow> string \<Rightarrow> principal option \<Rightarrow> json \<Rightarrow> tool_result tool_op" where
  "insert_tool sha rfc i prin arguments =
     bindE (lift (strval arguments ''path'')) (\<lambda>path.
     bindE (lift (required_u64 arguments ''line'')) (\<lambda>line.
     bindE (lift (strval arguments ''content'')) (\<lambda>content.
     bindE (log_event (audit_allow ''workspace_edit'' ''insert'' path)) (\<lambda>_.
     let t = single_edit i (Insert path line content) in
     run_edit prin (\<lambda>p. insert_as sha rfc p t) (edit_insert sha t) LineResult))))"

definition delete_range_tool :: "sha \<Rightarrow> rfc \<Rightarrow> string \<Rightarrow> principal option \<Rightarrow> json \<Rightarrow> tool_result tool_op" where
  "delete_range_tool sha rfc i prin arguments =
     bindE (lift (strval arguments ''path'')) (\<lambda>path.
     bindE (lift (required_u64 arguments ''start_line'')) (\<lambda>start_line.
     bindE (lift (required_u64 arguments ''end_line'')) (\<lambda>end_line.
     bindE (log_event (audit_allow ''workspace_edit'' ''delete_range'' path)) (\<lambda>_.
     let t = single_edit i (DeleteRange path start_line end_line) in
     run_edit prin (\<lambda>p. delete_range_as sha rfc p t) (edit_delete_range sha t) LineResult))))"

definition run_patch :: "sha \<Rightarrow> rfc \<Rightarrow> principal option \<Rightarrow> edit_transaction \<Rightarrow> tool_result tool_op" where
  "run_patch sha rfc prin t = run_edit prin (\<lambda>p. patch_as sha rfc p t) (edit_patch sha t) PatchResult"

definition apply_diff_tool :: "sha \<Rightarrow> rfc \<Rightarrow> string \<Rightarrow> principal option \<Rightarrow> json \<Rightarrow> tool_result tool_op" where
  "apply_diff_tool sha rfc i prin arguments =
     bindE (lift (strval arguments ''diff'')) (\<lambda>diff.
     bindE (log_event (audit_allow ''workspace_edit'' ''apply_diff'' [])) (\<lambda>_.
     run_patch sha rfc prin (single_edit i (ApplyDiff diff))))"

definition patch_operation_of :: "nat \<Rightarrow> json \<Rightarrow> tool_error + edit_operation" where
  "patch_operation_of idx op =
     bindR (strval op ''path'') (\<lambda>path.
     bindR (ensure (is_object op) (Other (Fmt ''operation at index {} must be an object'' [Num idx]))) (\<lambda>_.
     case (get_str op ''old'', get_str op ''new'') of
       (Some old, Some new) \<Rightarrow> Inr (Replace path old new (get_u64 op ''occurrence''))
     | _ \<Rightarrow> (case (get_u64 op ''line'', get_str op ''content'') of
         (Some line, Some content) \<Rightarrow> Inr (Insert path line content)
       | _ \<Rightarrow> (case (get_u64 op ''start_line'', get_u64 op ''end_line'') of
           (Some start_line, Some end_line) \<Rightarrow> Inr (DeleteRange path start_line end_line)
         | _ \<Rightarrow> Inl (Other (Fmt ''operation at index {} does not match any known operation type'' [Num idx]))))))"

fun patch_operations_of :: "nat \<Rightarrow> json list \<Rightarrow> tool_error + edit_operation list" where
  "patch_operations_of idx [] = Inr []"
| "patch_operations_of idx (op # ops) =
     bindR (patch_operation_of idx op) (\<lambda>x. bindR (patch_operations_of (idx + 1) ops) (\<lambda>xs. Inr (x # xs)))"

definition patch_tool :: "sha \<Rightarrow> rfc \<Rightarrow> string \<Rightarrow> principal option \<Rightarrow> json \<Rightarrow> tool_result tool_op" where
  "patch_tool sha rfc i prin arguments =
     (case Option.bind (json_get arguments ''operations'') as_array of
        None \<Rightarrow> fail (Other (Txt ''missing or non-array 'operations' argument''))
      | Some ops_array \<Rightarrow>
          bindE (lift (patch_operations_of 0 ops_array)) (\<lambda>ops.
          bindE (log_event (audit_allow ''workspace_edit'' ''patch'' [])) (\<lambda>_.
          run_patch sha rfc prin (new_transaction i ops))))"

definition rollback_tool :: "sha \<Rightarrow> rfc \<Rightarrow> principal option \<Rightarrow> json \<Rightarrow> tool_result tool_op" where
  "rollback_tool sha rfc prin arguments =
     bindE (lift (strval arguments ''edit_id'')) (\<lambda>edit_id.
     bindE (log_event (audit_allow ''workspace_edit'' ''rollback'' edit_id)) (\<lambda>_.
     bindE (case prin of
         Some p \<Rightarrow> ret p
       | None \<Rightarrow> bindE (gets (az_manifest \<circ> ew_authz)) (\<lambda>manifest. case manifest of
           Inl e \<Rightarrow> fail (Other (Fmt ''rollback requires an initialized workspace: {}'' [anyhow_msg e]))
         | Inr ws \<Rightarrow> ret (operator_principal ws))) (\<lambda>p.
     bindE (map_err EditFailed (rollback_edit sha rfc p edit_id)) (\<lambda>status. ret (RollbackResult status)))))"

text \<open>The arms of the dispatch on the tool name; the other arms are not filesystem tools.\<close>

datatype fs_tool = FsReplace | FsInsert | FsDeleteRange | FsApplyDiff | FsPatch | FsRollback

fun fs_tool_name :: "fs_tool \<Rightarrow> string" where
  "fs_tool_name FsReplace = ''filesystem.replace''"
| "fs_tool_name FsInsert = ''filesystem.insert''"
| "fs_tool_name FsDeleteRange = ''filesystem.delete_range''"
| "fs_tool_name FsApplyDiff = ''filesystem.apply_diff''"
| "fs_tool_name FsPatch = ''filesystem.patch''"
| "fs_tool_name FsRollback = ''filesystem.rollback''"

fun fs_tool_body :: "sha \<Rightarrow> rfc \<Rightarrow> string \<Rightarrow> fs_tool \<Rightarrow> principal option \<Rightarrow> json \<Rightarrow> tool_result tool_op" where
  "fs_tool_body sha rfc i FsReplace p a = replace_tool sha rfc i p a"
| "fs_tool_body sha rfc i FsInsert p a = insert_tool sha rfc i p a"
| "fs_tool_body sha rfc i FsDeleteRange p a = delete_range_tool sha rfc i p a"
| "fs_tool_body sha rfc i FsApplyDiff p a = apply_diff_tool sha rfc i p a"
| "fs_tool_body sha rfc i FsPatch p a = patch_tool sha rfc i p a"
| "fs_tool_body sha rfc i FsRollback p a = rollback_tool sha rfc p a"

definition call_fs_tool ::
    "sha \<Rightarrow> rfc \<Rightarrow> string \<Rightarrow> trust_store option \<Rightarrow> bool \<Rightarrow> session_identity option \<Rightarrow> fs_tool \<Rightarrow> json \<Rightarrow>
     tool_result tool_op" where
  "call_fs_tool sha rfc i trust github caller tool arguments = (let name = fs_tool_name tool in
     bindE (lift (ensure (is_object arguments)
       (invalid_params (Txt (''tools/call '' @ [CHR 0x27] @ ''arguments'' @ [CHR 0x27] @ '' must be a JSON object when present''))))) (\<lambda>_.
     bindE (check_arguments github name arguments) (\<lambda>_.
     bindE (case caller of
         Some c \<Rightarrow> authorize_caller_capability rfc c name arguments
       | None \<Rightarrow> ret ()) (\<lambda>_.
     bindE (log_event (audit_allow_as ''tool_invoke'' name ''tools/call'' (caller_audit_correlation caller))) (\<lambda>_.
     bindE (authorize_tool trust name arguments caller) (\<lambda>_.
     fs_tool_body sha rfc i tool (edit_principal caller) arguments))))))"

end
