(* ===== verification/FsArguments.thy ===== *)
theory FsArguments
  imports FsTools
begin

text \<open>
  What the schema check of the dispatcher gives the filesystem tools: a call that passed it carries
  every string its arm reads, so the errors about missing strings below the check cannot occur.
  The numbers are another matter: \<open>number\<close> admits fractions and negative values, which
  the arms read as absent.
\<close>

section \<open>What a validated value satisfies\<close>

lemma validated_Suc: "validate_levels (Suc n) s v ip sp = Inr () \<longleftrightarrow> (\<exists>o1. s = JObj o1
    \<and> unsupported_check o1 ip sp = Inr () \<and> validate_type o1 v ip sp = Inr () \<and> validate_const_and_enum o1 v ip sp = Inr ()
    \<and> validate_numbers o1 v ip sp = Inr () \<and> validate_strings o1 v ip sp = Inr ()
    \<and> (\<forall>m. v = JObj m \<longrightarrow> validate_object_keywords (validate_levels n) o1 m ip sp = Inr ())
    \<and> (\<forall>xs. v = JArr xs \<longrightarrow> validate_array_keywords (validate_levels n) o1 xs ip sp = Inr ())
    \<and> validate_combinators (validate_levels n) o1 v ip sp = Inr ())"
  by (cases s; cases v) (auto simp: validate_body_def bindR_unit_Inr_iff)

lemma violation_Inr [simp]: "violation bad k ip sp key m = Inr () \<longleftrightarrow> \<not> bad"
  by (simp add: violation_def ensure_def)

lemma validated_type:
  assumes "validate_levels (Suc n) (of_type t) v ip sp = Inr ()"
  shows "type_matches t v"
  using assms unfolding validated_Suc by (auto simp: of_type_def validate_type_def)

lemma validated_string: "\<exists>ip sp. validate_levels (Suc n) a_string v ip sp = Inr () \<Longrightarrow> \<exists>t. v = JStr t"
  by (elim exE, drule validated_type) (simp add: type_matches_def shape_iff)

lemma validated_object:
  assumes "validate_levels (Suc n) (arguments_schema ps ks) v ip sp = Inr ()"
  shows "\<exists>m. v = JObj m \<and> (\<forall>k \<in> set ks. map_of m k \<noteq> None)
    \<and> (\<forall>f s x. (f, s) \<in> set ps \<longrightarrow> map_of m f = Some x \<longrightarrow> (\<exists>ip sp. validate_levels n s x ip sp = Inr ()))"
proof -
  let ?o = "(''properties'', JObj ps) # (if ks = [] then [] else [(''required'', JArr (map JStr ks))]) @ [(''type'', JStr ''object'')]"
  from assms have t: "validate_type ?o v ip sp = Inr ()"
    and o: "\<And>m. v = JObj m \<Longrightarrow> validate_object_keywords (validate_levels n) ?o m ip sp = Inr ()"
    unfolding validated_Suc arguments_schema_def by auto
  have "map_of ?o ''type'' = Some (JStr ''object'')" by simp
  with t obtain m where m: "v = JObj m" by (auto simp: validate_type_def type_matches_def shape_iff)
  from o [OF m] have r: "required_check ?o m ip sp = Inr ()" and p: "properties_check (validate_levels n) ?o m ip sp = Inr ()"
    by (simp_all add: validate_object_keywords_def bindR_unit_Inr_iff)
  have strs: "strings (map JStr ks) = ks" by (induction ks) (simp_all add: strings_def map_filter_simps)
  have "list_all is_string (map JStr ks)" by (simp add: list_all_iff is_string_def)
  then have "\<forall>k \<in> set ks. map_of m k \<noteq> None"
    using r by (cases "ks = []") (auto simp: required_check_def names_array_def each_Inr_iff strs)
  moreover from p have "\<forall>(f, s) \<in> set ps. (case map_of m f of None \<Rightarrow> Inr ()
      | Some x \<Rightarrow> validate_levels n s x (field_path ip f) (under (under sp ''properties'') f)) = Inr ()"
    by (simp add: properties_check_def each_Inr_iff case_prod_beta)
  ultimately show ?thesis using m by fastforce
qed

lemma validated_array:
  assumes "validate_levels (Suc n) (JObj [(''items'', JObj kvs), (''type'', JStr ''array'')]) v ip sp = Inr ()"
  shows "\<exists>xs. v = JArr xs \<and> (\<forall>x \<in> set xs. \<exists>ip sp. validate_levels n (JObj kvs) x ip sp = Inr ())"
proof -
  let ?o = "[(''items'', JObj kvs), (''type'', JStr ''array'')]"
  from assms have t: "validate_type ?o v ip sp = Inr ()"
    and a: "\<And>xs. v = JArr xs \<Longrightarrow> validate_array_keywords (validate_levels n) ?o xs ip sp = Inr ()"
    unfolding validated_Suc by auto
  from t obtain xs where xs: "v = JArr xs" by (auto simp: validate_type_def type_matches_def shape_iff)
  have pre: "prefix_items ?o ip sp = Inr None" "positional ?o None = []"
    by (simp_all add: prefix_items_def positional_def)
  from a [OF xs] have "items_check (validate_levels n) ?o 0 xs ip sp = Inr ()"
    unfolding validate_array_keywords_def pre
    by (simp add: bindR_def [of "Inr None"] pre Let_def bindR_unit_Inr_iff)
  then have "\<forall>x \<in> set (enumerate 0 xs). case x of (i, y) \<Rightarrow> validate_levels n (JObj kvs) y (item_path ip i) (under sp ''items'') = Inr ()"
    by (simp add: items_check_def each_Inr_iff case_prod_beta)
  then have "\<forall>i < length xs. validate_levels n (JObj kvs) (xs ! i) (item_path ip i) (under sp ''items'') = Inr ()"
    by (auto simp: in_set_enumerate_eq)
  with xs show ?thesis by (metis in_set_conv_nth)
qed

section \<open>The schemas of the filesystem tools\<close>

definition op_properties :: "(string \<times> json) list" where
  "op_properties = [(''content'', a_string), (''end_line'', a_number), (''line'', a_number), (''new'', a_string),
     (''occurrence'', a_number), (''old'', a_string), (''path'', a_string), (''start_line'', a_number)]"

fun tool_properties :: "fs_tool \<Rightarrow> (string \<times> json) list" where
  "tool_properties FsReplace = [(''new'', a_string), (''occurrence'', a_number), (''old'', a_string), (''path'', a_string)]"
| "tool_properties FsInsert = [(''content'', a_string), (''line'', a_number), (''path'', a_string)]"
| "tool_properties FsDeleteRange = [(''end_line'', a_number), (''path'', a_string), (''start_line'', a_number)]"
| "tool_properties FsApplyDiff = [(''diff'', a_string)]"
| "tool_properties FsPatch = [(''operations'', JObj [(''items'', arguments_schema op_properties [''path'']), (''type'', JStr ''array'')])]"
| "tool_properties FsRollback = [(''edit_id'', a_string)]"

fun required_arguments :: "fs_tool \<Rightarrow> string list" where
  "required_arguments FsReplace = [''path'', ''old'', ''new'']"
| "required_arguments FsInsert = [''path'', ''line'', ''content'']"
| "required_arguments FsDeleteRange = [''path'', ''start_line'', ''end_line'']"
| "required_arguments FsApplyDiff = [''diff'']"
| "required_arguments FsPatch = [''operations'']"
| "required_arguments FsRollback = [''edit_id'']"

definition tool_schema :: "fs_tool \<Rightarrow> json" where
  "tool_schema tool = arguments_schema (tool_properties tool) (required_arguments tool)"

lemma catalog_entry:
  "static_tool_schema github (fs_tool_name tool) = Some (tools_list_static github)"
  "validate_tool_arguments (tools_list_static github) (fs_tool_name tool) a =
     (case validate_schema (tool_schema tool) a ''arguments'' ''#'' of Inl e \<Rightarrow> Inl (Invalid e) | Inr _ \<Rightarrow> Inr ())"
proof -
  have "list_all (\<lambda>tool. find (\<lambda>t. get_str t ''name'' = Some (fs_tool_name tool)) core_tools = None
      \<and> find (\<lambda>t. get_str t ''name'' = Some (fs_tool_name tool)) extended_tools = None
      \<and> (case find (\<lambda>t. get_str t ''name'' = Some (fs_tool_name tool)) editing_tools of None \<Rightarrow> False
         | Some t \<Rightarrow> json_get t ''inputSchema'' = Some (tool_schema tool)))
    [FsReplace, FsInsert, FsDeleteRange, FsApplyDiff, FsPatch, FsRollback]" by code_simp
  moreover have "tool \<in> set [FsReplace, FsInsert, FsDeleteRange, FsApplyDiff, FsPatch, FsRollback]" by (cases tool) simp_all
  ultimately obtain t where
    "find (\<lambda>t. get_str t ''name'' = Some (fs_tool_name tool)) core_tools = None"
    "find (\<lambda>t. get_str t ''name'' = Some (fs_tool_name tool)) extended_tools = None"
    and t: "find (\<lambda>t. get_str t ''name'' = Some (fs_tool_name tool)) editing_tools = Some t"
      "json_get t ''inputSchema'' = Some (tool_schema tool)"
    unfolding list_all_iff by (fastforce split: option.splits)
  then have f: "find (\<lambda>t. get_str t ''name'' = Some (fs_tool_name tool)) (static_tools github) = Some t"
    by (simp add: static_tools_def find_append)
  from t(2) show "validate_tool_arguments (tools_list_static github) (fs_tool_name tool) a =
     (case validate_schema (tool_schema tool) a ''arguments'' ''#'' of Inl e \<Rightarrow> Inl (Invalid e) | Inr _ \<Rightarrow> Inr ())"
    by (simp add: validate_tool_arguments_def tools_list_static_def f)
  from f show "static_tool_schema github (fs_tool_name tool) = Some (tools_list_static github)"
    by (auto simp: static_tool_schema_def tools_list_static_def Let_def list_ex_iff find_Some_iff) 
qed

definition arguments_accepted :: "fs_tool \<Rightarrow> json \<Rightarrow> bool" where
  "arguments_accepted tool a \<longleftrightarrow> validate_schema (tool_schema tool) a ''arguments'' ''#'' = Inr ()"

text \<open>
  The schema check makes the arms of the filesystem tools total on their strings: a call whose
  arguments match the schema the catalog advertises is an object that has every required entry, and
  each entry the arm reads as a string, present or required, is a string; the operations of a patch
  are an array of objects each with a string path. So the errors ``missing or non-string argument'',
  ``missing operations'' and ``operation must be an object'' of the arms are unreachable behind the
  check.
\<close>

theorem accepted_arguments_complete:
  assumes "arguments_accepted tool a"
  shows "list_all (\<lambda>k. json_get a k \<noteq> None \<and> (k \<notin> {''line'', ''start_line'', ''end_line'', ''operations''} \<longrightarrow> get_str a k \<noteq> None))
      (required_arguments tool)
    \<and> (tool = FsPatch \<longrightarrow> (\<exists>xs. json_get a ''operations'' = Some (JArr xs)
         \<and> list_all (\<lambda>x. is_object x \<and> get_str x ''path'' \<noteq> None) xs))"
proof -
  obtain n where n: "max_schema_depth = Suc (Suc (Suc (Suc n)))" by (simp add: max_schema_depth_def numeral_eq_Suc)
  from assms have "validate_levels (Suc (Suc (Suc (Suc n)))) (arguments_schema (tool_properties tool) (required_arguments tool)) a
      ''arguments'' ''#'' = Inr ()"
    by (simp add: arguments_accepted_def validate_schema_def tool_schema_def n)
  from validated_object [OF this] obtain m where m: "a = JObj m"
    and present: "\<forall>k \<in> set (required_arguments tool). map_of m k \<noteq> None"
    and typed: "\<And>f s x. (f, s) \<in> set (tool_properties tool) \<Longrightarrow> map_of m f = Some x \<Longrightarrow>
      \<exists>ip sp. validate_levels (Suc (Suc (Suc n))) s x ip sp = Inr ()" by blast
  have str: "get_str a k \<noteq> None" if "(k, a_string) \<in> set (tool_properties tool)" "k \<in> set (required_arguments tool)" for k
  proof -
    from present that(2) obtain x where x: "map_of m k = Some x" by blast
    from validated_string [OF typed [OF that(1) x]] obtain t where "x = JStr t" by blast
    with x m show ?thesis by (simp add: get_str_def)
  qed
  have "list_all (\<lambda>k. k \<in> {''line'', ''start_line'', ''end_line'', ''operations''} \<or> (k, a_string) \<in> set (tool_properties tool))
      (required_arguments tool)" by (cases tool) simp_all
  then have strs: "list_all (\<lambda>k. json_get a k \<noteq> None \<and> (k \<notin> {''line'', ''start_line'', ''end_line'', ''operations''} \<longrightarrow> get_str a k \<noteq> None))
      (required_arguments tool)"
    using str present m unfolding list_all_iff by auto
  have ops: "\<exists>xs. json_get a ''operations'' = Some (JArr xs) \<and> list_all (\<lambda>x. is_object x \<and> get_str x ''path'' \<noteq> None) xs"
    if "tool = FsPatch"
  proof -
    from present that obtain x where x: "map_of m ''operations'' = Some x" by auto
    from typed [of "''operations''", OF _ x] that obtain ip sp where
      "validate_levels (Suc (Suc (Suc n))) (JObj [(''items'', arguments_schema op_properties [''path'']), (''type'', JStr ''array'')]) x ip sp = Inr ()"
      by auto
    from validated_array [OF this [unfolded arguments_schema_def], folded arguments_schema_def] obtain xs where xs: "x = JArr xs"
      "\<And>y. y \<in> set xs \<Longrightarrow> \<exists>ip sp. validate_levels (Suc (Suc n)) (arguments_schema op_properties [''path'']) y ip sp = Inr ()" by blast
    have "is_object y \<and> get_str y ''path'' \<noteq> None" if "y \<in> set xs" for y
    proof -
      from xs(2) [OF that] obtain ip' sp' where
        "validate_levels (Suc (Suc n)) (arguments_schema op_properties [''path'']) y ip' sp' = Inr ()" by blast
      from validated_object [OF this] obtain my where y: "y = JObj my" "map_of my ''path'' \<noteq> None"
        and t: "\<And>f s x. (f, s) \<in> set op_properties \<Longrightarrow> map_of my f = Some x \<Longrightarrow>
          \<exists>ip sp. validate_levels (Suc n) s x ip sp = Inr ()" by auto
      from y(2) obtain z where z: "map_of my ''path'' = Some z" by blast
      have "(''path'', a_string) \<in> set op_properties" by (simp add: op_properties_def)
      from validated_string [OF t [OF this z]] obtain u where "z = JStr u" by blast
      with y z show ?thesis by (simp add: get_str_def)
    qed
    with xs(1) x m show ?thesis by (simp add: list_all_iff)
  qed
  from strs ops show ?thesis by blast
qed

lemma accepted_arguments_complete_witness:
  "get_str (JObj [(''new'', JStr ''bye''), (''old'', JStr ''hello''), (''path'', JStr ''a'')]) ''path'' \<noteq> None"
proof -
  have "arguments_accepted FsReplace (JObj [(''new'', JStr ''bye''), (''old'', JStr ''hello''), (''path'', JStr ''a'')])"
    unfolding arguments_accepted_def by code_simp
  from accepted_arguments_complete [OF this] show ?thesis by simp
qed

end
