(* ===== verification/FsToolsSafety.thy ===== *)
theory FsToolsSafety
  imports FsArguments
begin

text \<open>
  What stands between a call of a filesystem tool and the files: the schema of the tool, for a
  session bound to an agent the capability of the agent, the execution gate and the authorizer of the edit service, each of
  which refuses without touching a file; for a global session only the gate.
\<close>

section \<open>The three layers\<close>

definition caller_holds :: "rfc \<Rightarrow> authz_env \<Rightarrow> session_identity \<Rightarrow> json \<Rightarrow> bool" where
  "caller_holds rfc z c arguments = (case list_for_agent (az_grants z) (si_agent_id c) of
      Inl _ \<Rightarrow> False
    | Inr grants \<Rightarrow> list_ex (grant_covers rfc (az_now z) (call_resource arguments) Filesystem) grants)"

definition gate_open :: "trust_store option \<Rightarrow> bool" where
  "gate_open trust = (case trust of None \<Rightarrow> False
    | Some ts \<Rightarrow> (case trust_get ts builtin_trust_id of
        None \<Rightarrow> True
      | Some a \<Rightarrow> ap_level a \<in> {Trusted, Reviewed} \<and> (ap_version a = [] \<or> ap_version a = builtin_trust_version)
          \<and> granted (ap_permissions a) Filesystem))"

text \<open>The resources a call names, as the authorizer of the edit service is asked about them.\<close>

fun named_resources :: "sha \<Rightarrow> string \<Rightarrow> fs_tool \<Rightarrow> json \<Rightarrow> edit_world \<Rightarrow> string list option" where
  "named_resources sha i FsApplyDiff a w = (case map_option parse_unified_diff (get_str a ''diff'') of
      Some (Inr fds) \<Rightarrow> Some (map fd_path fds) | _ \<Rightarrow> None)"
| "named_resources sha i FsPatch a w = (case Option.bind (json_get a ''operations'') as_array of
      None \<Rightarrow> None
    | Some xs \<Rightarrow> (case patch_operations_of 0 xs of Inl _ \<Rightarrow> None | Inr ops \<Rightarrow> Some (concat (map op_paths ops))))"
| "named_resources sha i FsRollback a w = (case get_str a ''edit_id'' of
      None \<Rightarrow> None
    | Some e \<Rightarrow> (case resolve_recovery_records sha e w of Inl _ \<Rightarrow> None | Inr rs \<Rightarrow> Some (map rr_path rs)))"
| "named_resources sha i tool a w = map_option (\<lambda>p. [p]) (get_str a ''path'')"

fun tool_action :: "fs_tool \<Rightarrow> edit_action" where
  "tool_action FsReplace = ActReplace"
| "tool_action FsInsert = ActInsert"
| "tool_action FsDeleteRange = ActDeleteRange"
| "tool_action FsApplyDiff = ActPatch"
| "tool_action FsPatch = ActPatch"
| "tool_action FsRollback = ActRollback"

section \<open>Each layer refuses without touching a file\<close>

text \<open>\<open>checks w w'\<close>: nothing but the audit log may differ.\<close>

definition only_log :: "edit_world \<Rightarrow> edit_world \<Rightarrow> bool" where
  "only_log w w' \<longleftrightarrow> (\<exists>lg. w' = w\<lparr>ew_log := lg\<rparr>)"

lemma only_log_refl [simp]: "only_log w w"
  unfolding only_log_def by (rule exI [of _ "ew_log w"]) simp

lemma only_log_trans: "only_log w w1 \<Longrightarrow> only_log w1 w2 \<Longrightarrow> only_log w w2"
  by (auto simp: only_log_def)

lemma only_log_update [simp]: "only_log w (w\<lparr>ew_log := lg\<rparr>)"
  by (auto simp: only_log_def)

lemma only_log_parts:
  "only_log w w' \<Longrightarrow> same_files w w' \<and> ew_authz w' = ew_authz w \<and> ew_snap w' = ew_snap w \<and> ew_locks w' = ew_locks w"
  by (auto simp: only_log_def same_files_def)

lemma only_log_relog [simp]: "only_log (w\<lparr>ew_log := lg\<rparr>) (w\<lparr>ew_log := lg'\<rparr>)"
  unfolding only_log_def by (rule exI [of _ lg']) simp

lemma log_event_run [simp]: "log_event f w = (Inr (), w\<lparr>ew_log := f (ew_log w)\<rparr>)"
  by (simp add: log_event_def)

lemma deny_call_run [simp]: "deny_call f e w = (Inl e, w\<lparr>ew_log := f (ew_log w)\<rparr>)"
  by (simp add: deny_call_def bindE_run)

lemma check_arguments_run:
  "check_arguments github (fs_tool_name tool) a w = (r, w') \<Longrightarrow> only_log w w' \<and> (r = Inr () \<longleftrightarrow> arguments_accepted tool a)"
  by (auto simp: check_arguments_def catalog_entry arguments_accepted_def split: sum.splits)

lemma check_arguments_ok: "arguments_accepted tool a \<Longrightarrow> check_arguments github (fs_tool_name tool) a w = (Inr (), w)"
  by (simp add: check_arguments_def catalog_entry arguments_accepted_def)

lemma require_covered_run:
  "require_covered rfc now gs c name res ps w = (r, w') \<Longrightarrow>
     only_log w w' \<and> (r = Inr () \<longleftrightarrow> list_all (\<lambda>p. list_ex (grant_covers rfc now res p) gs) ps)"
  by (induction ps) (auto split: if_splits)

lemma fs_registry:
  "\<exists>d. registry_lookup (fs_tool_name tool) = Some d \<and> td_permissions d = [Filesystem] \<and> td_risk d = Medium"
proof -
  have "list_all (\<lambda>t. case find (\<lambda>d. td_name d = fs_tool_name t) registry of None \<Rightarrow> False
      | Some d \<Rightarrow> td_permissions d = [Filesystem] \<and> td_risk d = Medium)
    [FsReplace, FsInsert, FsDeleteRange, FsApplyDiff, FsPatch, FsRollback]" by code_simp
  moreover have "tool \<in> set [FsReplace, FsInsert, FsDeleteRange, FsApplyDiff, FsPatch, FsRollback]" by (cases tool) simp_all
  ultimately show ?thesis unfolding list_all_iff registry_lookup_find by (fastforce split: option.splits)
qed

lemma caller_capability_run:
  assumes "authorize_caller_capability rfc c (fs_tool_name tool) a w = (r, w')"
  shows "only_log w w' \<and> (r = Inr () \<longleftrightarrow> caller_holds rfc (ew_authz w) c a)"
proof -
  obtain d where d: "registry_lookup (fs_tool_name tool) = Some d" "td_permissions d = [Filesystem]"
    using fs_registry by blast
  show ?thesis
  proof (cases "list_for_agent (az_grants (ew_authz w)) (si_agent_id c)")
    case (Inl e)
    with assms d show ?thesis by (auto simp: authorize_caller_capability_def bindE_run caller_holds_def)
  next
    case (Inr gs)
    with assms d have "require_covered rfc (az_now (ew_authz w)) gs c (fs_tool_name tool) (call_resource a) [Filesystem] w = (r, w')"
      by (simp add: authorize_caller_capability_def bindE_run)
    from require_covered_run [OF this] Inr show ?thesis by (simp add: caller_holds_def)
  qed
qed

lemma authorize_tool_run:
  assumes "authorize_tool trust (fs_tool_name tool) a caller w = (r, w')"
  shows "only_log w w' \<and> (r = Inr () \<longleftrightarrow> gate_open trust)"
proof -
  obtain d where d: "registry_lookup (fs_tool_name tool) = Some d" "td_permissions d = [Filesystem]" "td_risk d = Medium"
    using fs_registry by blast
  have none: "find (\<lambda>(t, _). t = fs_tool_name tool) resource_scoped_tools = None"
    by (cases tool; simp add: resource_scoped_tools_def)
  obtain g lg where g: "authorize_builtin_tool (fs_tool_name tool) trust (ew_log w) = (g, lg)" by fastforce
  from builtin_gate [where tool = "fs_tool_name tool" and trust = trust and log = "ew_log w"] d g
  have "g = Inr () \<longleftrightarrow> gate_open trust"
    by (simp add: registry_lookup_find [symmetric] gate_open_def cong: option.case_cong)
  with assms g none show ?thesis
    by (cases g) (auto simp: authorize_tool_def authorize_builtin_def bindE_run)
qed

lemma allowed_any: "allowed rfc z p act tid res \<longleftrightarrow> allowed rfc z p act None res"
  unfolding allowed_def authorize_inner_def
  by (simp cong: option.case_cong sum.case_cong if_cong)

lemma run_edit_run:
  "with_p p w = (r0, w0) \<Longrightarrow> run_edit (Some p) with_p plain wrap w
     = (case r0 of Inl e \<Rightarrow> Inl (EditFailed e) | Inr x \<Rightarrow> Inr (wrap x), w0)"
  by (cases r0) (simp_all add: run_edit_def bindE_run map_err_run)

text \<open>An authorized entry point behind a prefix that only logs.\<close>

lemma run_edit_Some:
  assumes "run_edit (Some p) (\<lambda>p. bindE (authorize_operation rfc p act rs tid) (\<lambda>_. body p)) plain wrap w = (r, w')"
  shows "(only_log w w' \<and> isl r) \<or> (rs \<noteq> [] \<and> list_all (allowed rfc (ew_authz w) p act None) rs)"
proof -
  obtain r0 w0 where b: "bindE (authorize_operation rfc p act rs tid) (\<lambda>_. body p) w = (r0, w0)" by fastforce
  from run_edit_run [where with_p = "\<lambda>p. bindE (authorize_operation rfc p act rs tid) (\<lambda>_. body p)", OF b] assms
  have r: "w' = w0" "isl r0 \<longrightarrow> isl r" by (auto split: sum.splits)
  from as_cases [OF b] show ?thesis
  proof (elim disjE conjE)
    assume "\<forall>res \<in> set rs. allowed rfc (ew_authz w) p act tid res" "rs \<noteq> []"
    then show ?thesis using allowed_any [of rfc "ew_authz w" p act tid] by (auto simp: list_all_iff)
  next
    assume "\<exists>m d. r0 = Inl (AuthorizationDenied (tool_name act) m d)" "\<exists>evs. w0 = w\<lparr>ew_log := ew_log w @ evs\<rparr>"
    with r show ?thesis by auto
  qed
qed

text \<open>What a refused step of a tool leaves behind, and what a step that goes on has checked.\<close>

definition refused_or :: "edit_world \<Rightarrow> (tool_error + 'a) \<times> edit_world \<Rightarrow> bool \<Rightarrow> bool" where
  "refused_or w rw ok \<longleftrightarrow> (only_log w (snd rw) \<and> isl (fst rw)) \<or> ok"

lemma refused_or_lift:
  "(\<And>x. q = Inr x \<Longrightarrow> refused_or w (f x w) ok) \<Longrightarrow> refused_or w (bindE (lift q) f w) ok"
  by (cases q) (simp_all add: bindE_run refused_or_def)

lemma refused_or_log:
  "refused_or (w\<lparr>ew_log := g (ew_log w)\<rparr>) (f () (w\<lparr>ew_log := g (ew_log w)\<rparr>)) ok \<Longrightarrow>
     refused_or w (bindE (log_event g) f w) ok"
  by (auto simp: bindE_run refused_or_def only_log_def)

lemma refused_or_edit:
  "(rs \<noteq> [] \<Longrightarrow> list_all (allowed rfc (ew_authz w) p act None) rs \<Longrightarrow> ok) \<Longrightarrow> refused_or w
     (run_edit (Some p) (\<lambda>p. bindE (authorize_operation rfc p act rs tid) (\<lambda>_. body p)) plain wrap w) ok"
  by (cases "run_edit (Some p) (\<lambda>p. bindE (authorize_operation rfc p act rs tid) (\<lambda>_. body p)) plain wrap w")
    (use run_edit_Some in \<open>fastforce simp: refused_or_def\<close>)

definition names_allowed :: "sha \<Rightarrow> rfc \<Rightarrow> string \<Rightarrow> fs_tool \<Rightarrow> principal \<Rightarrow> json \<Rightarrow> edit_world \<Rightarrow> bool" where
  "names_allowed sha rfc i tool p a w \<longleftrightarrow> (case named_resources sha i tool a w of None \<Rightarrow> False
     | Some rs \<Rightarrow> rs \<noteq> [] \<and> list_all (allowed rfc (ew_authz w) p (tool_action tool) None) rs)"

lemma strval_Inr: "strval a k = Inr v \<longleftrightarrow> get_str a k = Some v"
  by (auto simp: strval_def split: option.splits)

lemma patch_resources_plain:
  "patch_operations_of idx xs = Inr ops \<Longrightarrow> patch_resources ops = Inr (concat (map op_paths ops))"
proof (induction idx xs arbitrary: ops rule: patch_operations_of.induct)
  case (2 idx op xs)
  then obtain x ys where x: "patch_operation_of idx op = Inr x" and ys: "patch_operations_of (idx + 1) xs = Inr ys"
    and ops: "ops = x # ys" by (auto simp: bindR_Inr_iff)
  have "\<not> (\<exists>d. x = ApplyDiff d)" using x
    by (auto simp: patch_operation_of_def bindR_Inr_iff split: option.splits prod.splits)
  with 2 x ys ops show ?case by (cases x) simp_all
qed simp

lemma single_tools_refused:
  "refused_or w (replace_tool sha rfc i (Some p) a w) (names_allowed sha rfc i FsReplace p a w)"
  "refused_or w (insert_tool sha rfc i (Some p) a w) (names_allowed sha rfc i FsInsert p a w)"
  "refused_or w (delete_range_tool sha rfc i (Some p) a w) (names_allowed sha rfc i FsDeleteRange p a w)"
  unfolding replace_tool_def insert_tool_def delete_range_tool_def replace_as_def insert_as_def delete_range_as_def Let_def
  by (intro refused_or_lift refused_or_log refused_or_edit;
      simp add: names_allowed_def strval_Inr single_edit_def transaction_resources_def)+

lemma bindE_lift_Inr: "bindE (lift (Inr x)) f = f x"
  by (rule ext) (simp add: bindE_run)

lemma run_patch_refused:
  "(\<And>rs. patch_resources (tx_operations t) = Inr rs \<Longrightarrow> rs \<noteq> [] \<Longrightarrow>
      list_all (allowed rfc (ew_authz w) p ActPatch None) rs \<Longrightarrow> ok) \<Longrightarrow> refused_or w (run_patch sha rfc (Some p) t w) ok"
proof (cases "patch_resources (tx_operations t)")
  case (Inl e)
  then show ?thesis
    by (simp add: run_patch_def run_edit_def patch_as_def bindE_run map_err_run refused_or_def)
next
  case (Inr rs)
  assume ok: "\<And>rs. patch_resources (tx_operations t) = Inr rs \<Longrightarrow> rs \<noteq> [] \<Longrightarrow>
      list_all (allowed rfc (ew_authz w) p ActPatch None) rs \<Longrightarrow> ok"
  have "run_patch sha rfc (Some p) t w = run_edit (Some p)
      (\<lambda>p. bindE (authorize_operation rfc p ActPatch rs (Some (tx_id t))) (\<lambda>_. patch_with_identity sha (Some p) t))
      (edit_patch sha t) PatchResult w"
    using Inr by (simp add: run_patch_def run_edit_def patch_as_def bindE_lift_Inr)
  then show ?thesis using ok [OF Inr]
    by (simp only: ) (rule refused_or_edit)
qed

lemma patch_tools_refused:
  "refused_or w (apply_diff_tool sha rfc i (Some p) a w) (names_allowed sha rfc i FsApplyDiff p a w)"
  "refused_or w (patch_tool sha rfc i (Some p) a w) (names_allowed sha rfc i FsPatch p a w)"
proof -
  show "refused_or w (apply_diff_tool sha rfc i (Some p) a w) (names_allowed sha rfc i FsApplyDiff p a w)"
    unfolding apply_diff_tool_def
    by (intro refused_or_lift refused_or_log run_patch_refused)
      (auto simp: names_allowed_def strval_Inr single_edit_def bindR_Inr_iff)
  show "refused_or w (patch_tool sha rfc i (Some p) a w) (names_allowed sha rfc i FsPatch p a w)"
  proof (cases "Option.bind (json_get a ''operations'') as_array")
    case None
    then show ?thesis by (simp add: patch_tool_def refused_or_def)
  next
    case (Some xs)
    then show ?thesis unfolding patch_tool_def option.case Some
      by (intro refused_or_lift refused_or_log run_patch_refused)
        (auto simp: names_allowed_def patch_resources_plain Some)
  qed
qed

lemma resolve_records_log [simp]:
  "resolve_recovery_records sha e (w\<lparr>ew_log := lg\<rparr>) = resolve_recovery_records sha e w"
  unfolding resolve_recovery_records_def Let_def
  by (simp cong: option.case_cong sum.case_cong if_cong)

lemma rollback_tool_refused:
  "refused_or w (rollback_tool sha rfc (Some p) a w) (names_allowed sha rfc i FsRollback p a w)"
  unfolding rollback_tool_def
proof (intro refused_or_lift refused_or_log)
  fix e
  let ?w = "w\<lparr>ew_log := audit_allow ''workspace_edit'' ''rollback'' e (ew_log w)\<rparr>"
  assume e: "strval a ''edit_id'' = Inr e"
  obtain r1 w1 where rb: "rollback_edit sha rfc p e ?w = (r1, w1)" by fastforce
  have "(only_log ?w w1 \<and> isl r1) \<or> names_allowed sha rfc i FsRollback p a w"
  proof (cases "resolve_recovery_records sha e w")
    case (Inl err)
    with rb show ?thesis by (auto simp: rollback_edit_def bindE_run)
  next
    case (Inr records)
    with rb obtain body where "bindE (authorize_operation rfc p ActRollback (map rr_path records) (Some e)) (\<lambda>_. body) ?w = (r1, w1)"
      by (simp add: rollback_edit_def bindE_run)
    from as_cases [OF this] show ?thesis
    proof
      assume "body ?w = (r1, w1) \<and> map rr_path records \<noteq> []
        \<and> (\<forall>res \<in> set (map rr_path records). allowed rfc (ew_authz ?w) p ActRollback (Some e) res)"
      then show ?thesis
        using Inr e allowed_any [of rfc "ew_authz w" p ActRollback "Some e"]
        by (simp add: names_allowed_def strval_Inr list_all_iff)
    qed auto
  qed
  then show "refused_or ?w (bindE (case Some p of Some p \<Rightarrow> ret p
       | None \<Rightarrow> bindE (gets (az_manifest \<circ> ew_authz)) (\<lambda>manifest. case manifest of
           Inl e \<Rightarrow> fail (Other (Fmt ''rollback requires an initialized workspace: {}'' [anyhow_msg e]))
         | Inr ws \<Rightarrow> ret (operator_principal ws))) (\<lambda>p.
     bindE (map_err EditFailed (rollback_edit sha rfc p e)) (\<lambda>status. ret (RollbackResult status))) ?w)
     (names_allowed sha rfc i FsRollback p a w)"
    using rb by (cases r1) (auto simp: bindE_run map_err_run refused_or_def)
qed

lemma fs_tool_refused: "refused_or w (fs_tool_body sha rfc i tool (Some p) a w) (names_allowed sha rfc i tool p a w)"
  by (cases tool) (simp_all add: single_tools_refused patch_tools_refused rollback_tool_refused)

text \<open>
  C17. A call of a filesystem tool by a session bound to an agent passes four independent layers
  before a file changes: if the arguments do not match the advertised schema, or the agent has no
  live grant of the filesystem capability that covers the resource of the call, or the execution
  gate is closed, or the edit authorizer refuses one of the resources the call names (a deny rule,
  an unsafe path, another workspace, an unknown agent), then the call returns an error and no file
  changed. This holds for all six tools and for every argument value.
\<close>

theorem bound_call_guarded:
  "case call_fs_tool sha rfc i trust github (Some c) tool a w of (r, w') \<Rightarrow>
     (same_files w w' \<and> isl r) \<or> (arguments_accepted tool a \<and> caller_holds rfc (ew_authz w) c a \<and> gate_open trust
       \<and> names_allowed sha rfc i tool (agent_principal (si_agent_id c) (si_session_id c) (si_workspace_id c)) a w)"
proof -
  let ?name = "fs_tool_name tool" and ?p = "agent_principal (si_agent_id c) (si_session_id c) (si_workspace_id c)"
  let ?log = "audit_allow_as ''tool_invoke'' ?name ''tools/call'' (caller_audit_correlation (Some c))"
  obtain r0 w0 where zero: "check_arguments github ?name a w = (r0, w0)" by fastforce
  note args = check_arguments_run [OF zero]
  obtain r1 w1 where one: "authorize_caller_capability rfc c ?name a w0 = (r1, w1)" by fastforce
  note cap = caller_capability_run [OF one]
  let ?w1 = "w1\<lparr>ew_log := ?log (ew_log w1)\<rparr>"
  obtain r2 w2 where two: "authorize_tool trust ?name a (Some c) ?w1 = (r2, w2)" by fastforce
  note gate = authorize_tool_run [OF two]
  obtain r3 w3 where three: "fs_tool_body sha rfc i tool (Some ?p) a w2 = (r3, w3)" by fastforce
  note body = fs_tool_refused [of w2 sha rfc i tool ?p a, unfolded refused_or_def three fst_conv snd_conv]
  have w1: "only_log w w1" using args cap only_log_trans by blast
  have w2: "only_log w w2" using w1 gate only_log_trans only_log_update by blast
  have holds: "caller_holds rfc (ew_authz w0) c a = caller_holds rfc (ew_authz w) c a"
    using args only_log_parts [of w w0] by (simp add: caller_holds_def)
  have names: "names_allowed sha rfc i tool ?p a w2 = names_allowed sha rfc i tool ?p a w"
  proof -
    from w2 obtain lg where "w2 = w\<lparr>ew_log := lg\<rparr>" by (auto simp: only_log_def)
    moreover from this have "named_resources sha i tool a w2 = named_resources sha i tool a w" by (cases tool) (simp_all cong: option.case_cong)
    ultimately show ?thesis by (simp add: names_allowed_def cong: option.case_cong)
  qed
  have run: "call_fs_tool sha rfc i trust github (Some c) tool a w = (if \<not> is_object a
      then (Inl (invalid_params (Txt (''tools/call '' @ [CHR 0x27] @ ''arguments'' @ [CHR 0x27] @ '' must be a JSON object when present''))), w)
      else case r0 of Inl e \<Rightarrow> (Inl e, w0) | Inr _ \<Rightarrow> (case r1 of Inl e \<Rightarrow> (Inl e, w1)
        | Inr _ \<Rightarrow> (case r2 of Inl e \<Rightarrow> (Inl e, w2) | Inr _ \<Rightarrow> (r3, w3))))"
    using zero one two three unfolding call_fs_tool_def Let_def
    by (simp add: bindE_run edit_principal_def ensure_def split: sum.split)
  show ?thesis
    using args cap gate body names holds w1 w2 only_log_parts [of w w0] only_log_parts [of w w1] only_log_parts [of w w2]
      only_log_parts [OF only_log_trans [OF w2]]
    unfolding run by (cases "is_object a"; cases r0; cases r1; cases r2) (auto simp: same_files_def)
qed

section \<open>A global session is not asked about deny rules\<close>

lemma calm_edit_log [simp]: "calm_edit sha t path content (w\<lparr>ew_log := lg\<rparr>) = calm_edit sha t path content w"
  by (simp add: calm_edit_def calm_file_def file_holds_def calm_lock_def calm_snapshots_def)

lemma calm_edit_authz [simp]: "calm_edit sha t path content (w\<lparr>ew_authz := z\<rparr>) = calm_edit sha t path content w"
  by (simp add: calm_edit_def calm_file_def file_holds_def calm_lock_def calm_snapshots_def)

text \<open>
  A deny rule for \<open>filesystem.replace\<close> binds only sessions of agents: when the arguments match
  the schema, the gate is open and nothing interferes, the call of a session that is bound to no agent commits the replacement on
  the very path a stored deny rule for this tool matches.
\<close>

theorem global_edit_ignores_deny_rule:
  assumes gate: "gate_open trust" and accepted: "arguments_accepted FsReplace a"
    and deny: "policy_matching (az_policy (ew_authz w)) (fs_tool_name FsReplace) path = Inr (Some rule)"
    and args: "get_str a ''path'' = Some path" "get_str a ''old'' = Some old" "get_str a ''new'' = Some new"
    and calm: "calm_edit sha (single_edit i (Replace path old new (get_u64 a ''occurrence''))) path content w"
    and prep: "prepare_replace \<lparr>pf_content = content, pf_before = state_of sha path content\<rparr> None path old new
      (get_u64 a ''occurrence'') = Inr rp"
    and new: "new \<noteq> []" "valid_utf8 old" "valid_utf8 new" and fits: "file_fits (rp_prepared rp)"
  shows "\<exists>res w'. call_fs_tool sha rfc i trust github None FsReplace a w = (Inr (ReplaceResult res), w')
    \<and> er_status res = Committed \<and> fw_tree w' = (fw_tree w)(join (fw_root w) path \<mapsto> File (rp_prepared rp))"
proof -
  let ?t = "single_edit i (Replace path old new (get_u64 a ''occurrence''))"
  let ?log1 = "audit_allow_as ''tool_invoke'' (fs_tool_name FsReplace) ''tools/call'' (caller_audit_correlation None) (ew_log w)"
  let ?w1 = "w\<lparr>ew_log := ?log1\<rparr>"
  have object: "is_object a" using args(1) by (cases a) (simp_all add: get_str_def)
  have zero: "check_arguments github (fs_tool_name FsReplace) a w = (Inr (), w)"
    by (rule check_arguments_ok [OF accepted])
  obtain r w2 where two: "authorize_tool trust (fs_tool_name FsReplace) a None ?w1 = (r, w2)" by fastforce
  from authorize_tool_run [OF two] gate have r: "r = Inr ()" and ol: "only_log ?w1 w2" by auto
  from only_log_trans [OF only_log_update ol] obtain lg where w2: "w2 = w\<lparr>ew_log := lg\<rparr>"
    by (auto simp: only_log_def)
  let ?w3 = "w\<lparr>ew_log := audit_allow ''workspace_edit'' ''replace'' path lg\<rparr>"
  have "first_expected ?t = None" by (simp add: first_expected_def single_edit_def)
  with prep have prep': "prepare_replace \<lparr>pf_content = content, pf_before = state_of sha path content\<rparr>
      (first_expected ?t) path old new (get_u64 a ''occurrence'') = Inr rp" by simp
  from calm have calm': "calm_edit sha ?t path content ?w3" by simp
  from replace_runs [OF calm' _ prep' new fits] obtain res w' where
    run: "edit_replace sha ?t ?w3 = (Inr res, w')" "er_status res = Committed"
      "fw_tree w' = (fw_tree w)(join (fw_root w) path \<mapsto> File (rp_prepared rp))"
    by (auto simp: single_edit_def)
  have "call_fs_tool sha rfc i trust github None FsReplace a w = (Inr (ReplaceResult res), w')"
    using zero object two r w2 run(1) args
    by (simp add: call_fs_tool_def bindE_run ensure_def edit_principal_def replace_tool_def strval_def run_edit_def map_err_run Let_def)
  with run show ?thesis by blast
qed

definition sample_deny :: policy_rule where
  "sample_deny = \<lparr>pr_id = ''r1'', pr_tool = ''filesystem.replace'', pr_pattern = ''a'', pr_reason = None, pr_created_at = ''t''\<rparr>"

definition guarded_world :: edit_world where
  "guarded_world = (sample_world (Inr ''w''))\<lparr>ew_authz := (sample_authz (Inr ''w''))\<lparr>az_policy := Stored [sample_deny]\<rparr>\<rparr>"

definition sample_args :: json where
  "sample_args = JObj [(''path'', JStr ''a''), (''old'', JStr ''hello''), (''new'', JStr ''bye'')]"

theorem global_edit_ignores_deny_rule_witness:
  "\<exists>res w'. call_fs_tool sample_sha (\<lambda>_. None) ''e1'' (Some []) True None FsReplace sample_args guarded_world
     = (Inr (ReplaceResult res), w') \<and> er_status res = Committed \<and> fw_tree w' [''ws'', ''a''] = Some (File ''bye'')"
proof -
  let ?cur = "\<lparr>pf_content = ''hello'', pf_before = state_of sample_sha ''a'' ''hello''\<rparr>"
  have sh: "validate_shape sample_replace = Inr ()" by code_simp
  have t: "single_edit ''e1'' (Replace ''a'' ''hello'' ''bye'' None) = sample_replace"
    by (simp add: single_edit_def sample_replace_def)
  have gate: "gate_open (Some [])" by (simp add: gate_open_def trust_get_def)
  have accepted: "arguments_accepted FsReplace sample_args" unfolding arguments_accepted_def by code_simp
  have deny: "policy_matching (az_policy (ew_authz guarded_world)) (fs_tool_name FsReplace) ''a'' = Inr (Some sample_deny)"
  proof -
    have "policy_matching (Stored [sample_deny]) ''filesystem.replace'' ''a'' = Inr (Some sample_deny)" by code_simp
    then show ?thesis by (simp add: guarded_world_def)
  qed
  have "case prepare_replace ?cur None ''a'' ''hello'' ''bye'' None of Inl _ \<Rightarrow> False
    | Inr rp \<Rightarrow> rp_prepared rp = ''bye''" by code_simp
  then obtain rp where rp: "prepare_replace ?cur None ''a'' ''hello'' ''bye'' None = Inr rp" "rp_prepared rp = ''bye''"
    by (auto split: sum.splits)
  have v: "valid_utf8 ''hello''" "valid_utf8 ''bye''" by code_simp+
  have args: "get_str sample_args ''path'' = Some ''a''" "get_str sample_args ''old'' = Some ''hello''"
    "get_str sample_args ''new'' = Some ''bye''" "get_u64 sample_args ''occurrence'' = None"
    by (simp_all add: sample_args_def get_str_def get_u64_def)
  have c: "calm_edit sample_sha (single_edit ''e1'' (Replace ''a'' ''hello'' ''bye'' (get_u64 sample_args ''occurrence'')))
      ''a'' ''hello'' guarded_world"
    using sample_calm_edit [of sample_replace] sh by (simp add: args t guarded_world_def sample_replace_def [symmetric])
      (simp add: sample_replace_def)
  have "join (fw_root guarded_world) ''a'' = [''ws'', ''a'']"
    by (simp add: join_def target_components_def sample_world_def guarded_world_def)
  with global_edit_ignores_deny_rule [OF gate accepted deny args(1-3) c, of rp "\<lambda>_. None" True] rp v args show ?thesis
    by (auto simp: file_fits_def max_file_bytes_def)
qed

end
