(* ===== verification/PatternNfa.thy ===== *)
theory PatternNfa
  imports Pattern
begin

text \<open>
  The meaning of a parsed pattern as a relation between positions of the text, and the proof that
  the instruction list of \<open>Pattern\<close> has that meaning: from the start of a fragment, the clean
  steps lead to its exit exactly for the pairs of positions the tree relates. The second arm of
  the exit split behind every byte and anchor is never patched and stays at instruction 0; clean
  steps leave it out, and \<open>PatternSearch\<close> shows that it does no harm.
\<close>

section \<open>The meaning of a tree\<close>

primrec rel :: "string \<Rightarrow> ast \<Rightarrow> (nat \<times> nat) set" where
  "rel t (Byte f) = {(i, i + 1) |i. i < length t \<and> f (t ! i)}"
| "rel t Start = {(0, 0)}"
| "rel t End = {(length t, length t)}"
| "rel t (Seq parts) = foldr (O) (map (rel t) parts) Id"
| "rel t (Alt branches) = \<Union> (set (map (rel t) branches))"
| "rel t (Quantified body m bound) =
     (\<Union>n \<in> {n. m \<le> n \<and> (case bound of None \<Rightarrow> True | Some x \<Rightarrow> n \<le> m + (x - m))}. rel t body ^^ n)"

section \<open>Steps of the machine\<close>

fun is_split :: "inst \<Rightarrow> bool" where
  "is_split (ISplit a b) = True"
| "is_split _ = False"

text \<open>A split is an exit of a byte or anchor when it stands right behind it.\<close>

definition branching :: "inst list \<Rightarrow> nat \<Rightarrow> bool" where
  "branching P pc \<longleftrightarrow> pc = 0 \<or> is_split (P ! (pc - 1))"

text \<open>Configurations are pairs of instruction and position.\<close>

definition vstep :: "bool \<Rightarrow> inst list \<Rightarrow> string \<Rightarrow> nat \<times> nat \<Rightarrow> nat \<times> nat \<Rightarrow> bool" where
  "vstep clean P t x y \<longleftrightarrow> (case x of (pc, i) \<Rightarrow> pc < length P \<and> (case P ! pc of
      IByte f \<Rightarrow> i < length t \<and> f (t ! i) \<and> y = (pc + 1, i + 1)
    | IAnchor s \<Rightarrow> anchor_holds s (length t) i \<and> y = (pc + 1, i)
    | ISplit a b \<Rightarrow> y = (a, i) \<or> (clean \<longrightarrow> branching P pc) \<and> y = (b, i)
    | IMatch \<Rightarrow> False))"

abbreviation clean_step :: "inst list \<Rightarrow> string \<Rightarrow> nat \<times> nat \<Rightarrow> nat \<times> nat \<Rightarrow> bool" where
  "clean_step \<equiv> vstep True"

definition outside :: "nat \<Rightarrow> nat \<Rightarrow> nat \<Rightarrow> bool" where
  "outside lo hi q \<longleftrightarrow> q < lo \<or> hi \<le> q"

text \<open>
  The code in \<open>[lo, hi)\<close> entered at \<open>s\<close> leaves for \<open>k\<close> exactly after a pair of \<open>R\<close>: every pair is
  a run, and every run that ends outside the code goes through \<open>k\<close> first.
\<close>

definition frag :: "inst list \<Rightarrow> string \<Rightarrow> nat \<Rightarrow> nat \<Rightarrow> nat \<Rightarrow> nat \<Rightarrow> (nat \<times> nat) set \<Rightarrow> bool" where
  "frag P t lo hi s k R \<longleftrightarrow>
     (\<forall>i j. (i, j) \<in> R \<longrightarrow> (clean_step P t)\<^sup>*\<^sup>* (s, i) (k, j)) \<and>
     (\<forall>n i q m. outside lo hi q \<longrightarrow> (clean_step P t ^^ n) (s, i) (q, m) \<longrightarrow>
        (\<exists>j n'. n' < n \<and> (i, j) \<in> R \<and> (clean_step P t ^^ n') (k, j) (q, m)))"

lemma fragI:
  assumes "\<And>i j. (i, j) \<in> R \<Longrightarrow> (clean_step P t)\<^sup>*\<^sup>* (s, i) (k, j)"
    and "\<And>n i q m. outside lo hi q \<Longrightarrow> (clean_step P t ^^ n) (s, i) (q, m) \<Longrightarrow>
        \<exists>j n'. n' < n \<and> (i, j) \<in> R \<and> (clean_step P t ^^ n') (k, j) (q, m)"
  shows "frag P t lo hi s k R"
  using assms unfolding frag_def by blast

lemma frag_run: "frag P t lo hi s k R \<Longrightarrow> (i, j) \<in> R \<Longrightarrow> (clean_step P t)\<^sup>*\<^sup>* (s, i) (k, j)"
  unfolding frag_def by blast

lemma frag_exit:
  assumes "frag P t lo hi s k R" and "outside lo hi q" and "(clean_step P t ^^ n) (s, i) (q, m)"
  obtains j n' where "n' < n" "(i, j) \<in> R" "(clean_step P t ^^ n') (k, j) (q, m)"
  using assms unfolding frag_def by blast

lemma first_step:
  assumes "(r ^^ n) x y" and "x \<noteq> y"
  obtains n' z where "n = Suc n'" "r x z" "(r ^^ n') z y"
  using assms by (metis relpowp_E2)

lemma frag_wider: "frag P t lo hi s k R \<Longrightarrow> lo' \<le> lo \<Longrightarrow> hi \<le> hi' \<Longrightarrow> frag P t lo' hi' s k R"
  unfolding frag_def outside_def by (meson le_trans less_le_trans)

lemma two_steps: "r x y \<Longrightarrow> r y z \<Longrightarrow> r\<^sup>*\<^sup>* x z"
  by (meson converse_rtranclp_into_rtranclp r_into_rtranclp)

lemma frag_single:
  assumes "P ! s = i" and "i = IByte f \<and> R = rel t (Byte f) \<or> i = IAnchor True \<and> R = rel t Start
      \<or> i = IAnchor False \<and> R = rel t End"
    and "P ! Suc s = ISplit k b" and len: "Suc s < length P"
  shows "frag P t s (s + 2) s k R"
proof -
  have nb: "\<not> branching P (Suc s)" using assms(1,2) by (auto simp: branching_def)
  have exit: "clean_step P t (Suc s, i) y \<longleftrightarrow> y = (k, i)" for i y
    using assms(3) len nb by (simp add: vstep_def)
  have into: "clean_step P t (s, i) y \<longleftrightarrow> (\<exists>j. (i, j) \<in> R \<and> y = (Suc s, j))" for i y
    using assms(1,2) len by (auto simp: vstep_def anchor_holds_def split: inst.split)
  show ?thesis
  proof (rule fragI)
    fix i j assume "(i, j) \<in> R"
    then have "clean_step P t (s, i) (Suc s, j)" "clean_step P t (Suc s, j) (k, j)" using into exit by auto
    then show "(clean_step P t)\<^sup>*\<^sup>* (s, i) (k, j)" by (rule two_steps)
  next
    fix n i q m assume out: "outside s (s + 2) q" and run: "(clean_step P t ^^ n) (s, i) (q, m)"
    then have "(s, i) \<noteq> (q, m)" by (auto simp: outside_def)
    with run obtain n1 z where 1: "n = Suc n1" "clean_step P t (s, i) z" "(clean_step P t ^^ n1) z (q, m)"
      by (rule first_step)
    with into obtain j where j: "(i, j) \<in> R" "z = (Suc s, j)" by blast
    from out j(2) have "z \<noteq> (q, m)" by (auto simp: outside_def)
    with 1(3) obtain n2 w where "n1 = Suc n2" "clean_step P t z w" "(clean_step P t ^^ n2) w (q, m)"
      by (rule first_step)
    with 1 j exit show "\<exists>j n'. n' < n \<and> (i, j) \<in> R \<and> (clean_step P t ^^ n') (k, j) (q, m)"
      by (intro exI [of _ j] exI [of _ n2]) simp
  qed
qed

lemma frag_seq:
  assumes f: "frag P t lo mid s u R" and g: "frag P t mid hi u k S" and "lo \<le> mid" "mid \<le> hi"
  shows "frag P t lo hi s k (R O S)"
proof (rule fragI)
  fix i j assume "(i, j) \<in> R O S"
  with f g show "(clean_step P t)\<^sup>*\<^sup>* (s, i) (k, j)"
    by (meson frag_run relcompEpair rtranclp_trans)
next
  fix n i q m assume out: "outside lo hi q" and run: "(clean_step P t ^^ n) (s, i) (q, m)"
  with assms have "outside lo mid q" "outside mid hi q" by (auto simp: outside_def)
  with f g run show "\<exists>j n'. n' < n \<and> (i, j) \<in> R O S \<and> (clean_step P t ^^ n') (k, j) (q, m)"
    by (meson frag_exit less_trans relcompI)
qed

text \<open>A split with two continuations, of which one may be the exit itself.\<close>

definition continues :: "inst list \<Rightarrow> string \<Rightarrow> nat \<Rightarrow> nat \<Rightarrow> nat \<Rightarrow> nat \<Rightarrow> (nat \<times> nat) set \<Rightarrow> bool" where
  "continues P t lo hi a k R \<longleftrightarrow> frag P t lo hi a k R \<or> a = k \<and> R = Id"

lemma continues_run: "continues P t lo hi a k R \<Longrightarrow> (i, j) \<in> R \<Longrightarrow> (clean_step P t)\<^sup>*\<^sup>* (a, i) (k, j)"
  unfolding continues_def using frag_run by auto

lemma continues_exit:
  assumes "continues P t lo hi a k R" and "outside lo hi q" and "(clean_step P t ^^ n) (a, i) (q, m)"
  shows "\<exists>j n'. n' \<le> n \<and> (i, j) \<in> R \<and> (clean_step P t ^^ n') (k, j) (q, m)"
  using assms unfolding continues_def
proof (elim disjE conjE)
  assume "frag P t lo hi a k R"
  then obtain j n' where "n' < n" "(i, j) \<in> R" "(clean_step P t ^^ n') (k, j) (q, m)"
    using assms(2,3) frag_exit by blast
  then show ?thesis using less_imp_le by blast
qed auto

lemma frag_branch:
  assumes s: "P ! s = ISplit a b" "branching P s" "s < length P" "lo \<le> s" "s < hi"
    and "continues P t lo hi a k R" and "continues P t lo hi b k S"
  shows "frag P t lo hi s k (R \<union> S)"
proof (rule fragI)
  have step: "clean_step P t (s, i) y \<longleftrightarrow> y = (a, i) \<or> y = (b, i)" for i y
    using s by (auto simp: vstep_def)
  {
    fix i j assume "(i, j) \<in> R \<union> S"
    then have "(clean_step P t)\<^sup>*\<^sup>* (a, i) (k, j) \<or> (clean_step P t)\<^sup>*\<^sup>* (b, i) (k, j)"
      using assms(6,7) continues_run by blast
    moreover have "clean_step P t (s, i) (a, i)" "clean_step P t (s, i) (b, i)" using step by auto
    ultimately show "(clean_step P t)\<^sup>*\<^sup>* (s, i) (k, j)" by (auto intro: converse_rtranclp_into_rtranclp)
  next
    fix n i q m assume out: "outside lo hi q" and run: "(clean_step P t ^^ n) (s, i) (q, m)"
    then have "(s, i) \<noteq> (q, m)" using s by (auto simp: outside_def)
    with run obtain n1 z where 1: "n = Suc n1" "clean_step P t (s, i) z" "(clean_step P t ^^ n1) z (q, m)"
      by (rule first_step)
    with step continues_exit [OF assms(6) out] continues_exit [OF assms(7) out]
    show "\<exists>j n'. n' < n \<and> (i, j) \<in> R \<union> S \<and> (clean_step P t ^^ n') (k, j) (q, m)"
      by (metis Un_iff less_Suc_eq_le)
  }
qed

lemma frag_loop:
  assumes s: "P ! s = ISplit a k" "branching P s" "s < length P" "lo \<le> s" "s < hi"
    and body: "frag P t lo' hi' a s R" and sub: "lo \<le> lo'" "hi' \<le> hi"
  shows "frag P t lo hi s k (R\<^sup>*)"
proof (rule fragI)
  have split: "clean_step P t (s, i) y \<longleftrightarrow> y = (a, i) \<or> y = (k, i)" for i y
    using s by (auto simp: vstep_def)
  {
    fix i j assume "(i, j) \<in> R\<^sup>*"
    then show "(clean_step P t)\<^sup>*\<^sup>* (s, i) (k, j)"
    proof (induction rule: converse_rtrancl_induct)
      case base
      have "clean_step P t (s, j) (k, j)" using split by auto
      then show ?case by blast
    next
      case (step i i')
      then have "(clean_step P t)\<^sup>*\<^sup>* (a, i) (s, i')" using body frag_run by blast
      moreover have "clean_step P t (s, i) (a, i)" using split by auto
      ultimately have "(clean_step P t)\<^sup>*\<^sup>* (s, i) (s, i')" by (auto intro: converse_rtranclp_into_rtranclp)
      from this step.IH show ?case by (rule rtranclp_trans)
    qed
  next
    fix n i q m assume "outside lo hi q" and "(clean_step P t ^^ n) (s, i) (q, m)"
    then show "\<exists>j n'. n' < n \<and> (i, j) \<in> R\<^sup>* \<and> (clean_step P t ^^ n') (k, j) (q, m)"
    proof (induction n arbitrary: i rule: less_induct)
      case (less n)
      then have "(s, i) \<noteq> (q, m)" using s by (auto simp: outside_def)
      with less.prems(2) obtain n1 z where 1: "n = Suc n1" "clean_step P t (s, i) z" "(clean_step P t ^^ n1) z (q, m)"
        by (rule first_step)
      from 1(2) split consider "z = (k, i)" | "z = (a, i)" by blast
      then show ?case
      proof cases
        case 1
        with \<open>n = Suc n1\<close> \<open>(clean_step P t ^^ n1) z (q, m)\<close> show ?thesis by blast
      next
        case 2
        have "outside lo' hi' q" using less.prems(1) sub by (auto simp: outside_def)
        with body 2 1(3) obtain j n2 where "n2 < n1" "(i, j) \<in> R" "(clean_step P t ^^ n2) (s, j) (q, m)"
          using frag_exit by blast
        moreover from this less.IH [of n2 j] less.prems(1) 1(1) obtain j' n3 where
          "n3 < n2" "(j, j') \<in> R\<^sup>*" "(clean_step P t ^^ n3) (k, j') (q, m)" by auto
        ultimately show ?thesis using 1(1) by (meson converse_rtrancl_into_rtrancl less_SucI less_trans)
      qed
    qed
  }
qed

lemma frag_skip:
  "P ! s = ISplit k k \<Longrightarrow> s < length P \<Longrightarrow> branching P s \<Longrightarrow> frag P t s (s + 1) s k Id"
  using frag_branch [of P s k k s "s + 1" t k Id Id] by (simp add: continues_def)

section \<open>Patching\<close>

fun arm :: "inst \<Rightarrow> nat \<Rightarrow> nat" where
  "arm (ISplit a b) r = (if r = 0 then a else b)"
| "arm _ r = 0"

text \<open>\<open>j\<close> is \<open>i\<close> up to the arms \<open>h\<close> of a split.\<close>

definition inst_like :: "(nat \<Rightarrow> bool) \<Rightarrow> inst \<Rightarrow> inst \<Rightarrow> bool" where
  "inst_like h i j \<longleftrightarrow> (if is_split i then is_split j \<and> (\<forall>r < 2. h r \<or> arm j r = arm i r) else j = i)"

lemma is_split_arms: "is_split i \<Longrightarrow> i = ISplit (arm i 0) (arm i 1)"
  by (cases i) auto

lemma split_eq_arms: "is_split i \<Longrightarrow> is_split j \<Longrightarrow> (\<forall>r < 2. arm j r = arm i r) \<Longrightarrow> j = i"
proof -
  assume "is_split i" "is_split j" and eq: "\<forall>r < 2. arm j r = arm i r"
  then have "i = ISplit (arm i 0) (arm i 1)" "j = ISplit (arm j 0) (arm j 1)" using is_split_arms by blast+
  moreover have "arm j 0 = arm i 0" "arm j 1 = arm i 1" using eq by auto
  ultimately show ?thesis by metis
qed

lemma inst_like_refl [simp]: "inst_like h i i"
  by (simp add: inst_like_def)

lemma inst_like_split: "inst_like h i j \<Longrightarrow> is_split j = is_split i"
  by (auto simp: inst_like_def split: if_splits)

lemma inst_like_trans: "inst_like h i j \<Longrightarrow> inst_like g j k \<Longrightarrow> inst_like (\<lambda>r. h r \<or> g r) i k"
  unfolding inst_like_def by (cases "is_split i") (simp_all, metis)

lemma inst_like_mono: "inst_like h i j \<Longrightarrow> (\<And>r. h r \<Longrightarrow> g r) \<Longrightarrow> inst_like g i j"
  unfolding inst_like_def by meson

lemma inst_like_none: "inst_like (\<lambda>r. False) i j \<longleftrightarrow> j = i"
  by (cases "is_split i") (auto simp: inst_like_def intro: split_eq_arms)

lemma set_arm_length [simp]: "length (set_arm Q h k) = length Q"
  by (auto simp: set_arm_def split: inst.split)

lemma patch_length [simp]: "length (patch Q hs k) = length Q"
  unfolding patch_def by (induction hs arbitrary: Q) simp_all

lemma set_arm_nth:
  assumes "x < length Q" and h: "snd h < 2" and "is_split (Q ! x)"
  shows "is_split (set_arm Q h k ! x) \<and> (\<forall>r < 2. arm (set_arm Q h k ! x) r = (if (x, r) = h then k else arm (Q ! x) r))"
proof (cases "fst h = x")
  case True
  from assms(3) obtain a b where "Q ! x = ISplit a b" by (cases "Q ! x") auto
  with True assms(1) have "set_arm Q h k ! x = (if snd h = 0 then ISplit k b else ISplit a k)"
    by (simp add: set_arm_def)
  with True h \<open>Q ! x = ISplit a b\<close> show ?thesis
    by (cases h) (auto simp: less_2_cases_iff)
next
  case False
  then have "set_arm Q h k ! x = Q ! x" by (auto simp: set_arm_def split: inst.split)
  with False assms(3) show ?thesis by auto
qed

lemma set_arm_other: "x < length Q \<Longrightarrow> \<not> is_split (Q ! x) \<or> fst h \<noteq> x \<Longrightarrow> set_arm Q h k ! x = Q ! x"
  by (cases "fst h = x") (auto simp: set_arm_def nth_list_update split: inst.split)

lemma patch_nth:
  "x < length Q \<Longrightarrow> (\<forall>h \<in> set hs. snd h < 2) \<Longrightarrow> is_split (Q ! x) \<Longrightarrow> is_split (patch Q hs k ! x)
     \<and> (\<forall>r < 2. arm (patch Q hs k ! x) r = (if (x, r) \<in> set hs then k else arm (Q ! x) r))"
proof (induction hs arbitrary: Q)
  case Nil
  then show ?case by (simp add: patch_def)
next
  case (Cons h hs)
  have "patch Q (h # hs) k = patch (set_arm Q h k) hs k" by (simp add: patch_def)
  with Cons.IH [of "set_arm Q h k"] Cons.prems set_arm_nth [of x Q h k] show ?case by auto
qed

lemma patch_other:
  "x < length Q \<Longrightarrow> \<not> is_split (Q ! x) \<or> x \<notin> fst ` set hs \<Longrightarrow> patch Q hs k ! x = Q ! x"
proof (induction hs arbitrary: Q)
  case Nil
  then show ?case by (simp add: patch_def)
next
  case (Cons h hs)
  have "patch Q (h # hs) k = patch (set_arm Q h k) hs k" by (simp add: patch_def)
  with Cons.IH [of "set_arm Q h k"] Cons.prems set_arm_other [of x Q h k] show ?case by auto
qed

lemma patch_like:
  assumes "x < length Q" and "\<forall>h \<in> set hs. snd h < 2"
  shows "inst_like (\<lambda>r. (x, r) \<in> set hs) (Q ! x) (patch Q hs k ! x)"
  using patch_nth [OF assms] patch_other [OF assms(1)] by (auto simp: inst_like_def)

section \<open>Programs that contain a fragment\<close>

text \<open>\<open>P\<close> is \<open>Q\<close> on \<open>[lo, hi)\<close> up to the holes \<open>H\<close>, and all of \<open>H\<close> lead to \<open>k\<close>.\<close>

definition agree :: "inst list \<Rightarrow> inst list \<Rightarrow> nat \<Rightarrow> nat \<Rightarrow> hole set \<Rightarrow> bool" where
  "agree Q P lo hi H \<longleftrightarrow> hi \<le> length P \<and> (\<forall>x. lo \<le> x \<longrightarrow> x < hi \<longrightarrow> inst_like (\<lambda>r. (x, r) \<in> H) (Q ! x) (P ! x))"

definition leads :: "inst list \<Rightarrow> hole set \<Rightarrow> nat \<Rightarrow> bool" where
  "leads P H k \<longleftrightarrow> (\<forall>h \<in> H. arm (P ! fst h) (snd h) = k)"

text \<open>What a fragment in place is: its runs, its start above its first instruction, its exits.\<close>

definition placed :: "inst list \<Rightarrow> string \<Rightarrow> nat \<Rightarrow> nat \<Rightarrow> nat \<Rightarrow> nat \<Rightarrow> (nat \<times> nat) set \<Rightarrow> bool" where
  "placed P t lo hi s k R \<longleftrightarrow> frag P t lo hi s k R \<and> (\<forall>i. (clean_step P t)\<^sup>*\<^sup>* (s, i) (lo, i))"

definition tidy :: "inst list \<Rightarrow> nat \<Rightarrow> nat \<Rightarrow> bool" where
  "tidy P lo hi \<longleftrightarrow> (\<forall>x. lo \<le> x \<longrightarrow> x < hi \<longrightarrow> P ! x \<noteq> IMatch
     \<and> (lo < x \<longrightarrow> \<not> is_split (P ! (x - 1)) \<longrightarrow> (\<exists>a. P ! x = ISplit a 0)))"

definition emitted :: "inst list \<Rightarrow> nat \<Rightarrow> nat \<Rightarrow> fragment \<Rightarrow> (string \<Rightarrow> (nat \<times> nat) set) \<Rightarrow> bool" where
  "emitted Q lo hi f R \<longleftrightarrow> lo \<le> fr_start f \<and> fr_start f < hi \<and> hi \<le> length Q \<and> is_split (Q ! (hi - 1))
     \<and> (\<forall>h \<in> set (fr_pending f). lo \<le> fst h \<and> fst h < hi \<and> is_split (Q ! fst h) \<and> snd h < 2)
     \<and> (\<forall>P t k. agree Q P lo hi (set (fr_pending f)) \<longrightarrow> leads P (set (fr_pending f)) k \<longrightarrow> outside lo hi k
          \<longrightarrow> branching P lo \<longrightarrow> placed P t lo hi (fr_start f) k (R t) \<and> tidy P lo hi)"

lemma emittedI:
  assumes "lo \<le> fr_start f" "fr_start f < hi" "hi \<le> length Q" "is_split (Q ! (hi - 1))"
    and "\<And>h. h \<in> set (fr_pending f) \<Longrightarrow> lo \<le> fst h \<and> fst h < hi \<and> is_split (Q ! fst h) \<and> snd h < 2"
    and "\<And>P t k. agree Q P lo hi (set (fr_pending f)) \<Longrightarrow> leads P (set (fr_pending f)) k \<Longrightarrow> outside lo hi k
          \<Longrightarrow> branching P lo \<Longrightarrow> frag P t lo hi (fr_start f) k (R t)
            \<and> (\<forall>i. (clean_step P t)\<^sup>*\<^sup>* (fr_start f, i) (lo, i)) \<and> tidy P lo hi"
  shows "emitted Q lo hi f R"
  using assms unfolding emitted_def placed_def by blast

lemma emitted_range:
  assumes "emitted Q lo hi f R"
  shows "lo \<le> fr_start f" "fr_start f < hi" "lo < hi" "hi \<le> length Q" "is_split (Q ! (hi - 1))"
  using assms by (auto simp: emitted_def)

lemma emitted_holes:
  assumes "emitted Q lo hi f R" and "h \<in> set (fr_pending f)"
  shows "lo \<le> fst h" "fst h < hi" "is_split (Q ! fst h)" "snd h < 2"
  using assms by (auto simp: emitted_def)

lemma emitted_placed:
  assumes "emitted Q lo hi f R" and "agree Q P lo hi (set (fr_pending f))" and "leads P (set (fr_pending f)) k"
    and "outside lo hi k" and "branching P lo"
  shows "frag P t lo hi (fr_start f) k (R t)" "(clean_step P t)\<^sup>*\<^sup>* (fr_start f, i) (lo, i)" "tidy P lo hi"
  using assms unfolding emitted_def placed_def by blast+

lemma agree_nth: "agree Q P lo hi H \<Longrightarrow> lo \<le> x \<Longrightarrow> x < hi \<Longrightarrow> inst_like (\<lambda>r. (x, r) \<in> H) (Q ! x) (P ! x)"
  by (simp add: agree_def)

lemma agree_sub:
  assumes "agree Q P lo hi H" and "lo \<le> lo'" "hi' \<le> hi"
    and "\<And>h. h \<in> H \<Longrightarrow> lo' \<le> fst h \<Longrightarrow> fst h < hi' \<Longrightarrow> h \<in> H'"
  shows "agree Q P lo' hi' H'"
  unfolding agree_def
proof (intro conjI allI impI)
  show "hi' \<le> length P" using assms by (simp add: agree_def)
  fix x assume x: "lo' \<le> x" "x < hi'"
  with assms(2,3) have "inst_like (\<lambda>r. (x, r) \<in> H) (Q ! x) (P ! x)" by (intro agree_nth [OF assms(1)]) auto
  then show "inst_like (\<lambda>r. (x, r) \<in> H') (Q ! x) (P ! x)"
    by (rule inst_like_mono) (use assms(4) x in auto)
qed

lemma agree_cong: "(\<And>x. lo \<le> x \<Longrightarrow> x < hi \<Longrightarrow> Q' ! x = Q ! x) \<Longrightarrow> agree Q' P lo hi H = agree Q P lo hi H"
  by (simp add: agree_def)

lemma agree_exact: "agree Q P lo hi H \<Longrightarrow> lo \<le> x \<Longrightarrow> x < hi \<Longrightarrow> x \<notin> fst ` H \<Longrightarrow> P ! x = Q ! x"
proof -
  assume a: "agree Q P lo hi H" "lo \<le> x" "x < hi" "x \<notin> fst ` H"
  then have "inst_like (\<lambda>r. False) (Q ! x) (P ! x)"
    by (intro inst_like_mono [OF agree_nth]) force+
  then show ?thesis by (simp add: inst_like_none)
qed

lemma agree_split: "agree Q P lo hi H \<Longrightarrow> lo \<le> x \<Longrightarrow> x < hi \<Longrightarrow> is_split (P ! x) = is_split (Q ! x)"
  by (rule inst_like_split [OF agree_nth])

lemma emitted_cong:
  assumes "emitted Q lo hi f R" and "\<And>x. lo \<le> x \<Longrightarrow> x < hi \<Longrightarrow> Q' ! x = Q ! x" and "hi \<le> length Q'"
  shows "emitted Q' lo hi f R"
  using assms emitted_range(3) [OF assms(1)] by (auto simp: emitted_def agree_cong [OF assms(2)])

text \<open>A program that agrees with a patched one agrees with the original, and the patched arms lead on.\<close>

lemma agree_patched:
  assumes e: "emitted Q lo hi f R" and ag: "agree Q' P lo hi H"
    and Q': "\<forall>x. lo \<le> x \<longrightarrow> x < hi \<longrightarrow> Q' ! x = patch Q (fr_pending f) k ! x"
    and apart: "\<forall>h \<in> H. outside lo hi (fst h)"
  shows "agree Q P lo hi (set (fr_pending f))" "leads P (set (fr_pending f)) k"
proof -
  have snd2: "\<forall>h \<in> set (fr_pending f). snd h < 2" and len: "hi \<le> length Q"
    using emitted_holes [OF e] emitted_range [OF e] by auto
  show "agree Q P lo hi (set (fr_pending f))"
    unfolding agree_def
  proof (intro conjI allI impI)
    show "hi \<le> length P" using ag by (simp add: agree_def)
    fix x assume x: "lo \<le> x" "x < hi"
    have "inst_like (\<lambda>r. (x, r) \<in> H) (patch Q (fr_pending f) k ! x) (P ! x)" using agree_nth [OF ag x] Q' x by simp
    moreover have "inst_like (\<lambda>r. (x, r) \<in> set (fr_pending f)) (Q ! x) (patch Q (fr_pending f) k ! x)"
      using x len by (intro patch_like snd2) simp
    ultimately have "inst_like (\<lambda>r. (x, r) \<in> set (fr_pending f) \<or> (x, r) \<in> H) (Q ! x) (P ! x)"
      using inst_like_trans by blast
    then show "inst_like (\<lambda>r. (x, r) \<in> set (fr_pending f)) (Q ! x) (P ! x)"
      by (rule inst_like_mono) (use apart x in \<open>fastforce simp: outside_def\<close>)
  qed
  show "leads P (set (fr_pending f)) k"
    unfolding leads_def
  proof
    fix h assume h: "h \<in> set (fr_pending f)"
    note x = emitted_holes [OF e h]
    have "inst_like (\<lambda>r. (fst h, r) \<in> H) (patch Q (fr_pending f) k ! fst h) (P ! fst h)"
      using agree_nth [OF ag x(1,2)] Q' x by simp
    moreover have "is_split (patch Q (fr_pending f) k ! fst h)" "arm (patch Q (fr_pending f) k ! fst h) (snd h) = k"
      using patch_nth [of "fst h" Q "fr_pending f" k] x len snd2 h by auto
    moreover have "h \<notin> H" using h apart x by (auto simp: outside_def)
    ultimately show "arm (P ! fst h) (snd h) = k"
      using x(4) by (auto simp: inst_like_def)
  qed
qed

section \<open>Single instructions, sequences\<close>

lemma tidy_join:
  assumes "tidy P lo mid" and "tidy P mid hi" and "is_split (P ! (mid - 1))"
  shows "tidy P lo hi"
  unfolding tidy_def
proof (intro allI impI)
  fix x assume "lo \<le> x" "x < hi"
  show "P ! x \<noteq> IMatch \<and> (lo < x \<longrightarrow> \<not> is_split (P ! (x - 1)) \<longrightarrow> (\<exists>a. P ! x = ISplit a 0))"
  proof (cases "x < mid")
    case True
    with assms(1) \<open>lo \<le> x\<close> show ?thesis by (simp add: tidy_def)
  next
    case False
    with assms(2,3) \<open>x < hi\<close> show ?thesis by (cases "x = mid") (auto simp: tidy_def)
  qed
qed

lemma emitted_single:
  assumes "i = IByte f \<and> R = (\<lambda>t. rel t (Byte f)) \<or> i = IAnchor True \<and> R = (\<lambda>t. rel t Start)
      \<or> i = IAnchor False \<and> R = (\<lambda>t. rel t End)"
  shows "emitted (Q @ [i, ISplit 0 0]) (length Q) (length Q + 2) \<lparr>fr_start = length Q, fr_pending = [(length Q + 1, 0)]\<rparr> R"
proof (rule emittedI, goal_cases)
  case (6 P t k)
  let ?s = "length Q" and ?Q = "Q @ [i, ISplit 0 0]"
  have ns: "\<not> is_split i" using assms by auto
  have "inst_like (\<lambda>r. (?s, r) \<in> {(?s + 1, 0)}) (?Q ! ?s) (P ! ?s)" using agree_nth [OF 6(1), of ?s] by simp
  then have 1: "P ! ?s = i" using ns by (simp add: inst_like_def)
  have "inst_like (\<lambda>r. (?s + 1, r) \<in> {(?s + 1, 0)}) (?Q ! (?s + 1)) (P ! (?s + 1))"
    using agree_nth [OF 6(1), of "?s + 1"] by simp
  then have "is_split (P ! (?s + 1))" "\<forall>r < 2. r = 0 \<or> arm (P ! (?s + 1)) r = 0" by (auto simp: inst_like_def nth_append)
  then have "is_split (P ! (?s + 1))" "arm (P ! (?s + 1)) 1 = 0" by (auto dest: spec [of _ 1])
  moreover have "arm (P ! (?s + 1)) 0 = k" using 6(2) by (simp add: leads_def)
  ultimately have 2: "P ! Suc ?s = ISplit k 0" using is_split_arms by fastforce
  have len: "Suc ?s < length P" using 6(1) by (simp add: agree_def)
  have "frag P t ?s (?s + 2) ?s k (R t)"
    by (rule frag_single [OF 1 _ 2 len]) (use assms in auto)
  moreover have "tidy P ?s (?s + 2)"
    using 1 2 assms by (auto simp: tidy_def less_Suc_eq le_Suc_eq)
  ultimately show ?case by simp
qed (auto simp: nth_append)

lemma emitted_join:
  assumes f: "emitted Q lo mid f R" and g: "emitted Q' mid hi g S"
    and Q': "\<And>x. lo \<le> x \<Longrightarrow> x < mid \<Longrightarrow> Q' ! x = patch Q (fr_pending f) (fr_start g) ! x"
  shows "emitted Q' lo hi \<lparr>fr_start = fr_start f, fr_pending = fr_pending g\<rparr> (\<lambda>t. R t O S t)"
proof (rule emittedI, goal_cases)
  case (5 h)
  then have "h \<in> set (fr_pending g)" by simp
  note emitted_holes [OF g this]
  with emitted_range(3) [OF f] show ?case by linarith
next
  case (6 P t k)
  note rf = emitted_range [OF f] and rg = emitted_range [OF g]
  have holes_g: "\<And>h. h \<in> set (fr_pending g) \<Longrightarrow> mid \<le> fst h" using emitted_holes [OF g] by blast
  have ag: "agree Q' P mid hi (set (fr_pending g))" using rf by (intro agree_sub [OF 6(1)]) auto
  have am: "agree Q' P lo mid (set (fr_pending g))" using rg by (intro agree_sub [OF 6(1)]) auto
  have apart: "\<forall>h \<in> set (fr_pending g). outside lo mid (fst h)" using holes_g by (simp add: outside_def)
  have eq: "\<forall>x. lo \<le> x \<longrightarrow> x < mid \<longrightarrow> Q' ! x = patch Q (fr_pending f) (fr_start g) ! x" using Q' by simp
  note af = agree_patched [OF f am eq apart]
  have "is_split (P ! (mid - 1))" using agree_split [OF af(1)] rf by simp
  moreover from this have br: "branching P mid" by (simp add: branching_def)
  have out: "outside lo mid (fr_start g)" "outside mid hi k" using rf rg 6(3) by (auto simp: outside_def)
  have lg: "leads P (set (fr_pending g)) k" using 6(2) by simp
  note pf = emitted_placed [OF f af out(1) 6(4)] and pg = emitted_placed [OF g ag lg out(2) br]
  have "frag P t lo hi (fr_start f) k (R t O S t)"
    by (rule frag_seq [OF pf(1) pg(1)]) (use rf rg in auto)
  moreover have "tidy P lo hi" by (rule tidy_join [OF pf(3) pg(3)]) fact
  ultimately show ?case using pf(2) by simp
qed (use emitted_range [OF f] emitted_range [OF g] in auto)

fun emitted_list :: "inst list \<Rightarrow> nat \<Rightarrow> nat \<Rightarrow> fragment list \<Rightarrow> (string \<Rightarrow> (nat \<times> nat) set) list \<Rightarrow> bool" where
  "emitted_list Q lo hi [] Rs \<longleftrightarrow> Rs = [] \<and> lo = hi \<and> hi \<le> length Q"
| "emitted_list Q lo hi (f # fs) Rs \<longleftrightarrow> (\<exists>mid R Rs'. Rs = R # Rs' \<and> emitted Q lo mid f R \<and> emitted_list Q mid hi fs Rs')"

lemma emitted_list_range: "emitted_list Q lo hi fs Rs \<Longrightarrow> lo \<le> hi \<and> hi \<le> length Q \<and> (fs \<noteq> [] \<longrightarrow> lo < hi)"
proof (induction fs arbitrary: lo Rs)
  case (Cons f fs)
  then obtain mid R Rs' where "emitted Q lo mid f R" "emitted_list Q mid hi fs Rs'" by auto
  with Cons.IH emitted_range [of Q lo mid f R] show ?case by force
qed simp

lemma emitted_list_cong:
  "emitted_list Q lo hi fs Rs \<Longrightarrow> (\<And>x. lo \<le> x \<Longrightarrow> x < hi \<Longrightarrow> Q' ! x = Q ! x) \<Longrightarrow> hi \<le> length Q' \<Longrightarrow> emitted_list Q' lo hi fs Rs"
proof (induction fs arbitrary: lo Rs)
  case (Cons f fs)
  then obtain mid R Rs' where e: "Rs = R # Rs'" "emitted Q lo mid f R" "emitted_list Q mid hi fs Rs'" by auto
  note r = emitted_range [OF e(2)] emitted_list_range [OF e(3)]
  have "emitted Q' lo mid f R" by (rule emitted_cong [OF e(2)]) (use Cons.prems r in auto)
  moreover have "emitted_list Q' mid hi fs Rs'" by (rule Cons.IH [OF e(3)]) (use Cons.prems r in auto)
  ultimately show ?case using e(1) by auto
qed auto

lemma emitted_list_append:
  "emitted_list Q lo mid fs Rs \<Longrightarrow> emitted_list Q mid hi gs Ss \<Longrightarrow> emitted_list Q lo hi (fs @ gs) (Rs @ Ss)"
  by (induction fs arbitrary: lo Rs) fastforce+

lemma fragment_eta [simp]: "\<lparr>fr_start = fr_start f, fr_pending = fr_pending f\<rparr> = f" for f :: fragment
  by (cases f) simp

definition run_all :: "(string \<Rightarrow> (nat \<times> nat) set) list \<Rightarrow> string \<Rightarrow> (nat \<times> nat) set" where
  "run_all Rs t = foldr (O) (map (\<lambda>R. R t) Rs) Id"

lemma run_all_simps [simp]: "run_all [] t = Id" "run_all (R # Rs) t = R t O run_all Rs t"
  by (simp_all add: run_all_def)

lemma run_all_single: "run_all [R] = R"
  by (simp add: fun_eq_iff)

lemma link_emitted:
  "emitted_list Q lo hi fs Rs \<Longrightarrow> fs \<noteq> [] \<Longrightarrow>
     emitted (link fs Q) lo hi \<lparr>fr_start = fr_start (hd fs), fr_pending = fr_pending (last fs)\<rparr> (run_all Rs)
     \<and> length (link fs Q) = length Q \<and> (\<forall>x < length Q. outside lo hi x \<longrightarrow> link fs Q ! x = Q ! x)"
proof (induction fs Q arbitrary: lo Rs rule: link.induct)
  case (1 f g fs Q)
  let ?Q = "patch Q (fr_pending f) (fr_start g)"
  from "1.prems"(1) obtain mid R Rs' where e: "Rs = R # Rs'" "emitted Q lo mid f R" "emitted_list Q mid hi (g # fs) Rs'"
    by (subst (asm) emitted_list.simps(2)) blast
  note r = emitted_range [OF e(2)] emitted_list_range [OF e(3)]
  have same: "?Q ! x = Q ! x" if "x < length Q" "outside lo mid x" for x
    using that emitted_holes [OF e(2)] by (intro patch_other) (force simp: outside_def)+
  have "emitted_list ?Q mid hi (g # fs) Rs'" by (rule emitted_list_cong [OF e(3)]) (use r same in \<open>auto simp: outside_def\<close>)
  from "1.IH" [OF this] have rest: "emitted (link (g # fs) ?Q) mid hi
        \<lparr>fr_start = fr_start g, fr_pending = fr_pending (last (g # fs))\<rparr> (run_all Rs')"
      "length (link (g # fs) ?Q) = length Q"
      "\<And>x. x < length Q \<Longrightarrow> outside mid hi x \<Longrightarrow> link (g # fs) ?Q ! x = ?Q ! x" by simp_all
  have "emitted (link (g # fs) ?Q) lo hi \<lparr>fr_start = fr_start f, fr_pending = fr_pending (last (g # fs))\<rparr>
      (\<lambda>t. R t O run_all Rs' t)"
    using emitted_join [OF e(2) rest(1)] rest(3) r by (simp add: outside_def)
  moreover have "run_all Rs = (\<lambda>t. R t O run_all Rs' t)" using e(1) by (simp add: fun_eq_iff)
  moreover have "link (g # fs) ?Q ! x = Q ! x" if "x < length Q" "outside lo hi x" for x
    using rest(3) [of x] same [of x] that r by (auto simp: outside_def)
  ultimately show ?case using rest(2) by simp
qed (auto simp: run_all_single)

section \<open>What each construct emits\<close>

definition emits :: "emitter \<Rightarrow> (string \<Rightarrow> (nat \<times> nat) set) \<Rightarrow> bool" where
  "emits e R \<longleftrightarrow> (\<forall>Q f Q'. e Q = Inr (f, Q') \<longrightarrow>
     (\<exists>code. Q' = Q @ code) \<and> emitted Q' (length Q) (length Q') f R)"

definition emits_list ::
    "(inst list \<Rightarrow> msg + fragment list \<times> inst list) \<Rightarrow> (string \<Rightarrow> (nat \<times> nat) set) list \<Rightarrow> bool" where
  "emits_list E Rs \<longleftrightarrow> (\<forall>Q fs Q'. E Q = Inr (fs, Q') \<longrightarrow>
     (\<exists>code. Q' = Q @ code) \<and> emitted_list Q' (length Q) (length Q') fs Rs)"

lemma emitsD:
  assumes "emits e R" and "e Q = Inr (f, Q')"
  obtains code where "Q' = Q @ code" "emitted Q' (length Q) (length Q') f R"
  using assms unfolding emits_def by blast

lemma emits_listD:
  assumes "emits_list E Rs" and "E Q = Inr (fs, Q')"
  obtains code where "Q' = Q @ code" "emitted_list Q' (length Q) (length Q') fs Rs"
  using assms unfolding emits_list_def by blast

lemma emits_limited: "emits e R \<Longrightarrow> emits (limited e) R"
  by (simp add: emits_def limited_def)

lemma emits_single:
  assumes "i = IByte f \<and> R = (\<lambda>t. rel t (Byte f)) \<or> i = IAnchor True \<and> R = (\<lambda>t. rel t Start)
      \<or> i = IAnchor False \<and> R = (\<lambda>t. rel t End)"
  shows "emits (\<lambda>Q. Inr (single i Q)) R"
  using emitted_single [OF assms] by (simp add: emits_def single_def)

lemma emits_list_Nil: "emits_list (\<lambda>Q. Inr ([], Q)) []"
  by (simp add: emits_list_def)

lemma emits_list_Cons:
  assumes e: "emits e R" and E: "emits_list E Rs"
  shows "emits_list (\<lambda>Q. bindR (e Q) (\<lambda>(f, Q1). bindR (E Q1) (\<lambda>(fs, Q2). Inr (f # fs, Q2)))) (R # Rs)"
  unfolding emits_list_def
proof (intro allI impI)
  fix Q fs Q'
  assume "bindR (e Q) (\<lambda>(f, Q1). bindR (E Q1) (\<lambda>(fs, Q2). Inr (f # fs, Q2))) = Inr (fs, Q')"
  then obtain f Q1 gs where 1: "e Q = Inr (f, Q1)" "E Q1 = Inr (gs, Q')" "fs = f # gs"
    by (auto simp: bindR_Inr_iff)
  obtain code where a: "Q1 = Q @ code" "emitted Q1 (length Q) (length Q1) f R" using emitsD [OF e 1(1)] .
  obtain code' where b: "Q' = Q1 @ code'" "emitted_list Q' (length Q1) (length Q') gs Rs" using emits_listD [OF E 1(2)] .
  have "emitted Q' (length Q) (length Q1) f R" by (rule emitted_cong [OF a(2)]) (use b(1) in \<open>auto simp: nth_append\<close>)
  with a(1) b 1(3) show "(\<exists>code. Q' = Q @ code) \<and> emitted_list Q' (length Q) (length Q') fs (R # Rs)" by auto
qed

lemma emits_times: "emits e R \<Longrightarrow> emits_list (emit_times n e) (replicate n R)"
proof (induction n)
  case 0
  then show ?case using emits_list_Nil by (simp add: emits_list_def)
next
  case (Suc n)
  from emits_list_Cons [OF Suc.prems Suc.IH [OF Suc.prems]] show ?case by (simp add: emits_list_def)
qed

lemma keeps_prefix:
  assumes "length Q \<le> length Q'" and "\<And>x. x < length Q \<Longrightarrow> Q' ! x = Q ! x"
  shows "\<exists>code. Q' = Q @ code"
proof -
  have "take (length Q) Q' = Q" using assms by (intro nth_equalityI) auto
  then show ?thesis by (metis append_take_drop_id)
qed

lemma emitted_skip:
  "emitted (Q @ [ISplit 0 0]) (length Q) (length Q + 1) \<lparr>fr_start = length Q, fr_pending = [(length Q, 0), (length Q, 1)]\<rparr> (run_all [])"
proof (rule emittedI, goal_cases)
  case (6 P t k)
  let ?s = "length Q"
  have "is_split (P ! ?s)" using agree_split [OF 6(1), of ?s] by simp
  moreover have "arm (P ! ?s) 0 = k" "arm (P ! ?s) 1 = k" using 6(2) by (auto simp: leads_def)
  ultimately have s: "P ! ?s = ISplit k k" using is_split_arms by fastforce
  have "?s < length P" using 6(1) by (simp add: agree_def)
  with s 6(4) have "frag P t ?s (?s + 1) ?s k Id" by (intro frag_skip)
  moreover have "tidy P ?s (?s + 1)" using s by (simp add: tidy_def le_less_Suc_eq)
  ultimately show ?case by simp
qed auto

lemma linked_emits:
  assumes E: "emits_list E Rs"
  shows "emits (\<lambda>Q. bindR (E Q) (\<lambda>fQ. Inr (linked fQ))) (run_all Rs)"
  unfolding emits_def
proof (intro allI impI)
  fix Q f Q'
  assume "bindR (E Q) (\<lambda>fQ. Inr (linked fQ)) = Inr (f, Q')"
  then obtain fs Q1 where 1: "E Q = Inr (fs, Q1)" "linked (fs, Q1) = (f, Q')" by (auto simp: bindR_Inr_iff)
  obtain code where a: "Q1 = Q @ code" "emitted_list Q1 (length Q) (length Q1) fs Rs" using emits_listD [OF E 1(1)] .
  show "(\<exists>code. Q' = Q @ code) \<and> emitted Q' (length Q) (length Q') f (run_all Rs)"
  proof (cases "fs = []")
    case True
    with a have "Rs = []" "Q1 = Q" by auto
    with True 1(2) emitted_skip show ?thesis by (auto simp: linked_def)
  next
    case False
    with 1(2) have "Q' = link fs Q1" "f = \<lparr>fr_start = fr_start (hd fs), fr_pending = fr_pending (last fs)\<rparr>"
      by (auto simp: linked_def)
    with link_emitted [OF a(2) False] a(1) show ?thesis
      by (auto intro!: keeps_prefix simp: outside_def nth_append)
  qed
qed

text \<open>The body of an optional or repeated copy stands behind its split.\<close>

lemma split_body:
  assumes e: "emits e R" and run: "e (Q @ [ISplit 0 0]) = Inr (f, Q1)"
  defines "Q2 \<equiv> set_arm Q1 (length Q, 0) (fr_start f)"
  shows "\<exists>code. Q2 = Q @ code" "emitted Q2 (length Q + 1) (length Q2) f R" "Q2 ! length Q = ISplit (fr_start f) 0"
    "length Q2 = length Q1" "length Q + 1 < length Q2"
proof -
  obtain code where a: "Q1 = (Q @ [ISplit 0 0]) @ code" "emitted Q1 (length Q + 1) (length Q1) f R"
    using emitsD [OF e run] by auto
  then have Q1: "Q1 ! length Q = ISplit 0 0" by (simp add: nth_append)
  have Q2: "Q2 = Q @ [ISplit (fr_start f) 0] @ code"
    using Q1 a(1) by (simp add: Q2_def set_arm_def list_update_append)
  then show "\<exists>code. Q2 = Q @ code" "Q2 ! length Q = ISplit (fr_start f) 0" "length Q2 = length Q1"
    using a(1) by (auto simp: nth_append)
  then show "emitted Q2 (length Q + 1) (length Q2) f R"
    by (intro emitted_cong [OF a(2), unfolded \<open>length Q2 = length Q1\<close> [symmetric]])
      (auto simp: a(1) Q2 nth_append nth_Cons split: nat.split)
  then show "length Q + 1 < length Q2" using emitted_range(3) by blast
qed

lemma emits_optional:
  assumes e: "emits e R"
  shows "emits (optional e) (\<lambda>t. R t \<union> Id)"
  unfolding emits_def
proof (intro allI impI)
  fix Q g Q'
  assume "optional e Q = Inr (g, Q')"
  then obtain f Q1 where run: "e (Q @ [ISplit 0 0]) = Inr (f, Q1)" and Q': "Q' = set_arm Q1 (length Q, 0) (fr_start f)"
    and g: "g = \<lparr>fr_start = length Q, fr_pending = fr_pending f @ [(length Q, 1)]\<rparr>"
    by (auto simp: optional_def bindR_Inr_iff)
  note b = split_body [OF e run, folded Q']
  let ?s = "length Q" and ?hi = "length Q'"
  have "emitted Q' ?s ?hi g (\<lambda>t. R t \<union> Id)"
  proof (rule emittedI, goal_cases)
    case (5 h)
    then consider "h \<in> set (fr_pending f)" | "h = (?s, 1)" by (auto simp: g)
    then show ?case
    proof cases
      case 1
      with emitted_holes [OF b(2) 1] show ?thesis by simp
    next
      case 2
      with b(3,5) show ?thesis by simp
    qed
  next
    case (6 P t k)
    have "inst_like (\<lambda>r. (?s, r) \<in> set (fr_pending g)) (ISplit (fr_start f) 0) (P ! ?s)"
      using agree_nth [OF 6(1), of ?s] b(3,5) by simp
    moreover have "(?s, 0) \<notin> set (fr_pending g)" using emitted_holes(1) [OF b(2)] by (force simp: g)
    ultimately have "is_split (P ! ?s)" "arm (P ! ?s) 0 = fr_start f" by (auto simp: inst_like_def dest: spec [of _ 0])
    moreover have "arm (P ! ?s) 1 = k" using 6(2) by (auto simp: leads_def g)
    ultimately have s: "P ! ?s = ISplit (fr_start f) k" using is_split_arms by fastforce
    have ag: "agree Q' P (?s + 1) ?hi (set (fr_pending f))" by (rule agree_sub [OF 6(1)]) (auto simp: g)
    have ld: "leads P (set (fr_pending f)) k" using 6(2) by (auto simp: leads_def g)
    have out: "outside (?s + 1) ?hi k" using 6(3) by (auto simp: outside_def)
    have br: "branching P (?s + 1)" using s by (simp add: branching_def)
    note pl = emitted_placed [OF b(2) ag ld out br]
    have "frag P t ?s ?hi ?s k (R t \<union> Id)"
    proof (rule frag_branch [OF s 6(4)])
      show "?s < length P" using 6(1) b(5) by (simp add: agree_def)
      show "continues P t ?s ?hi (fr_start f) k (R t)" using frag_wider [OF pl(1)] by (simp add: continues_def)
    qed (use b(5) in \<open>auto simp: continues_def\<close>)
    moreover have "tidy P ?s (?s + 1)" using s by (simp add: tidy_def le_less_Suc_eq)
    then have "tidy P ?s ?hi" by (rule tidy_join [OF _ pl(3)]) (simp add: s)
    ultimately show ?case by (simp add: g)
  qed (use emitted_range [OF b(2)] b(5) in \<open>auto simp: g\<close>)
  with b(1) show "(\<exists>code. Q' = Q @ code) \<and> emitted Q' ?s ?hi g (\<lambda>t. R t \<union> Id)" by blast
qed

lemma emits_repeated:
  assumes e: "emits e R"
  shows "emits (repeated e) (\<lambda>t. (R t)\<^sup>*)"
  unfolding emits_def
proof (intro allI impI)
  fix Q g Q'
  assume "repeated e Q = Inr (g, Q')"
  then obtain f Q1 Q2 where run: "e (Q @ [ISplit 0 0]) = Inr (f, Q1)" and Q2: "Q2 = set_arm Q1 (length Q, 0) (fr_start f)"
    and Q': "Q' = patch Q2 (fr_pending f) (length Q)"
    and g: "g = \<lparr>fr_start = length Q, fr_pending = [(length Q, 1)]\<rparr>"
    by (auto simp: repeated_def bindR_Inr_iff)
  note b = split_body [OF e run, folded Q2]
  let ?s = "length Q" and ?hi = "length Q'"
  have hi: "length Q' = length Q2" by (simp add: Q')
  have bf: "emitted Q2 (?s + 1) ?hi f R" using b(2) hi by simp
  have holes: "h \<in> set (fr_pending f) \<Longrightarrow> ?s + 1 \<le> fst h" for h using emitted_holes(1) [OF bf] .
  have s': "Q' ! ?s = ISplit (fr_start f) 0"
    unfolding Q' using patch_other [of ?s Q2 "fr_pending f" ?s] holes b(3,5) by force
  have pre: "\<exists>code. Q' = Q @ code"
  proof (rule keeps_prefix)
    fix x assume x: "x < length Q"
    then have "Q' ! x = Q2 ! x" unfolding Q' using holes b(5) by (intro patch_other) force+
    with b(1) x show "Q' ! x = Q ! x" by (auto simp: nth_append)
  qed (use hi b(5) in simp)
  have "emitted Q' ?s ?hi g (\<lambda>t. (R t)\<^sup>*)"
  proof (rule emittedI, goal_cases)
    case 4
    have "is_split (Q2 ! (?hi - 1))" using emitted_range(5) [OF bf] .
    then show ?case
      unfolding Q' using patch_nth [of "?hi - 1" Q2 "fr_pending f" ?s] emitted_holes(4) [OF bf] b(5) hi by auto
  next
    case (6 P t k)
    have "inst_like (\<lambda>r. (?s, r) \<in> set (fr_pending g)) (ISplit (fr_start f) 0) (P ! ?s)"
      using agree_nth [OF 6(1), of ?s] s' b(5) hi by simp
    then have "is_split (P ! ?s)" "arm (P ! ?s) 0 = fr_start f" by (auto simp: inst_like_def g dest: spec [of _ 0])
    moreover have "arm (P ! ?s) 1 = k" using 6(2) by (auto simp: leads_def g)
    ultimately have s: "P ! ?s = ISplit (fr_start f) k" using is_split_arms by fastforce
    have am: "agree Q' P (?s + 1) ?hi (set (fr_pending g))" by (rule agree_sub [OF 6(1)]) auto
    have apart: "\<forall>h \<in> set (fr_pending g). outside (?s + 1) ?hi (fst h)" by (auto simp: g outside_def)
    have eq: "\<forall>x. ?s + 1 \<le> x \<longrightarrow> x < ?hi \<longrightarrow> Q' ! x = patch Q2 (fr_pending f) ?s ! x" by (simp add: Q')
    note af = agree_patched [OF bf am eq apart]
    have out: "outside (?s + 1) ?hi ?s" by (simp add: outside_def)
    have br: "branching P (?s + 1)" using s by (simp add: branching_def)
    note pl = emitted_placed [OF bf af out br]
    have "frag P t ?s ?hi ?s k ((R t)\<^sup>*)"
      by (rule frag_loop [OF s 6(4) _ _ _ pl(1)]) (use 6(1) b(5) hi in \<open>auto simp: agree_def\<close>)
    moreover have "tidy P ?s (?s + 1)" using s by (simp add: tidy_def le_less_Suc_eq)
    then have "tidy P ?s ?hi" by (rule tidy_join [OF _ pl(3)]) (simp add: s)
    ultimately show ?case by (simp add: g)
  qed (use b(5) hi s' in \<open>auto simp: g\<close>)
  with pre show "(\<exists>code. Q' = Q @ code) \<and> emitted Q' ?s ?hi g (\<lambda>t. (R t)\<^sup>*)" by blast
qed

section \<open>Alternations\<close>

abbreviation holes_of :: "fragment list \<Rightarrow> hole set" where
  "holes_of fs \<equiv> set (concat (map fr_pending fs))"

lemma emitted_list_holes:
  "emitted_list Q lo hi fs Rs \<Longrightarrow> h \<in> holes_of fs \<Longrightarrow> lo \<le> fst h \<and> fst h < hi \<and> is_split (Q ! fst h) \<and> snd h < 2"
proof (induction fs arbitrary: lo Rs)
  case (Cons f fs)
  then obtain mid R Rs' where e: "emitted Q lo mid f R" "emitted_list Q mid hi fs Rs'" by auto
  from Cons.prems(2) consider "h \<in> set (fr_pending f)" | "h \<in> holes_of fs" by auto
  then show ?case
  proof cases
    case 1
    with emitted_holes [OF e(1) 1] emitted_list_range [OF e(2)] show ?thesis by simp
  next
    case 2
    with Cons.IH [OF e(2)] emitted_range [OF e(1)] show ?thesis by force
  qed
qed simp

lemma list_placed:
  assumes "emitted_list Q lo hi fs Rs" and "agree Q P lo hi (holes_of fs)" and "leads P (holes_of fs) k"
    and "outside lo hi k" and "branching P lo" and "fs \<noteq> []"
  shows "list_all2 (\<lambda>f R. frag P t lo hi (fr_start f) k (R t)) fs Rs \<and> tidy P lo hi \<and> branching P hi
    \<and> (clean_step P t)\<^sup>*\<^sup>* (fr_start (hd fs), i) (lo, i)"
  using assms
proof (induction fs arbitrary: lo Rs i)
  case (Cons f fs)
  from Cons.prems(1) obtain mid R Rs' where e: "Rs = R # Rs'" "emitted Q lo mid f R" "emitted_list Q mid hi fs Rs'" by auto
  note r = emitted_range [OF e(2)] emitted_list_range [OF e(3)]
  have af: "agree Q P lo mid (set (fr_pending f))"
    by (rule agree_sub [OF Cons.prems(2)]) (use r emitted_list_holes [OF e(3)] in force)+
  have ag: "agree Q P mid hi (holes_of fs)"
    by (rule agree_sub [OF Cons.prems(2)]) (use r emitted_holes [OF e(2)] in force)+
  have ld: "leads P (set (fr_pending f)) k" "leads P (holes_of fs) k" using Cons.prems(3) by (auto simp: leads_def)
  have out: "outside lo mid k" "outside mid hi k" using Cons.prems(4) r by (auto simp: outside_def)
  note pl = emitted_placed [OF e(2) af ld(1) out(1) Cons.prems(5)]
  have sp: "is_split (P ! (mid - 1))" using agree_split [OF af] r by simp
  then have br: "branching P mid" by (simp add: branching_def)
  show ?case
  proof (cases "fs = []")
    case True
    with e pl br show ?thesis by auto
  next
    case False
    from Cons.IH [OF e(3) ag ld(2) out(2) br False] have rest: "list_all2 (\<lambda>f R. frag P t mid hi (fr_start f) k (R t)) fs Rs'"
      "tidy P mid hi" "branching P hi" by blast+
    have "list_all2 (\<lambda>f R. frag P t lo hi (fr_start f) k (R t)) fs Rs'"
      by (rule list_all2_mono [OF rest(1)]) (use frag_wider r in auto)
    with frag_wider [OF pl(1)] r e(1) pl(2) tidy_join [OF pl(3) rest(2) sp] rest(3) show ?thesis by simp
  qed
qed simp

lemma alt_splits_length: "length (alt_splits b fs) = length fs - 1"
  by (induction b fs rule: alt_splits.induct) auto

lemma alt_splits_frag:
  "2 \<le> length fs \<Longrightarrow> list_all2 (\<lambda>f R. frag P t lo hi (fr_start f) k R) fs Rs \<Longrightarrow>
     (\<forall>x < length fs - 1. P ! (b + x) = alt_splits b fs ! x) \<Longrightarrow> branching P b \<Longrightarrow>
     b + (length fs - 1) \<le> length P \<Longrightarrow> lo \<le> b \<Longrightarrow> b + (length fs - 1) \<le> hi \<Longrightarrow>
     frag P t lo hi b k (\<Union> (set Rs)) \<and> (\<forall>x < length fs - 1. is_split (P ! (b + x)))"
proof (induction b fs arbitrary: Rs rule: alt_splits.induct)
  case (1 b f g)
  then obtain R S where Rs: "Rs = [R, S]" "frag P t lo hi (fr_start f) k R" "frag P t lo hi (fr_start g) k S"
    by (auto simp: list_all2_Cons1)
  have s: "P ! b = ISplit (fr_start f) (fr_start g)" using "1.prems"(3) by simp
  have "frag P t lo hi b k (R \<union> S)"
    by (rule frag_branch [OF s "1.prems"(4)]) (use "1.prems"(5-7) Rs in \<open>auto simp: continues_def\<close>)
  with Rs(1) s show ?case by simp
next
  case (2 b f g h fs)
  then obtain R Ss where Rs: "Rs = R # Ss" "frag P t lo hi (fr_start f) k R"
    "list_all2 (\<lambda>f R. frag P t lo hi (fr_start f) k R) (g # h # fs) Ss"
    by (auto simp: list_all2_Cons1)
  have s: "P ! b = ISplit (fr_start f) (b + 1)" using "2.prems"(3) by (auto dest: spec [of _ 0])
  then have br: "branching P (b + 1)" by (simp add: branching_def)
  have at: "\<forall>x < length (g # h # fs) - 1. P ! (b + 1 + x) = alt_splits (b + 1) (g # h # fs) ! x"
    using "2.prems"(3) by (auto dest: spec [of _ "Suc _"])
  have ih: "frag P t lo hi (b + 1) k (\<Union> (set Ss))" "\<forall>x < length (g # h # fs) - 1. is_split (P ! (b + 1 + x))"
    using "2.IH" [OF _ Rs(3) at br] "2.prems"(5-7) by auto
  have "frag P t lo hi b k (R \<union> \<Union> (set Ss))"
    by (rule frag_branch [OF s "2.prems"(4)]) (use "2.prems"(5-7) Rs ih in \<open>auto simp: continues_def\<close>)
  moreover have "is_split (P ! (b + x))" if "x < length (f # g # h # fs) - 1" for x
    using ih(2) s that by (cases x) auto
  ultimately show ?case using Rs(1) by auto
qed auto

lemma emits_alt:
  assumes E: "emits_list E Rs"
  shows "emits (\<lambda>Q. bindR (E Q) emit_alt) (\<lambda>t. \<Union> (set (map (\<lambda>R. R t) Rs)))"
  unfolding emits_def
proof (intro allI impI)
  fix Q g Q'
  assume "bindR (E Q) emit_alt = Inr (g, Q')"
  then obtain fs Q1 where 1: "E Q = Inr (fs, Q1)" "emit_alt (fs, Q1) = Inr (g, Q')" by (auto simp: bindR_Inr_iff)
  obtain code where a: "Q1 = Q @ code" "emitted_list Q1 (length Q) (length Q1) fs Rs" using emits_listD [OF E 1(1)] .
  from 1(2) consider f where "fs = [f]" "g = f" "Q' = Q1"
    | "2 \<le> length fs" "g = \<lparr>fr_start = length Q1, fr_pending = concat (map fr_pending fs)\<rparr>" "Q' = Q1 @ alt_splits (length Q1) fs"
    by (cases fs; cases "tl fs") (auto simp: emit_alt_def)
  then show "(\<exists>code. Q' = Q @ code) \<and> emitted Q' (length Q) (length Q') g (\<lambda>t. \<Union> (set (map (\<lambda>R. R t) Rs)))"
  proof cases
    case 1
    with a obtain R where "Rs = [R]" "emitted Q1 (length Q) (length Q1) f R" by auto
    with 1 a(1) show ?thesis by simp
  next
    case 2
    let ?lo = "length Q" and ?b = "length Q1" and ?hi = "length Q'" and ?H = "holes_of fs"
    have ne: "fs \<noteq> []" and hi: "?hi = ?b + (length fs - 1)" "?b < ?hi" using 2 by (auto simp: alt_splits_length)
    have lo: "?lo < ?b" using emitted_list_range [OF a(2)] ne by blast
    have el: "emitted_list Q' ?lo ?b fs Rs" by (rule emitted_list_cong [OF a(2)]) (auto simp: 2(3) nth_append)
    have splits: "Q' ! (?b + x) = alt_splits ?b fs ! x" if "x < length fs - 1" for x using that by (simp add: 2(3))
    have alts: "is_split (alt_splits b fs ! x)" if "x < length fs - 1" for x b
      using that
    proof (induction b fs arbitrary: x rule: alt_splits.induct)
      case (2 b f g h fs)
      then show ?case by (cases x) auto
    qed auto
    have "emitted Q' ?lo ?hi g (\<lambda>t. \<Union> (set (map (\<lambda>R. R t) Rs)))"
    proof (rule emittedI, goal_cases)
      case 4
      have "?hi - 1 = ?b + (length fs - 2)" "length fs - 2 < length fs - 1" using hi 2(1) by auto
      with splits [of "length fs - 2"] alts [of "length fs - 2"] show ?case by simp
    next
      case (5 h)
      then have "h \<in> ?H" by (simp add: 2(2))
      from emitted_list_holes [OF el this] hi(2) show ?case by linarith
    next
      case (6 P t k)
      have ag: "agree Q' P ?lo ?b ?H" by (rule agree_sub [OF 6(1)]) (use hi in \<open>auto simp: 2(2)\<close>)
      have ld: "leads P ?H k" using 6(2) by (simp add: 2(2))
      have out: "outside ?lo ?b k" using 6(3) hi by (auto simp: outside_def)
      have pl: "list_all2 (\<lambda>f R. frag P t ?lo ?b (fr_start f) k (R t)) fs Rs" "tidy P ?lo ?b" "branching P ?b"
        "\<And>i. (clean_step P t)\<^sup>*\<^sup>* (fr_start (hd fs), i) (?lo, i)"
        using list_placed [OF el ag ld out 6(4) ne] by blast+
      have wide: "list_all2 (\<lambda>f R. frag P t ?lo ?hi (fr_start f) k R) fs (map (\<lambda>R. R t) Rs)"
        unfolding list_all2_map2 by (rule list_all2_mono [OF pl(1)]) (use frag_wider hi in auto)
      have at: "P ! (?b + x) = alt_splits ?b fs ! x" if "x < length fs - 1" for x
        using agree_exact [OF 6(1), of "?b + x"] that hi lo splits emitted_list_holes [OF el] by (force simp: 2(2))
      have len: "?hi \<le> length P" using 6(1) by (simp add: agree_def)
      have fr: "frag P t ?lo ?hi ?b k (\<Union> (set (map (\<lambda>R. R t) Rs)))" "\<forall>x < length fs - 1. is_split (P ! (?b + x))"
        using alt_splits_frag [OF 2(1) wide _ pl(3)] at lo len hi(1) by auto
      have sp: "is_split (P ! x)" if "?b \<le> x" "x < ?hi" for x
        using fr(2) that hi(1) by (metis le_Suc_ex nat_add_left_cancel_less)
      have "tidy P ?b ?hi"
        unfolding tidy_def
      proof (intro allI impI)
        fix x assume x: "?b \<le> x" "x < ?hi"
        have "P ! x \<noteq> IMatch" using sp [OF x] by auto
        moreover have "is_split (P ! (x - 1))" if "?b < x" using that x by (intro sp) simp_all
        ultimately show "P ! x \<noteq> IMatch \<and> (?b < x \<longrightarrow> \<not> is_split (P ! (x - 1)) \<longrightarrow> (\<exists>a. P ! x = ISplit a 0))" by blast
      qed
      moreover have "is_split (P ! (?b - 1))" using pl(3) lo by (auto simp: branching_def)
      ultimately have ti: "tidy P ?lo ?hi" using tidy_join [OF pl(2)] by blast
      obtain c where "P ! ?b = ISplit (fr_start (hd fs)) c"
        using at [of 0] 2(1) by (cases "(?b, fs)" rule: alt_splits.cases) auto
      then have "clean_step P t (?b, i) (fr_start (hd fs), i)" for i
        using len hi by (simp add: vstep_def)
      with pl(4) have "(clean_step P t)\<^sup>*\<^sup>* (?b, i) (?lo, i)" for i by (meson converse_rtranclp_into_rtranclp)
      with fr(1) ti show ?case by (simp add: 2(2))
    qed (use lo hi in \<open>auto simp: 2(2)\<close>)
    with a(1) 2(3) show ?thesis by simp
  qed
qed

section \<open>Quantifiers\<close>

lemma run_all_append: "run_all (Rs @ Ss) t = run_all Rs t O run_all Ss t"
  by (induction Rs) (auto simp: O_assoc)

lemma run_all_replicate: "run_all (replicate n R) t = R t ^^ n"
  by (induction n) (simp_all add: relpow_commute)

lemma relpow_optional: "(R \<union> Id) ^^ n = (\<Union>k \<le> n. R ^^ k)"
proof (induction n)
  case (Suc n)
  have "(\<Union>k \<le> n. R ^^ k) O (R \<union> Id) = (\<Union>k \<le> Suc n. R ^^ k)"
  proof (intro equalityI subsetI)
    fix p assume "p \<in> (\<Union>k \<le> n. R ^^ k) O (R \<union> Id)"
    then obtain x y z where "p = (x, z)" "(x, y) \<in> (\<Union>k \<le> n. R ^^ k)" "(y, z) \<in> R \<or> y = z" by blast
    then obtain k where "p = (x, z)" "k \<le> n" "(x, y) \<in> R ^^ k" "(y, z) \<in> R \<or> y = z" by blast
    then have "p \<in> R ^^ k \<or> p \<in> R ^^ Suc k" by (auto intro: relpow_Suc_I)
    moreover have "k \<in> {..Suc n}" "Suc k \<in> {..Suc n}" using \<open>k \<le> n\<close> by auto
    ultimately show "p \<in> (\<Union>k \<le> Suc n. R ^^ k)" by blast
  next
    fix p assume "p \<in> (\<Union>k \<le> Suc n. R ^^ k)"
    then obtain k where "k \<le> Suc n" "p \<in> R ^^ k" by blast
    then show "p \<in> (\<Union>k \<le> n. R ^^ k) O (R \<union> Id)" by (cases p; cases "k \<le> n") (auto simp: le_Suc_eq)
  qed
  with Suc show ?case by simp
qed simp

lemma emits_tail:
  assumes e: "emits e R"
  shows "\<exists>Ts. emits_list (emit_tail m bound e) Ts
    \<and> (\<forall>t. run_all Ts t = (\<Union>n \<in> {n. case bound of None \<Rightarrow> True | Some x \<Rightarrow> n \<le> x - m}. R t ^^ n))"
proof (cases bound)
  case None
  have "emits_list (emit_tail m bound e) [\<lambda>t. (R t)\<^sup>*]"
    unfolding emits_list_def
  proof (intro allI impI)
    fix Q fs Q' assume "emit_tail m bound e Q = Inr (fs, Q')"
    then obtain f where run: "repeated e Q = Inr (f, Q')" "fs = [f]" by (auto simp: emit_tail_def None bindR_Inr_iff)
    with emits_repeated [OF e] show "(\<exists>code. Q' = Q @ code) \<and> emitted_list Q' (length Q) (length Q') fs [\<lambda>t. (R t)\<^sup>*]"
      by (auto elim!: emitsD dest: emitted_range(4))
  qed
  moreover have "run_all [\<lambda>t. (R t)\<^sup>*] t = (\<Union>n. R t ^^ n)" for t by (simp add: rtrancl_is_UN_relpow)
  ultimately show ?thesis using None by (intro exI [of _ "[\<lambda>t. (R t)\<^sup>*]"]) simp
next
  case (Some x)
  let ?opts = "replicate (x - m) (\<lambda>t. R t \<union> Id)"
  have E: "emits_list (emit_times (x - m) (optional e)) ?opts" by (rule emits_times [OF emits_optional [OF e]])
  let ?Ts = "if x - m = 0 then [] else [run_all ?opts]"
  have "emits_list (emit_tail m bound e) ?Ts"
    unfolding emits_list_def
  proof (intro allI impI)
    fix Q gs Q' assume run: "emit_tail m bound e Q = Inr (gs, Q')"
    then obtain fs Q1 where 1: "emit_times (x - m) (optional e) Q = Inr (fs, Q1)"
      "(if fs = [] then Inr ([], Q1) else case linked (fs, Q1) of (f, Q2) \<Rightarrow> Inr ([f], Q2)) = (Inr (gs, Q') :: msg + _)"
      by (auto simp: emit_tail_def Some bindR_Inr_iff)
    obtain code where a: "Q1 = Q @ code" "emitted_list Q1 (length Q) (length Q1) fs ?opts" using emits_listD [OF E 1(1)] .
    have len: "fs = [] \<longleftrightarrow> x - m = 0" using a(2) by (cases fs; cases "x - m") auto
    show "(\<exists>code. Q' = Q @ code) \<and> emitted_list Q' (length Q) (length Q') gs ?Ts"
    proof (cases "fs = []")
      case True
      with 1(2) len a show ?thesis by auto
    next
      case False
      with 1(2) obtain f where f: "linked (fs, Q1) = (f, Q')" "gs = [f]" by (auto split: prod.splits)
      have "bindR (emit_times (x - m) (optional e) Q) (\<lambda>fQ. Inr (linked fQ)) = (Inr (f, Q') :: msg + _)" by (simp add: 1(1) f(1))
      with linked_emits [OF E] have "(\<exists>code. Q' = Q @ code) \<and> emitted Q' (length Q) (length Q') f (run_all ?opts)"
        unfolding emits_def by blast
      with f(2) False len emitted_range(4) show ?thesis by auto
    qed
  qed
  moreover have "run_all ?Ts t = (\<Union>n \<in> {n. n \<le> x - m}. R t ^^ n)" for t
    using relpow_optional [where R = "R t" and n = "x - m"] by (auto simp: run_all_replicate atMost_def)
  ultimately show ?thesis using Some by (intro exI [of _ ?Ts]) simp
qed

lemma relpow_between:
  "R ^^ m O (\<Union>n \<in> {n. case bound of None \<Rightarrow> True | Some x \<Rightarrow> n \<le> x - m}. R ^^ n)
   = (\<Union>n \<in> {n. m \<le> n \<and> (case bound of None \<Rightarrow> True | Some x \<Rightarrow> n \<le> m + (x - m))}. R ^^ n)"
proof -
  have "R ^^ m O (\<Union>n \<in> N. R ^^ n) = (\<Union>n \<in> (+) m ` N. R ^^ n)" for N
    by (auto simp: relpow_add)
  moreover have "(+) m ` {n. case bound of None \<Rightarrow> True | Some x \<Rightarrow> n \<le> x - m}
      = {n. m \<le> n \<and> (case bound of None \<Rightarrow> True | Some x \<Rightarrow> n \<le> m + (x - m))}"
  proof (intro equalityI subsetI)
    fix n assume "n \<in> {n. m \<le> n \<and> (case bound of None \<Rightarrow> True | Some x \<Rightarrow> n \<le> m + (x - m))}"
    then have "n = m + (n - m)" "n - m \<in> {n. case bound of None \<Rightarrow> True | Some x \<Rightarrow> n \<le> x - m}"
      by (auto split: option.splits)
    then show "n \<in> (+) m ` {n. case bound of None \<Rightarrow> True | Some x \<Rightarrow> n \<le> x - m}" by blast
  qed (auto split: option.splits)
  ultimately show ?thesis by metis
qed

section \<open>The construction is correct\<close>

lemma emits_quantified:
  assumes e: "emits e R"
  shows "emits (\<lambda>Q. bindR (emit_times m e Q) (\<lambda>(req, Q1). bindR (emit_tail m bound e Q1) (\<lambda>(tl, Q2). Inr (linked (req @ tl, Q2)))))
    (\<lambda>t. \<Union>n \<in> {n. m \<le> n \<and> (case bound of None \<Rightarrow> True | Some x \<Rightarrow> n \<le> m + (x - m))}. R t ^^ n)"
proof -
  obtain Ts where T: "emits_list (emit_tail m bound e) Ts"
    "\<And>t. run_all Ts t = (\<Union>n \<in> {n. case bound of None \<Rightarrow> True | Some x \<Rightarrow> n \<le> x - m}. R t ^^ n)"
    using emits_tail [OF e, of m bound] by (elim exE conjE) (erule that, erule spec)
  let ?E = "\<lambda>Q. bindR (emit_times m e Q) (\<lambda>(req, Q1). bindR (emit_tail m bound e Q1) (\<lambda>(tl, Q2). Inr (req @ tl, Q2)))"
  have "emits_list ?E (replicate m R @ Ts)"
    unfolding emits_list_def
  proof (intro allI impI)
    fix Q fs Q' assume "?E Q = Inr (fs, Q')"
    then have "\<exists>x y. emit_times m e Q = Inr x \<and> emit_tail m bound e (snd x) = Inr y \<and> fs = fst x @ fst y \<and> Q' = snd y"
      by (cases "emit_times m e Q"; cases "emit_tail m bound e (snd (projr (emit_times m e Q)))") (auto simp: case_prod_beta prod_eq_iff)
    then obtain req Q1 tl where 1: "emit_times m e Q = Inr (req, Q1)" "emit_tail m bound e Q1 = Inr (tl, Q')" "fs = req @ tl"
      by (metis prod.collapse)
    obtain code where a: "Q1 = Q @ code" "emitted_list Q1 (length Q) (length Q1) req (replicate m R)"
      using emits_listD [OF emits_times [OF e] 1(1)] .
    obtain code' where b: "Q' = Q1 @ code'" "emitted_list Q' (length Q1) (length Q') tl Ts" using emits_listD [OF T(1) 1(2)] .
    have "emitted_list Q' (length Q) (length Q1) req (replicate m R)"
      by (rule emitted_list_cong [OF a(2)]) (auto simp: b(1) nth_append)
    from emitted_list_append [OF this b(2)] a(1) b(1) 1(3)
    show "(\<exists>code. Q' = Q @ code) \<and> emitted_list Q' (length Q) (length Q') fs (replicate m R @ Ts)" by simp
  qed
  from linked_emits [OF this] have "emits (\<lambda>Q. bindR (?E Q) (\<lambda>fQ. Inr (linked fQ))) (run_all (replicate m R @ Ts))" .
  moreover have "bindR (?E Q) (\<lambda>fQ. Inr (linked fQ)) = bindR (emit_times m e Q) (\<lambda>(req, Q1).
      bindR (emit_tail m bound e Q1) (\<lambda>(tl, Q2). Inr (linked (req @ tl, Q2))))" for Q
    by (auto simp: bindR_def split: sum.split prod.split)
  moreover have "run_all (replicate m R @ Ts) = (\<lambda>t. \<Union>n \<in> {n. m \<le> n \<and>
      (case bound of None \<Rightarrow> True | Some x \<Rightarrow> n \<le> m + (x - m))}. R t ^^ n)"
    by (simp add: fun_eq_iff run_all_append run_all_replicate T(2) relpow_between)
  ultimately show ?thesis by simp
qed

lemma emit_correct: "emits (emit a) (\<lambda>t. rel t a)"
  and emit_all_correct: "emits_list (emit_all as) (map (\<lambda>a t. rel t a) as)"
proof (induction a and as rule: emit.induct emit_all.induct, goal_cases)
  case (1 f)
  have "emits (\<lambda>Q. Inr (single (IByte f) Q)) (\<lambda>t. rel t (Byte f))" by (rule emits_single) blast
  then show ?case unfolding emit.simps by (rule emits_limited)
next
  case 2
  have "emits (\<lambda>Q. Inr (single (IAnchor True) Q)) (\<lambda>t. rel t Start)" by (rule emits_single) blast
  then show ?case unfolding emit.simps by (rule emits_limited)
next
  case 3
  have "emits (\<lambda>Q. Inr (single (IAnchor False) Q)) (\<lambda>t. rel t End)" by (rule emits_single) blast
  then show ?case unfolding emit.simps by (rule emits_limited)
next
  case (4 parts)
  have "run_all (map (\<lambda>a t. rel t a) parts) = (\<lambda>t. rel t (Seq parts))" by (simp add: run_all_def comp_def fun_eq_iff)
  with linked_emits [OF 4] show ?case unfolding emit.simps by (metis emits_limited)
next
  case (5 branches)
  have "(\<lambda>t. \<Union> (set (map (\<lambda>R. R t) (map (\<lambda>a t. rel t a) branches)))) = (\<lambda>t. rel t (Alt branches))"
    by (simp add: comp_def)
  with emits_alt [OF 5] show ?case unfolding emit.simps by (metis emits_limited)
next
  case (6 body m bound)
  from emits_limited [OF emits_quantified [OF 6]] show ?case by simp
next
  case 7
  then show ?case using emits_list_Nil by simp
next
  case (8 a as)
  from emits_list_Cons [OF 8] show ?case by simp
qed

text \<open>The assembled program: clean runs from its entry to its match instruction.\<close>

lemma assemble_correct:
  assumes "assemble a = Inr (P, entry)"
  shows "0 < length P" "P ! (length P - 1) = IMatch" "tidy P 0 (length P - 1)"
    "(clean_step P t)\<^sup>*\<^sup>* (entry, i) (0, i)"
    "(clean_step P t)\<^sup>*\<^sup>* (entry, i) (length P - 1, j) \<longleftrightarrow> (i, j) \<in> rel t a"
proof -
  from assms obtain f Q where run: "emit a [] = Inr (f, Q)" and P: "P = patch (Q @ [IMatch]) (fr_pending f) (length Q)"
    and entry: "entry = fr_start f"
    by (auto simp: assemble_def bindR_Inr_iff Let_def split: if_splits)
  have e: "emitted Q 0 (length Q) f (\<lambda>t. rel t a)" using emitsD [OF emit_correct run] by auto
  have e': "emitted (Q @ [IMatch]) 0 (length Q) f (\<lambda>t. rel t a)"
    by (rule emitted_cong [OF e]) (auto simp: nth_append)
  have len: "length P = length Q + 1" by (simp add: P)
  have "agree P P 0 (length Q) {}" by (simp add: agree_def len)
  from agree_patched [OF e' this, of "length Q"]
  have ag: "agree (Q @ [IMatch]) P 0 (length Q) (set (fr_pending f))" and ld: "leads P (set (fr_pending f)) (length Q)"
    by (simp_all add: P)
  have "outside 0 (length Q) (length Q)" "branching P 0" by (simp_all add: outside_def branching_def)
  note pl = emitted_placed [OF e' ag ld this]
  show "0 < length P" by (simp add: len)
  show m: "P ! (length P - 1) = IMatch" unfolding P using patch_other [of "length Q" "Q @ [IMatch]"] by simp
  show "tidy P 0 (length P - 1)" using pl(3) len by simp
  show "(clean_step P t)\<^sup>*\<^sup>* (entry, i) (0, i)" using pl(2) entry by simp
  have stuck: "\<not> clean_step P t (length Q, j) y" for j y using m len by (simp add: vstep_def)
  show "(clean_step P t)\<^sup>*\<^sup>* (entry, i) (length P - 1, j) \<longleftrightarrow> (i, j) \<in> rel t a"
  proof
    assume "(i, j) \<in> rel t a"
    with frag_run [OF pl(1)] show "(clean_step P t)\<^sup>*\<^sup>* (entry, i) (length P - 1, j)" by (simp add: entry len)
  next
    assume "(clean_step P t)\<^sup>*\<^sup>* (entry, i) (length P - 1, j)"
    then obtain n where "(clean_step P t ^^ n) (entry, i) (length Q, j)" by (auto simp: len rtranclp_power)
    moreover have "outside 0 (length Q) (length Q)" by (simp add: outside_def)
    ultimately obtain j' n' where j': "(i, j') \<in> rel t a" "(clean_step P t ^^ n') (length Q, j') (length Q, j)"
      using frag_exit [OF pl(1)] unfolding entry by blast
    have "j' = j"
    proof (rule ccontr)
      assume "j' \<noteq> j"
      then have "(length Q, j') \<noteq> (length Q, j)" by simp
      with j'(2) show False by (rule first_step) (use stuck in blast)
    qed
    with j' show "(i, j) \<in> rel t a" by simp
  qed
qed

end
