(* ===== verification/PatternSearch.thy ===== *)
theory PatternSearch
  imports PatternNfa
begin

text \<open>
  The thread sets of the search are the configurations the machine reaches, and the search answers
  exactly whether the tree relates some start position to some end position. The stray arms of the
  exit splits lead to instruction 0, which the entry reaches without consuming anything, at a
  position where the search starts afresh anyway.
\<close>

section \<open>Thread sets\<close>

definition estep :: "inst list \<Rightarrow> nat \<Rightarrow> nat \<Rightarrow> nat \<Rightarrow> nat \<Rightarrow> bool" where
  "estep P n pos pc q \<longleftrightarrow> pc < length P \<and> (case P ! pc of
      ISplit a b \<Rightarrow> q = a \<or> q = b
    | IAnchor s \<Rightarrow> anchor_holds s n pos \<and> q = pc + 1
    | _ \<Rightarrow> False)"

definition live :: "inst list \<Rightarrow> nat \<Rightarrow> nat \<Rightarrow> nat \<Rightarrow> bool" where
  "live P n pos pc \<longleftrightarrow> pc < length P \<and> (case P ! pc of IAnchor s \<Rightarrow> anchor_holds s n pos | _ \<Rightarrow> True)"

definition closed :: "inst list \<Rightarrow> nat \<Rightarrow> nat \<Rightarrow> nat set \<Rightarrow> nat list \<Rightarrow> bool" where
  "closed P n pos S stack \<longleftrightarrow> (\<forall>pc q. pc \<in> S \<longrightarrow> estep P n pos pc q \<longrightarrow> live P n pos q \<longrightarrow> q \<in> S \<or> q \<in> set stack)"

lemma estep_live: "estep P n pos pc q \<Longrightarrow> live P n pos pc"
  by (auto simp: estep_def live_def split: inst.splits)

text \<open>One round of the worklist, by whether the instruction is marked, dead or visited.\<close>

definition succs :: "inst list \<Rightarrow> nat \<Rightarrow> nat list" where
  "succs P pc = (case P ! pc of ISplit a b \<Rightarrow> [b, a] | IAnchor s \<Rightarrow> [pc + 1] | _ \<Rightarrow> [])"

lemma estep_succs: "estep P n pos pc q \<longleftrightarrow> live P n pos pc \<and> q \<in> set (succs P pc)"
  by (auto simp: estep_def live_def succs_def split: inst.splits)

lemma add_threads_skip: "length P \<le> pc \<or> pc \<in> S \<Longrightarrow> add_threads P n pos S (pc # stack) = add_threads P n pos S stack"
  by simp

lemma add_threads_visit:
  "pc < length P \<Longrightarrow> pc \<notin> S \<Longrightarrow> live P n pos pc \<Longrightarrow>
     add_threads P n pos S (pc # stack) = add_threads P n pos (insert pc S) (succs P pc @ stack)"
  by (subst add_threads.simps) (auto simp: live_def succs_def simp del: add_threads.simps split: inst.splits)

lemma add_threads_dead:
  "pc < length P \<Longrightarrow> pc \<notin> S \<Longrightarrow> \<not> live P n pos pc \<Longrightarrow> add_threads P n pos S (pc # stack) = add_threads P n pos S stack"
  by (subst add_threads.simps) (auto simp: live_def simp del: add_threads.simps split: inst.splits)

lemma add_threads_round [case_names Nil Skip Visit]:
  assumes "\<And>S. R S []"
    and "\<And>S pc stack. pc \<in> S \<or> \<not> live P n pos pc \<Longrightarrow> R S stack \<Longrightarrow> R S (pc # stack)"
    and "\<And>S pc stack. pc \<notin> S \<Longrightarrow> live P n pos pc \<Longrightarrow> R (insert pc S) (succs P pc @ stack) \<Longrightarrow> R S (pc # stack)"
  shows "R S stack"
proof -
  have "R' = P \<longrightarrow> n' = n \<longrightarrow> pos' = pos \<longrightarrow> R S stack" for R' n' pos'
  proof (induction R' n' pos' S stack rule: add_threads.induct)
    case (1 P' n' pos' S)
    then show ?case using assms(1) by simp
  next
    case (2 P' n' pos' S pc stack)
    show ?case
    proof (intro impI)
      assume eq: "P' = P" "n' = n" "pos' = pos"
      show "R S (pc # stack)"
      proof (cases "pc < length P \<and> pc \<notin> S")
        case False
        with eq "2.IH"(1) have "R S stack" by auto
        moreover have "pc \<in> S \<or> \<not> live P n pos pc" using False by (auto simp: live_def)
        ultimately show ?thesis using assms(2) by blast
      next
        case True
        note ih = "2.IH"(2-6) [unfolded eq]
        show ?thesis
        proof (cases "live P n pos pc")
          case live: True
          have "R (insert pc S) (succs P pc @ stack)"
            using True ih live by (cases "P ! pc") (auto simp: live_def succs_def)
          with assms(3) True live show ?thesis by blast
        next
          case dead: False
          then obtain s where "P ! pc = IAnchor s" "\<not> anchor_holds s n pos" using True by (auto simp: live_def split: inst.splits)
          with True ih have "R S stack" by simp
          with assms(2) dead show ?thesis by blast
        qed
      qed
    qed
  qed
  then show ?thesis by blast
qed

declare add_threads.simps [simp del]
lemmas add_threads_Nil = add_threads.simps(1)

lemma add_threads_Cons:
  "add_threads P n pos S (pc # stack) = (if pc \<in> S \<or> \<not> live P n pos pc then add_threads P n pos S stack
     else add_threads P n pos (insert pc S) (succs P pc @ stack))"
proof (cases "length P \<le> pc \<or> pc \<in> S")
  case True
  then show ?thesis using add_threads_skip [OF True] by (auto simp: live_def)
next
  case False
  then show ?thesis using add_threads_visit add_threads_dead by auto
qed

lemma add_threads_subset: "S \<subseteq> add_threads P n pos S stack"
  by (induction S stack rule: add_threads_round [where P = P and n = n and pos = pos])
    (auto simp: add_threads_Nil add_threads_Cons)

lemma add_threads_stack: "q \<in> set stack \<Longrightarrow> live P n pos q \<Longrightarrow> q \<in> add_threads P n pos S stack"
proof (induction S stack rule: add_threads_round [where P = P and n = n and pos = pos])
  case (Skip S pc stack)
  then show ?case using subsetD [OF add_threads_subset, of pc S P n pos stack] by (cases "q = pc") (simp_all add: add_threads_Cons)
next
  case (Visit S pc stack)
  then show ?case using subsetD [OF add_threads_subset, of pc "insert pc S" P n pos "succs P pc @ stack"]
    by (cases "q = pc") (simp_all add: add_threads_Cons)
qed simp

lemma add_threads_closed: "closed P n pos S stack \<Longrightarrow> closed P n pos (add_threads P n pos S stack) []"
proof (induction S stack rule: add_threads_round [where P = P and n = n and pos = pos])
  case (Skip S pc stack)
  then show ?case by (auto simp: add_threads_Cons closed_def)
next
  case (Visit S pc stack)
  from Visit.prems have "closed P n pos (insert pc S) (succs P pc @ stack)"
    by (auto simp: closed_def estep_succs)
  with Visit show ?case by (simp add: add_threads_Cons)
qed (simp add: add_threads_Nil)

lemma add_threads_from:
  "q \<in> add_threads P n pos S stack \<Longrightarrow> q \<in> S \<or> live P n pos q \<and> (\<exists>s \<in> set stack. (estep P n pos)\<^sup>*\<^sup>* s q)"
proof (induction S stack rule: add_threads_round [where P = P and n = n and pos = pos])
  case (Visit S pc stack)
  then have "q \<in> insert pc S \<or> live P n pos q \<and> (\<exists>s \<in> set (succs P pc @ stack). (estep P n pos)\<^sup>*\<^sup>* s q)"
    by (simp add: add_threads_Cons)
  moreover have "(estep P n pos)\<^sup>*\<^sup>* pc q" if "u \<in> set (succs P pc)" "(estep P n pos)\<^sup>*\<^sup>* u q" for u
    using that Visit.hyps by (intro converse_rtranclp_into_rtranclp [of _ pc u]) (simp_all add: estep_succs)
  ultimately show ?case using Visit.hyps(2) by auto
qed (auto simp: add_threads_Nil add_threads_Cons)

lemma add_threads_iff:
  assumes "closed P n pos S []"
  shows "q \<in> add_threads P n pos S [s] \<longleftrightarrow> q \<in> S \<or> live P n pos q \<and> (estep P n pos)\<^sup>*\<^sup>* s q"
proof
  assume "q \<in> add_threads P n pos S [s]"
  from add_threads_from [OF this] show "q \<in> S \<or> live P n pos q \<and> (estep P n pos)\<^sup>*\<^sup>* s q" by simp
next
  let ?T = "add_threads P n pos S [s]"
  have cl: "closed P n pos ?T []" using assms by (intro add_threads_closed) (simp add: closed_def)
  have "live P n pos q \<longrightarrow> q \<in> ?T" if "(estep P n pos)\<^sup>*\<^sup>* s q" for q
    using that
  proof (induction rule: rtranclp_induct)
    case base
    then show ?case by (auto intro: add_threads_stack)
  next
    case (step y z)
    with cl estep_live show ?case unfolding closed_def by (metis list.set(1) empty_iff)
  qed
  then show "q \<in> S \<or> live P n pos q \<and> (estep P n pos)\<^sup>*\<^sup>* s q \<Longrightarrow> q \<in> ?T"
    using add_threads_subset by blast
qed

definition accepts_byte :: "inst list \<Rightarrow> char \<Rightarrow> nat \<Rightarrow> bool" where
  "accepts_byte P c pc \<longleftrightarrow> (case P ! pc of IByte f \<Rightarrow> f c | _ \<Rightarrow> False)"

lemma advance_fold:
  fixes P t pos current
  defines "g \<equiv> \<lambda>pc S. if pc \<in> current
      then (case P ! pc of IByte f \<Rightarrow> if f (t ! pos) then add_threads P (length t) (pos + 1) S [pc + 1] else S | _ \<Rightarrow> S)
      else S"
  assumes "closed P (length t) (pos + 1) S []"
  shows "closed P (length t) (pos + 1) (fold g xs S) [] \<and> (\<forall>q. q \<in> fold g xs S \<longleftrightarrow> q \<in> S \<or> live P (length t) (pos + 1) q
    \<and> (\<exists>pc \<in> set xs. pc \<in> current \<and> accepts_byte P (t ! pos) pc \<and> (estep P (length t) (pos + 1))\<^sup>*\<^sup>* (pc + 1) q))"
  using assms(2)
proof (induction xs arbitrary: S)
  case (Cons pc xs)
  have g: "g pc S = (if pc \<in> current \<and> accepts_byte P (t ! pos) pc then add_threads P (length t) (pos + 1) S [pc + 1] else S)"
    by (auto simp: g_def accepts_byte_def split: inst.split)
  have "closed P (length t) (pos + 1) S [pc + 1]" using Cons.prems by (simp add: closed_def)
  with Cons.prems have "closed P (length t) (pos + 1) (g pc S) []" by (simp add: g add_threads_closed)
  from Cons.IH [OF this] show ?case using add_threads_iff [OF Cons.prems] by (auto simp: g)
qed simp

lemma advance_threads_iff:
  "q \<in> advance_threads P t pos current \<longleftrightarrow> live P (length t) (pos + 1) q
    \<and> (\<exists>pc < length P. pc \<in> current \<and> accepts_byte P (t ! pos) pc \<and> (estep P (length t) (pos + 1))\<^sup>*\<^sup>* (pc + 1) q)"
  using advance_fold [of P t pos "{}" current "[0..<length P]"]
  by (auto simp: advance_threads_def closed_def)

section \<open>What the search reaches\<close>

abbreviation full_step :: "inst list \<Rightarrow> string \<Rightarrow> nat \<times> nat \<Rightarrow> nat \<times> nat \<Rightarrow> bool" where
  "full_step \<equiv> vstep False"

lemma full_step_iff:
  "full_step P t (pc, i) (q, m) \<longleftrightarrow> (m = i \<and> estep P (length t) i pc q)
     \<or> (m = i + 1 \<and> q = pc + 1 \<and> pc < length P \<and> i < length t \<and> accepts_byte P (t ! i) pc)"
  by (auto simp: vstep_def estep_def accepts_byte_def split: inst.split)

lemma vstep_bound1: "vstep c P t x y \<Longrightarrow> snd x \<le> length t \<Longrightarrow> snd x \<le> snd y \<and> snd y \<le> length t"
  by (cases x; cases "P ! fst x") (auto simp: vstep_def)

lemma vstep_bound: "(vstep c P t)\<^sup>*\<^sup>* x y \<Longrightarrow> snd x \<le> length t \<Longrightarrow> snd x \<le> snd y \<and> snd y \<le> length t"
  by (induction rule: rtranclp_induct) (use vstep_bound1 le_trans in blast)+

lemma esteps_full: "(estep P (length t) m)\<^sup>*\<^sup>* pc q \<Longrightarrow> (full_step P t)\<^sup>*\<^sup>* (pc, m) (q, m)"
proof (induction rule: rtranclp_induct)
  case (step y z)
  then have "full_step P t (y, m) (z, m)" by (simp add: full_step_iff)
  with step.IH show ?case by (rule rtranclp.rtrancl_into_rtrancl)
qed simp

lemma reach_last:
  assumes "(full_step P t)\<^sup>*\<^sup>* (e, i) (q, m)"
  shows "i = m \<and> (estep P (length t) m)\<^sup>*\<^sup>* e q
    \<or> (\<exists>pc m'. m = m' + 1 \<and> i \<le> m' \<and> m' < length t \<and> pc < length P \<and> (full_step P t)\<^sup>*\<^sup>* (e, i) (pc, m')
        \<and> accepts_byte P (t ! m') pc \<and> (estep P (length t) m)\<^sup>*\<^sup>* (pc + 1) q)"
  using assms
proof (induction rule: rtranclp_induct2)
  case (step q m r m2)
  from step.hyps(2) consider "m2 = m" "estep P (length t) m q r"
    | "m2 = m + 1" "r = q + 1" "q < length P" "m < length t" "accepts_byte P (t ! m) q"
    by (auto simp: full_step_iff)
  then show ?case
  proof cases
    case 1
    with step.IH show ?thesis by (auto intro: rtranclp.rtrancl_into_rtrancl)
  next
    case 2
    have "i \<le> m" using step.IH by auto
    with 2 step.hyps(1) show ?thesis by auto
  qed
qed simp

text \<open>The live instructions reached at a position, from any start, or from a start before it.\<close>

definition reached :: "inst list \<Rightarrow> nat \<Rightarrow> string \<Rightarrow> nat \<Rightarrow> nat set" where
  "reached P e t m = {q. live P (length t) m q \<and> (\<exists>i \<le> m. (full_step P t)\<^sup>*\<^sup>* (e, i) (q, m))}"

definition arrived :: "inst list \<Rightarrow> nat \<Rightarrow> string \<Rightarrow> nat \<Rightarrow> nat set" where
  "arrived P e t m = {q. live P (length t) m q \<and> (\<exists>i < m. (full_step P t)\<^sup>*\<^sup>* (e, i) (q, m))}"

lemma reached_split: "reached P e t m = arrived P e t m \<union> add_threads P (length t) m {} [e]"
proof -
  have "q \<in> add_threads P (length t) m {} [e] \<longleftrightarrow> live P (length t) m q \<and> (estep P (length t) m)\<^sup>*\<^sup>* e q" for q
    by (subst add_threads_iff) (simp_all add: closed_def)
  moreover have "(full_step P t)\<^sup>*\<^sup>* (e, m) (q, m) \<longleftrightarrow> (estep P (length t) m)\<^sup>*\<^sup>* e q" for q
    using reach_last [of P t e m q m] esteps_full by auto
  ultimately show ?thesis by (auto simp: reached_def arrived_def le_less)
qed

lemma arrived_advance:
  assumes "m < length t"
  shows "arrived P e t (m + 1) = advance_threads P t m (reached P e t m)"
proof (intro set_eqI iffI)
  fix q assume "q \<in> arrived P e t (m + 1)"
  then obtain i where i: "live P (length t) (m + 1) q" "i < m + 1" "(full_step P t)\<^sup>*\<^sup>* (e, i) (q, m + 1)"
    by (auto simp: arrived_def)
  with reach_last [OF i(3)] obtain pc where pc: "pc < length P" "(full_step P t)\<^sup>*\<^sup>* (e, i) (pc, m)"
    "accepts_byte P (t ! m) pc" "(estep P (length t) (m + 1))\<^sup>*\<^sup>* (pc + 1) q" by auto
  have "live P (length t) m pc" using pc(1,3) by (auto simp: live_def accepts_byte_def split: inst.splits)
  with i pc show "q \<in> advance_threads P t m (reached P e t m)"
    by (auto simp: advance_threads_iff reached_def less_Suc_eq_le)
next
  fix q assume "q \<in> advance_threads P t m (reached P e t m)"
  then obtain pc i where pc: "live P (length t) (m + 1) q" "pc < length P" "i \<le> m" "(full_step P t)\<^sup>*\<^sup>* (e, i) (pc, m)"
    "accepts_byte P (t ! m) pc" "(estep P (length t) (m + 1))\<^sup>*\<^sup>* (pc + 1) q"
    by (auto simp: advance_threads_iff reached_def)
  have "full_step P t (pc, m) (pc + 1, m + 1)" using pc assms by (simp add: full_step_iff)
  with pc(4) have "(full_step P t)\<^sup>*\<^sup>* (e, i) (pc + 1, m + 1)" by (rule rtranclp.rtrancl_into_rtrancl)
  with esteps_full [OF pc(6)] have "(full_step P t)\<^sup>*\<^sup>* (e, i) (q, m + 1)" by (auto intro: rtranclp_trans)
  with pc show "q \<in> arrived P e t (m + 1)" by (auto simp: arrived_def less_Suc_eq_le)
qed

lemma search_loop_iff:
  "k \<le> length t \<Longrightarrow> search_loop P e t k (arrived P e t (length t - k)) \<longleftrightarrow>
     (\<exists>m. length t - k \<le> m \<and> m \<le> length t \<and> has_match P (reached P e t m))"
proof (induction k)
  case 0
  then show ?case by (auto simp: reached_split)
next
  case (Suc k)
  let ?m = "length t - Suc k"
  have next_pos: "?m + 1 = length t - k" "?m < length t" using Suc.prems by auto
  have "search_loop P e t (Suc k) (arrived P e t ?m) \<longleftrightarrow> has_match P (reached P e t ?m)
      \<or> search_loop P e t k (arrived P e t (length t - k))"
    using arrived_advance [OF next_pos(2), of P e] next_pos(1) by (simp add: Let_def reached_split)
  also have "\<dots> \<longleftrightarrow> has_match P (reached P e t ?m)
      \<or> (\<exists>m. length t - k \<le> m \<and> m \<le> length t \<and> has_match P (reached P e t m))"
    using Suc by simp
  also have "\<dots> \<longleftrightarrow> (\<exists>m. ?m \<le> m \<and> m \<le> length t \<and> has_match P (reached P e t m))"
  proof -
    have "?m \<le> m \<longleftrightarrow> m = ?m \<or> length t - k \<le> m" for m using next_pos by auto
    then show ?thesis using next_pos(2) by (metis less_imp_le)
  qed
  finally show ?case .
qed

lemma search_iff:
  assumes "P \<noteq> []"
  shows "search P e t \<longleftrightarrow> (\<exists>m \<le> length t. has_match P (reached P e t m))"
proof -
  have "arrived P e t 0 = {}" by (simp add: arrived_def)
  with search_loop_iff [of "length t" t P e] assms show ?thesis by (simp add: search_def)
qed

section \<open>Stray arms\<close>

lemma clean_full: "clean_step P t x y \<Longrightarrow> full_step P t x y"
  by (auto simp: vstep_def split: inst.splits prod.splits)

lemma clean_reach_full: "(clean_step P t)\<^sup>*\<^sup>* x y \<Longrightarrow> (full_step P t)\<^sup>*\<^sup>* x y"
  by (induction rule: rtranclp_induct) (auto intro: rtranclp.rtrancl_into_rtrancl clean_full)

lemma full_clean:
  assumes a: "assemble a = Inr (P, e)" and "(full_step P t)\<^sup>*\<^sup>* x (length P - 1, j)" and "snd x \<le> length t"
  shows "(clean_step P t)\<^sup>*\<^sup>* x (length P - 1, j) \<or> (\<exists>i \<le> length t. (clean_step P t)\<^sup>*\<^sup>* (e, i) (length P - 1, j))"
  using assms(2,3)
proof (induction rule: converse_rtranclp_induct)
  case (step x y)
  obtain pc i q m where x: "x = (pc, i)" and y: "y = (q, m)" by fastforce
  have "snd y \<le> length t" using vstep_bound1 step.hyps(1) step.prems by blast
  with step.IH consider "(clean_step P t)\<^sup>*\<^sup>* y (length P - 1, j)" | "\<exists>i \<le> length t. (clean_step P t)\<^sup>*\<^sup>* (e, i) (length P - 1, j)"
    by blast
  then show ?case
  proof cases
    case 1
    show ?thesis
    proof (cases "clean_step P t x y")
      case True
      with 1 show ?thesis by (auto intro: converse_rtranclp_into_rtranclp)
    next
      case False
      with step.hyps(1) obtain c d where pc: "pc < length P" "P ! pc = ISplit c d" "\<not> branching P pc" "q = d" "m = i"
        by (auto simp: vstep_def x y split: inst.splits)
      then have "pc < length P - 1" using assemble_correct(2) [OF a] by (cases "pc = length P - 1") auto
      with assemble_correct(3) [OF a] pc have "d = 0" by (auto simp: tidy_def branching_def)
      with pc(4,5) 1 y assemble_correct(4) [OF a, of t i] have "(clean_step P t)\<^sup>*\<^sup>* (e, i) (length P - 1, j)"
        by (auto intro: rtranclp_trans)
      with step.prems x show ?thesis by auto
    qed
  qed blast
qed simp

lemma search_exact:
  assumes a: "assemble a = Inr (P, e)"
  shows "search P e t \<longleftrightarrow> (\<exists>i j. i \<le> length t \<and> (i, j) \<in> rel t a)"
proof -
  let ?last = "length P - 1"
  note c = assemble_correct [OF a]
  have match: "q < length P \<and> P ! q = IMatch \<longleftrightarrow> q = ?last" for q
  proof
    assume q: "q < length P \<and> P ! q = IMatch"
    show "q = ?last"
    proof (rule ccontr)
      assume "q \<noteq> ?last"
      with q have "q < ?last" by linarith
      with c(3) have "P ! q \<noteq> IMatch" by (simp add: tidy_def)
      with q show False by simp
    qed
  qed (use c(1,2) in simp)
  have "has_match P (reached P e t m) \<longleftrightarrow> (\<exists>i \<le> m. (full_step P t)\<^sup>*\<^sup>* (e, i) (?last, m))" for m
  proof -
    have "has_match P (reached P e t m) \<longleftrightarrow> (\<exists>q. (q < length P \<and> P ! q = IMatch) \<and> q \<in> reached P e t m)"
      by (auto simp: has_match_def list_ex_iff)
    also have "\<dots> \<longleftrightarrow> ?last \<in> reached P e t m" unfolding match by simp
    also have "\<dots> \<longleftrightarrow> (\<exists>i \<le> m. (full_step P t)\<^sup>*\<^sup>* (e, i) (?last, m))"
      using c(1,2) by (simp add: reached_def live_def)
    finally show ?thesis .
  qed
  moreover have "P \<noteq> []" using c(1) by auto
  ultimately have "search P e t \<longleftrightarrow> (\<exists>m \<le> length t. \<exists>i \<le> m. (full_step P t)\<^sup>*\<^sup>* (e, i) (?last, m))"
    by (simp add: search_iff)
  also have "\<dots> \<longleftrightarrow> (\<exists>i j. i \<le> length t \<and> (clean_step P t)\<^sup>*\<^sup>* (e, i) (?last, j))"
  proof
    assume "\<exists>m \<le> length t. \<exists>i \<le> m. (full_step P t)\<^sup>*\<^sup>* (e, i) (?last, m)"
    then obtain m i where "i \<le> length t" "(full_step P t)\<^sup>*\<^sup>* (e, i) (?last, m)" using le_trans by blast
    with full_clean [OF a this(2)] show "\<exists>i j. i \<le> length t \<and> (clean_step P t)\<^sup>*\<^sup>* (e, i) (?last, j)" by auto
  next
    assume "\<exists>i j. i \<le> length t \<and> (clean_step P t)\<^sup>*\<^sup>* (e, i) (?last, j)"
    then obtain i j where "i \<le> length t" "(full_step P t)\<^sup>*\<^sup>* (e, i) (?last, j)" using clean_reach_full by blast
    with vstep_bound [OF this(2)] show "\<exists>m \<le> length t. \<exists>i \<le> m. (full_step P t)\<^sup>*\<^sup>* (e, i) (?last, m)" by auto
  qed
  finally show ?thesis using c(5) by simp
qed

text \<open>
  C18. The \<open>pattern\<close> engine answers by the meaning of the pattern alone. Whenever it does not refuse
  the pattern or the text, the pattern has parsed to a syntax tree, and the answer is yes exactly
  if the tree relates some position of the text to another: if some part of the text, anchors read
  at its place, is matched. The construction with patch lists, the thread sets, and the second arms
  of exit splits that are never patched change nothing in this.
\<close>

theorem pattern_search_exact:
  "case matches pattern t of Inl _ \<Rightarrow> True | Inr b \<Rightarrow>
     (\<exists>a. parse_pattern pattern = Inr a \<and> (b \<longleftrightarrow> (\<exists>i j. i \<le> length t \<and> (i, j) \<in> rel t a)))"
proof (cases "matches pattern t")
  case (Inr b)
  then obtain P e where "compile pattern = Inr (P, e)" "b = search P e t"
    by (auto simp: matches_def bindR_Inr_iff split: if_splits)
  moreover from this(1) obtain a where "parse_pattern pattern = Inr a" "assemble a = Inr (P, e)"
    by (auto simp: compile_def bindR_Inr_iff)
  ultimately show ?thesis using Inr search_exact by auto
qed simp

end
