(* ===== verification/AuditStore.thy ===== *)
theory AuditStore
  imports AuditLog EditModel
begin

text \<open>
  The durable audit store of \<open>services/audit.rs\<close>: one checksummed JSON line per event in
  \<open>audit.log\<close>, the sequence allocator that reads the tail of the file, rotation to
  \<open>audit.log.1\<close>, the recovery at startup, and the log with its buffer and read cache.

  The files are their bytes. The JSON library is a parameter (\<open>codec\<close>): \<open>js_ser\<close> is
  \<open>serde_json::to_string\<close> on an event, \<open>js_de\<close> parses a line into its checksum and
  event. Every system call takes its outcome from \<open>ad_env\<close>; a write can fail after some
  bytes. An empty environment is one where every call succeeds.
\<close>

section \<open>Events and files\<close>

record audit_entry =
  ae_ts_ms :: nat
  ae_kind :: string
  ae_action :: string
  ae_subject :: string
  ae_detail :: string
  ae_schema_version :: nat
  ae_event_id :: "string option"
  ae_sequence :: "nat option"
  ae_workspace_id :: "string option"
  ae_agent_id :: "string option"
  ae_session_id :: "string option"
  ae_edit_id :: "string option"
  ae_snapshot_id :: "string option"
  ae_reason :: "string option"

datatype audit_error =
  AuInvalid msg
| AuStorage msg
| AuCorruption msg
| AuIncompatibleSchema nat nat
| AuLimitExceeded msg

record codec =
  js_ser :: "audit_entry \<Rightarrow> string option"
  js_de :: "string \<Rightarrow> (string \<times> audit_entry) option"

datatype io_step = IoOk | IoFail | IoTorn nat

record audit_disk =
  ad_log :: "string option"
  ad_prev :: "string option"
  ad_workspace :: "string option"
  ad_env :: "io_step list"

definition audit_schema_version :: nat where "audit_schema_version = 1"
definition max_buffered_entries :: nat where "max_buffered_entries = 1000"
definition max_persisted_events :: nat where "max_persisted_events = 10000"
definition max_query_limit :: nat where "max_query_limit = 1000"
definition max_text_chars :: nat where "max_text_chars = 4096"

definition unwrap_or :: "'a \<Rightarrow> 'a option \<Rightarrow> 'a" where
  "unwrap_or x m = (case m of None \<Rightarrow> x | Some y \<Rightarrow> y)"

type_synonym 'a audit_op = "(audit_disk, audit_error, 'a) io"

definition next_io :: "audit_disk \<Rightarrow> io_step \<times> audit_disk" where
  "next_io d = (case ad_env d of [] \<Rightarrow> (IoOk, d) | s # ss \<Rightarrow> (s, d\<lparr>ad_env := ss\<rparr>))"

definition storage :: "string \<Rightarrow> audit_error" where
  "storage s = AuStorage (Txt s)"

definition syscall :: "string \<Rightarrow> unit audit_op" where
  "syscall what d = (case next_io d of (IoOk, d1) \<Rightarrow> (Inr (), d1) | (_, d1) \<Rightarrow> (Inl (storage what), d1))"

text \<open>\<open>write_all\<close> on the log opened for appending.\<close>

definition write_log :: "string \<Rightarrow> unit audit_op" where
  "write_log bytes d = (case next_io d of
      (IoOk, d1) \<Rightarrow> (Inr (), d1\<lparr>ad_log := Some (unwrap_or [] (ad_log d1) @ bytes)\<rparr>)
    | (IoFail, d1) \<Rightarrow> (Inl (storage ''append audit event''), d1)
    | (IoTorn n, d1) \<Rightarrow> (Inl (storage ''append audit event''),
        d1\<lparr>ad_log := Some (unwrap_or [] (ad_log d1) @ take n bytes)\<rparr>))"

definition u64_add1 :: "nat \<Rightarrow> nat" where
  "u64_add1 n = (n + 1) mod 18446744073709551616"

section \<open>Lines\<close>

definition json_line :: "string \<Rightarrow> string \<Rightarrow> string" where
  "json_line checksum payload = ''{\"checksum\":\"'' @ checksum @ ''\",\"event\":'' @ payload @ ''}''"

definition serialize_line :: "sha \<Rightarrow> codec \<Rightarrow> audit_entry \<Rightarrow> audit_error + string" where
  "serialize_line sha j e = (case js_ser j e of
      None \<Rightarrow> Inl (storage ''serialize audit event'')
    | Some payload \<Rightarrow> Inr (json_line (sha256_hex sha payload) payload))"

definition corruption :: "string \<Rightarrow> audit_error" where
  "corruption s = AuCorruption (Txt s)"

definition parse_line :: "sha \<Rightarrow> codec \<Rightarrow> string \<Rightarrow> audit_error + audit_entry" where
  "parse_line sha j line = (case js_de j line of
      None \<Rightarrow> Inl (corruption ''malformed record'')
    | Some (checksum, e) \<Rightarrow>
        if ae_schema_version e \<noteq> audit_schema_version
        then Inl (AuIncompatibleSchema audit_schema_version (ae_schema_version e))
        else (case js_ser j e of
            None \<Rightarrow> Inl (corruption ''re-serialize record'')
          | Some payload \<Rightarrow>
              if sha256_hex sha payload \<noteq> checksum then Inl (corruption ''checksum mismatch'')
              else if unwrap_or [] (ae_event_id e) = [] then Inl (corruption ''record has no event id'')
              else if ae_sequence e = None then Inl (corruption ''record has no sequence'')
              else Inr e))"

definition blank :: "string \<Rightarrow> bool" where
  "blank line \<longleftrightarrow> trim line = []"

section \<open>Recovery at startup\<close>

record scan_state =
  sc_next :: nat
  sc_count :: nat
  sc_seen :: "string list"
  sc_prefix :: nat

text \<open>
  The loop over the lines. \<open>closed\<close> says that the text ends with a newline; the flag returned
  with the state says that a torn final record has to be cut off.
\<close>

fun open_scan :: "sha \<Rightarrow> codec \<Rightarrow> bool \<Rightarrow> nat \<Rightarrow> string list \<Rightarrow> scan_state \<Rightarrow> audit_error + scan_state \<times> bool" where
  "open_scan sha j closed k [] st = Inr (st, False)"
| "open_scan sha j closed k (line # ls) st =
     (if blank line then open_scan sha j closed (k + 1) ls (st\<lparr>sc_prefix := sc_prefix st + length line + 1\<rparr>)
      else (case parse_line sha j line of
          Inr e \<Rightarrow>
            (let event_id = unwrap_or [] (ae_event_id e); sequence = unwrap_or 0 (ae_sequence e)
             in if List.member (sc_seen st) event_id
                then Inl (AuCorruption (Fmt ''duplicate event id at record {}'' [Num (k + 1)]))
                else if sequence < sc_next st
                then Inl (AuCorruption (Fmt ''sequence regression at record {}'' [Num (k + 1)]))
                else open_scan sha j closed (k + 1) ls \<lparr>sc_next = u64_add1 sequence, sc_count = sc_count st + 1,
                  sc_seen = event_id # sc_seen st, sc_prefix = sc_prefix st + length line + 1\<rparr>)
        | Inl err \<Rightarrow> if ls = [] \<and> \<not> closed then Inr (st, True) else Inl err))"

definition truncate_file :: "nat \<Rightarrow> unit audit_op" where
  "truncate_file n =
     bindE (syscall ''open audit log for repair'') (\<lambda>_.
     bindE (syscall ''repair audit log tail'') (\<lambda>_.
     bindE (modify (\<lambda>d. d\<lparr>ad_log := map_option (\<lambda>s. take n s @ replicate (n - length s) (CHR 0x00)) (ad_log d)\<rparr>)) (\<lambda>_.
     syscall ''repair audit log tail'')))"

record durable_store =
  ds_pid :: string
  ds_next :: nat
  ds_count :: nat

definition read_log :: "string audit_op" where
  "read_log = bindE (syscall ''read audit log'') (\<lambda>_ d. case ad_log d of
      None \<Rightarrow> (Inl (storage ''read audit log''), d)
    | Some s \<Rightarrow> (case from_utf8 s of None \<Rightarrow> (Inl (storage ''read audit log''), d) | Some t \<Rightarrow> (Inr t, d)))"

definition store_open :: "sha \<Rightarrow> codec \<Rightarrow> string \<Rightarrow> durable_store audit_op" where
  "store_open sha j pid =
     bindE (syscall ''create audit dir'') (\<lambda>_.
     bindE (gets ad_log) (\<lambda>log.
     if log = None then ret \<lparr>ds_pid = pid, ds_next = 1, ds_count = 0\<rparr>
     else bindE read_log (\<lambda>t.
       bindE (lift (open_scan sha j (ends_with t [LF]) 0 (str_lines t)
         \<lparr>sc_next = 1, sc_count = 0, sc_seen = [], sc_prefix = 0\<rparr>)) (\<lambda>(st, torn).
       bindE (if torn then truncate_file (sc_prefix st) else ret ()) (\<lambda>_.
       ret \<lparr>ds_pid = pid, ds_next = sc_next st, ds_count = sc_count st\<rparr>)))))"

section \<open>Appending\<close>

text \<open>\<open>String::from_utf8_lossy\<close>: an ill-formed sequence becomes one replacement character.\<close>

definition replacement :: string where
  "replacement = [CHR 0xEF, CHR 0xBF, CHR 0xBD]"

definition ill_formed_length :: "string \<Rightarrow> nat" where
  "ill_formed_length s = (case s of a # b # c # _ \<Rightarrow>
       if 224 \<le> byte a \<and> byte a \<le> 239 \<and> ok3 (byte a) (byte b) then 2
       else if 240 \<le> byte a \<and> byte a \<le> 244 \<and> ok4 (byte a) (byte b) then (if cont c then 3 else 2)
       else 1
     | [a, b] \<Rightarrow> if (224 \<le> byte a \<and> byte a \<le> 239 \<and> ok3 (byte a) (byte b))
           \<or> (240 \<le> byte a \<and> byte a \<le> 244 \<and> ok4 (byte a) (byte b)) then 2 else 1
     | _ \<Rightarrow> 1)"

function from_utf8_lossy :: "string \<Rightarrow> string" where
  "from_utf8_lossy [] = []"
| "from_utf8_lossy (a # s) = (case utf8_step (a # s) of
      Some (ch, r) \<Rightarrow> snd ch @ from_utf8_lossy r
    | None \<Rightarrow> replacement @ from_utf8_lossy (drop (ill_formed_length (a # s) - 1) s))"
  by pat_completeness auto
termination
proof (relation "measure length")
  fix a :: char and s r :: string and x :: "(nat \<times> string) \<times> string" and ch
  assume "utf8_step (a # s) = Some x" "(ch, r) = x"
  then have "a # s = snd ch @ r" "snd ch \<noteq> []" using utf8_step_Some by blast+
  then have "length (a # s) = length (snd ch) + length r" "0 < length (snd ch)" by simp_all
  then show "(r, a # s) \<in> measure length" by simp
qed simp_all

text \<open>\<open>scan_state\<close>: the largest sequence and the number of the valid lines before the first invalid one.\<close>

fun scan_from :: "sha \<Rightarrow> codec \<Rightarrow> string list \<Rightarrow> nat \<times> nat \<Rightarrow> nat \<times> nat" where
  "scan_from sha j [] acc = acc"
| "scan_from sha j (line # ls) (hi, n) =
     (if blank line then scan_from sha j ls (hi, n)
      else (case parse_line sha j line of
          Inr e \<Rightarrow> scan_from sha j ls (case ae_sequence e of Some q \<Rightarrow> max hi q | None \<Rightarrow> hi, n + 1)
        | Inl _ \<Rightarrow> (hi, n)))"

definition scan_text :: "sha \<Rightarrow> codec \<Rightarrow> string \<Rightarrow> nat \<times> nat" where
  "scan_text sha j s = (case from_utf8 s of None \<Rightarrow> (0, 0) | Some t \<Rightarrow> scan_from sha j (str_lines t) (0, 0))"

fun last_valid :: "sha \<Rightarrow> codec \<Rightarrow> string list \<Rightarrow> nat option" where
  "last_valid sha j [] = None"
| "last_valid sha j (line # ls) =
     (if blank line then last_valid sha j ls
      else (case parse_line sha j line of
          Inr e \<Rightarrow> (case ae_sequence e of Some q \<Rightarrow> Some q | None \<Rightarrow> last_valid sha j ls)
        | Inl _ \<Rightarrow> last_valid sha j ls))"

definition tail_window :: nat where "tail_window = 65536"

text \<open>One outcome stands for the open, metadata, seek and read calls: any failure reads as 0.\<close>

definition tail_sequence :: "sha \<Rightarrow> codec \<Rightarrow> (audit_disk \<Rightarrow> string option) \<Rightarrow> audit_disk \<Rightarrow> nat \<times> audit_disk" where
  "tail_sequence sha j file d = (case file d of None \<Rightarrow> (0, d)
    | Some s \<Rightarrow> (case next_io d of
        (IoOk, d1) \<Rightarrow> (if s = [] then 0
          else (case last_valid sha j (rev (str_lines (from_utf8_lossy (drop (length s - tail_window) s)))) of
              Some q \<Rightarrow> q | None \<Rightarrow> fst (scan_text sha j s)), d1)
      | (_, d1) \<Rightarrow> (0, d1)))"

text \<open>The instant of an append: the clock in nanoseconds (as \<open>u64\<close>) and in milliseconds.\<close>

definition hex16 :: "nat \<Rightarrow> string" where
  "hex16 n = map (\<lambda>i. hex_digit (n div 16 ^ (15 - i) mod 16)) [0..<16]"

definition event_id :: "nat \<Rightarrow> string \<Rightarrow> nat \<Rightarrow> string" where
  "event_id nanos pid sequence = ''audit-'' @ hex16 nanos @ ''-'' @ pid @ ''-'' @ dec sequence"

definition stamped :: "nat \<Rightarrow> string \<Rightarrow> string option \<Rightarrow> nat \<Rightarrow> audit_entry \<Rightarrow> audit_entry" where
  "stamped nanos pid ws sequence e = e\<lparr>ae_sequence := Some sequence, ae_event_id := Some (event_id nanos pid sequence),
     ae_workspace_id := (case ae_workspace_id e of None \<Rightarrow> ws | Some w \<Rightarrow> Some w)\<rparr>"

definition append_locked :: "sha \<Rightarrow> codec \<Rightarrow> nat \<Rightarrow> string \<Rightarrow> audit_entry \<Rightarrow> nat \<Rightarrow> audit_entry audit_op" where
  "append_locked sha j nanos pid e sequence =
     bindE (gets ad_workspace) (\<lambda>ws. let entry = stamped nanos pid ws sequence e in
     bindE (lift (serialize_line sha j entry)) (\<lambda>line.
     bindE (syscall ''open audit log'') (\<lambda>_.
     bindE (modify (\<lambda>d. d\<lparr>ad_log := Some (unwrap_or [] (ad_log d))\<rparr>)) (\<lambda>_.
     bindE (write_log line) (\<lambda>_.
     bindE (write_log [LF]) (\<lambda>_. ret entry))))))"

definition rotation_marker :: "nat \<Rightarrow> string option \<Rightarrow> audit_entry" where
  "rotation_marker nanos ws = \<lparr>ae_ts_ms = nanos div 1000000, ae_kind = ''allow'', ae_action = ''audit.rotation'',
     ae_subject = ''audit'',
     ae_detail = ''log rotated at 10000 events; previous generation preserved as audit.log.1'',
     ae_schema_version = audit_schema_version, ae_event_id = None, ae_sequence = None, ae_workspace_id = ws,
     ae_agent_id = None, ae_session_id = None, ae_edit_id = None, ae_snapshot_id = None,
     ae_reason = Some ''retention_rotation''\<rparr>"

definition rotate_locked :: "sha \<Rightarrow> codec \<Rightarrow> nat \<Rightarrow> string \<Rightarrow> nat \<Rightarrow> audit_entry audit_op" where
  "rotate_locked sha j nanos pid first_sequence =
     bindE (gets ad_prev) (\<lambda>prev.
     bindE (if prev = None then ret ()
            else bindE (syscall ''drop previous audit generation'') (\<lambda>_. modify (\<lambda>d. d\<lparr>ad_prev := None\<rparr>))) (\<lambda>_.
     bindE (syscall ''rotate audit log'') (\<lambda>_.
     bindE (gets ad_log) (\<lambda>log.
     bindE (if log = None then fail (storage ''rotate audit log'')
            else modify (\<lambda>d. d\<lparr>ad_prev := log, ad_log := None\<rparr>)) (\<lambda>_.
     bindE (gets ad_workspace) (\<lambda>ws.
     append_locked sha j nanos pid (rotation_marker nanos ws) first_sequence))))))"

definition store_append ::
    "sha \<Rightarrow> codec \<Rightarrow> nat \<Rightarrow> audit_entry \<Rightarrow> durable_store \<Rightarrow> (audit_entry \<times> audit_entry option \<times> durable_store) audit_op" where
  "store_append sha j nanos e s =
     bindE (syscall ''audit append lock'') (\<lambda>_.
     bindE (\<lambda>d. case tail_sequence sha j ad_log d of (q, d1) \<Rightarrow> (Inr q, d1)) (\<lambda>active.
     bindE (\<lambda>d. case tail_sequence sha j ad_prev d of (q, d1) \<Rightarrow> (Inr q, d1)) (\<lambda>rotated.
     let next_sequence = u64_add1 (max active rotated); full = max_persisted_events \<le> ds_count s in
     bindE (if full then bindE (rotate_locked sha j nanos (ds_pid s) next_sequence) (\<lambda>m. ret (Some m)) else ret None) (\<lambda>marker.
     let sequence = (if marker \<noteq> None then u64_add1 next_sequence else next_sequence) in
     bindE (append_locked sha j nanos (ds_pid s) e sequence) (\<lambda>persisted.
     ret (persisted, marker, s\<lparr>ds_next := u64_add1 sequence,
       ds_count := (if marker \<noteq> None then 2 else ds_count s + 1)\<rparr>))))))"

section \<open>Reading\<close>

definition parsed :: "sha \<Rightarrow> codec \<Rightarrow> string \<Rightarrow> audit_entry list" where
  "parsed sha j line = (if blank line then [] else (case parse_line sha j line of Inr e \<Rightarrow> [e] | Inl _ \<Rightarrow> []))"

definition store_recent :: "sha \<Rightarrow> codec \<Rightarrow> nat \<Rightarrow> audit_disk \<Rightarrow> audit_entry list \<times> audit_disk" where
  "store_recent sha j limit d = (case read_log d of
      (Inl _, d1) \<Rightarrow> ([], d1)
    | (Inr t, d1) \<Rightarrow> (take limit (concat (map (parsed sha j) (rev (str_lines t)))), d1))"

definition store_count :: "audit_disk \<Rightarrow> nat \<times> audit_disk" where
  "store_count d = (case read_log d of
      (Inl _, d1) \<Rightarrow> (0, d1)
    | (Inr t, d1) \<Rightarrow> (length (filter (\<lambda>l. \<not> blank l) (str_lines t)), d1))"

section \<open>The log: shape guards, buffer and cache\<close>

definition bound_text :: "string \<Rightarrow> string" where
  "bound_text s = (if length (chars s) \<le> max_text_chars then s else concat (map snd (take max_text_chars (chars s))))"

definition trusted_edit_id :: "string \<Rightarrow> string" where
  "trusted_edit_id v = (if starts_with v ''edit-'' \<and> length v \<le> 128 then bound_text v else bound_text (redact_token_like v))"

definition trusted_snapshot_id :: "string \<Rightarrow> string" where
  "trusted_snapshot_id v = (if starts_with v ''snap-'' \<and> length v \<le> 128 then bound_text v else bound_text (redact_token_like v))"

definition is_hexdigit :: "char \<Rightarrow> bool" where
  "is_hexdigit c \<longleftrightarrow> is_digit c \<or> (65 \<le> byte c \<and> byte c \<le> 70) \<or> (97 \<le> byte c \<and> byte c \<le> 102)"

definition generated_shape :: "string \<Rightarrow> bool" where
  "generated_shape v = (case split_once (CHR ''-'') v of
      None \<Rightarrow> False
    | Some (kind, rest) \<Rightarrow> List.member [''ws'', ''agent'', ''sess'', ''task'', ''audit''] kind \<and> length v \<le> 128
        \<and> (case split_once (CHR ''-'') rest of
            None \<Rightarrow> False
          | Some (nanos, rest2) \<Rightarrow> (case split_once (CHR ''-'') rest2 of
              None \<Rightarrow> False
            | Some (pid, sequence) \<Rightarrow> length nanos = 16 \<and> list_all is_hexdigit nanos
                \<and> pid \<noteq> [] \<and> list_all is_digit pid \<and> sequence \<noteq> [] \<and> list_all is_digit sequence)))"

definition trusted_identity_id :: "string \<Rightarrow> string" where
  "trusted_identity_id v = (if generated_shape v then bound_text v else bound_text (redact_token_like v))"

definition trusted_reason :: "string \<Rightarrow> string" where
  "trusted_reason v = (if v \<noteq> [] \<and> length v \<le> 64
      \<and> list_all (\<lambda>c. (97 \<le> byte c \<and> byte c \<le> 122) \<or> is_digit c \<or> c = CHR ''_'') v
    then v else bound_text (redact_token_like v))"

datatype audit_inner = Buffered "audit_entry list" | Durable durable_store "audit_entry list"

definition push_bounded :: "audit_entry \<Rightarrow> audit_entry list \<Rightarrow> audit_entry list" where
  "push_bounded e es = (if length es = max_buffered_entries then tl es else es) @ [e]"

definition accepted_entry :: "nat \<Rightarrow> string \<Rightarrow> string \<Rightarrow> string \<Rightarrow> string \<Rightarrow> audit_correlation \<Rightarrow> audit_entry" where
  "accepted_entry nanos kind action subject detail c = \<lparr>ae_ts_ms = nanos div 1000000, ae_kind = kind,
     ae_action = bound_text action, ae_subject = bound_text (redact_token_like subject),
     ae_detail = bound_text (redact_token_like detail), ae_schema_version = audit_schema_version,
     ae_event_id = None, ae_sequence = None,
     ae_workspace_id = map_option trusted_identity_id (ac_workspace_id c),
     ae_agent_id = map_option trusted_identity_id (ac_agent_id c),
     ae_session_id = map_option trusted_identity_id (ac_session_id c),
     ae_edit_id = map_option trusted_edit_id (ac_edit_id c),
     ae_snapshot_id = map_option trusted_snapshot_id (ac_snapshot_id c),
     ae_reason = map_option trusted_reason (ac_reason c)\<rparr>"

definition record_entry :: "sha \<Rightarrow> codec \<Rightarrow> nat \<Rightarrow> audit_entry \<Rightarrow> audit_inner \<Rightarrow> audit_disk \<Rightarrow> audit_inner \<times> audit_disk" where
  "record_entry sha j nanos e log d = (case log of
      Buffered es \<Rightarrow> (Buffered (push_bounded e es), d)
    | Durable s cache \<Rightarrow> (case store_append sha j nanos e s d of
        (Inr (persisted, marker, s'), d1) \<Rightarrow>
          (Durable s' (push_bounded persisted (case marker of None \<Rightarrow> cache | Some m \<Rightarrow> push_bounded m cache)), d1)
      | (Inl _, d1) \<Rightarrow> (Durable s (push_bounded e cache), d1)))"

definition record_correlated ::
    "sha \<Rightarrow> codec \<Rightarrow> nat \<Rightarrow> string \<Rightarrow> string \<Rightarrow> string \<Rightarrow> string \<Rightarrow> audit_correlation
     \<Rightarrow> audit_inner \<Rightarrow> audit_disk \<Rightarrow> audit_inner \<times> audit_disk" where
  "record_correlated sha j nanos kind action subject detail c =
     record_entry sha j nanos (accepted_entry nanos kind action subject detail c)"

definition log_recent :: "nat \<Rightarrow> audit_inner \<Rightarrow> audit_entry list" where
  "log_recent limit log = take (min limit max_query_limit)
     (rev (case log of Buffered es \<Rightarrow> es | Durable _ cache \<Rightarrow> cache))"

definition log_len :: "audit_inner \<Rightarrow> audit_disk \<Rightarrow> nat \<times> audit_disk" where
  "log_len log d = (case log of Buffered es \<Rightarrow> (length es, d) | Durable _ _ \<Rightarrow> store_count d)"

definition open_log :: "sha \<Rightarrow> codec \<Rightarrow> string \<Rightarrow> audit_inner audit_op" where
  "open_log sha j pid = bindE (store_open sha j pid) (\<lambda>s d.
     case store_recent sha j max_buffered_entries d of (es, d1) \<Rightarrow> (Inr (Durable s (rev es)), d1))"

text \<open>\<open>init_global\<close> replays what was buffered; one clock reading per event.\<close>

fun replay :: "sha \<Rightarrow> codec \<Rightarrow> nat list \<Rightarrow> audit_entry list \<Rightarrow> durable_store \<Rightarrow> audit_entry list
    \<Rightarrow> audit_disk \<Rightarrow> (durable_store \<times> audit_entry list) \<times> audit_disk" where
  "replay sha j nanos [] s cache d = ((s, cache), d)"
| "replay sha j nanos (e # es) s cache d = (case store_append sha j (hd nanos) e s d of
      (Inr (persisted, _, s'), d1) \<Rightarrow> replay sha j (tl nanos) es s' (push_bounded persisted cache) d1
    | (Inl _, d1) \<Rightarrow> replay sha j (tl nanos) es s (push_bounded e cache) d1)"

definition init_global :: "sha \<Rightarrow> codec \<Rightarrow> string \<Rightarrow> nat list \<Rightarrow> audit_inner \<Rightarrow> audit_inner audit_op" where
  "init_global sha j pid nanos log = (case log of
      Durable s0 c0 \<Rightarrow> ret log
    | Buffered buffered \<Rightarrow> bindE (store_open sha j pid) (\<lambda>s d.
        case store_recent sha j max_buffered_entries d of (es, d1) \<Rightarrow>
        (case replay sha j nanos buffered s (rev es) d1 of
            ((s', cache), d2) \<Rightarrow> (Inr (Durable s' cache), d2))))"

end
