(* ===== verification/AuditRecovery.thy ===== *)
theory AuditRecovery
  imports AuditStore
begin

text \<open>
  Correctness of the durable audit store: a healthy pair of generations is recovered exactly,
  an append refines adding one event to the history, and what a crash or a failed call at each
  point of an append leaves behind.
\<close>

section \<open>The text of a history\<close>

definition seq_of :: "audit_entry \<Rightarrow> nat" where
  "seq_of e = unwrap_or 0 (ae_sequence e)"

definition line_of :: "sha \<Rightarrow> codec \<Rightarrow> audit_entry \<Rightarrow> string" where
  "line_of sha j e = (let p = unwrap_or [] (js_ser j e) in json_line (sha256_hex sha p) p)"

definition history_text :: "sha \<Rightarrow> codec \<Rightarrow> audit_entry list \<Rightarrow> string" where
  "history_text sha j es = concat (map (\<lambda>e. line_of sha j e @ [LF]) es)"

text \<open>
  What is used of the JSON library, event by event: the event serializes to UTF-8 text on one
  line, and the line made of it parses back to it.
\<close>

definition round_trips :: "sha \<Rightarrow> codec \<Rightarrow> audit_entry \<Rightarrow> bool" where
  "round_trips sha j e = (case js_ser j e of None \<Rightarrow> False
     | Some p \<Rightarrow> LF \<notin> set p \<and> valid_utf8 p \<and> js_de j (line_of sha j e) = Some (sha256_hex sha p, e))"

text \<open>An event as \<open>append_locked\<close> stamps it, small enough for the window of the tail read.\<close>

definition event_stored :: "sha \<Rightarrow> codec \<Rightarrow> audit_entry \<Rightarrow> bool" where
  "event_stored sha j e \<longleftrightarrow> round_trips sha j e \<and> ae_schema_version e = audit_schema_version
     \<and> ae_sequence e = Some (seq_of e) \<and> 1 \<le> seq_of e \<and> seq_of e < 18446744073709551615 \<and> (\<exists>nanos pid. ae_event_id e = Some (event_id nanos pid (seq_of e)))
     \<and> length (line_of sha j e) < tail_window"

lemma unwrap_or_simps [simp]: "unwrap_or x None = x" "unwrap_or x (Some y) = y"
  by (simp_all add: unwrap_or_def)

lemma history_text_simps [simp]:
  "history_text sha j [] = []"
  "history_text sha j (e # es) = line_of sha j e @ LF # history_text sha j es"
  "history_text sha j (es @ fs) = history_text sha j es @ history_text sha j fs"
  by (simp_all add: history_text_def)

lemma sha256_hex_ascii: "digest_shape sha \<Longrightarrow> c \<in> set (sha256_hex sha b) \<Longrightarrow> byte c < 128 \<and> c \<noteq> LF"
  using sha256_hex_valid [of sha b] by (auto simp: is_valid_hash_def list_all_iff)

lemma valid_ascii: "(\<And>c. c \<in> set s \<Longrightarrow> byte c < 128) \<Longrightarrow> valid_utf8 s"
  by (induction s) auto

lemma line_shape:
  assumes "digest_shape sha" and "round_trips sha j e"
  shows "\<exists>m. line_of sha j e = CHR ''{'' # m @ ''}''" "LF \<notin> set (line_of sha j e)" "valid_utf8 (line_of sha j e)"
proof -
  obtain p where p: "js_ser j e = Some p" "LF \<notin> set p" "valid_utf8 p"
    using assms(2) by (auto simp: round_trips_def split: option.splits)
  let ?h = "sha256_hex sha p"
  have l: "line_of sha j e = ''{\"checksum\":\"'' @ ?h @ ''\",\"event\":'' @ p @ ''}''"
    using p by (simp add: line_of_def json_line_def)
  then show "\<exists>m. line_of sha j e = CHR ''{'' # m @ ''}''" by simp
  have h: "LF \<notin> set ?h" "valid_utf8 ?h" using sha256_hex_ascii [OF assms(1)] valid_ascii by blast+
  then show "LF \<notin> set (line_of sha j e)" using p unfolding l by simp
  show "valid_utf8 (line_of sha j e)" unfolding l using h p by (simp add: valid_append)
qed

lemma not_blank:
  assumes "byte c < 128" "\<not> is_whitespace (byte c)" "valid_utf8 s" shows "\<not> blank (c # s)"
proof -
  from assms(1,3) obtain cs where cs: "chars (c # s) = (byte c, [c]) # cs"
    by (auto simp: chars_def valid_utf8_def)
  with assms(2) show ?thesis by (simp add: blank_def trim_def dropWhile_append3)
qed

lemma line_not_blank:
  assumes "digest_shape sha" and "round_trips sha j e" shows "\<not> blank (line_of sha j e)"
proof -
  obtain m where m: "line_of sha j e = CHR ''{'' # m @ ''}''" using line_shape(1) [OF assms] by blast
  with line_shape(3) [OF assms] have "valid_utf8 (m @ ''}'')" by simp
  with not_blank [of "CHR ''{''" "m @ ''}''"] show ?thesis unfolding m by (simp add: is_whitespace_def)
qed

lemma event_id_nonempty [simp]: "event_id n p q \<noteq> []"
  by (simp add: event_id_def)

lemma parse_written: "event_stored sha j e \<Longrightarrow> parse_line sha j (line_of sha j e) = Inr e"
proof -
  assume a: "event_stored sha j e"
  then obtain p where p: "js_ser j e = Some p" "js_de j (line_of sha j e) = Some (sha256_hex sha p, e)"
    by (auto simp: event_stored_def round_trips_def split: option.splits)
  from a obtain n q where "ae_event_id e = Some (event_id n q (seq_of e))" "ae_sequence e \<noteq> None"
    "ae_schema_version e = audit_schema_version"
    unfolding event_stored_def by fastforce
  with p show ?thesis by (simp add: parse_line_def)
qed

section \<open>Lines of a history\<close>

lemma chomp_line: "c \<noteq> CR \<Longrightarrow> chomp (m @ [c, LF]) = m @ [c]"
proof -
  assume "c \<noteq> CR"
  then have "strip_suffix [CR] (m @ [c]) = None"
    by (cases "strip_suffix [CR] (m @ [c])") (simp_all add: strip_suffix_Some_iff)
  moreover have "strip_suffix [LF] (m @ [c, LF]) = Some (m @ [c])" by (simp add: strip_suffix_Some_iff)
  ultimately show ?thesis by (simp add: chomp_def)
qed

lemma chomp_open: "LF \<notin> set t \<Longrightarrow> chomp t = t"
proof -
  assume "LF \<notin> set t"
  then have "strip_suffix [LF] t = None"
    by (cases "strip_suffix [LF] t") (auto simp: strip_suffix_Some_iff)
  then show ?thesis by (simp add: chomp_def)
qed

lemma str_lines_history:
  assumes "digest_shape sha" and "list_all (round_trips sha j) es"
  shows "str_lines (history_text sha j es @ t) = map (line_of sha j) es @ str_lines t"
  using assms(2)
proof (induction es)
  case (Cons e es)
  then have e: "round_trips sha j e" by simp
  obtain m where m: "line_of sha j e = CHR ''{'' # m @ ''}''" using line_shape(1) [OF assms(1) e] by blast
  have "str_lines (history_text sha j (e # es) @ t)
      = chomp (line_of sha j e @ [LF]) # str_lines (history_text sha j es @ t)"
    using split_inclusive_append_line [OF line_shape(2) [OF assms(1) e]] by (simp add: str_lines_def)
  moreover have "chomp (line_of sha j e @ [LF]) = line_of sha j e"
    using chomp_line [of "CHR ''}''" "CHR ''{'' # m"] by (simp add: m)
  ultimately show ?case using Cons by simp
qed simp

lemma str_lines_open: "LF \<notin> set t \<Longrightarrow> str_lines t = (if t = [] then [] else [t])"
  by (simp add: str_lines_def split_inclusive_no_LF chomp_open)

section \<open>Recovery\<close>

text \<open>The order of a history is that of its sequence numbers.\<close>

definition good_history :: "sha \<Rightarrow> codec \<Rightarrow> audit_entry list \<Rightarrow> bool" where
  "good_history sha j es \<longleftrightarrow> list_all (event_stored sha j) es \<and> sorted_wrt (<) (map seq_of es)"

definition id_of :: "audit_entry \<Rightarrow> string" where
  "id_of e = unwrap_or [] (ae_event_id e)"

lemma good_history_simps [simp]:
  "good_history sha j []"
  "good_history sha j (e # es) \<longleftrightarrow> event_stored sha j e \<and> (\<forall>x \<in> set es. seq_of e < seq_of x) \<and> good_history sha j es"
  by (auto simp: good_history_def)

lemma event_id_inj:
  assumes "event_id n p q = event_id n' p' q'" shows "q = q'"
proof -
  have "takeWhile is_digit (rev (event_id n p q)) = rev (dec q)" for n p q
  proof -
    have "rev (event_id n p q) = rev (dec q) @ CHR ''-'' # rev (''audit-'' @ hex16 n @ ''-'' @ p)"
      by (simp add: event_id_def)
    moreover have "takeWhile is_digit (rev (dec q) @ r) = rev (dec q) @ takeWhile is_digit r" for r
      using dec_digits [of q] by (intro takeWhile_append2) (simp add: list_all_iff)
    ultimately show ?thesis by (simp add: is_digit_def)
  qed
  with assms have "dec q = dec q'" by (metis rev_rev_ident)
  then show ?thesis by (rule dec_inj)
qed

lemma stored_ids:
  assumes "event_stored sha j a" "event_stored sha j b" "id_of a = id_of b" shows "seq_of a = seq_of b"
proof -
  obtain n p n' p' where "ae_event_id a = Some (event_id n p (seq_of a))" "ae_event_id b = Some (event_id n' p' (seq_of b))"
    using assms(1,2) unfolding event_stored_def by blast
  with assms(3) show ?thesis by (auto simp: id_of_def dest: event_id_inj)
qed

lemma stored_parts:
  assumes "event_stored sha j e"
  shows "round_trips sha j e" "unwrap_or 0 (ae_sequence e) = seq_of e" "unwrap_or [] (ae_event_id e) = id_of e"
    "1 \<le> seq_of e" "seq_of e < 18446744073709551615" "ae_sequence e = Some (seq_of e)"
    "length (line_of sha j e) < tail_window"
  using assms by (simp_all add: event_stored_def seq_of_def id_of_def)

definition scanned :: "sha \<Rightarrow> codec \<Rightarrow> audit_entry list \<Rightarrow> scan_state \<Rightarrow> scan_state" where
  "scanned sha j es st = \<lparr>sc_next = (if es = [] then sc_next st else seq_of (last es) + 1),
     sc_count = sc_count st + length es, sc_seen = rev (map id_of es) @ sc_seen st,
     sc_prefix = sc_prefix st + length (history_text sha j es)\<rparr>"

lemma open_scan_history:
  assumes "digest_shape sha" and "good_history sha j es"
    and "\<forall>e \<in> set es. sc_next st \<le> seq_of e \<and> id_of e \<notin> set (sc_seen st)"
  shows "open_scan sha j closed k (map (line_of sha j) es @ ls) st
    = open_scan sha j closed (k + length es) ls (scanned sha j es st)"
  using assms(2,3)
proof (induction es arbitrary: k st)
  case Nil
  then show ?case by (cases st) (simp add: scanned_def)
next
  case (Cons e es)
  then have e: "event_stored sha j e" by simp
  note pe = stored_parts [OF e]
  let ?st = "\<lparr>sc_next = seq_of e + 1, sc_count = sc_count st + 1, sc_seen = id_of e # sc_seen st,
     sc_prefix = sc_prefix st + length (line_of sha j e) + 1\<rparr>"
  have add: "u64_add1 (seq_of e) = seq_of e + 1" using pe(5) by (simp add: u64_add1_def)
  have step: "open_scan sha j closed k (map (line_of sha j) (e # es) @ ls) st
      = open_scan sha j closed (k + 1) (map (line_of sha j) es @ ls) ?st"
    using Cons.prems(2) line_not_blank [OF assms(1) pe(1)] parse_written [OF e]
    by (simp add: pe(2,3) add Let_def)
  have "\<forall>x \<in> set es. sc_next ?st \<le> seq_of x \<and> id_of x \<notin> set (sc_seen ?st)"
  proof
    fix x assume x: "x \<in> set es"
    then have "event_stored sha j x" "seq_of e < seq_of x"
      using Cons.prems(1) by (auto simp: good_history_def list_all_iff)
    moreover have "id_of x \<noteq> id_of e" using stored_ids [of sha j x e] e calculation by auto
    ultimately show "sc_next ?st \<le> seq_of x \<and> id_of x \<notin> set (sc_seen ?st)" using Cons.prems(2) x by simp
  qed
  from Cons.IH [OF _ this] Cons.prems(1) have "open_scan sha j closed (k + 1) (map (line_of sha j) es @ ls) ?st
      = open_scan sha j closed (k + 1 + length es) ls (scanned sha j es ?st)" by simp
  moreover have "scanned sha j es ?st = scanned sha j (e # es) st" by (simp add: scanned_def)
  ultimately show ?case using step by simp
qed

definition next_seq :: "audit_entry list \<Rightarrow> nat" where
  "next_seq es = (if es = [] then 1 else seq_of (last es) + 1)"

lemma quiet_calls [simp]:
  "ad_env d = [] \<Longrightarrow> next_io d = (IoOk, d)"
  "ad_env d = [] \<Longrightarrow> syscall what d = (Inr (), d)"
  by (simp_all add: next_io_def syscall_def)

lemma history_valid:
  assumes "digest_shape sha" and "good_history sha j es" shows "valid_utf8 (history_text sha j es)"
  using assms(2)
  by (induction es) (auto simp: valid_append line_shape(3) [OF assms(1)] stored_parts(1))

lemma good_history_trips: "good_history sha j es \<Longrightarrow> list_all (round_trips sha j) es"
  by (auto simp: good_history_def list_all_iff event_stored_def)

lemma history_closed: "es \<noteq> [] \<Longrightarrow> \<exists>u. history_text sha j es = u @ [LF]"
proof -
  assume "es \<noteq> []"
  then obtain fs e where "es = fs @ [e]" by (metis rev_exhaust)
  then have "history_text sha j es = (history_text sha j fs @ line_of sha j e) @ [LF]" by simp
  then show ?thesis by blast
qed

lemma open_scan_start:
  assumes "digest_shape sha" and "good_history sha j es"
  shows "open_scan sha j closed 0 (map (line_of sha j) es @ ls) \<lparr>sc_next = 1, sc_count = 0, sc_seen = [], sc_prefix = 0\<rparr>
    = open_scan sha j closed (length es) ls \<lparr>sc_next = next_seq es, sc_count = length es,
        sc_seen = rev (map id_of es), sc_prefix = length (history_text sha j es)\<rparr>"
proof -
  let ?st = "\<lparr>sc_next = 1, sc_count = 0, sc_seen = [], sc_prefix = 0\<rparr> :: scan_state"
  have "\<forall>e \<in> set es. sc_next ?st \<le> seq_of e \<and> id_of e \<notin> set (sc_seen ?st)"
    using assms(2) by (auto simp: good_history_def list_all_iff event_stored_def)
  from open_scan_history [OF assms this] show ?thesis by (simp add: scanned_def next_seq_def)
qed

text \<open>
  C12. A crash in the middle of an append loses at most the event being written. For every
  history, every event and every cut before the end of its line: if the cut falls between two
  characters, opening the store succeeds, cuts the partial line off, keeps every event before
  it, and continues after the last sequence number; if it falls inside a character, the file is
  not UTF-8 and the store does not open at all.
\<close>

theorem torn_append_recovered:
  assumes "digest_shape sha" and "good_history sha j es" and "round_trips sha j e"
    and "ad_env d = []" and "n < length (line_of sha j e)" and "js_de j (take n (line_of sha j e)) = None"
    and "ad_log d = Some (history_text sha j es @ take n (line_of sha j e))"
  shows "store_open sha j pid d = (if valid_utf8 (take n (line_of sha j e))
    then (Inr \<lparr>ds_pid = pid, ds_next = next_seq es, ds_count = length es\<rparr>,
          d\<lparr>ad_log := Some (history_text sha j es)\<rparr>)
    else (Inl (storage ''read audit log''), d))"
proof -
  let ?t = "take n (line_of sha j e)"
  let ?h = "history_text sha j es"
  have v: "valid_utf8 (?h @ ?t) = valid_utf8 ?t"
    using history_valid [OF assms(1,2)] by (rule valid_append)
  have lf: "LF \<notin> set ?t" using line_shape(2) [OF assms(1,3)] by (meson in_set_takeD)
  show ?thesis
  proof (cases "valid_utf8 ?t")
    case False
    with v assms(4,7) show ?thesis by (simp add: store_open_def read_log_def bindE_run from_utf8_def)
  next
    case True
    with v assms(4,7) have r: "read_log d = (Inr (?h @ ?t), d)" by (simp add: read_log_def bindE_run from_utf8_def)
    have lines: "str_lines (?h @ ?t) = map (line_of sha j) es @ (if ?t = [] then [] else [?t])"
      using str_lines_history [OF assms(1) good_history_trips [OF assms(2)]] str_lines_open [OF lf] by simp
    show ?thesis
    proof (cases "n = 0")
      case zero: True
      have "open_scan sha j c 0 (str_lines ?h) \<lparr>sc_next = 1, sc_count = 0, sc_seen = [], sc_prefix = 0\<rparr>
          = Inr (\<lparr>sc_next = next_seq es, sc_count = length es, sc_seen = rev (map id_of es), sc_prefix = length ?h\<rparr>, False)" for c
        using open_scan_start [OF assms(1,2), of c "[]"] lines zero by simp
      with r zero assms(4,7) show ?thesis by (simp add: store_open_def bindE_run)
    next
      case False
      obtain m where m: "line_of sha j e = CHR ''{'' # m @ ''}''" using line_shape(1) [OF assms(1,3)] by blast
      with False have t: "?t = CHR ''{'' # take (n - 1) (m @ ''}'')" by (cases n) auto
      with True have nb: "\<not> blank ?t" using not_blank [of "CHR ''{''" "take (n - 1) (m @ ''}'')"]
        by (simp add: is_whitespace_def)
      obtain err where pe: "parse_line sha j ?t = Inl err" using assms(6) by (simp add: parse_line_def)
      have ne: "?t \<noteq> []" using t by simp
      have "last ?t \<noteq> LF" using lf last_in_set [OF ne] by metis
      moreover have "last (?h @ ?t) = last ?t" by (rule last_appendR [OF ne])
      ultimately have open_end: "ends_with (?h @ ?t) [LF] = False" by (simp add: ends_with_single)
      have "open_scan sha j (ends_with (?h @ ?t) [LF]) 0 (str_lines (?h @ ?t))
            \<lparr>sc_next = 1, sc_count = 0, sc_seen = [], sc_prefix = 0\<rparr>
          = Inr (\<lparr>sc_next = next_seq es, sc_count = length es, sc_seen = rev (map id_of es), sc_prefix = length ?h\<rparr>, True)"
        unfolding lines if_not_P [OF ne] open_end using nb pe open_scan_start [OF assms(1,2), of False "[?t]"] by simp
      with r True assms(4,7) show ?thesis by (simp add: store_open_def bindE_run truncate_file_def)
    qed
  qed
qed

section \<open>The tail of a history\<close>

lemma lossy_step:
  "from_utf8_lossy (a # s) = (case utf8_step (a # s) of
      Some (ch, r) \<Rightarrow> snd ch @ from_utf8_lossy r
    | None \<Rightarrow> replacement @ from_utf8_lossy (drop (ill_formed_length (a # s) - 1) s))"
  by (rule from_utf8_lossy.simps(2))

declare from_utf8_lossy.simps(2) [simp del]

lemma lossy_valid: "valid_utf8 s \<Longrightarrow> from_utf8_lossy s = s"
proof (induction s rule: valid_induct)
  case (Char s ch r)
  then obtain a s' where s: "s = a # s'" using utf8_step_Some by (cases s) fastforce+
  with Char have "from_utf8_lossy (a # s') = snd ch @ r" by (simp add: lossy_step)
  with s utf8_step_Some [OF Char(1)] show ?case by simp
qed simp

lemma not_ok_LF [simp]: "\<not> ok3 x 10" "\<not> ok4 x 10" "\<not> cont LF"
  by (simp_all add: ok3_def ok4_def cont_def)

lemma ill_formed_LF:
  "ill_formed_length ((a # s) @ LF # b) = ill_formed_length (a # s)" "ill_formed_length (a # s) - 1 \<le> length s"
proof -
  show "ill_formed_length ((a # s) @ LF # b) = ill_formed_length (a # s)"
  proof (cases s)
    case (Cons x s')
    then show ?thesis by (cases s') (simp_all add: ill_formed_length_def)
  qed (cases b; simp add: ill_formed_length_def)
  show "ill_formed_length (a # s) - 1 \<le> length s"
    by (auto simp: ill_formed_length_def split: list.splits)
qed

lemma utf8_step_LF_None: "utf8_step (a # s) = None \<Longrightarrow> utf8_step ((a # s) @ LF # b) = None"
  using utf8_step_within [of "a # s" "LF # b"] by (cases "utf8_step ((a # s) @ LF # b)") auto

lemma lossy_LF: "from_utf8_lossy (u @ LF # b) = from_utf8_lossy u @ LF # from_utf8_lossy b"
proof (induction u rule: from_utf8_lossy.induct)
  case 1
  then show ?case by (simp add: lossy_step utf8_step_def)
next
  case (2 a s)
  show ?case
  proof (cases "utf8_step (a # s)")
    case None
    let ?k = "ill_formed_length (a # s) - 1"
    have "from_utf8_lossy ((a # s) @ LF # b) = replacement @ from_utf8_lossy (drop ?k (s @ LF # b))"
      using utf8_step_LF_None [OF None, of b] ill_formed_LF(1) [of a s b] by (simp add: lossy_step)
    with 2(1) [OF None] None ill_formed_LF(2) [of a s] show ?thesis by (simp add: lossy_step)
  next
    case (Some x)
    obtain ch r where x: "x = (ch, r)" by fastforce
    with Some utf8_step_append [of "a # s" ch r "LF # b"]
    have "from_utf8_lossy ((a # s) @ LF # b) = snd ch @ from_utf8_lossy (r @ LF # b)" by (simp add: lossy_step)
    with 2(2) [OF Some] Some x show ?thesis by (simp add: lossy_step)
  qed
qed

lemma str_lines_last:
  assumes "digest_shape sha" and "round_trips sha j e"
  shows "\<exists>ls. str_lines (u @ LF # line_of sha j e @ [LF]) = ls @ [line_of sha j e]"
proof -
  obtain m where m: "line_of sha j e = CHR ''{'' # m @ ''}''" using line_shape(1) [OF assms] by blast
  have "split_inclusive (u @ LF # line_of sha j e @ [LF]) = split_inclusive (u @ [LF]) @ [line_of sha j e @ [LF]]"
    using split_inclusive_line [OF line_shape(2) [OF assms]] by (subst split_inclusive_LF) simp
  moreover have "chomp (line_of sha j e @ [LF]) = line_of sha j e"
    using chomp_line [of "CHR ''}''" "CHR ''{'' # m"] by (simp add: m)
  ultimately show ?thesis by (simp add: str_lines_def)
qed

lemma last_valid_line:
  assumes "digest_shape sha" and "event_stored sha j e"
  shows "last_valid sha j (line_of sha j e # ls) = Some (seq_of e)"
  using line_not_blank [OF assms(1) stored_parts(1) [OF assms(2)]] parse_written [OF assms(2)] stored_parts(6) [OF assms(2)]
  by simp

definition last_seq :: "audit_entry list \<Rightarrow> nat" where
  "last_seq es = (if es = [] then 0 else seq_of (last es))"

text \<open>The window of the tail read always holds the whole last line, so the bounded read is exact.\<close>

lemma tail_window_lines:
  assumes "digest_shape sha" and "good_history sha j (es @ [e])"
  shows "\<exists>ls. str_lines (from_utf8_lossy (drop (length (history_text sha j (es @ [e])) - tail_window)
      (history_text sha j (es @ [e])))) = ls @ [line_of sha j e]"
proof -
  have e: "event_stored sha j e" using assms(2) by (simp add: good_history_def)
  note pe = stored_parts [OF e]
  let ?A = "history_text sha j es" and ?l = "line_of sha j e @ [LF]"
  let ?s = "drop (length ?A + length ?l - tail_window) ?A"
  have w: "drop (length (history_text sha j (es @ [e])) - tail_window) (history_text sha j (es @ [e])) = ?s @ ?l"
    using pe(7) by simp
  have l: "from_utf8_lossy ?l = ?l"
    using line_shape(3) [OF assms(1) pe(1)] by (intro lossy_valid) (simp add: valid_append)
  show ?thesis
  proof (cases "?s = []")
    case True
    have "str_lines ?l = [line_of sha j e]"
      using str_lines_history [OF assms(1), of j "[e]" "[]"] pe(1) by (simp add: str_lines_def)
    then show ?thesis unfolding w True using l by simp
  next
    case False
    then have "es \<noteq> []" by auto
    then obtain u where u: "?A = u @ [LF]" using history_closed by blast
    with False obtain v where v: "?s = v @ [LF]" by (metis drop_append append_Nil2 append_butlast_last_id last_drop last_snoc drop_eq_Nil not_le_imp_less)
    have "from_utf8_lossy (?s @ ?l) = from_utf8_lossy v @ LF # ?l" unfolding v using lossy_LF [of v ?l] l by simp
    with str_lines_last [OF assms(1) pe(1), of "from_utf8_lossy v"] show ?thesis unfolding w by simp
  qed
qed

lemma tail_history:
  assumes "digest_shape sha" and "good_history sha j es" and "ad_env d = []"
    and "unwrap_or [] (file d) = history_text sha j es"
  shows "tail_sequence sha j file d = (last_seq es, d)"
proof (cases es rule: rev_cases)
  case Nil
  with assms(3,4) show ?thesis by (cases "file d") (simp_all add: tail_sequence_def last_seq_def)
next
  case (snoc fs e)
  then obtain ls where ls: "str_lines (from_utf8_lossy (drop (length (history_text sha j es) - tail_window)
      (history_text sha j es))) = ls @ [line_of sha j e]"
    using tail_window_lines [OF assms(1)] assms(2) by blast
  have e: "event_stored sha j e" using assms(2) snoc by (simp add: good_history_def)
  have "file d = Some (history_text sha j es)" "history_text sha j es \<noteq> []"
    using assms(4) snoc by (cases "file d"; simp)+
  with ls assms(3) last_valid_line [OF assms(1) e] snoc show ?thesis by (simp add: tail_sequence_def last_seq_def)
qed

section \<open>The abstract history\<close>

text \<open>
  What the store promises: the events of the previous and the active generation, in order. An
  event gets the number after every number in either generation; a full generation becomes the
  previous one and the new one opens with the rotation marker.
\<close>

type_synonym history = "audit_entry list \<times> audit_entry list"

definition abs_append :: "string \<Rightarrow> string option \<Rightarrow> nat \<times> audit_entry \<Rightarrow> history \<Rightarrow> history" where
  "abs_append pid ws = (\<lambda>(nanos, e) (ps, es). let n = max (last_seq es) (last_seq ps) + 1 in
     if max_persisted_events \<le> length es
     then (es, [stamped nanos pid ws n (rotation_marker nanos ws), stamped nanos pid ws (n + 1) e])
     else (ps, es @ [stamped nanos pid ws n e]))"

text \<open>The disk and the store state represent a history.\<close>

definition represents :: "sha \<Rightarrow> codec \<Rightarrow> string \<Rightarrow> string option \<Rightarrow> audit_disk \<Rightarrow> durable_store \<Rightarrow> history \<Rightarrow> bool" where
  "represents sha j pid ws d s = (\<lambda>(ps, es). ad_env d = [] \<and> ad_workspace d = ws \<and> ds_pid s = pid
     \<and> ds_count s = length es \<and> unwrap_or [] (ad_log d) = history_text sha j es
     \<and> unwrap_or [] (ad_prev d) = history_text sha j ps \<and> good_history sha j (ps @ es))"

lemma good_history_append:
  "good_history sha j (xs @ ys) \<longleftrightarrow> good_history sha j xs \<and> good_history sha j ys
     \<and> (\<forall>x \<in> set xs. \<forall>y \<in> set ys. seq_of x < seq_of y)"
  by (induction xs) (auto simp: good_history_def)

lemma good_last: "good_history sha j es \<Longrightarrow> x \<in> set es \<Longrightarrow> seq_of x \<le> last_seq es"
proof (cases es rule: rev_cases)
  case (snoc fs e)
  assume "good_history sha j es" "x \<in> set es"
  with snoc show ?thesis by (auto simp: good_history_append last_seq_def)
qed simp

lemma seq_stamped [simp]: "seq_of (stamped nanos pid ws n e) = n"
  by (simp add: seq_of_def stamped_def)

lemma stored_trips: "event_stored sha j e \<Longrightarrow> \<exists>p. js_ser j e = Some p \<and> serialize_line sha j e = Inr (line_of sha j e)"
  by (auto simp: event_stored_def round_trips_def serialize_line_def line_of_def split: option.splits)

text \<open>An append without faults writes one line at the end of the log.\<close>

lemma append_line:
  assumes "ad_env d = []" and "event_stored sha j (stamped nanos pid (ad_workspace d) n e)"
  shows "append_locked sha j nanos pid e n d = (Inr (stamped nanos pid (ad_workspace d) n e),
    d\<lparr>ad_log := Some (unwrap_or [] (ad_log d) @ line_of sha j (stamped nanos pid (ad_workspace d) n e) @ [LF])\<rparr>)"
  using assms stored_trips [OF assms(2)]
  by (auto simp: append_locked_def bindE_run Let_def write_log_def next_io_def)

lemma rotate_line:
  assumes "ad_env d = []" and "ad_log d \<noteq> None"
    and "event_stored sha j (stamped nanos pid (ad_workspace d) n (rotation_marker nanos (ad_workspace d)))"
  shows "rotate_locked sha j nanos pid n d = (Inr (stamped nanos pid (ad_workspace d) n (rotation_marker nanos (ad_workspace d))),
    d\<lparr>ad_prev := ad_log d, ad_log := Some (line_of sha j (stamped nanos pid (ad_workspace d) n (rotation_marker nanos (ad_workspace d))) @ [LF])\<rparr>)"
proof -
  let ?d = "d\<lparr>ad_prev := ad_log d, ad_log := None\<rparr>"
  have "append_locked sha j nanos pid (rotation_marker nanos (ad_workspace d)) n ?d =
      (Inr (stamped nanos pid (ad_workspace d) n (rotation_marker nanos (ad_workspace d))),
       ?d\<lparr>ad_log := Some (line_of sha j (stamped nanos pid (ad_workspace d) n (rotation_marker nanos (ad_workspace d))) @ [LF])\<rparr>)"
    using append_line [of ?d sha j nanos pid n "rotation_marker nanos (ad_workspace d)"] assms by simp
  with assms(1,2) show ?thesis by (cases "ad_prev d") (simp_all add: rotate_locked_def bindE_run)
qed

lemma append_refines:
  assumes "digest_shape sha" and "represents sha j pid ws d s h"
    and "list_all (event_stored sha j) (snd (abs_append pid ws (nanos, e) h))"
  shows "\<exists>persisted marker s' d'. store_append sha j nanos e s d = (Inr (persisted, marker, s'), d')
    \<and> represents sha j pid ws d' s' (abs_append pid ws (nanos, e) h)
    \<and> persisted = last (snd (abs_append pid ws (nanos, e) h))"
proof -
  obtain ps es where h: "h = (ps, es)" by fastforce
  from assms(2) have r: "ad_env d = []" "ad_workspace d = ws" "ds_pid s = pid" "ds_count s = length es"
    "unwrap_or [] (ad_log d) = history_text sha j es" "unwrap_or [] (ad_prev d) = history_text sha j ps"
    and good: "good_history sha j ps" "good_history sha j es" "\<forall>x \<in> set ps. \<forall>y \<in> set es. seq_of x < seq_of y"
    by (auto simp: represents_def h good_history_append)
  let ?n = "max (last_seq es) (last_seq ps) + 1"
  let ?m = "stamped nanos pid ws ?n (rotation_marker nanos ws)"
  have tails: "tail_sequence sha j ad_log d = (last_seq es, d)" "tail_sequence sha j ad_prev d = (last_seq ps, d)"
    using tail_history [OF assms(1)] good r by blast+
  have below: "\<forall>x \<in> set ps \<union> set es. seq_of x < ?n" using good_last good by fastforce
  have add: "u64_add1 k = k + 1" if "event_stored sha j (stamped nanos pid ws (k + 1) x)" for k x
    using stored_parts(5) [OF that] by (simp add: u64_add1_def)
  show ?thesis
  proof (cases "max_persisted_events \<le> length es")
    case False
    let ?e = "stamped nanos pid ws ?n e"
    have st: "event_stored sha j ?e" and abs: "abs_append pid ws (nanos, e) h = (ps, es @ [?e])"
      using assms(3) False by (simp_all add: abs_append_def h Let_def)
    let ?d = "d\<lparr>ad_log := Some (history_text sha j es @ line_of sha j ?e @ [LF])\<rparr>"
    have "store_append sha j nanos e s d = (Inr (?e, None, s\<lparr>ds_next := u64_add1 ?n, ds_count := length es + 1\<rparr>), ?d)"
      using tails r False append_line [of d sha j nanos pid ?n e] st add [of "max (last_seq es) (last_seq ps)" e]
      by (simp add: store_append_def bindE_run Let_def)
    moreover have "good_history sha j (ps @ es @ [?e])" using good below st by (auto simp: good_history_append)
    ultimately show ?thesis using r unfolding abs by (simp add: represents_def)
  next
    case True
    let ?e = "stamped nanos pid ws (?n + 1) e"
    have st: "event_stored sha j ?m" "event_stored sha j ?e" and abs: "abs_append pid ws (nanos, e) h = (es, [?m, ?e])"
      using assms(3) True by (simp_all add: abs_append_def h Let_def)
    have "es \<noteq> []" using True by (auto simp: max_persisted_events_def)
    then have log: "ad_log d = Some (history_text sha j es)" using r(5) by (cases es; cases "ad_log d") simp_all
    let ?d1 = "d\<lparr>ad_prev := ad_log d, ad_log := Some (line_of sha j ?m @ [LF])\<rparr>"
    let ?d2 = "?d1\<lparr>ad_log := Some (line_of sha j ?m @ LF # line_of sha j ?e @ [LF])\<rparr>"
    have rot: "rotate_locked sha j nanos pid ?n d = (Inr ?m, ?d1)"
      using rotate_line [of d sha j nanos pid ?n] r log st(1) by simp
    have app: "append_locked sha j nanos pid e (?n + 1) ?d1 = (Inr ?e, ?d2)"
      using append_line [of ?d1 sha j nanos pid "?n + 1" e] r st(2) by simp
    have "store_append sha j nanos e s d = (Inr (?e, Some ?m, s\<lparr>ds_next := u64_add1 (?n + 1), ds_count := 2\<rparr>), ?d2)"
      using tails r True rot app add [of "max (last_seq es) (last_seq ps)" "rotation_marker nanos ws"] add [of ?n e] st
      by (simp add: store_append_def bindE_run Let_def)
    moreover have "good_history sha j (es @ [?m, ?e])"
      using good below st by (auto simp: good_history_append intro: less_SucI)
    ultimately show ?thesis using r log unfolding abs by (simp add: represents_def)
  qed
qed

section \<open>Runs\<close>

fun record_all :: "sha \<Rightarrow> codec \<Rightarrow> (nat \<times> audit_entry) list \<Rightarrow> audit_inner \<Rightarrow> audit_disk \<Rightarrow> audit_inner \<times> audit_disk" where
  "record_all sha j [] log d = (log, d)"
| "record_all sha j ((nanos, e) # es) log d = (case record_entry sha j nanos e log d of
      (log1, d1) \<Rightarrow> record_all sha j es log1 d1)"

definition abs_run :: "string \<Rightarrow> string option \<Rightarrow> (nat \<times> audit_entry) list \<Rightarrow> history \<Rightarrow> history" where
  "abs_run pid ws evs h = fold (abs_append pid ws) evs h"

text \<open>Every event the run writes survives the JSON library and fits the tail window.\<close>

fun writable_run :: "sha \<Rightarrow> codec \<Rightarrow> string \<Rightarrow> string option \<Rightarrow> (nat \<times> audit_entry) list \<Rightarrow> history \<Rightarrow> bool" where
  "writable_run sha j pid ws [] h = True"
| "writable_run sha j pid ws (i # evs) h = (list_all (event_stored sha j) (snd (abs_append pid ws i h))
     \<and> writable_run sha j pid ws evs (abs_append pid ws i h))"

lemma record_all_refines:
  assumes "digest_shape sha" and "represents sha j pid ws d s h" and "writable_run sha j pid ws evs h"
  shows "\<exists>s' cache' d'. record_all sha j evs (Durable s cache) d = (Durable s' cache', d')
    \<and> represents sha j pid ws d' s' (abs_run pid ws evs h)"
  using assms(2,3)
proof (induction evs arbitrary: d s h cache)
  case Nil
  then show ?case by (simp add: abs_run_def)
next
  case (Cons i evs)
  obtain nanos e where i: "i = (nanos, e)" by fastforce
  from Cons.prems(2) have "list_all (event_stored sha j) (snd (abs_append pid ws (nanos, e) h))" by (simp add: i)
  from append_refines [OF assms(1) Cons.prems(1) this] obtain persisted marker s1 d1 where
    a: "store_append sha j nanos e s d = (Inr (persisted, marker, s1), d1)"
    and r: "represents sha j pid ws d1 s1 (abs_append pid ws i h)" unfolding i by blast
  obtain c1 where c1: "record_entry sha j nanos e (Durable s cache) d = (Durable s1 c1, d1)"
    using a by (simp add: record_entry_def)
  from Cons.IH [OF r] Cons.prems(2) show ?case by (simp add: i c1 abs_run_def)
qed

lemma open_represented:
  assumes "digest_shape sha" and "represents sha j pid ws d s (ps, es)" and "es \<noteq> []"
  shows "store_open sha j pid d = (Inr \<lparr>ds_pid = pid, ds_next = next_seq es, ds_count = length es\<rparr>, d)"
proof -
  from assms(2) have r: "ad_env d = []" "unwrap_or [] (ad_log d) = history_text sha j es" and good: "good_history sha j es"
    by (auto simp: represents_def good_history_append)
  have log: "ad_log d = Some (history_text sha j es)" using r(2) assms(3) by (cases es; cases "ad_log d") simp_all
  have "read_log d = (Inr (history_text sha j es), d)"
    using r log history_valid [OF assms(1) good] by (simp add: read_log_def bindE_run from_utf8_def)
  moreover have "str_lines (history_text sha j es) = map (line_of sha j) es"
    using str_lines_history [OF assms(1) good_history_trips [OF good], of "[]"] by (simp add: str_lines_def)
  ultimately show ?thesis using r log open_scan_start [OF assms(1) good, of _ "[]"]
    by (simp add: store_open_def bindE_run)
qed

text \<open>
  C11. The durable log refines the abstract history, through any number of events and rotations
  as long as no call fails: the two files hold exactly the two generations, the sequence numbers
  increase strictly across both, and a restart recovers the last number and the number of
  events.
\<close>

theorem durable_log_refines:
  assumes "digest_shape sha" and "represents sha j pid ws d s h" and "writable_run sha j pid ws evs h" and "evs \<noteq> []"
  shows "case record_all sha j evs (Durable s cache) d of
      (Buffered _, d') \<Rightarrow> False
    | (Durable s' cache', d') \<Rightarrow> (case abs_run pid ws evs h of (ps', es') \<Rightarrow>
        ad_log d' = Some (history_text sha j es') \<and> unwrap_or [] (ad_prev d') = history_text sha j ps'
        \<and> sorted_wrt (<) (map seq_of (ps' @ es'))
        \<and> store_open sha j pid d' = (Inr \<lparr>ds_pid = pid, ds_next = next_seq es', ds_count = length es'\<rparr>, d'))"
proof -
  obtain s' cache' d' where run: "record_all sha j evs (Durable s cache) d = (Durable s' cache', d')"
    and rep: "represents sha j pid ws d' s' (abs_run pid ws evs h)"
    using record_all_refines [OF assms(1-3)] by blast
  obtain ps' es' where h': "abs_run pid ws evs h = (ps', es')" by fastforce
  have "es' \<noteq> []"
  proof -
    obtain evs0 i where "evs = evs0 @ [i]" using assms(4) by (metis rev_exhaust)
    with h' show ?thesis
      by (cases i; cases "abs_run pid ws evs0 h") (auto simp: abs_run_def abs_append_def Let_def split: if_splits)
  qed
  moreover from rep h' have r: "unwrap_or [] (ad_log d') = history_text sha j es'"
    "unwrap_or [] (ad_prev d') = history_text sha j ps'" "good_history sha j (ps' @ es')"
    by (simp_all add: represents_def)
  moreover have "ad_log d' = Some (history_text sha j es')"
    using r(1) calculation(1) by (cases es'; cases "ad_log d'") simp_all
  ultimately show ?thesis
    using run h' open_represented [OF assms(1) rep [unfolded h']] by (simp add: good_history_def)
qed

section \<open>What a failed call leaves behind\<close>

text \<open>
  A rotation whose marker cannot be written loses the whole history. The full generation has
  been renamed by then, but the event count still says full, so the next event rotates again:
  it deletes the renamed generation and then fails, as there is no log to rename. Nothing is
  left on disk, and a restart allocates from 1 again.
\<close>

theorem failed_rotation_loses_history:
  assumes "\<forall>e. js_ser j e \<noteq> None" and "max_persisted_events \<le> ds_count s"
    and "ad_log d = Some text" and "ad_prev d = None" and "ad_env d = [IoOk, IoOk, IoOk, IoFail]"
  shows "case record_all sha j [(t1, e1), (t2, e2)] (Durable s cache) d of (log', d') \<Rightarrow>
      (\<exists>cache'. log' = Durable s cache') \<and> ad_log d' = None \<and> ad_prev d' = None
      \<and> store_open sha j pid d' = (Inr \<lparr>ds_pid = pid, ds_next = 1, ds_count = 0\<rparr>, d')"
proof -
  have ser: "\<exists>l. serialize_line sha j e = Inr l" for e
  proof -
    from assms(1) have "js_ser j e \<noteq> None" by blast
    then show ?thesis by (auto simp: serialize_line_def)
  qed
  obtain e where e: "store_append sha j t1 e1 s d = (Inl e, d\<lparr>ad_log := None, ad_prev := Some text, ad_env := []\<rparr>)"
  proof -
    let ?q = "fst (tail_sequence sha j ad_log (d\<lparr>ad_env := [IoOk, IoOk, IoFail]\<rparr>))"
    have "tail_sequence sha j ad_log (d\<lparr>ad_env := [IoOk, IoOk, IoFail]\<rparr>) = (?q, d\<lparr>ad_env := [IoOk, IoFail]\<rparr>)"
      using assms(3) by (simp add: tail_sequence_def next_io_def)
    moreover obtain l where "serialize_line sha j (stamped t1 (ds_pid s) (ad_workspace d) (u64_add1 (max ?q 0))
        (rotation_marker t1 (ad_workspace d))) = Inr l" using ser by blast
    ultimately show ?thesis using assms that
      by (simp add: store_append_def bindE_run syscall_def next_io_def tail_sequence_def rotate_locked_def
          append_locked_def Let_def)
  qed
  let ?d1 = "d\<lparr>ad_log := None, ad_prev := Some text, ad_env := []\<rparr>"
  obtain e' where e': "store_append sha j t2 e2 s ?d1 = (Inl e', ?d1\<lparr>ad_prev := None\<rparr>)"
  proof -
    obtain q where "tail_sequence sha j ad_prev ?d1 = (q, ?d1)" by (simp add: tail_sequence_def)
    with assms(2) that show ?thesis
      by (simp add: store_append_def bindE_run tail_sequence_def [of _ _ ad_log] rotate_locked_def Let_def)
  qed
  from e e' show ?thesis by (simp add: record_entry_def store_open_def bindE_run)
qed

lemma open_scan_corrupt:
  assumes "digest_shape sha" and "good_history sha j es" and "\<not> blank l" and "parse_line sha j l = Inl err"
  shows "open_scan sha j True 0 (map (line_of sha j) es @ [l]) \<lparr>sc_next = 1, sc_count = 0, sc_seen = [], sc_prefix = 0\<rparr> = Inl err"
  using open_scan_start [OF assms(1,2), of True "[l]"] assms(3,4) by simp

text \<open>
  A crash between the two writes of an append (the line, then its newline) poisons the log.
  The restart accepts the file as it is; the next event is written onto the same line; and from
  then on the store does not open, with every event of the history intact in front.
\<close>

theorem missing_newline_poisons_log:
  assumes "digest_shape sha" and "good_history sha j (es @ [e])" and "ad_env d = []"
    and "ad_log d = Some (history_text sha j es @ line_of sha j e)" and "ad_prev d = None"
    and "\<forall>n. round_trips sha j (stamped nanos pid (ad_workspace d) n x)
      \<and> js_de j (line_of sha j e @ line_of sha j (stamped nanos pid (ad_workspace d) n x)) = None"
    and "length es + 1 < max_persisted_events"
  shows "case store_open sha j pid d of
      (Inl _, _) \<Rightarrow> False
    | (Inr s, d1) \<Rightarrow> d1 = d \<and> ds_count s = length es + 1 \<and> (case store_append sha j nanos x s d of
          (Inl _, _) \<Rightarrow> False
        | (Inr _, d2) \<Rightarrow> store_open sha j pid d2 = (Inl (corruption ''malformed record''), d2))"
proof -
  have good: "good_history sha j es" and e: "event_stored sha j e" using assms(2) by (simp_all add: good_history_append)
  note pe = stored_parts [OF e]
  let ?h = "history_text sha j es"
  obtain m where m: "line_of sha j e = CHR ''{'' # m @ ''}''" using line_shape(1) [OF assms(1) pe(1)] by blast
  note lf = line_shape(2) [OF assms(1) pe(1)]
  have valid: "valid_utf8 (?h @ line_of sha j e)"
    using history_valid [OF assms(1) good] line_shape(3) [OF assms(1) pe(1)] by (simp add: valid_append)
  have "line_of sha j e \<noteq> []" by (simp add: m)
  then have lines: "str_lines (?h @ line_of sha j e) = map (line_of sha j) (es @ [e])"
    using str_lines_history [OF assms(1) good_history_trips [OF good]] str_lines_open [OF lf] by simp
  let ?s = "\<lparr>ds_pid = pid, ds_next = next_seq (es @ [e]), ds_count = length es + 1\<rparr>"
  have op: "store_open sha j pid d = (Inr ?s, d)"
    using open_scan_start [OF assms(1,2), of _ "[]"] valid assms(3,4)
    by (simp add: store_open_def read_log_def bindE_run from_utf8_def lines)
  obtain q where q: "tail_sequence sha j ad_log d = (q, d)"
    using assms(3,4) by (simp add: tail_sequence_def)
  let ?n = "u64_add1 q"
  let ?x = "stamped nanos pid (ad_workspace d) ?n x"
  have x: "round_trips sha j ?x" "js_de j (line_of sha j e @ line_of sha j ?x) = None" using assms(6) by blast+
  then have ser: "serialize_line sha j ?x = Inr (line_of sha j ?x)"
    by (auto simp: round_trips_def serialize_line_def line_of_def split: option.splits)
  let ?l = "line_of sha j e @ line_of sha j ?x"
  let ?d2 = "d\<lparr>ad_log := Some (?h @ ?l @ [LF])\<rparr>"
  have app: "\<exists>r. store_append sha j nanos x ?s d = (Inr r, ?d2)"
    using q ser assms(3,4,5,7) by (simp add: store_append_def bindE_run tail_sequence_def [of _ _ ad_prev]
        append_locked_def Let_def write_log_def)
  have lvalid: "valid_utf8 ?l" using line_shape(3) [OF assms(1)] pe(1) x(1) by (simp add: valid_append)
  have nb: "\<not> blank ?l"
    using not_blank [of "CHR ''{''" "m @ ''}'' @ line_of sha j ?x"] lvalid by (simp add: m is_whitespace_def)
  obtain m2 where m2: "line_of sha j ?x = CHR ''{'' # m2 @ ''}''" using line_shape(1) [OF assms(1) x(1)] by blast
  have "LF \<notin> set ?l" using lf line_shape(2) [OF assms(1) x(1)] by simp
  then have "split_inclusive (?l @ [LF]) = [?l @ [LF]]" by (rule split_inclusive_line)
  then have "str_lines (?l @ [LF]) = [chomp (?l @ [LF])]" by (simp only: str_lines_def list.map)
  moreover have "chomp (?l @ [LF]) = ?l"
    using chomp_line [of "CHR ''}''" "line_of sha j e @ CHR ''{'' # m2"] by (simp add: m2)
  ultimately have lines2: "str_lines (?h @ ?l @ [LF]) = map (line_of sha j) es @ [?l]"
    using str_lines_history [OF assms(1) good_history_trips [OF good], of "?l @ [LF]"] by simp
  have "valid_utf8 (?h @ ?l @ [LF])"
    using lvalid history_valid [OF assms(1) good] by (simp add: valid_append del: append_assoc)
  then have rd: "read_log ?d2 = (Inr (?h @ ?l @ [LF]), ?d2)" using assms(3) by (simp add: read_log_def bindE_run from_utf8_def)
  have "ends_with (?h @ ?l @ [LF]) [LF]" by (simp add: ends_with_single)
  moreover have "parse_line sha j ?l = Inl (corruption ''malformed record'')" using x(2) by (simp add: parse_line_def)
  ultimately have "store_open sha j pid ?d2 = (Inl (corruption ''malformed record''), ?d2)"
    using open_scan_corrupt [OF assms(1) good nb] rd assms(3) lines2 by (simp add: store_open_def bindE_run)
  with op app show ?thesis by auto
qed

section \<open>A concrete codec\<close>

text \<open>Writes an event as its number; reads back one fixed event with that number.\<close>

definition audit_sha :: sha where "audit_sha = (\<lambda>_. replicate 32 7)"

definition sample_entry :: audit_entry where
  "sample_entry = accepted_entry 5000000 ''allow'' ''filesystem.replace'' ''a.txt'' ''done'' no_correlation"

definition sample_event :: "nat \<Rightarrow> audit_entry" where
  "sample_event n = stamped 5000000 ''42'' None n sample_entry"

definition sample_prefix :: string where
  "sample_prefix = ''{\"checksum\":\"'' @ sha256_hex audit_sha [] @ ''\",\"event\":''"

definition sample_codec :: codec where
  "sample_codec = \<lparr>js_ser = (\<lambda>e. Some (dec (seq_of e))),
     js_de = (\<lambda>l. case strip_prefix sample_prefix l of
        None \<Rightarrow> None
      | Some r \<Rightarrow> (case split_once (CHR ''}'') r of
          Some (ds, []) \<Rightarrow> Some (sha256_hex audit_sha [], sample_event (digits_value ds))
        | _ \<Rightarrow> None))\<rparr>"

lemma audit_sha_shape: "digest_shape audit_sha"
  by (simp add: digest_shape_def audit_sha_def)

lemma sample_hex: "sha256_hex audit_sha b = sha256_hex audit_sha []"
  by (simp add: sha256_hex_def audit_sha_def)

lemma sample_line:
  "line_of audit_sha sample_codec (sample_event n)
    = sample_prefix @ dec n @ ''}''"
  by (simp add: sample_prefix_def line_of_def sample_codec_def json_line_def sample_event_def sample_hex [of "dec n"])

lemma split_once_digits: "split_once (CHR ''}'') (dec n @ CHR ''}'' # r) = Some (dec n, r)"
proof -
  have "split_once (CHR ''}'') (ds @ CHR ''}'' # r) = Some (ds, r)" if "list_all is_digit ds" for ds
    using that by (induction ds) (auto simp: is_digit_def)
  then show ?thesis using dec_digits by blast
qed

lemma sample_decodes: "js_de sample_codec (line_of audit_sha sample_codec (sample_event n) @ r)
    = (if r = [] then Some (sha256_hex audit_sha [], sample_event n) else None)"
  unfolding sample_line append_assoc by (cases r) (simp_all add: sample_codec_def split_once_digits)

lemma sample_trips: "round_trips audit_sha sample_codec (sample_event n)"
proof -
  have ser: "js_ser sample_codec (sample_event n) = Some (dec n)" by (simp add: sample_codec_def sample_event_def)
  have "\<forall>c \<in> set (dec n). byte c < 128 \<and> c \<noteq> LF" using dec_digits [of n] by (auto simp: list_all_iff is_digit_def)
  then have "LF \<notin> set (dec n)" "valid_utf8 (dec n)" using valid_ascii by blast+
  with ser sample_decodes [of n "[]"] sample_hex [of "dec n"] show ?thesis by (simp add: round_trips_def)
qed

lemma sample_stored:
  assumes "1 \<le> n" "n \<le> 18446744073709551614" shows "event_stored audit_sha sample_codec (sample_event n)"
proof -
  have "length (dec n) \<le> 20" using dec_length_bound [of n 20] assms(2) by simp
  then have "length (line_of audit_sha sample_codec (sample_event n)) < tail_window"
    unfolding sample_line by (simp add: sample_prefix_def tail_window_def sha256_hex_def audit_sha_def length_concat sum_list_replicate)
  moreover have "ae_schema_version (sample_event n) = audit_schema_version"
    "ae_sequence (sample_event n) = Some (seq_of (sample_event n))" "seq_of (sample_event n) = n"
    "\<exists>nanos pid. ae_event_id (sample_event n) = Some (event_id nanos pid n)"
    by (auto simp: sample_event_def sample_entry_def accepted_entry_def stamped_def seq_of_def)
  ultimately show ?thesis using assms sample_trips unfolding event_stored_def by simp
qed

definition sample_disk :: "string option \<Rightarrow> io_step list \<Rightarrow> audit_disk" where
  "sample_disk log env = \<lparr>ad_log = log, ad_prev = None, ad_workspace = None, ad_env = env\<rparr>"

lemma sample_disk_simps [simp]:
  "ad_log (sample_disk l v) = l" "ad_prev (sample_disk l v) = None" "ad_workspace (sample_disk l v) = None"
  "ad_env (sample_disk l v) = v" "(sample_disk l v)\<lparr>ad_log := k\<rparr> = sample_disk k v"
  by (simp_all add: sample_disk_def)

lemma sample_stamped: "stamped 5000000 ''42'' None n sample_entry = sample_event n"
  by (simp add: sample_event_def)

lemma sample_seq [simp]: "seq_of (sample_event n) = n"
  by (simp add: sample_event_def)

lemma sample_good: "good_history audit_sha sample_codec [sample_event 1]"
  using sample_stored [of 1] by simp

theorem torn_append_recovered_witness:
  "store_open audit_sha sample_codec ''42'' (sample_disk (Some (history_text audit_sha sample_codec [sample_event 1]
      @ take 40 (line_of audit_sha sample_codec (sample_event 2)))) [])
   = (Inr \<lparr>ds_pid = ''42'', ds_next = 2, ds_count = 1\<rparr>,
      sample_disk (Some (history_text audit_sha sample_codec [sample_event 1])) [])"
proof -
  let ?t = "take 40 (line_of audit_sha sample_codec (sample_event 2))"
  have "js_de sample_codec ?t = None" "40 < length (line_of audit_sha sample_codec (sample_event 2))" "valid_utf8 ?t"
    by code_simp+
  with torn_append_recovered [OF audit_sha_shape sample_good sample_trips [of 2], of
      "sample_disk (Some (history_text audit_sha sample_codec [sample_event 1] @ ?t)) []" 40 "''42''"]
  show ?thesis by (simp add: next_seq_def)
qed

theorem durable_log_refines_witness:
  "case record_all audit_sha sample_codec [(5000000, sample_entry), (5000000, sample_entry)]
      (Durable \<lparr>ds_pid = ''42'', ds_next = 1, ds_count = 0\<rparr> []) (sample_disk None []) of
      (Buffered _, d') \<Rightarrow> False
    | (Durable s' cache', d') \<Rightarrow>
        ad_log d' = Some (history_text audit_sha sample_codec [sample_event 1, sample_event 2])
        \<and> store_open audit_sha sample_codec ''42'' d' = (Inr \<lparr>ds_pid = ''42'', ds_next = 3, ds_count = 2\<rparr>, d')"
proof -
  let ?evs = "[(5000000, sample_entry), (5000000, sample_entry)]"
  have two: "(1::nat) + 1 = 2" by simp
  have app: "abs_append ''42'' None (5000000, sample_entry) ([], []) = ([], [sample_event 1])"
    "abs_append ''42'' None (5000000, sample_entry) ([], [sample_event 1]) = ([], [sample_event 1, sample_event 2])"
    by (simp_all add: abs_append_def last_seq_def sample_stamped max_persisted_events_def Let_def two del: One_nat_def)
  have run: "abs_run ''42'' None ?evs ([], []) = ([], [sample_event 1, sample_event 2])"
    by (simp add: abs_run_def app del: One_nat_def)
  have "represents audit_sha sample_codec ''42'' None (sample_disk None []) \<lparr>ds_pid = ''42'', ds_next = 1, ds_count = 0\<rparr> ([], [])"
    by (simp add: represents_def)
  moreover have "writable_run audit_sha sample_codec ''42'' None ?evs ([], [])"
    using sample_stored [of 1] sample_stored [of 2] by (simp add: app del: One_nat_def)
  ultimately show ?thesis
    using durable_log_refines [OF audit_sha_shape, of sample_codec "''42''" None "sample_disk None []"
      "\<lparr>ds_pid = ''42'', ds_next = 1, ds_count = 0\<rparr>" "([], [])" ?evs "[]"] run
    by (simp add: next_seq_def split: prod.splits audit_inner.splits)
qed

theorem failed_rotation_loses_history_witness:
  "case record_all audit_sha sample_codec [(5000000, sample_entry), (5000000, sample_entry)]
      (Durable \<lparr>ds_pid = ''42'', ds_next = 10001, ds_count = 10000\<rparr> [])
      (sample_disk (Some (history_text audit_sha sample_codec [sample_event 10000])) [IoOk, IoOk, IoOk, IoFail]) of
    (log', d') \<Rightarrow> ad_log d' = None \<and> ad_prev d' = None"
  using failed_rotation_loses_history [of sample_codec "\<lparr>ds_pid = ''42'', ds_next = 10001, ds_count = 10000\<rparr>"
    "sample_disk (Some (history_text audit_sha sample_codec [sample_event 10000])) [IoOk, IoOk, IoOk, IoFail]"
    "history_text audit_sha sample_codec [sample_event 10000]" audit_sha "''42''" 5000000 sample_entry 5000000 sample_entry "[]"]
  by (auto simp: max_persisted_events_def sample_codec_def split: prod.splits)

theorem missing_newline_poisons_log_witness:
  "case store_open audit_sha sample_codec ''42'' (sample_disk (Some (line_of audit_sha sample_codec (sample_event 1))) []) of
      (Inl _, _) \<Rightarrow> False
    | (Inr s, d1) \<Rightarrow> d1 = sample_disk (Some (line_of audit_sha sample_codec (sample_event 1))) [] \<and> ds_count s = 1
        \<and> (case store_append audit_sha sample_codec 5000000 sample_entry s
              (sample_disk (Some (line_of audit_sha sample_codec (sample_event 1))) []) of
          (Inl _, _) \<Rightarrow> False
        | (Inr _, d2) \<Rightarrow> store_open audit_sha sample_codec ''42'' d2 = (Inl (corruption ''malformed record''), d2))"
proof -
  let ?d = "sample_disk (Some (line_of audit_sha sample_codec (sample_event 1))) []"
  have "\<forall>n. round_trips audit_sha sample_codec (stamped 5000000 ''42'' (ad_workspace ?d) n sample_entry)
      \<and> js_de sample_codec (line_of audit_sha sample_codec (sample_event 1)
          @ line_of audit_sha sample_codec (stamped 5000000 ''42'' (ad_workspace ?d) n sample_entry)) = None"
    using sample_trips sample_decodes [of 1] by (simp add: sample_stamped sample_line sample_prefix_def)
  moreover have "good_history audit_sha sample_codec ([] @ [sample_event 1])" using sample_good by simp
  ultimately show ?thesis
    using missing_newline_poisons_log [where sha = audit_sha and j = sample_codec and es = "[]" and e = "sample_event 1"
      and d = ?d and pid = "''42''" and nanos = 5000000 and x = sample_entry, OF audit_sha_shape, unfolded list.size add_0]
    by (simp add: max_persisted_events_def del: One_nat_def)
qed

end
