(* ===== verification/StoreLock.thy ===== *)
theory StoreLock
  imports StepSystem
begin

text \<open>
  The advisory lock of the JSON stores and of the audit log (\<open>mcp/store_lock.rs\<close>), as the
  interleaving of any number of processes that share the lock file. Each step is one system
  call or one test of \<open>StoreLock::acquire\<close> and of the guard's \<open>drop\<close>; time passes between
  steps. Times are milliseconds; one clock stands for \<open>Instant\<close> and \<open>SystemTime\<close>. The owner of a
  lock file is not on disk: it is kept to state who created it.
\<close>

definition stale_lock_age :: nat where "stale_lock_age = 30000"
definition acquire_timeout :: nat where "acquire_timeout = 10000"
definition retry_interval :: nat where "retry_interval = 25"

text \<open>
  Where a process is: not in a call, before \<open>create_new\<close> (with its deadline), after a failed
  \<open>create_new\<close>, before the removal of a stale file, before the deadline test, asleep, between
  acquisition and drop, or dead.
\<close>

datatype lock_pc = Idle | Trying nat | Found nat | Reclaim nat | Waiting nat | Sleeping nat nat | Holding | Crashed

record lock_state =
  ls_file :: "(nat \<times> nat) option"
  ls_now :: nat
  ls_pc :: "nat \<Rightarrow> lock_pc"

definition is_stale :: "lock_state \<Rightarrow> bool" where
  "is_stale s = (case ls_file s of None \<Rightarrow> False | Some (_, modified) \<Rightarrow> modified + stale_lock_age < ls_now s)"

definition goto :: "nat \<Rightarrow> lock_pc \<Rightarrow> lock_state \<Rightarrow> lock_state" where
  "goto p c s = s\<lparr>ls_pc := (ls_pc s)(p := c)\<rparr>"

inductive lock_step :: "nat \<Rightarrow> lock_state \<Rightarrow> lock_state \<Rightarrow> bool" where
  Start: "ls_pc s p = Idle \<Longrightarrow> lock_step p s (goto p (Trying (ls_now s + acquire_timeout)) s)"
| Create: "ls_pc s p = Trying d \<Longrightarrow> ls_file s = None \<Longrightarrow>
    lock_step p s (goto p Holding (s\<lparr>ls_file := Some (p, ls_now s)\<rparr>))"
| Exists: "ls_pc s p = Trying d \<Longrightarrow> ls_file s \<noteq> None \<Longrightarrow> lock_step p s (goto p (Found d) s)"
| Denied: "ls_pc s p = Trying d \<Longrightarrow> lock_step p s (goto p (Waiting d) s)"
| Create_Fails: "ls_pc s p = Trying d \<Longrightarrow> lock_step p s (goto p Idle s)"
| Stale: "ls_pc s p = Found d \<Longrightarrow> is_stale s \<Longrightarrow> lock_step p s (goto p (Reclaim d) s)"
| Not_Stale: "ls_pc s p = Found d \<Longrightarrow> \<not> is_stale s \<Longrightarrow> lock_step p s (goto p (Waiting d) s)"
| No_Metadata: "ls_pc s p = Found d \<Longrightarrow> lock_step p s (goto p (Waiting d) s)"
| Remove: "ls_pc s p = Reclaim d \<Longrightarrow> lock_step p s (goto p (Trying d) (s\<lparr>ls_file := None\<rparr>))"
| Remove_Fails: "ls_pc s p = Reclaim d \<Longrightarrow> lock_step p s (goto p (Trying d) s)"
| Timeout: "ls_pc s p = Waiting d \<Longrightarrow> d \<le> ls_now s \<Longrightarrow> lock_step p s (goto p Idle s)"
| Sleep: "ls_pc s p = Waiting d \<Longrightarrow> ls_now s < d \<Longrightarrow> lock_step p s (goto p (Sleeping (ls_now s + retry_interval) d) s)"
| Wake: "ls_pc s p = Sleeping u d \<Longrightarrow> u \<le> ls_now s \<Longrightarrow> lock_step p s (goto p (Trying d) s)"
| Drop: "ls_pc s p = Holding \<Longrightarrow> lock_step p s (goto p Idle (s\<lparr>ls_file := None\<rparr>))"
| Drop_Fails: "ls_pc s p = Holding \<Longrightarrow> lock_step p s (goto p Idle s)"
| Crash: "lock_step p s (goto p Crashed s)"

inductive lock_sys :: "lock_state \<Rightarrow> lock_state \<Rightarrow> bool" where
  Act: "lock_step p s s' \<Longrightarrow> lock_sys s s'"
| Tick: "lock_sys s (s\<lparr>ls_now := ls_now s + n\<rparr>)"

inductive_cases lock_step_cases: "lock_step p s s'"
inductive_simps lock_sys_iff: "lock_sys s s'"

definition lock_start :: "lock_state \<Rightarrow> bool" where
  "lock_start s \<longleftrightarrow> ls_file s = None \<and> (\<forall>p. ls_pc s p = Idle)"

section \<open>Mutual exclusion while no lock goes stale\<close>

text \<open>Steps of the system that leave no lock file older than the stale age behind.\<close>

definition fresh_step :: "lock_state \<Rightarrow> lock_state \<Rightarrow> bool" where
  "fresh_step s s' \<longleftrightarrow> lock_sys s s' \<and> \<not> is_stale s'"

definition one_owner :: "lock_state \<Rightarrow> bool" where
  "one_owner s \<longleftrightarrow> \<not> is_stale s \<and> (\<forall>p d. ls_pc s p \<noteq> Reclaim d)
     \<and> (\<forall>p. ls_pc s p = Holding \<longrightarrow> (\<exists>t. ls_file s = Some (p, t)))"

lemma goto_simps [simp]:
  "ls_pc (goto p c s) q = (if q = p then c else ls_pc s q)" "ls_file (goto p c s) = ls_file s"
  "ls_now (goto p c s) = ls_now s" "is_stale (goto p c s) = is_stale s"
  by (simp_all add: goto_def is_stale_def split: option.split)

lemma one_owner_file: "one_owner s \<Longrightarrow> ls_pc s p = Holding \<Longrightarrow> \<exists>t. ls_file s = Some (p, t)"
  by (simp add: one_owner_def)

lemma one_owner_unique: "one_owner s \<Longrightarrow> ls_pc s p = Holding \<Longrightarrow> ls_pc s q = Holding \<Longrightarrow> p = q"
  using one_owner_file [of s p] one_owner_file [of s q] by auto

lemma one_owner_step: "one_owner s \<Longrightarrow> fresh_step s s' \<Longrightarrow> one_owner s'"
proof -
  assume o: "one_owner s" and f: "fresh_step s s'"
  then have "lock_sys s s'" and fresh: "\<not> is_stale s'" by (simp_all add: fresh_step_def)
  then show ?thesis
  proof (cases rule: lock_sys.cases)
    case (Act p)
    have uniq: "ls_pc s q = Holding \<Longrightarrow> ls_pc s r = Holding \<Longrightarrow> q = r" for q r
      using one_owner_unique [OF o] by blast
    from Act o fresh show ?thesis
      by (cases rule: lock_step.cases) (auto simp: one_owner_def split: if_splits dest: uniq)
  next
    case (Tick n)
    with o fresh show ?thesis by (auto simp: one_owner_def)
  qed
qed

lemma one_owner_start: "lock_start s \<Longrightarrow> one_owner s"
  by (simp add: lock_start_def one_owner_def is_stale_def)

interpretation sl: invariant_system fresh_step lock_start one_owner
  by unfold_locales (fact one_owner_start, fact one_owner_step)

text \<open>
  C24. As long as no lock file gets older than the stale age, at most one process is between
  acquisition and drop, whatever else happens: any number of processes, any interleaving, failed
  system calls, crashes and timeouts.
\<close>

theorem store_lock_exclusive:
  assumes "lock_start s" and "fresh_step\<^sup>*\<^sup>* s s'" and "ls_pc s' p = Holding" and "ls_pc s' q = Holding"
  shows "p = q \<and> (\<exists>t. ls_file s' = Some (p, t) \<and> ls_now s' \<le> t + stale_lock_age)"
proof -
  from sl.reach_inv [OF assms(1,2)] have o: "one_owner s'" .
  moreover obtain t where "ls_file s' = Some (p, t)" using one_owner_file [OF o assms(3)] by blast
  ultimately show ?thesis using one_owner_unique [OF o assms(3,4)] by (auto simp: one_owner_def is_stale_def)
qed

text \<open>A run: process 1 takes the lock at time 0 and holds it while 20 seconds pass.\<close>

definition no_lock :: lock_state where
  "no_lock = \<lparr>ls_file = None, ls_now = 0, ls_pc = (\<lambda>_. Idle)\<rparr>"

lemma no_lock_start: "lock_start no_lock"
  by (simp add: lock_start_def no_lock_def)

theorem store_lock_exclusive_witness:
  "\<exists>s. fresh_step\<^sup>*\<^sup>* no_lock s \<and> ls_pc s 1 = Holding \<and> ls_file s = Some (1, 0) \<and> ls_now s = 20000"
proof -
  let ?s1 = "goto 1 (Trying 10000) no_lock"
  let ?s2 = "goto 1 Holding (?s1\<lparr>ls_file := Some (1, 0)\<rparr>)"
  let ?s3 = "?s2\<lparr>ls_now := ls_now ?s2 + 20000\<rparr>"
  have "lock_step 1 no_lock ?s1" using Start [of no_lock 1] by (simp add: no_lock_def acquire_timeout_def)
  then have 1: "fresh_step no_lock ?s1" by (simp add: fresh_step_def Act is_stale_def no_lock_def)
  have "lock_step 1 ?s1 ?s2" using Create [of ?s1 1 10000] by (simp add: no_lock_def)
  then have 2: "fresh_step ?s1 ?s2" by (simp add: fresh_step_def Act is_stale_def no_lock_def)
  have 3: "fresh_step ?s2 ?s3"
    using Tick [of ?s2 20000] by (simp add: fresh_step_def is_stale_def stale_lock_age_def no_lock_def)
  have run: "fresh_step\<^sup>*\<^sup>* no_lock ?s3" using 1 2 3 by (meson rtranclp.rtrancl_into_rtrancl rtranclp.rtrancl_refl)
  have "ls_pc ?s3 1 = Holding" "ls_now ?s3 = 20000" by (simp_all add: no_lock_def)
  moreover from store_lock_exclusive [OF no_lock_start run this(1) this(1)] have "\<exists>t. ls_file ?s3 = Some (1, t)" by blast
  moreover have "ls_file ?s3 = Some (1, 0)" by simp
  ultimately show ?thesis using run by blast
qed

section \<open>The race of two reclaimers\<close>

text \<open>
  Exclusion is lost once a lock goes stale, even if its holder is dead and every other
  process is quick: two processes may both find the stale file; the first removes it and takes
  the lock, and the second then removes the first one's file and takes the lock as well. (The
  code expects the second one's next \<open>create_new\<close> to fail; its \<open>remove_file\<close> comes first.)
\<close>

theorem reclaim_race_two_holders:
  "\<exists>s s' p q. lock_start s \<and> lock_sys\<^sup>*\<^sup>* s s' \<and> p \<noteq> q \<and> ls_pc s' p = Holding \<and> ls_pc s' q = Holding
     \<and> ls_file s' = Some (q, ls_now s') \<and> (\<forall>r. r = p \<or> r = q \<or> ls_pc s' r \<in> {Idle, Crashed})"
proof -
  let ?s1 = "goto 0 (Trying 10000) no_lock"
  let ?s2 = "goto 0 Holding (?s1\<lparr>ls_file := Some (0, 0)\<rparr>)"
  let ?s3 = "goto 0 Crashed ?s2"
  let ?s4 = "?s3\<lparr>ls_now := ls_now ?s3 + 30001\<rparr>"
  let ?s5 = "goto 1 (Trying 40001) ?s4" let ?s6 = "goto 2 (Trying 40001) ?s5"
  let ?s7 = "goto 1 (Found 40001) ?s6" let ?s8 = "goto 2 (Found 40001) ?s7"
  let ?s9 = "goto 1 (Reclaim 40001) ?s8" let ?s10 = "goto 2 (Reclaim 40001) ?s9"
  let ?s11 = "goto 1 (Trying 40001) (?s10\<lparr>ls_file := None\<rparr>)"
  let ?s12 = "goto 1 Holding (?s11\<lparr>ls_file := Some (1, 30001)\<rparr>)"
  let ?s13 = "goto 2 (Trying 40001) (?s12\<lparr>ls_file := None\<rparr>)"
  let ?s14 = "goto 2 Holding (?s13\<lparr>ls_file := Some (2, 30001)\<rparr>)"
  have stale: "is_stale ?s4" by (simp add: is_stale_def stale_lock_age_def no_lock_def)
  have "lock_sys no_lock ?s1" using Act [OF Start [of no_lock 0]] by (simp add: no_lock_def acquire_timeout_def)
  moreover have "lock_sys ?s1 ?s2" using Act [OF Create [of ?s1 0 10000]] by (simp add: no_lock_def)
  moreover have "lock_sys ?s2 ?s3" using Act [OF Crash [of 0 ?s2]] by simp
  moreover have "lock_sys ?s3 ?s4" using Tick [of ?s3 30001] by simp
  moreover have "lock_sys ?s4 ?s5" using Act [OF Start [of ?s4 1]] by (simp add: no_lock_def acquire_timeout_def)
  moreover have "lock_sys ?s5 ?s6" using Act [OF Start [of ?s5 2]] by (simp add: no_lock_def acquire_timeout_def)
  moreover have "lock_sys ?s6 ?s7" using Act [OF Exists [of ?s6 1 40001]] by simp
  moreover have "lock_sys ?s7 ?s8" using Act [OF Exists [of ?s7 2 40001]] by simp
  moreover have "lock_sys ?s8 ?s9" using Act [OF Stale [of ?s8 1 40001]] stale by simp
  moreover have "lock_sys ?s9 ?s10" using Act [OF Stale [of ?s9 2 40001]] stale by simp
  moreover have "lock_sys ?s10 ?s11" using Act [OF Remove [of ?s10 1 40001]] by simp
  moreover have "lock_sys ?s11 ?s12" using Act [OF Create [of ?s11 1 40001]] by (simp add: no_lock_def)
  moreover have "lock_sys ?s12 ?s13" using Act [OF Remove [of ?s12 2 40001]] by simp
  moreover have "lock_sys ?s13 ?s14" using Act [OF Create [of ?s13 2 40001]] by (simp add: no_lock_def)
  ultimately have run: "lock_sys\<^sup>*\<^sup>* no_lock ?s14"
    by (meson rtranclp.rtrancl_into_rtrancl rtranclp.rtrancl_refl)
  have "ls_pc ?s14 1 = Holding \<and> ls_pc ?s14 2 = Holding \<and> ls_file ?s14 = Some (2, ls_now ?s14)
      \<and> (\<forall>r. r = 1 \<or> r = 2 \<or> ls_pc ?s14 r \<in> {Idle, Crashed})"
    by (auto simp: no_lock_def)
  with run no_lock_start show ?thesis by (intro exI [of _ no_lock] exI [of _ ?s14] exI [of _ 1] exI [of _ 2]) auto
qed

section \<open>Waiting\<close>

lemma goto_goto [simp]: "goto p c (goto p b s) = goto p c s"
  by (simp add: goto_def)

lemma goto_idle: "ls_pc s p = c \<Longrightarrow> goto p c s = s"
  by (simp add: goto_def fun_upd_idem)

definition returned :: "nat \<Rightarrow> lock_state \<Rightarrow> bool" where
  "returned p s \<longleftrightarrow> ls_pc s p \<in> {Idle, Holding, Crashed}"

text \<open>
  What the others may do meanwhile: anything, with the lock file as well, but the file found is not
  stale, and the clock does not go back.
\<close>

definition others_act :: "nat \<Rightarrow> lock_state \<Rightarrow> lock_state \<Rightarrow> bool" where
  "others_act p s u \<longleftrightarrow> ls_pc u p = ls_pc s p \<and> ls_now s \<le> ls_now u \<and> \<not> is_stale u"

text \<open>
  The process returns within so many steps of its own: it has returned, or it can take a step without
  crashing, and after each step it can take it returns within one step less.
\<close>

fun returns_within :: "nat \<Rightarrow> nat \<Rightarrow> lock_state \<Rightarrow> bool" where
  "returns_within 0 p s \<longleftrightarrow> returned p s"
| "returns_within (Suc n) p s \<longleftrightarrow> (\<forall>u. others_act p s u \<longrightarrow> returned p u
     \<or> (\<exists>v. lock_step p u v \<and> ls_pc v p \<noteq> Crashed) \<and> (\<forall>v. lock_step p u v \<longrightarrow> returns_within n p v))"

lemma returned_within: "returned p s \<Longrightarrow> returns_within n p s"
  by (cases n) (auto simp: returned_def others_act_def)

lemma waiting_returns:
  assumes "ls_pc s p = Waiting d" and "d \<le> ls_now s"
  shows "returns_within (Suc n) p s"
proof -
  have "\<exists>v. lock_step p u v \<and> ls_pc v p \<noteq> Crashed" if "others_act p s u" for u
    using Timeout [of u p d] that assms by (force simp: others_act_def)
  moreover have "returned p v" if "others_act p s u" "lock_step p u v" for u v
    using that(2,1) assms by (cases rule: lock_step.cases) (auto simp: others_act_def returned_def)
  ultimately show ?thesis by (simp add: returned_within)
qed

lemma found_returns:
  assumes "ls_pc s p = Found d" and "d \<le> ls_now s"
  shows "returns_within (Suc (Suc n)) p s"
proof -
  have "\<exists>v. lock_step p u v \<and> ls_pc v p \<noteq> Crashed" if "others_act p s u" for u
    using No_Metadata [of u p d] that assms by (force simp: others_act_def)
  moreover have "returned p v \<or> (ls_pc v p = Waiting d \<and> d \<le> ls_now v)" if "others_act p s u" "lock_step p u v" for u v
    using that(2,1) assms by (cases rule: lock_step.cases) (auto simp: others_act_def returned_def)
  ultimately show ?thesis
    unfolding returns_within.simps(2) [of "Suc n"] using returned_within waiting_returns by blast
qed

lemma trying_returns:
  assumes "ls_pc s p = Trying d" and "d \<le> ls_now s"
  shows "returns_within (Suc (Suc (Suc n))) p s"
proof -
  have "\<exists>v. lock_step p u v \<and> ls_pc v p \<noteq> Crashed" if "others_act p s u" for u
    using Create [of u p d] Exists [of u p d] that assms by (cases "ls_file u = None") (force simp: others_act_def)+
  moreover have "returned p v \<or> (ls_pc v p = Waiting d \<and> d \<le> ls_now v) \<or> (ls_pc v p = Found d \<and> d \<le> ls_now v)"
    if "others_act p s u" "lock_step p u v" for u v
    using that(2,1) assms by (cases rule: lock_step.cases) (auto simp: others_act_def returned_def)
  ultimately show ?thesis
    unfolding returns_within.simps(2) [of "Suc (Suc n)"] using returned_within waiting_returns found_returns by blast
qed

text \<open>
  C25. A process past its deadline returns within three steps of its own as long as the lock file it
  finds is not stale: it is never stuck, and whatever the others do between its steps, whichever of its
  calls fail, the third step at the latest leaves the call (the lock taken, the timeout or an error
  returned, or dead). A stale file that cannot be removed keeps it in the loop for ever: the path that
  reclaims goes back to \<open>create_new\<close> without looking at the deadline.
\<close>

theorem late_waiter_returns_unless_stale:
  assumes "ls_pc s p = Trying d" and "d \<le> ls_now s"
  shows "returns_within 3 p s \<and> (is_stale s \<longrightarrow>
    (\<lambda>u v. lock_step p u v \<and> ls_file v = ls_file u \<and> ls_pc u p \<in> {Trying d, Found d, Reclaim d})\<^sup>+\<^sup>+ s s)"
proof (rule conjI, simp only: numeral_3_eq_3, rule trying_returns [OF assms], rule impI)
  assume stale: "is_stale s"
  then have "ls_file s \<noteq> None" by (cases "ls_file s") (simp_all add: is_stale_def)
  define R where "R = (\<lambda>u v. lock_step p u v \<and> ls_file v = ls_file u \<and> ls_pc u p \<in> {Trying d, Found d, Reclaim d})"
  have "R s (goto p (Found d) s)" using Exists [OF assms(1)] \<open>ls_file s \<noteq> None\<close> assms(1) by (simp add: R_def)
  moreover have "R (goto p (Found d) s) (goto p (Reclaim d) s)"
    using Stale [of "goto p (Found d) s" p d] stale by (simp add: R_def)
  moreover have "R (goto p (Reclaim d) s) s"
    using Remove_Fails [of "goto p (Reclaim d) s" p d] goto_idle [OF assms(1)] by (simp add: R_def assms(1))
  ultimately have "R\<^sup>+\<^sup>+ s s" by (meson tranclp.r_into_trancl tranclp.trancl_into_trancl)
  then show "(\<lambda>u v. lock_step p u v \<and> ls_file v = ls_file u \<and> ls_pc u p \<in> {Trying d, Found d, Reclaim d})\<^sup>+\<^sup>+ s s"
    by (simp only: R_def)
qed

text \<open>Two waiters past their deadline: one finds a lock five seconds old, the other one of a minute.\<close>

theorem late_waiter_returns_unless_stale_witness:
  "returns_within 3 1 \<lparr>ls_file = Some (0, 55000), ls_now = 60000, ls_pc = (\<lambda>_. Trying 50000)\<rparr>
   \<and> (\<lambda>u v. lock_step 1 u v \<and> ls_file v = ls_file u \<and> ls_pc u 1 \<in> {Trying 50000, Found 50000, Reclaim 50000})\<^sup>+\<^sup>+
     \<lparr>ls_file = Some (0, 0), ls_now = 60000, ls_pc = (\<lambda>_. Trying 50000)\<rparr>
     \<lparr>ls_file = Some (0, 0), ls_now = 60000, ls_pc = (\<lambda>_. Trying 50000)\<rparr>"
  using late_waiter_returns_unless_stale
      [of "\<lparr>ls_file = Some (0, 55000), ls_now = 60000, ls_pc = (\<lambda>_. Trying 50000)\<rparr>" 1 50000]
    late_waiter_returns_unless_stale
      [of "\<lparr>ls_file = Some (0, 0), ls_now = 60000, ls_pc = (\<lambda>_. Trying 50000)\<rparr>" 1 50000]
  by (simp add: is_stale_def stale_lock_age_def)

end
