(* ===== verification/CircuitBreaker.thy ===== *)
theory CircuitBreaker
  imports StepSystem "HOL-Library.Word"
begin

text \<open>
  The circuit breaker in front of an MCP provider (\<open>mcp/circuit_breaker.rs\<close>): its phases, the
  admission test, what a result does to it, and the client that wraps the provider, as a system
  of concurrent calls. Times are milliseconds; the counters have their machine widths
  (\<open>failures += 1\<close> wraps as in a release build, the metrics saturate).
\<close>

record breaker_config =
  cf_threshold :: "32 word"
  cf_cooldown :: nat

definition default_config :: breaker_config where
  "default_config = \<lparr>cf_threshold = 5, cf_cooldown = 30000\<rparr>"

definition probe_timeout :: nat where "probe_timeout = 60000"

datatype phase = Closed | Open nat | HalfOpen "nat option"

record breaker =
  br_failures :: "32 word"
  br_phase :: phase
  br_opened :: "32 word"
  br_rejected :: "64 word"

definition new_breaker :: breaker where
  "new_breaker = \<lparr>br_failures = 0, br_phase = Closed, br_opened = 0, br_rejected = 0\<rparr>"

definition saturating_increment :: "'a::len word \<Rightarrow> 'a word" where
  "saturating_increment c = (if c = - 1 then c else c + 1)"

definition allow :: "breaker_config \<Rightarrow> nat \<Rightarrow> breaker \<Rightarrow> bool \<times> breaker" where
  "allow cfg now b =
     (case br_phase b of
        Open opened_at \<Rightarrow> if now - opened_at < cf_cooldown cfg then (False, b)
          else (True, b\<lparr>br_phase := HalfOpen (Some now)\<rparr>)
      | Closed \<Rightarrow> (True, b)
      | HalfOpen (Some started) \<Rightarrow> if now - started < probe_timeout then (False, b)
          else (True, b\<lparr>br_phase := HalfOpen (Some now)\<rparr>)
      | HalfOpen None \<Rightarrow> (True, b\<lparr>br_phase := HalfOpen (Some now)\<rparr>))"

definition record_success :: "breaker \<Rightarrow> breaker" where
  "record_success b = b\<lparr>br_failures := 0, br_phase := Closed\<rparr>"

definition record_failure :: "breaker_config \<Rightarrow> nat \<Rightarrow> breaker \<Rightarrow> bool \<times> breaker" where
  "record_failure cfg now b = (let failures = br_failures b + 1;
      tripped = (case br_phase b of HalfOpen _ \<Rightarrow> True | _ \<Rightarrow> cf_threshold cfg \<le> failures)
    in if tripped then (True, b\<lparr>br_failures := failures, br_phase := Open now, br_opened := saturating_increment (br_opened b)\<rparr>)
       else (False, b\<lparr>br_failures := failures\<rparr>))"

definition count_rejected :: "breaker \<Rightarrow> breaker" where
  "count_rejected b = b\<lparr>br_rejected := saturating_increment (br_rejected b)\<rparr>"

section \<open>The wrapped client\<close>

text \<open>
  The calls in flight (a caller whose future is dropped never reports), the providers whose
  opening was audited, and the number of calls let through to the provider.
\<close>

record breaker_sys =
  bs_breaker :: breaker
  bs_now :: nat
  bs_flight :: "nat set"
  bs_audit :: nat
  bs_admitted :: nat

inductive breaker_step :: "breaker_config \<Rightarrow> breaker_sys \<Rightarrow> breaker_sys \<Rightarrow> bool" for cfg where
  Admit: "allow cfg (bs_now s) (bs_breaker s) = (True, b) \<Longrightarrow> c \<notin> bs_flight s \<Longrightarrow>
    breaker_step cfg s (s\<lparr>bs_breaker := b, bs_flight := insert c (bs_flight s), bs_admitted := bs_admitted s + 1\<rparr>)"
| Reject: "allow cfg (bs_now s) (bs_breaker s) = (False, b) \<Longrightarrow>
    breaker_step cfg s (s\<lparr>bs_breaker := count_rejected b\<rparr>)"
| Succeed: "c \<in> bs_flight s \<Longrightarrow>
    breaker_step cfg s (s\<lparr>bs_breaker := record_success (bs_breaker s), bs_flight := bs_flight s - {c}\<rparr>)"
| Failure: "c \<in> bs_flight s \<Longrightarrow> record_failure cfg (bs_now s) (bs_breaker s) = (tripped, b) \<Longrightarrow>
    breaker_step cfg s (s\<lparr>bs_breaker := b, bs_flight := bs_flight s - {c},
      bs_audit := bs_audit s + (if tripped then 1 else 0)\<rparr>)"
| Abandon: "c \<in> bs_flight s \<Longrightarrow> breaker_step cfg s (s\<lparr>bs_flight := bs_flight s - {c}\<rparr>)"
| Wait: "breaker_step cfg s (s\<lparr>bs_now := bs_now s + n\<rparr>)"

inductive_cases breaker_step_cases: "breaker_step cfg s s'"

section \<open>What is blocked, and until when\<close>

text \<open>The abstract view: the instant from which a call is let through.\<close>

definition blocked_until :: "breaker_config \<Rightarrow> breaker \<Rightarrow> nat" where
  "blocked_until cfg b = (case br_phase b of
     Closed \<Rightarrow> 0 | Open t \<Rightarrow> t + cf_cooldown cfg | HalfOpen None \<Rightarrow> 0 | HalfOpen (Some t) \<Rightarrow> t + probe_timeout)"

definition stamped_by :: "nat \<Rightarrow> breaker \<Rightarrow> bool" where
  "stamped_by now b = (case br_phase b of Open t \<Rightarrow> t \<le> now | HalfOpen (Some t) \<Rightarrow> t \<le> now | _ \<Rightarrow> True)"

lemma allow_blocked: "stamped_by now b \<Longrightarrow> fst (allow cfg now b) \<longleftrightarrow> blocked_until cfg b \<le> now"
  by (auto simp: allow_def blocked_until_def stamped_by_def probe_timeout_def split: phase.splits option.splits)

lemma allow_cases:
  assumes "allow cfg now b = (r, b')"
  shows "br_phase b = Closed \<and> r \<and> b' = b \<or> br_phase b \<noteq> Closed \<and> r \<and> b' = b\<lparr>br_phase := HalfOpen (Some now)\<rparr>
    \<or> br_phase b \<noteq> Closed \<and> \<not> r \<and> b' = b"
  using assms by (auto simp: allow_def split: phase.splits option.splits if_splits)

lemma failure_cases:
  assumes "record_failure cfg now b = (tripped, b')"
  shows "tripped \<and> br_phase b' = Open now \<or> \<not> tripped \<and> br_phase b' = br_phase b"
  using assms by (auto simp: record_failure_def Let_def split: if_splits)

section \<open>The rate of probes\<close>

text \<open>While no call has succeeded the breaker is not closed.\<close>

definition open_step :: "breaker_config \<Rightarrow> breaker_sys \<Rightarrow> breaker_sys \<Rightarrow> bool" where
  "open_step cfg s s' \<longleftrightarrow> breaker_step cfg s s' \<and> br_phase (bs_breaker s') \<noteq> Closed"

definition just_opened :: "nat \<Rightarrow> nat \<Rightarrow> breaker_sys \<Rightarrow> bool" where
  "just_opened t n s \<longleftrightarrow> br_phase (bs_breaker s) = Open t \<and> t \<le> bs_now s \<and> bs_admitted s = n"

definition probe_inv :: "breaker_config \<Rightarrow> nat \<Rightarrow> nat \<Rightarrow> breaker_sys \<Rightarrow> bool" where
  "probe_inv cfg t n s \<longleftrightarrow> (let b = bs_breaker s; m = min (cf_cooldown cfg) probe_timeout in
     br_phase b \<noteq> Closed \<and> br_phase b \<noteq> HalfOpen None \<and> stamped_by (bs_now s) b \<and> t \<le> bs_now s
     \<and> (\<exists>k. bs_admitted s = n + k \<and> t + k * m \<le> bs_now s \<and> t + (k + 1) * m \<le> blocked_until cfg b))"

lemma stamped_by_simps [simp]:
  "stamped_by now (b\<lparr>br_phase := HalfOpen (Some now)\<rparr>)" "br_phase b = Open now \<Longrightarrow> stamped_by now b"
  "stamped_by now (count_rejected b) = stamped_by now b" "blocked_until cfg (count_rejected b) = blocked_until cfg b"
  "br_phase (count_rejected b) = br_phase b"
  by (simp_all add: stamped_by_def blocked_until_def count_rejected_def)

lemma stamped_by_later: "stamped_by now b \<Longrightarrow> stamped_by (now + n) b"
  by (auto simp: stamped_by_def split: phase.splits option.splits)

lemma probe_inv_step: "probe_inv cfg t n s \<Longrightarrow> open_step cfg s s' \<Longrightarrow> probe_inv cfg t n s'"
proof -
  assume i: "probe_inv cfg t n s" and st: "open_step cfg s s'"
  let ?m = "min (cf_cooldown cfg) probe_timeout" and ?b = "bs_breaker s"
  obtain k where k: "bs_admitted s = n + k" "t + k * ?m \<le> bs_now s" "t + (k + 1) * ?m \<le> blocked_until cfg ?b"
    and ph: "br_phase ?b \<noteq> Closed" "br_phase ?b \<noteq> HalfOpen None" "stamped_by (bs_now s) ?b" "t \<le> bs_now s"
    using i by (auto simp: probe_inv_def Let_def)
  from st have "breaker_step cfg s s'" and nc: "br_phase (bs_breaker s') \<noteq> Closed" by (simp_all add: open_step_def)
  then show ?thesis
  proof (cases rule: breaker_step.cases)
    case (Admit b c)
    with allow_cases ph(1) have b: "b = ?b\<lparr>br_phase := HalfOpen (Some (bs_now s))\<rparr>" by blast
    from Admit have "fst (allow cfg (bs_now s) ?b)" by simp
    with allow_blocked [OF ph(3)] k(3) have "t + (k + 1) * ?m \<le> bs_now s" by simp
    moreover from this have "t + (k + 2) * ?m \<le> bs_now s + probe_timeout" by simp
    ultimately show ?thesis using Admit b k(1) ph(4)
      by (auto simp: probe_inv_def Let_def blocked_until_def intro!: exI [of _ "k + 1"])
  next
    case (Reject b)
    with allow_cases have "b = ?b" by blast
    with Reject i show ?thesis by (simp add: probe_inv_def Let_def)
  next
    case (Succeed c)
    with nc show ?thesis by (simp add: record_success_def)
  next
    case (Failure c tripped b)
    show ?thesis
    proof (cases tripped)
      case True
      with failure_cases [OF Failure(3)] have "br_phase b = Open (bs_now s)" by blast
      with Failure k ph show ?thesis by (auto simp: probe_inv_def Let_def blocked_until_def intro!: exI [of _ k])
    next
      case False
      with failure_cases [OF Failure(3)] have "br_phase b = br_phase ?b" by blast
      then have "stamped_by (bs_now s) b = stamped_by (bs_now s) ?b" "blocked_until cfg b = blocked_until cfg ?b"
        by (simp_all add: stamped_by_def blocked_until_def)
      with Failure False \<open>br_phase b = br_phase ?b\<close> i show ?thesis by (simp add: probe_inv_def Let_def)
    qed
  next
    case (Abandon c)
    with i show ?thesis by (simp add: probe_inv_def Let_def)
  next
    case (Wait d)
    with k ph stamped_by_later [OF ph(3)] show ?thesis by (auto simp: probe_inv_def Let_def intro!: exI [of _ k])
  qed
qed

lemma probe_inv_start: "just_opened t n s \<Longrightarrow> probe_inv cfg t n s"
  by (auto simp: just_opened_def probe_inv_def Let_def blocked_until_def stamped_by_def intro!: exI [of _ 0])

interpretation cb: invariant_system "open_step cfg" "just_opened t n" "probe_inv cfg t n" for cfg t n
  by unfold_locales (fact probe_inv_start, fact probe_inv_step)

text \<open>
  C26. Once the breaker is open, a provider that does not answer is not flooded: as long as no
  call succeeds, whatever the number of concurrent callers, the calls let through since the
  opening are at most one per cooldown or probe timeout (whichever is shorter), late failures
  and abandoned probes included.
\<close>

theorem breaker_probe_rate:
  assumes "just_opened t n s" and "(open_step cfg)\<^sup>*\<^sup>* s s'"
  shows "t + (bs_admitted s' - n) * min (cf_cooldown cfg) probe_timeout \<le> bs_now s' \<and> n \<le> bs_admitted s'
    \<and> fst (allow cfg (bs_now s') (bs_breaker s')) = (blocked_until cfg (bs_breaker s') \<le> bs_now s')"
  using cb.reach_inv [OF assms] allow_blocked [of "bs_now s'" "bs_breaker s'" cfg]
  by (auto simp: probe_inv_def Let_def)

definition opened_sys :: breaker_sys where
  "opened_sys = \<lparr>bs_breaker = new_breaker\<lparr>br_failures := 5, br_phase := Open 1000, br_opened := 1\<rparr>, bs_now = 1000,
     bs_flight = {}, bs_audit = 1, bs_admitted = 5\<rparr>"

theorem breaker_probe_rate_witness:
  "\<exists>s. (open_step default_config)\<^sup>*\<^sup>* opened_sys s \<and> bs_admitted s = 6 \<and> bs_now s = 31000
     \<and> 1000 + (bs_admitted s - 5) * min (cf_cooldown default_config) probe_timeout \<le> bs_now s
     \<and> \<not> fst (allow default_config (bs_now s) (bs_breaker s))"
proof -
  let ?s1 = "opened_sys\<lparr>bs_now := bs_now opened_sys + 30000\<rparr>"
  let ?b = "(bs_breaker opened_sys)\<lparr>br_phase := HalfOpen (Some 31000)\<rparr>"
  let ?s2 = "?s1\<lparr>bs_breaker := ?b, bs_flight := insert 7 (bs_flight ?s1), bs_admitted := bs_admitted ?s1 + 1\<rparr>"
  have 1: "open_step default_config opened_sys ?s1"
    using breaker_step.Wait [of default_config opened_sys 30000] by (simp add: open_step_def opened_sys_def)
  have "breaker_step default_config ?s1 ?s2"
    by (rule breaker_step.Admit) (simp_all add: allow_def opened_sys_def default_config_def)
  then have 2: "open_step default_config ?s1 ?s2" by (simp add: open_step_def)
  have run: "(open_step default_config)\<^sup>*\<^sup>* opened_sys ?s2" using 1 2 by (meson rtranclp.rtrancl_into_rtrancl rtranclp.rtrancl_refl)
  have start: "just_opened 1000 5 opened_sys" by (simp add: just_opened_def opened_sys_def)
  have "bs_admitted ?s2 = 6" "bs_now ?s2 = 31000" by (simp_all add: opened_sys_def)
  moreover have "blocked_until default_config (bs_breaker ?s2) = 91000" by (simp add: blocked_until_def probe_timeout_def)
  ultimately show ?thesis using breaker_probe_rate [OF start run] run by (intro exI [of _ ?s2]) simp
qed

section \<open>Late results\<close>

text \<open>
  A success reported by a call admitted before the breaker opened closes it at once, in the
  middle of the cooldown; the next caller is let through.
\<close>

lemma late_success_ends_cooldown:
  assumes "br_phase (bs_breaker s) = Open t" and "c \<in> bs_flight s"
  shows "\<exists>s'. breaker_step cfg s s' \<and> br_phase (bs_breaker s') = Closed \<and> bs_now s' = bs_now s
    \<and> fst (allow cfg (bs_now s') (bs_breaker s'))"
  using breaker_step.Succeed [OF assms(2), of cfg]
  by (intro exI conjI) (assumption, simp_all add: record_success_def allow_def)

text \<open>The breaker opens on the failure that reaches the threshold, and on no earlier one.\<close>

fun fail_times :: "breaker_config \<Rightarrow> nat \<Rightarrow> nat \<Rightarrow> breaker \<Rightarrow> breaker" where
  "fail_times cfg now 0 b = b"
| "fail_times cfg now (Suc k) b = fail_times cfg now k (snd (record_failure cfg now b))"

lemma fail_times_below:
  assumes "br_phase b = Closed" and "br_failures b = of_nat j" and "j + k < unat (cf_threshold cfg)"
  shows "fail_times cfg now k b = b\<lparr>br_failures := of_nat (j + k)\<rparr>"
  using assms
proof (induction k arbitrary: b j)
  case (Suc k)
  have "unat (cf_threshold cfg) < 2 ^ 32" using unsigned_less [of "cf_threshold cfg"] by simp
  with Suc.prems(3) have "unat (of_nat (j + 1) :: 32 word) = j + 1"
    by (simp add: unsigned_of_nat take_bit_nat_eq_self_iff del: of_nat_Suc of_nat_add)
  then have "\<not> cf_threshold cfg \<le> br_failures b + 1"
    using Suc.prems(2,3) by (simp add: word_le_nat_alt add.commute)
  with Suc.prems(1,2) have "snd (record_failure cfg now b) = b\<lparr>br_failures := of_nat (j + 1)\<rparr>"
    by (simp add: record_failure_def Let_def add.commute)
  with Suc.IH [of "b\<lparr>br_failures := of_nat (j + 1)\<rparr>" "j + 1"] Suc.prems show ?case by simp
qed simp

lemma fail_times_Suc: "fail_times cfg now (Suc k) b = snd (record_failure cfg now (fail_times cfg now k b))"
  by (induction k arbitrary: b) simp_all

lemma opens_at_threshold:
  assumes "br_phase b = Closed" and "br_failures b = 0" and "unat (cf_threshold cfg) = Suc k"
  shows "br_phase (fail_times cfg now k b) = Closed \<and> br_phase (fail_times cfg now (Suc k) b) = Open now"
proof -
  have k: "fail_times cfg now k b = b\<lparr>br_failures := of_nat k\<rparr>"
    using fail_times_below [of b 0 k cfg now] assms by simp
  have "of_nat k + 1 = cf_threshold cfg" using assms(3) by (metis add.commute of_nat_Suc of_nat_unat ucast_id)
  with k assms(1) show ?thesis unfolding fail_times_Suc by (simp add: record_failure_def Let_def)
qed

end
