(* ===== verification/RateLimit.thy ===== *)
theory RateLimit
  imports StepSystem "HOL-Library.AList"
begin

text \<open>
  The sliding-window rate limiter of both API planes (\<open>services/rate_limit.rs\<close>). Times are
  milliseconds. The hash map is its list of entries; the order in which \<open>hits.iter()\<close> visits
  the keys is unspecified, so it is an argument of every check. \<open>Inl\<close> is the retry delay in
  seconds, \<open>Inr\<close> the number of requests left.
\<close>

record limiter_config =
  rl_limit :: nat
  rl_window :: nat
  rl_max_keys :: nat

definition max_tracked_keys :: nat where "max_tracked_keys = 10000"

definition new_limiter :: "nat \<Rightarrow> nat \<Rightarrow> limiter_config" where
  "new_limiter limit window = \<lparr>rl_limit = limit, rl_window = window, rl_max_keys = max_tracked_keys\<rparr>"

definition default_limiter :: limiter_config where
  "default_limiter = new_limiter 120 60000"

type_synonym hits = "(string \<times> nat list) list"

text \<open>\<open>t <= cutoff\<close> with \<open>cutoff = now - window\<close>.\<close>

definition expired :: "limiter_config \<Rightarrow> nat \<Rightarrow> nat \<Rightarrow> bool" where
  "expired c now t \<longleftrightarrow> t + rl_window c \<le> now"

definition hits_of :: "hits \<Rightarrow> string \<Rightarrow> nat list" where
  "hits_of h k = (case map_of h k of None \<Rightarrow> [] | Some ts \<Rightarrow> ts)"

definition stale_key :: "limiter_config \<Rightarrow> nat \<Rightarrow> string \<Rightarrow> string list \<Rightarrow> hits \<Rightarrow> string option" where
  "stale_key c now key order h = find (\<lambda>k. map_of h k \<noteq> None \<and> k \<noteq> key \<and> list_all (expired c now) (hits_of h k)) order"

definition prune :: "limiter_config \<Rightarrow> nat \<Rightarrow> string \<Rightarrow> string list \<Rightarrow> hits \<Rightarrow> hits" where
  "prune c now key order h = (if rl_max_keys c \<le> length h then
     (case stale_key c now key order h of None \<Rightarrow> h | Some k \<Rightarrow> AList.delete k h) else h)"

definition secs :: "nat \<Rightarrow> nat" where "secs ms = ms div 1000"

definition check :: "limiter_config \<Rightarrow> nat \<Rightarrow> string \<Rightarrow> string list \<Rightarrow> hits \<Rightarrow> (nat + nat) \<times> hits" where
  "check c now key order h = (let h1 = prune c now key order h in
     if rl_max_keys c \<le> length h1 \<and> map_of h1 key = None then (Inl (max (secs (rl_window c)) 1), h1)
     else let entry = filter (\<lambda>t. \<not> expired c now t) (hits_of h1 key) in
       if rl_limit c \<le> length entry
       then (Inl (max (secs (rl_window c - (now - (case entry of [] \<Rightarrow> now | t # _ \<Rightarrow> t)))) 1), AList.update key entry h1)
       else (Inr (rl_limit c - (length entry + 1)), AList.update key (entry @ [now]) h1))"

definition current :: "limiter_config \<Rightarrow> nat \<Rightarrow> string \<Rightarrow> hits \<Rightarrow> nat \<times> hits" where
  "current c now key h = (case map_of h key of
      None \<Rightarrow> (0, h)
    | Some ts \<Rightarrow> (let ts' = filter (\<lambda>t. \<not> expired c now t) ts in (length ts', AList.update key ts' h)))"

section \<open>The limiter as a system\<close>

text \<open>The accepted requests are recorded to state what the limiter promises.\<close>

record limiter_sys =
  ls_hits :: hits
  ls_time :: nat
  ls_accepted :: "(string \<times> nat) list"

inductive limiter_step :: "limiter_config \<Rightarrow> limiter_sys \<Rightarrow> limiter_sys \<Rightarrow> bool" for c where
  Accept: "check c (ls_time s) key order (ls_hits s) = (Inr left, h) \<Longrightarrow>
    limiter_step c s (s\<lparr>ls_hits := h, ls_accepted := ls_accepted s @ [(key, ls_time s)]\<rparr>)"
| Refuse: "check c (ls_time s) key order (ls_hits s) = (Inl retry, h) \<Longrightarrow> limiter_step c s (s\<lparr>ls_hits := h\<rparr>)"
| Inspect: "current c (ls_time s) key (ls_hits s) = (n, h) \<Longrightarrow> limiter_step c s (s\<lparr>ls_hits := h\<rparr>)"
| Pass: "limiter_step c s (s\<lparr>ls_time := ls_time s + n\<rparr>)"

definition limiter_start :: "limiter_sys \<Rightarrow> bool" where
  "limiter_start s \<longleftrightarrow> ls_hits s = [] \<and> ls_accepted s = []"

text \<open>The accepted requests of a key that a window ending at \<open>T\<close> covers.\<close>

definition in_window :: "limiter_config \<Rightarrow> string \<Rightarrow> nat \<Rightarrow> (string \<times> nat) list \<Rightarrow> nat list" where
  "in_window c key T acc = filter (\<lambda>t. t \<le> T \<and> \<not> expired c T t) (map snd (filter (\<lambda>(k, _). k = key) acc))"

definition limiter_inv :: "limiter_config \<Rightarrow> limiter_sys \<Rightarrow> bool" where
  "limiter_inv c s \<longleftrightarrow> distinct (map fst (ls_hits s)) \<and> length (ls_hits s) \<le> rl_max_keys c
     \<and> (\<forall>(k, t) \<in> set (ls_accepted s). t \<le> ls_time s)
     \<and> (\<forall>k. filter (\<lambda>t. \<not> expired c (ls_time s) t) (hits_of (ls_hits s) k) = in_window c k (ls_time s) (ls_accepted s))
     \<and> (\<forall>k T. length (in_window c k T (ls_accepted s)) \<le> rl_limit c)"

lemma hits_of_update [simp]: "hits_of (AList.update k v h) j = (if j = k then v else hits_of h j)"
  by (simp add: hits_of_def update_conv')

lemma length_update: "length (AList.update k v h) = (if map_of h k = None then length h + 1 else length h)"
  by (induction h) auto

lemma hits_of_delete: "hits_of (AList.delete k h) j = (if j = k then [] else hits_of h j)"
  by (simp add: hits_of_def delete_conv')

lemma filter_expired_later:
  "now \<le> later \<Longrightarrow> filter (\<lambda>t. \<not> expired c later t) (filter (\<lambda>t. \<not> expired c now t) ts) = filter (\<lambda>t. \<not> expired c later t) ts"
  by (induction ts) (auto simp: expired_def)

text \<open>Pruning removes at most one entry, and only one whose requests have all expired.\<close>

lemma prune_hits:
  "filter (\<lambda>t. \<not> expired c now t) (hits_of (prune c now key order h) k) = filter (\<lambda>t. \<not> expired c now t) (hits_of h k)"
  "distinct (map fst h) \<Longrightarrow> distinct (map fst (prune c now key order h))"
  "length (prune c now key order h) \<le> length h"
proof -
  have "filter (\<lambda>t. \<not> expired c now t) (hits_of h j) = []" if "stale_key c now key order h = Some j" for j
    using that by (auto simp: stale_key_def find_Some_iff filter_empty_conv list_all_iff)
  then show "filter (\<lambda>t. \<not> expired c now t) (hits_of (prune c now key order h) k) = filter (\<lambda>t. \<not> expired c now t) (hits_of h k)"
    by (auto simp: prune_def hits_of_delete split: option.split)
  show "distinct (map fst h) \<Longrightarrow> distinct (map fst (prune c now key order h))"
    by (auto simp: prune_def split: option.split intro: distinct_delete)
  show "length (prune c now key order h) \<le> length h"
    by (auto simp: prune_def AList.delete_eq split: option.split)
qed

text \<open>What a check decides and records.\<close>

lemma check_result:
  assumes "check c now key order h = (r, h')" and "distinct (map fst h)" and "length h \<le> rl_max_keys c"
  shows "distinct (map fst h') \<and> length h' \<le> rl_max_keys c
    \<and> (\<forall>k. filter (\<lambda>t. \<not> expired c now t) (hits_of h' k) = filter (\<lambda>t. \<not> expired c now t) (hits_of h k)
          @ (if k = key \<and> \<not> isl r \<and> 0 < rl_window c then [now] else []))
    \<and> (\<not> isl r \<longrightarrow> length (filter (\<lambda>t. \<not> expired c now t) (hits_of h key)) < rl_limit c)"
proof -
  let ?h1 = "prune c now key order h"
  note p = prune_hits [where c = c and now = now and key = key and order = order and h = h]
  from p(2,3) assms(2,3) have d: "distinct (map fst ?h1)" "length ?h1 \<le> rl_max_keys c" by auto
  show ?thesis
    using assms(1) d p(1)
    by (auto simp: check_def Let_def length_update filter_expired_later expired_def [of c now now] intro: distinct_update split: if_splits)
qed

lemma in_window_snoc: "in_window c k T (acc @ [(key, now)])
    = in_window c k T acc @ (if k = key \<and> now \<le> T \<and> \<not> expired c T now then [now] else [])"
  by (simp add: in_window_def)

lemma length_filter_imp: "(\<And>x. x \<in> set xs \<Longrightarrow> P x \<Longrightarrow> Q x) \<Longrightarrow> length (filter P xs) \<le> length (filter Q xs)"
  by (induction xs) auto

lemma in_window_earlier:
  assumes "\<forall>(k, t) \<in> set acc. t \<le> now" and "now \<le> T"
  shows "length (in_window c k T acc) \<le> length (in_window c k now acc)"
  unfolding in_window_def using assms by (intro length_filter_imp) (auto simp: expired_def)

lemma in_window_later:
  assumes "\<forall>(k, t) \<in> set acc. t \<le> now"
  shows "in_window c k (now + n) acc = filter (\<lambda>t. \<not> expired c (now + n) t) (in_window c k now acc)"
  unfolding in_window_def filter_filter using assms by (intro filter_cong) (auto simp: expired_def)

lemma current_result:
  assumes "current c now key h = (n, h')"
  shows "filter (\<lambda>t. \<not> expired c now t) (hits_of h' k) = filter (\<lambda>t. \<not> expired c now t) (hits_of h k)"
    and "distinct (map fst h) \<Longrightarrow> distinct (map fst h')" and "length h' = length h"
  using assms by (auto simp: current_def Let_def length_update hits_of_def update_conv' intro: distinct_update
      split: option.splits if_splits)

lemma limiter_inv_step: "limiter_inv c s \<Longrightarrow> limiter_step c s s' \<Longrightarrow> limiter_inv c s'"
proof -
  assume i: "limiter_inv c s" and st: "limiter_step c s s'"
  let ?now = "ls_time s" and ?acc = "ls_accepted s"
  from i have d: "distinct (map fst (ls_hits s))" "length (ls_hits s) \<le> rl_max_keys c"
    and past: "\<forall>(k, t) \<in> set ?acc. t \<le> ?now"
    and same: "filter (\<lambda>t. \<not> expired c ?now t) (hits_of (ls_hits s) k) = in_window c k ?now ?acc"
    and bound: "length (in_window c k T ?acc) \<le> rl_limit c" for k T
    by (auto simp: limiter_inv_def)
  from st show ?thesis
  proof (cases rule: limiter_step.cases)
    case (Accept key order left h)
    note r = check_result [OF Accept(2) d]
    have "length (in_window c k T (?acc @ [(key, ?now)])) \<le> rl_limit c" for k T
      using bound [of k T] r same [of key] in_window_earlier [OF past, of T c key] by (auto simp: in_window_snoc)
    moreover have "filter (\<lambda>t. \<not> expired c ?now t) (hits_of h k) = in_window c k ?now (?acc @ [(key, ?now)])" for k
      using r same [of k] by (auto simp: in_window_snoc expired_def)
    ultimately show ?thesis using Accept(1) r past by (auto simp: limiter_inv_def)
  next
    case (Refuse key order retry h)
    note r = check_result [OF Refuse(2) d]
    with Refuse(1) past same bound show ?thesis by (auto simp: limiter_inv_def)
  next
    case (Inspect key n h)
    with current_result [OF Inspect(2)] d past same bound show ?thesis by (simp add: limiter_inv_def)
  next
    case (Pass n)
    have "filter (\<lambda>t. \<not> expired c (?now + n) t) (hits_of (ls_hits s) k) = in_window c k (?now + n) ?acc" for k
      using in_window_later [OF past, of c k n] same [of k] filter_expired_later [of ?now "?now + n" c "hits_of (ls_hits s) k"]
      by simp
    with Pass d past bound show ?thesis by (auto simp: limiter_inv_def)
  qed
qed

lemma limiter_inv_start: "limiter_start s \<Longrightarrow> limiter_inv c s"
  by (simp add: limiter_start_def limiter_inv_def hits_of_def in_window_def)

interpretation rl: invariant_system "limiter_step c" limiter_start "limiter_inv c" for c
  by unfold_locales (fact limiter_inv_start, fact limiter_inv_step)

text \<open>
  C27. Whatever the requests, keys, inspections and visiting orders: no window of the configured
  length, wherever it ends, contains more accepted requests of one key than the limit; no more
  keys are tracked than the cap; and a request is refused exactly when its key has used up the
  window just ending, or when its key is new and the capped table is full after pruning.
\<close>

theorem rate_limit_window:
  assumes "limiter_start s" and "(limiter_step c)\<^sup>*\<^sup>* s s'"
  shows "length (in_window c k T (ls_accepted s')) \<le> rl_limit c \<and> length (ls_hits s') \<le> rl_max_keys c
    \<and> isl (fst (check c (ls_time s') k order (ls_hits s')))
      = (rl_limit c \<le> length (in_window c k (ls_time s') (ls_accepted s'))
        \<or> (let h = prune c (ls_time s') k order (ls_hits s') in rl_max_keys c \<le> length h \<and> map_of h k = None))"
proof -
  from rl.reach_inv [OF assms] have i: "limiter_inv c s'" .
  then have "filter (\<lambda>t. \<not> expired c (ls_time s') t) (hits_of (ls_hits s') k) = in_window c k (ls_time s') (ls_accepted s')"
    by (simp add: limiter_inv_def)
  with prune_hits(1) [where c = c and now = "ls_time s'" and k = k and key = k and order = order and h = "ls_hits s'"]
  have "filter (\<lambda>t. \<not> expired c (ls_time s') t) (hits_of (prune c (ls_time s') k order (ls_hits s')) k)
      = in_window c k (ls_time s') (ls_accepted s')" by simp
  with i show ?thesis by (auto simp: limiter_inv_def check_def Let_def)
qed

text \<open>Two requests a minute: the third is refused, and accepted again once the first has expired.\<close>

definition two_a_minute :: limiter_config where
  "two_a_minute = \<lparr>rl_limit = 2, rl_window = 60000, rl_max_keys = 1\<rparr>"

theorem rate_limit_window_witness:
  "\<exists>s. (limiter_step two_a_minute)\<^sup>*\<^sup>* \<lparr>ls_hits = [], ls_time = 500, ls_accepted = []\<rparr> s
     \<and> ls_accepted s = [(''a'', 500), (''a'', 500)]
     \<and> isl (fst (check two_a_minute (ls_time s) ''a'' [''a''] (ls_hits s)))"
proof -
  let ?s0 = "\<lparr>ls_hits = [], ls_time = 500, ls_accepted = []\<rparr> :: limiter_sys"
  let ?s1 = "?s0\<lparr>ls_hits := [(''a'', [500])], ls_accepted := ls_accepted ?s0 @ [(''a'', ls_time ?s0)]\<rparr>"
  let ?s2 = "?s1\<lparr>ls_hits := [(''a'', [500, 500])], ls_accepted := ls_accepted ?s1 @ [(''a'', ls_time ?s1)]\<rparr>"
  have "check two_a_minute (ls_time ?s0) ''a'' [] (ls_hits ?s0) = (Inr 1, [(''a'', [500])])"
    by (simp add: check_def prune_def hits_of_def two_a_minute_def Let_def)
  from limiter_step.Accept [OF this] have 1: "limiter_step two_a_minute ?s0 ?s1" .
  have "check two_a_minute (ls_time ?s1) ''a'' [''a''] (ls_hits ?s1) = (Inr 0, [(''a'', [500, 500])])"
    by (simp add: check_def prune_def stale_key_def hits_of_def expired_def two_a_minute_def Let_def)
  from limiter_step.Accept [OF this] have 2: "limiter_step two_a_minute ?s1 ?s2" .
  have run: "(limiter_step two_a_minute)\<^sup>*\<^sup>* ?s0 ?s2" using 1 2 by (meson rtranclp.rtrancl_into_rtrancl rtranclp.rtrancl_refl)
  have "limiter_start ?s0" by (simp add: limiter_start_def)
  from rate_limit_window [OF this run, of "''a''" 500 "[''a'']"]
  have "isl (fst (check two_a_minute (ls_time ?s2) ''a'' [''a''] (ls_hits ?s2)))"
    by (simp add: in_window_def expired_def two_a_minute_def)
  with run show ?thesis by (intro exI [of _ ?s2]) simp
qed

end
