(* ===== verification/Memory.thy ===== *)
theory Memory
  imports Stores
begin

text \<open>
  The memory store (\<open>core/memory.rs\<close>): one file with the list of memory entries of a workspace,
  its operations, and the migration of the older line-based file. The JSON parser for a line of
  that file is a parameter; the lock, the publication of the store and the rename that archives
  the old file are outcomes of the environment.
\<close>

section \<open>Entries\<close>

datatype memory_scope = ScopeSession | ScopeProject | ScopeGlobal

record memory_entry =
  me_id :: string
  me_scope :: memory_scope
  me_content :: string
  me_tags :: "string list"
  me_created_at :: string
  me_updated_at :: string

definition max_memory_entries :: nat where "max_memory_entries = 10000"
definition max_memory_content_bytes :: nat where "max_memory_content_bytes = 1048576"
definition max_memory_id_len :: nat where "max_memory_id_len = 256"
definition max_memory_tags :: nat where "max_memory_tags = 64"
definition max_memory_tag_len :: nat where "max_memory_tag_len = 128"

text \<open>The two files and the archive of the migrated one.\<close>

record memory_files =
  mf_store :: "memory_entry list stored"
  mf_legacy :: "string stored"
  mf_archive :: "string option"

type_synonym 'a memory_op = "(memory_files, msg, 'a) io"

definition validate_memory_input :: "string \<Rightarrow> string \<Rightarrow> string list \<Rightarrow> msg + unit" where
  "validate_memory_input i content tags =
     bindR (ensure (trim i \<noteq> []) (Txt ''memory id must not be empty'')) (\<lambda>_.
     bindR (ensure (length i \<le> max_memory_id_len) (Txt ''memory id exceeds 256 bytes'')) (\<lambda>_.
     bindR (ensure (length content \<le> max_memory_content_bytes) (Txt ''memory content exceeds 1048576 bytes'')) (\<lambda>_.
     bindR (ensure (length tags \<le> max_memory_tags) (Txt ''memory entry exceeds 64 tags'')) (\<lambda>_.
     each (\<lambda>t. ensure (length t \<le> max_memory_tag_len) (Fmt ''memory tag exceeds 128 bytes: {:?}'' [Txt t])) tags))))"

section \<open>Load and save\<close>

definition memory_load :: "memory_files \<Rightarrow> msg + memory_entry list" where
  "memory_load f = (case mf_store f of
      Absent \<Rightarrow> Inr []
    | Corrupt \<Rightarrow> Inl (Txt ''read memory store'')
    | Stored es \<Rightarrow> Inr es)"

definition memory_unavailable :: msg where
  "memory_unavailable = Txt ''memory store unavailable''"

definition memory_save :: "store_env \<Rightarrow> memory_entry list \<Rightarrow> unit memory_op" where
  "memory_save e es = (if \<not> write_ok e then fail memory_unavailable else modify (\<lambda>f. f\<lparr>mf_store := Stored es\<rparr>))"

definition memory_locked :: "store_env \<Rightarrow> (memory_entry list \<Rightarrow> 'a memory_op) \<Rightarrow> 'a memory_op" where
  "memory_locked e body = (if \<not> lock_ok e then fail memory_unavailable
     else bindE (\<lambda>f. (memory_load f, f)) body)"

section \<open>Operations\<close>

fun change_first :: "('a \<Rightarrow> bool) \<Rightarrow> ('a \<Rightarrow> 'a) \<Rightarrow> 'a list \<Rightarrow> 'a list" where
  "change_first p g [] = []"
| "change_first p g (x # xs) = (if p x then g x # xs else x # change_first p g xs)"

definition rewritten :: "string \<Rightarrow> memory_scope \<Rightarrow> string list \<Rightarrow> string \<Rightarrow> memory_entry \<Rightarrow> memory_entry" where
  "rewritten content scope tags now m =
     m\<lparr>me_content := content, me_tags := tags, me_scope := scope, me_updated_at := now\<rparr>"

definition change_entry :: "store_env \<Rightarrow> string \<Rightarrow> (memory_entry \<Rightarrow> memory_entry) \<Rightarrow> memory_entry \<Rightarrow> memory_entry list
    \<Rightarrow> memory_entry memory_op" where
  "change_entry e i g m es = bindE (memory_save e (change_first (\<lambda>x. me_id x = i) g es)) (\<lambda>_. ret (g m))"

definition memory_store ::
    "store_env \<Rightarrow> string \<Rightarrow> string \<Rightarrow> string \<Rightarrow> memory_scope \<Rightarrow> string list \<Rightarrow> memory_entry memory_op" where
  "memory_store e now i content scope tags =
     bindE (lift (validate_memory_input i content tags)) (\<lambda>_.
     memory_locked e (\<lambda>es. case find (\<lambda>m. me_id m = i) es of
         Some m \<Rightarrow> change_entry e i (rewritten content scope tags now) m es
       | None \<Rightarrow>
           if max_memory_entries \<le> length es then fail (Txt ''memory store is full (max 10000 entries)'')
           else (let m = \<lparr>me_id = i, me_scope = scope, me_content = content, me_tags = tags, me_created_at = now,
               me_updated_at = now\<rparr>
             in bindE (memory_save e (es @ [m])) (\<lambda>_. ret m))))"

definition entry_not_found :: "string \<Rightarrow> msg" where
  "entry_not_found i = Fmt ''memory entry not found: {}'' [Txt i]"

definition memory_update_existing ::
    "store_env \<Rightarrow> string \<Rightarrow> string \<Rightarrow> string \<Rightarrow> memory_scope \<Rightarrow> string list \<Rightarrow> memory_entry memory_op" where
  "memory_update_existing e now i content scope tags =
     bindE (lift (validate_memory_input i content tags)) (\<lambda>_.
     memory_locked e (\<lambda>es. case find (\<lambda>m. me_id m = i) es of
         Some m \<Rightarrow> change_entry e i (rewritten content scope tags now) m es
       | None \<Rightarrow> fail (entry_not_found i)))"

definition memory_append_scoped ::
    "store_env \<Rightarrow> string \<Rightarrow> string \<Rightarrow> string \<Rightarrow> memory_scope \<Rightarrow> string list \<Rightarrow> memory_entry memory_op" where
  "memory_append_scoped e now fresh content scope tags =
     (if trim content = [] then fail (Txt ''memory content must not be empty'')
      else memory_store e now fresh content scope tags)"

definition memory_append :: "store_env \<Rightarrow> string \<Rightarrow> string \<Rightarrow> string \<Rightarrow> memory_entry memory_op" where
  "memory_append e now fresh content = memory_append_scoped e now fresh content ScopeProject []"

definition memory_update_partial ::
    "store_env \<Rightarrow> string \<Rightarrow> string \<Rightarrow> string option \<Rightarrow> memory_scope option \<Rightarrow> string list option \<Rightarrow> memory_entry memory_op" where
  "memory_update_partial e now i content scope tags =
     (if content = None \<and> scope = None \<and> tags = None then
        fail (Txt ''memory update requires at least one of content, scope, or tags'')
      else bindE (lift (validate_memory_input i (case content of None \<Rightarrow> [] | Some c \<Rightarrow> c) [])) (\<lambda>_.
      bindE (lift (case tags of None \<Rightarrow> Inr () | Some ts \<Rightarrow> validate_memory_input i [] ts)) (\<lambda>_.
      memory_locked e (\<lambda>es. case find (\<lambda>m. me_id m = i) es of
          None \<Rightarrow> fail (entry_not_found i)
        | Some m \<Rightarrow> change_entry e i (\<lambda>m. m\<lparr>
            me_content := (case content of None \<Rightarrow> me_content m | Some c \<Rightarrow> c),
            me_scope := (case scope of None \<Rightarrow> me_scope m | Some s \<Rightarrow> s),
            me_tags := (case tags of None \<Rightarrow> me_tags m | Some ts \<Rightarrow> ts),
            me_updated_at := now\<rparr>) m es))))"

definition ascii_lower :: "string \<Rightarrow> string" where
  "ascii_lower s = map (\<lambda>c. if 65 \<le> byte c \<and> byte c \<le> 90 then char_of (byte c + 32) else c) s"

definition memory_search :: "memory_files \<Rightarrow> string \<Rightarrow> memory_scope option \<Rightarrow> msg + memory_entry list" where
  "memory_search f query scope = (let q = ascii_lower query in
     bindR (memory_load f) (\<lambda>es. Inr (filter (\<lambda>m. (case scope of None \<Rightarrow> True | Some s \<Rightarrow> me_scope m = s)
       \<and> (contains (ascii_lower (me_content m)) q \<or> list_ex (\<lambda>t. contains (ascii_lower t) q) (me_tags m))) es)))"

definition memory_get :: "memory_files \<Rightarrow> string \<Rightarrow> msg + memory_entry option" where
  "memory_get f i = bindR (memory_load f) (\<lambda>es. Inr (find (\<lambda>m. me_id m = i) es))"

definition memory_delete :: "store_env \<Rightarrow> string \<Rightarrow> bool memory_op" where
  "memory_delete e i = memory_locked e (\<lambda>es. let kept = filter (\<lambda>m. me_id m \<noteq> i) es
     in if length es = length kept then ret False else bindE (memory_save e kept) (\<lambda>_. ret True))"

section \<open>Migration of the line-based file\<close>

text \<open>\<open>parse line\<close> is the timestamp and the content of a line, when it is a record.\<close>

type_synonym legacy_parser = "string \<Rightarrow> (string \<times> string) option"

definition legacy_id :: "nat \<Rightarrow> string" where
  "legacy_id k = ''legacy-jsonl-'' @ dec k"

definition legacy_entry :: "nat \<Rightarrow> string \<times> string \<Rightarrow> memory_entry" where
  "legacy_entry k r = \<lparr>me_id = legacy_id k, me_scope = ScopeProject, me_content = snd r, me_tags = [],
     me_created_at = fst r, me_updated_at = fst r\<rparr>"

fun migrate_lines :: "legacy_parser \<Rightarrow> nat \<Rightarrow> string list \<Rightarrow> memory_entry list \<Rightarrow> msg + memory_entry list \<times> nat" where
  "migrate_lines parse k [] db = Inr (db, 0)"
| "migrate_lines parse k (line # ls) db =
     (if list_ex (\<lambda>m. me_id m = legacy_id k) db then migrate_lines parse (k + 1) ls db
      else (case parse line of
          None \<Rightarrow> Inl (Fmt ''legacy memory.jsonl line {} is malformed'' [Num (k + 1)])
        | Some r \<Rightarrow> bindR (migrate_lines parse (k + 1) ls (db @ [legacy_entry k r]))
            (\<lambda>(db', added). Inr (db', added + 1))))"

definition legacy_lines :: "string \<Rightarrow> string list" where
  "legacy_lines raw = filter (\<lambda>l. trim l \<noteq> []) (str_lines raw)"

definition migrate_legacy_jsonl :: "legacy_parser \<Rightarrow> store_env \<Rightarrow> bool \<Rightarrow> unit memory_op" where
  "migrate_legacy_jsonl parse e rename_ok f =
     (if mf_legacy f = Absent then (Inr (), f)
      else if \<not> lock_ok e then (Inl memory_unavailable, f)
      else bindE (\<lambda>f. (memory_load f, f)) (\<lambda>db.
        case mf_legacy f of
          Stored raw \<Rightarrow>
            bindE (lift (migrate_lines parse 0 (legacy_lines raw) db)) (\<lambda>(db', added).
            bindE (if 0 < added then
                (if max_memory_entries < length db' then
                   fail (Txt ''legacy memory migration would exceed the 10000 entry limit'')
                 else memory_save e db') else ret ()) (\<lambda>_.
            if \<not> rename_ok then fail (Txt ''archive legacy memory file'')
            else modify (\<lambda>f. f\<lparr>mf_legacy := Absent, mf_archive := Some raw\<rparr>)))
        | _ \<Rightarrow> fail (Txt ''read legacy memory.jsonl for migration'')) f)"

section \<open>What the migration gives\<close>

definition ids :: "memory_entry list \<Rightarrow> string set" where
  "ids db = me_id ` set db"

lemma list_ex_ids: "list_ex (\<lambda>m. me_id m = i) db \<longleftrightarrow> i \<in> ids db"
  by (auto simp: ids_def list_ex_iff)

lemma ids_simps [simp]: "ids [] = {}" "ids (xs @ ys) = ids xs \<union> ids ys" "ids (m # xs) = insert (me_id m) (ids xs)"
  by (auto simp: ids_def)

lemma legacy_id_inj [simp]: "legacy_id j = legacy_id k \<longleftrightarrow> j = k"
  using dec_inj by (auto simp: legacy_id_def)

lemma legacy_entry_id [simp]: "me_id (legacy_entry k r) = legacy_id k"
  by (simp add: legacy_entry_def)

lemma migrate_fresh:
  "(\<forall>j \<ge> k. legacy_id j \<notin> ids db) \<Longrightarrow> map parse ls = map Some rs \<Longrightarrow>
     migrate_lines parse k ls db = Inr (db @ map2 legacy_entry [k..<k + length rs] rs, length rs)"
proof (induction ls arbitrary: k db rs)
  case (Cons line ls)
  then obtain r rs' where rs: "rs = r # rs'" "parse line = Some r" "map parse ls = map Some rs'" by (cases rs) auto
  have "\<forall>j \<ge> k + 1. legacy_id j \<notin> ids (db @ [legacy_entry k r])" using Cons.prems(1) by auto
  moreover have "[k..<Suc (k + length rs')] = k # [Suc k..<Suc (k + length rs')]" by (rule upt_conv_Cons) simp
  ultimately show ?case using Cons.IH [of "k + 1" "db @ [legacy_entry k r]" rs'] Cons.prems(1) rs
    by (simp add: list_ex_ids del: upt_Suc)
qed simp

lemma migrate_present:
  "(\<forall>j < length ls. legacy_id (k + j) \<in> ids db) \<Longrightarrow> migrate_lines parse k ls db = Inr (db, 0)"
proof (induction ls arbitrary: k)
  case (Cons line ls)
  have "legacy_id (k + 1 + j) \<in> ids db" if "j < length ls" for j
    using Cons.prems that by (auto dest: spec [of _ "Suc j"])
  with Cons.IH [of "k + 1"] Cons.prems show ?case by (auto simp: list_ex_ids)
qed simp

lemma migrated_ids:
  assumes "j < length rs"
  shows "legacy_id (k + j) \<in> ids (db @ map2 legacy_entry [k..<k + length rs] rs)"
proof -
  have "map2 legacy_entry [k..<k + length rs] rs ! j = legacy_entry (k + j) (rs ! j)" using assms by simp
  then have "legacy_entry (k + j) (rs ! j) \<in> set (map2 legacy_entry [k..<k + length rs] rs)"
    using assms by (metis length_map length_zip length_upt add_diff_cancel_left' min.idem nth_mem)
  then show ?thesis unfolding ids_def by (metis UnCI image_eqI legacy_entry_id set_append)
qed

definition migrated :: "memory_files \<Rightarrow> memory_entry list \<Rightarrow> (string \<times> string) list \<Rightarrow> memory_files" where
  "migrated f db rs = (if rs = [] then f
     else f\<lparr>mf_store := Stored (db @ map2 legacy_entry [0..<length rs] rs)\<rparr>)"

lemma migrate_run_fresh:
  assumes "mf_legacy f = Stored raw" and "memory_load f = Inr db" and "\<forall>j. legacy_id j \<notin> ids db"
    and "map parse (legacy_lines raw) = map Some rs" and "length db + length rs \<le> max_memory_entries"
    and "lock_ok e" and "write_ok e"
  shows "migrate_legacy_jsonl parse e b f = (if b
      then (Inr (), (migrated f db rs)\<lparr>mf_legacy := Absent, mf_archive := Some raw\<rparr>)
      else (Inl (Txt ''archive legacy memory file''), migrated f db rs))"
  using assms migrate_fresh [of 0 db parse "legacy_lines raw" rs]
  by (auto simp: migrate_legacy_jsonl_def bindE_run memory_save_def migrated_def)

lemma migrate_run_present:
  assumes "mf_legacy f = Stored raw" and "memory_load f = Inr db"
    and "\<forall>j < length (legacy_lines raw). legacy_id j \<in> ids db" and "lock_ok e"
  shows "migrate_legacy_jsonl parse e b f = (if b
      then (Inr (), f\<lparr>mf_legacy := Absent, mf_archive := Some raw\<rparr>)
      else (Inl (Txt ''archive legacy memory file''), f))"
  using assms migrate_present [of "legacy_lines raw" 0 db parse]
  by (auto simp: migrate_legacy_jsonl_def bindE_run)

text \<open>
  The migration of the line-based memory file can be interrupted any number of times between
  the publication of the store and the archiving of the old file: once it completes, the store
  holds the entries it had, followed by exactly one entry for every record of the old file, in
  order and with the record's content and timestamp, and the old file is archived unchanged.
\<close>

theorem migration_restartable:
  assumes legacy: "mf_legacy f = Stored raw" and load: "memory_load f = Inr db" and fresh: "\<forall>j. legacy_id j \<notin> ids db"
    and parsed: "map parse (legacy_lines raw) = map Some rs" and room: "length db + length rs \<le> max_memory_entries"
    and env: "lock_ok e" "write_ok e"
  shows "migrate_legacy_jsonl parse e True (((\<lambda>g. snd (migrate_legacy_jsonl parse e False g)) ^^ n) f)
    = (Inr (), (migrated f db rs)\<lparr>mf_legacy := Absent, mf_archive := Some raw\<rparr>)"
proof (cases n)
  case 0
  then show ?thesis using migrate_run_fresh [OF assms] by simp
next
  case (Suc m)
  let ?db = "if rs = [] then db else db @ map2 legacy_entry [0..<length rs] rs"
  have l: "mf_legacy (migrated f db rs) = Stored raw" "memory_load (migrated f db rs) = Inr ?db"
    using legacy load by (simp_all add: migrated_def memory_load_def)
  have len: "length (legacy_lines raw) = length rs" using parsed by (metis length_map)
  have present: "\<forall>j < length (legacy_lines raw). legacy_id j \<in> ids ?db"
    using migrated_ids [of _ rs 0 db] unfolding len by auto
  note again = migrate_run_present [OF l present env(1)]
  have one: "snd (migrate_legacy_jsonl parse e False f) = migrated f db rs"
    using migrate_run_fresh [OF assms, where b = False] by simp
  have "((\<lambda>g. snd (migrate_legacy_jsonl parse e False g)) ^^ Suc m) f = migrated f db rs"
  proof (induction m)
    case 0
    with one show ?case by simp
  next
    case (Suc m)
    then show ?case using again [where b = False] by simp
  qed
  with Suc again [where b = True] show ?thesis by simp
qed

text \<open>
  The identifiers of migrated records are their line numbers alone. A line-based file that
  appears after an earlier one was migrated, and is not longer, is taken for the earlier one: no
  record of it reaches the store, whatever it says, and it replaces the archive of the first.
\<close>

theorem second_legacy_file_dropped:
  assumes legacy: "mf_legacy f = Stored raw" and load: "memory_load f = Inr db" and fresh: "\<forall>j. legacy_id j \<notin> ids db"
    and parsed: "map parse (legacy_lines raw) = map Some rs" and room: "length db + length rs \<le> max_memory_entries"
    and env: "lock_ok e" "write_ok e"
    and first: "migrate_legacy_jsonl parse e True f = (Inr (), f1)"
    and second: "length (legacy_lines raw2) \<le> length rs"
  shows "migrate_legacy_jsonl parse e True (f1\<lparr>mf_legacy := Stored raw2\<rparr>)
    = (Inr (), f1\<lparr>mf_legacy := Absent, mf_archive := Some raw2\<rparr>)"
proof -
  have f1: "f1 = (migrated f db rs)\<lparr>mf_legacy := Absent, mf_archive := Some raw\<rparr>"
    using migrate_run_fresh [OF assms(1-7), where b = True] first by simp
  let ?db = "if rs = [] then db else db @ map2 legacy_entry [0..<length rs] rs"
  have "memory_load (f1\<lparr>mf_legacy := Stored raw2\<rparr>) = Inr ?db" using load by (simp add: f1 migrated_def memory_load_def)
  moreover have "\<forall>j < length (legacy_lines raw2). legacy_id j \<in> ids ?db"
    using migrated_ids [of _ rs 0 db] second by auto
  ultimately show ?thesis
    using migrate_run_present [where f = "f1\<lparr>mf_legacy := Stored raw2\<rparr>" and raw = raw2 and db = ?db and e = e and parse = parse and b = True] env by simp
qed

definition plain_records :: legacy_parser where
  "plain_records line = Some (''t'', line)"

definition legacy_sample :: memory_files where
  "legacy_sample = \<lparr>mf_store = Absent, mf_legacy = Stored (''one'' @ [LF] @ ''two'' @ [LF]), mf_archive = None\<rparr>"

lemma legacy_sample_facts:
  "mf_legacy legacy_sample = Stored (''one'' @ [LF] @ ''two'' @ [LF])" "memory_load legacy_sample = Inr []"
  "\<forall>j. legacy_id j \<notin> ids []"
  "map plain_records (legacy_lines (''one'' @ [LF] @ ''two'' @ [LF])) = map Some [(''t'', ''one''), (''t'', ''two'')]"
  "length ([] :: memory_entry list) + length [(''t'', ''one''), (''t'', ''two'')] \<le> max_memory_entries"
proof -
  have "legacy_lines (''one'' @ [LF] @ ''two'' @ [LF]) = [''one'', ''two'']" by code_simp
  then show "map plain_records (legacy_lines (''one'' @ [LF] @ ''two'' @ [LF])) = map Some [(''t'', ''one''), (''t'', ''two'')]"
    by (simp add: plain_records_def)
qed (simp_all add: legacy_sample_def memory_load_def max_memory_entries_def)

theorem migration_restartable_witness:
  "mf_store (snd (migrate_legacy_jsonl plain_records \<lparr>lock_ok = True, write_ok = True\<rparr> True
     (((\<lambda>g. snd (migrate_legacy_jsonl plain_records \<lparr>lock_ok = True, write_ok = True\<rparr> False g)) ^^ 2) legacy_sample)))
   = Stored [legacy_entry 0 (''t'', ''one''), legacy_entry 1 (''t'', ''two'')]"
  using migration_restartable [OF legacy_sample_facts, of "\<lparr>lock_ok = True, write_ok = True\<rparr>" 2]
  by (simp add: migrated_def upt_rec)

theorem second_legacy_file_dropped_witness:
  "\<exists>f1. migrate_legacy_jsonl plain_records \<lparr>lock_ok = True, write_ok = True\<rparr> True legacy_sample = (Inr (), f1)
    \<and> mf_store f1 = Stored [legacy_entry 0 (''t'', ''one''), legacy_entry 1 (''t'', ''two'')]
    \<and> migrate_legacy_jsonl plain_records \<lparr>lock_ok = True, write_ok = True\<rparr> True (f1\<lparr>mf_legacy := Stored ''three''\<rparr>)
      = (Inr (), f1\<lparr>mf_legacy := Absent, mf_archive := Some ''three''\<rparr>)"
proof -
  let ?e = "\<lparr>lock_ok = True, write_ok = True\<rparr>"
  have e: "lock_ok ?e" "write_ok ?e" by simp_all
  obtain f1 where f1: "migrate_legacy_jsonl plain_records ?e True legacy_sample = (Inr (), f1)"
    "mf_store f1 = Stored [legacy_entry 0 (''t'', ''one''), legacy_entry 1 (''t'', ''two'')]"
    using migrate_run_fresh [OF legacy_sample_facts e, where b = True] by (simp add: migrated_def upt_rec)
  have "length (legacy_lines ''three'') \<le> length [(''t'', ''one''), (''t'', ''two'')]" by code_simp
  from second_legacy_file_dropped [OF legacy_sample_facts e f1(1) this] f1 show ?thesis by blast
qed

end
