(* ===== verification/AgentRuntime.thy ===== *)
theory AgentRuntime
  imports Authorization
begin

text \<open>
  Who a caller is: the agent profiles (\<open>core/agents.rs\<close>), the runtime sessions
  (\<open>core/sessions.rs\<close>, \<open>models/session.rs\<close>), the identity contracts (\<open>core/identity.rs\<close>) and the
  service that joins them (\<open>services/agent_runtime.rs\<close>). Every profile and every session is one
  JSON file, so a store is a directory of records. Timestamps and fresh identifiers are arguments;
  the lock and the publication of a file are outcomes of the environment.
\<close>

section \<open>Identifiers\<close>

definition max_id_len :: nat where "max_id_len = 128"

definition validate_id :: "string \<Rightarrow> msg + unit" where
  "validate_id i =
     bindR (ensure (i \<noteq> []) (Txt ''id is empty'')) (\<lambda>_.
     bindR (ensure (length i \<le> max_id_len) (Txt ''id is too long'')) (\<lambda>_.
     bindR (ensure (\<not> (contains i ''/'' \<or> contains i [CHR 0x5C] \<or> contains i ''..''))
       (Txt ''id must not contain path separators or traversal'')) (\<lambda>_.
     ensure (\<not> list_ex (\<lambda>b. byte b < 32 \<or> byte b = 127) i) (Txt ''id must not contain control characters''))))"

section \<open>Agent profiles\<close>

definition store_unavailable :: msg where
  "store_unavailable = Txt ''store lock or file unavailable''"

definition corrupt_record :: "string \<Rightarrow> msg" where
  "corrupt_record i = Fmt ''corrupt record {}'' [Txt i]"

definition publish :: "store_env \<Rightarrow> string \<Rightarrow> 'a \<Rightarrow> ('a dir, msg, unit) io" where
  "publish e k v = (if \<not> write_ok e then fail store_unavailable else modify (dir_put k v))"

definition invalid_agent_id :: "string \<Rightarrow> msg" where
  "invalid_agent_id i = Fmt ''invalid agent id: {:?} (must not be empty or contain path separators)'' [Txt i]"

definition agent_create :: "store_env \<Rightarrow> agent \<Rightarrow> (agent dir, msg, unit) io" where
  "agent_create e a =
     (if \<not> is_safe_agent_id (ag_id a) then fail (invalid_agent_id (ag_id a))
      else if \<not> lock_ok e then fail store_unavailable
      else publish e (ag_id a) a)"

definition agent_register :: "store_env \<Rightarrow> agent \<Rightarrow> (agent dir, msg, unit) io" where
  "agent_register e a =
     (if \<not> is_safe_agent_id (ag_id a) then fail (invalid_agent_id (ag_id a))
      else if \<not> lock_ok e then fail store_unavailable
      else bindE (gets (\<lambda>d. dir_get d (ag_id a))) (\<lambda>s. case s of
          Absent \<Rightarrow> publish e (ag_id a) a
        | Corrupt \<Rightarrow> fail (corrupt_record (ag_id a))
        | Stored _ \<Rightarrow> fail (Fmt ''agent id already registered: {} (use a different id)'' [Txt (ag_id a)])))"

fun stored_agents :: "agent dir \<Rightarrow> msg + agent list" where
  "stored_agents [] = Inr []"
| "stored_agents ((k, s) # d) = (case s of
      Stored a \<Rightarrow> bindR (stored_agents d) (\<lambda>as. Inr (a # as))
    | _ \<Rightarrow> Inl (corrupt_record k))"

definition agent_list :: "agent dir \<Rightarrow> msg + agent list" where
  "agent_list d = bindR (stored_agents d) (\<lambda>as. Inr (sort_key ag_id as))"

section \<open>Sessions\<close>

datatype session_status = SActive | SPaused | SStopped | SFailed

fun is_usable :: "session_status \<Rightarrow> bool" where
  "is_usable SActive = True"
| "is_usable SPaused = True"
| "is_usable _ = False"

fun status_label :: "session_status \<Rightarrow> string" where
  "status_label SActive = ''active''"
| "status_label SPaused = ''paused''"
| "status_label SStopped = ''stopped''"
| "status_label SFailed = ''failed''"

record session_record =
  sr_session_id :: string
  sr_agent_id :: string
  sr_workspace_id :: string
  sr_status :: session_status
  sr_created_at :: string
  sr_last_activity_at :: string

definition is_safe_session_id :: "string \<Rightarrow> bool" where
  "is_safe_session_id i \<longleftrightarrow> i \<noteq> [] \<and> length i \<le> max_id_len \<and> i \<noteq> ''.'' \<and> i \<noteq> ''..'' \<and> \<not> contains i ''/''
     \<and> \<not> contains i [CHR 0x5C] \<and> \<not> contains i ''..'' \<and> \<not> has_control i \<and> file_name i = Some i"

fun is_valid_transition :: "session_status \<Rightarrow> session_status \<Rightarrow> bool" where
  "is_valid_transition SActive SPaused = True"
| "is_valid_transition SActive SStopped = True"
| "is_valid_transition SActive SFailed = True"
| "is_valid_transition SPaused SActive = True"
| "is_valid_transition SPaused SStopped = True"
| "is_valid_transition SPaused SFailed = True"
| "is_valid_transition SStopped SStopped = True"
| "is_valid_transition SFailed SFailed = True"
| "is_valid_transition SActive SActive = True"
| "is_valid_transition SPaused SPaused = True"
| "is_valid_transition _ _ = False"

definition invalid_session_id :: "string \<Rightarrow> msg" where
  "invalid_session_id i = Fmt ''invalid session id: {:?} (must not be empty or contain path separators)'' [Txt i]"

definition session_create :: "store_env \<Rightarrow> session_record \<Rightarrow> (session_record dir, msg, unit) io" where
  "session_create e s =
     (if \<not> is_safe_session_id (sr_session_id s) then fail (invalid_session_id (sr_session_id s))
      else if \<not> lock_ok e then fail store_unavailable
      else publish e (sr_session_id s) s)"

definition session_get :: "session_record dir \<Rightarrow> string \<Rightarrow> msg + session_record option" where
  "session_get d i = (if \<not> is_safe_session_id i then Inr None
     else (case dir_get d i of Absent \<Rightarrow> Inr None | Corrupt \<Rightarrow> Inl (corrupt_record i) | Stored s \<Rightarrow> Inr (Some s)))"

definition session_transition ::
    "store_env \<Rightarrow> string \<Rightarrow> string \<Rightarrow> session_status \<Rightarrow> (session_record dir, msg, session_record option) io" where
  "session_transition e now i next_status =
     (if \<not> is_safe_session_id i then fail (invalid_session_id i)
      else if \<not> lock_ok e then fail store_unavailable
      else bindE (gets (\<lambda>d. dir_get d i)) (\<lambda>s. case s of
          Absent \<Rightarrow> ret None
        | Corrupt \<Rightarrow> fail (corrupt_record i)
        | Stored session \<Rightarrow>
            if \<not> is_valid_transition (sr_status session) next_status then
              fail (Fmt ''invalid session transition: session {} cannot go from {} to {} (stopped and failed are terminal)''
                [Txt i, Txt (status_label (sr_status session)), Txt (status_label next_status)])
            else (let session' = session\<lparr>sr_status := next_status, sr_last_activity_at := now\<rparr>
              in bindE (publish e i session') (\<lambda>_. ret (Some session')))))"

text \<open>A record that cannot be read is skipped.\<close>

definition session_list :: "session_record dir \<Rightarrow> string option \<Rightarrow> session_record list" where
  "session_list d agent_id = sort_key sr_session_id
     (filter (\<lambda>s. case agent_id of None \<Rightarrow> True | Some a \<Rightarrow> sr_agent_id s = a)
       (concat (map (\<lambda>(_, s). case s of Stored r \<Rightarrow> [r] | _ \<Rightarrow> []) d)))"

section \<open>The runtime service\<close>

record runtime =
  rt_manifest :: "string stored"
  rt_agents :: "agent dir"
  rt_sessions :: "session_record dir"

type_synonym 'a runtime_op = "(runtime, msg, 'a) io"

definition on_agents :: "(agent dir, msg, 'a) io \<Rightarrow> 'a runtime_op" where
  "on_agents m w = (case m (rt_agents w) of (r, d) \<Rightarrow> (r, w\<lparr>rt_agents := d\<rparr>))"

definition on_sessions :: "(session_record dir, msg, 'a) io \<Rightarrow> 'a runtime_op" where
  "on_sessions m w = (case m (rt_sessions w) of (r, d) \<Rightarrow> (r, w\<lparr>rt_sessions := d\<rparr>))"

definition load_manifest :: "string stored \<Rightarrow> msg + string" where
  "load_manifest m = (case m of
      Absent \<Rightarrow> Inl (Txt ''workspace is not initialized (run `awh init` first)'')
    | Corrupt \<Rightarrow> Inl (Txt ''workspace manifest is unreadable'')
    | Stored ws \<Rightarrow> Inr ws)"

definition workspace_id :: "runtime \<Rightarrow> msg + string option" where
  "workspace_id w = (if rt_manifest w = Absent then Inr None
     else bindR (load_manifest (rt_manifest w)) (\<lambda>ws. Inr (Some ws)))"

definition validate_text_field :: "string \<Rightarrow> string \<Rightarrow> nat \<Rightarrow> msg + unit" where
  "validate_text_field what val limit =
     bindR (ensure (trim val \<noteq> []) (Fmt ''invalid {}: must not be empty'' [Txt what])) (\<lambda>_.
     ensure (length val \<le> limit) (Fmt ''invalid {}: must be at most {} bytes'' [Txt what, Num limit]))"

definition register_profile :: "store_env \<Rightarrow> string \<Rightarrow> string \<Rightarrow> string \<Rightarrow> string \<Rightarrow> agent runtime_op" where
  "register_profile e now i name role =
     bindE (lift (ensure (is_safe_agent_id i) (Fmt ''invalid agent id: {:?}'' [Txt i]))) (\<lambda>_.
     bindE (lift (validate_text_field ''agent name'' name 128)) (\<lambda>_.
     bindE (lift (validate_text_field ''agent role'' role 64)) (\<lambda>_.
     let a = \<lparr>ag_id = i, ag_name = name, ag_role = role, ag_status = Created, ag_enabled = True, ag_created_at = now\<rparr>
     in bindE (on_agents (agent_register e a)) (\<lambda>_. ret a))))"

definition lookup_profile :: "runtime \<Rightarrow> string \<Rightarrow> msg + agent option" where
  "lookup_profile w i = (case agent_get (rt_agents w) i of Inl _ \<Rightarrow> Inl (corrupt_record i) | Inr a \<Rightarrow> Inr a)"

definition require_profile :: "string \<Rightarrow> agent runtime_op" where
  "require_profile i w = ((case lookup_profile w i of
      Inl e \<Rightarrow> Inl e
    | Inr None \<Rightarrow> Inl (Fmt ''agent not found: {}'' [Txt i])
    | Inr (Some a) \<Rightarrow> Inr a), w)"

text \<open>
  The profile operations read the record, change it in memory and write it back; the lock is held
  by the write alone, so each of them is two steps.
\<close>

definition save_profile :: "store_env \<Rightarrow> agent \<Rightarrow> agent runtime_op" where
  "save_profile e a = bindE (on_agents (agent_create e a)) (\<lambda>_. ret a)"

definition started :: "string \<Rightarrow> agent \<Rightarrow> msg + agent" where
  "started i a = (if \<not> ag_enabled a then Inl (Fmt ''agent {} is disabled; enable it first'' [Txt i])
     else Inr (a\<lparr>ag_status := Active\<rparr>))"

definition start_agent :: "store_env \<Rightarrow> string \<Rightarrow> agent runtime_op" where
  "start_agent e i = bindE (require_profile i) (\<lambda>a. bindE (lift (started i a)) (save_profile e))"

definition stop_agent :: "store_env \<Rightarrow> string \<Rightarrow> agent runtime_op" where
  "stop_agent e i = bindE (require_profile i) (\<lambda>a.
     if ag_status a \<noteq> Stopped then save_profile e (a\<lparr>ag_status := Stopped\<rparr>) else ret a)"

definition restart_agent :: "store_env \<Rightarrow> store_env \<Rightarrow> string \<Rightarrow> agent runtime_op" where
  "restart_agent e e' i = bindE (stop_agent e i) (\<lambda>_. start_agent e' i)"

definition fail_agent :: "store_env \<Rightarrow> string \<Rightarrow> agent runtime_op" where
  "fail_agent e i = bindE (require_profile i) (\<lambda>a. save_profile e (a\<lparr>ag_status := Failed\<rparr>))"

definition set_profile_enabled :: "store_env \<Rightarrow> string \<Rightarrow> bool \<Rightarrow> agent runtime_op" where
  "set_profile_enabled e i b = bindE (require_profile i) (\<lambda>a. save_profile e (a\<lparr>ag_enabled := b\<rparr>))"

fun agent_label :: "agent_status \<Rightarrow> string" where
  "agent_label Created = ''created''"
| "agent_label Active = ''active''"
| "agent_label Paused = ''paused''"
| "agent_label Stopped = ''stopped''"
| "agent_label Failed = ''failed''"

definition open_session :: "store_env \<Rightarrow> string \<Rightarrow> string \<Rightarrow> string \<Rightarrow> session_record runtime_op" where
  "open_session e now fresh agent_id =
     bindE (\<lambda>w. (load_manifest (rt_manifest w), w)) (\<lambda>ws.
     bindE (require_profile agent_id) (\<lambda>a.
     if \<not> ag_enabled a then fail (Fmt ''agent {} is disabled; cannot open a session'' [Txt agent_id])
     else if ag_status a \<noteq> Active then
       fail (Fmt ''agent {} is {}; start it before opening a session'' [Txt agent_id, Txt (agent_label (ag_status a))])
     else bindE (lift (validate_id agent_id)) (\<lambda>_.
       let s = \<lparr>sr_session_id = fresh, sr_agent_id = agent_id, sr_workspace_id = ws, sr_status = SActive,
                sr_created_at = now, sr_last_activity_at = now\<rparr>
       in bindE (on_sessions (session_create e s)) (\<lambda>_. ret s))))"

definition require_owned_session :: "string \<Rightarrow> string \<Rightarrow> runtime \<Rightarrow> msg + session_record \<times> string" where
  "require_owned_session agent_id session_id w =
     bindR (load_manifest (rt_manifest w)) (\<lambda>ws.
     bindR (session_get (rt_sessions w) session_id) (\<lambda>found. case found of
       None \<Rightarrow> Inl (Fmt ''session not found: {}'' [Txt session_id])
     | Some s \<Rightarrow>
         if sr_agent_id s \<noteq> agent_id then
           Inl (Fmt ''session {} does not belong to agent {}'' [Txt session_id, Txt agent_id])
         else if sr_workspace_id s \<noteq> ws then
           Inl (Fmt ''session {} is bound to a different workspace'' [Txt session_id])
         else Inr (s, ws)))"

datatype identity_relation =
  AgentActiveInWorkspace | AgentInactive | AgentDisabled | UnknownAgentRelation | WrongWorkspace

definition resolve_session_relation :: "string \<Rightarrow> string \<Rightarrow> runtime \<Rightarrow> msg + identity_relation" where
  "resolve_session_relation agent_id ws w =
     bindR (load_manifest (rt_manifest w)) (\<lambda>mws.
     if ws \<noteq> mws then Inr WrongWorkspace
     else bindR (lookup_profile w agent_id) (\<lambda>found. case found of
       None \<Rightarrow> Inr UnknownAgentRelation
     | Some a \<Rightarrow> Inr (if \<not> ag_enabled a then AgentDisabled
         else if ag_status a \<noteq> Active then AgentInactive else AgentActiveInWorkspace)))"

record resolved_caller =
  rc_session_id :: string
  rc_agent_id :: string
  rc_workspace_id :: string
  rc_status :: session_status

definition resolve_session :: "string \<Rightarrow> string \<Rightarrow> runtime \<Rightarrow> msg + resolved_caller" where
  "resolve_session agent_id session_id w =
     bindR (require_owned_session agent_id session_id w) (\<lambda>(s, ws).
     if \<not> is_usable (sr_status s) then
       Inl (Fmt ''session {} is {} and cannot be used (open a new session)''
         [Txt session_id, Txt (status_label (sr_status s))])
     else bindR (validate_id session_id) (\<lambda>_.
     bindR (validate_id agent_id) (\<lambda>_.
     bindR (validate_id ws) (\<lambda>_.
     bindR (resolve_session_relation agent_id ws w) (\<lambda>rel. case rel of
       AgentActiveInWorkspace \<Rightarrow> Inr \<lparr>rc_session_id = sr_session_id s, rc_agent_id = sr_agent_id s,
         rc_workspace_id = sr_workspace_id s, rc_status = sr_status s\<rparr>
     | AgentDisabled \<Rightarrow> Inl (Fmt ''agent {} is disabled; session {} cannot be used'' [Txt agent_id, Txt session_id])
     | AgentInactive \<Rightarrow> Inl (Fmt ''agent {} is not active; session {} cannot be used'' [Txt agent_id, Txt session_id])
     | UnknownAgentRelation \<Rightarrow> Inl (Fmt ''agent not found: {}'' [Txt agent_id])
     | WrongWorkspace \<Rightarrow> Inl (Fmt ''session {} is bound to a different workspace'' [Txt session_id]))))))"

definition transition_session ::
    "store_env \<Rightarrow> string \<Rightarrow> string \<Rightarrow> string \<Rightarrow> session_status \<Rightarrow> session_record runtime_op" where
  "transition_session e now agent_id session_id next_status =
     bindE (\<lambda>w. ((if is_usable next_status
          then bindR (resolve_session agent_id session_id w) (\<lambda>_. Inr ())
          else bindR (require_owned_session agent_id session_id w) (\<lambda>_. Inr ())), w)) (\<lambda>_.
     bindE (on_sessions (session_transition e now session_id next_status)) (\<lambda>found. case found of
       None \<Rightarrow> fail (Fmt ''session not found: {}'' [Txt session_id])
     | Some s \<Rightarrow> ret s))"

section \<open>What resolution checks\<close>

lemma load_manifest_Inr [simp]: "load_manifest m = Inr ws \<longleftrightarrow> m = Stored ws"
  by (cases m) (simp_all add: load_manifest_def)

lemma lookup_profile_Some:
  "lookup_profile w i = Inr (Some a) \<longleftrightarrow> is_safe_agent_id i \<and> dir_get (rt_agents w) i = Stored a"
  by (auto simp: lookup_profile_def agent_get_def split: stored.splits sum.splits)

lemma session_get_Some: "session_get d i = Inr (Some s) \<longleftrightarrow> is_safe_session_id i \<and> dir_get d i = Stored s"
  by (auto simp: session_get_def split: stored.splits)

lemma require_owned_Inr:
  "require_owned_session a i w = Inr (s, ws) \<longleftrightarrow> rt_manifest w = Stored ws \<and> is_safe_session_id i
     \<and> dir_get (rt_sessions w) i = Stored s \<and> sr_agent_id s = a \<and> sr_workspace_id s = ws"
  by (auto simp: require_owned_session_def bindR_Inr_iff session_get_Some split: option.splits)

lemma relation_active:
  "resolve_session_relation a ws w = Inr AgentActiveInWorkspace \<longleftrightarrow> rt_manifest w = Stored ws
     \<and> is_safe_agent_id a \<and> (\<exists>g. dir_get (rt_agents w) a = Stored g \<and> ag_enabled g \<and> ag_status g = Active)"
  by (auto simp: resolve_session_relation_def bindR_Inr_iff lookup_profile_Some split: option.splits if_splits)

lemma resolve_session_Inr:
  "resolve_session a i w = Inr c \<longleftrightarrow> (\<exists>s ws. require_owned_session a i w = Inr (s, ws) \<and> is_usable (sr_status s)
     \<and> validate_id i = Inr () \<and> validate_id a = Inr () \<and> validate_id ws = Inr ()
     \<and> resolve_session_relation a ws w = Inr AgentActiveInWorkspace
     \<and> c = \<lparr>rc_session_id = sr_session_id s, rc_agent_id = sr_agent_id s,
         rc_workspace_id = sr_workspace_id s, rc_status = sr_status s\<rparr>)"
  by (auto simp: resolve_session_def bindR_Inr_iff bindR_unit_Inr_iff split: identity_relation.splits)
    (metis identity_relation.exhaust)+

text \<open>
  C21. A presented pair of agent and session resolves to a caller exactly when the workspace is
  initialised, the session record is stored under the presented id, belongs to the presented
  agent, is bound to this workspace and is active or paused, and the agent profile is stored,
  enabled and active. The caller is then the one of the record. No other state, and no earlier
  resolution, matters.
\<close>

theorem resolve_session_exact:
  "resolve_session a i w = Inr c \<longleftrightarrow> (\<exists>s ws g. rt_manifest w = Stored ws \<and> is_safe_session_id i
     \<and> dir_get (rt_sessions w) i = Stored s \<and> sr_agent_id s = a \<and> sr_workspace_id s = ws
     \<and> is_usable (sr_status s) \<and> list_all (\<lambda>j. validate_id j = Inr ()) [i, a, ws]
     \<and> is_safe_agent_id a \<and> dir_get (rt_agents w) a = Stored g \<and> ag_enabled g \<and> ag_status g = Active
     \<and> c = \<lparr>rc_session_id = sr_session_id s, rc_agent_id = a, rc_workspace_id = ws, rc_status = sr_status s\<rparr>)"
  unfolding resolve_session_Inr require_owned_Inr relation_active by auto

section \<open>Terminal sessions stay terminal\<close>

text \<open>
  The commands of the service; \<open>SaveProfile\<close> is the late write of a profile operation whose read
  came any time before.
\<close>

datatype runtime_cmd =
  Register store_env string string string string
| Start store_env string
| Stop store_env string
| Restart store_env store_env string
| MarkFailed store_env string
| SetEnabled store_env string bool
| SaveProfile store_env agent
| OpenSession store_env string string string
| MoveSession store_env string string string session_status

fun runtime_do :: "runtime_cmd \<Rightarrow> runtime \<Rightarrow> runtime" where
  "runtime_do (Register e now i name role) w = snd (register_profile e now i name role w)"
| "runtime_do (Start e i) w = snd (start_agent e i w)"
| "runtime_do (Stop e i) w = snd (stop_agent e i w)"
| "runtime_do (Restart e e' i) w = snd (restart_agent e e' i w)"
| "runtime_do (MarkFailed e i) w = snd (fail_agent e i w)"
| "runtime_do (SetEnabled e i b) w = snd (set_profile_enabled e i b w)"
| "runtime_do (SaveProfile e a) w = snd (save_profile e a w)"
| "runtime_do (OpenSession e now fresh a) w = snd (open_session e now fresh a w)"
| "runtime_do (MoveSession e now a i st) w = snd (transition_session e now a i st w)"

definition runtime_run :: "runtime_cmd list \<Rightarrow> runtime \<Rightarrow> runtime" where
  "runtime_run cmds w = fold runtime_do cmds w"

definition opens :: "string \<Rightarrow> runtime_cmd \<Rightarrow> bool" where
  "opens i c \<longleftrightarrow> (\<exists>e now a. c = OpenSession e now i a)"

definition same_sessions :: "runtime \<Rightarrow> runtime \<Rightarrow> bool" where
  "same_sessions w w' \<longleftrightarrow> rt_sessions w' = rt_sessions w"

lemma same_sessions_refl [simp]: "same_sessions w w"
  by (simp add: same_sessions_def)

lemma agents_only: "on_agents m w = (r, w') \<Longrightarrow> same_sessions w w'"
  by (auto simp: on_agents_def same_sessions_def split: prod.splits)

lemma require_profile_run: "require_profile i w = (r, w') \<Longrightarrow> w' = w"
  by (simp add: require_profile_def)

lemma save_profile_sessions: "save_profile e a w = (r, w') \<Longrightarrow> same_sessions w w'"
  by (auto simp: save_profile_def bindE_run dest: agents_only split: prod.splits sum.splits)

lemma profile_ops_sessions:
  "start_agent e i w = (r, w') \<Longrightarrow> same_sessions w w'"
  "stop_agent e i w = (r, w') \<Longrightarrow> same_sessions w w'"
  "fail_agent e i w = (r, w') \<Longrightarrow> same_sessions w w'"
  "set_profile_enabled e i b w = (r, w') \<Longrightarrow> same_sessions w w'"
  "register_profile e now i name role w = (q, w') \<Longrightarrow> same_sessions w w'"
  by (auto simp: start_agent_def stop_agent_def fail_agent_def set_profile_enabled_def register_profile_def
      bindE_run require_profile_def Let_def dest: save_profile_sessions agents_only split: prod.splits sum.splits if_splits)

lemma restart_sessions: "restart_agent e e' i w = (r, w') \<Longrightarrow> same_sessions w w'"
  by (auto simp: restart_agent_def bindE_run same_sessions_def
      dest!: profile_ops_sessions(1,2) [unfolded same_sessions_def] split: prod.splits sum.splits)

lemma open_session_sessions:
  "open_session e now fresh a w = (r, w') \<Longrightarrow> i \<noteq> fresh \<Longrightarrow> dir_get (rt_sessions w') i = dir_get (rt_sessions w) i"
  by (auto simp: open_session_def bindE_run require_profile_def on_sessions_def session_create_def publish_def Let_def
      split: prod.splits sum.splits if_splits)

lemma session_transition_get:
  assumes "session_transition e now j st d = (r, d')" and "dir_get d i = Stored s" and "\<not> is_usable (sr_status s)"
  shows "\<exists>s'. dir_get d' i = Stored s' \<and> sr_status s' = sr_status s \<and> sr_agent_id s' = sr_agent_id s
    \<and> sr_workspace_id s' = sr_workspace_id s"
proof -
  have "is_valid_transition (sr_status s) st \<Longrightarrow> st = sr_status s"
    using assms(3) by (cases "sr_status s"; cases st) simp_all
  with assms show ?thesis
    by (auto simp: session_transition_def publish_def bindE_run Let_def split: if_splits stored.splits)
qed

lemma move_session_get:
  assumes "transition_session e now a j st w = (r, w')" and "dir_get (rt_sessions w) i = Stored s"
    and "\<not> is_usable (sr_status s)"
  shows "\<exists>s'. dir_get (rt_sessions w') i = Stored s' \<and> sr_status s' = sr_status s"
proof (cases "rt_sessions w' = rt_sessions w")
  case False
  obtain q d' where t: "session_transition e now j st (rt_sessions w) = (q, d')" by fastforce
  with False assms(1) have "rt_sessions w' = d'"
    by (auto simp: transition_session_def bindE_run on_sessions_def split: prod.splits sum.splits option.splits if_splits)
  with session_transition_get [OF t assms(2,3)] show ?thesis by blast
qed (use assms in auto)

lemma runtime_do_terminal:
  assumes "dir_get (rt_sessions w) i = Stored s" and "\<not> is_usable (sr_status s)" and "\<not> opens i c"
  shows "\<exists>s'. dir_get (rt_sessions (runtime_do c w)) i = Stored s' \<and> sr_status s' = sr_status s"
proof -
  have frame: ?thesis if "same_sessions w (runtime_do c w)"
    using that assms(1) by (simp add: same_sessions_def)
  show ?thesis
  proof (cases c)
    case (OpenSession e now fresh a)
    with assms(3) have "i \<noteq> fresh" by (auto simp: opens_def)
    with OpenSession assms(1) open_session_sessions [of e now fresh a w] show ?thesis
      by (cases "open_session e now fresh a w") auto
  next
    case (MoveSession e now a j st)
    with move_session_get [of e now a j st w] assms show ?thesis
      by (cases "transition_session e now a j st w") auto
  qed (rule frame; force intro: profile_ops_sessions restart_sessions save_profile_sessions prod.collapse [symmetric])+
qed

text \<open>
  A session that was stopped or failed never serves a caller again: whatever commands any
  number of processes issue afterwards (profile operations, late profile writes, new sessions,
  transitions), as long as no new session is given the same id, its record keeps its terminal
  status and resolves for no agent.
\<close>

theorem terminal_session_never_resolves:
  assumes "dir_get (rt_sessions w) i = Stored s" and "\<not> is_usable (sr_status s)"
    and "list_all (\<lambda>c. \<not> opens i c) cmds"
  shows "(\<exists>s'. dir_get (rt_sessions (runtime_run cmds w)) i = Stored s' \<and> sr_status s' = sr_status s)
    \<and> isl (resolve_session a i (runtime_run cmds w))"
proof -
  have kept: "\<exists>s'. dir_get (rt_sessions (runtime_run cmds w)) i = Stored s' \<and> sr_status s' = sr_status s"
    using assms unfolding runtime_run_def
  proof (induction cmds arbitrary: w s)
    case (Cons c cmds)
    from Cons.prems(3) have c: "\<not> opens i c" by simp
    from runtime_do_terminal [OF Cons.prems(1,2) c] obtain s1
      where "dir_get (rt_sessions (runtime_do c w)) i = Stored s1" "sr_status s1 = sr_status s" by blast
    with Cons.IH [of "runtime_do c w" s1] Cons.prems(2,3) show ?case by auto
  qed simp
  moreover have "\<not> (\<exists>c. resolve_session a i (runtime_run cmds w) = Inr c)"
    using kept assms(2) by (auto simp: resolve_session_Inr require_owned_Inr)
  ultimately show ?thesis by (cases "resolve_session a i (runtime_run cmds w)") auto
qed

definition sample_agent :: agent where
  "sample_agent = \<lparr>ag_id = ''writer'', ag_name = ''W'', ag_role = ''writer'', ag_status = Active, ag_enabled = True,
     ag_created_at = ''t''\<rparr>"

definition sample_session :: "session_status \<Rightarrow> session_record" where
  "sample_session st = \<lparr>sr_session_id = ''sess-1'', sr_agent_id = ''writer'', sr_workspace_id = ''ws-1'', sr_status = st,
     sr_created_at = ''t'', sr_last_activity_at = ''t''\<rparr>"

definition sample_runtime :: "session_status \<Rightarrow> runtime" where
  "sample_runtime st = \<lparr>rt_manifest = Stored ''ws-1'', rt_agents = [(''writer'', Stored sample_agent)],
     rt_sessions = [(''sess-1'', Stored (sample_session st))]\<rparr>"

abbreviation good_env :: store_env where
  "good_env \<equiv> \<lparr>lock_ok = True, write_ok = True\<rparr>"

theorem terminal_session_never_resolves_witness:
  "isl (resolve_session ''writer'' ''sess-1'' (runtime_run
     [Stop good_env ''writer'', Start good_env ''writer'', OpenSession good_env ''t1'' ''sess-2'' ''writer'',
      MoveSession good_env ''t2'' ''writer'' ''sess-1'' SActive] (sample_runtime SStopped)))"
proof -
  have "dir_get (rt_sessions (sample_runtime SStopped)) ''sess-1'' = Stored (sample_session SStopped)"
    by (simp add: sample_runtime_def dir_get_def)
  moreover have "\<not> is_usable (sr_status (sample_session SStopped))" by (simp add: sample_session_def)
  ultimately show ?thesis
    by (rule terminal_session_never_resolves [THEN conjunct2]) (simp add: opens_def)
qed

text \<open>A failed session cannot be stopped: the request is refused, not taken as done.\<close>

lemma stop_failed_session_refused:
  "isl (fst (transition_session good_env ''t'' ''writer'' ''sess-1'' SStopped (sample_runtime SFailed)))"
  by code_simp

text \<open>
  Teardown does not depend on the profile: whatever the agent directory holds, the owner of a
  session that is not failed can stop it.
\<close>

lemma teardown_without_profile:
  assumes "require_owned_session a i w = Inr (s, ws)" and "sr_status s \<noteq> SFailed" and "lock_ok e" and "write_ok e"
  shows "\<exists>s' w'. transition_session e now a i SStopped w = (Inr s', w') \<and> sr_status s' = SStopped"
proof -
  have v: "is_valid_transition (sr_status s) SStopped" using assms(2) by (cases "sr_status s") simp_all
  from assms(1) have "is_safe_session_id i" "dir_get (rt_sessions w) i = Stored s" by (simp_all add: require_owned_Inr)
  with assms v show ?thesis
    by (simp add: transition_session_def session_transition_def bindE_run on_sessions_def publish_def Let_def)
qed

section \<open>A disabled profile can come back\<close>

text \<open>
  Disabling an agent can be undone by an operation that was already under way. A start of an
  active agent reads the profile; another process disables the agent, after which none of its
  sessions resolves; then the start writes the profile it had read. The agent is enabled and
  active again, and the sessions that resolved before the disabling resolve again.
\<close>

theorem disable_lost_to_late_start:
  assumes before: "resolve_session a i w = Inr c" and profile: "require_profile a w = (Inr g, w)" "ag_id g = a"
    and disable: "set_profile_enabled e1 a False w = (Inr d, w1)"
    and env: "lock_ok e" "write_ok e"
  shows "isl (resolve_session a i w1) \<and> (\<exists>g' w2. bindE (lift (started a g)) (save_profile e) w1 = (Inr g', w2)
    \<and> ag_enabled g' \<and> resolve_session a i w2 = Inr c)"
proof -
  from before obtain s ws where own: "require_owned_session a i w = Inr (s, ws)" "is_usable (sr_status s)"
    and ids: "validate_id i = Inr ()" "validate_id a = Inr ()" "validate_id ws = Inr ()"
    and rel: "resolve_session_relation a ws w = Inr AgentActiveInWorkspace"
    and c: "c = \<lparr>rc_session_id = sr_session_id s, rc_agent_id = sr_agent_id s,
         rc_workspace_id = sr_workspace_id s, rc_status = sr_status s\<rparr>"
    unfolding resolve_session_Inr by blast
  from profile have g: "is_safe_agent_id a" "dir_get (rt_agents w) a = Stored g"
    by (auto simp: require_profile_def lookup_profile_Some split: sum.splits option.splits)
  with rel have act: "ag_enabled g" "ag_status g = Active" "rt_manifest w = Stored ws" by (auto simp: relation_active)
  from disable profile g have w1: "w1 = w\<lparr>rt_agents := dir_put a (g\<lparr>ag_enabled := False\<rparr>) (rt_agents w)\<rparr>"
    by (auto simp: set_profile_enabled_def save_profile_def on_agents_def agent_create_def publish_def bindE_run
        split: if_splits)
  have "\<not> (\<exists>x. resolve_session a i w1 = Inr x)"
    unfolding resolve_session_Inr relation_active by (auto simp: w1)
  then have refused: "isl (resolve_session a i w1)" by (cases "resolve_session a i w1") auto
  let ?g = "g\<lparr>ag_status := Active\<rparr>"
  let ?w2 = "w1\<lparr>rt_agents := dir_put a ?g (rt_agents w1)\<rparr>"
  have late: "bindE (lift (started a g)) (save_profile e) w1 = (Inr ?g, ?w2)"
    using act g profile(2) env by (simp add: started_def save_profile_def on_agents_def agent_create_def publish_def bindE_run)
  have "require_owned_session a i ?w2 = Inr (s, ws)" using own by (simp add: require_owned_Inr w1)
  moreover have "resolve_session_relation a ws ?w2 = Inr AgentActiveInWorkspace"
    using act g by (simp add: relation_active w1)
  ultimately have "resolve_session a i ?w2 = Inr c"
    using own(2) ids c unfolding resolve_session_Inr by blast
  with refused late act show ?thesis by auto
qed

theorem disable_lost_to_late_start_witness:
  "\<exists>g' w2. bindE (lift (started ''writer'' sample_agent)) (save_profile good_env)
      (snd (set_profile_enabled good_env ''writer'' False (sample_runtime SActive))) = (Inr g', w2)
    \<and> ag_enabled g' \<and> isl (resolve_session ''writer'' ''sess-1''
      (snd (set_profile_enabled good_env ''writer'' False (sample_runtime SActive))))
    \<and> \<not> isl (resolve_session ''writer'' ''sess-1'' w2)"
proof -
  let ?w = "sample_runtime SActive"
  have "case resolve_session ''writer'' ''sess-1'' ?w of Inl _ \<Rightarrow> False | Inr _ \<Rightarrow> True" by code_simp
  then obtain c where c: "resolve_session ''writer'' ''sess-1'' ?w = Inr c" by (auto split: sum.splits)
  have safe: "is_safe_agent_id ''writer''" by code_simp
  have g: "require_profile ''writer'' ?w = (Inr sample_agent, ?w)"
    using safe by (simp add: require_profile_def lookup_profile_def agent_get_def sample_runtime_def dir_get_def)
  obtain d w1 where d: "set_profile_enabled good_env ''writer'' False ?w = (Inr d, w1)"
    using g safe by (simp add: set_profile_enabled_def bindE_run save_profile_def on_agents_def agent_create_def
        publish_def sample_agent_def)
  from disable_lost_to_late_start [OF c g _ d, of good_env] show ?thesis
    using d by (auto simp: sample_agent_def)
qed

end
