(* ===== verification/Tasks.thy ===== *)
theory Tasks
  imports AgentRuntime
begin

text \<open>
  The task store (\<open>core/tasks.rs\<close>): one file with the list of the tasks of a workspace. Every
  operation loads the file, changes the list and publishes it again under the store lock. The
  assignee of a task is checked against the stores of sessions, worktrees and agents.
\<close>

section \<open>Tasks\<close>

datatype task_status = Todo | InProgress | TaskBlocked | Done | Cancelled
datatype task_priority = PLow | PNormal | PHigh | PCritical

record task =
  tk_id :: string
  tk_title :: string
  tk_description :: string
  tk_status :: task_status
  tk_priority :: task_priority
  tk_assignee :: "string option"
  tk_tags :: "string list"
  tk_created_at :: string
  tk_updated_at :: string

fun task_status_str :: "task_status \<Rightarrow> string" where
  "task_status_str Todo = ''Todo''"
| "task_status_str InProgress = ''InProgress''"
| "task_status_str TaskBlocked = ''Blocked''"
| "task_status_str Done = ''Done''"
| "task_status_str Cancelled = ''Cancelled''"

definition task_terminal :: "task_status \<Rightarrow> bool" where
  "task_terminal s \<longleftrightarrow> s = Done \<or> s = Cancelled"

definition is_valid_task_transition :: "task_status \<Rightarrow> task_status \<Rightarrow> bool" where
  "is_valid_task_transition from_st to_st \<longleftrightarrow> \<not> task_terminal from_st"

type_synonym task_file = "task list stored"
type_synonym 'a task_op = "(task_file, msg, 'a) io"

definition max_tasks :: nat where "max_tasks = 10000"
definition max_task_id_len :: nat where "max_task_id_len = 256"
definition max_task_title_len :: nat where "max_task_title_len = 1024"
definition max_task_description_len :: nat where "max_task_description_len = 65536"
definition max_task_tags :: nat where "max_task_tags = 64"
definition max_task_tag_len :: nat where "max_task_tag_len = 128"

definition validate_task_input :: "string \<Rightarrow> string \<Rightarrow> string \<Rightarrow> string list \<Rightarrow> msg + unit" where
  "validate_task_input i title description tags =
     bindR (ensure (trim i \<noteq> []) (Txt ''task id must not be empty'')) (\<lambda>_.
     bindR (ensure (length i \<le> max_task_id_len) (Txt ''task id exceeds 256 bytes'')) (\<lambda>_.
     bindR (ensure (trim title \<noteq> []) (Txt ''task title must not be empty'')) (\<lambda>_.
     bindR (ensure (length title \<le> max_task_title_len) (Txt ''task title exceeds 1024 bytes'')) (\<lambda>_.
     bindR (ensure (length description \<le> max_task_description_len) (Txt ''task description exceeds 65536 bytes'')) (\<lambda>_.
     bindR (ensure (length tags \<le> max_task_tags) (Txt ''task exceeds 64 tags'')) (\<lambda>_.
     each (\<lambda>t. ensure (length t \<le> max_task_tag_len) (Fmt ''task tag exceeds 128 bytes: {:?}'' [Txt t])) tags))))))"

section \<open>Load and save\<close>

definition task_load :: "task_file \<Rightarrow> msg + task list" where
  "task_load f = (case f of Absent \<Rightarrow> Inr [] | Corrupt \<Rightarrow> Inl (Txt ''task store is unreadable'') | Stored ts \<Rightarrow> Inr ts)"

definition task_save :: "store_env \<Rightarrow> task list \<Rightarrow> unit task_op" where
  "task_save e ts = (if \<not> write_ok e then fail store_unavailable else modify (\<lambda>_. Stored ts))"

definition task_locked :: "store_env \<Rightarrow> (task list \<Rightarrow> 'a task_op) \<Rightarrow> 'a task_op" where
  "task_locked e body = (if \<not> lock_ok e then fail store_unavailable
     else bindE (\<lambda>f. (task_load f, f)) body)"

section \<open>Operations\<close>

definition task_create ::
    "store_env \<Rightarrow> string \<Rightarrow> string \<Rightarrow> string \<Rightarrow> string \<Rightarrow> task_priority \<Rightarrow> string list \<Rightarrow> task task_op" where
  "task_create e now i title description priority tags =
     bindE (lift (validate_task_input i title description tags)) (\<lambda>_.
     task_locked e (\<lambda>ts.
       let t = \<lparr>tk_id = i, tk_title = title, tk_description = description, tk_status = Todo, tk_priority = priority,
                tk_assignee = None, tk_tags = tags, tk_created_at = now, tk_updated_at = now\<rparr>;
           exists = list_ex (\<lambda>u. tk_id u = i) ts
       in if \<not> exists \<and> max_tasks \<le> length ts then fail (Txt ''task store is full (max 10000 tasks)'')
          else bindE (task_save e (filter (\<lambda>u. tk_id u \<noteq> i) ts @ [t])) (\<lambda>_. ret t)))"

definition task_list :: "task_file \<Rightarrow> task_status option \<Rightarrow> msg + task list" where
  "task_list f st = bindR (task_load f)
     (\<lambda>ts. Inr (filter (\<lambda>t. case st of None \<Rightarrow> True | Some s \<Rightarrow> tk_status t = s) ts))"

definition task_get :: "task_file \<Rightarrow> string \<Rightarrow> msg + task option" where
  "task_get f i = bindR (task_load f) (\<lambda>ts. Inr (find (\<lambda>t. tk_id t = i) ts))"

text \<open>\<open>iter_mut().find\<close>: the first task with the id is changed in place.\<close>

fun replace_first :: "('a \<Rightarrow> bool) \<Rightarrow> 'a \<Rightarrow> 'a list \<Rightarrow> 'a list" where
  "replace_first p y [] = []"
| "replace_first p y (x # xs) = (if p x then y # xs else x # replace_first p y xs)"

definition assignee_found :: "runtime \<Rightarrow> msg + string list \<Rightarrow> string \<Rightarrow> msg + bool" where
  "assignee_found w worktrees target =
     (if starts_with target ''sess-'' then
        bindR (session_get (rt_sessions w) target) (\<lambda>s. Inr (s \<noteq> None))
      else if starts_with target ''wt-'' then
        bindR worktrees (\<lambda>ids. Inr (List.member ids target))
      else bindR (lookup_profile w target) (\<lambda>a. Inr (a \<noteq> None)))"

definition validate_assignee :: "runtime \<Rightarrow> msg + string list \<Rightarrow> string \<Rightarrow> msg + unit" where
  "validate_assignee w worktrees target = bindR (assignee_found w worktrees target) (\<lambda>found.
     ensure found (Fmt ''assignee not found: {}'' [Txt target]))"

definition invalid_task_transition :: "task_status \<Rightarrow> task_status \<Rightarrow> msg" where
  "invalid_task_transition a b = Fmt ''invalid task transition {} -> {}: terminal tasks cannot be reopened; create a new task instead''
     [Txt (task_status_str a), Txt (task_status_str b)]"

definition task_update ::
    "store_env \<Rightarrow> string \<Rightarrow> runtime \<Rightarrow> msg + string list \<Rightarrow> string \<Rightarrow> task_status option \<Rightarrow> task_priority option
       \<Rightarrow> string option option \<Rightarrow> task option task_op" where
  "task_update e now w worktrees i status priority assignee =
     bindE (lift (case Option.bind assignee id of
         None \<Rightarrow> Inr ()
       | Some target \<Rightarrow> if target = [] then Inr () else validate_assignee w worktrees target)) (\<lambda>_.
     task_locked e (\<lambda>ts. case find (\<lambda>t. tk_id t = i) ts of
         None \<Rightarrow> ret None
       | Some t \<Rightarrow>
           if status = None \<and> priority = None \<and> assignee = None then
             fail (Txt ''no changes requested: provide at least one of status, priority, or assignee'')
           else bindE (case status of
               None \<Rightarrow> ret t
             | Some s \<Rightarrow> if tk_status t \<noteq> s \<and> \<not> is_valid_task_transition (tk_status t) s
                 then fail (invalid_task_transition (tk_status t) s) else ret (t\<lparr>tk_status := s\<rparr>)) (\<lambda>t1.
             let t2 = (case priority of None \<Rightarrow> t1 | Some p \<Rightarrow> t1\<lparr>tk_priority := p\<rparr>);
                 t3 = (case assignee of None \<Rightarrow> t2 | Some a \<Rightarrow> t2\<lparr>tk_assignee := a\<rparr>);
                 t4 = t3\<lparr>tk_updated_at := now\<rparr>
             in bindE (task_save e (replace_first (\<lambda>u. tk_id u = i) t4 ts)) (\<lambda>_. ret (Some t4)))))"

definition task_cancel :: "store_env \<Rightarrow> string \<Rightarrow> string \<Rightarrow> task task_op" where
  "task_cancel e now i = task_locked e (\<lambda>ts. case find (\<lambda>t. tk_id t = i) ts of
       None \<Rightarrow> fail (Fmt ''task not found: {}'' [Txt i])
     | Some t \<Rightarrow>
         if task_terminal (tk_status t) then fail (invalid_task_transition (tk_status t) Cancelled)
         else (let t' = t\<lparr>tk_status := Cancelled, tk_updated_at := now\<rparr>
           in bindE (task_save e (replace_first (\<lambda>u. tk_id u = i) t' ts)) (\<lambda>_. ret t')))"

definition task_delete :: "store_env \<Rightarrow> string \<Rightarrow> bool task_op" where
  "task_delete e i = task_locked e (\<lambda>ts. let kept = filter (\<lambda>t. tk_id t \<noteq> i) ts
     in bindE (task_save e kept) (\<lambda>_. ret (length ts \<noteq> length kept)))"

section \<open>The store over time\<close>

datatype task_cmd =
  CreateTask store_env string string string string task_priority "string list"
| UpdateTask store_env string runtime "msg + string list" string "task_status option" "task_priority option" "string option option"
| CancelTask store_env string string
| DeleteTask store_env string

fun task_do :: "task_cmd \<Rightarrow> task_file \<Rightarrow> task_file" where
  "task_do (CreateTask e now i ti d p tags) f = snd (task_create e now i ti d p tags f)"
| "task_do (UpdateTask e now w wts i st p a) f = snd (task_update e now w wts i st p a f)"
| "task_do (CancelTask e now i) f = snd (task_cancel e now i f)"
| "task_do (DeleteTask e i) f = snd (task_delete e i f)"

definition tasks_wf :: "task_file \<Rightarrow> bool" where
  "tasks_wf f \<longleftrightarrow> (case f of Stored ts \<Rightarrow> distinct (map tk_id ts) \<and> length ts \<le> max_tasks
       \<and> list_all (\<lambda>t. validate_task_input (tk_id t) (tk_title t) (tk_description t) (tk_tags t) = Inr ()) ts
     | _ \<Rightarrow> True)"

text \<open>The status of a task; \<open>None\<close> when there is no such task or the file cannot be read.\<close>

definition status_of :: "task_file \<Rightarrow> string \<Rightarrow> task_status option" where
  "status_of f i = (case task_get f i of Inr (Some t) \<Rightarrow> Some (tk_status t) | _ \<Rightarrow> None)"

lemma task_locked_cases:
  "task_locked e body f = (r, f') \<Longrightarrow>
     (f' = f \<and> isl r) \<or> (lock_ok e \<and> (\<exists>ts. task_load f = Inr ts \<and> body ts f = (r, f')))"
  by (auto simp: task_locked_def bindE_run split: if_splits sum.splits)

lemma task_save_run: "task_save e ts f = (r, f') \<longleftrightarrow> (if write_ok e then r = Inr () \<and> f' = Stored ts else r = Inl store_unavailable \<and> f' = f)"
  by (auto simp: task_save_def)

lemma replace_first_ids: "tk_id y = i \<Longrightarrow> map tk_id (replace_first (\<lambda>u. tk_id u = i) y ts) = map tk_id ts"
  by (induction ts) auto

lemma replace_first_set: "set (replace_first p y xs) \<subseteq> insert y (set xs)"
  by (induction xs) auto

lemma length_replace_first [simp]: "length (replace_first p y xs) = length xs"
  by (induction xs) auto

lemma find_replace_first:
  "tk_id y = i \<Longrightarrow> find (\<lambda>u. tk_id u = j) (replace_first (\<lambda>u. tk_id u = i) y ts)
     = (if j = i \<and> find (\<lambda>u. tk_id u = i) ts \<noteq> None then Some y else find (\<lambda>u. tk_id u = j) ts)"
  by (induction ts) auto

lemma find_filter_id: "find (\<lambda>u. tk_id u = j) (filter (\<lambda>u. tk_id u \<noteq> i) ts)
     = (if j = i then None else find (\<lambda>u. tk_id u = j) ts)"
  by (induction ts) auto

text \<open>What each operation does to the list, when it does anything.\<close>

lemma task_create_cases:
  assumes "task_create e now i ti d p tags f = (r, f')"
  shows "f' = f \<or> (\<exists>ts t. task_load f = Inr ts \<and> f' = Stored (filter (\<lambda>u. tk_id u \<noteq> i) ts @ [t]) \<and> tk_id t = i
    \<and> tk_status t = Todo \<and> tk_title t = ti \<and> tk_description t = d \<and> tk_tags t = tags
    \<and> validate_task_input i ti d tags = Inr () \<and> (list_ex (\<lambda>u. tk_id u = i) ts \<or> length ts < max_tasks))"
  using assms unfolding task_create_def
  by (auto simp: bindE_run task_locked_def task_save_def Let_def not_le split: sum.splits if_splits)

lemma task_update_cases:
  assumes "task_update e now w wts i st p a f = (r, f')"
  shows "f' = f \<or> (\<exists>ts t t'. task_load f = Inr ts \<and> find (\<lambda>u. tk_id u = i) ts = Some t
    \<and> f' = Stored (replace_first (\<lambda>u. tk_id u = i) t' ts) \<and> tk_id t' = tk_id t \<and> tk_title t' = tk_title t
    \<and> tk_description t' = tk_description t \<and> tk_tags t' = tk_tags t
    \<and> (tk_status t' = tk_status t \<or> is_valid_task_transition (tk_status t) (tk_status t')))"
  using assms unfolding task_update_def
  by (auto simp: bindE_run task_locked_def task_save_def Let_def split: sum.splits if_splits option.splits)

lemma task_cancel_cases:
  assumes "task_cancel e now i f = (r, f')"
  shows "f' = f \<or> (\<exists>ts t t'. task_load f = Inr ts \<and> find (\<lambda>u. tk_id u = i) ts = Some t
    \<and> f' = Stored (replace_first (\<lambda>u. tk_id u = i) t' ts) \<and> tk_id t' = tk_id t \<and> tk_title t' = tk_title t
    \<and> tk_description t' = tk_description t \<and> tk_tags t' = tk_tags t
    \<and> is_valid_task_transition (tk_status t) (tk_status t'))"
  using assms unfolding task_cancel_def
  by (auto simp: bindE_run task_locked_def task_save_def Let_def is_valid_task_transition_def
      split: sum.splits if_splits option.splits)

lemma task_delete_cases:
  assumes "task_delete e i f = (r, f')"
  shows "f' = f \<or> (\<exists>ts. task_load f = Inr ts \<and> f' = Stored (filter (\<lambda>u. tk_id u \<noteq> i) ts))"
  using assms unfolding task_delete_def
  by (auto simp: bindE_run task_locked_def task_save_def Let_def split: sum.splits if_splits)

section \<open>The invariant of the store\<close>

lemma tasks_wf_load: "tasks_wf f \<Longrightarrow> task_load f = Inr ts \<Longrightarrow> tasks_wf (Stored ts)"
  by (cases f) (auto simp: task_load_def tasks_wf_def)

lemma tasks_wf_replace:
  assumes "tasks_wf (Stored ts)" and "find (\<lambda>u. tk_id u = i) ts = Some t" and "tk_id t' = tk_id t"
    and "tk_title t' = tk_title t" and "tk_description t' = tk_description t" and "tk_tags t' = tk_tags t"
  shows "tasks_wf (Stored (replace_first (\<lambda>u. tk_id u = i) t' ts))"
proof -
  have t: "t \<in> set ts" "tk_id t = i" using assms(2) by (auto simp: find_Some_iff)
  then have "map tk_id (replace_first (\<lambda>u. tk_id u = i) t' ts) = map tk_id ts"
    using assms(3) by (intro replace_first_ids) simp
  moreover have "validate_task_input (tk_id u) (tk_title u) (tk_description u) (tk_tags u) = Inr ()"
    if "u \<in> set (replace_first (\<lambda>u. tk_id u = i) t' ts)" for u
  proof -
    have "u = t' \<or> u \<in> set ts" using that replace_first_set [of "\<lambda>u. tk_id u = i" t' ts] by blast
    then show ?thesis
    proof
      assume "u = t'"
      have "validate_task_input (tk_id t) (tk_title t) (tk_description t) (tk_tags t) = Inr ()"
        using assms(1) t(1) by (simp add: tasks_wf_def list_all_iff)
      with \<open>u = t'\<close> assms(3-6) show ?thesis by simp
    qed (use assms(1) in \<open>simp add: tasks_wf_def list_all_iff\<close>)
  qed
  ultimately show ?thesis using assms(1) by (simp add: tasks_wf_def list_all_iff)
qed

lemma tasks_wf_step: "tasks_wf f \<Longrightarrow> tasks_wf (task_do c f)"
proof (cases c)
  case (CreateTask e now i ti d p tags)
  assume wf: "tasks_wf f"
  obtain r f' where run: "task_create e now i ti d p tags f = (r, f')" by fastforce
  have "tasks_wf f'"
  proof (cases "f' = f")
    case False
    with task_create_cases [OF run] obtain ts t
      where l: "task_load f = Inr ts" and f': "f' = Stored (filter (\<lambda>u. tk_id u \<noteq> i) ts @ [t])" and t: "tk_id t = i"
      "tk_title t = ti" "tk_description t = d" "tk_tags t = tags" and v: "validate_task_input i ti d tags = Inr ()"
      and room: "list_ex (\<lambda>u. tk_id u = i) ts \<or> length ts < max_tasks" by blast
    have wts: "tasks_wf (Stored ts)" using wf l by (rule tasks_wf_load)
    have "length (filter (\<lambda>u. tk_id u \<noteq> i) ts) < max_tasks"
    proof (cases "list_ex (\<lambda>u. tk_id u = i) ts")
      case True
      then obtain u where "u \<in> set ts" "\<not> tk_id u \<noteq> i" by (auto simp: list_ex_iff)
      then have "length (filter (\<lambda>u. tk_id u \<noteq> i) ts) < length ts" by (rule length_filter_less)
      with wts show ?thesis by (simp add: tasks_wf_def)
    next
      case False
      with room have "length ts < max_tasks" by simp
      then show ?thesis using length_filter_le [of "\<lambda>u. tk_id u \<noteq> i" ts] by (rule le_less_trans [rotated])
    qed
    with wts t v f' show ?thesis by (auto simp: tasks_wf_def list_all_iff distinct_map_filter)
  qed (use wf in simp)
  with run CreateTask show ?thesis by simp
next
  case (UpdateTask e now w wts i st p a)
  assume wf: "tasks_wf f"
  obtain r f' where run: "task_update e now w wts i st p a f = (r, f')" by fastforce
  with task_update_cases [OF run] UpdateTask wf tasks_wf_load tasks_wf_replace show ?thesis by auto
next
  case (CancelTask e now i)
  assume wf: "tasks_wf f"
  obtain r f' where run: "task_cancel e now i f = (r, f')" by fastforce
  with task_cancel_cases [OF run] CancelTask wf tasks_wf_load tasks_wf_replace show ?thesis by auto
next
  case (DeleteTask e i)
  assume wf: "tasks_wf f"
  obtain r f' where run: "task_delete e i f = (r, f')" by fastforce
  have "tasks_wf f'"
    using task_delete_cases [OF run]
  proof (elim disjE exE conjE)
    fix ts assume l: "task_load f = Inr ts" and f': "f' = Stored (filter (\<lambda>u. tk_id u \<noteq> i) ts)"
    have "tasks_wf (Stored ts)" using wf l by (rule tasks_wf_load)
    with f' show ?thesis
      by (auto simp: tasks_wf_def list_all_iff distinct_map_filter intro: le_trans [OF length_filter_le])
  qed (use wf in simp)
  with run DeleteTask show ?thesis by simp
qed

lemma tasks_wf_run: "tasks_wf f \<Longrightarrow> tasks_wf (fold task_do cmds f)"
  by (induction cmds arbitrary: f) (auto intro: tasks_wf_step)

section \<open>Terminal tasks\<close>

lemma status_of_load: "status_of f i = Some st \<Longrightarrow> \<exists>ts t. task_load f = Inr ts \<and> find (\<lambda>u. tk_id u = i) ts = Some t \<and> tk_status t = st"
  by (auto simp: status_of_def task_get_def bindR_Inr_iff split: sum.splits option.splits)

lemma status_of_Stored: "status_of (Stored ts) i = map_option tk_status (find (\<lambda>u. tk_id u = i) ts)"
  by (simp add: status_of_def task_get_def task_load_def split: option.split)

definition recreates :: "string \<Rightarrow> task_cmd \<Rightarrow> bool" where
  "recreates i c \<longleftrightarrow> (\<exists>e now ti d p tags. c = CreateTask e now i ti d p tags) \<or> (\<exists>e. c = DeleteTask e i)"

lemma terminal_task_step:
  assumes st: "status_of f i = Some st" "task_terminal st" and c: "\<not> recreates i c"
  shows "status_of (task_do c f) i = Some st"
proof -
  obtain ts t where l: "task_load f = Inr ts" and t: "find (\<lambda>u. tk_id u = i) ts = Some t" "tk_status t = st"
    using status_of_load [OF st(1)] by blast
  have keep: "status_of f' i = Some st" if
    "f' = f \<or> (\<exists>ts t t'. task_load f = Inr ts \<and> find (\<lambda>u. tk_id u = j) ts = Some t
    \<and> f' = Stored (replace_first (\<lambda>u. tk_id u = j) t' ts) \<and> tk_id t' = tk_id t
    \<and> (tk_status t' = tk_status t \<or> is_valid_task_transition (tk_status t) (tk_status t')))" for f' j
  proof (cases "f' = f")
    case False
    with that obtain ts1 u u'
      where l1: "task_load f = Inr ts1" and u: "find (\<lambda>u. tk_id u = j) ts1 = Some u" "tk_id u' = tk_id u"
      and f': "f' = Stored (replace_first (\<lambda>u. tk_id u = j) u' ts1)"
      and d: "tk_status u' = tk_status u \<or> is_valid_task_transition (tk_status u) (tk_status u')" by blast
    from l l1 have "ts1 = ts" by simp
    have "tk_id u' = j" using u by (auto simp: find_Some_iff)
    with \<open>ts1 = ts\<close> u t d st(2) f' show ?thesis
      by (auto simp: status_of_Stored find_replace_first is_valid_task_transition_def)
  qed (use st in simp)
  show ?thesis
  proof (cases c)
    case (CreateTask e now j ti d p tags)
    with c have "j \<noteq> i" by (auto simp: recreates_def)
    obtain r f' where run: "task_create e now j ti d p tags f = (r, f')" by fastforce
    from task_create_cases [OF run] l t st \<open>j \<noteq> i\<close> have "status_of f' i = Some st"
      by (auto simp: status_of_Stored find_append find_filter_id)
    with run CreateTask show ?thesis by simp
  next
    case (UpdateTask e now w wts j s p a)
    obtain r f' where run: "task_update e now w wts j s p a f = (r, f')" by fastforce
    with task_update_cases [OF run] UpdateTask keep [of f' j] show ?thesis by auto
  next
    case (CancelTask e now j)
    obtain r f' where run: "task_cancel e now j f = (r, f')" by fastforce
    with task_cancel_cases [OF run] CancelTask keep [of f' j] show ?thesis by auto
  next
    case (DeleteTask e j)
    with c have "j \<noteq> i" by (auto simp: recreates_def)
    obtain r f' where run: "task_delete e j f = (r, f')" by fastforce
    from task_delete_cases [OF run] l t st \<open>j \<noteq> i\<close> have "status_of f' i = Some st"
      by (auto simp: status_of_Stored find_filter_id)
    with run DeleteTask show ?thesis by simp
  qed
qed

text \<open>
  A completed or cancelled task keeps its status under any sequence of updates, cancellations
  and commands for other tasks. It is reopened all the same by a creation with its id, which
  replaces the record and starts it as Todo again without any check of the state machine.
\<close>

theorem terminal_task_reopened_only_by_create:
  assumes "status_of f i = Some st" and "task_terminal st"
  shows "(list_all (\<lambda>c. \<not> recreates i c) cmds \<longrightarrow> status_of (fold task_do cmds f) i = Some st)
    \<and> (validate_task_input i ti d tags = Inr () \<and> lock_ok e \<and> write_ok e \<longrightarrow>
      status_of (task_do (CreateTask e now i ti d p tags) f) i = Some Todo)"
proof -
  have "status_of (fold task_do cmds f) i = Some st" if "list_all (\<lambda>c. \<not> recreates i c) cmds"
    using that assms(1)
  proof (induction cmds arbitrary: f)
    case (Cons c cmds)
    then have "status_of (task_do c f) i = Some st"
      using terminal_task_step [OF Cons.prems(2) assms(2)] by simp
    with Cons show ?case by simp
  qed simp
  moreover have "status_of (task_do (CreateTask e now i ti d p tags) f) i = Some Todo"
    if "validate_task_input i ti d tags = Inr ()" "lock_ok e" "write_ok e"
  proof -
    obtain ts t where l: "task_load f = Inr ts" and t: "find (\<lambda>u. tk_id u = i) ts = Some t"
      using status_of_load [OF assms(1)] by blast
    have "list_ex (\<lambda>u. tk_id u = i) ts" using t by (auto simp: list_ex_iff find_Some_iff)
    with that l show ?thesis
      by (simp add: task_create_def bindE_run task_locked_def task_save_def Let_def status_of_Stored find_append find_filter_id)
  qed
  ultimately show ?thesis by blast
qed

definition done_task :: task where
  "done_task = \<lparr>tk_id = ''t1'', tk_title = ''T'', tk_description = [], tk_status = Done, tk_priority = PNormal,
     tk_assignee = None, tk_tags = [], tk_created_at = ''t'', tk_updated_at = ''t''\<rparr>"

theorem terminal_task_reopened_only_by_create_witness:
  "status_of (fold task_do [CancelTask good_env ''n'' ''t1'', DeleteTask good_env ''t2''] (Stored [done_task])) ''t1'' = Some Done
   \<and> status_of (task_do (CreateTask good_env ''n'' ''t1'' ''again'' [] PLow []) (Stored [done_task])) ''t1'' = Some Todo"
proof -
  have s: "status_of (Stored [done_task]) ''t1'' = Some Done" by (simp add: status_of_Stored done_task_def)
  have t: "task_terminal Done" by (simp add: task_terminal_def)
  have c: "list_all (\<lambda>c. \<not> recreates ''t1'' c) [CancelTask good_env ''n'' ''t1'', DeleteTask good_env ''t2'']"
    by (simp add: recreates_def)
  note both = terminal_task_reopened_only_by_create [OF s t, where ti = "''again''" and d = "[]" and tags = "[]"
      and e = good_env and now = "''n''" and p = PLow]
  have v: "validate_task_input ''t1'' ''again'' [] [] = Inr ()" by code_simp
  have e: "lock_ok good_env \<and> write_ok good_env" by simp
  show ?thesis using both [THEN conjunct1, rule_format, OF c] both [THEN conjunct2, rule_format, OF conjI [OF v e]] by (rule conjI)
qed

end
