(* ===== verification/Collaboration.thy ===== *)
theory Collaboration
  imports Tasks "HOL-Library.Word"
begin

text \<open>
  Ownership of tasks and worktrees (\<open>core/collaboration.rs\<close> and the service over it,
  \<open>services/collaboration.rs\<close>): one file with at most one record per resource, changed under the
  store lock by compare-and-swap on a revision. The lemmas show that the store implements an
  abstract ownership machine whose transitions are labelled with the agent entitled to make them,
  and that of two callers with the same revision only one can win. Revisions keep their 64 bits.
\<close>

section \<open>Records\<close>

datatype resource_kind = KindTask | KindWorktree

fun kind_str :: "resource_kind \<Rightarrow> string" where
  "kind_str KindTask = ''task''"
| "kind_str KindWorktree = ''worktree''"

datatype ownership_state = OAssigned | OActive | OHandoffRequested | OHandedOff | OReleased

fun ownership_str :: "ownership_state \<Rightarrow> string" where
  "ownership_str OAssigned = ''Assigned''"
| "ownership_str OActive = ''Active''"
| "ownership_str OHandoffRequested = ''HandoffRequested''"
| "ownership_str OHandedOff = ''HandedOff''"
| "ownership_str OReleased = ''Released''"

definition is_held :: "ownership_state \<Rightarrow> bool" where
  "is_held s \<longleftrightarrow> s \<noteq> OReleased"

fun is_valid_ownership_transition :: "ownership_state \<Rightarrow> ownership_state \<Rightarrow> bool" where
  "is_valid_ownership_transition OAssigned OActive = True"
| "is_valid_ownership_transition OAssigned OHandoffRequested = True"
| "is_valid_ownership_transition OAssigned OReleased = True"
| "is_valid_ownership_transition OActive OHandoffRequested = True"
| "is_valid_ownership_transition OActive OReleased = True"
| "is_valid_ownership_transition OHandoffRequested OHandedOff = True"
| "is_valid_ownership_transition OHandoffRequested OReleased = True"
| "is_valid_ownership_transition OHandoffRequested OAssigned = True"
| "is_valid_ownership_transition OHandedOff OReleased = True"
| "is_valid_ownership_transition OHandedOff OActive = True"
| "is_valid_ownership_transition _ _ = False"

record collab_record =
  cr_kind :: resource_kind
  cr_resource :: string
  cr_owner :: string
  cr_session :: "string option"
  cr_state :: ownership_state
  cr_pending :: "string option"
  cr_revision :: "64 word"
  cr_note :: "string option"
  cr_created_at :: string
  cr_updated_at :: string

record collab_file =
  cl_version :: nat
  cl_records :: "collab_record list"

datatype collab_error = AlreadyOwned | NotOwned | NotOwner | NoPendingHandoff | StaleRevision | InvalidState

fun collab_message :: "collab_error \<Rightarrow> string" where
  "collab_message AlreadyOwned = ''resource already has an active owner (release or hand off first)''"
| "collab_message NotOwner = ''only the current owner may change this ownership''"
| "collab_message NotOwned = ''no active ownership record for this resource''"
| "collab_message NoPendingHandoff = ''no handoff is pending for this resource''"
| "collab_message StaleRevision = ''stale revision: the record changed, reload and retry''"
| "collab_message InvalidState = ''transition is not legal from the current state''"

definition collab_schema_version :: nat where "collab_schema_version = 1"
definition max_collab_records :: nat where "max_collab_records = 10000"
definition max_resource_id_len :: nat where "max_resource_id_len = 256"
definition max_note_len :: nat where "max_note_len = 512"

section \<open>The store\<close>

text \<open>Domain failures are values inside a successful call, as in the source.\<close>

type_synonym collab_store = "collab_file stored"
type_synonym 'a collab_op = "(collab_store, msg, collab_error + 'a) io"

definition collab_load :: "collab_store \<Rightarrow> msg + collab_file" where
  "collab_load f = (case f of
      Absent \<Rightarrow> Inr \<lparr>cl_version = collab_schema_version, cl_records = []\<rparr>
    | Corrupt \<Rightarrow> Inl (Txt ''collaboration store is corrupt'')
    | Stored c \<Rightarrow>
        if cl_version c \<noteq> collab_schema_version then
          Inl (Fmt ''unsupported collaboration store schema version {} (expected 1)'' [Num (cl_version c)])
        else if max_collab_records < length (cl_records c) then
          Inl (Txt ''collaboration store exceeds its record bound'')
        else Inr c)"

definition collab_save :: "store_env \<Rightarrow> collab_file \<Rightarrow> (collab_store, msg, unit) io" where
  "collab_save e c = (if \<not> write_ok e then fail store_unavailable else modify (\<lambda>_. Stored c))"

definition validate_resource_id :: "string \<Rightarrow> msg + unit" where
  "validate_resource_id i =
     bindR (ensure (i \<noteq> [] \<and> length i \<le> max_resource_id_len) (Txt ''invalid resource id length (max 256)'')) (\<lambda>_.
     ensure (\<not> (contains i ''/'' \<or> contains i [CHR 0x5C] \<or> contains i ''..'' \<or> contains i [CHR 0x00]))
       (Fmt ''invalid resource id: {:?}'' [Txt i]))"

definition validate_note :: "string option \<Rightarrow> msg + unit" where
  "validate_note note = (case note of None \<Rightarrow> Inr ()
     | Some n \<Rightarrow> bindR (ensure (length n \<le> max_note_len) (Txt ''note exceeds 512 bytes'')) (\<lambda>_.
         ensure (\<not> list_ex (\<lambda>c. c = CHR 0x00 \<or> c = CHR 0x0D \<or> c = CHR 0x0A) n)
           (Txt ''note contains control characters'')))"

definition of_resource :: "resource_kind \<Rightarrow> string \<Rightarrow> collab_record \<Rightarrow> bool" where
  "of_resource k i r \<longleftrightarrow> cr_kind r = k \<and> cr_resource r = i"

definition collab_locked :: "store_env \<Rightarrow> (collab_file \<Rightarrow> 'a collab_op) \<Rightarrow> 'a collab_op" where
  "collab_locked e body = (if \<not> lock_ok e then fail store_unavailable
     else bindE (\<lambda>f. (collab_load f, f)) body)"

definition collab_assign ::
    "store_env \<Rightarrow> string \<Rightarrow> resource_kind \<Rightarrow> string \<Rightarrow> string \<Rightarrow> string option \<Rightarrow> string option \<Rightarrow> 64 word option
       \<Rightarrow> collab_record collab_op" where
  "collab_assign e now k i owner session note expected =
     bindE (lift (validate_resource_id i)) (\<lambda>_.
     bindE (lift (validate_note note)) (\<lambda>_.
     collab_locked e (\<lambda>c.
       let put = (\<lambda>rev. let r = \<lparr>cr_kind = k, cr_resource = i, cr_owner = owner, cr_session = session,
             cr_state = OAssigned, cr_pending = None, cr_revision = rev, cr_note = note, cr_created_at = now,
             cr_updated_at = now\<rparr>
           in bindE (collab_save e (c\<lparr>cl_records := filter (\<lambda>x. \<not> of_resource k i x) (cl_records c) @ [r]\<rparr>))
             (\<lambda>_. ret (Inr r)))
       in case find (of_resource k i) (cl_records c) of
            Some old \<Rightarrow>
              if is_held (cr_state old) then ret (Inl AlreadyOwned)
              else if expected = Some (cr_revision old) then put (cr_revision old + 1)
              else ret (Inl StaleRevision)
          | None \<Rightarrow>
              if max_collab_records \<le> length (cl_records c) then
                fail (Txt ''collaboration store is full (max 10000 records)'')
              else put 1)))"

text \<open>
  \<open>mutate\<close>: ownership, then the revision, then the change itself; a change that keeps the revision
  is a replay and is not written. The record handed back is the one before the new update time is
  set.
\<close>

definition collab_mutate ::
    "store_env \<Rightarrow> string \<Rightarrow> resource_kind \<Rightarrow> string \<Rightarrow> string option \<Rightarrow> 64 word
       \<Rightarrow> (collab_record \<Rightarrow> collab_error + collab_record) \<Rightarrow> collab_record collab_op" where
  "collab_mutate e now k i acting expected change =
     bindE (lift (validate_resource_id i)) (\<lambda>_.
     collab_locked e (\<lambda>c. case find (of_resource k i) (cl_records c) of
         None \<Rightarrow> ret (Inl NotOwned)
       | Some r \<Rightarrow>
           if (case acting of None \<Rightarrow> False | Some a \<Rightarrow> cr_owner r \<noteq> a) then ret (Inl NotOwner)
           else if cr_revision r \<noteq> expected then ret (Inl StaleRevision)
           else (case change r of
               Inl err \<Rightarrow> ret (Inl err)
             | Inr r' \<Rightarrow>
                 if cr_revision r' = expected then ret (Inr r')
                 else bindE (collab_save e (c\<lparr>cl_records :=
                       replace_first (of_resource k i) (r'\<lparr>cr_updated_at := now\<rparr>) (cl_records c)\<rparr>))
                     (\<lambda>_. ret (Inr r')))))"

definition move_state :: "ownership_state \<Rightarrow> collab_record \<Rightarrow> collab_error + collab_record" where
  "move_state s r = (if \<not> is_valid_ownership_transition (cr_state r) s then Inl InvalidState
     else Inr (r\<lparr>cr_state := s, cr_revision := cr_revision r + 1\<rparr>))"

definition collab_activate :: "store_env \<Rightarrow> string \<Rightarrow> resource_kind \<Rightarrow> string \<Rightarrow> string \<Rightarrow> 64 word \<Rightarrow> collab_record collab_op" where
  "collab_activate e now k i acting expected = collab_mutate e now k i (Some acting) expected (move_state OActive)"

definition requested :: "string \<Rightarrow> string option \<Rightarrow> collab_record \<Rightarrow> collab_error + collab_record" where
  "requested to_agent note r =
     (if cr_state r = OHandoffRequested \<and> cr_pending r = Some to_agent then Inr r
      else bindR (move_state OHandoffRequested r) (\<lambda>r1.
        Inr (r1\<lparr>cr_pending := Some to_agent, cr_note := (case note of None \<Rightarrow> cr_note r1 | Some n \<Rightarrow> Some n)\<rparr>)))"

definition collab_request_handoff ::
    "store_env \<Rightarrow> string \<Rightarrow> resource_kind \<Rightarrow> string \<Rightarrow> string \<Rightarrow> string \<Rightarrow> string option \<Rightarrow> 64 word \<Rightarrow> collab_record collab_op" where
  "collab_request_handoff e now k i from_agent to_agent note expected =
     bindE (lift (validate_note note)) (\<lambda>_.
     collab_mutate e now k i (Some from_agent) expected (requested to_agent note))"

definition accepted :: "string \<Rightarrow> collab_record \<Rightarrow> collab_error + collab_record" where
  "accepted agent r =
     (if cr_state r \<noteq> OHandoffRequested then Inl InvalidState
      else if cr_pending r \<noteq> Some agent then Inl NoPendingHandoff
      else Inr (r\<lparr>cr_state := OHandedOff, cr_owner := agent, cr_session := None, cr_pending := None,
        cr_revision := cr_revision r + 1\<rparr>))"

definition collab_accept_handoff :: "store_env \<Rightarrow> string \<Rightarrow> resource_kind \<Rightarrow> string \<Rightarrow> string \<Rightarrow> 64 word \<Rightarrow> collab_record collab_op" where
  "collab_accept_handoff e now k i accepting expected = collab_mutate e now k i None expected (accepted accepting)"

definition collab_release :: "store_env \<Rightarrow> string \<Rightarrow> resource_kind \<Rightarrow> string \<Rightarrow> string \<Rightarrow> 64 word \<Rightarrow> collab_record collab_op" where
  "collab_release e now k i acting expected = collab_mutate e now k i (Some acting) expected
     (\<lambda>r. bindR (move_state OReleased r) (\<lambda>r1. Inr (r1\<lparr>cr_pending := None\<rparr>)))"

definition collab_get :: "resource_kind \<Rightarrow> string \<Rightarrow> collab_store \<Rightarrow> msg + collab_record option" where
  "collab_get k i f = bindR (validate_resource_id i) (\<lambda>_.
     bindR (collab_load f) (\<lambda>c. Inr (find (of_resource k i) (cl_records c))))"

text \<open>Newest first; records of equal time keep their order.\<close>

definition collab_list :: "resource_kind option \<Rightarrow> collab_store \<Rightarrow> msg + collab_record list" where
  "collab_list kind f = bindR (collab_load f) (\<lambda>c.
     Inr (rev (sort_key cr_updated_at (rev (filter (\<lambda>r. case kind of None \<Rightarrow> True | Some k \<Rightarrow> cr_kind r = k) (cl_records c))))))"

section \<open>Commands\<close>

datatype collab_cmd =
  Assign string "string option" "string option" "64 word option"
| Activate string "64 word"
| Request string string "string option" "64 word"
| Accept string "64 word"
| Release string "64 word"

fun collab_do :: "store_env \<Rightarrow> string \<Rightarrow> resource_kind \<Rightarrow> string \<Rightarrow> collab_cmd \<Rightarrow> collab_record collab_op" where
  "collab_do e now k i (Assign owner session note expected) = collab_assign e now k i owner session note expected"
| "collab_do e now k i (Activate a expected) = collab_activate e now k i a expected"
| "collab_do e now k i (Request a b note expected) = collab_request_handoff e now k i a b note expected"
| "collab_do e now k i (Accept a expected) = collab_accept_handoff e now k i a expected"
| "collab_do e now k i (Release a expected) = collab_release e now k i a expected"

section \<open>The abstract ownership machine\<close>

text \<open>
  Owner, state, target of a pending handoff, revision. A step is labelled with the agent entitled
  to it: the agent a free resource is given to, the owner, or the target of the owner's handoff.
\<close>

type_synonym ownership = "string \<times> ownership_state \<times> string option \<times> 64 word"

inductive own_step :: "string \<Rightarrow> ownership option \<Rightarrow> ownership option \<Rightarrow> bool" where
  Take: "own_step a None (Some (a, OAssigned, None, 1))"
| Retake: "own_step a (Some (b, OReleased, p, v)) (Some (a, OAssigned, None, v + 1))"
| Work: "s \<in> {OAssigned, OHandedOff} \<Longrightarrow> own_step a (Some (a, s, p, v)) (Some (a, OActive, p, v + 1))"
| Offer: "s \<in> {OAssigned, OActive} \<Longrightarrow> own_step a (Some (a, s, p, v)) (Some (a, OHandoffRequested, Some b, v + 1))"
| Receive: "own_step a (Some (b, OHandoffRequested, Some a, v)) (Some (a, OHandedOff, None, v + 1))"
| Free: "s \<noteq> OReleased \<Longrightarrow> own_step a (Some (a, s, p, v)) (Some (a, OReleased, None, v + 1))"

inductive_cases own_step_from: "own_step a (Some x) y"

definition abs_record :: "collab_record \<Rightarrow> ownership" where
  "abs_record r = (cr_owner r, cr_state r, cr_pending r, cr_revision r)"

definition owns :: "collab_store \<Rightarrow> resource_kind \<Rightarrow> string \<Rightarrow> ownership option" where
  "owns f k i = (case collab_load f of Inl _ \<Rightarrow> None
     | Inr c \<Rightarrow> map_option abs_record (find (of_resource k i) (cl_records c)))"

definition revision :: "ownership \<Rightarrow> 64 word" where
  "revision x = snd (snd (snd x))"

fun actor :: "collab_cmd \<Rightarrow> string" where
  "actor (Assign a _ _ _) = a"
| "actor (Activate a _) = a"
| "actor (Request a _ _ _) = a"
| "actor (Accept a _) = a"
| "actor (Release a _) = a"

fun expects :: "collab_cmd \<Rightarrow> 64 word option" where
  "expects (Assign _ _ _ v) = v"
| "expects (Activate _ v) = Some v"
| "expects (Request _ _ _ v) = Some v"
| "expects (Accept _ v) = Some v"
| "expects (Release _ v) = Some v"

section \<open>The store implements the machine\<close>

lemma word_succ_neq [simp]: "v + 1 \<noteq> (v :: 64 word)" "v \<noteq> v + 1"
proof -
  have "(1 :: 64 word) \<noteq> 0" by simp
  then show "v + 1 \<noteq> v" by (metis add_cancel_right_right)
  then show "v \<noteq> v + 1" by metis
qed

lemma collab_load_Inr:
  "collab_load f = Inr c \<Longrightarrow> cl_version c = collab_schema_version \<and> length (cl_records c) \<le> max_collab_records"
  by (auto simp: collab_load_def split: stored.splits if_splits)

lemma collab_load_Stored:
  "collab_load (Stored c) = Inr c' \<longleftrightarrow> c' = c \<and> cl_version c = collab_schema_version \<and> length (cl_records c) \<le> max_collab_records"
  by (auto simp: collab_load_def)

lemma find_replace_first_same:
  "p y \<Longrightarrow> find p xs = Some x \<Longrightarrow> find p (replace_first p y xs) = Some y"
  by (induction xs) (auto split: if_splits)

lemma find_replace_first_other:
  "(\<And>x. p x \<Longrightarrow> \<not> q x) \<Longrightarrow> \<not> q y \<Longrightarrow> find q (replace_first p y xs) = find q xs"
  by (induction xs) auto

lemma find_filter_same: "find p (filter (\<lambda>x. \<not> p x) xs) = None"
  by (simp add: find_None_iff)

lemma find_filter_other: "(\<And>x. p x \<Longrightarrow> \<not> q x) \<Longrightarrow> find q (filter (\<lambda>x. \<not> p x) xs) = find q xs"
  by (induction xs) auto

lemma of_resource_apart: "(k, i) \<noteq> (k', i') \<Longrightarrow> of_resource k i r \<Longrightarrow> \<not> of_resource k' i' r"
  by (auto simp: of_resource_def)

text \<open>What a command may do: nothing, or one write that changes its resource alone.\<close>

definition changed :: "collab_store \<Rightarrow> collab_store \<Rightarrow> resource_kind \<Rightarrow> string \<Rightarrow> collab_record \<Rightarrow> bool" where
  "changed f f' k i new \<longleftrightarrow> owns f' k i = Some (abs_record new)
     \<and> (\<forall>k' i'. (k', i') \<noteq> (k, i) \<longrightarrow> owns f' k' i' = owns f k' i')"

lemma replaced_changed:
  assumes l: "collab_load f = Inr c" and old: "find (of_resource k i) (cl_records c) = Some old"
    and new: "of_resource k i new"
  shows "changed f (Stored (c\<lparr>cl_records := replace_first (of_resource k i) new (cl_records c)\<rparr>)) k i new"
proof -
  let ?c = "c\<lparr>cl_records := replace_first (of_resource k i) new (cl_records c)\<rparr>"
  have l': "collab_load (Stored ?c) = Inr ?c" using collab_load_Inr [OF l] by (simp add: collab_load_Stored)
  have "find (of_resource k' i') (cl_records ?c) = find (of_resource k' i') (cl_records c)" if "(k', i') \<noteq> (k, i)" for k' i'
    using that new by (auto intro!: find_replace_first_other simp: of_resource_def)
  with l l' find_replace_first_same [OF new old] show ?thesis by (simp add: changed_def owns_def)
qed

lemma appended_changed:
  assumes l: "collab_load f = Inr c" and new: "of_resource k i new"
    and room: "find (of_resource k i) (cl_records c) = None \<longrightarrow> length (cl_records c) < max_collab_records"
  shows "changed f (Stored (c\<lparr>cl_records := filter (\<lambda>x. \<not> of_resource k i x) (cl_records c) @ [new]\<rparr>)) k i new"
proof -
  let ?rs = "filter (\<lambda>x. \<not> of_resource k i x) (cl_records c)"
  let ?c = "c\<lparr>cl_records := ?rs @ [new]\<rparr>"
  have "length ?rs < max_collab_records"
  proof (cases "find (of_resource k i) (cl_records c)")
    case None
    with room have "length (cl_records c) < max_collab_records" by simp
    then show ?thesis using length_filter_le le_less_trans by blast
  next
    case (Some old)
    then have "old \<in> set (cl_records c)" "\<not> \<not> of_resource k i old" by (auto simp: find_Some_iff)
    then have "length ?rs < length (cl_records c)" by (rule length_filter_less)
    with collab_load_Inr [OF l] show ?thesis by simp
  qed
  then have l': "collab_load (Stored ?c) = Inr ?c" using collab_load_Inr [OF l] by (simp add: collab_load_Stored)
  have "find (of_resource k' i') (?rs @ [new]) = find (of_resource k' i') (cl_records c)" if "(k', i') \<noteq> (k, i)" for k' i'
  proof -
    have "find (of_resource k' i') ?rs = find (of_resource k' i') (cl_records c)"
      using that by (intro find_filter_other) (auto simp: of_resource_def)
    moreover have "\<not> of_resource k' i' new" using that new by (auto simp: of_resource_def)
    ultimately show ?thesis by (simp add: find_append split: option.split)
  qed
  with l l' new show ?thesis
    by (simp add: changed_def owns_def find_append find_filter_same)
qed

definition simulates :: "collab_store \<Rightarrow> collab_store \<Rightarrow> resource_kind \<Rightarrow> string \<Rightarrow> string \<Rightarrow> 64 word option
    \<Rightarrow> (msg + collab_error + collab_record) \<Rightarrow> bool" where
  "simulates f f' k i a v r \<longleftrightarrow> f' = f \<or> (\<exists>new stored. r = Inr (Inr new) \<and> abs_record stored = abs_record new
     \<and> changed f f' k i stored \<and> own_step a (owns f k i) (owns f' k i)
     \<and> (owns f k i = None \<or> (\<exists>x. owns f k i = Some x \<and> v = Some (revision x))))"

lemma abs_record_time [simp]: "abs_record (r\<lparr>cr_updated_at := t\<rparr>) = abs_record r"
  by (simp add: abs_record_def)

lemma mutate_simulates:
  assumes run: "collab_mutate e now k i acting v change f = (r, f')"
    and step: "\<And>old new. change old = Inr new \<Longrightarrow> cr_kind new = cr_kind old \<and> cr_resource new = cr_resource old
      \<and> (cr_revision new \<noteq> cr_revision old \<longrightarrow> (\<forall>b. acting = Some b \<longrightarrow> cr_owner old = b)
          \<longrightarrow> own_step a (Some (abs_record old)) (Some (abs_record new)))"
  shows "simulates f f' k i a (Some v) r"
proof (cases "f' = f")
  case False
  with run obtain c old new where l: "collab_load f = Inr c" and old: "find (of_resource k i) (cl_records c) = Some old"
    and own: "\<forall>b. acting = Some b \<longrightarrow> cr_owner old = b" and rev: "cr_revision old = v"
    and new: "change old = Inr new" "cr_revision new \<noteq> v" and r: "r = Inr (Inr new)"
    and f': "f' = Stored (c\<lparr>cl_records := replace_first (of_resource k i) (new\<lparr>cr_updated_at := now\<rparr>) (cl_records c)\<rparr>)"
    by (auto simp: collab_mutate_def collab_locked_def collab_save_def bindE_run split: if_splits sum.splits option.splits)
  have "of_resource k i old" using old by (auto simp: find_Some_iff)
  with step [OF new(1)] have res: "of_resource k i (new\<lparr>cr_updated_at := now\<rparr>)" by (simp add: of_resource_def)
  have ch: "changed f f' k i (new\<lparr>cr_updated_at := now\<rparr>)" unfolding f' by (rule replaced_changed [OF l old res])
  have before: "owns f k i = Some (abs_record old)" using l old by (simp add: owns_def)
  moreover have "owns f' k i = Some (abs_record new)" using ch by (simp add: changed_def)
  moreover have "own_step a (Some (abs_record old)) (Some (abs_record new))" using step [OF new(1)] own rev new(2) by blast
  ultimately show ?thesis using r ch rev
    unfolding simulates_def by (metis abs_record_time revision_def abs_record_def snd_conv)
qed (simp add: simulates_def)

lemma move_state_Inr: "move_state s r = Inr r' \<longleftrightarrow>
    is_valid_ownership_transition (cr_state r) s \<and> r' = r\<lparr>cr_state := s, cr_revision := cr_revision r + 1\<rparr>"
  by (auto simp: move_state_def)

lemma valid_transitions:
  "is_valid_ownership_transition s OActive \<longleftrightarrow> s \<in> {OAssigned, OHandedOff}"
  "is_valid_ownership_transition s OHandoffRequested \<longleftrightarrow> s \<in> {OAssigned, OActive}"
  "is_valid_ownership_transition s OReleased \<longleftrightarrow> s \<noteq> OReleased"
  by (cases s; simp)+

lemma assign_simulates:
  assumes "collab_assign e now k i a session note v f = (r, f')"
  shows "simulates f f' k i a v r"
proof (cases "f' = f")
  case False
  with assms obtain c rev new where l: "collab_load f = Inr c" and r: "r = Inr (Inr new)"
    and f': "f' = Stored (c\<lparr>cl_records := filter (\<lambda>x. \<not> of_resource k i x) (cl_records c) @ [new]\<rparr>)"
    and new: "of_resource k i new" "abs_record new = (a, OAssigned, None, rev)"
    and how: "(find (of_resource k i) (cl_records c) = None \<and> rev = 1 \<and> length (cl_records c) < max_collab_records)
      \<or> (\<exists>old. find (of_resource k i) (cl_records c) = Some old \<and> cr_state old = OReleased
        \<and> v = Some (cr_revision old) \<and> rev = cr_revision old + 1)"
    by (auto simp: collab_assign_def collab_locked_def collab_save_def bindE_run Let_def is_held_def not_le
        of_resource_def abs_record_def split: if_splits sum.splits option.splits)
  have ch: "changed f f' k i new" unfolding f' using how by (intro appended_changed [OF l new(1)]) auto
  then have after: "owns f' k i = Some (a, OAssigned, None, rev)" using new(2) by (simp add: changed_def)
  from how show ?thesis
  proof
    assume none: "find (of_resource k i) (cl_records c) = None \<and> rev = 1 \<and> length (cl_records c) < max_collab_records"
    with l have "owns f k i = None" by (simp add: owns_def)
    with none after ch r Take show ?thesis by (auto simp: simulates_def)
  next
    assume "\<exists>old. find (of_resource k i) (cl_records c) = Some old \<and> cr_state old = OReleased
        \<and> v = Some (cr_revision old) \<and> rev = cr_revision old + 1"
    then obtain old where old: "find (of_resource k i) (cl_records c) = Some old" "cr_state old = OReleased"
      "v = Some (cr_revision old)" "rev = cr_revision old + 1" by blast
    with l have "owns f k i = Some (cr_owner old, OReleased, cr_pending old, cr_revision old)"
      by (simp add: owns_def abs_record_def)
    with old after ch r Retake show ?thesis by (auto simp: simulates_def revision_def)
  qed
qed (simp add: simulates_def)

lemma request_simulates:
  assumes "collab_request_handoff e now k i a b note v f = (r, f')"
  shows "simulates f f' k i a (Some v) r"
proof (cases "validate_note note")
  case (Inl m)
  with assms show ?thesis by (simp add: collab_request_handoff_def bindE_run simulates_def)
next
  case (Inr u)
  with assms have "collab_mutate e now k i (Some a) v (requested b note) f = (r, f')"
    by (simp add: collab_request_handoff_def bindE_run)
  then show ?thesis
    by (rule mutate_simulates)
      (auto simp: requested_def bindR_Inr_iff move_state_Inr valid_transitions abs_record_def
        intro!: Offer split: if_splits option.splits)
qed

lemma do_simulates:
  "collab_do e now k i c f = (r, f') \<Longrightarrow> simulates f f' k i (actor c) (expects c) r"
proof (cases c)
  case (Activate a v)
  assume "collab_do e now k i c f = (r, f')"
  with Activate have "collab_mutate e now k i (Some a) v (move_state OActive) f = (r, f')"
    by (simp add: collab_activate_def)
  then have "simulates f f' k i a (Some v) r"
    by (rule mutate_simulates) (auto simp: move_state_Inr valid_transitions abs_record_def intro: Work)
  with Activate show ?thesis by simp
next
  case (Accept a v)
  assume "collab_do e now k i c f = (r, f')"
  with Accept have "collab_mutate e now k i None v (accepted a) f = (r, f')"
    by (simp add: collab_accept_handoff_def)
  then have "simulates f f' k i a (Some v) r"
    by (rule mutate_simulates) (auto simp: accepted_def abs_record_def intro: Receive split: if_splits)
  with Accept show ?thesis by simp
next
  case (Release a v)
  assume "collab_do e now k i c f = (r, f')"
  with Release have "collab_mutate e now k i (Some a) v
      (\<lambda>r. bindR (move_state OReleased r) (\<lambda>r1. Inr (r1\<lparr>cr_pending := None\<rparr>))) f = (r, f')"
    by (simp add: collab_release_def)
  then have "simulates f f' k i a (Some v) r"
    by (rule mutate_simulates) (auto simp: bindR_Inr_iff move_state_Inr valid_transitions abs_record_def intro: Free)
  with Release show ?thesis by simp
qed (auto intro: assign_simulates request_simulates)

text \<open>
  C22. The file store implements the ownership machine. Whatever a command returns, it leaves every
  other resource as it was, and its own resource either as it was or one step of the machine
  further, made by the agent the machine entitles to it (the owner, the target of the owner's
  handoff, or the agent a free resource is given to) from exactly the revision the caller
  presented. A call that reports an error of any kind changed nothing, and a call that changed the
  resource returns the record it stored.
\<close>

theorem collab_store_refines:
  "case collab_do e now k i c f of (r, f') \<Rightarrow>
     (\<forall>k' i'. (k', i') = (k, i) \<or> owns f' k' i' = owns f k' i')
     \<and> (owns f' k i = owns f k i \<or> own_step (actor c) (owns f k i) (owns f' k i)
         \<and> (owns f k i = None \<or> expects c = map_option revision (owns f k i)))
     \<and> (case r of Inr (Inr new) \<Rightarrow> f' = f \<or> owns f' k i = Some (abs_record new) | _ \<Rightarrow> f' = f)"
proof -
  obtain r f' where run: "collab_do e now k i c f = (r, f')" by fastforce
  from do_simulates [OF run] show ?thesis
    unfolding simulates_def run by (auto simp: changed_def split: sum.split)
qed

section \<open>Compare and swap\<close>

type_synonym collab_call = "store_env \<times> string \<times> resource_kind \<times> string \<times> collab_cmd"

fun call_do :: "collab_call \<Rightarrow> collab_store \<Rightarrow> collab_store" where
  "call_do (e, now, k, i, c) f = snd (collab_do e now k i c f)"

lemma own_step_revision: "own_step a (Some x) y \<Longrightarrow> \<exists>z. y = Some z \<and> revision z = revision x + 1"
  by (cases x) (auto simp: revision_def elim!: own_step_from)

lemma call_keeps:
  "owns (call_do q f) k i = owns f k i \<or> (\<exists>e now c. q = (e, now, k, i, c) \<and> own_step (actor c) (owns f k i) (owns (call_do q f) k i)
     \<and> (owns f k i = None \<or> expects c = map_option revision (owns f k i)))"
proof (cases q)
  case (fields e now k1 i1 c)
  obtain r f' where run: "collab_do e now k1 i1 c f = (r, f')" by fastforce
  with do_simulates [OF run] fields show ?thesis
    by (cases "(k, i) = (k1, i1)") (auto simp: simulates_def changed_def)
qed

lemma call_revision:
  "owns f k i = Some x \<Longrightarrow> \<exists>y. owns (call_do q f) k i = Some y \<and> (revision y = revision x \<or> revision y = revision x + 1)"
  using call_keeps [of q f k i] own_step_revision by (metis option.inject)

lemma run_revision:
  "owns f k i = Some x \<Longrightarrow> \<exists>n y. n \<le> length qs \<and> owns (fold call_do qs f) k i = Some y \<and> revision y = revision x + of_nat n"
proof (induction qs arbitrary: f x)
  case (Cons q qs)
  from call_revision [OF Cons.prems] obtain z where z: "owns (call_do q f) k i = Some z"
    and r: "revision z = revision x \<or> revision z = revision x + 1" by blast
  from Cons.IH [OF z] obtain n y where y: "n \<le> length qs" "owns (fold call_do qs (call_do q f)) k i = Some y"
    "revision y = revision z + of_nat n" by blast
  from r show ?case
  proof
    assume "revision z = revision x"
    with y show ?thesis by (intro exI [of _ n] exI [of _ y]) simp
  next
    assume "revision z = revision x + 1"
    with y show ?thesis by (intro exI [of _ "Suc n"] exI [of _ y]) (simp add: algebra_simps)
  qed
qed auto

text \<open>
  Of two callers that present the same revision of a resource, at most one changes it: once
  the first has, the second finds it stale, however many other calls (fewer than the 64-bit
  revision can count) come in between and whichever operations the two call.
\<close>

theorem same_revision_wins_once:
  assumes first: "owns (call_do (e1, now1, k, i, c1) f) k i \<noteq> owns f k i" and known: "owns f k i \<noteq> None"
    and rev: "expects c2 = expects c1"
    and few: "length between < 2 ^ 64 - 1"
    and g: "g = fold call_do between (call_do (e1, now1, k, i, c1) f)"
  shows "owns (call_do (e2, now2, k, i, c2) g) k i = owns g k i"
proof -
  let ?f1 = "call_do (e1, now1, k, i, c1) f"
  obtain x where x: "owns f k i = Some x" using known by blast
  from call_keeps [of "(e1, now1, k, i, c1)" f k i] first known x
  have step: "own_step (actor c1) (Some x) (owns ?f1 k i)" and v: "expects c1 = Some (revision x)" by auto
  from own_step_revision [OF step] obtain z where z: "owns ?f1 k i = Some z" "revision z = revision x + 1" by blast
  from run_revision [OF z(1), of between] g obtain n y
    where y: "n \<le> length between" "owns g k i = Some y" "revision y = revision z + of_nat n" by blast
  have "revision y \<noteq> revision x"
  proof
    assume "revision y = revision x"
    with y z have "(of_nat (Suc n) :: 64 word) = 0" by (simp add: algebra_simps)
    then have "2 ^ 64 dvd Suc n" by (simp del: of_nat_Suc add: word_of_nat_eq_0_iff)
    then have "2 ^ 64 \<le> Suc n" by (rule dvd_imp_le) simp
    with y(1) few show False by simp
  qed
  with call_keeps [of "(e2, now2, k, i, c2)" g k i] y(2) v rev show ?thesis by auto
qed

definition owned_store :: collab_store where
  "owned_store = Stored \<lparr>cl_version = 1, cl_records = [\<lparr>cr_kind = KindTask, cr_resource = ''t1'', cr_owner = ''alice'',
     cr_session = None, cr_state = OActive, cr_pending = None, cr_revision = 4, cr_note = None, cr_created_at = ''t'',
     cr_updated_at = ''t''\<rparr>]\<rparr>"

theorem same_revision_wins_once_witness:
  "let g = call_do (good_env, ''n'', KindTask, ''t1'', Request ''alice'' ''bob'' None 4) owned_store
   in owns (call_do (good_env, ''n'', KindTask, ''t1'', Release ''alice'' 4) g) KindTask ''t1'' = owns g KindTask ''t1''"
proof -
  let ?first = "(good_env, ''n'', KindTask, ''t1'', Request ''alice'' ''bob'' None 4)"
  have v: "validate_resource_id ''t1'' = Inr ()" by code_simp
  have known: "owns owned_store KindTask ''t1'' = Some (''alice'', OActive, None, 4)"
    by (simp add: owns_def owned_store_def collab_load_def collab_schema_version_def max_collab_records_def
        of_resource_def abs_record_def)
  have after: "owns (call_do ?first owned_store) KindTask ''t1'' = Some (''alice'', OHandoffRequested, Some ''bob'', 5)"
    using v by (simp add: collab_request_handoff_def validate_note_def collab_mutate_def collab_locked_def bindE_run
        owned_store_def collab_load_def collab_schema_version_def max_collab_records_def of_resource_def requested_def
        move_state_def collab_save_def owns_def abs_record_def)
  show ?thesis unfolding Let_def
    by (rule same_revision_wins_once [where between = "[]" and ?c1.0 = "Request ''alice'' ''bob'' None 4"])
      (use known after in simp_all)
qed

text \<open>
  A completed handoff does not free the resource: an assignment is refused, with or without the
  revision of the record, until the new owner releases it.
\<close>

lemma handed_off_not_assignable:
  assumes "collab_load f = Inr c" and "find (of_resource k i) (cl_records c) = Some r" and "cr_state r = OHandedOff"
    and "lock_ok e" and "validate_resource_id i = Inr ()" and "validate_note note = Inr ()"
  shows "collab_assign e now k i a session note v f = (Inr (Inl AlreadyOwned), f)"
  using assms by (simp add: collab_assign_def collab_locked_def bindE_run is_held_def)

end
