(* ===== verification/CollabService.thy ===== *)
theory CollabService
  imports Collaboration
begin

text \<open>
  The collaboration service (\<open>services/collaboration.rs\<close>): the checks of agents, sessions and
  resources before the ownership store is called, the audit event of every refusal and every
  transition, and the scan for conflicts.
\<close>

section \<open>State\<close>

text \<open>Worktrees are pairs of identifier and removal mark, or an unreadable store.\<close>

record collab_world =
  cw_runtime :: runtime
  cw_tasks :: task_file
  cw_worktrees :: "msg + (string \<times> bool) list"
  cw_store :: collab_store
  cw_log :: "audit_event list"

type_synonym 'a service_op = "(collab_world, msg, 'a) io"

definition cw_record :: "string \<Rightarrow> string \<Rightarrow> string \<Rightarrow> msg \<Rightarrow> audit_correlation \<Rightarrow> collab_world \<Rightarrow> collab_world" where
  "cw_record kind action subject detail c w = w\<lparr>cw_log := record_outcome kind action subject detail c (cw_log w)\<rparr>"

definition collab_audit_kind :: string where "collab_audit_kind = ''collab''"

definition service_correlation :: "collab_world \<Rightarrow> string option \<Rightarrow> string option \<Rightarrow> string \<Rightarrow> audit_correlation" where
  "service_correlation w agent session reason = no_correlation\<lparr>
     ac_workspace_id := (case workspace_id (cw_runtime w) of Inr ws \<Rightarrow> ws | Inl _ \<Rightarrow> None),
     ac_agent_id := agent, ac_session_id := session, ac_reason := Some reason\<rparr>"

section \<open>Checks\<close>

definition validate_owner :: "string \<Rightarrow> string option \<Rightarrow> collab_world \<Rightarrow> msg + unit" where
  "validate_owner agent session w = bindR (lookup_profile (cw_runtime w) agent) (\<lambda>found. case found of
       None \<Rightarrow> Inl (Fmt ''agent not found: {}'' [Txt agent])
     | Some g \<Rightarrow>
         if \<not> ag_enabled g then Inl (Fmt ''agent {} is disabled'' [Txt agent])
         else (case session of
             None \<Rightarrow> Inr ()
           | Some s \<Rightarrow> (case resolve_session agent s (cw_runtime w) of
               Inl _ \<Rightarrow> Inl (Fmt ''cannot bind session {} to agent {}'' [Txt s, Txt agent])
             | Inr _ \<Rightarrow> Inr ())))"

definition live_worktree :: "string \<Rightarrow> (string \<times> bool) list \<Rightarrow> bool" where
  "live_worktree i ws \<longleftrightarrow> list_ex (\<lambda>(j, removed). j = i \<and> \<not> removed) ws"

definition validate_resource :: "resource_kind \<Rightarrow> string \<Rightarrow> collab_world \<Rightarrow> msg + unit" where
  "validate_resource k i w = (case k of
      KindTask \<Rightarrow> bindR (task_get (cw_tasks w) i) (\<lambda>t.
        ensure (t \<noteq> None) (Fmt ''task not found: {}'' [Txt i]))
    | KindWorktree \<Rightarrow> bindR (cw_worktrees w) (\<lambda>ws.
        ensure (live_worktree i ws) (Fmt ''worktree not found: {}'' [Txt i])))"

section \<open>Transitions\<close>

definition subject_of :: "resource_kind \<Rightarrow> string \<Rightarrow> string" where
  "subject_of k i = kind_str k @ '':'' @ i"

definition refuse :: "string \<Rightarrow> string \<Rightarrow> msg \<Rightarrow> 'a service_op" where
  "refuse action subject m w = (Inl m, cw_record ''deny'' action subject m no_correlation w)"

definition checked :: "string \<Rightarrow> string \<Rightarrow> (collab_world \<Rightarrow> msg + unit) \<Rightarrow> 'a service_op \<Rightarrow> 'a service_op" where
  "checked action subject check body w = (case check w of
      Inl m \<Rightarrow> refuse action subject m w
    | Inr _ \<Rightarrow> body w)"

definition transition_detail :: "string \<Rightarrow> collab_record \<Rightarrow> msg" where
  "transition_detail agent r = Fmt ''owner={} revision={} state={}''
     [Txt agent, Num (unat (cr_revision r)), Txt (ownership_str (cr_state r))]"

text \<open>The store call with its audit: a domain failure is a refusal, any other error is not audited.\<close>

definition settle ::
    "string \<Rightarrow> string \<Rightarrow> string \<Rightarrow> resource_kind \<Rightarrow> string \<Rightarrow> string \<Rightarrow> string option \<Rightarrow> string
       \<Rightarrow> collab_record collab_op \<Rightarrow> collab_record service_op" where
  "settle deny_action allow_action reason k i agent session context_msg call w =
     (case call (cw_store w) of
        (Inl _, f) \<Rightarrow> (Inl (Txt context_msg), w\<lparr>cw_store := f\<rparr>)
      | (Inr (Inl err), f) \<Rightarrow> refuse deny_action (subject_of k i) (Txt (collab_message err)) (w\<lparr>cw_store := f\<rparr>)
      | (Inr (Inr r), f) \<Rightarrow> (Inr r, cw_record collab_audit_kind allow_action (subject_of k i) (transition_detail agent r)
          (service_correlation w (Some agent) session reason) (w\<lparr>cw_store := f\<rparr>)))"

definition service_assign ::
    "store_env \<Rightarrow> string \<Rightarrow> resource_kind \<Rightarrow> string \<Rightarrow> string \<Rightarrow> string option \<Rightarrow> string option \<Rightarrow> 64 word option
       \<Rightarrow> collab_record service_op" where
  "service_assign e now k i agent session note expected =
     checked ''collab_assign'' (subject_of k i) (validate_owner agent session)
       (checked ''collab_assign'' (subject_of k i) (validate_resource k i)
         (settle ''collab_assign'' ''assign'' ''assigned'' k i agent session ''failed to assign''
           (collab_assign e now k i agent session note expected)))"

definition owned_transition ::
    "string \<Rightarrow> string \<Rightarrow> resource_kind \<Rightarrow> string \<Rightarrow> string \<Rightarrow> collab_record collab_op \<Rightarrow> collab_record service_op" where
  "owned_transition deny_action allow_action k i agent call =
     checked deny_action (subject_of k i) (validate_owner agent None)
       (settle deny_action allow_action allow_action k i agent None ''collaboration transition failed'' call)"

definition service_activate :: "store_env \<Rightarrow> string \<Rightarrow> resource_kind \<Rightarrow> string \<Rightarrow> string \<Rightarrow> 64 word \<Rightarrow> collab_record service_op" where
  "service_activate e now k i agent expected =
     owned_transition ''collab_activate'' ''activate'' k i agent (collab_activate e now k i agent expected)"

definition service_request_handoff ::
    "store_env \<Rightarrow> string \<Rightarrow> resource_kind \<Rightarrow> string \<Rightarrow> string \<Rightarrow> string \<Rightarrow> string option \<Rightarrow> 64 word \<Rightarrow> collab_record service_op" where
  "service_request_handoff e now k i from_agent to_agent note expected =
     checked ''collab_handoff'' (subject_of k i) (validate_owner to_agent None)
       (owned_transition ''collab_handoff'' ''handoff_request'' k i from_agent
         (collab_request_handoff e now k i from_agent to_agent note expected))"

definition service_accept_handoff :: "store_env \<Rightarrow> string \<Rightarrow> resource_kind \<Rightarrow> string \<Rightarrow> string \<Rightarrow> 64 word \<Rightarrow> collab_record service_op" where
  "service_accept_handoff e now k i accepting expected =
     checked ''collab_accept'' (subject_of k i) (validate_owner accepting None)
       (settle ''collab_accept'' ''handoff_accept'' ''handoff_accepted'' k i accepting None
         ''failed to accept the handoff'' (collab_accept_handoff e now k i accepting expected))"

definition service_release :: "store_env \<Rightarrow> string \<Rightarrow> resource_kind \<Rightarrow> string \<Rightarrow> string \<Rightarrow> 64 word \<Rightarrow> collab_record service_op" where
  "service_release e now k i agent expected =
     owned_transition ''collab_release'' ''release'' k i agent (collab_release e now k i agent expected)"

definition default_list_limit :: nat where "default_list_limit = 50"
definition max_list_limit :: nat where "max_list_limit = 500"

definition service_status :: "resource_kind option \<Rightarrow> nat option \<Rightarrow> collab_world \<Rightarrow> msg + collab_record list" where
  "service_status kind limit w = bindR (collab_list kind (cw_store w)) (\<lambda>rs.
     Inr (take (min (case limit of None \<Rightarrow> default_list_limit | Some n \<Rightarrow> n) max_list_limit) rs))"

section \<open>Conflicts\<close>

record conflict_finding =
  cf_kind :: resource_kind
  cf_resource :: string
  cf_owner :: "string option"
  cf_evidence :: string
  cf_detail :: msg

definition finding :: "collab_record \<Rightarrow> string \<Rightarrow> string \<Rightarrow> msg list \<Rightarrow> conflict_finding" where
  "finding r evidence form parts = \<lparr>cf_kind = cr_kind r, cf_resource = cr_resource r, cf_owner = Some (cr_owner r),
     cf_evidence = evidence, cf_detail = Fmt form parts\<rparr>"

definition owner_findings :: "collab_world \<Rightarrow> collab_record \<Rightarrow> conflict_finding list" where
  "owner_findings w r = (case lookup_profile (cw_runtime w) (cr_owner r) of
      Inr None \<Rightarrow> [finding r ''owner_agent_unknown'' ''owner agent {} does not exist'' [Txt (cr_owner r)]]
    | Inr (Some g) \<Rightarrow>
        if \<not> ag_enabled g then
          [finding r ''owner_agent_disabled'' ''owner agent {} is disabled'' [Txt (cr_owner r)]]
        else if ag_status g \<noteq> Active then
          [finding r ''owner_agent_stopped'' ''owner agent {} is not active while holding ownership'' [Txt (cr_owner r)]]
        else []
    | Inl m \<Rightarrow> [finding r ''owner_check_failed'' ''owner check failed: {}'' [m]])"

definition session_findings :: "collab_world \<Rightarrow> collab_record \<Rightarrow> conflict_finding list" where
  "session_findings w r = (case cr_session r of
      None \<Rightarrow> []
    | Some s \<Rightarrow> (case session_get (rt_sessions (cw_runtime w)) s of
        Inr (Some sess) \<Rightarrow> if is_usable (sr_status sess) then []
          else [finding r ''owner_session_not_usable'' ''bound session {} is {} and cannot serve the owner''
            [Txt s, Txt (status_label (sr_status sess))]]
      | Inr None \<Rightarrow> [finding r ''owner_session_unknown'' ''bound session {} does not exist'' [Txt s]]
      | Inl m \<Rightarrow> [finding r ''owner_check_failed'' ''session check failed: {}'' [m]]))"

definition resource_findings :: "collab_world \<Rightarrow> collab_record \<Rightarrow> conflict_finding list" where
  "resource_findings w r = (case cr_kind r of
      KindTask \<Rightarrow> (case task_get (cw_tasks w) (cr_resource r) of
          Inr None \<Rightarrow> [finding r ''task_missing'' ''task {} no longer exists'' [Txt (cr_resource r)]]
        | Inr (Some t) \<Rightarrow>
            if task_terminal (tk_status t) then
              [finding r ''task_terminal'' ''task {} is {} while still held''
                [Txt (cr_resource r), Txt (task_status_str (tk_status t))]]
            else []
        | Inl m \<Rightarrow> [finding r ''resource_check_failed'' ''task check failed: {}'' [m]])
    | KindWorktree \<Rightarrow>
        if (case cw_worktrees w of Inl _ \<Rightarrow> True | Inr ws \<Rightarrow> \<not> live_worktree (cr_resource r) ws)
        then [finding r ''worktree_missing'' ''worktree {} no longer exists'' [Txt (cr_resource r)]] else [])"

definition conflicts :: "collab_world \<Rightarrow> msg + conflict_finding list" where
  "conflicts w = bindR (collab_list None (cw_store w)) (\<lambda>rs. Inr (concat (map
     (\<lambda>r. owner_findings w r @ session_findings w r @ resource_findings w r) (filter (\<lambda>r. is_held (cr_state r)) rs))))"

section \<open>Commands through the service\<close>

fun service_do :: "store_env \<Rightarrow> string \<Rightarrow> resource_kind \<Rightarrow> string \<Rightarrow> collab_cmd \<Rightarrow> collab_record service_op" where
  "service_do e now k i (Assign a session note v) = service_assign e now k i a session note v"
| "service_do e now k i (Activate a v) = service_activate e now k i a v"
| "service_do e now k i (Request a b note v) = service_request_handoff e now k i a b note v"
| "service_do e now k i (Accept a v) = service_accept_handoff e now k i a v"
| "service_do e now k i (Release a v) = service_release e now k i a v"

text \<open>What must hold of agents, session and resource before the store is called.\<close>

definition live_owner :: "collab_world \<Rightarrow> string \<Rightarrow> string option \<Rightarrow> bool" where
  "live_owner w a session \<longleftrightarrow> (\<exists>g. lookup_profile (cw_runtime w) a = Inr (Some g) \<and> ag_enabled g
     \<and> (case session of None \<Rightarrow> True | Some s \<Rightarrow> \<exists>c. resolve_session a s (cw_runtime w) = Inr c))"

fun admissible :: "collab_world \<Rightarrow> resource_kind \<Rightarrow> string \<Rightarrow> collab_cmd \<Rightarrow> bool" where
  "admissible w k i (Assign a session note v) \<longleftrightarrow> live_owner w a session \<and> validate_resource k i w = Inr ()"
| "admissible w k i (Request a b note v) \<longleftrightarrow> live_owner w b None \<and> live_owner w a None"
| "admissible w k i (Activate a v) \<longleftrightarrow> live_owner w a None"
| "admissible w k i (Accept a v) \<longleftrightarrow> live_owner w a None"
| "admissible w k i (Release a v) \<longleftrightarrow> live_owner w a None"

lemma validate_owner_iff: "validate_owner a session w = Inr u \<longleftrightarrow> live_owner w a session"
  by (cases "lookup_profile (cw_runtime w) a")
    (auto simp: validate_owner_def live_owner_def split: option.splits sum.splits)

text \<open>The action a refusal of a command is audited under.\<close>

fun deny_action :: "collab_cmd \<Rightarrow> string" where
  "deny_action (Assign a session note v) = ''collab_assign''"
| "deny_action (Activate a v) = ''collab_activate''"
| "deny_action (Request a b note v) = ''collab_handoff''"
| "deny_action (Accept a v) = ''collab_accept''"
| "deny_action (Release a v) = ''collab_release''"

definition deny_logged :: "string \<Rightarrow> string \<Rightarrow> collab_world \<Rightarrow> collab_world \<Rightarrow> bool" where
  "deny_logged action subject w w' \<longleftrightarrow> (\<exists>m. w' = cw_record ''deny'' action subject m no_correlation w)"

text \<open>A service call over a store call: admission, then the store, then one audit event.\<close>

definition guarded :: "string \<Rightarrow> string \<Rightarrow> bool \<Rightarrow> collab_record collab_op \<Rightarrow> collab_world \<Rightarrow> (msg + collab_record) \<times> collab_world \<Rightarrow> bool" where
  "guarded action subject ok call w out \<longleftrightarrow> (if \<not> ok then \<exists>m w'. out = (Inl m, w') \<and> deny_logged action subject w w'
     else case call (cw_store w) of
        (Inl _, f) \<Rightarrow> \<exists>m. out = (Inl m, w\<lparr>cw_store := f\<rparr>)
      | (Inr (Inl err), f) \<Rightarrow> \<exists>m w'. out = (Inl m, w') \<and> deny_logged action subject (w\<lparr>cw_store := f\<rparr>) w'
      | (Inr (Inr r), f) \<Rightarrow> \<exists>allowed m c. out = (Inr r, cw_record collab_audit_kind allowed subject m c (w\<lparr>cw_store := f\<rparr>)))"

lemma settle_guarded:
  "guarded d (subject_of k i) True call w (settle d a reason k i agent session m call w)"
  by (cases "call (cw_store w)"; cases "fst (call (cw_store w))")
    (auto simp: settle_def guarded_def deny_logged_def refuse_def split: sum.split)

lemma checked_guarded:
  "(\<exists>u. check w = Inr u) = ok \<Longrightarrow> (ok \<Longrightarrow> guarded action subject ok' call w (body w)) \<Longrightarrow>
     guarded action subject (ok \<and> ok') call w (checked action subject check body w)"
  by (cases "check w") (auto simp: checked_def guarded_def deny_logged_def refuse_def)

lemma service_guarded: "guarded (deny_action c) (subject_of k i) (admissible w k i c) (collab_do e now k i c) w (service_do e now k i c w)"
proof (cases c)
  case (Assign a session nt v)
  have "guarded ''collab_assign'' (subject_of k i) (live_owner w a session \<and> (validate_resource k i w = Inr () \<and> True)) (collab_assign e now k i a session nt v)
      w (service_assign e now k i a session nt v w)"
    unfolding service_assign_def
    by (intro checked_guarded settle_guarded) (auto simp: validate_owner_iff)
  with Assign show ?thesis by simp
next
  case (Request a b nt v)
  have "guarded ''collab_handoff'' (subject_of k i) (live_owner w b None \<and> (live_owner w a None \<and> True)) (collab_request_handoff e now k i a b nt v)
      w (service_request_handoff e now k i a b nt v w)"
    unfolding service_request_handoff_def owned_transition_def
    by (intro checked_guarded settle_guarded) (auto simp: validate_owner_iff)
  with Request show ?thesis by simp
next
  case (Activate a v)
  have "guarded ''collab_activate'' (subject_of k i) (live_owner w a None \<and> True) (collab_activate e now k i a v) w (service_activate e now k i a v w)"
    unfolding service_activate_def owned_transition_def
    by (intro checked_guarded settle_guarded) (auto simp: validate_owner_iff)
  with Activate show ?thesis by simp
next
  case (Accept a v)
  have "guarded ''collab_accept'' (subject_of k i) (live_owner w a None \<and> True) (collab_accept_handoff e now k i a v) w (service_accept_handoff e now k i a v w)"
    unfolding service_accept_handoff_def
    by (intro checked_guarded settle_guarded) (auto simp: validate_owner_iff)
  with Accept show ?thesis by simp
next
  case (Release a v)
  have "guarded ''collab_release'' (subject_of k i) (live_owner w a None \<and> True) (collab_release e now k i a v) w (service_release e now k i a v w)"
    unfolding service_release_def owned_transition_def
    by (intro checked_guarded settle_guarded) (auto simp: validate_owner_iff)
  with Release show ?thesis by simp
qed

lemma collab_do_unchanged:
  assumes "collab_do e now k i c f = (r, f')" and "\<And>new. r \<noteq> Inr (Inr new)"
  shows "f' = f"
  using do_simulates [OF assms(1)] assms(2) by (auto simp: simulates_def)

lemma cw_record_simps [simp]:
  "cw_store (cw_record kd a s m c w) = cw_store w" "cw_runtime (cw_record kd a s m c w) = cw_runtime w"
  "cw_tasks (cw_record kd a s m c w) = cw_tasks w" "cw_worktrees (cw_record kd a s m c w) = cw_worktrees w"
  "cw_log (cw_record kd a s m c w) = record_outcome kd a s m c (cw_log w)"
  by (simp_all add: cw_record_def)

lemma deny_logged_log:
  "deny_logged action subject w w' \<Longrightarrow> \<exists>m. cw_log w' = record_outcome ''deny'' action subject m no_correlation (cw_log w)"
  unfolding deny_logged_def by (elim exE, hypsubst) (subst cw_record_simps, blast)

lemma deny_logged_state:
  "deny_logged action subject w w' \<Longrightarrow> cw_runtime w' = cw_runtime w \<and> cw_tasks w' = cw_tasks w \<and> cw_worktrees w' = cw_worktrees w
     \<and> cw_store w' = cw_store w"
  unfolding deny_logged_def by auto

text \<open>A refusal that is not audited: the note of an assignment is checked by the store, whose errors are not.\<close>

lemma refused_note_unaudited:
  assumes "live_owner w a session" "validate_resource k i w = Inr ()" "validate_resource_id i = Inr ()" "validate_note note = Inl m"
  shows "\<exists>m'. service_do e now k i (Assign a session note v) w = (Inl m', w)"
proof -
  have "validate_owner a session w = Inr ()" using assms(1) by (simp add: validate_owner_iff)
  with assms show ?thesis by (simp add: service_assign_def checked_def settle_def collab_assign_def bindE_run)
qed

text \<open>
  C23. The collaboration service changes ownership only through its checks. A call succeeds only if
  the acting agent, for an offered handoff also its target, has an enabled profile, a session given
  with an assignment resolves for that agent, and an assigned resource exists; it then returns what
  the ownership store returned for exactly that command, and records one \<open>collab\<close> event on the resource. A
  call that fails leaves the ownership file as it was. Its audit depends on who refused: a call that was not
  admitted, and one the store refused by a rule of ownership, records one deny event under the action of the
  command; a call whose store access itself fails (an inadmissible note or identifier, a full or corrupt
  file, a lock that is not free, a failed write) leaves the audit log as it was. No call touches agents,
  sessions, tasks or worktrees.
\<close>

theorem ownership_service_guarded:
  "case service_do e now k i c w of (out, w') \<Rightarrow>
     cw_runtime w' = cw_runtime w \<and> cw_tasks w' = cw_tasks w \<and> cw_worktrees w' = cw_worktrees w
     \<and> (case out of
          Inr r \<Rightarrow> admissible w k i c \<and> collab_do e now k i c (cw_store w) = (Inr (Inr r), cw_store w')
            \<and> (\<exists>allowed m corr. cw_log w' = record_outcome collab_audit_kind allowed (subject_of k i) m corr (cw_log w))
        | Inl _ \<Rightarrow> cw_store w' = cw_store w
            \<and> (if admissible w k i c \<and> (\<exists>m. fst (collab_do e now k i c (cw_store w)) = Inl m) then cw_log w' = cw_log w
               else \<exists>m. cw_log w' = record_outcome ''deny'' (deny_action c) (subject_of k i) m no_correlation (cw_log w)))"
proof (cases "admissible w k i c")
  case False
  with service_guarded [of c k i w e now] obtain m w' where "service_do e now k i c w = (Inl m, w')" "deny_logged (deny_action c) (subject_of k i) w w'"
    by (auto simp: guarded_def)
  with False show ?thesis using deny_logged_log deny_logged_state by simp
next
  case True
  obtain r f where run: "collab_do e now k i c (cw_store w) = (r, f)" by fastforce
  note g = service_guarded [of c k i w e now, unfolded guarded_def run]
  show ?thesis
  proof (cases "\<exists>new. r = Inr (Inr new)")
    case True
    with g \<open>admissible w k i c\<close> run show ?thesis by fastforce
  next
    case False
    with collab_do_unchanged [OF run] have f: "f = cw_store w" by blast
    from False consider m where "r = Inl m" | err where "r = Inr (Inl err)" by (metis sum.exhaust)
    then show ?thesis
    proof cases
      case 1
      with g True run f show ?thesis by auto
    next
      case 2
      with g True f obtain m w' where "service_do e now k i c w = (Inl m, w')" "deny_logged (deny_action c) (subject_of k i) w w'" by auto
      with 2 run show ?thesis using deny_logged_log deny_logged_state by simp
    qed
  qed
qed

end
