(* ===== verification/ContextItem.thy ===== *)
theory ContextItem
  imports Json
begin

text \<open>
  The unit of the context engine (\<open>context/item.rs\<close>), its token count (\<open>context/tokens.rs\<close>) and
  the token budget (\<open>context/budget.rs\<close>). Token counts are natural numbers: a count is at most the
  number of bytes of its text.
\<close>

section \<open>Items\<close>

datatype context_source =
  SrcSystem | SrcUser | SrcAssistant | SrcTool | SrcSkill | SrcFile | SrcMemory | SrcWorkspace | SrcSearch | SrcSummary | SrcOther

datatype context_state = Active | Offloaded | Archived

definition is_active :: "context_state \<Rightarrow> bool" where "is_active s \<longleftrightarrow> s = Active"

datatype context_scope = ScopeProject | ScopeSession | ScopeGlobal

text \<open>
  An \<open>f32\<close> of an item is a finite number: the dispatcher clamps what a caller gives, and a number
  read from the window file is finite.
\<close>

type_synonym f32 = rat

record context_item =
  ci_id :: string
  ci_source :: context_source
  ci_content :: string
  ci_tokens :: nat
  ci_relevance :: f32
  ci_priority :: f32
  ci_recency :: f32
  ci_state :: context_state
  ci_scope :: context_scope
  ci_metadata :: json

definition new_item :: "string \<Rightarrow> context_source \<Rightarrow> string \<Rightarrow> nat \<Rightarrow> context_item" where
  "new_item i source content tokens = \<lparr>ci_id = i, ci_source = source, ci_content = content, ci_tokens = tokens,
     ci_relevance = 1 / 2, ci_priority = 1 / 2, ci_recency = 1, ci_state = Active,
     ci_scope = ScopeProject, ci_metadata = JNull\<rparr>"

definition ascii_alphanumeric :: "nat \<Rightarrow> bool" where
  "ascii_alphanumeric c \<longleftrightarrow> (48 \<le> c \<and> c \<le> 57) \<or> (65 \<le> c \<and> c \<le> 90) \<or> (97 \<le> c \<and> c \<le> 122)"

definition is_valid_item_id :: "string \<Rightarrow> bool" where
  "is_valid_item_id i \<longleftrightarrow> i \<noteq> [] \<and> length i \<le> 256
     \<and> list_all (\<lambda>(c, _). ascii_alphanumeric c \<or> c \<in> {45, 95, 46}) (chars i) \<and> i \<noteq> ''.'' \<and> i \<noteq> ''..''"

section \<open>Token counts\<close>

definition is_cjk :: "nat \<Rightarrow> bool" where
  "is_cjk c \<longleftrightarrow> (0x4E00 \<le> c \<and> c \<le> 0x9FFF) \<or> (0x3040 \<le> c \<and> c \<le> 0x30FF) \<or> (0xAC00 \<le> c \<and> c \<le> 0xD7AF)"

definition cjk_bytes_per_token :: nat where "cjk_bytes_per_token = 4"

definition cjk_tokens :: "nat \<Rightarrow> nat" where
  "cjk_tokens bytes = (bytes + cjk_bytes_per_token - 1) div cjk_bytes_per_token"

text \<open>The tokens still to count: in a word or not, and the bytes of an open run of CJK text.\<close>

fun count_from :: "bool \<Rightarrow> nat \<Rightarrow> (nat \<times> string) list \<Rightarrow> nat" where
  "count_from in_word cjk [] = cjk_tokens cjk"
| "count_from in_word cjk ((c, bs) # cs) =
     (if is_cjk c then count_from False (cjk + length bs) cs
      else cjk_tokens cjk +
        (if is_whitespace c then count_from False 0 cs
         else if ascii_alphanumeric c then (if in_word then 0 else 1) + count_from True 0 cs
         else 1 + count_from False 0 cs))"

definition count_tokens :: "string \<Rightarrow> nat" where
  "count_tokens t = count_from False 0 (chars t)"

section \<open>The budget\<close>

record context_budget =
  cb_max_input :: nat
  cb_reserved_output :: nat
  cb_safety_margin :: nat

definition default_budget :: context_budget where
  "default_budget = \<lparr>cb_max_input = 128000, cb_reserved_output = 8192, cb_safety_margin = 4096\<rparr>"

definition usable_tokens :: "context_budget \<Rightarrow> nat" where
  "usable_tokens b = cb_max_input b - cb_reserved_output b - cb_safety_margin b"

definition fits :: "context_budget \<Rightarrow> nat \<Rightarrow> bool" where "fits b n \<longleftrightarrow> n \<le> usable_tokens b"
definition remaining :: "context_budget \<Rightarrow> nat \<Rightarrow> nat" where "remaining b n = usable_tokens b - n"

definition overflow :: "context_budget \<Rightarrow> nat \<Rightarrow> nat option" where
  "overflow b n = (if usable_tokens b < n then Some (n - usable_tokens b) else None)"

record budget_status =
  bs_max_input :: nat
  bs_reserved_output :: nat
  bs_safety_margin :: nat
  bs_usable :: nat
  bs_active :: nat
  bs_remaining :: nat
  bs_within :: bool

definition budget_status_of :: "context_budget \<Rightarrow> nat \<Rightarrow> budget_status" where
  "budget_status_of b n = \<lparr>bs_max_input = cb_max_input b, bs_reserved_output = cb_reserved_output b,
     bs_safety_margin = cb_safety_margin b, bs_usable = usable_tokens b, bs_active = n, bs_remaining = remaining b n,
     bs_within = fits b n\<rparr>"

lemma overflow_iff: "overflow b n = None \<longleftrightarrow> fits b n"
  by (simp add: overflow_def fits_def)

text \<open>No count exceeds the bytes of its text.\<close>

lemma cjk_tokens_bound: "cjk_tokens k \<le> k"
  by (cases k) (simp_all add: cjk_tokens_def cjk_bytes_per_token_def)

lemma count_from_bound: "list_all (\<lambda>(_, bs). bs \<noteq> []) cs \<Longrightarrow> count_from w k cs \<le> k + length (concat (map snd cs))"
proof (induction w k cs rule: count_from.induct)
  case (1 w k)
  then show ?case using cjk_tokens_bound by simp
next
  case (2 w k c bs cs)
  then have b: "1 \<le> length bs" by (cases bs) auto
  with 2 cjk_tokens_bound [of k] show ?case by (auto simp: add_mono split: if_splits)
qed

end
