(* ===== verification/ContextSelect.thy ===== *)
theory ContextSelect
  imports ContextItem "HOL-Library.Multiset" "HOL-Library.Product_Lexorder"
begin

text \<open>
  Scores (\<open>context/scoring.rs\<close>), the selection within the budget (\<open>context/selector.rs\<close>) and the
  deterministic policy (\<open>context/policy.rs\<close>). Every operation of a score is rounded to \<open>f32\<close>. The
  Unicode lower-casing of the standard library is a parameter (\<open>lower\<close>).
\<close>

section \<open>Scores\<close>

text \<open>Rounding to \<open>f32\<close>; what is rounded here is far below its range.\<close>

definition f32 :: "rat \<Rightarrow> rat" where
  "f32 x = (case fl32 x of Some r \<Rightarrow> r | None \<Rightarrow> 0)"

record score_weights =
  sw_relevance :: rat
  sw_priority :: rat
  sw_recency :: rat
  sw_alignment :: rat
  sw_cost :: rat

definition default_weights :: score_weights where
  "default_weights = \<lparr>sw_relevance = f32 (35 / 100), sw_priority = f32 (25 / 100), sw_recency = f32 (15 / 100),
     sw_alignment = f32 (15 / 100), sw_cost = f32 (10 / 100)\<rparr>"

definition clamp01 :: "rat \<Rightarrow> rat" where "clamp01 x = max 0 (min 1 x)"

lemma clamp01_range: "0 \<le> clamp01 x \<and> clamp01 x \<le> 1"
  by (simp add: clamp01_def)

definition long_words :: "string \<Rightarrow> string list" where
  "long_words t = remdups (filter (\<lambda>w. 2 < length w) (split_whitespace t))"

definition task_alignment :: "(string \<Rightarrow> string) \<Rightarrow> string \<Rightarrow> string \<Rightarrow> rat" where
  "task_alignment lower content task =
     (let ts = long_words (lower task); cs = long_words (lower content) in
      if ts = [] \<or> cs = [] then 0
      else f32 (f32 (of_nat (length (filter (\<lambda>w. List.member cs w) ts))) / f32 (of_nat (length ts))))"

definition score_item :: "(string \<Rightarrow> string) \<Rightarrow> context_item \<Rightarrow> string \<Rightarrow> nat \<Rightarrow> score_weights \<Rightarrow> rat" where
  "score_item lower item task usable w =
     (let cost = (if usable = 0 then 1 else clamp01 (f32 (f32 (of_nat (ci_tokens item)) / f32 (of_nat usable))));
          a = f32 (sw_relevance w * clamp01 (ci_relevance item));
          b = f32 (sw_priority w * clamp01 (ci_priority item));
          c = f32 (sw_recency w * clamp01 (ci_recency item));
          d = f32 (sw_alignment w * task_alignment lower (ci_content item) task);
          e = f32 (sw_cost w * f32 (1 - cost))
      in clamp01 (f32 (f32 (f32 (f32 (a + b) + c) + d) + e)))"

lemma score_range: "0 \<le> score_item lower item task usable w \<and> score_item lower item task usable w \<le> 1"
  unfolding score_item_def Let_def by (rule clamp01_range)

section \<open>Selection\<close>

record selection_outcome =
  so_kept :: "string list"
  so_rejected :: "string list"
  so_kept_tokens :: nat
  so_usable :: nat

text \<open>Best score first, then by id; a sort that keeps the order of equal keys.\<close>

definition ranked :: "(string \<Rightarrow> rat) \<Rightarrow> context_item list \<Rightarrow> context_item list" where
  "ranked score items = sort_key (\<lambda>i. (- score (ci_id i), ci_id i)) items"

fun pack :: "nat \<Rightarrow> context_item list \<Rightarrow> string list \<times> string list \<times> nat \<Rightarrow> string list \<times> string list \<times> nat" where
  "pack usable [] st = st"
| "pack usable (i # is) (kept, rejected, tokens) =
     (if tokens + ci_tokens i \<le> usable then pack usable is (kept @ [ci_id i], rejected, tokens + ci_tokens i)
      else pack usable is (kept, rejected @ [ci_id i], tokens))"

definition score_of :: "(string \<rightharpoonup> rat) \<Rightarrow> string \<Rightarrow> rat" where
  "score_of scores i = (case scores i of Some x \<Rightarrow> x | None \<Rightarrow> 0)"

definition select_within_budget ::
    "context_item list \<Rightarrow> (string \<rightharpoonup> rat) \<Rightarrow> context_budget \<Rightarrow> string set \<Rightarrow> selection_outcome" where
  "select_within_budget items scores budget protected =
     (let usable = usable_tokens budget;
          pinned = filter (\<lambda>i. ci_id i \<in> protected) items;
          candidates = ranked (score_of scores) (filter (\<lambda>i. ci_id i \<notin> protected) items);
          (kept, rejected, tokens) = pack usable candidates (map ci_id pinned, [], sum_list (map ci_tokens pinned))
      in \<lparr>so_kept = kept, so_rejected = sort_key (score_of scores) rejected, so_kept_tokens = tokens, so_usable = usable\<rparr>)"

section \<open>The deterministic policy\<close>

datatype context_action = Keep | Offload | Restore | Compress | Archive | Ignore

record context_decision =
  cd_id :: string
  cd_action :: context_action
  cd_score :: rat
  cd_reason :: msg
  cd_token_cost :: nat
  cd_priority :: rat

record context_policy =
  cp_keep :: rat
  cp_offload :: rat
  cp_cheap :: nat
  cp_weights :: score_weights

definition default_policy :: context_policy where
  "default_policy = \<lparr>cp_keep = f32 (45 / 100), cp_offload = f32 (15 / 100), cp_cheap = 512, cp_weights = default_weights\<rparr>"

text \<open>A score in a message is kept as the fraction it is; the code prints three decimals.\<close>

definition score_msg :: "rat \<Rightarrow> msg" where
  "score_msg x = (case quotient_of x of (p, q) \<Rightarrow> Fmt ''{}/{}'' [Num (nat p), Num (nat q)])"

definition decide_item :: "context_policy \<Rightarrow> string set \<Rightarrow> rat \<times> context_item \<Rightarrow> context_decision" where
  "decide_item p protected si = (case si of (score, item) \<Rightarrow>
     let (action, reason) =
       (if ci_id item \<in> protected then (Keep, Txt ''protected item'')
        else if \<not> is_active (ci_state item) then (Keep, Txt ''item is inactive; restore explicitly'')
        else if cp_keep p \<le> score then (Keep, Fmt ''score {} >= keep threshold'' [score_msg score])
        else if score < cp_offload p then (Offload, Fmt ''score {} < offload threshold; soft offload'' [score_msg score])
        else if cp_cheap p < ci_tokens item then
          (Compress, Fmt ''mid score {} and {} tokens > cheap limit {}; compress''
            [score_msg score, Num (ci_tokens item), Num (cp_cheap p)])
        else (Archive, Fmt ''low score {} but small ({} tokens); archive'' [score_msg score, Num (ci_tokens item)]))
     in \<lparr>cd_id = ci_id item, cd_action = action, cd_score = score, cd_reason = reason, cd_token_cost = ci_tokens item,
          cd_priority = ci_priority item\<rparr>)"

definition decide ::
    "(string \<Rightarrow> string) \<Rightarrow> context_policy \<Rightarrow> context_item list \<Rightarrow> string \<Rightarrow> context_budget \<Rightarrow> string set \<Rightarrow>
     context_decision list" where
  "decide lower p items task budget protected =
     map (decide_item p protected)
       (sort_key (\<lambda>(s, i). (- s, ci_id i))
          (map (\<lambda>i. (score_item lower i task (usable_tokens budget) (cp_weights p), i)) items))"

end
