(* ===== verification/ContextCompress.thy ===== *)
theory ContextCompress
  imports ContextItem "HOL-Library.Sublist"
begin

text \<open>
  The compressor (\<open>context/compressor.rs\<close>): removal of duplicate lines, extraction of the
  structural lines of a markdown text, truncation with a marker. The lemmas show what each pass
  keeps and what the reported counts mean.
\<close>

record compress_options =
  co_max_tokens :: nat
  co_dedup :: bool
  co_structural :: bool
  co_truncate :: bool

definition default_options :: compress_options where
  "default_options = \<lparr>co_max_tokens = 512, co_dedup = True, co_structural = True, co_truncate = True\<rparr>"

record compressed =
  cm_content :: string
  cm_tokens :: nat
  cm_original :: nat
  cm_saved :: nat
  cm_strategies :: "string list"

fun join_with :: "string \<Rightarrow> string list \<Rightarrow> string" where
  "join_with sep [] = []"
| "join_with sep [l] = l"
| "join_with sep (l # m # ls) = l @ sep @ join_with sep (m # ls)"

definition trim_start :: "string \<Rightarrow> string" where
  "trim_start s = concat (map snd (dropWhile (\<lambda>(c, _). is_whitespace c) (chars s)))"

definition trim_end :: "string \<Rightarrow> string" where
  "trim_end s = concat (map snd (rev (dropWhile (\<lambda>(c, _). is_whitespace c) (rev (chars s)))))"

section \<open>The passes\<close>

text \<open>The first line with each key, in order; lines that differ in trailing white space share one.\<close>

fun first_lines :: "string list \<Rightarrow> string list \<Rightarrow> string list" where
  "first_lines seen [] = []"
| "first_lines seen (l # ls) =
     (let key = trim_end l in if List.member seen key then first_lines seen ls else l # first_lines (key # seen) ls)"

definition dedup_lines :: "string \<Rightarrow> string" where
  "dedup_lines content = join_with [LF] (first_lines [] (str_lines content) @ (if ends_with content [LF] then [[]] else []))"

fun structural_lines :: "bool \<Rightarrow> bool \<Rightarrow> string list \<Rightarrow> string list" where
  "structural_lines first in_fence [] = []"
| "structural_lines first in_fence (l # ls) =
     (let trimmed = trim_start l in
      if starts_with trimmed ''```'' then l # structural_lines False (\<not> in_fence) ls
      else if in_fence \<or> starts_with trimmed ''#'' \<or> starts_with trimmed ''- '' \<or> starts_with trimmed ''* ''
         \<or> starts_with trimmed ''>'' \<or> first then l # structural_lines False in_fence ls
      else structural_lines False in_fence ls)"

definition structural_extract :: "string \<Rightarrow> string" where
  "structural_extract content = (let ls = str_lines content in
     if length ls < 6 then content else join_with [LF] (structural_lines True False ls))"

fun keep_words :: "nat \<Rightarrow> nat \<Rightarrow> string list \<Rightarrow> string list" where
  "keep_words most tokens [] = []"
| "keep_words most tokens (w # ws) = (if most \<le> tokens + 1 then [] else w # keep_words most (tokens + 1) ws)"

definition truncate_to_tokens :: "string \<Rightarrow> nat \<Rightarrow> string" where
  "truncate_to_tokens content most = (if count_tokens content \<le> most then content
     else let kept = keep_words most 0 (split_whitespace content) in
       join_with '' '' kept @ [LF] @ ''[truncated: '' @ dec (length kept) @ '' of '' @ dec (count_tokens content)
         @ '' estimated tokens retained]'')"

definition pass :: "bool \<Rightarrow> (string \<Rightarrow> string) \<Rightarrow> string \<Rightarrow> string \<times> string list \<Rightarrow> string \<times> string list" where
  "pass enabled f name cs = (case cs of (current, done) \<Rightarrow>
     if enabled \<and> f current \<noteq> current then (f current, done @ [name]) else (current, done))"

definition run_passes :: "string \<Rightarrow> compress_options \<Rightarrow> string \<times> string list" where
  "run_passes content o1 =
     (let a = pass (co_dedup o1) dedup_lines ''dedup_lines'' (content, []);
          b = pass (co_structural o1) structural_extract ''structural_extract'' a
      in pass (co_truncate o1 \<and> co_max_tokens o1 < count_tokens (fst b)) (\<lambda>t. truncate_to_tokens t (co_max_tokens o1)) ''truncate'' b)"

definition compress :: "string \<Rightarrow> compress_options \<Rightarrow> compressed" where
  "compress content o1 = (case run_passes content o1 of (current, done) \<Rightarrow>
     \<lparr>cm_content = current, cm_tokens = count_tokens current, cm_original = count_tokens content,
       cm_saved = count_tokens content - count_tokens current, cm_strategies = done\<rparr>)"

declare structural_lines.simps(2) [simp del]

section \<open>What the passes keep\<close>

lemma first_lines_subseq: "subseq (first_lines seen ls) ls"
  by (induction seen ls rule: first_lines.induct) (auto simp: Let_def)

lemma first_lines_keys:
  "distinct (map trim_end (first_lines seen ls)) \<and> trim_end ` set (first_lines seen ls) = trim_end ` set ls - set seen"
proof (induction seen ls rule: first_lines.induct)
  case (2 seen l ls)
  then show ?case by (cases "trim_end l \<in> set seen") (auto simp: Let_def)
qed simp

lemma structural_lines_Cons: "\<exists>f. structural_lines first in_fence (l # ls) = l # structural_lines False f ls
    \<or> structural_lines first in_fence (l # ls) = structural_lines False f ls"
  unfolding structural_lines.simps Let_def by metis

lemma structural_lines_subseq: "subseq (structural_lines first in_fence ls) ls"
proof (induction ls arbitrary: first in_fence)
  case (Cons l ls)
  with structural_lines_Cons [of first in_fence l ls] show ?case by auto
qed simp

lemma keep_words_take: "keep_words most n ws = take (most - 1 - n) ws"
proof (induction most n ws rule: keep_words.induct)
  case (2 most n w ws)
  show ?case
  proof (cases "most \<le> n + 1")
    case False
    then have "most - Suc n = Suc (most - Suc (Suc n))" by arith
    with False 2 show ?thesis by simp
  qed simp
qed simp

lemma compress_counts:
  "cm_tokens (compress content o1) = count_tokens (cm_content (compress content o1))"
  "cm_original (compress content o1) = count_tokens content"
  "cm_saved (compress content o1) = cm_original (compress content o1) - cm_tokens (compress content o1)"
  by (simp_all add: compress_def split: prod.split)

lemma compress_unchanged: "cm_strategies (compress content o1) = [] \<Longrightarrow> cm_content (compress content o1) = content"
proof -
  have step: "snd (pass b f n cs) = [] \<Longrightarrow> snd cs = [] \<and> fst (pass b f n cs) = fst cs" for b f n cs
    by (cases cs) (auto simp: pass_def split: if_splits)
  assume "cm_strategies (compress content o1) = []"
  then have "snd (run_passes content o1) = []" by (simp add: compress_def split: prod.splits)
  then have "fst (run_passes content o1) = content" unfolding run_passes_def Let_def by (metis step fst_conv)
  then show ?thesis by (cases "run_passes content o1") (simp add: compress_def)
qed

end
