(* ===== verification/ContextEngine.thy ===== *)
theory ContextEngine
  imports ContextSelect ContextCompress
begin

text \<open>
  The context engine (\<open>context/engine.rs\<close>) with its durable state: the window file
  (\<open>context/window.rs\<close>), the offload records (\<open>context/offload.rs\<close>) and the snapshots
  (\<open>context/snapshot.rs\<close>). The state holds the items and the protected ids in memory, the files, and
  the script of the disk: each access that can fail takes one event from it. Timestamps, fresh
  snapshot ids and the lower-casing of the standard library are parameters. Operations run one
  after the other; the locks of the code are not part of the state.
\<close>

section \<open>State\<close>

text \<open>
  An access works, fails without effect, or fails half-way: a torn write of a record leaves a file
  that does not parse, a torn publication of the window (the rename done, the sync failed) leaves
  the new window.
\<close>

datatype disk_event = Works | Fails | Tears

datatype engine_error = Refused msg | Panicked

record window_record =
  wr_version :: nat
  wr_items :: "context_item list"
  wr_protected :: "string set"

record offload_record =
  or_item :: context_item
  or_at :: string
  or_reason :: "msg option"

record context_snapshot =
  cs_id :: string
  cs_at :: string
  cs_items :: "context_item list"
  cs_offloaded :: "string list"
  cs_task :: "string option"
  cs_session :: "string option"
  cs_budget :: context_budget

record engine_config =
  ec_enabled :: bool
  ec_budget :: context_budget
  ec_auto_offload :: bool
  ec_auto_compress :: bool
  ec_memory :: bool

record decision_summary =
  ds_at :: string
  ds_task :: string
  ds_kept :: "string list"
  ds_offloaded :: "string list"
  ds_compressed :: "string list"
  ds_archived :: "string list"
  ds_before :: nat
  ds_after :: nat
  ds_reason :: msg

record engine =
  en_config :: engine_config
  en_items :: "context_item list"
  en_protected :: "string set"
  en_last :: "decision_summary option"
  en_window :: "window_record stored"
  en_offloads :: "offload_record dir"
  en_snapshots :: "context_snapshot dir"
  en_disk :: "disk_event list"

type_synonym 'a engine_op = "(engine, engine_error, 'a) io"

definition max_active_items :: nat where "max_active_items = 5000"
definition max_offloads :: nat where "max_offloads = 10000"
definition max_snapshots :: nat where "max_snapshots = 1000"
definition max_snapshot_id_len :: nat where "max_snapshot_id_len = 128"
definition window_schema_version :: nat where "window_schema_version = 1"

definition default_engine_config :: engine_config where
  "default_engine_config = \<lparr>ec_enabled = True, ec_budget = default_budget, ec_auto_offload = True, ec_auto_compress = True,
     ec_memory = True\<rparr>"

definition bail :: "msg \<Rightarrow> 'a engine_op" where "bail m = fail (Refused m)"

definition require :: "bool \<Rightarrow> msg \<Rightarrow> unit engine_op" where "require b m = (if b then ret () else bail m)"

text \<open>The next event of the disk; a script that is used up works.\<close>

definition disk_event :: "disk_event engine_op" where
  "disk_event w = (case en_disk w of [] \<Rightarrow> (Inr Works, w) | e # es \<Rightarrow> (Inr e, w\<lparr>en_disk := es\<rparr>))"

definition access :: "msg \<Rightarrow> unit engine_op" where
  "access m = bindE disk_event (\<lambda>e. if e = Works then ret () else bail m)"

section \<open>The window file\<close>

definition window_save :: "window_record \<Rightarrow> unit engine_op" where
  "window_save r = bindE disk_event (\<lambda>e. case e of
      Works \<Rightarrow> modify (\<lambda>w. w\<lparr>en_window := Stored r\<rparr>)
    | Fails \<Rightarrow> bail (Txt ''failed to publish the context window'')
    | Tears \<Rightarrow> bindE (modify (\<lambda>w. w\<lparr>en_window := Stored r\<rparr>)) (\<lambda>_. bail (Txt ''failed to fsync the context window'')))"

definition window_load :: "window_record stored \<Rightarrow> msg + window_record" where
  "window_load f = (case f of
      Absent \<Rightarrow> Inr \<lparr>wr_version = window_schema_version, wr_items = [], wr_protected = {}\<rparr>
    | Corrupt \<Rightarrow> Inl (Txt ''corrupt context window'')
    | Stored r \<Rightarrow>
        if wr_version r \<noteq> window_schema_version then
          Inl (Fmt ''unsupported context window schema version {}'' [Num (wr_version r)])
        else (case find (\<lambda>i. \<not> is_valid_item_id (ci_id i)) (wr_items r) of
            Some i \<Rightarrow> Inl (Fmt ''context window contains an invalid item id {}'' [Txt (ci_id i)])
          | None \<Rightarrow> Inr r))"

text \<open>A new engine over the files of a project.\<close>

definition engine_new ::
    "engine_config \<Rightarrow> window_record stored \<Rightarrow> offload_record dir \<Rightarrow> context_snapshot dir \<Rightarrow> disk_event list \<Rightarrow> msg + engine" where
  "engine_new config window offloads snapshots script = bindR (window_load window) (\<lambda>r.
     Inr \<lparr>en_config = config, en_items = wr_items r, en_protected = wr_protected r, en_last = None, en_window = window,
       en_offloads = offloads, en_snapshots = snapshots, en_disk = script\<rparr>)"

definition persist_window :: "context_item list \<Rightarrow> string set \<Rightarrow> unit engine_op" where
  "persist_window items protected =
     window_save \<lparr>wr_version = window_schema_version, wr_items = items, wr_protected = protected\<rparr>"

section \<open>Items\<close>

definition enabled_or_bail :: "unit engine_op" where
  "enabled_or_bail = bindE (gets (\<lambda>w. ec_enabled (en_config w))) (\<lambda>b. require b (Txt ''context engine is disabled''))"

definition item_ids :: "context_item list \<Rightarrow> string list" where "item_ids = map ci_id"

definition put_item :: "context_item \<Rightarrow> context_item list \<Rightarrow> context_item list" where
  "put_item item items = filter (\<lambda>i. ci_id i \<noteq> ci_id item) items @ [item]"

definition invalid_id :: "string \<Rightarrow> msg" where "invalid_id i = Fmt ''invalid context item id: {}'' [Txt i]"
definition not_found :: "string \<Rightarrow> msg" where "not_found i = Fmt ''context item not found: {}'' [Txt i]"

definition insert_item :: "context_item \<Rightarrow> context_item engine_op" where
  "insert_item item0 =
     bindE enabled_or_bail (\<lambda>_.
     bindE (require (is_valid_item_id (ci_id item0)) (invalid_id (ci_id item0))) (\<lambda>_.
     let item = item0\<lparr>ci_tokens := count_tokens (ci_content item0)\<rparr> in
     bindE (gets en_config) (\<lambda>c.
     bindE (require (ci_tokens item \<le> cb_max_input (ec_budget c))
       (Fmt ''item token count {} exceeds max input tokens {}'' [Num (ci_tokens item), Num (cb_max_input (ec_budget c))])) (\<lambda>_.
     bindE (gets (\<lambda>w. (en_items w, en_protected w))) (\<lambda>(items, protected).
     bindE (require (\<not> (max_active_items \<le> length items \<and> ci_id item \<notin> set (item_ids items)))
       (Fmt ''active context is full (max {} items)'' [Num max_active_items])) (\<lambda>_.
     let next_items = put_item item items in
     bindE (persist_window next_items protected) (\<lambda>_.
     bindE (modify (\<lambda>w. w\<lparr>en_items := next_items\<rparr>)) (\<lambda>_. ret item))))))))"

definition get_item :: "string \<Rightarrow> engine \<Rightarrow> context_item option" where
  "get_item i w = find (\<lambda>x. ci_id x = i) (en_items w)"

definition is_protected :: "string \<Rightarrow> engine \<Rightarrow> bool" where "is_protected i w \<longleftrightarrow> i \<in> en_protected w"

definition active_tokens_of :: "context_item list \<Rightarrow> nat" where
  "active_tokens_of items = sum_list (map ci_tokens (filter (\<lambda>i. is_active (ci_state i)) items))"

definition active_tokens :: "engine \<Rightarrow> nat" where "active_tokens w = active_tokens_of (en_items w)"

definition protect :: "string \<Rightarrow> bool engine_op" where
  "protect i = (if \<not> is_valid_item_id i then ret False else
     bindE (gets (\<lambda>w. (en_items w, en_protected w))) (\<lambda>(items, protected).
     if i \<notin> set (item_ids items) then ret False else
     bindE (attempt (persist_window items (insert i protected))) (\<lambda>r.
     bindE (modify (\<lambda>w. w\<lparr>en_protected := (case r of Inl _ \<Rightarrow> protected - {i} | Inr _ \<Rightarrow> insert i protected)\<rparr>)) (\<lambda>_.
     ret True))))"

definition unprotect :: "string \<Rightarrow> bool engine_op" where
  "unprotect i =
     bindE (gets (\<lambda>w. (en_items w, en_protected w))) (\<lambda>(items, protected).
     if i \<notin> protected then ret False else
     bindE (attempt (persist_window items (protected - {i}))) (\<lambda>r.
     bindE (modify (\<lambda>w. w\<lparr>en_protected := (case r of Inl _ \<Rightarrow> insert i protected | Inr _ \<Rightarrow> protected - {i})\<rparr>)) (\<lambda>_.
     ret True)))"

section \<open>Offload records\<close>

definition list_offloads :: "string list engine_op" where
  "list_offloads = bindE (access (Txt ''offload dir unreadable'')) (\<lambda>_. gets (\<lambda>w. sort (map fst (en_offloads w))))"

text \<open>\<open>fs::write\<close> on the file of a record: a torn write leaves a file that does not parse.\<close>

fun dir_tear :: "string \<Rightarrow> 'a dir \<Rightarrow> 'a dir" where
  "dir_tear k [] = [(k, Corrupt)]"
| "dir_tear k ((j, s) # d) = (if j = k then (k, Corrupt) # d else (j, s) # dir_tear k d)"

definition offload_put :: "offload_record \<Rightarrow> unit engine_op" where
  "offload_put r = (let i = ci_id (or_item r) in
     bindE (require (is_valid_item_id i) (invalid_id i)) (\<lambda>_.
     bindE (require (ci_state (or_item r) = Offloaded) (Txt ''can only offload items in the Offloaded state'')) (\<lambda>_.
     bindE (require (trim (or_at r) \<noteq> []) (Txt ''offload record must carry a timestamp'')) (\<lambda>_.
     bindE list_offloads (\<lambda>ids.
     bindE (gets (\<lambda>w. dir_get (en_offloads w) i \<noteq> Absent)) (\<lambda>present.
     bindE (require (\<not> (max_offloads \<le> length ids \<and> \<not> present))
       (Fmt ''offload store is full (max {} records)'' [Num max_offloads])) (\<lambda>_.
     bindE disk_event (\<lambda>e. case e of
         Works \<Rightarrow> modify (\<lambda>w. w\<lparr>en_offloads := dir_put i r (en_offloads w)\<rparr>)
       | Fails \<Rightarrow> bail (Txt ''failed to write offload'')
       | Tears \<Rightarrow> bindE (modify (\<lambda>w. w\<lparr>en_offloads := dir_tear i (en_offloads w)\<rparr>)) (\<lambda>_.
           bail (Txt ''failed to write offload''))))))))))"

definition offload_get :: "string \<Rightarrow> context_item option engine_op" where
  "offload_get i = (if \<not> is_valid_item_id i then ret None else
     bindE (gets (\<lambda>w. dir_get (en_offloads w) i)) (\<lambda>f. case f of
         Absent \<Rightarrow> ret None
       | Corrupt \<Rightarrow> bindE (access (Txt ''failed to read offload'')) (\<lambda>_. bail (Txt ''corrupt offload record''))
       | Stored r \<Rightarrow> bindE (access (Txt ''failed to read offload'')) (\<lambda>_. ret (Some (or_item r)))))"

definition remove_restored :: "string \<Rightarrow> bool engine_op" where
  "remove_restored i = (if \<not> is_valid_item_id i then ret False else
     bindE (gets (\<lambda>w. dir_get (en_offloads w) i = Absent)) (\<lambda>absent.
     if absent then ret False else
     bindE (access (Txt ''failed to remove offload'')) (\<lambda>_.
     bindE (modify (\<lambda>w. w\<lparr>en_offloads := dir_remove i (en_offloads w)\<rparr>)) (\<lambda>_. ret True))))"

definition remove_item :: "string \<Rightarrow> bool engine_op" where
  "remove_item i =
     bindE (gets (\<lambda>w. (en_items w, en_protected w))) (\<lambda>(items, protected).
     let next_items = filter (\<lambda>x. ci_id x \<noteq> i) items in
     if length next_items = length items then ret False else
     bindE (attempt (persist_window next_items (protected - {i}))) (\<lambda>r. case r of
         Inl _ \<Rightarrow> bindE (modify (\<lambda>w. w\<lparr>en_protected := insert i protected\<rparr>)) (\<lambda>_. ret False)
       | Inr _ \<Rightarrow>
           bindE (modify (\<lambda>w. w\<lparr>en_items := next_items, en_protected := protected - {i}\<rparr>)) (\<lambda>_.
           bindE (attempt (remove_restored i)) (\<lambda>_. ret True))))"

section \<open>Moving items\<close>

text \<open>The window is published first; a failed publication leaves the items as they were, and nobody is told.\<close>

definition replace_item :: "context_item \<Rightarrow> unit engine_op" where
  "replace_item item =
     bindE (gets (\<lambda>w. (put_item item (en_items w), en_protected w))) (\<lambda>(next_items, protected).
     bindE (attempt (persist_window next_items protected)) (\<lambda>r. case r of
         Inr _ \<Rightarrow> modify (\<lambda>w. w\<lparr>en_items := next_items\<rparr>)
       | Inl _ \<Rightarrow> ret ()))"

definition blank_msg :: "msg \<Rightarrow> bool" where
  "blank_msg m \<longleftrightarrow> (case m of Txt t \<Rightarrow> trim t = [] | _ \<Rightarrow> False)"

definition offload :: "string \<Rightarrow> string \<Rightarrow> msg \<Rightarrow> unit engine_op" where
  "offload now i reason =
     bindE enabled_or_bail (\<lambda>_.
     bindE (require (is_valid_item_id i) (invalid_id i)) (\<lambda>_.
     bindE (gets (is_protected i)) (\<lambda>p.
     bindE (require (\<not> p) (Fmt ''item {} is protected and cannot be offloaded'' [Txt i])) (\<lambda>_.
     bindE (gets (get_item i)) (\<lambda>found. case found of
         None \<Rightarrow> bail (not_found i)
       | Some item0 \<Rightarrow>
           bindE (require (is_active (ci_state item0)) (Fmt ''item {} is already inactive'' [Txt i])) (\<lambda>_.
           let item = item0\<lparr>ci_state := Offloaded\<rparr> in
           bindE (offload_put \<lparr>or_item = item, or_at = now, or_reason = (if blank_msg reason then None else Some reason)\<rparr>) (\<lambda>_.
           replace_item item)))))))"

definition restore_item_to_active :: "context_item \<Rightarrow> context_item engine_op" where
  "restore_item_to_active item0 =
     bindE (gets (\<lambda>w. (active_tokens w, ec_budget (en_config w), is_protected (ci_id item0) w))) (\<lambda>(active, budget, p).
     bindE (require (overflow budget (active + ci_tokens item0) = None \<or> p)
       (Fmt ''restoring {} ({} tokens) would exceed the usable budget (active {}, overflow {})''
         [Txt (ci_id item0), Num (ci_tokens item0), Num active, Num (active + ci_tokens item0 - usable_tokens budget)])) (\<lambda>_.
     let item = item0\<lparr>ci_recency := 1, ci_state := Active\<rparr> in
     bindE (replace_item item) (\<lambda>_. ret item)))"

definition restore_stored :: "string \<Rightarrow> context_item engine_op" where
  "restore_stored i =
     bindE (offload_get i) (\<lambda>found. case found of
         None \<Rightarrow> bail (Fmt ''offloaded context item not found: {}'' [Txt i])
       | Some item \<Rightarrow>
           bindE (restore_item_to_active (item\<lparr>ci_state := Active\<rparr>)) (\<lambda>restored.
           bindE (remove_restored i) (\<lambda>_. ret restored)))"

definition restore :: "string \<Rightarrow> context_item engine_op" where
  "restore i =
     bindE enabled_or_bail (\<lambda>_.
     bindE (require (is_valid_item_id i) (invalid_id i)) (\<lambda>_.
     bindE (gets (get_item i)) (\<lambda>found. case found of
         None \<Rightarrow> restore_stored i
       | Some item \<Rightarrow>
           if ci_state item = Offloaded then
             bindE (restore_item_to_active item) (\<lambda>restored.
             bindE (remove_restored (ci_id restored)) (\<lambda>_. ret restored))
           else if is_active (ci_state item) then bail (Fmt ''item {} is already active'' [Txt i])
           else restore_stored i)))"

definition archive :: "string \<Rightarrow> unit engine_op" where
  "archive i =
     bindE enabled_or_bail (\<lambda>_.
     bindE (gets (is_protected i)) (\<lambda>p.
     bindE (require (\<not> p) (Fmt ''item {} is protected and cannot be archived'' [Txt i])) (\<lambda>_.
     bindE (gets (get_item i)) (\<lambda>found. case found of
         None \<Rightarrow> bail (not_found i)
       | Some item \<Rightarrow> replace_item (item\<lparr>ci_state := Archived\<rparr>)))))"

definition compression_note :: "compressed \<Rightarrow> json" where
  "compression_note c = JObj [(''context_engine'', JObj [(''compressed'', JBool True),
     (''original_tokens'', JNum (PosInt (of_nat (cm_original c)))), (''strategies'', JArr (map JStr (cm_strategies c)))])]"

definition compressed_item :: "context_item \<Rightarrow> compressed \<Rightarrow> context_item" where
  "compressed_item item c =
     item\<lparr>ci_metadata := compression_note c, ci_content := cm_content c, ci_tokens := cm_tokens c\<rparr>"

definition compress_item :: "string \<Rightarrow> nat option engine_op" where
  "compress_item i =
     bindE enabled_or_bail (\<lambda>_.
     bindE (gets (get_item i)) (\<lambda>found. case found of
         None \<Rightarrow> bail (not_found i)
       | Some item \<Rightarrow>
           if \<not> is_active (ci_state item) then ret None
           else let c = compress (ci_content item) default_options in
             if cm_saved c = 0 then ret None
             else bindE (replace_item (compressed_item item c)) (\<lambda>_. ret (Some (cm_saved c)))))"

section \<open>Requests\<close>

record context_request =
  cq_task :: string
  cq_query :: "string option"
  cq_token_budget :: nat
  cq_scope :: context_scope

definition scores :: "(string \<Rightarrow> string) \<Rightarrow> string \<Rightarrow> engine \<Rightarrow> string \<rightharpoonup> rat" where
  "scores lower task w = map_of (rev (map (\<lambda>i. (ci_id i,
     score_item lower i task (usable_tokens (ec_budget (en_config w))) default_weights)) (en_items w)))"

definition request_budget :: "engine \<Rightarrow> context_request \<Rightarrow> context_budget" where
  "request_budget w q = (if 0 < cq_token_budget q then
     \<lparr>cb_max_input = min (usable_tokens (ec_budget (en_config w))) (cq_token_budget q), cb_reserved_output = 0,
       cb_safety_margin = 0\<rparr>
     else ec_budget (en_config w))"

definition select :: "(string \<Rightarrow> string) \<Rightarrow> context_request \<Rightarrow> engine \<Rightarrow> selection_outcome" where
  "select lower q w = select_within_budget (filter (\<lambda>i. is_active (ci_state i)) (en_items w)) (scores lower (cq_task q) w)
     (request_budget w q) (en_protected w)"

record assembled_context =
  as_items :: "context_item list"
  as_tokens :: nat
  as_budget :: context_budget
  as_rejected :: "string list"

definition assemble_item :: "engine_config \<Rightarrow> context_request \<Rightarrow> nat \<Rightarrow> context_item \<Rightarrow> context_item" where
  "assemble_item c q n item = (if ec_auto_compress c then
     let most = max 32 (min 4096 (cq_token_budget q div max n 1));
         r = compress (ci_content item) (default_options\<lparr>co_max_tokens := most\<rparr>)
     in if 0 < cm_saved r then compressed_item item r else item
   else item)"

definition get_context :: "(string \<Rightarrow> string) \<Rightarrow> context_request \<Rightarrow> assembled_context engine_op" where
  "get_context lower q =
     bindE enabled_or_bail (\<lambda>_.
     gets (\<lambda>w. let outcome = select lower q w;
                   by_id = map_of (rev (map (\<lambda>i. (ci_id i, i)) (en_items w)))
       in \<lparr>as_items = map (assemble_item (en_config w) q (length (so_kept outcome))) (List.map_filter by_id (so_kept outcome)),
           as_tokens = so_kept_tokens outcome, as_budget = ec_budget (en_config w), as_rejected = so_rejected outcome\<rparr>))"

section \<open>The optimization pass\<close>

record pass_result =
  pr_kept :: "string list"
  pr_offloaded :: "string list"
  pr_compressed :: "string list"
  pr_archived :: "string list"
  pr_tokens :: nat

definition keep_id :: "string \<Rightarrow> pass_result \<Rightarrow> pass_result" where
  "keep_id i r = r\<lparr>pr_kept := pr_kept r @ [i]\<rparr>"

definition apply_decision :: "string \<Rightarrow> context_decision \<Rightarrow> pass_result \<Rightarrow> pass_result engine_op" where
  "apply_decision now d r = (let i = cd_id d in
     bindE (gets en_config) (\<lambda>c. case cd_action d of
         Offload \<Rightarrow>
           if \<not> ec_auto_offload c then ret (keep_id i r)
           else bindE (attempt (offload now i (cd_reason d))) (\<lambda>q. case q of
               Inr _ \<Rightarrow> ret (r\<lparr>pr_offloaded := pr_offloaded r @ [i], pr_tokens := pr_tokens r - cd_token_cost d\<rparr>)
             | Inl _ \<Rightarrow> ret (keep_id i r))
       | Compress \<Rightarrow>
           if \<not> ec_auto_compress c then ret (keep_id i r)
           else bindE (attempt (compress_item i)) (\<lambda>q. case q of
               Inr (Some saved) \<Rightarrow> ret (r\<lparr>pr_compressed := pr_compressed r @ [i], pr_tokens := pr_tokens r - saved\<rparr>)
             | _ \<Rightarrow> ret (keep_id i r))
       | Archive \<Rightarrow>
           bindE (attempt (archive i)) (\<lambda>q. case q of
               Inr _ \<Rightarrow> ret (r\<lparr>pr_archived := pr_archived r @ [i], pr_tokens := pr_tokens r - cd_token_cost d\<rparr>)
             | Inl _ \<Rightarrow> ret (keep_id i r))
       | _ \<Rightarrow> ret (keep_id i r)))"

fun apply_decisions :: "string \<Rightarrow> context_decision list \<Rightarrow> pass_result \<Rightarrow> pass_result engine_op" where
  "apply_decisions now [] r = ret r"
| "apply_decisions now (d # ds) r = bindE (apply_decision now d r) (apply_decisions now ds)"

definition engine_decide :: "(string \<Rightarrow> string) \<Rightarrow> string \<Rightarrow> engine \<Rightarrow> context_decision list" where
  "engine_decide lower task w =
     decide lower default_policy (en_items w) task (ec_budget (en_config w)) (en_protected w)"

definition optimize :: "(string \<Rightarrow> string) \<Rightarrow> string \<Rightarrow> string \<Rightarrow> decision_summary engine_op" where
  "optimize lower now task =
     bindE enabled_or_bail (\<lambda>_.
     bindE (gets (\<lambda>w. (active_tokens w, engine_decide lower task w))) (\<lambda>(before, ds).
     bindE (apply_decisions now ds \<lparr>pr_kept = [], pr_offloaded = [], pr_compressed = [], pr_archived = [], pr_tokens = before\<rparr>) (\<lambda>r.
     let summary = \<lparr>ds_at = now, ds_task = task, ds_kept = pr_kept r, ds_offloaded = pr_offloaded r,
       ds_compressed = pr_compressed r, ds_archived = pr_archived r, ds_before = before, ds_after = pr_tokens r,
       ds_reason = Fmt ''policy pass over {} items: kept {}, offloaded {}, compressed {}, archived {}''
         (map Num [length ds, length (pr_kept r), length (pr_offloaded r), length (pr_compressed r), length (pr_archived r)])\<rparr> in
     bindE (modify (\<lambda>w. w\<lparr>en_last := Some summary\<rparr>)) (\<lambda>_. ret summary))))"

section \<open>Snapshots\<close>

definition is_valid_snapshot_id :: "string \<Rightarrow> bool" where
  "is_valid_snapshot_id i \<longleftrightarrow> is_valid_item_id i \<and> length i \<le> max_snapshot_id_len"

definition list_snapshot_ids :: "string list engine_op" where
  "list_snapshot_ids = bindE (access (Txt ''snapshot dir unreadable'')) (\<lambda>_. gets (\<lambda>w. sort (map fst (en_snapshots w))))"

definition invalid_snapshot_id :: "string \<Rightarrow> msg" where "invalid_snapshot_id i = Fmt ''invalid snapshot id: {}'' [Txt i]"

definition snapshot_put :: "context_snapshot \<Rightarrow> unit engine_op" where
  "snapshot_put s = (let i = cs_id s in
     bindE (require (is_valid_snapshot_id i) (invalid_snapshot_id i)) (\<lambda>_.
     bindE (gets (\<lambda>w. dir_get (en_snapshots w) i = Absent)) (\<lambda>absent.
     bindE (if absent then list_snapshot_ids else ret []) (\<lambda>ids.
     bindE (require (\<not> max_snapshots \<le> length ids) (Fmt ''snapshot store is full (max {} snapshots)'' [Num max_snapshots])) (\<lambda>_.
     bindE disk_event (\<lambda>e. case e of
         Works \<Rightarrow> modify (\<lambda>w. w\<lparr>en_snapshots := dir_put i s (en_snapshots w)\<rparr>)
       | Fails \<Rightarrow> bail (Txt ''failed to write snapshot'')
       | Tears \<Rightarrow> bindE (modify (\<lambda>w. w\<lparr>en_snapshots := dir_tear i (en_snapshots w)\<rparr>)) (\<lambda>_.
           bail (Txt ''failed to write snapshot''))))))))"

definition snapshot_get :: "string \<Rightarrow> context_snapshot option engine_op" where
  "snapshot_get i = (if \<not> is_valid_snapshot_id i then ret None else
     bindE (gets (\<lambda>w. dir_get (en_snapshots w) i)) (\<lambda>f. case f of
         Absent \<Rightarrow> ret None
       | Corrupt \<Rightarrow> bindE (access (Txt ''failed to read snapshot'')) (\<lambda>_. bail (Txt ''corrupt snapshot''))
       | Stored s \<Rightarrow> bindE (access (Txt ''failed to read snapshot'')) (\<lambda>_. ret (Some s))))"

record snapshot_summary =
  sy_id :: string
  sy_at :: string
  sy_active :: nat
  sy_tokens :: nat
  sy_offloaded :: nat
  sy_task :: "string option"

fun snapshot_summaries :: "string list \<Rightarrow> snapshot_summary list engine_op" where
  "snapshot_summaries [] = ret []"
| "snapshot_summaries (i # is) = bindE (snapshot_get i) (\<lambda>found. bindE (snapshot_summaries is) (\<lambda>ss.
     ret ((case found of None \<Rightarrow> [] | Some s \<Rightarrow> [\<lparr>sy_id = cs_id s, sy_at = cs_at s, sy_active = length (cs_items s),
       sy_tokens = sum_list (map ci_tokens (cs_items s)), sy_offloaded = length (cs_offloaded s), sy_task = cs_task s\<rparr>]) @ ss)))"

definition list_summaries :: "snapshot_summary list engine_op" where
  "list_summaries = bindE list_snapshot_ids (\<lambda>ids. bindE (snapshot_summaries ids) (\<lambda>ss. ret (rev ss)))"

text \<open>The fresh id is used when the caller gives none.\<close>

definition take_snapshot ::
    "string \<Rightarrow> string \<Rightarrow> string option \<Rightarrow> string option \<Rightarrow> string option \<Rightarrow> context_snapshot engine_op" where
  "take_snapshot now fresh i task session =
     bindE enabled_or_bail (\<lambda>_.
     bindE (gets (\<lambda>w. (filter (\<lambda>x. is_active (ci_state x)) (en_items w), ec_budget (en_config w)))) (\<lambda>(active, budget).
     bindE list_offloads (\<lambda>ids.
     let s = \<lparr>cs_id = (case i of Some j \<Rightarrow> j | None \<Rightarrow> fresh), cs_at = now, cs_items = active, cs_offloaded = ids,
       cs_task = task, cs_session = session, cs_budget = budget\<rparr> in
     bindE (snapshot_put s) (\<lambda>_. ret s))))"

text \<open>The tokens restored so far are counted from nought; what is active already is not.\<close>

fun restore_items :: "context_item list \<Rightarrow> nat \<Rightarrow> string list \<times> string list \<Rightarrow> (string list \<times> string list) engine_op" where
  "restore_items [] active r = ret r"
| "restore_items (i # is) active (restored, skipped) =
     bindE (gets (\<lambda>w. active + ci_tokens i \<le> usable_tokens (ec_budget (en_config w)))) (\<lambda>fit.
     if fit then bindE (replace_item (i\<lparr>ci_recency := 1, ci_state := Active\<rparr>)) (\<lambda>_.
         restore_items is (active + ci_tokens i) (restored @ [ci_id i], skipped))
     else restore_items is active (restored, skipped @ [ci_id i]))"

definition restore_snapshot :: "string \<Rightarrow> (string list \<times> string list) engine_op" where
  "restore_snapshot i =
     bindE (snapshot_get i) (\<lambda>found. case found of
         None \<Rightarrow> bail (Fmt ''snapshot not found: {}'' [Txt i])
       | Some s \<Rightarrow> restore_items (cs_items s) 0 ([], []))"

definition delete_snapshot :: "string \<Rightarrow> bool engine_op" where
  "delete_snapshot i =
     bindE (require (is_valid_snapshot_id i) (invalid_snapshot_id i)) (\<lambda>_.
     bindE (gets (\<lambda>w. dir_get (en_snapshots w) i = Absent)) (\<lambda>absent.
     if absent then ret False else
     bindE (access (Txt ''failed to delete snapshot'')) (\<lambda>_.
     bindE (modify (\<lambda>w. w\<lparr>en_snapshots := dir_remove i (en_snapshots w)\<rparr>)) (\<lambda>_. ret True))))"

section \<open>Search and status\<close>

fun char_offsets :: "nat \<Rightarrow> (nat \<times> string) list \<Rightarrow> nat list" where
  "char_offsets n [] = []"
| "char_offsets n ((c, bs) # cs) = n # char_offsets (n + length bs) cs"

definition ellipsis :: string where "ellipsis = [CHR 0xE2, CHR 0x80, CHR 0xA6]"

text \<open>
  The text around the first match; \<open>None\<close> is the panic of a slice that starts inside a character.
  The position comes from the lower-cased text, the slice is taken from the text itself.
\<close>

definition excerpt :: "(string \<Rightarrow> string) \<Rightarrow> string \<Rightarrow> string \<Rightarrow> string option" where
  "excerpt lower content needle = (case find_sub needle (lower content) of
      None \<Rightarrow> Some (concat (map snd (take 120 (chars content))))
    | Some start \<Rightarrow>
        let at_char = last (0 # filter (\<lambda>i. i \<le> start) (char_offsets 0 (chars content)));
            begin_at = at_char - 40; tail = drop begin_at content in
        if \<not> char_start tail then None
        else Some (concat (map snd (take 200 (chars tail))) @ (if begin_at + 200 < length content then ellipsis else [])))"

datatype match_location = InActive | InOffloaded

record search_hit =
  sh_id :: string
  sh_state :: context_state
  sh_source :: context_source
  sh_tokens :: nat
  sh_excerpt :: string
  sh_location :: match_location

definition search_hit_of :: "(string \<Rightarrow> string) \<Rightarrow> string \<Rightarrow> match_location \<Rightarrow> context_item \<Rightarrow> search_hit engine_op" where
  "search_hit_of lower needle loc i = (case excerpt lower (ci_content i) needle of
      None \<Rightarrow> fail Panicked
    | Some e \<Rightarrow> ret \<lparr>sh_id = ci_id i, sh_state = ci_state i, sh_source = ci_source i, sh_tokens = ci_tokens i,
        sh_excerpt = e, sh_location = loc\<rparr>)"

fun item_hits :: "(string \<Rightarrow> string) \<Rightarrow> string \<Rightarrow> context_item list \<Rightarrow> search_hit list engine_op" where
  "item_hits lower needle [] = ret []"
| "item_hits lower needle (i # is) =
     (if contains (lower (ci_content i)) needle
      then bindE (search_hit_of lower needle InActive i) (\<lambda>h. bindE (item_hits lower needle is) (\<lambda>hs. ret (h # hs)))
      else item_hits lower needle is)"

fun offload_hits :: "(string \<Rightarrow> string) \<Rightarrow> string \<Rightarrow> string set \<Rightarrow> string list \<Rightarrow> search_hit list engine_op" where
  "offload_hits lower needle seen [] = ret []"
| "offload_hits lower needle seen (i # is) =
     (if i \<in> seen then offload_hits lower needle seen is
      else bindE (offload_get i) (\<lambda>found. case found of
          None \<Rightarrow> offload_hits lower needle seen is
        | Some item \<Rightarrow>
            if contains (lower (ci_content item)) needle
            then bindE (search_hit_of lower needle InOffloaded item) (\<lambda>h.
              bindE (offload_hits lower needle seen is) (\<lambda>hs. ret (h # hs)))
            else offload_hits lower needle seen is))"

definition search_items :: "(string \<Rightarrow> string) \<Rightarrow> string \<Rightarrow> nat \<Rightarrow> search_hit list engine_op" where
  "search_items lower query limit =
     bindE enabled_or_bail (\<lambda>_.
     let needle = lower (trim query) in
     if needle = [] then ret []
     else bindE (gets en_items) (\<lambda>items.
       bindE (item_hits lower needle items) (\<lambda>hits.
       bindE list_offloads (\<lambda>ids.
       bindE (offload_hits lower needle (set (map sh_id hits)) ids) (\<lambda>more.
       ret (take (max limit 1) (hits @ more)))))))"

record context_status =
  st_enabled :: bool
  st_active_items :: nat
  st_active_tokens :: nat
  st_budget :: budget_status
  st_offloaded :: nat
  st_memories :: "nat option"
  st_last :: "decision_summary option"
  st_protected :: nat

text \<open>The count of the memory store, absent when it cannot be read, is an argument.\<close>

definition engine_status :: "nat option \<Rightarrow> context_status engine_op" where
  "engine_status memory_count =
     bindE list_offloads (\<lambda>ids. gets (\<lambda>w.
       let active = filter (\<lambda>i. is_active (ci_state i)) (en_items w); tokens = active_tokens w in
       \<lparr>st_enabled = ec_enabled (en_config w), st_active_items = length active, st_active_tokens = tokens,
         st_budget = budget_status_of (ec_budget (en_config w)) tokens, st_offloaded = length ids,
         st_memories = (if ec_memory (en_config w) then (case memory_count of None \<Rightarrow> Some 0 | Some n \<Rightarrow> Some n) else None),
         st_last = en_last w, st_protected = card (en_protected w)\<rparr>))"

section \<open>Configuration\<close>

definition ascii_lowercase :: "string \<Rightarrow> string" where
  "ascii_lowercase s = map (\<lambda>c. if 65 \<le> byte c \<and> byte c \<le> 90 then char_of (byte c + 32) else c) s"

definition switched_on :: "string \<Rightarrow> bool" where
  "switched_on v \<longleftrightarrow> ascii_lowercase (trim v) \<in> {''1'', ''true'', ''yes'', ''on''}"

definition number_override :: "(string \<Rightarrow> string option) \<Rightarrow> string \<Rightarrow> nat \<Rightarrow> msg + nat" where
  "number_override lookup key old = (case lookup key of
      None \<Rightarrow> Inr old
    | Some raw \<Rightarrow> (case parse_usize (trim raw) of
        None \<Rightarrow> Inl (Fmt ''invalid value for {}: {}'' [Txt key, Txt raw])
      | Some n \<Rightarrow> Inr n))"

definition switch_override :: "(string \<Rightarrow> string option) \<Rightarrow> string \<Rightarrow> bool \<Rightarrow> bool" where
  "switch_override lookup key old = (case lookup key of None \<Rightarrow> old | Some v \<Rightarrow> switched_on v)"

definition with_overrides :: "engine_config \<Rightarrow> (string \<Rightarrow> string option) \<Rightarrow> msg + engine_config" where
  "with_overrides c lookup =
     bindR (number_override lookup ''AWH_CONTEXT_MAX_INPUT_TOKENS'' (cb_max_input (ec_budget c))) (\<lambda>a.
     bindR (number_override lookup ''AWH_CONTEXT_RESERVED_OUTPUT_TOKENS'' (cb_reserved_output (ec_budget c))) (\<lambda>b.
     bindR (number_override lookup ''AWH_CONTEXT_SAFETY_MARGIN_TOKENS'' (cb_safety_margin (ec_budget c))) (\<lambda>s.
     Inr \<lparr>ec_enabled = switch_override lookup ''AWH_CONTEXT_ENABLED'' (ec_enabled c),
       ec_budget = \<lparr>cb_max_input = a, cb_reserved_output = b, cb_safety_margin = s\<rparr>,
       ec_auto_offload = switch_override lookup ''AWH_CONTEXT_AUTO_OFFLOAD'' (ec_auto_offload c),
       ec_auto_compress = switch_override lookup ''AWH_CONTEXT_AUTO_COMPRESS'' (ec_auto_compress c),
       ec_memory = switch_override lookup ''AWH_CONTEXT_MEMORY_ENABLED'' (ec_memory c)\<rparr>)))"

end
