(* ===== verification/ContextInvariant.thy ===== *)
theory ContextInvariant
  imports ContextEngine
begin

text \<open>
  The invariant of the context engine and that every operation keeps it, whatever the disk does:
  ids are valid and pairwise different, token counts are those of the contents, records carry the
  item of their name. While no publication is torn, the window file holds the items in memory.
\<close>

section \<open>Operations that keep a predicate\<close>

definition keeps :: "('w \<Rightarrow> bool) \<Rightarrow> ('w, 'e, 'a) io \<Rightarrow> bool" where
  "keeps P f \<longleftrightarrow> (\<forall>w. P w \<longrightarrow> P (snd (f w)))"

named_theorems keeps_rules "how the combinators keep a predicate"

lemma keeps_basic [keeps_rules]: "keeps P (ret x)" "keeps P (fail e)" "keeps P (gets f)"
  by (simp_all add: keeps_def)

lemma keeps_Pair [keeps_rules]: "keeps P (Pair (Inr x))"
  by (simp add: keeps_def)

lemma keeps_modify: "(\<And>w. P w \<Longrightarrow> P (g w)) \<Longrightarrow> keeps P (modify g)"
  by (simp add: keeps_def)

lemma keeps_bindE [keeps_rules]: "keeps P f \<Longrightarrow> (\<And>x. keeps P (g x)) \<Longrightarrow> keeps P (bindE f g)"
  unfolding keeps_def by (auto simp: bindE_run split: prod.split sum.split)

lemma keeps_gets_bindE: "(\<And>w. P w \<Longrightarrow> keeps P (g (f w))) \<Longrightarrow> keeps P (bindE (gets f) g)"
  by (auto simp: keeps_def bindE_run)

lemma keeps_attempt [keeps_rules]: "keeps P f \<Longrightarrow> keeps P (attempt f)"
  unfolding keeps_def by (auto simp: attempt_run split: prod.split)

lemma keeps_if [keeps_rules]: "(b \<Longrightarrow> keeps P f) \<Longrightarrow> (\<not> b \<Longrightarrow> keeps P g) \<Longrightarrow> keeps P (if b then f else g)"
  by simp

lemma keeps_case [keeps_rules]:
  "keeps P n \<Longrightarrow> (\<And>x. y = Some x \<Longrightarrow> keeps P (s x)) \<Longrightarrow> keeps P (case y of None \<Rightarrow> n | Some x \<Rightarrow> s x)"
  "(\<And>x. keeps P (l x)) \<Longrightarrow> (\<And>x. keeps P (r x)) \<Longrightarrow> keeps P (case z of Inl x \<Rightarrow> l x | Inr x \<Rightarrow> r x)"
  by (simp_all split: option.split sum.split)

section \<open>The invariant\<close>

definition item_ok :: "context_item \<Rightarrow> bool" where
  "item_ok i \<longleftrightarrow> is_valid_item_id (ci_id i) \<and> ci_tokens i = count_tokens (ci_content i)"

definition items_ok :: "context_item list \<Rightarrow> bool" where
  "items_ok items \<longleftrightarrow> distinct (item_ids items) \<and> (\<forall>i \<in> set items. item_ok i)"

definition records_ok :: "engine \<Rightarrow> bool" where
  "records_ok w \<longleftrightarrow>
     (\<forall>k r. dir_get (en_offloads w) k = Stored r \<longrightarrow> ci_id (or_item r) = k \<and> ci_state (or_item r) = Offloaded \<and> item_ok (or_item r))
   \<and> (\<forall>k s. dir_get (en_snapshots w) k = Stored s \<longrightarrow> (\<forall>i \<in> set (cs_items s). item_ok i))"

definition engine_ok :: "engine \<Rightarrow> bool" where
  "engine_ok w \<longleftrightarrow> items_ok (en_items w) \<and> records_ok w"

definition holds :: "window_record stored \<Rightarrow> context_item list \<Rightarrow> bool" where
  "holds f items \<longleftrightarrow> (case f of Absent \<Rightarrow> items = [] | Corrupt \<Rightarrow> False
    | Stored r \<Rightarrow> wr_version r = window_schema_version \<and> wr_items r = items)"

lemma holds_Stored [simp]: "holds (Stored r) items \<longleftrightarrow> wr_version r = window_schema_version \<and> wr_items r = items"
  by (simp add: holds_def)

text \<open>
  The invariant with the files: always the items and the records; when no publication is torn
  (\<open>b\<close>), the window file holds the items in memory too.
\<close>

definition sound :: "bool \<Rightarrow> engine \<Rightarrow> bool" where
  "sound b w \<longleftrightarrow> engine_ok w \<and> (b \<longrightarrow> Tears \<notin> set (en_disk w) \<and> holds (en_window w) (en_items w))"

lemma item_ok_update [simp]:
  "item_ok (i\<lparr>ci_state := s\<rparr>) = item_ok i" "item_ok (i\<lparr>ci_recency := x\<rparr>) = item_ok i"
  "item_ok (i\<lparr>ci_recency := x, ci_state := s\<rparr>) = item_ok i"
  by (simp_all add: item_ok_def)

lemma put_item_ids: "set (item_ids (put_item i items)) = insert (ci_id i) (set (item_ids items))"
  by (auto simp: put_item_def item_ids_def)

lemma items_ok_put: "items_ok items \<Longrightarrow> item_ok i \<Longrightarrow> items_ok (put_item i items)"
  by (auto simp: items_ok_def put_item_def item_ids_def distinct_map_filter)

lemma items_ok_filter: "items_ok items \<Longrightarrow> items_ok (filter p items)"
  by (auto simp: items_ok_def item_ids_def distinct_map_filter)

lemma find_put: "find (\<lambda>x. ci_id x = j) (put_item i items) = (if j = ci_id i then Some i else find (\<lambda>x. ci_id x = j) items)"
  by (induction items) (auto simp: put_item_def)

lemma get_item_ok: "items_ok (en_items w) \<Longrightarrow> get_item i w = Some x \<Longrightarrow> item_ok x \<and> ci_id x = i \<and> x \<in> set (en_items w)"
  by (auto simp: get_item_def items_ok_def find_Some_iff)

lemma put_item_keeps_ok: "items_ok (en_items w) \<Longrightarrow> item_ok i \<Longrightarrow> items_ok (put_item i (en_items w))"
  by (rule items_ok_put)

text \<open>What an operation may touch besides the items.\<close>

lemma sound_update [simp]:
  "sound b (w\<lparr>en_protected := p\<rparr>) = sound b w" "sound b (w\<lparr>en_last := l\<rparr>) = sound b w"
  by (simp_all add: sound_def engine_ok_def records_ok_def)

lemma sound_items_ok: "sound b w \<Longrightarrow> items_ok (en_items w)"
  by (simp add: sound_def engine_ok_def)

lemma sound_offloads:
  "sound b w \<Longrightarrow> (\<And>k r. dir_get d k = Stored r \<Longrightarrow> dir_get (en_offloads w) k = Stored r \<or>
     ci_id (or_item r) = k \<and> ci_state (or_item r) = Offloaded \<and> item_ok (or_item r)) \<Longrightarrow> sound b (w\<lparr>en_offloads := d\<rparr>)"
  unfolding sound_def engine_ok_def records_ok_def by (simp, blast)

lemma sound_snapshots:
  "sound b w \<Longrightarrow> (\<And>k s. dir_get d k = Stored s \<Longrightarrow> dir_get (en_snapshots w) k = Stored s \<or> (\<forall>i \<in> set (cs_items s). item_ok i)) \<Longrightarrow>
   sound b (w\<lparr>en_snapshots := d\<rparr>)"
  unfolding sound_def engine_ok_def records_ok_def by (simp, blast)

lemma dir_get_tear: "dir_get (dir_tear i d) k = Stored r \<Longrightarrow> dir_get d k = Stored r"
  by (induction i d rule: dir_tear.induct) (auto simp: dir_get_def split: if_splits)

section \<open>Each operation keeps the invariant\<close>

lemma keeps_require [keeps_rules]: "keeps P (require b m)" "keeps P (bail m)"
  by (simp_all add: require_def bail_def keeps_basic)

lemma keeps_enabled [keeps_rules]: "keeps P enabled_or_bail"
  by (simp add: enabled_or_bail_def keeps_bindE keeps_basic keeps_require)

lemma disk_event_run: "disk_event w = (Inr e, w') \<Longrightarrow> w' = w\<lparr>en_disk := tl (en_disk w)\<rparr> \<and> (e = Works \<or> e \<in> set (en_disk w))"
  by (auto simp: disk_event_def split: list.splits)

lemma keeps_disk_event [keeps_rules]: "keeps (sound b) disk_event"
  by (auto simp: keeps_def disk_event_def sound_def engine_ok_def records_ok_def split: list.split)

lemma keeps_access [keeps_rules]: "keeps (sound b) (access m)"
  by (auto simp: access_def intro!: keeps_rules)

lemma keeps_list_offloads [keeps_rules]: "keeps (sound b) list_offloads"
  by (auto simp: list_offloads_def intro!: keeps_rules)

lemma keeps_list_snapshot_ids [keeps_rules]: "keeps (sound b) list_snapshot_ids"
  by (auto simp: list_snapshot_ids_def intro!: keeps_rules)

text \<open>A publication of the window: the items in memory follow when it worked, and stay when it failed.\<close>

lemma publish_run:
  "persist_window xs p w = (case en_disk w of
      [] \<Rightarrow> (Inr (), w\<lparr>en_window := Stored \<lparr>wr_version = window_schema_version, wr_items = xs, wr_protected = p\<rparr>\<rparr>)
    | Works # es \<Rightarrow> (Inr (), w\<lparr>en_disk := es, en_window := Stored \<lparr>wr_version = window_schema_version, wr_items = xs, wr_protected = p\<rparr>\<rparr>)
    | Fails # es \<Rightarrow> (Inl (Refused (Txt ''failed to publish the context window'')), w\<lparr>en_disk := es\<rparr>)
    | Tears # es \<Rightarrow> (Inl (Refused (Txt ''failed to fsync the context window'')),
        w\<lparr>en_disk := es, en_window := Stored \<lparr>wr_version = window_schema_version, wr_items = xs, wr_protected = p\<rparr>\<rparr>))"
  by (simp add: persist_window_def window_save_def bindE_run disk_event_def bail_def split: list.split disk_event.split)

lemma publish_fail: "persist_window xs p w = (Inl e, w') \<Longrightarrow> sound b w \<Longrightarrow> sound b w'"
  by (auto simp: publish_run sound_def engine_ok_def records_ok_def split: list.splits disk_event.splits)

lemma publish_ok: "persist_window xs p w = (Inr u, w') \<Longrightarrow> sound b w \<Longrightarrow> items_ok xs \<Longrightarrow> sound b (w'\<lparr>en_items := xs\<rparr>)"
  by (auto simp: publish_run sound_def engine_ok_def records_ok_def split: list.splits disk_event.splits)

lemma publish_ok_protected:
  "persist_window xs p w = (Inr u, w') \<Longrightarrow> sound b w \<Longrightarrow> items_ok xs \<Longrightarrow> sound b (w'\<lparr>en_items := xs, en_protected := q\<rparr>)"
  using publish_ok [of xs p w u w' b] sound_update(1) [of b q "w'\<lparr>en_items := xs\<rparr>"] by simp

lemma publish_same: "persist_window (en_items w) p w = (r, w') \<Longrightarrow> sound b w \<Longrightarrow> sound b w'"
  by (auto simp: publish_run sound_def engine_ok_def records_ok_def split: list.splits disk_event.splits)


lemma keeps_sound: "(\<And>w r w'. f w = (r, w') \<Longrightarrow> sound b w \<Longrightarrow> sound b w') \<Longrightarrow> keeps (sound b) f"
  unfolding keeps_def by (metis prod.collapse)

lemma keeps_publish:
  "items_ok xs \<Longrightarrow> keeps (sound b) (bindE (persist_window xs p) (\<lambda>_. bindE (modify (\<lambda>w. w\<lparr>en_items := xs\<rparr>)) (\<lambda>_. ret y)))"
  by (rule keeps_sound) (auto simp: bindE_run dest: publish_ok publish_fail split: prod.splits sum.splits)

lemma keeps_replace_item:
  assumes "item_ok i" shows "keeps (sound b) (replace_item i)"
proof (rule keeps_sound)
  fix w r w' assume run: "replace_item i w = (r, w')" and s: "sound b w"
  have ok: "items_ok (put_item i (en_items w))" using sound_items_ok [OF s] assms by (rule items_ok_put)
  obtain q v where p: "persist_window (put_item i (en_items w)) (en_protected w) w = (q, v)" by fastforce
  show "sound b w'"
    using run p publish_ok [of _ _ w _ v b] publish_fail [of _ _ w _ v b] s ok
    by (cases q) (auto simp: replace_item_def bindE_run attempt_run)
qed

lemma keeps_require_bindE: "(c \<Longrightarrow> keeps P f) \<Longrightarrow> keeps P (bindE (require c m) (\<lambda>_. f))"
  by (cases c) (auto simp: require_def bail_def keeps_def bindE_run)

lemma keeps_gets_pair:
  "(\<And>w. P w \<Longrightarrow> keeps P (g (f w) (h w))) \<Longrightarrow> keeps P (bindE (gets (\<lambda>w. (f w, h w))) (\<lambda>(x, y). g x y))"
  by (auto simp: keeps_def bindE_run)

lemma keeps_post:
  "keeps P f \<Longrightarrow> (\<And>w x w'. P w \<Longrightarrow> f w = (Inr x, w') \<Longrightarrow> Q x) \<Longrightarrow> (\<And>x. Q x \<Longrightarrow> keeps P (g x)) \<Longrightarrow> keeps P (bindE f g)"
  unfolding keeps_def bindE_run by (auto split: prod.split sum.split)

lemma keeps_found:
  "(\<And>x. item_ok x \<Longrightarrow> ci_id x = i \<Longrightarrow> keeps (sound b) (s x)) \<Longrightarrow> keeps (sound b) n \<Longrightarrow>
   keeps (sound b) (bindE (gets (get_item i)) (\<lambda>found. case found of None \<Rightarrow> n | Some x \<Rightarrow> s x))"
  by (rule keeps_gets_bindE) (auto split: option.split dest: get_item_ok [OF sound_items_ok])

lemma keeps_insert_item: "keeps (sound b) (insert_item i)"
  unfolding insert_item_def Let_def
  by (intro keeps_bindE keeps_enabled keeps_require_bindE keeps_require keeps_gets_bindE keeps_gets_pair keeps_publish items_ok_put
      sound_items_ok) (auto simp: item_ok_def keeps_basic)

lemma keeps_protect: "keeps (sound b) (protect i)"
  by (rule keeps_sound) (auto simp: protect_def bindE_run attempt_run dest: publish_same split: prod.splits if_splits)

lemma keeps_unprotect: "keeps (sound b) (unprotect i)"
  by (rule keeps_sound) (auto simp: unprotect_def bindE_run attempt_run dest: publish_same split: prod.splits if_splits)

lemma keeps_offload_put:
  assumes "item_ok (or_item r)" shows "keeps (sound b) (offload_put r)"
proof -
  have put: "keeps (sound b) (modify (\<lambda>w. w\<lparr>en_offloads := dir_put (ci_id (or_item r)) r (en_offloads w)\<rparr>))"
    if "ci_state (or_item r) = Offloaded" using that assms by (intro keeps_modify sound_offloads) (auto split: if_splits)
  have tear: "keeps (sound b) (modify (\<lambda>w. w\<lparr>en_offloads := dir_tear (ci_id (or_item r)) (en_offloads w)\<rparr>))"
    by (intro keeps_modify sound_offloads) (auto dest: dir_get_tear)
  show ?thesis unfolding offload_put_def Let_def
    by (intro keeps_require_bindE keeps_bindE keeps_list_offloads keeps_disk_event keeps_require keeps_gets_bindE)
      (auto split: disk_event.split intro!: put tear keeps_rules)
qed

lemma keeps_offload_get: "keeps (sound b) (offload_get i)"
  by (auto simp: offload_get_def split: stored.split intro!: keeps_rules)

lemma offload_get_ok: "sound b w \<Longrightarrow> offload_get i w = (Inr (Some x), w') \<Longrightarrow> item_ok x \<and> ci_id x = i"
  by (auto simp: offload_get_def bindE_run bail_def sound_def engine_ok_def records_ok_def split: stored.splits prod.splits sum.splits if_splits)

lemma keeps_remove_restored: "keeps (sound b) (remove_restored i)"
proof -
  have "keeps (sound b) (modify (\<lambda>w. w\<lparr>en_offloads := dir_remove i (en_offloads w)\<rparr>))"
    by (intro keeps_modify sound_offloads) (auto split: if_splits)
  then show ?thesis by (auto simp: remove_restored_def intro!: keeps_rules)
qed

lemma keeps_remove_item: "keeps (sound b) (remove_item i)"
proof (rule keeps_sound)
  fix w r w' assume run: "remove_item i w = (r, w')" and s: "sound b w"
  let ?xs = "filter (\<lambda>x. ci_id x \<noteq> i) (en_items w)"
  have ok: "items_ok ?xs" using sound_items_ok [OF s] by (rule items_ok_filter)
  obtain q v where p: "persist_window ?xs (en_protected w - {i}) w = (q, v)" by fastforce
  show "sound b w'"
  proof (cases q)
    case (Inl e)
    with run p s publish_fail [of _ _ w e v b] show ?thesis
      by (auto simp: remove_item_def bindE_run attempt_run Let_def split: if_splits)
  next
    case (Inr u)
    with p s ok have "sound b (v\<lparr>en_items := ?xs, en_protected := en_protected w - {i}\<rparr>)"
      using publish_ok_protected [of _ _ w u v b] by simp
    then have "sound b (snd (remove_restored i (v\<lparr>en_items := ?xs, en_protected := en_protected w - {i}\<rparr>)))"
      using keeps_remove_restored by (simp add: keeps_def)
    with run p s Inr show ?thesis
      by (auto simp: remove_item_def bindE_run attempt_run Let_def split: if_splits prod.splits)
  qed
qed

lemma keeps_offload: "keeps (sound b) (offload now i reason)"
  unfolding offload_def Let_def
  by (intro keeps_bindE keeps_enabled keeps_require_bindE keeps_require keeps_gets_bindE keeps_found keeps_offload_put
      keeps_replace_item) (auto simp: keeps_rules)

lemma keeps_restore_item_to_active: "item_ok x \<Longrightarrow> keeps (sound b) (restore_item_to_active x)"
  unfolding restore_item_to_active_def Let_def
  by (auto intro!: keeps_rules keeps_replace_item)

lemma keeps_restore_stored: "keeps (sound b) (restore_stored i)"
  unfolding restore_stored_def
  by (rule keeps_post [where Q = "\<lambda>found. \<forall>x. found = Some x \<longrightarrow> item_ok x"])
    (auto intro!: keeps_rules keeps_offload_get keeps_restore_item_to_active keeps_remove_restored dest: offload_get_ok)

lemma keeps_restore: "keeps (sound b) (restore i)"
  unfolding restore_def
  by (intro keeps_bindE keeps_enabled keeps_require_bindE keeps_require keeps_found)
    (auto intro!: keeps_rules keeps_restore_item_to_active keeps_remove_restored keeps_restore_stored)

lemma keeps_archive: "keeps (sound b) (archive i)"
  unfolding archive_def
  by (intro keeps_bindE keeps_enabled keeps_require_bindE keeps_require keeps_gets_bindE keeps_found keeps_replace_item)
    (auto simp: keeps_rules)

lemma compressed_item_ok: "item_ok x \<Longrightarrow> item_ok (compressed_item x (compress c opts))"
  by (simp add: item_ok_def compressed_item_def compress_counts)

lemma keeps_compress_item: "keeps (sound b) (compress_item i)"
  unfolding compress_item_def Let_def
  by (intro keeps_bindE keeps_enabled keeps_found) (auto intro!: keeps_rules keeps_replace_item compressed_item_ok)


lemma keeps_apply_decision: "keeps (sound b) (apply_decision now d r)"
  unfolding apply_decision_def Let_def
  by (rule keeps_gets_bindE) (auto split: context_action.split option.split
      intro!: keeps_rules keeps_offload keeps_compress_item keeps_archive)

lemma keeps_apply_decisions: "keeps (sound b) (apply_decisions now ds r)"
  by (induction ds arbitrary: r) (simp_all add: keeps_rules keeps_apply_decision)

lemma keeps_optimize: "keeps (sound b) (optimize lower now task)"
  unfolding optimize_def Let_def
  by (intro keeps_bindE keeps_enabled keeps_gets_pair keeps_apply_decisions keeps_modify keeps_basic) simp

lemma keeps_snapshot_put:
  assumes "\<forall>i \<in> set (cs_items s). item_ok i" shows "keeps (sound b) (snapshot_put s)"
proof -
  have put: "keeps (sound b) (modify (\<lambda>w. w\<lparr>en_snapshots := dir_put (cs_id s) s (en_snapshots w)\<rparr>))"
    using assms by (intro keeps_modify sound_snapshots) (auto split: if_splits)
  have tear: "keeps (sound b) (modify (\<lambda>w. w\<lparr>en_snapshots := dir_tear (cs_id s) (en_snapshots w)\<rparr>))"
    by (intro keeps_modify sound_snapshots) (auto dest: dir_get_tear)
  show ?thesis unfolding snapshot_put_def Let_def
    by (intro keeps_require_bindE keeps_bindE keeps_disk_event keeps_gets_bindE)
      (auto split: disk_event.split intro!: put tear keeps_rules)
qed

lemma keeps_snapshot_get: "keeps (sound b) (snapshot_get i)"
  by (auto simp: snapshot_get_def split: stored.split intro!: keeps_rules)

lemma snapshot_get_ok: "sound b w \<Longrightarrow> snapshot_get i w = (Inr (Some s), w') \<Longrightarrow> \<forall>x \<in> set (cs_items s). item_ok x"
  by (auto simp: snapshot_get_def bindE_run bail_def sound_def engine_ok_def records_ok_def split: stored.splits prod.splits sum.splits if_splits)

lemma keeps_take_snapshot: "keeps (sound b) (take_snapshot now fresh i task session)"
  unfolding take_snapshot_def Let_def
  by (intro keeps_bindE keeps_enabled keeps_gets_pair keeps_list_offloads keeps_snapshot_put keeps_basic)
    (auto simp: items_ok_def dest!: sound_items_ok)

lemma keeps_restore_items: "\<forall>x \<in> set xs. item_ok x \<Longrightarrow> keeps (sound b) (restore_items xs n (ys, zs))"
  by (induction xs arbitrary: n ys zs) (auto intro!: keeps_rules keeps_replace_item)

lemma keeps_restore_snapshot: "keeps (sound b) (restore_snapshot i)"
  unfolding restore_snapshot_def
  by (rule keeps_post [where Q = "\<lambda>found. \<forall>s. found = Some s \<longrightarrow> (\<forall>x \<in> set (cs_items s). item_ok x)"])
    (auto intro!: keeps_rules keeps_snapshot_get keeps_restore_items dest: snapshot_get_ok)

lemma keeps_delete_snapshot: "keeps (sound b) (delete_snapshot i)"
proof -
  have "keeps (sound b) (modify (\<lambda>w. w\<lparr>en_snapshots := dir_remove i (en_snapshots w)\<rparr>))"
    by (intro keeps_modify sound_snapshots) (auto split: if_splits)
  then show ?thesis by (auto simp: delete_snapshot_def intro!: keeps_rules)
qed

lemma keeps_search_hit: "keeps (sound b) (search_hit_of lower needle loc i)"
  by (auto simp: search_hit_of_def intro!: keeps_rules)

lemma keeps_item_hits: "keeps (sound b) (item_hits lower needle is)"
  by (induction "is") (auto intro!: keeps_rules keeps_search_hit)

lemma keeps_offload_hits: "keeps (sound b) (offload_hits lower needle seen is)"
  by (induction "is") (auto intro!: keeps_rules keeps_search_hit keeps_offload_get)

lemma keeps_search_items: "keeps (sound b) (search_items lower query limit)"
  by (auto simp: search_items_def Let_def intro!: keeps_rules keeps_item_hits keeps_offload_hits)

lemma keeps_get_context: "keeps (sound b) (get_context lower q)"
  by (auto simp: get_context_def intro!: keeps_rules)

lemma keeps_engine_status: "keeps (sound b) (engine_status n)"
  by (auto simp: engine_status_def intro!: keeps_rules)

section \<open>Sequences of operations\<close>

datatype engine_command =
  CInsert context_item | CProtect string | CUnprotect string | CRemove string | COffload string string msg | CRestore string
| CArchive string | CCompress string | COptimize string string | CSnapshot string string "string option"
| CRestoreSnapshot string | CDeleteSnapshot string | CSearch string nat | CContext context_request | CStatus

definition quiet :: "'a engine_op \<Rightarrow> unit engine_op" where
  "quiet f = bindE (attempt f) (\<lambda>_. ret ())"

lemma keeps_quiet: "keeps P f \<Longrightarrow> keeps P (quiet f)"
  by (simp add: quiet_def keeps_rules)

text \<open>One call; its result is the caller's.\<close>

definition run_command :: "(string \<Rightarrow> string) \<Rightarrow> engine_command \<Rightarrow> unit engine_op" where
  "run_command lower c = (case c of
      CInsert i \<Rightarrow> quiet (insert_item i) | CProtect i \<Rightarrow> quiet (protect i) | CUnprotect i \<Rightarrow> quiet (unprotect i)
    | CRemove i \<Rightarrow> quiet (remove_item i) | COffload now i r \<Rightarrow> quiet (offload now i r) | CRestore i \<Rightarrow> quiet (restore i)
    | CArchive i \<Rightarrow> quiet (archive i) | CCompress i \<Rightarrow> quiet (compress_item i) | COptimize now t \<Rightarrow> quiet (optimize lower now t)
    | CSnapshot now f t \<Rightarrow> quiet (take_snapshot now f None t None) | CRestoreSnapshot i \<Rightarrow> quiet (restore_snapshot i)
    | CDeleteSnapshot i \<Rightarrow> quiet (delete_snapshot i) | CSearch q n \<Rightarrow> quiet (search_items lower q n)
    | CContext q \<Rightarrow> quiet (get_context lower q) | CStatus \<Rightarrow> quiet (engine_status None))"

fun run_commands :: "(string \<Rightarrow> string) \<Rightarrow> engine_command list \<Rightarrow> engine \<Rightarrow> engine" where
  "run_commands lower [] w = w"
| "run_commands lower (c # cs) w = run_commands lower cs (snd (run_command lower c w))"

lemma keeps_run_command: "keeps (sound b) (run_command lower c)"
  unfolding run_command_def
  by (cases c) (simp_all add: keeps_quiet keeps_insert_item keeps_protect keeps_unprotect keeps_remove_item keeps_offload
      keeps_restore keeps_archive keeps_compress_item keeps_optimize keeps_take_snapshot keeps_restore_snapshot
      keeps_delete_snapshot keeps_search_items keeps_get_context keeps_engine_status)

lemma run_commands_sound: "sound b w \<Longrightarrow> sound b (run_commands lower cs w)"
proof (induction cs arbitrary: w)
  case (Cons c cs)
  with keeps_run_command [of b lower c] show ?case by (simp add: keeps_def)
qed simp

lemma new_engine_sound:
  "engine_new config Absent [] [] script = Inr w \<Longrightarrow> sound (Tears \<notin> set script) w"
  by (auto simp: engine_new_def window_load_def sound_def engine_ok_def records_ok_def items_ok_def item_ids_def holds_def)

end
