(* ===== verification/ContextSelectSafety.thy ===== *)
theory ContextSelectSafety
  imports ContextSelect
begin

text \<open>What a selection keeps and rejects, and what the policy decides about each item.\<close>

lemma pack_spec:
  "pack usable cs (kept, rejected, tokens) = (kept', rejected', tokens') \<Longrightarrow>
   \<exists>taken dropped. kept' = kept @ map ci_id taken \<and> rejected' = rejected @ map ci_id dropped
     \<and> subseq taken cs \<and> mset taken + mset dropped = mset cs \<and> tokens' = tokens + sum_list (map ci_tokens taken)
     \<and> (taken = [] \<or> tokens' \<le> usable) \<and> (\<forall>i \<in> set dropped. usable < tokens' + ci_tokens i)"
proof (induction usable cs "(kept, rejected, tokens)" arbitrary: kept rejected tokens rule: pack.induct)
  case (2 usable i "is" kept rejected tokens)
  show ?case
  proof (cases "tokens + ci_tokens i \<le> usable")
    case True
    with 2(3) have "pack usable is (kept @ [ci_id i], rejected, tokens + ci_tokens i) = (kept', rejected', tokens')" by simp
    from 2(1) [OF True this] obtain taken dropped where t:
      "kept' = (kept @ [ci_id i]) @ map ci_id taken" "rejected' = rejected @ map ci_id dropped" "subseq taken is"
      "mset taken + mset dropped = mset is" "tokens' = tokens + ci_tokens i + sum_list (map ci_tokens taken)"
      "taken = [] \<or> tokens' \<le> usable" "\<forall>i \<in> set dropped. usable < tokens' + ci_tokens i" by blast
    show ?thesis
      by (rule exI [of _ "i # taken"], rule exI [of _ dropped]) (use t True in auto)
  next
    case False
    with 2(3) have "pack usable is (kept, rejected @ [ci_id i], tokens) = (kept', rejected', tokens')" by simp
    from 2(2) [OF False this] obtain taken dropped where t:
      "kept' = kept @ map ci_id taken" "rejected' = (rejected @ [ci_id i]) @ map ci_id dropped" "subseq taken is"
      "mset taken + mset dropped = mset is" "tokens' = tokens + sum_list (map ci_tokens taken)"
      "taken = [] \<or> tokens' \<le> usable" "\<forall>i \<in> set dropped. usable < tokens' + ci_tokens i" by blast
    show ?thesis
      by (rule exI [of _ taken], rule exI [of _ "i # dropped"]) (use t False in \<open>auto simp: subseq_Cons'\<close>)
  qed
qed auto

lemma sorted_wrt_subseq: "subseq xs ys \<Longrightarrow> sorted_wrt P ys \<Longrightarrow> sorted_wrt P xs"
proof (induction xs ys rule: list_emb.induct)
  case (list_emb_Cons2 x y xs ys)
  then show ?case using list_emb_set [of "(=)" xs ys] by fastforce
qed auto

lemma ranked_sorted: "sorted_wrt (\<lambda>i j. score (ci_id j) \<le> score (ci_id i)) (ranked score items)"
proof -
  have "sorted (map (\<lambda>i. (- score (ci_id i), ci_id i)) (ranked score items))" by (simp add: ranked_def)
  then have "sorted_wrt (\<lambda>i j. (- score (ci_id i), ci_id i) \<le> (- score (ci_id j), ci_id j)) (ranked score items)"
    by (simp add: sorted_map)
  then show ?thesis by (rule sorted_wrt_mono_rel [rotated]) (auto simp: less_eq_prod_def)
qed

text \<open>
  C30. A selection loses nothing and wastes nothing: the items it was given are split into those kept
  and those rejected. Every protected item comes first, in its order, and the others follow from
  the best score down. The kept tokens are exactly those of the kept items and go over the usable
  budget only where the protected items alone do; and no rejected item would still fit.
\<close>

theorem selection_exact:
  "\<exists>taken dropped. so_kept (select_within_budget items scores budget protected)
       = map ci_id (filter (\<lambda>i. ci_id i \<in> protected) items) @ map ci_id taken
     \<and> mset (so_rejected (select_within_budget items scores budget protected)) = mset (map ci_id dropped)
     \<and> mset taken + mset dropped = mset (filter (\<lambda>i. ci_id i \<notin> protected) items)
     \<and> sorted_wrt (\<lambda>i j. score_of scores (ci_id j) \<le> score_of scores (ci_id i)) taken
     \<and> so_kept_tokens (select_within_budget items scores budget protected)
       = sum_list (map ci_tokens (filter (\<lambda>i. ci_id i \<in> protected) items)) + sum_list (map ci_tokens taken)
     \<and> so_kept_tokens (select_within_budget items scores budget protected)
       \<le> max (usable_tokens budget) (sum_list (map ci_tokens (filter (\<lambda>i. ci_id i \<in> protected) items)))
     \<and> list_all (\<lambda>i. usable_tokens budget < so_kept_tokens (select_within_budget items scores budget protected) + ci_tokens i) dropped"
proof -
  let ?pinned = "filter (\<lambda>i. ci_id i \<in> protected) items" and ?rest = "filter (\<lambda>i. ci_id i \<notin> protected) items"
  let ?cs = "ranked (score_of scores) ?rest"
  obtain kept rejected tokens where p: "pack (usable_tokens budget) ?cs (map ci_id ?pinned, [], sum_list (map ci_tokens ?pinned))
      = (kept, rejected, tokens)" by (metis prod_cases3)
  from pack_spec [OF p] obtain taken dropped where t: "kept = map ci_id ?pinned @ map ci_id taken" "rejected = map ci_id dropped"
    "subseq taken ?cs" "mset taken + mset dropped = mset ?cs" "tokens = sum_list (map ci_tokens ?pinned) + sum_list (map ci_tokens taken)"
    "taken = [] \<or> tokens \<le> usable_tokens budget" "\<forall>i \<in> set dropped. usable_tokens budget < tokens + ci_tokens i" by auto
  have s: "select_within_budget items scores budget protected = \<lparr>so_kept = kept,
      so_rejected = sort_key (score_of scores) rejected, so_kept_tokens = tokens, so_usable = usable_tokens budget\<rparr>"
    by (simp add: select_within_budget_def p)
  have "sorted_wrt (\<lambda>i j. score_of scores (ci_id j) \<le> score_of scores (ci_id i)) taken"
    by (rule sorted_wrt_subseq [OF t(3) ranked_sorted])
  moreover have "mset ?cs = mset ?rest" by (simp add: ranked_def)
  ultimately show ?thesis unfolding s using t
    by (intro exI [of _ taken] exI [of _ dropped]) (auto simp: list_all_iff)
qed

end
