(* ===== verification/ContextSafety.thy ===== *)
theory ContextSafety
  imports ContextInvariant ContextSelectSafety
begin

text \<open>
  The properties of the context engine: its durable state, the moves between the active context and
  the offload store, the optimization pass and the assembled context.
\<close>

section \<open>Frames\<close>

text \<open>A predicate that looks at the items, the protected ids and the configuration only.\<close>

definition frame :: "(engine \<Rightarrow> bool) \<Rightarrow> bool" where
  "frame P \<longleftrightarrow> (\<forall>v w. en_items v = en_items w \<longrightarrow> en_protected v = en_protected w \<longrightarrow> en_config v = en_config w \<longrightarrow> P w \<longrightarrow> P v)"

lemma frame_update: "frame P \<Longrightarrow> P w \<Longrightarrow> P (w\<lparr>en_disk := d\<rparr>)" "frame P \<Longrightarrow> P w \<Longrightarrow> P (w\<lparr>en_offloads := x\<rparr>)"
  "frame P \<Longrightarrow> P w \<Longrightarrow> P (w\<lparr>en_snapshots := s\<rparr>)" "frame P \<Longrightarrow> P w \<Longrightarrow> P (w\<lparr>en_last := l\<rparr>)"
  by (fastforce simp: frame_def)+

lemma keeps_frame:
  assumes "frame P"
  shows "keeps P disk_event" "keeps P (access m)" "keeps P list_offloads" "keeps P (offload_put r)" "keeps P (offload_get i)"
    "keeps P (remove_restored i)"
proof -
  have m: "keeps P (modify (\<lambda>w. w\<lparr>en_offloads := f w\<rparr>))" for f
    using frame_update(2) [OF assms] by (simp add: keeps_def)
  show d: "keeps P disk_event" using frame_update(1) [OF assms] by (auto simp: keeps_def disk_event_def split: list.split)
  show a: "keeps P (access m)" for m by (auto simp: access_def intro!: keeps_rules d)
  show l: "keeps P list_offloads" by (auto simp: list_offloads_def intro!: keeps_rules a)
  show "keeps P (offload_get i)" by (auto simp: offload_get_def split: stored.split intro!: keeps_rules a)
  show "keeps P (remove_restored i)" by (auto simp: remove_restored_def intro!: keeps_rules a m)
  have "keeps P (case e of Works \<Rightarrow> modify (\<lambda>w. w\<lparr>en_offloads := f w\<rparr>) | Fails \<Rightarrow> bail t
     | Tears \<Rightarrow> bindE (modify (\<lambda>w. w\<lparr>en_offloads := g w\<rparr>)) (\<lambda>_. bail t))" for e f g t
    by (cases e) (simp_all add: m keeps_bindE keeps_require)
  then show "keeps P (offload_put r)" unfolding offload_put_def Let_def
    by (intro keeps_require_bindE keeps_bindE l d keeps_require keeps_gets_bindE) simp_all
qed

lemma replace_item_run:
  "\<exists>d f xs. replace_item x w = (Inr (), w\<lparr>en_disk := d, en_window := f, en_items := xs\<rparr>) \<and> (xs = en_items w \<or> xs = put_item x (en_items w))"
proof -
  obtain q v where p: "persist_window (put_item x (en_items w)) (en_protected w) w = (q, v)" by fastforce
  then obtain d f where v: "v = w\<lparr>en_disk := d, en_window := f\<rparr>"
    by (cases "en_disk w"; cases "hd (en_disk w)") (auto simp: publish_run, (metis engine.surjective engine.update_convs)+)
  have same: "w\<lparr>en_disk := d, en_window := f\<rparr> = w\<lparr>en_disk := d, en_window := f, en_items := en_items w\<rparr>" by simp
  show ?thesis
  proof (cases q)
    case Inl
    then have "replace_item x w = (Inr (), w\<lparr>en_disk := d, en_window := f\<rparr>)"
      by (simp add: replace_item_def bindE_run attempt_run p v)
    with same show ?thesis by metis
  next
    case Inr
    then have "replace_item x w = (Inr (), w\<lparr>en_disk := d, en_window := f, en_items := put_item x (en_items w)\<rparr>)"
      by (simp add: replace_item_def bindE_run attempt_run p v)
    then show ?thesis by blast
  qed
qed

lemma replace_item_works:
  "en_disk w = [] \<Longrightarrow> replace_item x w = (Inr (), w\<lparr>en_window := Stored \<lparr>wr_version = window_schema_version,
     wr_items = put_item x (en_items w), wr_protected = en_protected w\<rparr>, en_items := put_item x (en_items w)\<rparr>)"
  by (simp add: replace_item_def bindE_run attempt_run publish_run)

lemma get_item_put: "get_item j (w\<lparr>en_items := put_item x (en_items w)\<rparr>) = (if j = ci_id x then Some x else get_item j w)"
  by (simp add: get_item_def find_put)

section \<open>Durable state\<close>

text \<open>
  C28. Whatever the disk does (accesses that fail, records and publications torn half-way), every
  sequence of calls on a new engine keeps the ids valid and pairwise different, every token count
  that of its content, and every offload record under its own id; and as long as no publication is
  torn, the window file holds exactly the items in memory.
\<close>

theorem engine_invariant:
  "case engine_new config Absent [] [] script of
     Inl _ \<Rightarrow> False
   | Inr w \<Rightarrow> sound (Tears \<notin> set script) (run_commands lower cs w)"
proof -
  obtain w where n: "engine_new config Absent [] [] script = Inr w" by (simp add: engine_new_def window_load_def)
  from run_commands_sound [OF new_engine_sound [OF n]] show ?thesis by (simp add: n)
qed

lemma sound_restarts:
  assumes "sound True v"
  shows "\<exists>p. engine_new config (en_window v) (en_offloads v) (en_snapshots v) script
     = Inr (v\<lparr>en_config := config, en_protected := p, en_last := None, en_disk := script\<rparr>)"
proof (cases "en_window v")
  case Absent
  with assms show ?thesis by (auto simp: sound_def holds_def engine_new_def window_load_def intro!: exI [of _ "{}"])
next
  case (Stored r)
  with assms have "wr_version r = window_schema_version" "wr_items r = en_items v" "items_ok (en_items v)"
    by (auto simp: sound_def engine_ok_def)
  then have "window_load (en_window v) = Inr r"
    by (auto simp: window_load_def Stored items_ok_def item_ok_def find_None_iff split: option.split)
  with \<open>wr_items r = en_items v\<close> show ?thesis by (auto simp: engine_new_def intro!: exI [of _ "wr_protected r"])
qed (use assms in \<open>auto simp: sound_def holds_def\<close>)

text \<open>
  C29. A restart loses nothing but the marks: after any calls on a new engine over a disk whose
  accesses work or fail as a whole, an engine opened over the files starts with exactly the items
  the old one had in memory, and with its offload records and snapshots.
\<close>

theorem engine_restarts:
  assumes "engine_new config Absent [] [] script = Inr w" and "Tears \<notin> set script"
  shows "\<exists>p. engine_new config' (en_window (run_commands lower cs w)) (en_offloads (run_commands lower cs w))
       (en_snapshots (run_commands lower cs w)) script'
     = Inr ((run_commands lower cs w)\<lparr>en_config := config', en_protected := p, en_last := None, en_disk := script'\<rparr>)"
  by (rule sound_restarts) (use run_commands_sound [OF new_engine_sound [OF assms(1)]] assms(2) in simp)

definition sample_engine :: "disk_event list \<Rightarrow> engine" where
  "sample_engine script = \<lparr>en_config = default_engine_config, en_items = [], en_protected = {}, en_last = None, en_window = Absent,
     en_offloads = [], en_snapshots = [], en_disk = script\<rparr>"

theorem engine_restarts_witness:
  "\<exists>p. engine_new default_engine_config
       (en_window (run_commands id [CInsert (new_item ''a'' SrcUser ''one'' 0), CRemove ''a''] (sample_engine [Works, Fails])))
       (en_offloads (run_commands id [CInsert (new_item ''a'' SrcUser ''one'' 0), CRemove ''a''] (sample_engine [Works, Fails])))
       (en_snapshots (run_commands id [CInsert (new_item ''a'' SrcUser ''one'' 0), CRemove ''a''] (sample_engine [Works, Fails]))) []
     = Inr ((run_commands id [CInsert (new_item ''a'' SrcUser ''one'' 0), CRemove ''a''] (sample_engine [Works, Fails]))
         \<lparr>en_config := default_engine_config, en_protected := p, en_last := None, en_disk := []\<rparr>)"
  by (rule engine_restarts [where config = default_engine_config and script = "[Works, Fails]"])
    (simp_all add: engine_new_def window_load_def sample_engine_def)

section \<open>Restoring\<close>

lemma active_put:
  "active_tokens_of (put_item x items) = active_tokens_of (filter (\<lambda>i. ci_id i \<noteq> ci_id x) items) + (if is_active (ci_state x) then ci_tokens x else 0)"
  by (simp add: active_tokens_of_def put_item_def)

lemma active_filter_le: "active_tokens_of (filter p items) \<le> active_tokens_of items"
  by (induction items) (auto simp: active_tokens_of_def)

lemma active_split:
  "items_ok items \<Longrightarrow> find (\<lambda>x. ci_id x = i) items = Some x \<Longrightarrow>
   active_tokens_of items = active_tokens_of (filter (\<lambda>y. ci_id y \<noteq> i) items) + (if is_active (ci_state x) then ci_tokens x else 0)"
proof (induction items)
  case (Cons y ys)
  show ?case
  proof (cases "ci_id y = i")
    case True
    with Cons(2) have "i \<notin> set (item_ids ys)" by (auto simp: items_ok_def item_ids_def)
    then have "filter (\<lambda>y. ci_id y \<noteq> i) ys = ys" by (induction ys) (auto simp: item_ids_def)
    with True Cons(3) show ?thesis by (simp add: active_tokens_of_def)
  next
    case False
    have "items_ok ys" using Cons(2) by (simp add: items_ok_def item_ids_def)
    with False Cons(1,3) show ?thesis by (simp add: active_tokens_of_def)
  qed
qed simp

lemma restore_item_within:
  assumes "restore_item_to_active x w = (Inr y, w')" "ci_id x \<notin> en_protected w"
  shows "active_tokens w' \<le> usable_tokens (ec_budget (en_config w)) \<and> en_config w' = en_config w"
proof -
  let ?x = "x\<lparr>ci_recency := 1, ci_state := Active\<rparr>"
  have fit: "active_tokens w + ci_tokens x \<le> usable_tokens (ec_budget (en_config w))"
    using assms by (auto simp: restore_item_to_active_def bindE_run require_def bail_def overflow_def is_protected_def split: if_splits)
  obtain d f xs where r: "replace_item ?x w = (Inr (), w\<lparr>en_disk := d, en_window := f, en_items := xs\<rparr>)"
    "xs = en_items w \<or> xs = put_item ?x (en_items w)" using replace_item_run by blast
  from assms(1) fit r(1) have w': "w' = w\<lparr>en_disk := d, en_window := f, en_items := xs\<rparr>"
    by (simp add: restore_item_to_active_def bindE_run require_def overflow_def Let_def)
  have "active_tokens_of xs \<le> active_tokens w + ci_tokens x"
    using r(2) active_filter_le [of "\<lambda>i. ci_id i \<noteq> ci_id x" "en_items w"]
    by (auto simp: active_put active_tokens_def is_active_def)
  with fit show ?thesis by (simp add: w' active_tokens_def)
qed

lemma remove_restored_items: "en_items (snd (remove_restored i w)) = en_items w"
proof -
  have "frame (\<lambda>v. en_items v = en_items w)" by (simp add: frame_def)
  from keeps_frame(6) [OF this, of i] show ?thesis by (simp add: keeps_def)
qed

lemma offload_get_frame:
  assumes "offload_get i w = (q, v)"
  shows "en_items v = en_items w" "en_protected v = en_protected w" "en_config v = en_config w"
proof -
  have f: "frame (\<lambda>v. en_items v = en_items w \<and> en_protected v = en_protected w \<and> en_config v = en_config w)"
    by (simp add: frame_def)
  have "en_items (snd (offload_get i w)) = en_items w \<and> en_protected (snd (offload_get i w)) = en_protected w
      \<and> en_config (snd (offload_get i w)) = en_config w"
    using keeps_frame(5) [OF f, of i] unfolding keeps_def by blast
  then show "en_items v = en_items w" "en_protected v = en_protected w" "en_config v = en_config w"
    by (simp_all add: assms)
qed

lemma restored_then_removed:
  "bindE (restore_item_to_active x) (\<lambda>y. bindE (remove_restored (g y)) (\<lambda>_. ret y)) w = (Inr y, w') \<Longrightarrow>
   ci_id x \<notin> en_protected w \<Longrightarrow> active_tokens w' \<le> usable_tokens (ec_budget (en_config w))"
  using restore_item_within [of x w y] remove_restored_items
  by (auto simp: bindE_run active_tokens_def split: prod.splits sum.splits) (metis snd_conv)

lemma restore_stored_within:
  assumes "sound b w" "restore_stored i w = (Inr y, w')" "i \<notin> en_protected w"
  shows "active_tokens w' \<le> usable_tokens (ec_budget (en_config w))"
proof -
  obtain x v where g: "offload_get i w = (Inr (Some x), v)"
    using assms(2) by (auto simp: restore_stored_def bindE_run bail_def split: prod.splits sum.splits option.splits)
  with assms(2) have "bindE (restore_item_to_active (x\<lparr>ci_state := Active\<rparr>)) (\<lambda>y. bindE (remove_restored i) (\<lambda>_. ret y)) v = (Inr y, w')"
    by (simp add: restore_stored_def bindE_run)
  from restored_then_removed [of "x\<lparr>ci_state := Active\<rparr>" "\<lambda>_. i", OF this] offload_get_ok [OF assms(1) g] offload_get_frame [OF g] assms(3)
  show ?thesis by simp
qed

text \<open>
  Restoring an unprotected item never takes the active context over the usable budget: on every
  way an item comes back (from memory or from the offload store), and whichever accesses to the disk
  fail, a restore that reports success leaves the active tokens within the budget.
\<close>

theorem restore_within_budget:
  assumes "sound b w" and "restore i w = (Inr y, w')" and "i \<notin> en_protected w"
  shows "active_tokens w' \<le> usable_tokens (ec_budget (en_config w))"
proof (cases "get_item i w")
  case None
  with assms have "restore_stored i w = (Inr y, w')"
    by (auto simp: restore_def enabled_or_bail_def bindE_run require_def bail_def split: if_splits)
  with assms restore_stored_within show ?thesis by blast
next
  case (Some x)
  then have x: "ci_id x = i" using get_item_ok [OF sound_items_ok [OF assms(1)]] by simp
  show ?thesis
  proof (cases "ci_state x")
    case Active
    with Some assms(2) show ?thesis
      by (auto simp: restore_def enabled_or_bail_def bindE_run require_def bail_def is_active_def split: if_splits)
  next
    case Offloaded
    with Some assms(2) have "bindE (restore_item_to_active x) (\<lambda>y. bindE (remove_restored (ci_id y)) (\<lambda>_. ret y)) w = (Inr y, w')"
      by (auto simp: restore_def enabled_or_bail_def bindE_run require_def bail_def split: if_splits)
    from restored_then_removed [OF this] x assms(3) show ?thesis by simp
  next
    case Archived
    with Some assms(2) have "restore_stored i w = (Inr y, w')"
      by (auto simp: restore_def enabled_or_bail_def bindE_run require_def bail_def is_active_def split: if_splits)
    with assms restore_stored_within show ?thesis by blast
  qed
qed

definition sample_record :: offload_record where
  "sample_record = \<lparr>or_item = (new_item ''a'' SrcUser ''one'' 1)\<lparr>ci_state := Offloaded\<rparr>, or_at = ''t'', or_reason = None\<rparr>"

definition stored_engine :: "disk_event list \<Rightarrow> engine" where
  "stored_engine script = (sample_engine script)\<lparr>en_offloads := [(''a'', Stored sample_record)]\<rparr>"

lemma sample_item_ok: "item_ok (new_item ''a'' SrcUser ''one'' 1)"
  by code_simp

lemma stored_engine_sound: "sound False (stored_engine script)"
  using sample_item_ok
  by (auto simp: sound_def engine_ok_def records_ok_def items_ok_def item_ids_def stored_engine_def sample_engine_def sample_record_def
      dir_get_def item_ok_def new_item_def split: if_splits)

theorem restore_within_budget_witness:
  "active_tokens (snd (restore ''a'' (stored_engine []))) \<le> usable_tokens default_budget"
proof -
  have "restore ''a'' (stored_engine []) = (Inr ((new_item ''a'' SrcUser ''one'' 1)), snd (restore ''a'' (stored_engine [])))"
    by code_simp
  from restore_within_budget [OF stored_engine_sound this] show ?thesis
    by (simp add: stored_engine_def sample_engine_def default_engine_config_def)
qed

text \<open>
  A restore from the offload store can lose the item while it reports success: when the
  publication of the window fails, the failure is swallowed, and the offload record, by then the
  only copy, is deleted. Afterwards the item is neither in memory, nor in the window file, nor in
  the store.
\<close>

theorem restore_loses_item:
  assumes "ec_enabled (en_config w)" and "is_valid_item_id i" and "get_item i w = None"
    and "dir_get (en_offloads w) i = Stored r"
    and "fits (ec_budget (en_config w)) (active_tokens w + ci_tokens (or_item r))"
    and "en_disk w = Works # Fails # Works # es"
  shows "\<exists>y w'. restore i w = (Inr y, w') \<and> get_item i w' = None \<and> en_window w' = en_window w
     \<and> dir_get (en_offloads w') i = Absent"
proof -
  let ?y = "(or_item r)\<lparr>ci_state := Active, ci_recency := 1, ci_state := Active\<rparr>"
  have g: "offload_get i w = (Inr (Some (or_item r)), w\<lparr>en_disk := Fails # Works # es\<rparr>)"
    using assms by (simp add: offload_get_def bindE_run access_def disk_event_def)
  have a: "restore_item_to_active ((or_item r)\<lparr>ci_state := Active\<rparr>) (w\<lparr>en_disk := Fails # Works # es\<rparr>)
     = (Inr ?y, w\<lparr>en_disk := Works # es\<rparr>)"
    using assms(5) by (simp add: restore_item_to_active_def bindE_run require_def overflow_iff active_tokens_def Let_def
        replace_item_def attempt_run publish_run)
  have r: "remove_restored i (w\<lparr>en_disk := Works # es\<rparr>)
     = (Inr True, w\<lparr>en_disk := es, en_offloads := dir_remove i (en_offloads w)\<rparr>)"
    using assms by (simp add: remove_restored_def bindE_run access_def disk_event_def)
  have "restore i w = (Inr ?y, w\<lparr>en_disk := es, en_offloads := dir_remove i (en_offloads w)\<rparr>)"
    using assms(1-3) by (simp add: restore_def enabled_or_bail_def bindE_run require_def restore_stored_def g a r)
  with assms(3) show ?thesis by (simp add: get_item_def)
qed

theorem restore_loses_item_witness:
  "\<exists>y w'. restore ''a'' (stored_engine [Works, Fails, Works]) = (Inr y, w') \<and> get_item ''a'' w' = None
     \<and> en_window w' = en_window (stored_engine [Works, Fails, Works]) \<and> dir_get (en_offloads w') ''a'' = Absent"
proof (rule restore_loses_item [where es = "[]" and r = sample_record])
  show "is_valid_item_id ''a''" by code_simp
  show "fits (ec_budget (en_config (stored_engine [Works, Fails, Works])))
     (active_tokens (stored_engine [Works, Fails, Works]) + ci_tokens (or_item sample_record))" by code_simp
qed (simp_all add: stored_engine_def sample_engine_def default_engine_config_def get_item_def dir_get_def)

section \<open>Offloading\<close>

lemma offload_put_works:
  assumes "en_disk w = []"
  shows "offload_put r w = (Inr (), w\<lparr>en_offloads := dir_put (ci_id (or_item r)) r (en_offloads w)\<rparr>) \<or> (\<exists>e. offload_put r w = (Inl e, w))"
  using assms by (auto simp: offload_put_def Let_def bindE_run require_def bail_def list_offloads_def access_def disk_event_def)

lemma offload_works:
  assumes "en_disk w = []" "offload now i reason w = (q, w')"
  shows "case q of Inl _ \<Rightarrow> w' = w | Inr _ \<Rightarrow> \<exists>x rec f. get_item i w = Some x \<and> is_active (ci_state x) \<and> i \<notin> en_protected w
     \<and> ec_enabled (en_config w) \<and> is_valid_item_id i
     \<and> w' = w\<lparr>en_offloads := dir_put (ci_id x) rec (en_offloads w), en_window := f,
         en_items := put_item (x\<lparr>ci_state := Offloaded\<rparr>) (en_items w)\<rparr>"
proof (cases "ec_enabled (en_config w) \<and> is_valid_item_id i \<and> i \<notin> en_protected w")
  case False
  with assms(2) show ?thesis
    by (auto simp: offload_def enabled_or_bail_def bindE_run require_def bail_def is_protected_def split: if_splits)
next
  case True
  show ?thesis
  proof (cases "get_item i w")
    case None
    with True assms(2) show ?thesis
      by (auto simp: offload_def enabled_or_bail_def bindE_run require_def bail_def is_protected_def)
  next
    case (Some x)
    let ?x = "x\<lparr>ci_state := Offloaded\<rparr>"
    define rec where "rec = \<lparr>or_item = ?x, or_at = now, or_reason = (if blank_msg reason then None else Some reason)\<rparr>"
    define f where "f = Stored \<lparr>wr_version = window_schema_version, wr_items = put_item ?x (en_items w), wr_protected = en_protected w\<rparr>"
    have run: "(if is_active (ci_state x) then bindE (offload_put rec) (\<lambda>_. replace_item ?x) w
        else (Inl (Refused (Fmt ''item {} is already inactive'' [Txt i])), w)) = (q, w')"
      using True Some assms(2)
      by (simp add: offload_def enabled_or_bail_def bindE_run require_def bail_def is_protected_def Let_def rec_def split: if_splits)
    have id: "ci_id (or_item rec) = ci_id x" by (simp add: rec_def)
    have replaced: "replace_item ?x (w\<lparr>en_offloads := dir_put (ci_id x) rec (en_offloads w)\<rparr>)
      = (Inr (), w\<lparr>en_offloads := dir_put (ci_id x) rec (en_offloads w), en_window := f, en_items := put_item ?x (en_items w)\<rparr>)"
      using assms(1) by (simp add: replace_item_works f_def)
    from offload_put_works [OF assms(1), of rec] id
    consider (put) "offload_put rec w = (Inr (), w\<lparr>en_offloads := dir_put (ci_id x) rec (en_offloads w)\<rparr>)"
      | (no) e where "offload_put rec w = (Inl e, w)" by auto
    then show ?thesis
    proof cases
      case put
      with run True Some show ?thesis by (cases "is_active (ci_state x)") (auto simp: bindE_run replaced intro!: exI [of _ rec] exI [of _ f])
    next
      case no
      with run show ?thesis by (cases "is_active (ci_state x)") (auto simp: bindE_run)
    qed
  qed
qed

text \<open>
  Offloading and restoring are inverse: over a disk that works, an item that was offloaded comes
  back as it was, active and marked recent, with the same active token count as before, the other
  items untouched and its offload record gone.
\<close>

theorem offload_restore_roundtrip:
  assumes "sound b w" and "en_disk w = []" and "fits (ec_budget (en_config w)) (active_tokens w)"
    and "offload now i reason w = (Inr (), w1)"
  shows "\<exists>x w2. get_item i w = Some x \<and> restore i w1 = (Inr (x\<lparr>ci_recency := 1\<rparr>), w2)
     \<and> (\<lambda>j. get_item j w2) = (\<lambda>j. get_item j w)(i := Some (x\<lparr>ci_recency := 1\<rparr>))
     \<and> active_tokens w2 = active_tokens w \<and> dir_get (en_offloads w2) i = Absent"
proof -
  obtain x rec f where x: "get_item i w = Some x" "is_active (ci_state x)" "i \<notin> en_protected w" "ec_enabled (en_config w)"
    "is_valid_item_id i" and w1: "w1 = w\<lparr>en_offloads := dir_put (ci_id x) rec (en_offloads w), en_window := f,
      en_items := put_item (x\<lparr>ci_state := Offloaded\<rparr>) (en_items w)\<rparr>"
    using offload_works [OF assms(2,4)] by auto
  have ok: "items_ok (en_items w)" by (rule sound_items_ok [OF assms(1)])
  then have i: "ci_id x = i" using get_item_ok x(1) by blast
  let ?x = "x\<lparr>ci_recency := 1\<rparr>" and ?rest = "filter (\<lambda>y. ci_id y \<noteq> i) (en_items w)"
  have same: "x\<lparr>ci_state := Offloaded, ci_recency := 1, ci_state := Active\<rparr> = ?x"
    using x(2) by (cases x) (simp add: is_active_def)
  have split: "active_tokens w = active_tokens_of ?rest + ci_tokens x"
    using active_split [OF ok, of i x] x(1,2) by (simp add: active_tokens_def get_item_def)
  have active1: "active_tokens w1 = active_tokens_of ?rest"
    by (simp add: w1 active_tokens_def active_put i is_active_def)
  have items2: "put_item ?x (en_items w1) = put_item ?x (en_items w)"
    by (simp add: w1 put_item_def i)
  have disk1: "en_disk w1 = []" "en_config w1 = en_config w" using assms(2) by (simp_all add: w1)
  let ?v = "w1\<lparr>en_window := Stored \<lparr>wr_version = window_schema_version, wr_items = put_item ?x (en_items w1),
      wr_protected = en_protected w1\<rparr>, en_items := put_item ?x (en_items w1)\<rparr>"
  have a: "restore_item_to_active (x\<lparr>ci_state := Offloaded\<rparr>) w1 = (Inr ?x, ?v)"
    using assms(3) split active1 same disk1
    by (simp add: restore_item_to_active_def bindE_run require_def overflow_iff Let_def replace_item_works)
  have present: "dir_get (en_offloads ?v) i \<noteq> Absent" by (simp add: w1 i)
  have r: "remove_restored i ?v = (Inr True, ?v\<lparr>en_offloads := dir_remove i (en_offloads w1)\<rparr>)"
    using present x(5) disk1 by (simp add: remove_restored_def bindE_run access_def disk_event_def)
  have g1: "get_item i w1 = Some (x\<lparr>ci_state := Offloaded\<rparr>)" by (simp add: w1 get_item_def find_put i)
  have R: "restore i w1 = (Inr ?x, ?v\<lparr>en_offloads := dir_remove i (en_offloads w1)\<rparr>)"
    using x(4,5) disk1 i by (simp add: restore_def enabled_or_bail_def bindE_run require_def g1 a r)
  have G: "(\<lambda>j. get_item j (?v\<lparr>en_offloads := dir_remove i (en_offloads w1)\<rparr>)) = (\<lambda>j. get_item j w)(i := Some ?x)"
    by (rule ext) (simp add: get_item_def items2 find_put i)
  have A: "active_tokens (?v\<lparr>en_offloads := dir_remove i (en_offloads w1)\<rparr>) = active_tokens w"
    using x(2) by (simp add: active_tokens_def items2 active_put i split [unfolded active_tokens_def])
  have D: "dir_get (en_offloads (?v\<lparr>en_offloads := dir_remove i (en_offloads w1)\<rparr>)) i = Absent" by simp
  show ?thesis
    by (rule exI [of _ x], rule exI [of _ "?v\<lparr>en_offloads := dir_remove i (en_offloads w1)\<rparr>"]) (intro conjI x(1) R G A D)
qed

definition filled_engine :: engine where
  "filled_engine = (sample_engine [])\<lparr>en_items := [new_item ''a'' SrcUser ''one'' 1]\<rparr>"

lemma filled_engine_sound: "sound False filled_engine"
  using sample_item_ok by (auto simp: sound_def engine_ok_def records_ok_def items_ok_def item_ids_def filled_engine_def sample_engine_def)

theorem offload_restore_roundtrip_witness:
  "\<exists>x w2. get_item ''a'' filled_engine = Some x
     \<and> restore ''a'' (snd (offload ''t'' ''a'' (Txt ''manual'') filled_engine)) = (Inr (x\<lparr>ci_recency := 1\<rparr>), w2)
     \<and> (\<lambda>j. get_item j w2) = (\<lambda>j. get_item j filled_engine)(''a'' := Some (x\<lparr>ci_recency := 1\<rparr>))
     \<and> active_tokens w2 = active_tokens filled_engine \<and> dir_get (en_offloads w2) ''a'' = Absent"
proof (rule offload_restore_roundtrip [OF filled_engine_sound])
  show "offload ''t'' ''a'' (Txt ''manual'') filled_engine = (Inr (), snd (offload ''t'' ''a'' (Txt ''manual'') filled_engine))"
    by code_simp
  show "fits (ec_budget (en_config filled_engine)) (active_tokens filled_engine)" by code_simp
qed (simp add: filled_engine_def sample_engine_def)

end
