(* ===== verification/ContextPass.thy ===== *)
theory ContextPass
  imports ContextSafety
begin

text \<open>
  The optimization pass: every item is decided once, protected and inactive items are left alone,
  and the reported token counts are those of the engine.
\<close>

section \<open>The decisions of a pass\<close>

definition decided :: "engine \<Rightarrow> context_decision \<Rightarrow> bool" where
  "decided w d \<longleftrightarrow> cd_action d = Keep \<or>
     (\<exists>x \<in> set (en_items w). ci_id x = cd_id d \<and> ci_tokens x = cd_token_cost d \<and> is_active (ci_state x) \<and> cd_id d \<notin> en_protected w)"

lemma decide_item_id: "cd_id (decide_item p protected (s, i)) = ci_id i"
  by (auto simp: decide_item_def Let_def split: prod.split)

lemma decide_item_decided: "i \<in> set (en_items w) \<Longrightarrow> decided w (decide_item p (en_protected w) (s, i))"
  by (auto simp: decide_item_def decided_def Let_def)

lemma engine_decide_ids: "mset (map cd_id (engine_decide lower task w)) = mset (item_ids (en_items w))"
  by (simp add: engine_decide_def decide_def item_ids_def image_mset.compositionality comp_def decide_item_id)

lemma engine_decide_decided: "d \<in> set (engine_decide lower task w) \<Longrightarrow> decided w d"
  by (auto simp: engine_decide_def decide_def intro: decide_item_decided)

lemma engine_decide_distinct: "items_ok (en_items w) \<Longrightarrow> distinct (map cd_id (engine_decide lower task w))"
  by (metis engine_decide_ids items_ok_def mset_eq_imp_distinct_iff)

section \<open>Every item is decided once\<close>

definition pass_ids :: "pass_result \<Rightarrow> string multiset" where
  "pass_ids r = mset (pr_kept r) + mset (pr_offloaded r) + mset (pr_compressed r) + mset (pr_archived r)"

lemma apply_decision_ids:
  "\<exists>r' w'. apply_decision now d r w = (Inr r', w') \<and> pass_ids r' = add_mset (cd_id d) (pass_ids r)"
  by (auto simp: apply_decision_def Let_def bindE_run attempt_run keep_id_def pass_ids_def
      split: context_action.split sum.split option.split prod.split)

lemma apply_decisions_ids:
  "\<exists>r' w'. apply_decisions now ds r w = (Inr r', w') \<and> pass_ids r' = mset (map cd_id ds) + pass_ids r"
proof (induction ds arbitrary: r w)
  case (Cons d ds)
  obtain r1 w1 where 1: "apply_decision now d r w = (Inr r1, w1)" "pass_ids r1 = add_mset (cd_id d) (pass_ids r)"
    using apply_decision_ids by blast
  obtain r2 w2 where 2: "apply_decisions now ds r1 w1 = (Inr r2, w2)" "pass_ids r2 = mset (map cd_id ds) + pass_ids r1"
    using Cons by blast
  show ?case by (rule exI [of _ r2], rule exI [of _ w2]) (simp add: bindE_run 1 2)
qed simp

text \<open>
  A pass fails only on an engine that is switched off, changing nothing; otherwise the ids it reports
  as kept, offloaded, compressed and archived are together exactly the ids of the items.
\<close>

lemma optimize_partitions:
  "case optimize lower now task w of
     (Inl _, w') \<Rightarrow> \<not> ec_enabled (en_config w) \<and> w' = w
   | (Inr s, w') \<Rightarrow> mset (ds_kept s @ ds_offloaded s @ ds_compressed s @ ds_archived s) = mset (item_ids (en_items w))
       \<and> en_last w' = Some s"
proof (cases "ec_enabled (en_config w)")
  case True
  let ?r = "\<lparr>pr_kept = [], pr_offloaded = [], pr_compressed = [], pr_archived = [], pr_tokens = active_tokens w\<rparr>"
  obtain r v where r: "apply_decisions now (engine_decide lower task w) ?r w = (Inr r, v)"
    "pass_ids r = mset (map cd_id (engine_decide lower task w)) + pass_ids ?r" using apply_decisions_ids by blast
  from r(2) have "pass_ids r = mset (item_ids (en_items w))" by (simp only: engine_decide_ids) (simp add: pass_ids_def)
  with True r(1) show ?thesis
    by (simp add: optimize_def enabled_or_bail_def bindE_run require_def Let_def pass_ids_def ac_simps)
next
  case False
  then show ?thesis by (simp add: optimize_def enabled_or_bail_def bindE_run require_def bail_def)
qed

section \<open>What a pass leaves alone\<close>

lemma frame_get_item: "frame (\<lambda>w. get_item i w = q)"
  by (simp add: frame_def get_item_def)

lemma keeps_other_item: "ci_id x \<noteq> i \<Longrightarrow> keeps (\<lambda>w. get_item i w = q) (replace_item x)"
proof -
  assume x: "ci_id x \<noteq> i"
  have "get_item i (snd (replace_item x w)) = get_item i w" for w
    using replace_item_run [of x w] x by (auto simp: get_item_def find_put)
  then show ?thesis by (simp add: keeps_def)
qed

lemma get_item_id: "get_item j w = Some x \<Longrightarrow> ci_id x = j"
  by (auto simp: get_item_def find_Some_iff)

lemma keeps_apply_other:
  assumes "cd_id d \<noteq> i \<or> cd_action d = Keep"
  shows "keeps (\<lambda>w. get_item i w = q) (apply_decision now d r)"
proof (cases "cd_action d = Keep")
  case True
  then show ?thesis by (simp add: apply_decision_def Let_def keeps_rules)
next
  case False
  let ?P = "\<lambda>w. get_item i w = q"
  have j: "cd_id d \<noteq> i" using assms False by simp
  note f = keeps_frame [OF frame_get_item [of i q]]
  have found: "keeps ?P (bindE (gets (get_item (cd_id d))) (\<lambda>found. case found of None \<Rightarrow> n | Some x \<Rightarrow> s x))"
    if "keeps ?P n" "\<And>x. ci_id x = cd_id d \<Longrightarrow> keeps ?P (s x)" for n s
    by (rule keeps_gets_bindE) (use that get_item_id in \<open>auto split: option.split\<close>)
  have "keeps ?P (offload now (cd_id d) (cd_reason d))" unfolding offload_def Let_def
    by (intro keeps_bindE keeps_enabled keeps_require keeps_basic found f keeps_other_item) (use j in auto)
  moreover have "keeps ?P (archive (cd_id d))" unfolding archive_def
    by (intro keeps_bindE keeps_enabled keeps_require keeps_basic found f keeps_other_item) (use j in auto)
  moreover have "keeps ?P (compress_item (cd_id d))" unfolding compress_item_def Let_def
    by (intro keeps_bindE keeps_enabled found) (use j in \<open>auto intro!: keeps_rules keeps_other_item simp: compressed_item_def\<close>)
  ultimately show ?thesis unfolding apply_decision_def Let_def
    by (auto split: context_action.split option.split intro!: keeps_rules)
qed

lemma keeps_apply_others:
  "\<forall>d \<in> set ds. cd_id d \<noteq> i \<or> cd_action d = Keep \<Longrightarrow> keeps (\<lambda>w. get_item i w = q) (apply_decisions now ds r)"
  by (induction ds arbitrary: r) (simp_all add: keeps_rules keeps_apply_other)

text \<open>
  A pass leaves alone what it must: an item that is protected, or that is not active, is after
  the pass what it was before, whatever the scores and whatever the disk does.
\<close>

theorem optimize_spares:
  assumes "sound b w" and "i \<in> en_protected w \<or> (\<exists>x. get_item i w = Some x \<and> \<not> is_active (ci_state x))"
  shows "get_item i (snd (optimize lower now task w)) = get_item i w"
proof -
  let ?ds = "engine_decide lower task w"
  have "cd_id d \<noteq> i \<or> cd_action d = Keep" if d: "d \<in> set ?ds" for d
  proof (rule ccontr)
    assume "\<not> (cd_id d \<noteq> i \<or> cd_action d = Keep)"
    then have i: "cd_id d = i" "cd_action d \<noteq> Keep" by auto
    with engine_decide_decided [OF d] obtain x where x: "x \<in> set (en_items w)" "ci_id x = i" "is_active (ci_state x)" "i \<notin> en_protected w"
      by (auto simp: decided_def)
    with assms(2) obtain y where y: "get_item i w = Some y" "\<not> is_active (ci_state y)" by auto
    from get_item_ok [OF sound_items_ok [OF assms(1)] y(1)] x sound_items_ok [OF assms(1)] have "x = y"
      by (auto simp: items_ok_def item_ids_def distinct_map inj_on_def)
    with x y show False by simp
  qed
  then have k: "keeps (\<lambda>v. get_item i v = get_item i w) (apply_decisions now ?ds r)" for r by (intro keeps_apply_others) blast
  have "get_item i (snd (bindE (apply_decisions now ?ds r) (\<lambda>r. bindE (modify (\<lambda>w. w\<lparr>en_last := Some (g r)\<rparr>)) (\<lambda>_. ret (g r))) w)) = get_item i w"
    for r and g :: "pass_result \<Rightarrow> decision_summary"
    using k [of r] by (auto simp: keeps_def bindE_run get_item_def split: prod.split sum.split)
  then show ?thesis
    by (cases "ec_enabled (en_config w)")
      (simp_all add: optimize_def enabled_or_bail_def bindE_run require_def bail_def Let_def)
qed

definition busy_engine :: "disk_event list \<Rightarrow> engine" where
  "busy_engine script = (sample_engine script)\<lparr>en_items := [new_item ''a'' SrcUser ''one'' 1, new_item ''b'' SrcTool ''two'' 1],
     en_protected := {''a''}\<rparr>"

lemma busy_engine_sound: "sound False (busy_engine script)"
proof -
  have "item_ok (new_item ''a'' SrcUser ''one'' 1)" "item_ok (new_item ''b'' SrcTool ''two'' 1)" by code_simp+
  then show ?thesis
    by (auto simp: sound_def engine_ok_def records_ok_def items_ok_def item_ids_def busy_engine_def sample_engine_def new_item_def)
qed

theorem optimize_spares_witness:
  "get_item ''a'' (snd (optimize id ''now'' ''task'' (busy_engine [Fails]))) = get_item ''a'' (busy_engine [Fails])"
  by (rule optimize_spares [OF busy_engine_sound]) (simp add: busy_engine_def)

section \<open>What a pass reports\<close>

lemma items_ok_put_same: "items_ok items \<Longrightarrow> find (\<lambda>x. ci_id x = i) items = Some x \<Longrightarrow> ci_id y = i \<Longrightarrow> is_active (ci_state x) \<Longrightarrow>
   active_tokens_of (put_item y items) + ci_tokens x = active_tokens_of items + (if is_active (ci_state y) then ci_tokens y else 0)"
  using active_split [of items i x] by (simp add: active_put)

definition accounted :: "engine \<Rightarrow> pass_result \<Rightarrow> bool" where
  "accounted w r \<longleftrightarrow> en_disk w = [] \<and> items_ok (en_items w) \<and> pr_tokens r = active_tokens w"

text \<open>The items of a state that matter to the decisions still to come.\<close>

definition pending :: "engine \<Rightarrow> context_decision \<Rightarrow> bool" where
  "pending w d \<longleftrightarrow> cd_action d = Keep \<or>
     (\<exists>x. get_item (cd_id d) w = Some x \<and> ci_tokens x = cd_token_cost d \<and> is_active (ci_state x) \<and> item_ok x)"

lemma accounted_replace:
  assumes "accounted w r" "get_item i w = Some x" "is_active (ci_state x)" "ci_id y = i" "item_ok y"
    and "en_items w' = put_item y (en_items w)" "en_disk w' = []"
    and "pr_tokens r' = pr_tokens r - (if is_active (ci_state y) then ci_tokens x - ci_tokens y else ci_tokens x)"
    and "is_active (ci_state y) \<Longrightarrow> ci_tokens y \<le> ci_tokens x"
  shows "accounted w' r'"
proof -
  have ok: "items_ok (en_items w)" using assms(1) by (simp add: accounted_def)
  have "active_tokens_of (put_item y (en_items w)) + ci_tokens x = active_tokens w + (if is_active (ci_state y) then ci_tokens y else 0)"
    using items_ok_put_same [OF ok, of i x y] assms(2-4) by (simp add: active_tokens_def get_item_def)
  then have "pr_tokens r' = active_tokens w'"
    using assms(1,6,8,9) by (auto simp: accounted_def active_tokens_def split: if_splits)
  with ok assms(5-7) show ?thesis by (simp add: accounted_def items_ok_put)
qed

lemma item_ok_state: "item_ok (x\<lparr>ci_state := s\<rparr>) = item_ok x"
  by simp

lemma archive_works:
  assumes "en_disk w = []" "archive i w = (q, w')"
  shows "case q of Inl _ \<Rightarrow> w' = w | Inr _ \<Rightarrow> \<exists>x f. get_item i w = Some x
     \<and> w' = w\<lparr>en_window := f, en_items := put_item (x\<lparr>ci_state := Archived\<rparr>) (en_items w)\<rparr>"
  using assms by (cases "get_item i w")
    (auto simp: archive_def enabled_or_bail_def bindE_run require_def bail_def replace_item_works split: if_splits)

lemma compress_item_works:
  assumes "en_disk w = []" "compress_item i w = (q, w')"
  shows "case q of Inr (Some n) \<Rightarrow> \<exists>x f. get_item i w = Some x \<and> is_active (ci_state x)
       \<and> n = cm_saved (compress (ci_content x) default_options) \<and> n \<noteq> 0
       \<and> w' = w\<lparr>en_window := f, en_items := put_item (compressed_item x (compress (ci_content x) default_options)) (en_items w)\<rparr>
     | _ \<Rightarrow> w' = w"
  using assms by (cases "get_item i w")
    (auto simp: compress_item_def enabled_or_bail_def bindE_run require_def bail_def replace_item_works Let_def split: if_splits)

lemma apply_decision_accounted:
  assumes "accounted w r" "pending w d" "apply_decision now d r w = (Inr r', w')" "cd_action d \<noteq> Restore" "cd_action d \<noteq> Ignore"
  shows "accounted w' r'"
proof (cases "cd_action d = Keep")
  case True
  with assms show ?thesis by (auto simp: apply_decision_def Let_def bindE_run keep_id_def accounted_def)
next
  case False
  with assms(2) obtain x where x: "get_item (cd_id d) w = Some x" "ci_tokens x = cd_token_cost d" "is_active (ci_state x)" "item_ok x"
    by (auto simp: pending_def)
  have same: "accounted w (keep_id i r)" for i using assms(1) by (simp add: accounted_def keep_id_def)
  have disk: "en_disk w = []" using assms(1) by (simp add: accounted_def)
  have id: "ci_id x = cd_id d" using x(1) by (rule get_item_id)
  consider (off) "cd_action d = Offload" | (comp) "cd_action d = Compress" | (arch) "cd_action d = Archive"
    using False assms(4,5) by (cases "cd_action d") auto
  then show ?thesis
  proof cases
    case off
    obtain q v where q: "offload now (cd_id d) (cd_reason d) w = (q, v)" by fastforce
    have "accounted w' r'" if auto: "ec_auto_offload (en_config w)"
    proof (cases q)
      case (Inl e)
      with offload_works [OF disk q] q off auto assms(3) same show ?thesis
        by (auto simp: apply_decision_def Let_def bindE_run attempt_run)
    next
      case (Inr u)
      with offload_works [OF disk q] x(1) obtain rec f where v: "v = w\<lparr>en_offloads := dir_put (ci_id x) rec (en_offloads w),
        en_window := f, en_items := put_item (x\<lparr>ci_state := Offloaded\<rparr>) (en_items w)\<rparr>" by auto
      have "accounted v (r\<lparr>pr_offloaded := pr_offloaded r @ [cd_id d], pr_tokens := pr_tokens r - cd_token_cost d\<rparr>)"
        by (rule accounted_replace [OF assms(1) x(1,3), where y = "x\<lparr>ci_state := Offloaded\<rparr>"])
          (use x disk id v in \<open>simp_all add: is_active_def\<close>)
      with Inr q off auto assms(3) show ?thesis by (auto simp: apply_decision_def Let_def bindE_run attempt_run)
    qed
    with off assms(3) same show ?thesis
      by (cases "ec_auto_offload (en_config w)") (auto simp: apply_decision_def Let_def bindE_run)
  next
    case arch
    obtain q v where q: "archive (cd_id d) w = (q, v)" by fastforce
    show ?thesis
    proof (cases q)
      case (Inl e)
      with archive_works [OF disk q] q arch assms(3) same show ?thesis
        by (auto simp: apply_decision_def Let_def bindE_run attempt_run)
    next
      case (Inr u)
      with archive_works [OF disk q] x(1) obtain f where v: "v = w\<lparr>en_window := f,
        en_items := put_item (x\<lparr>ci_state := Archived\<rparr>) (en_items w)\<rparr>" by auto
      have "accounted v (r\<lparr>pr_archived := pr_archived r @ [cd_id d], pr_tokens := pr_tokens r - cd_token_cost d\<rparr>)"
        by (rule accounted_replace [OF assms(1) x(1,3), where y = "x\<lparr>ci_state := Archived\<rparr>"])
          (use x disk id v in \<open>simp_all add: is_active_def\<close>)
      with Inr q arch assms(3) show ?thesis by (auto simp: apply_decision_def Let_def bindE_run attempt_run)
    qed
  next
    case comp
    obtain q v where q: "compress_item (cd_id d) w = (q, v)" by fastforce
    let ?c = "compress (ci_content x) default_options"
    have t: "ci_tokens x = cm_original ?c" using x(4) by (simp add: item_ok_def compress_counts)
    show ?thesis
    proof (cases q)
      case (Inl e)
      with compress_item_works [OF disk q] comp assms(3) q same disk show ?thesis
        by (cases "ec_auto_compress (en_config w)") (auto simp: apply_decision_def Let_def bindE_run attempt_run)
    next
      case (Inr o1)
      show ?thesis
      proof (cases o1)
        case None
        with Inr compress_item_works [OF disk q] comp assms(3) q same disk show ?thesis
          by (cases "ec_auto_compress (en_config w)") (auto simp: apply_decision_def Let_def bindE_run attempt_run)
      next
        case (Some n)
        with Inr compress_item_works [OF disk q] x obtain f where v: "n = cm_saved ?c" "n \<noteq> 0"
          "v = w\<lparr>en_window := f, en_items := put_item (compressed_item x ?c) (en_items w)\<rparr>" by auto
        have le: "cm_tokens ?c \<le> ci_tokens x" and n: "n = ci_tokens x - cm_tokens ?c"
          using v(1,2) t compress_counts(3) [of "ci_content x" default_options] by auto
        have "accounted v (r\<lparr>pr_compressed := pr_compressed r @ [cd_id d], pr_tokens := pr_tokens r - n\<rparr>)"
          by (rule accounted_replace [OF assms(1) x(1,3), where y = "compressed_item x ?c"])
            (use x disk id v(3) le n in \<open>simp_all add: compressed_item_ok\<close>, simp_all add: compressed_item_def)
        with Some Inr comp assms(3) q same disk show ?thesis
          by (cases "ec_auto_compress (en_config w)") (auto simp: apply_decision_def Let_def bindE_run attempt_run)
      qed
    qed
  qed
qed

lemma apply_decisions_accounted:
  "accounted w r \<Longrightarrow> \<forall>d \<in> set ds. pending w d \<and> cd_action d \<noteq> Restore \<and> cd_action d \<noteq> Ignore \<Longrightarrow> distinct (map cd_id ds) \<Longrightarrow>
   apply_decisions now ds r w = (Inr r', w') \<Longrightarrow> accounted w' r'"
proof (induction ds arbitrary: r w)
  case (Cons d ds)
  obtain r1 w1 where 1: "apply_decision now d r w = (Inr r1, w1)" using apply_decision_ids by blast
  have step: "accounted w1 r1" using apply_decision_accounted [OF Cons.prems(1) _ 1] Cons.prems(2) by simp
  have "pending w1 e" if e: "e \<in> set ds" for e
  proof -
    have "cd_id d \<noteq> cd_id e" using Cons.prems(3) e by force
    then have "keeps (\<lambda>v. get_item (cd_id e) v = get_item (cd_id e) w) (apply_decision now d r)" by (intro keeps_apply_other) simp
    then have "get_item (cd_id e) (snd (apply_decision now d r w)) = get_item (cd_id e) w" by (simp add: keeps_def)
    with Cons.prems(2) e 1 show ?thesis by (auto simp: pending_def)
  qed
  with Cons.IH [OF step] Cons.prems 1 show ?case by (simp add: bindE_run)
qed simp

lemma decide_item_action: "cd_action (decide_item p q (s, i)) \<noteq> Restore" "cd_action (decide_item p q (s, i)) \<noteq> Ignore"
  by (simp_all add: decide_item_def Let_def)

lemma engine_decide_pending:
  assumes "items_ok (en_items w)" "d \<in> set (engine_decide lower task w)"
  shows "pending w d \<and> cd_action d \<noteq> Restore \<and> cd_action d \<noteq> Ignore"
proof -
  have "cd_action d \<noteq> Restore \<and> cd_action d \<noteq> Ignore"
    using assms(2) by (auto simp: engine_decide_def decide_def decide_item_action)
  moreover have "pending w d"
  proof (cases "cd_action d = Keep")
    case False
    with engine_decide_decided [OF assms(2)] obtain x where x: "x \<in> set (en_items w)" "ci_id x = cd_id d"
      "ci_tokens x = cd_token_cost d" "is_active (ci_state x)" by (auto simp: decided_def)
    obtain y where y: "get_item (cd_id d) w = Some y"
      using x(1,2) by (cases "get_item (cd_id d) w") (auto simp: get_item_def find_None_iff)
    from get_item_ok [OF assms(1) y] x assms(1) have "x = y"
      by (auto simp: items_ok_def item_ids_def distinct_map inj_on_def)
    with x y assms(1) show ?thesis by (auto simp: pending_def items_ok_def)
  qed (simp add: pending_def)
  ultimately show ?thesis by simp
qed

lemma optimize_runs:
  assumes "ec_enabled (en_config w)" shows "\<exists>s w'. optimize lower now task w = (Inr s, w')"
proof -
  obtain r v where "apply_decisions now (engine_decide lower task w) \<lparr>pr_kept = [], pr_offloaded = [], pr_compressed = [],
      pr_archived = [], pr_tokens = active_tokens w\<rparr> w = (Inr r, v)" using apply_decisions_ids by blast
  with assms show ?thesis by (simp add: optimize_def enabled_or_bail_def bindE_run require_def Let_def)
qed

text \<open>
  The numbers of a pass are true: over a disk that works, the token counts it reports before and
  after are the active tokens of the engine before and after.
\<close>

theorem optimize_accounts:
  assumes "sound b w" and "en_disk w = []" and "optimize lower now task w = (Inr s, w')"
  shows "ds_before s = active_tokens w \<and> ds_after s = active_tokens w'"
proof -
  let ?ds = "engine_decide lower task w"
  let ?r = "\<lparr>pr_kept = [], pr_offloaded = [], pr_compressed = [], pr_archived = [], pr_tokens = active_tokens w\<rparr>"
  have ok: "items_ok (en_items w)" by (rule sound_items_ok [OF assms(1)])
  obtain r v where r: "apply_decisions now ?ds ?r w = (Inr r, v)" using apply_decisions_ids by blast
  have "accounted w ?r" using assms(2) ok by (simp add: accounted_def)
  moreover have "\<forall>d \<in> set ?ds. pending w d \<and> cd_action d \<noteq> Restore \<and> cd_action d \<noteq> Ignore"
    using engine_decide_pending [OF ok] by blast
  ultimately have a: "accounted v r" using r engine_decide_distinct [OF ok] apply_decisions_accounted by blast
  have "ds_before s = active_tokens w" "ds_after s = pr_tokens r" "active_tokens w' = active_tokens v"
    using assms(3) r by (auto simp: optimize_def enabled_or_bail_def bindE_run require_def bail_def Let_def active_tokens_def split: if_splits)
  with a show ?thesis by (simp add: accounted_def)
qed

theorem optimize_accounts_witness:
  "\<exists>s w'. optimize id ''now'' ''task'' (busy_engine []) = (Inr s, w') \<and> ds_after s = active_tokens w'"
proof -
  have "ec_enabled (en_config (busy_engine []))" by (simp add: busy_engine_def sample_engine_def default_engine_config_def)
  then obtain s w' where o: "optimize id ''now'' ''task'' (busy_engine []) = (Inr s, w')" using optimize_runs by blast
  have "en_disk (busy_engine []) = []" by (simp add: busy_engine_def sample_engine_def)
  from optimize_accounts [OF busy_engine_sound this o] o show ?thesis by blast
qed

end
