(* ===== verification/ContextPlanner.thy ===== *)
theory ContextPlanner
  imports ContextEngine Memory
begin

text \<open>
  The planner of the context engine (\<open>context/planner.rs\<close>): hints about the files, skills, memories
  and offloaded items that share words with a task. The directory listing is a parameter: for every
  directory the entries with the information whether they are directories, or nothing when it
  cannot be read. The lemmas bound the walk and the hints.
\<close>

datatype hint_kind = RequiredFile | RelevantSkill | RelevantMemory | OffloadedContext | LikelyToolOutput

record plan_hint =
  ph_kind :: hint_kind
  ph_target :: string
  ph_score :: rat
  ph_reason :: msg

definition max_walk_entries :: nat where "max_walk_entries = 1000"
definition max_file_hints :: nat where "max_file_hints = 20"
definition max_memory_hints :: nat where "max_memory_hints = 10"

definition word_overlap :: "(string \<Rightarrow> string) \<Rightarrow> string list \<Rightarrow> string \<Rightarrow> rat" where
  "word_overlap lower ts candidate = (let cs = long_words (lower candidate) in
     if ts = [] \<or> cs = [] then 0
     else f32 (f32 (of_nat (length (filter (List.member cs) ts))) / f32 (of_nat (max (length ts) (length cs)))))"

section \<open>The walk\<close>

type_synonym listing = "string list \<Rightarrow> (string \<times> bool) list option"

definition skipped_dir :: "string \<Rightarrow> bool" where
  "skipped_dir n \<longleftrightarrow> starts_with n ''.'' \<or> n \<in> {''target'', ''node_modules'', ''vendor''}"

text \<open>The entries of one directory: the number examined so far, the queue and the files.\<close>

fun walk_entries ::
    "string list \<Rightarrow> (string \<times> bool) list \<Rightarrow> nat \<Rightarrow> string list list \<Rightarrow> string list list \<Rightarrow>
     nat \<times> string list list \<times> string list list" where
  "walk_entries d [] examined queue files = (examined, queue, files)"
| "walk_entries d ((n, is_dir) # es) examined queue files =
     (if max_walk_entries < examined + 1 then (examined + 1, queue, files)
      else if is_dir then walk_entries d es (examined + 1) (if skipped_dir n then queue else queue @ [d @ [n]]) files
      else walk_entries d es (examined + 1) queue (files @ [d @ [n]]))"

lemma walk_entries_measure:
  "walk_entries d es examined queue files = (examined', queue', files') \<Longrightarrow> examined \<le> max_walk_entries \<Longrightarrow>
   max_walk_entries + 1 - examined' + length queue' \<le> max_walk_entries + 1 - examined + length queue"
proof (induction d es examined queue files rule: walk_entries.induct)
  case (2 d n is_dir es examined queue files)
  show ?case
  proof (cases "max_walk_entries < examined + 1")
    case False
    with 2 show ?thesis by (auto split: if_splits)
  qed (use 2 in auto)
qed simp

function candidate_files :: "listing \<Rightarrow> string list list \<Rightarrow> nat \<Rightarrow> string list list \<Rightarrow> string list list" where
  "candidate_files ls [] examined files = files"
| "candidate_files ls (d # queue) examined files =
     (if max_walk_entries \<le> examined then files
      else case ls d of
          None \<Rightarrow> candidate_files ls queue examined files
        | Some es \<Rightarrow> (case walk_entries d es examined queue files of
            (examined', queue', files') \<Rightarrow> candidate_files ls queue' examined' files'))"
  by pat_completeness auto
termination
  by (relation "measure (\<lambda>(ls, queue, examined, files). max_walk_entries + 1 - examined + length queue)")
    (auto dest!: walk_entries_measure [OF sym])

section \<open>The hints\<close>

definition separators_to_spaces :: "string \<Rightarrow> string" where
  "separators_to_spaces = map (\<lambda>c. if c \<in> {CHR ''/'', CHR 0x5C, CHR ''.'', CHR ''-'', CHR ''_''} then CHR '' '' else c)"

definition relative_path :: "string list \<Rightarrow> string" where
  "relative_path p = join_with ''/'' p"

definition file_hint :: "(string \<Rightarrow> string) \<Rightarrow> string list \<Rightarrow> string list \<Rightarrow> plan_hint option" where
  "file_hint lower ts p =
     (let relative = relative_path p;
          lexical = separators_to_spaces relative @ (if p \<noteq> [] \<and> last p \<noteq> [] then '' '' @ last p else []);
          score = word_overlap lower ts lexical
      in if 0 < score then Some \<lparr>ph_kind = RequiredFile, ph_target = relative, ph_score = score,
           ph_reason = Fmt ''lexical overlap with task ({})'' [score_msg score]\<rparr>
         else None)"

definition file_hints :: "(string \<Rightarrow> string) \<Rightarrow> string list \<Rightarrow> listing \<Rightarrow> plan_hint list" where
  "file_hints lower ts ls = take max_file_hints (sort_key (\<lambda>h. (- ph_score h, ph_target h))
     (List.map_filter (file_hint lower ts) (candidate_files ls [[]] 0 [])))"

text \<open>The skills of a project are their names and descriptions.\<close>

definition skill_hints :: "(string \<Rightarrow> string) \<Rightarrow> string list \<Rightarrow> (string \<times> string) list \<Rightarrow> plan_hint list" where
  "skill_hints lower ts = List.map_filter (\<lambda>(name, description).
     let score = word_overlap lower ts (name @ '' '' @ description) in
     if 0 < score then Some \<lparr>ph_kind = RelevantSkill, ph_target = name, ph_score = score,
       ph_reason = Txt ''referenced skill matches task lexically''\<rparr> else None)"

definition memory_hints :: "(string \<Rightarrow> string) \<Rightarrow> string list \<Rightarrow> memory_entry list \<Rightarrow> plan_hint list" where
  "memory_hints lower ts = List.map_filter (\<lambda>e.
     let score = word_overlap lower ts (me_content e) in
     if 0 < score \<or> ts \<noteq> [] then Some \<lparr>ph_kind = RelevantMemory, ph_target = me_id e, ph_score = max score (f32 (1 / 10)),
       ph_reason = Txt ''memory matches task lexically''\<rparr> else None)"

fun offload_hints :: "(string \<Rightarrow> string) \<Rightarrow> string list \<Rightarrow> string list \<Rightarrow> plan_hint list engine_op" where
  "offload_hints lower ts [] = ret []"
| "offload_hints lower ts (i # is) = bindE (offload_get i) (\<lambda>found.
     let score = (case found of None \<Rightarrow> 0 | Some item \<Rightarrow> word_overlap lower ts (ci_content item)) in
     bindE (offload_hints lower ts is) (\<lambda>hs.
     ret (if 0 < score then \<lparr>ph_kind = OffloadedContext, ph_target = i, ph_score = score,
         ph_reason = Txt ''offloaded item may be worth restoring''\<rparr> # hs else hs)))"

text \<open>
  The skill registry either cannot be opened (\<open>Inl\<close>) or resolves the references of the project or
  not; the memory store either cannot be opened or is searched.
\<close>

definition plan ::
    "(string \<Rightarrow> string) \<Rightarrow> listing \<Rightarrow> msg + (msg + (string \<times> string) list) \<Rightarrow> msg + memory_files \<Rightarrow> string \<Rightarrow>
     plan_hint list engine_op" where
  "plan lower ls skills memory task = (let ts = long_words (lower task) in
     case skills of Inl e \<Rightarrow> bail e
     | Inr resolved \<Rightarrow>
         (case bindR memory (\<lambda>f. memory_search f task None) of Inl e \<Rightarrow> bail e
          | Inr entries \<Rightarrow>
              bindE list_offloads (\<lambda>ids.
              bindE (offload_hints lower ts ids) (\<lambda>offloaded.
              ret (take (max_memory_hints * 3)
                  ((case resolved of Inl _ \<Rightarrow> [] | Inr ss \<Rightarrow> skill_hints lower ts ss) @ memory_hints lower ts entries @ offloaded)
                @ file_hints lower ts ls)))))"

lemma walk_entries_files:
  "walk_entries d es examined queue files = (examined', queue', files') \<Longrightarrow> length files \<le> examined \<Longrightarrow>
   examined \<le> max_walk_entries \<Longrightarrow> length files' \<le> examined' \<and> length files' \<le> max_walk_entries"
  by (induction d es examined queue files rule: walk_entries.induct) (auto split: if_splits)

text \<open>The walk examines a bounded number of entries, however deep the tree is and whatever links it has.\<close>

lemma candidate_files_bounded:
  "length files \<le> examined \<Longrightarrow> length files \<le> max_walk_entries \<Longrightarrow>
   length (candidate_files ls queue examined files) \<le> max_walk_entries"
proof (induction ls queue examined files rule: candidate_files.induct)
  case (2 ls d queue examined files)
  show ?case
  proof (cases "max_walk_entries \<le> examined \<or> ls d = None")
    case True
    with 2 show ?thesis by (auto split: option.split)
  next
    case False
    then obtain es where es: "ls d = Some es" and e: "examined \<le> max_walk_entries" by auto
    obtain e' q' f' where w: "walk_entries d es examined queue files = (e', q', f')" by (metis prod_cases3)
    have "\<not> max_walk_entries \<le> examined" using False by simp
    from 2(2) [OF this es w [symmetric] refl] walk_entries_files [OF w 2(3) e] this es w show ?thesis by simp
  qed
qed simp

lemma plan_bounded: "plan lower ls skills memory task w = (Inr hints, w') \<Longrightarrow> length hints \<le> max_memory_hints * 3 + max_file_hints"
  by (auto simp: plan_def Let_def bail_def bindE_run file_hints_def split: sum.splits prod.splits)

end
