(* ===== verification/Providers.thy ===== *)
theory Providers
  imports FsTools
begin

text \<open>
  The registry of connector providers (\<open>mcp/providers.rs\<close>), the aggregation of their tools and the
  call of a dynamic tool as the dispatcher makes it (\<open>mcp/dispatcher.rs\<close>). What a provider answers
  is code outside the repository: an instance is an opaque value, and its answers are parameters.
\<close>

section \<open>The registry\<close>

record tool_descriptor =
  tl_name :: string
  tl_description :: string
  tl_schema :: json

datatype tool_content = TextContent string | JsonContent json

record tool_call_result =
  tr_content :: "tool_content list"
  tr_is_error :: bool

text \<open>
  The providers by id, in no particular order, the counter that rotates the start order, and the last
  successful listing of each provider.
\<close>

record 'p provider_registry =
  rg_providers :: "(string \<times> 'p) list"
  rg_rotation :: "64 word"
  rg_last_good :: "string \<rightharpoonup> tool_descriptor list"

definition empty_registry :: "'p provider_registry" where
  "empty_registry = \<lparr>rg_providers = [], rg_rotation = 0, rg_last_good = Map.empty\<rparr>"

definition register :: "string \<Rightarrow> 'p \<Rightarrow> 'p provider_registry \<Rightarrow> 'p provider_registry" where
  "register i p r = r\<lparr>rg_last_good := (rg_last_good r)(i := None),
     rg_providers := (i, p) # filter (\<lambda>(j, _). j \<noteq> i) (rg_providers r)\<rparr>"

definition unregister :: "string \<Rightarrow> 'p provider_registry \<Rightarrow> bool \<times> 'p provider_registry" where
  "unregister i r = (map_of (rg_providers r) i \<noteq> None,
     r\<lparr>rg_last_good := (rg_last_good r)(i := None), rg_providers := filter (\<lambda>(j, _). j \<noteq> i) (rg_providers r)\<rparr>)"

definition providers :: "'p provider_registry \<Rightarrow> string list" where
  "providers r = sort (map fst (rg_providers r))"

definition not_registered :: "string \<Rightarrow> msg" where
  "not_registered i = Fmt ''provider not registered: {}'' [Txt i]"

text \<open>What an instance answers when it is asked for its tools directly.\<close>

type_synonym 'p lister = "'p \<Rightarrow> msg + tool_descriptor list"

definition provider_tools :: "'p lister \<Rightarrow> string \<Rightarrow> 'p provider_registry \<Rightarrow> msg + tool_descriptor list" where
  "provider_tools ls i r = (case map_of (rg_providers r) i of None \<Rightarrow> Inl (not_registered i) | Some p \<Rightarrow> ls p)"

type_synonym 'p invoker = "'p \<Rightarrow> string \<Rightarrow> json \<Rightarrow> msg + tool_call_result"

definition invoke :: "'p invoker \<Rightarrow> string \<Rightarrow> string \<Rightarrow> json \<Rightarrow> 'p provider_registry \<Rightarrow> msg + tool_call_result" where
  "invoke call i tool args r =
     (if tool = [] then Inl (Txt ''tool name is required'')
      else case map_of (rg_providers r) i of None \<Rightarrow> Inl (not_registered i) | Some p \<Rightarrow> call p tool args)"

definition bad_format :: msg where "bad_format = Txt ''tool must use provider.tool format''"

definition invoke_qualified :: "'p invoker \<Rightarrow> string \<Rightarrow> json \<Rightarrow> 'p provider_registry \<Rightarrow> msg + tool_call_result" where
  "invoke_qualified call qualified args r = (case split_once (CHR ''.'') qualified of
      None \<Rightarrow> Inl bad_format
    | Some (i, tool) \<Rightarrow> invoke call i tool args r)"

text \<open>A custom server's answer to a call: a result that does not parse is passed on as JSON.\<close>

definition custom_invoke :: "(json \<Rightarrow> tool_call_result option) \<Rightarrow> msg + json \<Rightarrow> msg + tool_call_result" where
  "custom_invoke parse answer = bindR answer (\<lambda>v. case parse v of
      Some r \<Rightarrow> Inr r
    | None \<Rightarrow> Inr \<lparr>tr_content = [JsonContent v], tr_is_error = False\<rparr>)"

section \<open>The aggregation\<close>

text \<open>
  What became of one listing: it came back, failed, ran into its own time limit, or had not come back
  when the budget of the whole aggregation was used up.
\<close>

datatype listing_answer = Listed "tool_descriptor list" | ListFailed | ListTimedOut | ListCut

definition start_order :: "'p provider_registry \<Rightarrow> string list" where
  "start_order r = (let ids = providers r; n = length ids; offset = (if n = 0 then 0 else unat (rg_rotation r) mod n)
     in map (\<lambda>i. ids ! ((i + offset) mod n)) [0..<n])"

definition next_rotation :: "'p provider_registry \<Rightarrow> 'p provider_registry" where
  "next_rotation r = (if rg_providers r = [] then r else r\<lparr>rg_rotation := rg_rotation r + 1\<rparr>)"

record 'p aggregation =
  ag_registry :: "'p provider_registry"
  ag_log :: "audit_event list"

type_synonym 'p answers = "string \<Rightarrow> 'p \<Rightarrow> listing_answer"

definition answer_of :: "'p answers \<Rightarrow> 'p provider_registry \<Rightarrow> string \<Rightarrow> listing_answer" where
  "answer_of ans r i = (case map_of (rg_providers r) i of None \<Rightarrow> ListFailed | Some p \<Rightarrow> ans i p)"

definition collected :: "'p answers \<Rightarrow> 'p provider_registry \<Rightarrow> (string \<times> listing_answer) list" where
  "collected ans r = filter (\<lambda>(_, a). a \<noteq> ListCut) (map (\<lambda>i. (i, answer_of ans r i)) (start_order r))"

text \<open>The providers that were cut off get their last good listing, or are skipped.\<close>

fun serve_cut ::
    "(string \<rightharpoonup> tool_descriptor list) \<Rightarrow> string list \<Rightarrow> (string \<times> listing_answer) list \<Rightarrow> audit_event list \<Rightarrow>
     (string \<times> listing_answer) list \<times> audit_event list" where
  "serve_cut cache [] results lg = (results, lg)"
| "serve_cut cache (i # is) results lg =
     (case cache i of
        Some ts \<Rightarrow> serve_cut cache is (results @ [(i, Listed ts)]) (audit_deny ''dynamic_provider_rejected'' ''list_stale'' i lg)
      | None \<Rightarrow> serve_cut cache is results (audit_deny ''dynamic_provider_rejected'' ''list_budget'' i lg))"

definition qualified_name :: "string \<Rightarrow> string \<Rightarrow> string" where "qualified_name i t = i @ ''.'' @ t"

definition qualify :: "string \<Rightarrow> tool_descriptor \<Rightarrow> tool_descriptor" where
  "qualify i t = t\<lparr>tl_name := qualified_name i (tl_name t),
     tl_description := (if tl_description t = [] then ''Tool provided by '' @ i else tl_description t)\<rparr>"

definition schema_ok :: "json \<Rightarrow> bool" where
  "schema_ok s \<longleftrightarrow> (case validate_schema_syntax s ''#'' of Inr _ \<Rightarrow> True | Inl _ \<Rightarrow> False)"

fun expose :: "tool_descriptor list \<Rightarrow> tool_descriptor list \<Rightarrow> audit_event list \<Rightarrow> tool_descriptor list \<times> audit_event list" where
  "expose [] out lg = (out, lg)"
| "expose (t # ts) out lg =
     (if schema_ok (tl_schema t) then expose ts (out @ [t]) lg
      else expose ts out (audit_deny ''dynamic_tool_rejected'' ''malformed_tool_schema'' (tl_name t) lg))"

fun take_results ::
    "(string \<times> listing_answer) list \<Rightarrow> tool_descriptor list \<Rightarrow> 'p aggregation \<Rightarrow> tool_descriptor list \<times> 'p aggregation" where
  "take_results [] out g = (out, g)"
| "take_results ((i, a) # rs) out g = (case a of
      Listed ts \<Rightarrow>
        let (out', lg) = expose (map (qualify i) ts) out (ag_log g) in
        take_results rs out' (g\<lparr>ag_registry := (ag_registry g)\<lparr>rg_last_good := (rg_last_good (ag_registry g))(i \<mapsto> ts)\<rparr>, ag_log := lg\<rparr>)
    | ListFailed \<Rightarrow> take_results rs out (g\<lparr>ag_log := audit_deny ''dynamic_provider_rejected'' ''list_failed'' i (ag_log g)\<rparr>)
    | ListTimedOut \<Rightarrow> take_results rs out (g\<lparr>ag_log := audit_deny ''dynamic_provider_rejected'' ''list_timeout'' i (ag_log g)\<rparr>)
    | ListCut \<Rightarrow> take_results rs out g)"

text \<open>
  The listings come back in any order; they are sorted by id before they are used, so the order in
  which they are collected here does not matter.
\<close>

definition aggregate_tools :: "'p answers \<Rightarrow> 'p aggregation \<Rightarrow> tool_descriptor list \<times> 'p aggregation" where
  "aggregate_tools ans g = (let r = ag_registry g; results = collected ans r;
       missing = filter (\<lambda>i. i \<notin> fst ` set results) (providers r);
       (results', lg) = serve_cut (rg_last_good r) missing results (ag_log g);
       (out, g') = take_results (sort_key fst results') [] \<lparr>ag_registry = next_rotation r, ag_log = lg\<rparr>
     in (sort_key tl_name out, g'))"

section \<open>Calls of dynamic tools\<close>

record dynamic_tool_metadata =
  dm_category :: string
  dm_provider :: string

definition dynamic_tool_metadata :: "string \<Rightarrow> dynamic_tool_metadata" where
  "dynamic_tool_metadata name = \<lparr>dm_category = ''connector'',
     dm_provider = (case split_once (CHR ''.'') name of Some (i, _) \<Rightarrow> i | None \<Rightarrow> [])\<rparr>"

definition unknown_tool :: "string \<Rightarrow> tool_error" where
  "unknown_tool name = invalid_params (Fmt ''unknown tool: {}'' [Txt name])"

definition validate_dynamic_arguments :: "'p lister \<Rightarrow> 'p provider_registry \<Rightarrow> string \<Rightarrow> json \<Rightarrow> unit tool_op" where
  "validate_dynamic_arguments ls r name arguments = (case split_once (CHR ''.'') name of
      None \<Rightarrow> fail (Other bad_format)
    | Some (i, tool) \<Rightarrow>
        if i \<notin> set (providers r) then deny_call (audit_deny ''tool_validation'' ''unknown_dynamic_tool'' name) (unknown_tool name)
        else (case provider_tools ls i r of
            Inl e \<Rightarrow> fail (Other e)
          | Inr ts \<Rightarrow> (case find (\<lambda>t. tl_name t = tool) ts of
              None \<Rightarrow> deny_call (audit_deny ''tool_validation'' ''unknown_dynamic_tool'' name) (unknown_tool name)
            | Some t \<Rightarrow> (case validate_schema_syntax (tl_schema t) ''#'' of
                Inl e \<Rightarrow> deny_call (audit_deny ''tool_validation'' ''malformed_tool_schema'' name)
                  (invalid_params (Fmt (''tool '' @ [CHR 0x27] @ ''{}'' @ [CHR 0x27] @ '' has a malformed input schema: {}'')
                    [Txt name, schema_error_msg e]))
              | Inr _ \<Rightarrow> (case validate_schema (tl_schema t) arguments ''arguments'' ''#'' of
                  Inl e \<Rightarrow> deny_call (audit_deny ''tool_validation'' ''dynamic_schema_mismatch'' name)
                    (invalid_params (Fmt (''invalid arguments for '' @ [CHR 0x27] @ ''{}'' @ [CHR 0x27] @ '': {}'')
                      [Txt name, schema_error_msg e]))
                | Inr _ \<Rightarrow> ret ())))))"

text \<open>Whether a custom server may be started (\<open>is_authorized\<close>): its trust approval decides.\<close>

definition is_authorized :: "string \<Rightarrow> mcp_permissions \<Rightarrow> trust_store option \<Rightarrow> audit_event list \<Rightarrow> bool \<times> audit_event list" where
  "is_authorized i p trust lg = (case trust of
      None \<Rightarrow> (False, audit_deny ''dispatch_custom_mcp'' ''trust_store_unavailable'' i lg)
    | Some ts \<Rightarrow> (case mcp_authorize i ''local'' p ts lg of
        (Inr _, lg') \<Rightarrow> (True, lg') | (Inl _, lg') \<Rightarrow> (False, lg')))"

end
