(* ===== verification/ProvidersSafety.thy ===== *)
theory ProvidersSafety
  imports Providers "HOL-Library.Multiset"
begin

text \<open>
  What the aggregation of provider tools advertises.
\<close>

section \<open>Names\<close>

lemma split_once_first: "split_once d s = (if d \<in> set s then Some (takeWhile (\<lambda>c. c \<noteq> d) s, drop (length (takeWhile (\<lambda>c. c \<noteq> d) s) + 1) s) else None)"
  by (induction s) auto

lemma takeWhile_dot: "takeWhile (\<lambda>c. c \<noteq> d) (i @ d # t) = takeWhile (\<lambda>c. c \<noteq> d) i"
  by (induction i) auto

section \<open>Starting in turn\<close>

lemma start_order_rotates: "start_order r = rotate (unat (rg_rotation r) mod length (providers r)) (providers r)"
proof (rule nth_equalityI)
  show "length (start_order r) = length (rotate (unat (rg_rotation r) mod length (providers r)) (providers r))"
    by (simp add: start_order_def Let_def)
next
  fix i assume "i < length (start_order r)"
  then have "i < length (providers r)" by (simp add: start_order_def Let_def)
  then show "start_order r ! i = rotate (unat (rg_rotation r) mod length (providers r)) (providers r) ! i"
    by (auto simp: start_order_def Let_def nth_rotate add.commute)
qed

lemma start_order_set: "set (start_order r) = set (providers r)"
  by (simp add: start_order_rotates)

lemma providers_set: "set (providers r) = fst ` set (rg_providers r)"
  by (simp add: providers_def)

section \<open>What is advertised\<close>

text \<open>The listings an instance has given in a sequence of events.\<close>

datatype 'p registry_event = Registered string 'p | Unregistered string | Aggregated "'p answers"

fun registry_step :: "'p registry_event \<Rightarrow> 'p aggregation \<Rightarrow> 'p aggregation" where
  "registry_step (Registered i p) g = g\<lparr>ag_registry := register i p (ag_registry g)\<rparr>"
| "registry_step (Unregistered i) g = g\<lparr>ag_registry := snd (unregister i (ag_registry g))\<rparr>"
| "registry_step (Aggregated ans) g = snd (aggregate_tools ans g)"

definition registry_after :: "'p registry_event list \<Rightarrow> 'p aggregation" where
  "registry_after es = fold registry_step es \<lparr>ag_registry = empty_registry, ag_log = []\<rparr>"

definition given :: "'p registry_event list \<Rightarrow> 'p \<Rightarrow> tool_descriptor list \<Rightarrow> bool" where
  "given es p ts \<longleftrightarrow> (\<exists>ans i. Aggregated ans \<in> set es \<and> ans i p = Listed ts)"

definition cache_ok :: "('p \<Rightarrow> tool_descriptor list \<Rightarrow> bool) \<Rightarrow> 'p provider_registry \<Rightarrow> bool" where
  "cache_ok G r \<longleftrightarrow> (\<forall>i ts. rg_last_good r i = Some ts \<longrightarrow> (\<exists>p. map_of (rg_providers r) i = Some p \<and> G p ts))"

definition results_ok :: "('p \<Rightarrow> tool_descriptor list \<Rightarrow> bool) \<Rightarrow> 'p provider_registry \<Rightarrow> (string \<times> listing_answer) list \<Rightarrow> bool" where
  "results_ok G r rs \<longleftrightarrow> (\<forall>(i, a) \<in> set rs. \<forall>ts. a = Listed ts \<longrightarrow> (\<exists>p. map_of (rg_providers r) i = Some p \<and> G p ts))"

lemma map_of_filter_ne: "map_of (filter (\<lambda>(j, _). j \<noteq> i) xs) k = (if k = i then None else map_of xs k)"
  by (induction xs) auto

lemma cache_register: "cache_ok G r \<Longrightarrow> cache_ok G (register i p r)"
  by (auto simp: cache_ok_def register_def map_of_filter_ne)

lemma cache_unregister: "cache_ok G r \<Longrightarrow> cache_ok G (snd (unregister i r))"
  by (auto simp: cache_ok_def unregister_def map_of_filter_ne)

lemma serve_cut_ok:
  "serve_cut cache is rs lg = (rs', lg') \<Longrightarrow> cache = rg_last_good r \<Longrightarrow> cache_ok G r \<Longrightarrow> results_ok G r rs \<Longrightarrow> results_ok G r rs'"
proof (induction cache "is" rs lg rule: serve_cut.induct)
  case (2 cache i "is" results lg)
  show ?case
  proof (cases "cache i")
    case None
    with 2 show ?thesis by auto
  next
    case (Some ts)
    with 2(4,5) have "\<exists>p. map_of (rg_providers r) i = Some p \<and> G p ts" by (auto simp: cache_ok_def)
    with 2(6) have "results_ok G r (results @ [(i, Listed ts)])" by (auto simp: results_ok_def)
    with 2(2) [OF Some] 2(3-5) Some show ?thesis by auto
  qed
qed simp

lemma expose_set: "expose ts out lg = (out', lg') \<Longrightarrow> set out' = set out \<union> {t \<in> set ts. schema_ok (tl_schema t)}"
  by (induction ts out lg rule: expose.induct) (auto split: if_splits)

definition exposed :: "('p \<Rightarrow> tool_descriptor list \<Rightarrow> bool) \<Rightarrow> 'p provider_registry \<Rightarrow> tool_descriptor \<Rightarrow> bool" where
  "exposed G r t \<longleftrightarrow> schema_ok (tl_schema t)
     \<and> (\<exists>i p ts d. map_of (rg_providers r) i = Some p \<and> G p ts \<and> d \<in> set ts \<and> t = qualify i d)"

lemma take_results_ok:
  "take_results rs out g = (out', g') \<Longrightarrow> results_ok G r rs \<Longrightarrow> cache_ok G (ag_registry g) \<Longrightarrow>
   rg_providers (ag_registry g) = rg_providers r \<Longrightarrow> (\<forall>t \<in> set out. exposed G r t) \<Longrightarrow>
   (\<forall>t \<in> set out'. exposed G r t) \<and> cache_ok G (ag_registry g') \<and> rg_providers (ag_registry g') = rg_providers r"
proof (induction rs out g rule: take_results.induct)
  case (2 i a rs out g)
  have rest: "results_ok G r rs" using 2(6) by (auto simp: results_ok_def)
  show ?case
  proof (cases a)
    case (Listed ts)
    obtain out1 lg1 where e: "expose (map (qualify i) ts) out (ag_log g) = (out1, lg1)" by fastforce
    from 2(6) Listed obtain p where p: "map_of (rg_providers r) i = Some p" "G p ts" by (auto simp: results_ok_def)
    have "\<forall>t \<in> set out1. exposed G r t" using expose_set [OF e] 2(9) p by (auto simp: exposed_def)
    moreover have "cache_ok G ((ag_registry g)\<lparr>rg_last_good := (rg_last_good (ag_registry g))(i \<mapsto> ts)\<rparr>)"
      using 2(7,8) p by (auto simp: cache_ok_def)
    ultimately show ?thesis
      using 2(1) [OF Listed e [symmetric] refl _ rest] 2(5,8) Listed e by simp
  qed (use 2 rest in auto)
qed simp

lemma qualify_schema: "tl_schema (qualify i t) = tl_schema t"
  by (simp add: qualify_def)

lemma collected_ok: "(\<And>i p ts. ans i p = Listed ts \<Longrightarrow> G p ts) \<Longrightarrow> results_ok G r (collected ans r)"
  by (auto simp: results_ok_def collected_def answer_of_def split: option.splits)

lemma aggregate_ok:
  assumes "aggregate_tools ans g = (out, g')" "cache_ok G (ag_registry g)" "\<And>i p ts. ans i p = Listed ts \<Longrightarrow> G p ts"
  shows "(\<forall>t \<in> set out. exposed G (ag_registry g) t) \<and> cache_ok G (ag_registry g')"
proof -
  let ?r = "ag_registry g"
  obtain rs lg where s: "serve_cut (rg_last_good ?r) (filter (\<lambda>i. i \<notin> fst ` set (collected ans ?r)) (providers ?r))
      (collected ans ?r) (ag_log g) = (rs, lg)" by fastforce
  have rs: "results_ok G ?r (sort_key fst rs)"
    using serve_cut_ok [OF s refl assms(2) collected_ok [OF assms(3)]] by (simp add: results_ok_def)
  obtain out1 g1 where t: "take_results (sort_key fst rs) [] \<lparr>ag_registry = next_rotation ?r, ag_log = lg\<rparr> = (out1, g1)" by fastforce
  have c: "cache_ok G (next_rotation ?r)" "rg_providers (next_rotation ?r) = rg_providers ?r"
    using assms(2) by (auto simp: next_rotation_def cache_ok_def)
  from take_results_ok [OF t rs] c have "(\<forall>t \<in> set out1. exposed G ?r t) \<and> cache_ok G (ag_registry g1)" by simp
  with assms(1) s t show ?thesis by (auto simp: aggregate_tools_def Let_def)
qed

lemma cache_mono: "cache_ok G r \<Longrightarrow> (\<And>p ts. G p ts \<Longrightarrow> H p ts) \<Longrightarrow> cache_ok H r"
  by (fastforce simp: cache_ok_def)

lemma registry_after_ok: "cache_ok (given es) (ag_registry (registry_after es))"
proof (induction es rule: rev_induct)
  case Nil
  show ?case by (simp add: registry_after_def cache_ok_def empty_registry_def)
next
  case (snoc e es)
  have old: "cache_ok (given (es @ [e])) (ag_registry (registry_after es))"
    by (rule cache_mono [OF snoc]) (auto simp: given_def)
  show ?case
  proof (cases e)
    case (Registered i p)
    with old show ?thesis by (simp add: registry_after_def cache_register)
  next
    case (Unregistered i)
    with old show ?thesis by (simp add: registry_after_def cache_unregister)
  next
    case (Aggregated ans)
    obtain out g' where a: "aggregate_tools ans (registry_after es) = (out, g')" by fastforce
    from aggregate_ok [OF a old] have "cache_ok (given (es @ [e])) (ag_registry g')" by (auto simp: given_def Aggregated)
    with a Aggregated show ?thesis by (simp add: registry_after_def)
  qed
qed

text \<open>
  C36. Whatever providers are registered, replaced and removed and whatever they answer, fail to answer
  or answer too late, every advertised dynamic tool has a schema that passed the syntax check and is a
  tool that the instance registered now has itself listed, now or in an earlier aggregation, under its
  qualified name: the listing of a replaced or removed instance is never served.
\<close>

theorem aggregation_exposes_checked:
  "list_all (\<lambda>t. schema_ok (tl_schema t) \<and>
     (\<exists>i p ts d. map_of (rg_providers (ag_registry (registry_after es))) i = Some p \<and> given (es @ [Aggregated ans]) p ts
        \<and> d \<in> set ts \<and> t = qualify i d))
   (fst (aggregate_tools ans (registry_after es)))"
proof -
  obtain out g' where a: "aggregate_tools ans (registry_after es) = (out, g')" by fastforce
  have c: "cache_ok (given (es @ [Aggregated ans])) (ag_registry (registry_after es))"
    by (rule cache_mono [OF registry_after_ok]) (auto simp: given_def)
  have "\<forall>t \<in> set out. exposed (given (es @ [Aggregated ans])) (ag_registry (registry_after es)) t"
    using aggregate_ok [OF a c] by (auto simp: given_def)
  then show ?thesis by (simp add: a list_all_iff exposed_def)
qed

end
