(* ===== verification/WorkspaceFiles.thy ===== *)
theory WorkspaceFiles
  imports EditService
begin

text \<open>
  The file operations of the workspace tools (\<open>mcp/workspace.rs\<close>) over the files service: the public
  entries of \<open>services/files.rs\<close> that take the coordination locks around a locked operation, the
  listing of a directory, and the bounds the adapter adds. What a directory yields, in the order it is
  read, is a parameter.
\<close>

type_synonym 'a file_op = "(edit_world, anyhow, 'a) io"

section \<open>The files service\<close>

text \<open>The held set lives until the operation has ended.\<close>

definition with_locks :: "sha \<Rightarrow> string list \<Rightarrow> 'a file_op \<Rightarrow> 'a file_op" where
  "with_locks sha paths body w = (case acquire sha (fw_tree w) (fw_root w) paths (ew_locks w) of
      (Inl e, p) \<Rightarrow> (Inl (Plain (Fmt ''filesystem coordination unavailable: {}'' [coordination_error_msg e])), w\<lparr>ew_locks := p\<rparr>)
    | (Inr ks, p) \<Rightarrow> (case body (w\<lparr>ew_locks := p\<rparr>) of (r, w') \<Rightarrow> (r, w'\<lparr>ew_locks := release_keys ks (ew_locks w')\<rparr>)))"

definition write_file :: "sha \<Rightarrow> string \<Rightarrow> string \<Rightarrow> unit file_op" where
  "write_file sha relative content = with_locks sha [relative] (write_locked relative content)"

definition write_atomic :: "sha \<Rightarrow> string \<Rightarrow> string \<Rightarrow> unit file_op" where
  "write_atomic sha relative content = with_locks sha [relative] (write_atomic_locked relative content)"

definition delete_path :: "sha \<Rightarrow> string \<Rightarrow> unit file_op" where
  "delete_path sha relative = with_locks sha [relative] (delete_locked relative)"

definition delete_if_exists :: "sha \<Rightarrow> string \<Rightarrow> bool file_op" where
  "delete_if_exists sha relative = with_locks sha [relative] (delete_if_exists_locked relative)"

definition rename_path :: "sha \<Rightarrow> string \<Rightarrow> string \<Rightarrow> unit file_op" where
  "rename_path sha source target = with_locks sha [source, target] (rename_locked source target)"

definition create_dir :: "sha \<Rightarrow> string \<Rightarrow> unit file_op" where
  "create_dir sha relative = with_locks sha [relative] (create_dir_locked relative)"

record list_entry =
  le_name :: string
  le_is_dir :: bool
  le_size :: "nat option"

text \<open>Opening a directory can fail, and so can each of its entries.\<close>

type_synonym dir_reader = "tree \<Rightarrow> string list \<Rightarrow> anyhow + (anyhow + list_entry) list"

text \<open>The loop gives up when the entry that reaches the bound has been read.\<close>

fun list_entries :: "(anyhow + list_entry) list \<Rightarrow> list_entry list \<Rightarrow> anyhow + list_entry list" where
  "list_entries [] entries = Inr entries"
| "list_entries (Inl e # rest) entries = Inl e"
| "list_entries (Inr x # rest) entries =
     (if max_list_entries \<le> length (entries @ [x]) then
        Inl (Plain (Fmt ''directory listing exceeded {} entries'' [Num max_list_entries]))
      else list_entries rest (entries @ [x]))"

definition list_dir :: "dir_reader \<Rightarrow> string \<Rightarrow> list_entry list file_op" where
  "list_dir read_dir relative w0 = (let (fault, w) = next_event w0 in
     (bindR (resolve_checked (fw_tree w) (fw_root w) relative) (\<lambda>dir.
      bindR (ensure (path_is_dir (fw_tree w) dir) (Plain (Fmt ''not a directory: {}'' [Txt relative]))) (\<lambda>_.
      bindR (check_fault fault) (\<lambda>_.
      bindR (read_dir (fw_tree w) dir) (\<lambda>es. list_entries es [])))), w))"

section \<open>The adapter\<close>

definition max_read_response_bytes :: nat where "max_read_response_bytes = 2 * 1024 * 1024"
definition max_write_file_bytes :: nat where "max_write_file_bytes = 5 * 1024 * 1024"

record workspace_file =
  wf_path :: string
  wf_size :: nat

definition normalize_prefix :: "string \<Rightarrow> string option" where
  "normalize_prefix relative = (let t = trim_end_char (CHR ''/'') relative in
     if t = [] \<or> t = ''.'' then None else Some t)"

definition file_of_entry :: "string option \<Rightarrow> list_entry \<Rightarrow> workspace_file" where
  "file_of_entry p e = \<lparr>wf_path = (case p of None \<Rightarrow> le_name e | Some x \<Rightarrow> x @ ''/'' @ le_name e),
     wf_size = (case le_size e of None \<Rightarrow> 0 | Some n \<Rightarrow> n)\<rparr>"

definition workspace_list_files :: "dir_reader \<Rightarrow> string \<Rightarrow> workspace_file list file_op" where
  "workspace_list_files read_dir relative = bindE (list_dir read_dir relative) (\<lambda>es.
     ret (sort_key wf_path (map (file_of_entry (normalize_prefix relative)) (filter (\<lambda>e. \<not> le_is_dir e) es))))"

definition empty_path :: anyhow where
  "empty_path = Plain (Txt ''workspace path must not be empty'')"

definition workspace_read_file :: "string \<Rightarrow> string file_op" where
  "workspace_read_file relative =
     (if trim relative = [] then fail empty_path
      else bindE (map_err (\<lambda>e. if is_not_found e then Plain (Txt ''workspace file not found'') else e) (read_text relative)) (\<lambda>content.
        if max_read_response_bytes < length content then fail (Plain (Txt ''workspace file exceeds 2 MiB limit''))
        else ret content))"

definition workspace_write_file :: "sha \<Rightarrow> string \<Rightarrow> string \<Rightarrow> unit file_op" where
  "workspace_write_file sha relative content =
     (if trim relative = [] then fail empty_path
      else if max_write_file_bytes < length content then fail (Plain (Fmt ''content exceeds {} bytes'' [Num max_write_file_bytes]))
      else write_atomic sha relative content)"

definition workspace_delete_file :: "sha \<Rightarrow> string \<Rightarrow> bool file_op" where
  "workspace_delete_file sha relative = (if trim relative = [] then fail empty_path else delete_if_exists sha relative)"

text \<open>
  \<open>context\<close> reads three files of the root directly, following links as the file system does, without
  the containment check of the service.
\<close>

definition context_part :: "string \<Rightarrow> string file_op" where
  "context_part name w0 = (let (fault, w) = next_event w0 in
     (case stat (fw_tree w) (fw_root w @ [name]) of
        Inr (File bytes) \<Rightarrow> bindR (check_fault fault) (\<lambda>_. case from_utf8 bytes of
            None \<Rightarrow> Inl (WithIo (Txt ''stream did not contain valid UTF-8'') OtherIo)
          | Some t \<Rightarrow> Inr ([LF] @ ''## '' @ name @ [LF] @ t @ [LF]))
      | _ \<Rightarrow> Inr [], w))"

fun context_of :: "string list \<Rightarrow> string \<Rightarrow> string file_op" where
  "context_of [] acc = ret acc"
| "context_of (name # names) acc = bindE (context_part name) (\<lambda>t. context_of names (acc @ t))"

definition workspace_context :: "string file_op" where
  "workspace_context = context_of [''AGENTS.md'', ''AGENT.md'', ''README.md''] []"

section \<open>What the operations touch\<close>

lemma env_steps_list: "list_dir read_dir relative w = (r, w') \<Longrightarrow> env_steps w w'"
  by (auto simp: list_dir_def Let_def intro: env_steps_event split: prod.splits)

lemma env_steps_part: "context_part name w = (r, w') \<Longrightarrow> env_steps w w'"
  by (auto simp: context_part_def Let_def intro: env_steps_event split: prod.splits)

lemma env_steps_context: "context_of names acc w = (r, w') \<Longrightarrow> env_steps w w'"
proof (induction names acc arbitrary: w rule: context_of.induct)
  case (2 name names acc)
  obtain q v where part: "context_part name w = (q, v)" by fastforce
  with 2 show ?case by (cases q) (auto simp: bindE_run intro: env_steps_trans dest: env_steps_part)
qed simp

text \<open>A listing that succeeds has every entry, and fewer than the bound.\<close>

lemma list_entries_bounded:
  "list_entries es acc = Inr out \<Longrightarrow> length acc < max_list_entries \<Longrightarrow> length out < max_list_entries"
  by (induction es acc rule: list_entries.induct) (auto split: if_splits)

lemma list_entries_all: "list_entries es acc = Inr out \<Longrightarrow> map Inr out = map Inr acc @ es"
  by (induction es acc rule: list_entries.induct) (auto split: if_splits)

text \<open>A link in the place of one of the three files leads out of the root.\<close>

lemma context_follows_links:
  assumes "fw_env w = []" "fw_root w = [''ws'']"
    and "fw_tree w = [[''ws''] \<mapsto> Dir, [''ws'', ''AGENTS.md''] \<mapsto> Link ''/secret'', [''secret''] \<mapsto> File ''key'']"
  shows "fst (context_part ''AGENTS.md'' w) = Inr ([LF] @ ''## AGENTS.md'' @ [LF] @ ''key'' @ [LF])"
proof -
  have "stat [[''ws''] \<mapsto> Dir, [''ws'', ''AGENTS.md''] \<mapsto> Link ''/secret'', [''secret''] \<mapsto> File ''key''] [''ws'', ''AGENTS.md'']
      = Inr (File ''key'')" by code_simp
  moreover have "valid_utf8 ''key''" by code_simp
  ultimately show ?thesis using assms
    by (simp add: context_part_def next_event_def check_fault_def from_utf8_def)
qed

end
