(* ===== verification/Observability.thy ===== *)
theory Observability
  imports Json "HOL-Library.Word"
begin

text \<open>
  Lifecycle events, observer hooks and the metrics of tool calls (\<open>mcp/observability.rs\<close>). Counters
  are 64-bit words that stick at their maximum.
\<close>

definition max_hooks :: nat where "max_hooks = 16"
definition max_tracked_tools :: nat where "max_tracked_tools = 1024"

text \<open>The duration of a call, in nanoseconds, is not bounded by a machine word.\<close>

datatype mcp_event =
  NotificationReceived string
| InitializeCompleted string "(string \<times> string) option"
| ToolCallCompleted string bool nat
| ResourceRead string
| PromptRequested string

definition client_name_version :: "json option \<Rightarrow> (string \<times> string) option" where
  "client_name_version info = Option.bind info (\<lambda>v. Option.bind (get_str v ''name'') (\<lambda>name.
     Some (name, case get_str v ''version'' of Some s \<Rightarrow> s | None \<Rightarrow> [])))"

section \<open>Hooks\<close>

text \<open>A hook returns or panics; either way the event goes on to the next one.\<close>

type_synonym 's hook = "mcp_event \<Rightarrow> 's \<Rightarrow> 's \<times> bool"

definition register_hook :: "'h \<Rightarrow> 'h list \<Rightarrow> msg + 'h list" where
  "register_hook h hs = (if max_hooks \<le> length hs then Inl (Fmt ''hook registry is full (max {})'' [Num max_hooks])
     else Inr (hs @ [h]))"

fun fire :: "'s hook list \<Rightarrow> mcp_event \<Rightarrow> 's \<Rightarrow> 's" where
  "fire [] e s = s"
| "fire (h # hs) e s = fire hs e (fst (h e s))"

section \<open>Metrics\<close>

record tool_stats =
  ts_calls :: "64 word"
  ts_failures :: "64 word"
  ts_duration :: "64 word"

definition no_stats :: tool_stats where "no_stats = \<lparr>ts_calls = 0, ts_failures = 0, ts_duration = 0\<rparr>"

definition saturating_add :: "64 word \<Rightarrow> 64 word \<Rightarrow> 64 word" where
  "saturating_add a b = (if a + b < a then - 1 else a + b)"

definition saturating_increment :: "64 word \<Rightarrow> 64 word" where "saturating_increment a = saturating_add a 1"

definition nanos :: "nat \<Rightarrow> 64 word" where "nanos d = of_nat (min d (2 ^ 64 - 1))"

definition record_stats :: "bool \<Rightarrow> nat \<Rightarrow> tool_stats \<Rightarrow> tool_stats" where
  "record_stats ok d s = \<lparr>ts_calls = saturating_increment (ts_calls s),
     ts_failures = (if ok then ts_failures s else saturating_increment (ts_failures s)),
     ts_duration = saturating_add (ts_duration s) (nanos d)\<rparr>"

type_synonym tool_metrics = "(string \<times> tool_stats) list"

fun change_stats :: "string \<Rightarrow> (tool_stats \<Rightarrow> tool_stats) \<Rightarrow> tool_metrics \<Rightarrow> tool_metrics" where
  "change_stats n f [] = []"
| "change_stats n f ((m, s) # ms) = (if m = n then (m, f s) # ms else (m, s) # change_stats n f ms)"

definition record_call :: "nat \<Rightarrow> string \<Rightarrow> bool \<Rightarrow> nat \<Rightarrow> tool_metrics \<Rightarrow> tool_metrics" where
  "record_call max_tools n ok d ms =
     (if n = [] then ms
      else if n \<in> fst ` set ms then change_stats n (record_stats ok d) ms
      else if length ms < max_tools then ms @ [(n, record_stats ok d no_stats)]
      else ms)"

definition metrics_totals :: "tool_metrics \<Rightarrow> nat \<times> 64 word \<times> 64 word" where
  "metrics_totals ms = (length ms, fold (\<lambda>(_, s) c. saturating_add c (ts_calls s)) ms 0,
     fold (\<lambda>(_, s) f. saturating_add f (ts_failures s)) ms 0)"

record metrics_snapshot =
  ms_name :: string
  ms_calls :: "64 word"
  ms_failures :: "64 word"
  ms_average :: "64 word"

definition metrics_snapshots :: "tool_metrics \<Rightarrow> metrics_snapshot list" where
  "metrics_snapshots ms = sort_key ms_name (map (\<lambda>(n, s). \<lparr>ms_name = n, ms_calls = ts_calls s, ms_failures = ts_failures s,
     ms_average = (if ts_calls s = 0 then 0 else ts_duration s div ts_calls s)\<rparr>) ms)"

lemma saturating_add_unat: "unat (saturating_add a b) = min (unat a + unat b) (2 ^ 64 - 1)"
proof (cases "unat a + unat b < 2 ^ 64")
  case True
  then have s: "unat (a + b) = unat a + unat b" by (simp add: unat_word_ariths)
  then have "\<not> a + b < a" by (simp add: word_less_nat_alt)
  with s True show ?thesis by (simp add: saturating_add_def)
next
  case False
  have "unat a < 2 ^ 64" "unat b < 2 ^ 64" using unsigned_less [of a] unsigned_less [of b] by simp_all
  with False have "(unat a + unat b) mod 2 ^ 64 = unat a + unat b - 2 ^ 64"
    by (simp add: mod_if le_mod_geq)
  then have "unat (a + b) < unat a" using \<open>unat b < 2 ^ 64\<close> False by (simp add: unat_word_ariths)
  then have "saturating_add a b = - 1" by (simp add: saturating_add_def word_less_nat_alt)
  then show ?thesis using False by (simp add: unsigned_minus_1_eq_mask mask_eq_exp_minus_1)
qed

lemma change_stats_names: "map fst (change_stats n f ms) = map fst ms"
  by (induction n f ms rule: change_stats.induct) auto

lemma change_stats_length: "length (change_stats n f ms) = length ms"
  by (induction n f ms rule: change_stats.induct) auto

lemma record_call_wf:
  "distinct (map fst ms) \<Longrightarrow> length ms \<le> k \<Longrightarrow>
   distinct (map fst (record_call k n ok d ms)) \<and> length (record_call k n ok d ms) \<le> k"
  by (auto simp: record_call_def change_stats_names change_stats_length)

end
