(* ===== verification/Connectors.thy ===== *)
theory Connectors
  imports Stores AuditLog
begin

text \<open>
  The connector store of a project (\<open>mcp/connectors.rs\<close>): metadata of external services, one JSON file
  under a lock, with an audit event for each change. What the file system lets an operation do is an
  argument; the audit log is part of the state. At the end: what the store holds after any sequence of
  operations.
\<close>

datatype auth_method = OAuth | ApiKey | NoAuth

record connector =
  cn_id :: string
  cn_name :: string
  cn_provider :: string
  cn_auth :: auth_method
  cn_scopes :: "string list"
  cn_enabled :: bool

definition max_connectors :: nat where "max_connectors = 500"
definition max_connector_field_len :: nat where "max_connector_field_len = 256"
definition max_connector_scopes :: nat where "max_connector_scopes = 64"
definition max_connector_scope_len :: nat where "max_connector_scope_len = 256"

record connector_world =
  cw_file :: "connector list stored"
  cw_log :: "audit_event list"

type_synonym 'a connector_op = "(connector_world, msg, 'a) io"

definition audit_connector :: "string \<Rightarrow> string \<Rightarrow> string \<Rightarrow> msg \<Rightarrow> unit connector_op" where
  "audit_connector kind action subject detail =
     modify (\<lambda>w. w\<lparr>cw_log := record_outcome kind action subject detail no_correlation (cw_log w)\<rparr>)"

definition connectors_unavailable :: msg where
  "connectors_unavailable = Txt ''connector store unavailable''"

definition connectors_load :: "connector_world \<Rightarrow> msg + connector list" where
  "connectors_load w = (case cw_file w of
      Absent \<Rightarrow> Inr []
    | Corrupt \<Rightarrow> Inl (Txt ''connector store is unreadable'')
    | Stored cs \<Rightarrow> Inr cs)"

definition connectors_save :: "store_env \<Rightarrow> connector list \<Rightarrow> unit connector_op" where
  "connectors_save e cs = (if \<not> write_ok e then fail connectors_unavailable else modify (\<lambda>w. w\<lparr>cw_file := Stored cs\<rparr>))"

definition connectors_locked :: "store_env \<Rightarrow> (connector list \<Rightarrow> 'a connector_op) \<Rightarrow> 'a connector_op" where
  "connectors_locked e body = (if \<not> lock_ok e then fail connectors_unavailable
     else bindE (\<lambda>w. (connectors_load w, w)) body)"

definition validate_connector :: "connector \<Rightarrow> msg + unit" where
  "validate_connector c =
     bindR (ensure (trim (cn_id c) \<noteq> []) (Txt ''connector id is required'')) (\<lambda>_.
     bindR (ensure (trim (cn_name c) \<noteq> []) (Txt ''connector name is required'')) (\<lambda>_.
     bindR (ensure (trim (cn_provider c) \<noteq> []) (Txt ''connector provider is required'')) (\<lambda>_.
     bindR (ensure (length (cn_id c) \<le> max_connector_field_len) (Txt ''connector id exceeds 256 bytes'')) (\<lambda>_.
     bindR (ensure (length (cn_name c) \<le> max_connector_field_len) (Txt ''connector name exceeds 256 bytes'')) (\<lambda>_.
     bindR (ensure (length (cn_provider c) \<le> max_connector_field_len) (Txt ''connector provider exceeds 256 bytes'')) (\<lambda>_.
     bindR (ensure (length (cn_scopes c) \<le> max_connector_scopes) (Txt ''connector exceeds 64 scopes'')) (\<lambda>_.
     (case find (\<lambda>s. max_connector_scope_len < length s) (cn_scopes c) of
        None \<Rightarrow> Inr ()
      | Some s \<Rightarrow> Inl (Fmt ''connector scope exceeds 256 bytes: {:?}'' [Txt s])))))))))"

definition connector_label :: "connector \<Rightarrow> msg" where
  "connector_label c = Fmt ''{} / {}'' [Txt (cn_name c), Txt (cn_provider c)]"

definition connectors_list :: "connector_world \<Rightarrow> msg + connector list" where
  "connectors_list w = connectors_load w"

definition connectors_get :: "connector_world \<Rightarrow> string \<Rightarrow> msg + connector option" where
  "connectors_get w i = bindR (connectors_load w) (\<lambda>cs. Inr (find (\<lambda>c. cn_id c = i) cs))"

definition connectors_add :: "store_env \<Rightarrow> connector \<Rightarrow> connector connector_op" where
  "connectors_add e c = (case validate_connector c of
      Inl m \<Rightarrow> bindE (audit_connector ''deny'' ''connector_add_rejected'' (cn_id c) m) (\<lambda>_. fail m)
    | Inr _ \<Rightarrow> connectors_locked e (\<lambda>cs.
        if \<not> list_ex (\<lambda>d. cn_id d = cn_id c) cs \<and> max_connectors \<le> length cs then
          fail (Txt ''connector store is full (max 500 connectors)'')
        else bindE (connectors_save e (filter (\<lambda>d. cn_id d \<noteq> cn_id c) cs @ [c])) (\<lambda>_.
          bindE (audit_connector ''allow'' ''connector_added'' (cn_id c) (connector_label c)) (\<lambda>_. ret c))))"

definition connectors_remove :: "store_env \<Rightarrow> string \<Rightarrow> bool connector_op" where
  "connectors_remove e i = connectors_locked e (\<lambda>cs.
     let kept = filter (\<lambda>c. cn_id c \<noteq> i) cs; removed = (length cs \<noteq> length kept) in
     bindE (connectors_save e kept) (\<lambda>_.
     bindE (if removed then audit_connector ''allow'' ''connector_removed'' i (Txt ''connector registration removed'') else ret ())
       (\<lambda>_. ret removed)))"

fun enable_first :: "string \<Rightarrow> bool \<Rightarrow> connector list \<Rightarrow> connector list" where
  "enable_first i b [] = []"
| "enable_first i b (c # cs) = (if cn_id c = i then c\<lparr>cn_enabled := b\<rparr> # cs else c # enable_first i b cs)"

definition connectors_set_enabled :: "store_env \<Rightarrow> string \<Rightarrow> bool \<Rightarrow> connector option connector_op" where
  "connectors_set_enabled e i b = connectors_locked e (\<lambda>cs. case find (\<lambda>c. cn_id c = i) cs of
      None \<Rightarrow> ret None
    | Some c \<Rightarrow>
        bindE (connectors_save e (enable_first i b cs)) (\<lambda>_.
        bindE (audit_connector ''allow'' (if b then ''connector_enabled'' else ''connector_disabled'') i (connector_label c)) (\<lambda>_.
        ret (Some (c\<lparr>cn_enabled := b\<rparr>)))))"

section \<open>What the store holds\<close>

datatype connector_cmd =
  AddConnector store_env connector
| RemoveConnector store_env string
| SetConnector store_env string bool

fun connector_do :: "connector_cmd \<Rightarrow> connector_world \<Rightarrow> connector_world" where
  "connector_do (AddConnector e c) w = snd (connectors_add e c w)"
| "connector_do (RemoveConnector e i) w = snd (connectors_remove e i w)"
| "connector_do (SetConnector e i b) w = snd (connectors_set_enabled e i b w)"

definition connectors_ok :: "connector list \<Rightarrow> bool" where
  "connectors_ok cs \<longleftrightarrow> distinct (map cn_id cs) \<and> length cs \<le> max_connectors \<and> list_all (\<lambda>c. validate_connector c = Inr ()) cs"

definition connector_file_ok :: "connector_world \<Rightarrow> bool" where
  "connector_file_ok w \<longleftrightarrow> (case cw_file w of Absent \<Rightarrow> True | Corrupt \<Rightarrow> False | Stored cs \<Rightarrow> connectors_ok cs)"

lemma connectors_ok_filter: "connectors_ok cs \<Longrightarrow> connectors_ok (filter P cs)"
  by (auto simp: connectors_ok_def distinct_map_filter list_all_iff le_trans [OF length_filter_le])

lemma enable_first_ids [simp]: "map cn_id (enable_first i b cs) = map cn_id cs" "length (enable_first i b cs) = length cs"
  by (induction cs) auto

lemma validate_enabled [simp]: "validate_connector (c\<lparr>cn_enabled := b\<rparr>) = validate_connector c"
  by (simp add: validate_connector_def)

lemma enable_first_ok: "connectors_ok cs \<Longrightarrow> connectors_ok (enable_first i b cs)"
proof -
  have "list_all (\<lambda>c. validate_connector c = Inr ()) cs \<Longrightarrow> list_all (\<lambda>c. validate_connector c = Inr ()) (enable_first i b cs)"
    by (induction cs) auto
  then show "connectors_ok cs \<Longrightarrow> connectors_ok (enable_first i b cs)" by (simp add: connectors_ok_def)
qed

lemma connectors_ok_insert:
  assumes "connectors_ok cs" "validate_connector c = Inr ()"
    and "list_ex (\<lambda>d. cn_id d = cn_id c) cs \<or> length cs < max_connectors"
  shows "connectors_ok (filter (\<lambda>d. cn_id d \<noteq> cn_id c) cs @ [c])"
proof -
  have "length (filter (\<lambda>d. cn_id d \<noteq> cn_id c) cs) < max_connectors"
  proof (cases "list_ex (\<lambda>d. cn_id d = cn_id c) cs")
    case True
    then have "length (filter (\<lambda>d. cn_id d \<noteq> cn_id c) cs) < length cs"
      by (auto simp: list_ex_iff intro!: length_filter_less)
    with assms(1) show ?thesis by (simp add: connectors_ok_def)
  qed (use assms(3) in \<open>auto intro: le_less_trans [OF length_filter_le]\<close>)
  with assms(1,2) show ?thesis
    by (auto simp: connectors_ok_def list_all_iff distinct_map_filter)
qed

lemma connector_audit_ok [simp]: "connector_file_ok (w\<lparr>cw_log := l\<rparr>) = connector_file_ok w"
  by (simp add: connector_file_ok_def)

lemma connectors_saved_ok:
  assumes "connector_file_ok w" "connectors_ok cs" "\<And>v. connector_file_ok v \<Longrightarrow> connector_file_ok (snd (k v))"
  shows "connector_file_ok (snd (bindE (connectors_save e cs) (\<lambda>_. k) w))"
  using assms by (simp add: connectors_save_def bindE_run modify_def connector_file_ok_def)

lemma connectors_audited_ok:
  "connector_file_ok w \<Longrightarrow> (\<And>v. connector_file_ok v \<Longrightarrow> connector_file_ok (snd (k v)))
   \<Longrightarrow> connector_file_ok (snd (bindE (audit_connector a b c d) (\<lambda>_. k) w))"
  by (simp add: audit_connector_def bindE_run modify_def)

lemma connectors_locked_ok:
  assumes "connector_file_ok w" "\<And>cs. connectors_ok cs \<Longrightarrow> connector_file_ok (snd (body cs w))"
  shows "connector_file_ok (snd (connectors_locked e body w))"
proof (cases "cw_file w")
  case Absent
  have "connectors_ok []" by (simp add: connectors_ok_def)
  with assms Absent show ?thesis by (simp add: connectors_locked_def bindE_run connectors_load_def)
qed (use assms in \<open>auto simp: connectors_locked_def bindE_run connectors_load_def connector_file_ok_def\<close>)

lemma connector_do_ok: "connector_file_ok w \<Longrightarrow> connector_file_ok (connector_do cmd w)"
proof (cases cmd)
  case (AddConnector e c)
  assume w: "connector_file_ok w"
  show ?thesis
  proof (cases "validate_connector c")
    case (Inl m)
    then show ?thesis using w AddConnector by (auto simp: connectors_add_def intro!: connectors_audited_ok)
  next
    case (Inr u)
    then show ?thesis using w AddConnector
      by (auto simp: connectors_add_def not_le intro!: connectors_locked_ok connectors_saved_ok connectors_audited_ok connectors_ok_insert)
  qed
next
  case (RemoveConnector e i)
  assume "connector_file_ok w"
  then show ?thesis using RemoveConnector
    by (auto simp: connectors_remove_def Let_def bindE_run audit_connector_def modify_def intro!: connectors_locked_ok connectors_saved_ok connectors_ok_filter)
next
  case (SetConnector e i b)
  assume "connector_file_ok w"
  then show ?thesis using SetConnector
    by (auto simp: connectors_set_enabled_def intro!: connectors_locked_ok connectors_saved_ok connectors_audited_ok enable_first_ok split: option.splits)
qed

text \<open>
  Through any sequence of adding, removing, enabling and disabling connectors, whichever locks and
  writes fail, the connector store holds at most 500 connectors, of different ids, each of which
  passes the validation.
\<close>

theorem connector_store_bounded:
  "connector_file_ok (foldl (\<lambda>w c. connector_do c w) \<lparr>cw_file = Absent, cw_log = log\<rparr> cs)"
proof (induction cs rule: rev_induct)
  case Nil
  show ?case by (simp add: connector_file_ok_def)
qed (simp add: connector_do_ok)

end
