(* ===== verification/Git.thy ===== *)
theory Git
  imports AuditRecovery EditModel
begin

text \<open>
  The git service (\<open>services/git.rs\<close>) and the terminal service (\<open>services/terminal.rs\<close>): which
  argument vectors they give to a process and what they make of its answer. The processes are the
  parameter: a runner answers a command with its output, or does not (not spawned, timed out). An
  argument says whether the code fixes it or a caller supplied it.
\<close>

section \<open>Commands and their runs\<close>

datatype git_arg = Fixed string | User string

record git_command =
  gc_args :: "git_arg list"
  gc_stdin :: "string option"

record process_output =
  po_stdout :: string
  po_stderr :: string
  po_exit :: "int option"

type_synonym git_runner = "git_command \<Rightarrow> msg + process_output"

record git_output =
  go_stdout :: string
  go_stderr :: string
  go_exit :: "int option"

definition git_args :: "git_arg list \<Rightarrow> git_command" where
  "git_args args = \<lparr>gc_args = args, gc_stdin = None\<rparr>"

definition fixed :: "string list \<Rightarrow> git_arg list" where
  "fixed = map Fixed"

fun arg_text :: "git_arg \<Rightarrow> string" where
  "arg_text (Fixed s) = s"
| "arg_text (User s) = s"

definition run_raw :: "git_runner \<Rightarrow> git_command \<Rightarrow> msg + git_output" where
  "run_raw run c = bindR (run c) (\<lambda>p. Inr \<lparr>go_stdout = from_utf8_lossy (po_stdout p),
     go_stderr = from_utf8_lossy (po_stderr p), go_exit = po_exit p\<rparr>)"

definition exit_text :: "int option \<Rightarrow> string" where
  "exit_text e = (case e of None \<Rightarrow> ''no exit'' | Some c \<Rightarrow> (if c < 0 then ''-'' else []) @ dec (nat \<bar>c\<bar>))"

definition failure_detail :: "git_output \<Rightarrow> string" where
  "failure_detail out = (if trim (go_stderr out) = [] then trim (go_stdout out) else trim (go_stderr out))"

definition check_exit :: "string \<Rightarrow> git_output \<Rightarrow> msg + git_output" where
  "check_exit op out = (if go_exit out = Some 0 then Inr out
     else Inl (Fmt ''git {} failed ({}): {}'' [Txt op, Txt (exit_text (go_exit out)), Txt (failure_detail out)]))"

definition run_checked :: "git_runner \<Rightarrow> git_arg list \<Rightarrow> msg + git_output" where
  "run_checked run args = bindR (run_raw run (git_args args))
     (check_exit (case args of [] \<Rightarrow> [] | a # _ \<Rightarrow> arg_text a))"

section \<open>The operations\<close>

definition is_repo :: "git_runner \<Rightarrow> bool" where
  "is_repo run = (case run_raw run (git_args (fixed [''rev-parse'', ''--is-inside-work-tree''])) of
      Inl _ \<Rightarrow> False
    | Inr out \<Rightarrow> trim (go_stdout out) = ''true'' \<and> go_exit out = Some 0)"

definition git_status :: "git_runner \<Rightarrow> msg + git_output" where
  "git_status run = run_checked run (fixed [''status'', ''--porcelain''])"

definition git_stage :: "git_runner \<Rightarrow> string \<Rightarrow> msg + git_output" where
  "git_stage run path = run_checked run [Fixed ''add'', Fixed ''--'', User path]"

definition git_unstage :: "git_runner \<Rightarrow> string \<Rightarrow> msg + git_output" where
  "git_unstage run path = run_checked run [Fixed ''reset'', Fixed ''HEAD'', Fixed ''--'', User path]"

definition git_commit :: "git_runner \<Rightarrow> string \<Rightarrow> msg + git_output" where
  "git_commit run message =
     (if trim message = [] then Inl (Txt ''commit message must not be empty'')
      else bindR (run_raw run \<lparr>gc_args = fixed [''commit'', ''-F'', ''-''], gc_stdin = Some message\<rparr>) (check_exit ''commit''))"

text \<open>Up to four commands, one after the other; \<open>run n\<close> answers the one with the number \<open>n\<close>.\<close>

definition git_log :: "(nat \<Rightarrow> git_runner) \<Rightarrow> nat \<Rightarrow> msg + git_output" where
  "git_log run limit = (case run_checked (run 0) (fixed [''log'', ''--oneline'', ''-n'', dec limit]) of
      Inr out \<Rightarrow> Inr out
    | Inl _ \<Rightarrow> (case run_checked (run 1) (fixed [''rev-parse'', ''--git-dir'']) of
        Inl _ \<Rightarrow> Inl (Txt ''not a git repository'')
      | Inr _ \<Rightarrow> (case run_checked (run 2) (fixed [''rev-parse'', ''--verify'', ''HEAD'']) of
          Inl _ \<Rightarrow> Inr \<lparr>go_stdout = [], go_stderr = [], go_exit = Some 0\<rparr>
        | Inr _ \<Rightarrow> run_checked (run 3) (fixed [''log'', ''--oneline'', ''-n'', dec limit]))))"

definition git_branch :: "git_runner \<Rightarrow> msg + git_output" where
  "git_branch run = run_checked run (fixed [''rev-parse'', ''--abbrev-ref'', ''HEAD''])"

definition git_branches :: "git_runner \<Rightarrow> msg + git_output" where
  "git_branches run = run_checked run (fixed [''branch'', ''--list''])"

definition git_diff :: "git_runner \<Rightarrow> string option \<Rightarrow> msg + git_output" where
  "git_diff run path = (case path of
      Some p \<Rightarrow> run_checked run [Fixed ''diff'', Fixed ''--'', User p]
    | None \<Rightarrow> run_checked run (fixed [''diff'']))"

definition git_diff_staged :: "git_runner \<Rightarrow> string option \<Rightarrow> msg + git_output" where
  "git_diff_staged run path = (case path of
      Some p \<Rightarrow> run_checked run [Fixed ''diff'', Fixed ''--cached'', Fixed ''--'', User p]
    | None \<Rightarrow> run_checked run (fixed [''diff'', ''--cached'']))"

definition remote_url :: "git_runner \<Rightarrow> string \<Rightarrow> string option" where
  "remote_url run name = (case run_raw run (git_args [Fixed ''remote'', Fixed ''get-url'', Fixed ''--'', User name]) of
      Inl _ \<Rightarrow> None
    | Inr out \<Rightarrow> if go_exit out \<noteq> Some 0 \<or> trim (go_stdout out) = [] then None else Some (trim (go_stdout out)))"

definition git_push :: "git_runner \<Rightarrow> string \<Rightarrow> string \<Rightarrow> msg + git_output" where
  "git_push run remote branch = run_checked run [Fixed ''push'', Fixed ''-u'', Fixed ''--'', User remote, User branch]"

definition git_pull :: "git_runner \<Rightarrow> string \<Rightarrow> string \<Rightarrow> msg + git_output" where
  "git_pull run remote branch = run_checked run [Fixed ''pull'', Fixed ''--no-rebase'', Fixed ''--'', User remote, User branch]"

definition validate_repo_path :: "string \<Rightarrow> msg + unit" where
  "validate_repo_path path =
     ensure (\<not> is_absolute path \<and> path \<noteq> [] \<and> \<not> has_parent_component path) (Fmt ''invalid repository path: {}'' [Txt path])"

definition discard_file :: "git_runner \<Rightarrow> string \<Rightarrow> msg + git_output" where
  "discard_file run path = bindR (validate_repo_path path)
     (\<lambda>_. run_checked run [Fixed ''checkout'', Fixed ''--'', User path])"

definition hard_reset :: "git_runner \<Rightarrow> msg + git_output" where
  "hard_reset run = run_checked run (fixed [''reset'', ''--hard'', ''HEAD''])"

definition delete_branch :: "git_runner \<Rightarrow> string \<Rightarrow> msg + git_output" where
  "delete_branch run name =
     (if name = [] \<or> name = ''HEAD'' then Inl (Txt ''refusing to delete invalid branch name'')
      else run_checked run [Fixed ''branch'', Fixed ''-D'', Fixed ''--'', User name])"

definition is_valid_ref :: "git_runner \<Rightarrow> string \<Rightarrow> bool" where
  "is_valid_ref run name = (case run_raw run (git_args [Fixed ''check-ref-format'', Fixed ''--allow-onelevel'', User name]) of
      Inl _ \<Rightarrow> False
    | Inr out \<Rightarrow> go_exit out = Some 0)"

definition head_commit :: "git_runner \<Rightarrow> msg + string" where
  "head_commit run = bindR (run_checked run (fixed [''rev-parse'', ''HEAD''])) (\<lambda>out. Inr (trim (go_stdout out)))"

text \<open>The blocks of \<open>git worktree list --porcelain\<close>: a path and the branch of its block.\<close>

fun worktree_lines :: "string list \<Rightarrow> string option \<Rightarrow> (string \<times> string option) list" where
  "worktree_lines [] path = (case path of None \<Rightarrow> [] | Some p \<Rightarrow> [(p, None)])"
| "worktree_lines (l # ls) path = (case strip_prefix ''worktree '' l of
      Some rest \<Rightarrow> worktree_lines ls (Some (trim rest))
    | None \<Rightarrow> (case (path, strip_prefix ''branch '' l) of
        (Some p, Some rest) \<Rightarrow> (p, Some (trim rest)) # worktree_lines ls None
      | (_, _) \<Rightarrow>
          if l = [] then (case path of Some p \<Rightarrow> (p, None) # worktree_lines ls None | None \<Rightarrow> worktree_lines ls None)
          else worktree_lines ls path))"

definition worktree_list :: "git_runner \<Rightarrow> msg + (string \<times> string option) list" where
  "worktree_list run = bindR (run_checked run (fixed [''worktree'', ''list'', ''--porcelain'']))
     (\<lambda>out. Inr (worktree_lines (str_lines (go_stdout out)) None))"

definition worktree_add :: "git_runner \<Rightarrow> string \<Rightarrow> string \<Rightarrow> string \<Rightarrow> msg + git_output" where
  "worktree_add run path branch start_point =
     run_checked run [Fixed ''worktree'', Fixed ''add'', Fixed ''-b'', User branch, Fixed ''--'', User path, User start_point]"

definition worktree_remove :: "git_runner \<Rightarrow> string \<Rightarrow> msg + git_output" where
  "worktree_remove run path = run_checked run [Fixed ''worktree'', Fixed ''remove'', Fixed ''--'', User path]"

definition delete_branch_quiet :: "git_runner \<Rightarrow> string \<Rightarrow> msg + git_output" where
  "delete_branch_quiet run name = delete_branch run name"

definition force_push :: "git_runner \<Rightarrow> string \<Rightarrow> string \<Rightarrow> msg + git_output" where
  "force_push run remote branch =
     run_checked run [Fixed ''push'', Fixed ''--force-with-lease'', Fixed ''--'', User remote, User branch]"

definition git_clean :: "git_runner \<Rightarrow> msg + git_output" where
  "git_clean run = run_checked run (fixed [''clean'', ''-fd''])"

text \<open>The records of \<open>git status --porcelain\<close>; \<open>None\<close> when a slice would cut a character.\<close>

record porcelain_entry =
  pe_status :: string
  pe_path :: string

fun porcelain_entries :: "string list \<Rightarrow> porcelain_entry list option" where
  "porcelain_entries [] = Some []"
| "porcelain_entries (l # ls) =
     (if trim l = [] \<or> length l < 4 then porcelain_entries ls
      else if \<not> char_start (drop 2 l) \<or> \<not> char_start (drop 3 l) then None
      else map_option (\<lambda>es. \<lparr>pe_status = take 2 l, pe_path = drop 3 l\<rparr> # es) (porcelain_entries ls))"

section \<open>The terminal\<close>

definition max_capture_bytes :: nat where "max_capture_bytes = 256 * 1024"

record exec_outcome =
  eo_exit :: "int option"
  eo_timed_out :: bool
  eo_stdout :: string
  eo_stderr :: string
  eo_truncated :: bool

datatype exec_answer = SpawnFailed msg | RunFailed msg | RanOutOfTime | Ran process_output

definition truncate_bytes :: "string \<Rightarrow> nat \<Rightarrow> string \<times> bool" where
  "truncate_bytes bytes cap = (if length bytes \<le> cap then (from_utf8_lossy bytes, False)
     else (from_utf8_lossy (take cap bytes), True))"

text \<open>
  \<open>Path::components().count() > 1\<close> counts a leading \<open>.\<close> and the root; a bare name is looked up in the
  directories of the search path, in order.
\<close>

definition component_count :: "string \<Rightarrow> nat" where
  "component_count p = length (path_components p) + (if is_absolute p \<or> p = ''.'' \<or> starts_with p ''./'' then 1 else 0)"

definition join_dir :: "string \<Rightarrow> string \<Rightarrow> string" where
  "join_dir d p = (if d = [] \<or> last d = CHR ''/'' then d @ p else d @ ''/'' @ p)"

definition resolve_program :: "(string \<Rightarrow> bool) \<Rightarrow> string list \<Rightarrow> string \<Rightarrow> string" where
  "resolve_program executable dirs program =
     (if is_absolute program \<or> 1 < component_count program then program
      else case find (\<lambda>d. executable (join_dir d program)) dirs of
        Some d \<Rightarrow> join_dir d program
      | None \<Rightarrow> program)"

definition terminal_run ::
    "(string \<Rightarrow> bool) \<Rightarrow> string list \<Rightarrow> (string \<Rightarrow> string list \<Rightarrow> exec_answer) \<Rightarrow> nat \<Rightarrow> string \<Rightarrow> string list \<Rightarrow> msg + exec_outcome" where
  "terminal_run executable dirs exec timeout program args =
     (if trim program = [] then Inl (Txt ''empty program name'')
      else if list_ex (\<lambda>(k, _). is_whitespace k) (chars program) then
        Inl (Txt ''program name must not contain whitespace; pass arguments separately'')
      else case exec (resolve_program executable dirs program) args of
        SpawnFailed m \<Rightarrow> Inl (Fmt ''failed to spawn {}'' [Txt program, m])
      | RunFailed m \<Rightarrow> Inl (Fmt ''failed to run {}'' [Txt program, m])
      | RanOutOfTime \<Rightarrow> Inr \<lparr>eo_exit = None, eo_timed_out = True, eo_stdout = [],
          eo_stderr = ''command timed out after '' @ dec timeout @ ''s'', eo_truncated = False\<rparr>
      | Ran p \<Rightarrow>
          let (out, out_cut) = truncate_bytes (po_stdout p) max_capture_bytes;
              (err, err_cut) = truncate_bytes (po_stderr p) max_capture_bytes
          in Inr \<lparr>eo_exit = po_exit p, eo_timed_out = False, eo_stdout = out, eo_stderr = err,
            eo_truncated = (out_cut \<or> err_cut)\<rparr>)"

section \<open>All operations\<close>

datatype git_op =
  OpStatus | OpStage string | OpUnstage string | OpCommit string | OpLog nat | OpBranch | OpBranches
| OpDiff "string option" | OpDiffStaged "string option" | OpRemoteUrl string | OpPush string string | OpPull string string
| OpDiscard string | OpHardReset | OpDeleteBranch string | OpIsRepo | OpIsValidRef string | OpHeadCommit | OpWorktreeList
| OpWorktreeAdd string string string | OpWorktreeRemove string | OpDeleteBranchQuiet string | OpForcePush string string | OpClean

datatype git_value = GitOut git_output | GitFlag bool | GitText "string option" | GitTrees "(string \<times> string option) list"

definition git_out :: "msg + git_output \<Rightarrow> msg + git_value" where
  "git_out r = bindR r (\<lambda>out. Inr (GitOut out))"

fun perform :: "(nat \<Rightarrow> git_runner) \<Rightarrow> git_op \<Rightarrow> msg + git_value" where
  "perform run OpStatus = git_out (git_status (run 0))"
| "perform run (OpStage p) = git_out (git_stage (run 0) p)"
| "perform run (OpUnstage p) = git_out (git_unstage (run 0) p)"
| "perform run (OpCommit m) = git_out (git_commit (run 0) m)"
| "perform run (OpLog n) = git_out (git_log run n)"
| "perform run OpBranch = git_out (git_branch (run 0))"
| "perform run OpBranches = git_out (git_branches (run 0))"
| "perform run (OpDiff p) = git_out (git_diff (run 0) p)"
| "perform run (OpDiffStaged p) = git_out (git_diff_staged (run 0) p)"
| "perform run (OpRemoteUrl n) = Inr (GitText (remote_url (run 0) n))"
| "perform run (OpPush r b) = git_out (git_push (run 0) r b)"
| "perform run (OpPull r b) = git_out (git_pull (run 0) r b)"
| "perform run (OpDiscard p) = git_out (discard_file (run 0) p)"
| "perform run OpHardReset = git_out (hard_reset (run 0))"
| "perform run (OpDeleteBranch b) = git_out (delete_branch (run 0) b)"
| "perform run OpIsRepo = Inr (GitFlag (is_repo (run 0)))"
| "perform run (OpIsValidRef n) = Inr (GitFlag (is_valid_ref (run 0) n))"
| "perform run OpHeadCommit = bindR (head_commit (run 0)) (\<lambda>c. Inr (GitText (Some c)))"
| "perform run OpWorktreeList = bindR (worktree_list (run 0)) (\<lambda>ts. Inr (GitTrees ts))"
| "perform run (OpWorktreeAdd p b s) = git_out (worktree_add (run 0) p b s)"
| "perform run (OpWorktreeRemove p) = git_out (worktree_remove (run 0) p)"
| "perform run (OpDeleteBranchQuiet b) = git_out (delete_branch_quiet (run 0) b)"
| "perform run (OpForcePush r b) = git_out (force_push (run 0) r b)"
| "perform run OpClean = git_out (git_clean (run 0))"

section \<open>No caller's string is read as an option\<close>

text \<open>
  Every argument a caller supplied stands behind \<open>--\<close> or is the value of \<open>-b\<close>. A runner restricted to
  some commands answers no other.
\<close>

fun separated :: "git_arg list \<Rightarrow> bool" where
  "separated [] \<longleftrightarrow> True"
| "separated (User s # args) \<longleftrightarrow> False"
| "separated (Fixed s # args) \<longleftrightarrow> s = ''--'' \<or> (if s = ''-b'' then (case args of User b # rest \<Rightarrow> separated rest | _ \<Rightarrow> separated args)
     else separated args)"

definition restricted :: "(git_command \<Rightarrow> bool) \<Rightarrow> git_runner \<Rightarrow> git_runner" where
  "restricted allowed run c = (if allowed c then run c else Inl (Txt ''not run''))"

definition no_option :: "git_command \<Rightarrow> bool" where
  "no_option c \<longleftrightarrow> separated (gc_args c)"

definition format_check :: "string \<Rightarrow> git_command" where
  "format_check name = git_args [Fixed ''check-ref-format'', Fixed ''--allow-onelevel'', User name]"

lemma separated_fixed [simp]: "separated (fixed xs)"
proof (induction xs)
  case (Cons x xs)
  then show ?case by (cases xs) (simp_all add: fixed_def)
qed (simp add: fixed_def)

lemma raw_restricted: "run_raw (restricted f run) c = (if f c then run_raw run c else Inl (Txt ''not run''))"
  by (simp add: run_raw_def restricted_def)

lemma checked_restricted: "f (git_args args) \<Longrightarrow> run_checked (restricted f run) args = run_checked run args"
  by (simp add: run_checked_def raw_restricted)

lemma fixed_no_option [simp]: "no_option \<lparr>gc_args = fixed xs, gc_stdin = i\<rparr>" "no_option (git_args (fixed xs))"
  by (simp_all add: no_option_def git_args_def)

lemmas git_ops = git_status_def git_stage_def git_unstage_def git_commit_def git_log_def git_branch_def git_branches_def
  git_diff_def git_diff_staged_def remote_url_def git_push_def git_pull_def discard_file_def hard_reset_def delete_branch_def
  is_repo_def is_valid_ref_def head_commit_def worktree_list_def worktree_add_def worktree_remove_def delete_branch_quiet_def
  force_push_def git_clean_def

text \<open>
  C39. Whatever paths, names, messages and limits the callers of the git service supply, no operation but one
  ever depends on running a command in which such a string stands where git reads options: replacing the
  answer of every other command changes nothing. The one is the check of a reference name: its only command
  is \<open>git check-ref-format --allow-onelevel\<close> with the name behind it, which takes no \<open>--\<close>, so there git
  itself has to refuse a name that looks like an option; without that command the check says no.
\<close>

theorem git_arguments_separated:
  "perform (\<lambda>n. restricted no_option (run n)) op
     = (case op of OpIsValidRef name \<Rightarrow> Inr (GitFlag False) | _ \<Rightarrow> perform run op)
   \<and> perform (\<lambda>n. restricted (\<lambda>c. c = format_check name) (run n)) (OpIsValidRef name) = perform run (OpIsValidRef name)"
proof
  show "perform (\<lambda>n. restricted no_option (run n)) op
     = (case op of OpIsValidRef name \<Rightarrow> Inr (GitFlag False) | _ \<Rightarrow> perform run op)"
    by (cases op) (simp_all add: git_ops raw_restricted checked_restricted no_option_def git_args_def cong: sum.case_cong
      split: option.split)
  show "perform (\<lambda>n. restricted (\<lambda>c. c = format_check name) (run n)) (OpIsValidRef name) = perform run (OpIsValidRef name)"
    by (simp add: is_valid_ref_def raw_restricted format_check_def)
qed

end
