(* ===== verification/Github.thy ===== *)
theory Github
  imports Git Json
begin

text \<open>
  The GitHub provider (\<open>mcp/github.rs\<close>): how the repository of a call is resolved, which requests a
  call sends, and what it makes of the answers. The HTTP client, the JSON parser and the environment
  variables are parameters; a message about a failed answer carries its body as it came.
\<close>

section \<open>Objects\<close>

text \<open>The map of an object keeps its keys in order.\<close>

fun obj_insert :: "string \<Rightarrow> json \<Rightarrow> (string \<times> json) list \<Rightarrow> (string \<times> json) list" where
  "obj_insert k v [] = [(k, v)]"
| "obj_insert k v ((j, u) # kvs) =
     (if k = j then (k, v) # kvs else if k < j then (k, v) # (j, u) # kvs else (j, u) # obj_insert k v kvs)"

fun build_body :: "(string \<times> json option) list \<Rightarrow> (string \<times> json) list \<Rightarrow> json" where
  "build_body [] m = JObj m"
| "build_body ((k, v) # parts) m = (case v of None \<Rightarrow> build_body parts m | Some x \<Rightarrow> build_body parts (obj_insert k x m))"

section \<open>The repository of a call\<close>

record repo_target =
  rt_owner :: string
  rt_repo :: string

definition github_char :: "char \<Rightarrow> bool" where
  "github_char c \<longleftrightarrow> is_digit c \<or> (65 \<le> byte c \<and> byte c \<le> 90) \<or> (97 \<le> byte c \<and> byte c \<le> 122)
     \<or> c = CHR ''-'' \<or> c = CHR ''_'' \<or> c = CHR ''.''"

definition is_valid_github_name :: "string \<Rightarrow> bool" where
  "is_valid_github_name n \<longleftrightarrow> n \<noteq> [] \<and> list_all github_char n"

definition from_str_pair :: "string \<Rightarrow> string \<Rightarrow> repo_target option" where
  "from_str_pair owner repo =
     (if \<not> is_valid_github_name (trim owner) \<or> \<not> is_valid_github_name (trim repo) then None
      else Some \<lparr>rt_owner = trim owner, rt_repo = trim repo\<rparr>)"

definition without_scheme :: "string \<Rightarrow> string" where
  "without_scheme u = (case strip_prefix ''https://'' u of Some r \<Rightarrow> r
     | None \<Rightarrow> (case strip_prefix ''http://'' u of Some r \<Rightarrow> r
     | None \<Rightarrow> (case strip_prefix ''ssh://'' u of Some r \<Rightarrow> r
     | None \<Rightarrow> (case strip_prefix ''git://'' u of Some r \<Rightarrow> r | None \<Rightarrow> u))))"

definition remote_path :: "string \<Rightarrow> string option" where
  "remote_path no_git = (case strip_prefix ''git@github.com:'' no_git of
      Some rest \<Rightarrow> Some rest
    | None \<Rightarrow> strip_prefix ''github.com/''
        (case split_once (CHR ''@'') (without_scheme no_git) of Some (_, rest) \<Rightarrow> rest | None \<Rightarrow> without_scheme no_git))"

definition from_remote_url :: "string \<Rightarrow> repo_target option" where
  "from_remote_url url =
     (let no_git = (case strip_suffix ''.git'' (trim url) of Some u \<Rightarrow> u | None \<Rightarrow> trim url) in
      case remote_path no_git of
        None \<Rightarrow> None
      | Some path \<Rightarrow> (case split_char (CHR ''/'') (trim_end_char (CHR ''/'') path) of
          [owner, repo] \<Rightarrow> from_str_pair owner repo
        | _ \<Rightarrow> None))"

definition or_empty :: "string option \<Rightarrow> string" where
  "or_empty s = (case s of None \<Rightarrow> [] | Some x \<Rightarrow> x)"

text \<open>\<open>env\<close> holds the default owner and repository, when both are set.\<close>

definition resolve_repo_target :: "(string \<times> string) option \<Rightarrow> string option \<Rightarrow> string option \<Rightarrow> string option \<Rightarrow> msg + repo_target" where
  "resolve_repo_target env owner repo remote = (case from_str_pair (or_empty owner) (or_empty repo) of
      Some t \<Rightarrow> Inr t
    | None \<Rightarrow> (case Option.bind remote from_remote_url of
        Some t \<Rightarrow> Inr t
      | None \<Rightarrow> (case Option.bind env (\<lambda>(o1, r1). from_str_pair o1 r1) of
          Some t \<Rightarrow> Inr t
        | None \<Rightarrow> Inl (Txt (''owner/repo not specified and could not be inferred from git remote '' @ [CHR 0x27] @ ''origin'' @ [CHR 0x27])))))"

section \<open>Requests\<close>

record github_request =
  gr_method :: string
  gr_path :: string
  gr_query :: "string option"
  gr_body :: "json option"

definition repo_path :: "repo_target \<Rightarrow> string" where
  "repo_path t = ''/repos/'' @ rt_owner t @ ''/'' @ rt_repo t"

definition pulls_path :: "repo_target \<Rightarrow> string" where
  "pulls_path t = repo_path t @ ''/pulls''"

definition unreserved :: "char \<Rightarrow> bool" where
  "unreserved c \<longleftrightarrow> github_char c \<or> c = CHR ''~''"

definition hex_digit :: "nat \<Rightarrow> char" where
  "hex_digit n = (if n < 10 then char_of (48 + n) else char_of (55 + n))"

definition percent_encode :: "string \<Rightarrow> string" where
  "percent_encode s = concat (map (\<lambda>c. if unreserved c then [c]
     else [CHR ''%'', hex_digit (byte c div 16), hex_digit (byte c mod 16)]) s)"

fun join_amp :: "string list \<Rightarrow> string" where
  "join_amp [] = []"
| "join_amp [x] = x"
| "join_amp (x # xs) = x @ ''&'' @ join_amp xs"

definition build_query :: "(string \<times> string option) list \<Rightarrow> string option" where
  "build_query parts = (let encoded = List.map_filter
       (\<lambda>(k, v). map_option (\<lambda>x. percent_encode k @ ''='' @ percent_encode x) v) parts
     in if encoded = [] then None else Some (join_amp encoded))"

datatype github_op =
  PrList "string option" "string option"
| PrGet nat
| PrCreate string string string "string option" "bool option"
| PrMerge nat "string option"
| PrReview nat string "string option"
| IssueList "string option" "string option"
| IssueGet nat
| IssueCreate string "string option" "string list option"
| IssueComment nat string
| ChecksStatus string
| WorkflowDispatch string string
| ReleaseCreate string "string option" "string option" "bool option" "bool option"

abbreviation get_request :: "string \<Rightarrow> string option \<Rightarrow> github_request" where
  "get_request path query \<equiv> \<lparr>gr_method = ''GET'', gr_path = path, gr_query = query, gr_body = None\<rparr>"

abbreviation send_request :: "string \<Rightarrow> string \<Rightarrow> json \<Rightarrow> github_request" where
  "send_request m path body \<equiv> \<lparr>gr_method = m, gr_path = path, gr_query = None, gr_body = Some body\<rparr>"

definition opt_str :: "string option \<Rightarrow> json option" where "opt_str = map_option JStr"
definition opt_bool :: "bool option \<Rightarrow> json option" where "opt_bool = map_option JBool"

text \<open>The checks an operation makes before it sends anything, and the requests it then sends.\<close>

fun github_check :: "github_op \<Rightarrow> msg + unit" where
  "github_check (ChecksStatus r) = ensure (trim r \<noteq> []) (Txt ''ref must not be empty'')"
| "github_check (WorkflowDispatch f r) =
     bindR (ensure (trim f \<noteq> [] \<and> trim r \<noteq> []) (Txt ''workflow_file and ref must not be empty'')) (\<lambda>_.
     ensure (is_valid_github_name (trim f)) (Fmt (''invalid workflow_file '' @ [CHR 0x27] @ ''{}'' @ [CHR 0x27]) [Txt f]))"
| "github_check op = Inr ()"

fun github_requests :: "repo_target \<Rightarrow> github_op \<Rightarrow> github_request list" where
  "github_requests t (PrList state base) = [get_request (pulls_path t) (build_query [(''state'', state), (''base'', base)])]"
| "github_requests t (PrGet n) = [get_request (pulls_path t @ ''/'' @ dec n) None]"
| "github_requests t (PrCreate title head base body draft) = [send_request ''POST'' (pulls_path t)
     (build_body [(''title'', Some (JStr title)), (''head'', Some (JStr head)), (''base'', Some (JStr base)),
       (''body'', opt_str body), (''draft'', opt_bool draft)] [])]"
| "github_requests t (PrMerge n how) = [send_request ''PUT'' (pulls_path t @ ''/'' @ dec n @ ''/merge'')
     (build_body [(''merge_method'', opt_str how)] [])]"
| "github_requests t (PrReview n event body) = [send_request ''POST'' (pulls_path t @ ''/'' @ dec n @ ''/reviews'')
     (build_body [(''event'', Some (JStr event)), (''body'', opt_str body)] [])]"
| "github_requests t (IssueList state labels) = [get_request (repo_path t @ ''/issues'') (build_query [(''state'', state), (''labels'', labels)])]"
| "github_requests t (IssueGet n) = [get_request (repo_path t @ ''/issues/'' @ dec n) None]"
| "github_requests t (IssueCreate title body labels) = [send_request ''POST'' (repo_path t @ ''/issues'')
     (build_body [(''title'', Some (JStr title)), (''body'', opt_str body), (''labels'', map_option (\<lambda>ls. JArr (map JStr ls)) labels)] [])]"
| "github_requests t (IssueComment n body) = [send_request ''POST'' (repo_path t @ ''/issues/'' @ dec n @ ''/comments'')
     (JObj [(''body'', JStr body)])]"
| "github_requests t (ChecksStatus r) = [get_request (repo_path t @ ''/commits/'' @ r @ ''/status'') None,
     get_request (repo_path t @ ''/commits/'' @ r @ ''/check-runs'') (Some ''per_page=100'')]"
| "github_requests t (WorkflowDispatch f r) = [send_request ''POST'' (repo_path t @ ''/actions/workflows/'' @ f @ ''/dispatches'')
     (JObj [(''ref'', JStr r)])]"
| "github_requests t (ReleaseCreate tag name body draft pre) = [send_request ''POST'' (repo_path t @ ''/releases'')
     (build_body [(''tag_name'', Some (JStr tag)), (''name'', opt_str name), (''body'', opt_str body), (''draft'', opt_bool draft),
       (''prerelease'', opt_bool pre)] [])]"

definition request_url :: "string \<Rightarrow> github_request \<Rightarrow> string" where
  "request_url base r = base @ gr_path r @ (case gr_query r of None \<Rightarrow> [] | Some q \<Rightarrow> ''?'' @ q)"

section \<open>Answers\<close>

type_synonym github_client = "string \<Rightarrow> string \<Rightarrow> json option \<Rightarrow> msg + nat \<times> string"

definition is_success :: "nat \<Rightarrow> bool" where "is_success s \<longleftrightarrow> 200 \<le> s \<and> s < 300"

definition send :: "github_client \<Rightarrow> string \<Rightarrow> github_request \<Rightarrow> msg + nat \<times> string" where
  "send http base r = http (gr_method r) (request_url base r) (gr_body r)"

definition request :: "github_client \<Rightarrow> (string \<Rightarrow> json option) \<Rightarrow> string \<Rightarrow> github_request \<Rightarrow> msg + json" where
  "request http parse base r = bindR (send http base r) (\<lambda>(status, content). case parse content of
      None \<Rightarrow> Inl (Fmt ''GitHub returned invalid JSON: {}'' [Txt content])
    | Some v \<Rightarrow> if is_success status then Inr v else Inl (Fmt ''GitHub API returned {}: {}'' [Num status, Txt content]))"

fun filter_pull_requests :: "json \<Rightarrow> json" where
  "filter_pull_requests (JArr items) = JArr (filter (\<lambda>i. json_get i ''pull_request'' = None) items)"
| "filter_pull_requests v = v"

fun github_result :: "github_client \<Rightarrow> (string \<Rightarrow> json option) \<Rightarrow> string \<Rightarrow> github_op \<Rightarrow> github_request list \<Rightarrow> msg + json" where
  "github_result http parse base (ChecksStatus r) [a, b] = bindR (request http parse base a) (\<lambda>status.
     Inr (JObj [(''check_runs'', case request http parse base b of Inr v \<Rightarrow> v | Inl _ \<Rightarrow> JNull), (''status'', status)]))"
| "github_result http parse base (WorkflowDispatch f r) [a] = bindR (send http base a) (\<lambda>(status, content).
     if is_success status then Inr (JObj [(''dispatched'', JBool True)]) else Inl (Fmt ''GitHub API returned {}: {}'' [Num status, Txt content]))"
| "github_result http parse base (IssueList state labels) [a] = bindR (request http parse base a) (\<lambda>v. Inr (filter_pull_requests v))"
| "github_result http parse base op (a # rs) = request http parse base a"
| "github_result http parse base op [] = Inl (Txt [])"

definition github_call :: "github_client \<Rightarrow> (string \<Rightarrow> json option) \<Rightarrow> string \<Rightarrow> repo_target \<Rightarrow> github_op \<Rightarrow> msg + json" where
  "github_call http parse base t op = bindR (github_check op) (\<lambda>_. github_result http parse base op (github_requests t op))"

section \<open>What callers can put into a path\<close>

definition path_char :: "char \<Rightarrow> bool" where
  "path_char c \<longleftrightarrow> github_char c \<or> c = CHR ''/''"

text \<open>The operations that put a string into the path that was not checked in that form.\<close>

fun splices_raw :: "github_op \<Rightarrow> bool" where
  "splices_raw (ChecksStatus r) \<longleftrightarrow> True"
| "splices_raw (WorkflowDispatch f r) \<longleftrightarrow> trim f \<noteq> f \<or> f = ''.'' \<or> f = ''..''"
| "splices_raw op \<longleftrightarrow> False"

definition no_dot_segments :: "string \<Rightarrow> bool" where
  "no_dot_segments s \<longleftrightarrow> list_all (\<lambda>x. x \<noteq> ''.'' \<and> x \<noteq> ''..'') (split_char (CHR ''/'') s)"

text \<open>The repository, then segments of name characters of which none climbs.\<close>

definition plain_path :: "repo_target \<Rightarrow> github_request \<Rightarrow> bool" where
  "plain_path t q \<longleftrightarrow> list_all path_char (gr_path q)
     \<and> (case strip_prefix (repo_path t) (gr_path q) of None \<Rightarrow> False | Some rest \<Rightarrow> no_dot_segments rest)"

lemma dec_segment: "CHR ''/'' \<notin> set (dec n)" "dec n \<noteq> ''.''" "dec n \<noteq> ''..''"
  using dec_digits [of n] by (auto simp: list_all_iff is_digit_def)

lemma number_segments:
  "split_char (CHR ''/'') (dec n) = [dec n]" "split_char (CHR ''/'') (dec n @ CHR ''/'' # b) = dec n # split_char (CHR ''/'') b"
  by (simp_all add: split_char_no_sep split_char_append dec_segment)

lemma digit_path_char [simp]: "path_char (digit_char n)"
proof -
  have "n mod 10 < 10" by simp
  then have "n mod 10 \<le> 9" by linarith
  then show ?thesis by (simp add: digit_char_def path_char_def github_char_def is_digit_def)
qed

lemma dec_path_char [simp]: "list_all path_char (dec n)"
  by (induction n rule: dec.induct) (subst dec.simps, simp)

lemma name_path_char: "list_all github_char n \<Longrightarrow> list_all path_char n"
  by (auto simp: list_all_iff path_char_def)

lemma from_str_pair_names:
  "from_str_pair o1 r1 = Some t \<Longrightarrow> list_all github_char (rt_owner t) \<and> list_all github_char (rt_repo t)"
  by (auto simp: from_str_pair_def is_valid_github_name_def split: if_splits)

lemma from_remote_url_names:
  "from_remote_url u = Some t \<Longrightarrow> list_all github_char (rt_owner t) \<and> list_all github_char (rt_repo t)"
  by (auto simp: from_remote_url_def Let_def from_str_pair_names split: option.splits list.splits)

lemma resolve_names:
  "resolve_repo_target env owner repo remote = Inr t \<Longrightarrow> list_all github_char (rt_owner t) \<and> list_all github_char (rt_repo t)"
  by (auto simp: resolve_repo_target_def dest: from_str_pair_names from_remote_url_names
      split: option.splits prod.splits bind_splits)

lemma literal_path_chars:
  "list_all path_char ''/repos/''" "list_all path_char ''/pulls''" "list_all path_char ''/issues''" "list_all path_char ''/issues/''"
  "list_all path_char ''/merge''" "list_all path_char ''/reviews''" "list_all path_char ''/comments''" "list_all path_char ''/releases''"
  "list_all path_char ''/actions/workflows/''" "list_all path_char ''/dispatches''" "list_all path_char ''/''"
  by code_simp+

lemma plain_repo: "list_all github_char (rt_owner t) \<Longrightarrow> list_all github_char (rt_repo t) \<Longrightarrow> list_all path_char (repo_path t)"
  unfolding repo_path_def list_all_append by (intro conjI literal_path_chars name_path_char)

lemma plain_extend:
  "list_all path_char (repo_path t) \<Longrightarrow> list_all path_char s \<Longrightarrow> no_dot_segments s \<Longrightarrow> gr_path q = repo_path t @ s \<Longrightarrow> plain_path t q"
  by (simp add: plain_path_def)

text \<open>
  C40. For a repository resolved from arguments, a remote address or the environment, the path of every
  request of every operation is that repository followed by segments of name characters, none of which
  is a dot or two dots, so no title, body, label, number or workflow name reshapes the path or the
  query; except for the reference of a status query and for a workflow name with space around it or of
  dots alone, which go into the path as they are.
\<close>

theorem github_paths_plain:
  "case resolve_repo_target env owner repo remote of
     Inl e \<Rightarrow> True
   | Inr t \<Rightarrow> splices_raw op \<or> isl (github_check op) \<or> list_all (plain_path t) (github_requests t op)"
proof (cases "resolve_repo_target env owner repo remote")
  case (Inr t)
  have r: "list_all path_char (repo_path t)" using plain_repo resolve_names [OF Inr] by blast
  note shape = plain_path_def no_dot_segments_def number_segments dec_segment
  have "splices_raw op \<or> isl (github_check op) \<or> list_all (plain_path t) (github_requests t op)"
  proof (cases op)
    case (WorkflowDispatch f ref)
    show ?thesis
    proof (cases "splices_raw op \<or> isl (github_check op)")
      case False
      then have f: "list_all github_char f" "f \<noteq> ''.''" "f \<noteq> ''..''"
        using WorkflowDispatch by (auto simp: is_valid_github_name_def bindR_def ensure_def split: if_splits)
      then have seg: "CHR ''/'' \<notin> set f" by (auto simp: list_all_iff github_char_def is_digit_def)
      have "list_all path_char (''/actions/workflows/'' @ f @ ''/dispatches'')"
        using name_path_char [OF f(1)] by (simp only: list_all_append literal_path_chars)
      moreover have "no_dot_segments (''/actions/workflows/'' @ f @ ''/dispatches'')"
        using f seg by (simp add: no_dot_segments_def split_char_append split_char_no_sep)
      ultimately have "plain_path t (hd (github_requests t op))"
        by (rule plain_extend [OF r]) (simp add: WorkflowDispatch)
      then show ?thesis by (simp add: WorkflowDispatch)
    qed auto
  qed (simp_all add: pulls_path_def shape r path_char_def github_char_def is_digit_def)
  with Inr show ?thesis by simp
qed simp

text \<open>What the exceptions allow, and a name the check lets through although it is no name.\<close>

lemma reference_reshapes_path:
  "map gr_path (github_requests \<lparr>rt_owner = ''o'', rt_repo = ''r''\<rparr> (ChecksStatus ''main/../../../../../user?x=''))
   = [''/repos/o/r/commits/main/../../../../../user?x=/status'', ''/repos/o/r/commits/main/../../../../../user?x=/check-runs'']"
  by code_simp

lemma workflow_dots_reshape_path:
  "github_check (WorkflowDispatch ''..'' ''main'') = Inr ()"
  "map gr_path (github_requests \<lparr>rt_owner = ''o'', rt_repo = ''r''\<rparr> (WorkflowDispatch ''..'' ''main''))
   = [''/repos/o/r/actions/workflows/../dispatches'']"
  by code_simp+

lemma dots_are_a_name: "from_str_pair ''..'' ''..'' = Some \<lparr>rt_owner = ''..'', rt_repo = ''..''\<rparr>"
  by code_simp

end
