(* ===== verification/Skills.thy ===== *)
theory Skills
  imports Stores EditModel
begin

text \<open>
  Skills (\<open>skills/\<close>): the front matter of a \<open>SKILL.md\<close> and the names it may carry, the global registry of
  installed packages, the stores that create skills, the references of a project with their disabled
  names, the installation of packages, and the gateway the tools use (\<open>mcp/skills.rs\<close>). The
  directories of a registry are a list of packages by name; the download, the clone and the digest
  are parameters.
\<close>

section \<open>Packages\<close>

record skill =
  sk_name :: string
  sk_description :: string
  sk_version :: "string option"
  sk_path :: string

text \<open>A package: its \<open>SKILL.md\<close>, when it has one, and its other files.\<close>

record package =
  pk_md :: "string option"
  pk_files :: "(string \<times> string) list"

type_synonym skills_dir = "(string \<times> package) list"

definition name_char :: "char \<Rightarrow> bool" where
  "name_char c \<longleftrightarrow> (97 \<le> byte c \<and> byte c \<le> 122) \<or> is_digit c \<or> c = CHR ''-'' \<or> c = CHR ''_''"

definition is_valid_name :: "string \<Rightarrow> bool" where
  "is_valid_name n \<longleftrightarrow> n \<noteq> [] \<and> length n \<le> 100 \<and> list_all name_char n"

definition invalid_skill_name :: "string \<Rightarrow> msg" where
  "invalid_skill_name n = Fmt ''invalid skill name: {}'' [Txt n]"

definition validate_skill_name :: "string \<Rightarrow> msg + unit" where
  "validate_skill_name n = ensure (is_valid_name n) (invalid_skill_name n)"

section \<open>Front matter\<close>

definition trim_matches :: "char \<Rightarrow> string \<Rightarrow> string" where
  "trim_matches c s = rev (dropWhile (\<lambda>x. x = c) (rev (dropWhile (\<lambda>x. x = c) s)))"

record front_matter =
  fm_name :: "string option"
  fm_description :: "string option"
  fm_version :: "string option"

definition metadata_value :: "string \<Rightarrow> string" where
  "metadata_value v = trim_matches (CHR 0x27) (trim_matches (CHR 0x22) (trim v))"

text \<open>The lines up to the closing one; a line without a colon or with another key is skipped.\<close>

fun scan_front :: "string list \<Rightarrow> front_matter \<Rightarrow> front_matter" where
  "scan_front [] m = m"
| "scan_front (l # ls) m =
     (if trim l = ''---'' then m
      else case split_once (CHR '':'') l of
        None \<Rightarrow> scan_front ls m
      | Some (k, v) \<Rightarrow>
          if trim k = ''name'' then scan_front ls (m\<lparr>fm_name := Some (metadata_value v)\<rparr>)
          else if trim k = ''description'' then scan_front ls (m\<lparr>fm_description := Some (metadata_value v)\<rparr>)
          else if trim k = ''version'' then scan_front ls (m\<lparr>fm_version := Some (metadata_value v)\<rparr>)
          else scan_front ls m)"

definition no_metadata :: front_matter where
  "no_metadata = \<lparr>fm_name = None, fm_description = None, fm_version = None\<rparr>"

definition parse_front_matter :: "string \<Rightarrow> msg + string \<times> string \<times> string option" where
  "parse_front_matter content = (case str_lines content of
      [] \<Rightarrow> Inl (Txt ''SKILL.md must start with YAML front matter'')
    | l # ls \<Rightarrow>
        if l \<noteq> ''---'' then Inl (Txt ''SKILL.md must start with YAML front matter'')
        else let m = scan_front ls no_metadata in
          case fm_name m of
            None \<Rightarrow> Inl (Txt ''missing skill metadata: name'')
          | Some n \<Rightarrow> (case fm_description m of
              None \<Rightarrow> Inl (Txt ''missing skill metadata: description'')
            | Some d \<Rightarrow> Inr (n, d, fm_version m)))"

definition parse_skill :: "string \<Rightarrow> package \<Rightarrow> msg + skill" where
  "parse_skill dir p = (case pk_md p of
      None \<Rightarrow> Inl (Fmt ''SKILL.md not found: {}'' [Txt dir])
    | Some bytes \<Rightarrow> (case from_utf8 bytes of
        None \<Rightarrow> Inl (Txt ''stream did not contain valid UTF-8'')
      | Some content \<Rightarrow> bindR (parse_front_matter content) (\<lambda>(n, d, v).
          bindR (validate_skill_name n) (\<lambda>_.
          Inr \<lparr>sk_name = n, sk_description = d, sk_version = v, sk_path = dir\<rparr>))))"

section \<open>The global registry\<close>

definition front_text :: "string \<Rightarrow> string \<Rightarrow> string" where
  "front_text name description = ''---'' @ [LF] @ ''name: '' @ name @ [LF] @ ''description: '' @ description @ [LF]
     @ ''version: 0.1.0'' @ [LF] @ ''---'' @ [LF]"

definition template_body :: "string \<Rightarrow> string" where
  "template_body name = [LF] @ ''# '' @ name @ [LF, LF]
     @ ''## When to use'' @ [LF, LF] @ ''Describe when an agent should use this skill.'' @ [LF, LF]
     @ ''## Workflow'' @ [LF, LF] @ ''1. Describe the first step.'' @ [LF] @ ''2. Describe the second step.'' @ [LF, LF]
     @ ''## Rules'' @ [LF, LF] @ ''- Add important rules here.'' @ [LF]"

definition skill_template :: "string \<Rightarrow> string \<Rightarrow> string" where
  "skill_template name description = front_text name description @ template_body name"

text \<open>
  A directory and its \<open>SKILL.md\<close> are made by two calls; the second may fail after it wrote a part of the
  text, or before there is a file.
\<close>

datatype create_fault = NoFault | DirFault msg | WriteFault "string option" msg

definition place_skill :: "create_fault \<Rightarrow> string \<Rightarrow> string \<Rightarrow> (skills_dir, msg, skill) io" where
  "place_skill fault name content = (case fault of
      NoFault \<Rightarrow> let p = \<lparr>pk_md = Some content, pk_files = []\<rparr> in
        bindE (modify (\<lambda>d. (name, p) # d)) (\<lambda>_. lift (parse_skill name p))
    | DirFault m \<Rightarrow> fail m
    | WriteFault written m \<Rightarrow> bindE (modify (\<lambda>d. (name, \<lparr>pk_md = written, pk_files = []\<rparr>) # d)) (\<lambda>_. fail m))"

definition registry_create :: "create_fault \<Rightarrow> string \<Rightarrow> string \<Rightarrow> (skills_dir, msg, skill) io" where
  "registry_create fault name description =
     bindE (lift (validate_skill_name name)) (\<lambda>_.
     bindE (gets (\<lambda>d. map_of d name)) (\<lambda>found.
     if found \<noteq> None then fail (Fmt ''global skill already exists: {}'' [Txt name])
     else place_skill fault name (skill_template name description)))"

definition registry_get :: "skills_dir \<Rightarrow> string \<Rightarrow> msg + skill option" where
  "registry_get d name =
     bindR (validate_skill_name name) (\<lambda>_. case map_of d name of
         None \<Rightarrow> Inr None
       | Some p \<Rightarrow> bindR (parse_skill name p) (\<lambda>s. Inr (Some s)))"

fun parse_all :: "skills_dir \<Rightarrow> msg + skill list" where
  "parse_all [] = Inr []"
| "parse_all ((n, p) # d) =
     (if pk_md p = None then parse_all d
      else bindR (parse_skill n p) (\<lambda>s. bindR (parse_all d) (\<lambda>ss. Inr (s # ss))))"

definition registry_list :: "skills_dir \<Rightarrow> msg + skill list" where
  "registry_list d = bindR (parse_all d) (\<lambda>ss. Inr (sort_key sk_name ss))"

text \<open>The store of a project: any length of name, and no check of the name in \<open>get\<close>.\<close>

definition skill_store_create :: "create_fault \<Rightarrow> string \<Rightarrow> string \<Rightarrow> (skills_dir, msg, skill) io" where
  "skill_store_create fault name description =
     bindE (lift (ensure (name \<noteq> [] \<and> list_all name_char name) (invalid_skill_name name))) (\<lambda>_.
     bindE (gets (\<lambda>d. map_of d name)) (\<lambda>found.
     if found \<noteq> None then fail (Fmt ''skill already exists: {}'' [Txt name])
     else place_skill fault name (skill_template name description)))"

section \<open>Installation\<close>

definition validate_skill_package :: "package \<Rightarrow> msg + unit" where
  "validate_skill_package p = (case pk_md p of
      None \<Rightarrow> Inl (Txt ''skill package must contain SKILL.md'')
    | Some content \<Rightarrow> ensure (length content \<le> 1048576) (Txt ''SKILL.md exceeds 1 MiB limit''))"

definition replace_package :: "string \<Rightarrow> package \<Rightarrow> skills_dir \<Rightarrow> skills_dir" where
  "replace_package name p d = (name, p) # filter (\<lambda>(n, _). n \<noteq> name) d"

definition install_from_local :: "package \<Rightarrow> string \<Rightarrow> (skills_dir, msg, unit) io" where
  "install_from_local source name =
     bindE (lift (validate_skill_name name)) (\<lambda>_.
     bindE (lift (validate_skill_package source)) (\<lambda>_.
     modify (replace_package name source)))"

definition hex_char :: "char \<Rightarrow> bool" where
  "hex_char c \<longleftrightarrow> is_digit c \<or> (65 \<le> byte c \<and> byte c \<le> 70) \<or> (97 \<le> byte c \<and> byte c \<le> 102)"

definition to_lower :: "string \<Rightarrow> string" where
  "to_lower s = map (\<lambda>c. if 65 \<le> byte c \<and> byte c \<le> 90 then char_of (byte c + 32) else c) s"

definition validate_sha256 :: "string option \<Rightarrow> string \<Rightarrow> msg + unit" where
  "validate_sha256 expected actual = (case expected of
      None \<Rightarrow> Inr ()
    | Some e \<Rightarrow>
        if length e \<noteq> 64 \<or> \<not> list_all hex_char e then Inl (Txt ''invalid SHA-256 digest in registry manifest'')
        else ensure (to_lower e = to_lower actual) (Txt ''skill integrity check failed''))"

record registry_skill =
  rs_name :: string
  rs_path :: string
  rs_sha256 :: "string option"

text \<open>\<open>fetch\<close> is the download of a path under the base address, \<open>digest\<close> the hexadecimal SHA-256.\<close>

definition install_from_registry ::
    "(string \<Rightarrow> string) \<Rightarrow> registry_skill list \<Rightarrow> (string \<Rightarrow> msg + string) \<Rightarrow> string \<Rightarrow> (skills_dir, msg, unit) io" where
  "install_from_registry digest manifest fetch skill_name = (case find (\<lambda>s. rs_name s = skill_name) manifest of
      None \<Rightarrow> fail (Txt ''skill not found in registry'')
    | Some entry \<Rightarrow>
        bindE (lift (validate_skill_name (rs_name entry))) (\<lambda>_.
        if starts_with (rs_path entry) ''/'' \<or> contains (rs_path entry) ''..'' then fail (Txt ''registry returned unsafe skill path'')
        else bindE (lift (fetch (rs_path entry))) (\<lambda>bytes.
        bindE (lift (validate_sha256 (rs_sha256 entry) (digest bytes))) (\<lambda>_.
        let p = \<lparr>pk_md = Some bytes, pk_files = []\<rparr> in
        bindE (lift (validate_skill_package p)) (\<lambda>_.
        modify (replace_package (rs_name entry) p))))))"

section \<open>The references of a project\<close>

record skill_references =
  rf_skills :: "string list"
  rf_disabled :: "string list"

definition no_references :: skill_references where
  "no_references = \<lparr>rf_skills = [], rf_disabled = []\<rparr>"

type_synonym refs_file = "skill_references stored"
type_synonym 'a refs_op = "(refs_file, msg, 'a) io"

definition refs_load :: "refs_file \<Rightarrow> msg + skill_references" where
  "refs_load f = (case f of
      Absent \<Rightarrow> Inr no_references
    | Corrupt \<Rightarrow> Inl (Txt ''skill references are unreadable'')
    | Stored r \<Rightarrow> Inr r)"

definition refs_unavailable :: msg where
  "refs_unavailable = Txt ''skill references unavailable''"

definition refs_save :: "store_env \<Rightarrow> skill_references \<Rightarrow> unit refs_op" where
  "refs_save e r = (if \<not> write_ok e then fail refs_unavailable else modify (\<lambda>_. Stored r))"

definition refs_locked :: "store_env \<Rightarrow> (skill_references \<Rightarrow> 'a refs_op) \<Rightarrow> 'a refs_op" where
  "refs_locked e body = (if \<not> lock_ok e then fail refs_unavailable
     else bindE (\<lambda>f. (refs_load f, f)) body)"

definition sort_dedup :: "string list \<Rightarrow> string list" where
  "sort_dedup xs = remdups_adj (sort xs)"

definition without :: "string \<Rightarrow> string list \<Rightarrow> string list" where
  "without name xs = filter (\<lambda>s. s \<noteq> name) xs"

definition refs_add :: "store_env \<Rightarrow> skills_dir \<Rightarrow> string \<Rightarrow> bool refs_op" where
  "refs_add e d name =
     bindE (lift (validate_skill_name name)) (\<lambda>_.
     bindE (lift (registry_get d name)) (\<lambda>found.
     if found = None then fail (Fmt ''skill is not installed globally: {}'' [Txt name])
     else refs_locked e (\<lambda>r.
       if name \<in> set (rf_skills r) then ret False
       else bindE (refs_save e \<lparr>rf_skills = sort_dedup (rf_skills r @ [name]), rf_disabled = without name (rf_disabled r)\<rparr>)
         (\<lambda>_. ret True))))"

definition refs_remove :: "store_env \<Rightarrow> string \<Rightarrow> bool refs_op" where
  "refs_remove e name = refs_locked e (\<lambda>r.
     let kept = without name (rf_skills r) in
     if length kept = length (rf_skills r) then ret False
     else bindE (refs_save e \<lparr>rf_skills = kept, rf_disabled = without name (rf_disabled r)\<rparr>) (\<lambda>_. ret True))"

definition not_referenced :: "string \<Rightarrow> msg" where
  "not_referenced name = Fmt ''skill is not referenced by the current project: {}'' [Txt name]"

definition refs_enable :: "store_env \<Rightarrow> string \<Rightarrow> unit refs_op" where
  "refs_enable e name =
     bindE (lift (validate_skill_name name)) (\<lambda>_.
     refs_locked e (\<lambda>r. if name \<notin> set (rf_skills r) then fail (not_referenced name)
       else refs_save e (r\<lparr>rf_disabled := without name (rf_disabled r)\<rparr>)))"

definition refs_disable :: "store_env \<Rightarrow> string \<Rightarrow> unit refs_op" where
  "refs_disable e name =
     bindE (lift (validate_skill_name name)) (\<lambda>_.
     refs_locked e (\<lambda>r. if name \<notin> set (rf_skills r) then fail (not_referenced name)
       else refs_save e (if name \<in> set (rf_disabled r) then r
         else r\<lparr>rf_disabled := sort_dedup (rf_disabled r @ [name])\<rparr>)))"

definition refs_states :: "refs_file \<Rightarrow> msg + (string \<times> bool) list" where
  "refs_states f = bindR (refs_load f) (\<lambda>r. Inr (map (\<lambda>n. (n, n \<notin> set (rf_disabled r))) (rf_skills r)))"

fun resolve_names :: "skills_dir \<Rightarrow> string list \<Rightarrow> msg + skill list" where
  "resolve_names d [] = Inr []"
| "resolve_names d (n # ns) = bindR (registry_get d n) (\<lambda>s. bindR (resolve_names d ns) (\<lambda>ss.
     Inr (case s of None \<Rightarrow> ss | Some x \<Rightarrow> x # ss)))"

definition refs_resolve :: "skills_dir \<Rightarrow> refs_file \<Rightarrow> msg + skill list" where
  "refs_resolve d f = bindR (refs_load f) (\<lambda>r. resolve_names d (rf_skills r))"

section \<open>The gateway of the tools\<close>

record skill_summary =
  su_name :: string
  su_description :: string
  su_version :: "string option"
  su_enabled :: "bool option"

definition summary :: "skill \<Rightarrow> bool option \<Rightarrow> skill_summary" where
  "summary s e = \<lparr>su_name = sk_name s, su_description = sk_description s, su_version = sk_version s, su_enabled = e\<rparr>"

definition gateway_list :: "skills_dir \<Rightarrow> refs_file \<Rightarrow> msg + skill_summary list" where
  "gateway_list d f = bindR (refs_states f) (\<lambda>states.
     bindR (refs_resolve d f) (\<lambda>ss. Inr (map (\<lambda>s. summary s (map_of (rev states) (sk_name s))) ss)))"

definition gateway_read :: "skills_dir \<Rightarrow> refs_file \<Rightarrow> string \<Rightarrow> msg + skill" where
  "gateway_read d f name =
     bindR (refs_load f) (\<lambda>r.
     if name \<notin> set (rf_skills r) then Inl (not_referenced name)
     else bindR (refs_states f) (\<lambda>states.
     if list_ex (\<lambda>(n, on). n = name \<and> \<not> on) states then Inl (Fmt ''skill is disabled: {}'' [Txt name])
     else bindR (registry_get d name) (\<lambda>s. case s of
         None \<Rightarrow> Inl (Fmt ''skill not installed globally: {}'' [Txt name])
       | Some x \<Rightarrow> Inr x)))"

definition gateway_search :: "skills_dir \<Rightarrow> string \<Rightarrow> msg + skill_summary list" where
  "gateway_search d query = bindR (registry_list d) (\<lambda>ss.
     Inr (map (\<lambda>s. summary s None)
       (filter (\<lambda>s. contains (to_lower (sk_name s)) (to_lower query) \<or> contains (to_lower (sk_description s)) (to_lower query)) ss)))"

end
