(* ===== verification/Hub.thy ===== *)
theory Hub
  imports FsTools WorkspaceFiles Providers Observability Memory Tasks Connectors ContextEngine Github Skills
begin

text \<open>
  The state behind the tools of the dispatcher (\<open>McpDispatcher\<close> in \<open>mcp/dispatcher.rs\<close>): the edit world
  with the files, locks, snapshots and audit log, the stores of the workspace, the context engine, the
  skills, the providers and the metrics; the services it relies on as one record of parameters; and how
  an operation of one part runs on the whole.
\<close>

section \<open>Calls that leave the program\<close>

datatype composio_call =
  ComposioLink string string "string option" "string option"
| ComposioAccounts "string option" "string option"
| ComposioRegister string string "string option"
| ComposioRemove string

datatype external_call =
  ProviderCall string string json
| GitCall git_op
| TerminalCall string "string list"
| GithubCall repo_target github_op
| ComposioCall composio_call

text \<open>
  Which of them ask only: a status, a log, a diff, a \<open>GET\<close> request. The service may still do work of its own
  on the way (git brings its index up to date when it is asked for a status).
\<close>

fun reading_git :: "git_op \<Rightarrow> bool" where
  "reading_git OpStatus \<longleftrightarrow> True"
| "reading_git (OpRemoteUrl n) \<longleftrightarrow> True"
| "reading_git (OpLog n) \<longleftrightarrow> True"
| "reading_git (OpDiff p) \<longleftrightarrow> True"
| "reading_git (OpDiffStaged p) \<longleftrightarrow> True"
| "reading_git op \<longleftrightarrow> False"

fun reading :: "external_call \<Rightarrow> bool" where
  "reading (ProviderCall i tool args) \<longleftrightarrow> False"
| "reading (GitCall op) \<longleftrightarrow> reading_git op"
| "reading (TerminalCall p args) \<longleftrightarrow> False"
| "reading (GithubCall t op) \<longleftrightarrow> list_all (\<lambda>q. gr_method q = ''GET'') (github_requests t op)"
| "reading (ComposioCall c) \<longleftrightarrow> (case c of ComposioAccounts u k \<Rightarrow> True | _ \<Rightarrow> False)"

section \<open>Values\<close>

text \<open>The value of a tool call, before it is printed.\<close>

datatype call_value =
  FsValue tool_result
| DynamicValue tool_call_result
| JsonValue json
| FileList "workspace_file list"
| SummaryList "skill_summary list"
| SkillValue skill
| MemoryValue memory_entry
| MemoryOption "memory_entry option"
| MemoryList "memory_entry list"
| TaskValue task
| TaskOption "task option"
| TaskList "task list"
| ConnectorValue connector
| ConnectorOption "connector option"
| ConnectorList "connector list"
| DescriptorList "tool_descriptor list"
| ContextStatus context_status
| ContextItem context_item
| ContextOption "context_item option"
| ContextHits "search_hit list"
| ContextSummary decision_summary
| ContextAssembled assembled_context
| GitValue git_value
| ExecValue exec_outcome

section \<open>State and services\<close>

record 'p hub =
  hb_edit :: edit_world
  hb_memory :: memory_files
  hb_tasks :: task_file
  hb_connectors :: "connector list stored"
  hb_context :: "engine option"
  hb_refs :: refs_file
  hb_registry :: "'p provider_registry"
  hb_metrics :: tool_metrics
  hb_sent :: "external_call list"

record 'p services =
  sv_sha :: sha
  sv_rfc :: rfc
  sv_fresh_id :: string
  sv_now :: string
  sv_store :: store_env
  sv_trust :: "trust_store option"
  sv_runtime :: runtime
  sv_worktrees :: "msg + string list"
  sv_skills :: skills_dir
  sv_lower :: "string \<Rightarrow> string"
  sv_dir :: dir_reader
  sv_lister :: "'p lister"
  sv_answers :: "'p answers"
  sv_invoker :: "'p invoker"
  sv_composio_provider :: "string \<Rightarrow> string \<Rightarrow> string option \<Rightarrow> msg + 'p option"
  sv_composio :: "composio_call \<Rightarrow> msg + json"
  sv_git :: "nat \<Rightarrow> git_runner"
  sv_exec :: "string \<Rightarrow> string list \<Rightarrow> exec_answer"
  sv_executable :: "string \<Rightarrow> bool"
  sv_search_path :: "string list"
  sv_effect :: "external_call \<Rightarrow> edit_world \<Rightarrow> edit_world"
  sv_github :: bool
  sv_http :: github_client
  sv_parse :: "string \<Rightarrow> json option"
  sv_api_url :: string
  sv_default_repo :: "(string \<times> string) option"
  sv_is_repository :: bool
  sv_hooks :: nat
  sv_uptime :: nat
  sv_print :: "call_value \<Rightarrow> string"
  sv_version :: string
  sv_duration :: nat

type_synonym ('p, 'a) hub_op = "('p hub, tool_error, 'a) io"

section \<open>Running a part on the whole\<close>

definition on_edit :: "'a tool_op \<Rightarrow> ('p, 'a) hub_op" where
  "on_edit f h = (case f (hb_edit h) of (r, w) \<Rightarrow> (r, h\<lparr>hb_edit := w\<rparr>))"

definition on_files :: "'a file_op \<Rightarrow> ('p, 'a) hub_op" where
  "on_files f = on_edit (map_err (\<lambda>e. Other (anyhow_msg e)) f)"

definition on_memory :: "'a memory_op \<Rightarrow> ('p, 'a) hub_op" where
  "on_memory f h = (case f (hb_memory h) of (r, m) \<Rightarrow> (map_sum Other id r, h\<lparr>hb_memory := m\<rparr>))"

definition on_tasks :: "'a task_op \<Rightarrow> ('p, 'a) hub_op" where
  "on_tasks f h = (case f (hb_tasks h) of (r, t) \<Rightarrow> (map_sum Other id r, h\<lparr>hb_tasks := t\<rparr>))"

definition on_refs :: "'a refs_op \<Rightarrow> ('p, 'a) hub_op" where
  "on_refs f h = (case f (hb_refs h) of (r, t) \<Rightarrow> (map_sum Other id r, h\<lparr>hb_refs := t\<rparr>))"

definition on_connectors :: "'a connector_op \<Rightarrow> ('p, 'a) hub_op" where
  "on_connectors f h = (case f \<lparr>cw_file = hb_connectors h, cw_log = ew_log (hb_edit h)\<rparr> of
     (r, w) \<Rightarrow> (map_sum Other id r, h\<lparr>hb_connectors := cw_file w, hb_edit := (hb_edit h)\<lparr>ew_log := cw_log w\<rparr>\<rparr>))"

text \<open>A panic of the engine ends the call like an error here.\<close>

fun engine_error_of :: "engine_error \<Rightarrow> tool_error" where
  "engine_error_of (Refused m) = Other m"
| "engine_error_of Panicked = Other (Txt ''panic'')"

definition on_context :: "'a engine_op \<Rightarrow> ('p, 'a) hub_op" where
  "on_context f h = (case hb_context h of
      None \<Rightarrow> (Inl (Other (Txt ''context engine is disabled or failed to initialize'')), h)
    | Some e \<Rightarrow> (case f e of (r, e') \<Rightarrow> (map_sum engine_error_of id r, h\<lparr>hb_context := Some e'\<rparr>)))"

definition asking :: "('p hub \<Rightarrow> msg + 'a) \<Rightarrow> ('p, 'a) hub_op" where
  "asking f = bindE (gets f) (\<lambda>r. lift (map_sum Other id r))"

definition note_event :: "(audit_event list \<Rightarrow> audit_event list) \<Rightarrow> ('p, unit) hub_op" where
  "note_event f = on_edit (log_event f)"

text \<open>
  A call handed to a service is added to the trace, and has an effect on the workspace: any effect the
  parameter gives it.
\<close>

definition call_out :: "'p services \<Rightarrow> external_call \<Rightarrow> msg + 'a \<Rightarrow> ('p, 'a) hub_op" where
  "call_out v c answer =
     bindE (modify (\<lambda>h. h\<lparr>hb_sent := hb_sent h @ [c], hb_edit := sv_effect v c (hb_edit h)\<rparr>)) (\<lambda>_. lift (map_sum Other id answer))"

section \<open>Arguments\<close>

definition opt_strval :: "json \<Rightarrow> string \<Rightarrow> string" where
  "opt_strval arguments key = (case get_str arguments key of Some s \<Rightarrow> s | None \<Rightarrow> [])"

definition strings_arg :: "json \<Rightarrow> string \<Rightarrow> string list" where
  "strings_arg arguments key = (case Option.bind (json_get arguments key) as_array of None \<Rightarrow> [] | Some xs \<Rightarrow> strings xs)"

definition quoted :: "string \<Rightarrow> string" where
  "quoted s = [CHR 0x27] @ s @ [CHR 0x27]"

definition parse_scope :: "string option \<Rightarrow> tool_error + memory_scope" where
  "parse_scope value = (let s = (case value of None \<Rightarrow> ''Project'' | Some x \<Rightarrow> x) in
     if s = ''Session'' then Inr Memory.ScopeSession
     else if s = ''Project'' then Inr Memory.ScopeProject
     else if s = ''Global'' then Inr Memory.ScopeGlobal
     else Inl (Other (Fmt (''invalid scope '' @ quoted ''{}'' @ '': expected Session, Project, or Global'') [Txt s])))"

definition parse_context_source :: "string option \<Rightarrow> context_source" where
  "parse_context_source value = (case map_of [(''System'', SrcSystem), (''User'', SrcUser), (''Assistant'', SrcAssistant),
       (''Tool'', SrcTool), (''Skill'', SrcSkill), (''File'', SrcFile), (''Memory'', SrcMemory), (''Workspace'', SrcWorkspace),
       (''Search'', SrcSearch), (''Summary'', SrcSummary)] (case value of None \<Rightarrow> ''Other'' | Some x \<Rightarrow> x) of
      Some s \<Rightarrow> s | None \<Rightarrow> SrcOther)"

definition parse_context_scope :: "string option \<Rightarrow> tool_error + context_scope" where
  "parse_context_scope value = (let s = (case value of None \<Rightarrow> ''Project'' | Some x \<Rightarrow> x) in
     if s = ''Session'' then Inr ContextItem.ScopeSession
     else if s = ''Project'' then Inr ContextItem.ScopeProject
     else if s = ''Global'' then Inr ContextItem.ScopeGlobal
     else Inl (Other (Fmt (''invalid scope '' @ quoted ''{}'' @ '': expected Session, Project, or Global'') [Txt s])))"

definition parse_status :: "string \<Rightarrow> tool_error + task_status" where
  "parse_status s =
     (if s = ''Todo'' then Inr Todo else if s = ''InProgress'' then Inr InProgress else if s = ''Blocked'' then Inr TaskBlocked
      else if s = ''Done'' then Inr Done else if s = ''Cancelled'' then Inr Cancelled
      else Inl (Other (Fmt (''invalid status '' @ quoted ''{}'' @ '': expected Todo, InProgress, Blocked, Done, or Cancelled'') [Txt s])))"

definition parse_priority :: "string option \<Rightarrow> tool_error + task_priority" where
  "parse_priority value = (let s = (case value of None \<Rightarrow> ''Normal'' | Some x \<Rightarrow> x) in
     if s = ''Low'' then Inr PLow else if s = ''Normal'' then Inr PNormal else if s = ''High'' then Inr PHigh
     else if s = ''Critical'' then Inr PCritical
     else Inl (Other (Fmt (''invalid priority '' @ quoted ''{}'' @ '': expected Low, Normal, High, or Critical'') [Txt s])))"

definition parse_auth :: "string option \<Rightarrow> tool_error + auth_method" where
  "parse_auth value = (let s = (case value of None \<Rightarrow> ''None'' | Some x \<Rightarrow> x) in
     if s = ''OAuth'' then Inr OAuth else if s = ''ApiKey'' then Inr ApiKey else if s = ''None'' then Inr NoAuth
     else Inl (Other (Fmt (''invalid auth '' @ quoted ''{}'' @ '': expected OAuth, ApiKey, or None'') [Txt s])))"

text \<open>\<open>Option::map(parse).transpose()?\<close>.\<close>

definition optionally :: "('b \<Rightarrow> tool_error + 'a) \<Rightarrow> 'b option \<Rightarrow> tool_error + 'a option" where
  "optionally parse value = (case value of None \<Rightarrow> Inr None | Some x \<Rightarrow> bindR (parse x) (\<lambda>y. Inr (Some y)))"

definition supported_protocol_versions :: "string list" where
  "supported_protocol_versions = [''2025-06-18'', ''2025-03-26'', ''2024-11-05'']"

definition jnat :: "nat \<Rightarrow> json" where "jnat n = JNum (PosInt (of_nat n))"

end
