(* ===== verification/ToolArms.thy ===== *)
theory ToolArms
  imports Hub
begin

text \<open>
  The arms of \<open>call_tool_for\<close> (\<open>mcp/dispatcher.rs\<close>): for each name of the match, what it runs. An arm
  is a name with its operation on the hub; the groups stand in the order of the code.
\<close>

type_synonym 'p arm = "string \<times> ('p, call_value) hub_op"

text \<open>An arm that asks \<open>authorize_tool\<close> before anything else.\<close>

definition gated :: "'p services \<Rightarrow> session_identity option \<Rightarrow> json \<Rightarrow> string \<Rightarrow> ('p, call_value) hub_op \<Rightarrow> 'p arm" where
  "gated v caller a name body = (name, bindE (on_edit (authorize_tool (sv_trust v) name a caller)) (\<lambda>_. body))"

definition giving :: "('a \<Rightarrow> call_value) \<Rightarrow> ('p, 'a) hub_op \<Rightarrow> ('p, call_value) hub_op" where
  "giving wrap m = bindE m (\<lambda>x. ret (wrap x))"

definition arg :: "tool_error + 'a \<Rightarrow> ('a \<Rightarrow> ('p, 'b) hub_op) \<Rightarrow> ('p, 'b) hub_op" where
  "arg r f = bindE (lift r) f"

definition flag :: "string \<Rightarrow> bool \<Rightarrow> call_value" where
  "flag key b = JsonValue (JObj [(key, JBool b)])"

section \<open>Status\<close>

definition status_value :: "'p services \<Rightarrow> 'p hub \<Rightarrow> nat \<Rightarrow> json" where
  "status_value v h dynamic =
     (let static = length (static_tools (sv_github v)); (tracked, calls, failures) = metrics_totals (hb_metrics h) in
      JObj [(''context_engine_enabled'', JBool (hb_context h \<noteq> None)),
        (''github_enabled'', JBool (sv_github v)),
        (''hooks_registered'', jnat (sv_hooks v)),
        (''metrics'', JObj [(''tool_calls'', JNum (PosInt calls)), (''tool_failures'', JNum (PosInt failures)), (''tools_tracked'', jnat tracked)]),
        (''protocol_versions'', JArr (map JStr supported_protocol_versions)),
        (''providers'', JArr (map JStr (providers (hb_registry h)))),
        (''status'', JStr ''running''),
        (''tools'', JObj [(''dynamic'', jnat dynamic), (''static'', jnat static), (''total'', jnat (static + dynamic))]),
        (''uptime_secs'', jnat (sv_uptime v))])"

definition aggregated :: "'p services \<Rightarrow> ('p, tool_descriptor list) hub_op" where
  "aggregated v h = (case aggregate_tools (sv_answers v) \<lparr>ag_registry = hb_registry h, ag_log = ew_log (hb_edit h)\<rparr> of
     (ts, g) \<Rightarrow> (Inr ts, h\<lparr>hb_registry := ag_registry g, hb_edit := (hb_edit h)\<lparr>ew_log := ag_log g\<rparr>\<rparr>))"

definition status_arms :: "'p services \<Rightarrow> 'p arm list" where
  "status_arms v = [(''mcp.status'', bindE (aggregated v) (\<lambda>ts. gets (\<lambda>h. JsonValue (status_value v h (length ts)))))]"

section \<open>Skills and files\<close>

definition skill_arms :: "'p services \<Rightarrow> session_identity option \<Rightarrow> json \<Rightarrow> 'p arm list" where
  "skill_arms v caller a = (let name = opt_strval a ''name'' in
    [(''skills.list'', giving SummaryList (asking (\<lambda>h. gateway_list (sv_skills v) (hb_refs h)))),
     (''skills.read'', giving SkillValue (asking (\<lambda>h. gateway_read (sv_skills v) (hb_refs h) name))),
     gated v caller a ''skills.add'' (giving (\<lambda>_. flag ''ok'' True) (on_refs (refs_add (sv_store v) (sv_skills v) name))),
     gated v caller a ''skills.remove'' (giving (flag ''removed'') (on_refs (refs_remove (sv_store v) name))),
     gated v caller a ''skills.enable'' (giving (\<lambda>_. flag ''ok'' True) (on_refs (refs_enable (sv_store v) name))),
     gated v caller a ''skills.disable'' (giving (\<lambda>_. flag ''ok'' True) (on_refs (refs_disable (sv_store v) name))),
     (''skills.search'', giving SummaryList (asking (\<lambda>h. gateway_search (sv_skills v) (opt_strval a ''query''))))])"

definition workspace_arms :: "'p services \<Rightarrow> session_identity option \<Rightarrow> json \<Rightarrow> 'p arm list" where
  "workspace_arms v caller a =
    [(''workspace.context'', giving (JsonValue \<circ> JStr) (on_files workspace_context)),
     (''workspace.list_files'', arg (strval a ''path'') (\<lambda>path. giving FileList (on_files (workspace_list_files (sv_dir v) path)))),
     (''workspace.read_file'', arg (strval a ''path'') (\<lambda>path. giving (JsonValue \<circ> JStr) (on_files (workspace_read_file path)))),
     gated v caller a ''workspace.write_file'' (arg (strval a ''path'') (\<lambda>path. arg (strval a ''content'') (\<lambda>content.
       bindE (note_event (audit_allow ''workspace_write'' path [])) (\<lambda>_.
       giving (\<lambda>_. flag ''written'' True) (on_files (workspace_write_file (sv_sha v) path content)))))),
     gated v caller a ''workspace.delete_file'' (arg (strval a ''path'') (\<lambda>path.
       bindE (note_event (audit_allow ''workspace_delete'' path [])) (\<lambda>_.
       giving (flag ''deleted'') (on_files (workspace_delete_file (sv_sha v) path)))))]"

definition all_fs_tools :: "fs_tool list" where
  "all_fs_tools = [FsReplace, FsInsert, FsDeleteRange, FsApplyDiff, FsPatch, FsRollback]"

definition fs_arms :: "'p services \<Rightarrow> session_identity option \<Rightarrow> json \<Rightarrow> 'p arm list" where
  "fs_arms v caller a = map (\<lambda>t. gated v caller a (fs_tool_name t)
     (giving FsValue (on_edit (fs_tool_body (sv_sha v) (sv_rfc v) (sv_fresh_id v) t (edit_principal caller) a)))) all_fs_tools"

section \<open>Stores\<close>

definition memory_arms :: "'p services \<Rightarrow> session_identity option \<Rightarrow> json \<Rightarrow> 'p arm list" where
  "memory_arms v caller a =
    [gated v caller a ''memory.store'' (arg (parse_scope (get_str a ''scope'')) (\<lambda>scope.
       arg (strval a ''id'') (\<lambda>i. arg (strval a ''content'') (\<lambda>content.
       giving MemoryValue (on_memory (memory_store (sv_store v) (sv_now v) i content scope (strings_arg a ''tags''))))))),
     (''memory.search'', arg (optionally (\<lambda>s. parse_scope (Some s)) (get_str a ''scope'')) (\<lambda>scope.
       giving MemoryList (asking (\<lambda>h. memory_search (hb_memory h) (opt_strval a ''query'') scope)))),
     (''memory.get'', giving MemoryOption (asking (\<lambda>h. memory_get (hb_memory h) (opt_strval a ''id'')))),
     gated v caller a ''memory.delete'' (giving (flag ''deleted'') (on_memory (memory_delete (sv_store v) (opt_strval a ''id'')))),
     gated v caller a ''memory.update'' (arg (strval a ''id'') (\<lambda>i. arg (strval a ''content'') (\<lambda>content.
       arg (optionally (\<lambda>s. parse_scope (as_str s)) (json_get a ''scope'')) (\<lambda>scope.
       giving MemoryValue (on_memory (memory_update_partial (sv_store v) (sv_now v) i (Some content) scope
         (map_option (\<lambda>_. strings_arg a ''tags'') (json_get a ''tags''))))))))]"

definition task_arms :: "'p services \<Rightarrow> session_identity option \<Rightarrow> json \<Rightarrow> 'p arm list" where
  "task_arms v caller a =
    [gated v caller a ''tasks.create'' (arg (strval a ''id'') (\<lambda>i. arg (strval a ''title'') (\<lambda>title.
       arg (strval a ''description'') (\<lambda>description. arg (parse_priority (get_str a ''priority'')) (\<lambda>priority.
       giving TaskValue (on_tasks (task_create (sv_store v) (sv_now v) i title description priority (strings_arg a ''tags'')))))))),
     (''tasks.list'', arg (optionally parse_status (get_str a ''status'')) (\<lambda>status.
       giving TaskList (asking (\<lambda>h. task_list (hb_tasks h) status)))),
     (''tasks.get'', arg (strval a ''id'') (\<lambda>i. giving TaskOption (asking (\<lambda>h. task_get (hb_tasks h) i)))),
     gated v caller a ''tasks.update'' (arg (optionally parse_status (get_str a ''status'')) (\<lambda>status.
       arg (optionally (\<lambda>s. parse_priority (Some s)) (get_str a ''priority'')) (\<lambda>priority.
       giving TaskOption (on_tasks (task_update (sv_store v) (sv_now v) (sv_runtime v) (sv_worktrees v) (opt_strval a ''id'')
         status priority (map_option as_str (json_get a ''assignee''))))))),
     gated v caller a ''tasks.delete'' (giving (flag ''deleted'') (on_tasks (task_delete (sv_store v) (opt_strval a ''id''))))]"

definition connector_store_arms :: "'p services \<Rightarrow> session_identity option \<Rightarrow> json \<Rightarrow> 'p arm list" where
  "connector_store_arms v caller a = (let i = opt_strval a ''id'' in
    [(''connectors.list'', giving ConnectorList (asking (\<lambda>h. connectors_list \<lparr>cw_file = hb_connectors h, cw_log = []\<rparr>))),
     (''connectors.get'', arg (strval a ''id'') (\<lambda>j.
       giving ConnectorOption (asking (\<lambda>h. connectors_get \<lparr>cw_file = hb_connectors h, cw_log = []\<rparr> j)))),
     gated v caller a ''connectors.add'' (arg (strval a ''id'') (\<lambda>j. arg (strval a ''name'') (\<lambda>name.
       arg (strval a ''provider'') (\<lambda>provider. arg (parse_auth (get_str a ''auth'')) (\<lambda>auth.
       giving ConnectorValue (on_connectors (connectors_add (sv_store v) \<lparr>cn_id = j, cn_name = name, cn_provider = provider,
         cn_auth = auth, cn_scopes = strings_arg a ''scopes'',
         cn_enabled = (case Option.bind (json_get a ''enabled'') as_bool of None \<Rightarrow> True | Some b \<Rightarrow> b)\<rparr>))))))),
     gated v caller a ''connectors.enable'' (giving ConnectorOption (on_connectors (connectors_set_enabled (sv_store v) i True))),
     gated v caller a ''connectors.disable'' (giving ConnectorOption (on_connectors (connectors_set_enabled (sv_store v) i False))),
     gated v caller a ''connectors.remove'' (giving (flag ''removed'') (on_connectors (connectors_remove (sv_store v) i)))])"

section \<open>Providers and accounts\<close>

definition composio :: "'p services \<Rightarrow> composio_call \<Rightarrow> ('p, json) hub_op" where
  "composio v c = call_out v (ComposioCall c) (sv_composio v c)"

definition composio_id :: "string \<Rightarrow> string" where "composio_id label = ''composio:'' @ label"

text \<open>\<open>register\<close> puts the account into the running session too, when there is an API key.\<close>

definition adopt_account :: "'p services \<Rightarrow> string \<Rightarrow> string \<Rightarrow> string option \<Rightarrow> ('p, unit) hub_op" where
  "adopt_account v label account toolkit =
     bindE (lift (map_sum Other id (sv_composio_provider v label account toolkit))) (\<lambda>provider. case provider of
       None \<Rightarrow> ret ()
     | Some p \<Rightarrow> modify (\<lambda>h. h\<lparr>hb_registry := register (composio_id label) p (hb_registry h)\<rparr>))"

text \<open>\<open>invoke\<close> refuses an empty tool name and an unknown provider before it calls anything.\<close>

definition provider_call :: "'p services \<Rightarrow> string \<Rightarrow> string \<Rightarrow> json \<Rightarrow> ('p, tool_call_result) hub_op" where
  "provider_call v provider tool arguments =
     bindE (gets hb_registry) (\<lambda>r. let answer = invoke (sv_invoker v) provider tool arguments r in
       if tool \<noteq> [] \<and> map_of (rg_providers r) provider \<noteq> None then call_out v (ProviderCall provider tool arguments) answer
       else lift (map_sum Other id answer))"

definition validated_call :: "'p services \<Rightarrow> string \<Rightarrow> string \<Rightarrow> string \<Rightarrow> json \<Rightarrow> ('p, call_value) hub_op" where
  "validated_call v name provider tool arguments =
     bindE (gets hb_registry) (\<lambda>r.
     bindE (on_edit (validate_dynamic_arguments (sv_lister v) r name arguments)) (\<lambda>_.
     giving DynamicValue (provider_call v provider tool arguments)))"

definition connector_arms :: "'p services \<Rightarrow> session_identity option \<Rightarrow> json \<Rightarrow> 'p arm list" where
  "connector_arms v caller a = (let provider = opt_strval a ''provider''; tool = opt_strval a ''tool'' in
    [(''connector.providers'', gets (\<lambda>h. JsonValue (JArr (map JStr (providers (hb_registry h)))))),
     (''connector.tools'', giving DescriptorList (asking (\<lambda>h. provider_tools (sv_lister v) provider (hb_registry h)))),
     gated v caller a ''connector.invoke'' (
       let args = (case json_get a ''arguments'' of None \<Rightarrow> JObj [] | Some x \<Rightarrow> x) in
       bindE (note_event (audit_allow ''connector_invoke'' provider tool)) (\<lambda>_.
       validated_call v (qualified_name provider tool) provider tool args)),
     gated v caller a ''connector.composio_link'' (arg (strval a ''auth_config_id'') (\<lambda>config. arg (strval a ''user_id'') (\<lambda>user.
       bindE (note_event (audit_allow ''composio_link'' config user)) (\<lambda>_.
       giving JsonValue (composio v (ComposioLink config user (get_str a ''alias'') (get_str a ''callback_url''))))))),
     (''connector.composio_accounts'', giving JsonValue (composio v (ComposioAccounts (get_str a ''user_id'') (get_str a ''toolkit'')))),
     gated v caller a ''connector.composio_register'' (arg (strval a ''label'') (\<lambda>label. arg (strval a ''connected_account_id'') (\<lambda>account.
       bindE (note_event (audit_allow ''composio_register'' label account)) (\<lambda>_.
       bindE (composio v (ComposioRegister label account (get_str a ''toolkit''))) (\<lambda>x.
       bindE (adopt_account v label account (get_str a ''toolkit'')) (\<lambda>_. ret (JsonValue x))))))),
     gated v caller a ''connector.composio_remove'' (arg (strval a ''label'') (\<lambda>label.
       bindE (composio v (ComposioRemove label)) (\<lambda>x.
       bindE (modify (\<lambda>h. h\<lparr>hb_registry := snd (unregister (composio_id label) (hb_registry h))\<rparr>)) (\<lambda>_.
       ret (JsonValue (JObj [(''removed'', x)]))))))])"

section \<open>The context engine\<close>

definition context_item_of :: "json \<Rightarrow> tool_error + context_item" where
  "context_item_of a =
     bindR (strval a ''id'') (\<lambda>i. bindR (strval a ''content'') (\<lambda>content.
     let item = new_item i (parse_context_source (get_str a ''source'')) content 0;
         item1 = (case Option.bind (json_get a ''relevance'') as_f64 of None \<Rightarrow> item | Some x \<Rightarrow> item\<lparr>ci_relevance := f32 (clamp01 x)\<rparr>);
         item2 = (case Option.bind (json_get a ''priority'') as_f64 of None \<Rightarrow> item1 | Some x \<Rightarrow> item1\<lparr>ci_priority := f32 (clamp01 x)\<rparr>) in
     bindR (optionally (\<lambda>s. parse_context_scope (Some s)) (get_str a ''scope'')) (\<lambda>scope.
     Inr (case scope of None \<Rightarrow> item2 | Some s \<Rightarrow> item2\<lparr>ci_scope := s\<rparr>))))"

definition memory_count :: "memory_files \<Rightarrow> nat option" where
  "memory_count m = (case memory_search m [] None of Inl _ \<Rightarrow> None | Inr es \<Rightarrow> Some (length es))"

definition context_arms :: "'p services \<Rightarrow> session_identity option \<Rightarrow> json \<Rightarrow> 'p arm list" where
  "context_arms v caller a = (let i = opt_strval a ''id'' in
    [(''context.status'', bindE (gets (\<lambda>h. memory_count (hb_memory h))) (\<lambda>n. giving ContextStatus (on_context (engine_status n)))),
     gated v caller a ''context.insert'' (arg (context_item_of a) (\<lambda>item. giving ContextItem (on_context (insert_item item)))),
     (''context.get'', giving ContextOption (on_context (gets (get_item i)))),
     gated v caller a ''context.remove'' (giving (flag ''removed'') (on_context (remove_item i))),
     (''context.search'', giving ContextHits (on_context (search_items (sv_lower v) (opt_strval a ''query'')
       (case get_u64 a ''limit'' of None \<Rightarrow> 10 | Some n \<Rightarrow> n)))),
     gated v caller a ''context.optimize'' (giving ContextSummary (on_context (optimize (sv_lower v) (sv_now v) (opt_strval a ''task'')))),
     (''context.assemble'', bindE (on_context (gets (\<lambda>e. usable_tokens (ec_budget (en_config e))))) (\<lambda>usable.
       arg (strval a ''task'') (\<lambda>task.
       giving ContextAssembled (on_context (get_context (sv_lower v) \<lparr>cq_task = task, cq_query = get_str a ''query'',
         cq_token_budget = (case get_u64 a ''token_budget'' of None \<Rightarrow> usable | Some n \<Rightarrow> n), cq_scope = ContextItem.ScopeProject\<rparr>))))),
     gated v caller a ''context.protect'' (giving (flag ''protected'') (on_context (protect i))),
     gated v caller a ''context.unprotect'' (giving (flag ''unprotected'') (on_context (unprotect i))),
     gated v caller a ''context.offload'' (giving (\<lambda>_. flag ''offloaded'' True) (on_context (offload (sv_now v) i
       (Txt (case get_str a ''reason'' of None \<Rightarrow> ''manual offload via MCP tool'' | Some r \<Rightarrow> r))))),
     gated v caller a ''context.restore'' (giving ContextItem (on_context (restore i)))])"

section \<open>GitHub\<close>

text \<open>The remote is asked only when the arguments name no repository.\<close>

definition resolve_github_target :: "'p services \<Rightarrow> json \<Rightarrow> ('p, repo_target) hub_op" where
  "resolve_github_target v a = (let owner = get_str a ''owner''; repo = get_str a ''repo'';
       resolve = (\<lambda>remote. lift (map_sum Other id (resolve_repo_target (sv_default_repo v) owner repo remote))) in
     if from_str_pair (or_empty owner) (or_empty repo) \<noteq> None \<or> \<not> sv_is_repository v then resolve None
     else bindE (call_out v (GitCall (OpRemoteUrl ''origin'')) (Inr (remote_url (sv_git v 0) ''origin''))) resolve)"

definition github_body :: "'p services \<Rightarrow> json \<Rightarrow> string \<Rightarrow> tool_error + github_op \<Rightarrow> ('p, call_value) hub_op" where
  "github_body v a name decoded =
     arg (ensure (sv_github v) (Other (Txt ''github tools are disabled: set GITHUB_TOKEN to enable them''))) (\<lambda>_.
     bindE (resolve_github_target v a) (\<lambda>t.
     bindE (note_event (audit_allow ''github_invoke'' name (rt_owner t @ ''/'' @ rt_repo t))) (\<lambda>_.
     arg decoded (\<lambda>op. giving JsonValue (call_out v (GithubCall t op) (github_call (sv_http v) (sv_parse v) (sv_api_url v) t op))))))"

definition numbered :: "json \<Rightarrow> (nat \<Rightarrow> tool_error + github_op) \<Rightarrow> tool_error + github_op" where
  "numbered a f = bindR (required_u64 a ''number'') f"

definition get_bool :: "json \<Rightarrow> string \<Rightarrow> bool option" where
  "get_bool a key = Option.bind (json_get a key) as_bool"

definition github_arms :: "'p services \<Rightarrow> session_identity option \<Rightarrow> json \<Rightarrow> 'p arm list" where
  "github_arms v caller a = (let str = get_str a; body = github_body v a; guard = (\<lambda>name decoded. gated v caller a name (github_body v a name decoded)) in
    [(''github.pr_list'', body ''github.pr_list'' (Inr (PrList (str ''state'') (str ''base'')))),
     (''github.pr_get'', body ''github.pr_get'' (numbered a (\<lambda>n. Inr (PrGet n)))),
     guard ''github.pr_create'' (bindR (strval a ''title'') (\<lambda>title. bindR (strval a ''head'') (\<lambda>head. bindR (strval a ''base'') (\<lambda>base.
       Inr (PrCreate title head base (str ''body'') (get_bool a ''draft'')))))),
     guard ''github.pr_merge'' (numbered a (\<lambda>n. Inr (PrMerge n (str ''merge_method'')))),
     guard ''github.pr_review'' (numbered a (\<lambda>n. bindR (strval a ''event'') (\<lambda>event. Inr (PrReview n event (str ''body''))))),
     (''github.issue_list'', body ''github.issue_list'' (Inr (IssueList (str ''state'') (str ''labels'')))),
     (''github.issue_get'', body ''github.issue_get'' (numbered a (\<lambda>n. Inr (IssueGet n)))),
     guard ''github.issue_create'' (bindR (strval a ''title'') (\<lambda>title.
       Inr (IssueCreate title (str ''body'') (map_option strings (Option.bind (json_get a ''labels'') as_array))))),
     guard ''github.issue_comment'' (numbered a (\<lambda>n. bindR (strval a ''body'') (\<lambda>comment. Inr (IssueComment n comment)))),
     (''github.checks_status'', body ''github.checks_status'' (bindR (strval a ''ref'') (\<lambda>r. Inr (ChecksStatus r)))),
     guard ''github.workflow_dispatch'' (bindR (strval a ''workflow_file'') (\<lambda>f. bindR (strval a ''ref'') (\<lambda>r. Inr (WorkflowDispatch f r)))),
     guard ''github.release_create'' (bindR (strval a ''tag_name'') (\<lambda>tag.
       Inr (ReleaseCreate tag (str ''name'') (str ''body'') (get_bool a ''draft'') (get_bool a ''prerelease''))))])"

section \<open>Git and the terminal\<close>

definition git_run :: "'p services \<Rightarrow> git_op \<Rightarrow> ('p, call_value) hub_op" where
  "git_run v op = giving GitValue (call_out v (GitCall op) (perform (sv_git v) op))"

definition nonempty_path :: "string \<Rightarrow> string \<Rightarrow> string \<Rightarrow> tool_error + unit" where
  "nonempty_path name verb path = ensure (path \<noteq> [])
     (Other (Fmt (''{} requires a non-empty '' @ quoted ''path'' @ '' (use '' @ [CHR 0x22] @ ''.'' @ [CHR 0x22] @ '' to {} all changes)'') [Txt name, Txt verb]))"

definition git_arms :: "'p services \<Rightarrow> session_identity option \<Rightarrow> json \<Rightarrow> 'p arm list" where
  "git_arms v caller a =
    [(''git.status'', git_run v OpStatus),
     gated v caller a ''git.branch'' (git_run v OpBranch),
     (''git.log'', git_run v (OpLog (max 1 (min 200 (case get_u64 a ''limit'' of None \<Rightarrow> 20 | Some n \<Rightarrow> n))))),
     (''git.diff'', git_run v (if get_bool a ''staged'' = Some True then OpDiffStaged (get_str a ''path'') else OpDiff (get_str a ''path''))),
     gated v caller a ''git.stage'' (arg (strval a ''path'') (\<lambda>path. arg (nonempty_path ''git.stage'' ''stage'' path) (\<lambda>_. git_run v (OpStage path)))),
     gated v caller a ''git.unstage'' (arg (strval a ''path'') (\<lambda>path. arg (nonempty_path ''git.unstage'' ''unstage'' path) (\<lambda>_. git_run v (OpUnstage path)))),
     gated v caller a ''git.commit'' (arg (strval a ''message'') (\<lambda>m. git_run v (OpCommit m))),
     gated v caller a ''terminal.run'' (arg (strval a ''program'') (\<lambda>program. let args = strings_arg a ''args'' in
       giving ExecValue (call_out v (TerminalCall program args)
         (terminal_run (sv_executable v) (sv_search_path v) (sv_exec v) 30 program args))))]"

section \<open>The match on the name\<close>

definition static_arms :: "'p services \<Rightarrow> session_identity option \<Rightarrow> json \<Rightarrow> 'p arm list" where
  "static_arms v caller a = status_arms v @ skill_arms v caller a @ workspace_arms v caller a @ fs_arms v caller a
     @ memory_arms v caller a @ task_arms v caller a @ connector_store_arms v caller a @ connector_arms v caller a
     @ context_arms v caller a @ github_arms v caller a @ git_arms v caller a"

text \<open>A qualified name is split at its first dot.\<close>

definition dynamic_target :: "string \<Rightarrow> string \<times> string" where
  "dynamic_target name = (case split_once (CHR ''.'') name of None \<Rightarrow> (name, []) | Some x \<Rightarrow> x)"

definition dynamic_arm :: "'p services \<Rightarrow> string \<Rightarrow> json \<Rightarrow> ('p, call_value) hub_op" where
  "dynamic_arm v name a = (case dynamic_target name of (provider, tool) \<Rightarrow> validated_call v name provider tool a)"

definition tool_arm :: "'p services \<Rightarrow> session_identity option \<Rightarrow> string \<Rightarrow> json \<Rightarrow> ('p, call_value) hub_op" where
  "tool_arm v caller name a = (case map_of (static_arms v caller a) name of
      Some body \<Rightarrow> body
    | None \<Rightarrow> if CHR ''.'' \<in> set name then dynamic_arm v name a else fail (unknown_tool name))"

end
