(* ===== verification/Protocol.thy ===== *)
theory Protocol
  imports ToolArms
begin

text \<open>
  The protocol layer of the dispatcher (\<open>mcp/dispatcher.rs\<close>): the state of a session, the envelope
  of a request, the gate of the lifecycle, the methods, and \<open>tools/call\<close> with its checks in front of
  the arms of ToolArms. The JSON parser and printer are parameters.
\<close>

section \<open>Errors\<close>

datatype dispatch_error = DispatchError int msg

definition parse_error_code :: int where "parse_error_code = - 32700"
definition invalid_request_code :: int where "invalid_request_code = - 32600"
definition method_not_found_code :: int where "method_not_found_code = - 32601"
definition server_not_initialized_code :: int where "server_not_initialized_code = - 32002"

definition invalid_request :: "msg \<Rightarrow> dispatch_error" where
  "invalid_request m = DispatchError invalid_request_code m"

definition parse_error :: "msg \<Rightarrow> dispatch_error" where
  "parse_error m = DispatchError parse_error_code m"

text \<open>A \<open>DispatchError\<close> keeps its code; every other error is internal.\<close>

fun to_dispatch_error :: "tool_error \<Rightarrow> dispatch_error" where
  "to_dispatch_error (Dispatch c m) = DispatchError c m"
| "to_dispatch_error (Other m) = DispatchError internal_error_code m"
| "to_dispatch_error (EditFailed e) = DispatchError internal_error_code (edit_error_msg e)"

section \<open>Sessions\<close>

datatype session_phase = SessionNew | SessionReady | SessionClosed | SessionFailed

record session_lifecycle =
  sl_phase :: session_phase
  sl_session_id :: "string option"
  sl_transport :: "string option"
  sl_version :: "string option"
  sl_client_info :: "json option"
  sl_caller :: "session_identity option"

definition new_lifecycle :: session_lifecycle where
  "new_lifecycle = \<lparr>sl_phase = SessionNew, sl_session_id = None, sl_transport = None, sl_version = None, sl_client_info = None,
     sl_caller = None\<rparr>"

definition is_initialized :: "session_lifecycle \<Rightarrow> bool" where
  "is_initialized l \<longleftrightarrow> sl_phase l = SessionReady"

text \<open>The compare-and-swap from new to ready.\<close>

definition mark_initialized :: "session_lifecycle \<Rightarrow> bool \<times> session_lifecycle" where
  "mark_initialized l = (if sl_phase l = SessionNew then (True, l\<lparr>sl_phase := SessionReady\<rparr>) else (False, l))"

definition mark_closed :: "session_lifecycle \<Rightarrow> session_lifecycle" where "mark_closed l = l\<lparr>sl_phase := SessionClosed\<rparr>"
definition mark_failed :: "session_lifecycle \<Rightarrow> session_lifecycle" where "mark_failed l = l\<lparr>sl_phase := SessionFailed\<rparr>"

definition set_caller :: "session_identity \<Rightarrow> session_lifecycle \<Rightarrow> session_lifecycle" where
  "set_caller c l = (case sl_caller l of None \<Rightarrow> l\<lparr>sl_caller := Some c\<rparr> | Some _ \<Rightarrow> l)"

section \<open>Requests and responses\<close>

record rpc_request =
  rq_id :: "json option"
  rq_method :: string
  rq_params :: json
  rq_jsonrpc_valid :: bool
  rq_method_valid :: bool

text \<open>A request from the value of a message; \<open>rq_id\<close> is absent for a notification.\<close>

definition rpc_request_of :: "json \<Rightarrow> rpc_request option" where
  "rpc_request_of v = (if \<not> is_object v then None
     else Some \<lparr>rq_id = json_get v ''id'',
       rq_method = (case get_str v ''method'' of Some m \<Rightarrow> m | None \<Rightarrow> []),
       rq_params = (case json_get v ''params'' of Some p \<Rightarrow> p | None \<Rightarrow> JObj []),
       rq_jsonrpc_valid = (get_str v ''jsonrpc'' = Some ''2.0''),
       rq_method_valid = (case get_str v ''method'' of Some m \<Rightarrow> m \<noteq> [] | None \<Rightarrow> False)\<rparr>)"

definition valid_id :: "json \<Rightarrow> bool" where
  "valid_id i \<longleftrightarrow> (case i of JStr _ \<Rightarrow> True | JNum _ \<Rightarrow> True | _ \<Rightarrow> False)"

definition validate_envelope :: "rpc_request \<Rightarrow> dispatch_error option" where
  "validate_envelope q =
     (if \<not> rq_jsonrpc_valid q then
        Some (invalid_request (Txt ([CHR 0x27] @ ''jsonrpc'' @ [CHR 0x27] @ '' must be the string \"2.0\"'')))
      else if \<not> rq_method_valid q then
        Some (invalid_request (Txt ([CHR 0x27] @ ''method'' @ [CHR 0x27] @ '' must be a non-empty string'')))
      else if (case rq_id q of None \<Rightarrow> False | Some i \<Rightarrow> \<not> valid_id i) then
        Some (invalid_request (Txt (''request '' @ [CHR 0x27] @ ''id'' @ [CHR 0x27] @ '' must be a string or number'')))
      else None)"

datatype rpc_body = RpcResult json | RpcError int msg

record rpc_response =
  rp_id :: "json option"
  rp_body :: rpc_body

datatype dispatch_result = Response rpc_response | NoResponse

definition respond :: "json option \<Rightarrow> rpc_body \<Rightarrow> dispatch_result" where
  "respond i b = Response \<lparr>rp_id = i, rp_body = b\<rparr>"

definition result_is_ok :: "dispatch_result \<Rightarrow> bool" where
  "result_is_ok r \<longleftrightarrow> (case r of Response p \<Rightarrow> (case rp_body p of RpcResult _ \<Rightarrow> True | RpcError _ _ \<Rightarrow> False) | NoResponse \<Rightarrow> False)"

section \<open>The server\<close>

record 'p server =
  sr_hub :: "'p hub"
  sr_session :: session_lifecycle
  sr_events :: "mcp_event list"

type_synonym ('p, 'a) server_op = "('p server, dispatch_error, 'a) io"

definition on_hub :: "('p, 'a) hub_op \<Rightarrow> ('p server, tool_error, 'a) io" where
  "on_hub f s = (case f (sr_hub s) of (r, h) \<Rightarrow> (r, s\<lparr>sr_hub := h\<rparr>))"

definition audit :: "(audit_event list \<Rightarrow> audit_event list) \<Rightarrow> ('p server, 'e, unit) io" where
  "audit f = modify (\<lambda>s. s\<lparr>sr_hub := (sr_hub s)\<lparr>hb_edit := (hb_edit (sr_hub s))\<lparr>ew_log := f (ew_log (hb_edit (sr_hub s)))\<rparr>\<rparr>\<rparr>)"

definition fire_event :: "mcp_event \<Rightarrow> ('p server, 'e, unit) io" where
  "fire_event e = modify (\<lambda>s. s\<lparr>sr_events := sr_events s @ [e]\<rparr>)"

section \<open>Calling a tool\<close>

definition call_tool_for :: "'p services \<Rightarrow> json \<Rightarrow> session_identity option \<Rightarrow> ('p, json) hub_op" where
  "call_tool_for v params caller =
     (let name = (case get_str params ''name'' of Some n \<Rightarrow> n | None \<Rightarrow> []);
          arguments = (case json_get params ''arguments'' of Some a \<Rightarrow> a | None \<Rightarrow> JObj []) in
      if name = [] then
        fail (invalid_params (Txt (''tools/call requires a non-empty '' @ quoted ''name'' @ '' parameter'')))
      else if \<not> is_object arguments then
        fail (invalid_params (Txt (''tools/call '' @ quoted ''arguments'' @ '' must be a JSON object when present'')))
      else bindE (on_edit (check_arguments (sv_github v) name arguments)) (\<lambda>_.
        bindE (on_edit (case caller of Some c \<Rightarrow> authorize_caller_capability (sv_rfc v) c name arguments | None \<Rightarrow> ret ())) (\<lambda>_.
        bindE (note_event (audit_allow_as ''tool_invoke'' name ''tools/call'' (caller_audit_correlation caller))) (\<lambda>_.
        bindE (tool_arm v caller name arguments) (\<lambda>x.
        ret (JObj [(''content'', JArr [JObj [(''text'', JStr (sv_print v x)), (''type'', JStr ''text'')]])]))))))"

section \<open>Listing the tools\<close>

fun set_key :: "string \<Rightarrow> json \<Rightarrow> json \<Rightarrow> json" where
  "set_key k v (JObj kvs) = JObj (obj_insert k v kvs)"
| "set_key k v j = j"

definition tool_api_version :: string where "tool_api_version = ''1.0.0''"
definition schema_format_version :: json where "schema_format_version = JNum (PosInt 1)"

fun risk_label :: "tool_risk \<Rightarrow> string" where
  "risk_label Low = ''low''"
| "risk_label Medium = ''medium''"
| "risk_label High = ''high''"

definition tool_metadata :: "string \<Rightarrow> string \<times> string" where
  "tool_metadata name = (case registry_lookup name of
      Some d \<Rightarrow> (td_category d, tool_api_version) | None \<Rightarrow> (''uncategorized'', tool_api_version))"

definition describe_static :: "json \<Rightarrow> json" where
  "describe_static tool = (case get_str tool ''name'' of
      None \<Rightarrow> tool
    | Some name \<Rightarrow> (case registry_lookup name of
        Some d \<Rightarrow> set_key ''requiredPermissions'' (JArr (map (JStr \<circ> permission_label) (td_permissions d)))
          (set_key ''risk'' (JStr (risk_label (td_risk d)))
          (set_key ''provider'' (JStr ''awh'')
          (set_key ''schemaVersion'' schema_format_version
          (set_key ''version'' (JStr tool_api_version)
          (set_key ''category'' (JStr (td_category d)) tool)))))
      | None \<Rightarrow> set_key ''version'' (JStr (snd (tool_metadata name))) (set_key ''category'' (JStr (fst (tool_metadata name))) tool)))"

definition describe_dynamic :: "tool_descriptor \<Rightarrow> json" where
  "describe_dynamic t = JObj [(''category'', JStr (dm_category (dynamic_tool_metadata (tl_name t)))),
     (''description'', JStr (tl_description t)), (''inputSchema'', tl_schema t), (''name'', JStr (tl_name t)),
     (''provider'', JStr (dm_provider (dynamic_tool_metadata (tl_name t)))), (''schemaVersion'', schema_format_version),
     (''version'', JStr tool_api_version)]"

definition tool_granted :: "rfc \<Rightarrow> int \<Rightarrow> capability_grant list \<Rightarrow> tool_definition \<Rightarrow> bool" where
  "tool_granted rfc now grants d \<longleftrightarrow>
     list_all (\<lambda>p. list_ex (\<lambda>g. cg_permission g = p \<and> \<not> grant_is_expired rfc now g) grants) (td_permissions d)"

definition listed_for ::
    "rfc \<Rightarrow> int \<Rightarrow> (grant_error + capability_grant list) \<Rightarrow> json \<Rightarrow> bool" where
  "listed_for rfc now found tool = (case get_str tool ''name'' of
      None \<Rightarrow> False
    | Some name \<Rightarrow> (case (registry_lookup name, found) of
        (None, _) \<Rightarrow> True
      | (Some d, Inr grants) \<Rightarrow> tool_granted rfc now grants d
      | (Some _, Inl _) \<Rightarrow> False))"

definition tools_list_aggregated_for :: "'p services \<Rightarrow> session_identity option \<Rightarrow> ('p, json) hub_op" where
  "tools_list_aggregated_for v caller =
     bindE (aggregated v) (\<lambda>dynamic. gets (\<lambda>h.
       let tools = map describe_static (static_tools (sv_github v)) @ map describe_dynamic dynamic;
           z = ew_authz (hb_edit h);
           kept = (case caller of None \<Rightarrow> tools
             | Some c \<Rightarrow> filter (listed_for (sv_rfc v) (az_now z) (list_for_agent (az_grants z) (si_agent_id c))) tools)
       in JObj [(''tools'', JArr kept)]))"

section \<open>Resources\<close>

definition max_uri_len :: nat where "max_uri_len = 256"

definition truncate_chars :: "string \<Rightarrow> nat \<Rightarrow> string" where
  "truncate_chars s most = (if length (chars s) \<le> most then s
     else concat (map snd (take (most - 1) (chars s))) @ [CHR 0xE2, CHR 0x80, CHR 0xA6])"

definition resource_entry :: "string \<Rightarrow> string \<Rightarrow> string \<Rightarrow> string \<Rightarrow> json" where
  "resource_entry uri name description mime = JObj [(''description'', JStr description), (''mimeType'', JStr mime),
     (''name'', JStr name), (''uri'', JStr uri)]"

definition resources_list :: "'p services \<Rightarrow> ('p, json) hub_op" where
  "resources_list v =
     bindE (asking (\<lambda>h. memory_load (hb_memory h))) (\<lambda>memories.
     bindE (asking (\<lambda>h. gateway_list (sv_skills v) (hb_refs h))) (\<lambda>skills.
     ret (JObj [(''resources'', JArr
       (resource_entry ''awh://context'' ''Project context'' ''Concatenated AGENTS.md / AGENT.md / README.md'' ''text/markdown''
        # map (\<lambda>m. resource_entry (''awh://memory/'' @ me_id m) (''Memory '' @ me_id m) (truncate_chars (me_content m) 60) ''text/plain'') memories
        @ map (\<lambda>s. resource_entry (''awh://skills/'' @ su_name s) (''Skill '' @ su_name s) (truncate_chars (su_description s) 60)
            ''text/markdown'') skills))])))"

definition validate_resource_id :: "string \<Rightarrow> tool_error + unit" where
  "validate_resource_id i =
     (if i = [] then Inl (invalid_params (Txt ''resource uri is missing its identifier segment''))
      else if CHR ''/'' \<in> set i \<or> CHR 0x5C \<in> set i \<or> contains i ''..'' \<or> CHR ''%'' \<in> set i then
        Inl (invalid_params (Txt ''resource uri identifier must be a single path segment without traversal or percent-encoding''))
      else if list_ex (\<lambda>c. byte c < 32 \<or> byte c = 127) i then
        Inl (invalid_params (Txt ''resource uri identifier must not contain control characters''))
      else Inr ())"

definition resource_content :: "'p services \<Rightarrow> string \<Rightarrow> string \<Rightarrow> ('p, string \<times> string) hub_op" where
  "resource_content v kind rest =
     (if kind = ''context'' then
        (if rest \<noteq> [] then fail (invalid_params (Txt ''awh://context takes no path segments''))
         else bindE (on_files workspace_context) (\<lambda>c. ret (c, ''text/markdown'')))
      else if kind = ''memory'' then
        bindE (lift (validate_resource_id rest)) (\<lambda>_.
        bindE (asking (\<lambda>h. memory_get (hb_memory h) rest)) (\<lambda>found. case found of
            None \<Rightarrow> fail (invalid_params (Fmt ''memory entry not found: {}'' [Txt rest]))
          | Some m \<Rightarrow> ret (me_content m, ''text/plain'')))
      else if kind = ''skills'' then
        bindE (lift (validate_resource_id rest)) (\<lambda>_.
        bindE (asking (\<lambda>h. gateway_read (sv_skills v) (hb_refs h) rest)) (\<lambda>s. ret (sk_description s, ''text/markdown'')))
      else fail (invalid_params (Fmt ''unsupported resource kind: {}'' [Txt kind])))"

definition resources_read :: "'p services \<Rightarrow> json \<Rightarrow> ('p, json) hub_op" where
  "resources_read v params = (case get_str params ''uri'' of
      None \<Rightarrow> fail (invalid_params (Txt (''resources/read requires a string '' @ quoted ''uri'' @ '' parameter'')))
    | Some uri \<Rightarrow>
        if uri = [] then fail (invalid_params (Txt ''resource uri must not be empty''))
        else if max_uri_len < length uri then
          fail (invalid_params (Fmt ''resource uri exceeds {} bytes'' [Num max_uri_len]))
        else (case strip_prefix ''awh://'' uri of
            None \<Rightarrow> fail (invalid_params (Fmt ''unsupported resource uri scheme: {}'' [Txt uri]))
          | Some path \<Rightarrow>
              let (kind, rest) = (case split_once (CHR ''/'') path of Some kr \<Rightarrow> kr | None \<Rightarrow> (path, [])) in
              if kind = [] then fail (invalid_params (Fmt ''resource uri is missing its kind: {}'' [Txt uri]))
              else bindE (resource_content v kind rest) (\<lambda>(content, mime).
                ret (JObj [(''contents'', JArr [JObj [(''mimeType'', JStr mime), (''text'', JStr content), (''uri'', JStr uri)]])]))))"

section \<open>Methods\<close>

definition mcp_protocol_version :: string where "mcp_protocol_version = hd supported_protocol_versions"

definition negotiate :: "json \<Rightarrow> string" where
  "negotiate params = (case get_str params ''protocolVersion'' of
      Some ver \<Rightarrow> if ver \<in> set supported_protocol_versions then ver else mcp_protocol_version
    | None \<Rightarrow> mcp_protocol_version)"

definition initialize_response :: "'p services \<Rightarrow> json \<Rightarrow> dispatch_error + json" where
  "initialize_response v params =
     (if params \<noteq> JNull \<and> \<not> is_object params then
        Inl (DispatchError invalid_params_code (Txt ''initialize params must be a JSON object''))
      else if (case json_get params ''protocolVersion'' of None \<Rightarrow> False | Some x \<Rightarrow> \<not> is_string x) then
        Inl (DispatchError invalid_params_code (Txt ''initialize protocolVersion must be a string''))
      else Inr (JObj [(''capabilities'', JObj [(''prompts'', JObj []), (''resources'', JObj []), (''tools'', JObj [])]),
        (''protocolVersion'', JStr (negotiate params)),
        (''serverInfo'', JObj [(''name'', JStr ''agent-workspace-hub''), (''version'', JStr (sv_version v))])]))"

definition count_call :: "'p services \<Rightarrow> string \<Rightarrow> bool \<Rightarrow> ('p server, 'e, unit) io" where
  "count_call v name ok = modify (\<lambda>s. let h = sr_hub s in
     s\<lparr>sr_hub := h\<lparr>hb_metrics := record_call max_tracked_tools name ok (sv_duration v) (hb_metrics h)\<rparr>\<rparr>)"

definition call_method :: "'p services \<Rightarrow> json \<Rightarrow> session_identity option \<Rightarrow> ('p, json) server_op" where
  "call_method v params caller =
     bindE (attempt (on_hub (call_tool_for v params caller))) (\<lambda>outcome.
     let ok = (case outcome of Inr _ \<Rightarrow> True | Inl _ \<Rightarrow> False) in
     bindE (case get_str params ''name'' of
         None \<Rightarrow> ret ()
       | Some name \<Rightarrow>
           bindE (count_call v name ok) (\<lambda>_.
           bindE (fire_event (ToolCallCompleted name ok (sv_duration v))) (\<lambda>_.
           if ok then ret () else audit (audit_deny ''tool_failure'' ''dispatch_failed'' name)))) (\<lambda>_.
     map_err to_dispatch_error (lift outcome)))"

definition read_method :: "'p services \<Rightarrow> json \<Rightarrow> ('p, json) server_op" where
  "read_method v params =
     bindE (map_err to_dispatch_error (on_hub (resources_read v params))) (\<lambda>x.
     bindE (case get_str params ''uri'' of
         None \<Rightarrow> ret ()
       | Some uri \<Rightarrow> bindE (audit (audit_allow ''mcp_resource_read'' uri ''resources/read'')) (\<lambda>_. fire_event (ResourceRead uri)))
       (\<lambda>_. ret x))"

definition prompt_method :: "json \<Rightarrow> ('p, json) server_op" where
  "prompt_method params = (let name = (case get_str params ''name'' of Some n \<Rightarrow> n | None \<Rightarrow> []) in
     bindE (audit (audit_deny ''mcp_prompt_requested'' ''unknown_prompt'' name)) (\<lambda>_.
     bindE (fire_event (PromptRequested name)) (\<lambda>_.
     fail (DispatchError invalid_params_code (Fmt ''unknown prompt: {} (this server ships no prompt templates)'' [Txt name])))))"

text \<open>The method of a request, or nothing when there is none of that name.\<close>

definition run_method ::
    "'p services \<Rightarrow> string \<Rightarrow> json \<Rightarrow> session_identity option \<Rightarrow> ('p, json) server_op option" where
  "run_method v m params caller =
     (if m = ''initialize'' then Some (lift (initialize_response v params))
      else if m = ''ping'' then Some (ret (JObj []))
      else if m = ''tools/list'' then Some (map_err to_dispatch_error (on_hub (tools_list_aggregated_for v caller)))
      else if m = ''tools/call'' then Some (call_method v params caller)
      else if m = ''resources/list'' then Some (map_err to_dispatch_error (on_hub (resources_list v)))
      else if m = ''resources/read'' then Some (read_method v params)
      else if m = ''prompts/list'' then Some (ret (JObj [(''prompts'', JArr [])]))
      else if m = ''prompts/get'' then Some (prompt_method params)
      else None)"

definition reject_envelope :: "rpc_request \<Rightarrow> dispatch_error \<Rightarrow> ('p, 'a) server_op" where
  "reject_envelope q e = bindE (audit (audit_deny ''request_rejected'' ''invalid_envelope'' (rq_method q))) (\<lambda>_. fail e)"

definition dispatch_inner :: "'p services \<Rightarrow> rpc_request \<Rightarrow> session_identity option \<Rightarrow> ('p, dispatch_result) server_op" where
  "dispatch_inner v q caller =
     (if rq_id q = None then ret NoResponse
      else case validate_envelope q of
        Some e \<Rightarrow> reject_envelope q e
      | None \<Rightarrow> (case run_method v (rq_method q) (rq_params q) caller of
          None \<Rightarrow> ret (respond (rq_id q) (RpcError method_not_found_code (Txt ''method not found'')))
        | Some f \<Rightarrow> bindE f (\<lambda>x. ret (respond (rq_id q) (RpcResult x)))))"

section \<open>The lifecycle\<close>

text \<open>
  What the gate says about a request that has an id: it is answered at once, refused, or admitted.
\<close>

datatype admission = Answer msg int | Admit

definition gate :: "session_phase \<Rightarrow> string \<Rightarrow> admission \<times> (audit_event list \<Rightarrow> audit_event list)" where
  "gate phase m = (case phase of
      SessionReady \<Rightarrow>
        if m = ''initialize'' then
          (Answer (Txt ''session already initialized'') invalid_request_code,
           audit_deny ''session_initialize'' ''duplicate_initialize'' ''initialize'')
        else (Admit, id)
    | SessionNew \<Rightarrow>
        if m \<noteq> ''initialize'' \<and> m \<noteq> ''ping'' then
          (Answer (Txt ''session not initialized: send an initialize request first'') server_not_initialized_code,
           audit_deny ''session_preinit_rejected'' ''server_not_initialized'' m)
        else (Admit, id)
    | _ \<Rightarrow> (Answer (Txt ''session is closed'') invalid_request_code, audit_deny ''session_closed_rejected'' ''session_closed'' m))"

text \<open>
  The three parts of a dispatch: what happens before the method runs (which may already be the
  answer), the method, and what a successful \<open>initialize\<close> does to the session afterwards.
\<close>

definition null_id_error :: rpc_body where
  "null_id_error = RpcError invalid_request_code
     (Txt (''request '' @ [CHR 0x27] @ ''id'' @ [CHR 0x27] @ '' must not be null (notifications omit '' @ [CHR 0x27] @ ''id'' @ [CHR 0x27] @ '' entirely)''))"

definition admit :: "rpc_request \<Rightarrow> ('p, dispatch_result option) server_op" where
  "admit q =
     (if rq_id q = None then
        bindE (fire_event (NotificationReceived (rq_method q))) (\<lambda>_. ret (Some NoResponse))
      else if rq_id q = Some JNull then
        bindE (audit (audit_deny ''request_rejected'' ''null_request_id'' (rq_method q))) (\<lambda>_.
        ret (Some (respond (Some JNull) null_id_error)))
      else case validate_envelope q of
        Some e \<Rightarrow> reject_envelope q e
      | None \<Rightarrow> bindE (gets (\<lambda>s. sl_phase (sr_session s))) (\<lambda>phase. case gate phase (rq_method q) of
          (Admit, _) \<Rightarrow> ret None
        | (Answer m c, f) \<Rightarrow> bindE (audit f) (\<lambda>_. ret (Some (respond (rq_id q) (RpcError c m))))))"

definition settle_initialize :: "rpc_request \<Rightarrow> dispatch_result \<Rightarrow> ('p, dispatch_result) server_op" where
  "settle_initialize q result =
     (if rq_method q = ''initialize'' \<and> result_is_ok result then
        bindE (gets (\<lambda>s. mark_initialized (sr_session s))) (\<lambda>(won, l).
        if \<not> won then
          bindE (audit (audit_deny ''session_initialize'' ''duplicate_initialize'' ''initialize'')) (\<lambda>_.
          ret (respond (rq_id q) (RpcError invalid_request_code (Txt ''session already initialized''))))
        else let ver = negotiate (rq_params q);
                 info = (case json_get (rq_params q) ''clientInfo'' of Some i \<Rightarrow> i | None \<Rightarrow> JObj []) in
          bindE (modify (\<lambda>s. s\<lparr>sr_session := l\<lparr>sl_version := Some ver, sl_client_info := Some info\<rparr>\<rparr>)) (\<lambda>_.
          bindE (audit (audit_allow ''session_initialize'' ''initialize'' ''lifecycle'')) (\<lambda>_.
          bindE (fire_event (InitializeCompleted ver (client_name_version (Some info)))) (\<lambda>_.
          ret result))))
      else ret result)"

definition dispatch_request :: "'p services \<Rightarrow> rpc_request \<Rightarrow> ('p, dispatch_result) server_op" where
  "dispatch_request v q =
     bindE (admit q) (\<lambda>early. case early of
         Some r \<Rightarrow> ret r
       | None \<Rightarrow> bindE (gets (\<lambda>s. sl_caller (sr_session s))) (\<lambda>caller.
           bindE (dispatch_inner v q caller) (\<lambda>r. settle_initialize q r)))"

text \<open>A message is parsed first; \<open>parse\<close> is the JSON library.\<close>

definition parse_message :: "(string \<Rightarrow> json option) \<Rightarrow> string \<Rightarrow> dispatch_error + rpc_request" where
  "parse_message parse input = (case Option.bind (parse input) rpc_request_of of
      None \<Rightarrow> Inl (parse_error (Txt ''invalid JSON''))
    | Some q \<Rightarrow> Inr q)"

definition dispatch_strict_with_lifecycle ::
    "'p services \<Rightarrow> (string \<Rightarrow> json option) \<Rightarrow> string \<Rightarrow> ('p, dispatch_result) server_op" where
  "dispatch_strict_with_lifecycle v parse input = bindE (lift (parse_message parse input)) (dispatch_request v)"

definition error_response :: "(string \<Rightarrow> json option) \<Rightarrow> string \<Rightarrow> dispatch_error \<Rightarrow> dispatch_result" where
  "error_response parse input e = (case e of DispatchError c m \<Rightarrow>
     respond (Option.bind (parse input) (\<lambda>j. json_get j ''id'')) (RpcError c m))"

definition dispatch_with_lifecycle ::
    "'p services \<Rightarrow> (string \<Rightarrow> json option) \<Rightarrow> string \<Rightarrow> 'p server \<Rightarrow> dispatch_result \<times> 'p server" where
  "dispatch_with_lifecycle v parse input s = (case dispatch_strict_with_lifecycle v parse input s of
      (Inl e, s') \<Rightarrow> (error_response parse input e, s')
    | (Inr r, s') \<Rightarrow> (r, s'))"

text \<open>A dispatch outside any session.\<close>

definition dispatch_strict :: "'p services \<Rightarrow> (string \<Rightarrow> json option) \<Rightarrow> string \<Rightarrow> ('p, dispatch_result) server_op" where
  "dispatch_strict v parse input = bindE (lift (parse_message parse input)) (\<lambda>q. dispatch_inner v q None)"

definition dispatch :: "'p services \<Rightarrow> (string \<Rightarrow> json option) \<Rightarrow> string \<Rightarrow> 'p server \<Rightarrow> dispatch_result \<times> 'p server" where
  "dispatch v parse input s = (case dispatch_strict v parse input s of
      (Inl e, s') \<Rightarrow> (error_response parse input e, s')
    | (Inr r, s') \<Rightarrow> (r, s'))"

end
