(* ===== verification/Frames.thy ===== *)
theory Frames
  imports Prelude
begin

text \<open>
  What an operation leaves alone, as a relation between the state before and after it, with one rule for
  each way of composing operations: a proof that an operation leaves something alone is the list of its
  parts.
\<close>

definition leaves :: "('w \<Rightarrow> 'w \<Rightarrow> bool) \<Rightarrow> ('w, 'e, 'a) io \<Rightarrow> bool" where
  "leaves R f \<longleftrightarrow> (\<forall>w. R w (snd (f w)))"

named_theorems leave_rules

lemma leaves_at: "leaves R f \<Longrightarrow> f w = (r, w') \<Longrightarrow> R w w'"
  by (metis leaves_def snd_conv)

lemma leaves_bind:
  assumes "transp R" "leaves R m" "\<And>x. leaves R (f x)"
  shows "leaves R (bindE m f)"
  unfolding leaves_def
proof
  fix w
  obtain r w1 where m: "m w = (r, w1)" by fastforce
  have "R w w1" using leaves_at [OF assms(2) m] .
  moreover have "R w1 (snd (f x w1))" for x using assms(3) by (simp add: leaves_def)
  ultimately show "R w (snd (bindE m f w))" using transpD [OF assms(1)] by (cases r) (auto simp: bindE_run m)
qed

lemma leaves_pure:
  assumes "reflp R"
  shows "leaves R (ret x)" and "leaves R (fail e)" and "leaves R (lift r)" and "leaves R (gets g)"
  using reflpD [OF assms] by (simp_all add: leaves_def)

lemma leaves_wrap [leave_rules]: "leaves R f \<Longrightarrow> leaves R (map_err g f)" "leaves R f \<Longrightarrow> leaves R (attempt f)"
  unfolding leaves_def map_err_run attempt_run by (auto split: prod.split sum.split dest: leaves_at) (metis snd_conv)+

lemma leaves_modify: "(\<And>w. R w (g w)) \<Longrightarrow> leaves R (modify g)"
  by (simp add: leaves_def)

lemma leaves_case [leave_rules]:
  "(\<And>x. leaves R (f x)) \<Longrightarrow> (\<And>y. leaves R (g y)) \<Longrightarrow> leaves R (case s of Inl x \<Rightarrow> f x | Inr y \<Rightarrow> g y)"
  "leaves R n \<Longrightarrow> (\<And>x. leaves R (f x)) \<Longrightarrow> leaves R (case m of None \<Rightarrow> n | Some x \<Rightarrow> f x)"
  "leaves R a \<Longrightarrow> leaves R b \<Longrightarrow> leaves R (if c then a else b)"
  by (simp_all split: sum.split option.split)

lemma leaves_lift:
  assumes "reflp R" "\<And>x. r = Inr x \<Longrightarrow> leaves R (f x)"
  shows "leaves R (bindE (lift r) f)"
  using reflpD [OF assms(1)] assms(2) by (cases r) (simp_all add: leaves_def bindE_run)

end
