(* ===== verification/HubSafety.thy ===== *)
theory HubSafety
  imports ToolArms FsToolsSafety ProvidersSafety Frames
begin

text \<open>
  What holds of the arms of a tool call: every tool of the registry has one arm, and its risk level says
  what the arm does. A tool of low risk changes nothing; every other asks for authorization first; a
  tool that is not registered is a provider's and is called without a gate.
\<close>

section \<open>What a reading operation leaves alone\<close>

text \<open>The files as the environment leaves them, and the rest but for the audit log as it was.\<close>

definition still_edit :: "edit_world \<Rightarrow> edit_world \<Rightarrow> bool" where
  "still_edit w w' \<longleftrightarrow> env_steps w w' \<and> ew_locks w' = ew_locks w \<and> ew_snap w' = ew_snap w \<and> ew_authz w' = ew_authz w"

text \<open>The engine reads its disk, so it takes events from the script of the disk.\<close>

definition still_engine :: "engine \<Rightarrow> engine \<Rightarrow> bool" where
  "still_engine e e' \<longleftrightarrow> e'\<lparr>en_disk := []\<rparr> = e\<lparr>en_disk := []\<rparr>"

definition still_context :: "engine option \<Rightarrow> engine option \<Rightarrow> bool" where
  "still_context c c' \<longleftrightarrow> (case c of None \<Rightarrow> c' = None | Some e \<Rightarrow> (case c' of None \<Rightarrow> False | Some e' \<Rightarrow> still_engine e e'))"

text \<open>Between the calls that go out nothing changes; each has the effect the service gives it.\<close>

fun served :: "'p services \<Rightarrow> external_call list \<Rightarrow> edit_world \<Rightarrow> edit_world \<Rightarrow> bool" where
  "served v [] w w' \<longleftrightarrow> still_edit w w'"
| "served v (c # cs) w w' \<longleftrightarrow> (\<exists>w1. still_edit w w1 \<and> served v cs (sv_effect v c w1) w')"

text \<open>
  Nothing but the audit log, the cached listings of the providers and the trace of reading calls; what the
  environment does to the files meanwhile is its own, and what git does on the way of a reading call too.
\<close>

definition harmless :: "'p services \<Rightarrow> 'p hub \<Rightarrow> 'p hub \<Rightarrow> bool" where
  "harmless v h h' \<longleftrightarrow> still_context (hb_context h) (hb_context h')
     \<and> hb_memory h' = hb_memory h \<and> hb_tasks h' = hb_tasks h \<and> hb_connectors h' = hb_connectors h \<and> hb_refs h' = hb_refs h
     \<and> rg_providers (hb_registry h') = rg_providers (hb_registry h) \<and> hb_metrics h' = hb_metrics h
     \<and> (\<exists>cs. hb_sent h' = hb_sent h @ cs \<and> list_all reading cs \<and> served v cs (hb_edit h) (hb_edit h'))"

definition only_audit :: "'p hub \<Rightarrow> 'p hub \<Rightarrow> bool" where
  "only_audit h h' \<longleftrightarrow> (\<exists>lg. h' = h\<lparr>hb_edit := (hb_edit h)\<lparr>ew_log := lg\<rparr>\<rparr>)"

lemma still_edit_order: "reflp still_edit" "transp still_edit"
  by (auto simp: still_edit_def intro!: reflpI transpI intro: env_steps_trans)

lemma still_engine_order: "reflp still_engine" "transp still_engine"
  by (auto simp: still_engine_def intro!: reflpI transpI)

lemma still_context_order: "still_context c c" "still_context a b \<Longrightarrow> still_context b d \<Longrightarrow> still_context a d"
  by (auto simp: still_context_def still_engine_def split: option.splits)

lemma served_first: "still_edit w w1 \<Longrightarrow> served v cs w1 w2 \<Longrightarrow> served v cs w w2"
  using transpD [OF still_edit_order(2)] by (cases cs) fastforce+

lemma served_append: "served v cs w w1 \<Longrightarrow> served v ds w1 w2 \<Longrightarrow> served v (cs @ ds) w w2"
  by (induction v cs w w1 rule: served.induct) (auto intro: served_first)

lemma harmless_order: "reflp (harmless v)" "transp (harmless v)"
proof -
  show "reflp (harmless v)"
    using reflpD [OF still_edit_order(1)] by (auto simp: harmless_def still_context_order intro!: reflpI exI [of _ "[]"])
  show "transp (harmless v)"
  proof (rule transpI)
    fix a b c assume ab: "harmless v a b" and bc: "harmless v b c"
    from ab obtain cs where cs: "hb_sent b = hb_sent a @ cs" "list_all reading cs" "served v cs (hb_edit a) (hb_edit b)"
      by (auto simp: harmless_def)
    from bc obtain ds where ds: "hb_sent c = hb_sent b @ ds" "list_all reading ds" "served v ds (hb_edit b) (hb_edit c)"
      by (auto simp: harmless_def)
    have "hb_sent c = hb_sent a @ cs @ ds \<and> list_all reading (cs @ ds) \<and> served v (cs @ ds) (hb_edit a) (hb_edit c)"
      using cs ds served_append by auto
    moreover have "still_context (hb_context a) (hb_context c)"
      using ab bc still_context_order(2) by (auto simp: harmless_def)
    ultimately show "harmless v a c" using ab bc unfolding harmless_def by auto
  qed
qed

lemma only_audit_refl [simp]: "only_audit h h"
  unfolding only_audit_def by (intro exI [of _ "ew_log (hb_edit h)"]) simp

lemma only_audit_trans: "only_audit a b \<Longrightarrow> only_audit b c \<Longrightarrow> only_audit a c"
  by (auto simp: only_audit_def)

lemmas leaves_edit_bind [leave_rules] = leaves_bind [OF still_edit_order(2)]
lemmas leaves_edit_pure [leave_rules] = leaves_pure [OF still_edit_order(1)]
lemmas leaves_engine_bind [leave_rules] = leaves_bind [OF still_engine_order(2)]
lemmas leaves_engine_pure [leave_rules] = leaves_pure [OF still_engine_order(1)]
lemmas leaves_hub_bind [leave_rules] = leaves_bind [OF harmless_order(2)]
lemmas leaves_hub_pure [leave_rules] = leaves_pure [OF harmless_order(1)]

section \<open>Running a part\<close>

lemma leaves_on_edit [leave_rules]: "leaves still_edit f \<Longrightarrow> leaves (harmless v) (on_edit f)"
  unfolding leaves_def
proof
  fix h :: "'b hub"
  assume f: "\<forall>w. still_edit w (snd (f w))"
  obtain r w where w: "f (hb_edit h) = (r, w)" by fastforce
  with f have "still_edit (hb_edit h) w" by (metis snd_conv)
  with w show "harmless v h (snd (on_edit f h))" by (simp add: on_edit_def harmless_def still_context_order)
qed

lemma leaves_on_files [leave_rules]: "leaves still_edit f \<Longrightarrow> leaves (harmless v) (on_files f)"
  unfolding on_files_def by (intro leaves_on_edit leaves_wrap)

lemma leaves_on_context [leave_rules]: "leaves still_engine f \<Longrightarrow> leaves (harmless v) (on_context f)"
  unfolding leaves_def
proof
  fix h :: "'b hub"
  assume f: "\<forall>w. still_engine w (snd (f w))"
  have e: "still_edit (hb_edit h) (hb_edit h)" using reflpD [OF still_edit_order(1)] .
  show "harmless v h (snd (on_context f h))"
  proof (cases "hb_context h")
    case None
    then show ?thesis using e by (simp add: on_context_def harmless_def still_context_order)
  next
    case (Some x)
    obtain r y where y: "f x = (r, y)" by fastforce
    with f have "still_engine x y" by (metis snd_conv)
    then show ?thesis using e by (simp add: on_context_def harmless_def Some y still_context_def)
  qed
qed

lemma leaves_asking [leave_rules]: "leaves (harmless v) (asking f)"
  unfolding asking_def by (intro leave_rules)

lemma leaves_log: "leaves still_edit (log_event f)"
  by (auto simp: leaves_def log_event_def still_edit_def env_steps_def intro: exI [of _ "[]"])

lemma leaves_note [leave_rules]: "leaves (harmless v) (note_event f)"
  unfolding note_event_def by (intro leaves_on_edit leaves_log)

lemma leaves_giving [leave_rules]: "leaves (harmless v) m \<Longrightarrow> leaves (harmless v) (giving wrap m)"
  unfolding giving_def by (intro leave_rules)

lemma leaves_arg [leave_rules]: "(\<And>x. r = Inr x \<Longrightarrow> leaves (harmless v) (f x)) \<Longrightarrow> leaves (harmless v) (arg r f)"
  unfolding arg_def by (intro leaves_lift harmless_order)

lemma leaves_call [leave_rules]: "reading c \<Longrightarrow> leaves (harmless v) (call_out v c answer)"
  using reflpD [OF still_edit_order(1)]
  by (fastforce simp: leaves_def call_out_def bindE_run harmless_def still_context_order)

section \<open>The reading operations\<close>

lemma event_parts:
  "next_event w = (f, w') \<Longrightarrow> ew_locks w' = ew_locks w \<and> ew_snap w' = ew_snap w \<and> ew_authz w' = ew_authz w"
  unfolding next_event_def by (cases "fw_env w") (auto split: fs_event.splits)

lemma still_event: "next_event w = (f, w') \<Longrightarrow> still_edit w w'"
  using env_steps_event event_parts unfolding still_edit_def by blast

lemma leaves_event:
  "leaves still_edit (\<lambda>w0. let (fault, w) = next_event w0 in (g fault w, w))"
  by (auto simp: leaves_def Let_def split: prod.splits intro: still_event)

lemma leaves_read_text: "leaves still_edit (read_text path)"
  using leaves_event by (simp add: read_text_def [abs_def] Let_def)

lemma leaves_list: "leaves still_edit (list_dir rd path)"
  using leaves_event by (simp add: list_dir_def [abs_def] Let_def)

lemma leaves_context_of: "leaves still_edit (context_of names acc)"
proof (induction names acc rule: context_of.induct)
  case (2 name names acc)
  have "leaves still_edit (context_part name)"
    using leaves_event by (simp add: context_part_def [abs_def] Let_def)
  with 2 show ?case by (simp add: leaves_edit_bind)
qed (simp only: context_of.simps leaves_edit_pure)

lemma leaves_files [leave_rules]:
  "leaves still_edit workspace_context" "leaves still_edit (workspace_list_files rd path)"
  "leaves still_edit (workspace_read_file path)"
  unfolding workspace_context_def workspace_list_files_def workspace_read_file_def
  by (intro leave_rules leaves_context_of leaves_list leaves_read_text)+

lemma leaves_disk: "leaves still_engine disk_event"
  by (auto simp: leaves_def disk_event_def still_engine_def split: list.split)

lemma leaves_access [leave_rules]: "leaves still_engine (access m)" "leaves still_engine (bail m)" "leaves still_engine (require b m)"
  unfolding access_def bail_def require_def by (intro leave_rules leaves_disk)+

lemma leaves_offloads [leave_rules]: "leaves still_engine list_offloads"
  unfolding list_offloads_def by (intro leave_rules)

lemma leaves_offload_get [leave_rules]: "leaves still_engine (offload_get i)"
  unfolding offload_get_def by (intro leave_rules leaves_engine_bind) (auto split: stored.split intro!: leave_rules)

lemma leaves_hit [leave_rules]: "leaves still_engine (search_hit_of lower needle loc i)"
  unfolding search_hit_of_def by (intro leave_rules)

lemma leaves_item_hits [leave_rules]: "leaves still_engine (item_hits lower needle items)"
  by (induction items) (intro leave_rules | simp only: item_hits.simps)+

lemma leaves_offload_hits [leave_rules]: "leaves still_engine (offload_hits lower needle seen js)"
  by (induction js) (intro leave_rules | simp only: offload_hits.simps)+

lemma leaves_engine_reads [leave_rules]:
  "leaves still_engine (search_items lower query limit)" "leaves still_engine (engine_status n)"
  "leaves still_engine (get_context lower q)"
  unfolding search_items_def engine_status_def get_context_def enabled_or_bail_def Let_def by (intro leave_rules)+

lemma take_results_providers: "rg_providers (ag_registry (snd (take_results rs out g))) = rg_providers (ag_registry g)"
proof (induction rs arbitrary: out g)
  case (Cons r rs)
  obtain i a where r: "r = (i, a)" by fastforce
  show ?case using Cons by (cases a) (simp_all add: r split: prod.split)
qed simp

lemma aggregate_providers:
  assumes "aggregate_tools ans g = (out, g')"
  shows "rg_providers (ag_registry g') = rg_providers (ag_registry g)"
proof -
  let ?r = "ag_registry g"
  obtain rs lg where rs: "serve_cut (rg_last_good ?r) (filter (\<lambda>i. i \<notin> fst ` set (collected ans ?r)) (providers ?r))
      (collected ans ?r) (ag_log g) = (rs, lg)" by fastforce
  obtain o1 g1 where t: "take_results (sort_key fst rs) [] \<lparr>ag_registry = next_rotation ?r, ag_log = lg\<rparr> = (o1, g1)" by fastforce
  have "g' = g1" using assms by (simp add: aggregate_tools_def Let_def rs t)
  with take_results_providers [of "sort_key fst rs" "[]" "\<lparr>ag_registry = next_rotation ?r, ag_log = lg\<rparr>"] t
  show ?thesis by (simp add: next_rotation_def)
qed

lemma leaves_aggregated [leave_rules]: "leaves (harmless v) (aggregated v)"
  unfolding leaves_def
proof
  fix h :: "'a hub"
  obtain ts g where g: "aggregate_tools (sv_answers v) \<lparr>ag_registry = hb_registry h, ag_log = ew_log (hb_edit h)\<rparr> = (ts, g)"
    by fastforce
  then have "rg_providers (ag_registry g) = rg_providers (hb_registry h)" using aggregate_providers by fastforce
  moreover have "still_edit (hb_edit h) ((hb_edit h)\<lparr>ew_log := ag_log g\<rparr>)"
    using leaves_log [of "\<lambda>_. ag_log g"] by (simp add: leaves_def log_event_def)
  ultimately show "harmless v h (snd (aggregated v h))" by (simp add: aggregated_def g harmless_def still_context_order)
qed

section \<open>Every arm\<close>

text \<open>The tools of low risk, which is what the registry says below.\<close>

definition low_names :: "string list" where
  "low_names = [''connector.composio_accounts'', ''connector.providers'', ''connector.tools'', ''connectors.get'', ''connectors.list'',
     ''context.assemble'', ''context.get'', ''context.search'', ''context.status'', ''git.diff'', ''git.log'', ''git.status'',
     ''github.checks_status'', ''github.issue_get'', ''github.issue_list'', ''github.pr_get'', ''github.pr_list'', ''mcp.status'',
     ''memory.get'', ''memory.search'', ''skills.list'', ''skills.read'', ''skills.search'', ''tasks.get'', ''tasks.list'',
     ''workspace.context'', ''workspace.list_files'', ''workspace.read_file'']"

definition arm_ok :: "'p services \<Rightarrow> session_identity option \<Rightarrow> json \<Rightarrow> 'p arm \<Rightarrow> bool" where
  "arm_ok v caller a p \<longleftrightarrow> (if fst p \<in> set low_names then leaves (harmless v) (snd p)
     else \<exists>body. p = gated v caller a (fst p) body)"

lemma reading_arm_ok: "n \<in> set low_names \<Longrightarrow> leaves (harmless v) f \<Longrightarrow> arm_ok v caller a (n, f)"
  by (simp add: arm_ok_def)

lemma gated_arm_ok: "n \<notin> set low_names \<Longrightarrow> arm_ok v caller a (gated v caller a n body)"
  by (auto simp: arm_ok_def gated_def)

lemma numbered_Inr: "numbered a f = Inr op \<Longrightarrow> \<exists>n. f n = Inr op"
  by (auto simp: numbered_def bindR_Inr_iff)

lemma leaves_target [leave_rules]: "leaves (harmless v) (resolve_github_target v a)"
  unfolding resolve_github_target_def Let_def by (intro leave_rules) simp

lemma leaves_github:
  assumes "\<And>t op. decoded = Inr op \<Longrightarrow> reading (GithubCall t op)"
  shows "leaves (harmless v) (github_body v a name decoded)"
  unfolding github_body_def by (intro leave_rules assms)

lemma leaves_git [leave_rules]: "reading_git op \<Longrightarrow> leaves (harmless v) (git_run v op)"
  unfolding git_run_def by (intro leave_rules) simp

lemma leaves_composio [leave_rules]: "reading (ComposioCall c) \<Longrightarrow> leaves (harmless v) (composio v c)"
  unfolding composio_def by (intro leave_rules)

lemma status_arms_ok: "list_all (arm_ok v caller a) (status_arms v)"
  unfolding status_arms_def
  by (simp only: list.pred_inject, intro conjI TrueI reading_arm_ok leave_rules) (simp add: low_names_def)

lemma skill_arms_ok: "list_all (arm_ok v caller a) (skill_arms v caller a)"
  unfolding skill_arms_def Let_def
  by (simp only: list.pred_inject, intro conjI TrueI reading_arm_ok gated_arm_ok leave_rules) (simp_all add: low_names_def)

lemma workspace_arms_ok: "list_all (arm_ok v caller a) (workspace_arms v caller a)"
  unfolding workspace_arms_def
  by (simp only: list.pred_inject, intro conjI TrueI reading_arm_ok gated_arm_ok leave_rules) (simp_all add: low_names_def)

lemma fs_arms_ok: "list_all (arm_ok v caller a) (fs_arms v caller a)"
  unfolding fs_arms_def all_fs_tools_def
  by (simp only: list.pred_inject list.map fs_tool_name.simps, intro conjI TrueI gated_arm_ok) (simp_all add: low_names_def)

lemma memory_arms_ok: "list_all (arm_ok v caller a) (memory_arms v caller a)"
  unfolding memory_arms_def Let_def
  by (simp only: list.pred_inject, intro conjI TrueI reading_arm_ok gated_arm_ok leave_rules) (simp_all add: low_names_def)

lemma task_arms_ok: "list_all (arm_ok v caller a) (task_arms v caller a)"
  unfolding task_arms_def Let_def
  by (simp only: list.pred_inject, intro conjI TrueI reading_arm_ok gated_arm_ok leave_rules) (simp_all add: low_names_def)

lemma connector_store_arms_ok: "list_all (arm_ok v caller a) (connector_store_arms v caller a)"
  unfolding connector_store_arms_def Let_def
  by (simp only: list.pred_inject, intro conjI TrueI reading_arm_ok gated_arm_ok leave_rules) (simp_all add: low_names_def)

lemma connector_arms_ok: "list_all (arm_ok v caller a) (connector_arms v caller a)"
  unfolding connector_arms_def Let_def
  by (simp only: list.pred_inject, intro conjI TrueI reading_arm_ok gated_arm_ok leave_rules) (simp_all add: low_names_def)

lemma context_arms_ok: "list_all (arm_ok v caller a) (context_arms v caller a)"
  unfolding context_arms_def Let_def
  by (simp only: list.pred_inject, intro conjI TrueI reading_arm_ok gated_arm_ok leave_rules) (simp_all add: low_names_def)

lemma github_arms_ok: "list_all (arm_ok v caller a) (github_arms v caller a)"
  unfolding github_arms_def Let_def
  by (simp only: list.pred_inject, intro conjI TrueI reading_arm_ok gated_arm_ok leaves_github)
     (auto simp: low_names_def bindR_Inr_iff dest!: numbered_Inr)

lemma git_arms_ok: "list_all (arm_ok v caller a) (git_arms v caller a)"
  unfolding git_arms_def Let_def
  by (simp only: list.pred_inject, intro conjI TrueI reading_arm_ok gated_arm_ok leave_rules) (simp_all add: low_names_def)

lemma static_arms_ok: "list_all (arm_ok v caller a) (static_arms v caller a)"
  by (simp only: static_arms_def list_all_append status_arms_ok skill_arms_ok workspace_arms_ok fs_arms_ok memory_arms_ok
      task_arms_ok connector_store_arms_ok connector_arms_ok context_arms_ok github_arms_ok git_arms_ok)

section \<open>The registry and the arms\<close>

text \<open>The names of the arms, in the order of the code.\<close>

definition tool_names :: "string list" where
  "tool_names =
    [''mcp.status'', ''skills.list'', ''skills.read'', ''skills.add'', ''skills.remove'', ''skills.enable'',
     ''skills.disable'', ''skills.search'', ''workspace.context'', ''workspace.list_files'',
     ''workspace.read_file'', ''workspace.write_file'', ''workspace.delete_file'', ''filesystem.replace'',
     ''filesystem.insert'', ''filesystem.delete_range'', ''filesystem.apply_diff'', ''filesystem.patch'',
     ''filesystem.rollback'', ''memory.store'', ''memory.search'', ''memory.get'', ''memory.delete'',
     ''memory.update'', ''tasks.create'', ''tasks.list'', ''tasks.get'', ''tasks.update'', ''tasks.delete'',
     ''connectors.list'', ''connectors.get'', ''connectors.add'', ''connectors.enable'',
     ''connectors.disable'', ''connectors.remove'', ''connector.providers'', ''connector.tools'',
     ''connector.invoke'', ''connector.composio_link'', ''connector.composio_accounts'',
     ''connector.composio_register'', ''connector.composio_remove'', ''context.status'', ''context.insert'',
     ''context.get'', ''context.remove'', ''context.search'', ''context.optimize'', ''context.assemble'',
     ''context.protect'', ''context.unprotect'', ''context.offload'', ''context.restore'',
     ''github.pr_list'', ''github.pr_get'', ''github.pr_create'', ''github.pr_merge'', ''github.pr_review'',
     ''github.issue_list'', ''github.issue_get'', ''github.issue_create'', ''github.issue_comment'',
     ''github.checks_status'', ''github.workflow_dispatch'', ''github.release_create'', ''git.status'',
     ''git.branch'', ''git.log'', ''git.diff'', ''git.stage'', ''git.unstage'', ''git.commit'',
     ''terminal.run'']"

lemma arms_in_order: "map fst (static_arms v caller a) = tool_names"
  by (simp add: static_arms_def status_arms_def skill_arms_def workspace_arms_def fs_arms_def all_fs_tools_def memory_arms_def
      task_arms_def connector_store_arms_def connector_arms_def context_arms_def github_arms_def git_arms_def gated_def Let_def
      tool_names_def)

lemma arm_names: "set (map fst (static_arms v caller a)) = set (map td_name registry)"
proof -
  have "list_all (List.member tool_names) (map td_name registry) \<and> list_all (List.member (map td_name registry)) tool_names"
    by code_simp
  then show ?thesis unfolding arms_in_order by (auto simp: list_all_iff)
qed

lemma registry_names: "name \<in> set (map td_name registry) \<longleftrightarrow> registry_lookup name \<noteq> None"
  by (auto simp: registry_lookup_find find_None_iff)


lemma registered_arm:
  assumes "registry_lookup name = Some d"
  shows "\<exists>f. map_of (static_arms v caller a) name = Some f \<and> arm_ok v caller a (name, f)"
proof -
  have "name \<in> fst ` set (static_arms v caller a)"
    using arm_names [of v caller a] registry_names [of name] assms by auto
  then obtain f where f: "map_of (static_arms v caller a) name = Some f" by (metis map_of_eq_None_iff not_Some_eq)
  with map_of_SomeD [OF f] static_arms_ok [of v caller a] show ?thesis by (auto simp: list_all_iff)
qed

lemma unregistered_arm: "registry_lookup name = None \<Longrightarrow> map_of (static_arms v caller a) name = None"
  using arm_names [of v caller a] registry_names [of name] by (simp add: map_of_eq_None_iff)

section \<open>The gate of the arms\<close>


lemma validate_only_log: "validate_dynamic_arguments ls reg name a w = (r, w') \<Longrightarrow> only_log w w'"
  by (auto simp: validate_dynamic_arguments_def split: option.splits prod.splits if_splits sum.splits)



lemma split_qualified:
  "split_once (CHR ''.'') (qualified_name i t) = Some (if CHR ''.'' \<in> set i
     then (takeWhile (\<lambda>c. c \<noteq> CHR ''.'') i, drop (length (takeWhile (\<lambda>c. c \<noteq> CHR ''.'') i) + 1) i @ ''.'' @ t) else (i, t))"
proof (cases "CHR ''.'' \<in> set i")
  case True
  then have "length (takeWhile (\<lambda>c. c \<noteq> CHR ''.'') i) < length i" by (induction i) auto
  with True show ?thesis by (simp add: qualified_name_def split_once_first takeWhile_dot)
next
  case False
  then show ?thesis unfolding qualified_name_def by (induction i) auto
qed

lemma validated_registered:
  "validate_dynamic_arguments ls r name a w = (Inr u, w') \<Longrightarrow>
     \<exists>p. split_once (CHR ''.'') name = Some (dynamic_target name) \<and> map_of (rg_providers r) (fst (dynamic_target name)) = Some p"
  by (auto simp: validate_dynamic_arguments_def dynamic_target_def provider_tools_def split: option.splits if_splits sum.splits)

lemma dynamic_arm_run:
  "dynamic_arm v name a h = (case validate_dynamic_arguments (sv_lister v) (hb_registry h) name a (hb_edit h) of
     (Inl e, w) \<Rightarrow> (Inl e, h\<lparr>hb_edit := w\<rparr>)
   | (Inr _, w) \<Rightarrow> (case dynamic_target name of (i, t) \<Rightarrow>
       if t = [] then (Inl (Other (Txt ''tool name is required'')), h\<lparr>hb_edit := w\<rparr>)
       else (map_sum Other DynamicValue (sv_invoker v (the (map_of (rg_providers (hb_registry h)) i)) t a),
         h\<lparr>hb_edit := sv_effect v (ProviderCall i t a) w, hb_sent := hb_sent h @ [ProviderCall i t a]\<rparr>)))"
proof -
  obtain i t where d: "dynamic_target name = (i, t)" by fastforce
  obtain r w where r: "validate_dynamic_arguments (sv_lister v) (hb_registry h) name a (hb_edit h) = (r, w)" by fastforce
  show ?thesis
  proof (cases r)
    case (Inl e)
    with r d show ?thesis by (simp add: dynamic_arm_def validated_call_def bindE_run on_edit_def)
  next
    case (Inr u)
    with validated_registered r d obtain p where p: "map_of (rg_providers (hb_registry h)) i = Some p" by fastforce
    then show ?thesis using r d Inr
      by (cases "sv_invoker v p t a")
        (auto simp: dynamic_arm_def validated_call_def provider_call_def giving_def call_out_def invoke_def bindE_run on_edit_def Let_def)
  qed
qed

lemma tool_arm_unregistered:
  assumes "registry_lookup name = None"
  shows "tool_arm v caller name a = (if CHR ''.'' \<in> set name then dynamic_arm v name a else fail (unknown_tool name))"
  by (simp add: tool_arm_def unregistered_arm [OF assms])

lemma refused_only_audit:
  "validate_dynamic_arguments ls r name a (hb_edit h) = (x, w) \<Longrightarrow> only_audit h (h\<lparr>hb_edit := w\<rparr>)"
  by (drule validate_only_log) (auto simp: only_log_def only_audit_def)



text \<open>
  C37. Where a call of an advertised name goes. The tool \<open>t\<close> of a provider \<open>i\<close> is advertised as the two names
  with a dot between. When that is the name of a registered tool, the call runs the arm of the dispatcher,
  not the provider. Otherwise it is refused by the check of its arguments, with nothing changed but the
  audit log, or it goes to the provider named before the first dot: when \<open>i\<close> has no dot, to \<open>i\<close> as \<open>t\<close>, and
  the answer is that of the instance (an empty tool name is refused before); when \<open>i\<close> has a dot, which the
  check of a server configuration allows, to another provider under another name.
\<close>

theorem advertised_name_routes:
  "case registry_lookup (qualified_name i t) of
     Some d \<Rightarrow> map_of (static_arms v caller a) (qualified_name i t) = Some (tool_arm v caller (qualified_name i t) a)
   | None \<Rightarrow> (case validate_dynamic_arguments (sv_lister v) (hb_registry h) (qualified_name i t) a (hb_edit h) of
       (Inl e, w) \<Rightarrow> tool_arm v caller (qualified_name i t) a h = (Inl e, h\<lparr>hb_edit := w\<rparr>) \<and> only_audit h (h\<lparr>hb_edit := w\<rparr>)
     | (Inr _, w) \<Rightarrow> (if CHR ''.'' \<notin> set i
         then \<exists>p. map_of (rg_providers (hb_registry h)) i = Some p \<and> tool_arm v caller (qualified_name i t) a h
           = (if t = [] then (Inl (Other (Txt ''tool name is required'')), h\<lparr>hb_edit := w\<rparr>)
              else (map_sum Other DynamicValue (sv_invoker v p t a),
                h\<lparr>hb_edit := sv_effect v (ProviderCall i t a) w, hb_sent := hb_sent h @ [ProviderCall i t a]\<rparr>))
         else \<exists>j u p. j \<noteq> i \<and> j @ ''.'' @ u = qualified_name i t \<and> CHR ''.'' \<notin> set j \<and> map_of (rg_providers (hb_registry h)) j = Some p
           \<and> tool_arm v caller (qualified_name i t) a h = (map_sum Other DynamicValue (sv_invoker v p u a),
                h\<lparr>hb_edit := sv_effect v (ProviderCall j u a) w, hb_sent := hb_sent h @ [ProviderCall j u a]\<rparr>)))"
proof (cases "registry_lookup (qualified_name i t)")
  case (Some d)
  from registered_arm [OF Some, of v caller a] show ?thesis by (auto simp: Some tool_arm_def)
next
  case None
  let ?n = "qualified_name i t" and ?j = "takeWhile (\<lambda>c. c \<noteq> CHR ''.'') i"
  let ?u = "drop (length (takeWhile (\<lambda>c. c \<noteq> CHR ''.'') i) + 1) i @ ''.'' @ t"
  have arm: "tool_arm v caller ?n a = dynamic_arm v ?n a"
    by (simp add: tool_arm_unregistered [OF None]) (simp add: qualified_name_def)
  obtain r w where r: "validate_dynamic_arguments (sv_lister v) (hb_registry h) ?n a (hb_edit h) = (r, w)" by fastforce
  show ?thesis
  proof (cases r)
    case (Inl e)
    with None arm r refused_only_audit [OF r] show ?thesis by (simp add: dynamic_arm_run)
  next
    case (Inr x)
    have d: "dynamic_target ?n = (if CHR ''.'' \<in> set i then (?j, ?u) else (i, t))"
      by (simp add: dynamic_target_def split_qualified)
    from validated_registered [OF r [unfolded Inr]] obtain p where
      p: "map_of (rg_providers (hb_registry h)) (fst (dynamic_target ?n)) = Some p" by blast
    show ?thesis
    proof (cases "CHR ''.'' \<in> set i")
      case True
      then have j: "?j \<noteq> i" "CHR ''.'' \<notin> set ?j" by (metis set_takeWhileD)+
      have "i = ?j @ ''.'' @ drop (length ?j + 1) i" using True by (induction i) auto
      then have "?j @ ''.'' @ ?u = ?n" unfolding qualified_name_def by (metis append.assoc)
      moreover have "tool_arm v caller ?n a h = (map_sum Other DynamicValue (sv_invoker v p ?u a),
          h\<lparr>hb_edit := sv_effect v (ProviderCall ?j ?u a) w, hb_sent := hb_sent h @ [ProviderCall ?j ?u a]\<rparr>)"
        using p True by (simp add: arm dynamic_arm_run r Inr d)
      moreover have "map_of (rg_providers (hb_registry h)) ?j = Some p" using p True d by simp
      ultimately have ex: "\<exists>j u p. j \<noteq> i \<and> j @ ''.'' @ u = ?n \<and> CHR ''.'' \<notin> set j \<and> map_of (rg_providers (hb_registry h)) j = Some p
           \<and> tool_arm v caller ?n a h = (map_sum Other DynamicValue (sv_invoker v p u a),
                h\<lparr>hb_edit := sv_effect v (ProviderCall j u a) w, hb_sent := hb_sent h @ [ProviderCall j u a]\<rparr>)"
        using j by (intro exI [of _ ?j] exI [of _ ?u] exI [of _ p] conjI)
      show ?thesis unfolding None option.case r Inr prod.case sum.case by (subst if_not_P) (use True in simp, rule ex)
    next
      case False
      with p have "map_of (rg_providers (hb_registry h)) i = Some p" by (simp add: d)
      moreover from this have "tool_arm v caller ?n a h = (if t = [] then (Inl (Other (Txt ''tool name is required'')), h\<lparr>hb_edit := w\<rparr>)
          else (map_sum Other DynamicValue (sv_invoker v p t a),
            h\<lparr>hb_edit := sv_effect v (ProviderCall i t a) w, hb_sent := hb_sent h @ [ProviderCall i t a]\<rparr>))"
        using False by (simp add: arm dynamic_arm_run r Inr d)
      ultimately show ?thesis using None r Inr False by simp
    qed
  qed
qed

end
