(* ===== verification/ProtocolSafety.thy ===== *)
theory ProtocolSafety
  imports Protocol HubSafety StepSystem
begin

text \<open>
  What the protocol layer guarantees a client whatever it sends: every request is answered under its
  own id and no notification is; a session that is not ready does nothing but log; interleaved requests
  of one session open it at most once and do no work before; and what the gate of \<open>tools/call\<close> covers
  and does not cover.
\<close>

section \<open>The session\<close>

definition same_session :: "'p server \<Rightarrow> 'p server \<Rightarrow> bool" where
  "same_session s s' \<longleftrightarrow> sr_session s' = sr_session s"

lemma same_session_order: "reflp same_session" "transp same_session"
  by (auto simp: same_session_def intro!: reflpI transpI)

lemmas leaves_session_bind [leave_rules] = leaves_bind [OF same_session_order(2)]
lemmas leaves_session_pure [leave_rules] = leaves_pure [OF same_session_order(1)]

lemma leaves_session [leave_rules]:
  "leaves same_session (on_hub f)" "leaves same_session (audit u)" "leaves same_session (fire_event ev)"
  "leaves same_session (count_call v name ok)"
  by (simp_all add: leaves_def same_session_def on_hub_def audit_def fire_event_def count_call_def Let_def split: prod.split)

lemma only_audit_log [simp]: "only_audit h (h\<lparr>hb_edit := (hb_edit h)\<lparr>ew_log := lg\<rparr>\<rparr>)"
  by (auto simp: only_audit_def)

lemma only_audit_relog [simp]:
  "only_audit h (h\<lparr>hb_edit := (hb_edit h)\<lparr>ew_log := lg\<rparr>\<rparr>\<lparr>hb_edit := (hb_edit h)\<lparr>ew_log := lg'\<rparr>\<rparr>)"
  by (auto simp: only_audit_def)

lemma only_audit_lift: "only_log (hb_edit h) w \<Longrightarrow> only_audit h (h\<lparr>hb_edit := w\<rparr>)"
  by (auto simp: only_audit_def only_log_def)

lemma leaves_some: "run_method v m params caller = Some f \<Longrightarrow> leaves same_session f"
  unfolding run_method_def call_method_def read_method_def prompt_method_def Let_def
  by (auto intro!: leave_rules split: if_split_asm)

lemma dispatch_inner_session: "leaves same_session (dispatch_inner v q caller)"
  by (auto simp: dispatch_inner_def reject_envelope_def intro!: leave_rules leaves_some split: option.split)

section \<open>Answers\<close>

lemma respond_simps [simp]:
  "respond i b = respond j c \<longleftrightarrow> i = j \<and> b = c" "respond i b \<noteq> NoResponse"
  "result_is_ok (respond i b) \<longleftrightarrow> (\<exists>x. b = RpcResult x)" "\<not> result_is_ok NoResponse"
  by (auto simp: respond_def result_is_ok_def split: rpc_body.split)

text \<open>What an admission can be: nothing for a notification, an error under the request's id, or the way in.\<close>

lemma admit_run:
  "admit q s = (r, s') \<Longrightarrow> sr_session s' = sr_session s \<and> only_audit (sr_hub s) (sr_hub s') \<and>
     (case r of
        Inl e \<Rightarrow> rq_id q \<noteq> None
      | Inr None \<Rightarrow> rq_id q \<noteq> None \<and> fst (gate (sl_phase (sr_session s)) (rq_method q)) = Admit \<and> s' = s
      | Inr (Some x) \<Rightarrow> if rq_id q = None
          then x = NoResponse \<and> s' = s\<lparr>sr_events := sr_events s @ [NotificationReceived (rq_method q)]\<rparr>
          else \<exists>c m. x = respond (rq_id q) (RpcError c m))"
  by (auto simp: admit_def audit_def fire_event_def reject_envelope_def null_id_error_def bindE_run
      split: if_splits option.splits prod.splits admission.splits)

lemma inner_answer:
  "dispatch_inner v q caller s = (Inr x, s') \<Longrightarrow> rq_id q \<noteq> None \<Longrightarrow> \<exists>b. x = respond (rq_id q) b"
  unfolding dispatch_inner_def reject_envelope_def bindE_run by (auto split: if_splits option.splits prod.splits sum.splits)

lemma settle_answer:
  "settle_initialize q (respond i b) s = (r, s') \<Longrightarrow> i = rq_id q \<Longrightarrow> \<exists>b'. r = Inr (respond (rq_id q) b')"
  by (auto simp: settle_initialize_def bindE_run audit_def fire_event_def Let_def split: if_splits prod.splits sum.splits)

lemma request_answer:
  assumes "dispatch_request v q s = (r, s')" and i: "rq_id q \<noteq> None"
  shows "\<exists>b. case r of Inl e \<Rightarrow> True | Inr x \<Rightarrow> x = respond (rq_id q) b"
proof -
  obtain a s1 where a: "admit q s = (a, s1)" by fastforce
  note run = assms(1) [unfolded dispatch_request_def bindE_run a, simplified]
  show ?thesis
  proof (cases a)
    case (Inr early)
    show ?thesis
    proof (cases early)
      case None
      obtain x s2 where x: "dispatch_inner v q (sl_caller (sr_session s1)) s1 = (x, s2)" by fastforce
      show ?thesis
      proof (cases x)
        case Inr': (Inr y)
        from inner_answer [OF x [unfolded Inr'] i] obtain b where y: "y = respond (rq_id q) b" by blast
        with run Inr None x Inr' have "settle_initialize q (respond (rq_id q) b) s2 = (r, s')" by (simp add: bindE_run)
        from settle_answer [OF this refl] show ?thesis by auto
      qed (use run Inr None x in \<open>auto simp: bindE_run\<close>)
    qed (use run Inr admit_run [OF a] i in auto)
  qed (use run in auto)
qed

lemma notification_run:
  "rq_id q = None \<Longrightarrow>
   dispatch_request v q s = (Inr NoResponse, s\<lparr>sr_events := sr_events s @ [NotificationReceived (rq_method q)]\<rparr>)"
  by (simp add: dispatch_request_def admit_def fire_event_def bindE_run)

lemma parse_message_id:
  "parse_message parse input = Inr q \<Longrightarrow> Option.bind (parse input) (\<lambda>j. json_get j ''id'') = rq_id q"
  by (auto simp: parse_message_def rpc_request_of_def split: option.splits bind_splits if_splits)

text \<open>
  C31. Whatever a client sends, on any session: a message that is not a JSON object is answered with a
  parse error and changes nothing; a notification gets no answer and only fires its event; and a message
  with an id, whatever its method does or fails with, gets one response, under exactly that id.
\<close>

theorem every_request_answered:
  "case parse_message parse input of
     Inl e \<Rightarrow> dispatch_with_lifecycle v parse input s =
       (respond (Option.bind (parse input) (\<lambda>j. json_get j ''id'')) (RpcError parse_error_code (Txt ''invalid JSON'')), s)
   | Inr q \<Rightarrow> (case rq_id q of
       None \<Rightarrow> dispatch_with_lifecycle v parse input s =
         (NoResponse, s\<lparr>sr_events := sr_events s @ [NotificationReceived (rq_method q)]\<rparr>)
     | Some i \<Rightarrow> \<exists>b. fst (dispatch_with_lifecycle v parse input s) = respond (Some i) b)"
proof (cases "parse_message parse input")
  case (Inl e)
  then have "e = parse_error (Txt ''invalid JSON'')" by (auto simp: parse_message_def split: option.splits)
  with Inl show ?thesis
    by (simp add: dispatch_with_lifecycle_def dispatch_strict_with_lifecycle_def bindE_run error_response_def parse_error_def)
next
  case (Inr q)
  have d: "dispatch_strict_with_lifecycle v parse input s = dispatch_request v q s"
    by (simp add: dispatch_strict_with_lifecycle_def bindE_run Inr)
  show ?thesis
  proof (cases "rq_id q")
    case None
    with Inr d show ?thesis by (simp add: dispatch_with_lifecycle_def notification_run)
  next
    case (Some i)
    obtain r s' where r: "dispatch_request v q s = (r, s')" by fastforce
    from request_answer [OF r] Some parse_message_id [OF Inr] Inr d r show ?thesis
      by (cases r) (auto simp: dispatch_with_lifecycle_def error_response_def split: dispatch_error.splits)
  qed
qed

section \<open>A session that is not ready\<close>

lemma gate_admits: "fst (gate ph m) = Admit \<longleftrightarrow> (ph = SessionNew \<and> m \<in> {''initialize'', ''ping''}) \<or> (ph = SessionReady \<and> m \<noteq> ''initialize'')"
  by (auto simp: gate_def split: session_phase.splits)

lemma inner_bootstrap:
  "dispatch_inner v q caller s = (r, s') \<Longrightarrow> rq_method q \<in> {''initialize'', ''ping''} \<Longrightarrow> only_audit (sr_hub s) (sr_hub s')"
  by (auto simp: dispatch_inner_def run_method_def reject_envelope_def audit_def bindE_run split: if_splits option.splits sum.splits)

lemma settle_world: "settle_initialize q x s = (r, s') \<Longrightarrow> only_audit (sr_hub s) (sr_hub s')"
  by (auto simp: settle_initialize_def mark_initialized_def bindE_run audit_def fire_event_def Let_def split: if_splits)

lemma request_unready:
  assumes "dispatch_request v q s = (r, s')" and n: "sl_phase (sr_session s) \<noteq> SessionReady"
  shows "only_audit (sr_hub s) (sr_hub s')"
proof -
  obtain a s1 where a: "admit q s = (a, s1)" by fastforce
  note run = assms(1) [unfolded dispatch_request_def bindE_run a, simplified]
  show ?thesis
  proof (cases "a = Inr None")
    case True
    with admit_run [OF a] n have s1: "s1 = s" and m: "rq_method q \<in> {''initialize'', ''ping''}" by (auto simp: gate_admits)
    obtain x s2 where x: "dispatch_inner v q (sl_caller (sr_session s1)) s1 = (x, s2)" by fastforce
    have w: "only_audit (sr_hub s) (sr_hub s2)" using inner_bootstrap [OF x m] s1 by simp
    show ?thesis
    proof (cases x)
      case (Inr y)
      with run True x have "settle_initialize q y s2 = (r, s')" by (simp add: bindE_run)
      from only_audit_trans [OF w settle_world [OF this]] show ?thesis .
    qed (use run True x w in \<open>auto simp: bindE_run\<close>)
  qed (use run admit_run [OF a] in \<open>auto split: sum.splits option.splits\<close>)
qed

text \<open>
  C33. A session that has not completed \<open>initialize\<close>, or that was closed or failed, is inert: whatever
  message arrives, the files, the locks, the snapshots, the authorization state, the stores, the engine, the
  providers and the counters keep every value and no service is called; only the audit log grows.
\<close>

theorem unready_session_inert:
  "is_initialized (sr_session s) \<or> only_audit (sr_hub s) (sr_hub (snd (dispatch_with_lifecycle v parse input s)))"
proof (cases "parse_message parse input")
  case (Inl e)
  then show ?thesis by (simp add: dispatch_with_lifecycle_def dispatch_strict_with_lifecycle_def bindE_run)
next
  case (Inr q)
  obtain r s' where r: "dispatch_request v q s = (r, s')" by fastforce
  have "is_initialized (sr_session s) \<or> only_audit (sr_hub s) (sr_hub s')"
    using request_unready [OF r] by (auto simp: is_initialized_def)
  with Inr r show ?thesis
    by (cases r) (simp_all add: dispatch_with_lifecycle_def dispatch_strict_with_lifecycle_def bindE_run)
qed

section \<open>Requests in flight\<close>

text \<open>
  The requests of a session may overlap: between the gate, the end of the method and the settling of an
  \<open>initialize\<close> other requests run, and the transport may close or fail the session. A step is one of
  those; a step that names a request that is not there does nothing.
\<close>

record 'p session_run =
  cr_server :: "'p server"
  cr_admitted :: "rpc_request list"
  cr_executed :: "rpc_request list"
  cr_unsettled :: "(rpc_request \<times> dispatch_result) list"
  cr_answers :: "(rpc_request \<times> dispatch_result) list"

datatype session_event = Arrive rpc_request | Execute nat | Settle nat | CloseSession | FailSession

definition without_at :: "nat \<Rightarrow> 'a list \<Rightarrow> 'a list" where
  "without_at n xs = take n xs @ drop (Suc n) xs"

fun session_step :: "'p services \<Rightarrow> session_event \<Rightarrow> 'p session_run \<Rightarrow> 'p session_run" where
  "session_step v (Arrive q) c = (case admit q (cr_server c) of
      (Inl (DispatchError e m), s) \<Rightarrow> c\<lparr>cr_server := s, cr_answers := (q, respond (rq_id q) (RpcError e m)) # cr_answers c\<rparr>
    | (Inr (Some r), s) \<Rightarrow> c\<lparr>cr_server := s, cr_answers := (q, r) # cr_answers c\<rparr>
    | (Inr None, s) \<Rightarrow> c\<lparr>cr_server := s, cr_admitted := q # cr_admitted c\<rparr>)"
| "session_step v (Execute n) c =
     (if n < length (cr_admitted c) then
        let q = cr_admitted c ! n; c1 = c\<lparr>cr_admitted := without_at n (cr_admitted c), cr_executed := q # cr_executed c\<rparr> in
        case dispatch_inner v q (sl_caller (sr_session (cr_server c))) (cr_server c) of
          (Inl (DispatchError e m), s) \<Rightarrow> c1\<lparr>cr_server := s, cr_answers := (q, respond (rq_id q) (RpcError e m)) # cr_answers c\<rparr>
        | (Inr r, s) \<Rightarrow> c1\<lparr>cr_server := s, cr_unsettled := (q, r) # cr_unsettled c\<rparr>
      else c)"
| "session_step v (Settle n) c =
     (if n < length (cr_unsettled c) then
        let (q, r) = cr_unsettled c ! n; c1 = c\<lparr>cr_unsettled := without_at n (cr_unsettled c)\<rparr> in
        case settle_initialize q r (cr_server c) of
          (Inl (DispatchError e m), s) \<Rightarrow> c1\<lparr>cr_server := s, cr_answers := (q, respond (rq_id q) (RpcError e m)) # cr_answers c\<rparr>
        | (Inr x, s) \<Rightarrow> c1\<lparr>cr_server := s, cr_answers := (q, x) # cr_answers c\<rparr>
      else c)"
| "session_step v CloseSession c = c\<lparr>cr_server := (cr_server c)\<lparr>sr_session := mark_closed (sr_session (cr_server c))\<rparr>\<rparr>"
| "session_step v FailSession c = c\<lparr>cr_server := (cr_server c)\<lparr>sr_session := mark_failed (sr_session (cr_server c))\<rparr>\<rparr>"

definition fresh_session :: "'p server \<Rightarrow> 'p session_run" where
  "fresh_session s = \<lparr>cr_server = s\<lparr>sr_session := new_lifecycle\<rparr>, cr_admitted = [], cr_executed = [], cr_unsettled = [],
     cr_answers = []\<rparr>"

definition session_run_of :: "'p services \<Rightarrow> session_event list \<Rightarrow> 'p server \<Rightarrow> 'p session_run" where
  "session_run_of v es s = foldl (\<lambda>c e. session_step v e c) (fresh_session s) es"

text \<open>An \<open>initialize\<close> that was answered with a result.\<close>

definition opened :: "rpc_request \<times> dispatch_result \<Rightarrow> bool" where
  "opened a \<longleftrightarrow> rq_method (fst a) = ''initialize'' \<and> result_is_ok (snd a)"

definition openings :: "'p session_run \<Rightarrow> nat" where
  "openings c = length (filter opened (cr_answers c))"

definition bootstraps :: "rpc_request \<Rightarrow> bool" where
  "bootstraps q \<longleftrightarrow> rq_method q \<in> {''initialize'', ''ping''}"

text \<open>
  A session is new until it is opened or ended, it opens once, and before it opens only bootstrap
  methods are under way.
\<close>

definition session_inv :: "'p session_run \<Rightarrow> bool" where
  "session_inv c \<longleftrightarrow> openings c \<le> (if sl_phase (sr_session (cr_server c)) = SessionNew then 0 else 1)
     \<and> (sl_phase (sr_session (cr_server c)) = SessionReady \<longrightarrow> openings c = 1)
     \<and> (openings c = 0 \<longrightarrow> list_all bootstraps (cr_admitted c) \<and> list_all bootstraps (cr_executed c)
         \<and> list_all (bootstraps \<circ> fst) (cr_unsettled c))"

definition session_moves :: "'p services \<Rightarrow> 'p session_run \<Rightarrow> 'p session_run \<Rightarrow> bool" where
  "session_moves v c c' \<longleftrightarrow> (\<exists>e. c' = session_step v e c)"

lemma list_all_without: "list_all P xs \<Longrightarrow> list_all P (without_at n xs)"
  by (auto simp: list_all_iff without_at_def dest: in_set_takeD in_set_dropD)

lemma settle_run:
  "settle_initialize q x s = (r, s') \<Longrightarrow> case r of Inl e \<Rightarrow> False | Inr y \<Rightarrow>
     (if opened (q, y) then sl_phase (sr_session s) = SessionNew \<and> sl_phase (sr_session s') = SessionReady
      else sr_session s' = sr_session s)"
  by (auto simp: settle_initialize_def opened_def mark_initialized_def audit_def fire_event_def bindE_run Let_def
      split: if_splits)

lemma session_inv_answer:
  "session_inv c \<Longrightarrow> sr_session s = sr_session (cr_server c) \<Longrightarrow> \<not> opened a \<Longrightarrow>
   session_inv (c\<lparr>cr_server := s, cr_answers := a # cr_answers c\<rparr>)"
  by (simp add: session_inv_def openings_def)

lemma session_inv_admit:
  "session_inv c \<Longrightarrow> fst (gate (sl_phase (sr_session (cr_server c))) (rq_method q)) = Admit \<Longrightarrow>
   session_inv (c\<lparr>cr_admitted := q # cr_admitted c\<rparr>)"
  by (auto simp: session_inv_def openings_def gate_admits bootstraps_def)

lemma session_inv_arrive:
  assumes "session_inv c"
  shows "session_inv (session_step v (Arrive q) c)"
proof -
  obtain r s where a: "admit q (cr_server c) = (r, s)" by fastforce
  note run = admit_run [OF a]
  consider e m where "r = Inl (DispatchError e m)" | "r = Inr None" | x where "r = Inr (Some x)"
    by (metis dispatch_error.exhaust not_None_eq sum.exhaust)
  then show ?thesis
  proof cases
    case 1
    with a run session_inv_answer [OF assms] show ?thesis by (simp add: opened_def)
  next
    case 2
    with a run session_inv_admit [OF assms] show ?thesis by simp
  next
    case (3 x)
    with run have "\<not> opened (q, x)" by (auto simp: opened_def split: if_splits)
    with a run 3 session_inv_answer [OF assms] show ?thesis by simp
  qed
qed

lemma session_step_inv:
  assumes "session_inv c"
  shows "session_inv (session_step v e c)"
proof (cases e)
  case (Arrive q)
  then show ?thesis using session_inv_arrive [OF assms] by simp
next
  case (Execute n)
  show ?thesis
  proof (cases "n < length (cr_admitted c)")
    case True
    let ?q = "cr_admitted c ! n"
    obtain r s where r: "dispatch_inner v ?q (sl_caller (sr_session (cr_server c))) (cr_server c) = (r, s)" by fastforce
    have "sr_session s = sr_session (cr_server c)"
      using leaves_at [OF dispatch_inner_session r] by (simp add: same_session_def)
    moreover have "list_all bootstraps (cr_admitted c) \<Longrightarrow> bootstraps ?q" using True by (simp add: list_all_length)
    ultimately show ?thesis using assms True
      by (auto simp: Execute r session_inv_def openings_def opened_def Let_def list_all_without
          split: sum.splits dispatch_error.splits)
  qed (use assms Execute in simp)
next
  case (Settle n)
  show ?thesis
  proof (cases "n < length (cr_unsettled c)")
    case True
    obtain q x where u: "cr_unsettled c ! n = (q, x)" by fastforce
    obtain r s where r: "settle_initialize q x (cr_server c) = (r, s)" by fastforce
    from settle_run [OF r] obtain y where "r = Inr y" and "if opened (q, y) then sl_phase (sr_session (cr_server c)) = SessionNew
        \<and> sl_phase (sr_session s) = SessionReady else sr_session s = sr_session (cr_server c)" by (auto split: sum.splits)
    with assms True show ?thesis
      by (auto simp: Settle u r session_inv_def openings_def list_all_without split: if_splits)
  qed (use assms Settle in simp)
qed (use assms in \<open>auto simp: session_inv_def openings_def mark_closed_def mark_failed_def split: if_splits\<close>)

interpretation sessions: invariant_system "session_moves v" "\<lambda>c. \<exists>s. c = fresh_session s" session_inv for v
proof
  show "session_inv c" if "\<exists>s. c = fresh_session s" for c :: "'a session_run"
    using that by (auto simp: session_inv_def fresh_session_def new_lifecycle_def openings_def)
  show "session_inv c'" if "session_inv c" "session_moves v c c'" for c c' :: "'a session_run"
    using that session_step_inv by (auto simp: session_moves_def)
qed

lemma session_run_moves: "(session_moves v)\<^sup>*\<^sup>* (fresh_session s) (session_run_of v es s)"
proof (induction es rule: rev_induct)
  case (snoc e es)
  have "session_moves v (session_run_of v es s) (session_run_of v (es @ [e]) s)"
    by (auto simp: session_moves_def session_run_of_def)
  with snoc show ?case by (rule rtranclp.rtrancl_into_rtrancl)
qed (simp add: session_run_of_def)

lemma session_run_inv: "session_inv (session_run_of v es s)"
  using sessions.reach_inv [OF _ session_run_moves] by blast

text \<open>
  C32. However the requests of a session interleave, with any number of \<open>initialize\<close> requests past the
  gate at the same time and the transport closing or failing the session at any moment: at most one of
  them is answered with success, and until one is, no method other than \<open>initialize\<close> and \<open>ping\<close> is
  executed.
\<close>

theorem session_opens_once:
  "length (filter opened (cr_answers (session_run_of v es s))) \<le> 1
   \<and> (list_ex opened (cr_answers (session_run_of v es s)) \<or> list_all bootstraps (cr_executed (session_run_of v es s)))"
proof
  show "length (filter opened (cr_answers (session_run_of v es s))) \<le> 1"
    using session_run_inv [of v es s] by (auto simp: session_inv_def openings_def split: if_splits)
  show "list_ex opened (cr_answers (session_run_of v es s)) \<or> list_all bootstraps (cr_executed (session_run_of v es s))"
  proof (cases "openings (session_run_of v es s) = 0")
    case True
    then show ?thesis using session_run_inv [of v es s] by (simp add: session_inv_def)
  next
    case False
    then show ?thesis by (auto simp: openings_def list_ex_iff filter_empty_conv)
  qed
qed

section \<open>Capabilities and tool calls\<close>

definition call_name :: "json \<Rightarrow> string" where
  "call_name params = (case get_str params ''name'' of Some n \<Rightarrow> n | None \<Rightarrow> [])"

definition call_arguments :: "json \<Rightarrow> json" where
  "call_arguments params = (case json_get params ''arguments'' of Some a \<Rightarrow> a | None \<Rightarrow> JObj [])"

text \<open>An agent holds what a registered tool declares, for the resource its call names.\<close>

definition holds_declared :: "rfc \<Rightarrow> authz_env \<Rightarrow> session_identity \<Rightarrow> json \<Rightarrow> tool_definition \<Rightarrow> bool" where
  "holds_declared rfc z c arguments d \<longleftrightarrow> td_permissions d = [] \<or> (case list_for_agent (az_grants z) (si_agent_id c) of
      Inl _ \<Rightarrow> False
    | Inr grants \<Rightarrow> list_all (\<lambda>p. list_ex (grant_covers rfc (az_now z) (call_resource arguments) p) grants) (td_permissions d))"

lemma arguments_only_log: "check_arguments github name a w = (r, w') \<Longrightarrow> only_log w w'"
  by (auto simp: check_arguments_def split: sum.splits option.splits)

lemma capability_only_log:
  assumes "authorize_caller_capability rfc c name a w = (r, w')" "registry_lookup name = Some d"
  shows "only_log w w' \<and> (r = Inr () \<longrightarrow> holds_declared rfc (ew_authz w) c a d)"
proof (cases "td_permissions d = []")
  case True
  with assms show ?thesis by (simp add: authorize_caller_capability_def holds_declared_def)
next
  case False
  show ?thesis
  proof (cases "list_for_agent (az_grants (ew_authz w)) (si_agent_id c)")
    case (Inl e)
    with assms False show ?thesis by (auto simp: authorize_caller_capability_def bindE_run)
  next
    case (Inr gs)
    with assms False have "require_covered rfc (az_now (ew_authz w)) gs c name (call_resource a) (td_permissions d) w = (r, w')"
      by (simp add: authorize_caller_capability_def bindE_run)
    from require_covered_run [OF this] Inr show ?thesis by (simp add: holds_declared_def)
  qed
qed

text \<open>The two checks in front of every arm, for a bound caller.\<close>

lemma checks_run:
  assumes "bindE (on_edit (check_arguments g name a)) (\<lambda>_. bindE (on_edit (authorize_caller_capability rfc c name a)) (\<lambda>_. k)) h = (r, h')"
    and d: "registry_lookup name = Some d"
  shows "(only_audit h h' \<and> isl r) \<or> holds_declared rfc (ew_authz (hb_edit h)) c a d"
proof -
  let ?w = "hb_edit h"
  obtain r1 w1 where 1: "check_arguments g name a ?w = (r1, w1)" by fastforce
  obtain r2 w2 where 2: "authorize_caller_capability rfc c name a w1 = (r2, w2)" by fastforce
  have l1: "only_log ?w w1" using arguments_only_log [OF 1] .
  have z: "ew_authz w1 = ew_authz ?w" using only_log_parts [OF l1] by simp
  have l2: "only_log ?w w2" using only_log_trans [OF l1] capability_only_log [OF 2 d] by blast
  show ?thesis using assms(1) 1 2 only_audit_lift [OF l1] only_audit_lift [OF l2] capability_only_log [OF 2 d] z
    by (cases r1; cases r2) (auto simp: bindE_run on_edit_def)
qed

lemma call_tool_unfold:
  "call_name params \<noteq> [] \<Longrightarrow> is_object (call_arguments params) \<Longrightarrow>
   call_tool_for v params caller =
     bindE (on_edit (check_arguments (sv_github v) (call_name params) (call_arguments params))) (\<lambda>_.
     bindE (on_edit (case caller of Some c \<Rightarrow> authorize_caller_capability (sv_rfc v) c (call_name params) (call_arguments params)
         | None \<Rightarrow> ret ())) (\<lambda>_.
     bindE (note_event (audit_allow_as ''tool_invoke'' (call_name params) ''tools/call'' (caller_audit_correlation caller))) (\<lambda>_.
     bindE (tool_arm v caller (call_name params) (call_arguments params)) (\<lambda>x.
     ret (JObj [(''content'', JArr [JObj [(''text'', JStr (sv_print v x)), (''type'', JStr ''text'')]])])))))"
  unfolding call_tool_for_def Let_def call_name_def [symmetric] call_arguments_def [symmetric] by simp

lemma call_tool_malformed:
  "call_name params = [] \<or> \<not> is_object (call_arguments params) \<Longrightarrow>
   \<exists>e. \<forall>caller. call_tool_for v params caller = fail e"
  unfolding call_tool_for_def Let_def call_name_def [symmetric] call_arguments_def [symmetric] by auto

lemma agent_calls_need_grants:
  "case registry_lookup (call_name params) of None \<Rightarrow> True
   | Some d \<Rightarrow> holds_declared (sv_rfc v) (ew_authz (hb_edit h)) c (call_arguments params) d
      \<or> (only_audit h (snd (call_tool_for v params (Some c) h)) \<and> isl (fst (call_tool_for v params (Some c) h)))"
proof (cases "registry_lookup (call_name params)")
  case (Some d)
  obtain x h' where x: "call_tool_for v params (Some c) h = (x, h')" by fastforce
  show ?thesis
  proof (cases "call_name params = [] \<or> \<not> is_object (call_arguments params)")
    case True
    from call_tool_malformed [OF this, of v] obtain e where "\<forall>caller. call_tool_for v params caller = fail e" ..
    then show ?thesis by (simp add: Some)
  next
    case False
    with x call_tool_unfold [of params v "Some c"] have "bindE (on_edit (check_arguments (sv_github v) (call_name params) (call_arguments params))) (\<lambda>_.
        bindE (on_edit (authorize_caller_capability (sv_rfc v) c (call_name params) (call_arguments params))) (\<lambda>_.
        bindE (note_event (audit_allow_as ''tool_invoke'' (call_name params) ''tools/call'' (caller_audit_correlation (Some c)))) (\<lambda>_.
        bindE (tool_arm v (Some c) (call_name params) (call_arguments params)) (\<lambda>x.
        ret (JObj [(''content'', JArr [JObj [(''text'', JStr (sv_print v x)), (''type'', JStr ''text'')]])]))))) h = (x, h')" by simp
    from checks_run [OF this Some] x Some show ?thesis by auto
  qed
qed simp

lemma validate_any_log:
  "fst (validate_dynamic_arguments ls r name a (w\<lparr>ew_log := lg\<rparr>)) = fst (validate_dynamic_arguments ls r name a w)"
  by (simp add: validate_dynamic_arguments_def bindE_run split: option.split sum.split prod.split)

lemma dynamic_result:
  "fst (dynamic_arm v name a h) = (case fst (validate_dynamic_arguments (sv_lister v) (hb_registry h) name a (hb_edit h)) of
     Inl e \<Rightarrow> Inl e | Inr _ \<Rightarrow> map_sum Other DynamicValue (invoke_qualified (sv_invoker v) name a (hb_registry h)))"
proof -
  obtain r w where r: "validate_dynamic_arguments (sv_lister v) (hb_registry h) name a (hb_edit h) = (r, w)" by fastforce
  show ?thesis
  proof (cases r)
    case (Inr u)
    with validated_registered r obtain p where p: "split_once (CHR ''.'') name = Some (dynamic_target name)"
      "map_of (rg_providers (hb_registry h)) (fst (dynamic_target name)) = Some p" by fastforce
    then show ?thesis
      by (cases "dynamic_target name") (simp add: dynamic_arm_run r Inr invoke_qualified_def invoke_def)
  qed (simp add: dynamic_arm_run r)
qed

lemma dynamic_any_log:
  "fst (dynamic_arm v name a (h\<lparr>hb_edit := (hb_edit h)\<lparr>ew_log := lg\<rparr>\<rparr>)) = fst (dynamic_arm v name a h)"
  by (simp add: dynamic_result validate_any_log split: sum.split)

lemma unknown_arm:
  assumes "registry_lookup name = None"
  shows "fst (tool_arm v caller name a (h\<lparr>hb_edit := (hb_edit h)\<lparr>ew_log := lg\<rparr>\<rparr>)) = fst (tool_arm v None name a h)"
  by (simp add: tool_arm_def unregistered_arm [OF assms] dynamic_any_log)

lemma dynamic_calls_ignore_grants:
  assumes none: "registry_lookup (call_name params) = None"
  shows "fst (call_tool_for v params (Some c) h) = fst (call_tool_for v params None h)"
proof (cases "call_name params = [] \<or> \<not> is_object (call_arguments params)")
  case True
  from call_tool_malformed [OF this, of v] obtain e where "\<forall>caller. call_tool_for v params caller = fail e" ..
  then show ?thesis by simp
next
  case False
  let ?n = "call_name params" and ?a = "call_arguments params"
  obtain x w where x: "check_arguments (sv_github v) ?n ?a (hb_edit h) = (x, w)" by fastforce
  define h1 where "h1 = h\<lparr>hb_edit := w\<rparr>"
  define printed where "printed r = bindR r (\<lambda>x. Inr (JObj [(''content'', JArr [JObj [(''text'', JStr (sv_print v x)), (''type'', JStr ''text'')]])]))"
    for r :: "tool_error + call_value"
  have run: "fst (call_tool_for v params caller h) = (case x of Inl e \<Rightarrow> Inl e | Inr _ \<Rightarrow> printed (fst (tool_arm v None ?n ?a h1)))" for caller
  proof -
    let ?h2 = "h1\<lparr>hb_edit := (hb_edit h1)\<lparr>ew_log := audit_allow_as ''tool_invoke'' ?n ''tools/call'' (caller_audit_correlation caller) (ew_log (hb_edit h1))\<rparr>\<rparr>"
    obtain r h3 where r: "tool_arm v caller ?n ?a ?h2 = (r, h3)" by fastforce
    have "r = fst (tool_arm v None ?n ?a h1)" using unknown_arm [OF none, where v = v and caller = caller and a = ?a and h = h1] r by (metis fst_conv)
    moreover have "fst (call_tool_for v params caller h) = (case x of Inl e \<Rightarrow> Inl e | Inr _ \<Rightarrow> printed r)"
    proof -
      have n: "?n \<noteq> []" "is_object ?a" using False by auto
      have cap: "(case caller of Some c \<Rightarrow> authorize_caller_capability (sv_rfc v) c ?n ?a | None \<Rightarrow> ret ()) = ret ()"
        by (simp add: authorize_caller_capability_def none split: option.split)
      have noted: "note_event f h1 = (Inr (), h1\<lparr>hb_edit := (hb_edit h1)\<lparr>ew_log := f (ew_log (hb_edit h1))\<rparr>\<rparr>)" for f
        by (simp add: note_event_def on_edit_def log_event_def)
      have first: "on_edit (check_arguments (sv_github v) ?n ?a) h = (x, h1)" by (simp add: on_edit_def x h1_def)
      have skip: "on_edit (ret ()) h1 = (Inr (), h1)" by (simp add: on_edit_def)
      show ?thesis
        unfolding call_tool_unfold [OF n] cap
        by (cases x; cases r) (simp_all add: bindE_run first skip noted r printed_def)
    qed
    ultimately show ?thesis by (cases x) simp_all
  qed
  show ?thesis unfolding run ..
qed

text \<open>
  C34. What the capability check covers. For every tool of the registry a call by an agent-bound session
  either fails and changes nothing but the audit log, or the agent holds, unexpired and for the resource
  the call names, every capability the tool declares; an unreadable grants store counts as none. A name
  outside the registry, that is every dynamic tool, is not covered: the session gets what an unbound
  session gets, whatever its agent was granted.
\<close>

theorem capability_check_covers_registry:
  "case registry_lookup (call_name params) of
     Some d \<Rightarrow> holds_declared (sv_rfc v) (ew_authz (hb_edit h)) c (call_arguments params) d
      \<or> (only_audit h (snd (call_tool_for v params (Some c) h)) \<and> isl (fst (call_tool_for v params (Some c) h)))
   | None \<Rightarrow> fst (call_tool_for v params (Some c) h) = fst (call_tool_for v params None h)"
proof (cases "registry_lookup (call_name params)")
  case None
  then show ?thesis using dynamic_calls_ignore_grants [where params = params and v = v and c = c and h = h] by simp
next
  case (Some d)
  then show ?thesis using agent_calls_need_grants [where params = params and v = v and c = c and h = h] by simp
qed

end
