(* ===== verification/SkillsSafety.thy ===== *)
theory SkillsSafety
  imports Skills
begin

text \<open>
  What holds of skills: the references of a project stay in order through any sequence of operations,
  and a skill that is created is read back.
\<close>

section \<open>References\<close>

datatype refs_cmd =
  AddRef store_env skills_dir string
| RemoveRef store_env string
| EnableRef store_env string
| DisableRef store_env string

fun refs_do :: "refs_cmd \<Rightarrow> refs_file \<Rightarrow> refs_file" where
  "refs_do (AddRef e d n) f = snd (refs_add e d n f)"
| "refs_do (RemoveRef e n) f = snd (refs_remove e n f)"
| "refs_do (EnableRef e n) f = snd (refs_enable e n f)"
| "refs_do (DisableRef e n) f = snd (refs_disable e n f)"

definition refs_run :: "refs_cmd list \<Rightarrow> refs_file" where
  "refs_run cs = foldl (\<lambda>f c. refs_do c f) Absent cs"

definition refs_ok :: "skill_references \<Rightarrow> bool" where
  "refs_ok r \<longleftrightarrow> sorted (rf_skills r) \<and> distinct (rf_skills r) \<and> list_all is_valid_name (rf_skills r)
     \<and> sorted (rf_disabled r) \<and> distinct (rf_disabled r) \<and> set (rf_disabled r) \<subseteq> set (rf_skills r)"

definition refs_file_ok :: "refs_file \<Rightarrow> bool" where
  "refs_file_ok f \<longleftrightarrow> (case f of Absent \<Rightarrow> True | Corrupt \<Rightarrow> False | Stored r \<Rightarrow> refs_ok r)"

lemma distinct_remdups_sorted: "sorted xs \<Longrightarrow> distinct (remdups_adj xs)" for xs :: "'a::linorder list"
  by (induction xs rule: remdups_adj.induct) (auto simp: less_le)

lemma sort_dedup_simps [simp]: "set (sort_dedup xs) = set xs" "sorted (sort_dedup xs)" "distinct (sort_dedup xs)"
  by (simp_all add: sort_dedup_def sorted_remdups_adj distinct_remdups_sorted)

lemma without_simps [simp]: "set (without n xs) = set xs - {n}" "sorted xs \<Longrightarrow> sorted (without n xs)"
  "distinct xs \<Longrightarrow> distinct (without n xs)" "list_all P xs \<Longrightarrow> list_all P (without n xs)"
  by (auto simp: without_def list_all_iff sorted_wrt_filter)

lemma validate_skill_name_Inr [simp]: "validate_skill_name n = Inr u \<longleftrightarrow> is_valid_name n"
  by (simp add: validate_skill_name_def)

lemma refs_save_ok: "refs_file_ok f \<Longrightarrow> refs_ok r \<Longrightarrow> refs_file_ok (snd (refs_save e r f))"
  by (simp add: refs_save_def refs_file_ok_def)

lemma refs_locked_ok:
  assumes "refs_file_ok f" "\<And>r. refs_ok r \<Longrightarrow> refs_file_ok (snd (body r f))"
  shows "refs_file_ok (snd (refs_locked e body f))"
proof (cases f)
  case Absent
  have "refs_ok no_references" by (simp add: refs_ok_def no_references_def)
  with assms Absent show ?thesis by (simp add: refs_locked_def bindE_run refs_load_def)
qed (use assms in \<open>auto simp: refs_locked_def bindE_run refs_load_def refs_file_ok_def\<close>)

lemma refs_bind_ok:
  "(\<And>x. m = Inr x \<Longrightarrow> refs_file_ok (snd (g x f))) \<Longrightarrow> refs_file_ok f \<Longrightarrow> refs_file_ok (snd (bindE (lift m) g f))"
  by (cases m) (simp_all add: bindE_run)

lemma saved_ok: "refs_file_ok (snd (refs_save e r f)) \<Longrightarrow> refs_file_ok (snd (bindE (refs_save e r) (\<lambda>_. ret b) f))"
  by (auto simp: bindE_run split: prod.split sum.split)

lemma refs_do_ok:
  assumes "refs_file_ok f"
  shows "refs_file_ok (snd (refs_add e d n f))" and "refs_file_ok (snd (refs_remove e n f))"
    and "refs_file_ok (snd (refs_enable e n f))" and "refs_file_ok (snd (refs_disable e n f))"
proof -
  show "refs_file_ok (snd (refs_add e d n f))"
    unfolding refs_add_def
    by (intro refs_bind_ok assms)
       (auto intro!: refs_locked_ok saved_ok refs_save_ok assms simp: refs_ok_def list_all_iff subset_iff)
  show "refs_file_ok (snd (refs_remove e n f))"
    unfolding refs_remove_def Let_def
    by (intro refs_locked_ok assms) (auto intro!: saved_ok refs_save_ok assms simp: refs_ok_def)
  show "refs_file_ok (snd (refs_enable e n f))"
    unfolding refs_enable_def
    by (intro refs_bind_ok refs_locked_ok assms) (auto intro!: refs_save_ok assms simp: refs_ok_def)
  show "refs_file_ok (snd (refs_disable e n f))"
    unfolding refs_disable_def
    by (intro refs_bind_ok refs_locked_ok assms) (auto intro!: refs_save_ok assms simp: refs_ok_def)
qed

text \<open>
  Through any sequence of adding, removing, enabling and disabling, whatever the registry holds and
  whichever locks and writes fail, the references of a project are sorted, free of duplicates and
  valid names, and what is disabled is referenced.
\<close>

theorem refs_invariant: "refs_file_ok (refs_run cs)"
proof (induction cs rule: rev_induct)
  case Nil
  show ?case by (simp add: refs_run_def refs_file_ok_def)
next
  case (snoc c cs)
  then show ?case by (cases c) (simp_all add: refs_run_def refs_do_ok)
qed

section \<open>A skill that is created is read back\<close>

lemma str_lines_line: "LF \<notin> set a \<Longrightarrow> CR \<notin> set a \<Longrightarrow> str_lines (a @ LF # r) = a # str_lines r"
proof -
  assume a: "LF \<notin> set a" "CR \<notin> set a"
  have "chomp (a @ [LF]) = a" using a(2) by (cases a rule: rev_cases) (auto simp: chomp_def strip_suffix_def)
  with a(1) show ?thesis by (simp add: str_lines_def split_inclusive_append_line)
qed

lemma chars_Nil: "chars [] = []"
  by (simp add: chars_def)

lemma chars_ascii: "byte c < 128 \<Longrightarrow> valid_utf8 s \<Longrightarrow> chars (c # s) = (byte c, [c]) # chars s"
  by (auto simp: chars_def valid_utf8_def)

lemma trim_space: "valid_utf8 s \<Longrightarrow> trim (CHR '' '' # s) = trim s"
  by (simp add: trim_def chars_ascii is_whitespace_def)

lemma trim_keeps_head:
  "byte c < 128 \<Longrightarrow> \<not> is_whitespace (byte c) \<Longrightarrow> valid_utf8 s \<Longrightarrow> \<exists>t. trim (c # s) = c # t"
  by (auto simp: trim_def Let_def chars_ascii dropWhile_append)

lemma trim_plain: "list_all (\<lambda>c. byte c < 128 \<and> \<not> is_whitespace (byte c)) s \<Longrightarrow> trim s = s"
proof -
  assume s: "list_all (\<lambda>c. byte c < 128 \<and> \<not> is_whitespace (byte c)) s"
  then have c: "valid_utf8 s \<and> chars s = map (\<lambda>c. (byte c, [c])) s"
    by (induction s) (auto simp: chars_ascii chars_Nil)
  have "dropWhile (\<lambda>(k, _). is_whitespace k) (map (\<lambda>c. (byte c, [c])) t) = map (\<lambda>c. (byte c, [c])) t"
    if "set t \<subseteq> set s" for t
    using that s by (cases t) (auto simp: list_all_iff)
  from this [of s] this [of "rev s"] c show ?thesis
    by (simp add: trim_def rev_map [symmetric] comp_def)
qed

lemma trim_matches_absent: "c \<notin> set s \<Longrightarrow> trim_matches c s = s"
proof -
  assume "c \<notin> set s"
  then have "dropWhile (\<lambda>x. x = c) t = t" if "set t \<subseteq> set s" for t
    using that by (cases t) auto
  from this [of s] this [of "rev s"] show ?thesis by (simp add: trim_matches_def)
qed

lemma name_char_plain: "name_char c \<Longrightarrow> byte c < 128 \<and> \<not> is_whitespace (byte c) \<and> c \<noteq> CHR 0x27 \<and> c \<noteq> CHR 0x22 \<and> c \<noteq> LF \<and> c \<noteq> CR"
  by (auto simp: name_char_def is_digit_def is_whitespace_def)

lemma valid_name_value:
  assumes "list_all name_char n"
  shows "metadata_value (CHR '' '' # n) = n" and "valid_utf8 n" and "LF \<notin> set n" and "CR \<notin> set n"
proof -
  have plain: "list_all (\<lambda>c. byte c < 128 \<and> \<not> is_whitespace (byte c)) n"
    using assms name_char_plain by (auto simp: list_all_iff)
  show v: "valid_utf8 n" using plain by (induction n) auto
  have q: "CHR 0x27 \<notin> set n" "CHR 0x22 \<notin> set n" using assms name_char_plain by (auto simp: list_all_iff)
  show "LF \<notin> set n" "CR \<notin> set n" using assms name_char_plain by (auto simp: list_all_iff)
  show "metadata_value (CHR '' '' # n) = n"
    using q by (simp add: metadata_value_def trim_space [OF v] trim_plain [OF plain] trim_matches_absent)
qed

lemma literal_trims: "trim ''name'' = ''name''" "trim ''description'' = ''description''" "trim ''version'' = ''version''"
  "trim ''---'' = ''---''" "trim ''version: 0.1.0'' = ''version: 0.1.0''" "metadata_value '' 0.1.0'' = ''0.1.0''"
  by code_simp+

lemma template_front:
  assumes n: "list_all name_char n" and d: "valid_utf8 d" "LF \<notin> set d" "CR \<notin> set d"
  shows "parse_front_matter (skill_template n d) = Inr (n, metadata_value (CHR '' '' # d), Some ''0.1.0'')"
proof -
  note v = valid_name_value [OF n]
  obtain t where t: "trim (''name: '' @ n) = CHR ''n'' # t"
    using trim_keeps_head [of "CHR ''n''" "''ame: '' @ n"] v(2) by (auto simp: is_whitespace_def)
  obtain u where u: "trim (''description: '' @ d) = CHR ''d'' # u"
    using trim_keeps_head [of "CHR ''d''" "''escription: '' @ d"] d(1) by (auto simp: is_whitespace_def)
  let ?r = "template_body n"
  have "skill_template n d = ''---'' @ LF # (''name: '' @ n) @ LF # (''description: '' @ d) @ LF # ''version: 0.1.0'' @ LF # ''---'' @ LF # ?r"
    by (simp add: skill_template_def front_text_def)
  moreover have "str_lines (''---'' @ LF # x) = ''---'' # str_lines x" "str_lines (''version: 0.1.0'' @ LF # x) = ''version: 0.1.0'' # str_lines x"
    "str_lines ((''name: '' @ n) @ LF # x) = (''name: '' @ n) # str_lines x"
    "str_lines ((''description: '' @ d) @ LF # x) = (''description: '' @ d) # str_lines x" for x
    by (rule str_lines_line; use v d in simp)+
  ultimately have lines: "str_lines (skill_template n d)
      = ''---'' # (''name: '' @ n) # (''description: '' @ d) # ''version: 0.1.0'' # ''---'' # str_lines ?r"
    by (simp only:)
  show ?thesis
    using t u by (simp add: parse_front_matter_def lines no_metadata_def literal_trims v(1))
qed

lemma template_valid: "list_all name_char n \<Longrightarrow> valid_utf8 d \<Longrightarrow> valid_utf8 (skill_template n d)"
proof -
  assume n: "list_all name_char n" and d: "valid_utf8 d"
  have b: "valid_utf8 (template_body n)"
    by (simp add: template_body_def valid_append valid_name_value(2) [OF n])
  show ?thesis
    by (simp add: skill_template_def front_text_def valid_append valid_name_value(2) [OF n] d b)
qed

text \<open>
  What the value of a description is, without reference to the parser: the text without the double quotes at
  its ends, and then without the single quotes at its ends.
\<close>

definition stripped_of :: "char \<Rightarrow> string \<Rightarrow> string \<Rightarrow> bool" where
  "stripped_of c s t \<longleftrightarrow> (\<exists>m n. s = replicate m c @ t @ replicate n c) \<and> (t = [] \<or> hd t \<noteq> c \<and> last t \<noteq> c)"

lemma drop_front: "\<exists>m. s = replicate m c @ dropWhile (\<lambda>x. x = c) s"
proof (induction s)
  case (Cons x s)
  then obtain m where m: "s = replicate m c @ dropWhile (\<lambda>x. x = c) s" ..
  show ?case
  proof (cases "x = c")
    case True
    with m have "x # s = replicate (Suc m) c @ dropWhile (\<lambda>x. x = c) (x # s)" by simp
    then show ?thesis ..
  qed (auto intro: exI [of _ 0])
qed simp

lemma drop_front_hd: "u = dropWhile (\<lambda>x. x = c) s \<Longrightarrow> u \<noteq> [] \<Longrightarrow> hd u \<noteq> c"
  using hd_dropWhile [of "\<lambda>x. x = c" s] by simp

lemma trim_matches_stripped: "stripped_of c s (trim_matches c s)"
proof -
  define u where "u = dropWhile (\<lambda>x. x = c) s"
  define v where "v = dropWhile (\<lambda>x. x = c) (rev u)"
  obtain m where m: "s = replicate m c @ u" using drop_front [of s c] unfolding u_def ..
  obtain n where "rev u = replicate n c @ v" using drop_front [of "rev u" c] unfolding v_def ..
  then have "rev (rev u) = rev v @ replicate n c" by simp
  then have n: "u = rev v @ replicate n c" by simp
  have "rev v = [] \<or> hd (rev v) \<noteq> c \<and> last (rev v) \<noteq> c"
  proof (cases "v = []")
    case False
    then have "last (rev v) \<noteq> c" using drop_front_hd [OF v_def] by (simp add: last_rev)
    moreover have "u \<noteq> []" "hd u = hd (rev v)" using n False by simp_all
    then have "hd (rev v) \<noteq> c" using drop_front_hd [OF u_def] by simp
    ultimately show ?thesis by blast
  qed simp
  moreover have "s = replicate m c @ rev v @ replicate n c" using m n by simp
  moreover have "trim_matches c s = rev v" by (simp add: trim_matches_def u_def v_def)
  ultimately show ?thesis unfolding stripped_of_def by metis
qed

lemma stripped_plain:
  assumes "stripped_of c s t" and "c \<notin> set s" shows "t = s"
proof -
  from assms(1) obtain m n where s: "s = replicate m c @ t @ replicate n c" unfolding stripped_of_def by blast
  have "m = 0" using assms(2) unfolding s by (cases m) simp_all
  moreover have "n = 0" using assms(2) unfolding s by (cases n) simp_all
  ultimately show ?thesis using s by simp
qed

text \<open>
  C38. Creating a skill in a registry that has none of that name, with a valid name and a description of
  one line, succeeds when the file system does its part, and reading it back gives the name, the first
  version, and the description without the space around it, without double quotes at the ends of that, and
  without single quotes at the ends of that; a description with no space and no quotes at its ends is read
  back as it was given.
\<close>

theorem skill_create_roundtrip:
  assumes "is_valid_name n" and "valid_utf8 desc" "LF \<notin> set desc" "CR \<notin> set desc" and "map_of d n = None"
  shows "case registry_create NoFault n desc d of
      (Inr s, d') \<Rightarrow> registry_get d' n = Inr (Some s) \<and> sk_name s = n \<and> sk_version s = Some ''0.1.0'' \<and> sk_path s = n
        \<and> (\<exists>t. stripped_of (CHR 0x22) (trim desc) t \<and> stripped_of (CHR 0x27) t (sk_description s))
    | (Inl e, d') \<Rightarrow> False"
proof -
  have n: "list_all name_char n" using assms(1) by (simp add: is_valid_name_def)
  have "parse_skill n \<lparr>pk_md = Some (skill_template n desc), pk_files = fs\<rparr>
    = Inr \<lparr>sk_name = n, sk_description = metadata_value (CHR '' '' # desc), sk_version = Some ''0.1.0'', sk_path = n\<rparr>" for fs
    using template_valid [OF n assms(2)] template_front [OF n assms(2-4)] assms(1)
    by (simp add: parse_skill_def from_utf8_def validate_skill_name_def ensure_def)
  moreover have "\<exists>t. stripped_of (CHR 0x22) (trim desc) t \<and> stripped_of (CHR 0x27) t (metadata_value (CHR '' '' # desc))"
    unfolding metadata_value_def trim_space [OF assms(2)] using trim_matches_stripped by blast
  ultimately show ?thesis using assms(1,5)
    by (simp add: registry_create_def place_skill_def Let_def registry_get_def validate_skill_name_def ensure_def bindE_run)
qed

theorem skill_create_roundtrip_witness:
  "case registry_create NoFault ''tidy'' '' Keeps files tidy '' [] of
      (Inr s, d') \<Rightarrow> registry_get d' ''tidy'' = Inr (Some s) \<and> sk_description s = ''Keeps files tidy''
    | (Inl e, d') \<Rightarrow> False"
proof -
  have v: "is_valid_name ''tidy''" "valid_utf8 '' Keeps files tidy ''" by code_simp+
  have t: "trim '' Keeps files tidy '' = ''Keeps files tidy''" by code_simp
  have plain: "CHR 0x22 \<notin> set ''Keeps files tidy''" "CHR 0x27 \<notin> set ''Keeps files tidy''" by simp_all
  have "case registry_create NoFault ''tidy'' '' Keeps files tidy '' [] of
      (Inr s, d') \<Rightarrow> registry_get d' ''tidy'' = Inr (Some s) \<and> sk_name s = ''tidy'' \<and> sk_version s = Some ''0.1.0'' \<and> sk_path s = ''tidy''
        \<and> (\<exists>t. stripped_of (CHR 0x22) (trim '' Keeps files tidy '') t \<and> stripped_of (CHR 0x27) t (sk_description s))
    | (Inl e, d') \<Rightarrow> False"
    by (rule skill_create_roundtrip [OF v]) simp_all
  then show ?thesis unfolding t
    by (auto split: prod.splits sum.splits dest!: stripped_plain [OF _ plain(1)] stripped_plain [OF _ plain(2)])
qed

text \<open>
  A creation whose second call fails leaves the directory behind: the name is taken from then on, and
  reading the skill fails.
\<close>

lemma failed_create_blocks_name:
  assumes "is_valid_name n" and "map_of d n = None"
  shows "case registry_create (WriteFault None m) n desc d of (r, d') \<Rightarrow> r = Inl m
    \<and> registry_create NoFault n desc d' = (Inl (Fmt ''global skill already exists: {}'' [Txt n]), d')
    \<and> isl (registry_get d' n)"
  using assms
  by (simp add: registry_create_def place_skill_def Let_def registry_get_def parse_skill_def validate_skill_name_def ensure_def
      bindE_run bindR_def)

text \<open>
  Without the condition on the line, the description can carry metadata of its own: the skill created as
  \<open>a\<close> is called \<open>b\<close>.
\<close>

lemma description_injects:
  "fst (registry_create NoFault ''a'' (''x'' @ [LF] @ ''name: b'') []) = Inr \<lparr>sk_name = ''b'', sk_description = ''x'', sk_version = Some ''0.1.0'', sk_path = ''a''\<rparr>"
  by code_simp

text \<open>A package that does not parse is installed all the same, and then no skill is listed.\<close>

lemma bad_package_blocks_list:
  assumes "is_valid_name n" "pk_md p = Some c" "length c \<le> 1048576" "parse_skill n p = Inl e"
  shows "fst (install_from_local p n d) = Inr ()" and "\<exists>e'. registry_list (snd (install_from_local p n d)) = Inl e'"
  using assms by (auto simp: install_from_local_def validate_skill_name_def validate_skill_package_def ensure_def bindE_run replace_package_def
      registry_list_def bindR_def)

end
