(* ===== verification/Spec2Isabelle.thy ===== *)
theory Spec2Isabelle
  imports EditSafety FsToolsSafety PatternSearch AuditRecovery StoreLock CircuitBreaker RateLimit Memory CollabService
    ContextPass ContextPlanner ProvidersSafety ProtocolSafety SkillsSafety Connectors Github
begin

text \<open>
  Verification development for the agent workspace hub, a Rust server (\<open>src/\<close>, crate sources
  under \<open>src/src/\<close>) through which coding agents work on the files of a workspace: they call tools
  over MCP (JSON-RPC), and the hub checks who calls, what the call may touch, changes files
  transactionally, and keeps the records that make a change undoable and traceable. The theories
  below model its core logic as functions on explicit states and prove what it relies on.

  \<^bold>\<open>How the program is put together, and where it is modelled.\<close>

  \<^item> A message of a client enters \<open>dispatch_with_lifecycle\<close> (\<open>mcp/dispatcher.rs\<close>): theory Protocol has the
    session with its phases, the envelope, the gate, the methods and \<open>tools/call\<close>; Observability the
    events, hooks and counters (\<open>mcp/observability.rs\<close>); Providers the registry of connector providers,
    the aggregation of their tools and the call of one (\<open>mcp/providers.rs\<close>). ProtocolSafety and
    ProvidersSafety hold what is proved of them.
  \<^item> Behind \<open>tools/call\<close> stands the match on the name of the tool (\<open>call_tool_for\<close>): Hub has the state
    of all tools as one record, the services they rely on as another, and the calls that leave the
    program (to providers, git, the terminal, GitHub, Composio) as a trace; ToolArms has the arms,
    one list entry for each name, in groups in the order of the code; HubSafety what is proved of
    all of them, with Frames for what a composed operation leaves alone. The file operations of the
    workspace tools (\<open>mcp/workspace.rs\<close>, and the entries of \<open>services/files.rs\<close> that take the locks)
    are in WorkspaceFiles.
  \<^item> The checks in front of the filesystem arms and their bodies: theory FsTools, with the
    advertised catalog (\<open>tools_list_static\<close>) in Catalog, the schema check of the arguments
    (\<open>mcp/schema.rs\<close>) in Json, Schema, SchemaSafety and FsArguments, its pattern engine
    (\<open>mod regex\<close>) in Pattern, PatternNfa and PatternSearch, and the execution gate with the tool
    registry and the trust rules (\<open>mcp/execution_gate.rs\<close>, \<open>mcp/tool_registry.rs\<close>,
    \<open>mcp/permissions.rs\<close>, \<open>mcp/trust.rs\<close>) in ToolGate. FsToolsSafety composes the layers.
  \<^item> An edit goes to \<open>services/edit.rs\<close>: the transaction model in EditModel, match location and lines
    in LineMap, unified diffs in UnifiedDiff, the preparation and verification of one operation in
    EditOps, the single-operation service in EditService and EditSafety, multi-file patches in
    PatchService and PatchSafety, rollback by edit id in Rollback and RollbackSafety.
  \<^item> The edit service asks the authorizer (\<open>services/authorization.rs\<close>, theory Authorization) over
    the deny rules (\<open>core/policy.rs\<close>, theory Policy); works on files through \<open>services/files.rs\<close>
    (FileTree, Files) under the locks of \<open>core/fs_coordination.rs\<close> (Coordination); captures the old
    bytes and the provenance in \<open>services/snapshot.rs\<close> (Snapshot); and writes audit events
    (\<open>services/audit.rs\<close>: the redaction and the event buffer in AuditLog, the durable log with its
    recovery in AuditStore and AuditRecovery).
  \<^item> The stores of the workspace: agents and sessions (\<open>core/agents.rs\<close>, \<open>core/sessions.rs\<close>,
    \<open>services/agent_runtime.rs\<close>) in AgentRuntime, tasks (\<open>core/tasks.rs\<close>) in Tasks, memory
    (\<open>core/memory.rs\<close>) in Memory, resource ownership (\<open>core/collaboration.rs\<close>,
    \<open>services/collaboration.rs\<close>) in Collaboration and CollabService; Stores holds what the JSON
    stores share, StoreLock the lock file they all take (\<open>mcp/store_lock.rs\<close>).
  \<^item> The context engine (\<open>context/\<close>), which decides what of the known context a model sees: items, token
    counts and the budget in ContextItem, scores, the selection and the policy in ContextSelect, the
    compressor in ContextCompress, the engine with its window file, offload records and snapshots in
    ContextEngine, the planner in ContextPlanner; ContextSelectSafety, ContextInvariant, ContextSafety
    and ContextPass hold what is proved of them.
  \<^item> The services behind the other tools: Skills (\<open>skills/\<close>, \<open>mcp/skills.rs\<close>) with SkillsSafety, the
    store of connectors in Connectors (\<open>mcp/connectors.rs\<close>), git and the terminal in Git
    (\<open>services/git.rs\<close>, \<open>services/terminal.rs\<close>), the GitHub provider in Github (\<open>mcp/github.rs\<close>).
  \<^item> The guards of the network planes: CircuitBreaker (\<open>mcp/circuit_breaker.rs\<close>) and RateLimit
    (\<open>services/rate_limit.rs\<close>).
  \<^item> Prelude and RustStr hold the result and state combinators and the string functions of the Rust
    standard library; StepSystem the invariant rule of the concurrent systems.

  \<^bold>\<open>How the model reads.\<close> A struct is a record, an enum a datatype, a fallible function returns a sum
  with the error on the left, an operation on state takes the world and returns the result with the
  new world (\<open>bindE\<close> is \<open>?\<close>). A string is its list of bytes. Machine integers keep their width
  (\<open>64 word\<close>) where the code can reach the bound, floats are the rationals they denote with the
  rounding written out. What the operating system or another process does is a script in the state:
  each read, write or lock poll takes its event from it, so a statement for every world is a
  statement for every interference.

  \<^bold>\<open>Interfaces.\<close> The locales state what one part relies on in another: \<open>invariant_system\<close> (start and
  step keep an invariant) is interpreted for the store lock, the circuit breaker, the rate
  limiter and the overlapping requests of a session; \<open>calm_store\<close> (a read returns what the last write stored, and a write leaves other files
  alone, when nothing interferes) is interpreted on the files service.

  \<^bold>\<open>What the lemmas show.\<close>

  \<^item> Edits: no file changes before authorization, validation and the durable capture of the old
    bytes, under any interference; a success reports the state the file had when it was read again
    after the write, and an edit that fails after its write fails in that verification; the run of a
    patch is given write by write, undoing included; where nobody interferes it leaves exactly the
    plan or nothing, except for the file whose own commit failed, which the reported restoration
    does not cover; rollback restores only files that still have the digest the edit produced.
  \<^item> Text: the match search is sound, complete and non-overlapping; the application of hunks equals
    the left-to-right merge byte for byte (on an open last line an added line is glued to it); line insertion and deletion are what they are on the list of lines.
  \<^item> Decisions: the complete conditions under which the authorizer, the execution gate and the session
    resolution say yes; deny rules only deny; the layers of a tool call each refuse without effect.
  \<^item> Schemas and patterns: the compiled pattern accepts exactly the language of the pattern; a
    checked schema does not go wrong at validation; validated arguments carry what the arms read;
    the catalog, the registry and the schemas fit together.
  \<^item> Durability: what a snapshot captured is what recovery returns; the audit log refines an
    append-only history through rotation and restart, and what a crash inside an append loses.
  \<^item> Stores: terminal sessions and tasks stay terminal, ownership follows its state machine by
    compare-and-set on the revision, the migration of the old memory file can be restarted.
  \<^item> Concurrency and bounds: lock acquisition is ordered, all or none, and bounded in time; the store
    lock excludes while no lock gets stale, and a waiter past its deadline returns unless the lock is stale; the breaker and the limiter keep their rates.

  \<^item> Protocol: every request is answered under its id and no notification is; a session opens once
    however its requests overlap, and does nothing before; what the capability check covers (every
    tool of the registry) and what not (dynamic tools); a low-risk tool changes nothing and makes
    reading calls only, whose own effects are all that happens; any other tool of the registry
    passes the gate or only logs; a dynamic tool passes no gate; which dynamic tools are advertised,
    and which of their names lead back to them, to a built-in, or to another provider.

  \<^item> Context: a selection splits the items exactly and stays within the budget; every sequence of
    operations keeps the items well-formed under every disk failure, and a restart finds them again;
    offloading and restoring are inverse and respect the budget; an optimization pass spares what is
    protected and reports true numbers. The rules of ContextInvariant (\<open>keeps\<close>) say how the
    combinators keep a predicate, so that an operation's proof is the list of its parts.

  \<^item> Services: skill references keep their order and a created skill is read back when the file system
    does its part; the connector store keeps its bounds; what a caller supplies never stands where
    git reads options but in the check of a reference name, and reshapes no path of a GitHub request
    but in two cases.

  Where the code does not do what it says, the theorem states what it does (a failed patch commit reports a full restoration; some
  refusals of the ownership store are not audited; a skill whose file could not be written blocks its name; a torn
  append can make the log unreadable; a restore whose publication fails deletes the last copy of
  the item).

  \<^bold>\<open>Bounds and fuel.\<close> The walk of the planner recurses on the entries it may still examine. Path resolution follows at most 40 links, as the kernel does, and the
  containment check at most 8, as the code does; both are structural in that count, and running out
  is the error the code returns. The polling loops of the locks recurse on the time left until the
  deadline (a round sleeps 25 ms); the binary search of the registry on the length of its interval;
  the fixpoint of \<open>add_thread\<close> on the unmarked states. The pattern parser recurses on the nesting
  depth, which the code limits to 24, and its loops on the length of the rest, each round taking at
  least one character; schemas nest at most 32 levels, in the check and in the validation, and one
  level more is the resource error of the code. Nothing is stated only for runs that return.

  \<^bold>\<open>Parameters.\<close> SHA-256, the RFC 3339 parser, the JSON library where a store writes or reads a line,
  fresh identifiers and timestamps are arguments; what is assumed of them is written as a hypothesis
  (two different contents of a witness have different digests, a parser returns what was
  serialised) and shown to hold by the witnesses on concrete functions.

  \<^bold>\<open>Not modelled.\<close> The transports and TLS (\<open>mcp/server.rs\<close>, \<open>mcp/http.rs\<close>, \<open>mcp/sse.rs\<close>,
  \<open>mcp/tls.rs\<close>, \<open>mcp/auth.rs\<close>): loops over third-party crates around the dispatcher. The clients of the connectors (\<open>mcp/custom_mcp.rs\<close>, \<open>mcp/composio.rs\<close>): processes and network
  services. The worktree service (\<open>services/worktree.rs\<close>). The control API, the command line and the
  terminal interface: presentation over the services modelled here. Within one operation a containment check and the
  read or write it guards are one step, and so are the test of a lock file for staleness and its
  removal: the races between two system calls of one operation are not modelled, those between
  operations are.
\<close>

end
